(* ===== verification/Xhci_Prelude.thy ===== *)
theory Xhci_Prelude
  imports Main "HOL-Library.Word"
begin

unbundle bit_operations_syntax

text \<open>
  Shared vocabulary of the development: the machine types of the driver, the two
  collections of rewrite rules the component proofs draw on, and the generic facts about
  words, lists and cyclic positions that more than one component uses.

  \<^item> \<open>ulong\<close> is the Windows \<open>ULONG\<close>: 32 bits, unsigned, wrapping. \<open>uchar\<close> is \<open>UCHAR\<close>.
  \<^item> A pointer argument the C code tests against \<open>NULL\<close> is an \<open>option\<close>; an out parameter is a
    component of the result.
  \<^item> An array the driver indexes is a list. A \<open>NULL\<close> array inside a structure is the empty list:
    no element can be read or written through it.
\<close>

type_synonym ulong = "32 word"
type_synonym uchar = "8 word"

named_theorems word_flag \<open>bitwise readings of the single-bit masks of the register layouts\<close>
named_theorems wrap_nat \<open>readings of 32-bit arithmetic as arithmetic on natural numbers\<close>

section \<open>Words\<close>

lemma ulong_len [simp]: "LENGTH(32) = 32"
  by simp

lemma unat_lt_2p32 [simp]: "unat (x :: ulong) < 4294967296"
  using unsigned_less [of x] by simp

lemma ulong_eq_iff: "(a :: ulong) = b \<longleftrightarrow> (\<forall>n. bit a n = bit b n)"
  by (auto intro: bit_eqI)

lemma bit_mask_1 [word_flag]: "bit (1 :: ulong) n \<longleftrightarrow> n = 0"
  by (simp add: bit_1_iff)

lemma bit_mask_pow:
  assumes "m < 32"
  shows "bit ((2 :: ulong) ^ m) n \<longleftrightarrow> n = m"
  using assms by (auto simp: bit_exp_iff possible_bit_word)

lemma bit_mask_2 [word_flag]: "bit (2 :: ulong) n \<longleftrightarrow> n = 1"
  using bit_mask_pow [of 1] by simp

lemma bit_mask_16 [word_flag]: "bit (16 :: ulong) n \<longleftrightarrow> n = 4"
  using bit_mask_pow [of 4] by simp

lemma bit_mask_17 [word_flag]: "bit (17 :: ulong) n \<longleftrightarrow> n = 0 \<or> n = 4"
proof -
  have "(17 :: ulong) = 1 OR 16" by simp
  then show ?thesis by (simp only: bit_or_iff bit_mask_1 bit_mask_16)
qed

lemma bit_mask_15 [word_flag]: "bit (15 :: ulong) n \<longleftrightarrow> n < 4"
proof -
  have "(15 :: ulong) = mask 4" by (simp add: mask_eq_exp_minus_1)
  then show ?thesis by (simp only: bit_mask_iff) auto
qed

lemma low_nibble_clear: "(pa :: ulong) AND 15 = 0 \<longleftrightarrow> (\<forall>n<4. \<not> bit pa n)"
  unfolding ulong_eq_iff bit_and_iff bit_mask_15 by auto

lemma and_1_eq_0 [simp]: "(w :: ulong) AND 1 = 0 \<longleftrightarrow> \<not> bit w 0"
  unfolding ulong_eq_iff bit_and_iff bit_mask_1 by (auto intro: gr0I)

lemma and_1_of_bool: "(w :: ulong) AND 1 = of_bool (bit w 0)"
  unfolding ulong_eq_iff bit_and_iff bit_mask_1 by (cases "bit w 0") (auto simp: bit_mask_1 intro: gr0I)

lemma and_16_eq_0 [simp]: "(w :: ulong) AND 16 = 0 \<longleftrightarrow> \<not> bit w 4"
  unfolding ulong_eq_iff bit_and_iff bit_mask_16 by auto

lemma unat_add_no_wrap [wrap_nat]:
  "unat (a :: ulong) + unat b < 4294967296 \<Longrightarrow> unat (a + b) = unat a + unat b"
  by (simp add: unat_word_ariths)

lemma unat_sub_no_wrap [wrap_nat]:
  "unat (b :: ulong) \<le> unat a \<Longrightarrow> unat (a - b) = unat a - unat b"
  by (simp add: unat_sub word_le_nat_alt)

lemma unat_mult_no_wrap [wrap_nat]:
  "unat (a :: ulong) * unat b < 4294967296 \<Longrightarrow> unat (a * b) = unat a * unat b"
  by (simp add: unat_word_ariths)

lemma unat_eq_iff: "unat (a :: ulong) = unat b \<longleftrightarrow> a = b"
  by (simp add: unsigned_word_eqI word_unat_eq_iff)

lemma unat_and_mask: "unat ((w :: ulong) AND mask k) = unat w mod 2 ^ k"
  by (simp add: unsigned_take_bit_eq take_bit_nat_def flip: take_bit_eq_mask)

section \<open>Cyclic positions\<close>

text \<open>Distance in a ring of \<open>n\<close> positions, and the position a given number of steps ahead.\<close>

definition cyc_dist :: "nat \<Rightarrow> nat \<Rightarrow> nat \<Rightarrow> nat" where
  "cyc_dist n d i = (i + n - d) mod n"

lemma cyc_dist_alt:
  assumes "d < n" and "i < n"
  shows "cyc_dist n d i = (if d \<le> i then i - d else i + n - d)"
  using assms by (auto simp: cyc_dist_def mod_if)

lemma cyc_dist_less: "0 < n \<Longrightarrow> cyc_dist n d i < n"
  by (simp add: cyc_dist_def)

lemma cyc_dist_self [simp]: "d < n \<Longrightarrow> cyc_dist n d d = 0"
  by (simp add: cyc_dist_def)

lemma cyc_dist_step:
  assumes "d < n" and "k < n"
  shows "cyc_dist n d ((d + k) mod n) = k"
  using assms by (auto simp: cyc_dist_alt mod_if)

lemma cyc_pos_dist:
  assumes "d < n" and "i < n"
  shows "(d + cyc_dist n d i) mod n = i"
  using assms by (auto simp: cyc_dist_alt mod_if)

lemma cyc_dist_inj:
  assumes "d < n" "i < n" "j < n" "cyc_dist n d i = cyc_dist n d j"
  shows "i = j"
  using assms cyc_pos_dist by metis

text \<open>The positions \<open>d, d + 1, \<dots>\<close> (\<open>k\<close> of them), wrapping at \<open>n\<close>.\<close>

definition cyc_seg :: "nat \<Rightarrow> nat \<Rightarrow> nat \<Rightarrow> nat list" where
  "cyc_seg n d k = map (\<lambda>j. (d + j) mod n) [0..<k]"

lemma length_cyc_seg [simp]: "length (cyc_seg n d k) = k"
  by (simp add: cyc_seg_def)

lemma cyc_seg_0 [simp]: "cyc_seg n d 0 = []"
  by (simp add: cyc_seg_def)

lemma cyc_seg_nth [simp]: "j < k \<Longrightarrow> cyc_seg n d k ! j = (d + j) mod n"
  by (simp add: cyc_seg_def)

lemma cyc_seg_add: "cyc_seg n d (k + l) = cyc_seg n d k @ cyc_seg n ((d + k) mod n) l"
proof (rule nth_equalityI)
  show "length (cyc_seg n d (k + l)) = length (cyc_seg n d k @ cyc_seg n ((d + k) mod n) l)"
    by simp
next
  fix j assume "j < length (cyc_seg n d (k + l))"
  moreover have "((d + k) mod n + (j - k)) mod n = (d + j) mod n" if "\<not> j < k"
    using that mod_add_left_eq [of "d + k" n "j - k"] by simp
  ultimately show "cyc_seg n d (k + l) ! j = (cyc_seg n d k @ cyc_seg n ((d + k) mod n) l) ! j"
    by (auto simp: nth_append simp del: diff_is_0_eq')
qed

lemma cyc_seg_Suc: "cyc_seg n d (Suc k) = d mod n # cyc_seg n (Suc d mod n) k"
  using cyc_seg_add [of n d 1 k] by (simp add: cyc_seg_def)

lemma drop_cyc_seg: "j \<le> k \<Longrightarrow> drop j (cyc_seg n d k) = cyc_seg n ((d + j) mod n) (k - j)"
  using cyc_seg_add [of n d j "k - j"] by simp

lemma set_cyc_seg:
  assumes "d < n" and "k \<le> n"
  shows "set (cyc_seg n d k) = {i. i < n \<and> cyc_dist n d i < k}"
proof
  show "set (cyc_seg n d k) \<subseteq> {i. i < n \<and> cyc_dist n d i < k}"
    using assms by (auto simp: cyc_seg_def cyc_dist_step)
next
  show "{i. i < n \<and> cyc_dist n d i < k} \<subseteq> set (cyc_seg n d k)"
  proof
    fix i assume "i \<in> {i. i < n \<and> cyc_dist n d i < k}"
    then have "i = (d + cyc_dist n d i) mod n" and "cyc_dist n d i \<in> set [0..<k]"
      using cyc_pos_dist [OF assms(1)] by auto
    then show "i \<in> set (cyc_seg n d k)"
      unfolding cyc_seg_def set_map by (rule image_eqI)
  qed
qed

lemma cyc_seg_upt:
  assumes "d + k \<le> n"
  shows "cyc_seg n d k = [d..<d + k]"
  by (rule nth_equalityI) (use assms in \<open>auto simp: cyc_seg_def\<close>)

section \<open>Bounded loops\<close>

text \<open>A loop that returns the first index with a property, a loop that clears an array, a check by enumeration.\<close>

lemma find_upt_Some: "find P [0..<n] = Some i \<longleftrightarrow> i < n \<and> P i \<and> (\<forall>j<i. \<not> P j)"
  by (auto simp: find_Some_iff intro!: exI [of _ i])

lemma find_upt_None: "find P [0..<n] = None \<longleftrightarrow> (\<forall>i<n. \<not> P i)"
  by (auto simp: find_None_iff)

lemma list_update_upto: "k \<le> length xs \<Longrightarrow> foldl (\<lambda>xs i. xs[i := z]) xs [0..<k] = replicate k z @ drop k xs"
  by (induction k) (auto simp: list_update_append Cons_nth_drop_Suc [symmetric] replicate_append_same [symmetric])

lemma list_all_upt: "list_all P [i..<j] \<Longrightarrow> i \<le> n \<Longrightarrow> n < j \<Longrightarrow> P n"
  by (simp only: list_all_iff set_upt atLeastLessThan_iff)

lemma unat_of_nat_ulong: "n < 4294967296 \<Longrightarrow> unat (of_nat n :: ulong) = n"
  by (simp add: unsigned_of_nat take_bit_nat_eq_self)

section \<open>Bytes\<close>

lemma unat_ucast_byte: "unat (ucast (b :: uchar) :: ulong) = unat b"
  by (simp add: unsigned_ucast_eq unsigned_take_bit_eq take_bit_nat_eq_self order_less_le_trans [OF unsigned_less])

lemma unat_byte_less: "unat (b :: uchar) < 256"
  using unsigned_less [of b] by simp

text \<open>Two little-endian bytes.\<close>

lemma unat_total:
  "unat ((ucast (lo :: uchar) :: ulong) OR push_bit 8 (ucast (hi :: uchar))) = unat lo + 256 * unat hi"
proof -
  have "bit (ucast lo :: ulong) n \<Longrightarrow> \<not> bit (push_bit 8 (ucast hi :: ulong)) n" for n
    by (auto simp: bit_ucast_iff bit_push_bit_iff dest: bit_imp_le_length)
  then have "(ucast lo :: ulong) OR push_bit 8 (ucast hi) = ucast lo + push_bit 8 (ucast hi)"
    by (intro disjunctive_add_eq_or [symmetric] bit_eqI) (auto simp: bit_and_iff)
  also have "\<dots> = ucast lo + of_nat 256 * ucast hi"
    by (simp add: push_bit_eq_mult mult.commute)
  finally have eq: "(ucast lo :: ulong) OR push_bit 8 (ucast hi) = ucast lo + of_nat 256 * ucast hi" .
  have "unat (of_nat 256 * ucast hi :: ulong) = 256 * unat hi"
    using unat_byte_less [of hi] by (subst unat_mult_no_wrap) (simp_all add: unat_of_nat_ulong unat_ucast_byte)
  then show ?thesis
    unfolding eq using unat_byte_less [of hi] unat_byte_less [of lo]
    by (subst unat_add_no_wrap) (simp_all add: unat_ucast_byte)
qed

end
