(* ===== verification/Xhci_Trb.thy ===== *)
theory Xhci_Trb
  imports Xhci_Prelude
begin

text \<open>
  The 16-byte Transfer Request Block of \<^verbatim>\<open>src/src/xhci.h\<close>, its field layout, and the command
  TRB builders of \<^verbatim>\<open>src/src/xhci_ring.c\<close>. A builder fills a template its caller owns: the model
  takes the template (\<open>None\<close> for a \<open>NULL\<close> pointer) and returns the status with the template as
  it is afterwards, so that a refusal that writes nothing is visible.
\<close>

record xhci_trb =
  Param0 :: ulong
  Param1 :: ulong
  Status :: ulong
  Control :: ulong

datatype ring_status =
    XHCI_RING_OK
  | XHCI_RING_BAD_PARAM
  | XHCI_RING_FULL
  | XHCI_RING_EMPTY
  | XHCI_RING_NOT_ON_RING
  | XHCI_RING_BAD_CHAIN
  | XHCI_RING_NOT_COMPLETE
  | XHCI_RING_NOT_TD_HEAD
  | XHCI_RING_BAD_COMPLETION

section \<open>Field layout\<close>

abbreviation (input) XHCI_TRB_BYTES :: ulong where "XHCI_TRB_BYTES \<equiv> 16"
abbreviation (input) XHCI_TRB_CYCLE :: ulong where "XHCI_TRB_CYCLE \<equiv> 1"
abbreviation (input) XHCI_TRB_LINK_TC :: ulong where "XHCI_TRB_LINK_TC \<equiv> 2"
abbreviation (input) XHCI_TRB_CH :: ulong where "XHCI_TRB_CH \<equiv> 0x10"
abbreviation (input) XHCI_TRB_BSR :: ulong where "XHCI_TRB_BSR \<equiv> 0x200"
abbreviation (input) XHCI_TRB_DC :: ulong where "XHCI_TRB_DC \<equiv> 0x200"
abbreviation (input) XHCI_TRB_TSP :: ulong where "XHCI_TRB_TSP \<equiv> 0x200"
abbreviation (input) XHCI_TRB_SP :: ulong where "XHCI_TRB_SP \<equiv> 0x800000"
abbreviation (input) XHCI_MAX_DCI :: ulong where "XHCI_MAX_DCI \<equiv> 31"

abbreviation (input) XHCI_TRB_TYPE_LINK :: ulong where "XHCI_TRB_TYPE_LINK \<equiv> 6"
abbreviation (input) XHCI_TRB_TYPE_NOOP :: ulong where "XHCI_TRB_TYPE_NOOP \<equiv> 8"
abbreviation (input) XHCI_TRB_TYPE_ENABLE_SLOT :: ulong where "XHCI_TRB_TYPE_ENABLE_SLOT \<equiv> 9"
abbreviation (input) XHCI_TRB_TYPE_DISABLE_SLOT :: ulong where "XHCI_TRB_TYPE_DISABLE_SLOT \<equiv> 10"
abbreviation (input) XHCI_TRB_TYPE_ADDRESS_DEVICE :: ulong where "XHCI_TRB_TYPE_ADDRESS_DEVICE \<equiv> 11"
abbreviation (input) XHCI_TRB_TYPE_CONFIGURE_EP :: ulong where "XHCI_TRB_TYPE_CONFIGURE_EP \<equiv> 12"
abbreviation (input) XHCI_TRB_TYPE_EVALUATE_CONTEXT :: ulong where "XHCI_TRB_TYPE_EVALUATE_CONTEXT \<equiv> 13"
abbreviation (input) XHCI_TRB_TYPE_RESET_EP :: ulong where "XHCI_TRB_TYPE_RESET_EP \<equiv> 14"
abbreviation (input) XHCI_TRB_TYPE_STOP_EP :: ulong where "XHCI_TRB_TYPE_STOP_EP \<equiv> 15"
abbreviation (input) XHCI_TRB_TYPE_SET_TR_DEQUEUE :: ulong where "XHCI_TRB_TYPE_SET_TR_DEQUEUE \<equiv> 16"
abbreviation (input) XHCI_TRB_TYPE_RESET_DEVICE :: ulong where "XHCI_TRB_TYPE_RESET_DEVICE \<equiv> 17"
abbreviation (input) XHCI_TRB_TYPE_NOOP_COMMAND :: ulong where "XHCI_TRB_TYPE_NOOP_COMMAND \<equiv> 23"

definition XHCI_TRB_TYPE :: "ulong \<Rightarrow> ulong" where
  "XHCI_TRB_TYPE t = push_bit 10 (t AND 0x3F)"

definition XHCI_TRB_GET_TYPE :: "ulong \<Rightarrow> ulong" where
  "XHCI_TRB_GET_TYPE dw3 = drop_bit 10 dw3 AND 0x3F"

definition XHCI_TRB_SLOT_ID :: "ulong \<Rightarrow> ulong" where
  "XHCI_TRB_SLOT_ID s = push_bit 24 (s AND 0xFF)"

definition XHCI_TRB_GET_SLOT_ID :: "ulong \<Rightarrow> ulong" where
  "XHCI_TRB_GET_SLOT_ID dw3 = drop_bit 24 dw3 AND 0xFF"

definition XHCI_TRB_EP_ID :: "ulong \<Rightarrow> ulong" where
  "XHCI_TRB_EP_ID dci = push_bit 16 (dci AND 0x1F)"

definition XHCI_TRB_GET_EP_ID :: "ulong \<Rightarrow> ulong" where
  "XHCI_TRB_GET_EP_ID dw3 = drop_bit 16 dw3 AND 0x1F"

definition XHCI_TRB_SLOT_TYPE :: "ulong \<Rightarrow> ulong" where
  "XHCI_TRB_SLOT_TYPE t = push_bit 16 (t AND 0x1F)"

definition XHCI_TRB_GET_LENGTH :: "ulong \<Rightarrow> ulong" where
  "XHCI_TRB_GET_LENGTH dw2 = dw2 AND 0x1FFFF"

section \<open>The builders\<close>

definition XhciTrbClear :: "xhci_trb \<Rightarrow> xhci_trb" where
  "XhciTrbClear trb = trb\<lparr>Param0 := 0, Param1 := 0, Status := 0, Control := 0\<rparr>"

definition XhciTrbNoOpCommand :: "xhci_trb \<Rightarrow> xhci_trb" where
  "XhciTrbNoOpCommand trb =
     (XhciTrbClear trb)\<lparr>Control := XHCI_TRB_TYPE XHCI_TRB_TYPE_NOOP_COMMAND\<rparr>"

definition XhciTrbLink :: "xhci_trb \<Rightarrow> ulong \<Rightarrow> ulong \<Rightarrow> ulong \<Rightarrow> xhci_trb" where
  "XhciTrbLink trb segmentPA toggleCycle cycle =
     (let t = (XhciTrbClear trb)\<lparr>Param0 := segmentPA, Param1 := 0,
                 Control := XHCI_TRB_TYPE XHCI_TRB_TYPE_LINK\<rparr>;
          t = (if toggleCycle \<noteq> 0 then t\<lparr>Control := Control t OR XHCI_TRB_LINK_TC\<rparr> else t);
          t = (if cycle \<noteq> 0 then t\<lparr>Control := Control t OR XHCI_TRB_CYCLE\<rparr> else t)
      in t)"

definition xhciCommandSlotIdOk :: "ulong \<Rightarrow> bool" where
  "xhciCommandSlotIdOk slotId \<longleftrightarrow> slotId \<noteq> 0 \<and> slotId \<le> 0xFF"

definition xhciInputContextPaOk :: "ulong \<Rightarrow> bool" where
  "xhciInputContextPaOk pa \<longleftrightarrow> pa \<noteq> 0 \<and> pa AND 0x0F = 0"

definition XhciTrbEnableSlot :: "xhci_trb option \<Rightarrow> ulong \<Rightarrow> ring_status \<times> xhci_trb option" where
  "XhciTrbEnableSlot trb slotType =
     (case trb of
        None \<Rightarrow> (XHCI_RING_BAD_PARAM, trb)
      | Some t \<Rightarrow>
          if slotType > 0x1F then (XHCI_RING_BAD_PARAM, trb)
          else (XHCI_RING_OK, Some ((XhciTrbClear t)\<lparr>Control :=
                 XHCI_TRB_TYPE XHCI_TRB_TYPE_ENABLE_SLOT OR XHCI_TRB_SLOT_TYPE slotType\<rparr>)))"

definition XhciTrbDisableSlot :: "xhci_trb option \<Rightarrow> ulong \<Rightarrow> ring_status \<times> xhci_trb option" where
  "XhciTrbDisableSlot trb slotId =
     (case trb of
        None \<Rightarrow> (XHCI_RING_BAD_PARAM, trb)
      | Some t \<Rightarrow>
          if \<not> xhciCommandSlotIdOk slotId then (XHCI_RING_BAD_PARAM, trb)
          else (XHCI_RING_OK, Some ((XhciTrbClear t)\<lparr>Control :=
                 XHCI_TRB_TYPE XHCI_TRB_TYPE_DISABLE_SLOT OR XHCI_TRB_SLOT_ID slotId\<rparr>)))"

definition XhciTrbResetDevice :: "xhci_trb option \<Rightarrow> ulong \<Rightarrow> ring_status \<times> xhci_trb option" where
  "XhciTrbResetDevice trb slotId =
     (case trb of
        None \<Rightarrow> (XHCI_RING_BAD_PARAM, trb)
      | Some t \<Rightarrow>
          if \<not> xhciCommandSlotIdOk slotId then (XHCI_RING_BAD_PARAM, trb)
          else (XHCI_RING_OK, Some ((XhciTrbClear t)\<lparr>Control :=
                 XHCI_TRB_TYPE XHCI_TRB_TYPE_RESET_DEVICE OR XHCI_TRB_SLOT_ID slotId\<rparr>)))"

definition XhciTrbAddressDevice ::
    "xhci_trb option \<Rightarrow> ulong \<Rightarrow> ulong \<Rightarrow> ulong \<Rightarrow> ring_status \<times> xhci_trb option" where
  "XhciTrbAddressDevice trb slotId inputContextPA blockSetAddress =
     (case trb of
        None \<Rightarrow> (XHCI_RING_BAD_PARAM, trb)
      | Some t \<Rightarrow>
          if \<not> xhciCommandSlotIdOk slotId \<or> \<not> xhciInputContextPaOk inputContextPA
          then (XHCI_RING_BAD_PARAM, trb)
          else
            let t = (XhciTrbClear t)\<lparr>Param0 := inputContextPA, Param1 := 0, Control :=
                      XHCI_TRB_TYPE XHCI_TRB_TYPE_ADDRESS_DEVICE OR XHCI_TRB_SLOT_ID slotId\<rparr>;
                t = (if blockSetAddress \<noteq> 0
                     then t\<lparr>Control := Control t OR XHCI_TRB_BSR\<rparr> else t)
            in (XHCI_RING_OK, Some t))"

definition XhciTrbConfigureEndpoint ::
    "xhci_trb option \<Rightarrow> ulong \<Rightarrow> ulong \<Rightarrow> ulong \<Rightarrow> ring_status \<times> xhci_trb option" where
  "XhciTrbConfigureEndpoint trb slotId inputContextPA deconfigure =
     (case trb of
        None \<Rightarrow> (XHCI_RING_BAD_PARAM, trb)
      | Some t \<Rightarrow>
          if \<not> xhciCommandSlotIdOk slotId then (XHCI_RING_BAD_PARAM, trb)
          else if deconfigure \<noteq> 0 then
            (XHCI_RING_OK, Some ((XhciTrbClear t)\<lparr>Param0 := 0, Param1 := 0, Control :=
               XHCI_TRB_TYPE XHCI_TRB_TYPE_CONFIGURE_EP OR XHCI_TRB_SLOT_ID slotId
                 OR XHCI_TRB_DC\<rparr>))
          else if \<not> xhciInputContextPaOk inputContextPA then (XHCI_RING_BAD_PARAM, trb)
          else
            (XHCI_RING_OK, Some ((XhciTrbClear t)\<lparr>Param0 := inputContextPA, Param1 := 0, Control :=
               XHCI_TRB_TYPE XHCI_TRB_TYPE_CONFIGURE_EP OR XHCI_TRB_SLOT_ID slotId\<rparr>)))"

definition XhciTrbEvaluateContext ::
    "xhci_trb option \<Rightarrow> ulong \<Rightarrow> ulong \<Rightarrow> ring_status \<times> xhci_trb option" where
  "XhciTrbEvaluateContext trb slotId inputContextPA =
     (case trb of
        None \<Rightarrow> (XHCI_RING_BAD_PARAM, trb)
      | Some t \<Rightarrow>
          if \<not> xhciCommandSlotIdOk slotId \<or> \<not> xhciInputContextPaOk inputContextPA
          then (XHCI_RING_BAD_PARAM, trb)
          else
            (XHCI_RING_OK, Some ((XhciTrbClear t)\<lparr>Param0 := inputContextPA, Param1 := 0, Control :=
               XHCI_TRB_TYPE XHCI_TRB_TYPE_EVALUATE_CONTEXT OR XHCI_TRB_SLOT_ID slotId\<rparr>)))"

definition xhciCommandDciOk :: "ulong \<Rightarrow> bool" where
  "xhciCommandDciOk dci \<longleftrightarrow> dci \<ge> 1 \<and> dci \<le> XHCI_MAX_DCI"

definition XhciTrbStopEndpoint ::
    "xhci_trb option \<Rightarrow> ulong \<Rightarrow> ulong \<Rightarrow> ulong \<Rightarrow> ring_status \<times> xhci_trb option" where
  "XhciTrbStopEndpoint trb slotId dci suspend =
     (case trb of
        None \<Rightarrow> (XHCI_RING_BAD_PARAM, trb)
      | Some t \<Rightarrow>
          if \<not> xhciCommandSlotIdOk slotId \<or> \<not> xhciCommandDciOk dci
          then (XHCI_RING_BAD_PARAM, trb)
          else
            let t = (XhciTrbClear t)\<lparr>Control := XHCI_TRB_TYPE XHCI_TRB_TYPE_STOP_EP
                      OR XHCI_TRB_EP_ID dci OR XHCI_TRB_SLOT_ID slotId\<rparr>;
                t = (if suspend \<noteq> 0 then t\<lparr>Control := Control t OR XHCI_TRB_SP\<rparr> else t)
            in (XHCI_RING_OK, Some t))"

definition XhciTrbResetEndpoint ::
    "xhci_trb option \<Rightarrow> ulong \<Rightarrow> ulong \<Rightarrow> ulong \<Rightarrow> ring_status \<times> xhci_trb option" where
  "XhciTrbResetEndpoint trb slotId dci preserveState =
     (case trb of
        None \<Rightarrow> (XHCI_RING_BAD_PARAM, trb)
      | Some t \<Rightarrow>
          if \<not> xhciCommandSlotIdOk slotId \<or> \<not> xhciCommandDciOk dci
          then (XHCI_RING_BAD_PARAM, trb)
          else
            let t = (XhciTrbClear t)\<lparr>Control := XHCI_TRB_TYPE XHCI_TRB_TYPE_RESET_EP
                      OR XHCI_TRB_EP_ID dci OR XHCI_TRB_SLOT_ID slotId\<rparr>;
                t = (if preserveState \<noteq> 0
                     then t\<lparr>Control := Control t OR XHCI_TRB_TSP\<rparr> else t)
            in (XHCI_RING_OK, Some t))"

definition XhciTrbSetTrDequeue ::
    "xhci_trb option \<Rightarrow> ulong \<Rightarrow> ulong \<Rightarrow> ulong \<Rightarrow> ulong \<Rightarrow> ring_status \<times> xhci_trb option" where
  "XhciTrbSetTrDequeue trb slotId dci dequeuePA dcs =
     (case trb of
        None \<Rightarrow> (XHCI_RING_BAD_PARAM, trb)
      | Some t \<Rightarrow>
          if \<not> xhciCommandSlotIdOk slotId \<or> \<not> xhciCommandDciOk dci
          then (XHCI_RING_BAD_PARAM, trb)
          else if dequeuePA = 0 \<or> dequeuePA AND 0x0F \<noteq> 0 \<or> dcs > 1
          then (XHCI_RING_BAD_PARAM, trb)
          else
            (XHCI_RING_OK, Some ((XhciTrbClear t)\<lparr>Param0 := dequeuePA OR dcs, Param1 := 0,
               Control := XHCI_TRB_TYPE XHCI_TRB_TYPE_SET_TR_DEQUEUE
                 OR XHCI_TRB_EP_ID dci OR XHCI_TRB_SLOT_ID slotId\<rparr>)))"

section \<open>Reading fields back\<close>

lemma trb_field_take_bit:
  "XHCI_TRB_TYPE t = push_bit 10 (take_bit 6 t)"
  "XHCI_TRB_GET_TYPE w = take_bit 6 (drop_bit 10 w)"
  "XHCI_TRB_SLOT_ID t = push_bit 24 (take_bit 8 t)"
  "XHCI_TRB_GET_SLOT_ID w = take_bit 8 (drop_bit 24 w)"
  "XHCI_TRB_EP_ID t = push_bit 16 (take_bit 5 t)"
  "XHCI_TRB_GET_EP_ID w = take_bit 5 (drop_bit 16 w)"
  "XHCI_TRB_SLOT_TYPE t = push_bit 16 (take_bit 5 t)"
  by (simp_all add: XHCI_TRB_TYPE_def XHCI_TRB_GET_TYPE_def XHCI_TRB_SLOT_ID_def
        XHCI_TRB_GET_SLOT_ID_def XHCI_TRB_EP_ID_def XHCI_TRB_GET_EP_ID_def XHCI_TRB_SLOT_TYPE_def
        take_bit_eq_mask mask_eq_exp_minus_1)

lemma bit_push_take:
  "bit (push_bit m (take_bit k (t :: ulong))) n \<longleftrightarrow> n < 32 \<and> m \<le> n \<and> n < m + k \<and> bit t (n - m)"
  by (auto simp: bit_push_bit_iff bit_take_bit_iff)

lemma bit_take_drop:
  "bit (take_bit k (drop_bit m (w :: ulong))) n \<longleftrightarrow> n < k \<and> bit w (n + m)"
  by (auto simp: bit_take_bit_iff bit_drop_bit_eq add.commute)

lemma field_read_own:
  assumes "m + k \<le> 32"
  shows "take_bit k (drop_bit m (push_bit m (take_bit k (t :: ulong)))) = take_bit k t"
  by (rule bit_eqI) (use assms in \<open>auto simp: bit_take_bit_iff bit_drop_bit_eq bit_push_take\<close>)

lemma field_read_other:
  assumes "m' + k' \<le> m \<or> m + k \<le> m'"
  shows "take_bit k (drop_bit m (push_bit m' (take_bit k' (t :: ulong)))) = 0"
  by (rule bit_eqI) (use assms in \<open>auto simp: bit_take_drop bit_push_take\<close>)

lemma field_or:
  "take_bit k (drop_bit m (a OR b :: ulong)) = take_bit k (drop_bit m a) OR take_bit k (drop_bit m b)"
  by (simp add: drop_bit_or take_bit_or)

lemma take_bit_small:
  "unat (t :: ulong) < 2 ^ k \<Longrightarrow> take_bit k t = t"
  by (simp add: word_unat_eq_iff unsigned_take_bit_eq take_bit_nat_eq_self)

lemma take_bit_8 [simp]: "t \<le> 0xFF \<Longrightarrow> take_bit 8 (t :: ulong) = t"
  using take_bit_small [of t 8] by (simp add: word_le_nat_alt)

lemma take_bit_5 [simp]: "t \<le> 0x1F \<Longrightarrow> take_bit 5 (t :: ulong) = t"
  using take_bit_small [of t 5] by (simp add: word_le_nat_alt)

definition trb_names :: "xhci_trb \<Rightarrow> ulong \<Rightarrow> ulong \<Rightarrow> ulong \<Rightarrow> bool" where
  "trb_names t ty e s \<longleftrightarrow> XHCI_TRB_GET_TYPE (Control t) = ty \<and> XHCI_TRB_GET_EP_ID (Control t) = e
     \<and> XHCI_TRB_GET_SLOT_ID (Control t) = s \<and> Param1 t = 0 \<and> Status t = 0 \<and> \<not> bit (Control t) 0"

text \<open>
  What a command template carries: the builder's answer is \<open>cmd_ok\<close> when it is the OK status with
  a template that reads back as the given type, endpoint and slot, and \<open>cmd_refused\<close> when it is
  the parameter error with the caller's template as it was.
\<close>

definition cmd_ok :: "ring_status \<times> xhci_trb option \<Rightarrow> ulong \<Rightarrow> ulong \<Rightarrow> ulong \<Rightarrow> ulong \<Rightarrow> bool" where
  "cmd_ok res ty e s p0 \<longleftrightarrow>
     (case res of
        (XHCI_RING_OK, Some t) \<Rightarrow> trb_names t ty e s \<and> Param0 t = p0
      | _ \<Rightarrow> False)"

definition cmd_refused :: "ring_status \<times> xhci_trb option \<Rightarrow> xhci_trb \<Rightarrow> bool" where
  "cmd_refused res t \<longleftrightarrow> res = (XHCI_RING_BAD_PARAM, Some t)"

lemma trb_get_or:
  "XHCI_TRB_GET_TYPE (a OR b) = XHCI_TRB_GET_TYPE a OR XHCI_TRB_GET_TYPE b"
  "XHCI_TRB_GET_EP_ID (a OR b) = XHCI_TRB_GET_EP_ID a OR XHCI_TRB_GET_EP_ID b"
  "XHCI_TRB_GET_SLOT_ID (a OR b) = XHCI_TRB_GET_SLOT_ID a OR XHCI_TRB_GET_SLOT_ID b"
  by (simp_all add: trb_field_take_bit field_or)

lemma trb_get_put:
  "XHCI_TRB_GET_TYPE (XHCI_TRB_TYPE t) = take_bit 6 t"
  "XHCI_TRB_GET_TYPE (XHCI_TRB_EP_ID e) = 0"
  "XHCI_TRB_GET_TYPE (XHCI_TRB_SLOT_ID s) = 0"
  "XHCI_TRB_GET_EP_ID (XHCI_TRB_TYPE t) = 0"
  "XHCI_TRB_GET_EP_ID (XHCI_TRB_EP_ID e) = take_bit 5 e"
  "XHCI_TRB_GET_EP_ID (XHCI_TRB_SLOT_ID s) = 0"
  "XHCI_TRB_GET_SLOT_ID (XHCI_TRB_TYPE t) = 0"
  "XHCI_TRB_GET_SLOT_ID (XHCI_TRB_EP_ID e) = 0"
  "XHCI_TRB_GET_SLOT_ID (XHCI_TRB_SLOT_ID s) = take_bit 8 s"
  by (simp_all add: trb_field_take_bit field_read_own field_read_other)

lemma trb_get_flag:
  "XHCI_TRB_GET_TYPE 0x200 = 0" "XHCI_TRB_GET_EP_ID 0x200 = 0" "XHCI_TRB_GET_SLOT_ID 0x200 = 0"
  "XHCI_TRB_GET_TYPE 0x800000 = 0" "XHCI_TRB_GET_EP_ID 0x800000 = 0"
  "XHCI_TRB_GET_SLOT_ID 0x800000 = 0"
  by (simp_all add: XHCI_TRB_GET_TYPE_def XHCI_TRB_GET_EP_ID_def XHCI_TRB_GET_SLOT_ID_def)

lemma trb_put_no_cycle:
  "\<not> bit (XHCI_TRB_TYPE t) 0" "\<not> bit (XHCI_TRB_EP_ID t) 0" "\<not> bit (XHCI_TRB_SLOT_ID t) 0"
  by (simp_all add: trb_field_take_bit bit_push_take)

lemmas trb_field_simps = trb_get_or trb_get_put trb_get_flag trb_put_no_cycle bit_or_iff

lemmas trb_builder_defs = cmd_ok_def cmd_refused_def trb_names_def XhciTrbClear_def Let_def

lemma slot_id_take [simp]: "xhciCommandSlotIdOk s \<Longrightarrow> take_bit 8 s = s"
  by (simp add: xhciCommandSlotIdOk_def)

lemma dci_take [simp]: "xhciCommandDciOk d \<Longrightarrow> take_bit 5 d = d"
  by (simp add: xhciCommandDciOk_def)

text \<open>
  The slot-scoped command builders refuse rather than truncate. With a Slot ID in 1..255 the
  built template reads back as the command type and the slot it was asked for, with the Input
  Context pointer unaltered and the cycle bit clear; an Input Context pointer that is zero or not
  16-byte aligned, or a Slot ID that does not fit, is the parameter error and the caller's
  template is untouched. A Deconfigure needs no Input Context.
\<close>

theorem slot_commands_decode:
  "if xhciCommandSlotIdOk s
   then cmd_ok (XhciTrbDisableSlot (Some t) s) 10 0 s 0
      \<and> cmd_ok (XhciTrbResetDevice (Some t) s) 17 0 s 0
      \<and> cmd_ok (XhciTrbConfigureEndpoint (Some t) s pa 1) 12 0 s 0
      \<and> (if xhciInputContextPaOk pa
         then cmd_ok (XhciTrbAddressDevice (Some t) s pa bsr) 11 0 s pa
            \<and> cmd_ok (XhciTrbConfigureEndpoint (Some t) s pa 0) 12 0 s pa
            \<and> cmd_ok (XhciTrbEvaluateContext (Some t) s pa) 13 0 s pa
         else cmd_refused (XhciTrbAddressDevice (Some t) s pa bsr) t
            \<and> cmd_refused (XhciTrbConfigureEndpoint (Some t) s pa 0) t
            \<and> cmd_refused (XhciTrbEvaluateContext (Some t) s pa) t)
   else cmd_refused (XhciTrbDisableSlot (Some t) s) t
      \<and> cmd_refused (XhciTrbResetDevice (Some t) s) t
      \<and> cmd_refused (XhciTrbConfigureEndpoint (Some t) s pa dc) t
      \<and> cmd_refused (XhciTrbAddressDevice (Some t) s pa bsr) t
      \<and> cmd_refused (XhciTrbEvaluateContext (Some t) s pa) t"
  by (simp add: XhciTrbDisableSlot_def XhciTrbResetDevice_def XhciTrbConfigureEndpoint_def
        XhciTrbAddressDevice_def XhciTrbEvaluateContext_def trb_builder_defs trb_field_simps)

lemma aligned_or_bit:
  assumes "pa AND 0x0F = 0" and "dcs \<le> (1 :: ulong)"
  shows "(pa OR dcs) AND NOT 0x0F = pa" and "(pa OR dcs) AND 1 = dcs"
proof -
  have "dcs = 0 \<or> dcs = 1"
    using assms(2) unat_eq_iff [of dcs 0] unat_eq_iff [of dcs 1]
    by (auto simp: word_le_nat_alt)
  then have dcs: "bit dcs n \<longleftrightarrow> n = 0 \<and> dcs = 1" for n
    by (auto simp: bit_mask_1)
  have pa: "4 \<le> n" if "bit pa n" for n
    using assms(1) that by (meson low_nibble_clear not_le)
  show "(pa OR dcs) AND NOT 0x0F = pa"
    by (rule bit_eqI)
      (auto simp only: bit_and_iff bit_or_iff bit_not_iff dcs bit_mask_15
        possible_bit_word ulong_len not_less dest: pa)
  show "(pa OR dcs) AND 1 = dcs"
    by (rule bit_eqI) (auto simp: bit_and_iff bit_or_iff dcs bit_mask_1 dest: pa)
qed

text \<open>
  The endpoint-scoped command builders (Stop Endpoint, Reset Endpoint, Set TR Dequeue
  Pointer) read back as the type, the slot and the endpoint they were asked for, whatever their
  flag; the pointer word of a Set TR Dequeue splits back into the address and the Dequeue Cycle
  State, and a misaligned or zero address, a DCS above 1, or an endpoint outside 1..31 is refused
  with the caller's template untouched.
\<close>

theorem endpoint_commands_decode:
  "if xhciCommandSlotIdOk s \<and> xhciCommandDciOk d
   then cmd_ok (XhciTrbStopEndpoint (Some t) s d sp) 15 d s 0
      \<and> cmd_ok (XhciTrbResetEndpoint (Some t) s d tsp) 14 d s 0
      \<and> (if pa \<noteq> 0 \<and> pa AND 0x0F = 0 \<and> dcs \<le> 1
         then cmd_ok (XhciTrbSetTrDequeue (Some t) s d pa dcs) 16 d s (pa OR dcs)
            \<and> (pa OR dcs) AND NOT 0x0F = pa \<and> (pa OR dcs) AND 1 = dcs
         else cmd_refused (XhciTrbSetTrDequeue (Some t) s d pa dcs) t)
   else cmd_refused (XhciTrbStopEndpoint (Some t) s d sp) t
      \<and> cmd_refused (XhciTrbResetEndpoint (Some t) s d tsp) t
      \<and> cmd_refused (XhciTrbSetTrDequeue (Some t) s d pa dcs) t"
  by (auto simp add: XhciTrbStopEndpoint_def XhciTrbResetEndpoint_def XhciTrbSetTrDequeue_def
        trb_builder_defs trb_field_simps aligned_or_bit [simplified] not_less)

end
