(* ===== verification/Xhci_Ring.thy ===== *)
theory Xhci_Ring
  imports Xhci_Trb
begin

text \<open>
  The producer ring of \<^verbatim>\<open>src/src/xhci_ring.c\<close>: one segment of TRBs whose last TRB is a permanent
  Link back to the start. The structure \<open>XHCI_RING\<close> is a record; the memory behind its \<open>Base\<close>
  pointer is the list \<open>Base\<close>. Every function of the file on this structure is a definition here, in
  the order of the file, on 32-bit words.

  Enqueueing also returns, as a ghost component, the list of the individual 32-bit stores in the
  order the code makes them, so that what the controller can observe between two stores can be
  stated.
\<close>

section \<open>State\<close>

record xhci_ring =
  Base :: "xhci_trb list"
  BasePA :: ulong
  Trbs :: ulong
  Enqueue :: ulong
  Dequeue :: ulong
  Cycle :: ulong
  Kind :: ulong

abbreviation (input) XHCI_RING_KIND_COMMAND :: ulong where "XHCI_RING_KIND_COMMAND \<equiv> 0"
abbreviation (input) XHCI_RING_KIND_ENDPOINT :: ulong where "XHCI_RING_KIND_ENDPOINT \<equiv> 1"
abbreviation (input) XHCI_RING_KIND_ISOCH :: ulong where "XHCI_RING_KIND_ISOCH \<equiv> 2"
abbreviation (input) XHCI_RING_MIN_TRBS :: ulong where "XHCI_RING_MIN_TRBS \<equiv> 3"

record xhci_td_group_placement =
  FirstIndex :: ulong
  FirstTrbPA :: ulong
  LastIndex :: ulong
  TrbCount :: ulong

record xhci_td_completion =
  ReportedIndex :: ulong
  HeadIndex :: ulong
  TailIndex :: ulong
  IsTail :: bool
  CanRetire :: bool
  NeedsRecovery :: bool

section \<open>Geometry\<close>

definition xhciRingSlots :: "xhci_ring \<Rightarrow> ulong" where
  "xhciRingSlots ring = Trbs ring - 1"

definition xhciRingNext :: "xhci_ring \<Rightarrow> ulong \<Rightarrow> ulong" where
  "xhciRingNext ring index =
     (let next = index + 1 in if next \<ge> Trbs ring - 1 then 0 else next)"

definition xhciRingUsed :: "xhci_ring \<Rightarrow> ulong" where
  "xhciRingUsed ring =
     (let slots = xhciRingSlots ring in (Enqueue ring + slots - Dequeue ring) mod slots)"

definition xhciRingDistance :: "xhci_ring \<Rightarrow> ulong \<Rightarrow> ulong" where
  "xhciRingDistance ring index =
     (let slots = xhciRingSlots ring in (index + slots - Dequeue ring) mod slots)"

definition xhciRingIsOutstanding :: "xhci_ring \<Rightarrow> ulong \<Rightarrow> bool" where
  "xhciRingIsOutstanding ring index \<longleftrightarrow>
     (if index \<ge> Trbs ring - 1 then False
      else xhciRingDistance ring index < xhciRingUsed ring)"

definition XhciSegmentUsable :: "ulong \<Rightarrow> ulong \<Rightarrow> ulong \<Rightarrow> bool" where
  "XhciSegmentUsable basePA trbs alignment =
     (if trbs = 0 \<or> trbs > 65536 div XHCI_TRB_BYTES then False
      else if basePA AND (alignment - 1) \<noteq> 0 then False
      else
        let bytes = trbs * XHCI_TRB_BYTES in
        if basePA > 0xFFFFFFFF - (bytes - 1) then False
        else if basePA AND 0xFFFF > 0x10000 - bytes then False
        else True)"

section \<open>Stores\<close>

datatype trb_word = DW0 | DW1 | DW2 | DW3

type_synonym trb_store = "nat \<times> trb_word \<times> ulong"

fun put_dw :: "trb_word \<Rightarrow> ulong \<Rightarrow> xhci_trb \<Rightarrow> xhci_trb" where
  "put_dw DW0 v t = t\<lparr>Param0 := v\<rparr>"
| "put_dw DW1 v t = t\<lparr>Param1 := v\<rparr>"
| "put_dw DW2 v t = t\<lparr>Status := v\<rparr>"
| "put_dw DW3 v t = t\<lparr>Control := v\<rparr>"

fun apply_store :: "xhci_trb list \<Rightarrow> trb_store \<Rightarrow> xhci_trb list" where
  "apply_store base (i, f, v) = base[i := put_dw f v (base ! i)]"

definition apply_stores :: "xhci_trb list \<Rightarrow> trb_store list \<Rightarrow> xhci_trb list" where
  "apply_stores base ss = foldl apply_store base ss"

definition store_trb :: "nat \<Rightarrow> xhci_trb \<Rightarrow> trb_store list" where
  "store_trb i t = [(i, DW0, Param0 t), (i, DW1, Param1 t), (i, DW2, Status t), (i, DW3, Control t)]"

section \<open>Initialisation and address arithmetic\<close>

definition zero_trb :: xhci_trb where
  "zero_trb = \<lparr>Param0 = 0, Param1 = 0, Status = 0, Control = 0\<rparr>"

definition XhciRingInit ::
    "xhci_ring option \<Rightarrow> xhci_trb list \<Rightarrow> ulong \<Rightarrow> ulong \<Rightarrow> ulong \<Rightarrow> ring_status \<times> xhci_ring option" where
  "XhciRingInit ring base basePA trbs kind =
     (if ring = None \<or> base = [] \<or> basePA = 0 then (XHCI_RING_BAD_PARAM, ring)
      else if trbs < XHCI_RING_MIN_TRBS then (XHCI_RING_BAD_PARAM, ring)
      else if kind > XHCI_RING_KIND_ISOCH then (XHCI_RING_BAD_PARAM, ring)
      else if \<not> XhciSegmentUsable basePA trbs
                  (if kind = XHCI_RING_KIND_COMMAND then 64 else XHCI_TRB_BYTES)
      then (XHCI_RING_BAD_PARAM, ring)
      else
        let base = foldl (\<lambda>b i. apply_stores b (store_trb i zero_trb)) base [0..<unat trbs];
            cycle = (1 :: ulong);
            link = XhciTrbLink zero_trb basePA 1 (cycle XOR 1);
            base = apply_stores base (store_trb (unat (trbs - 1)) link)
        in (XHCI_RING_OK,
            Some \<lparr>Base = base, BasePA = basePA, Trbs = trbs, Enqueue = 0, Dequeue = 0,
                  Cycle = cycle, Kind = kind\<rparr>))"

definition XhciRingCapacity :: "xhci_ring \<Rightarrow> ulong" where
  "XhciRingCapacity ring = xhciRingSlots ring - 1"

definition XhciRingFree :: "xhci_ring \<Rightarrow> ulong" where
  "XhciRingFree ring = xhciRingSlots ring - 1 - xhciRingUsed ring"

definition XhciRingHasRoom :: "xhci_ring \<Rightarrow> ulong \<Rightarrow> bool" where
  "XhciRingHasRoom ring trbs \<longleftrightarrow> XhciRingFree ring \<ge> trbs"

definition XhciRingTrbPA :: "xhci_ring \<Rightarrow> ulong \<Rightarrow> ulong" where
  "XhciRingTrbPA ring index =
     (if index \<ge> Trbs ring then 0 else BasePA ring + index * XHCI_TRB_BYTES)"

definition XhciRingIndexFromPA :: "xhci_ring \<Rightarrow> ulong \<Rightarrow> ring_status + ulong" where
  "XhciRingIndexFromPA ring pa =
     (if pa < BasePA ring then Inl XHCI_RING_NOT_ON_RING
      else
        let delta = pa - BasePA ring in
        if delta AND (XHCI_TRB_BYTES - 1) \<noteq> 0 then Inl XHCI_RING_NOT_ON_RING
        else
          let delta = delta div XHCI_TRB_BYTES in
          if delta \<ge> Trbs ring then Inl XHCI_RING_NOT_ON_RING
          else Inr delta)"

definition XhciRingIsOutstanding :: "xhci_ring option \<Rightarrow> ulong \<Rightarrow> bool" where
  "XhciRingIsOutstanding ring index =
     (case ring of None \<Rightarrow> False | Some r \<Rightarrow> xhciRingIsOutstanding r index)"

definition XhciRingNextIndex :: "xhci_ring \<Rightarrow> ulong \<Rightarrow> ulong" where
  "XhciRingNextIndex ring index = xhciRingNext ring index"

text \<open>The \<open>for\<close> loop of \<open>XhciRingSumTrbLengths\<close>; its first argument is \<open>limit + 1 - steps\<close>.\<close>

fun sumTrbLengths_loop :: "nat \<Rightarrow> xhci_ring \<Rightarrow> ulong \<Rightarrow> ulong \<Rightarrow> ulong \<Rightarrow> ring_status + ulong" where
  "sumTrbLengths_loop 0 ring index toIndex bytes = Inl XHCI_RING_NOT_ON_RING"
| "sumTrbLengths_loop (Suc k) ring index toIndex bytes =
     (let bytes = bytes + XHCI_TRB_GET_LENGTH (Status (Base ring ! unat index)) in
      if index = toIndex then Inr bytes
      else sumTrbLengths_loop k ring (xhciRingNext ring index) toIndex bytes)"

definition XhciRingSumTrbLengths :: "xhci_ring option \<Rightarrow> ulong \<Rightarrow> ulong \<Rightarrow> ring_status + ulong" where
  "XhciRingSumTrbLengths ring fromIndex toIndex =
     (case ring of
        None \<Rightarrow> Inl XHCI_RING_BAD_PARAM
      | Some r \<Rightarrow>
          if Base r = [] then Inl XHCI_RING_BAD_PARAM
          else if \<not> xhciRingIsOutstanding r fromIndex \<or> \<not> xhciRingIsOutstanding r toIndex
          then Inl XHCI_RING_NOT_ON_RING
          else if xhciRingDistance r toIndex < xhciRingDistance r fromIndex
          then Inl XHCI_RING_NOT_ON_RING
          else sumTrbLengths_loop (Suc (unat (xhciRingUsed r))) r fromIndex toIndex 0)"

section \<open>Enqueueing\<close>

text \<open>
  The chain-flag check: the outer loop over the declared TD lengths threads \<open>i\<close>, the position in
  the template array; the inner loop only compares.
\<close>

definition td_chain_ok :: "xhci_trb list \<Rightarrow> ulong \<Rightarrow> ulong \<Rightarrow> bool" where
  "td_chain_ok trbs i len \<longleftrightarrow>
     list_all (\<lambda>n. (Control (trbs ! (unat i + n)) AND XHCI_TRB_CH \<noteq> 0) = (n + 1 < unat len))
       [0..<unat len]"

fun checkTdChains :: "xhci_trb list \<Rightarrow> ulong \<Rightarrow> ulong list \<Rightarrow> ulong \<Rightarrow> ulong option" where
  "checkTdChains trbs count [] i = Some i"
| "checkTdChains trbs count (len # lens) i =
     (if len = 0 \<or> len > count - i then None
      else if \<not> td_chain_ok trbs i len then None
      else checkTdChains trbs count lens (i + len))"

record enqueue_state =
  eBase :: "xhci_trb list"
  eIndex :: ulong
  eCycle :: ulong
  eLast :: ulong
  eLog :: "trb_store list"

text \<open>A template's control word with the producer cycle stamped into bit 0.\<close>

definition stamp_cycle :: "ulong \<Rightarrow> ulong \<Rightarrow> ulong" where
  "stamp_cycle control cycle =
     (if cycle \<noteq> 0 then (control AND NOT XHCI_TRB_CYCLE) OR XHCI_TRB_CYCLE
      else control AND NOT XHCI_TRB_CYCLE)"

definition link_crossing_control :: "ulong \<Rightarrow> ulong \<Rightarrow> ulong \<Rightarrow> ulong" where
  "link_crossing_control linkControl cycle trbControl =
     (let control = linkControl AND NOT (XHCI_TRB_CYCLE OR XHCI_TRB_CH);
          control = (if cycle \<noteq> 0 then control OR XHCI_TRB_CYCLE else control);
          control = (if trbControl AND XHCI_TRB_CH \<noteq> 0 then control OR XHCI_TRB_CH else control)
      in control)"

definition enqueue_step :: "ulong \<Rightarrow> bool \<Rightarrow> xhci_trb \<Rightarrow> enqueue_state \<Rightarrow> enqueue_state" where
  "enqueue_step ringTrbs isFirst trb s =
     (let index = eIndex s;
          cycle = eCycle s;
          control = stamp_cycle (Control trb) cycle;
          control = (if isFirst then control XOR XHCI_TRB_CYCLE else control);
          slotStores = store_trb (unat index) (trb\<lparr>Control := control\<rparr>);
          base = apply_stores (eBase s) slotStores
      in if index + 1 = ringTrbs - 1 then
           let linkIndex = unat (ringTrbs - 1);
               linkStores = [(linkIndex, DW3,
                  link_crossing_control (Control (base ! linkIndex)) cycle (Control trb))]
           in \<lparr>eBase = apply_stores base linkStores, eIndex = 0, eCycle = cycle XOR 1,
               eLast = index, eLog = eLog s @ slotStores @ linkStores\<rparr>
         else
           \<lparr>eBase = base, eIndex = index + 1, eCycle = cycle, eLast = index,
            eLog = eLog s @ slotStores\<rparr>)"

fun enqueue_loop :: "ulong \<Rightarrow> bool \<Rightarrow> xhci_trb list \<Rightarrow> enqueue_state \<Rightarrow> enqueue_state" where
  "enqueue_loop ringTrbs isFirst [] s = s"
| "enqueue_loop ringTrbs isFirst (t # ts) s =
     enqueue_loop ringTrbs False ts (enqueue_step ringTrbs isFirst t s)"

type_synonym enqueue_result =
  "ring_status \<times> xhci_ring option \<times> xhci_td_group_placement option \<times> trb_store list"

definition XhciRingEnqueueTdGroup ::
    "xhci_ring option \<Rightarrow> xhci_trb list option \<Rightarrow> ulong \<Rightarrow> ulong list option \<Rightarrow> ulong \<Rightarrow> enqueue_result" where
  "XhciRingEnqueueTdGroup ring trbs count tdLengths tdCount =
     (case (ring, trbs, tdLengths) of
        (Some r, Some ts, Some lens) \<Rightarrow>
          if Base r = [] \<or> count = 0 then (XHCI_RING_BAD_PARAM, ring, None, [])
          else if tdCount = 0 then (XHCI_RING_BAD_PARAM, ring, None, [])
          else
            (case checkTdChains ts count (take (unat tdCount) lens) 0 of
               None \<Rightarrow> (XHCI_RING_BAD_CHAIN, ring, None, [])
             | Some i \<Rightarrow>
                 if i \<noteq> count then (XHCI_RING_BAD_CHAIN, ring, None, [])
                 else if \<not> XhciRingHasRoom r count then (XHCI_RING_FULL, ring, None, [])
                 else
                   let firstIndex = Enqueue r;
                       cycle = Cycle r;
                       firstControl = stamp_cycle (Control (ts ! 0)) cycle;
                       s = enqueue_loop (Trbs r) True (take (unat count) ts)
                             \<lparr>eBase = Base r, eIndex = firstIndex, eCycle = cycle,
                              eLast = firstIndex, eLog = []\<rparr>;
                       placement = \<lparr>FirstIndex = firstIndex,
                          FirstTrbPA = BasePA r + firstIndex * XHCI_TRB_BYTES,
                          LastIndex = eLast s, TrbCount = count\<rparr>;
                       publish = (unat firstIndex, DW3, firstControl)
                   in (XHCI_RING_OK,
                       Some (r\<lparr>Enqueue := eIndex s, Cycle := eCycle s,
                               Base := apply_store (eBase s) publish\<rparr>),
                       Some placement, eLog s @ [publish]))
      | _ \<Rightarrow> (XHCI_RING_BAD_PARAM, ring, None, []))"

definition XhciRingEnqueueTd ::
    "xhci_ring option \<Rightarrow> xhci_trb list option \<Rightarrow> ulong \<Rightarrow> ring_status \<times> xhci_ring option \<times> ulong option" where
  "XhciRingEnqueueTd ring trbs count =
     (case XhciRingEnqueueTdGroup ring trbs count (Some [count]) 1 of
        (status, ring', placement, _) \<Rightarrow>
          (status, ring', if status = XHCI_RING_OK then map_option FirstTrbPA placement else None))"

definition XhciRingControlLinkPad ::
    "xhci_ring option \<Rightarrow> ulong \<Rightarrow> ring_status \<times> xhci_ring option \<times> bool" where
  "XhciRingControlLinkPad ring groupCount =
     (case ring of
        None \<Rightarrow> (XHCI_RING_BAD_PARAM, ring, False)
      | Some r \<Rightarrow>
          if Base r = [] \<or> groupCount = 0 \<or> Trbs r < XHCI_RING_MIN_TRBS
          then (XHCI_RING_BAD_PARAM, ring, False)
          else if Enqueue r + 2 \<noteq> Trbs r then (XHCI_RING_OK, ring, False)
          else if groupCount > 0xFFFFFFFF - 1 \<or> \<not> XhciRingHasRoom r (groupCount + 1)
          then (XHCI_RING_FULL, ring, False)
          else
            let noop = zero_trb\<lparr>Control := XHCI_TRB_TYPE XHCI_TRB_TYPE_NOOP\<rparr> in
            (case XhciRingEnqueueTd ring (Some [noop]) 1 of
               (status, ring', _) \<Rightarrow> (status, ring', status = XHCI_RING_OK)))"

definition XhciRingEnqueue ::
    "xhci_ring option \<Rightarrow> xhci_trb option \<Rightarrow> ring_status \<times> xhci_ring option \<times> ulong option" where
  "XhciRingEnqueue ring trb = XhciRingEnqueueTd ring (map_option (\<lambda>t. [t]) trb) 1"

section \<open>Finding the TD of a TRB\<close>

text \<open>The two bounded walks over the Chain flags; the first argument is \<open>limit - steps\<close>.\<close>

fun td_head_loop :: "nat \<Rightarrow> xhci_ring \<Rightarrow> ulong \<Rightarrow> ulong" where
  "td_head_loop 0 ring head = head"
| "td_head_loop (Suc k) ring head =
     (if head = Dequeue ring then head
      else
        let prev = (if head = 0 then Trbs ring - 2 else head - 1) in
        if Control (Base ring ! unat prev) AND XHCI_TRB_CH = 0 then head
        else td_head_loop k ring prev)"

fun td_tail_loop :: "nat \<Rightarrow> xhci_ring \<Rightarrow> ulong \<Rightarrow> ulong" where
  "td_tail_loop 0 ring tail = tail"
| "td_tail_loop (Suc k) ring tail =
     (if Control (Base ring ! unat tail) AND XHCI_TRB_CH = 0 then tail
      else td_tail_loop k ring (xhciRingNext ring tail))"

definition XhciRingTdBounds :: "xhci_ring option \<Rightarrow> ulong \<Rightarrow> ring_status + ulong \<times> ulong" where
  "XhciRingTdBounds ring index =
     (case ring of
        None \<Rightarrow> Inl XHCI_RING_BAD_PARAM
      | Some r \<Rightarrow>
          if Base r = [] then Inl XHCI_RING_BAD_PARAM
          else if \<not> xhciRingIsOutstanding r index then Inl XHCI_RING_NOT_ON_RING
          else
            let limit = unat (xhciRingUsed r) in
            Inr (td_head_loop limit r index, td_tail_loop limit r index))"

section \<open>Completion events\<close>

abbreviation (input) XHCI_CC_SUCCESS :: ulong where "XHCI_CC_SUCCESS \<equiv> 1"
abbreviation (input) XHCI_CC_DATA_BUFFER_ERROR :: ulong where "XHCI_CC_DATA_BUFFER_ERROR \<equiv> 2"
abbreviation (input) XHCI_CC_BABBLE :: ulong where "XHCI_CC_BABBLE \<equiv> 3"
abbreviation (input) XHCI_CC_USB_TRANSACTION_ERROR :: ulong where "XHCI_CC_USB_TRANSACTION_ERROR \<equiv> 4"
abbreviation (input) XHCI_CC_TRB_ERROR :: ulong where "XHCI_CC_TRB_ERROR \<equiv> 5"
abbreviation (input) XHCI_CC_STALL :: ulong where "XHCI_CC_STALL \<equiv> 6"
abbreviation (input) XHCI_CC_RESOURCE_ERROR :: ulong where "XHCI_CC_RESOURCE_ERROR \<equiv> 7"
abbreviation (input) XHCI_CC_BANDWIDTH_ERROR :: ulong where "XHCI_CC_BANDWIDTH_ERROR \<equiv> 8"
abbreviation (input) XHCI_CC_NO_SLOTS :: ulong where "XHCI_CC_NO_SLOTS \<equiv> 9"
abbreviation (input) XHCI_CC_INVALID_STREAM_TYPE :: ulong where "XHCI_CC_INVALID_STREAM_TYPE \<equiv> 10"
abbreviation (input) XHCI_CC_SLOT_NOT_ENABLED :: ulong where "XHCI_CC_SLOT_NOT_ENABLED \<equiv> 11"
abbreviation (input) XHCI_CC_SHORT_PACKET :: ulong where "XHCI_CC_SHORT_PACKET \<equiv> 13"
abbreviation (input) XHCI_CC_VF_EVENT_RING_FULL :: ulong where "XHCI_CC_VF_EVENT_RING_FULL \<equiv> 16"
abbreviation (input) XHCI_CC_PARAMETER_ERROR :: ulong where "XHCI_CC_PARAMETER_ERROR \<equiv> 17"
abbreviation (input) XHCI_CC_BANDWIDTH_OVERRUN :: ulong where "XHCI_CC_BANDWIDTH_OVERRUN \<equiv> 18"
abbreviation (input) XHCI_CC_CONTEXT_STATE_ERROR :: ulong where "XHCI_CC_CONTEXT_STATE_ERROR \<equiv> 19"
abbreviation (input) XHCI_CC_NO_PING_RESPONSE :: ulong where "XHCI_CC_NO_PING_RESPONSE \<equiv> 20"
abbreviation (input) XHCI_CC_INCOMPATIBLE_DEVICE :: ulong where "XHCI_CC_INCOMPATIBLE_DEVICE \<equiv> 22"
abbreviation (input) XHCI_CC_MISSED_SERVICE :: ulong where "XHCI_CC_MISSED_SERVICE \<equiv> 23"
abbreviation (input) XHCI_CC_COMMAND_RING_STOPPED :: ulong where "XHCI_CC_COMMAND_RING_STOPPED \<equiv> 24"
abbreviation (input) XHCI_CC_COMMAND_ABORTED :: ulong where "XHCI_CC_COMMAND_ABORTED \<equiv> 25"
abbreviation (input) XHCI_CC_STOPPED :: ulong where "XHCI_CC_STOPPED \<equiv> 26"
abbreviation (input) XHCI_CC_STOPPED_LENGTH_INVALID :: ulong where "XHCI_CC_STOPPED_LENGTH_INVALID \<equiv> 27"
abbreviation (input) XHCI_CC_STOPPED_SHORT_PACKET :: ulong where "XHCI_CC_STOPPED_SHORT_PACKET \<equiv> 28"
abbreviation (input) XHCI_CC_MAX_EXIT_LATENCY :: ulong where "XHCI_CC_MAX_EXIT_LATENCY \<equiv> 29"
abbreviation (input) XHCI_CC_ISOCH_BUFFER_OVERRUN :: ulong where "XHCI_CC_ISOCH_BUFFER_OVERRUN \<equiv> 31"
abbreviation (input) XHCI_CC_EVENT_LOST :: ulong where "XHCI_CC_EVENT_LOST \<equiv> 32"
abbreviation (input) XHCI_CC_UNDEFINED_ERROR :: ulong where "XHCI_CC_UNDEFINED_ERROR \<equiv> 33"
abbreviation (input) XHCI_CC_INVALID_STREAM_ID :: ulong where "XHCI_CC_INVALID_STREAM_ID \<equiv> 34"
abbreviation (input) XHCI_CC_SECONDARY_BANDWIDTH :: ulong where "XHCI_CC_SECONDARY_BANDWIDTH \<equiv> 35"
abbreviation (input) XHCI_CC_SPLIT_TRANSACTION :: ulong where "XHCI_CC_SPLIT_TRANSACTION \<equiv> 36"
abbreviation (input) XHCI_CC_VENDOR_ERROR_MIN :: ulong where "XHCI_CC_VENDOR_ERROR_MIN \<equiv> 192"
abbreviation (input) XHCI_CC_VENDOR_INFO_MIN :: ulong where "XHCI_CC_VENDOR_INFO_MIN \<equiv> 224"
abbreviation (input) XHCI_CC_VENDOR_INFO_MAX :: ulong where "XHCI_CC_VENDOR_INFO_MAX \<equiv> 255"

definition xhciCodeIsStopped :: "ulong \<Rightarrow> ulong \<Rightarrow> bool" where
  "xhciCodeIsStopped kind completionCode =
     (if kind = XHCI_RING_KIND_COMMAND
      then completionCode = XHCI_CC_COMMAND_RING_STOPPED \<or> completionCode = XHCI_CC_COMMAND_ABORTED
      else completionCode \<ge> XHCI_CC_STOPPED \<and> completionCode \<le> XHCI_CC_STOPPED_SHORT_PACKET)"

definition xhciCompletionCodeValid :: "ulong \<Rightarrow> ulong \<Rightarrow> bool" where
  "xhciCompletionCodeValid kind completionCode =
     (if completionCode \<ge> XHCI_CC_VENDOR_ERROR_MIN \<and> completionCode \<le> XHCI_CC_VENDOR_INFO_MAX
      then True
      else if kind = XHCI_RING_KIND_COMMAND then
        List.member
          [XHCI_CC_SUCCESS, XHCI_CC_TRB_ERROR, XHCI_CC_RESOURCE_ERROR, XHCI_CC_BANDWIDTH_ERROR,
           XHCI_CC_NO_SLOTS, XHCI_CC_INVALID_STREAM_TYPE, XHCI_CC_SLOT_NOT_ENABLED,
           XHCI_CC_USB_TRANSACTION_ERROR, XHCI_CC_VF_EVENT_RING_FULL, XHCI_CC_PARAMETER_ERROR,
           XHCI_CC_CONTEXT_STATE_ERROR, XHCI_CC_INCOMPATIBLE_DEVICE, XHCI_CC_COMMAND_RING_STOPPED,
           XHCI_CC_COMMAND_ABORTED, XHCI_CC_MAX_EXIT_LATENCY, XHCI_CC_UNDEFINED_ERROR,
           XHCI_CC_SECONDARY_BANDWIDTH] completionCode
      else if kind = XHCI_RING_KIND_ENDPOINT then
        List.member
          [XHCI_CC_SUCCESS, XHCI_CC_DATA_BUFFER_ERROR, XHCI_CC_BABBLE,
           XHCI_CC_USB_TRANSACTION_ERROR, XHCI_CC_TRB_ERROR, XHCI_CC_STALL, XHCI_CC_SHORT_PACKET,
           XHCI_CC_NO_PING_RESPONSE, XHCI_CC_INCOMPATIBLE_DEVICE, XHCI_CC_STOPPED,
           XHCI_CC_STOPPED_LENGTH_INVALID, XHCI_CC_STOPPED_SHORT_PACKET, XHCI_CC_EVENT_LOST,
           XHCI_CC_UNDEFINED_ERROR, XHCI_CC_INVALID_STREAM_ID, XHCI_CC_SPLIT_TRANSACTION]
          completionCode
      else
        List.member
          [XHCI_CC_SUCCESS, XHCI_CC_DATA_BUFFER_ERROR, XHCI_CC_BABBLE,
           XHCI_CC_USB_TRANSACTION_ERROR, XHCI_CC_TRB_ERROR, XHCI_CC_SHORT_PACKET,
           XHCI_CC_BANDWIDTH_OVERRUN, XHCI_CC_NO_PING_RESPONSE, XHCI_CC_INCOMPATIBLE_DEVICE,
           XHCI_CC_MISSED_SERVICE, XHCI_CC_STOPPED, XHCI_CC_STOPPED_LENGTH_INVALID,
           XHCI_CC_STOPPED_SHORT_PACKET, XHCI_CC_ISOCH_BUFFER_OVERRUN, XHCI_CC_EVENT_LOST,
           XHCI_CC_UNDEFINED_ERROR, XHCI_CC_SPLIT_TRANSACTION] completionCode)"

definition XhciRingCompletionCodeValid :: "ulong \<Rightarrow> ulong \<Rightarrow> bool" where
  "XhciRingCompletionCodeValid kind completionCode = xhciCompletionCodeValid kind completionCode"

definition xhciCodeAdvancesRing :: "ulong \<Rightarrow> bool" where
  "xhciCodeAdvancesRing completionCode \<longleftrightarrow>
     completionCode = XHCI_CC_SUCCESS \<or> completionCode = XHCI_CC_SHORT_PACKET \<or>
     completionCode = XHCI_CC_MISSED_SERVICE \<or>
     (completionCode \<ge> XHCI_CC_VENDOR_INFO_MIN \<and> completionCode \<le> XHCI_CC_VENDOR_INFO_MAX)"

definition xhciEventNeedsRecovery :: "xhci_ring \<Rightarrow> ulong \<Rightarrow> bool" where
  "xhciEventNeedsRecovery ring completionCode =
     (if xhciCodeIsStopped (Kind ring) completionCode then True
      else if Kind ring \<noteq> XHCI_RING_KIND_ENDPOINT
      then Kind ring = XHCI_RING_KIND_ISOCH \<and> completionCode = XHCI_CC_TRB_ERROR
      else if xhciCodeAdvancesRing completionCode then False else True)"

definition XhciRingClassifyEvent ::
    "xhci_ring option \<Rightarrow> ulong \<Rightarrow> ulong \<Rightarrow> ring_status + xhci_td_completion" where
  "XhciRingClassifyEvent ring reportedTrbPA completionCode =
     (case ring of
        None \<Rightarrow> Inl XHCI_RING_BAD_PARAM
      | Some r \<Rightarrow>
          if Kind r > XHCI_RING_KIND_ISOCH then Inl XHCI_RING_BAD_PARAM
          else if \<not> xhciCompletionCodeValid (Kind r) completionCode
          then Inl XHCI_RING_BAD_COMPLETION
          else
            (case XhciRingIndexFromPA r reportedTrbPA of
               Inl status \<Rightarrow> Inl status
             | Inr index \<Rightarrow>
                 (case XhciRingTdBounds ring index of
                    Inl status \<Rightarrow> Inl status
                  | Inr (head, tail) \<Rightarrow>
                      Inr \<lparr>ReportedIndex = index, HeadIndex = head, TailIndex = tail,
                           IsTail = (index = tail),
                           CanRetire =
                             (index = tail \<and> \<not> xhciCodeIsStopped (Kind r) completionCode),
                           NeedsRecovery = xhciEventNeedsRecovery r completionCode\<rparr>)))"

section \<open>Retiring and repositioning\<close>

definition XhciRingRetireTd ::
    "xhci_ring option \<Rightarrow> xhci_td_completion option \<Rightarrow> ring_status \<times> xhci_ring option" where
  "XhciRingRetireTd ring completion =
     (case (ring, completion) of
        (Some r, Some c) \<Rightarrow>
          if \<not> CanRetire c then (XHCI_RING_NOT_COMPLETE, ring)
          else if \<not> xhciRingIsOutstanding r (TailIndex c) then (XHCI_RING_NOT_ON_RING, ring)
          else (XHCI_RING_OK, Some (r\<lparr>Dequeue := xhciRingNext r (TailIndex c)\<rparr>))
      | _ \<Rightarrow> (XHCI_RING_BAD_PARAM, ring))"

definition XhciRingRetireAdvancedTd ::
    "xhci_ring option \<Rightarrow> xhci_td_completion option \<Rightarrow> ulong \<Rightarrow> ring_status \<times> xhci_ring option" where
  "XhciRingRetireAdvancedTd ring completion completionCode =
     (case (ring, completion) of
        (Some r, Some c) \<Rightarrow>
          if Kind r \<noteq> XHCI_RING_KIND_ENDPOINT \<or> completionCode \<noteq> XHCI_CC_SHORT_PACKET
          then (XHCI_RING_NOT_COMPLETE, ring)
          else if \<not> xhciRingIsOutstanding r (TailIndex c) then (XHCI_RING_NOT_ON_RING, ring)
          else (XHCI_RING_OK, Some (r\<lparr>Dequeue := xhciRingNext r (TailIndex c)\<rparr>))
      | _ \<Rightarrow> (XHCI_RING_BAD_PARAM, ring))"

definition XhciRingRetireIsoGroup ::
    "xhci_ring option \<Rightarrow> ulong \<Rightarrow> ring_status \<times> xhci_ring option" where
  "XhciRingRetireIsoGroup ring tailIndex =
     (case ring of
        None \<Rightarrow> (XHCI_RING_BAD_PARAM, ring)
      | Some r \<Rightarrow>
          if Kind r \<noteq> XHCI_RING_KIND_ISOCH then (XHCI_RING_NOT_COMPLETE, ring)
          else if \<not> xhciRingIsOutstanding r tailIndex then (XHCI_RING_NOT_ON_RING, ring)
          else (XHCI_RING_OK, Some (r\<lparr>Dequeue := xhciRingNext r tailIndex\<rparr>)))"

definition XhciRingSetDequeue :: "xhci_ring option \<Rightarrow> ulong \<Rightarrow> ring_status \<times> xhci_ring option" where
  "XhciRingSetDequeue ring dequeuePA =
     (case ring of
        None \<Rightarrow> (XHCI_RING_BAD_PARAM, ring)
      | Some r \<Rightarrow>
          (case XhciRingIndexFromPA r dequeuePA of
             Inl status \<Rightarrow> (status, ring)
           | Inr index \<Rightarrow>
               if index \<ge> Trbs r - 1 then (XHCI_RING_NOT_ON_RING, ring)
               else if index = Enqueue r then (XHCI_RING_OK, Some (r\<lparr>Dequeue := index\<rparr>))
               else if \<not> xhciRingIsOutstanding r index then (XHCI_RING_NOT_ON_RING, ring)
               else
                 (case XhciRingTdBounds ring index of
                    Inl status \<Rightarrow> (status, ring)
                  | Inr (head, _) \<Rightarrow>
                      if head \<noteq> index then (XHCI_RING_NOT_TD_HEAD, ring)
                      else (XHCI_RING_OK, Some (r\<lparr>Dequeue := index\<rparr>)))))"

definition XhciRingNoOpAtType ::
    "xhci_ring option \<Rightarrow> ulong \<Rightarrow> ulong \<Rightarrow> ring_status \<times> xhci_ring option" where
  "XhciRingNoOpAtType ring index trbType =
     (if trbType \<noteq> XHCI_TRB_TYPE_NOOP \<and> trbType \<noteq> XHCI_TRB_TYPE_NOOP_COMMAND
      then (XHCI_RING_BAD_PARAM, ring)
      else
        (case ring of
           None \<Rightarrow> (XHCI_RING_BAD_PARAM, ring)
         | Some r \<Rightarrow>
             if Base r = [] then (XHCI_RING_BAD_PARAM, ring)
             else if index \<ge> Trbs r - 1 then (XHCI_RING_NOT_ON_RING, ring)
             else if \<not> xhciRingIsOutstanding r index then (XHCI_RING_NOT_ON_RING, ring)
             else
               let i = unat index;
                   cycle = Control (Base r ! i) AND XHCI_TRB_CYCLE;
                   base = apply_stores (Base r) (store_trb i
                            \<lparr>Param0 = 0, Param1 = 0, Status = 0,
                             Control = XHCI_TRB_TYPE trbType OR cycle\<rparr>);
                   l = unat (Trbs r - 1);
                   base = (if index = Trbs r - 2
                           then apply_store base (l, DW3, Control (base ! l) AND NOT XHCI_TRB_CH)
                           else base)
               in (XHCI_RING_OK, Some (r\<lparr>Base := base\<rparr>))))"

definition XhciRingNoOpAt :: "xhci_ring option \<Rightarrow> ulong \<Rightarrow> ring_status \<times> xhci_ring option" where
  "XhciRingNoOpAt ring index = XhciRingNoOpAtType ring index XHCI_TRB_TYPE_NOOP"

definition XhciRingDequeuePA :: "xhci_ring \<Rightarrow> ulong" where
  "XhciRingDequeuePA ring = BasePA ring + Dequeue ring * XHCI_TRB_BYTES"

definition XhciRingDequeueCycle :: "xhci_ring \<Rightarrow> ulong" where
  "XhciRingDequeueCycle ring =
     (if Dequeue ring > Enqueue ring then Cycle ring XOR 1 else Cycle ring)"

definition XhciRingRestart :: "xhci_ring option \<Rightarrow> ring_status \<times> xhci_ring option" where
  "XhciRingRestart ring =
     (case ring of
        None \<Rightarrow> (XHCI_RING_BAD_PARAM, ring)
      | Some r \<Rightarrow>
          if Base r = [] then (XHCI_RING_BAD_PARAM, ring)
          else if Dequeue r \<noteq> Enqueue r then (XHCI_RING_NOT_COMPLETE, ring)
          else XhciRingInit ring (Base r) (BasePA r) (Trbs r) (Kind r))"

abbreviation (input) XHCI_EP_DEQUEUE_MASK :: ulong where "XHCI_EP_DEQUEUE_MASK \<equiv> 0xFFFFFFF0"

text \<open>
  \<open>resync_index\<close> is the saved position as a ring index (the Link TRB named as the first TRB, and
  \<open>Trbs\<close> for a pointer outside the segment); \<open>resync_point\<close> is the restart point chosen for it. The
  result \<open>None\<close> of \<open>XhciRingResyncOwed\<close> is a refusal: 0 is returned and nothing is written.
\<close>

definition resync_index :: "xhci_ring \<Rightarrow> ulong \<Rightarrow> ulong" where
  "resync_index r saved =
     (let index = (if saved \<ge> BasePA r \<and> saved - BasePA r < Trbs r * XHCI_TRB_BYTES
                   then (saved - BasePA r) div XHCI_TRB_BYTES else Trbs r)
      in if index = Trbs r - 1 then 0 else index)"

definition resync_point :: "xhci_ring \<Rightarrow> ulong \<Rightarrow> ulong \<times> ulong" where
  "resync_point r index =
     (if index = Enqueue r
      then (BasePA r + index * XHCI_TRB_BYTES, Cycle r AND 1)
      else if index < Trbs r \<and> xhciRingIsOutstanding r index
      then (BasePA r + index * XHCI_TRB_BYTES,
            Control (Base r ! unat index) AND XHCI_TRB_CYCLE)
      else (XhciRingDequeuePA r, XhciRingDequeueCycle r))"

definition XhciRingResyncOwed ::
    "xhci_ring option \<Rightarrow> ulong \<Rightarrow> (bool \<times> ulong \<times> ulong) option" where
  "XhciRingResyncOwed ring contextDw0 =
     (case ring of
        None \<Rightarrow> None
      | Some r \<Rightarrow>
          if Base r = [] \<or> Trbs r < 2 then None
          else
            let saved = contextDw0 AND XHCI_EP_DEQUEUE_MASK;
                (dequeuePA, dcs) = resync_point r (resync_index r saved)
            in Some (dcs = 0 \<or> dequeuePA \<noteq> saved, dequeuePA, dcs))"

end
