(* ===== verification/Xhci_Ring_Inv.thy ===== *)
theory Xhci_Ring_Inv
  imports Xhci_Ring
begin

text \<open>
  The invariant of the producer ring and the reading of its 32-bit index arithmetic as arithmetic
  on positions of a ring of \<open>slots\<close> places. \<open>ring_geom\<close> is the geometry, \<open>ring_cycles\<close> says which
  cycle bit every TRB of the segment carries, \<open>ring_chain\<close> that the youngest outstanding TRB ends
  its TD.
\<close>

section \<open>The invariant\<close>

definition slots :: "xhci_ring \<Rightarrow> nat" where
  "slots r = unat (Trbs r) - 1"

definition enq :: "xhci_ring \<Rightarrow> nat" where
  "enq r = unat (Enqueue r)"

definition deq :: "xhci_ring \<Rightarrow> nat" where
  "deq r = unat (Dequeue r)"

definition used :: "xhci_ring \<Rightarrow> nat" where
  "used r = cyc_dist (slots r) (deq r) (enq r)"

definition cyc_of :: "xhci_trb \<Rightarrow> bool" where
  "cyc_of t \<longleftrightarrow> bit (Control t) 0"

definition ch_of :: "xhci_trb \<Rightarrow> bool" where
  "ch_of t \<longleftrightarrow> bit (Control t) 4"

definition is_link :: "xhci_trb \<Rightarrow> bool" where
  "is_link t \<longleftrightarrow> XHCI_TRB_GET_TYPE (Control t) = XHCI_TRB_TYPE_LINK"

definition ring_geom :: "xhci_ring \<Rightarrow> bool" where
  "ring_geom r \<longleftrightarrow>
     3 \<le> unat (Trbs r) \<and> unat (Trbs r) \<le> 4096 \<and> length (Base r) = unat (Trbs r) \<and>
     enq r < slots r \<and> deq r < slots r \<and> Cycle r \<le> 1 \<and> Kind r \<le> XHCI_RING_KIND_ISOCH \<and>
     BasePA r \<noteq> 0 \<and>
     XhciSegmentUsable (BasePA r) (Trbs r)
       (if Kind r = XHCI_RING_KIND_COMMAND then 64 else XHCI_TRB_BYTES)"

definition cycles_at :: "xhci_trb list \<Rightarrow> nat \<Rightarrow> nat \<Rightarrow> bool \<Rightarrow> bool" where
  "cycles_at b n e c \<longleftrightarrow>
     (\<forall>i<n. cyc_of (b ! i) = (if i < e then c else \<not> c) \<and> \<not> is_link (b ! i)) \<and>
     cyc_of (b ! n) = (\<not> c)"

definition link_at :: "xhci_trb list \<Rightarrow> nat \<Rightarrow> ulong \<Rightarrow> bool" where
  "link_at b n pa \<longleftrightarrow> is_link (b ! n) \<and> bit (Control (b ! n)) 1 \<and> Param0 (b ! n) = pa"

definition ring_cycles :: "xhci_ring \<Rightarrow> bool" where
  "ring_cycles r \<longleftrightarrow> cycles_at (Base r) (slots r) (enq r) (Cycle r \<noteq> 0) \<and>
     link_at (Base r) (slots r) (BasePA r)"

definition ring_chain :: "xhci_ring \<Rightarrow> bool" where
  "ring_chain r \<longleftrightarrow>
     0 < used r \<longrightarrow> \<not> ch_of (Base r ! ((enq r + slots r - 1) mod slots r))"

definition ring_inv :: "xhci_ring \<Rightarrow> bool" where
  "ring_inv r \<longleftrightarrow> ring_geom r \<and> ring_cycles r \<and> ring_chain r"

lemmas ring_view_defs = slots_def enq_def deq_def

section \<open>Index arithmetic\<close>

lemma geom_bounds:
  assumes "ring_geom r"
  shows "2 \<le> slots r" "slots r \<le> 4095" "enq r < slots r" "deq r < slots r"
    "unat (Trbs r) = Suc (slots r)" "length (Base r) = Suc (slots r)" "Base r \<noteq> []"
    "used r < slots r"
  using assms by (auto simp: ring_geom_def slots_def used_def cyc_dist_def)

lemma unat_slots [simp]: "ring_geom r \<Longrightarrow> unat (xhciRingSlots r) = slots r"
  using geom_bounds(5) [of r]
  by (simp add: xhciRingSlots_def slots_def unat_sub word_le_nat_alt)

lemma unat_Trbs_1: "ring_geom r \<Longrightarrow> unat (Trbs r - 1) = slots r"
  using unat_slots [of r] by (simp add: xhciRingSlots_def)

lemma unat_cyc:
  assumes "ring_geom r" and "unat i < slots r"
  shows "unat ((i + xhciRingSlots r - Dequeue r) mod xhciRingSlots r)
           = cyc_dist (slots r) (deq r) (unat i)"
proof -
  note b = geom_bounds [OF assms(1)]
  have s: "unat (i + xhciRingSlots r) = unat i + slots r"
    using b assms by (simp add: unat_add_no_wrap)
  have "unat (i + xhciRingSlots r - Dequeue r) = unat i + slots r - deq r"
    using b s by (simp add: unat_sub_no_wrap deq_def)
  then show ?thesis
    by (simp add: unat_mod assms cyc_dist_def)
qed

lemma unat_used [simp]: "ring_geom r \<Longrightarrow> unat (xhciRingUsed r) = used r"
  using unat_cyc [of r "Enqueue r"] geom_bounds(3) [of r]
  by (simp add: xhciRingUsed_def Let_def used_def enq_def)

lemma unat_distance:
  "ring_geom r \<Longrightarrow> unat i < slots r \<Longrightarrow>
     unat (xhciRingDistance r i) = cyc_dist (slots r) (deq r) (unat i)"
  using unat_cyc [of r i] by (simp add: xhciRingDistance_def Let_def)

lemma outstanding_iff:
  "ring_geom r \<Longrightarrow>
     xhciRingIsOutstanding r i \<longleftrightarrow>
       unat i < slots r \<and> cyc_dist (slots r) (deq r) (unat i) < used r"
  by (auto simp: xhciRingIsOutstanding_def word_le_nat_alt word_less_nat_alt unat_Trbs_1
      unat_distance not_le)

lemma unat_next:
  assumes "ring_geom r" and "unat i < slots r"
  shows "unat (xhciRingNext r i) = Suc (unat i) mod slots r"
proof -
  note b = geom_bounds [OF assms(1)]
  have "unat (i + 1) = Suc (unat i)"
    using assms b by (simp add: unat_add_no_wrap)
  with assms b show ?thesis
    by (cases "Suc (unat i) = slots r")
      (auto simp: xhciRingNext_def Let_def word_le_nat_alt unat_Trbs_1)
qed

lemma unat_free: "ring_geom r \<Longrightarrow> unat (XhciRingFree r) = slots r - 1 - used r"
  using geom_bounds [of r]
  by (simp add: XhciRingFree_def unat_sub_no_wrap)

lemma has_room_iff:
  "ring_geom r \<Longrightarrow> XhciRingHasRoom r n \<longleftrightarrow> used r + unat n < slots r"
  using geom_bounds [of r]
  by (auto simp: XhciRingHasRoom_def word_le_nat_alt unat_free)

lemma used_step:
  assumes "d < n" "e < n"
  shows "e = (d + cyc_dist n d e) mod n"
  using cyc_pos_dist [OF assms] by simp

lemma enq_eq: "ring_geom r \<Longrightarrow> enq r = (deq r + used r) mod slots r"
  using geom_bounds [of r] used_step [of "deq r" "slots r" "enq r"] by (simp add: used_def)

lemma used_add:
  assumes "d < n" "e < n" "cyc_dist n d e + k < n"
  shows "cyc_dist n d ((e + k) mod n) = cyc_dist n d e + k"
proof -
  have "(e + k) mod n = (d + (cyc_dist n d e + k)) mod n"
    using used_step [OF assms(1,2)] by (metis add.assoc mod_add_left_eq)
  then show ?thesis
    using cyc_dist_step [OF assms(1), of "cyc_dist n d e + k"] assms(3) by simp
qed

section \<open>Memory\<close>

lemma length_apply_store [simp]: "length (apply_store b s) = length b"
  by (cases s) simp

lemma length_apply_stores [simp]: "length (apply_stores b ss) = length b"
  by (induction ss arbitrary: b) (simp_all add: apply_stores_def)

lemma apply_stores_Nil [simp]: "apply_stores b [] = b"
  by (simp add: apply_stores_def)

lemma apply_stores_Cons: "apply_stores b (s # ss) = apply_stores (apply_store b s) ss"
  by (simp add: apply_stores_def)

lemma apply_stores_append: "apply_stores b (ss @ ts) = apply_stores (apply_stores b ss) ts"
  by (simp add: apply_stores_def)

lemma apply_store_other [simp]: "fst s \<noteq> j \<Longrightarrow> apply_store b s ! j = b ! j"
  by (cases s) simp

lemma apply_stores_other: "j \<notin> fst ` set ss \<Longrightarrow> apply_stores b ss ! j = b ! j"
  by (induction ss arbitrary: b) (auto simp: apply_stores_Cons)

lemma store_trb_target [simp]: "fst ` set (store_trb i t) = {i}"
  by (simp add: store_trb_def)

lemma trb_copy: "(x :: xhci_trb)\<lparr>Param0 := Param0 t, Param1 := Param1 t, Status := Status t,
    Control := Control t\<rparr> = t"
  by (rule xhci_trb.equality) simp_all

lemma apply_store_trb [simp]: "i < length b \<Longrightarrow> apply_stores b (store_trb i t) = b[i := t]"
  by (simp add: store_trb_def apply_stores_def trb_copy)

lemma stamp_cycle_bits:
  "bit (stamp_cycle w c) n \<longleftrightarrow> (if n = 0 then c \<noteq> 0 else bit w n)"
  by (auto simp: stamp_cycle_def bit_and_iff bit_or_iff bit_not_iff bit_mask_1 dest: bit_imp_le_length)

end
