(* ===== verification/Xhci_Ring_Enqueue.thy ===== *)
theory Xhci_Ring_Enqueue
  imports Xhci_Ring_Inv
begin

text \<open>
  What \<open>XhciRingEnqueueTdGroup\<close> leaves in memory: a closed form of its store loop, and from it the
  preservation of the ring invariant.
\<close>

section \<open>The store loop in closed form\<close>

text \<open>The TRB the loop leaves in a slot: the template with the lap's cycle bit, inverted in the
  group's first slot.\<close>

definition slot_image :: "bool \<Rightarrow> bool \<Rightarrow> xhci_trb \<Rightarrow> xhci_trb" where
  "slot_image isFirst c t =
     t\<lparr>Control := (if isFirst then stamp_cycle (Control t) (of_bool c) XOR XHCI_TRB_CYCLE
                  else stamp_cycle (Control t) (of_bool c))\<rparr>"

text \<open>The producer cycle \<open>k\<close> steps after position \<open>i\<close>.\<close>

definition lap_cycle :: "nat \<Rightarrow> nat \<Rightarrow> bool \<Rightarrow> nat \<Rightarrow> bool" where
  "lap_cycle n i c k = (if i + k < n then c else \<not> c)"

lemma of_bool_xor_1 [simp]: "(of_bool c :: ulong) XOR 1 = of_bool (\<not> c)"
  by (cases c) simp_all

definition enq_fits :: "ulong \<Rightarrow> nat \<Rightarrow> enqueue_state \<Rightarrow> nat \<Rightarrow> bool \<Rightarrow> bool" where
  "enq_fits m n s i c \<longleftrightarrow>
     unat m = Suc n \<and> length (eBase s) = Suc n \<and> 2 \<le> n \<and> i < n \<and> n \<le> 4095 \<and>
     unat (eIndex s) = i \<and> eCycle s = of_bool c"

lemma enq_fits_words:
  assumes "enq_fits m n s i c"
  shows "unat (m - 1) = n" "eIndex s + 1 = m - 1 \<longleftrightarrow> Suc i = n" "unat (eIndex s + 1) = Suc i"
proof -
  from assms have b: "unat m = Suc n" "i < n" "n \<le> 4095" "unat (eIndex s) = i"
    by (auto simp: enq_fits_def)
  show m: "unat (m - 1) = n"
    using b by (simp add: unat_sub_no_wrap)
  show i: "unat (eIndex s + 1) = Suc i"
    using b by (simp add: unat_add_no_wrap)
  show "eIndex s + 1 = m - 1 \<longleftrightarrow> Suc i = n"
    using m i by (metis unat_eq_iff)
qed

definition link_image :: "xhci_trb \<Rightarrow> bool \<Rightarrow> xhci_trb \<Rightarrow> xhci_trb" where
  "link_image l c t =
     l\<lparr>Control := link_crossing_control (Control l) (of_bool c) (Control t)\<rparr>"

lemma enqueue_step_nat:
  assumes "enq_fits m n s i c"
  shows "enqueue_step m f t s =
    (if Suc i = n then
       \<lparr>eBase = (eBase s)[i := slot_image f c t, n := link_image (eBase s ! n) c t],
        eIndex = 0, eCycle = of_bool (\<not> c), eLast = eIndex s,
        eLog = eLog s @ store_trb i (slot_image f c t) @
               [(n, DW3, Control (link_image (eBase s ! n) c t))]\<rparr>
     else
       \<lparr>eBase = (eBase s)[i := slot_image f c t], eIndex = eIndex s + 1, eCycle = of_bool c,
        eLast = eIndex s, eLog = eLog s @ store_trb i (slot_image f c t)\<rparr>)"
proof -
  from assms have b: "length (eBase s) = Suc n" "i < n" "unat (eIndex s) = i"
      "eCycle s = of_bool c"
    by (auto simp: enq_fits_def)
  let ?ctl = "if f then stamp_cycle (Control t) (of_bool c) XOR 1
              else stamp_cycle (Control t) (of_bool c)"
  have img: "t\<lparr>Control := ?ctl\<rparr> = slot_image f c t"
    by (simp add: slot_image_def)
  have stores: "apply_stores (eBase s) (store_trb i (slot_image f c t)) = (eBase s)[i := slot_image f c t]"
    using b by simp
  show ?thesis
    using b unfolding enqueue_step_def Let_def enq_fits_words [OF assms] b img stores
    by (simp add: link_image_def apply_stores_def)
qed

lemma enqueue_step_fits:
  assumes "enq_fits m n s i c"
  shows "enq_fits m n (enqueue_step m f t s) (Suc i mod n) (lap_cycle n i c 1)"
  using assms enq_fits_words(3) [OF assms] unfolding enqueue_step_nat [OF assms]
  by (cases "Suc i = n") (auto simp: enq_fits_def lap_cycle_def)

lemma enqueue_loop_fits:
  assumes "enq_fits m n s i c" and "length ts < n"
  shows "enq_fits m n (enqueue_loop m f ts s) ((i + length ts) mod n) (lap_cycle n i c (length ts))"
  using assms
proof (induction ts arbitrary: f s i c)
  case Nil
  then show ?case by (auto simp: lap_cycle_def enq_fits_def)
next
  case (Cons t ts)
  have "i < n" using Cons.prems by (simp add: enq_fits_def)
  have "enq_fits m n (enqueue_loop m False ts (enqueue_step m f t s))
      ((Suc i mod n + length ts) mod n) (lap_cycle n (Suc i mod n) (lap_cycle n i c 1) (length ts))"
    using Cons.IH [OF enqueue_step_fits [OF Cons.prems(1)]] Cons.prems(2) by simp
  moreover have "lap_cycle n (Suc i mod n) (lap_cycle n i c 1) (length ts) =
      lap_cycle n i c (length (t # ts))"
    using \<open>i < n\<close> Cons.prems(2) by (auto simp: lap_cycle_def mod_Suc)
  moreover have "(Suc i mod n + length ts) mod n = (i + length (t # ts)) mod n"
    by (simp add: mod_simps)
  ultimately show ?case by simp
qed

lemma enqueue_step_slot:
  assumes "enq_fits m n s i c" and "j < n"
  shows "eBase (enqueue_step m f t s) ! j = (if j = i then slot_image f c t else eBase s ! j)"
  using assms(2) assms(1) unfolding enqueue_step_nat [OF assms(1)]
  by (auto simp: enq_fits_def)

lemma enqueue_step_link:
  assumes "enq_fits m n s i c"
  shows "eBase (enqueue_step m f t s) ! n =
     (if Suc i = n then link_image (eBase s ! n) c t else eBase s ! n)"
  using assms unfolding enqueue_step_nat [OF assms(1)]
  by (auto simp: enq_fits_def)

lemma cyc_dist_Suc:
  assumes "i < n" "j < n" "j \<noteq> i"
  shows "cyc_dist n i j = Suc (cyc_dist n (Suc i mod n) j)"
  using assms by (cases "Suc i = n") (auto simp: cyc_dist_alt)

lemma cyc_dist_behind:
  assumes "i < n"
  shows "cyc_dist n (Suc i mod n) i = n - 1"
  using assms by (cases "Suc i = n") (auto simp: cyc_dist_alt)

lemma enqueue_loop_slot:
  assumes "enq_fits m n s i c" and "length ts < n" and "j < n"
  shows "eBase (enqueue_loop m f ts s) ! j =
     (let k = cyc_dist n i j in
      if k < length ts then slot_image (f \<and> k = 0) (lap_cycle n i c k) (ts ! k)
      else eBase s ! j)"
  using assms
proof (induction ts arbitrary: f s i c)
  case Nil
  then show ?case by simp
next
  case (Cons t ts)
  let ?s = "enqueue_step m f t s"
  have "i < n" using Cons.prems by (simp add: enq_fits_def)
  note IH = Cons.IH [OF enqueue_step_fits [OF Cons.prems(1), where f = f and t = t], where f = False]
  show ?case
  proof (cases "j = i")
    case True
    with IH Cons.prems \<open>i < n\<close> show ?thesis
      by (simp add: Let_def cyc_dist_behind enqueue_step_slot lap_cycle_def)
  next
    case False
    let ?k = "cyc_dist n (Suc i mod n) j"
    have k: "cyc_dist n i j = Suc ?k"
      using cyc_dist_Suc [OF \<open>i < n\<close> Cons.prems(3) False] .
    have "lap_cycle n (Suc i mod n) (lap_cycle n i c 1) ?k = lap_cycle n i c (Suc ?k)"
      if "?k < length ts"
      using that \<open>i < n\<close> Cons.prems(2) by (auto simp: lap_cycle_def mod_Suc)
    with IH Cons.prems False show ?thesis
      by (auto simp: k Let_def enqueue_step_slot)
  qed
qed

lemma enqueue_loop_link:
  assumes "enq_fits m n s i c" and "length ts < n"
  shows "eBase (enqueue_loop m f ts s) ! n =
     (if i + length ts < n then eBase s ! n
      else link_image (eBase s ! n) c (ts ! (n - 1 - i)))"
  using assms
proof (induction ts arbitrary: f s i c)
  case Nil
  then show ?case by (simp add: enq_fits_def)
next
  case (Cons t ts)
  have "i < n" using Cons.prems by (simp add: enq_fits_def)
  note IH = Cons.IH [OF enqueue_step_fits [OF Cons.prems(1), where f = f and t = t], where f = False]
  show ?case
  proof (cases "Suc i = n")
    case True
    with IH Cons.prems show ?thesis
      by (simp add: enqueue_step_link)
  next
    case False
    with \<open>i < n\<close> have "Suc i < n" and "n - 1 - i = Suc (n - 1 - Suc i)" by auto
    with IH Cons.prems False show ?thesis
      by (auto simp: enqueue_step_link lap_cycle_def)
  qed
qed

section \<open>The stores the loop makes\<close>

lemma enqueue_step_log:
  "\<exists>ss. eLog (enqueue_step m f t s) = eLog s @ ss \<and>
        eBase (enqueue_step m f t s) = apply_stores (eBase s) ss"
  by (auto simp: enqueue_step_def Let_def apply_stores_append)

lemma enqueue_loop_log:
  "\<exists>ss. eLog (enqueue_loop m f ts s) = eLog s @ ss \<and>
        eBase (enqueue_loop m f ts s) = apply_stores (eBase s) ss"
proof (induction ts arbitrary: f s)
  case Nil
  show ?case by (rule exI [of _ "[]"]) simp
next
  case (Cons t ts)
  obtain ss where "eLog (enqueue_step m f t s) = eLog s @ ss"
      "eBase (enqueue_step m f t s) = apply_stores (eBase s) ss"
    using enqueue_step_log by blast
  moreover obtain ss' where
      "eLog (enqueue_loop m False ts (enqueue_step m f t s)) = eLog (enqueue_step m f t s) @ ss'"
      "eBase (enqueue_loop m False ts (enqueue_step m f t s)) =
         apply_stores (eBase (enqueue_step m f t s)) ss'"
    using Cons.IH by blast
  ultimately show ?case
    by (intro exI [of _ "ss @ ss'"]) (simp add: apply_stores_append)
qed

text \<open>
  A store the controller may see at any moment, while it works on the TRBs between \<open>d\<close> and \<open>e\<close> of
  a ring of \<open>n\<close> slots with producer cycle \<open>c\<close>: it leaves those TRBs alone, it does not make the TRB
  at \<open>e\<close> valid, and it touches the Link TRB only where the controller meets \<open>e\<close> first.
\<close>

definition safe_store :: "nat \<Rightarrow> nat \<Rightarrow> nat \<Rightarrow> bool \<Rightarrow> trb_store \<Rightarrow> bool" where
  "safe_store n d e c s \<longleftrightarrow>
     (case s of (i, w, v) \<Rightarrow>
        (i < n \<and> cyc_dist n d e \<le> cyc_dist n d i \<and> (i = e \<and> w = DW3 \<longrightarrow> bit v 0 = (\<not> c))) \<or>
        (i = n \<and> d \<le> e))"

lemma slot_image_bits:
  "bit (Control (slot_image f c t)) b =
     (if b = 0 then c \<noteq> f else bit (Control t) b)"
  by (auto simp: slot_image_def bit_xor_iff stamp_cycle_bits bit_mask_1)

lemma enqueue_step_safe:
  assumes fits: "enq_fits m n s i c'" and "d < n" "e < n"
    and ahead: "cyc_dist n d i = cyc_dist n d e + k" and first: "f = (k = 0)" "k = 0 \<longrightarrow> c' = c"
    and old: "\<forall>x \<in> set (eLog s). safe_store n d e c x"
  shows "\<forall>x \<in> set (eLog (enqueue_step m f t s)). safe_store n d e c x"
proof -
  have i: "i < n" using fits by (simp add: enq_fits_def)
  have same: "i = e \<longleftrightarrow> k = 0"
    using ahead cyc_dist_inj [OF \<open>d < n\<close> i \<open>e < n\<close>] by auto
  have slot: "safe_store n d e c x" if "x \<in> set (store_trb i (slot_image f c' t))" for x
    using that i ahead same first
    by (auto simp: store_trb_def safe_store_def slot_image_bits)
  have "d \<le> e" if "Suc i = n"
    using that ahead \<open>d < n\<close> \<open>e < n\<close> i by (auto simp: cyc_dist_alt split: if_splits)
  then have link: "safe_store n d e c (n, DW3, v)" if "Suc i = n" for v
    using that by (simp add: safe_store_def)
  show ?thesis
    using slot link old unfolding enqueue_step_nat [OF fits] by auto
qed

lemma enqueue_loop_safe:
  assumes "enq_fits m n s i c'" and "d < n" "e < n"
    and "cyc_dist n d i = cyc_dist n d e + k" and "f = (k = 0)" "k = 0 \<longrightarrow> c' = c"
    and "cyc_dist n d e + k + length ts < n"
    and "\<forall>x \<in> set (eLog s). safe_store n d e c x"
  shows "\<forall>x \<in> set (eLog (enqueue_loop m f ts s)). safe_store n d e c x"
  using assms
proof (induction ts arbitrary: f s i c' k)
  case Nil
  then show ?case by simp
next
  case (Cons t ts)
  have i: "i < n" using Cons.prems(1) by (simp add: enq_fits_def)
  have "cyc_dist n d (Suc i mod n) = cyc_dist n d e + Suc k"
    using used_add [of d n i 1] i Cons.prems(2,4,7) by simp
  then show ?case
    using Cons.IH [OF enqueue_step_fits [OF Cons.prems(1)], of "Suc k" False f t]
      enqueue_step_safe [OF Cons.prems(1-6,8)] Cons.prems(2,3,5,7)
    by simp
qed

section \<open>The whole operation\<close>

lemma cycle_of_bool: "ring_geom r \<Longrightarrow> Cycle r = of_bool (Cycle r \<noteq> 0)"
proof -
  assume "ring_geom r"
  then have "unat (Cycle r) \<le> 1" by (simp add: ring_geom_def word_le_nat_alt)
  then have "unat (Cycle r) = unat (0 :: ulong) \<or> unat (Cycle r) = unat (1 :: ulong)" by auto
  then show ?thesis unfolding unat_eq_iff by auto
qed

definition loop_start :: "xhci_ring \<Rightarrow> enqueue_state" where
  "loop_start r = \<lparr>eBase = Base r, eIndex = Enqueue r, eCycle = Cycle r, eLast = Enqueue r, eLog = []\<rparr>"

lemma loop_start_fits:
  "ring_geom r \<Longrightarrow> enq_fits (Trbs r) (slots r) (loop_start r) (enq r) (Cycle r \<noteq> 0)"
  using geom_bounds [of r] cycle_of_bool [of r]
  by (auto simp: enq_fits_def loop_start_def enq_def)

text \<open>What the OK status says of the call, and what it leaves behind.\<close>

lemma enqueue_group_ok:
  assumes ok: "XhciRingEnqueueTdGroup (Some r) (Some ts) count (Some lens) tdCount =
                 (XHCI_RING_OK, ring', p, log)"
  defines "s \<equiv> enqueue_loop (Trbs r) True (take (unat count) ts) (loop_start r)"
    and "pub \<equiv> (unat (Enqueue r), DW3, stamp_cycle (Control (ts ! 0)) (Cycle r))"
  shows "count \<noteq> 0" "checkTdChains ts count (take (unat tdCount) lens) 0 = Some count"
    "XhciRingHasRoom r count" "log = eLog s @ [pub]"
    "ring' = Some (r\<lparr>Enqueue := eIndex s, Cycle := eCycle s, Base := apply_store (eBase s) pub\<rparr>)"
    "p = Some \<lparr>FirstIndex = Enqueue r, FirstTrbPA = BasePA r + Enqueue r * 16, LastIndex = eLast s,
               TrbCount = count\<rparr>"
  using ok unfolding XhciRingEnqueueTdGroup_def s_def pub_def loop_start_def
  by (auto simp: Let_def split: if_splits option.splits)

lemma publish_image:
  assumes "j < length b" and "b ! j = slot_image True c t"
  shows "apply_store b (j, DW3, stamp_cycle (Control t) (of_bool c)) = b[j := slot_image False c t]"
  using assms by (simp add: slot_image_def)

text \<open>The post-state of a successful enqueue of \<open>ts\<close>, as a relation between the two rings.\<close>

definition enqueued :: "xhci_ring \<Rightarrow> xhci_trb list \<Rightarrow> xhci_ring \<Rightarrow> bool" where
  "enqueued r ts r' \<longleftrightarrow>
     (let n = slots r; e = enq r; k = length ts; c = (Cycle r \<noteq> 0) in
      enq r' = (e + k) mod n \<and> Cycle r' = of_bool (lap_cycle n e c k) \<and>
      BasePA r' = BasePA r \<and> Trbs r' = Trbs r \<and> Dequeue r' = Dequeue r \<and> Kind r' = Kind r \<and>
      length (Base r') = length (Base r) \<and>
      (\<forall>j<n. Base r' ! j =
         (if cyc_dist n e j < k
          then slot_image False (lap_cycle n e c (cyc_dist n e j)) (ts ! cyc_dist n e j)
          else Base r ! j)) \<and>
      Base r' ! n = (if e + k < n then Base r ! n else link_image (Base r ! n) c (ts ! (n - 1 - e))))"

lemma enqueue_group_effect:
  assumes geom: "ring_geom r" and len: "unat count \<le> length ts"
    and ok: "XhciRingEnqueueTdGroup (Some r) (Some ts) count (Some lens) tdCount =
               (XHCI_RING_OK, Some r', p, log)"
  shows "enqueued r (take (unat count) ts) r'"
proof -
  let ?n = "slots r" and ?e = "enq r" and ?c = "Cycle r \<noteq> 0" and ?ts = "take (unat count) ts"
  let ?s = "enqueue_loop (Trbs r) True ?ts (loop_start r)"
  let ?pub = "(unat (Enqueue r), DW3, stamp_cycle (Control (ts ! 0)) (Cycle r))"
  note b = geom_bounds [OF geom] and o = enqueue_group_ok [OF ok] and st = loop_start_fits [OF geom]
  have k: "length ?ts = unat count" "0 < unat count"
    using len o(1) unat_eq_iff [of count 0] by auto
  have room: "used r + unat count < ?n"
    using o(3) has_room_iff [OF geom] by simp
  then have lt: "length ?ts < ?n" using k by simp
  note loop = enqueue_loop_fits [OF st lt, of True]
  have sb: "length (eBase ?s) = Suc ?n" "unat (eIndex ?s) = (?e + unat count) mod ?n"
    using loop k by (auto simp: enq_fits_def)
  have slot: "eBase ?s ! j = (let x = cyc_dist ?n ?e j in
      if x < unat count then slot_image (x = 0) (lap_cycle ?n ?e ?c x) (ts ! x) else Base r ! j)"
    if "j < ?n" for j
    using enqueue_loop_slot [OF st lt that, of True] k by (simp add: Let_def loop_start_def)
  have e: "eBase ?s ! ?e = slot_image True ?c (ts ! 0)"
    using slot [OF b(3)] b(3) k by (simp add: Let_def lap_cycle_def)
  have r': "r' = r\<lparr>Enqueue := eIndex ?s, Cycle := eCycle ?s,
                  Base := (eBase ?s)[?e := slot_image False ?c (ts ! 0)]\<rparr>"
    using o(5) publish_image [OF _ e] sb b(3) cycle_of_bool [OF geom] by (simp add: enq_def)
  have "Base r' ! j =
      (if cyc_dist ?n ?e j < unat count
       then slot_image False (lap_cycle ?n ?e ?c (cyc_dist ?n ?e j)) (?ts ! cyc_dist ?n ?e j)
       else Base r ! j)" if "j < ?n" for j
  proof (cases "j = ?e")
    case True
    then show ?thesis using r' sb b(3) k by (simp add: lap_cycle_def)
  next
    case False
    then have "cyc_dist ?n ?e j \<noteq> 0"
      using cyc_dist_inj [OF b(3) that b(3)] b(3) by auto
    then show ?thesis using r' slot [OF that] False by (simp add: Let_def)
  qed
  moreover have "Base r' ! ?n =
      (if ?e + unat count < ?n then Base r ! ?n else link_image (Base r ! ?n) ?c (?ts ! (?n - 1 - ?e)))"
    using enqueue_loop_link [OF st lt, of True] r' sb b(3) k by (simp add: loop_start_def)
  ultimately show ?thesis
    using loop r' sb b k by (simp add: enqueued_def Let_def enq_fits_def enq_def)
qed

lemma enqueue_group_log:
  assumes geom: "ring_geom r" and len: "unat count \<le> length ts"
    and ok: "XhciRingEnqueueTdGroup (Some r) (Some ts) count (Some lens) tdCount =
               (XHCI_RING_OK, Some r', p, log)"
  shows "\<exists>ss pub. log = ss @ [pub] \<and> Base r' = apply_stores (Base r) log \<and>
     (\<forall>x \<in> set ss. safe_store (slots r) (deq r) (enq r) (Cycle r \<noteq> 0) x)"
proof -
  let ?s = "enqueue_loop (Trbs r) True (take (unat count) ts) (loop_start r)"
  note b = geom_bounds [OF geom] and o = enqueue_group_ok [OF ok]
  have "cyc_dist (slots r) (deq r) (enq r) + 0 + length (take (unat count) ts) < slots r"
    using o(3) has_room_iff [OF geom] len by (simp add: used_def)
  then have safe: "\<forall>x \<in> set (eLog ?s). safe_store (slots r) (deq r) (enq r) (Cycle r \<noteq> 0) x"
    using enqueue_loop_safe [OF loop_start_fits [OF geom] b(4) b(3), where k = 0 and f = True
        and c = "Cycle r \<noteq> 0" and ts = "take (unat count) ts"]
    by (simp add: loop_start_def)
  obtain ss where "eLog ?s = ss" "eBase ?s = apply_stores (Base r) ss"
    using enqueue_loop_log [of "Trbs r" True "take (unat count) ts" "loop_start r"]
    by (auto simp: loop_start_def)
  with safe o(4,5) show ?thesis
    by (auto simp: apply_stores_append apply_stores_Cons)
qed

section \<open>The invariant is kept\<close>

lemma is_link_cong:
  assumes "\<And>b. 10 \<le> b \<Longrightarrow> bit (Control t) b = bit (Control t') b"
  shows "is_link t = is_link t'"
proof -
  have "XHCI_TRB_GET_TYPE (Control t) = XHCI_TRB_GET_TYPE (Control t')"
    by (rule bit_eqI) (simp add: trb_field_take_bit bit_take_drop assms)
  then show ?thesis by (simp add: is_link_def)
qed

lemma slot_image_view [simp]:
  "cyc_of (slot_image f c t) = (c \<noteq> f)" "ch_of (slot_image f c t) = ch_of t"
  "is_link (slot_image f c t) = is_link t"
  by (simp_all add: cyc_of_def ch_of_def slot_image_bits is_link_cong [of "slot_image f c t" t])

lemma link_crossing_bits:
  "bit (link_crossing_control l (of_bool c) w) b =
     (if b = 0 then c else if b = 4 then bit w 4 else bit l b)"
proof -
  define x where "x = l AND NOT (XHCI_TRB_CYCLE OR XHCI_TRB_CH)"
  have x: "bit x b = (b \<noteq> 0 \<and> b \<noteq> 4 \<and> bit l b)" for b
    unfolding x_def bit_and_iff bit_not_iff bit_or_iff bit_mask_1 bit_mask_16
    by (auto simp: possible_bit_word dest: bit_imp_le_length)
  show ?thesis
    unfolding link_crossing_control_def Let_def x_def [symmetric]
    by (cases c; cases "bit w 4") (auto simp: bit_or_iff x word_flag simp del: bit_numeral_word_iff)
qed

lemma link_image_view [simp]:
  "cyc_of (link_image l c t) = c" "is_link (link_image l c t) = is_link l"
  "bit (Control (link_image l c t)) 1 = bit (Control l) 1"
  "Param0 (link_image l c t) = Param0 l"
  using is_link_cong [of "link_image l c t" l]
  by (simp_all add: cyc_of_def link_image_def link_crossing_bits)

declare link_image_view(3) [unfolded One_nat_def, simp]

lemma enqueued_cycles:
  assumes geom: "ring_geom r" and cyc: "ring_cycles r" and e: "enqueued r ts r'"
    and k: "length ts < slots r" and nolink: "\<forall>t \<in> set ts. \<not> is_link t"
  shows "cycles_at (Base r') (slots r) (enq r') (Cycle r' \<noteq> 0) \<and> link_at (Base r') (slots r) (BasePA r)"
proof -
  let ?n = "slots r" and ?e = "enq r" and ?c = "Cycle r \<noteq> 0" and ?k = "length ts"
  note b = geom_bounds [OF geom]
  from e have e': "enq r' = (?e + ?k) mod ?n" and c': "(Cycle r' \<noteq> 0) = lap_cycle ?n ?e ?c ?k"
    and slot: "\<And>j. j < ?n \<Longrightarrow> Base r' ! j =
         (if cyc_dist ?n ?e j < ?k
          then slot_image False (lap_cycle ?n ?e ?c (cyc_dist ?n ?e j)) (ts ! cyc_dist ?n ?e j)
          else Base r ! j)"
    and link: "Base r' ! ?n =
         (if ?e + ?k < ?n then Base r ! ?n else link_image (Base r ! ?n) ?c (ts ! (?n - 1 - ?e)))"
    by (auto simp: enqueued_def Let_def)
  have old: "\<And>j. j < ?n \<Longrightarrow> cyc_of (Base r ! j) = (if j < ?e then ?c else \<not> ?c) \<and> \<not> is_link (Base r ! j)"
    and oldl: "cyc_of (Base r ! ?n) = (\<not> ?c)" "link_at (Base r) ?n (BasePA r)"
    using cyc by (auto simp: ring_cycles_def cycles_at_def)
  have "cyc_of (Base r' ! j) = (if j < enq r' then Cycle r' \<noteq> 0 else \<not> Cycle r' \<noteq> 0) \<and>
      \<not> is_link (Base r' ! j)" if j: "j < ?n" for j
    using slot [OF j] old [OF j] nolink b(3) j k unfolding e' c'
    by (cases "?e + ?k < ?n"; cases "?e \<le> j")
      (auto simp: cyc_dist_alt lap_cycle_def mod_if)
  moreover have "cyc_of (Base r' ! ?n) = (\<not> Cycle r' \<noteq> 0)" and "link_at (Base r') ?n (BasePA r)"
    using link oldl unfolding c' by (auto simp: lap_cycle_def link_at_def)
  ultimately show ?thesis by (auto simp: cycles_at_def)
qed

text \<open>The declared TD lengths partition the group, and the Chain flags say so.\<close>

fun td_shape :: "xhci_trb list \<Rightarrow> nat list \<Rightarrow> bool" where
  "td_shape ts [] = (ts = [])"
| "td_shape ts (l # ls) =
     (0 < l \<and> l \<le> length ts \<and> (\<forall>n<l. ch_of (ts ! n) = (Suc n < l)) \<and> td_shape (drop l ts) ls)"

lemma checkTdChains_shape:
  assumes "checkTdChains ts count lens i = Some count" and "i \<le> count" and "unat count \<le> length ts"
  shows "td_shape (drop (unat i) (take (unat count) ts)) (map unat lens)"
  using assms
proof (induction lens arbitrary: i)
  case Nil
  then show ?case by simp
next
  case (Cons l ls)
  from Cons.prems(1) have l: "l \<noteq> 0" "l \<le> count - i" and ch: "td_chain_ok ts i l"
    and rest: "checkTdChains ts count ls (i + l) = Some count"
    by (auto split: if_splits)
  have ic: "unat i \<le> unat count" using Cons.prems(2) by (simp add: word_le_nat_alt)
  have lc: "unat l \<le> unat count - unat i"
    using l(2) ic by (simp add: word_le_nat_alt unat_sub_no_wrap)
  have il: "unat (i + l) = unat i + unat l"
    using lc ic unat_lt_2p32 [of count] by (intro unat_add_no_wrap) linarith
  have "td_shape (drop (unat l) (drop (unat i) (take (unat count) ts))) (map unat ls)"
    using Cons.IH [OF rest] Cons.prems(3) il lc ic by (simp add: word_le_nat_alt add.commute)
  moreover have "\<forall>n<unat l. ch_of (drop (unat i) (take (unat count) ts) ! n) = (Suc n < unat l)"
    using ch lc ic Cons.prems(3) by (auto simp: td_chain_ok_def list_all_iff ch_of_def)
  moreover have "0 < unat l" using l(1) unat_eq_iff [of l 0] by auto
  ultimately show ?case using lc ic Cons.prems(3) by simp
qed

lemma td_shape_last:
  "td_shape ts ls \<Longrightarrow> ts \<noteq> [] \<Longrightarrow> \<not> ch_of (last ts)"
proof (induction ts ls rule: td_shape.induct)
  case (1 ts)
  then show ?case by simp
next
  case (2 ts l ls)
  show ?case
  proof (cases "drop l ts = []")
    case True
    with 2 have "length ts = l" "0 < l" by auto
    with 2 show ?thesis by (simp add: last_conv_nth)
  next
    case False
    with 2 have "\<not> ch_of (last (drop l ts))" by simp
    with False show ?thesis by (simp add: last_drop)
  qed
qed

lemma enqueued_slot:
  assumes "enqueued r ts r'" and "j < slots r" and "cyc_dist (slots r) (enq r) j < length ts"
  shows "Base r' ! j =
     slot_image False (lap_cycle (slots r) (enq r) (Cycle r \<noteq> 0) (cyc_dist (slots r) (enq r) j))
       (ts ! cyc_dist (slots r) (enq r) j)"
  using assms by (auto simp: enqueued_def Let_def)

lemma enqueued_other:
  assumes "enqueued r ts r'" and "j < slots r" and "length ts \<le> cyc_dist (slots r) (enq r) j"
  shows "Base r' ! j = Base r ! j"
  using assms by (auto simp: enqueued_def Let_def)

lemma enqueued_inv:
  assumes inv: "ring_inv r" and e: "enqueued r ts r'" and k: "used r + length ts < slots r"
    and nolink: "\<forall>t \<in> set ts. \<not> is_link t" and ne: "ts \<noteq> []" and last: "\<not> ch_of (last ts)"
  shows "ring_inv r'"
proof -
  let ?n = "slots r" and ?e = "enq r" and ?k = "length ts"
  have geom: "ring_geom r" using inv by (simp add: ring_inv_def)
  note b = geom_bounds [OF geom]
  have same: "slots r' = ?n" "deq r' = deq r" "BasePA r' = BasePA r" "enq r' = (?e + ?k) mod ?n"
    using e by (auto simp: enqueued_def Let_def slots_def deq_def)
  have geom': "ring_geom r'"
    using geom e b same
    by (auto simp: ring_geom_def enqueued_def Let_def)
  have "ring_cycles r'"
    using enqueued_cycles [OF geom _ e _ nolink] inv k same
    by (simp add: ring_inv_def ring_cycles_def)
  moreover have "ring_chain r'"
  proof -
    have "0 < ?k" using ne by simp
    define j where "j = (?e + (?k - 1)) mod ?n"
    have dist: "cyc_dist ?n ?e j = ?k - 1"
      using cyc_dist_step [OF b(3), of "?k - 1"] k unfolding j_def by simp
    have "j < ?n" using b(1) by (simp add: j_def)
    then have last_slot: "ch_of (Base r' ! j) = ch_of (last ts)"
      using enqueued_slot [OF e, of j] dist \<open>0 < ?k\<close> ne by (simp add: last_conv_nth)
    have "((?e + ?k) mod ?n + (?n - 1)) mod ?n = (?e + ?k + (?n - 1)) mod ?n"
      by (rule mod_add_left_eq)
    also have "?e + ?k + (?n - 1) = (?e + (?k - 1)) + ?n"
      using \<open>0 < ?k\<close> b(1) by linarith
    finally have "((?e + ?k) mod ?n + ?n - 1) mod ?n = j"
      using b(1) by (simp add: j_def)
    then show ?thesis
      using last last_slot same by (simp add: ring_chain_def)
  qed
  ultimately show ?thesis using geom' by (simp add: ring_inv_def)
qed

lemma enqueue_group_inv:
  assumes inv: "ring_inv r" and len: "unat count \<le> length ts"
    and nolink: "\<forall>t \<in> set ts. \<not> is_link t"
    and ok: "XhciRingEnqueueTdGroup (Some r) (Some ts) count (Some lens) tdCount =
               (XHCI_RING_OK, Some r', p, log)"
  shows "ring_inv r'" "enqueued r (take (unat count) ts) r'"
    "used r + unat count < slots r" "0 < unat count"
    "td_shape (take (unat count) ts) (map unat (take (unat tdCount) lens))"
proof -
  have geom: "ring_geom r" using inv by (simp add: ring_inv_def)
  note o = enqueue_group_ok [OF ok]
  show e: "enqueued r (take (unat count) ts) r'"
    by (rule enqueue_group_effect [OF geom len ok])
  show room: "used r + unat count < slots r"
    using o(3) has_room_iff [OF geom] by simp
  show pos: "0 < unat count" using o(1) unat_eq_iff [of count 0] by auto
  show shape: "td_shape (take (unat count) ts) (map unat (take (unat tdCount) lens))"
    using checkTdChains_shape [OF o(2)] len by simp
  have "take (unat count) ts \<noteq> []" using pos len by auto
  moreover have "\<forall>t \<in> set (take (unat count) ts). \<not> is_link t"
    using nolink by (auto dest: in_set_takeD)
  moreover have "used r + length (take (unat count) ts) < slots r"
    using room len by simp
  ultimately show "ring_inv r'"
    using enqueued_inv [OF inv e] td_shape_last [OF shape] by blast
qed

end
