(* ===== verification/Xhci_Ring_Hw.thy ===== *)
theory Xhci_Ring_Hw
  imports Xhci_Ring_Enqueue
begin

text \<open>
  The consumer's side of a producer ring, as the xHCI specification gives it
  (\<^verbatim>\<open>src/docs/usb-xhci-info/xhci-data-structures.md\<close>): the controller takes TRBs one after the
  other while their cycle bit equals its own cycle state, and at a Link TRB continues at the
  address the Link holds, toggling its cycle state when Toggle Cycle is set. This is the abstract
  specification the producer code is measured against: what the controller can reach is exactly
  what software counts as outstanding, a group becomes reachable as a whole at its last store, and
  no earlier store changes what is reachable.
\<close>

section \<open>The controller's walk\<close>

text \<open>
  The first argument bounds the number of steps (a Link that led to itself would never end the
  walk); \<open>pa\<close> is the segment's address, by which a Link's target becomes an index.
\<close>

fun hw_walk :: "nat \<Rightarrow> ulong \<Rightarrow> xhci_trb list \<Rightarrow> nat \<Rightarrow> bool \<Rightarrow> nat list" where
  "hw_walk 0 pa b i ccs = []"
| "hw_walk (Suc k) pa b i ccs =
     (if length b \<le> i then []
      else if cyc_of (b ! i) \<noteq> ccs then []
      else if is_link (b ! i)
      then hw_walk k pa b (unat ((Param0 (b ! i) - pa) div XHCI_TRB_BYTES))
             (if bit (Control (b ! i)) 1 then \<not> ccs else ccs)
      else i # hw_walk k pa b (Suc i) ccs)"

definition hw_view :: "xhci_ring \<Rightarrow> nat list" where
  "hw_view r = hw_walk (length (Base r) + 2) (BasePA r) (Base r) (deq r)
                 (XhciRingDequeueCycle r \<noteq> 0)"

definition outstanding :: "xhci_ring \<Rightarrow> nat list" where
  "outstanding r = cyc_seg (slots r) (deq r) (used r)"

lemma hw_walk_run:
  assumes "\<And>i. a \<le> i \<Longrightarrow> i < z \<Longrightarrow> i < length b \<and> cyc_of (b ! i) = c \<and> \<not> is_link (b ! i)"
    and "a \<le> z"
  shows "hw_walk (k + (z - a)) pa b a c = [a..<z] @ hw_walk k pa b z c"
  using assms
proof (induction "z - a" arbitrary: a)
  case 0
  then show ?case by simp
next
  case (Suc m)
  then have az: "a < z" and zm: "z - a = Suc (z - Suc a)" by auto
  have "hw_walk (k + (z - Suc a)) pa b (Suc a) c = [Suc a..<z] @ hw_walk k pa b z c"
    using Suc.hyps(1) [of "Suc a"] Suc.hyps(2) Suc.prems by simp
  with Suc.prems(1) [of a] az show ?case
    unfolding zm by (simp add: upt_conv_Cons)
qed

text \<open>
  A stretch of the ring that the controller, standing at \<open>d\<close>, walks to \<open>e\<close> and no further;
  \<open>c\<close> is the producer's cycle at \<open>e\<close>.
\<close>

definition published :: "xhci_trb list \<Rightarrow> ulong \<Rightarrow> nat \<Rightarrow> nat \<Rightarrow> nat \<Rightarrow> bool \<Rightarrow> bool" where
  "published b pa n d e c \<longleftrightarrow>
     length b = Suc n \<and> d < n \<and> e < n \<and> cyc_of (b ! e) = (\<not> c) \<and>
     (\<forall>i<n. cyc_dist n d i < cyc_dist n d e \<longrightarrow>
        \<not> is_link (b ! i) \<and> cyc_of (b ! i) = (if i < e then c else \<not> c)) \<and>
     (e < d \<longrightarrow> link_at b n pa \<and> cyc_of (b ! n) = (\<not> c))"

lemma hw_walk_published:
  assumes p: "published b pa n d e c" and k: "n + 2 \<le> k"
  shows "hw_walk k pa b d (if e < d then \<not> c else c) = cyc_seg n d (cyc_dist n d e)"
proof (cases "e < d")
  case False
  with p have de: "d \<le> e" "e < n" "d < n" "cyc_dist n d e = e - d"
    by (auto simp: published_def cyc_dist_alt)
  obtain m where m: "k = Suc m + (e - d)"
  proof
    show "k = Suc (k - (e - d) - 1) + (e - d)" using k de by linarith
  qed
  have "hw_walk (Suc m + (e - d)) pa b d c = [d..<e] @ hw_walk (Suc m) pa b e c"
    using p de by (intro hw_walk_run) (auto simp: published_def cyc_dist_alt)
  also have "hw_walk (Suc m) pa b e c = []"
    using p by (simp add: published_def)
  finally show ?thesis
    using False m de cyc_seg_upt [of d "e - d" n] by simp
next
  case True
  with p have de: "e < n" "d < n" "cyc_dist n d e = e + n - d"
    by (auto simp: published_def cyc_dist_alt)
  obtain m where m: "k = Suc (Suc m + e) + (n - d)"
  proof
    show "k = Suc (Suc (k - (n - d) - e - 2) + e) + (n - d)"
      using k de True by linarith
  qed
  have "hw_walk k pa b d (\<not> c) = [d..<n] @ hw_walk (Suc (Suc m + e)) pa b n (\<not> c)"
    unfolding m using p de True by (intro hw_walk_run) (auto simp: published_def cyc_dist_alt)
  also have "hw_walk (Suc (Suc m + e)) pa b n (\<not> c) = hw_walk (Suc m + (e - 0)) pa b 0 c"
    using p True by (simp add: published_def link_at_def)
  also have "\<dots> = [0..<e] @ hw_walk (Suc m) pa b e c"
    using p de True by (intro hw_walk_run) (auto simp: published_def cyc_dist_alt)
  also have "hw_walk (Suc m) pa b e c = []"
    using p by (simp add: published_def)
  finally have walk: "hw_walk k pa b d (\<not> c) = [d..<n] @ [0..<e]" by simp
  have "cyc_seg n d ((n - d) + e) = [d..<n] @ [0..<e]"
    using cyc_seg_add [of n d "n - d" e] cyc_seg_upt [of d "n - d" n] cyc_seg_upt [of 0 e n] de
    by simp
  moreover have "(n - d) + e = e + n - d" using de by simp
  ultimately show ?thesis using walk True de by simp
qed

lemma safe_store_published:
  assumes p: "published b pa n d e c" and s: "safe_store n d e c s"
  shows "published (apply_store b s) pa n d e c"
proof -
  obtain i w v where [simp]: "s = (i, w, v)" by (cases s)
  have len: "length b = Suc n" "d < n" "e < n" using p by (auto simp: published_def)
  from s consider
      (slot) "i < n" "cyc_dist n d e \<le> cyc_dist n d i" "i = e \<and> w = DW3 \<longrightarrow> bit v 0 = (\<not> c)"
    | (link) "i = n" "d \<le> e"
    by (auto simp: safe_store_def)
  then show ?thesis
  proof cases
    case slot
    have "cyc_of (apply_store b s ! e) = (\<not> c)"
      using p slot len by (cases w) (auto simp: published_def cyc_of_def nth_list_update)
    moreover have "apply_store b s ! j = b ! j" if "cyc_dist n d j < cyc_dist n d e" for j
      using that slot by (cases "j = i") auto
    moreover have "apply_store b s ! n = b ! n" using slot by simp
    ultimately show ?thesis
      using p unfolding published_def link_at_def by (simp del: apply_store.simps)
  next
    case link
    then have "apply_store b s ! j = b ! j" if "j < n" for j
      using that by simp
    then show ?thesis
      using p link len unfolding published_def by (simp del: apply_store.simps)
  qed
qed

lemma safe_stores_published:
  assumes "published b pa n d e c" and "\<forall>s \<in> set ss. safe_store n d e c s"
  shows "published (apply_stores b ss) pa n d e c"
  using assms
  by (induction ss arbitrary: b) (auto simp: apply_stores_Cons intro: safe_store_published)

section \<open>What the ring promises the controller\<close>

lemma dequeue_cycle:
  "ring_geom r \<Longrightarrow>
     (XhciRingDequeueCycle r \<noteq> 0) = (if enq r < deq r then Cycle r = 0 else Cycle r \<noteq> 0)"
  using cycle_of_bool [of r]
  by (auto simp: XhciRingDequeueCycle_def word_less_nat_alt enq_def deq_def of_bool_def
      split: if_splits)

lemma inv_published:
  assumes "ring_inv r" and "d < slots r"
  shows "published (Base r) (BasePA r) (slots r) d (enq r) (Cycle r \<noteq> 0)"
proof -
  from assms(1) have g: "ring_geom r" by (simp add: ring_inv_def)
  with assms show ?thesis
    using geom_bounds [OF g]
    by (auto simp: ring_inv_def ring_cycles_def cycles_at_def published_def)
qed

text \<open>
  A position the controller may stand at: an outstanding TRB or the end of the published stretch,
  with the cycle state it has there.
\<close>

definition hw_position :: "xhci_ring \<Rightarrow> nat \<Rightarrow> bool \<Rightarrow> bool" where
  "hw_position r d ccs \<longleftrightarrow>
     d < slots r \<and> cyc_dist (slots r) (deq r) d \<le> used r \<and>
     ccs = (if enq r < d then Cycle r = 0 else Cycle r \<noteq> 0)"

lemma inv_walk:
  assumes "ring_inv r" and "hw_position r d ccs" and "slots r + 2 \<le> k"
  shows "hw_walk k (BasePA r) (Base r) d ccs =
           cyc_seg (slots r) d (cyc_dist (slots r) d (enq r))"
  using hw_walk_published [OF inv_published [OF assms(1)] assms(3), of d] assms(2)
  by (simp add: hw_position_def split: if_splits)

lemma hw_view_outstanding:
  assumes "ring_inv r"
  shows "hw_view r = outstanding r"
proof -
  have g: "ring_geom r" using assms by (simp add: ring_inv_def)
  have "hw_position r (deq r) (XhciRingDequeueCycle r \<noteq> 0)"
    using geom_bounds [OF g] dequeue_cycle [OF g] by (simp add: hw_position_def)
  moreover have "slots r + 2 \<le> length (Base r) + 2"
    using geom_bounds(6) [OF g] by simp
  ultimately show ?thesis
    unfolding hw_view_def outstanding_def used_def by (rule inv_walk [OF assms])
qed

lemma cyc_dist_between:
  assumes "d0 < n" "d < n" "e < n" "i < n"
    and "cyc_dist n d0 d \<le> cyc_dist n d0 e" and "cyc_dist n d0 e \<le> cyc_dist n d0 i"
  shows "cyc_dist n d e \<le> cyc_dist n d i" and "d0 \<le> e \<Longrightarrow> d \<le> e"
  using assms by (auto simp: cyc_dist_alt split: if_splits)

lemma safe_store_ahead:
  assumes "safe_store n d0 e c s" and "d0 < n" "d < n" "e < n"
    and "cyc_dist n d0 d \<le> cyc_dist n d0 e"
  shows "safe_store n d e c s"
  using assms cyc_dist_between [OF assms(2,3,4)] 
  by (auto simp: safe_store_def split: prod.splits)

text \<open>No store of the group before the last one changes what the controller can reach.\<close>

lemma enqueue_prefix_invisible:
  assumes inv: "ring_inv r" and len: "unat count \<le> length ts"
    and ok: "XhciRingEnqueueTdGroup (Some r) (Some ts) count (Some lens) tdCount =
               (XHCI_RING_OK, Some r', p, log)"
    and pos: "hw_position r d ccs" and j: "j < length log" and k: "slots r + 2 \<le> k"
  shows "hw_walk k (BasePA r) (apply_stores (Base r) (take j log)) d ccs =
         hw_walk k (BasePA r) (Base r) d ccs"
proof -
  have g: "ring_geom r" using inv by (simp add: ring_inv_def)
  note b = geom_bounds [OF g]
  obtain ss pub where log: "log = ss @ [pub]"
    and safe: "\<forall>x \<in> set ss. safe_store (slots r) (deq r) (enq r) (Cycle r \<noteq> 0) x"
    using enqueue_group_log [OF g len ok] by blast
  have d: "d < slots r" "cyc_dist (slots r) (deq r) d \<le> cyc_dist (slots r) (deq r) (enq r)"
    using pos by (simp_all add: hw_position_def used_def)
  have tk: "take j log = take j ss" using j log by simp
  have "\<forall>x \<in> set (take j log). safe_store (slots r) d (enq r) (Cycle r \<noteq> 0) x"
    unfolding tk using safe safe_store_ahead [OF _ b(4) d(1) b(3) d(2)]
    by (auto dest: in_set_takeD)
  then have "published (apply_stores (Base r) (take j log)) (BasePA r) (slots r) d (enq r) (Cycle r \<noteq> 0)"
    by (rule safe_stores_published [OF inv_published [OF inv d(1)]])
  from hw_walk_published [OF this k] inv_walk [OF inv pos k] pos show ?thesis
    by (simp add: hw_position_def split: if_splits)
qed

section \<open>The ring as a queue of TRBs\<close>

text \<open>The abstract state: the outstanding TRBs, oldest first, cycle bit aside.\<close>

definition strip_cycle :: "xhci_trb \<Rightarrow> xhci_trb" where
  "strip_cycle t = t\<lparr>Control := Control t AND NOT XHCI_TRB_CYCLE\<rparr>"

definition pending :: "xhci_ring \<Rightarrow> xhci_trb list" where
  "pending r = map (\<lambda>i. strip_cycle (Base r ! i)) (outstanding r)"

lemma length_pending [simp]: "length (pending r) = used r"
  by (simp add: pending_def outstanding_def)

lemma strip_slot_image [simp]: "strip_cycle (slot_image False c t) = strip_cycle t"
proof -
  have "stamp_cycle w x AND NOT 1 = w AND NOT 1" for w x
    by (rule bit_eqI) (simp only: bit_and_iff bit_not_iff bit_mask_1 stamp_cycle_bits, auto)
  then show ?thesis by (simp add: strip_cycle_def slot_image_def)
qed

lemma enqueued_used:
  assumes "ring_geom r" and "enqueued r ts r'" and "used r + length ts < slots r"
  shows "used r' = used r + length ts" "slots r' = slots r" "deq r' = deq r"
proof -
  from assms(2) have e: "enq r' = (enq r + length ts) mod slots r" and "Trbs r' = Trbs r"
      "Dequeue r' = Dequeue r"
    by (simp_all add: enqueued_def Let_def)
  then show s: "slots r' = slots r" and d: "deq r' = deq r"
    by (simp_all add: slots_def deq_def)
  show "used r' = used r + length ts"
    using used_add [OF geom_bounds(4,3) [OF assms(1)]] assms(3) by (simp add: used_def s d e)
qed

lemma enqueued_outstanding:
  assumes "ring_geom r" and "enqueued r ts r'" and "used r + length ts < slots r"
  shows "outstanding r' = outstanding r @ cyc_seg (slots r) (enq r) (length ts)"
  using enqueued_used [OF assms] cyc_seg_add [of "slots r" "deq r" "used r" "length ts"]
    enq_eq [OF assms(1)]
  by (simp add: outstanding_def)

lemma enqueued_pending:
  assumes g: "ring_geom r" and e: "enqueued r ts r'" and k: "used r + length ts < slots r"
  shows "pending r' = pending r @ map strip_cycle ts"
proof -
  let ?n = "slots r"
  note b = geom_bounds [OF g]
  have old: "Base r' ! i = Base r ! i" if "i \<in> set (outstanding r)" for i
  proof -
    have i: "i < ?n" "cyc_dist ?n (deq r) i < used r"
      using that set_cyc_seg [OF b(4), of "used r"] b(8) by (auto simp: outstanding_def)
    have "length ts \<le> cyc_dist ?n (enq r) i"
      using i k b(3,4) by (auto simp: used_def cyc_dist_alt split: if_splits)
    then show ?thesis using enqueued_other [OF e i(1)] by simp
  qed
  have new: "map (\<lambda>i. strip_cycle (Base r' ! i)) (cyc_seg ?n (enq r) (length ts)) = map strip_cycle ts"
  proof (rule nth_equalityI)
    fix j assume "j < length (map (\<lambda>i. strip_cycle (Base r' ! i)) (cyc_seg ?n (enq r) (length ts)))"
    then have j: "j < length ts" by simp
    then have "cyc_dist ?n (enq r) ((enq r + j) mod ?n) = j"
      using cyc_dist_step [OF b(3)] k by simp
    with j show "map (\<lambda>i. strip_cycle (Base r' ! i)) (cyc_seg ?n (enq r) (length ts)) ! j =
        map strip_cycle ts ! j"
      using enqueued_slot [OF e, of "(enq r + j) mod ?n"] b(1) by simp
  qed simp
  show ?thesis
    using old new by (simp add: pending_def enqueued_outstanding [OF g e k])
qed

end
