(* ===== verification/Xhci_Ring_Td.thy ===== *)
theory Xhci_Ring_Td
  imports Xhci_Ring_Hw
begin

text \<open>
  Transfer Descriptors on the ring: the Chain-flag walks of \<open>XhciRingTdBounds\<close>, the transfer-length
  sum, and the operations that move the dequeue pointer or rewrite a slot. Positions are counted
  as offsets from the dequeue pointer.
\<close>

section \<open>Offsets\<close>

definition pos :: "xhci_ring \<Rightarrow> nat \<Rightarrow> nat" where
  "pos r y = (deq r + y) mod slots r"

definition off :: "xhci_ring \<Rightarrow> ulong \<Rightarrow> nat" where
  "off r i = cyc_dist (slots r) (deq r) (unat i)"

definition chained :: "xhci_ring \<Rightarrow> nat \<Rightarrow> bool" where
  "chained r y \<longleftrightarrow> ch_of (Base r ! pos r y)"

lemma pos_less: "ring_geom r \<Longrightarrow> pos r y < slots r"
  using geom_bounds(1) [of r] by (simp add: pos_def)

lemma pos_off: "ring_geom r \<Longrightarrow> unat i < slots r \<Longrightarrow> pos r (off r i) = unat i"
  using geom_bounds(4) [of r] by (simp add: pos_def off_def cyc_pos_dist)

lemma off_less: "ring_geom r \<Longrightarrow> off r i < slots r"
  using geom_bounds(1) [of r] by (simp add: off_def cyc_dist_less)

lemma outstanding_off:
  "ring_geom r \<Longrightarrow> xhciRingIsOutstanding r i \<longleftrightarrow> unat i < slots r \<and> off r i < used r"
  by (simp add: outstanding_iff off_def)

lemma off_of_pos: "ring_geom r \<Longrightarrow> y < slots r \<Longrightarrow> unat i = pos r y \<Longrightarrow> off r i = y"
  using geom_bounds(4) [of r] by (simp add: off_def pos_def cyc_dist_step)

lemma next_pos:
  assumes "ring_geom r" and "unat i = pos r y"
  shows "unat (xhciRingNext r i) = pos r (Suc y)"
  using assms unat_next [of r i] pos_less [of r y] by (simp add: pos_def mod_Suc_eq)

lemma prev_pos:
  assumes g: "ring_geom r" and i: "unat i = pos r (Suc y)"
  shows "unat (if i = 0 then Trbs r - 2 else i - 1) = pos r y"
proof -
  note b = geom_bounds [OF g]
  have i': "unat i = Suc (pos r y) mod slots r"
    using i by (simp add: pos_def mod_Suc_eq)
  show ?thesis
  proof (cases "Suc (pos r y) = slots r")
    case True
    then have "i = 0" using i' unat_eq_iff [of i 0] by simp
    then show ?thesis using b(1,5) True by (simp add: unat_sub_no_wrap)
  next
    case False
    then have "unat i = Suc (pos r y)" using i' pos_less [OF g, of y] by simp
    moreover from this have "i \<noteq> 0" by auto
    ultimately show ?thesis by (simp add: unat_sub_no_wrap)
  qed
qed

section \<open>The TD of a TRB\<close>

text \<open>The offsets \<open>h\<close> to \<open>t\<close> are exactly one outstanding TD.\<close>

definition td_at :: "xhci_ring \<Rightarrow> nat \<Rightarrow> nat \<Rightarrow> bool" where
  "td_at r h t \<longleftrightarrow>
     h \<le> t \<and> t < used r \<and> \<not> chained r t \<and> (\<forall>y. h \<le> y \<and> y < t \<longrightarrow> chained r y) \<and>
     (h = 0 \<or> \<not> chained r (h - 1))"

lemma td_at_unique:
  assumes "td_at r h t" "td_at r h' t'" "h \<le> x" "x \<le> t" "h' \<le> x" "x \<le> t'"
  shows "h = h'" "t = t'"
proof -
  show "t = t'"
  proof (rule ccontr)
    assume "t \<noteq> t'"
    then consider "t < t'" | "t' < t" by linarith
    then show False
    proof cases
      case 1 then show ?thesis using assms by (auto simp: td_at_def)
    next
      case 2 then show ?thesis using assms by (auto simp: td_at_def)
    qed
  qed
  show "h = h'"
  proof (rule ccontr)
    assume "h \<noteq> h'"
    then consider "h < h'" | "h' < h" by linarith
    then show False
    proof cases
      case 1
      then have "h \<le> h' - 1" "h' - 1 < t" "h' \<noteq> 0" using assms by auto
      then show ?thesis using assms by (auto simp: td_at_def)
    next
      case 2
      then have "h' \<le> h - 1" "h - 1 < t'" "h \<noteq> 0" using assms by auto
      then show ?thesis using assms by (auto simp: td_at_def)
    qed
  qed
qed

lemma td_tail_loop_pos:
  assumes g: "ring_geom r" and "unat i = pos r y" and "y \<le> t" "t - y \<le> k"
    and "\<not> chained r t" and "\<And>z. y \<le> z \<Longrightarrow> z < t \<Longrightarrow> chained r z"
  shows "unat (td_tail_loop k r i) = pos r t"
  using assms(2-)
proof (induction k arbitrary: i y)
  case 0
  then show ?case by simp
next
  case (Suc k)
  show ?case
  proof (cases "y = t")
    case True
    with Suc.prems show ?thesis by (simp add: ch_of_def chained_def)
  next
    case False
    with Suc.prems have "chained r y" by simp
    moreover have "unat (td_tail_loop k r (xhciRingNext r i)) = pos r t"
      using Suc.IH [OF next_pos [OF g Suc.prems(1)]] Suc.prems False by simp
    ultimately show ?thesis using Suc.prems(1) by (simp add: ch_of_def chained_def)
  qed
qed

lemma deq_pos0: "ring_geom r \<Longrightarrow> deq r = pos r 0"
  using geom_bounds(4) [of r] by (simp add: pos_def)

lemma td_head_loop_pos:
  assumes g: "ring_geom r" and "unat i = pos r y" and "h \<le> y" "y - h \<le> k" "y < slots r"
    and "h = 0 \<or> \<not> chained r (h - 1)" and "\<And>z. h \<le> z \<Longrightarrow> z < y \<Longrightarrow> chained r z"
  shows "unat (td_head_loop k r i) = pos r h"
  using assms(2-)
proof (induction k arbitrary: i y)
  case 0
  then show ?case by simp
next
  case (Suc k)
  have at_deq: "i = Dequeue r \<longleftrightarrow> y = 0"
    using Suc.prems(1,4) off_of_pos [OF g Suc.prems(4,1)] deq_pos0 [OF g] unat_eq_iff [of i "Dequeue r"]
      geom_bounds(4) [OF g]
    by (auto simp: deq_def off_def)
  show ?case
  proof (cases y)
    case 0
    with Suc.prems at_deq show ?thesis by simp
  next
    case (Suc z)
    let ?prev = "if i = 0 then Trbs r - 2 else i - 1"
    have prev: "unat ?prev = pos r z" using prev_pos [OF g] Suc.prems(1) Suc by simp
    have ne: "i \<noteq> Dequeue r" using at_deq Suc by simp
    show ?thesis
    proof (cases "h = y")
      case True
      with Suc.prems(5) Suc have "\<not> ch_of (Base r ! unat ?prev)"
        using prev by (simp add: chained_def)
      with ne True Suc.prems(1) show ?thesis by (simp add: ch_of_def Let_def)
    next
      case False
      then have hz: "h \<le> z" using Suc.prems(2) Suc by simp
      have "ch_of (Base r ! unat ?prev)"
        using Suc.prems(6) [of z] hz Suc prev by (simp add: chained_def)
      moreover have "unat (td_head_loop k r ?prev) = pos r h"
        using Suc.IH [OF prev hz] Suc.prems(3-6) Suc hz by simp
      ultimately show ?thesis using ne by (simp add: ch_of_def Let_def)
    qed
  qed
qed

lemma last_unchained:
  assumes inv: "ring_inv r" and u: "0 < used r"
  shows "\<not> chained r (used r - 1)"
proof -
  have g: "ring_geom r" using inv by (simp add: ring_inv_def)
  note b = geom_bounds [OF g]
  have "(enq r + (slots r - 1)) mod slots r = (deq r + used r + (slots r - 1)) mod slots r"
    using enq_eq [OF g] by (metis mod_add_left_eq)
  also have "deq r + used r + (slots r - 1) = deq r + (used r - 1) + slots r"
    using u b(1) by linarith
  finally have "(enq r + slots r - 1) mod slots r = pos r (used r - 1)"
    using b(1) by (simp add: pos_def)
  then show ?thesis
    using inv u by (simp add: ring_inv_def ring_chain_def chained_def)
qed

lemma td_exists:
  assumes inv: "ring_inv r" and x: "x < used r"
  shows "\<exists>h t. td_at r h t \<and> h \<le> x \<and> x \<le> t"
proof -
  have last: "\<not> chained r (used r - 1)" using last_unchained [OF inv] x by simp
  define t where "t = (LEAST y. x \<le> y \<and> \<not> chained r y)"
  have t: "x \<le> t" "\<not> chained r t"
    using LeastI [of "\<lambda>y. x \<le> y \<and> \<not> chained r y" "used r - 1"] last x
    by (auto simp: t_def)
  have t_min: "t \<le> y" if "x \<le> y" "\<not> chained r y" for y
    unfolding t_def using that by (auto intro: Least_le)
  have tu: "t < used r" using t_min [of "used r - 1"] last x by linarith
  have "\<exists>h\<le>x. (h = 0 \<or> \<not> chained r (h - 1)) \<and> (\<forall>y. h \<le> y \<and> y < x \<longrightarrow> chained r y)" for x
  proof (induction x)
    case 0
    then show ?case by auto
  next
    case (Suc x)
    show ?case
    proof (cases "chained r x")
      case True
      with Suc show ?thesis by (metis le_SucI less_Suc_eq)
    next
      case False
      then show ?thesis by (intro exI [of _ "Suc x"]) auto
    qed
  qed
  then obtain h where h: "h \<le> x" "h = 0 \<or> \<not> chained r (h - 1)"
      "\<And>y. h \<le> y \<Longrightarrow> y < x \<Longrightarrow> chained r y" by blast
  have "td_at r h t"
    unfolding td_at_def using h t tu t_min by (metis le_trans not_le)
  with h t show ?thesis by blast
qed

lemma td_bounds:
  assumes inv: "ring_inv r" and out: "xhciRingIsOutstanding r i"
  shows "\<exists>h t. XhciRingTdBounds (Some r) i = Inr (h, t) \<and>
     unat h < slots r \<and> unat t < slots r \<and>
     td_at r (off r h) (off r t) \<and> off r h \<le> off r i \<and> off r i \<le> off r t"
proof -
  have g: "ring_geom r" using inv by (simp add: ring_inv_def)
  have i: "unat i < slots r" "off r i < used r" using out outstanding_off [OF g] by auto
  obtain h t where td: "td_at r h t" "h \<le> off r i" "off r i \<le> t"
    using td_exists [OF inv i(2)] by blast
  let ?h = "td_head_loop (used r) r i" and ?t = "td_tail_loop (used r) r i"
  have ip: "unat i = pos r (off r i)" using pos_off [OF g i(1)] by simp
  have lt: "h < slots r" "t < slots r" "off r i < slots r"
    using td i geom_bounds(8) [OF g] by (auto simp: td_at_def)
  have "unat ?h = pos r h"
    using td_head_loop_pos [OF g ip td(2), of "used r"] td i lt by (auto simp: td_at_def)
  moreover have "unat ?t = pos r t"
    using td_tail_loop_pos [OF g ip td(3), of "used r"] td i lt by (auto simp: td_at_def)
  moreover have "XhciRingTdBounds (Some r) i = Inr (?h, ?t)"
    using out geom_bounds(7) [OF g] g by (simp add: XhciRingTdBounds_def Let_def)
  ultimately show ?thesis
    using off_of_pos [OF g lt(1)] off_of_pos [OF g lt(2)] td pos_less [OF g] by metis
qed

text \<open>After an enqueue every declared TD is a TD of the ring.\<close>

lemma td_shape_sum: "td_shape ts ls \<Longrightarrow> sum_list ls = length ts \<and> (\<forall>l \<in> set ls. 0 < l)"
  by (induction ts ls rule: td_shape.induct) auto

lemma sum_list_take_le: "sum_list (take m ls) \<le> sum_list (ls :: nat list)"
  using sum_list_append [of "take m ls" "drop m ls"] by simp

lemma td_shape_nth:
  assumes "td_shape ts ls" and "m < length ls"
  shows "sum_list (take (Suc m) ls) \<le> length ts" "0 < ls ! m"
  using td_shape_sum [OF assms(1)] sum_list_take_le [of "Suc m" ls] assms(2) by auto

lemma td_shape_chain:
  assumes "td_shape ts ls" and "m < length ls"
    and "sum_list (take m ls) \<le> y" and "y < sum_list (take (Suc m) ls)"
  shows "ch_of (ts ! y) = (Suc y < sum_list (take (Suc m) ls))"
  using assms
proof (induction ts ls arbitrary: m y rule: td_shape.induct)
  case (1 ts)
  then show ?case by simp
next
  case (2 ts l ls)
  show ?case
  proof (cases m)
    case 0
    with 2 show ?thesis by auto
  next
    case (Suc m')
    with 2 have "ch_of (drop l ts ! (y - l)) = (Suc (y - l) < sum_list (take (Suc m') ls))"
      by (intro "2.IH") auto
    with 2 Suc show ?thesis by auto
  qed
qed

lemma sum_list_take_Suc: "m < length ls \<Longrightarrow> sum_list (take (Suc m) ls) = sum_list (take m ls) + ls ! m"
  by (simp add: take_Suc_conv_app_nth)

lemma enqueued_chained:
  assumes g: "ring_geom r" and e: "enqueued r ts r'" and k: "used r + length ts < slots r"
    and y: "y < used r + length ts"
  shows "chained r' y = (if y < used r then chained r y else ch_of (ts ! (y - used r)))"
proof -
  note u = enqueued_used [OF g e k] and b = geom_bounds [OF g]
  have p: "pos r' y = pos r y" using u by (simp add: pos_def)
  have yp: "y < length (outstanding r')" using y u by (simp add: outstanding_def)
  have "ch_of (strip_cycle (Base r' ! pos r y)) = ch_of (pending r' ! y)"
    using yp u by (simp add: pending_def outstanding_def pos_def)
  moreover have "ch_of (strip_cycle t) = ch_of t" for t
    by (simp add: strip_cycle_def ch_of_def bit_and_iff bit_not_iff)
  moreover have "pending r ! y = strip_cycle (Base r ! pos r y)" if "y < used r"
    using that by (simp add: pending_def outstanding_def pos_def)
  ultimately show ?thesis
    using enqueued_pending [OF g e k] y p
    by (auto simp: chained_def nth_append)
qed

lemma enqueued_td:
  assumes inv: "ring_inv r" and e: "enqueued r ts r'" and k: "used r + length ts < slots r"
    and shape: "td_shape ts ls" and m: "m < length ls"
  shows "td_at r' (used r + sum_list (take m ls)) (used r + sum_list (take (Suc m) ls) - 1)"
proof -
  have g: "ring_geom r" using inv by (simp add: ring_inv_def)
  note s = td_shape_nth [OF shape m] and ch = enqueued_chained [OF g e k]
  have used': "used r' = used r + length ts" by (rule enqueued_used [OF g e k])
  have step: "sum_list (take (Suc m) ls) = sum_list (take m ls) + ls ! m"
    by (rule sum_list_take_Suc [OF m])
  have prev: "\<not> chained r' (used r + sum_list (take m ls) - 1)" if "used r + sum_list (take m ls) \<noteq> 0"
  proof (cases m)
    case 0
    with that have u: "0 < used r" by simp
    then have "\<not> chained r (used r - 1)" by (rule last_unchained [OF inv])
    then show ?thesis using ch [of "used r - 1"] u 0 by simp
  next
    case (Suc m')
    then have m': "m' < length ls" using m by simp
    note s' = td_shape_nth [OF shape m']
    have "0 < sum_list (take m ls)" using s'(2) sum_list_take_Suc [OF m'] Suc by simp
    then show ?thesis
      using s'(1) td_shape_chain [OF shape m', of "sum_list (take m ls) - 1"] sum_list_take_Suc [OF m'] s'(2) Suc
        ch [of "used r + sum_list (take m ls) - 1"]
      by auto
  qed
  show ?thesis
    unfolding td_at_def
  proof (intro conjI allI impI)
    show "used r + sum_list (take m ls) \<le> used r + sum_list (take (Suc m) ls) - 1"
      using step s(2) by simp
    show "used r + sum_list (take (Suc m) ls) - 1 < used r'"
      using used' s(1,2) step by simp
    show "\<not> chained r' (used r + sum_list (take (Suc m) ls) - 1)"
      using ch [of "used r + sum_list (take (Suc m) ls) - 1"] s(1,2) step
        td_shape_chain [OF shape m, of "sum_list (take (Suc m) ls) - 1"] by auto
    fix y assume "used r + sum_list (take m ls) \<le> y \<and> y < used r + sum_list (take (Suc m) ls) - 1"
    then show "chained r' y"
      using ch [of y] s(1) td_shape_chain [OF shape m, of "y - used r"] by auto
  next
    show "used r + sum_list (take m ls) = 0 \<or> \<not> chained r' (used r + sum_list (take m ls) - 1)"
      using prev by (cases "used r + sum_list (take m ls) = 0") simp_all
  qed
qed

section \<open>Moving the dequeue pointer\<close>

lemma move_dequeue:
  assumes inv: "ring_inv r" and d: "unat d' = pos r x" and x: "x \<le> used r"
  shows "ring_inv (r\<lparr>Dequeue := d'\<rparr>)" "used (r\<lparr>Dequeue := d'\<rparr>) = used r - x"
    "pending (r\<lparr>Dequeue := d'\<rparr>) = drop x (pending r)"
proof -
  let ?r = "r\<lparr>Dequeue := d'\<rparr>"
  have g: "ring_geom r" using inv by (simp add: ring_inv_def)
  note b = geom_bounds [OF g]
  have same: "slots ?r = slots r" "enq ?r = enq r" "deq ?r = pos r x"
    using d by (simp_all add: ring_view_defs)
  have enq: "enq r = (pos r x + (used r - x)) mod slots r"
    using enq_eq [OF g] x mod_add_left_eq [of "deq r + x" "slots r" "used r - x"]
    by (simp add: pos_def)
  show u: "used ?r = used r - x"
    unfolding used_def [of ?r] same enq
    using cyc_dist_step [OF pos_less [OF g], of "used r - x"] b(8) by simp
  show "pending ?r = drop x (pending r)"
    unfolding pending_def outstanding_def u same
    by (simp add: drop_map drop_cyc_seg x pos_def)
  show "ring_inv ?r"
    using inv u pos_less [OF g, of x] same
    by (auto simp: ring_inv_def ring_geom_def ring_cycles_def ring_chain_def)
qed

lemma next_of_outstanding:
  assumes "ring_inv r" and "xhciRingIsOutstanding r i"
  shows "unat (xhciRingNext r i) = pos r (Suc (off r i))" "Suc (off r i) \<le> used r"
proof -
  have g: "ring_geom r" using assms by (simp add: ring_inv_def)
  then show "unat (xhciRingNext r i) = pos r (Suc (off r i))"
    using next_pos [OF g, of i "off r i"] pos_off [OF g] assms(2) outstanding_off [OF g] by simp
  show "Suc (off r i) \<le> used r"
    using assms(2) outstanding_off [OF g] by simp
qed

lemmas retire_outstanding = move_dequeue [OF _ next_of_outstanding]

lemma index_from_pa_lt:
  "XhciRingIndexFromPA r pa = Inr i \<Longrightarrow> i < Trbs r"
  by (auto simp: XhciRingIndexFromPA_def Let_def split: if_splits)

lemma retire_td_cases:
  "XhciRingRetireTd (Some r) (Some c) = (st, ring') \<Longrightarrow>
     (st = XHCI_RING_OK \<and> CanRetire c \<and> xhciRingIsOutstanding r (TailIndex c) \<and>
        ring' = Some (r\<lparr>Dequeue := xhciRingNext r (TailIndex c)\<rparr>)) \<or>
     (st \<noteq> XHCI_RING_OK \<and> ring' = Some r)"
  by (auto simp: XhciRingRetireTd_def split: if_splits)

lemma set_dequeue_cases:
  assumes inv: "ring_inv r" and s: "XhciRingSetDequeue (Some r) pa = (st, ring')"
  shows "(st = XHCI_RING_OK \<and>
            (\<exists>i x. XhciRingIndexFromPA r pa = Inr i \<and> unat i = pos r x \<and> x \<le> used r \<and>
                   (x = used r \<or> x = 0 \<or> \<not> chained r (x - 1)) \<and> ring' = Some (r\<lparr>Dequeue := i\<rparr>))) \<or>
         (st \<noteq> XHCI_RING_OK \<and> ring' = Some r)"
proof -
  have g: "ring_geom r" using inv by (simp add: ring_inv_def)
  consider (err) "st \<noteq> XHCI_RING_OK" "ring' = Some r"
    | (enq) i where "XhciRingIndexFromPA r pa = Inr i" "i = Enqueue r" "st = XHCI_RING_OK"
        "ring' = Some (r\<lparr>Dequeue := i\<rparr>)"
    | (head) i t where "XhciRingIndexFromPA r pa = Inr i" "xhciRingIsOutstanding r i"
        "XhciRingTdBounds (Some r) i = Inr (i, t)" "st = XHCI_RING_OK"
        "ring' = Some (r\<lparr>Dequeue := i\<rparr>)"
    using s unfolding XhciRingSetDequeue_def
    by (auto split: sum.splits if_splits simp: XhciRingIndexFromPA_def XhciRingTdBounds_def Let_def)
  then show ?thesis
  proof cases
    case err
    then show ?thesis by simp
  next
    case enq
    then show ?thesis using enq_eq [OF g] by (auto simp: pos_def enq_def)
  next
    case head
    obtain t' where "td_at r (off r i) t'"
      using td_bounds [OF inv head(2)] head(3) by auto
    then have "off r i = 0 \<or> \<not> chained r (off r i - 1)" by (simp add: td_at_def)
    moreover have "unat i = pos r (off r i)" "off r i \<le> used r"
      using head(2) outstanding_off [OF g] pos_off [OF g] by auto
    ultimately show ?thesis using head by blast
  qed
qed

section \<open>Rewriting a slot as a No Op\<close>

definition noop_trb :: "ulong \<Rightarrow> xhci_trb \<Rightarrow> xhci_trb" where
  "noop_trb ty old =
     \<lparr>Param0 = 0, Param1 = 0, Status = 0,
      Control = XHCI_TRB_TYPE ty OR (Control old AND XHCI_TRB_CYCLE)\<rparr>"

definition unchain :: "xhci_trb \<Rightarrow> xhci_trb" where
  "unchain l = l\<lparr>Control := Control l AND NOT XHCI_TRB_CH\<rparr>"

lemma noop_trb_view:
  assumes "ty = XHCI_TRB_TYPE_NOOP \<or> ty = XHCI_TRB_TYPE_NOOP_COMMAND"
  shows "cyc_of (noop_trb ty old) = cyc_of old" "\<not> ch_of (noop_trb ty old)" "\<not> is_link (noop_trb ty old)"
  using assms
  by (auto simp: noop_trb_def cyc_of_def ch_of_def is_link_def bit_or_iff bit_and_iff trb_get_or
      trb_get_put trb_put_no_cycle and_1_of_bool XHCI_TRB_TYPE_def XHCI_TRB_GET_TYPE_def)

lemma unchain_view:
  "cyc_of (unchain l) = cyc_of l" "is_link (unchain l) = is_link l"
  "bit (Control (unchain l)) 1 = bit (Control l) 1" "Param0 (unchain l) = Param0 l"
proof -
  have c: "Control (unchain l) = Control l AND NOT XHCI_TRB_CH"
    by (simp add: unchain_def)
  have b: "bit (Control (unchain l)) n = (n \<noteq> 4 \<and> bit (Control l) n)" for n
    unfolding c bit_and_iff bit_not_iff bit_mask_16 by (auto dest: bit_imp_le_length)
  show "cyc_of (unchain l) = cyc_of l" "is_link (unchain l) = is_link l"
    "bit (Control (unchain l)) 1 = bit (Control l) 1" "Param0 (unchain l) = Param0 l"
    using is_link_cong [of "unchain l" l] by (simp_all add: b cyc_of_def) (simp add: unchain_def)
qed

lemma noop_cases:
  assumes g: "ring_geom r" and s: "XhciRingNoOpAtType (Some r) i ty = (st, ring')"
  shows "(st = XHCI_RING_OK \<and> xhciRingIsOutstanding r i \<and>
          (ty = XHCI_TRB_TYPE_NOOP \<or> ty = XHCI_TRB_TYPE_NOOP_COMMAND) \<and>
          ring' = Some (r\<lparr>Base := (Base r)[unat i := noop_trb ty (Base r ! unat i),
             slots r := (if Suc (unat i) = slots r then unchain (Base r ! slots r)
                         else Base r ! slots r)]\<rparr>)) \<or>
         (st \<noteq> XHCI_RING_OK \<and> ring' = Some r)"
proof (cases "(ty = XHCI_TRB_TYPE_NOOP \<or> ty = XHCI_TRB_TYPE_NOOP_COMMAND) \<and> xhciRingIsOutstanding r i")
  case False
  then show ?thesis
    using s geom_bounds(7) [OF g] by (auto simp: XhciRingNoOpAtType_def split: if_splits)
next
  case True
  note b = geom_bounds [OF g]
  have i: "unat i < slots r" using True outstanding_iff [OF g] by simp
  have "unat (Trbs r - 2) = slots r - 1"
    using b(1,5) by (simp add: unat_sub_no_wrap)
  then have last: "i = Trbs r - 2 \<longleftrightarrow> Suc (unat i) = slots r"
    using i unat_eq_iff [of i "Trbs r - 2"] by auto
  have in_range: "\<not> Trbs r - 1 \<le> i"
    using i unat_Trbs_1 [OF g] by (simp add: word_le_nat_alt)
  have keep: "(Base r)[unat i := x, slots r := Base r ! slots r] = (Base r)[unat i := x]" for x
    using i by (metis list_update_id list_update_swap nat_neq_iff)
  have res: "XhciRingNoOpAtType (Some r) i ty =
      (XHCI_RING_OK, Some (r\<lparr>Base := (let b = (Base r)[unat i := noop_trb ty (Base r ! unat i)] in
          if i = Trbs r - 2 then apply_store b (slots r, DW3, Control (b ! slots r) AND NOT XHCI_TRB_CH)
          else b)\<rparr>))"
    using True b(6,7) in_range i
    by (auto simp: XhciRingNoOpAtType_def Let_def noop_trb_def unat_Trbs_1 [OF g])
  show ?thesis
    using s True i unfolding res Let_def last
    by (cases "Suc (unat i) = slots r") (auto simp: keep unchain_def)
qed

lemma noop_inv:
  assumes inv: "ring_inv r" and out: "xhciRingIsOutstanding r i"
    and ty: "ty = XHCI_TRB_TYPE_NOOP \<or> ty = XHCI_TRB_TYPE_NOOP_COMMAND"
    and r': "r' = r\<lparr>Base := (Base r)[unat i := noop_trb ty (Base r ! unat i),
             slots r := (if Suc (unat i) = slots r then unchain (Base r ! slots r)
                         else Base r ! slots r)]\<rparr>"
  shows "ring_inv r'" "used r' = used r"
    "pending r' = (pending r)[off r i := strip_cycle (noop_trb ty (Base r ! unat i))]"
proof -
  have g: "ring_geom r" using inv by (simp add: ring_inv_def)
  note b = geom_bounds [OF g] and nv = noop_trb_view [OF ty] and i = out [unfolded outstanding_off [OF g]]
  have same: "slots r' = slots r" "enq r' = enq r" "deq r' = deq r"
    by (simp_all add: r' ring_view_defs)
  show u: "used r' = used r" by (simp add: used_def same)
  have slot: "Base r' ! j = (if j = unat i then noop_trb ty (Base r ! unat i) else Base r ! j)"
    if "j < slots r" for j
    using that b(6) i by (auto simp: r')
  have link: "Base r' ! slots r = (if Suc (unat i) = slots r then unchain (Base r ! slots r)
      else Base r ! slots r)"
    using b(6) by (simp add: r')
  have "ring_geom r'" using g b(6) same by (simp add: ring_geom_def r' ring_view_defs)
  moreover have "ring_cycles r'"
    using inv slot link nv unfolding ring_inv_def ring_cycles_def cycles_at_def link_at_def same
    by (auto simp: unchain_view unchain_view(3) [unfolded One_nat_def] r')
  moreover have "ring_chain r'"
  proof -
    have "(enq r + slots r - 1) mod slots r < slots r" using b(1) by simp
    then show ?thesis
      using inv slot nv unfolding ring_inv_def ring_chain_def u same by auto
  qed
  ultimately show "ring_inv r'" by (simp add: ring_inv_def)
  show "pending r' = (pending r)[off r i := strip_cycle (noop_trb ty (Base r ! unat i))]"
  proof (rule nth_equalityI)
    fix y assume y: "y < length (pending r')"
    then have yu: "y < used r" "pos r y < slots r" using u pos_less [OF g] by auto
    have "pos r y = unat i \<longleftrightarrow> y = off r i"
      using off_of_pos [OF g _ sym] pos_off [OF g] i yu b(8) by (metis order_less_trans)
    then show "pending r' ! y = (pending r)[off r i := strip_cycle (noop_trb ty (Base r ! unat i))] ! y"
      using yu slot [OF yu(2)] i
      by (auto simp: pending_def outstanding_def u same pos_def [symmetric] nth_list_update)
  qed (simp add: u)
qed

end
