(* ===== verification/Xhci_Ring_Ops.thy ===== *)
theory Xhci_Ring_Ops
  imports Xhci_Ring_Td
begin

text \<open>
  The remaining operations of the producer ring: segment legality, initialisation and restart,
  addresses, the transfer-length sum, the resync decision and the control-transfer pad. Then the
  step relation over every state-changing operation and the invariant of the reachable rings.
\<close>

section \<open>Segments and addresses\<close>

lemma unat_and_low_mask:
  "(w :: ulong) AND 15 = 0 \<longleftrightarrow> unat w mod 16 = 0"
  "(w :: ulong) AND 63 = 0 \<longleftrightarrow> unat w mod 64 = 0"
  "unat ((w :: ulong) AND 0xFFFF) = unat w mod 65536"
proof -
  have k: "(15 :: ulong) = mask 4" "(63 :: ulong) = mask 6" "(0xFFFF :: ulong) = mask 16"
    by (simp_all add: mask_eq_exp_minus_1)
  show "w AND 15 = 0 \<longleftrightarrow> unat w mod 16 = 0" "w AND 63 = 0 \<longleftrightarrow> unat w mod 64 = 0"
    unfolding unat_eq_iff [symmetric, of _ 0] k unat_and_mask by simp_all
  show "unat (w AND 0xFFFF) = unat w mod 65536"
    unfolding k unat_and_mask by simp
qed

lemma segment_usable_iff:
  assumes "a = 16 \<or> a = (64 :: ulong)"
  shows "XhciSegmentUsable pa trbs a \<longleftrightarrow>
     0 < unat trbs \<and> unat trbs \<le> 4096 \<and> unat pa mod unat a = 0 \<and>
     unat pa + 16 * unat trbs \<le> 2 ^ 32 \<and>
     unat pa div 65536 = (unat pa + 16 * unat trbs - 1) div 65536"
proof (cases "trbs = 0 \<or> 4096 < trbs")
  case True
  then have "unat trbs = 0 \<or> 4096 < unat trbs" by (auto simp: word_less_nat_alt)
  with True show ?thesis by (auto simp: XhciSegmentUsable_def)
next
  case False
  then have t: "0 < unat trbs" "unat trbs \<le> 4096"
    using unat_eq_iff [of trbs 0] by (auto simp: word_less_nat_alt)
  have bytes: "unat (trbs * 16) = 16 * unat trbs"
    using t by (simp add: unat_mult_no_wrap)
  have last: "unat (trbs * 16 - 1) = 16 * unat trbs - 1"
    using t bytes by (simp add: unat_sub_no_wrap)
  have "unat (0xFFFFFFFF - (trbs * 16 - 1)) = unat (0xFFFFFFFF :: ulong) - unat (trbs * 16 - 1)"
    using last t by (intro unat_sub_no_wrap) simp
  also have "\<dots> = 2 ^ 32 - 16 * unat trbs" using last t by simp
  finally have top: "unat (0xFFFFFFFF - (trbs * 16 - 1)) = 2 ^ 32 - 16 * unat trbs" .
  have win: "unat (0x10000 - trbs * 16) = 65536 - 16 * unat trbs"
    using t bytes by (simp add: unat_sub_no_wrap)
  have al: "pa AND (a - 1) = 0 \<longleftrightarrow> unat pa mod unat a = 0"
    using assms unat_and_low_mask(1,2) [of pa] by auto
  have "unat pa mod 65536 \<le> 65536 - 16 * unat trbs \<longleftrightarrow>
      unat pa div 65536 = (unat pa + 16 * unat trbs - 1) div 65536"
  proof -
    define q m s where "q = unat pa div 65536" and "m = unat pa mod 65536" and "s = 16 * unat trbs"
    have pa: "unat pa = 65536 * q + m" and ms: "m < 65536" "0 < s" "s \<le> 65536"
      using t by (simp_all add: q_def m_def s_def)
    show ?thesis
      unfolding m_def [symmetric] q_def [symmetric] s_def [symmetric] pa
      using ms by (cases "m + s \<le> 65536") (auto simp: div_nat_eqI)
  qed
  moreover have "XhciSegmentUsable pa trbs a \<longleftrightarrow>
      pa AND (a - 1) = 0 \<and> unat pa \<le> 2 ^ 32 - 16 * unat trbs \<and>
      unat pa mod 65536 \<le> 65536 - 16 * unat trbs"
    using False unat_and_low_mask(3) [of pa]
    unfolding XhciSegmentUsable_def Let_def word_less_nat_alt top win by auto
  ultimately show ?thesis
    using t al by auto
qed

lemma geom_segment:
  assumes "ring_geom r"
  shows "unat (BasePA r) mod 16 = 0" "unat (BasePA r) + 16 * Suc (slots r) \<le> 2 ^ 32" "BasePA r \<noteq> 0"
proof -
  note b = geom_bounds [OF assms]
  let ?a = "if Kind r = 0 then 64 else (16 :: ulong)"
  have u: "XhciSegmentUsable (BasePA r) (Trbs r) ?a"
    using assms by (simp add: ring_geom_def)
  have a: "?a = 16 \<or> ?a = 64" by simp
  have "unat (BasePA r) mod unat ?a = 0" "unat (BasePA r) + 16 * Suc (slots r) \<le> 2 ^ 32"
    using u b(5) unfolding segment_usable_iff [OF a] by simp_all
  moreover have "x mod 64 = 0 \<Longrightarrow> x mod 16 = 0" for x :: nat by presburger
  ultimately show "unat (BasePA r) mod 16 = 0" "unat (BasePA r) + 16 * Suc (slots r) \<le> 2 ^ 32"
    by (auto split: if_splits)
  show "BasePA r \<noteq> 0" using assms by (simp add: ring_geom_def)
qed

lemma unat_trb_offset: "ring_geom r \<Longrightarrow> unat i \<le> slots r \<Longrightarrow> unat (i * 16 :: ulong) = 16 * unat i"
  using geom_bounds(2) [of r] unat_mult_no_wrap [of i 16] by simp

lemma unat_trb_pa:
  assumes g: "ring_geom r" and i: "unat i \<le> slots r"
  shows "unat (BasePA r + i * 16) = unat (BasePA r) + 16 * unat i"
  using geom_segment(2) [OF g] i unat_trb_offset [OF g i] by (simp add: unat_add_no_wrap)

lemma index_of_pa:
  assumes g: "ring_geom r" and i: "unat i \<le> slots r"
  shows "XhciRingIndexFromPA r (BasePA r + i * 16) = Inr i"
proof -
  note b = geom_bounds [OF g] and pa = unat_trb_pa [OF g i]
  have d: "unat (BasePA r + i * 16 - BasePA r) = 16 * unat i"
    using unat_trb_offset [OF g i] by simp
  then have "(BasePA r + i * 16 - BasePA r) AND 15 = 0"
    unfolding unat_and_low_mask(1) by simp
  moreover have "(BasePA r + i * 16 - BasePA r) div 16 = i"
    using d by (simp add: unat_eq_iff [symmetric] unat_div)
  ultimately show ?thesis
    using pa i b(5) by (simp add: XhciRingIndexFromPA_def Let_def word_less_nat_alt word_le_nat_alt)
qed

lemma pa_of_index:
  assumes g: "ring_geom r" and i: "XhciRingIndexFromPA r pa = Inr i"
  shows "unat i \<le> slots r" "BasePA r + i * 16 = pa"
proof -
  note b = geom_bounds [OF g]
  from i have le: "unat (BasePA r) \<le> unat pa" and al: "(pa - BasePA r) AND 15 = 0"
    and q: "i = (pa - BasePA r) div 16" and lt: "i < Trbs r"
    by (auto simp: XhciRingIndexFromPA_def Let_def word_less_nat_alt word_le_nat_alt not_less not_le
        split: if_splits)
  show il: "unat i \<le> slots r" using lt b(5) by (simp add: word_less_nat_alt)
  have d: "unat (pa - BasePA r) = unat pa - unat (BasePA r)"
    using le by (simp add: unat_sub_no_wrap)
  have "16 * unat i = unat (pa - BasePA r)"
    using al unfolding unat_and_low_mask(1) q by (auto simp: unat_div)
  then show "BasePA r + i * 16 = pa"
    using unat_trb_pa [OF g il] d le unat_eq_iff [of "BasePA r + i * 16" pa] by simp
qed

section \<open>Initialisation and restart\<close>

lemma zero_fill:
  "k \<le> length b \<Longrightarrow>
     foldl (\<lambda>b i. apply_stores b (store_trb i z)) b [0..<k] = replicate k z @ drop k b"
proof (induction k)
  case 0
  then show ?case by simp
next
  case (Suc k)
  then have "foldl (\<lambda>b i. apply_stores b (store_trb i z)) b [0..<Suc k] =
      (replicate k z @ drop k b)[k := z]"
    by simp
  also have "\<dots> = replicate k z @ z # drop (Suc k) b"
    using Suc.prems Cons_nth_drop_Suc [of k b, symmetric] by (simp add: list_update_append)
  finally show ?case by (simp add: replicate_append_same flip: replicate_Suc)
qed

lemma zero_trb_view: "\<not> cyc_of zero_trb" "\<not> is_link zero_trb"
  by (simp_all add: zero_trb_def cyc_of_def is_link_def XHCI_TRB_GET_TYPE_def)

lemma init_link_view:
  "\<not> cyc_of (XhciTrbLink zero_trb pa 1 0)" "is_link (XhciTrbLink zero_trb pa 1 0)"
  "bit (Control (XhciTrbLink zero_trb pa 1 0)) 1" "Param0 (XhciTrbLink zero_trb pa 1 0) = pa"
  by (simp_all add: XhciTrbLink_def Let_def cyc_of_def is_link_def XHCI_TRB_GET_TYPE_def
      XHCI_TRB_TYPE_def XhciTrbClear_def)

lemma init_ok:
  assumes ok: "XhciRingInit ring base pa trbs kind = (XHCI_RING_OK, Some r)"
    and len: "length base = unat trbs"
  shows "ring_inv r" "used r = 0" "BasePA r = pa" "Trbs r = trbs" "Kind r = kind"
proof -
  let ?z = "replicate (unat trbs) zero_trb" and ?l = "XhciTrbLink zero_trb pa 1 0"
  let ?a = "if kind = 0 then 64 else (16 :: ulong)"
  from ok have c: "pa \<noteq> 0" "3 \<le> unat trbs" "kind \<le> 2" and u: "XhciSegmentUsable pa trbs ?a"
    by (auto simp: XhciRingInit_def Let_def word_less_nat_alt word_le_nat_alt not_less split: if_splits)
  have a: "?a = 16 \<or> ?a = 64" by simp
  have t: "unat trbs \<le> 4096" using u unfolding segment_usable_iff [OF a] by simp
  have last: "unat (trbs - 1) = unat trbs - 1" using c(2) by (simp add: unat_sub_no_wrap)
  have r: "r = \<lparr>Base = ?z[unat trbs - 1 := ?l], BasePA = pa, Trbs = trbs, Enqueue = 0, Dequeue = 0,
                Cycle = 1, Kind = kind\<rparr>"
    using ok len c(2) zero_fill [of "unat trbs" base zero_trb] last
    by (simp add: XhciRingInit_def Let_def split: if_splits)
  then show "BasePA r = pa" "Trbs r = trbs" "Kind r = kind" by simp_all
  have v: "slots r = unat trbs - 1" "enq r = 0" "deq r = 0" by (simp_all add: r ring_view_defs)
  show used: "used r = 0" by (simp add: used_def v cyc_dist_def)
  have "ring_geom r"
    using c t u v by (simp add: ring_geom_def r)
  moreover have "ring_cycles r"
    using c(2) zero_trb_view init_link_view [of pa] init_link_view(3) [of pa, unfolded One_nat_def]
    unfolding ring_cycles_def cycles_at_def link_at_def v by (simp add: r)
  moreover have "ring_chain r" by (simp add: ring_chain_def used)
  ultimately show "ring_inv r" by (simp add: ring_inv_def)
qed

lemma restart_cases:
  assumes inv: "ring_inv r" and s: "XhciRingRestart (Some r) = (st, ring')"
  shows "if Dequeue r = Enqueue r
         then st = XHCI_RING_OK \<and> (\<exists>r'. ring' = Some r' \<and> ring_inv r' \<and> used r' = 0)
         else st = XHCI_RING_NOT_COMPLETE \<and> ring' = Some r"
proof -
  have g: "ring_geom r" using inv by (simp add: ring_inv_def)
  note b = geom_bounds [OF g]
  show ?thesis
  proof (cases "Dequeue r = Enqueue r")
    case True
    have "XHCI_RING_MIN_TRBS \<le> Trbs r"
      using b(1,5) by (simp add: word_le_nat_alt)
    then obtain r' where r': "XhciRingInit (Some r) (Base r) (BasePA r) (Trbs r) (Kind r) =
        (XHCI_RING_OK, Some r')"
      using g b(7) by (simp add: XhciRingInit_def Let_def ring_geom_def not_less)
    from init_ok [OF this] b(5,6) s r' True b(7) show ?thesis
      by (auto simp: XhciRingRestart_def)
  next
    case False
    then show ?thesis using s b(7) by (simp add: XhciRingRestart_def)
  qed
qed

section \<open>Transfer lengths\<close>

definition trb_len :: "xhci_ring \<Rightarrow> nat \<Rightarrow> nat" where
  "trb_len r y = unat (XHCI_TRB_GET_LENGTH (Status (Base r ! pos r y)))"

lemma trb_len_bound: "trb_len r y < 2 ^ 17"
proof -
  have m: "(0x1FFFF :: ulong) = mask 17" by (simp add: mask_eq_exp_minus_1)
  show ?thesis
    unfolding trb_len_def XHCI_TRB_GET_LENGTH_def m unat_and_mask by simp
qed

lemma sum_loop:
  assumes g: "ring_geom r" and i: "unat i = pos r y" and t: "unat t = pos r z"
    and yz: "y \<le> z" "z < slots r" "z - y < k"
    and acc: "unat acc + (slots r - y) * 2 ^ 17 \<le> slots r * 2 ^ 17"
  shows "\<exists>res. sumTrbLengths_loop k r i t acc = Inr res \<and>
           unat res = unat acc + (\<Sum>x = y..z. trb_len r x)"
  using i yz acc
proof (induction k arbitrary: i y acc)
  case 0
  then show ?case by simp
next
  case (Suc k)
  let ?a = "acc + XHCI_TRB_GET_LENGTH (Status (Base r ! unat i))"
  note b = geom_bounds [OF g]
  have len: "unat (XHCI_TRB_GET_LENGTH (Status (Base r ! unat i))) = trb_len r y"
    using Suc.prems(1) by (simp add: trb_len_def)
  have bound: "unat acc + trb_len r y + (slots r - Suc y) * 2 ^ 17 \<le> slots r * 2 ^ 17"
  proof -
    have "slots r - y = Suc (slots r - Suc y)" using Suc.prems(2,3) by simp
    then show ?thesis using Suc.prems(5) trb_len_bound [of r y] by simp
  qed
  have a: "unat ?a = unat acc + trb_len r y"
    using bound b(2) len by (subst unat_add_no_wrap) auto
  have eq: "i = t \<longleftrightarrow> y = z"
    using off_of_pos [OF g _ Suc.prems(1)] off_of_pos [OF g _ t] Suc.prems(1,2,3) t
    by (metis order_le_less_trans unat_eq_iff)
  show ?case
  proof (cases "y = z")
    case True
    then show ?thesis using eq a by (simp add: Let_def)
  next
    case False
    with Suc.prems have "Suc y \<le> z" "z - Suc y < k" by auto
    then obtain res where "sumTrbLengths_loop k r (xhciRingNext r i) t ?a = Inr res"
        "unat res = unat ?a + (\<Sum>x = Suc y..z. trb_len r x)"
      using Suc.IH [OF next_pos [OF g Suc.prems(1)], of ?a] Suc.prems(3,4) bound a by auto
    moreover have "(\<Sum>x = y..z. trb_len r x) = trb_len r y + (\<Sum>x = Suc y..z. trb_len r x)"
      using Suc.prems(2) by (simp add: sum.atLeast_Suc_atMost)
    ultimately show ?thesis using eq False a by (simp add: Let_def)
  qed
qed

lemma sum_lengths:
  assumes g: "ring_geom r" and f: "xhciRingIsOutstanding r f" and t: "xhciRingIsOutstanding r t"
  shows "if off r f \<le> off r t
         then \<exists>res. XhciRingSumTrbLengths (Some r) f t = Inr res \<and>
                unat res = (\<Sum>x = off r f..off r t. trb_len r x)
         else XhciRingSumTrbLengths (Some r) f t = Inl XHCI_RING_NOT_ON_RING"
proof -
  note b = geom_bounds [OF g]
  have o: "unat f < slots r" "off r f < used r" "unat t < slots r" "off r t < used r"
    using f t outstanding_off [OF g] by auto
  have behind: "xhciRingDistance r t < xhciRingDistance r f \<longleftrightarrow> off r t < off r f"
    using unat_distance [OF g] o by (simp add: word_less_nat_alt off_def)
  have p: "unat f = pos r (off r f)" "unat t = pos r (off r t)"
    using pos_off [OF g] o by simp_all
  have res: "XhciRingSumTrbLengths (Some r) f t =
      (if off r t < off r f then Inl XHCI_RING_NOT_ON_RING
       else sumTrbLengths_loop (Suc (used r)) r f t 0)"
    using f t b(7) behind g by (simp add: XhciRingSumTrbLengths_def del: sumTrbLengths_loop.simps)
  show ?thesis
    using sum_loop [OF g p, of "Suc (used r)" 0] o b(8)
    unfolding res by (auto simp del: sumTrbLengths_loop.simps)
qed

section \<open>Resync\<close>

lemma resync:
  assumes inv: "ring_inv r"
  shows "\<exists>owed pa dcs d. XhciRingResyncOwed (Some r) ctx = Some (owed, pa, dcs) \<and>
     XhciRingIndexFromPA r pa = Inr d \<and> hw_position r (unat d) (dcs \<noteq> 0) \<and> dcs \<le> 1 \<and>
     (owed \<longleftrightarrow> dcs = 0 \<or> pa \<noteq> ctx AND XHCI_EP_DEQUEUE_MASK)"
proof -
  have g: "ring_geom r" using inv by (simp add: ring_inv_def)
  note b = geom_bounds [OF g] and cyc = cycle_of_bool [OF g]
  let ?saved = "ctx AND XHCI_EP_DEQUEUE_MASK"
  define i where "i = resync_index r ?saved"
  define res where "res = resync_point r i"
  have call: "XhciRingResyncOwed (Some r) ctx =
      Some (snd res = 0 \<or> fst res \<noteq> ?saved, fst res, snd res)"
    using b(1,5,7)
    by (simp add: XhciRingResyncOwed_def Let_def word_less_nat_alt i_def res_def split: prod.splits)
  have at: "XhciRingIndexFromPA r (BasePA r + d * 16) = Inr d" if "unat d < slots r" for d
    using index_of_pa [OF g] that by simp
  have "\<exists>d. XhciRingIndexFromPA r (fst res) = Inr d \<and> hw_position r (unat d) (snd res \<noteq> 0) \<and> snd res \<le> 1"
  proof -
    consider (enq) "i = Enqueue r" | (out) "i \<noteq> Enqueue r" "i < Trbs r" "xhciRingIsOutstanding r i"
      | (off) "res = (XhciRingDequeuePA r, XhciRingDequeueCycle r)"
      by (cases "i = Enqueue r"; cases "i < Trbs r \<and> xhciRingIsOutstanding r i")
        (auto simp: res_def resync_point_def)
    then show ?thesis
    proof cases
      case enq
      then have res: "res = (BasePA r + i * 16, Cycle r AND 1)" and i: "unat i = enq r"
        by (simp_all add: res_def resync_point_def enq_def)
      obtain c where "Cycle r = of_bool c" using cyc by blast
      then have "(snd res \<noteq> 0) = (Cycle r \<noteq> 0)" "snd res \<le> 1"
        by (cases c; simp add: res)+
      moreover have "hw_position r (unat i) (Cycle r \<noteq> 0)"
        using b(3) by (simp add: hw_position_def i used_def)
      ultimately show ?thesis
        using at [of i] b(3) i by (auto simp: res)
    next
      case out
      then have o: "unat i < slots r" "cyc_dist (slots r) (deq r) (unat i) < used r"
        using outstanding_iff [OF g] by auto
      then have "cyc_of (Base r ! unat i) = (if unat i < enq r then Cycle r \<noteq> 0 else Cycle r = 0)"
        using inv by (simp add: ring_inv_def ring_cycles_def cycles_at_def)
      moreover have "unat i \<noteq> enq r" using out(1) unat_eq_iff by (auto simp: enq_def)
      ultimately show ?thesis
        using out o at [of i]
        by (auto simp: res_def resync_point_def hw_position_def and_1_of_bool cyc_of_def split: if_splits)
    next
      case off
      have "XhciRingDequeueCycle r \<le> 1"
        using cyc by (auto simp: XhciRingDequeueCycle_def of_bool_def split: if_splits)
      then show ?thesis
        using off at [of "Dequeue r"] b(4) dequeue_cycle [OF g]
        by (auto simp: XhciRingDequeuePA_def hw_position_def deq_def)
    qed
  qed
  then show ?thesis using call by (cases res) auto
qed

section \<open>The control-transfer pad\<close>

lemma enqueue_one_effect:
  assumes inv: "ring_inv r" and nolink: "\<not> is_link t" and unch: "\<not> ch_of t" and room: "Suc (used r) < slots r"
  shows "\<exists>r' pa. XhciRingEnqueueTd (Some r) (Some [t]) 1 = (XHCI_RING_OK, Some r', Some pa) \<and>
           enqueued r [t] r' \<and> ring_inv r' \<and> pa = BasePA r + Enqueue r * 16"
proof -
  have g: "ring_geom r" using inv by (simp add: ring_inv_def)
  have "XhciRingHasRoom r 1" using room has_room_iff [OF g, of 1] by simp
  moreover have "checkTdChains [t] 1 [1] 0 = Some 1"
    using unch by (simp add: td_chain_ok_def ch_of_def)
  ultimately obtain r' p log where
    ok: "XhciRingEnqueueTdGroup (Some r) (Some [t]) 1 (Some [1]) 1 = (XHCI_RING_OK, Some r', p, log)"
    using geom_bounds(7) [OF g] by (simp add: XhciRingEnqueueTdGroup_def Let_def)
  have "ring_inv r'" "enqueued r [t] r'"
    using enqueue_group_inv [OF inv _ _ ok] nolink by simp_all
  moreover have "p = Some \<lparr>FirstIndex = Enqueue r, FirstTrbPA = BasePA r + Enqueue r * 16,
      LastIndex = eLast (enqueue_loop (Trbs r) True (take (unat (1::ulong)) [t]) (loop_start r)), TrbCount = 1\<rparr>"
    using enqueue_group_ok(6) [OF ok] .
  ultimately show ?thesis using ok by (simp add: XhciRingEnqueueTd_def)
qed

lemma noop_template:
  "\<not> is_link (zero_trb\<lparr>Control := XHCI_TRB_TYPE XHCI_TRB_TYPE_NOOP\<rparr>)"
  "\<not> ch_of (zero_trb\<lparr>Control := XHCI_TRB_TYPE XHCI_TRB_TYPE_NOOP\<rparr>)"
  by (simp_all add: is_link_def ch_of_def XHCI_TRB_TYPE_def XHCI_TRB_GET_TYPE_def)

lemma control_link_pad:
  assumes inv: "ring_inv r" and k: "0 < unat k"
  shows "if Suc (enq r) \<noteq> slots r then XhciRingControlLinkPad (Some r) k = (XHCI_RING_OK, Some r, False)
         else if slots r \<le> used r + Suc (unat k)
         then XhciRingControlLinkPad (Some r) k = (XHCI_RING_FULL, Some r, False)
         else \<exists>r'. XhciRingControlLinkPad (Some r) k = (XHCI_RING_OK, Some r', True) \<and> ring_inv r' \<and>
                enqueued r [zero_trb\<lparr>Control := XHCI_TRB_TYPE XHCI_TRB_TYPE_NOOP\<rparr>] r' \<and> enq r' = 0"
proof -
  have g: "ring_geom r" using inv by (simp add: ring_inv_def)
  note b = geom_bounds [OF g]
  have two: "unat (Enqueue r + 2) = enq r + 2"
    using b(2,3) by (subst unat_add_no_wrap) (auto simp: enq_def)
  have near: "Enqueue r + 2 = Trbs r \<longleftrightarrow> Suc (enq r) = slots r"
    unfolding unat_eq_iff [symmetric] two b(5) by auto
  have args: "Base r \<noteq> []" "k \<noteq> 0" "\<not> Trbs r < 3"
    using b(1,5,7) k by (auto simp: word_less_nat_alt)
  have room: "k > 0xFFFFFFFF - 1 \<or> \<not> XhciRingHasRoom r (k + 1) \<longleftrightarrow> slots r \<le> used r + Suc (unat k)"
  proof (cases "k > 0xFFFFFFFE")
    case True
    then have "0xFFFFFFFE < unat k" by (simp add: word_less_nat_alt)
    with True b(2) show ?thesis by simp
  next
    case False
    then have "unat (k + 1) = Suc (unat k)"
      by (subst unat_add_no_wrap) (auto simp: word_less_nat_alt)
    with False show ?thesis using has_room_iff [OF g, of "k + 1"] by auto
  qed
  let ?noop = "zero_trb\<lparr>Control := XHCI_TRB_TYPE XHCI_TRB_TYPE_NOOP\<rparr>"
  have call: "XhciRingControlLinkPad (Some r) k =
      (if Suc (enq r) \<noteq> slots r then (XHCI_RING_OK, Some r, False)
       else if slots r \<le> used r + Suc (unat k) then (XHCI_RING_FULL, Some r, False)
       else case XhciRingEnqueueTd (Some r) (Some [?noop]) 1 of
              (status, ring', _) \<Rightarrow> (status, ring', status = XHCI_RING_OK))"
    unfolding XhciRingControlLinkPad_def option.case near room using args by simp
  show ?thesis
  proof (cases "Suc (enq r) = slots r \<and> used r + Suc (unat k) < slots r")
    case False
    then show ?thesis unfolding call by (auto simp: not_less)
  next
    case True
    then obtain r' pa where "XhciRingEnqueueTd (Some r) (Some [?noop]) 1 = (XHCI_RING_OK, Some r', Some pa)"
        "enqueued r [?noop] r'" "ring_inv r'"
      using enqueue_one_effect [OF inv noop_template] by auto
    moreover from this have "enq r' = 0" using True by (simp add: enqueued_def Let_def)
    ultimately show ?thesis unfolding call using True by simp
  qed
qed

section \<open>Reachable rings\<close>

text \<open>
  One rule per operation that may change a ring. A call that fails is a step too: it leaves the
  ring as it was. The templates of an enqueue are transfer or command TRBs, never Link TRBs, and
  the arrays hold the number of elements the call claims.
\<close>

inductive ring_step :: "xhci_ring \<Rightarrow> xhci_ring \<Rightarrow> bool" where
  enqueue: "XhciRingEnqueueTdGroup (Some r) (Some ts) count (Some lens) tdCount = (st, Some r', p, log) \<Longrightarrow>
     unat count \<le> length ts \<Longrightarrow> \<forall>t \<in> set ts. \<not> is_link t \<Longrightarrow> ring_step r r'"
| pad: "XhciRingControlLinkPad (Some r) k = (st, Some r', padded) \<Longrightarrow> ring_step r r'"
| retire: "XhciRingRetireTd (Some r) (Some c) = (st, Some r') \<Longrightarrow> ring_step r r'"
| retire_advanced: "XhciRingRetireAdvancedTd (Some r) (Some c) code = (st, Some r') \<Longrightarrow> ring_step r r'"
| retire_iso: "XhciRingRetireIsoGroup (Some r) tailIndex = (st, Some r') \<Longrightarrow> ring_step r r'"
| set_dequeue: "XhciRingSetDequeue (Some r) pa = (st, Some r') \<Longrightarrow> ring_step r r'"
| noop: "XhciRingNoOpAtType (Some r) i ty = (st, Some r') \<Longrightarrow> ring_step r r'"
| restart: "XhciRingRestart (Some r) = (st, Some r') \<Longrightarrow> ring_step r r'"

inductive ring_reachable :: "xhci_ring \<Rightarrow> bool" where
  init: "XhciRingInit ring base pa trbs kind = (XHCI_RING_OK, Some r) \<Longrightarrow>
     length base = unat trbs \<Longrightarrow> ring_reachable r"
| step: "ring_reachable r \<Longrightarrow> ring_step r r' \<Longrightarrow> ring_reachable r'"

lemma enqueue_refused:
  assumes "XhciRingEnqueueTdGroup (Some r) ts count lens tdCount = (st, ring', p, log)"
    and "st \<noteq> XHCI_RING_OK"
  shows "ring' = Some r \<and> p = None \<and> log = []"
  using assms unfolding XhciRingEnqueueTdGroup_def
  by (auto simp: Let_def split: if_splits option.splits)

lemma step_inv:
  assumes "ring_step r r'" and inv: "ring_inv r"
  shows "ring_inv r'"
  using assms(1)
proof cases
  case (enqueue ts count lens tdCount st p log)
  then show ?thesis
    using inv enqueue_refused [OF enqueue(1)] enqueue_group_inv(1) [OF inv enqueue(2,3)]
    by (cases "st = XHCI_RING_OK") auto
next
  case (pad k st padded)
  then show ?thesis
  proof (cases "unat k = 0")
    case True
    then have "k = 0" using unat_eq_iff [of k 0] by simp
    then show ?thesis using pad inv by (simp add: XhciRingControlLinkPad_def)
  next
    case False
    then show ?thesis using control_link_pad [OF inv, of k] pad inv by (auto split: if_splits)
  qed
next
  case (retire c st)
  then show ?thesis using retire_td_cases [OF retire] retire_outstanding(1) [OF inv inv] inv by auto
next
  case (retire_advanced c code st)
  then show ?thesis
    using retire_outstanding(1) [OF inv inv] inv
    by (auto simp: XhciRingRetireAdvancedTd_def split: if_splits)
next
  case (retire_iso tailIndex st)
  then show ?thesis
    using retire_outstanding(1) [OF inv inv] inv
    by (auto simp: XhciRingRetireIsoGroup_def split: if_splits)
next
  case (set_dequeue pa st)
  then show ?thesis using set_dequeue_cases [OF inv set_dequeue] move_dequeue(1) [OF inv] inv by auto
next
  case (noop i ty st)
  have g: "ring_geom r" using inv by (simp add: ring_inv_def)
  show ?thesis using noop_cases [OF g noop] noop_inv(1) [OF inv] inv by auto
next
  case (restart st)
  then show ?thesis using restart_cases [OF inv restart] inv by (auto split: if_splits)
qed

lemma reachable_inv: "ring_reachable r \<Longrightarrow> ring_inv r"
  by (induction rule: ring_reachable.induct) (auto intro: init_ok(1) step_inv)

end
