(* ===== verification/Xhci_Fifo.thy ===== *)
theory Xhci_Fifo
  imports Main
begin

text \<open>
  The contract of a bounded first-in first-out queue as the clients of a ring use it: groups go
  in whole or not at all, and the oldest elements leave up to and including a chosen one. The
  locale fixes the operations and their laws; its lemmas follow whole runs of operations.
\<close>

datatype 'a fifo_op = Put "'a list" | Take nat

locale bounded_fifo =
  fixes inv :: "'s \<Rightarrow> bool"
    and items :: "'s \<Rightarrow> 'b list"
    and cap :: "'s \<Rightarrow> nat"
    and norm :: "'a \<Rightarrow> 'b"
    and ok :: "'a list \<Rightarrow> bool"
    and put :: "'s \<Rightarrow> 'a list \<Rightarrow> 's option"
    and take_to :: "'s \<Rightarrow> nat \<Rightarrow> 's option"
  assumes put_fits:
      "inv s \<Longrightarrow> ok xs \<Longrightarrow> length (items s) + length xs \<le> cap s \<Longrightarrow>
         \<exists>s'. put s xs = Some s' \<and> inv s' \<and> items s' = items s @ map norm xs \<and> cap s' = cap s"
    and put_full: "inv s \<Longrightarrow> ok xs \<Longrightarrow> cap s < length (items s) + length xs \<Longrightarrow> put s xs = None"
    and take_some:
      "inv s \<Longrightarrow> n < length (items s) \<Longrightarrow>
         \<exists>s'. take_to s n = Some s' \<and> inv s' \<and> items s' = drop (Suc n) (items s) \<and> cap s' = cap s"
    and take_none: "inv s \<Longrightarrow> length (items s) \<le> n \<Longrightarrow> take_to s n = None"
    and bounded: "inv s \<Longrightarrow> length (items s) \<le> cap s"
begin

text \<open>A run: a refused operation leaves the state alone; the second component collects what left.\<close>

fun run :: "'s \<Rightarrow> 'a fifo_op list \<Rightarrow> 's \<times> 'b list \<times> 'b list" where
  "run s [] = (s, [], [])"
| "run s (Put xs # ops) =
     (case put s xs of
        None \<Rightarrow> run s ops
      | Some s' \<Rightarrow> (case run s' ops of (t, ins, outs) \<Rightarrow> (t, map norm xs @ ins, outs)))"
| "run s (Take n # ops) =
     (case take_to s n of
        None \<Rightarrow> run s ops
      | Some s' \<Rightarrow>
          (case run s' ops of (t, ins, outs) \<Rightarrow> (t, ins, take (Suc n) (items s) @ outs)))"

definition well_formed :: "'a fifo_op list \<Rightarrow> bool" where
  "well_formed ops \<longleftrightarrow> (\<forall>xs. Put xs \<in> set ops \<longrightarrow> ok xs)"

lemma put_cases:
  assumes "inv s" and "ok xs"
  shows "put s xs = None \<or>
     (\<exists>s'. put s xs = Some s' \<and> inv s' \<and> items s' = items s @ map norm xs \<and> cap s' = cap s)"
  using put_fits [OF assms] put_full [OF assms] by (meson not_le)

lemma take_cases:
  assumes "inv s"
  shows "take_to s n = None \<or>
     (\<exists>s'. take_to s n = Some s' \<and> inv s' \<and> items s' = drop (Suc n) (items s) \<and> cap s' = cap s)"
  using take_some [OF assms] take_none [OF assms] by (meson not_le)

theorem run_exact:
  assumes "inv s" and "well_formed ops" and "run s ops = (t, ins, outs)"
  shows "inv t \<and> items s @ ins = outs @ items t \<and> cap t = cap s"
  using assms
proof (induction ops arbitrary: s t ins outs)
  case Nil
  then show ?case by simp
next
  case (Cons op ops)
  have wf: "well_formed ops" using Cons.prems(2) by (simp add: well_formed_def)
  show ?case
  proof (cases op)
    case (Put xs)
    then have "ok xs" using Cons.prems(2) by (simp add: well_formed_def)
    from put_cases [OF Cons.prems(1) this] show ?thesis
    proof
      assume "put s xs = None"
      then show ?thesis using Cons.IH [OF Cons.prems(1) wf] Cons.prems(3) Put by simp
    next
      assume "\<exists>s'. put s xs = Some s' \<and> inv s' \<and> items s' = items s @ map norm xs \<and> cap s' = cap s"
      then obtain s' where s': "put s xs = Some s'" "inv s'" "items s' = items s @ map norm xs"
          "cap s' = cap s" by blast
      obtain ins' where r: "run s' ops = (t, ins', outs)" "ins = map norm xs @ ins'"
        using Cons.prems(3) Put s'(1) by (auto split: prod.splits)
      show ?thesis using Cons.IH [OF s'(2) wf r(1)] s' r(2) by simp
    qed
  next
    case (Take n)
    from take_cases [OF Cons.prems(1), of n] show ?thesis
    proof
      assume "take_to s n = None"
      then show ?thesis using Cons.IH [OF Cons.prems(1) wf] Cons.prems(3) Take by simp
    next
      assume "\<exists>s'. take_to s n = Some s' \<and> inv s' \<and> items s' = drop (Suc n) (items s) \<and> cap s' = cap s"
      then obtain s' where s': "take_to s n = Some s'" "inv s'" "items s' = drop (Suc n) (items s)"
          "cap s' = cap s" by blast
      obtain outs' where r: "run s' ops = (t, ins, outs')" "outs = take (Suc n) (items s) @ outs'"
        using Cons.prems(3) Take s'(1) by (auto split: prod.splits)
      have "items s = take (Suc n) (items s) @ items s'" using s'(3) by simp
      then show ?thesis using Cons.IH [OF s'(2) wf r(1)] r(2) s'(4) by (metis append.assoc)
    qed
  qed
qed

lemma put_after_drain:
  assumes "inv s" and "ok xs" and "length xs \<le> cap s"
  shows "\<exists>s' t. (items s = [] \<or> take_to s (length (items s) - 1) = Some s') \<and>
           put (if items s = [] then s else s') xs = Some t \<and> items t = map norm xs"
proof (cases "items s = []")
  case True
  then show ?thesis using put_fits [OF assms(1,2)] assms(3) by auto
next
  case False
  then obtain s' where s': "take_to s (length (items s) - 1) = Some s'" "inv s'" "items s' = []"
      "cap s' = cap s"
    using take_some [OF assms(1), of "length (items s) - 1"] by auto
  then show ?thesis using put_fits [OF s'(2) assms(2)] assms(3) False by auto
qed

end

end
