(* ===== verification/Xhci_Ring_Props.thy ===== *)
theory Xhci_Ring_Props
  imports Xhci_Ring_Ops Xhci_Fifo
begin

text \<open>
  The properties of the producer ring, over the reachable rings, and its use as the bounded queue
  of \<open>Xhci_Fifo\<close>. The witnesses run the operations on a four-slot endpoint ring.
\<close>

section \<open>Sample data\<close>

definition blank_ring :: xhci_ring where
  "blank_ring = \<lparr>Base = [], BasePA = 0, Trbs = 0, Enqueue = 0, Dequeue = 0, Cycle = 0, Kind = 0\<rparr>"

definition sample_ring :: xhci_ring where
  "sample_ring = \<lparr>Base = [zero_trb, zero_trb, zero_trb, zero_trb,
      \<lparr>Param0 = 0x1000, Param1 = 0, Status = 0, Control = 0x1802\<rparr>],
    BasePA = 0x1000, Trbs = 5, Enqueue = 0, Dequeue = 0, Cycle = 1, Kind = 1\<rparr>"

definition sample_td :: "xhci_trb list" where
  "sample_td = [\<lparr>Param0 = 0x8000, Param1 = 0, Status = 512, Control = 0x410\<rparr>,
                \<lparr>Param0 = 0x9000, Param1 = 0, Status = 100, Control = 0x420\<rparr>]"

definition busy_ring :: xhci_ring where
  "busy_ring = \<lparr>Base = [\<lparr>Param0 = 0x8000, Param1 = 0, Status = 512, Control = 0x411\<rparr>,
      \<lparr>Param0 = 0x9000, Param1 = 0, Status = 100, Control = 0x421\<rparr>, zero_trb, zero_trb,
      \<lparr>Param0 = 0x1000, Param1 = 0, Status = 0, Control = 0x1802\<rparr>],
    BasePA = 0x1000, Trbs = 5, Enqueue = 2, Dequeue = 0, Cycle = 1, Kind = 1\<rparr>"

definition sample_log :: "trb_store list" where
  "sample_log =
     [(0, DW0, 0x8000), (0, DW1, 0), (0, DW2, 512), (0, DW3, 0x410),
      (1, DW0, 0x9000), (1, DW1, 0), (1, DW2, 100), (1, DW3, 0x421), (0, DW3, 0x411)]"

lemma sample_init:
  "XhciRingInit (Some blank_ring) (replicate 5 zero_trb) 0x1000 5 1 = (XHCI_RING_OK, Some sample_ring)"
  by code_simp

lemma sample_reachable: "ring_reachable sample_ring"
  by (rule ring_reachable.init [OF sample_init]) simp

lemma sample_td_no_link: "\<forall>t \<in> set sample_td. \<not> is_link t"
  by code_simp

lemma sample_enqueue:
  "XhciRingEnqueueTdGroup (Some sample_ring) (Some sample_td) 2 (Some [2]) 1 =
     (XHCI_RING_OK, Some busy_ring,
      Some \<lparr>FirstIndex = 0, FirstTrbPA = 0x1000, LastIndex = 1, TrbCount = 2\<rparr>, sample_log)"
  by code_simp

lemma sample_td_length: "unat (2 :: ulong) \<le> length sample_td"
  by (simp add: sample_td_def)

lemma busy_reachable: "ring_reachable busy_ring"
  by (rule ring_reachable.step [OF sample_reachable])
    (rule ring_step.enqueue [OF sample_enqueue sample_td_length sample_td_no_link])

section \<open>Publication\<close>

lemma enqueued_position:
  assumes g: "ring_geom r" and e: "enqueued r ts r'" and k: "used r + length ts < slots r"
    and p: "hw_position r d ccs"
  shows "hw_position r' d ccs"
    "cyc_dist (slots r) d (enq r') = cyc_dist (slots r) d (enq r) + length ts"
proof -
  let ?n = "slots r"
  note b = geom_bounds [OF g] and u = enqueued_used [OF g e k]
  have e': "enq r' = (enq r + length ts) mod ?n"
    and c': "(Cycle r' \<noteq> 0) = lap_cycle ?n (enq r) (Cycle r \<noteq> 0) (length ts)"
    using e by (auto simp: enqueued_def Let_def)
  from p have d: "d < ?n" "cyc_dist ?n (deq r) d \<le> cyc_dist ?n (deq r) (enq r)"
    and ccs: "ccs = (if enq r < d then Cycle r = 0 else Cycle r \<noteq> 0)"
    by (simp_all add: hw_position_def used_def)
  have k': "cyc_dist ?n (deq r) (enq r) + length ts < ?n" using k by (simp add: used_def)
  have "ccs = (if enq r' < d then Cycle r' = 0 else Cycle r' \<noteq> 0)"
    using d k' b(3,4) unfolding ccs e' c' [symmetric] using c'
    by (cases "enq r + length ts < ?n"; cases "deq r \<le> enq r"; cases "deq r \<le> d")
      (auto simp: cyc_dist_alt lap_cycle_def mod_if split: if_splits)
  then show "hw_position r' d ccs"
    using d u by (simp add: hw_position_def used_def)
  have "cyc_dist ?n d (enq r) \<le> cyc_dist ?n (deq r) (enq r)"
    using d b(3,4) by (auto simp: cyc_dist_alt split: if_splits)
  then show "cyc_dist ?n d (enq r') = cyc_dist ?n d (enq r) + length ts"
    unfolding e' using used_add [OF d(1) b(3)] k' by simp
qed

text \<open>
  C1: a group of TDs is published atomically. Whatever position the controller has reached among
  the outstanding TRBs, and however many of the stores of \<open>XhciRingEnqueueTdGroup\<close> short of the
  last it has observed, it can reach exactly what it could reach before the call; after the last
  store it reaches the whole group behind what was there. The stores account for the whole memory
  the call leaves.
\<close>

theorem group_publication_atomic:
  assumes "ring_reachable r" and "unat count \<le> length ts" and "\<forall>t \<in> set ts. \<not> is_link t"
    and "XhciRingEnqueueTdGroup (Some r) (Some ts) count (Some lens) tdCount =
           (XHCI_RING_OK, Some r', p, log)"
    and "hw_position r d ccs"
  shows "Base r' = apply_stores (Base r) log \<and>
    (\<forall>j < length log.
       hw_walk (length (Base r) + 2) (BasePA r) (apply_stores (Base r) (take j log)) d ccs =
       hw_walk (length (Base r) + 2) (BasePA r) (Base r) d ccs) \<and>
    hw_walk (length (Base r) + 2) (BasePA r) (Base r') d ccs =
      hw_walk (length (Base r) + 2) (BasePA r) (Base r) d ccs @
      cyc_seg (slots r) (enq r) (unat count)"
proof -
  have inv: "ring_inv r" by (rule reachable_inv [OF assms(1)])
  have g: "ring_geom r" using inv by (simp add: ring_inv_def)
  note b = geom_bounds [OF g] and q = enqueue_group_inv [OF inv assms(2,3,4)]
  let ?k = "length (Base r) + 2"
  have fuel: "slots r + 2 \<le> ?k" using b(6) by simp
  have room: "used r + length (take (unat count) ts) < slots r" using q(3) assms(2) by simp
  note pos' = enqueued_position [OF g q(2) room assms(5)]
  have base: "Base r' = apply_stores (Base r) log"
    using enqueue_group_log [OF g assms(2,4)] by blast
  have same: "slots r' = slots r" "BasePA r' = BasePA r"
    using enqueued_used [OF g q(2) room] q(2) by (auto simp: enqueued_def Let_def)
  have after: "hw_walk ?k (BasePA r) (Base r') d ccs = cyc_seg (slots r) d (cyc_dist (slots r) d (enq r'))"
    using inv_walk [OF q(1) pos'(1), of ?k] fuel unfolding same .
  have "(d + cyc_dist (slots r) d (enq r)) mod slots r = enq r"
    using cyc_pos_dist [of d "slots r"] assms(5) b(3) by (simp add: hw_position_def)
  then have "hw_walk ?k (BasePA r) (Base r') d ccs =
      hw_walk ?k (BasePA r) (Base r) d ccs @ cyc_seg (slots r) (enq r) (unat count)"
    unfolding after inv_walk [OF inv assms(5) fuel] pos'(2) cyc_seg_add using assms(2) by simp
  with base show ?thesis
    using enqueue_prefix_invisible [OF inv assms(2,4,5) _ fuel] by blast
qed

theorem group_publication_atomic_witness:
  "ring_reachable sample_ring \<and> hw_position sample_ring 0 True \<and>
   hw_walk 7 0x1000 (apply_stores (Base sample_ring) (take 8 sample_log)) 0 True = [] \<and>
   hw_walk 7 0x1000 (Base busy_ring) 0 True = [0, 1]"
proof -
  have pos: "hw_position sample_ring 0 True" by code_simp
  have seg: "cyc_seg (slots sample_ring) (enq sample_ring) (unat (2 :: ulong)) = [0, 1]" by code_simp
  have before: "hw_walk 7 0x1000 (Base sample_ring) 0 True = []"
    by code_simp
  have len: "length (Base sample_ring) + 2 = 7" "BasePA sample_ring = 0x1000" "8 < length sample_log"
    by (simp_all add: sample_ring_def sample_log_def)
  note t = group_publication_atomic [OF sample_reachable sample_td_length sample_td_no_link
        sample_enqueue pos, unfolded seg len(1,2) before append_Nil]
  show ?thesis
    using sample_reachable pos t [THEN conjunct2, THEN conjunct1, rule_format, OF len(3)]
      t [THEN conjunct2, THEN conjunct2] by blast
qed

text \<open>
  C2: on every ring that initialisation and any sequence of ring operations can produce, the
  controller, starting where a Set TR Dequeue Pointer command would place it (\<open>XhciRingDequeuePA\<close>
  and \<open>XhciRingDequeueCycle\<close>), reaches exactly the TRBs software counts as outstanding, and the free
  count, the outstanding count and the capacity agree. With any larger step bound the walk is the
  same.
\<close>

theorem controller_sees_outstanding:
  assumes "ring_reachable r"
  shows "hw_view r = outstanding r \<and>
    (\<forall>k \<ge> length (Base r) + 2.
       hw_walk k (BasePA r) (Base r) (deq r) (XhciRingDequeueCycle r \<noteq> 0) = outstanding r) \<and>
    distinct (outstanding r) \<and> slots r \<notin> set (outstanding r) \<and>
    unat (XhciRingFree r) + length (outstanding r) = unat (XhciRingCapacity r)"
proof -
  have inv: "ring_inv r" by (rule reachable_inv [OF assms])
  have g: "ring_geom r" using inv by (simp add: ring_inv_def)
  note b = geom_bounds [OF g]
  have pos: "hw_position r (deq r) (XhciRingDequeueCycle r \<noteq> 0)"
    using b dequeue_cycle [OF g] by (simp add: hw_position_def)
  have "hw_walk k (BasePA r) (Base r) (deq r) (XhciRingDequeueCycle r \<noteq> 0) = outstanding r"
    if "length (Base r) + 2 \<le> k" for k
    using inv_walk [OF inv pos, of k] that b(6) unfolding outstanding_def used_def by simp
  moreover have "distinct (outstanding r)"
    unfolding outstanding_def distinct_conv_nth length_cyc_seg
  proof (intro allI impI)
    fix i j assume ij: "i < used r" "j < used r" "i \<noteq> j"
    then have "cyc_dist (slots r) (deq r) ((deq r + i) mod slots r) = i"
        "cyc_dist (slots r) (deq r) ((deq r + j) mod slots r) = j"
      using cyc_dist_step [OF b(4)] b(8) by simp_all
    with ij show "cyc_seg (slots r) (deq r) (used r) ! i \<noteq> cyc_seg (slots r) (deq r) (used r) ! j"
      by auto
  qed
  moreover have "slots r \<notin> set (outstanding r)"
    using set_cyc_seg [OF b(4), of "used r"] b(8) by (auto simp: outstanding_def)
  moreover have "unat (XhciRingCapacity r) = slots r - 1"
    using b(1) g by (simp add: XhciRingCapacity_def unat_sub_no_wrap)
  ultimately show ?thesis
    using hw_view_outstanding [OF inv] unat_free [OF g] b(8) by (simp add: outstanding_def)
qed

theorem controller_sees_outstanding_witness:
  "hw_view busy_ring = [0, 1] \<and> unat (XhciRingFree busy_ring) + 2 = unat (XhciRingCapacity busy_ring)"
proof -
  have "outstanding busy_ring = [0, 1]" by code_simp
  then show ?thesis using controller_sees_outstanding [OF busy_reachable] by simp
qed

section \<open>The functional behaviour of the enqueue\<close>

lemma checkTdChains_complete:
  assumes "td_shape (drop (unat i) ts) (map unat lens)" and "i \<le> count" and "unat count = length ts"
  shows "checkTdChains ts count lens i = Some count"
  using assms
proof (induction lens arbitrary: i)
  case Nil
  then have "unat i = unat count" by (simp add: word_le_nat_alt)
  then show ?case by (simp add: unat_eq_iff)
next
  case (Cons l ls)
  have i: "unat i \<le> unat count" using Cons.prems(2) by (simp add: word_le_nat_alt)
  from Cons.prems have l: "0 < unat l" "unat l \<le> unat count - unat i"
    and ch: "\<And>n. n < unat l \<Longrightarrow> ch_of (ts ! (unat i + n)) = (Suc n < unat l)"
    and rest: "td_shape (drop (unat l + unat i) ts) (map unat ls)"
    by auto
  have il: "unat (i + l) = unat i + unat l"
    using l i unat_lt_2p32 [of count] by (intro unat_add_no_wrap) linarith
  have "checkTdChains ts count ls (i + l) = Some count"
    using Cons.IH [of "i + l"] rest il l i Cons.prems(3) by (simp add: add.commute word_le_nat_alt)
  moreover have "td_chain_ok ts i l"
    using ch by (simp add: td_chain_ok_def list_all_iff ch_of_def)
  moreover have "l \<noteq> 0" "\<not> count - i < l"
    using l i by (auto simp: word_less_nat_alt unat_sub_no_wrap)
  ultimately show ?case by simp
qed

lemma enqueue_group_total:
  assumes inv: "ring_inv r" and len: "unat count = length ts" "ts \<noteq> []"
    and td: "unat tdCount = length lens" "lens \<noteq> []"
  shows "XhciRingEnqueueTdGroup (Some r) (Some ts) count (Some lens) tdCount =
     (if \<not> td_shape ts (map unat lens) then (XHCI_RING_BAD_CHAIN, Some r, None, [])
      else if slots r \<le> used r + length ts then (XHCI_RING_FULL, Some r, None, [])
      else XhciRingEnqueueTdGroup (Some r) (Some ts) count (Some lens) tdCount)"
    "td_shape ts (map unat lens) \<Longrightarrow> used r + length ts < slots r \<Longrightarrow>
     \<exists>r' p log. XhciRingEnqueueTdGroup (Some r) (Some ts) count (Some lens) tdCount =
        (XHCI_RING_OK, Some r', p, log)"
proof -
  have g: "ring_geom r" using inv by (simp add: ring_inv_def)
  have nz: "count \<noteq> 0" "tdCount \<noteq> 0" using len td by auto
  have room: "XhciRingHasRoom r count \<longleftrightarrow> used r + length ts < slots r"
    using has_room_iff [OF g] len by simp
  have chain: "checkTdChains ts count lens 0 = Some count \<longleftrightarrow> td_shape ts (map unat lens)"
    using checkTdChains_shape [of ts count lens 0] checkTdChains_complete [of 0 ts lens count] len
    by auto
  have call: "XhciRingEnqueueTdGroup (Some r) (Some ts) count (Some lens) tdCount =
     (if \<not> td_shape ts (map unat lens) then (XHCI_RING_BAD_CHAIN, Some r, None, [])
      else if slots r \<le> used r + length ts then (XHCI_RING_FULL, Some r, None, [])
      else XhciRingEnqueueTdGroup (Some r) (Some ts) count (Some lens) tdCount)"
    using chain nz room geom_bounds(7) [OF g] td
    by (auto simp: XhciRingEnqueueTdGroup_def split: option.splits)
  then show "XhciRingEnqueueTdGroup (Some r) (Some ts) count (Some lens) tdCount =
     (if \<not> td_shape ts (map unat lens) then (XHCI_RING_BAD_CHAIN, Some r, None, [])
      else if slots r \<le> used r + length ts then (XHCI_RING_FULL, Some r, None, [])
      else XhciRingEnqueueTdGroup (Some r) (Some ts) count (Some lens) tdCount)" .
  assume "td_shape ts (map unat lens)" "used r + length ts < slots r"
  then show "\<exists>r' p log. XhciRingEnqueueTdGroup (Some r) (Some ts) count (Some lens) tdCount =
        (XHCI_RING_OK, Some r', p, log)"
    using chain nz room geom_bounds(7) [OF g] td
    by (auto simp: XhciRingEnqueueTdGroup_def Let_def)
qed

text \<open>
  C3: the enqueue of a group is the append of the abstract queue, and it is total. On a reachable
  ring, with arrays of the claimed sizes and no Link template, the call answers BAD_CHAIN exactly
  when the Chain flags do not describe the declared TDs, FULL exactly when the group does not fit
  beside what is outstanding, each with the ring unchanged and no store made; otherwise it answers
  OK, the outstanding TRBs are the old ones followed by the templates (cycle bit aside), the
  capacity is unchanged, and the placement names the group's first TRB by index and address.
\<close>

theorem enqueue_group_appends:
  assumes "ring_reachable r" and "unat count = length ts" and "ts \<noteq> []"
    and "unat tdCount = length lens" and "lens \<noteq> []" and "\<forall>t \<in> set ts. \<not> is_link t"
  shows "case XhciRingEnqueueTdGroup (Some r) (Some ts) count (Some lens) tdCount of
     (st, ring', p, log) \<Rightarrow>
       if \<not> td_shape ts (map unat lens)
       then st = XHCI_RING_BAD_CHAIN \<and> ring' = Some r \<and> p = None \<and> log = []
       else if slots r \<le> used r + length ts
       then st = XHCI_RING_FULL \<and> ring' = Some r \<and> p = None \<and> log = []
       else st = XHCI_RING_OK \<and>
         (\<exists>r' pl. ring' = Some r' \<and> p = Some pl \<and> ring_inv r' \<and>
            pending r' = pending r @ map strip_cycle ts \<and> slots r' = slots r \<and>
            FirstIndex pl = Enqueue r \<and> FirstTrbPA pl = XhciRingTrbPA r (Enqueue r) \<and>
            TrbCount pl = count)"
proof -
  have inv: "ring_inv r" by (rule reachable_inv [OF assms(1)])
  have g: "ring_geom r" using inv by (simp add: ring_inv_def)
  note call = enqueue_group_total [OF inv assms(2-5)] and b = geom_bounds [OF g]
  show ?thesis
  proof (cases "td_shape ts (map unat lens) \<and> used r + length ts < slots r")
    case False
    then show ?thesis
      by (subst call(1)) (auto simp: not_less)
  next
    case True
    then obtain r' p log where ok: "XhciRingEnqueueTdGroup (Some r) (Some ts) count (Some lens) tdCount =
        (XHCI_RING_OK, Some r', p, log)" using call(2) by blast
    have le: "unat count \<le> length ts" using assms(2) by simp
    note q = enqueue_group_inv [OF inv le assms(6) ok]
    have e: "enqueued r ts r'" using q(2) assms(2) by simp
    have "XhciRingTrbPA r (Enqueue r) = BasePA r + Enqueue r * 16"
      using b(3,5) by (simp add: XhciRingTrbPA_def word_le_nat_alt enq_def)
    then show ?thesis
      using ok True q(1) enqueued_pending [OF g e] enqueued_used(2) [OF g e] enqueue_group_ok(6) [OF ok]
      by simp
  qed
qed

theorem enqueue_group_appends_witness:
  "ring_reachable sample_ring \<and> td_shape sample_td [2] \<and>
   pending (the (fst (snd (XhciRingEnqueueTdGroup (Some sample_ring) (Some sample_td) 2 (Some [2]) 1)))) =
     map strip_cycle sample_td"
proof -
  have h: "unat (2 :: ulong) = length sample_td" "sample_td \<noteq> []" "unat (1 :: ulong) = length [2 :: ulong]"
      "[2 :: ulong] \<noteq> []"
    by (simp_all add: sample_td_def)
  have s: "td_shape sample_td (map unat [2 :: ulong])" "used sample_ring + length sample_td < slots sample_ring"
      "pending sample_ring = []"
    by code_simp+
  then show ?thesis
    using enqueue_group_appends [OF sample_reachable h sample_td_no_link] sample_reachable
    unfolding sample_enqueue by (simp del: td_shape.simps)
qed

section \<open>Transfer Descriptors\<close>

text \<open>
  On a reachable ring \<open>XhciRingTdBounds\<close> finds the TD of any outstanding TRB: the head and the
  tail it returns delimit the one TD (chained throughout, unchained at its last TRB, starting at
  the dequeue pointer or behind an unchained TRB) that contains the TRB. An index that is not
  outstanding is refused.
\<close>

theorem td_bounds_exact:
  assumes "ring_reachable r"
  shows "if xhciRingIsOutstanding r i
     then \<exists>h t. XhciRingTdBounds (Some r) i = Inr (h, t) \<and>
        td_at r (off r h) (off r t) \<and> off r h \<le> off r i \<and> off r i \<le> off r t \<and>
        (\<forall>h' t'. td_at r h' t' \<and> h' \<le> off r i \<and> off r i \<le> t' \<longrightarrow> h' = off r h \<and> t' = off r t)
     else XhciRingTdBounds (Some r) i = Inl XHCI_RING_NOT_ON_RING"
proof (cases "xhciRingIsOutstanding r i")
  case True
  have inv: "ring_inv r" by (rule reachable_inv [OF assms])
  obtain h t where "XhciRingTdBounds (Some r) i = Inr (h, t)"
      and td: "td_at r (off r h) (off r t)" "off r h \<le> off r i" "off r i \<le> off r t"
    using td_bounds [OF inv True] by blast
  moreover have "\<forall>h' t'. td_at r h' t' \<and> h' \<le> off r i \<and> off r i \<le> t' \<longrightarrow> h' = off r h \<and> t' = off r t"
    using td_at_unique [OF _ td(1) _ _ td(2,3)] by blast
  ultimately show ?thesis unfolding if_P [OF True] by blast
next
  case False
  have g: "ring_geom r" using reachable_inv [OF assms] by (simp add: ring_inv_def)
  show ?thesis unfolding if_not_P [OF False]
    using False geom_bounds(7) [OF g] by (simp add: XhciRingTdBounds_def)
qed

theorem td_bounds_exact_witness:
  "xhciRingIsOutstanding busy_ring 1 \<and>
   (\<exists>h t. XhciRingTdBounds (Some busy_ring) 1 = Inr (h, t) \<and> off busy_ring h = 0 \<and> off busy_ring t = 1)"
proof -
  have o: "xhciRingIsOutstanding busy_ring 1" "off busy_ring 1 = 1" by code_simp+
  have c: "chained busy_ring 0" "\<not> chained busy_ring 1" "used busy_ring = 2" by code_simp+
  have td: "td_at busy_ring 0 1"
    unfolding td_at_def using c by (auto simp: less_Suc_eq)
  obtain h t where ht: "XhciRingTdBounds (Some busy_ring) 1 = Inr (h, t)"
    and u: "\<And>h' t'. td_at busy_ring h' t' \<and> h' \<le> off busy_ring 1 \<and> off busy_ring 1 \<le> t' \<Longrightarrow>
              h' = off busy_ring h \<and> t' = off busy_ring t"
    using td_bounds_exact [OF busy_reachable, of 1] unfolding if_P [OF o(1)] by blast
  then show ?thesis
    using o(1) u [of 0 1] td o(2) by (metis le_refl zero_le)
qed

text \<open>
  The TDs a caller declares are the TDs the ring holds afterwards: after a successful enqueue,
  resolving any TRB of the m-th declared TD gives back exactly the first and the last TRB of that
  TD, at the offsets behind what was outstanding before.
\<close>

theorem enqueue_then_td_bounds:
  assumes "ring_reachable r" and "unat count \<le> length ts" and "\<forall>t \<in> set ts. \<not> is_link t"
    and "XhciRingEnqueueTdGroup (Some r) (Some ts) count (Some lens) tdCount =
           (XHCI_RING_OK, Some r', p, log)"
    and "ls = map unat (take (unat tdCount) lens)" and "m < length ls"
    and "used r + sum_list (take m ls) \<le> off r' i" and "off r' i < used r + sum_list (take (Suc m) ls)"
    and "unat i < slots r'"
  shows "\<exists>h t. XhciRingTdBounds (Some r') i = Inr (h, t) \<and>
           off r' h = used r + sum_list (take m ls) \<and>
           off r' t = used r + sum_list (take (Suc m) ls) - 1"
proof -
  have inv: "ring_inv r" by (rule reachable_inv [OF assms(1)])
  have g: "ring_geom r" using inv by (simp add: ring_inv_def)
  note q = enqueue_group_inv [OF inv assms(2,3,4)]
  have room: "used r + length (take (unat count) ts) < slots r" using q(3) assms(2) by simp
  have td: "td_at r' (used r + sum_list (take m ls)) (used r + sum_list (take (Suc m) ls) - 1)"
    using enqueued_td [OF inv q(2) room q(5)] assms(5,6) by simp
  have g': "ring_geom r'" using q(1) by (simp add: ring_inv_def)
  have inside: "off r' i \<le> used r + sum_list (take (Suc m) ls) - 1" using assms(8) by simp
  then have "off r' i < used r'" using td by (simp add: td_at_def)
  then have "xhciRingIsOutstanding r' i" using outstanding_off [OF g'] assms(9) by simp
  then obtain h t where "XhciRingTdBounds (Some r') i = Inr (h, t)"
      "td_at r' (off r' h) (off r' t)" "off r' h \<le> off r' i" "off r' i \<le> off r' t"
    using td_bounds [OF q(1)] by blast
  with td_at_unique [OF this(2) td this(3,4) assms(7) inside] show ?thesis by blast
qed

theorem enqueue_then_td_bounds_witness:
  "\<exists>h t. XhciRingTdBounds (Some busy_ring) 1 = Inr (h, t) \<and> off busy_ring h = 0 \<and> off busy_ring t = 1"
proof -
  have o: "off busy_ring 1 = 1" "used sample_ring = 0" "unat (1 :: ulong) < slots busy_ring" by code_simp+
  have l: "[2] = map unat (take (unat (1 :: ulong)) [2 :: ulong])" by simp
  show ?thesis
    using enqueue_then_td_bounds [OF sample_reachable sample_td_length sample_td_no_link sample_enqueue l,
        of 0 1] o by simp
qed

end
