(* ===== verification/Xhci_Ring_Moves.thy ===== *)
theory Xhci_Ring_Moves
  imports Xhci_Ring_Props
begin

text \<open>
  The properties of the operations that move the dequeue pointer or rewrite published TRBs: the
  completion event path, repositioning, No Op replacement, initialisation and restart, resync,
  address translation, and the ring as the bounded queue of \<open>Xhci_Fifo\<close>.
\<close>

section \<open>Completion events\<close>

lemma reachable_geom: "ring_reachable r \<Longrightarrow> ring_geom r"
  using reachable_inv by (simp add: ring_inv_def)

lemma outstanding_pa:
  assumes "ring_geom r" and "xhciRingIsOutstanding r i"
  shows "XhciRingIndexFromPA r (XhciRingTrbPA r i) = Inr i"
proof -
  have i: "unat i < slots r" using assms outstanding_off by blast
  then have "XhciRingTrbPA r i = BasePA r + i * 16"
    using geom_bounds(5) [OF assms(1)] by (simp add: XhciRingTrbPA_def word_le_nat_alt)
  then show ?thesis using index_of_pa [OF assms(1)] i by simp
qed

text \<open>
  A completion event retires exactly the TD it names. For an event that carries the address of
  an outstanding TRB and a completion code its ring kind may report, classification finds the TD
  around that TRB; retiring on the result is refused with the ring unchanged when the TRB is not
  the tail of its TD or the code is one of the Stopped codes, and otherwise removes from the
  outstanding TRBs everything up to and including that TD's tail and nothing behind it.
\<close>

theorem event_retires_td:
  assumes "ring_reachable r" and "xhciRingIsOutstanding r i"
    and "XhciRingCompletionCodeValid (Kind r) code"
  shows "\<exists>c. XhciRingClassifyEvent (Some r) (XhciRingTrbPA r i) code = Inr c \<and>
     ReportedIndex c = i \<and> td_at r (off r (HeadIndex c)) (off r (TailIndex c)) \<and>
     off r (HeadIndex c) \<le> off r i \<and> off r i \<le> off r (TailIndex c) \<and>
     (if i = TailIndex c \<and> \<not> xhciCodeIsStopped (Kind r) code
      then \<exists>r'. XhciRingRetireTd (Some r) (Some c) = (XHCI_RING_OK, Some r') \<and> ring_inv r' \<and>
             pending r' = drop (Suc (off r i)) (pending r)
      else XhciRingRetireTd (Some r) (Some c) = (XHCI_RING_NOT_COMPLETE, Some r))"
proof -
  have inv: "ring_inv r" by (rule reachable_inv [OF assms(1)])
  have g: "ring_geom r" by (rule reachable_geom [OF assms(1)])
  obtain h t where ht: "XhciRingTdBounds (Some r) i = Inr (h, t)"
      and td: "td_at r (off r h) (off r t)" "off r h \<le> off r i" "off r i \<le> off r t"
    using td_bounds [OF inv assms(2)] by blast
  have kind: "\<not> 2 < Kind r" using g by (simp add: ring_geom_def not_less)
  define c where "c = \<lparr>ReportedIndex = i, HeadIndex = h, TailIndex = t, IsTail = (i = t),
      CanRetire = (i = t \<and> \<not> xhciCodeIsStopped (Kind r) code),
      NeedsRecovery = xhciEventNeedsRecovery r code\<rparr>"
  have "XhciRingClassifyEvent (Some r) (XhciRingTrbPA r i) code = Inr c"
    using assms(3) kind outstanding_pa [OF g assms(2)] ht
    by (simp add: XhciRingClassifyEvent_def XhciRingCompletionCodeValid_def c_def)
  moreover have "if i = t \<and> \<not> xhciCodeIsStopped (Kind r) code
      then \<exists>r'. XhciRingRetireTd (Some r) (Some c) = (XHCI_RING_OK, Some r') \<and> ring_inv r' \<and>
             pending r' = drop (Suc (off r i)) (pending r)
      else XhciRingRetireTd (Some r) (Some c) = (XHCI_RING_NOT_COMPLETE, Some r)"
    using retire_outstanding [OF inv inv assms(2) inv assms(2)] assms(2)
    by (cases "i = t") (simp_all add: XhciRingRetireTd_def c_def)
  ultimately show ?thesis using td by (auto simp: c_def)
qed

theorem event_retires_td_witness:
  "xhciRingIsOutstanding busy_ring 1 \<and> XhciRingCompletionCodeValid 1 XHCI_CC_SUCCESS \<and>
   (\<exists>c. XhciRingClassifyEvent (Some busy_ring) (XhciRingTrbPA busy_ring 1) XHCI_CC_SUCCESS = Inr c \<and>
        ReportedIndex c = 1)"
proof -
  have h: "xhciRingIsOutstanding busy_ring 1" "XhciRingCompletionCodeValid 1 XHCI_CC_SUCCESS"
      "Kind busy_ring = 1"
    by code_simp+
  then show ?thesis
    using event_retires_td [OF busy_reachable, of 1 XHCI_CC_SUCCESS] by auto
qed

text \<open>
  A completion event that does not belong to an outstanding TRB changes nothing: an address
  outside the segment, between two TRBs, or of a TRB that is not outstanding is answered with
  NOT_ON_RING, and a code the ring's kind cannot report with BAD_COMPLETION.
\<close>

theorem stray_event_rejected:
  assumes "ring_reachable r"
  shows "(\<not> XhciRingCompletionCodeValid (Kind r) code \<longrightarrow>
           XhciRingClassifyEvent (Some r) pa code = Inl XHCI_RING_BAD_COMPLETION) \<and>
    (XhciRingCompletionCodeValid (Kind r) code \<longrightarrow>
       ((\<exists>c. XhciRingClassifyEvent (Some r) pa code = Inr c) \<longleftrightarrow>
        (\<exists>i. xhciRingIsOutstanding r i \<and> pa = XhciRingTrbPA r i)) \<and>
       (\<forall>e. XhciRingClassifyEvent (Some r) pa code = Inl e \<longrightarrow> e = XHCI_RING_NOT_ON_RING))"
proof -
  have inv: "ring_inv r" by (rule reachable_inv [OF assms])
  have g: "ring_geom r" by (rule reachable_geom [OF assms])
  have kind: "\<not> 2 < Kind r" using g by (simp add: ring_geom_def not_less)
  have ne: "Base r \<noteq> []" by (rule geom_bounds(7) [OF g])
  have pa_err: "e = XHCI_RING_NOT_ON_RING" if "XhciRingIndexFromPA r pa = Inl e" for e
    using that ne by (auto simp: XhciRingIndexFromPA_def Let_def split: if_splits)
  have inside: "xhciRingIsOutstanding r i \<Longrightarrow> \<exists>ht. XhciRingTdBounds (Some r) i = Inr ht" for i
    using td_bounds [OF inv] by blast
  have outside: "\<not> xhciRingIsOutstanding r i \<Longrightarrow> XhciRingTdBounds (Some r) i = Inl XHCI_RING_NOT_ON_RING" for i
    using ne by (simp add: XhciRingTdBounds_def)
  have named: "pa = XhciRingTrbPA r i" if "XhciRingIndexFromPA r pa = Inr i" for i
    using pa_of_index [OF g that] geom_bounds(5) [OF g]
    by (simp add: XhciRingTrbPA_def word_le_nat_alt)
  show ?thesis
  proof (cases "XhciRingIndexFromPA r pa")
    case (Inl e)
    then show ?thesis
      using pa_err [OF Inl] kind outstanding_pa [OF g]
      by (auto simp: XhciRingClassifyEvent_def XhciRingCompletionCodeValid_def)
  next
    case (Inr i)
    note n = named [OF Inr]
    have only: "xhciRingIsOutstanding r j \<and> pa = XhciRingTrbPA r j \<Longrightarrow> j = i" for j
      using outstanding_pa [OF g, of j] Inr by simp
    show ?thesis
    proof (cases "xhciRingIsOutstanding r i")
      case True
      obtain h t where "XhciRingTdBounds (Some r) i = Inr (h, t)" using inside [OF True] by auto
      then show ?thesis using True n Inr kind
        by (simp add: XhciRingClassifyEvent_def XhciRingCompletionCodeValid_def) blast
    next
      case False
      then show ?thesis using only Inr kind outside [OF False]
        by (simp add: XhciRingClassifyEvent_def XhciRingCompletionCodeValid_def) blast
    qed
  qed
qed

theorem stray_event_rejected_witness:
  "XhciRingClassifyEvent (Some busy_ring) 0x1000 XHCI_CC_MISSED_SERVICE = Inl XHCI_RING_BAD_COMPLETION"
proof -
  have "\<not> XhciRingCompletionCodeValid (Kind busy_ring) XHCI_CC_MISSED_SERVICE" by code_simp
  then show ?thesis
    using stray_event_rejected [OF busy_reachable, where code = XHCI_CC_MISSED_SERVICE and pa = "0x1000"] by blast
qed

section \<open>Repositioning\<close>

definition resume_point :: "xhci_ring \<Rightarrow> nat \<Rightarrow> ulong \<Rightarrow> bool" where
  "resume_point r x pa \<longleftrightarrow> x \<le> used r \<and> unat pa = unat (BasePA r) + 16 * pos r x \<and>
     (x = 0 \<or> x = used r \<or> \<not> chained r (x - 1))"

lemma index_at_pos:
  assumes g: "ring_geom r"
  obtains i where "unat i = pos r x" "\<not> Trbs r - 1 \<le> i" "unat (BasePA r + i * 16) = unat (BasePA r) + 16 * pos r x"
    "XhciRingIndexFromPA r (BasePA r + i * 16) = Inr i"
proof -
  define i :: ulong where "i = of_nat (pos r x)"
  have px: "pos r x < slots r" by (rule pos_less [OF g])
  have ui: "unat i = pos r x"
    unfolding i_def using px geom_bounds(2) [OF g] by (simp add: unat_of_nat take_bit_nat_eq_self)
  show thesis
    using that [OF ui] unat_trb_pa [OF g, of i] index_of_pa [OF g, of i] ui px unat_Trbs_1 [OF g]
    by (simp add: word_le_nat_alt)
qed

lemma set_dequeue_at:
  assumes inv: "ring_inv r" and at: "resume_point r x pa"
  shows "fst (XhciRingSetDequeue (Some r) pa) = XHCI_RING_OK"
proof -
  have g: "ring_geom r" using inv by (simp add: ring_inv_def)
  note b = geom_bounds [OF g]
  obtain i where i: "unat i = pos r x" "\<not> Trbs r - 1 \<le> i"
      "unat (BasePA r + i * 16) = unat (BasePA r) + 16 * pos r x"
      "XhciRingIndexFromPA r (BasePA r + i * 16) = Inr i" by (rule index_at_pos [OF g, of x])
  have pa: "pa = BasePA r + i * 16"
    using at i(3) unat_eq_iff [of pa "BasePA r + i * 16"] by (simp add: resume_point_def)
  show ?thesis
  proof (cases "x = used r")
    case True
    then have "i = Enqueue r"
      using i(1) enq_eq [OF g] unat_eq_iff [of i "Enqueue r"] by (simp add: pos_def enq_def)
    then show ?thesis using i(2,4) pa by (simp add: XhciRingSetDequeue_def)
  next
    case False
    then have xu: "x < used r" using at by (simp add: resume_point_def)
    have ox: "off r i = x" using off_of_pos [OF g _ i(1)] xu b(8) by simp
    then have out: "xhciRingIsOutstanding r i"
      using outstanding_off [OF g] i(1) pos_less [OF g, of x] xu by simp
    obtain h t where ht: "XhciRingTdBounds (Some r) i = Inr (h, t)" "td_at r (off r h) (off r t)"
        "off r h \<le> x" "x \<le> off r t" "unat h < slots r"
      using td_bounds [OF inv out] ox by blast
    have "chained r (x - 1) \<and> x \<noteq> 0" if "off r h \<noteq> x"
    proof -
      have "off r h \<le> x - 1 \<and> x - 1 < off r t \<and> x \<noteq> 0" using ht(3,4) that by auto
      then show ?thesis using ht(2) by (simp add: td_at_def)
    qed
    then have "off r h = x" using at False by (auto simp: resume_point_def)
    then have "h = i" using ox i(1) pos_off [OF g, of h] ht(5) unat_eq_iff [of h i] by simp
    then show ?thesis using i(2,4) pa ht(1) out by (simp add: XhciRingSetDequeue_def)
  qed
qed

lemma set_dequeue_accepts:
  assumes inv: "ring_inv r" and s: "XhciRingSetDequeue (Some r) pa = (XHCI_RING_OK, ring')"
  shows "\<exists>x r'. resume_point r x pa \<and> ring' = Some r' \<and> ring_inv r' \<and> pending r' = drop x (pending r)"
proof -
  have g: "ring_geom r" using inv by (simp add: ring_inv_def)
  from set_dequeue_cases [OF inv s] obtain i x where
    ix: "XhciRingIndexFromPA r pa = Inr i" "unat i = pos r x" "x \<le> used r"
      "x = used r \<or> x = 0 \<or> \<not> chained r (x - 1)" "ring' = Some (r\<lparr>Dequeue := i\<rparr>)"
    by blast
  have "unat pa = unat (BasePA r) + 16 * pos r x"
    using pa_of_index [OF g ix(1)] unat_trb_pa [OF g, of i] ix(2) by simp
  then show ?thesis using ix move_dequeue [OF inv ix(2,3)] by (auto simp: resume_point_def)
qed

text \<open>
  \<open>XhciRingSetDequeue\<close> accepts exactly the addresses at which the controller may resume: a TRB
  boundary of this segment that is the enqueue pointer or the head of an outstanding TD. It then
  drops the TRBs in front of that point and keeps the others; any other address leaves the ring
  unchanged.
\<close>

theorem set_dequeue_exact:
  assumes "ring_reachable r"
  shows "case XhciRingSetDequeue (Some r) pa of (st, ring') \<Rightarrow>
     if \<exists>x. resume_point r x pa
     then st = XHCI_RING_OK \<and>
       (\<exists>x r'. resume_point r x pa \<and> ring' = Some r' \<and> ring_inv r' \<and> pending r' = drop x (pending r))
     else st \<noteq> XHCI_RING_OK \<and> ring' = Some r"
proof -
  have inv: "ring_inv r" by (rule reachable_inv [OF assms])
  obtain st ring' where s: "XhciRingSetDequeue (Some r) pa = (st, ring')" by fastforce
  show ?thesis
  proof (cases "st = XHCI_RING_OK")
    case True
    then show ?thesis using set_dequeue_accepts [OF inv s [unfolded True]] s by auto
  next
    case False
    moreover have "\<not> resume_point r x pa" for x
      using set_dequeue_at [OF inv, of x pa] s False by auto
    moreover have "ring' = Some r" using set_dequeue_cases [OF inv s] False by blast
    ultimately show ?thesis using s by simp
  qed
qed

theorem set_dequeue_exact_witness:
  "fst (XhciRingSetDequeue (Some busy_ring) 0x1020) = XHCI_RING_OK"
proof -
  have "used busy_ring = 2" "BasePA busy_ring = 0x1000" "pos busy_ring 2 = 2" by code_simp+
  then have ex: "\<exists>x. resume_point busy_ring x 0x1020"
    by (intro exI [of _ 2]) (simp add: resume_point_def)
  show ?thesis
    using set_dequeue_exact [OF busy_reachable, of "0x1020"] unfolding if_P [OF ex]
    by (simp add: case_prod_unfold)
qed

lemma strip_low_bit: "(w OR (c AND 1)) AND - 2 = w AND NOT (1 :: ulong)"
proof -
  have "(w OR (c AND 1)) AND NOT 1 = w AND NOT 1"
    by (rule bit_eqI) (auto simp only: bit_and_iff bit_or_iff bit_not_iff bit_mask_1)
  then show ?thesis by simp
qed

text \<open>
  Turning a TRB into a No Op is a change of that TRB alone. On an outstanding index and a No
  Op type the call succeeds, the ring keeps its invariant (so the controller still reaches
  exactly the outstanding TRBs), the same number is outstanding, and only the named TRB reads
  differently: its words are zero but for the type, and it no longer chains. Every other index or
  type leaves the ring unchanged.
\<close>

theorem noop_replaces_one_trb:
  assumes "ring_reachable r"
  shows "if (ty = XHCI_TRB_TYPE_NOOP \<or> ty = XHCI_TRB_TYPE_NOOP_COMMAND) \<and> xhciRingIsOutstanding r i
     then \<exists>r'. XhciRingNoOpAtType (Some r) i ty = (XHCI_RING_OK, Some r') \<and> ring_inv r' \<and>
            hw_view r' = hw_view r \<and>
            pending r' = (pending r)[off r i := zero_trb\<lparr>Control := XHCI_TRB_TYPE ty\<rparr>]
     else fst (XhciRingNoOpAtType (Some r) i ty) \<noteq> XHCI_RING_OK \<and>
          snd (XhciRingNoOpAtType (Some r) i ty) = Some r"
proof -
  have inv: "ring_inv r" by (rule reachable_inv [OF assms])
  have g: "ring_geom r" by (rule reachable_geom [OF assms])
  obtain st ring' where s: "XhciRingNoOpAtType (Some r) i ty = (st, ring')" by fastforce
  show ?thesis
  proof (cases "(ty = XHCI_TRB_TYPE_NOOP \<or> ty = XHCI_TRB_TYPE_NOOP_COMMAND) \<and> xhciRingIsOutstanding r i")
    case True
    have "st = XHCI_RING_OK"
    proof -
      have "unat i < slots r" using True outstanding_off [OF g] by blast
      then have "\<not> Trbs r - 1 \<le> i" using unat_Trbs_1 [OF g] by (simp add: word_le_nat_alt)
      then show ?thesis using s True geom_bounds(7) [OF g] by (auto simp: XhciRingNoOpAtType_def Let_def)
    qed
    with noop_cases [OF g s] obtain r' where ring': "ring' = Some r'"
      and r': "r' = r\<lparr>Base := (Base r)[unat i := noop_trb ty (Base r ! unat i),
             slots r := (if Suc (unat i) = slots r then unchain (Base r ! slots r)
                         else Base r ! slots r)]\<rparr>" by blast
    note n = noop_inv [OF inv conjunct2 [OF True] conjunct1 [OF True] r']
    have strip: "strip_cycle (noop_trb ty old) = zero_trb\<lparr>Control := XHCI_TRB_TYPE ty\<rparr>" for old
    proof -
      have "XHCI_TRB_TYPE ty AND NOT 1 = XHCI_TRB_TYPE ty"
        using True by (auto simp: XHCI_TRB_TYPE_def)
      then show ?thesis
        unfolding strip_cycle_def noop_trb_def zero_trb_def by (simp add: strip_low_bit)
    qed
    have "outstanding r' = outstanding r"
      using n(2) by (simp add: outstanding_def r' ring_view_defs)
    then have "hw_view r' = hw_view r"
      using hw_view_outstanding [OF inv] hw_view_outstanding [OF n(1)] by simp
    then show ?thesis
      unfolding if_P [OF True] using s \<open>st = XHCI_RING_OK\<close> ring' n strip by auto
  next
    case False
    then show ?thesis
      unfolding if_not_P [OF False] using noop_cases [OF g s] s by auto
  qed
qed

theorem noop_replaces_one_trb_witness:
  "xhciRingIsOutstanding busy_ring 0 \<and>
   (\<exists>r'. XhciRingNoOpAtType (Some busy_ring) 0 XHCI_TRB_TYPE_NOOP = (XHCI_RING_OK, Some r') \<and>
         hw_view r' = hw_view busy_ring)"
proof -
  have o: "xhciRingIsOutstanding busy_ring 0" by code_simp
  then show ?thesis
    using noop_replaces_one_trb [OF busy_reachable, of XHCI_TRB_TYPE_NOOP 0] by auto
qed

section \<open>Initialisation, restart and resync\<close>

text \<open>
  \<open>XhciRingInit\<close> accepts exactly the segments the controller can use: 3 to 4096 TRBs at a
  nonzero address, 64-byte aligned for the command ring and 16-byte aligned otherwise, inside the
  32-bit address space and inside one 64-kilobyte block. The ring it makes keeps the invariant
  and is empty with its whole capacity free.
\<close>

theorem ring_init_exact:
  assumes "length base = unat trbs"
  shows "case XhciRingInit (Some r0) base pa trbs kind of (st, ring') \<Rightarrow>
     if base \<noteq> [] \<and> pa \<noteq> 0 \<and> 3 \<le> unat trbs \<and> unat trbs \<le> 4096 \<and> kind \<le> 2 \<and>
        unat pa mod (if kind = 0 then 64 else 16) = 0 \<and> unat pa + 16 * unat trbs \<le> 2 ^ 32 \<and>
        unat pa div 65536 = (unat pa + 16 * unat trbs - 1) div 65536
     then st = XHCI_RING_OK \<and>
       (\<exists>r. ring' = Some r \<and> ring_inv r \<and> pending r = [] \<and> unat (XhciRingFree r) = unat trbs - 2 \<and>
            BasePA r = pa \<and> Kind r = kind)
     else st = XHCI_RING_BAD_PARAM \<and> ring' = Some r0"
proof -
  let ?a = "if kind = 0 then 64 else (16 :: ulong)"
  have a: "?a = 16 \<or> ?a = 64" by simp
  have ua: "unat ?a = (if kind = 0 then 64 else 16)" by simp
  let ?c = "base \<noteq> [] \<and> pa \<noteq> 0 \<and> 3 \<le> unat trbs \<and> kind \<le> 2 \<and> XhciSegmentUsable pa trbs ?a"
  have c: "?c \<longleftrightarrow> base \<noteq> [] \<and> pa \<noteq> 0 \<and> 3 \<le> unat trbs \<and> unat trbs \<le> 4096 \<and> kind \<le> 2 \<and>
        unat pa mod (if kind = 0 then 64 else 16) = 0 \<and> unat pa + 16 * unat trbs \<le> 2 ^ 32 \<and>
        unat pa div 65536 = (unat pa + 16 * unat trbs - 1) div 65536"
    unfolding segment_usable_iff [OF a] ua by auto
  obtain st ring' where s: "XhciRingInit (Some r0) base pa trbs kind = (st, ring')" by fastforce
  have st: "if ?c then st = XHCI_RING_OK \<and> (\<exists>r. ring' = Some r) else st = XHCI_RING_BAD_PARAM \<and> ring' = Some r0"
    using s by (auto simp: XhciRingInit_def Let_def word_le_nat_alt word_less_nat_alt split: if_splits)
  have "ring_inv r \<and> pending r = [] \<and> unat (XhciRingFree r) = unat trbs - 2 \<and> BasePA r = pa \<and> Kind r = kind"
    if "st = XHCI_RING_OK" "ring' = Some r" for r
  proof -
    note i = init_ok [OF s [unfolded that] assms]
    have g: "ring_geom r" using i(1) by (simp add: ring_inv_def)
    have "unat (XhciRingFree r) = slots r - 1"
      using unat_free [OF g] i(2) by simp
    moreover have "slots r = unat trbs - 1" using geom_bounds(5) [OF g] i(4) by simp
    ultimately show ?thesis using i length_0_conv [of "pending r"] by simp
  qed
  then show ?thesis
    using st unfolding s prod.case c by (auto split: if_splits)
qed

theorem ring_init_exact_witness:
  "fst (XhciRingInit (Some blank_ring) (replicate 5 zero_trb) 0x1000 5 1) = XHCI_RING_OK"
  using ring_init_exact [of "replicate 5 zero_trb" 5, where ?r0.0 = blank_ring and pa = "0x1000" and kind = 1]
  by (simp add: case_prod_unfold)

text \<open>
  Whatever pointer the endpoint context holds, \<open>XhciRingResyncOwed\<close> hands out a place and a
  cycle state from which the controller executes a suffix of the outstanding TRBs and stops at
  the enqueue pointer: never a stale TRB, never one beyond what was published. Nothing is owed
  exactly when the context already names that place and the cycle state is 1.
\<close>

theorem resync_restart_safe:
  assumes "ring_reachable r"
  shows "\<exists>owed pa dcs d x. XhciRingResyncOwed (Some r) ctx = Some (owed, pa, dcs) \<and>
     XhciRingIndexFromPA r pa = Inr d \<and>
     hw_walk (length (Base r) + 2) (BasePA r) (Base r) (unat d) (dcs \<noteq> 0) = drop x (outstanding r) \<and>
     dcs \<le> 1 \<and> (owed \<longleftrightarrow> dcs = 0 \<or> pa \<noteq> ctx AND XHCI_EP_DEQUEUE_MASK)"
proof -
  have inv: "ring_inv r" by (rule reachable_inv [OF assms])
  have g: "ring_geom r" by (rule reachable_geom [OF assms])
  note b = geom_bounds [OF g]
  obtain owed pa dcs d where q: "XhciRingResyncOwed (Some r) ctx = Some (owed, pa, dcs)"
      "XhciRingIndexFromPA r pa = Inr d" "hw_position r (unat d) (dcs \<noteq> 0)" "dcs \<le> 1"
      "owed \<longleftrightarrow> dcs = 0 \<or> pa \<noteq> ctx AND XHCI_EP_DEQUEUE_MASK"
    using resync [OF inv, of ctx] by blast
  define x where "x = off r d"
  have d: "unat d < slots r" "x \<le> used r"
    using q(3) by (simp_all add: hw_position_def x_def off_def)
  have p: "unat d = pos r x" using pos_off [OF g d(1)] by (simp add: x_def)
  have "cyc_dist (slots r) (unat d) (enq r) = used r - x"
  proof -
    have "enq r = (unat d + (used r - x)) mod slots r"
      using enq_eq [OF g] d(2) mod_add_left_eq [of "deq r + x" "slots r" "used r - x"]
      by (simp add: p pos_def)
    then show ?thesis
      using cyc_dist_step [OF d(1), of "used r - x"] b(8) by simp
  qed
  then have "hw_walk (length (Base r) + 2) (BasePA r) (Base r) (unat d) (dcs \<noteq> 0) = drop x (outstanding r)"
    using inv_walk [OF inv q(3), of "length (Base r) + 2"] b(6) d(2)
    by (simp add: outstanding_def drop_cyc_seg p pos_def)
  with q show ?thesis by blast
qed

theorem resync_restart_safe_witness:
  "\<exists>owed pa dcs d x. XhciRingResyncOwed (Some busy_ring) 0x1011 = Some (owed, pa, dcs) \<and>
     XhciRingIndexFromPA busy_ring pa = Inr d \<and>
     hw_walk 7 0x1000 (Base busy_ring) (unat d) (dcs \<noteq> 0) = drop x [0, 1]"
proof -
  have s: "length (Base busy_ring) + 2 = 7" "BasePA busy_ring = 0x1000" "outstanding busy_ring = [0, 1]"
    by code_simp+
  show ?thesis
    using resync_restart_safe [OF busy_reachable, of "0x1011", unfolded s] by blast
qed

section \<open>Lengths, padding and addresses\<close>

text \<open>
  \<open>XhciRingSumTrbLengths\<close> gives the exact number of bytes of the TRBs between two outstanding
  indices, both included, without wrapping at 32 bits, and refuses a range whose tail lies in
  front of its head.
\<close>

theorem sum_lengths_exact:
  assumes "ring_reachable r" and "xhciRingIsOutstanding r f" and "xhciRingIsOutstanding r t"
  shows "if off r f \<le> off r t
     then \<exists>res. XhciRingSumTrbLengths (Some r) f t = Inr res \<and>
            unat res = (\<Sum>x = off r f..off r t. unat (XHCI_TRB_GET_LENGTH (Status (Base r ! pos r x))))
     else XhciRingSumTrbLengths (Some r) f t = Inl XHCI_RING_NOT_ON_RING"
  using sum_lengths [OF reachable_geom [OF assms(1)] assms(2,3)] unfolding trb_len_def .

theorem sum_lengths_exact_witness:
  "xhciRingIsOutstanding busy_ring 0 \<and> xhciRingIsOutstanding busy_ring 1 \<and>
   (\<exists>res. XhciRingSumTrbLengths (Some busy_ring) 0 1 = Inr res \<and> unat res = 612)"
proof -
  have o: "xhciRingIsOutstanding busy_ring 0" "xhciRingIsOutstanding busy_ring 1" by code_simp+
  have v: "off busy_ring 0 = 0" "off busy_ring 1 = 1"
      "unat (XHCI_TRB_GET_LENGTH (Status (Base busy_ring ! pos busy_ring 0))) = 512"
      "unat (XHCI_TRB_GET_LENGTH (Status (Base busy_ring ! pos busy_ring 1))) = 100"
    by code_simp+
  then show ?thesis
    using sum_lengths_exact [OF busy_reachable o] o v(4) [unfolded One_nat_def]
    by (simp del: sumTrbLengths_loop.simps)
qed

text \<open>
  After a successful \<open>XhciRingControlLinkPad\<close> a group of the announced size fits and its first
  TRB is not the last slot before the Link TRB, so the first two TRBs of the group are adjacent in
  memory. A pad is one No Op TD behind what was outstanding; without need for one the ring is
  unchanged, and when pad and group would not fit together it is refused and unchanged.
\<close>

theorem control_link_pad_exact:
  assumes "ring_reachable r" and "0 < unat n"
  shows "case XhciRingControlLinkPad (Some r) n of (st, ring', padded) \<Rightarrow>
     if Suc (enq r) \<noteq> slots r then st = XHCI_RING_OK \<and> ring' = Some r \<and> \<not> padded
     else if slots r \<le> used r + Suc (unat n) then st = XHCI_RING_FULL \<and> ring' = Some r \<and> \<not> padded
     else st = XHCI_RING_OK \<and> padded \<and>
       (\<exists>r'. ring' = Some r' \<and> ring_inv r' \<and> XhciRingHasRoom r' n \<and> Suc (enq r') < slots r' \<and>
          pending r' = pending r @ [zero_trb\<lparr>Control := XHCI_TRB_TYPE XHCI_TRB_TYPE_NOOP\<rparr>])"
proof -
  have inv: "ring_inv r" by (rule reachable_inv [OF assms(1)])
  have g: "ring_geom r" by (rule reachable_geom [OF assms(1)])
  let ?t = "zero_trb\<lparr>Control := XHCI_TRB_TYPE XHCI_TRB_TYPE_NOOP\<rparr>"
  note c = control_link_pad [OF inv assms(2)]
  show ?thesis
  proof (cases "Suc (enq r) \<noteq> slots r \<or> slots r \<le> used r + Suc (unat n)")
    case True
    then show ?thesis using c by (auto split: if_splits)
  next
    case False
    then obtain r' where r': "XhciRingControlLinkPad (Some r) n = (XHCI_RING_OK, Some r', True)"
        "ring_inv r'" "enqueued r [?t] r'" "enq r' = 0"
      using c by auto
    have g': "ring_geom r'" using r'(2) by (simp add: ring_inv_def)
    have room: "used r + length [?t] < slots r" using False by simp
    note u = enqueued_used [OF g r'(3) room]
    have "strip_cycle ?t = ?t" by (simp add: strip_cycle_def XHCI_TRB_TYPE_def zero_trb_def)
    then have "pending r' = pending r @ [?t]"
      using enqueued_pending [OF g r'(3) room] by simp
    moreover have "XhciRingHasRoom r' n" "Suc (enq r') < slots r'"
      using has_room_iff [OF g', of n] u False r'(4) geom_bounds(1) [OF g'] by auto
    ultimately show ?thesis using r' False by auto
  qed
qed

theorem control_link_pad_exact_witness:
  "0 < unat (3 :: ulong) \<and> XhciRingControlLinkPad (Some busy_ring) 3 = (XHCI_RING_OK, Some busy_ring, False)"
proof -
  have "Suc (enq busy_ring) \<noteq> slots busy_ring" by code_simp
  then show ?thesis
    using control_link_pad_exact [OF busy_reachable, of 3] by (auto split: prod.splits)
qed

text \<open>
  TRB addresses and ring indices translate back and forth: for every index of the segment, the
  Link TRB's included, \<open>XhciRingTrbPA\<close> gives an address that \<open>XhciRingIndexFromPA\<close> maps back, and
  every address it accepts is the address of the index it returns. Indices outside the segment
  have the address 0, which is never accepted.
\<close>

theorem trb_address_round_trip:
  assumes "ring_reachable r"
  shows "(i < Trbs r \<longrightarrow> XhciRingIndexFromPA r (XhciRingTrbPA r i) = Inr i) \<and>
    (\<forall>pa j. XhciRingIndexFromPA r pa = Inr j \<longrightarrow> j < Trbs r \<and> XhciRingTrbPA r j = pa) \<and>
    (\<not> i < Trbs r \<longrightarrow> XhciRingIndexFromPA r (XhciRingTrbPA r i) = Inl XHCI_RING_NOT_ON_RING)"
proof -
  have g: "ring_geom r" by (rule reachable_geom [OF assms])
  have lt: "j < Trbs r \<longleftrightarrow> unat j \<le> slots r" for j
    using geom_bounds(5) [OF g] by (auto simp: word_less_nat_alt)
  have "XhciRingTrbPA r j = (if j < Trbs r then BasePA r + j * 16 else 0)" for j
    by (auto simp: XhciRingTrbPA_def dest: leD)
  moreover have "0 < BasePA r" using geom_segment(3) [OF g] by (simp add: word_gt_0)
  ultimately show ?thesis
    using index_of_pa [OF g, of i] pa_of_index [OF g] lt
    by (auto simp: XhciRingIndexFromPA_def)
qed

theorem trb_address_round_trip_witness:
  "(4 :: ulong) < Trbs busy_ring \<and> XhciRingIndexFromPA busy_ring (XhciRingTrbPA busy_ring 4) = Inr 4"
proof -
  have "(4 :: ulong) < Trbs busy_ring" by code_simp
  then show ?thesis using trb_address_round_trip [OF busy_reachable, of 4] by blast
qed

section \<open>The ring as a bounded queue\<close>

definition single_td :: "xhci_trb list \<Rightarrow> bool" where
  "single_td ts \<longleftrightarrow> ts \<noteq> [] \<and> unat (of_nat (length ts) :: ulong) = length ts \<and>
     td_shape ts [length ts] \<and> list_all (\<lambda>t. \<not> is_link t) ts"

definition ring_put :: "xhci_ring \<Rightarrow> xhci_trb list \<Rightarrow> xhci_ring option" where
  "ring_put r ts =
     (case XhciRingEnqueueTd (Some r) (Some ts) (of_nat (length ts)) of
        (st, ring', _) \<Rightarrow> if st = XHCI_RING_OK then ring' else None)"

definition ring_take_to :: "xhci_ring \<Rightarrow> nat \<Rightarrow> xhci_ring option" where
  "ring_take_to r n =
     (if slots r \<le> n then None
      else
        let i = of_nat (pos r n) in
        case XhciRingRetireTd (Some r) (Some \<lparr>ReportedIndex = i, HeadIndex = i, TailIndex = i,
               IsTail = True, CanRetire = True, NeedsRecovery = False\<rparr>) of
          (st, ring') \<Rightarrow> if st = XHCI_RING_OK then ring' else None)"

abbreviation ring_capacity :: "xhci_ring \<Rightarrow> nat" where
  "ring_capacity r \<equiv> unat (XhciRingCapacity r)"

lemma unat_capacity: "ring_geom r \<Longrightarrow> ring_capacity r = slots r - 1"
  using geom_bounds [of r] by (simp add: XhciRingCapacity_def unat_sub_no_wrap)

lemma ring_put_law:
  assumes inv: "ring_inv r" and ok: "single_td ts"
  shows "used r + length ts \<le> ring_capacity r \<Longrightarrow>
      \<exists>r'. ring_put r ts = Some r' \<and> ring_inv r' \<and> pending r' = pending r @ map strip_cycle ts \<and>
           ring_capacity r' = ring_capacity r"
    "ring_capacity r < used r + length ts \<Longrightarrow> ring_put r ts = None"
proof -
  have g: "ring_geom r" using inv by (simp add: ring_inv_def)
  let ?n = "of_nat (length ts) :: ulong"
  have len: "unat ?n = length ts" "ts \<noteq> []" "unat (1 :: ulong) = length [?n]" "[?n] \<noteq> []"
    and shape: "td_shape ts (map unat [?n])" and nolink: "\<forall>t \<in> set ts. \<not> is_link t"
    using ok by (auto simp: single_td_def unat_of_nat take_bit_nat_eq_self list_all_iff simp del: td_shape.simps)
  note call = enqueue_group_total [OF inv len]
  have cap: "used r + length ts \<le> ring_capacity r \<longleftrightarrow> used r + length ts < slots r"
    using unat_capacity [OF g] geom_bounds(1) [OF g] by auto
  {
    assume "used r + length ts \<le> ring_capacity r"
    then have room: "used r + length ts < slots r" using cap by simp
    then obtain r' p log where e:
      "XhciRingEnqueueTdGroup (Some r) (Some ts) ?n (Some [?n]) 1 = (XHCI_RING_OK, Some r', p, log)"
      using call(2) shape by blast
    have en: "enqueued r ts r'" and inv': "ring_inv r'"
      using enqueue_group_inv [OF inv _ nolink e] len(1) by simp_all
    then have "ring_capacity r' = ring_capacity r"
      using unat_capacity [OF g] unat_capacity enqueued_used [OF g en room] by (simp add: ring_inv_def)
    then show "\<exists>r'. ring_put r ts = Some r' \<and> ring_inv r' \<and> pending r' = pending r @ map strip_cycle ts \<and>
           ring_capacity r' = ring_capacity r"
      using inv' enqueued_pending [OF g en room] by (simp add: ring_put_def XhciRingEnqueueTd_def e)
  next
    assume "ring_capacity r < used r + length ts"
    then have "XhciRingEnqueueTdGroup (Some r) (Some ts) ?n (Some [?n]) 1 = (XHCI_RING_FULL, Some r, None, [])"
      using call(1) shape cap by (simp del: td_shape.simps)
    then show "ring_put r ts = None" by (simp add: ring_put_def XhciRingEnqueueTd_def)
  }
qed

lemma ring_take_law:
  assumes inv: "ring_inv r"
  shows "n < used r \<Longrightarrow>
      \<exists>r'. ring_take_to r n = Some r' \<and> ring_inv r' \<and> pending r' = drop (Suc n) (pending r) \<and>
           ring_capacity r' = ring_capacity r"
    "used r \<le> n \<Longrightarrow> ring_take_to r n = None"
proof -
  have g: "ring_geom r" using inv by (simp add: ring_inv_def)
  note b = geom_bounds [OF g]
  define i :: ulong where "i = of_nat (pos r n)"
  have ui: "unat i = pos r n"
    unfolding i_def using pos_less [OF g, of n] b(2) by (simp add: unat_of_nat take_bit_nat_eq_self)
  have out: "xhciRingIsOutstanding r i \<longleftrightarrow> n < used r" if "n < slots r"
    using outstanding_off [OF g, of i] off_of_pos [OF g that ui] ui pos_less [OF g, of n] by simp
  have off: "off r i = n" if "n < slots r" using off_of_pos [OF g that ui] .
  have cap: "ring_capacity (r\<lparr>Dequeue := d\<rparr>) = ring_capacity r" for d
    by (simp add: XhciRingCapacity_def xhciRingSlots_def)
  {
    assume "n < used r"
    then have n: "n < slots r" "xhciRingIsOutstanding r i" using b(8) out by auto
    then show "\<exists>r'. ring_take_to r n = Some r' \<and> ring_inv r' \<and> pending r' = drop (Suc n) (pending r) \<and>
           ring_capacity r' = ring_capacity r"
      using retire_outstanding [OF inv inv n(2) inv n(2)] off cap
      by (simp add: ring_take_to_def XhciRingRetireTd_def i_def [symmetric] Let_def)
  next
    assume "used r \<le> n"
    then show "ring_take_to r n = None"
      using out by (auto simp: ring_take_to_def XhciRingRetireTd_def i_def [symmetric] Let_def)
  }
qed

interpretation rq: bounded_fifo ring_inv pending ring_capacity strip_cycle single_td ring_put ring_take_to
proof
  show "length (pending r) \<le> ring_capacity r" if "ring_inv r" for r
  proof -
    have g: "ring_geom r" using that by (simp add: ring_inv_def)
    show ?thesis using unat_capacity [OF g] geom_bounds(8) [OF g] by simp
  qed
qed (use ring_put_law ring_take_law in auto)

text \<open>
  C4: the producer ring is a bounded first-in first-out queue over whole runs. For any sequence of
  single-TD enqueues (\<open>XhciRingEnqueueTd\<close>) and retirements up to an outstanding TRB
  (\<open>XhciRingRetireTd\<close>), in any order and with any of them refused, what was outstanding at the
  start followed by everything accepted is, cycle bits aside, everything retired followed by what
  is outstanding at the end: nothing is lost, duplicated, reordered or invented, however often
  the ring wraps; the capacity never changes.
\<close>

theorem ring_run_fifo:
  assumes "ring_reachable r" and "rq.well_formed ops" and "rq.run r ops = (r', accepted, retired)"
  shows "pending r @ accepted = retired @ pending r' \<and> ring_inv r' \<and>
     XhciRingCapacity r' = XhciRingCapacity r"
  using rq.run_exact [OF reachable_inv [OF assms(1)] assms(2,3)] by (simp add: unat_eq_iff)

theorem ring_run_fifo_witness:
  "rq.run sample_ring [Put sample_td, Take 1] =
     (busy_ring\<lparr>Dequeue := 2\<rparr>, map strip_cycle sample_td, map strip_cycle sample_td) \<and>
   pending sample_ring @ map strip_cycle sample_td =
     map strip_cycle sample_td @ pending (busy_ring\<lparr>Dequeue := 2\<rparr>)"
proof -
  have p: "ring_put sample_ring sample_td = Some busy_ring"
      "ring_take_to busy_ring 1 = Some (busy_ring\<lparr>Dequeue := 2\<rparr>)"
      "take (Suc 1) (pending busy_ring) = map strip_cycle sample_td" "single_td sample_td"
    by code_simp+
  have w: "rq.well_formed [Put sample_td, Take 1]" using p(4) by (simp add: rq.well_formed_def)
  have r: "rq.run sample_ring [Put sample_td, Take 1] =
     (busy_ring\<lparr>Dequeue := 2\<rparr>, map strip_cycle sample_td, map strip_cycle sample_td)"
    by (simp only: rq.run.simps p option.case prod.case append_Nil2)
  show ?thesis using ring_run_fifo [OF sample_reachable w r] r by blast
qed

end
