(* ===== verification/Xhci_Event_Ring.thy ===== *)
theory Xhci_Event_Ring
  imports Xhci_Ring_Moves
begin

text \<open>
  The event ring of \<open>xhci_ring.c\<close>: the consumer's state and operations. The controller's side, the
  producer, is given as a state beside the ring (\<open>event_channel\<close>), written from the contract in
  \<open>xhci.h\<close>: an event is stored with the producer's cycle state, which toggles at the segment end,
  and one slot stays unused. The pair is a bounded queue in the sense of \<open>Xhci_Fifo\<close>.
\<close>

section \<open>Operations\<close>

record xhci_event_ring =
  EvBase :: "xhci_trb list"
  EvBasePA :: ulong
  EvTrbs :: ulong
  EvDequeue :: ulong
  EvCcs :: ulong

definition XhciEventRingInit ::
    "xhci_event_ring option \<Rightarrow> xhci_trb list \<Rightarrow> ulong \<Rightarrow> ulong \<Rightarrow> ring_status \<times> xhci_event_ring option" where
  "XhciEventRingInit ring base basePA trbs =
     (if ring = None \<or> base = [] \<or> basePA = 0 then (XHCI_RING_BAD_PARAM, ring)
      else if trbs < 16 \<or> trbs > 4096 then (XHCI_RING_BAD_PARAM, ring)
      else if \<not> XhciSegmentUsable basePA trbs 64 then (XHCI_RING_BAD_PARAM, ring)
      else
        (XHCI_RING_OK,
         Some \<lparr>EvBase = foldl (\<lambda>b i. apply_stores b (store_trb i zero_trb)) base [0..<unat trbs],
               EvBasePA = basePA, EvTrbs = trbs, EvDequeue = 0, EvCcs = 1\<rparr>))"

definition XhciEventRingPending :: "xhci_event_ring \<Rightarrow> bool" where
  "XhciEventRingPending ring \<longleftrightarrow>
     Control (EvBase ring ! unat (EvDequeue ring)) AND XHCI_TRB_CYCLE = EvCcs ring AND 1"

definition XhciEventRingDequeue ::
    "xhci_event_ring option \<Rightarrow> xhci_trb option \<Rightarrow> ring_status \<times> xhci_event_ring option \<times> xhci_trb option" where
  "XhciEventRingDequeue ring out =
     (case (ring, out) of
        (Some r, Some old) \<Rightarrow>
          if EvBase r = [] then (XHCI_RING_BAD_PARAM, ring, out)
          else
            let slot = EvBase r ! unat (EvDequeue r);
                control = Control slot in
            if control AND XHCI_TRB_CYCLE \<noteq> EvCcs r AND 1 then (XHCI_RING_EMPTY, ring, out)
            else
              let new = \<lparr>Param0 = Param0 slot, Param1 = Param1 slot, Status = Status slot,
                         Control = control\<rparr>;
                  r = r\<lparr>EvDequeue := EvDequeue r + 1\<rparr>;
                  r = (if EvDequeue r \<ge> EvTrbs r
                       then r\<lparr>EvDequeue := 0, EvCcs := EvCcs r XOR 1\<rparr> else r)
              in (XHCI_RING_OK, Some r, Some new)
      | _ \<Rightarrow> (XHCI_RING_BAD_PARAM, ring, out))"

definition XhciEventRingDequeuePA :: "xhci_event_ring \<Rightarrow> ulong" where
  "XhciEventRingDequeuePA ring = EvBasePA ring + EvDequeue ring * XHCI_TRB_BYTES"

abbreviation (input) XHCI_ERDP_DESI_MASK :: ulong where "XHCI_ERDP_DESI_MASK \<equiv> 0x00000007"
abbreviation (input) XHCI_ERDP_EHB :: ulong where "XHCI_ERDP_EHB \<equiv> 0x00000008"

definition XhciEventRingErdpValue :: "xhci_event_ring \<Rightarrow> ulong \<Rightarrow> ulong" where
  "XhciEventRingErdpValue ring ehb =
     (let value = XhciEventRingDequeuePA ring AND NOT (XHCI_ERDP_DESI_MASK OR XHCI_ERDP_EHB)
      in if ehb \<noteq> 0 then value OR XHCI_ERDP_EHB else value)"

section \<open>The producer beside the ring\<close>

record event_channel =
  chRing :: xhci_event_ring
  chEnq :: nat
  chPcs :: bool

abbreviation ch_slots :: "event_channel \<Rightarrow> nat" where
  "ch_slots s \<equiv> unat (EvTrbs (chRing s))"

abbreviation ch_deq :: "event_channel \<Rightarrow> nat" where
  "ch_deq s \<equiv> unat (EvDequeue (chRing s))"

definition ch_used :: "event_channel \<Rightarrow> nat" where
  "ch_used s = cyc_dist (ch_slots s) (ch_deq s) (chEnq s)"

text \<open>The controller stores one event, or finds the ring full.\<close>

definition post_event :: "event_channel \<Rightarrow> xhci_trb \<Rightarrow> event_channel" where
  "post_event s t =
     s\<lparr>chRing := (chRing s)\<lparr>EvBase := (EvBase (chRing s))[chEnq s := slot_image False (chPcs s) t]\<rparr>,
       chEnq := (if Suc (chEnq s) = ch_slots s then 0 else Suc (chEnq s)),
       chPcs := (if Suc (chEnq s) = ch_slots s then \<not> chPcs s else chPcs s)\<rparr>"

fun post_events :: "event_channel \<Rightarrow> xhci_trb list \<Rightarrow> event_channel option" where
  "post_events s [] = Some s"
| "post_events s (t # ts) =
     (if Suc (ch_used s) < ch_slots s then post_events (post_event s t) ts else None)"

text \<open>The driver dequeues the given number of events; the last component is what it read.\<close>

fun dequeue_events :: "nat \<Rightarrow> event_channel \<Rightarrow> (event_channel \<times> xhci_trb list) option" where
  "dequeue_events 0 s = Some (s, [])"
| "dequeue_events (Suc k) s =
     (case XhciEventRingDequeue (Some (chRing s)) (Some zero_trb) of
        (XHCI_RING_OK, Some r, Some t) \<Rightarrow>
          (case dequeue_events k (s\<lparr>chRing := r\<rparr>) of
             None \<Rightarrow> None | Some (s', ts) \<Rightarrow> Some (s', t # ts))
      | _ \<Rightarrow> None)"

definition ch_items :: "event_channel \<Rightarrow> xhci_trb list" where
  "ch_items s = map (\<lambda>i. strip_cycle (EvBase (chRing s) ! i)) (cyc_seg (ch_slots s) (ch_deq s) (ch_used s))"

definition ch_inv :: "event_channel \<Rightarrow> bool" where
  "ch_inv s \<longleftrightarrow>
     16 \<le> ch_slots s \<and> ch_slots s \<le> 4096 \<and> length (EvBase (chRing s)) = ch_slots s \<and>
     ch_deq s < ch_slots s \<and> chEnq s < ch_slots s \<and> EvCcs (chRing s) \<le> 1 \<and>
     (EvCcs (chRing s) \<noteq> 0) = (if chEnq s < ch_deq s then \<not> chPcs s else chPcs s) \<and>
     (\<forall>i < ch_slots s. cyc_of (EvBase (chRing s) ! i) = (if i < chEnq s then chPcs s else \<not> chPcs s)) \<and>
     unat (EvBasePA (chRing s)) mod 64 = 0 \<and> unat (EvBasePA (chRing s)) + 16 * ch_slots s \<le> 2 ^ 32"

lemma ch_inv_bounds:
  assumes "ch_inv s"
  shows "16 \<le> ch_slots s" "ch_slots s \<le> 4096" "length (EvBase (chRing s)) = ch_slots s"
    "ch_deq s < ch_slots s" "chEnq s < ch_slots s" "EvCcs (chRing s) \<le> 1" "ch_used s < ch_slots s"
    "EvBase (chRing s) \<noteq> []"
  using assms cyc_dist_less [of "ch_slots s"] by (auto simp: ch_inv_def ch_used_def)

lemma length_ch_items [simp]: "length (ch_items s) = ch_used s"
  by (simp add: ch_items_def)

subsection \<open>Posting\<close>

lemma post_event_step:
  assumes inv: "ch_inv s" and room: "Suc (ch_used s) < ch_slots s"
  shows "ch_inv (post_event s t)" "ch_items (post_event s t) = ch_items s @ [strip_cycle t]"
    "ch_slots (post_event s t) = ch_slots s" "ch_used (post_event s t) = Suc (ch_used s)"
proof -
  note b = ch_inv_bounds [OF inv]
  let ?n = "ch_slots s" and ?d = "ch_deq s" and ?e = "chEnq s"
  have e': "chEnq (post_event s t) = (?e + 1) mod ?n" using b(5) by (auto simp: post_event_def)
  have same: "ch_slots (post_event s t) = ?n" "ch_deq (post_event s t) = ?d"
    by (simp_all add: post_event_def)
  show "ch_slots (post_event s t) = ?n" by (rule same)
  show u: "ch_used (post_event s t) = Suc (ch_used s)"
    using used_add [OF b(4,5), of 1] room unfolding ch_used_def same e' by simp
  have d0: "?d \<noteq> 0 \<and> ?d \<le> ?e" if "Suc ?e = ?n"
    using that room b(4,5) by (auto simp: ch_used_def cyc_dist_alt split: if_splits)
  have ne: "Suc ?e \<noteq> ?d"
    using room b(4,5) by (auto simp: ch_used_def cyc_dist_alt split: if_splits)
  show "ch_inv (post_event s t)"
  proof (cases "Suc ?e = ?n")
    case True
    then show ?thesis using inv d0 [OF True]
      by (auto simp: ch_inv_def post_event_def nth_list_update)
  next
    case False
    then show ?thesis using inv ne
      by (auto simp: ch_inv_def post_event_def nth_list_update)
  qed
  have old: "EvBase (chRing (post_event s t)) ! i = EvBase (chRing s) ! i"
    if "i \<in> set (cyc_seg ?n ?d (ch_used s))" for i
  proof -
    have "cyc_dist ?n ?d i < cyc_dist ?n ?d ?e" using that set_cyc_seg [OF b(4), of "ch_used s"] b(7)
      by (auto simp: ch_used_def)
    then have "i \<noteq> ?e" by auto
    then show ?thesis by (simp add: post_event_def)
  qed
  have "(?d + ch_used s) mod ?n = ?e"
    unfolding ch_used_def by (rule cyc_pos_dist [OF b(4,5)])
  then have seg: "cyc_seg ?n ?d (Suc (ch_used s)) = cyc_seg ?n ?d (ch_used s) @ [?e]"
    using cyc_seg_add [of ?n ?d "ch_used s" 1] b(5) by (simp add: cyc_seg_def)
  have new: "EvBase (chRing (post_event s t)) ! ?e = slot_image False (chPcs s) t"
    using b(3,5) by (simp add: post_event_def)
  show "ch_items (post_event s t) = ch_items s @ [strip_cycle t]"
    unfolding ch_items_def u same seg using old new by simp
qed

lemma post_events_law:
  assumes "ch_inv s"
  shows "ch_used s + length ts < ch_slots s \<Longrightarrow>
      \<exists>s'. post_events s ts = Some s' \<and> ch_inv s' \<and> ch_items s' = ch_items s @ map strip_cycle ts \<and>
           ch_slots s' = ch_slots s"
    "ts \<noteq> [] \<Longrightarrow> ch_slots s \<le> ch_used s + length ts \<Longrightarrow> post_events s ts = None"
  using assms
proof (induction ts arbitrary: s)
  case Nil
  {
    case 1
    then show ?case by simp
  next
    case 2
    then show ?case by simp
  }
next
  case (Cons t ts)
  {
    case 1
    then have room: "Suc (ch_used s) < ch_slots s" by simp
    note p = post_event_step [OF 1(2) room, of t]
    show ?case using Cons.IH(1) [OF _ p(1)] p room 1 by simp
  next
    case 2
    show ?case
    proof (cases "Suc (ch_used s) < ch_slots s")
      case True
      note p = post_event_step [OF 2(3) True, of t]
      have "ts \<noteq> []" using True 2(2) by auto
      then show ?thesis using Cons.IH(2) [OF _ _ p(1)] p True 2 by simp
    qed simp
  }
qed

subsection \<open>Dequeuing\<close>

lemma event_pending_iff:
  assumes inv: "ch_inv s"
  shows "XhciEventRingPending (chRing s) \<longleftrightarrow> ch_used s \<noteq> 0"
proof -
  note b = ch_inv_bounds [OF inv]
  have "EvCcs (chRing s) AND 1 = of_bool (EvCcs (chRing s) \<noteq> 0)"
  proof -
    have "unat (EvCcs (chRing s)) = 0 \<or> unat (EvCcs (chRing s)) = unat (1 :: ulong)"
      using b(6) by (auto simp: word_le_nat_alt)
    then have "EvCcs (chRing s) = 0 \<or> EvCcs (chRing s) = 1"
      by (simp only: unat_eq_iff unat_0_iff) 
    then show ?thesis by auto
  qed
  moreover have "Control (EvBase (chRing s) ! ch_deq s) AND 1 =
      of_bool (if ch_deq s < chEnq s then chPcs s else \<not> chPcs s)"
    using inv b(4) by (simp add: ch_inv_def and_1_of_bool flip: cyc_of_def)
  moreover have "ch_used s = 0 \<longleftrightarrow> ch_deq s = chEnq s"
    using b(4,5) by (auto simp: ch_used_def cyc_dist_alt)
  moreover have "(EvCcs (chRing s) \<noteq> 0) = (if chEnq s < ch_deq s then \<not> chPcs s else chPcs s)"
    using inv by (simp add: ch_inv_def)
  ultimately show ?thesis unfolding XhciEventRingPending_def by auto
qed

text \<open>What one successful dequeue does to the ring.\<close>

definition ev_advance :: "xhci_event_ring \<Rightarrow> xhci_event_ring" where
  "ev_advance r = (if Suc (unat (EvDequeue r)) = unat (EvTrbs r)
     then r\<lparr>EvDequeue := 0, EvCcs := EvCcs r XOR 1\<rparr> else r\<lparr>EvDequeue := EvDequeue r + 1\<rparr>)"

lemma event_dequeue_cases:
  assumes inv: "ch_inv s"
  shows "XhciEventRingDequeue (Some (chRing s)) (Some old) =
     (if ch_used s = 0 then (XHCI_RING_EMPTY, Some (chRing s), Some old)
      else (XHCI_RING_OK, Some (ev_advance (chRing s)), Some (EvBase (chRing s) ! ch_deq s)))"
proof -
  note b = ch_inv_bounds [OF inv]
  let ?r = "chRing s"
  have one: "unat (EvDequeue ?r + 1) = Suc (ch_deq s)"
    using b(2,4) by (subst unat_add_no_wrap) simp_all
  have "EvTrbs ?r \<le> EvDequeue ?r + 1 \<longleftrightarrow> Suc (ch_deq s) = ch_slots s"
    using b(4) one by (auto simp: word_le_nat_alt)
  then show ?thesis
    using event_pending_iff [OF inv] b(8)
    by (simp add: XhciEventRingDequeue_def XhciEventRingPending_def Let_def ev_advance_def)
qed

lemma ev_advance_step:
  assumes inv: "ch_inv s" and some: "ch_used s \<noteq> 0"
  shows "ch_inv (s\<lparr>chRing := ev_advance (chRing s)\<rparr>)"
    "ch_items (s\<lparr>chRing := ev_advance (chRing s)\<rparr>) = drop 1 (ch_items s)"
    "ch_used (s\<lparr>chRing := ev_advance (chRing s)\<rparr>) = ch_used s - 1"
    "ch_slots (s\<lparr>chRing := ev_advance (chRing s)\<rparr>) = ch_slots s"
    "strip_cycle (EvBase (chRing s) ! ch_deq s) = hd (ch_items s)"
proof -
  note b = ch_inv_bounds [OF inv]
  let ?s = "s\<lparr>chRing := ev_advance (chRing s)\<rparr>" and ?n = "ch_slots s"
  have one: "unat (EvDequeue (chRing s) + 1) = Suc (ch_deq s)"
    using b(2,4) by (subst unat_add_no_wrap) simp_all
  have d: "ch_deq ?s = (ch_deq s + 1) mod ?n" using b(4) one by (auto simp: ev_advance_def)
  show n: "ch_slots ?s = ?n" by (simp add: ev_advance_def)
  have e: "chEnq s = ((ch_deq s + 1) mod ?n + (ch_used s - 1)) mod ?n"
    using cyc_pos_dist [OF b(4,5)] some mod_add_left_eq [of "ch_deq s + 1" ?n "ch_used s - 1"]
    by (simp flip: ch_used_def)
  show u: "ch_used ?s = ch_used s - 1"
  proof -
    have dn: "(ch_deq s + 1) mod ?n < ?n" "ch_used s - 1 < ?n" using b(1,7) by simp_all
    show ?thesis
      using cyc_dist_step [OF dn] e unfolding ch_used_def [of ?s] n d by simp
  qed
  show "ch_items ?s = drop 1 (ch_items s)"
    unfolding ch_items_def u n d drop_map using drop_cyc_seg [of 1 "ch_used s" ?n "ch_deq s"] some
    by (simp add: ev_advance_def)
  show "strip_cycle (EvBase (chRing s) ! ch_deq s) = hd (ch_items s)"
    using some b(4) by (cases "ch_used s") (simp_all add: ch_items_def cyc_seg_Suc)
  have ccs: "EvCcs (chRing s) = 0 \<or> EvCcs (chRing s) = 1"
  proof -
    have "unat (EvCcs (chRing s)) = unat (0 :: ulong) \<or> unat (EvCcs (chRing s)) = unat (1 :: ulong)"
      using b(6) by (auto simp: word_le_nat_alt)
    then show ?thesis by (simp only: unat_eq_iff)
  qed
  have ne: "ch_deq s \<noteq> chEnq s" using some b(4) by (auto simp: ch_used_def)
  show "ch_inv ?s"
  proof (cases "Suc (ch_deq s) = ?n")
    case True
    then show ?thesis using inv ccs ne b(5) by (auto simp: ch_inv_def ev_advance_def)
  next
    case False
    then show ?thesis using inv one ne b(4) by (auto simp: ch_inv_def ev_advance_def)
  qed
qed

lemma dequeue_events_law:
  assumes "ch_inv s"
  shows "k \<le> ch_used s \<Longrightarrow>
      \<exists>s' ts. dequeue_events k s = Some (s', ts) \<and> ch_inv s' \<and> map strip_cycle ts = take k (ch_items s) \<and>
              ch_items s' = drop k (ch_items s) \<and> ch_slots s' = ch_slots s"
    "ch_used s < k \<Longrightarrow> dequeue_events k s = None"
  using assms
proof (induction k arbitrary: s)
  case 0
  {
    case 1
    then show ?case by simp
  next
    case 2
    then show ?case by simp
  }
next
  case (Suc k)
  {
    case 1
    then have some: "ch_used s \<noteq> 0" by simp
    note a = ev_advance_step [OF 1(2) some]
    have le: "k \<le> ch_used (s\<lparr>chRing := ev_advance (chRing s)\<rparr>)" using a(3) 1(1) by simp
    obtain s' ts where "dequeue_events k (s\<lparr>chRing := ev_advance (chRing s)\<rparr>) = Some (s', ts)"
        "ch_inv s'" "map strip_cycle ts = take k (drop 1 (ch_items s))"
        "ch_items s' = drop k (drop 1 (ch_items s))" "ch_slots s' = ch_slots s"
      using Suc.IH(1) [OF le a(1)] unfolding a(2,4) by blast
    moreover have "take (Suc k) (ch_items s) = hd (ch_items s) # take k (drop 1 (ch_items s))"
      using some length_ch_items [of s] by (cases "ch_items s") auto
    ultimately show ?case
      using some a(5) event_dequeue_cases [OF 1(2), of zero_trb] by (simp add: drop_Suc drop_drop)
  next
    case 2
    show ?case
    proof (cases "ch_used s = 0")
      case True
      then show ?thesis using event_dequeue_cases [OF 2(2), of zero_trb] by simp
    next
      case False
      note a = ev_advance_step [OF 2(2) False]
      have "dequeue_events k (s\<lparr>chRing := ev_advance (chRing s)\<rparr>) = None"
        using Suc.IH(2) [OF _ a(1)] a(3) 2(1) False by simp
      then show ?thesis using False event_dequeue_cases [OF 2(2), of zero_trb] by simp
    qed
  }
qed

section \<open>Delivery\<close>

definition channel_take_to :: "event_channel \<Rightarrow> nat \<Rightarrow> event_channel option" where
  "channel_take_to s n = map_option fst (dequeue_events (Suc n) s)"

abbreviation channel_capacity :: "event_channel \<Rightarrow> nat" where
  "channel_capacity s \<equiv> ch_slots s - 1"

interpretation eq: bounded_fifo ch_inv ch_items channel_capacity strip_cycle "\<lambda>ts. ts \<noteq> []"
    post_events channel_take_to
proof
  fix s ts and n :: nat assume inv: "ch_inv s"
  note b = ch_inv_bounds [OF inv]
  show "length (ch_items s) \<le> channel_capacity s" using b(7) by simp
  show "channel_take_to s n = None" if "length (ch_items s) \<le> n"
    using dequeue_events_law(2) [OF inv, of "Suc n"] that by (simp add: channel_take_to_def)
  show "\<exists>s'. channel_take_to s n = Some s' \<and> ch_inv s' \<and> ch_items s' = drop (Suc n) (ch_items s) \<and>
           channel_capacity s' = channel_capacity s" if "n < length (ch_items s)"
  proof -
    have le: "Suc n \<le> ch_used s" using that by simp
    show ?thesis using dequeue_events_law(1) [OF inv le] by (auto simp: channel_take_to_def)
  qed
  show "post_events s ts = None" if "ts \<noteq> []" "channel_capacity s < length (ch_items s) + length ts"
    using post_events_law(2) [OF inv that(1)] that(2) b(1) by simp
  show "\<exists>s'. post_events s ts = Some s' \<and> ch_inv s' \<and> ch_items s' = ch_items s @ map strip_cycle ts \<and>
           channel_capacity s' = channel_capacity s" if "length (ch_items s) + length ts \<le> channel_capacity s"
  proof -
    have "ch_used s + length ts < ch_slots s" using that b(1) by simp
    then show ?thesis using post_events_law(1) [OF inv] by fastforce
  qed
qed

definition sample_event_ring :: xhci_event_ring where
  "sample_event_ring = \<lparr>EvBase = replicate 16 zero_trb, EvBasePA = 0x1000, EvTrbs = 16, EvDequeue = 0,
     EvCcs = 1\<rparr>"

definition fresh_channel :: "xhci_event_ring \<Rightarrow> event_channel" where
  "fresh_channel r = \<lparr>chRing = r, chEnq = 0, chPcs = True\<rparr>"

lemma event_init_ok:
  assumes ok: "XhciEventRingInit ring base pa trbs = (XHCI_RING_OK, Some r)" and len: "length base = unat trbs"
  shows "ch_inv (fresh_channel r)" "ch_items (fresh_channel r) = []" "ch_slots (fresh_channel r) = unat trbs"
    "unat pa mod 64 = 0" "unat (EvBasePA r) + 16 * unat trbs \<le> 2 ^ 32" "EvBasePA r = pa"
proof -
  from ok have c: "16 \<le> unat trbs" "unat trbs \<le> 4096" and u: "XhciSegmentUsable pa trbs 64"
    and r: "r = \<lparr>EvBase = replicate (unat trbs) zero_trb, EvBasePA = pa, EvTrbs = trbs, EvDequeue = 0,
                 EvCcs = 1\<rparr>"
    using len zero_fill [of "unat trbs" base zero_trb]
    by (auto simp: XhciEventRingInit_def word_less_nat_alt not_less split: if_splits)
  show "ch_inv (fresh_channel r)"
    using c u segment_usable_iff [of 64 pa trbs] zero_trb_view by (simp add: ch_inv_def fresh_channel_def r)
  show "ch_items (fresh_channel r) = []" "ch_slots (fresh_channel r) = unat trbs" "EvBasePA r = pa"
    using c by (simp_all add: ch_items_def fresh_channel_def r ch_used_def)
  show "unat pa mod 64 = 0" "unat (EvBasePA r) + 16 * unat trbs \<le> 2 ^ 32"
    using u segment_usable_iff [of 64 pa trbs] by (simp_all add: r)
qed



lemma unat_clear_low_bits:
  assumes "(w :: ulong) AND 15 = 0"
  shows "w AND NOT 15 = w" "unat (w OR 8) = unat w + 8"
proof -
  have low: "\<not> bit w n" if "n < 4" for n using assms that low_nibble_clear by blast
  show "w AND NOT 15 = w"
  proof (rule bit_eqI)
    fix n assume "possible_bit TYPE(32 word) n"
    then show "bit (w AND NOT 15) n = bit w n"
      using low [of n] unfolding bit_and_iff bit_not_iff bit_mask_15 by auto
  qed
  have "w AND 8 = 0"
  proof (rule bit_eqI)
    fix n
    have "bit (8 :: ulong) n \<longleftrightarrow> n = 3" using bit_mask_pow [of 3 n] by simp
    then show "bit (w AND 8) n = bit 0 n" using low [of 3] unfolding bit_and_iff by auto
  qed
  then have "w OR 8 = w + 8" by (simp add: disjunctive_add_eq_or)
  moreover have "unat w mod 16 = 0" using assms unat_and_low_mask(1) by blast
  then obtain q where q: "unat w = 16 * q" by auto
  then have "q < 268435456" using unat_lt_2p32 [of w] by simp
  then have "unat w + 8 < 4294967296" using q by simp
  ultimately show "unat (w OR 8) = unat w + 8" by (simp add: unat_add_no_wrap)
qed

text \<open>
  The value \<open>XhciEventRingErdpValue\<close> writes back is the exact address of the next event to
  read, inside the segment, with the Event Handler Busy flag set precisely when asked for and the
  segment index 0: the low four bits hold no address bits and the sums do not wrap.
\<close>

theorem erdp_value_exact:
  assumes "XhciEventRingInit ring base pa trbs = (XHCI_RING_OK, Some r)" and "length base = unat trbs"
    and "eq.well_formed ops" and "eq.run (fresh_channel r) ops = (s, posted, taken)"
  shows "unat (XhciEventRingErdpValue (chRing s) ehb) =
      unat (EvBasePA (chRing s)) + 16 * ch_deq s + (if ehb = 0 then 0 else 8) \<and> ch_deq s < unat trbs"
proof -
  note i = event_init_ok [OF assms(1,2)]
  have inv: "ch_inv s" and n: "ch_slots s - 1 = unat trbs - 1"
    using eq.run_exact [OF i(1) assms(3,4)] i(3) by simp_all
  note b = ch_inv_bounds [OF inv]
  let ?r = "chRing s"
  have seg: "unat (EvBasePA ?r) mod 64 = 0" "unat (EvBasePA ?r) + 16 * ch_slots s \<le> 2 ^ 32"
    using inv by (simp_all add: ch_inv_def)
  have "unat (EvDequeue ?r * 16) = 16 * ch_deq s"
    using b(2,4) by (subst unat_mult_no_wrap) simp_all
  then have pa: "unat (XhciEventRingDequeuePA ?r) = unat (EvBasePA ?r) + 16 * ch_deq s"
    unfolding XhciEventRingDequeuePA_def using seg(2) b(4) by (subst unat_add_no_wrap) simp_all
  have "(unat (EvBasePA ?r) + 16 * ch_deq s) mod 16 = 0" using seg(1) by presburger
  then have low: "XhciEventRingDequeuePA ?r AND 15 = 0"
    unfolding unat_and_low_mask pa .
  show ?thesis
    using unat_clear_low_bits [OF low] pa n b(4,1)
    by (simp add: XhciEventRingErdpValue_def Let_def)
qed

theorem erdp_value_exact_witness:
  "\<exists>r. XhciEventRingInit (Some sample_event_ring) (replicate 16 zero_trb) 0x1000 16 = (XHCI_RING_OK, Some r) \<and>
     unat (XhciEventRingErdpValue r 1) = 0x1008"
proof -
  have i: "XhciEventRingInit (Some sample_event_ring) (replicate 16 zero_trb) 0x1000 16 =
      (XHCI_RING_OK, Some sample_event_ring)"
    by code_simp
  have w: "eq.well_formed []" by (simp add: eq.well_formed_def)
  show ?thesis
    using erdp_value_exact [OF i _ w eq.run.simps(1), of 1] i
    by (simp add: fresh_channel_def sample_event_ring_def)
qed

end
