(* ===== verification/Xhci_Layout.thy ===== *)
theory Xhci_Layout
  imports Xhci_Prelude
begin

text \<open>
  The controller's common buffer (first half of \<open>xhci_mem.c\<close>, geometry of \<open>xhci.h\<close>): the carve
  computed by \<open>XhciComputeLayout\<close> with its checks, the offset accessors, and the checks on the
  block's base. Offsets are 32-bit words as in the source; \<open>layout_objects\<close> lists what the hardware
  will find in the block, for the statements on alignment, page containment and disjointness.
  Trusted output pointers are result components.
\<close>

section \<open>Constants and state\<close>

abbreviation (input) XHCI_PAGE_SIZE :: ulong where "XHCI_PAGE_SIZE \<equiv> 4096"
abbreviation (input) XHCI_DCBAA_ENTRY_BYTES :: ulong where "XHCI_DCBAA_ENTRY_BYTES \<equiv> 8"
abbreviation (input) XHCI_SCRATCHPAD_ENTRY_BYTES :: ulong where "XHCI_SCRATCHPAD_ENTRY_BYTES \<equiv> 8"
abbreviation (input) XHCI_DEVICE_CONTEXT_ENTRIES :: ulong where "XHCI_DEVICE_CONTEXT_ENTRIES \<equiv> 32"
abbreviation (input) XHCI_INPUT_CONTEXT_ENTRIES :: ulong where "XHCI_INPUT_CONTEXT_ENTRIES \<equiv> 33"
abbreviation (input) XHCI_CONTEXT_SIZE_SMALL :: ulong where "XHCI_CONTEXT_SIZE_SMALL \<equiv> 32"
abbreviation (input) XHCI_CONTEXT_SIZE_LARGE :: ulong where "XHCI_CONTEXT_SIZE_LARGE \<equiv> 64"
abbreviation (input) XHCI_MAX_SLOTS :: ulong where "XHCI_MAX_SLOTS \<equiv> 32"
abbreviation (input) XHCI_MAX_SCRATCHPAD :: ulong where "XHCI_MAX_SCRATCHPAD \<equiv> 64"
abbreviation (input) XHCI_MAX_POOL_RINGS :: ulong where "XHCI_MAX_POOL_RINGS \<equiv> 32"
abbreviation (input) XHCI_MAX_DCI :: ulong where "XHCI_MAX_DCI \<equiv> 31"
abbreviation (input) XHCI_CMD_RING_TRBS :: ulong where "XHCI_CMD_RING_TRBS \<equiv> 64"
abbreviation (input) XHCI_EVENT_RING_TRBS :: ulong where "XHCI_EVENT_RING_TRBS \<equiv> 256"
abbreviation (input) XHCI_EP0_RING_TRBS :: ulong where "XHCI_EP0_RING_TRBS \<equiv> 64"
abbreviation (input) XHCI_POOL_RING_TRBS :: ulong where "XHCI_POOL_RING_TRBS \<equiv> 64"
abbreviation (input) XHCI_DCBAA_RESERVED :: ulong where "XHCI_DCBAA_RESERVED \<equiv> 2048"
abbreviation (input) XHCI_SPA_RESERVED :: ulong where "XHCI_SPA_RESERVED \<equiv> 2048"
abbreviation (input) XHCI_ERST_RESERVED :: ulong where "XHCI_ERST_RESERVED \<equiv> 64"
abbreviation (input) XHCI_INPUT_CONTEXT_RESERVED :: ulong where "XHCI_INPUT_CONTEXT_RESERVED \<equiv> 4096"
abbreviation (input) XHCI_DEVICE_CONTEXT_STRIDE :: ulong where "XHCI_DEVICE_CONTEXT_STRIDE \<equiv> 2048"
abbreviation (input) XHCI_USBPORT_CB_HEADER_BYTES :: ulong where "XHCI_USBPORT_CB_HEADER_BYTES \<equiv> 48"

abbreviation (input) XHCI_CMD_RING_BYTES :: ulong where "XHCI_CMD_RING_BYTES \<equiv> XHCI_CMD_RING_TRBS * 16"
abbreviation (input) XHCI_EVENT_RING_BYTES :: ulong where "XHCI_EVENT_RING_BYTES \<equiv> XHCI_EVENT_RING_TRBS * 16"
abbreviation (input) XHCI_EP0_RING_STRIDE :: ulong where "XHCI_EP0_RING_STRIDE \<equiv> XHCI_EP0_RING_TRBS * 16"
abbreviation (input) XHCI_POOL_RING_STRIDE :: ulong where "XHCI_POOL_RING_STRIDE \<equiv> XHCI_POOL_RING_TRBS * 16"

definition XHCI_REGION_SMALL_OBJECTS :: ulong where "XHCI_REGION_SMALL_OBJECTS = 0"
definition XHCI_REGION_CMD_RING :: ulong where "XHCI_REGION_CMD_RING = 1 * XHCI_PAGE_SIZE"
definition XHCI_REGION_EVENT_RING :: ulong where "XHCI_REGION_EVENT_RING = 2 * XHCI_PAGE_SIZE"
definition XHCI_REGION_INPUT_CONTEXT :: ulong where "XHCI_REGION_INPUT_CONTEXT = 3 * XHCI_PAGE_SIZE"
definition XHCI_REGION_DEVICE_CONTEXTS :: ulong where
  "XHCI_REGION_DEVICE_CONTEXTS = 4 * XHCI_PAGE_SIZE"
definition XHCI_REGION_DEVICE_CONTEXTS_BYTES :: ulong where
  "XHCI_REGION_DEVICE_CONTEXTS_BYTES = XHCI_MAX_SLOTS * XHCI_DEVICE_CONTEXT_STRIDE"
definition XHCI_REGION_EP0_RINGS :: ulong where
  "XHCI_REGION_EP0_RINGS = XHCI_REGION_DEVICE_CONTEXTS + XHCI_REGION_DEVICE_CONTEXTS_BYTES"
definition XHCI_REGION_EP0_RINGS_BYTES :: ulong where
  "XHCI_REGION_EP0_RINGS_BYTES = XHCI_MAX_SLOTS * XHCI_EP0_RING_STRIDE"
definition XHCI_REGION_POOL_RINGS :: ulong where
  "XHCI_REGION_POOL_RINGS = XHCI_REGION_EP0_RINGS + XHCI_REGION_EP0_RINGS_BYTES"
definition XHCI_REGION_POOL_RINGS_BYTES :: ulong where
  "XHCI_REGION_POOL_RINGS_BYTES = XHCI_MAX_POOL_RINGS * XHCI_POOL_RING_STRIDE"
definition XHCI_REGION_SCRATCHPAD_PAGES :: ulong where
  "XHCI_REGION_SCRATCHPAD_PAGES = XHCI_REGION_POOL_RINGS + XHCI_REGION_POOL_RINGS_BYTES"
definition XHCI_REGION_SCRATCHPAD_PAGES_BYTES :: ulong where
  "XHCI_REGION_SCRATCHPAD_PAGES_BYTES = XHCI_MAX_SCRATCHPAD * XHCI_PAGE_SIZE"
definition XHCI_HC_RESOURCES_SIZE :: ulong where
  "XHCI_HC_RESOURCES_SIZE = XHCI_REGION_SCRATCHPAD_PAGES + XHCI_REGION_SCRATCHPAD_PAGES_BYTES"
definition XHCI_DCBAA_OFFSET :: ulong where "XHCI_DCBAA_OFFSET = XHCI_REGION_SMALL_OBJECTS"
definition XHCI_SPA_OFFSET :: ulong where
  "XHCI_SPA_OFFSET = XHCI_REGION_SMALL_OBJECTS + XHCI_DCBAA_RESERVED"
definition XHCI_CMD_RING_OFFSET :: ulong where "XHCI_CMD_RING_OFFSET = XHCI_REGION_CMD_RING"
definition XHCI_ERST_OFFSET :: ulong where
  "XHCI_ERST_OFFSET = XHCI_REGION_CMD_RING + XHCI_CMD_RING_BYTES"

lemmas region_defs =
  XHCI_REGION_SMALL_OBJECTS_def XHCI_REGION_CMD_RING_def XHCI_REGION_EVENT_RING_def
  XHCI_REGION_INPUT_CONTEXT_def XHCI_REGION_DEVICE_CONTEXTS_def XHCI_REGION_DEVICE_CONTEXTS_BYTES_def
  XHCI_REGION_EP0_RINGS_def XHCI_REGION_EP0_RINGS_BYTES_def XHCI_REGION_POOL_RINGS_def
  XHCI_REGION_POOL_RINGS_BYTES_def XHCI_REGION_SCRATCHPAD_PAGES_def
  XHCI_REGION_SCRATCHPAD_PAGES_BYTES_def XHCI_HC_RESOURCES_SIZE_def XHCI_DCBAA_OFFSET_def
  XHCI_SPA_OFFSET_def XHCI_CMD_RING_OFFSET_def XHCI_ERST_OFFSET_def

datatype layout_status =
    XHCI_LAYOUT_OK
  | XHCI_LAYOUT_BAD_CONTEXT_SIZE
  | XHCI_LAYOUT_BAD_PAGE_SIZE
  | XHCI_LAYOUT_TOO_MANY_SLOTS
  | XHCI_LAYOUT_TOO_MANY_SCRATCHPAD
  | XHCI_LAYOUT_NO_SLOTS
  | XHCI_LAYOUT_UNALIGNED_BASE
  | XHCI_LAYOUT_OVERFLOW
  | XHCI_LAYOUT_BAD_INDEX

record xhci_hc_layout =
  ContextSize :: ulong
  MaxSlotsEn :: ulong
  ScratchpadCount :: ulong
  DcbaaOffset :: ulong
  DcbaaBytes :: ulong
  ScratchpadArrayOffset :: ulong
  ScratchpadArrayBytes :: ulong
  CommandRingOffset :: ulong
  CommandRingTrbs :: ulong
  ErstOffset :: ulong
  ErstEntries :: ulong
  EventRingOffset :: ulong
  EventRingTrbs :: ulong
  InputContextOffset :: ulong
  InputContextBytes :: ulong
  DeviceContextOffset :: ulong
  DeviceContextStride :: ulong
  DeviceContextBytes :: ulong
  Ep0RingOffset :: ulong
  Ep0RingStride :: ulong
  Ep0RingTrbs :: ulong
  PoolRingOffset :: ulong
  PoolRingStride :: ulong
  PoolRingTrbs :: ulong
  PoolRingCount :: ulong
  ScratchpadPageOffset :: ulong
  ScratchpadPageStride :: ulong
  TotalBytes :: ulong

section \<open>The carve\<close>

definition xhciCrossesBoundary :: "ulong \<Rightarrow> ulong \<Rightarrow> ulong \<Rightarrow> bool" where
  "xhciCrossesBoundary offset sz boundary =
     (if sz = 0 then False else offset div boundary \<noteq> (offset + sz - 1) div boundary)"

definition xhciIsAligned :: "ulong \<Rightarrow> ulong \<Rightarrow> bool" where
  "xhciIsAligned offset alignment \<longleftrightarrow> offset AND (alignment - 1) = 0"

text \<open>The assignments to the layout, in the order of the source.\<close>

definition layout_fill :: "ulong \<Rightarrow> ulong \<Rightarrow> ulong \<Rightarrow> xhci_hc_layout" where
  "layout_fill contextSize maxSlotsEn scratchpadCount =
     \<lparr>ContextSize = contextSize, MaxSlotsEn = maxSlotsEn, ScratchpadCount = scratchpadCount,
      DcbaaOffset = XHCI_DCBAA_OFFSET, DcbaaBytes = (maxSlotsEn + 1) * XHCI_DCBAA_ENTRY_BYTES,
      ScratchpadArrayOffset = XHCI_SPA_OFFSET,
      ScratchpadArrayBytes = scratchpadCount * XHCI_SCRATCHPAD_ENTRY_BYTES,
      CommandRingOffset = XHCI_CMD_RING_OFFSET, CommandRingTrbs = XHCI_CMD_RING_TRBS,
      ErstOffset = XHCI_ERST_OFFSET, ErstEntries = 1,
      EventRingOffset = XHCI_REGION_EVENT_RING, EventRingTrbs = XHCI_EVENT_RING_TRBS,
      InputContextOffset = XHCI_REGION_INPUT_CONTEXT,
      InputContextBytes = XHCI_INPUT_CONTEXT_ENTRIES * contextSize,
      DeviceContextOffset = XHCI_REGION_DEVICE_CONTEXTS,
      DeviceContextStride = XHCI_DEVICE_CONTEXT_STRIDE,
      DeviceContextBytes = XHCI_DEVICE_CONTEXT_ENTRIES * contextSize,
      Ep0RingOffset = XHCI_REGION_EP0_RINGS, Ep0RingStride = XHCI_EP0_RING_STRIDE,
      Ep0RingTrbs = XHCI_EP0_RING_TRBS,
      PoolRingOffset = XHCI_REGION_POOL_RINGS, PoolRingStride = XHCI_POOL_RING_STRIDE,
      PoolRingTrbs = XHCI_POOL_RING_TRBS, PoolRingCount = XHCI_MAX_POOL_RINGS,
      ScratchpadPageOffset = XHCI_REGION_SCRATCHPAD_PAGES, ScratchpadPageStride = XHCI_PAGE_SIZE,
      TotalBytes = XHCI_HC_RESOURCES_SIZE\<rparr>"

definition layout_fits :: "xhci_hc_layout \<Rightarrow> bool" where
  "layout_fits l \<longleftrightarrow>
     \<not> (DcbaaBytes l > XHCI_DCBAA_RESERVED \<or> ScratchpadArrayBytes l > XHCI_SPA_RESERVED \<or>
        InputContextBytes l > XHCI_INPUT_CONTEXT_RESERVED \<or>
        DeviceContextBytes l > XHCI_DEVICE_CONTEXT_STRIDE)"

definition layout_aligned :: "xhci_hc_layout \<Rightarrow> bool" where
  "layout_aligned l \<longleftrightarrow>
     xhciIsAligned (DcbaaOffset l) 64 \<and> xhciIsAligned (ScratchpadArrayOffset l) 64 \<and>
     xhciIsAligned (CommandRingOffset l) 64 \<and> xhciIsAligned (ErstOffset l) 64 \<and>
     xhciIsAligned (EventRingOffset l) 64 \<and> xhciIsAligned (InputContextOffset l) 64"

definition layout_uncrossed :: "xhci_hc_layout \<Rightarrow> bool" where
  "layout_uncrossed l \<longleftrightarrow>
     \<not> (xhciCrossesBoundary (DcbaaOffset l) (DcbaaBytes l) XHCI_PAGE_SIZE \<or>
        xhciCrossesBoundary (ScratchpadArrayOffset l) (ScratchpadArrayBytes l) XHCI_PAGE_SIZE \<or>
        xhciCrossesBoundary (InputContextOffset l) (InputContextBytes l) XHCI_PAGE_SIZE \<or>
        xhciCrossesBoundary (CommandRingOffset l) XHCI_CMD_RING_BYTES 65536 \<or>
        xhciCrossesBoundary (EventRingOffset l) XHCI_EVENT_RING_BYTES 65536)"

definition layout_ordered :: "xhci_hc_layout \<Rightarrow> bool" where
  "layout_ordered l \<longleftrightarrow>
     \<not> (DcbaaOffset l + XHCI_DCBAA_RESERVED > ScratchpadArrayOffset l \<or>
        ScratchpadArrayOffset l + XHCI_SPA_RESERVED > CommandRingOffset l \<or>
        CommandRingOffset l + XHCI_CMD_RING_BYTES > ErstOffset l \<or>
        ErstOffset l + XHCI_ERST_RESERVED > EventRingOffset l \<or>
        EventRingOffset l + XHCI_EVENT_RING_BYTES > InputContextOffset l \<or>
        InputContextOffset l + XHCI_INPUT_CONTEXT_RESERVED > DeviceContextOffset l \<or>
        DeviceContextOffset l + XHCI_REGION_DEVICE_CONTEXTS_BYTES > Ep0RingOffset l \<or>
        Ep0RingOffset l + XHCI_REGION_EP0_RINGS_BYTES > PoolRingOffset l \<or>
        PoolRingOffset l + XHCI_REGION_POOL_RINGS_BYTES > ScratchpadPageOffset l \<or>
        ScratchpadPageOffset l + XHCI_REGION_SCRATCHPAD_PAGES_BYTES > TotalBytes l)"

definition layout_slot_ok :: "xhci_hc_layout \<Rightarrow> ulong \<Rightarrow> bool" where
  "layout_slot_ok l i =
     (let dc = DeviceContextOffset l + i * DeviceContextStride l;
          ep0 = Ep0RingOffset l + i * Ep0RingStride l
      in if \<not> xhciIsAligned dc 64 \<or> \<not> xhciIsAligned ep0 64 then False
         else if xhciCrossesBoundary dc (DeviceContextBytes l) XHCI_PAGE_SIZE \<or>
                 xhciCrossesBoundary ep0 (Ep0RingStride l) 65536 then False
         else if dc + DeviceContextStride l >
                 XHCI_REGION_DEVICE_CONTEXTS + XHCI_REGION_DEVICE_CONTEXTS_BYTES then False
         else if ep0 + Ep0RingStride l > XHCI_REGION_EP0_RINGS + XHCI_REGION_EP0_RINGS_BYTES then False
         else True)"

definition layout_pool_ok :: "xhci_hc_layout \<Rightarrow> ulong \<Rightarrow> bool" where
  "layout_pool_ok l i =
     (let pr = PoolRingOffset l + i * PoolRingStride l
      in if \<not> xhciIsAligned pr 64 \<or> xhciCrossesBoundary pr (PoolRingStride l) 65536 then False
         else if pr + PoolRingStride l > XHCI_REGION_POOL_RINGS + XHCI_REGION_POOL_RINGS_BYTES then False
         else True)"

definition layout_scratchpad_ok :: "xhci_hc_layout \<Rightarrow> ulong \<Rightarrow> bool" where
  "layout_scratchpad_ok l i =
     (let sp = ScratchpadPageOffset l + i * ScratchpadPageStride l
      in if \<not> xhciIsAligned sp XHCI_PAGE_SIZE then False
         else if sp + XHCI_PAGE_SIZE > TotalBytes l then False
         else True)"

text \<open>A counting loop from 0 whose body may leave with an error.\<close>

definition for_all_below :: "ulong \<Rightarrow> (ulong \<Rightarrow> bool) \<Rightarrow> bool" where
  "for_all_below n ok \<longleftrightarrow> list_all (\<lambda>i. ok (of_nat i)) [0..<unat n]"

definition XhciComputeLayout ::
    "ulong \<Rightarrow> ulong \<Rightarrow> ulong \<Rightarrow> ulong \<Rightarrow> xhci_hc_layout \<Rightarrow> layout_status \<times> xhci_hc_layout" where
  "XhciComputeLayout contextSize hwMaxSlots scratchpadCount hcPageSizeMask layout =
     (if contextSize \<noteq> XHCI_CONTEXT_SIZE_SMALL \<and> contextSize \<noteq> XHCI_CONTEXT_SIZE_LARGE
      then (XHCI_LAYOUT_BAD_CONTEXT_SIZE, layout)
      else if hcPageSizeMask AND 1 = 0 then (XHCI_LAYOUT_BAD_PAGE_SIZE, layout)
      else if hwMaxSlots = 0 then (XHCI_LAYOUT_NO_SLOTS, layout)
      else if scratchpadCount > XHCI_MAX_SCRATCHPAD then (XHCI_LAYOUT_TOO_MANY_SCRATCHPAD, layout)
      else
        let maxSlotsEn = (if hwMaxSlots > XHCI_MAX_SLOTS then XHCI_MAX_SLOTS else hwMaxSlots);
            l = layout_fill contextSize maxSlotsEn scratchpadCount
        in if \<not> layout_fits l then (XHCI_LAYOUT_OVERFLOW, l)
           else if \<not> layout_aligned l then (XHCI_LAYOUT_OVERFLOW, l)
           else if \<not> layout_uncrossed l then (XHCI_LAYOUT_OVERFLOW, l)
           else if \<not> layout_ordered l then (XHCI_LAYOUT_OVERFLOW, l)
           else if \<not> for_all_below maxSlotsEn (layout_slot_ok l) then (XHCI_LAYOUT_OVERFLOW, l)
           else if \<not> for_all_below (PoolRingCount l) (layout_pool_ok l) then (XHCI_LAYOUT_OVERFLOW, l)
           else if \<not> for_all_below scratchpadCount (layout_scratchpad_ok l)
           then (XHCI_LAYOUT_OVERFLOW, l)
           else (XHCI_LAYOUT_OK, l))"

section \<open>Offset accessors\<close>

definition XhciDeviceContextOffset :: "xhci_hc_layout \<Rightarrow> ulong \<Rightarrow> layout_status + ulong" where
  "XhciDeviceContextOffset layout slotId =
     (if slotId = 0 \<or> slotId > MaxSlotsEn layout then Inl XHCI_LAYOUT_BAD_INDEX
      else Inr (DeviceContextOffset layout + (slotId - 1) * DeviceContextStride layout))"

definition XhciEp0RingOffset :: "xhci_hc_layout \<Rightarrow> ulong \<Rightarrow> layout_status + ulong" where
  "XhciEp0RingOffset layout slotId =
     (if slotId = 0 \<or> slotId > MaxSlotsEn layout then Inl XHCI_LAYOUT_BAD_INDEX
      else Inr (Ep0RingOffset layout + (slotId - 1) * Ep0RingStride layout))"

definition XhciPoolRingOffset :: "xhci_hc_layout \<Rightarrow> ulong \<Rightarrow> layout_status + ulong" where
  "XhciPoolRingOffset layout poolIndex =
     (if poolIndex \<ge> PoolRingCount layout then Inl XHCI_LAYOUT_BAD_INDEX
      else Inr (PoolRingOffset layout + poolIndex * PoolRingStride layout))"

definition XhciScratchpadPageOffset :: "xhci_hc_layout \<Rightarrow> ulong \<Rightarrow> layout_status + ulong" where
  "XhciScratchpadPageOffset layout index =
     (if index \<ge> ScratchpadCount layout then Inl XHCI_LAYOUT_BAD_INDEX
      else Inr (ScratchpadPageOffset layout + index * ScratchpadPageStride layout))"

definition XhciSlotContextOffset :: "xhci_hc_layout \<Rightarrow> ulong \<Rightarrow> layout_status + ulong" where
  "XhciSlotContextOffset layout slotId = XhciDeviceContextOffset layout slotId"

definition XhciEndpointContextOffset :: "xhci_hc_layout \<Rightarrow> ulong \<Rightarrow> ulong \<Rightarrow> layout_status + ulong" where
  "XhciEndpointContextOffset layout slotId dci =
     (if dci = 0 \<or> dci > XHCI_MAX_DCI then Inl XHCI_LAYOUT_BAD_INDEX
      else
        (case XhciDeviceContextOffset layout slotId of
           Inl status \<Rightarrow> Inl status
         | Inr base \<Rightarrow> Inr (base + dci * ContextSize layout)))"

definition XhciInputControlContextOffset :: "xhci_hc_layout \<Rightarrow> layout_status + ulong" where
  "XhciInputControlContextOffset layout = Inr (InputContextOffset layout)"

definition XhciInputSlotContextOffset :: "xhci_hc_layout \<Rightarrow> layout_status + ulong" where
  "XhciInputSlotContextOffset layout = Inr (InputContextOffset layout + ContextSize layout)"

definition XhciInputEndpointContextOffset :: "xhci_hc_layout \<Rightarrow> ulong \<Rightarrow> layout_status + ulong" where
  "XhciInputEndpointContextOffset layout dci =
     (if dci = 0 \<or> dci > XHCI_MAX_DCI then Inl XHCI_LAYOUT_BAD_INDEX
      else Inr (InputContextOffset layout + (dci + 1) * ContextSize layout))"

text \<open>\<open>ULONG_PTR\<close> is 32 bits wide on the one target, 32-bit x86.\<close>

definition XhciCheckResourceBase :: "ulong \<Rightarrow> ulong \<Rightarrow> layout_status" where
  "XhciCheckResourceBase startVA startPA =
     (if startVA = 0 \<or> startPA = 0 then XHCI_LAYOUT_UNALIGNED_BASE
      else if startVA AND (XHCI_PAGE_SIZE - 1) \<noteq> 0 then XHCI_LAYOUT_UNALIGNED_BASE
      else if startPA AND (XHCI_PAGE_SIZE - 1) \<noteq> 0 then XHCI_LAYOUT_UNALIGNED_BASE
      else if startPA > 0xFFFFFFFF - (XHCI_HC_RESOURCES_SIZE - 1) then XHCI_LAYOUT_OVERFLOW
      else XHCI_LAYOUT_OK)"

definition XhciCommonBufferAllocationBytes :: "ulong \<Rightarrow> ulong" where
  "XhciCommonBufferAllocationBytes resourcesSize =
     (if resourcesSize = 0 then 0
      else if resourcesSize > 0xFFFFFFFF - XHCI_USBPORT_CB_HEADER_BYTES - (XHCI_PAGE_SIZE - 1) then 0
      else
        let want = resourcesSize + XHCI_USBPORT_CB_HEADER_BYTES
        in (want + (XHCI_PAGE_SIZE - 1)) AND NOT (XHCI_PAGE_SIZE - 1))"

section \<open>The checks never fire\<close>

lemma unat_region [simp]:
  "unat XHCI_DCBAA_OFFSET = 0" "unat XHCI_SPA_OFFSET = 2048" "unat XHCI_CMD_RING_OFFSET = 4096"
  "unat XHCI_ERST_OFFSET = 5120" "unat XHCI_REGION_EVENT_RING = 8192"
  "unat XHCI_REGION_INPUT_CONTEXT = 12288" "unat XHCI_REGION_DEVICE_CONTEXTS = 16384"
  "unat XHCI_REGION_EP0_RINGS = 81920" "unat XHCI_REGION_POOL_RINGS = 114688"
  "unat XHCI_REGION_SCRATCHPAD_PAGES = 147456" "unat XHCI_HC_RESOURCES_SIZE = 409600"
  by (simp_all add: region_defs)

lemma list_all_upt_less:
  "list_all P [0..<m] \<Longrightarrow> n \<le> m \<Longrightarrow> list_all P [0..<n]"
  by (auto simp: list_all_iff)

lemma for_all_below_mono:
  "for_all_below m ok \<Longrightarrow> unat n \<le> unat m \<Longrightarrow> for_all_below n ok"
  unfolding for_all_below_def by (rule list_all_upt_less)

lemma slots_ok:
  "for_all_below 32 (layout_slot_ok (layout_fill 32 0 0))"
  "for_all_below 32 (layout_slot_ok (layout_fill 64 0 0))"
  "for_all_below 32 (layout_pool_ok (layout_fill 0 0 0))"
  "for_all_below 64 (layout_scratchpad_ok (layout_fill 0 0 0))"
  by code_simp+

lemma slot_checks_indep:
  "layout_slot_ok (layout_fill cs n sp) = layout_slot_ok (layout_fill cs 0 0)"
  "layout_pool_ok (layout_fill cs n sp) = layout_pool_ok (layout_fill 0 0 0)"
  "layout_scratchpad_ok (layout_fill cs n sp) = layout_scratchpad_ok (layout_fill 0 0 0)"
  by (simp_all add: fun_eq_iff layout_slot_ok_def layout_pool_ok_def layout_scratchpad_ok_def layout_fill_def)

lemma small_layout_bytes:
  assumes "unat n \<le> 32" and "unat sp \<le> 64"
  shows "unat ((n + 1) * 8 :: ulong) = (unat n + 1) * 8" "unat (sp * 8 :: ulong) = unat sp * 8"
proof -
  have "unat (n + 1) = unat n + 1" using assms by (subst unat_add_no_wrap) simp_all
  then show "unat ((n + 1) * 8 :: ulong) = (unat n + 1) * 8"
    using assms by (subst unat_mult_no_wrap) simp_all
  show "unat (sp * 8 :: ulong) = unat sp * 8"
    using assms by (subst unat_mult_no_wrap) simp_all
qed

lemma word_div_same:
  assumes "unat (a :: ulong) div b = k" and "(unat a + unat s - 1) div b = k" and "unat s \<noteq> 0"
    and "unat a + unat s < 4294967296"
  shows "unat (a + s - 1) div b = k"
proof -
  have "unat (a + s) = unat a + unat s" by (rule unat_add_no_wrap [OF assms(4)])
  then have "unat (a + s - 1) = unat a + unat s - 1"
    using assms(3) by (subst unat_sub_no_wrap) simp_all
  then show ?thesis using assms(2) by simp
qed

lemma not_crosses:
  assumes "unat off + unat sz < 4294967296" "unat off div unat b = k" "(unat off + unat sz - 1) div unat b = k"
  shows "\<not> xhciCrossesBoundary off sz b"
proof (cases "unat sz = 0")
  case True
  then have "sz = 0" using unat_eq_iff [of sz 0] by simp
  then show ?thesis by (simp add: xhciCrossesBoundary_def)
next
  case False
  have "unat (off div b) = k" "unat ((off + sz - 1) div b) = k"
    using assms word_div_same [OF assms(2,3) False assms(1)] by (simp_all add: unat_div)
  then show ?thesis using unat_eq_iff [of "off div b" "(off + sz - 1) div b"]
    by (simp add: xhciCrossesBoundary_def)
qed

lemma fill_checks:
  assumes cs: "cs = 32 \<or> cs = 64" and n: "unat n \<le> 32" and sp: "unat sp \<le> 64"
  shows "layout_fits (layout_fill cs n sp)" "layout_aligned (layout_fill cs n sp)"
    "layout_uncrossed (layout_fill cs n sp)" "layout_ordered (layout_fill cs n sp)"
proof -
  note b = small_layout_bytes [OF n sp]
  show "layout_fits (layout_fill cs n sp)"
    using cs n sp b by (auto simp: layout_fits_def layout_fill_def word_less_nat_alt)
  show "layout_aligned (layout_fill cs n sp)" "layout_ordered (layout_fill cs n sp)"
    by (simp_all add: layout_aligned_def layout_ordered_def layout_fill_def xhciIsAligned_def region_defs)
  have "\<not> xhciCrossesBoundary XHCI_DCBAA_OFFSET ((n + 1) * 8) 4096"
    by (rule not_crosses [of _ _ _ 0]) (use b n in simp_all)
  moreover have "\<not> xhciCrossesBoundary XHCI_SPA_OFFSET (sp * 8) 4096"
    by (rule not_crosses [of _ _ _ 0]) (use b sp in simp_all)
  moreover have "\<not> xhciCrossesBoundary XHCI_REGION_INPUT_CONTEXT (33 * cs) 4096"
    "\<not> xhciCrossesBoundary XHCI_CMD_RING_OFFSET 1024 65536"
    "\<not> xhciCrossesBoundary XHCI_REGION_EVENT_RING 4096 65536"
    using cs by (auto simp: xhciCrossesBoundary_def region_defs)
  ultimately show "layout_uncrossed (layout_fill cs n sp)"
    by (simp add: layout_uncrossed_def layout_fill_def)
qed

lemma compute_layout_cases:
  "XhciComputeLayout cs hw sp pageMask old =
     (if cs \<noteq> 32 \<and> cs \<noteq> 64 then (XHCI_LAYOUT_BAD_CONTEXT_SIZE, old)
      else if \<not> bit pageMask 0 then (XHCI_LAYOUT_BAD_PAGE_SIZE, old)
      else if hw = 0 then (XHCI_LAYOUT_NO_SLOTS, old)
      else if 64 < sp then (XHCI_LAYOUT_TOO_MANY_SCRATCHPAD, old)
      else (XHCI_LAYOUT_OK, layout_fill cs (min hw 32) sp))"
proof (cases "(cs = 32 \<or> cs = 64) \<and> sp \<le> 64")
  case False
  then show ?thesis by (auto simp: XhciComputeLayout_def not_le)
next
  case True
  define n :: ulong where "n = min hw 32"
  have n: "unat n \<le> 32" by (simp add: n_def min_def word_le_nat_alt)
  have sp: "unat sp \<le> 64" using True by (simp add: word_le_nat_alt)
  let ?l = "layout_fill cs n sp"
  have "for_all_below n (layout_slot_ok ?l)" "for_all_below (PoolRingCount ?l) (layout_pool_ok ?l)"
      "for_all_below sp (layout_scratchpad_ok ?l)"
    using True n sp slots_ok for_all_below_mono slot_checks_indep
    by (auto simp: layout_fill_def simp del: One_nat_def)
  moreover have "(if hw > 32 then 32 else hw) = n" by (auto simp: n_def min_def)
  ultimately show ?thesis
    using True fill_checks [OF _ n sp, of cs] by (simp add: XhciComputeLayout_def Let_def n_def [symmetric])
qed

text \<open>
  The carve succeeds for every controller within the declared limits, and its own checks never
  fire: with a context size of 32 or 64, the 4-kilobyte page size on offer, at least one slot and
  at most 64 scratchpad pages, \<open>XhciComputeLayout\<close> answers OK with the slot count clamped to 32;
  each other input is refused for the first reason that applies, with the layout untouched. The
  overflow refusal is unreachable.
\<close>

theorem compute_layout_exact:
  "XhciComputeLayout cs hw sp pageMask old =
     (if cs \<noteq> 32 \<and> cs \<noteq> 64 then (XHCI_LAYOUT_BAD_CONTEXT_SIZE, old)
      else if \<not> bit pageMask 0 then (XHCI_LAYOUT_BAD_PAGE_SIZE, old)
      else if hw = 0 then (XHCI_LAYOUT_NO_SLOTS, old)
      else if 64 < sp then (XHCI_LAYOUT_TOO_MANY_SCRATCHPAD, old)
      else (XHCI_LAYOUT_OK, layout_fill cs (min hw 32) sp))"
  by (rule compute_layout_cases)

section \<open>What the hardware finds in the block\<close>

text \<open>
  The objects of a carve as (offset, length) pairs, through the accessors the driver uses: the
  six single objects, then per-slot Device Contexts and EP0 rings, the pool rings and the
  scratchpad pages.
\<close>

definition object_at :: "layout_status + ulong \<Rightarrow> ulong \<Rightarrow> (nat \<times> nat) list" where
  "object_at r len = (case r of Inl _ \<Rightarrow> [] | Inr off \<Rightarrow> [(unat off, unat len)])"

definition layout_objects :: "xhci_hc_layout \<Rightarrow> (nat \<times> nat) list" where
  "layout_objects l =
     [(unat (DcbaaOffset l), unat (DcbaaBytes l)),
      (unat (ScratchpadArrayOffset l), unat (ScratchpadArrayBytes l)),
      (unat (CommandRingOffset l), 16 * unat (CommandRingTrbs l)),
      (unat (ErstOffset l), 16 * unat (ErstEntries l)),
      (unat (EventRingOffset l), 16 * unat (EventRingTrbs l)),
      (unat (InputContextOffset l), unat (InputContextBytes l))] @
     concat (map (\<lambda>i. object_at (XhciDeviceContextOffset l (of_nat i)) (DeviceContextBytes l)) [0..<256]) @
     concat (map (\<lambda>i. object_at (XhciEp0RingOffset l (of_nat i)) (Ep0RingStride l)) [0..<256]) @
     concat (map (\<lambda>i. object_at (XhciPoolRingOffset l (of_nat i)) (PoolRingStride l)) [0..<256]) @
     concat (map (\<lambda>i. object_at (XhciScratchpadPageOffset l (of_nat i)) XHCI_PAGE_SIZE) [0..<256])"

definition apart :: "nat \<times> nat \<Rightarrow> nat \<times> nat \<Rightarrow> bool" where
  "apart a b \<longleftrightarrow> fst a + snd a \<le> fst b"

definition in_one_page :: "nat \<Rightarrow> nat \<times> nat \<Rightarrow> bool" where
  "in_one_page base ob \<longleftrightarrow>
     (base + fst ob) mod 64 = 0 \<and>
     (snd ob = 0 \<or> (base + fst ob) div 4096 = (base + fst ob + snd ob - 1) div 4096)"

text \<open>An array of equally spaced objects, selected by an index range.\<close>

definition spaced :: "nat \<Rightarrow> nat \<Rightarrow> nat \<Rightarrow> nat \<Rightarrow> (nat \<times> nat) list" where
  "spaced off stride len n = map (\<lambda>i. (off + i * stride, len)) [0..<n]"

lemma concat_map_empty: "\<forall>i \<in> set xs. f i = [] \<Longrightarrow> concat (map f xs) = []"
  by (induction xs) auto

lemma concat_map_spaced:
  assumes "\<And>i. i < a \<Longrightarrow> f i = []" "\<And>i. a \<le> i \<Longrightarrow> i < a + n \<Longrightarrow> f i = [(off + (i - a) * stride, len)]"
    and "\<And>i. a + n \<le> i \<Longrightarrow> i < k \<Longrightarrow> f i = []" and "a + n \<le> k"
  shows "concat (map f [0..<k]) = spaced off stride len n"
proof -
  have "[0..<k] = [0..<a] @ map (\<lambda>i. i + a) [0..<n] @ [a + n..<k]"
    using upt_add_eq_append [of 0 "a + n" "k - (a + n)"] upt_add_eq_append [of 0 a n] assms(4)
      map_add_upt [of a n]
    by (simp add: add.commute)
  moreover have "concat (map f (map (\<lambda>i. i + a) [0..<n])) = spaced off stride len n"
  proof -
    have "map f (map (\<lambda>i. i + a) [0..<n]) = map (\<lambda>ob. [ob]) (spaced off stride len n)"
      unfolding spaced_def using assms(2) by simp
    then show ?thesis by simp
  qed
  moreover have "concat (map f [0..<a]) = []" "concat (map f [a + n..<k]) = []"
    using assms(1,3) by (auto intro!: concat_map_empty)
  ultimately show ?thesis by (simp only: map_append concat_append append_Nil append_Nil2)
qed

lemma unat_small: "i < 256 \<Longrightarrow> unat (of_nat i :: ulong) = i"
  by (simp add: unat_of_nat take_bit_nat_eq_self)

lemma unat_strided:
  assumes "unat (i :: ulong) < 256" and "unat off + unat i * unat stride < 4294967296" "unat stride < 65536"
  shows "unat (off + i * stride) = unat off + unat i * unat stride"
proof -
  have "unat (i * stride) = unat i * unat stride"
    using assms(2) by (intro unat_mult_no_wrap) simp
  then show ?thesis using assms(2) by (subst unat_add_no_wrap) simp_all
qed

lemma objects_of_fill:
  assumes cs: "cs = 32 \<or> cs = 64" and n: "unat n \<le> 32" and sp: "unat sp \<le> 64"
  shows "layout_objects (layout_fill cs n sp) =
     [(0, (unat n + 1) * 8), (2048, unat sp * 8), (4096, 1024), (5120, 16), (8192, 4096),
      (12288, 33 * unat cs)] @
     spaced 16384 2048 (32 * unat cs) (unat n) @ spaced 81920 1024 1024 (unat n) @
     spaced 114688 1024 1024 32 @ spaced 147456 4096 4096 (unat sp)"
proof -
  let ?l = "layout_fill cs n sp"
  have csz: "unat (33 * cs) = 33 * unat cs" "unat (32 * cs) = 32 * unat cs" using cs by auto
  have pred: "unat (of_nat i - 1 :: ulong) = i - 1" if "1 \<le> i" "i < 256" for i
    using that unat_small [of i] by (subst unat_sub_no_wrap) simp_all
  have zero: "of_nat i = (0 :: ulong) \<longleftrightarrow> i = 0" if "i < 256" for i
    using that unat_small [of i] unat_eq_iff [of "of_nat i" 0] by simp
  have at: "unat (off + (of_nat i - 1) * stride) = unat off + (i - 1) * unat stride"
    if "1 \<le> i" "i < 256" "unat off < 1048576" "unat stride < 4096" for i and off stride :: ulong
  proof -
    have "(i - 1) * unat stride \<le> 256 * 4096" using that by (intro mult_mono) simp_all
    then show ?thesis using unat_strided [of "of_nat i - 1" off stride] pred [OF that(1,2)] that by simp
  qed
  have dc_at: "unat (XHCI_REGION_DEVICE_CONTEXTS + (of_nat i - 1) * 2048) = 16384 + (i - 1) * 2048"
      "unat (XHCI_REGION_EP0_RINGS + (of_nat i - 1) * 1024) = 81920 + (i - 1) * 1024"
    if "1 \<le> i" "i < 256" for i
    using at [OF that, of XHCI_REGION_DEVICE_CONTEXTS 2048] at [OF that, of XHCI_REGION_EP0_RINGS 1024]
    by simp_all
  have dc: "concat (map (\<lambda>i. object_at (XhciDeviceContextOffset ?l (of_nat i)) (32 * cs)) [0..<256]) =
      spaced 16384 2048 (32 * unat cs) (unat n)"
    by (rule concat_map_spaced [where a = 1])
      (use n csz dc_at(1) zero unat_small in \<open>auto simp: XhciDeviceContextOffset_def layout_fill_def
         object_at_def word_less_nat_alt unat_strided\<close>)
  have ep: "concat (map (\<lambda>i. object_at (XhciEp0RingOffset ?l (of_nat i)) 1024) [0..<256]) =
      spaced 81920 1024 1024 (unat n)"
    by (rule concat_map_spaced [where a = 1])
      (use n dc_at(2) zero unat_small in \<open>auto simp: XhciEp0RingOffset_def layout_fill_def
         object_at_def word_less_nat_alt unat_strided\<close>)
  have pr: "concat (map (\<lambda>i. object_at (XhciPoolRingOffset ?l (of_nat i)) 1024) [0..<256]) =
      spaced 114688 1024 1024 32"
    by (rule concat_map_spaced [where a = 0])
      (use unat_small in \<open>auto simp: XhciPoolRingOffset_def layout_fill_def
         object_at_def word_le_nat_alt unat_strided\<close>)
  have sc: "concat (map (\<lambda>i. object_at (XhciScratchpadPageOffset ?l (of_nat i)) 4096) [0..<256]) =
      spaced 147456 4096 4096 (unat sp)"
    by (rule concat_map_spaced [where a = 0])
      (use sp unat_small in \<open>auto simp: XhciScratchpadPageOffset_def layout_fill_def
         object_at_def word_le_nat_alt unat_strided\<close>)
  have lens: "DeviceContextBytes ?l = 32 * cs" "Ep0RingStride ?l = 1024" "PoolRingStride ?l = 1024"
    by (simp_all add: layout_fill_def)
  show ?thesis
    unfolding layout_objects_def lens dc ep pr sc
    using small_layout_bytes [OF n sp] csz by (simp add: layout_fill_def)
qed

lemma spaced_apart:
  assumes "len \<le> stride"
  shows "sorted_wrt apart (spaced off stride len n)"
proof -
  have "apart (off + i * stride, len) (off + j * stride, len)" if "i < j" for i j
  proof -
    have "Suc i * stride \<le> j * stride" using that by (intro mult_le_mono1) simp
    then show ?thesis using assms by (simp add: apart_def)
  qed
  then show ?thesis by (auto simp: spaced_def sorted_wrt_map sorted_wrt_iff_nth_less)
qed

lemma spaced_range:
  assumes "ob \<in> set (spaced off stride len n)" and "len \<le> stride"
  shows "off \<le> fst ob" "fst ob + snd ob \<le> off + n * stride"
proof -
  obtain i where i: "i < n" "ob = (off + i * stride, len)" using assms(1) by (auto simp: spaced_def)
  have "Suc i * stride \<le> n * stride" using i(1) by (intro mult_le_mono1) simp
  then show "off \<le> fst ob" "fst ob + snd ob \<le> off + n * stride" using i(2) assms(2) by auto
qed

lemma chunk_in_one_page:
  assumes "(k :: nat) dvd 4096" "64 dvd k" "k dvd base + off" "len \<le> k"
  shows "in_one_page base (off, len)"
proof -
  obtain m where m: "4096 = k * m" using assms(1) by (elim dvdE)
  obtain q where q: "base + off = k * q" using assms(3) by (elim dvdE)
  have pos: "0 < k" "0 < m" using m by (auto intro: gr0I)
  have "(k * q + len - 1) div k = q" if "len \<noteq> 0"
    by (rule div_nat_eqI) (use that assms(4) pos in auto)
  then have "(k * q + len - 1) div (k * m) = q div m" if "len \<noteq> 0"
    using that by (metis div_mult2_eq)
  moreover have "(k * q) div (k * m) = q div m" using pos by simp
  ultimately have step: "(k * q) div (k * m) = (k * q + len - 1) div (k * m)" if "len \<noteq> 0"
    using that by simp
  have "(base + off) div 4096 = (base + off + len - 1) div 4096" if "len \<noteq> 0"
    unfolding q m by (rule step [OF that])
  moreover have "(base + off) mod 64 = 0" using dvd_trans [OF assms(2,3)] by simp
  ultimately show ?thesis by (auto simp: in_one_page_def)
qed

lemma spaced_in_one_page:
  assumes "stride dvd 4096" "64 dvd stride" "4096 dvd base" "stride dvd off" "len \<le> stride"
  shows "\<forall>ob \<in> set (spaced off stride len n). in_one_page base ob"
proof
  fix ob assume "ob \<in> set (spaced off stride len n)"
  then obtain i where ob: "ob = (off + i * stride, len)" by (auto simp: spaced_def)
  have "stride dvd base + (off + i * stride)"
    using assms(1,3,4) dvd_trans [of stride 4096 base] by simp
  then show "in_one_page base ob"
    unfolding ob using chunk_in_one_page [OF assms(1,2) _ assms(5)] by blast
qed

text \<open>
  C10: the carve is sound in physical memory. For every layout \<open>XhciComputeLayout\<close> accepts and every
  base \<open>XhciCheckResourceBase\<close> accepts, the objects the hardware will use lie inside the block, do
  not overlap, end below 4 gigabytes, are 64-byte aligned at their physical address, and none
  crosses a page (hence none crosses a 64-kilobyte boundary either).
\<close>

theorem layout_sound:
  assumes "XhciComputeLayout cs hw sp pageMask old = (XHCI_LAYOUT_OK, l)"
    and "XhciCheckResourceBase va pa = XHCI_LAYOUT_OK"
  shows "sorted_wrt apart (layout_objects l) \<and>
    (\<forall>ob \<in> set (layout_objects l).
       fst ob + snd ob \<le> unat (TotalBytes l) \<and> unat pa + fst ob + snd ob \<le> 2 ^ 32 \<and>
       in_one_page (unat pa) ob)"
proof -
  from assms(1) obtain n where l: "l = layout_fill cs n sp" and cs: "cs = 32 \<or> cs = 64"
    and n: "unat n \<le> 32" and sp: "unat sp \<le> 64"
    unfolding compute_layout_cases
    by (auto simp: word_le_nat_alt not_less min_def split: if_splits)
  have cs': "unat cs = 32 \<or> unat cs = 64" using cs by auto
  from assms(2) have "pa AND 4095 = 0" and top: "unat pa \<le> 4294967295 - 409599"
    by (auto simp: XhciCheckResourceBase_def word_le_nat_alt not_less region_defs split: if_splits)
  then have page: "4096 dvd unat pa"
    using unat_and_mask [of pa 12] by (simp add: mask_eq_exp_minus_1 dvd_eq_mod_eq_0)
  define singles :: "(nat \<times> nat) list" where "singles = [(0, (unat n + 1) * 8), (2048, unat sp * 8), (4096, 1024), (5120, 16),
      (8192, 4096), (12288, 33 * unat cs)]"
  define dc ep pr sc where "dc = spaced 16384 2048 (32 * unat cs) (unat n)"
    and "ep = spaced 81920 1024 1024 (unat n)" and "pr = spaced 114688 1024 1024 32"
    and "sc = spaced 147456 4096 4096 (unat sp)"
  note parts = singles_def dc_def ep_def pr_def sc_def
  have obs: "layout_objects l = singles @ dc @ ep @ pr @ sc"
    unfolding l objects_of_fill [OF cs n sp] parts ..
  have s: "\<forall>ob \<in> set singles. fst ob + snd ob \<le> 16384" "sorted_wrt apart singles"
    using n sp cs' by (auto simp: singles_def apart_def)
  have r: "\<forall>ob \<in> set dc. 16384 \<le> fst ob \<and> fst ob + snd ob \<le> 81920"
      "\<forall>ob \<in> set ep. 81920 \<le> fst ob \<and> fst ob + snd ob \<le> 114688"
      "\<forall>ob \<in> set pr. 114688 \<le> fst ob \<and> fst ob + snd ob \<le> 147456"
      "\<forall>ob \<in> set sc. 147456 \<le> fst ob \<and> fst ob + snd ob \<le> 409600"
    using spaced_range n sp cs' by (fastforce simp: parts)+
  have sorted: "sorted_wrt apart (layout_objects l)"
    unfolding obs sorted_wrt_append
    using s r spaced_apart cs' by (fastforce simp: parts apart_def)
  have inside: "\<forall>ob \<in> set (layout_objects l). fst ob + snd ob \<le> 409600"
    unfolding obs using s(1) r by fastforce
  have "\<forall>ob \<in> set singles. in_one_page (unat pa) ob"
  proof -
    have "k dvd unat pa + off" if "k dvd 4096" "k dvd off" for k off
      using page that dvd_trans [of k 4096 "unat pa"] by simp
    then show ?thesis
      using chunk_in_one_page [of 2048 "unat pa" 0] chunk_in_one_page [of 2048 "unat pa" 2048]
        chunk_in_one_page [of 1024 "unat pa" 4096] chunk_in_one_page [of 64 "unat pa" 5120]
        chunk_in_one_page [of 4096 "unat pa" 8192] chunk_in_one_page [of 4096 "unat pa" 12288] n sp cs' page
      by (auto simp: singles_def)
  qed
  moreover have "\<forall>ob \<in> set dc. in_one_page (unat pa) ob"
    unfolding dc_def by (rule spaced_in_one_page) (use page cs' in auto)
  moreover have "\<forall>ob \<in> set ep. in_one_page (unat pa) ob" "\<forall>ob \<in> set pr. in_one_page (unat pa) ob"
      "\<forall>ob \<in> set sc. in_one_page (unat pa) ob"
    unfolding ep_def pr_def sc_def by (rule spaced_in_one_page; use page in simp)+
  ultimately have "\<forall>ob \<in> set (layout_objects l). in_one_page (unat pa) ob" unfolding obs by auto
  moreover have "unat (TotalBytes l) = 409600" by (simp add: l layout_fill_def)
  moreover have "\<forall>ob \<in> set (layout_objects l). unat pa + fst ob + snd ob \<le> 2 ^ 32"
  proof
    fix ob assume "ob \<in> set (layout_objects l)"
    then have "fst ob + snd ob \<le> 409600" using inside by blast
    then show "unat pa + fst ob + snd ob \<le> 2 ^ 32" using top by simp
  qed
  ultimately show ?thesis using sorted inside by simp
qed

definition sample_layout :: xhci_hc_layout where
  "sample_layout = layout_fill 64 32 4"

lemma sample_compute: "XhciComputeLayout 64 255 4 1 (layout_fill 0 0 0) = (XHCI_LAYOUT_OK, sample_layout)"
  by (simp add: compute_layout_cases sample_layout_def)

theorem layout_sound_witness:
  "XhciCheckResourceBase 0x80010000 0x7000 = XHCI_LAYOUT_OK \<and> sorted_wrt apart (layout_objects sample_layout)"
proof -
  have b: "XhciCheckResourceBase 0x80010000 0x7000 = XHCI_LAYOUT_OK" by code_simp
  show ?thesis using b layout_sound [OF sample_compute b] by blast
qed

section \<open>Contexts inside the contexts\<close>

text \<open>
  The context accessors place every context inside the object it belongs to, at a multiple of
  the controller's context size: the Endpoint Context of DCI i is entry i of the slot's Device
  Context, and entry i + 1 of the Input Context behind the control and slot entries, without
  wrapping; slot 0, slots beyond the enabled count, DCI 0 and DCI above 31 are refused.
\<close>

theorem context_offsets_exact:
  assumes "XhciComputeLayout cs hw sp pageMask old = (XHCI_LAYOUT_OK, l)"
  shows "(case XhciEndpointContextOffset l slot dci of
      Inl e \<Rightarrow> e = XHCI_LAYOUT_BAD_INDEX \<and> (slot = 0 \<or> MaxSlotsEn l < slot \<or> dci = 0 \<or> 31 < dci)
    | Inr off \<Rightarrow> \<exists>base. XhciDeviceContextOffset l slot = Inr base \<and>
        unat off = unat base + unat dci * unat cs \<and>
        unat off + unat cs \<le> unat base + unat (DeviceContextBytes l) \<and>
        unat base + 2048 \<le> unat (Ep0RingOffset l)) \<and>
    (case XhciInputEndpointContextOffset l dci of
      Inl e \<Rightarrow> e = XHCI_LAYOUT_BAD_INDEX \<and> (dci = 0 \<or> 31 < dci)
    | Inr off \<Rightarrow> unat off = unat (InputContextOffset l) + (unat dci + 1) * unat cs \<and>
        unat off + unat cs \<le> unat (InputContextOffset l) + unat (InputContextBytes l))"
proof -
  from assms obtain n where l: "l = layout_fill cs n sp" and cs: "cs = 32 \<or> cs = 64" and n: "unat n \<le> 32"
    unfolding compute_layout_cases
    by (auto simp: word_le_nat_alt not_less min_def split: if_splits)
  have cs': "unat cs = 32 \<or> unat cs = 64" "unat (32 * cs) = 32 * unat cs" "unat (33 * cs) = 33 * unat cs"
    using cs by auto
  have ep: "unat (b + dci * cs) = unat b + unat dci * unat cs"
    "unat (XHCI_REGION_INPUT_CONTEXT + (dci + 1) * cs) = 12288 + (unat dci + 1) * unat cs"
    if "unat dci \<le> 31" "unat b \<le> 100000" for b
  proof -
    have m: "unat dci * unat cs \<le> 31 * 64" "(unat dci + 1) * unat cs \<le> 32 * 64"
      using that cs' by (auto intro!: mult_mono)
    then have "unat (dci * cs) = unat dci * unat cs" by (intro unat_mult_no_wrap) simp
    then show "unat (b + dci * cs) = unat b + unat dci * unat cs"
      using m that by (subst unat_add_no_wrap) simp_all
    have d: "unat (dci + 1) = unat dci + 1" using that by (subst unat_add_no_wrap) simp_all
    then have "unat ((dci + 1) * cs) = (unat dci + 1) * unat cs" using m by (subst unat_mult_no_wrap) simp_all
    then show "unat (XHCI_REGION_INPUT_CONTEXT + (dci + 1) * cs) = 12288 + (unat dci + 1) * unat cs"
      using m by (subst unat_add_no_wrap) simp_all
  qed
  have slot: "\<exists>base. XhciDeviceContextOffset l slot = Inr base \<and> unat base + 2048 \<le> 81920"
    if "slot \<noteq> 0" "slot \<le> n"
  proof -
    have "unat slot \<noteq> 0" "unat slot \<le> 32" using that n unat_eq_iff [of slot 0] by (auto simp: word_le_nat_alt)
    then have u: "unat (slot - 1) \<le> 31" by (subst unat_sub_no_wrap) simp_all
    then have "unat (XHCI_REGION_DEVICE_CONTEXTS + (slot - 1) * 2048) = 16384 + unat (slot - 1) * 2048"
      by (subst unat_strided) simp_all
    then show ?thesis using that u
      by (intro exI [of _ "XHCI_REGION_DEVICE_CONTEXTS + (slot - 1) * 2048"])
        (simp add: XhciDeviceContextOffset_def l layout_fill_def not_less del: left_diff_distrib_numeral)
  qed
  show ?thesis
  proof (cases "dci = 0 \<or> 31 < dci")
    case True
    then show ?thesis
      by (auto simp: XhciEndpointContextOffset_def XhciInputEndpointContextOffset_def)
  next
    case False
    then have d: "unat dci \<le> 31" by (simp add: word_less_nat_alt)
    have fit: "unat dci * unat cs + unat cs \<le> 32 * unat cs"
      using mult_le_mono1 [of "unat dci + 1" 32 "unat cs"] d by (simp add: algebra_simps)
    have input: "XhciInputEndpointContextOffset l dci = Inr (XHCI_REGION_INPUT_CONTEXT + (dci + 1) * cs)"
      using False by (auto simp: XhciInputEndpointContextOffset_def l layout_fill_def)
    have geo: "InputContextOffset l = XHCI_REGION_INPUT_CONTEXT" "InputContextBytes l = 33 * cs"
      "Ep0RingOffset l = XHCI_REGION_EP0_RINGS" "DeviceContextBytes l = 32 * cs" "MaxSlotsEn l = n"
      "ContextSize l = cs"
      by (simp_all add: l layout_fill_def)
    have inp: "unat (XHCI_REGION_INPUT_CONTEXT + (dci + 1) * cs) + unat cs \<le> 12288 + unat (33 * cs)"
      using ep(2) [OF d, of 0] fit cs'(3) by (simp add: algebra_simps)
    show ?thesis
    proof (cases "slot \<noteq> 0 \<and> slot \<le> n")
      case True
      then obtain base where base: "XhciDeviceContextOffset l slot = Inr base" "unat base + 2048 \<le> 81920"
        using slot by blast
      then show ?thesis
        using False ep(1) [OF d, of base] ep(2) [OF d, of 0] fit cs'(2) input inp geo
        by (auto simp: XhciEndpointContextOffset_def)
    next
      case out: False
      then have "XhciDeviceContextOffset l slot = Inl XHCI_LAYOUT_BAD_INDEX"
        using geo by (auto simp: XhciDeviceContextOffset_def)
      then show ?thesis
        using False out ep(2) [OF d, of 0] input inp geo
        by (auto simp: XhciEndpointContextOffset_def)
    qed
  qed
qed

theorem context_offsets_exact_witness:
  "XhciComputeLayout 64 255 4 1 (layout_fill 0 0 0) = (XHCI_LAYOUT_OK, sample_layout) \<and>
   (\<exists>off. XhciEndpointContextOffset sample_layout 2 3 = Inr off \<and> unat off + 64 \<le> 18432 + 2048)"
proof -
  have v: "XhciEndpointContextOffset sample_layout 2 3 = Inr 18624"
    "XhciDeviceContextOffset sample_layout 2 = Inr 18432" "DeviceContextBytes sample_layout = 2048"
    by code_simp+
  show ?thesis
    using context_offsets_exact [OF sample_compute, of 2 3] v sample_compute by simp
qed

end
