(* ===== verification/Xhci_Admission.thy ===== *)
theory Xhci_Admission
  imports Main
begin

text \<open>
  The contract of a fair resource pool: units are held by clients, the first unit of a client is
  granted while one is free, a later one only if as many stay free as the caller says there are
  other clients without one. The locale shows what the rule buys a population of live clients.
\<close>

locale ring_admission =
  fixes inv :: "'s \<Rightarrow> bool"
    and valid :: "'d \<Rightarrow> bool"
    and free :: "'s \<Rightarrow> nat"
    and held :: "'s \<Rightarrow> 'd \<Rightarrow> nat"
    and acquire :: "'s \<Rightarrow> 'd \<Rightarrow> 'r \<Rightarrow> bool \<times> 's"
    and val :: "'r \<Rightarrow> nat"
  assumes first_granted:
      "inv s \<Longrightarrow> valid d \<Longrightarrow> held s d = 0 \<Longrightarrow> 0 < free s \<Longrightarrow> fst (acquire s d r)"
    and granted:
      "inv s \<Longrightarrow> valid d \<Longrightarrow> acquire s d r = (True, s') \<Longrightarrow>
         inv s' \<and> free s = Suc (free s') \<and> held s' d = Suc (held s d) \<and>
         (\<forall>e. e \<noteq> d \<longrightarrow> valid e \<longrightarrow> held s' e = held s e) \<and> (held s d = 0 \<or> val r \<le> free s')"
    and refused:
      "inv s \<Longrightarrow> valid d \<Longrightarrow> acquire s d r = (False, s') \<Longrightarrow>
         inv s' \<and> free s' = free s \<and> (\<forall>e. valid e \<longrightarrow> held s' e = held s e)"
begin

definition without :: "'d set \<Rightarrow> 's \<Rightarrow> 'd set" where
  "without D s = {d \<in> D. held s d = 0}"

definition fair :: "'d set \<Rightarrow> 's \<Rightarrow> bool" where
  "fair D s \<longleftrightarrow> inv s \<and> finite D \<and> (\<forall>d \<in> D. valid d) \<and> card (without D s) \<le> free s"

lemma without_finite: "finite D \<Longrightarrow> finite (without D s)"
  by (simp add: without_def)

lemma acquire_fair:
  assumes f: "fair D s" and d: "d \<in> D" and r: "val r = card (without D s - {d})"
    and a: "acquire s d r = (ok, s')"
  shows "fair D s'"
proof (cases ok)
  case True
  note g = granted [of s d r s'] and fin = without_finite [of D s]
  have v: "inv s" "valid d" "\<forall>e \<in> D. valid e" "finite D" using f d by (auto simp: fair_def)
  then have s': "inv s'" "free s = Suc (free s')" "held s' d = Suc (held s d)"
      "\<And>e. e \<noteq> d \<Longrightarrow> valid e \<Longrightarrow> held s' e = held s e" "held s d = 0 \<or> val r \<le> free s'"
    using g a True by auto
  have w: "without D s' = without D s - {d}"
  proof (rule set_eqI)
    fix e show "e \<in> without D s' \<longleftrightarrow> e \<in> without D s - {d}"
      using v(3) s'(3) s'(4) [of e] by (cases "e = d") (auto simp: without_def)
  qed
  have "card (without D s - {d}) \<le> free s'"
  proof (cases "held s d = 0")
    case True
    then have "d \<in> without D s" using d by (simp add: without_def)
    then have "card (without D s) = Suc (card (without D s - {d}))"
      by (rule card.remove [OF fin [OF v(4)]])
    then show ?thesis using f s'(2) by (simp add: fair_def)
  next
    case False
    then show ?thesis using s'(5) r by simp
  qed
  then show ?thesis using v s'(1) w by (simp add: fair_def)
next
  case False
  then have "inv s' \<and> free s' = free s \<and> (\<forall>e. valid e \<longrightarrow> held s' e = held s e)"
    using refused [of s d r s'] a f d by (auto simp: fair_def)
  moreover have "\<forall>e \<in> D. valid e" using f by (simp add: fair_def)
  ultimately have "without D s' = without D s" "inv s'" "free s' = free s"
    by (auto simp: without_def)
  then show ?thesis using f by (simp add: fair_def)
qed

text \<open>Giving units back: whoever loses units, at least as many become free.\<close>

lemma release_fair:
  assumes f: "fair D s" and i: "inv s'" and h: "\<And>e. e \<in> D \<Longrightarrow> e \<noteq> d \<Longrightarrow> held s' e = held s e"
    and give: "held s d + free s \<le> held s' d + free s'" and le: "held s' d \<le> held s d"
  shows "fair D s'"
proof -
  have fin: "finite D" using f by (simp add: fair_def)
  have sub: "without D s' \<subseteq> insert d (without D s)" using h by (auto simp: without_def)
  have "card (without D s') \<le> free s'"
  proof (cases "d \<in> without D s' \<and> d \<notin> without D s")
    case True
    then have "held s d \<noteq> 0" "held s' d = 0" by (auto simp: without_def)
    then have "Suc (free s) \<le> free s'" using give by simp
    moreover have "card (without D s') \<le> Suc (card (without D s))"
      using card_mono [OF _ sub] without_finite [OF fin, of s] by (simp add: card_insert_if split: if_splits)
    ultimately show ?thesis using f by (simp add: fair_def)
  next
    case False
    then have "without D s' \<subseteq> without D s" using sub by blast
    then have "card (without D s') \<le> card (without D s)"
      using card_mono without_finite [OF fin] by blast
    then show ?thesis using f give le by (simp add: fair_def)
  qed
  then show ?thesis using f i by (simp add: fair_def)
qed

lemma first_unit:
  assumes "fair D s" and "d \<in> D" and "held s d = 0"
  shows "fst (acquire s d r)"
proof -
  have "d \<in> without D s" using assms by (simp add: without_def)
  then have "0 < card (without D s)" using assms(1) without_finite by (auto simp: fair_def card_gt_0_iff)
  then show ?thesis using first_granted [of s d r] assms by (auto simp: fair_def)
qed

end

end
