(* ===== verification/Xhci_Pool.thy ===== *)
theory Xhci_Pool
  imports Xhci_Prelude Xhci_Admission
begin

text \<open>
  The pooled-ring allocator (second half of \<open>xhci_mem.c\<close>): which of the 32 transfer rings belongs
  to which device. The build without the experimental \<open>XHCI_FIX_NO_RING_REUSE\<close> is modelled. The
  admission rule that keeps a ring for every live device that holds none is stated as a locale,
  \<open>ring_admission\<close>, and proved for the allocator by interpretation.
\<close>

section \<open>State and operations\<close>

abbreviation (input) MAX_POOL_RINGS :: nat where "MAX_POOL_RINGS \<equiv> 32"
abbreviation (input) XHCI_POOL_DEVICE_RINGS :: ulong where "XHCI_POOL_DEVICE_RINGS \<equiv> 16"

datatype pool_status =
    XHCI_POOL_OK | XHCI_POOL_BAD_PARAM | XHCI_POOL_EMPTY | XHCI_POOL_UNFAIR | XHCI_POOL_AT_CAP

record xhci_ring_pool =
  Owner :: "ulong list"
  InUse :: ulong
  AcquireFailuresEmpty :: ulong
  AcquireFailuresFairness :: ulong
  AcquireFailuresCap :: ulong
  PeakInUse :: ulong

definition XhciPoolInit :: "xhci_ring_pool option \<Rightarrow> xhci_ring_pool option" where
  "XhciPoolInit pool =
     (case pool of
        None \<Rightarrow> None
      | Some p \<Rightarrow>
          let p = foldl (\<lambda>p i. p\<lparr>Owner := (Owner p)[i := 0]\<rparr>) p [0..<MAX_POOL_RINGS]
          in Some (p\<lparr>InUse := 0, AcquireFailuresEmpty := 0, AcquireFailuresFairness := 0,
                     AcquireFailuresCap := 0, PeakInUse := 0\<rparr>))"

definition XhciPoolDeviceCount :: "xhci_ring_pool option \<Rightarrow> ulong \<Rightarrow> ulong" where
  "XhciPoolDeviceCount pool deviceRef =
     (case pool of
        None \<Rightarrow> 0
      | Some p \<Rightarrow>
          if deviceRef = 0 then 0
          else foldl (\<lambda>held i. if Owner p ! i = deviceRef then held + 1 else held) 0 [0..<MAX_POOL_RINGS])"

definition XhciPoolFree :: "xhci_ring_pool option \<Rightarrow> ulong" where
  "XhciPoolFree pool =
     (case pool of
        None \<Rightarrow> 0
      | Some p \<Rightarrow>
          32 - foldl (\<lambda>used i. if Owner p ! i \<noteq> 0 then used + 1 else used) 0 [0..<MAX_POOL_RINGS])"

text \<open>Taking one ring: the store of the owner and the two counters.\<close>

definition pool_grant :: "xhci_ring_pool \<Rightarrow> nat \<Rightarrow> ulong \<Rightarrow> xhci_ring_pool" where
  "pool_grant p i deviceRef =
     (let p = p\<lparr>Owner := (Owner p)[i := deviceRef], InUse := InUse p + 1\<rparr>
      in if InUse p > PeakInUse p then p\<lparr>PeakInUse := InUse p\<rparr> else p)"

definition XhciPoolAcquireReserved ::
    "xhci_ring_pool option \<Rightarrow> ulong \<Rightarrow> ulong \<Rightarrow> ulong \<Rightarrow>
     pool_status \<times> xhci_ring_pool option \<times> ulong option" where
  "XhciPoolAcquireReserved pool deviceRef ringless reserved =
     (case pool of
        None \<Rightarrow> (XHCI_POOL_BAD_PARAM, pool, None)
      | Some p \<Rightarrow>
          if deviceRef = 0 then (XHCI_POOL_BAD_PARAM, pool, None)
          else
            let held = XhciPoolDeviceCount pool deviceRef in
            if (if reserved \<le> held then held - reserved else held) \<ge> XHCI_POOL_DEVICE_RINGS
            then (XHCI_POOL_AT_CAP, Some (p\<lparr>AcquireFailuresCap := AcquireFailuresCap p + 1\<rparr>), None)
            else
              let freeRings = XhciPoolFree pool in
              if freeRings = 0
              then (XHCI_POOL_EMPTY, Some (p\<lparr>AcquireFailuresEmpty := AcquireFailuresEmpty p + 1\<rparr>), None)
              else if held > 0 \<and> freeRings - 1 < ringless
              then (XHCI_POOL_UNFAIR,
                    Some (p\<lparr>AcquireFailuresFairness := AcquireFailuresFairness p + 1\<rparr>), None)
              else
                (case find (\<lambda>i. Owner p ! i = 0) [0..<MAX_POOL_RINGS] of
                   Some i \<Rightarrow> (XHCI_POOL_OK, Some (pool_grant p i deviceRef), Some (of_nat i))
                 | None \<Rightarrow>
                     (XHCI_POOL_EMPTY,
                      Some (p\<lparr>AcquireFailuresEmpty := AcquireFailuresEmpty p + 1\<rparr>), None)))"

definition XhciPoolAcquire ::
    "xhci_ring_pool option \<Rightarrow> ulong \<Rightarrow> ulong \<Rightarrow> pool_status \<times> xhci_ring_pool option \<times> ulong option" where
  "XhciPoolAcquire pool deviceRef ringless = XhciPoolAcquireReserved pool deviceRef ringless 0"

definition XhciPoolRelease ::
    "xhci_ring_pool option \<Rightarrow> ulong \<Rightarrow> ulong \<Rightarrow> pool_status \<times> xhci_ring_pool option" where
  "XhciPoolRelease pool deviceRef poolIndex =
     (case pool of
        None \<Rightarrow> (XHCI_POOL_BAD_PARAM, pool)
      | Some p \<Rightarrow>
          if deviceRef = 0 \<or> poolIndex \<ge> 32 then (XHCI_POOL_BAD_PARAM, pool)
          else if Owner p ! unat poolIndex \<noteq> deviceRef then (XHCI_POOL_BAD_PARAM, pool)
          else
            let p = p\<lparr>Owner := (Owner p)[unat poolIndex := 0]\<rparr>;
                p = (if InUse p > 0 then p\<lparr>InUse := InUse p - 1\<rparr> else p)
            in (XHCI_POOL_OK, Some p))"

definition release_device_step ::
    "ulong \<Rightarrow> xhci_ring_pool \<times> ulong \<Rightarrow> nat \<Rightarrow> xhci_ring_pool \<times> ulong" where
  "release_device_step deviceRef s i =
     (case s of (p, released) \<Rightarrow>
        if Owner p ! i = deviceRef then
          let p = p\<lparr>Owner := (Owner p)[i := 0]\<rparr>;
              p = (if InUse p > 0 then p\<lparr>InUse := InUse p - 1\<rparr> else p)
          in (p, released + 1)
        else s)"

definition XhciPoolReleaseDevice ::
    "xhci_ring_pool option \<Rightarrow> ulong \<Rightarrow> ulong \<times> xhci_ring_pool option" where
  "XhciPoolReleaseDevice pool deviceRef =
     (case pool of
        None \<Rightarrow> (0, pool)
      | Some p \<Rightarrow>
          if deviceRef = 0 then (0, pool)
          else
            (case foldl (release_device_step deviceRef) (p, 0) [0..<MAX_POOL_RINGS] of
               (p, released) \<Rightarrow> (released, Some p)))"

definition XhciPoolClaim ::
    "xhci_ring_pool option \<Rightarrow> ulong \<Rightarrow> ulong \<Rightarrow> pool_status \<times> xhci_ring_pool option" where
  "XhciPoolClaim pool deviceRef poolIndex =
     (case pool of
        None \<Rightarrow> (XHCI_POOL_BAD_PARAM, pool)
      | Some p \<Rightarrow>
          if deviceRef = 0 \<or> poolIndex \<ge> 32 \<or> Owner p ! unat poolIndex \<noteq> 0
          then (XHCI_POOL_BAD_PARAM, pool)
          else (XHCI_POOL_OK, Some (pool_grant p (unat poolIndex) deviceRef)))"

definition rehome_step ::
    "ulong \<Rightarrow> ulong \<Rightarrow> xhci_ring_pool \<times> ulong \<Rightarrow> nat \<Rightarrow> xhci_ring_pool \<times> ulong" where
  "rehome_step fromRef toRef s i =
     (case s of (p, moved) \<Rightarrow>
        if Owner p ! i = fromRef then (p\<lparr>Owner := (Owner p)[i := toRef]\<rparr>, moved + 1) else s)"

definition XhciPoolRehome ::
    "xhci_ring_pool option \<Rightarrow> ulong \<Rightarrow> ulong \<Rightarrow> ulong \<times> xhci_ring_pool option" where
  "XhciPoolRehome pool fromRef toRef =
     (case pool of
        None \<Rightarrow> (0, pool)
      | Some p \<Rightarrow>
          if fromRef = 0 \<or> toRef = 0 \<or> fromRef = toRef then (0, pool)
          else if XhciPoolDeviceCount pool toRef \<noteq> 0 then (0, pool)
          else
            (case foldl (rehome_step fromRef toRef) (p, 0) [0..<MAX_POOL_RINGS] of
               (p, moved) \<Rightarrow> (moved, Some p)))"

section \<open>Counting\<close>

abbreviation owned_by :: "xhci_ring_pool \<Rightarrow> ulong \<Rightarrow> nat" where
  "owned_by p d \<equiv> count_list (Owner p) d"

definition pool_inv :: "xhci_ring_pool \<Rightarrow> bool" where
  "pool_inv p \<longleftrightarrow> length (Owner p) = 32 \<and> unat (InUse p) = 32 - owned_by p 0 \<and>
     InUse p \<le> PeakInUse p \<and> unat (PeakInUse p) \<le> 32"

lemma foldl_count:
  "foldl (\<lambda>(n :: ulong) i. if P (xs ! i) then n + 1 else n) a [0..<k] =
     a + of_nat (length (filter (\<lambda>i. P (xs ! i)) [0..<k]))"
  by (induction k) (auto simp: algebra_simps)

lemma filter_nth_count:
  "length (filter (\<lambda>i. xs ! i = v) [0..<length xs]) = count_list xs v"
proof -
  have "length (filter (\<lambda>i. xs ! i = v) [0..<length xs]) = length (filter (\<lambda>x. x = v) (map ((!) xs) [0..<length xs]))"
    by (simp add: filter_map comp_def)
  moreover have "(\<lambda>x. x = v) = (=) v" by auto
  ultimately show ?thesis by (simp add: map_nth count_list_eq_length_filter)
qed

lemma filter_nth_count_not:
  "length (filter (\<lambda>i. xs ! i \<noteq> v) [0..<length xs]) = length xs - count_list xs v"
  using sum_length_filter_compl [of "\<lambda>i. xs ! i = v" "[0..<length xs]"] filter_nth_count [of xs v]
  by simp

lemma unat_small_count: "n \<le> 32 \<Longrightarrow> unat (of_nat n :: ulong) = n"
  by (simp add: unat_of_nat take_bit_nat_eq_self)

lemma device_count:
  assumes "length (Owner p) = 32"
  shows "XhciPoolDeviceCount (Some p) d = (if d = 0 then 0 else of_nat (owned_by p d))"
    "unat (XhciPoolDeviceCount (Some p) d) = (if d = 0 then 0 else owned_by p d)"
proof -
  show "XhciPoolDeviceCount (Some p) d = (if d = 0 then 0 else of_nat (owned_by p d))"
    using foldl_count [of "\<lambda>x. x = d" "Owner p" 0 32] filter_nth_count [of "Owner p" d] assms
    by (simp add: XhciPoolDeviceCount_def)
  moreover have "owned_by p d \<le> 32" using count_le_length [of "Owner p" d] assms by simp
  ultimately show "unat (XhciPoolDeviceCount (Some p) d) = (if d = 0 then 0 else owned_by p d)"
    by (simp add: unat_of_nat take_bit_nat_eq_self)
qed

lemma pool_free:
  assumes "length (Owner p) = 32"
  shows "unat (XhciPoolFree (Some p)) = owned_by p 0"
proof -
  have le: "owned_by p 0 \<le> 32" using count_le_length [of "Owner p" 0] assms by simp
  have "XhciPoolFree (Some p) = 32 - of_nat (32 - owned_by p 0)"
    using foldl_count [of "\<lambda>x. x \<noteq> 0" "Owner p" 0 32] filter_nth_count_not [of "Owner p" 0] assms
    by (simp add: XhciPoolFree_def)
  then have "XhciPoolFree (Some p) = of_nat (owned_by p 0)" using le by (simp add: of_nat_diff)
  then show ?thesis using unat_small_count [OF le] by simp
qed

lemma count_list_update:
  assumes "i < length xs"
  shows "count_list (xs[i := v]) w + (if xs ! i = w then 1 else 0) =
     count_list xs w + (if v = w then 1 else 0)"
  using assms
proof (induction xs arbitrary: i)
  case (Cons x xs)
  show ?case
  proof (cases i)
    case (Suc j)
    then have "j < length xs" using Cons.prems by simp
    from Cons.IH [OF this] show ?thesis
      unfolding Suc by (cases "v = w"; cases "xs ! j = w") simp_all
  qed simp
qed simp

lemma count_pos_nth: "i < length xs \<Longrightarrow> 0 < count_list xs (xs ! i)"
  by (metis count_list_0_iff neq0_conv nth_mem)

lemma find_free:
  "case find (\<lambda>i. xs ! i = (v :: ulong)) [0..<length xs] of
     None \<Rightarrow> count_list xs v = 0
   | Some i \<Rightarrow> i < length xs \<and> xs ! i = v \<and> (\<forall>j < i. xs ! j \<noteq> v)"
proof (cases "find (\<lambda>i. xs ! i = v) [0..<length xs]")
  case None
  then have "v \<notin> set xs" by (auto simp: find_None_iff in_set_conv_nth)
  then show ?thesis using None by simp
next
  case (Some i)
  then obtain k where k: "k < length xs" "i = [0..<length xs] ! k" "xs ! i = v"
      "\<forall>j < k. xs ! ([0..<length xs] ! j) \<noteq> v"
    unfolding find_Some_iff by auto
  then have "k = i" by simp
  then show ?thesis using Some k by simp
qed

lemma owner_zero_bound: "length (Owner p) = 32 \<Longrightarrow> owned_by p d \<le> 32"
  using count_le_length [of "Owner p" d] by simp

section \<open>What each operation does to the owners\<close>

lemma grant_owner [simp]: "Owner (pool_grant p i d) = (Owner p)[i := d]"
  by (simp add: pool_grant_def Let_def)

lemma grant_inv:
  assumes inv: "pool_inv p" and i: "i < 32" "Owner p ! i = 0" and d: "d \<noteq> 0"
  shows "pool_inv (pool_grant p i d)"
    "owned_by (pool_grant p i d) e =
       (if e = 0 then owned_by p 0 - 1 else if e = d then Suc (owned_by p d) else owned_by p e)"
proof -
  have len: "length (Owner p) = 32" using inv by (simp add: pool_inv_def)
  have c: "count_list ((Owner p)[i := d]) e + (if 0 = e then 1 else 0) =
      owned_by p e + (if d = e then 1 else 0)" for e
    using count_list_update [of i "Owner p" d e] i len by simp
  have pos: "0 < owned_by p 0" using count_pos_nth [of i "Owner p"] i len by simp
  show o: "owned_by (pool_grant p i d) e =
       (if e = 0 then owned_by p 0 - 1 else if e = d then Suc (owned_by p d) else owned_by p e)"
    using c [of e] d by auto
  have z: "count_list ((Owner p)[i := d]) 0 = owned_by p 0 - 1" using c [of 0] d by simp
  have u: "unat (InUse p + 1) = Suc (unat (InUse p))"
    using inv by (subst unat_add_no_wrap) (simp_all add: pool_inv_def)
  have le: "Suc (unat (InUse p)) \<le> 32" "Suc (unat (InUse p)) = 32 - (owned_by p 0 - 1)"
    using inv pos owner_zero_bound [OF len, of 0] by (auto simp: pool_inv_def)
  show "pool_inv (pool_grant p i d)"
    using inv u z le len by (auto simp: pool_inv_def pool_grant_def Let_def word_le_nat_alt word_less_nat_alt)
qed

lemma drop_inv:
  assumes inv: "pool_inv p" and i: "i < 32" "Owner p ! i = d" and d: "d \<noteq> 0"
  shows "pool_inv (p\<lparr>Owner := (Owner p)[i := 0], InUse := InUse p - 1\<rparr>)" "0 < InUse p"
    "count_list ((Owner p)[i := 0]) e =
       (if e = 0 then Suc (owned_by p 0) else if e = d then owned_by p d - 1 else owned_by p e)"
proof -
  have len: "length (Owner p) = 32" using inv by (simp add: pool_inv_def)
  have c: "count_list ((Owner p)[i := 0]) e + (if d = e then 1 else 0) =
      owned_by p e + (if 0 = e then 1 else 0)" for e
    using count_list_update [of i "Owner p" 0 e] i len by simp
  show "count_list ((Owner p)[i := 0]) e =
       (if e = 0 then Suc (owned_by p 0) else if e = d then owned_by p d - 1 else owned_by p e)"
    using c [of e] d by auto
  have z: "count_list ((Owner p)[i := 0]) 0 = Suc (owned_by p 0)" using c [of 0] d by simp
  have "count_list ((Owner p)[i := 0]) 0 \<le> 32" using count_le_length [of "(Owner p)[i := 0]" 0] len by simp
  then have pos: "0 < unat (InUse p)" using inv z by (simp add: pool_inv_def)
  then show "0 < InUse p" by (simp add: word_less_nat_alt)
  have u: "unat (InUse p - 1) = unat (InUse p) - 1" using pos by (subst unat_sub_no_wrap) simp_all
  show "pool_inv (p\<lparr>Owner := (Owner p)[i := 0], InUse := InUse p - 1\<rparr>)"
    using inv u z len by (auto simp: pool_inv_def word_le_nat_alt)
qed

text \<open>The answer of an acquisition, by what is held and what is free.\<close>

definition acquire_answer :: "nat \<Rightarrow> nat \<Rightarrow> nat \<Rightarrow> nat \<Rightarrow> pool_status" where
  "acquire_answer held free ringless reserved =
     (if 16 \<le> (if reserved \<le> held then held - reserved else held) then XHCI_POOL_AT_CAP
      else if free = 0 then XHCI_POOL_EMPTY
      else if 0 < held \<and> free - 1 < ringless then XHCI_POOL_UNFAIR
      else XHCI_POOL_OK)"

lemma acquire_cases:
  assumes inv: "pool_inv p" and d: "d \<noteq> 0"
  shows "case XhciPoolAcquireReserved (Some p) d ringless reserved of (st, pool', ix) \<Rightarrow>
     st = acquire_answer (owned_by p d) (owned_by p 0) (unat ringless) (unat reserved) \<and>
     (if st = XHCI_POOL_OK
      then \<exists>i. ix = Some (of_nat i) \<and> pool' = Some (pool_grant p i d) \<and> i < 32 \<and> Owner p ! i = 0 \<and>
             (\<forall>j < i. Owner p ! j \<noteq> 0)
      else ix = None \<and> (\<exists>p'. pool' = Some p' \<and> Owner p' = Owner p \<and> InUse p' = InUse p \<and>
             PeakInUse p' = PeakInUse p))"
proof -
  have len: "length (Owner p) = 32" using inv by (simp add: pool_inv_def)
  let ?h = "XhciPoolDeviceCount (Some p) d" and ?f = "XhciPoolFree (Some p)"
  have h: "unat ?h = owned_by p d" and f: "unat ?f = owned_by p 0"
    using device_count(2) [OF len, of d] pool_free [OF len] d by simp_all
  have res: "unat (if reserved \<le> ?h then ?h - reserved else ?h) =
      (if unat reserved \<le> owned_by p d then owned_by p d - unat reserved else owned_by p d)"
    using h by (auto simp: word_le_nat_alt unat_sub_no_wrap)
  have cap: "(16 \<le> (if reserved \<le> ?h then ?h - reserved else ?h)) =
      (16 \<le> (if unat reserved \<le> owned_by p d then owned_by p d - unat reserved else owned_by p d))"
    unfolding word_le_nat_alt [of 16] res by simp
  have empty: "(?f = 0) = (owned_by p 0 = 0)" using f unat_eq_iff [of ?f 0] by auto
  have unfair: "(0 < ?h \<and> ?f - 1 < ringless) = (0 < owned_by p d \<and> owned_by p 0 - 1 < unat ringless)"
    if "owned_by p 0 \<noteq> 0"
    using that h f by (simp add: word_less_nat_alt unat_sub_no_wrap)
  show ?thesis
    using d find_free [of "Owner p" 0, unfolded len] empty unfair
    unfolding XhciPoolAcquireReserved_def acquire_answer_def Let_def option.case cap
    by (auto split: option.splits)
qed

text \<open>The two sweeping loops: the slots visited so far are rewritten, the others untouched.\<close>

definition replaced :: "ulong \<Rightarrow> ulong \<Rightarrow> nat \<Rightarrow> ulong list \<Rightarrow> ulong list" where
  "replaced a b k xs = map (\<lambda>x. if x = a then b else x) (take k xs) @ drop k xs"

lemma replaced_Suc:
  assumes "k < length xs" and "a \<noteq> b"
  shows "replaced a b (Suc k) xs = (replaced a b k xs)[k := if xs ! k = a then b else xs ! k]"
    "replaced a b k xs ! k = xs ! k"
  using assms
  by (simp_all add: replaced_def take_Suc_conv_app_nth list_update_append nth_append Cons_nth_drop_Suc [symmetric])

lemma release_sweep:
  assumes inv: "pool_inv p" and d: "d \<noteq> 0" and k: "k \<le> 32"
  shows "\<exists>q. foldl (release_device_step d) (p, 0) [0..<k] = (q, of_nat (count_list (take k (Owner p)) d)) \<and>
     pool_inv q \<and> Owner q = replaced d 0 k (Owner p)"
  using k
proof (induction k)
  case 0
  then show ?case using inv by (simp add: replaced_def)
next
  case (Suc k)
  then obtain q where q: "foldl (release_device_step d) (p, 0) [0..<k] =
      (q, of_nat (count_list (take k (Owner p)) d))" "pool_inv q" "Owner q = replaced d 0 k (Owner p)"
    by auto
  have len: "length (Owner p) = 32" "k < length (Owner p)" using inv Suc.prems by (auto simp: pool_inv_def)
  note r = replaced_Suc [OF len(2) d]
  have t: "take (Suc k) (Owner p) = take k (Owner p) @ [Owner p ! k]"
    using len by (simp add: take_Suc_conv_app_nth)
  show ?case
  proof (cases "Owner p ! k = d")
    case True
    have i: "k < 32" "Owner q ! k = d" using r(2) q(3) True Suc.prems by auto
    note dr = drop_inv [OF q(2) i d]
    have pos: "0 < InUse (q\<lparr>Owner := (Owner q)[k := 0]\<rparr>)" using dr(2) by simp
    have step: "foldl (release_device_step d) (p, 0) [0..<Suc k] =
        (q\<lparr>Owner := (Owner q)[k := 0], InUse := InUse q - 1\<rparr>, of_nat (count_list (take k (Owner p)) d) + 1)"
      using q(1) i(2) pos by (simp add: release_device_step_def Let_def)
    show ?thesis
      unfolding step using dr(1) q(3) r(1) True t by (simp add: algebra_simps)
  next
    case False
    have same: "(Owner q)[k := Owner p ! k] = Owner q" using r(2) q(3) by (metis list_update_id)
    have "foldl (release_device_step d) (p, 0) [0..<Suc k] = (q, of_nat (count_list (take k (Owner p)) d))"
      using q(1,3) r(2) False by (simp add: release_device_step_def)
    then show ?thesis using q(2,3) r(1) False t same by simp
  qed
qed

lemma rehome_sweep:
  assumes inv: "pool_inv p" and d: "a \<noteq> 0" "b \<noteq> 0" "a \<noteq> b" and k: "k \<le> 32"
  shows "\<exists>q. foldl (rehome_step a b) (p, 0) [0..<k] = (q, of_nat (count_list (take k (Owner p)) a)) \<and>
     q = p\<lparr>Owner := replaced a b k (Owner p)\<rparr>"
  using k
proof (induction k)
  case 0
  then show ?case by (simp add: replaced_def)
next
  case (Suc k)
  then have q: "foldl (rehome_step a b) (p, 0) [0..<k] =
      (p\<lparr>Owner := replaced a b k (Owner p)\<rparr>, of_nat (count_list (take k (Owner p)) a))"
    by auto
  have len: "k < length (Owner p)" using inv Suc.prems by (auto simp: pool_inv_def)
  note r = replaced_Suc [OF len d(3)]
  have t: "take (Suc k) (Owner p) = take k (Owner p) @ [Owner p ! k]"
    using len by (simp add: take_Suc_conv_app_nth)
  have fold: "foldl f s [0..<Suc k] = f (foldl f s [0..<k]) k" for f :: "'s \<Rightarrow> nat \<Rightarrow> 's" and s by simp
  show ?case
    unfolding fold q using r t list_update_id [of "replaced a b k (Owner p)" k, unfolded r(2)]
    by (cases "Owner p ! k = a") (simp_all add: rehome_step_def algebra_simps)
qed

lemma replaced_all: "replaced a b (length xs) xs = map (\<lambda>x. if x = a then b else x) xs"
  by (simp add: replaced_def)

lemma count_replaced:
  assumes "a \<noteq> b"
  shows "count_list (map (\<lambda>x. if x = a then b else x) xs) e =
     (if e = a then 0 else if e = b then count_list xs a + count_list xs b else count_list xs e)"
  using assms by (induction xs) auto

lemma release_device_effect:
  assumes inv: "pool_inv p" and d: "d \<noteq> 0"
  shows "\<exists>q. XhciPoolReleaseDevice (Some p) d = (of_nat (owned_by p d), Some q) \<and> pool_inv q \<and>
     Owner q = map (\<lambda>x. if x = d then 0 else x) (Owner p)"
proof -
  have len: "length (Owner p) = 32" using inv by (simp add: pool_inv_def)
  show ?thesis
    using release_sweep [OF inv d, of 32] replaced_all [of d 0 "Owner p"] d len
    by (auto simp: XhciPoolReleaseDevice_def)
qed

lemma rehome_effect:
  assumes inv: "pool_inv p" and d: "a \<noteq> 0" "b \<noteq> 0" "a \<noteq> b"
  shows "XhciPoolRehome (Some p) a b =
     (if owned_by p b \<noteq> 0 then (0, Some p)
      else (of_nat (owned_by p a), Some (p\<lparr>Owner := map (\<lambda>x. if x = a then b else x) (Owner p)\<rparr>)))"
    "owned_by p b = 0 \<Longrightarrow> pool_inv (p\<lparr>Owner := map (\<lambda>x. if x = a then b else x) (Owner p)\<rparr>)"
proof -
  have len: "length (Owner p) = 32" using inv by (simp add: pool_inv_def)
  have "XhciPoolDeviceCount (Some p) b = 0 \<longleftrightarrow> owned_by p b = 0"
    using device_count(2) [OF len, of b] d unat_eq_iff [of "XhciPoolDeviceCount (Some p) b" 0] by simp
  then show "XhciPoolRehome (Some p) a b =
     (if owned_by p b \<noteq> 0 then (0, Some p)
      else (of_nat (owned_by p a), Some (p\<lparr>Owner := map (\<lambda>x. if x = a then b else x) (Owner p)\<rparr>)))"
    using rehome_sweep [OF inv d, of 32] replaced_all [of a b "Owner p"] d len
    by (auto simp: XhciPoolRehome_def)
  show "pool_inv (p\<lparr>Owner := map (\<lambda>x. if x = a then b else x) (Owner p)\<rparr>)" if "owned_by p b = 0"
    using inv d by (simp add: pool_inv_def count_replaced)
qed

section \<open>Reachable pools\<close>

text \<open>
  The pools an initialised record can become, for a population \<open>D\<close> of live devices: acquisitions
  (inside an interface switch or not) with the true number of other live devices that hold no
  ring, releases of one ring or of a device's rings, and a device's rings moved to a live device.
  \<open>pool_states\<close> has the unrestricted operations, claims after a resume included.
\<close>

definition ringless_others :: "ulong set \<Rightarrow> xhci_ring_pool \<Rightarrow> ulong \<Rightarrow> nat" where
  "ringless_others D p d = card {e \<in> D. e \<noteq> d \<and> owned_by p e = 0}"

inductive live_pool :: "ulong set \<Rightarrow> xhci_ring_pool \<Rightarrow> bool" for D where
  init: "XhciPoolInit (Some p0) = Some p \<Longrightarrow> length (Owner p0) = 32 \<Longrightarrow> live_pool D p"
| acquire: "live_pool D p \<Longrightarrow> d \<in> D \<Longrightarrow> unat ringless = ringless_others D p d \<Longrightarrow>
     XhciPoolAcquireReserved (Some p) d ringless reserved = (st, Some p', ix) \<Longrightarrow> live_pool D p'"
| release: "live_pool D p \<Longrightarrow> XhciPoolRelease (Some p) d i = (st, Some p') \<Longrightarrow> live_pool D p'"
| release_device: "live_pool D p \<Longrightarrow> XhciPoolReleaseDevice (Some p) d = (n, Some p') \<Longrightarrow> live_pool D p'"
| rehome: "live_pool D p \<Longrightarrow> a \<in> D \<Longrightarrow> b \<in> D \<Longrightarrow> XhciPoolRehome (Some p) a b = (n, Some p') \<Longrightarrow> live_pool D p'"

inductive pool_states :: "xhci_ring_pool \<Rightarrow> bool" where
  init: "XhciPoolInit (Some p0) = Some p \<Longrightarrow> length (Owner p0) = 32 \<Longrightarrow> pool_states p"
| acquire: "pool_states p \<Longrightarrow> XhciPoolAcquireReserved (Some p) d ringless reserved = (st, Some p', ix) \<Longrightarrow>
     pool_states p'"
| release: "pool_states p \<Longrightarrow> XhciPoolRelease (Some p) d i = (st, Some p') \<Longrightarrow> pool_states p'"
| release_device: "pool_states p \<Longrightarrow> XhciPoolReleaseDevice (Some p) d = (n, Some p') \<Longrightarrow> pool_states p'"
| claim: "pool_states p \<Longrightarrow> XhciPoolClaim (Some p) d i = (st, Some p') \<Longrightarrow> pool_states p'"
| rehome: "pool_states p \<Longrightarrow> XhciPoolRehome (Some p) a b = (n, Some p') \<Longrightarrow> pool_states p'"

lemma init_owners:
  "length (Owner p) = n \<Longrightarrow> k \<le> n \<Longrightarrow>
     foldl (\<lambda>p i. p\<lparr>Owner := (Owner p)[i := 0]\<rparr>) p [0..<k] = p\<lparr>Owner := replicate k 0 @ drop k (Owner p)\<rparr>"
proof (induction k)
  case (Suc k)
  then have "(replicate k 0 @ drop k (Owner p))[k := 0] = replicate k 0 @ 0 # drop (Suc k) (Owner p)"
    by (simp add: list_update_append Cons_nth_drop_Suc [symmetric])
  then show ?case using Suc by (simp add: replicate_app_Cons_same)
qed simp

lemma pool_init:
  assumes "XhciPoolInit (Some p0) = Some p" and "length (Owner p0) = 32"
  shows "pool_inv p" "Owner p = replicate 32 0"
proof -
  have "foldl (\<lambda>p i. p\<lparr>Owner := (Owner p)[i := 0]\<rparr>) p0 [0..<32] = p0\<lparr>Owner := replicate 32 0\<rparr>"
    using init_owners [OF assms(2), of 32] assms(2) by simp
  then have p: "p = p0\<lparr>Owner := replicate 32 0, InUse := 0, AcquireFailuresEmpty := 0,
      AcquireFailuresFairness := 0, AcquireFailuresCap := 0, PeakInUse := 0\<rparr>"
    using assms(1) by (simp add: XhciPoolInit_def)
  have "count_list (replicate n (0 :: ulong)) 0 = n" for n by (induction n) simp_all
  then show "pool_inv p" by (simp add: p pool_inv_def)
  show "Owner p = replicate 32 0" by (simp add: p)
qed

lemma release_effect:
  assumes inv: "pool_inv p"
  shows "XhciPoolRelease (Some p) d i =
     (if d = 0 \<or> 32 \<le> i \<or> Owner p ! unat i \<noteq> d then (XHCI_POOL_BAD_PARAM, Some p)
      else (XHCI_POOL_OK, Some (p\<lparr>Owner := (Owner p)[unat i := 0], InUse := InUse p - 1\<rparr>)))"
  using drop_inv(2) [OF inv, of "unat i" d]
  by (auto simp: XhciPoolRelease_def Let_def word_le_nat_alt not_le)

lemma claim_effect:
  "XhciPoolClaim (Some p) d i =
     (if d = 0 \<or> 32 \<le> i \<or> Owner p ! unat i \<noteq> 0 then (XHCI_POOL_BAD_PARAM, Some p)
      else (XHCI_POOL_OK, Some (pool_grant p (unat i) d)))"
  by (simp add: XhciPoolClaim_def)

lemma acquire_inv:
  assumes "pool_inv p" and "XhciPoolAcquireReserved (Some p) d ringless reserved = (st, Some p', ix)"
  shows "pool_inv p'"
proof (cases "d = 0")
  case True
  then show ?thesis using assms by (simp add: XhciPoolAcquireReserved_def)
next
  case False
  show ?thesis
    using acquire_cases [OF assms(1) False, of ringless reserved] assms grant_inv(1) [OF assms(1)] False
    by (auto simp: pool_inv_def split: if_splits)
qed

lemma states_inv: "pool_states p \<Longrightarrow> pool_inv p"
proof (induction rule: pool_states.induct)
  case (init p0 p)
  then show ?case by (rule pool_init)
next
  case (acquire p d ringless reserved st p' ix)
  then show ?case using acquire_inv by blast
next
  case (release p d i st p')
  then show ?case
    using release_effect [of p d i] drop_inv(1) [of p "unat i" d]
    by (auto simp: word_le_nat_alt not_le split: if_splits)
next
  case (release_device p d n p')
  then show ?case
    using release_device_effect [of p d] by (cases "d = 0") (auto simp: XhciPoolReleaseDevice_def)
next
  case (claim p d i st p')
  then show ?case
    using grant_inv(1) [of p "unat i" d] by (auto simp: claim_effect word_le_nat_alt not_le split: if_splits)
next
  case (rehome p a b n p')
  show ?case
  proof (cases "a = 0 \<or> b = 0 \<or> a = b")
    case True
    then show ?thesis using rehome by (auto simp: XhciPoolRehome_def split: if_splits)
  next
    case False
    then show ?thesis using rehome rehome_effect [of p a b] by (auto split: if_splits)
  qed
qed

section \<open>Fairness\<close>

definition pool_acquire_ok ::
    "xhci_ring_pool \<Rightarrow> ulong \<Rightarrow> ulong \<times> ulong \<Rightarrow> bool \<times> xhci_ring_pool" where
  "pool_acquire_ok p d r =
     (case XhciPoolAcquireReserved (Some p) d (fst r) (snd r) of
        (st, pool', _) \<Rightarrow> (st = XHCI_POOL_OK, case pool' of None \<Rightarrow> p | Some p' \<Rightarrow> p'))"

interpretation adm: ring_admission pool_inv "\<lambda>d. d \<noteq> 0" "\<lambda>p. owned_by p 0" owned_by pool_acquire_ok
    "\<lambda>r. unat (fst r)"
proof
  fix p d and r :: "ulong \<times> ulong" and p' assume inv: "pool_inv p" and d: "d \<noteq> (0 :: ulong)"
  obtain st pool' ix where call: "XhciPoolAcquireReserved (Some p) d (fst r) (snd r) = (st, pool', ix)"
    by (metis prod_cases3)
  note c = acquire_cases [OF inv d, of "fst r" "snd r", unfolded call prod.case]
  show "fst (pool_acquire_ok p d r)" if "owned_by p d = 0" "0 < owned_by p 0"
    using c that by (simp add: pool_acquire_ok_def call acquire_answer_def)
  show "pool_inv p' \<and> owned_by p 0 = Suc (owned_by p' 0) \<and> owned_by p' d = Suc (owned_by p d) \<and>
      (\<forall>e. e \<noteq> d \<longrightarrow> e \<noteq> 0 \<longrightarrow> owned_by p' e = owned_by p e) \<and> (owned_by p d = 0 \<or> unat (fst r) \<le> owned_by p' 0)"
    if "pool_acquire_ok p d r = (True, p')"
  proof -
    have ok: "st = XHCI_POOL_OK" using that by (simp add: pool_acquire_ok_def call)
    then obtain i where i: "pool' = Some (pool_grant p i d)" "i < 32" "Owner p ! i = 0" using c by auto
    have p': "p' = pool_grant p i d" using that i by (simp add: pool_acquire_ok_def call)
    have pos: "0 < owned_by p 0" and unf: "owned_by p d = 0 \<or> unat (fst r) \<le> owned_by p 0 - 1"
      using c ok by (auto simp: acquire_answer_def split: if_splits)
    show ?thesis
      using grant_inv [OF inv i(2,3) d] d pos unf unfolding p' by auto
  qed
  show "pool_inv p' \<and> owned_by p' 0 = owned_by p 0 \<and> (\<forall>e. e \<noteq> 0 \<longrightarrow> owned_by p' e = owned_by p e)"
    if "pool_acquire_ok p d r = (False, p')"
  proof -
    have "st \<noteq> XHCI_POOL_OK" using that by (simp add: pool_acquire_ok_def call)
    then obtain q where "pool' = Some q" "Owner q = Owner p" "InUse q = InUse p" "PeakInUse q = PeakInUse p"
      using c by auto
    then show ?thesis using that inv by (simp add: pool_acquire_ok_def call pool_inv_def)
  qed
qed

lemma ringless_without: "ringless_others D p d = card (adm.without D p - {d})"
proof -
  have "{e \<in> D. e \<noteq> d \<and> owned_by p e = 0} = adm.without D p - {d}" by (auto simp: adm.without_def)
  then show ?thesis by (simp add: ringless_others_def)
qed

lemma rehome_fair:
  assumes f: "adm.fair D p" and ab: "a \<in> D" "b \<in> D" and r: "XhciPoolRehome (Some p) a b = (n, Some p')"
  shows "adm.fair D p'"
proof (cases "a = b \<or> owned_by p b \<noteq> 0 \<or> owned_by p a = 0")
  case True
  have inv: "pool_inv p" and nz: "a \<noteq> 0" "b \<noteq> 0" using f ab by (auto simp: adm.fair_def)
  have keep: "map (\<lambda>x. if x = a then b else x) (Owner p) = Owner p" if "owned_by p a = 0"
    using that by (intro map_idI) (auto simp: count_list_0_iff)
  have "Owner p' = Owner p \<and> pool_inv p'"
  proof (cases "a = b")
    case True
    then show ?thesis using r inv by (simp add: XhciPoolRehome_def split: if_splits)
  next
    case False
    then show ?thesis using True r rehome_effect [OF inv nz] inv keep by (auto split: if_splits)
  qed
  then show ?thesis using f by (auto simp: adm.fair_def adm.without_def)
next
  case False
  have inv: "pool_inv p" and nz: "a \<noteq> 0" "b \<noteq> 0" and fin: "finite D"
    using f ab by (auto simp: adm.fair_def)
  note e = rehome_effect [OF inv nz]
  have p': "p' = p\<lparr>Owner := map (\<lambda>x. if x = a then b else x) (Owner p)\<rparr>" using e(1) False r by auto
  have inv': "pool_inv p'" using e(2) False p' by simp
  have o: "owned_by p' x = (if x = a then 0 else if x = b then owned_by p a else owned_by p x)" for x
    using False by (simp add: p' count_replaced)
  have "adm.without D p' = insert a (adm.without D p - {b})"
    using False ab by (auto simp: adm.without_def o)
  moreover have "b \<in> adm.without D p" "a \<notin> adm.without D p" using False ab by (auto simp: adm.without_def)
  ultimately have "card (adm.without D p') = card (adm.without D p)"
    using adm.without_finite [OF fin, of p] card.remove [of "adm.without D p" b] by simp
  moreover have "owned_by p' 0 = owned_by p 0" using o nz by simp
  ultimately show ?thesis using f inv' by (simp add: adm.fair_def)
qed

lemma live_pool_fair:
  assumes "live_pool D p" and D: "finite D" "card D \<le> 32" "0 \<notin> D"
  shows "adm.fair D p"
  using assms(1)
proof (induction rule: live_pool.induct)
  case (init p0 p)
  note i = pool_init [OF init]
  have "count_list (replicate n (0 :: ulong)) 0 = n" for n by (induction n) simp_all
  moreover have "card (adm.without D p) \<le> card D" using D by (intro card_mono) (auto simp: adm.without_def)
  ultimately show ?case using i D by (auto simp: adm.fair_def)
next
  case (acquire p d ringless reserved st p' ix)
  have "pool_acquire_ok p d (ringless, reserved) = (st = XHCI_POOL_OK, p')"
    using acquire(4) by (simp add: pool_acquire_ok_def)
  then show ?case
    using adm.acquire_fair [OF acquire.IH acquire(2), of "(ringless, reserved)"] acquire(3) ringless_without
    by simp
next
  case (release p d i st p')
  have inv: "pool_inv p" using release.IH by (simp add: adm.fair_def)
  show ?case
  proof (cases "d = 0 \<or> 32 \<le> i \<or> Owner p ! unat i \<noteq> d")
    case True
    then show ?thesis using release release_effect [OF inv, of d i] by auto
  next
    case False
    then have i: "unat i < 32" "Owner p ! unat i = d" "d \<noteq> 0" by (auto simp: word_le_nat_alt)
    note dr = drop_inv [OF inv i]
    have p': "p' = p\<lparr>Owner := (Owner p)[unat i := 0], InUse := InUse p - 1\<rparr>"
      using release(2) release_effect [OF inv, of d i] False by auto
    have "0 < owned_by p d" using count_pos_nth [of "unat i" "Owner p"] i inv by (simp add: pool_inv_def)
    then show ?thesis
      by (intro adm.release_fair [OF release.IH, of p' d]) (use dr D(3) i(3) p' in auto)
  qed
next
  case (release_device p d n p')
  have inv: "pool_inv p" using release_device.IH by (simp add: adm.fair_def)
  show ?case
  proof (cases "d = 0")
    case True
    then show ?thesis using release_device by (simp add: XhciPoolReleaseDevice_def)
  next
    case False
    have q: "pool_inv p'" "Owner p' = map (\<lambda>x. if x = d then 0 else x) (Owner p)"
      using release_device_effect [OF inv False] release_device(2) by auto
    show ?thesis
      by (rule adm.release_fair [OF release_device.IH q(1), of d])
        (use D(3) False in \<open>auto simp: q(2) count_replaced\<close>)
  qed
next
  case (rehome p a b n p')
  then show ?case using rehome_fair by blast
qed

text \<open>
  No live device is starved of its first ring. Take any population of at most 32 live devices
  and any history of acquisitions that state the true number of other live devices without a
  ring, releases, whole-device releases and rehomings: a live device that holds no ring is granted
  one the next time it asks, whatever it says about the others, and however the rings are spread.
\<close>

theorem first_ring_guaranteed:
  assumes "live_pool D p" and "finite D" and "card D \<le> 32" and "0 \<notin> D" and "d \<in> D"
    and "XhciPoolDeviceCount (Some p) d = 0"
  shows "fst (XhciPoolAcquire (Some p) d ringless) = XHCI_POOL_OK"
proof -
  have f: "adm.fair D p" by (rule live_pool_fair [OF assms(1-4)])
  then have len: "length (Owner p) = 32" by (simp add: adm.fair_def pool_inv_def)
  have "d \<noteq> 0" using assms(4,5) by auto
  then have "owned_by p d = 0" using device_count(2) [OF len, of d] assms(6) by simp
  from adm.first_unit [OF f assms(5) this, of "(ringless, 0)"] show ?thesis
    by (simp add: pool_acquire_ok_def XhciPoolAcquire_def split: prod.splits)
qed

definition blank_pool :: xhci_ring_pool where
  "blank_pool = \<lparr>Owner = replicate 32 0, InUse = 0, AcquireFailuresEmpty = 0, AcquireFailuresFairness = 0,
     AcquireFailuresCap = 0, PeakInUse = 0\<rparr>"

definition sample_pool :: xhci_ring_pool where
  "sample_pool = \<lparr>Owner = 1 # replicate 31 0, InUse = 1, AcquireFailuresEmpty = 0,
     AcquireFailuresFairness = 0, AcquireFailuresCap = 0, PeakInUse = 1\<rparr>"

lemma blank_live: "live_pool D blank_pool"
proof (rule live_pool.init)
  show "XhciPoolInit (Some blank_pool) = Some blank_pool" by code_simp
qed (simp add: blank_pool_def)

lemma sample_live: "live_pool {1, 2} sample_pool"
proof (rule live_pool.acquire [OF blank_live])
  have "{e \<in> {1, 2 :: ulong}. e \<noteq> 1 \<and> owned_by blank_pool e = 0} = {2}"
    by (auto simp: blank_pool_def)
  then show "unat (1 :: ulong) = ringless_others {1, 2} blank_pool 1" by (simp add: ringless_others_def)
  show "XhciPoolAcquireReserved (Some blank_pool) 1 1 0 = (XHCI_POOL_OK, Some sample_pool, Some 0)"
    by code_simp
qed simp

theorem first_ring_guaranteed_witness:
  "live_pool {1, 2} sample_pool \<and> fst (XhciPoolAcquire (Some sample_pool) 2 0) = XHCI_POOL_OK"
proof -
  have h: "XhciPoolDeviceCount (Some sample_pool) 2 = 0" by code_simp
  have "card {1, 2 :: ulong} \<le> 32" "finite {1, 2 :: ulong}" "0 \<notin> {1, 2 :: ulong}" "2 \<in> {1, 2 :: ulong}"
    by (simp_all add: card_insert_if)
  then show ?thesis using first_ring_guaranteed [OF sample_live _ _ _ _ h] sample_live by blast
qed

section \<open>Functional behaviour\<close>

text \<open>
  The answer of an acquisition is decided by the rings held and free alone, in the order cap,
  empty, fairness; a grant hands out the lowest free ring and changes the owner of that ring only,
  so no ring ever has two owners; a refusal leaves every owner as it was. The count of rings in
  use, the free count and the per-device counts stay exact.
\<close>

theorem pool_acquire_exact:
  assumes "pool_states p" and "d \<noteq> 0"
  shows "case XhciPoolAcquireReserved (Some p) d ringless reserved of (st, pool', ix) \<Rightarrow>
     st = acquire_answer (unat (XhciPoolDeviceCount (Some p) d)) (unat (XhciPoolFree (Some p)))
            (unat ringless) (unat reserved) \<and>
     (\<exists>p'. pool' = Some p' \<and>
        (if st = XHCI_POOL_OK
         then \<exists>i < 32. ix = Some (of_nat i) \<and> Owner p ! i = 0 \<and> (\<forall>j < i. Owner p ! j \<noteq> 0) \<and>
                Owner p' = (Owner p)[i := d] \<and> unat (InUse p') = unat (InUse p) + 1 \<and>
                unat (XhciPoolFree (Some p')) + 1 = unat (XhciPoolFree (Some p))
         else ix = None \<and> Owner p' = Owner p \<and> InUse p' = InUse p))"
proof -
  have inv: "pool_inv p" by (rule states_inv [OF assms(1)])
  have len: "length (Owner p) = 32" using inv by (simp add: pool_inv_def)
  obtain st pool' ix where call: "XhciPoolAcquireReserved (Some p) d ringless reserved = (st, pool', ix)"
    by (metis prod_cases3)
  note c = acquire_cases [OF inv assms(2), of ringless reserved, unfolded call prod.case]
  have st: "st = acquire_answer (unat (XhciPoolDeviceCount (Some p) d)) (unat (XhciPoolFree (Some p)))
            (unat ringless) (unat reserved)"
    using c device_count(2) [OF len, of d] pool_free [OF len] assms(2) by simp
  show ?thesis
  proof (cases "st = XHCI_POOL_OK")
    case True
    then obtain i where i: "ix = Some (of_nat i)" "pool' = Some (pool_grant p i d)" "i < 32"
        "Owner p ! i = 0" "\<forall>j < i. Owner p ! j \<noteq> 0" using c by auto
    have pos: "0 < owned_by p 0" using count_pos_nth [of i "Owner p"] i len by simp
    have g: "pool_inv (pool_grant p i d)" "owned_by (pool_grant p i d) 0 = owned_by p 0 - 1"
      using grant_inv [OF inv i(3,4) assms(2)] by auto
    have "unat (InUse (pool_grant p i d)) = unat (InUse p) + 1"
      using g inv pos owner_zero_bound [OF len, of 0] by (auto simp: pool_inv_def)
    moreover have "unat (XhciPoolFree (Some (pool_grant p i d))) + 1 = unat (XhciPoolFree (Some p))"
      using pool_free [OF len] pool_free [of "pool_grant p i d"] g pos len by simp
    ultimately show ?thesis using call st True i by (auto intro!: exI [of _ i])
  next
    case False
    then show ?thesis using call c st by auto
  qed
qed

lemma blank_states: "pool_states blank_pool"
proof (rule pool_states.init)
  show "XhciPoolInit (Some blank_pool) = Some blank_pool" by code_simp
qed (simp add: blank_pool_def)

theorem pool_acquire_exact_witness:
  "XhciPoolAcquireReserved (Some blank_pool) 1 1 0 = (XHCI_POOL_OK, Some sample_pool, Some 0) \<and>
   unat (InUse sample_pool) = unat (InUse blank_pool) + 1"
proof -
  have a: "XhciPoolAcquireReserved (Some blank_pool) 1 1 0 = (XHCI_POOL_OK, Some sample_pool, Some 0)"
    by code_simp
  have "(1 :: ulong) \<noteq> 0" by simp
  from pool_acquire_exact [OF blank_states this, of 1 0] show ?thesis
    unfolding a prod.case by auto
qed

text \<open>
  The books balance. In every pool the allocator can produce, from initialisation through any
  operations with any arguments, claims after a resume and rehomings included, \<open>InUse\<close> is exactly
  the number of rings that have an owner (it never drifts and never underflows), \<open>XhciPoolFree\<close> is
  the number that have none, and the peak lies between the two and the pool size.
\<close>

theorem pool_accounting:
  assumes "pool_states p"
  shows "unat (InUse p) = length (filter (\<lambda>x. x \<noteq> 0) (Owner p)) \<and>
    unat (XhciPoolFree (Some p)) = length (filter (\<lambda>x. x = 0) (Owner p)) \<and>
    unat (InUse p) + unat (XhciPoolFree (Some p)) = 32 \<and>
    InUse p \<le> PeakInUse p \<and> unat (PeakInUse p) \<le> 32"
proof -
  have inv: "pool_inv p" by (rule states_inv [OF assms])
  then have len: "length (Owner p) = 32" by (simp add: pool_inv_def)
  have "(\<lambda>x. x = 0) = (=) (0 :: ulong)" by auto
  then have z: "length (filter (\<lambda>x. x = 0) (Owner p)) = owned_by p 0"
    by (simp add: count_list_eq_length_filter)
  then have "length (filter (\<lambda>x. x \<noteq> 0) (Owner p)) = 32 - owned_by p 0"
    using sum_length_filter_compl [of "\<lambda>x. x = 0" "Owner p"] len by simp
  then show ?thesis
    using inv pool_free [OF len] z owner_zero_bound [OF len, of 0] by (auto simp: pool_inv_def)
qed

theorem pool_accounting_witness:
  "pool_states blank_pool \<and> unat (InUse blank_pool) + unat (XhciPoolFree (Some blank_pool)) = 32"
  using pool_accounting [OF blank_states] blank_states by blast

text \<open>
  Giving rings back undoes taking them, and nothing else. A release by the owner frees exactly
  that ring and any other release is refused unchanged; releasing a device frees exactly its rings
  and returns their number; rehoming to a device without rings moves exactly the rings of the old
  owner and returns their number, and is refused whole otherwise.
\<close>

theorem pool_give_back_exact:
  assumes "pool_states p" and "d \<noteq> 0" and "e \<noteq> 0" and "d \<noteq> e"
  shows "(case XhciPoolRelease (Some p) d i of (st, pool') \<Rightarrow>
       if i < 32 \<and> Owner p ! unat i = d
       then st = XHCI_POOL_OK \<and> (\<exists>q. pool' = Some q \<and> pool_inv q \<and> Owner q = (Owner p)[unat i := 0])
       else st = XHCI_POOL_BAD_PARAM \<and> pool' = Some p) \<and>
    (case XhciPoolReleaseDevice (Some p) d of (n, pool') \<Rightarrow>
       n = XhciPoolDeviceCount (Some p) d \<and>
       (\<exists>q. pool' = Some q \<and> pool_inv q \<and> Owner q = map (\<lambda>x. if x = d then 0 else x) (Owner p))) \<and>
    (case XhciPoolRehome (Some p) d e of (n, pool') \<Rightarrow>
       if XhciPoolDeviceCount (Some p) e = 0
       then n = XhciPoolDeviceCount (Some p) d \<and>
         (\<exists>q. pool' = Some q \<and> pool_inv q \<and> Owner q = map (\<lambda>x. if x = d then e else x) (Owner p))
       else n = 0 \<and> pool' = Some p)"
proof -
  have inv: "pool_inv p" by (rule states_inv [OF assms(1)])
  have len: "length (Owner p) = 32" using inv by (simp add: pool_inv_def)
  have "case XhciPoolRelease (Some p) d i of (st, pool') \<Rightarrow>
       if i < 32 \<and> Owner p ! unat i = d
       then st = XHCI_POOL_OK \<and> (\<exists>q. pool' = Some q \<and> pool_inv q \<and> Owner q = (Owner p)[unat i := 0])
       else st = XHCI_POOL_BAD_PARAM \<and> pool' = Some p"
    using release_effect [OF inv, of d i] drop_inv(1) [OF inv, of "unat i" d] assms(2)
    by (auto simp: word_less_nat_alt word_le_nat_alt)
  moreover have "case XhciPoolReleaseDevice (Some p) d of (n, pool') \<Rightarrow>
       n = XhciPoolDeviceCount (Some p) d \<and>
       (\<exists>q. pool' = Some q \<and> pool_inv q \<and> Owner q = map (\<lambda>x. if x = d then 0 else x) (Owner p))"
    using release_device_effect [OF inv assms(2)] device_count(1) [OF len, of d] assms(2) by auto
  moreover have "XhciPoolDeviceCount (Some p) e = 0 \<longleftrightarrow> owned_by p e = 0"
    using device_count(2) [OF len, of e] unat_eq_iff [of "XhciPoolDeviceCount (Some p) e" 0] assms(3) by simp
  ultimately show ?thesis
    using rehome_effect [OF inv assms(2,3,4)] device_count(1) [OF len, of d] assms(2) by simp
qed

theorem pool_give_back_exact_witness:
  "fst (XhciPoolRelease (Some blank_pool) 1 0) = XHCI_POOL_BAD_PARAM"
proof -
  have "\<not> ((0 :: ulong) < 32 \<and> Owner blank_pool ! unat (0 :: ulong) = 1)" by code_simp
  then show ?thesis
    using pool_give_back_exact [OF blank_states, of 1 2 0] by (auto split: prod.splits)
qed

end
