(* ===== verification/Xhci_Port.thy ===== *)
theory Xhci_Port
  imports Xhci_Prelude
begin

text \<open>
  Ports (\<open>xhci_port.c\<close>, with the port map accessors of \<open>xhci_caps.c\<close>): the values written to PORTSC,
  the map between hub ports and controller ports, the shadow of a port with its latched changes,
  and the generations that decide whether a timer's callback is current. The experimental field
  behind \<open>XHCI_FIX_ACK_OWED\<close> is left out, as in the shipping build.
\<close>

section \<open>PORTSC values\<close>

abbreviation (input) XHCI_PORTSC_CCS :: ulong where "XHCI_PORTSC_CCS \<equiv> 0x00000001"
abbreviation (input) XHCI_PORTSC_PED :: ulong where "XHCI_PORTSC_PED \<equiv> 0x00000002"
abbreviation (input) XHCI_PORTSC_OCA :: ulong where "XHCI_PORTSC_OCA \<equiv> 0x00000008"
abbreviation (input) XHCI_PORTSC_PR :: ulong where "XHCI_PORTSC_PR \<equiv> 0x00000010"
abbreviation (input) XHCI_PORTSC_PLS_MASK :: ulong where "XHCI_PORTSC_PLS_MASK \<equiv> 0x000001E0"
abbreviation (input) XHCI_PORTSC_PP :: ulong where "XHCI_PORTSC_PP \<equiv> 0x00000200"
abbreviation (input) XHCI_PORTSC_PIC_MASK :: ulong where "XHCI_PORTSC_PIC_MASK \<equiv> 0x0000C000"
abbreviation (input) XHCI_PORTSC_LWS :: ulong where "XHCI_PORTSC_LWS \<equiv> 0x00010000"
abbreviation (input) XHCI_PORTSC_CSC :: ulong where "XHCI_PORTSC_CSC \<equiv> 0x00020000"
abbreviation (input) XHCI_PORTSC_PEC :: ulong where "XHCI_PORTSC_PEC \<equiv> 0x00040000"
abbreviation (input) XHCI_PORTSC_WRC :: ulong where "XHCI_PORTSC_WRC \<equiv> 0x00080000"
abbreviation (input) XHCI_PORTSC_OCC :: ulong where "XHCI_PORTSC_OCC \<equiv> 0x00100000"
abbreviation (input) XHCI_PORTSC_PRC :: ulong where "XHCI_PORTSC_PRC \<equiv> 0x00200000"
abbreviation (input) XHCI_PORTSC_PLC :: ulong where "XHCI_PORTSC_PLC \<equiv> 0x00400000"
abbreviation (input) XHCI_PORTSC_CEC :: ulong where "XHCI_PORTSC_CEC \<equiv> 0x00800000"
abbreviation (input) XHCI_PORTSC_WCE :: ulong where "XHCI_PORTSC_WCE \<equiv> 0x02000000"
abbreviation (input) XHCI_PORTSC_WDE :: ulong where "XHCI_PORTSC_WDE \<equiv> 0x04000000"
abbreviation (input) XHCI_PORTSC_WOE :: ulong where "XHCI_PORTSC_WOE \<equiv> 0x08000000"
abbreviation (input) XHCI_PORTSC_WPR :: ulong where "XHCI_PORTSC_WPR \<equiv> 0x80000000"
abbreviation (input) XHCI_PORTSC_RSVDZ_MASK :: ulong where "XHCI_PORTSC_RSVDZ_MASK \<equiv> 0x30000004"
abbreviation (input) XHCI_PLS_U0 :: ulong where "XHCI_PLS_U0 \<equiv> 0"
abbreviation (input) XHCI_PLS_U3 :: ulong where "XHCI_PLS_U3 \<equiv> 3"
abbreviation (input) XHCI_PLS_RX_DETECT :: ulong where "XHCI_PLS_RX_DETECT \<equiv> 5"
abbreviation (input) XHCI_PLS_RESUME :: ulong where "XHCI_PLS_RESUME \<equiv> 15"

definition XHCI_PORTSC_CHANGE_MASK :: ulong where
  "XHCI_PORTSC_CHANGE_MASK =
     XHCI_PORTSC_CSC OR XHCI_PORTSC_PEC OR XHCI_PORTSC_WRC OR XHCI_PORTSC_OCC OR XHCI_PORTSC_PRC OR
     XHCI_PORTSC_PLC OR XHCI_PORTSC_CEC"

definition XHCI_PORTSC_UNSAFE_MASK :: ulong where
  "XHCI_PORTSC_UNSAFE_MASK =
     XHCI_PORTSC_PED OR XHCI_PORTSC_PR OR XHCI_PORTSC_WPR OR XHCI_PORTSC_LWS OR
     XHCI_PORTSC_CHANGE_MASK OR XHCI_PORTSC_RSVDZ_MASK"

definition XHCI_PORTSC_GET_PLS :: "ulong \<Rightarrow> ulong" where
  "XHCI_PORTSC_GET_PLS v = drop_bit 5 (v AND XHCI_PORTSC_PLS_MASK)"

definition XhciPortscNeutral :: "ulong \<Rightarrow> ulong" where
  "XhciPortscNeutral portsc = portsc AND NOT XHCI_PORTSC_UNSAFE_MASK"

definition XhciPortscWith :: "ulong \<Rightarrow> ulong \<Rightarrow> ulong" where
  "XhciPortscWith portsc bits = XhciPortscNeutral portsc OR bits"

definition XhciPortscClearChanges :: "ulong \<Rightarrow> ulong \<Rightarrow> ulong" where
  "XhciPortscClearChanges portsc changeBits =
     XhciPortscNeutral portsc OR (changeBits AND XHCI_PORTSC_CHANGE_MASK)"

definition XhciPortscSetLinkState :: "ulong \<Rightarrow> ulong \<Rightarrow> ulong" where
  "XhciPortscSetLinkState portsc pls =
     (let value = XhciPortscNeutral portsc AND NOT XHCI_PORTSC_PLS_MASK;
          value = value OR (push_bit 5 pls AND XHCI_PORTSC_PLS_MASK)
      in value OR XHCI_PORTSC_LWS)"

definition XhciPortscPower :: "ulong \<Rightarrow> ulong \<Rightarrow> ulong" where
  "XhciPortscPower portsc on =
     (if on \<noteq> 0 then XhciPortscWith portsc XHCI_PORTSC_PP
      else XhciPortscNeutral portsc AND NOT XHCI_PORTSC_PP)"

definition XhciPortscReset :: "ulong \<Rightarrow> ulong" where
  "XhciPortscReset portsc = XhciPortscWith portsc XHCI_PORTSC_PR"

definition XhciPortscDisable :: "ulong \<Rightarrow> ulong" where
  "XhciPortscDisable portsc = XhciPortscWith portsc XHCI_PORTSC_PED"

definition XhciPortscSuspend :: "ulong \<Rightarrow> ulong" where
  "XhciPortscSuspend portsc = XhciPortscSetLinkState portsc XHCI_PLS_U3"

definition XhciPortscResumeSignal :: "ulong \<Rightarrow> ulong" where
  "XhciPortscResumeSignal portsc = XhciPortscSetLinkState portsc XHCI_PLS_RESUME"

definition XhciPortscResumeDone :: "ulong \<Rightarrow> ulong" where
  "XhciPortscResumeDone portsc = XhciPortscSetLinkState portsc XHCI_PLS_U0"

definition XhciPortscWarmReset :: "ulong \<Rightarrow> ulong" where
  "XhciPortscWarmReset portsc = XhciPortscWith portsc XHCI_PORTSC_WPR"

definition XhciPortscRxDetect :: "ulong \<Rightarrow> ulong" where
  "XhciPortscRxDetect portsc = XhciPortscSetLinkState portsc XHCI_PLS_RX_DETECT"

section \<open>The port map\<close>

abbreviation (input) XHCI_MAX_ROOT_PORTS :: ulong where "XHCI_MAX_ROOT_PORTS \<equiv> 255"
abbreviation (input) XHCI_PORT_CLASS_NONE :: uchar where "XHCI_PORT_CLASS_NONE \<equiv> 0"
abbreviation (input) XHCI_PORT_CLASS_USB3_COMPANION :: uchar where "XHCI_PORT_CLASS_USB3_COMPANION \<equiv> 3"
abbreviation (input) XHCI_PORT_CLASS_USB3_ORPHAN :: uchar where "XHCI_PORT_CLASS_USB3_ORPHAN \<equiv> 4"

record xhci_protocol =
  Major :: ulong
  Minor :: ulong
  PortOffset :: ulong
  GroupPortCount :: ulong
  SlotType :: ulong
  PsiCount :: ulong
  Psi :: "ulong list"

record xhci_port_map =
  MapPortCount :: ulong
  ProtocolCount :: ulong
  ManagedPortCount :: ulong
  LegacySupportOffset :: ulong
  DebugCapabilityOffset :: ulong
  Protocols :: "xhci_protocol list"
  PortClasses :: "uchar list"
  PortProtocol :: "uchar list"
  Companion :: "uchar list"
  Reserved :: "uchar list"

definition XhciPortClass :: "xhci_port_map \<Rightarrow> ulong \<Rightarrow> uchar" where
  "XhciPortClass pm port =
     (if port = 0 \<or> port > MapPortCount pm \<or> port > XHCI_MAX_ROOT_PORTS then XHCI_PORT_CLASS_NONE
      else PortClasses pm ! unat (port - 1))"

definition XhciPortIsManaged :: "xhci_port_map \<Rightarrow> ulong \<Rightarrow> bool" where
  "XhciPortIsManaged pm port \<longleftrightarrow> XhciPortClass pm port \<noteq> XHCI_PORT_CLASS_NONE"

definition XhciPortIsUsb3 :: "xhci_port_map \<Rightarrow> ulong \<Rightarrow> bool" where
  "XhciPortIsUsb3 pm port \<longleftrightarrow>
     XhciPortClass pm port = XHCI_PORT_CLASS_USB3_COMPANION \<or>
     XhciPortClass pm port = XHCI_PORT_CLASS_USB3_ORPHAN"

section \<open>The port shadow\<close>

abbreviation (input) XHCI_HUB_C_PORT_CONNECTION :: ulong where "XHCI_HUB_C_PORT_CONNECTION \<equiv> 0x0001"
abbreviation (input) XHCI_HUB_C_PORT_ENABLE :: ulong where "XHCI_HUB_C_PORT_ENABLE \<equiv> 0x0002"
abbreviation (input) XHCI_HUB_C_PORT_SUSPEND :: ulong where "XHCI_HUB_C_PORT_SUSPEND \<equiv> 0x0004"
abbreviation (input) XHCI_HUB_C_PORT_OVER_CURRENT :: ulong where "XHCI_HUB_C_PORT_OVER_CURRENT \<equiv> 0x0008"
abbreviation (input) XHCI_HUB_C_PORT_RESET :: ulong where "XHCI_HUB_C_PORT_RESET \<equiv> 0x0010"
abbreviation (input) XHCI_HUB_C_PORT_MASK :: ulong where "XHCI_HUB_C_PORT_MASK \<equiv> 0x001F"
abbreviation (input) XHCI_HUB_PORT_CONNECTION :: ulong where "XHCI_HUB_PORT_CONNECTION \<equiv> 0x0001"
abbreviation (input) XHCI_HUB_PORT_ENABLE :: ulong where "XHCI_HUB_PORT_ENABLE \<equiv> 0x0002"
abbreviation (input) XHCI_HUB_PORT_SUSPEND :: ulong where "XHCI_HUB_PORT_SUSPEND \<equiv> 0x0004"
abbreviation (input) XHCI_HUB_PORT_OVER_CURRENT :: ulong where "XHCI_HUB_PORT_OVER_CURRENT \<equiv> 0x0008"
abbreviation (input) XHCI_HUB_PORT_RESET :: ulong where "XHCI_HUB_PORT_RESET \<equiv> 0x0010"
abbreviation (input) XHCI_HUB_PORT_POWER :: ulong where "XHCI_HUB_PORT_POWER \<equiv> 0x0100"
abbreviation (input) XHCI_HUB_PORT_HIGH_SPEED :: ulong where "XHCI_HUB_PORT_HIGH_SPEED \<equiv> 0x0400"
abbreviation (input) XHCI_PORT_OP_NONE :: ulong where "XHCI_PORT_OP_NONE \<equiv> 0"
abbreviation (input) XHCI_SPEED_UNKNOWN :: uchar where "XHCI_SPEED_UNKNOWN \<equiv> 0"

record xhci_port_shadow =
  Portsc :: ulong
  Generation :: ulong
  Changes :: uchar
  Speed :: uchar
  Armed :: uchar
  ArmPending :: uchar
  DisownPending :: uchar
  DisownWantsPp :: uchar
  AgeStamp :: ulong
  AgeArmed :: uchar
  PpPending :: uchar
  PpWanted :: uchar
  PpArmed :: uchar
  PpStamp :: ulong

definition xhciPortLeftSuspend :: "ulong \<Rightarrow> ulong \<Rightarrow> bool" where
  "xhciPortLeftSuspend previous portsc =
     (let was = XHCI_PORTSC_GET_PLS previous;
          now = XHCI_PORTSC_GET_PLS portsc
      in if was \<noteq> XHCI_PLS_U3 \<and> was \<noteq> XHCI_PLS_RESUME then False
         else if now = XHCI_PLS_U3 \<or> now = XHCI_PLS_RESUME then False
         else if portsc AND XHCI_PORTSC_PED = 0 \<or> portsc AND XHCI_PORTSC_CCS = 0 then False
         else True)"

text \<open>The hub-class changes a reading latches.\<close>

definition shadow_latched :: "ulong \<Rightarrow> ulong \<Rightarrow> ulong" where
  "shadow_latched previous portsc =
     (let latched = 0;
          latched = (if portsc AND XHCI_PORTSC_CSC \<noteq> 0 then latched OR XHCI_HUB_C_PORT_CONNECTION else latched);
          latched = (if portsc AND XHCI_PORTSC_PEC \<noteq> 0 then latched OR XHCI_HUB_C_PORT_ENABLE else latched);
          latched = (if portsc AND XHCI_PORTSC_OCC \<noteq> 0 then latched OR XHCI_HUB_C_PORT_OVER_CURRENT else latched);
          latched = (if portsc AND XHCI_PORTSC_PRC \<noteq> 0 then latched OR XHCI_HUB_C_PORT_RESET else latched);
          latched = (if portsc AND XHCI_PORTSC_PLC \<noteq> 0 \<and> xhciPortLeftSuspend previous portsc
                     then latched OR XHCI_HUB_C_PORT_SUSPEND else latched)
      in latched)"

text \<open>Results of \<open>XhciPortShadowUpdate\<close>: the latched bits, the bits to acknowledge, the shadow.\<close>

definition XhciPortShadowUpdate ::
    "xhci_port_shadow option \<Rightarrow> ulong \<Rightarrow> ulong \<Rightarrow> ulong \<times> ulong \<times> xhci_port_shadow option" where
  "XhciPortShadowUpdate shadow portsc speedClass =
     (case shadow of
        None \<Rightarrow> (0, 0, shadow)
      | Some s \<Rightarrow>
          if portsc = 0xFFFFFFFF then (0, 0, shadow)
          else
            let latched = shadow_latched (Portsc s) portsc;
                ackBits = portsc AND XHCI_PORTSC_CHANGE_MASK;
                s = s\<lparr>Portsc := portsc,
                      Changes := ucast ((ucast (Changes s) OR latched) AND XHCI_HUB_C_PORT_MASK)\<rparr>;
                s = (if portsc AND XHCI_PORTSC_CCS \<noteq> 0 then s\<lparr>Speed := ucast speedClass\<rparr>
                     else s\<lparr>Speed := XHCI_SPEED_UNKNOWN\<rparr>)
            in (latched, ackBits, Some s))"

definition XhciPortShadowReport :: "xhci_port_shadow option \<Rightarrow> ulong \<times> ulong" where
  "XhciPortShadowReport shadow =
     (case shadow of
        None \<Rightarrow> (0, 0)
      | Some s \<Rightarrow>
          let portsc = Portsc s;
              status = 0;
              status = (if portsc AND XHCI_PORTSC_CCS \<noteq> 0 then status OR XHCI_HUB_PORT_CONNECTION else status);
              status = (if portsc AND XHCI_PORTSC_PED \<noteq> 0 then status OR XHCI_HUB_PORT_ENABLE else status);
              status = (if portsc AND XHCI_PORTSC_OCA \<noteq> 0 then status OR XHCI_HUB_PORT_OVER_CURRENT else status);
              status = (if portsc AND XHCI_PORTSC_PR \<noteq> 0 then status OR XHCI_HUB_PORT_RESET else status);
              status = (if portsc AND XHCI_PORTSC_PP \<noteq> 0 then status OR XHCI_HUB_PORT_POWER else status);
              status = (if XHCI_PORTSC_GET_PLS portsc = XHCI_PLS_U3 \<or>
                           XHCI_PORTSC_GET_PLS portsc = XHCI_PLS_RESUME
                        then status OR XHCI_HUB_PORT_SUSPEND else status);
              status = (if portsc AND XHCI_PORTSC_CCS \<noteq> 0 then status OR XHCI_HUB_PORT_HIGH_SPEED else status)
          in (status, ucast (Changes s) AND XHCI_HUB_C_PORT_MASK))"

definition XhciPortShadowClearChange ::
    "xhci_port_shadow option \<Rightarrow> ulong \<Rightarrow> bool \<times> xhci_port_shadow option" where
  "XhciPortShadowClearChange shadow changeBit =
     (case shadow of
        None \<Rightarrow> (False, shadow)
      | Some s \<Rightarrow>
          if changeBit = 0 \<or> changeBit AND NOT XHCI_HUB_C_PORT_MASK \<noteq> 0 then (False, shadow)
          else
            let had = ucast (Changes s) AND changeBit \<noteq> 0
            in (had, Some (s\<lparr>Changes := ucast ((ucast (Changes s) :: ulong) AND NOT changeBit)\<rparr>)))"

definition XhciPortShadowLatchChange ::
    "xhci_port_shadow option \<Rightarrow> ulong \<Rightarrow> xhci_port_shadow option" where
  "XhciPortShadowLatchChange shadow changeBits =
     map_option (\<lambda>s. s\<lparr>Changes := ucast ((ucast (Changes s) OR changeBits) AND XHCI_HUB_C_PORT_MASK)\<rparr>) shadow"

section \<open>Armed operations\<close>

definition XhciPortShadowNextGeneration :: "xhci_port_shadow option \<Rightarrow> ulong" where
  "XhciPortShadowNextGeneration shadow =
     (case shadow of
        None \<Rightarrow> 0
      | Some s \<Rightarrow> let generation = Generation s + 1 in if generation = 0 then 1 else generation)"

definition XhciPortShadowArm ::
    "xhci_port_shadow option \<Rightarrow> ulong \<Rightarrow> ulong \<times> xhci_port_shadow option" where
  "XhciPortShadowArm shadow operation =
     (case shadow of
        None \<Rightarrow> (0, shadow)
      | Some s \<Rightarrow>
          if operation = XHCI_PORT_OP_NONE then (0, shadow)
          else if ucast (Armed s) \<noteq> XHCI_PORT_OP_NONE then (0, shadow)
          else
            let generation = XhciPortShadowNextGeneration shadow
            in (generation, Some (s\<lparr>Generation := generation, Armed := ucast operation, AgeArmed := 0\<rparr>)))"

definition XhciPortShadowPpArm :: "xhci_port_shadow option \<Rightarrow> ulong \<Rightarrow> xhci_port_shadow option" where
  "XhciPortShadowPpArm shadow wanted =
     map_option (\<lambda>s. s\<lparr>PpPending := 1, PpWanted := (if wanted \<noteq> 0 then 1 else 0), PpArmed := 0\<rparr>) shadow"

definition XhciPortShadowPpSettled ::
    "xhci_port_shadow option \<Rightarrow> ulong \<Rightarrow> bool \<times> xhci_port_shadow option" where
  "XhciPortShadowPpSettled shadow portsc =
     (case shadow of
        None \<Rightarrow> (False, shadow)
      | Some s \<Rightarrow>
          if PpPending s = 0 then (True, shadow)
          else if portsc = 0xFFFFFFFF then (False, shadow)
          else
            let now = (if portsc AND XHCI_PORTSC_PP \<noteq> 0 then 1 else 0)
            in if now \<noteq> (ucast (PpWanted s) :: ulong) then (False, shadow)
               else (True, Some (s\<lparr>PpPending := 0, PpArmed := 0\<rparr>)))"

definition XhciPortShadowPpAge ::
    "xhci_port_shadow option \<Rightarrow> ulong \<Rightarrow> ulong \<Rightarrow> bool \<times> xhci_port_shadow option" where
  "XhciPortShadowPpAge shadow now limitMs =
     (case shadow of
        None \<Rightarrow> (False, shadow)
      | Some s \<Rightarrow>
          if PpPending s = 0 then (False, shadow)
          else if PpArmed s = 0 then (False, Some (s\<lparr>PpArmed := 1, PpStamp := now\<rparr>))
          else if now - PpStamp s < limitMs then (False, shadow)
          else (True, Some (s\<lparr>PpPending := 0, PpArmed := 0\<rparr>)))"

definition XhciPortShadowAge ::
    "xhci_port_shadow option \<Rightarrow> ulong \<Rightarrow> ulong \<Rightarrow> bool \<times> xhci_port_shadow option" where
  "XhciPortShadowAge shadow now limitMs =
     (case shadow of
        None \<Rightarrow> (False, shadow)
      | Some s \<Rightarrow>
          if ucast (Armed s) = XHCI_PORT_OP_NONE then (False, Some (s\<lparr>AgeArmed := 0\<rparr>))
          else if AgeArmed s = 0 then (False, Some (s\<lparr>AgeArmed := 1, AgeStamp := now\<rparr>))
          else if now - AgeStamp s < limitMs then (False, shadow)
          else (True, Some (s\<lparr>AgeArmed := 0\<rparr>)))"

definition XhciPortShadowClaim ::
    "xhci_port_shadow option \<Rightarrow> ulong \<Rightarrow> ulong \<Rightarrow> bool \<times> xhci_port_shadow option" where
  "XhciPortShadowClaim shadow operation generation =
     (case shadow of
        None \<Rightarrow> (False, shadow)
      | Some s \<Rightarrow>
          if generation = 0 then (False, shadow)
          else if ucast (Armed s) \<noteq> operation \<or> Generation s \<noteq> generation then (False, shadow)
          else (True, Some (s\<lparr>Armed := 0, ArmPending := 0\<rparr>)))"

definition XhciPortShadowDisarm :: "xhci_port_shadow option \<Rightarrow> bool \<times> xhci_port_shadow option" where
  "XhciPortShadowDisarm shadow =
     (case shadow of
        None \<Rightarrow> (False, shadow)
      | Some s \<Rightarrow>
          let was = ucast (Armed s) \<noteq> XHCI_PORT_OP_NONE;
              s = s\<lparr>Armed := 0, ArmPending := 0\<rparr>;
              s = s\<lparr>Generation := Generation s + 1\<rparr>;
              s = (if Generation s = 0 then s\<lparr>Generation := 1\<rparr> else s)
          in (was, Some s))"

section \<open>The hub-port map\<close>

datatype rh_status = XHCI_RH_OK | XHCI_RH_BAD_PARAM | XHCI_RH_NO_PORTS

record xhci_root_hub =
  RhPortCount :: ulong
  RhStatus :: rh_status
  HubToPort :: "uchar list"
  PortToHub :: "uchar list"
  Ports :: "xhci_port_shadow list"

definition shadow_rebuilt :: "xhci_port_shadow \<Rightarrow> xhci_port_shadow" where
  "shadow_rebuilt s =
     (let g = Generation s + 1 in
      \<lparr>Portsc = 0, Generation = (if g = 0 then 1 else g), Changes = 0, Speed = XHCI_SPEED_UNKNOWN,
       Armed = 0, ArmPending = 0, DisownPending = 0, DisownWantsPp = 0, AgeStamp = 0, AgeArmed = 0,
       PpPending = 0, PpWanted = 0, PpArmed = 0, PpStamp = 0\<rparr>)"

text \<open>The arrays have 255 entries; the clearing loop runs over all of them.\<close>

definition root_hub_clear :: "xhci_root_hub \<Rightarrow> xhci_root_hub" where
  "root_hub_clear rh =
     \<lparr>RhPortCount = 0, RhStatus = XHCI_RH_NO_PORTS, HubToPort = map (\<lambda>_. 0) (HubToPort rh),
      PortToHub = map (\<lambda>_. 0) (PortToHub rh), Ports = map shadow_rebuilt (Ports rh)\<rparr>"

definition rh_build_step ::
    "xhci_port_map \<Rightarrow> xhci_root_hub \<times> ulong \<Rightarrow> ulong \<Rightarrow> xhci_root_hub \<times> ulong" where
  "rh_build_step pm s port =
     (case s of (rh, hubPort) \<Rightarrow>
        if \<not> XhciPortIsManaged pm port \<or> XhciPortIsUsb3 pm port then s
        else
          let hubPort = hubPort + 1
          in (rh\<lparr>HubToPort := (HubToPort rh)[unat (hubPort - 1) := ucast port],
                PortToHub := (PortToHub rh)[unat (port - 1) := ucast hubPort]\<rparr>, hubPort))"

definition XhciRootHubBuild ::
    "xhci_port_map option \<Rightarrow> xhci_root_hub option \<Rightarrow> rh_status \<times> xhci_root_hub option" where
  "XhciRootHubBuild pm rh =
     (case (pm, rh) of
        (Some m, Some r) \<Rightarrow>
          (case foldl (rh_build_step m) (root_hub_clear r, 0)
                  (map of_nat [1..<Suc (min (unat (MapPortCount m)) 255)]) of
             (r, hubPort) \<Rightarrow>
               let r = r\<lparr>RhPortCount := hubPort,
                         RhStatus := (if hubPort > 0 then XHCI_RH_OK else XHCI_RH_NO_PORTS)\<rparr>
               in (RhStatus r, Some r))
      | _ \<Rightarrow> (XHCI_RH_BAD_PARAM, rh))"

definition XhciRootHubPortOf :: "xhci_root_hub option \<Rightarrow> ulong \<Rightarrow> ulong" where
  "XhciRootHubPortOf rh hubPort =
     (case rh of
        None \<Rightarrow> 0
      | Some r \<Rightarrow>
          if RhStatus r \<noteq> XHCI_RH_OK then 0
          else if hubPort = 0 \<or> hubPort > RhPortCount r then 0
          else ucast (HubToPort r ! unat (hubPort - 1)))"

definition XhciRootHubHubPortOf :: "xhci_root_hub option \<Rightarrow> ulong \<Rightarrow> ulong" where
  "XhciRootHubHubPortOf rh port =
     (case rh of
        None \<Rightarrow> 0
      | Some r \<Rightarrow>
          if RhStatus r \<noteq> XHCI_RH_OK then 0
          else if port = 0 \<or> port > XHCI_MAX_ROOT_PORTS then 0
          else ucast (PortToHub r ! unat (port - 1)))"

section \<open>What a PORTSC write does\<close>

text \<open>
  The effect of writing a value to PORTSC, by the access types noted beside the bit definitions:
  a 1 in a change bit or in PED clears it (PED: disables the port), a 1 in PR or WPR starts a
  reset, PLS is taken only with LWS, the read-write bits take the value written, reserved bits are
  to be written 0, and read-only bits do not matter.
\<close>

record portsc_effect =
  Disables :: bool
  StartsReset :: bool
  StartsWarmReset :: bool
  LinkCommand :: "ulong option"
  ClearsChanges :: ulong
  Powered :: bool
  Settings :: ulong
  ReservedBits :: ulong

definition portsc_write :: "ulong \<Rightarrow> portsc_effect" where
  "portsc_write w =
     \<lparr>Disables = (w AND XHCI_PORTSC_PED \<noteq> 0), StartsReset = (w AND XHCI_PORTSC_PR \<noteq> 0),
      StartsWarmReset = (w AND XHCI_PORTSC_WPR \<noteq> 0),
      LinkCommand = (if w AND XHCI_PORTSC_LWS \<noteq> 0 then Some (XHCI_PORTSC_GET_PLS w) else None),
      ClearsChanges = w AND XHCI_PORTSC_CHANGE_MASK, Powered = (w AND XHCI_PORTSC_PP \<noteq> 0),
      Settings = w AND (XHCI_PORTSC_PIC_MASK OR XHCI_PORTSC_WCE OR XHCI_PORTSC_WDE OR XHCI_PORTSC_WOE),
      ReservedBits = w AND XHCI_PORTSC_RSVDZ_MASK\<rparr>"

text \<open>Nothing happens: power and settings stay as they were read.\<close>

definition no_effect :: "ulong \<Rightarrow> portsc_effect" where
  "no_effect v =
     \<lparr>Disables = False, StartsReset = False, StartsWarmReset = False, LinkCommand = None,
      ClearsChanges = 0, Powered = (v AND XHCI_PORTSC_PP \<noteq> 0),
      Settings = v AND (XHCI_PORTSC_PIC_MASK OR XHCI_PORTSC_WCE OR XHCI_PORTSC_WDE OR XHCI_PORTSC_WOE),
      ReservedBits = 0\<rparr>"

lemma portsc_masks:
  "XHCI_PORTSC_CHANGE_MASK = 0x00FE0000" "XHCI_PORTSC_UNSAFE_MASK = 0xB0FF0016"
  by (simp_all add: XHCI_PORTSC_CHANGE_MASK_def XHCI_PORTSC_UNSAFE_MASK_def)

lemma and_or_select:
  fixes v b u m :: ulong
  shows "((v AND u) OR b) AND m = (v AND (u AND m)) OR (b AND m)"
  by (simp add: bit.conj_disj_distrib2 and.assoc)

lemma clear_select:
  fixes v b m x :: ulong
  shows "(v AND u) AND m = v AND (u AND m)" "((b AND x) AND m) = b AND (x AND m)"
  by (simp_all add: and.assoc)

lemma mask_complements: "(- 2969502199 :: ulong) = 1325465097" "(- 2969501719 :: ulong) = 1325465577"
  by simp_all

lemma link_state_value:
  "XhciPortscSetLinkState v p = (v AND 0x4F00FE09) OR ((push_bit 5 p AND 0x1E0) OR 0x10000)"
  by (simp add: XhciPortscSetLinkState_def XhciPortscNeutral_def portsc_masks Let_def and.assoc or.assoc mask_complements)

lemma neutral_value: "XhciPortscNeutral v = v AND 0x4F00FFE9"
  by (simp add: XhciPortscNeutral_def portsc_masks mask_complements)

lemma pls_field: "drop_bit 5 (push_bit 5 p) AND 15 = (p :: ulong) AND 15"
proof (rule bit_eqI)
  fix n
  show "bit (drop_bit 5 (push_bit 5 p) AND 15) n = bit (p AND 15) n"
    unfolding bit_and_iff bit_mask_15 bit_drop_bit_eq comp_def bit_push_bit_iff
    by (auto simp: possible_bit_word)
qed

text \<open>
  Every PORTSC value the driver writes has its intended effect and no other. Against any value
  read from the register: the neutral value does nothing; powering sets only the power; reset,
  warm reset and disable trigger only themselves; clearing changes clears exactly the named change
  bits; the link-state writes command exactly their link state. None disables the port, starts a
  reset, drops a change, alters power, wake or indicator settings or writes a reserved bit by
  carrying back what was read.
\<close>

theorem portsc_writes_exact:
  "portsc_write (XhciPortscNeutral v) = no_effect v \<and>
   portsc_write (XhciPortscPower v on) = (no_effect v)\<lparr>Powered := (on \<noteq> 0)\<rparr> \<and>
   portsc_write (XhciPortscReset v) = (no_effect v)\<lparr>StartsReset := True\<rparr> \<and>
   portsc_write (XhciPortscWarmReset v) = (no_effect v)\<lparr>StartsWarmReset := True\<rparr> \<and>
   portsc_write (XhciPortscDisable v) = (no_effect v)\<lparr>Disables := True\<rparr> \<and>
   portsc_write (XhciPortscClearChanges v c) =
     (no_effect v)\<lparr>ClearsChanges := c AND XHCI_PORTSC_CHANGE_MASK\<rparr> \<and>
   portsc_write (XhciPortscSetLinkState v pls) = (no_effect v)\<lparr>LinkCommand := Some (pls AND 15)\<rparr> \<and>
   portsc_write (XhciPortscSuspend v) = (no_effect v)\<lparr>LinkCommand := Some XHCI_PLS_U3\<rparr> \<and>
   portsc_write (XhciPortscResumeSignal v) = (no_effect v)\<lparr>LinkCommand := Some XHCI_PLS_RESUME\<rparr> \<and>
   portsc_write (XhciPortscResumeDone v) = (no_effect v)\<lparr>LinkCommand := Some XHCI_PLS_U0\<rparr> \<and>
   portsc_write (XhciPortscRxDetect v) = (no_effect v)\<lparr>LinkCommand := Some XHCI_PLS_RX_DETECT\<rparr>"
proof -
  have link: "portsc_write (XhciPortscSetLinkState v p) = (no_effect v)\<lparr>LinkCommand := Some (p AND 15)\<rparr>" for p
    unfolding link_state_value portsc_write_def no_effect_def portsc_masks XHCI_PORTSC_GET_PLS_def
    by (simp add: and_or_select and.assoc pls_field bit.conj_disj_distrib2 del: and_16_eq_0 and_1_eq_0)
  have power: "portsc_write (XhciPortscPower v on) = (no_effect v)\<lparr>Powered := (on \<noteq> 0)\<rparr>"
    by (simp add: XhciPortscPower_def XhciPortscWith_def neutral_value portsc_write_def no_effect_def
        portsc_masks and_or_select and.assoc del: and_16_eq_0 and_1_eq_0)
  have single: "portsc_write (XhciPortscNeutral v) = no_effect v"
    "portsc_write (XhciPortscReset v) = (no_effect v)\<lparr>StartsReset := True\<rparr>"
    "portsc_write (XhciPortscWarmReset v) = (no_effect v)\<lparr>StartsWarmReset := True\<rparr>"
    "portsc_write (XhciPortscDisable v) = (no_effect v)\<lparr>Disables := True\<rparr>"
    "portsc_write (XhciPortscClearChanges v c) =
       (no_effect v)\<lparr>ClearsChanges := c AND XHCI_PORTSC_CHANGE_MASK\<rparr>"
    by (simp_all add: XhciPortscReset_def XhciPortscWarmReset_def XhciPortscDisable_def
        XhciPortscClearChanges_def XhciPortscWith_def neutral_value portsc_write_def no_effect_def
        portsc_masks and_or_select and.assoc del: and_16_eq_0 and_1_eq_0)
  have "portsc_write (XhciPortscSuspend v) = (no_effect v)\<lparr>LinkCommand := Some XHCI_PLS_U3\<rparr>"
    "portsc_write (XhciPortscResumeSignal v) = (no_effect v)\<lparr>LinkCommand := Some XHCI_PLS_RESUME\<rparr>"
    "portsc_write (XhciPortscResumeDone v) = (no_effect v)\<lparr>LinkCommand := Some XHCI_PLS_U0\<rparr>"
    "portsc_write (XhciPortscRxDetect v) = (no_effect v)\<lparr>LinkCommand := Some XHCI_PLS_RX_DETECT\<rparr>"
    using link [of 3] link [of 15] link [of 0] link [of 5]
    by (simp_all add: XhciPortscSuspend_def XhciPortscResumeSignal_def XhciPortscResumeDone_def
        XhciPortscRxDetect_def)
  then show ?thesis using link [of pls] power single by blast
qed

end
