(* ===== verification/Xhci_Port_Props.thy ===== *)
theory Xhci_Port_Props
  imports Xhci_Port
begin

text \<open>
  The properties of port shadows over whole histories: latched changes are neither lost nor
  invented, a timer's token is good once and never again, ages fire once and after their limit,
  and the hub-port map is a bijection.
\<close>

section \<open>Latched changes\<close>

datatype change_op = Reading ulong ulong | ClearChange ulong | LatchChange ulong

fun change_step :: "xhci_port_shadow \<Rightarrow> change_op \<Rightarrow> xhci_port_shadow" where
  "change_step s (Reading portsc speedClass) = the (snd (snd (XhciPortShadowUpdate (Some s) portsc speedClass)))"
| "change_step s (ClearChange c) = the (snd (XhciPortShadowClearChange (Some s) c))"
| "change_step s (LatchChange c) = the (XhciPortShadowLatchChange (Some s) c)"

definition change_run :: "xhci_port_shadow \<Rightarrow> change_op list \<Rightarrow> xhci_port_shadow" where
  "change_run s ops = foldl change_step s ops"

fun raises :: "nat \<Rightarrow> xhci_port_shadow \<Rightarrow> change_op \<Rightarrow> bool" where
  "raises n s (Reading portsc _) \<longleftrightarrow> portsc \<noteq> 0xFFFFFFFF \<and> bit (shadow_latched (Portsc s) portsc) n"
| "raises n s (LatchChange c) \<longleftrightarrow> bit c n"
| "raises n s (ClearChange c) \<longleftrightarrow> False"

fun clears :: "nat \<Rightarrow> change_op \<Rightarrow> bool" where
  "clears n (ClearChange c) \<longleftrightarrow> c \<noteq> 0 \<and> c AND NOT 31 = 0 \<and> bit c n"
| "clears n _ \<longleftrightarrow> False"

lemma bit_31: "bit (31 :: ulong) n \<longleftrightarrow> n < 5"
proof -
  have "(31 :: ulong) = mask 5" by (simp add: mask_eq_exp_minus_1)
  then show ?thesis by (simp only: bit_mask_iff) auto
qed

lemma bit_changes:
  assumes "n < 5"
  shows "bit (ucast ((ucast (c :: uchar) OR l) AND (31 :: ulong)) :: uchar) n \<longleftrightarrow> bit c n \<or> bit l n"
    "bit (ucast ((ucast c :: ulong) AND NOT m) :: uchar) n \<longleftrightarrow> bit c n \<and> \<not> bit m n"
    "bit ((ucast c :: ulong) AND 31) n \<longleftrightarrow> bit c n"
proof -
  have "n < 8" "n < 32" using assms by simp_all
  then show "bit (ucast ((ucast c OR l) AND (31 :: ulong)) :: uchar) n \<longleftrightarrow> bit c n \<or> bit l n"
    "bit (ucast ((ucast c :: ulong) AND NOT m) :: uchar) n \<longleftrightarrow> bit c n \<and> \<not> bit m n"
    "bit ((ucast c :: ulong) AND 31) n \<longleftrightarrow> bit c n"
    using assms unfolding bit_ucast_iff bit_and_iff bit_or_iff bit_not_iff bit_31
    by (auto simp: bit_ucast_iff)
qed

lemma change_step_bit:
  assumes "n < 5"
  shows "bit (Changes (change_step s op)) n \<longleftrightarrow> raises n s op \<or> (bit (Changes s) n \<and> \<not> clears n op)"
proof (cases op)
  case (Reading portsc speedClass)
  then show ?thesis
    using bit_changes(1) [OF assms] by (auto simp: XhciPortShadowUpdate_def Let_def)
next
  case (ClearChange c)
  then show ?thesis
    using bit_changes(2) [OF assms] by (auto simp: XhciPortShadowClearChange_def Let_def)
next
  case (LatchChange c)
  then show ?thesis
    using bit_changes(1) [OF assms] by (auto simp: XhciPortShadowLatchChange_def)
qed

lemma change_run_snoc: "change_run s (ops @ [op]) = change_step (change_run s ops) op"
  by (simp add: change_run_def)

text \<open>An event of kind \<open>R\<close> with no later \<open>C\<close>, when one element is appended.\<close>

lemma last_event_snoc:
  "(\<exists>i < length (xs @ [x]). R (take i (xs @ [x])) ((xs @ [x]) ! i) \<and>
      (\<forall>j. i < j \<and> j < length (xs @ [x]) \<longrightarrow> \<not> C ((xs @ [x]) ! j))) \<longleftrightarrow>
   R xs x \<or> ((\<exists>i < length xs. R (take i xs) (xs ! i) \<and> (\<forall>j. i < j \<and> j < length xs \<longrightarrow> \<not> C (xs ! j))) \<and> \<not> C x)"
  (is "?l \<longleftrightarrow> R xs x \<or> ?r")
proof
  assume ?l
  then obtain i where i: "i < Suc (length xs)" "R (take i (xs @ [x])) ((xs @ [x]) ! i)"
      "\<And>j. i < j \<Longrightarrow> j < Suc (length xs) \<Longrightarrow> \<not> C ((xs @ [x]) ! j)" by auto
  show "R xs x \<or> ?r"
  proof (cases "i = length xs")
    case True
    then show ?thesis using i(2) by simp
  next
    case False
    then have l: "i < length xs" using i(1) by simp
    moreover have "\<not> C (xs ! j)" if "i < j" "j < length xs" for j
      using i(3) [of j] that by (simp add: nth_append)
    ultimately show ?thesis using i(2) i(3) [of "length xs"] by (auto simp: nth_append)
  qed
next
  assume "R xs x \<or> ?r"
  then show ?l
  proof
    assume "R xs x"
    then show ?thesis by (intro exI [of _ "length xs"]) (auto simp: nth_append)
  next
    assume ?r
    then obtain i where "i < length xs" "R (take i xs) (xs ! i)"
        "\<forall>j. i < j \<and> j < length xs \<longrightarrow> \<not> C (xs ! j)" "\<not> C x" by blast
    then show ?thesis by (intro exI [of _ i]) (auto simp: nth_append less_Suc_eq)
  qed
qed

definition raised_since :: "nat \<Rightarrow> xhci_port_shadow \<Rightarrow> change_op list \<Rightarrow> bool" where
  "raised_since n s ops \<longleftrightarrow>
     (\<exists>i < length ops. raises n (change_run s (take i ops)) (ops ! i) \<and>
       (\<forall>j. i < j \<and> j < length ops \<longrightarrow> \<not> clears n (ops ! j)))"

lemma raised_since_snoc:
  "raised_since n s (ops @ [op]) \<longleftrightarrow> raises n (change_run s ops) op \<or> (raised_since n s ops \<and> \<not> clears n op)"
  unfolding raised_since_def by (rule last_event_snoc)

lemma change_run_bit:
  assumes "n < 5"
  shows "bit (Changes (change_run s ops)) n \<longleftrightarrow>
    (bit (Changes s) n \<and> (\<forall>op \<in> set ops. \<not> clears n op)) \<or> raised_since n s ops"
proof (induction ops rule: rev_induct)
  case Nil
  then show ?case by (simp add: change_run_def raised_since_def)
next
  case (snoc op ops)
  then show ?case
    by (auto simp: change_run_snoc change_step_bit [OF assms] raised_since_snoc)
qed


definition fresh_shadow :: xhci_port_shadow where
  "fresh_shadow = shadow_rebuilt \<lparr>Portsc = 0, Generation = 0, Changes = 0, Speed = 0, Armed = 0,
     ArmPending = 0, DisownPending = 0, DisownWantsPp = 0, AgeStamp = 0, AgeArmed = 0, PpPending = 0,
     PpWanted = 0, PpArmed = 0, PpStamp = 0\<rparr>"


section \<open>Timer tokens\<close>

datatype token_op = Arm ulong | Claim ulong ulong | Disarm

fun token_step :: "xhci_port_shadow \<Rightarrow> token_op \<Rightarrow> xhci_port_shadow" where
  "token_step s (Arm operation) = the (snd (XhciPortShadowArm (Some s) operation))"
| "token_step s (Claim operation generation) = the (snd (XhciPortShadowClaim (Some s) operation generation))"
| "token_step s Disarm = the (snd (XhciPortShadowDisarm (Some s)))"

definition token_run :: "xhci_port_shadow \<Rightarrow> token_op list \<Rightarrow> xhci_port_shadow" where
  "token_run s ops = foldl token_step s ops"

definition next_gen :: "ulong \<Rightarrow> ulong" where
  "next_gen g = (if g + 1 = 0 then 1 else g + 1)"

lemma unat_next_gen: "unat (next_gen g) = unat g mod 4294967295 + 1"
proof (cases "unat g = 4294967295")
  case True
  then have "g = 4294967295" using unat_eq_iff [of g 4294967295] by simp
  then show ?thesis by (simp add: next_gen_def)
next
  case False
  then have "unat g < 4294967295" using unat_lt_2p32 [of g] by linarith
  moreover then have u: "unat (g + 1) = unat g + 1" by (subst unat_add_no_wrap) simp_all
  moreover have "g + 1 \<noteq> 0" using u by auto
  ultimately show ?thesis by (simp add: next_gen_def)
qed

lemma next_gen_nonzero: "next_gen g \<noteq> 0"
  by (auto simp: next_gen_def)

lemma unat_gen_power:
  assumes "g \<noteq> 0"
  shows "unat ((next_gen ^^ j) g) = (unat g - 1 + j) mod 4294967295 + 1"
proof (induction j)
  case 0
  have "unat g \<noteq> 0" using assms unat_eq_iff [of g 0] by simp
  moreover have "unat g - 1 < 4294967295" using unat_lt_2p32 [of g] by linarith
  ultimately show ?case by simp
next
  case (Suc j)
  then show ?case by (simp add: unat_next_gen mod_simps)
qed

lemma gen_power_distinct:
  assumes "g \<noteq> 0" and "0 < j" and "j < 4294967295"
  shows "(next_gen ^^ j) g \<noteq> g"
proof
  assume "(next_gen ^^ j) g = g"
  then have "unat g = (unat g - 1 + j) mod 4294967295 + 1"
    using unat_gen_power [OF assms(1), of j] by (simp only:)
  moreover have "unat g = (unat g - 1) mod 4294967295 + 1"
    using unat_gen_power [OF assms(1), of 0] by (simp only: funpow_0 add_0_right)
  ultimately have "(unat g - 1 + j) mod 4294967295 = (unat g - 1) mod 4294967295" by linarith
  then have "4294967295 dvd j"
    using mod_eq_dvd_iff_nat [of "unat g - 1" "unat g - 1 + j" 4294967295] by auto
  then show False using assms(2,3) by (auto dest: dvd_imp_le)
qed

text \<open>A token is spent when its operation is no longer armed: the generation may only move on.\<close>

definition spent :: "ulong \<Rightarrow> nat \<Rightarrow> xhci_port_shadow \<Rightarrow> bool" where
  "spent g k s \<longleftrightarrow> (\<exists>j \<le> k. Generation s = (next_gen ^^ j) g \<and> (j = 0 \<longrightarrow> Armed s = 0))"

lemma ucast_up_0 [simp]: "(ucast (c :: uchar) :: ulong) = 0 \<longleftrightarrow> c = 0"
proof -
  have "unat c < 256" using unsigned_less [of c] by simp
  then have "unat c < 2 ^ 32" by simp
  then have "unat (ucast c :: ulong) = unat c" by (simp add: unsigned_ucast_eq take_bit_nat_eq_self)
  then show ?thesis by (metis unsigned_0 unat_eq_iff word_unat_eq_iff)
qed

lemma disarm_gen: "XhciPortShadowDisarm (Some s) = (Armed s \<noteq> 0, Some (s\<lparr>Armed := 0, ArmPending := 0,
    Generation := next_gen (Generation s)\<rparr>))"
  by (auto simp: XhciPortShadowDisarm_def Let_def next_gen_def)

lemma arm_gen: "XhciPortShadowArm (Some s) op =
   (if op = 0 \<or> Armed s \<noteq> 0 then (0, Some s)
    else (next_gen (Generation s), Some (s\<lparr>Generation := next_gen (Generation s), Armed := ucast op, AgeArmed := 0\<rparr>)))"
  by (auto simp: XhciPortShadowArm_def XhciPortShadowNextGeneration_def Let_def next_gen_def)

lemma spent_step:
  assumes "spent g k s"
  shows "spent g (Suc k) (token_step s op)"
proof -
  obtain j where j: "j \<le> k" "Generation s = (next_gen ^^ j) g" "j = 0 \<longrightarrow> Armed s = 0"
    using assms by (auto simp: spent_def)
  have moved: "spent g (Suc k) t" if "Generation t = next_gen (Generation s)" for t
    unfolding spent_def using that j by (intro exI [of _ "Suc j"]) simp
  have kept: "spent g (Suc k) t" if "Generation t = Generation s" "Armed t = Armed s \<or> Armed t = 0" for t
    unfolding spent_def using that j by (intro exI [of _ j]) auto
  show ?thesis
    by (cases op) (auto simp: disarm_gen arm_gen XhciPortShadowClaim_def intro: moved kept)
qed

lemma spent_run: "spent g k s \<Longrightarrow> spent g (k + length ops) (token_run s ops)"
proof (induction ops arbitrary: s k)
  case (Cons op ops)
  have "token_run s (op # ops) = token_run (token_step s op) ops" by (simp add: token_run_def)
  then show ?case using Cons.IH [OF spent_step [OF Cons.prems]] by simp
qed (simp add: token_run_def)

lemma spent_refused:
  assumes "spent g k s" and "g \<noteq> 0" and "k < 4294967295" and "operation \<noteq> 0"
  shows "XhciPortShadowClaim (Some s) operation g = (False, Some s)"
proof -
  obtain j where j: "j \<le> k" "Generation s = (next_gen ^^ j) g" "j = 0 \<longrightarrow> Armed s = 0"
    using assms by (auto simp: spent_def)
  show ?thesis
  proof (cases "j = 0")
    case True
    then show ?thesis using j assms(4) by (auto simp: XhciPortShadowClaim_def)
  next
    case False
    then show ?thesis using gen_power_distinct [OF assms(2), of j] j assms(3)
      by (auto simp: XhciPortShadowClaim_def)
  qed
qed

text \<open>
  A timer's token is good exactly once. The generation handed out when a reset or resume is
  armed claims that operation; once it has claimed it, or the operation was disarmed, it never
  claims anything again, through any sequence of fewer than 2 to the 32 minus 3 further arms,
  claims and disarms, the wrap of the counter past the reserved value 0 included. While an
  operation is armed no other can be.
\<close>

theorem timer_token_single_use:
  assumes "XhciPortShadowArm (Some s) operation = (g, Some t)" and "g \<noteq> 0" and "operation < 256"
    and "length ops < 4294967293" and "again \<noteq> 0"
  shows "fst (XhciPortShadowClaim (Some t) operation g) \<and>
    XhciPortShadowArm (Some t) other = (0, Some t) \<and>
    \<not> fst (XhciPortShadowClaim
        (Some (token_run (the (snd (XhciPortShadowClaim (Some t) operation g))) ops)) again g) \<and>
    \<not> fst (XhciPortShadowClaim
        (Some (token_run (the (snd (XhciPortShadowDisarm (Some t)))) ops)) again g)"
proof -
  have nz: "operation \<noteq> 0" and t: "t = s\<lparr>Generation := g, Armed := ucast operation, AgeArmed := 0\<rparr>"
    using assms(1,2) by (auto simp: arm_gen split: if_splits)
  have small: "(ucast (ucast operation :: uchar) :: ulong) = operation"
  proof -
    have "unat (ucast (ucast operation :: uchar) :: ulong) = unat operation"
      using assms(3) by (simp add: unsigned_ucast_eq unsigned_take_bit_eq take_bit_nat_eq_self word_less_nat_alt)
    then show ?thesis by (simp only: unat_eq_iff)
  qed
  have armed: "(ucast operation :: uchar) \<noteq> 0" using small nz by auto
  have claim: "XhciPortShadowClaim (Some t) operation g = (True, Some (t\<lparr>Armed := 0, ArmPending := 0\<rparr>))"
    using small assms(2) by (simp add: XhciPortShadowClaim_def t)
  have "spent g 0 (t\<lparr>Armed := 0, ArmPending := 0\<rparr>)" by (simp add: spent_def t)
  then have c: "spent g (length ops) (token_run (the (snd (XhciPortShadowClaim (Some t) operation g))) ops)"
    using spent_run [of g 0 "t\<lparr>Armed := 0, ArmPending := 0\<rparr>" ops] claim by simp
  have "spent g 1 (the (snd (XhciPortShadowDisarm (Some t))))"
    unfolding spent_def disarm_gen by (intro exI [of _ 1]) (simp add: t)
  then have d: "spent g (1 + length ops) (token_run (the (snd (XhciPortShadowDisarm (Some t)))) ops)"
    by (rule spent_run)
  have "XhciPortShadowArm (Some t) other = (0, Some t)" using armed by (simp add: arm_gen t)
  then show ?thesis
    using claim spent_refused [OF c assms(2) _ assms(5)] spent_refused [OF d assms(2) _ assms(5)] assms(4)
    by simp
qed

theorem timer_token_single_use_witness:
  "\<exists>t. XhciPortShadowArm (Some fresh_shadow) 1 = (2, Some t) \<and>
     \<not> fst (XhciPortShadowClaim (Some (token_run (the (snd (XhciPortShadowDisarm (Some t)))) [Arm 1])) 1 2)"
proof -
  define t where "t = the (snd (XhciPortShadowArm (Some fresh_shadow) 1))"
  have a: "XhciPortShadowArm (Some fresh_shadow) 1 = (2, Some t)" unfolding t_def by code_simp
  have n: "(2 :: ulong) \<noteq> 0" "(1 :: ulong) < 256" "(1 :: ulong) \<noteq> 0" "length [Arm 1] < 4294967293"
    by simp_all
  show ?thesis
    using timer_token_single_use [OF a n(1,2,4,3)] a by blast
qed

section \<open>Ages\<close>

text \<open>Polls of an armed operation at the given clock readings, with the answers.\<close>

fun age_polls :: "xhci_port_shadow \<Rightarrow> ulong \<Rightarrow> ulong list \<Rightarrow> bool list" where
  "age_polls s limitMs [] = []"
| "age_polls s limitMs (now # clocks) =
     (case XhciPortShadowAge (Some s) now limitMs of
        (due, s') \<Rightarrow> due # age_polls (the s') limitMs clocks)"

lemma age_running:
  assumes "Armed s \<noteq> 0" and "AgeArmed s \<noteq> 0"
    and "\<forall>now \<in> set clocks. now - AgeStamp s < limitMs"
  shows "age_polls s limitMs (clocks @ [now]) =
     replicate (length clocks) False @ [\<not> now - AgeStamp s < limitMs]"
  using assms
proof (induction clocks)
  case Nil
  then show ?case by (simp add: XhciPortShadowAge_def)
next
  case (Cons c clocks)
  then show ?case by (simp add: XhciPortShadowAge_def)
qed

text \<open>
  The age of an armed operation runs from the first poll that sees it and fires once the limit
  has passed, not before: polled at a first clock reading and then at any later ones, every answer
  is no while the elapsed time, a 32-bit difference that stays right across the clock's wrap, is
  below the limit, and the first poll at or beyond the limit is answered yes.
\<close>

theorem port_age_exact:
  assumes "XhciPortShadowArm (Some s) operation = (g, Some t)" and "g \<noteq> 0" and "operation < 256"
    and "\<forall>now \<in> set clocks. now - first < limitMs" and "\<not> final - first < limitMs"
  shows "age_polls t limitMs (first # clocks @ [final]) = replicate (Suc (length clocks)) False @ [True]"
proof -
  have op: "operation \<noteq> 0" "Armed t = ucast operation" "AgeArmed t = 0"
    using assms(1,2) by (auto simp: arm_gen split: if_splits)
  have "unat (ucast operation :: uchar) = unat operation"
    using assms(3) by (simp add: unsigned_ucast_eq take_bit_nat_eq_self word_less_nat_alt)
  then have a: "Armed t \<noteq> 0" using op unat_eq_iff [of operation 0] by auto
  let ?t = "t\<lparr>AgeArmed := 1, AgeStamp := first\<rparr>"
  have "age_polls ?t limitMs (clocks @ [final]) = replicate (length clocks) False @ [True]"
    using age_running [of ?t clocks limitMs final] a assms(4,5) by simp
  then show ?thesis using a op(3) by (simp add: XhciPortShadowAge_def)
qed

theorem port_age_exact_witness:
  "\<exists>t. XhciPortShadowArm (Some fresh_shadow) 1 = (2, Some t) \<and>
     age_polls t 500 [0xFFFFFFF0, 100, 600] = [False, False, True]"
proof -
  define t where "t = the (snd (XhciPortShadowArm (Some fresh_shadow) 1))"
  have a: "XhciPortShadowArm (Some fresh_shadow) 1 = (2, Some t)" unfolding t_def by code_simp
  have n: "(2 :: ulong) \<noteq> 0" "(1 :: ulong) < 256" by simp_all
  have c: "\<forall>now \<in> set [100]. now - 0xFFFFFFF0 < (500 :: ulong)" "\<not> 600 - 0xFFFFFFF0 < (500 :: ulong)"
    by simp_all
  show ?thesis
    using port_age_exact [OF a n c] a by simp
qed

section \<open>The hub-port map\<close>

definition usb2_port :: "xhci_port_map \<Rightarrow> nat \<Rightarrow> bool" where
  "usb2_port m p \<longleftrightarrow> XhciPortIsManaged m (of_nat p) \<and> \<not> XhciPortIsUsb3 m (of_nat p)"

definition usb2_ports :: "xhci_port_map \<Rightarrow> nat \<Rightarrow> nat list" where
  "usb2_ports m k = filter (usb2_port m) [1..<Suc k]"

lemma usb2_ports_Suc: "usb2_ports m (Suc k) = usb2_ports m k @ (if usb2_port m (Suc k) then [Suc k] else [])"
  by (simp add: usb2_ports_def)

lemma usb2_ports_set: "q \<in> set (usb2_ports m k) \<longleftrightarrow> 0 < q \<and> q \<le> k \<and> usb2_port m q"
  by (auto simp: usb2_ports_def simp del: upt_Suc)

lemma usb2_ports_distinct: "distinct (usb2_ports m k)"
  by (simp add: usb2_ports_def del: upt_Suc)

lemma usb2_ports_length: "length (usb2_ports m k) \<le> k"
  by (induction k) (auto simp: usb2_ports_def)

lemma usb2_ports_append: "k \<le> n \<Longrightarrow> \<exists>rest. usb2_ports m n = usb2_ports m k @ rest"
proof (induction n)
  case (Suc n)
  then show ?case by (cases "k = Suc n") (auto simp: usb2_ports_Suc le_Suc_eq)
qed simp

lemma usb2_ports_nth:
  assumes "usb2_port m p" and "0 < p" and "p \<le> n"
  shows "length (usb2_ports m p) \<noteq> 0" "length (usb2_ports m p) \<le> length (usb2_ports m n)"
    "usb2_ports m n ! (length (usb2_ports m p) - 1) = p"
proof -
  obtain rest where r: "usb2_ports m n = usb2_ports m p @ rest" using usb2_ports_append [OF assms(3)] by blast
  obtain q where q: "p = Suc q" using assms(2) by (cases p) auto
  have p: "usb2_ports m p = usb2_ports m q @ [p]" using assms(1) by (simp add: q usb2_ports_Suc)
  show "length (usb2_ports m p) \<noteq> 0" "length (usb2_ports m p) \<le> length (usb2_ports m n)"
    "usb2_ports m n ! (length (usb2_ports m p) - 1) = p"
    using r p by (auto simp: nth_append)
qed

text \<open>The arrays after the ports up to \<open>k\<close> have been looked at.\<close>

definition hub_maps :: "xhci_port_map \<Rightarrow> nat \<Rightarrow> uchar list \<times> uchar list" where
  "hub_maps m k =
     (map (\<lambda>i. if i < length (usb2_ports m k) then of_nat (usb2_ports m k ! i) else 0) [0..<255],
      map (\<lambda>i. if i < k \<and> usb2_port m (Suc i) then of_nat (length (usb2_ports m (Suc i))) else 0) [0..<255])"

lemma ucast_of_nat_small: "n < 256 \<Longrightarrow> (ucast (of_nat n :: ulong) :: uchar) = of_nat n"
  by (simp add: unsigned_of_nat take_bit_nat_eq_self)

lemma build_step:
  assumes "k < 255" and "HubToPort rh = fst (hub_maps m k)" "PortToHub rh = snd (hub_maps m k)"
  shows "\<exists>rh'. rh_build_step m (rh, of_nat (length (usb2_ports m k))) (of_nat (Suc k)) =
      (rh', of_nat (length (usb2_ports m (Suc k)))) \<and>
     HubToPort rh' = fst (hub_maps m (Suc k)) \<and> PortToHub rh' = snd (hub_maps m (Suc k)) \<and>
     Ports rh' = Ports rh"
proof (cases "usb2_port m (Suc k)")
  case False
  have "rh_build_step m (rh, of_nat (length (usb2_ports m k))) (of_nat (Suc k)) =
      (rh, of_nat (length (usb2_ports m (Suc k))))"
    using False by (auto simp: rh_build_step_def usb2_port_def usb2_ports_Suc simp del: of_nat_Suc)
  moreover have "hub_maps m (Suc k) = hub_maps m k"
    using False by (auto simp: hub_maps_def usb2_ports_Suc less_Suc_eq)
  ultimately show ?thesis using assms by auto
next
  case True
  let ?l = "length (usb2_ports m k)"
  have l: "?l \<le> k" by (rule usb2_ports_length)
  have L: "length (usb2_ports m (Suc k)) = Suc ?l" using True by (simp add: usb2_ports_Suc)
  have u: "unat (of_nat ?l + 1 - 1 :: ulong) = ?l" "unat (of_nat (Suc k) - 1 :: ulong) = k"
    using l assms(1) by (simp_all add: unat_of_nat take_bit_nat_eq_self)
  have step: "rh_build_step m (rh, of_nat ?l) (of_nat (Suc k)) =
      (rh\<lparr>HubToPort := (HubToPort rh)[?l := of_nat (Suc k)], PortToHub := (PortToHub rh)[k := of_nat (Suc ?l)]\<rparr>,
       of_nat (Suc ?l))"
    using True u l assms(1) ucast_of_nat_small [of "Suc k"] ucast_of_nat_small [of "Suc ?l"]
    unfolding rh_build_step_def usb2_port_def Let_def by (simp add: add.commute)
  have h: "(fst (hub_maps m k))[?l := of_nat (Suc k)] = fst (hub_maps m (Suc k))"
    by (rule nth_equalityI)
      (use l assms(1) True L in \<open>auto simp: hub_maps_def usb2_ports_Suc nth_append nth_list_update less_Suc_eq\<close>)
  have p: "(snd (hub_maps m k))[k := of_nat (Suc ?l)] = snd (hub_maps m (Suc k))"
    by (rule nth_equalityI)
      (use assms(1) True L in \<open>auto simp: hub_maps_def nth_list_update less_Suc_eq\<close>)
  show ?thesis unfolding step using h p assms L by auto
qed

lemma build_loop:
  assumes "k \<le> 255" and "HubToPort rh = fst (hub_maps m 0)" "PortToHub rh = snd (hub_maps m 0)"
  shows "\<exists>rh'. foldl (rh_build_step m) (rh, 0) (map of_nat [1..<Suc k]) = (rh', of_nat (length (usb2_ports m k))) \<and>
     HubToPort rh' = fst (hub_maps m k) \<and> PortToHub rh' = snd (hub_maps m k) \<and> Ports rh' = Ports rh"
  using assms(1)
proof (induction k)
  case 0
  then show ?case using assms by (simp add: usb2_ports_def)
next
  case (Suc k)
  then obtain rh' where rh': "foldl (rh_build_step m) (rh, 0) (map of_nat [1..<Suc k]) =
      (rh', of_nat (length (usb2_ports m k)))" "HubToPort rh' = fst (hub_maps m k)"
      "PortToHub rh' = snd (hub_maps m k)" "Ports rh' = Ports rh" by auto
  have "[1..<Suc (Suc k)] = [1..<Suc k] @ [Suc k]" by simp
  then show ?case
    using build_step [of k rh' m, OF _ rh'(2,3)] Suc.prems rh'(1,4)
    by (simp del: upt_Suc of_nat_Suc)
qed

lemma ucast_up_of_nat: "n < 256 \<Longrightarrow> (ucast (of_nat n :: uchar) :: ulong) = of_nat n"
  by (simp add: unsigned_of_nat take_bit_nat_eq_self)

lemma unat_of_nat_small: "n < 256 \<Longrightarrow> unat (of_nat n :: ulong) = n"
  by (simp add: unat_of_nat take_bit_nat_eq_self)

lemma of_nat_eq_iff_unat: "n < 256 \<Longrightarrow> of_nat n = (w :: ulong) \<longleftrightarrow> n = unat w"
  using unat_of_nat_small [of n] unat_eq_iff [of "of_nat n" w] by metis

lemma unmanaged_beyond: "unat (MapPortCount m) < p \<or> 255 < p \<or> p = 0 \<Longrightarrow> p < 4294967296 \<Longrightarrow> \<not> usb2_port m p"
  by (auto simp: usb2_port_def XhciPortIsManaged_def XhciPortClass_def word_less_nat_alt unat_of_nat
      take_bit_nat_eq_self)

lemma build_result:
  assumes "XhciRootHubBuild (Some m) (Some rh0) = (st, Some rh)"
    and "length (HubToPort rh0) = 255" "length (PortToHub rh0) = 255"
  defines "K \<equiv> min (unat (MapPortCount m)) 255"
  shows "st = RhStatus rh" "st = (if usb2_ports m K = [] then XHCI_RH_NO_PORTS else XHCI_RH_OK)"
    "unat (RhPortCount rh) = length (usb2_ports m K)"
    "HubToPort rh = fst (hub_maps m K)" "PortToHub rh = snd (hub_maps m K)"
    "Ports rh = map shadow_rebuilt (Ports rh0)"
proof -
  have K: "K \<le> 255" by (simp add: K_def)
  have zero: "HubToPort (root_hub_clear rh0) = fst (hub_maps m 0)"
      "PortToHub (root_hub_clear rh0) = snd (hub_maps m 0)"
    using assms(2,3) by (simp_all add: root_hub_clear_def hub_maps_def usb2_ports_def map_replicate_const)
  obtain r where r: "foldl (rh_build_step m) (root_hub_clear rh0, 0) (map of_nat [1..<Suc K]) =
      (r, of_nat (length (usb2_ports m K)))" "HubToPort r = fst (hub_maps m K)"
      "PortToHub r = snd (hub_maps m K)" "Ports r = Ports (root_hub_clear rh0)"
    using build_loop [OF K zero] by blast
  have len: "length (usb2_ports m K) < 256" using usb2_ports_length [of m K] K by simp
  have pos: "0 < (of_nat (length (usb2_ports m K)) :: ulong) \<longleftrightarrow> usb2_ports m K \<noteq> []"
    using unat_of_nat_small [OF len] by (simp add: word_less_nat_alt)
  have rh: "rh = r\<lparr>RhPortCount := of_nat (length (usb2_ports m K)),
      RhStatus := (if usb2_ports m K \<noteq> [] then XHCI_RH_OK else XHCI_RH_NO_PORTS)\<rparr>" and st: "st = RhStatus rh"
    using assms(1) r(1) pos by (auto simp: XhciRootHubBuild_def K_def Let_def simp del: upt_Suc)
  show "st = RhStatus rh" by (rule st)
  show "st = (if usb2_ports m K = [] then XHCI_RH_NO_PORTS else XHCI_RH_OK)"
    "unat (RhPortCount rh) = length (usb2_ports m K)" "HubToPort rh = fst (hub_maps m K)"
    "PortToHub rh = snd (hub_maps m K)" "Ports rh = map shadow_rebuilt (Ports rh0)"
    using st rh r unat_of_nat_small [OF len] by (simp_all add: root_hub_clear_def)
qed

lemma map_lookups:
  assumes b: "XhciRootHubBuild (Some m) (Some rh0) = (XHCI_RH_OK, Some rh)"
    and l: "length (HubToPort rh0) = 255" "length (PortToHub rh0) = 255"
  defines "K \<equiv> min (unat (MapPortCount m)) 255"
  shows "unat (XhciRootHubPortOf (Some rh) h) =
      (if h = 0 \<or> length (usb2_ports m K) < unat h then 0 else usb2_ports m K ! (unat h - 1))"
    "unat (XhciRootHubHubPortOf (Some rh) p) = (if usb2_port m (unat p) then length (usb2_ports m (unat p)) else 0)"
proof -
  note r = build_result [OF b l, folded K_def]
  have K: "K \<le> 255" by (simp add: K_def)
  have len: "length (usb2_ports m K) \<le> 255" using usb2_ports_length [of m K] K by simp
  have elem: "usb2_ports m K ! i < 256" if "i < length (usb2_ports m K)" for i
    using nth_mem [OF that] K by (simp add: usb2_ports_set)
  have pred: "unat (w - 1) = unat w - 1" if "w \<noteq> 0" for w :: ulong
    using that unat_eq_iff [of w 0] by (subst unat_sub_no_wrap) auto
  show "unat (XhciRootHubPortOf (Some rh) h) =
      (if h = 0 \<or> length (usb2_ports m K) < unat h then 0 else usb2_ports m K ! (unat h - 1))"
  proof (cases "h = 0 \<or> length (usb2_ports m K) < unat h")
    case True
    then show ?thesis using r(1,3) by (auto simp: XhciRootHubPortOf_def word_less_nat_alt)
  next
    case False
    then have i: "unat h - 1 < length (usb2_ports m K)" using unat_eq_iff [of h 0] by auto
    then show ?thesis
      using False r(1,3,4) len pred [of h] elem [OF i] ucast_up_of_nat [OF elem [OF i]] unat_of_nat_small [OF elem [OF i]]
      by (simp add: XhciRootHubPortOf_def word_less_nat_alt hub_maps_def)
  qed
  show "unat (XhciRootHubHubPortOf (Some rh) p) =
      (if usb2_port m (unat p) then length (usb2_ports m (unat p)) else 0)"
  proof (cases "p = 0 \<or> 255 < unat p")
    case True
    then have "\<not> usb2_port m (unat p)" using unmanaged_beyond [of m "unat p"] by auto
    then show ?thesis using True r(1) by (auto simp: XhciRootHubHubPortOf_def word_less_nat_alt)
  next
    case False
    then have q: "unat p = Suc (unat p - 1)" "unat p - 1 < 255" using unat_eq_iff [of p 0] by auto
    have in_K: "unat p - 1 < K" if "usb2_port m (unat p)"
    proof -
      have "\<not> unat (MapPortCount m) < unat p" using that unmanaged_beyond [of m "unat p"] by auto
      then show ?thesis using q by (simp add: K_def)
    qed
    have "length (usb2_ports m (unat p)) < 256" using usb2_ports_length [of m "unat p"] False by simp
    then show ?thesis
      using False r(1,5) q pred [of p] in_K ucast_up_of_nat unat_of_nat_small
      by (auto simp: XhciRootHubHubPortOf_def word_less_nat_alt hub_maps_def)
  qed
qed

lemma map_inverse:
  fixes h p a b :: ulong
  assumes a: "unat a = (if h = 0 \<or> length (usb2_ports m K) < unat h then 0 else usb2_ports m K ! (unat h - 1))"
    and b: "unat b = (if usb2_port m (unat p) then length (usb2_ports m (unat p)) else 0)"
    and K: "usb2_port m (unat p) \<Longrightarrow> 0 < unat p \<and> unat p \<le> K" and nz: "h \<noteq> 0" "p \<noteq> 0"
  shows "a = p \<longleftrightarrow> b = h"
proof -
  have h: "0 < unat h" "0 < unat p" using nz unat_eq_iff [of h 0] unat_eq_iff [of p 0] by auto
  have inv: "length (usb2_ports m (unat p)) \<noteq> 0" "length (usb2_ports m (unat p)) \<le> length (usb2_ports m K)"
      "usb2_ports m K ! (length (usb2_ports m (unat p)) - 1) = unat p" if "usb2_port m (unat p)"
    using usb2_ports_nth [OF that, of K] K [OF that] by auto
  show ?thesis
  proof
    assume "a = p"
    then have le: "unat h \<le> length (usb2_ports m K)" and p: "usb2_ports m K ! (unat h - 1) = unat p"
      using a h by (auto split: if_splits)
    then have mem: "usb2_port m (unat p)"
      using nth_mem [of "unat h - 1" "usb2_ports m K"] h by (auto simp: usb2_ports_set)
    have "unat h - 1 = length (usb2_ports m (unat p)) - 1"
    proof (rule nth_eq_iff_index_eq [OF usb2_ports_distinct, THEN iffD1])
      show "usb2_ports m K ! (unat h - 1) = usb2_ports m K ! (length (usb2_ports m (unat p)) - 1)"
        using inv(3) [OF mem] p by simp
    qed (use inv(1,2) [OF mem] le h in auto)
    then have "unat b = unat h" using b mem inv(1) [OF mem] h by (metis Suc_pred' length_greater_0_conv
          length_0_conv)
    then show "b = h" by (simp only: unat_eq_iff)
  next
    assume "b = h"
    then have mem: "usb2_port m (unat p)" and len: "unat h = length (usb2_ports m (unat p))"
      using b h by (auto split: if_splits)
    then have "unat a = unat p" using a inv [OF mem] nz by simp
    then show "a = p" by (simp only: unat_eq_iff)
  qed
qed

text \<open>
  The hub-port map is a bijection between hub ports 1 to n and exactly the managed USB 2.0
  ports of the controller: translating a hub port to a controller port and back, or the other way
  round, gives the port one started from; everything else translates to 0. The build succeeds
  exactly when there is such a port, and every port's timer generation has moved on.
\<close>

theorem root_hub_map_bijective:
  assumes "XhciRootHubBuild (Some m) (Some rh0) = (st, Some rh)"
    and "length (HubToPort rh0) = 255" "length (PortToHub rh0) = 255"
  shows "st = (if \<exists>p. XhciPortIsManaged m p \<and> \<not> XhciPortIsUsb3 m p then XHCI_RH_OK else XHCI_RH_NO_PORTS) \<and>
    (st = XHCI_RH_OK \<longrightarrow>
      (\<forall>p. XhciRootHubHubPortOf (Some rh) p \<noteq> 0 \<longleftrightarrow> XhciPortIsManaged m p \<and> \<not> XhciPortIsUsb3 m p) \<and>
      (\<forall>h. XhciRootHubPortOf (Some rh) h \<noteq> 0 \<longleftrightarrow> h \<noteq> 0 \<and> h \<le> RhPortCount rh) \<and>
      (\<forall>h p. h \<noteq> 0 \<and> p \<noteq> 0 \<longrightarrow>
         (XhciRootHubPortOf (Some rh) h = p \<longleftrightarrow> XhciRootHubHubPortOf (Some rh) p = h))) \<and>
    map Generation (Ports rh) = map (\<lambda>s. XhciPortShadowNextGeneration (Some s)) (Ports rh0)"
proof -
  define K where "K = min (unat (MapPortCount m)) 255"
  note r = build_result [OF assms, folded K_def]
  have K: "K \<le> 255" by (simp add: K_def)
  have usb2: "usb2_port m (unat p) \<longleftrightarrow> XhciPortIsManaged m p \<and> \<not> XhciPortIsUsb3 m p" for p
    by (simp add: usb2_port_def)
  have in_K: "0 < unat p \<and> unat p \<le> K" if "usb2_port m (unat p)" for p :: ulong
  proof (rule ccontr)
    assume "\<not> (0 < unat p \<and> unat p \<le> K)"
    then have "unat (MapPortCount m) < unat p \<or> 255 < unat p \<or> unat p = 0" by (auto simp: K_def)
    from unmanaged_beyond [OF this unat_lt_2p32] that show False by simp
  qed
  have mem: "unat p \<in> set (usb2_ports m K) \<longleftrightarrow> usb2_port m (unat p)" for p :: ulong
    using in_K [of p] by (auto simp: usb2_ports_set)
  have small: "q < 256" if "q \<in> set (usb2_ports m K)" for q using that K by (simp add: usb2_ports_set)
  have gens: "map Generation (Ports rh) = map (\<lambda>s. XhciPortShadowNextGeneration (Some s)) (Ports rh0)"
    using r(6) by (simp add: shadow_rebuilt_def XhciPortShadowNextGeneration_def Let_def)
  have exists: "usb2_ports m K \<noteq> [] \<longleftrightarrow> (\<exists>p :: ulong. usb2_port m (unat p))"
  proof
    assume "usb2_ports m K \<noteq> []"
    then obtain q where "q \<in> set (usb2_ports m K)" using hd_in_set by blast
    then show "\<exists>p :: ulong. usb2_port m (unat p)" using mem [of "of_nat q"] unat_of_nat_small [OF small] by metis
  next
    assume "\<exists>p :: ulong. usb2_port m (unat p)"
    then show "usb2_ports m K \<noteq> []" using mem by fastforce
  qed
  show ?thesis
  proof (cases "st = XHCI_RH_OK")
    case False
    then show ?thesis using r(2) exists usb2 gens by auto
  next
    case True
    note look = map_lookups [OF assms(1) [unfolded True] assms(2,3), folded K_def]
    have hub: "XhciRootHubHubPortOf (Some rh) p \<noteq> 0 \<longleftrightarrow> usb2_port m (unat p)" for p
      using look(2) [of p] usb2_ports_nth(1) [of m "unat p" K] in_K [of p]
        unat_eq_iff [of "XhciRootHubHubPortOf (Some rh) p" 0] by (auto split: if_splits)
    have port: "XhciRootHubPortOf (Some rh) h \<noteq> 0 \<longleftrightarrow> h \<noteq> 0 \<and> h \<le> RhPortCount rh" for h
    proof -
      have "0 < usb2_ports m K ! (unat h - 1)" if "h \<noteq> 0" "unat h \<le> length (usb2_ports m K)"
        using nth_mem [of "unat h - 1" "usb2_ports m K"] that unat_eq_iff [of h 0] by (simp add: usb2_ports_set)
      then show ?thesis
        using look(1) [of h] r(3) unat_eq_iff [of "XhciRootHubPortOf (Some rh) h" 0]
        by (auto simp: word_le_nat_alt split: if_splits)
    qed
    have bij: "XhciRootHubPortOf (Some rh) h = p \<longleftrightarrow> XhciRootHubHubPortOf (Some rh) p = h"
      if nz: "h \<noteq> 0" "p \<noteq> 0" for h p
      using map_inverse [OF look(1) [of h] look(2) [of p] _ nz] in_K [of p] by blast
    show ?thesis using r(2) exists usb2 gens True hub port bij by auto
  qed
qed

definition sample_port_map :: xhci_port_map where
  "sample_port_map = \<lparr>MapPortCount = 4, ProtocolCount = 2, ManagedPortCount = 4, LegacySupportOffset = 0,
     DebugCapabilityOffset = 0, Protocols = [], PortClasses = [3, 2, 4, 1], PortProtocol = [], Companion = [], Reserved = []\<rparr>"

definition blank_root_hub :: xhci_root_hub where
  "blank_root_hub = \<lparr>RhPortCount = 0, RhStatus = XHCI_RH_NO_PORTS, HubToPort = replicate 255 0,
     PortToHub = replicate 255 0, Ports = []\<rparr>"

lemma build_some: "\<exists>st rh. XhciRootHubBuild (Some m) (Some r) = (st, Some rh)"
  by (auto simp: XhciRootHubBuild_def Let_def simp del: upt_Suc split: prod.split)

theorem root_hub_map_bijective_witness:
  "\<exists>rh. XhciRootHubBuild (Some sample_port_map) (Some blank_root_hub) = (XHCI_RH_OK, Some rh) \<and>
     (XhciRootHubPortOf (Some rh) 2 = 4 \<longleftrightarrow> XhciRootHubHubPortOf (Some rh) 4 = 2)"
proof -
  obtain st rh where b: "XhciRootHubBuild (Some sample_port_map) (Some blank_root_hub) = (st, Some rh)"
    using build_some by blast
  have l: "length (HubToPort blank_root_hub) = 255" "length (PortToHub blank_root_hub) = 255"
    by (simp_all add: blank_root_hub_def)
  have "XhciPortIsManaged sample_port_map 2 \<and> \<not> XhciPortIsUsb3 sample_port_map 2" by code_simp
  then have ex: "\<exists>p. XhciPortIsManaged sample_port_map p \<and> \<not> XhciPortIsUsb3 sample_port_map p" by blast
  note t = root_hub_map_bijective [OF b l, unfolded if_P [OF ex]]
  have "(2 :: ulong) \<noteq> 0" "(4 :: ulong) \<noteq> 0" by simp_all
  then show ?thesis using t b by blast
qed

end
