(* ===== verification/Xhci_Desc.thy ===== *)
theory Xhci_Desc
  imports Xhci_Prelude
begin

text \<open>
  The configuration-descriptor snoop (\<open>xhci_desc.c\<close>, \<open>xhci_desc.h\<close>): the byte-level walk of a
  configuration descriptor, the table of isochronous endpoints it fills, the selections that say
  which declaration is in force, and the lookup of an endpoint's \<open>bInterval\<close>.

  The 0/1 fields \<open>Valid\<close>, \<open>Used\<close>, \<open>Unusable\<close>, \<open>Bad\<close>, \<open>Started\<close> and \<open>InInterface\<close> are only ever
  written 0 or 1 and tested, and are \<open>bool\<close> here. The counters are 32-bit words and wrap.
\<close>

section \<open>Vocabulary and structures\<close>

abbreviation (input) XHCI_DESC_RT_STANDARD_IN :: uchar where "XHCI_DESC_RT_STANDARD_IN \<equiv> 0x80"
abbreviation (input) XHCI_DESC_RT_STANDARD_OUT :: uchar where "XHCI_DESC_RT_STANDARD_OUT \<equiv> 0x00"
abbreviation (input) XHCI_DESC_REQ_GET_DESCRIPTOR :: uchar where "XHCI_DESC_REQ_GET_DESCRIPTOR \<equiv> 0x06"
abbreviation (input) XHCI_DESC_REQ_SET_CONFIGURATION :: uchar where "XHCI_DESC_REQ_SET_CONFIGURATION \<equiv> 0x09"
abbreviation (input) XHCI_DESC_RT_STANDARD_IFACE :: uchar where "XHCI_DESC_RT_STANDARD_IFACE \<equiv> 0x01"
abbreviation (input) XHCI_DESC_REQ_SET_INTERFACE :: uchar where "XHCI_DESC_REQ_SET_INTERFACE \<equiv> 0x0B"
abbreviation (input) XHCI_DESC_TYPE_CONFIGURATION :: ulong where "XHCI_DESC_TYPE_CONFIGURATION \<equiv> 0x02"
abbreviation (input) XHCI_DESC_TYPE_INTERFACE :: ulong where "XHCI_DESC_TYPE_INTERFACE \<equiv> 0x04"
abbreviation (input) XHCI_DESC_TYPE_ENDPOINT :: ulong where "XHCI_DESC_TYPE_ENDPOINT \<equiv> 0x05"
abbreviation (input) XHCI_DESC_EP_TYPE_MASK :: ulong where "XHCI_DESC_EP_TYPE_MASK \<equiv> 0x03"
abbreviation (input) XHCI_DESC_EP_TYPE_ISOCH :: ulong where "XHCI_DESC_EP_TYPE_ISOCH \<equiv> 0x01"
abbreviation (input) XHCI_DESC_OFF_TYPE :: nat where "XHCI_DESC_OFF_TYPE \<equiv> 1"
abbreviation (input) XHCI_DESC_OFF_TOTAL_LO :: nat where "XHCI_DESC_OFF_TOTAL_LO \<equiv> 2"
abbreviation (input) XHCI_DESC_OFF_TOTAL_HI :: nat where "XHCI_DESC_OFF_TOTAL_HI \<equiv> 3"
abbreviation (input) XHCI_DESC_OFF_CONFIG_VALUE :: nat where "XHCI_DESC_OFF_CONFIG_VALUE \<equiv> 5"
abbreviation (input) XHCI_DESC_OFF_IF_NUMBER :: nat where "XHCI_DESC_OFF_IF_NUMBER \<equiv> 2"
abbreviation (input) XHCI_DESC_OFF_IF_ALTERNATE :: nat where "XHCI_DESC_OFF_IF_ALTERNATE \<equiv> 3"
abbreviation (input) XHCI_DESC_OFF_EP_ADDRESS :: nat where "XHCI_DESC_OFF_EP_ADDRESS \<equiv> 2"
abbreviation (input) XHCI_DESC_OFF_EP_ATTRIBUTES :: nat where "XHCI_DESC_OFF_EP_ATTRIBUTES \<equiv> 3"
abbreviation (input) XHCI_DESC_OFF_EP_INTERVAL :: nat where "XHCI_DESC_OFF_EP_INTERVAL \<equiv> 6"
abbreviation (input) XHCI_DESC_MIN_BYTES :: ulong where "XHCI_DESC_MIN_BYTES \<equiv> 2"
abbreviation (input) XHCI_DESC_CONFIG_BYTES :: ulong where "XHCI_DESC_CONFIG_BYTES \<equiv> 9"
abbreviation (input) XHCI_DESC_INTERFACE_BYTES :: ulong where "XHCI_DESC_INTERFACE_BYTES \<equiv> 9"
abbreviation (input) XHCI_DESC_ENDPOINT_BYTES :: ulong where "XHCI_DESC_ENDPOINT_BYTES \<equiv> 7"
abbreviation (input) XHCI_DESC_HEAD_BYTES :: nat where "XHCI_DESC_HEAD_BYTES \<equiv> 9"
abbreviation (input) XHCI_DESC_BINTERVAL_MIN :: ulong where "XHCI_DESC_BINTERVAL_MIN \<equiv> 1"
abbreviation (input) XHCI_DESC_BINTERVAL_MAX :: ulong where "XHCI_DESC_BINTERVAL_MAX \<equiv> 16"
abbreviation (input) XHCI_DESC_ISO_ENDPOINTS :: nat where "XHCI_DESC_ISO_ENDPOINTS \<equiv> 8"
abbreviation (input) XHCI_DESC_INTERFACES :: nat where "XHCI_DESC_INTERFACES \<equiv> 4"
abbreviation (input) XHCI_DESC_POWER_TAB_MAX :: ulong where "XHCI_DESC_POWER_TAB_MAX \<equiv> 0xFF"
abbreviation (input) XHCI_SPEED_SUPER :: ulong where "XHCI_SPEED_SUPER \<equiv> 4"

record xhci_setup_packet =
  bmRequestType :: uchar
  bRequest :: uchar
  wValue :: "16 word"
  wIndex :: "16 word"
  wLength :: "16 word"

record xhci_desc_iso_ep =
  EpAddress :: ulong
  EpBInterval :: ulong
  EpInterface :: ulong
  EpAlternate :: ulong
  EpUnusable :: bool

record xhci_desc_iso_table =
  TabValid :: bool
  ConfigValue :: ulong
  TabCount :: ulong
  TabDropped :: ulong
  BadInterval :: ulong
  BadDescriptor :: ulong
  IsoEndpoint :: "xhci_desc_iso_ep list"

record xhci_desc_alt =
  AltUsed :: bool
  AltInterface :: ulong
  AltAlternate :: ulong

record xhci_desc_state =
  StTable :: xhci_desc_iso_table
  SelectedConfig :: ulong
  AltDropped :: ulong
  Alts :: "xhci_desc_alt list"

datatype desc_action =
  XHCI_DESC_ACT_NONE | XHCI_DESC_ACT_CONFIG_REPLY | XHCI_DESC_ACT_SELECT_CONFIG | XHCI_DESC_ACT_SELECT_INTERFACE

record xhci_desc_snoop =
  SnAction :: desc_action
  SnAddress :: ulong
  SnValue :: ulong
  SnIndex :: ulong

record xhci_desc_parse =
  PaBad :: bool
  PaStarted :: bool
  PaTotalLength :: ulong
  PaReceived :: ulong
  PaLength :: ulong
  PaPos :: ulong
  PaInInterface :: bool
  PaInterface :: ulong
  PaAlternate :: ulong
  PaHead :: "uchar list"
  PaTable :: xhci_desc_iso_table

datatype desc_fold = XHCI_DESC_FOLD_COMMIT | XHCI_DESC_FOLD_PARTIAL | XHCI_DESC_FOLD_MALFORMED

datatype desc_commit = XHCI_DESC_COMMIT_OK | XHCI_DESC_COMMIT_INACTIVE | XHCI_DESC_COMMIT_BAD_PARAM

section \<open>The snoop\<close>

text \<open>The result is what is stored through \<open>snoop\<close>, \<open>None\<close> for a \<open>NULL\<close> pointer.\<close>

definition XhciDescObserveSetup ::
    "ulong \<Rightarrow> xhci_setup_packet option \<Rightarrow> xhci_desc_snoop option \<Rightarrow> xhci_desc_snoop option" where
  "XhciDescObserveSetup address setup snoop =
     (case snoop of
        None \<Rightarrow> None
      | Some sn \<Rightarrow>
          let sn = sn\<lparr>SnAction := XHCI_DESC_ACT_NONE, SnAddress := address, SnValue := 0, SnIndex := 0\<rparr>
          in case setup of
               None \<Rightarrow> Some sn
             | Some s \<Rightarrow>
                 if address = 0 then Some sn
                 else if bmRequestType s = XHCI_DESC_RT_STANDARD_OUT \<and>
                         bRequest s = XHCI_DESC_REQ_SET_CONFIGURATION then
                   Some (sn\<lparr>SnAction := XHCI_DESC_ACT_SELECT_CONFIG,
                            SnValue := ucast (wValue s) AND 0xFF\<rparr>)
                 else if bmRequestType s = XHCI_DESC_RT_STANDARD_IFACE \<and>
                         bRequest s = XHCI_DESC_REQ_SET_INTERFACE then
                   Some (sn\<lparr>SnAction := XHCI_DESC_ACT_SELECT_INTERFACE,
                            SnValue := ucast (wValue s) AND 0xFF,
                            SnIndex := ucast (wIndex s) AND 0xFF\<rparr>)
                 else if bmRequestType s \<noteq> XHCI_DESC_RT_STANDARD_IN \<or>
                         bRequest s \<noteq> XHCI_DESC_REQ_GET_DESCRIPTOR then Some sn
                 else
                   let type = drop_bit 8 (ucast (wValue s) :: ulong) AND 0xFF
                   in if type \<noteq> XHCI_DESC_TYPE_CONFIGURATION then Some sn
                      else Some (sn\<lparr>SnAction := XHCI_DESC_ACT_CONFIG_REPLY\<rparr>))"

section \<open>The table\<close>

definition iso_ep_zero :: xhci_desc_iso_ep where
  "iso_ep_zero = \<lparr>EpAddress = 0, EpBInterval = 0, EpInterface = 0, EpAlternate = 0, EpUnusable = False\<rparr>"

definition alt_zero :: xhci_desc_alt where
  "alt_zero = \<lparr>AltUsed = False, AltInterface = 0, AltAlternate = 0\<rparr>"

text \<open>The body of the reset of a table, for the callers that pass the address of an embedded one.\<close>

definition table_reset :: "xhci_desc_iso_table \<Rightarrow> xhci_desc_iso_table" where
  "table_reset table =
     (let table = table\<lparr>TabValid := False, ConfigValue := 0, TabCount := 0, TabDropped := 0,
                        BadInterval := 0, BadDescriptor := 0\<rparr>
      in foldl (\<lambda>t i. t\<lparr>IsoEndpoint := (IsoEndpoint t)[i := iso_ep_zero]\<rparr>) table
           [0..<XHCI_DESC_ISO_ENDPOINTS])"

definition XhciDescTableReset :: "xhci_desc_iso_table option \<Rightarrow> xhci_desc_iso_table option" where
  "XhciDescTableReset table = (case table of None \<Rightarrow> None | Some t \<Rightarrow> Some (table_reset t))"

text \<open>The loop that clears the alternate selections, shared by two of the operations.\<close>

definition alts_clear :: "xhci_desc_state \<Rightarrow> xhci_desc_state" where
  "alts_clear state =
     foldl (\<lambda>s i. s\<lparr>Alts := (Alts s)[i := alt_zero]\<rparr>) state [0..<XHCI_DESC_INTERFACES]"

definition XhciDescStateReset :: "xhci_desc_state option \<Rightarrow> xhci_desc_state option" where
  "XhciDescStateReset state =
     (case state of
        None \<Rightarrow> None
      | Some s \<Rightarrow>
          Some (alts_clear (s\<lparr>StTable := table_reset (StTable s),
                              SelectedConfig := 0, AltDropped := 0\<rparr>)))"

definition xhciDescRecord ::
    "xhci_desc_iso_table \<Rightarrow> ulong \<Rightarrow> ulong \<Rightarrow> ulong \<Rightarrow> ulong \<Rightarrow> xhci_desc_iso_table" where
  "xhciDescRecord table interfaceNumber alternate address bInterval =
     (if address = 0 then table\<lparr>BadDescriptor := BadDescriptor table + 1\<rparr>
      else
        let usable = (bInterval \<ge> XHCI_DESC_BINTERVAL_MIN \<and> bInterval \<le> XHCI_DESC_BINTERVAL_MAX);
            table = (if \<not> usable then table\<lparr>BadInterval := BadInterval table + 1\<rparr> else table)
        in case find (\<lambda>i. EpAddress (IsoEndpoint table ! i) = address \<and>
                           EpInterface (IsoEndpoint table ! i) = interfaceNumber \<and>
                           EpAlternate (IsoEndpoint table ! i) = alternate) [0..<XHCI_DESC_ISO_ENDPOINTS] of
             Some i \<Rightarrow>
               let table = table\<lparr>BadDescriptor := BadDescriptor table + 1\<rparr>
               in if EpBInterval (IsoEndpoint table ! i) \<noteq> bInterval
                  then table\<lparr>IsoEndpoint := (IsoEndpoint table)[i := (IsoEndpoint table ! i)\<lparr>EpUnusable := True\<rparr>]\<rparr>
                  else table
           | None \<Rightarrow>
               (case find (\<lambda>i. EpAddress (IsoEndpoint table ! i) = 0) [0..<XHCI_DESC_ISO_ENDPOINTS] of
                  Some i \<Rightarrow>
                    table\<lparr>IsoEndpoint := (IsoEndpoint table)[i :=
                             \<lparr>EpAddress = address, EpBInterval = (if usable then bInterval else 0),
                              EpInterface = interfaceNumber, EpAlternate = alternate,
                              EpUnusable = (\<not> usable)\<rparr>],
                          TabCount := TabCount table + 1\<rparr>
                | None \<Rightarrow> table\<lparr>TabDropped := TabDropped table + 1\<rparr>))"

definition XhciDescCommit ::
    "xhci_desc_state option \<Rightarrow> xhci_desc_iso_table option \<Rightarrow> desc_commit \<times> xhci_desc_state option" where
  "XhciDescCommit state table =
     (case (state, table) of
        (Some s, Some t) \<Rightarrow>
          if \<not> TabValid t then (XHCI_DESC_COMMIT_BAD_PARAM, state)
          else if SelectedConfig s \<noteq> 0 \<and> SelectedConfig s \<noteq> ConfigValue t
               then (XHCI_DESC_COMMIT_INACTIVE, state)
          else (XHCI_DESC_COMMIT_OK, Some (s\<lparr>StTable := t\<rparr>))
      | _ \<Rightarrow> (XHCI_DESC_COMMIT_BAD_PARAM, state))"

definition XhciDescSelectConfig ::
    "xhci_desc_state option \<Rightarrow> ulong \<Rightarrow> bool \<times> xhci_desc_state option" where
  "XhciDescSelectConfig state configValue =
     (case state of
        None \<Rightarrow> (False, None)
      | Some s \<Rightarrow>
          let dropped = (TabValid (StTable s) \<and> ConfigValue (StTable s) \<noteq> configValue);
              s = (if dropped then s\<lparr>StTable := table_reset (StTable s)\<rparr> else s);
              s = s\<lparr>SelectedConfig := configValue, AltDropped := 0\<rparr>
          in (dropped, Some (alts_clear s)))"

definition XhciDescSelectInterface ::
    "xhci_desc_state option \<Rightarrow> ulong \<Rightarrow> ulong \<Rightarrow> xhci_desc_state option" where
  "XhciDescSelectInterface state interfaceNumber alternate =
     (case state of
        None \<Rightarrow> None
      | Some s \<Rightarrow>
          (case find (\<lambda>i. AltUsed (Alts s ! i) \<and> AltInterface (Alts s ! i) = interfaceNumber)
                  [0..<XHCI_DESC_INTERFACES] of
             Some i \<Rightarrow> Some (s\<lparr>Alts := (Alts s)[i := (Alts s ! i)\<lparr>AltAlternate := alternate\<rparr>]\<rparr>)
           | None \<Rightarrow>
               (case find (\<lambda>i. \<not> AltUsed (Alts s ! i)) [0..<XHCI_DESC_INTERFACES] of
                  Some i \<Rightarrow>
                    Some (s\<lparr>Alts := (Alts s)[i := \<lparr>AltUsed = True, AltInterface = interfaceNumber,
                                                    AltAlternate = alternate\<rparr>]\<rparr>)
                | None \<Rightarrow> Some (s\<lparr>AltDropped := AltDropped s + 1\<rparr>))))"

text \<open>The alternate an interface runs, and whether that is known (\<open>*known\<close>).\<close>

definition xhciDescSelectedAlt :: "xhci_desc_state \<Rightarrow> ulong \<Rightarrow> ulong \<times> bool" where
  "xhciDescSelectedAlt state interfaceNumber =
     (case find (\<lambda>i. AltUsed (Alts state ! i) \<and> AltInterface (Alts state ! i) = interfaceNumber)
             [0..<XHCI_DESC_INTERFACES] of
        Some i \<Rightarrow> (AltAlternate (Alts state ! i), True)
      | None \<Rightarrow> (0, AltDropped state = 0))"

definition XhciDescIsoDeclared :: "xhci_desc_state option \<Rightarrow> ulong \<Rightarrow> bool" where
  "XhciDescIsoDeclared state endpointAddress \<longleftrightarrow>
     (case state of
        None \<Rightarrow> False
      | Some s \<Rightarrow>
          endpointAddress \<noteq> 0 \<and> TabValid (StTable s) \<and>
          (\<exists>i\<in>set [0..<XHCI_DESC_ISO_ENDPOINTS]. EpAddress (IsoEndpoint (StTable s) ! i) = endpointAddress))"

text \<open>
  The two passes of the interval lookup, each over the entries of the table in order. The
  accumulator is \<open>matched\<close> with \<open>value\<close>; the result \<open>None\<close> is the early \<open>return 0\<close>.
\<close>

fun interval_pass1 ::
    "xhci_desc_state \<Rightarrow> ulong \<Rightarrow> xhci_desc_iso_ep list \<Rightarrow> ulong option \<Rightarrow> ulong option option" where
  "interval_pass1 state address [] matched = Some matched"
| "interval_pass1 state address (ep # eps) matched =
     (if EpAddress ep \<noteq> address then interval_pass1 state address eps matched
      else
        let (alt, known) = xhciDescSelectedAlt state (EpInterface ep)
        in if EpAlternate ep \<noteq> alt then
             (if \<not> known then None else interval_pass1 state address eps matched)
           else if \<not> known then None
           else if EpUnusable ep then None
           else (case matched of
                   None \<Rightarrow> interval_pass1 state address eps (Some (EpBInterval ep))
                 | Some v \<Rightarrow> if v \<noteq> EpBInterval ep then None
                             else interval_pass1 state address eps matched))"

fun interval_pass2 ::
    "ulong \<Rightarrow> xhci_desc_iso_ep list \<Rightarrow> ulong option \<Rightarrow> ulong option option" where
  "interval_pass2 address [] matched = Some matched"
| "interval_pass2 address (ep # eps) matched =
     (if EpAddress ep \<noteq> address then interval_pass2 address eps matched
      else if EpUnusable ep then None
      else (case matched of
              None \<Rightarrow> interval_pass2 address eps (Some (EpBInterval ep))
            | Some v \<Rightarrow> if v \<noteq> EpBInterval ep then None
                        else interval_pass2 address eps matched))"

text \<open>\<open>Some v\<close> is a return of 1 with \<open>*bInterval = v\<close>; \<open>None\<close> is a return of 0.\<close>

definition XhciDescIsoInterval :: "xhci_desc_state option \<Rightarrow> ulong \<Rightarrow> bool \<Rightarrow> ulong option" where
  "XhciDescIsoInterval state endpointAddress haveOut =
     (case state of
        None \<Rightarrow> None
      | Some s \<Rightarrow>
          if \<not> haveOut \<or> endpointAddress = 0 then None
          else if \<not> TabValid (StTable s) then None
          else
            let eps = map (\<lambda>i. IsoEndpoint (StTable s) ! i) [0..<XHCI_DESC_ISO_ENDPOINTS]
            in case interval_pass1 s endpointAddress eps None of
                 None \<Rightarrow> None
               | Some (Some v) \<Rightarrow> Some v
               | Some None \<Rightarrow>
                   if TabDropped (StTable s) \<noteq> 0 then None
                   else (case interval_pass2 endpointAddress eps None of
                           None \<Rightarrow> None
                         | Some None \<Rightarrow> None
                         | Some (Some v) \<Rightarrow> Some v))"

section \<open>The walk\<close>

definition XhciDescParseBegin :: "xhci_desc_parse option \<Rightarrow> xhci_desc_parse option" where
  "XhciDescParseBegin parse =
     (case parse of
        None \<Rightarrow> None
      | Some p \<Rightarrow>
          let p = p\<lparr>PaBad := False, PaStarted := False, PaTotalLength := 0, PaReceived := 0,
                    PaLength := 0, PaPos := 0, PaInInterface := False, PaInterface := 0,
                    PaAlternate := 0\<rparr>;
              p = foldl (\<lambda>p i. p\<lparr>PaHead := (PaHead p)[i := 0]\<rparr>) p [0..<XHCI_DESC_HEAD_BYTES]
          in Some (p\<lparr>PaTable := table_reset (PaTable p)\<rparr>))"

definition bad_descriptor :: "xhci_desc_parse \<Rightarrow> xhci_desc_parse" where
  "bad_descriptor parse =
     parse\<lparr>PaTable := (PaTable parse)\<lparr>BadDescriptor := BadDescriptor (PaTable parse) + 1\<rparr>\<rparr>"

definition xhciDescFoldOne :: "xhci_desc_parse \<Rightarrow> xhci_desc_parse" where
  "xhciDescFoldOne parse =
     (let head = (\<lambda>i. ucast (PaHead parse ! i) :: ulong);
          type = head XHCI_DESC_OFF_TYPE
      in if \<not> PaStarted parse then
           if type \<noteq> XHCI_DESC_TYPE_CONFIGURATION \<or> PaLength parse < XHCI_DESC_CONFIG_BYTES
           then parse\<lparr>PaBad := True\<rparr>
           else
             let parse = parse\<lparr>PaTotalLength :=
                   head XHCI_DESC_OFF_TOTAL_LO OR push_bit 8 (head XHCI_DESC_OFF_TOTAL_HI)\<rparr>
             in if PaTotalLength parse < PaLength parse then parse\<lparr>PaBad := True\<rparr>
                else parse\<lparr>PaTable := (PaTable parse)\<lparr>ConfigValue := head XHCI_DESC_OFF_CONFIG_VALUE\<rparr>,
                           PaStarted := True\<rparr>
         else if type = XHCI_DESC_TYPE_INTERFACE then
           if PaLength parse < XHCI_DESC_INTERFACE_BYTES
           then bad_descriptor (parse\<lparr>PaInInterface := False\<rparr>)
           else parse\<lparr>PaInInterface := True,
                      PaInterface := head XHCI_DESC_OFF_IF_NUMBER,
                      PaAlternate := head XHCI_DESC_OFF_IF_ALTERNATE\<rparr>
         else if type \<noteq> XHCI_DESC_TYPE_ENDPOINT then parse
         else if PaLength parse < XHCI_DESC_ENDPOINT_BYTES then bad_descriptor parse
         else if head XHCI_DESC_OFF_EP_ATTRIBUTES AND XHCI_DESC_EP_TYPE_MASK \<noteq> XHCI_DESC_EP_TYPE_ISOCH
              then parse
         else if \<not> PaInInterface parse then bad_descriptor parse
         else parse\<lparr>PaTable := xhciDescRecord (PaTable parse) (PaInterface parse) (PaAlternate parse)
                      (head XHCI_DESC_OFF_EP_ADDRESS) (head XHCI_DESC_OFF_EP_INTERVAL)\<rparr>)"

text \<open>The part of the loop body after the first byte of a descriptor has been looked at.\<close>

definition feed_store :: "xhci_desc_parse \<Rightarrow> uchar \<Rightarrow> xhci_desc_parse" where
  "feed_store parse b =
     (let parse = (if unat (PaPos parse) < XHCI_DESC_HEAD_BYTES
                   then parse\<lparr>PaHead := (PaHead parse)[unat (PaPos parse) := b]\<rparr> else parse);
          parse = parse\<lparr>PaPos := PaPos parse + 1\<rparr>
      in if PaPos parse = PaLength parse then (xhciDescFoldOne parse)\<lparr>PaLength := 0, PaPos := 0\<rparr>
         else parse)"

text \<open>The loop over \<open>data[0 .. length - 1]\<close>.\<close>

fun feed_loop :: "xhci_desc_parse \<Rightarrow> uchar list \<Rightarrow> xhci_desc_parse" where
  "feed_loop parse [] = parse"
| "feed_loop parse (d # ds) =
     (if PaBad parse then parse
      else if PaStarted parse \<and> PaReceived parse \<ge> PaTotalLength parse then parse
      else
        let b = (ucast d :: ulong);
            parse = parse\<lparr>PaReceived := PaReceived parse + 1\<rparr>
        in if PaLength parse = 0 then
             if b < XHCI_DESC_MIN_BYTES then parse\<lparr>PaBad := True\<rparr>
             else feed_loop (feed_store (parse\<lparr>PaLength := b, PaPos := 0\<rparr>) d) ds
           else feed_loop (feed_store parse d) ds)"

definition XhciDescParseFeed ::
    "xhci_desc_parse option \<Rightarrow> uchar list option \<Rightarrow> xhci_desc_parse option" where
  "XhciDescParseFeed parse data =
     (case (parse, data) of
        (Some p, Some ds) \<Rightarrow> Some (feed_loop p ds)
      | _ \<Rightarrow> parse)"

definition XhciDescParseEnd :: "xhci_desc_parse option \<Rightarrow> desc_fold \<times> xhci_desc_parse option" where
  "XhciDescParseEnd parse =
     (case parse of
        None \<Rightarrow> (XHCI_DESC_FOLD_MALFORMED, parse)
      | Some p \<Rightarrow>
          if PaBad p then (XHCI_DESC_FOLD_MALFORMED, parse)
          else if \<not> PaStarted p then (XHCI_DESC_FOLD_PARTIAL, parse)
          else if PaReceived p < PaTotalLength p then (XHCI_DESC_FOLD_PARTIAL, parse)
          else if PaLength p \<noteq> 0 then (XHCI_DESC_FOLD_MALFORMED, parse)
          else (XHCI_DESC_FOLD_COMMIT, Some (p\<lparr>PaTable := (PaTable p)\<lparr>TabValid := True\<rparr>\<rparr>)))"

section \<open>bMaxPower\<close>

definition XhciDescMaxPowerMa :: "ulong \<Rightarrow> ulong \<Rightarrow> ulong" where
  "XhciDescMaxPowerMa bMaxPower speedClass =
     (let bMaxPower = bMaxPower AND 0xFF
      in if speedClass = XHCI_SPEED_SUPER then bMaxPower * 8 else bMaxPower * 2)"

definition XhciDescPowerTabByte :: "ulong \<Rightarrow> ulong \<Rightarrow> ulong" where
  "XhciDescPowerTabByte bMaxPower speedClass =
     (let bMaxPower = bMaxPower AND 0xFF
      in if speedClass \<noteq> XHCI_SPEED_SUPER then bMaxPower
         else if bMaxPower > XHCI_DESC_POWER_TAB_MAX div 4 then XHCI_DESC_POWER_TAB_MAX
         else bMaxPower * 4)"

end
