(* ===== verification/Xhci_Desc_Walk.thy ===== *)
theory Xhci_Desc_Walk
  imports Xhci_Desc
begin

text \<open>
  The walk of \<open>xhci_desc.c\<close> at the level of whole descriptors: what a byte stream means, however it is
  chunked. \<open>wf_config\<close> says what a complete configuration is, \<open>walk_step\<close> what one descriptor of it
  contributes, and the lemmas show that the byte machine computes exactly that.
\<close>

section \<open>Chunks\<close>

definition feed_done :: "xhci_desc_parse \<Rightarrow> bool" where
  "feed_done p \<longleftrightarrow> PaBad p \<or> PaStarted p \<and> PaReceived p \<ge> PaTotalLength p"

lemma feed_done_stuck: "feed_done p \<Longrightarrow> feed_loop p bs = p"
  by (cases bs) (auto simp: feed_done_def)

lemma feed_append: "feed_loop p (xs @ ys) = feed_loop (feed_loop p xs) ys"
proof (induction p xs rule: feed_loop.induct)
  case (1 p)
  then show ?case by simp
next
  case (2 p d ds)
  show ?case
  proof (cases "feed_done p")
    case True
    then show ?thesis by (simp only: append_Cons feed_done_stuck)
  next
    case False
    have "feed_loop (q\<lparr>PaBad := True\<rparr>) ys = q\<lparr>PaBad := True\<rparr>" for q
      by (rule feed_done_stuck) (simp add: feed_done_def)
    then show ?thesis
      using False 2 by (auto simp: feed_done_def Let_def)
  qed
qed

lemma feed_concat: "foldl feed_loop p chunks = feed_loop p (concat chunks)"
  by (induction chunks arbitrary: p) (simp_all add: feed_append)

section \<open>Whole descriptors\<close>

text \<open>A descriptor: at least two bytes, the first of which is its length.\<close>

definition wf_desc :: "uchar list \<Rightarrow> bool" where
  "wf_desc d \<longleftrightarrow> 2 \<le> length d \<and> unat (d ! 0) = length d"

text \<open>The shape the C arrays give a walk.\<close>

definition parse_shape :: "xhci_desc_parse \<Rightarrow> bool" where
  "parse_shape p \<longleftrightarrow> length (PaHead p) = 9 \<and> length (IsoEndpoint (PaTable p)) = 8"

text \<open>The walk in the middle of a descriptor of which the bytes \<open>xs\<close> have arrived.\<close>

definition mid_desc :: "xhci_desc_parse \<Rightarrow> uchar list \<Rightarrow> xhci_desc_parse" where
  "mid_desc p xs =
     p\<lparr>PaReceived := PaReceived p + of_nat (length xs), PaLength := ucast (xs ! 0),
       PaPos := of_nat (length xs), PaHead := take 9 xs @ drop (length xs) (PaHead p)\<rparr>"

text \<open>The bytes still wanted: none once \<open>wTotalLength\<close> have arrived.\<close>

definition wants :: "xhci_desc_parse \<Rightarrow> nat \<Rightarrow> bool" where
  "wants p n \<longleftrightarrow> \<not> PaBad p \<and> unat (PaReceived p) + n < 4294967296 \<and>
     (PaStarted p \<longrightarrow> unat (PaReceived p) + n \<le> unat (PaTotalLength p))"

declare unat_ucast_byte [simp]

lemma ucast_byte_eq_0 [simp]: "(ucast (b :: uchar) :: ulong) = 0 \<longleftrightarrow> b = 0"
  by (metis unat_ucast_byte unsigned_eq_0_iff)

lemma byte_less_2: "(ucast (b :: uchar) :: ulong) < 2 \<longleftrightarrow> unat b < 2"
  by (simp add: word_less_nat_alt)

lemma wants_mono: "wants p n \<Longrightarrow> m \<le> n \<Longrightarrow> wants p m"
  by (auto simp: wants_def)

lemma wants_not_done:
  assumes "wants p n" and "k < n"
  shows "\<not> PaBad p" and "\<not> (PaStarted p \<and> PaReceived p + of_nat k \<ge> PaTotalLength p)"
proof -
  have "unat (PaReceived p + of_nat k) = unat (PaReceived p) + k"
    using assms by (subst unat_add_no_wrap) (auto simp: wants_def unat_of_nat_ulong)
  then show "\<not> (PaStarted p \<and> PaReceived p + of_nat k \<ge> PaTotalLength p)"
    using assms by (auto simp: wants_def word_le_nat_alt)
qed (use assms in \<open>auto simp: wants_def\<close>)

lemma head_snoc:
  assumes "length h = 9"
  shows "(if length xs < 9 then (take 9 xs @ drop (length xs) h)[length xs := x]
          else take 9 xs @ drop (length xs) h) = take 9 (xs @ [x]) @ drop (length (xs @ [x])) h"
  using assms by (auto simp: list_update_append Cons_nth_drop_Suc [symmetric])

lemma feed_store_mid:
  assumes h: "length (PaHead p) = 9" and n: "length xs < 256" and ne: "xs \<noteq> []"
  shows "feed_store ((mid_desc p xs)\<lparr>PaReceived := PaReceived (mid_desc p xs) + 1\<rparr>) x =
     (let q = mid_desc p (xs @ [x])
      in if length xs + 1 = unat (xs ! 0) then (xhciDescFoldOne q)\<lparr>PaLength := 0, PaPos := 0\<rparr> else q)"
proof -
  have pos: "unat (of_nat (length xs) :: ulong) = length xs"
    using n by (simp add: unat_of_nat_ulong)
  have eq: "(of_nat (length xs) + 1 :: ulong) = ucast (xs ! 0) \<longleftrightarrow> length xs + 1 = unat (xs ! 0)"
    using n by (simp add: unat_eq_iff [symmetric] unat_add_no_wrap pos)
  have first: "(xs @ [x]) ! 0 = xs ! 0"
    using ne by (simp add: nth_append)
  define r where "r = (mid_desc p xs)\<lparr>PaReceived := PaReceived (mid_desc p xs) + 1\<rparr>"
  define s where "s = (if unat (PaPos r) < 9 then r\<lparr>PaHead := (PaHead r)[unat (PaPos r) := x]\<rparr> else r)"
  have "s\<lparr>PaPos := PaPos s + 1\<rparr> = mid_desc p (xs @ [x])"
    using head_snoc [OF h, of xs x]
    by (cases p) (auto simp: s_def r_def mid_desc_def pos first algebra_simps split: if_splits)
  moreover have "PaPos (mid_desc p (xs @ [x])) = PaLength (mid_desc p (xs @ [x])) \<longleftrightarrow>
      length xs + 1 = unat (xs ! 0)"
    using eq by (simp add: mid_desc_def first algebra_simps)
  ultimately show ?thesis
    unfolding r_def [symmetric] feed_store_def Let_def s_def [symmetric] by simp
qed

lemma feed_first:
  assumes "wants p 1" and "PaLength p = 0" and "length (PaHead p) = 9" and "2 \<le> unat x"
  shows "feed_loop p [x] = mid_desc p [x]"
proof -
  have "(1 :: ulong) \<noteq> ucast x"
    using assms(4) by (auto simp: unat_eq_iff [symmetric])
  moreover have "(PaHead p)[0 := x] = [x] @ drop 1 (PaHead p)"
    using assms(3) by (cases "PaHead p") auto
  ultimately show ?thesis
    using assms wants_not_done [OF assms(1), of 0]
    by (cases p) (simp add: feed_store_def mid_desc_def Let_def byte_less_2)
qed

lemma feed_mid:
  assumes w: "wants p (length xs)" and l: "PaLength p = 0" and h: "length (PaHead p) = 9"
    and ne: "xs \<noteq> []" and n: "length xs < unat (xs ! 0)" and two: "2 \<le> unat (xs ! 0)"
  shows "feed_loop p xs = mid_desc p xs"
  using ne w n two
proof (induction xs rule: rev_nonempty_induct)
  case (single x)
  then show ?case using feed_first [of p x] l h by simp
next
  case (snoc x xs)
  have f: "(xs @ [x]) ! 0 = xs ! 0"
    using snoc.hyps by (simp add: nth_append)
  have mid: "feed_loop p xs = mid_desc p xs"
    using snoc f by (intro snoc.IH) (auto intro: wants_mono)
  have nd: "\<not> PaBad p" "\<not> (PaStarted p \<and> PaReceived p + of_nat (length xs) \<ge> PaTotalLength p)"
    using wants_not_done [OF snoc.prems(1), of "length xs"] by auto
  have "length xs < 256"
    using snoc.prems unat_byte_less [of "xs ! 0"] f by simp
  note st = feed_store_mid [OF h this snoc.hyps(1), of x]
  have "feed_loop (mid_desc p xs) [x] = feed_store ((mid_desc p xs)\<lparr>PaReceived := PaReceived (mid_desc p xs) + 1\<rparr>) x"
    using nd snoc.prems f by (auto simp: mid_desc_def Let_def)
  then show ?case
    using mid st snoc.prems f by (simp add: feed_append Let_def)
qed

text \<open>A whole descriptor is folded at its last byte.\<close>

lemma feed_desc:
  assumes w: "wants p (length d)" and l: "PaLength p = 0" and h: "length (PaHead p) = 9"
    and d: "wf_desc d"
  shows "feed_loop p d = (xhciDescFoldOne (mid_desc p d))\<lparr>PaLength := 0, PaPos := 0\<rparr>"
proof -
  obtain xs x where dx: "d = xs @ [x]"
    using d by (cases d rule: rev_cases) (auto simp: wf_desc_def)
  have ne: "xs \<noteq> []"
    using d dx by (auto simp: wf_desc_def)
  then have f: "d ! 0 = xs ! 0"
    using dx by (simp add: nth_append)
  have mid: "feed_loop p xs = mid_desc p xs"
    using d dx f ne l h w by (intro feed_mid) (auto simp: wf_desc_def intro: wants_mono)
  have nd: "\<not> PaBad p" "\<not> (PaStarted p \<and> PaReceived p + of_nat (length xs) \<ge> PaTotalLength p)"
    using wants_not_done [OF w, of "length xs"] dx by auto
  have "length xs < 256"
    using d unat_byte_less [of "d ! 0"] dx by (simp add: wf_desc_def)
  note st = feed_store_mid [OF h this ne, of x]
  have "feed_loop (mid_desc p xs) [x] = feed_store ((mid_desc p xs)\<lparr>PaReceived := PaReceived (mid_desc p xs) + 1\<rparr>) x"
    using nd d f dx by (auto simp: mid_desc_def Let_def wf_desc_def)
  then show ?thesis
    using mid st d f by (simp add: feed_append Let_def dx wf_desc_def)
qed

section \<open>What the descriptors of a configuration say\<close>

text \<open>
  \<open>walk_items\<close> reads a list of descriptors: the interface in force is carried along, and each
  isochronous endpoint is a declaration under it. Everything the walk refuses and counts as
  \<open>BadDescriptor\<close> on the spot is \<open>Malformed\<close>.
\<close>

datatype walk_item = Declares ulong ulong ulong ulong | Malformed

fun walk_items :: "(ulong \<times> ulong) option \<Rightarrow> uchar list list \<Rightarrow> walk_item list" where
  "walk_items ctx [] = []"
| "walk_items ctx (d # ds) =
     (if d ! 1 = 4 then
        (if length d < 9 then Malformed # walk_items None ds
         else walk_items (Some (ucast (d ! 2), ucast (d ! 3))) ds)
      else if d ! 1 \<noteq> 5 then walk_items ctx ds
      else if length d < 7 then Malformed # walk_items ctx ds
      else if d ! 3 AND 3 \<noteq> 1 then walk_items ctx ds
      else (case ctx of
              None \<Rightarrow> Malformed
            | Some (i, a) \<Rightarrow> if d ! 2 = 0 then Malformed
                            else Declares i a (ucast (d ! 2)) (ucast (d ! 6))) # walk_items ctx ds)"

definition config_total :: "uchar list \<Rightarrow> nat" where
  "config_total c = unat (c ! 2) + 256 * unat (c ! 3)"

text \<open>A complete configuration: well-formed descriptors, the first of them the header, whose total is theirs.\<close>

fun wf_config :: "uchar list list \<Rightarrow> bool" where
  "wf_config [] \<longleftrightarrow> False"
| "wf_config (c # ds) \<longleftrightarrow>
     list_all wf_desc (c # ds) \<and> c ! 1 = 2 \<and> 9 \<le> length c \<and> config_total c = length (concat (c # ds))"

fun apply_item :: "xhci_desc_iso_table \<Rightarrow> walk_item \<Rightarrow> xhci_desc_iso_table" where
  "apply_item t Malformed = t\<lparr>BadDescriptor := BadDescriptor t + 1\<rparr>"
| "apply_item t (Declares i a ad b) = xhciDescRecord t i a ad b"

definition walk_ctx :: "xhci_desc_parse \<Rightarrow> (ulong \<times> ulong) option" where
  "walk_ctx p = (if PaInInterface p then Some (PaInterface p, PaAlternate p) else None)"

section \<open>Folding descriptors\<close>

lemma length_record [simp]:
  "length (IsoEndpoint (xhciDescRecord t i a ad b)) = length (IsoEndpoint t)"
  by (auto simp: xhciDescRecord_def Let_def split: option.splits)

lemma config_value_record [simp]:
  "ConfigValue (xhciDescRecord t i a ad b) = ConfigValue t" "TabValid (xhciDescRecord t i a ad b) = TabValid t"
  by (auto simp: xhciDescRecord_def Let_def split: option.splits)

lemma mid_desc_simps [simp]:
  "PaBad (mid_desc p d) = PaBad p" "PaStarted (mid_desc p d) = PaStarted p"
  "PaTotalLength (mid_desc p d) = PaTotalLength p"
  "PaReceived (mid_desc p d) = PaReceived p + of_nat (length d)"
  "PaInInterface (mid_desc p d) = PaInInterface p" "PaInterface (mid_desc p d) = PaInterface p"
  "PaAlternate (mid_desc p d) = PaAlternate p" "PaTable (mid_desc p d) = PaTable p"
  "PaLength (mid_desc p d) = ucast (d ! 0)"
  "length (PaHead p) = 9 \<Longrightarrow> length (PaHead (mid_desc p d)) = 9"
  by (auto simp: mid_desc_def min_def)

lemma mid_desc_head: "i < length d \<Longrightarrow> i < 9 \<Longrightarrow> PaHead (mid_desc p d) ! i = d ! i"
  by (simp add: mid_desc_def nth_append)

lemma ucast_byte_eq_numeral:
  "(ucast (b :: uchar) :: ulong) = 2 \<longleftrightarrow> b = 2" "(ucast b :: ulong) = 4 \<longleftrightarrow> b = 4"
  "(ucast b :: ulong) = 5 \<longleftrightarrow> b = 5"
  by (simp_all add: unat_eq_iff [symmetric] word_unat_eq_iff)

lemma ucast_byte_and_3: "(ucast (b :: uchar) :: ulong) AND 3 = 1 \<longleftrightarrow> b AND 3 = 1"
proof -
  have "(ucast b :: ulong) AND 3 = ucast (b AND 3)"
    by (simp add: unsigned_and_eq)
  then show ?thesis
    by (simp add: word_unat_eq_iff)
qed

lemma wf_desc_length:
  assumes "wf_desc d" and "k < 256"
  shows "(ucast (d ! 0) :: ulong) < of_nat k \<longleftrightarrow> length d < k"
  using assms by (simp add: wf_desc_def word_less_nat_alt unat_of_nat_ulong)

text \<open>One descriptor after the header.\<close>

lemma fold_one_started:
  assumes s: "PaStarted p" and d: "wf_desc d" and w: "walk_items (walk_ctx p) [d] = its"
    and q: "q = xhciDescFoldOne (mid_desc p d)"
  shows "PaBad q = PaBad p \<and> PaStarted q \<and> PaTotalLength q = PaTotalLength p \<and>
     PaReceived q = PaReceived p + of_nat (length d) \<and> PaHead q = PaHead (mid_desc p d) \<and>
     PaTable q = foldl apply_item (PaTable p) its \<and>
     walk_items (walk_ctx p) (d # ds) = its @ walk_items (walk_ctx q) ds"
proof -
  have two: "1 < length d"
    using d by (simp add: wf_desc_def)
  note hd = mid_desc_head [where p = p and d = d]
  note len = wf_desc_length [OF d, of 9] wf_desc_length [OF d, of 7]
  show ?thesis
    using s two w q len
    by (auto simp: xhciDescFoldOne_def Let_def hd ucast_byte_eq_numeral ucast_byte_and_3 bad_descriptor_def
          walk_ctx_def xhciDescRecord_def [where address = 0] split: if_splits)
qed

text \<open>A walk between two descriptors of a configuration whose header has been read.\<close>

definition walk_ready :: "xhci_desc_parse \<Rightarrow> bool" where
  "walk_ready p \<longleftrightarrow> PaStarted p \<and> \<not> PaBad p \<and> PaLength p = 0 \<and> length (PaHead p) = 9 \<and>
     PaReceived p \<le> PaTotalLength p"

definition walk_left :: "xhci_desc_parse \<Rightarrow> nat" where
  "walk_left p = unat (PaTotalLength p) - unat (PaReceived p)"

lemma walk_ready_wants: "walk_ready p \<Longrightarrow> n \<le> walk_left p \<Longrightarrow> wants p n"
  using order.strict_trans1 [OF _ unat_lt_2p32, of "unat (PaReceived p) + n" "PaTotalLength p"]
  by (auto simp: walk_ready_def walk_left_def wants_def word_le_nat_alt)

lemma feed_one_ready:
  assumes r: "walk_ready p" and d: "wf_desc d" and n: "length d \<le> walk_left p"
  defines "q \<equiv> feed_loop p d"
  shows "walk_ready q \<and> walk_left q = walk_left p - length d \<and>
     PaTable q = foldl apply_item (PaTable p) (walk_items (walk_ctx p) [d]) \<and>
     walk_items (walk_ctx p) (d # ds) = walk_items (walk_ctx p) [d] @ walk_items (walk_ctx q) ds"
proof -
  have w: "wants p (length d)"
    using walk_ready_wants [OF r n] .
  have q: "q = (xhciDescFoldOne (mid_desc p d))\<lparr>PaLength := 0, PaPos := 0\<rparr>"
    using feed_desc [OF w _ _ d] r by (simp add: q_def walk_ready_def)
  have rec: "unat (PaReceived p + of_nat (length d)) = unat (PaReceived p) + length d"
    using w by (subst unat_add_no_wrap) (auto simp: wants_def unat_of_nat_ulong)
  have le: "unat (PaReceived p) \<le> unat (PaTotalLength p)"
    using r by (simp add: walk_ready_def word_le_nat_alt)
  note f = fold_one_started [OF _ d refl refl, of p ds]
  have ctx: "walk_ctx q = walk_ctx (xhciDescFoldOne (mid_desc p d))"
    by (simp add: q walk_ctx_def)
  show ?thesis
    using f r n rec le unfolding ctx
    by (simp add: q walk_ready_def walk_left_def word_le_nat_alt)
qed

lemma feed_descs_ready:
  assumes "walk_ready p" and "list_all wf_desc ds" and "length (concat ds) \<le> walk_left p"
  defines "q \<equiv> feed_loop p (concat ds)"
  shows "walk_ready q \<and> walk_left q = walk_left p - length (concat ds) \<and>
     PaTable q = foldl apply_item (PaTable p) (walk_items (walk_ctx p) ds)"
  using assms(1-3) unfolding q_def
proof (induction ds arbitrary: p)
  case Nil
  then show ?case by simp
next
  case (Cons d ds)
  define r where "r = feed_loop p d"
  have one: "walk_ready r" "walk_left r = walk_left p - length d"
    "PaTable r = foldl apply_item (PaTable p) (walk_items (walk_ctx p) [d])"
    "walk_items (walk_ctx p) (d # ds) = walk_items (walk_ctx p) [d] @ walk_items (walk_ctx r) ds"
    using feed_one_ready [of p d ds] Cons.prems by (simp_all add: r_def)
  have "walk_ready (feed_loop r (concat ds)) \<and> walk_left (feed_loop r (concat ds)) = walk_left r - length (concat ds) \<and>
     PaTable (feed_loop r (concat ds)) = foldl apply_item (PaTable r) (walk_items (walk_ctx r) ds)"
    using Cons.IH [of r] Cons.prems one(1,2) by simp
  then show ?case
    using one unfolding one(4) by (simp add: feed_append r_def del: walk_items.simps)
qed

text \<open>The end of a walk.\<close>

definition walk_commits :: "xhci_desc_parse \<Rightarrow> bool" where
  "walk_commits p \<longleftrightarrow> \<not> PaBad p \<and> PaStarted p \<and> PaReceived p \<ge> PaTotalLength p \<and> PaLength p = 0"

lemma parse_end_commit:
  "fst (XhciDescParseEnd (Some p)) = XHCI_DESC_FOLD_COMMIT \<longleftrightarrow> walk_commits p"
  by (auto simp: XhciDescParseEnd_def walk_commits_def)

lemma ready_commits: "walk_ready p \<Longrightarrow> walk_commits p \<longleftrightarrow> walk_left p = 0"
  by (auto simp: walk_ready_def walk_commits_def walk_left_def word_le_nat_alt)

text \<open>A descriptor that does not end within what is left, or within the bytes there are.\<close>

lemma feed_unfinished:
  assumes r: "walk_ready p \<or> PaLength p = 0 \<and> \<not> PaBad p \<and> \<not> PaStarted p \<and> PaReceived p = 0 \<and> length (PaHead p) = 9"
    and ne: "bs \<noteq> []" and two: "2 \<le> unat (bs ! 0)"
    and left: "walk_ready p \<Longrightarrow> 0 < walk_left p"
    and short: "length bs < unat (bs ! 0) \<or> walk_ready p \<and> walk_left p < unat (bs ! 0)"
  shows "\<not> walk_commits (feed_loop p bs)"
proof -
  define n where "n = (if walk_ready p then min (length bs) (walk_left p) else length bs)"
  have "0 < n" and le: "n \<le> length bs"
    using ne left by (auto simp: n_def)
  have lt: "n < unat (bs ! 0)"
    using short by (auto simp: n_def)
  have w: "wants p n"
    using r lt unat_byte_less [of "bs ! 0"] walk_ready_wants [of p n] by (auto simp: n_def wants_def)
  have f0: "take n bs ! 0 = bs ! 0" "length (take n bs) = n" "take n bs \<noteq> []"
    using \<open>0 < n\<close> le ne by auto
  have mid: "feed_loop p (take n bs) = mid_desc p (take n bs)"
    using r w lt two f0 by (intro feed_mid) (auto simp: walk_ready_def)
  have l: "PaLength (mid_desc p (take n bs)) \<noteq> 0"
    using two f0 by auto
  have "feed_loop (mid_desc p (take n bs)) (drop n bs) = mid_desc p (take n bs)"
  proof (cases "n = length bs")
    case False
    then have rd: "walk_ready p" "n = walk_left p"
      using le by (auto simp: n_def split: if_splits)
    have "unat (PaReceived p + of_nat n) = unat (PaReceived p) + n"
      using w by (subst unat_add_no_wrap) (auto simp: wants_def unat_of_nat_ulong)
    then have "feed_done (mid_desc p (take n bs))"
      using rd f0(2) by (auto simp: feed_done_def walk_ready_def walk_left_def word_le_nat_alt)
    then show ?thesis by (rule feed_done_stuck)
  qed simp
  then have "feed_loop p bs = mid_desc p (take n bs)"
    using feed_append [of p "take n bs" "drop n bs"] mid by simp
  then show ?thesis
    using l by (simp add: walk_commits_def)
qed

section \<open>Which byte streams commit\<close>

lemma wf_descs_first:
  assumes "list_all wf_desc ds" and "concat ds @ rest = b # bs"
  shows "ds = [] \<or> (\<exists>d ds'. ds = d # ds' \<and> wf_desc d \<and> unat b = length d \<and> 2 \<le> unat b \<and>
     d = take (unat b) (b # bs) \<and> concat ds' @ rest = drop (unat b) (b # bs))"
proof (cases ds)
  case (Cons d ds')
  have d: "wf_desc d"
    using assms(1) Cons by simp
  then have ne: "d \<noteq> []"
    by (auto simp: wf_desc_def)
  have eq: "b # bs = d @ (concat ds' @ rest)"
    using assms(2) Cons by simp
  then have "d ! 0 = b"
    using ne by (metis append_Cons list.exhaust nth_Cons_0 list.inject)
  then have len: "unat b = length d" "2 \<le> unat b"
    using d by (auto simp: wf_desc_def)
  show ?thesis
    unfolding eq len(1) using Cons d len by simp
qed simp

text \<open>The first \<open>n\<close> bytes of \<open>bs\<close> are whole descriptors.\<close>

definition splits :: "uchar list \<Rightarrow> nat \<Rightarrow> bool" where
  "splits bs n \<longleftrightarrow> (\<exists>ds rest. list_all wf_desc ds \<and> bs = concat ds @ rest \<and> length (concat ds) = n)"

lemma splits_0 [simp]: "splits bs 0"
  by (auto simp: splits_def intro!: exI [of _ "[]"] exI [of _ bs])

lemma splits_Nil [simp]: "splits [] n \<longleftrightarrow> n = 0"
  by (auto simp: splits_def intro: exI [of _ "[]"])

lemma splits_first:
  assumes "0 < n"
  shows "splits (b # bs) n \<longleftrightarrow> 2 \<le> unat b \<and> unat b \<le> length (b # bs) \<and> unat b \<le> n \<and>
     splits (drop (unat b) (b # bs)) (n - unat b)"
proof
  assume "splits (b # bs) n"
  then obtain ds rest where r: "list_all wf_desc ds" "b # bs = concat ds @ rest" "length (concat ds) = n"
    by (auto simp: splits_def)
  then obtain d ds' where d: "ds = d # ds'" "unat b = length d" "2 \<le> unat b"
      "concat ds' @ rest = drop (unat b) (b # bs)"
    using wf_descs_first [of ds rest b bs] assms by auto
  have "length (b # bs) = length (concat ds @ rest)"
    using r(2) by (rule arg_cong)
  moreover have "length (concat ds) = length d + length (concat ds')"
    using d(1) by simp
  moreover have "splits (drop (unat b) (b # bs)) (length (concat ds'))"
    unfolding splits_def d(4) [symmetric] using r(1) d(1) by (intro exI [of _ ds'] exI [of _ rest]) simp
  ultimately show "2 \<le> unat b \<and> unat b \<le> length (b # bs) \<and> unat b \<le> n \<and> splits (drop (unat b) (b # bs)) (n - unat b)"
    using r(3) d(2,3) by simp
next
  assume a: "2 \<le> unat b \<and> unat b \<le> length (b # bs) \<and> unat b \<le> n \<and> splits (drop (unat b) (b # bs)) (n - unat b)"
  then obtain ds rest where r: "list_all wf_desc ds" "drop (unat b) (b # bs) = concat ds @ rest"
      "length (concat ds) = n - unat b"
    by (auto simp: splits_def)
  define d where "d = take (unat b) (b # bs)"
  have d: "wf_desc d" "length d = unat b"
    using a by (auto simp: d_def wf_desc_def take_Cons')
  have "b # bs = d @ concat ds @ rest"
    using r(2) append_take_drop_id [of "unat b" "b # bs"] by (simp add: d_def)
  then show "splits (b # bs) n"
    unfolding splits_def using r d a by (intro exI [of _ "d # ds"] exI [of _ rest]) simp
qed

lemma feed_short_bad:
  assumes "walk_ready p" and "0 < walk_left p" and "unat b < 2"
  shows "PaBad (feed_loop p (b # bs))"
  using assms walk_ready_wants [of p 1] wants_not_done [of p 1 0]
  by (simp add: walk_ready_def Let_def byte_less_2)

lemma ready_commits_iff:
  assumes "walk_ready p"
  shows "walk_commits (feed_loop p bs) \<longleftrightarrow> splits bs (walk_left p)"
  using assms
proof (induction bs arbitrary: p rule: length_induct)
  case (1 bs)
  show ?case
  proof (cases "walk_left p = 0 \<or> bs = []")
    case True
    then have "feed_loop p bs = p"
      using 1(2) feed_done_stuck [of p bs]
      by (auto simp: feed_done_def walk_left_def walk_ready_def word_le_nat_alt)
    then show ?thesis
      using True ready_commits [OF 1(2)] by auto
  next
    case False
    then obtain b bs' where bs: "bs = b # bs'" and left: "0 < walk_left p"
      by (cases bs) auto
    show ?thesis
    proof (cases "2 \<le> unat b \<and> unat b \<le> length bs \<and> unat b \<le> walk_left p")
      case True
      define d where "d = take (unat b) bs"
      have d: "wf_desc d" "length d = unat b" "bs = d @ drop (unat b) bs"
        using True bs by (auto simp: d_def wf_desc_def)
      have q: "walk_ready (feed_loop p d)" "walk_left (feed_loop p d) = walk_left p - unat b"
        using feed_one_ready [OF 1(2) d(1)] True d(2) by auto
      have "feed_loop p bs = feed_loop (feed_loop p d) (drop (unat b) bs)"
        using d(3) feed_append [of p d "drop (unat b) bs"] by simp
      then show ?thesis
        using 1(1) q True left bs splits_first [OF left, of b bs'] by auto
    next
      case False
      have "\<not> walk_commits (feed_loop p bs)"
        using feed_unfinished [of p bs] feed_short_bad [OF 1(2) left, of b bs'] 1(2) bs left False
        by (cases "2 \<le> unat b") (auto simp: walk_commits_def simp del: feed_loop.simps)
      then show ?thesis
        using False bs splits_first [OF left, of b bs'] by auto
    qed
  qed
qed

section \<open>The header and the whole reply\<close>

definition walk_fresh :: "xhci_desc_parse \<Rightarrow> bool" where
  "walk_fresh p \<longleftrightarrow> \<not> PaBad p \<and> \<not> PaStarted p \<and> PaReceived p = 0 \<and> PaLength p = 0 \<and>
     length (PaHead p) = 9 \<and> \<not> PaInInterface p"

lemma list_update_upto_all: "length xs = n \<Longrightarrow> foldl (\<lambda>xs i. xs[i := z]) xs [0..<n] = replicate n z"
  using list_update_upto [of n xs z] by simp

lemma table_reset_eq:
  assumes "length (IsoEndpoint t) = 8"
  shows "table_reset t = \<lparr>TabValid = False, ConfigValue = 0, TabCount = 0, TabDropped = 0, BadInterval = 0,
     BadDescriptor = 0, IsoEndpoint = replicate 8 iso_ep_zero\<rparr>"
proof -
  have "foldl (\<lambda>t i. t\<lparr>IsoEndpoint := (IsoEndpoint t)[i := z]\<rparr>) t is =
      t\<lparr>IsoEndpoint := foldl (\<lambda>xs i. xs[i := z]) (IsoEndpoint t) is\<rparr>" for t :: xhci_desc_iso_table and z "is"
    by (induction "is" arbitrary: t) auto
  then show ?thesis
    using assms list_update_upto_all [of "IsoEndpoint t" 8] by (simp add: table_reset_def Let_def)
qed

lemma parse_begin_fresh:
  assumes "parse_shape p"
  shows "\<exists>q. XhciDescParseBegin (Some p) = Some q \<and> walk_fresh q \<and> PaTable q = table_reset (PaTable p)"
proof -
  have "foldl (\<lambda>p i. p\<lparr>PaHead := (PaHead p)[i := z]\<rparr>) p is =
      p\<lparr>PaHead := foldl (\<lambda>xs i. xs[i := z]) (PaHead p) is\<rparr>" for p :: xhci_desc_parse and z "is"
    by (induction "is" arbitrary: p) auto
  then show ?thesis
    using assms list_update_upto_all [of "PaHead p" 9]
    by (simp add: XhciDescParseBegin_def Let_def walk_fresh_def parse_shape_def)
qed

definition header_ok :: "uchar list \<Rightarrow> bool" where
  "header_ok c \<longleftrightarrow> c ! 1 = 2 \<and> 9 \<le> length c \<and> length c \<le> config_total c"

lemma feed_header:
  assumes f: "walk_fresh p" and c: "wf_desc c"
  defines "q \<equiv> feed_loop p c"
  shows "if header_ok c
     then walk_ready q \<and> walk_left q = config_total c - length c \<and> walk_ctx q = None \<and>
          PaTable q = (PaTable p)\<lparr>ConfigValue := ucast (c ! 5)\<rparr>
     else PaBad q"
proof -
  have two: "1 < length c" and l0: "unat (c ! 0) = length c" "length c < 256"
    using c unat_byte_less [of "c ! 0"] by (auto simp: wf_desc_def)
  have w: "wants p (length c)"
    using f l0 by (simp add: wants_def walk_fresh_def)
  have q: "q = (xhciDescFoldOne (mid_desc p c))\<lparr>PaLength := 0, PaPos := 0\<rparr>"
    using feed_desc [OF w _ _ c] f by (simp add: q_def walk_fresh_def)
  note hd = mid_desc_head [where p = p and d = c]
  have len: "(ucast (c ! 0) :: ulong) < 9 \<longleftrightarrow> length c < 9"
    using wf_desc_length [OF c, of 9] by simp
  have tot: "(ucast (c ! 2) OR push_bit 8 (ucast (c ! 3)) :: ulong) < ucast (c ! 0) \<longleftrightarrow> config_total c < length c"
    using l0 by (simp add: word_less_nat_alt unat_total config_total_def)
  have rec: "unat (of_nat (length c) :: ulong) = length c"
    using l0 by (simp add: unat_of_nat_ulong)
  show ?thesis
    using f two len tot rec
    by (auto simp: q header_ok_def xhciDescFoldOne_def Let_def hd ucast_byte_eq_numeral walk_fresh_def
          walk_ready_def walk_left_def walk_ctx_def word_le_nat_alt unat_total config_total_def)
qed

lemma feed_config:
  assumes f: "walk_fresh p" and c: "wf_config (c # ds)" and q_def: "q = feed_loop p (concat (c # ds) @ rest)"
  shows "walk_commits q \<and>
     PaTable q = foldl apply_item ((PaTable p)\<lparr>ConfigValue := ucast (c ! 5)\<rparr>) (walk_items None ds)"
proof -
  have wf: "wf_desc c" "header_ok c" "list_all wf_desc ds" "config_total c - length c = length (concat ds)"
    using c by (auto simp: header_ok_def)
  define r where "r = feed_loop p c"
  have r: "walk_ready r" "walk_left r = length (concat ds)" "walk_ctx r = None"
      "PaTable r = (PaTable p)\<lparr>ConfigValue := ucast (c ! 5)\<rparr>"
    using feed_header [OF f wf(1)] wf by (simp_all add: r_def)
  define s where "s = feed_loop r (concat ds)"
  have s: "walk_ready s" "walk_left s = 0" "PaTable s = foldl apply_item (PaTable r) (walk_items None ds)"
    using feed_descs_ready [OF r(1) wf(3)] r by (simp_all add: s_def)
  have "feed_done s"
    using s by (auto simp: feed_done_def walk_ready_def walk_left_def word_le_nat_alt)
  then have "q = s"
    by (simp add: q_def feed_append r_def s_def feed_done_stuck)
  then show ?thesis
    using s r ready_commits by simp
qed

lemma fresh_commits_iff:
  assumes f: "walk_fresh p"
  shows "walk_commits (feed_loop p bs) \<longleftrightarrow> (\<exists>ds rest. wf_config ds \<and> bs = concat ds @ rest)"
proof
  assume "\<exists>ds rest. wf_config ds \<and> bs = concat ds @ rest"
  then obtain ds rest where d: "wf_config ds" "bs = concat ds @ rest" by blast
  then obtain c ds' where "ds = c # ds'" by (cases ds) auto
  then show "walk_commits (feed_loop p bs)"
    using feed_config [OF f, of c ds' "feed_loop p bs" rest] d by simp
next
  assume com: "walk_commits (feed_loop p bs)"
  have "bs \<noteq> []"
    using com f by (auto simp: walk_commits_def walk_fresh_def)
  then obtain b bs' where bs: "bs = b # bs'" by (cases bs) auto
  have n: "2 \<le> unat b" "unat b \<le> length bs"
  proof -
    show "2 \<le> unat b"
      using com f by (rule_tac ccontr) (simp add: bs walk_fresh_def Let_def byte_less_2 walk_commits_def)
    then show "unat b \<le> length bs"
      using com feed_unfinished [of p bs] f by (auto simp: bs walk_fresh_def walk_ready_def linorder_not_less [symmetric] simp del: feed_loop.simps)
  qed
  define c where "c = take (unat b) bs"
  have c: "wf_desc c" "length c = unat b" "bs = c @ drop (unat b) bs"
    using n bs by (auto simp: c_def wf_desc_def)
  have step: "feed_loop p bs = feed_loop (feed_loop p c) (drop (unat b) bs)"
    using c(3) feed_append [of p c "drop (unat b) bs"] by simp
  have ok: "header_ok c"
    using feed_header [OF f c(1)] com feed_done_stuck [of "feed_loop p c" "drop (unat b) bs"]
    unfolding step by (auto simp: feed_done_def walk_commits_def split: if_splits)
  have "splits (drop (unat b) bs) (config_total c - length c)"
    using feed_header [OF f c(1)] ok com ready_commits_iff unfolding step by auto
  then obtain ds rest where "list_all wf_desc ds" "drop (unat b) bs = concat ds @ rest"
      "length (concat ds) = config_total c - length c"
    by (auto simp: splits_def)
  then show "\<exists>ds rest. wf_config ds \<and> bs = concat ds @ rest"
    using c ok by (intro exI [of _ "c # ds"] exI [of _ rest]) (simp add: header_ok_def)
qed

end
