(* ===== verification/Xhci_Desc_Table.thy ===== *)
theory Xhci_Desc_Table
  imports Xhci_Desc_Walk
begin

text \<open>
  The table of isochronous endpoints of \<open>xhci_desc.c\<close>: what it holds after any sequence of
  declarations, said without reference to slots. The keys (interface, alternate, address) in the
  order of their first declaration, the first eight of them kept; an entry is usable exactly when
  all its declarations agree on an interval in range.
\<close>

section \<open>Reference table\<close>

type_synonym decl_key = "ulong \<times> ulong \<times> ulong"

fun item_decl :: "walk_item \<Rightarrow> (decl_key \<times> ulong) option" where
  "item_decl Malformed = None"
| "item_decl (Declares i a ad b) = Some ((i, a, ad), b)"

definition decls :: "walk_item list \<Rightarrow> (decl_key \<times> ulong) list" where
  "decls its = List.map_filter item_decl its"

definition key_add :: "decl_key list \<Rightarrow> decl_key \<Rightarrow> decl_key list" where
  "key_add ks k = (if k \<in> set ks then ks else ks @ [k])"

definition decl_keys :: "(decl_key \<times> ulong) list \<Rightarrow> decl_key list" where
  "decl_keys D = foldl (\<lambda>ks d. key_add ks (fst d)) [] D"

definition key_intervals :: "(decl_key \<times> ulong) list \<Rightarrow> decl_key \<Rightarrow> ulong list" where
  "key_intervals D k = map snd (filter (\<lambda>d. fst d = k) D)"

definition interval_ok :: "ulong \<Rightarrow> bool" where
  "interval_ok b \<longleftrightarrow> 1 \<le> b \<and> b \<le> 16"

definition key_usable :: "(decl_key \<times> ulong) list \<Rightarrow> decl_key \<Rightarrow> bool" where
  "key_usable D k \<longleftrightarrow> (\<forall>b\<in>set (key_intervals D k). b = hd (key_intervals D k) \<and> interval_ok b)"

fun entry_of :: "(decl_key \<times> ulong) list \<Rightarrow> decl_key \<Rightarrow> xhci_desc_iso_ep" where
  "entry_of D (i, a, ad) =
     (let b = hd (key_intervals D (i, a, ad))
      in \<lparr>EpAddress = ad, EpBInterval = (if interval_ok b then b else 0), EpInterface = i, EpAlternate = a,
          EpUnusable = (\<not> key_usable D (i, a, ad))\<rparr>)"

definition kept_keys :: "(decl_key \<times> ulong) list \<Rightarrow> decl_key list" where
  "kept_keys D = take 8 (decl_keys D)"

definition dropped_decls :: "(decl_key \<times> ulong) list \<Rightarrow> nat" where
  "dropped_decls D = length (filter (\<lambda>d. fst d \<notin> set (kept_keys D)) D)"

definition entries_of :: "(decl_key \<times> ulong) list \<Rightarrow> xhci_desc_iso_ep list" where
  "entries_of D = map (entry_of D) (kept_keys D)"

section \<open>One more declaration\<close>

lemma decl_keys_snoc [simp]: "decl_keys (D @ [d]) = key_add (decl_keys D) (fst d)"
  by (simp add: decl_keys_def)

lemma decl_keys_Nil [simp]: "decl_keys [] = []"
  by (simp add: decl_keys_def)

lemma set_key_add [simp]: "set (key_add ks k) = insert k (set ks)"
  by (auto simp: key_add_def)

lemma set_decl_keys: "set (decl_keys D) = fst ` set D"
  by (induction D rule: rev_induct) auto

lemma distinct_decl_keys: "distinct (decl_keys D)"
  by (induction D rule: rev_induct) (auto simp: key_add_def)

lemma key_intervals_snoc:
  "key_intervals (D @ [(k, b)]) k' = key_intervals D k' @ (if k = k' then [b] else [])"
  by (simp add: key_intervals_def)

lemma key_intervals_ne: "k \<in> set (decl_keys D) \<Longrightarrow> key_intervals D k \<noteq> []"
  by (auto simp: set_decl_keys key_intervals_def filter_empty_conv)

lemma entry_of_other: "k \<noteq> k' \<Longrightarrow> entry_of (D @ [(k, b)]) k' = entry_of D k'"
  by (cases k') (simp add: key_intervals_snoc key_usable_def Let_def)

lemma entry_of_again:
  assumes "k \<in> set (decl_keys D)"
  shows "entry_of (D @ [(k, b)]) k =
     (if EpBInterval (entry_of D k) \<noteq> b then (entry_of D k)\<lparr>EpUnusable := True\<rparr> else entry_of D k)"
proof -
  have ne: "key_intervals D k \<noteq> []"
    using key_intervals_ne [OF assms] .
  then have "hd (key_intervals D k) \<in> set (key_intervals D k)"
    by simp
  then show ?thesis
    using ne by (cases k) (auto simp: key_intervals_snoc key_usable_def Let_def interval_ok_def ex_in_conv)
qed

lemma entry_of_new:
  assumes "k \<notin> set (decl_keys D)" and "k = (i, a, ad)"
  shows "entry_of (D @ [(k, b)]) k =
     \<lparr>EpAddress = ad, EpBInterval = (if interval_ok b then b else 0), EpInterface = i, EpAlternate = a,
      EpUnusable = (\<not> interval_ok b)\<rparr>"
proof -
  have "key_intervals D k = []"
    using assms(1) by (auto simp: set_decl_keys key_intervals_def filter_empty_conv)
  then show ?thesis
    using assms(2) by (simp add: key_intervals_snoc key_usable_def)
qed

lemma kept_keys_snoc:
  "kept_keys (D @ [(k, b)]) =
     (if k \<in> set (kept_keys D) \<or> length (kept_keys D) = 8 then kept_keys D else kept_keys D @ [k])"
  using set_take_subset [of 8 "decl_keys D"]
  by (auto simp: kept_keys_def key_add_def min_def split: if_splits)

lemma kept_keys_sub: "set (kept_keys D) \<subseteq> set (decl_keys D)"
  by (auto simp: kept_keys_def dest: in_set_takeD)

lemma kept_keys_all: "length (kept_keys D) < 8 \<Longrightarrow> kept_keys D = decl_keys D"
  by (auto simp: kept_keys_def)

lemma kept_keys_length [simp]: "length (kept_keys D) \<le> 8"
  by (simp add: kept_keys_def)

lemma distinct_kept_keys: "distinct (kept_keys D)"
  by (simp add: kept_keys_def distinct_decl_keys)

lemma dropped_snoc:
  "dropped_decls (D @ [(k, b)]) =
     dropped_decls D + (if k \<notin> set (kept_keys D) \<and> length (kept_keys D) = 8 then 1 else 0)"
proof (cases "k \<in> set (kept_keys D) \<or> length (kept_keys D) = 8")
  case True
  then have "kept_keys (D @ [(k, b)]) = kept_keys D"
    by (simp add: kept_keys_snoc)
  then show ?thesis
    using True by (auto simp: dropped_decls_def)
next
  case False
  then have "length (kept_keys D) < 8"
    using kept_keys_length [of D] by linarith
  then have "set (kept_keys D) = fst ` set D"
    using kept_keys_all [of D] set_decl_keys [of D] by simp
  then have "filter (\<lambda>d. fst d \<notin> set (kept_keys D)) D = []"
      "filter (\<lambda>d. fst d \<noteq> k \<and> fst d \<notin> set (kept_keys D)) D = []"
    by (auto simp: filter_empty_conv)
  then show ?thesis
    using False by (simp add: dropped_decls_def kept_keys_snoc)
qed

section \<open>The table of a walk\<close>

definition table_is :: "(decl_key \<times> ulong) list \<Rightarrow> xhci_desc_iso_table \<Rightarrow> bool" where
  "table_is D t \<longleftrightarrow>
     IsoEndpoint t = entries_of D @ replicate (8 - length (kept_keys D)) iso_ep_zero \<and>
     TabCount t = of_nat (length (kept_keys D)) \<and> TabDropped t = of_nat (dropped_decls D) \<and>
     BadInterval t = of_nat (length (filter (\<lambda>d. \<not> interval_ok (snd d)) D))"

lemma entry_key [simp]:
  "EpAddress (entry_of D (i, a, ad)) = ad" "EpInterface (entry_of D (i, a, ad)) = i"
  "EpAlternate (entry_of D (i, a, ad)) = a"
  by (simp_all add: Let_def)

declare entry_of.simps [simp del]

lemma entry_key_iff:
  "EpAddress (entry_of D k) = ad \<and> EpInterface (entry_of D k) = i \<and> EpAlternate (entry_of D k) = a \<longleftrightarrow> k = (i, a, ad)"
  by (cases k) auto

definition keys_nonzero :: "(decl_key \<times> ulong) list \<Rightarrow> bool" where
  "keys_nonzero D \<longleftrightarrow> (\<forall>d\<in>set D. snd (snd (fst d)) \<noteq> 0)"

lemma keys_nonzero_kept: "keys_nonzero D \<Longrightarrow> k \<in> set (kept_keys D) \<Longrightarrow> EpAddress (entry_of D k) \<noteq> 0"
  using kept_keys_sub [of D] by (cases k) (force simp: keys_nonzero_def set_decl_keys)

text \<open>The slots of a table as a finite function on the keys it holds.\<close>

definition slots_hold :: "(decl_key \<Rightarrow> xhci_desc_iso_ep) \<Rightarrow> decl_key list \<Rightarrow> xhci_desc_iso_ep list \<Rightarrow> bool" where
  "slots_hold E ks eps \<longleftrightarrow> distinct ks \<and> length ks \<le> 8 \<and>
     eps = map E ks @ replicate (8 - length ks) iso_ep_zero \<and>
     (\<forall>(i, a, ad)\<in>set ks. ad \<noteq> 0 \<and> EpAddress (E (i, a, ad)) = ad \<and> EpInterface (E (i, a, ad)) = i \<and>
        EpAlternate (E (i, a, ad)) = a)"

lemma slots_hold_nth:
  assumes "slots_hold E ks eps" and "j < 8"
  shows "eps ! j = (if j < length ks then E (ks ! j) else iso_ep_zero)"
  using assms by (auto simp: slots_hold_def nth_append)

lemma slots_hold_key:
  assumes s: "slots_hold E ks eps" and "j < length ks" and k: "ks ! j = (i, a, ad)"
  shows "ad \<noteq> 0 \<and> EpAddress (E (i, a, ad)) = ad \<and> EpInterface (E (i, a, ad)) = i \<and> EpAlternate (E (i, a, ad)) = a"
proof -
  have "(i, a, ad) \<in> set ks"
    using assms(2) k by (metis nth_mem)
  then show ?thesis
    using s by (auto simp: slots_hold_def)
qed

lemma slots_hold_hit:
  assumes s: "slots_hold E ks eps" and j: "j < 8" and ad: "ad \<noteq> 0"
  shows "EpAddress (eps ! j) = ad \<and> EpInterface (eps ! j) = i \<and> EpAlternate (eps ! j) = a \<longleftrightarrow>
     j < length ks \<and> ks ! j = (i, a, ad)"
proof -
  obtain i' a' ad' where "ks ! j = (i', a', ad')"
    by (cases "ks ! j")
  then show ?thesis
    using slots_hold_key [OF s, of j i' a' ad'] ad
    by (auto simp: slots_hold_nth [OF s j] iso_ep_zero_def)
qed

lemma slots_hold_free:
  assumes s: "slots_hold E ks eps" and j: "j < 8"
  shows "EpAddress (eps ! j) = 0 \<longleftrightarrow> \<not> j < length ks"
proof -
  obtain i a ad where "ks ! j = (i, a, ad)"
    by (cases "ks ! j")
  then show ?thesis
    using slots_hold_key [OF s, of j i a ad] by (auto simp: slots_hold_nth [OF s j] iso_ep_zero_def)
qed

text \<open>The first loop of the record finds the slot of the key, or none.\<close>

lemma find_key_Some:
  assumes s: "slots_hold E ks eps" and ad: "ad \<noteq> 0" and j: "j < length ks" "ks ! j = (i, a, ad)"
  shows "find (\<lambda>j. EpAddress (eps ! j) = ad \<and> EpInterface (eps ! j) = i \<and> EpAlternate (eps ! j) = a) [0..<8] = Some j"
proof -
  have d: "distinct ks" "j < 8"
    using s j by (auto simp: slots_hold_def)
  have "ks ! j' \<noteq> (i, a, ad)" if "j' < j" for j'
    using that j d nth_eq_iff_index_eq [of ks j' j] by auto
  then show ?thesis
    using slots_hold_hit [OF s _ ad, of _ i a] j d by (auto simp: find_upt_Some)
qed

lemma find_key_None:
  assumes s: "slots_hold E ks eps" and ad: "ad \<noteq> 0" and k: "(i, a, ad) \<notin> set ks"
  shows "find (\<lambda>j. EpAddress (eps ! j) = ad \<and> EpInterface (eps ! j) = i \<and> EpAlternate (eps ! j) = a) [0..<8] = None"
  using slots_hold_hit [OF s _ ad, of _ i a] nth_mem [of _ ks] k by (auto simp: find_upt_None) (metis nth_mem)

definition bump_interval :: "ulong \<Rightarrow> xhci_desc_iso_table \<Rightarrow> xhci_desc_iso_table" where
  "bump_interval b t = (if interval_ok b then t else t\<lparr>BadInterval := BadInterval t + 1\<rparr>)"

lemma bump_interval_simps [simp]:
  "IsoEndpoint (bump_interval b t) = IsoEndpoint t" "BadDescriptor (bump_interval b t) = BadDescriptor t"
  "TabCount (bump_interval b t) = TabCount t" "TabDropped (bump_interval b t) = TabDropped t"
  by (simp_all add: bump_interval_def)

lemma record_unfold:
  assumes "ad \<noteq> 0"
  shows "xhciDescRecord t i a ad b =
     (let t = bump_interval b t
      in case find (\<lambda>j. EpAddress (IsoEndpoint t ! j) = ad \<and> EpInterface (IsoEndpoint t ! j) = i \<and>
                       EpAlternate (IsoEndpoint t ! j) = a) [0..<8] of
           Some j \<Rightarrow> t\<lparr>BadDescriptor := BadDescriptor t + 1,
                       IsoEndpoint := (IsoEndpoint t)[j := if EpBInterval (IsoEndpoint t ! j) \<noteq> b
                         then (IsoEndpoint t ! j)\<lparr>EpUnusable := True\<rparr> else IsoEndpoint t ! j]\<rparr>
         | None \<Rightarrow>
             (case find (\<lambda>j. EpAddress (IsoEndpoint t ! j) = 0) [0..<8] of
                Some j \<Rightarrow> t\<lparr>IsoEndpoint := (IsoEndpoint t)[j :=
                             \<lparr>EpAddress = ad, EpBInterval = (if interval_ok b then b else 0), EpInterface = i,
                              EpAlternate = a, EpUnusable = (\<not> interval_ok b)\<rparr>],
                            TabCount := TabCount t + 1\<rparr>
              | None \<Rightarrow> t\<lparr>TabDropped := TabDropped t + 1\<rparr>))"
  using assms
  by (auto simp: xhciDescRecord_def bump_interval_def interval_ok_def Let_def split: option.split)

lemma record_again:
  assumes s: "slots_hold E ks (IsoEndpoint t)" and k: "(i, a, ad) \<in> set ks"
  shows "xhciDescRecord t i a ad b = (bump_interval b t)\<lparr>BadDescriptor := BadDescriptor t + 1,
     IsoEndpoint := map (E((i, a, ad) := if EpBInterval (E (i, a, ad)) \<noteq> b
        then (E (i, a, ad))\<lparr>EpUnusable := True\<rparr> else E (i, a, ad))) ks @ replicate (8 - length ks) iso_ep_zero\<rparr>"
proof -
  have ad: "ad \<noteq> 0"
    using s k by (auto simp: slots_hold_def)
  obtain j where j: "j < length ks" "ks ! j = (i, a, ad)"
    using k by (auto simp: in_set_conv_nth)
  have j8: "j < 8" and d: "distinct ks"
    using j s by (auto simp: slots_hold_def)
  note hit = find_key_Some [OF s ad j]
  have upd: "(map E ks @ zs)[j := e] = map (E((i, a, ad) := e)) ks @ zs" for e zs
    using j d by (auto simp: list_update_append intro!: nth_equalityI)
      (auto simp: nth_list_update, metis nth_eq_iff_index_eq)
  have eps: "IsoEndpoint t = map E ks @ replicate (8 - length ks) iso_ep_zero"
    using s by (simp add: slots_hold_def)
  show ?thesis
    using hit slots_hold_nth [OF s j8] j
    by (simp add: record_unfold [OF ad] Let_def upd eps del: map_append)
qed

lemma record_new:
  assumes s: "slots_hold E ks (IsoEndpoint t)" and k: "(i, a, ad) \<notin> set ks" and n: "length ks < 8" and ad: "ad \<noteq> 0"
  shows "xhciDescRecord t i a ad b = (bump_interval b t)\<lparr>IsoEndpoint := map E ks @
     \<lparr>EpAddress = ad, EpBInterval = (if interval_ok b then b else 0), EpInterface = i, EpAlternate = a,
      EpUnusable = (\<not> interval_ok b)\<rparr> # replicate (7 - length ks) iso_ep_zero, TabCount := TabCount t + 1\<rparr>"
proof -
  note miss = find_key_None [OF s ad k]
  have free: "find (\<lambda>j. EpAddress (IsoEndpoint t ! j) = 0) [0..<8] = Some (length ks)"
    using slots_hold_free [OF s] n by (auto simp: find_upt_Some)
  have "8 - length ks = Suc (7 - length ks)"
    using n by simp
  then have upd: "(map E ks @ replicate (8 - length ks) z)[length ks := e] = map E ks @ e # replicate (7 - length ks) z" for z e
    by (simp add: list_update_append)
  show ?thesis
    using miss free s by (simp add: record_unfold [OF ad] Let_def slots_hold_def upd)
qed

lemma record_full:
  assumes s: "slots_hold E ks (IsoEndpoint t)" and k: "(i, a, ad) \<notin> set ks" and n: "length ks = 8" and ad: "ad \<noteq> 0"
  shows "xhciDescRecord t i a ad b = (bump_interval b t)\<lparr>TabDropped := TabDropped t + 1\<rparr>"
proof -
  note miss = find_key_None [OF s ad k]
  have free: "find (\<lambda>j. EpAddress (IsoEndpoint t ! j) = 0) [0..<8] = None"
    using slots_hold_free [OF s] n by (auto simp: find_upt_None)
  show ?thesis
    using miss free by (simp add: record_unfold [OF ad] Let_def)
qed

lemma table_is_slots:
  assumes "table_is D t" and "keys_nonzero D"
  shows "slots_hold (entry_of D) (kept_keys D) (IsoEndpoint t)"
  using assms kept_keys_sub [of D] distinct_kept_keys [of D]
  by (fastforce simp: slots_hold_def table_is_def entries_of_def keys_nonzero_def set_decl_keys)

lemma record_step:
  assumes t: "table_is D t" and nz: "keys_nonzero D" and ad: "ad \<noteq> 0"
  shows "table_is (D @ [((i, a, ad), b)]) (xhciDescRecord t i a ad b) \<and>
     BadDescriptor (xhciDescRecord t i a ad b) =
       BadDescriptor t + (if (i, a, ad) \<in> set (kept_keys D) then 1 else 0)"
proof -
  let ?k = "(i, a, ad)"
  let ?D' = "D @ [(?k, b)]"
  note s = table_is_slots [OF t nz]
  have cnt: "TabCount t = of_nat (length (kept_keys D))" "TabDropped t = of_nat (dropped_decls D)"
      "BadInterval (bump_interval b t) = of_nat (length (filter (\<lambda>d. \<not> interval_ok (snd d)) ?D'))"
    using t by (auto simp: bump_interval_def table_is_def)
  have other: "map (entry_of ?D') ks = map (entry_of D) ks" if "?k \<notin> set ks" for ks
    using that entry_of_other [of ?k _ D b] by (intro map_cong refl) metis
  show ?thesis
  proof (cases "?k \<in> set (kept_keys D)")
    case True
    have "?k \<in> set (decl_keys D)"
      using True kept_keys_sub by blast
    then have "(entry_of D)(?k := if EpBInterval (entry_of D ?k) \<noteq> b
        then (entry_of D ?k)\<lparr>EpUnusable := True\<rparr> else entry_of D ?k) = entry_of ?D'"
      using entry_of_again [of ?k D b] entry_of_other [of ?k _ D b] by (intro ext) simp
    then show ?thesis
      using True cnt
      by (simp add: record_again [OF s True] table_is_def entries_of_def kept_keys_snoc dropped_snoc)
  next
    case new: False
    show ?thesis
    proof (cases "length (kept_keys D) = 8")
      case True
      then show ?thesis
        using new cnt t other [OF new]
        by (simp add: record_full [OF s new True ad] table_is_def entries_of_def kept_keys_snoc dropped_snoc)
    next
      case False
      then have l: "length (kept_keys D) < 8"
        using kept_keys_length [of D] by linarith
      then have "?k \<notin> set (decl_keys D)"
        using new kept_keys_all [of D] by simp
      then show ?thesis
        using new cnt other [OF new] False entry_of_new [of ?k D i a ad b] l
        by (simp add: record_new [OF s new l ad] table_is_def entries_of_def kept_keys_snoc dropped_snoc)
    qed
  qed
qed

lemma table_is_Nil:
  assumes "length (IsoEndpoint t) = 8"
  shows "table_is [] ((table_reset t)\<lparr>ConfigValue := c\<rparr>)"
  by (simp add: table_is_def table_reset_eq [OF assms] entries_of_def kept_keys_def dropped_decls_def)

text \<open>How often the walk counts a bad descriptor: each malformed one, and each repeated declaration of a kept key.\<close>

definition bad_count :: "walk_item list \<Rightarrow> nat" where
  "bad_count its = length (filter (\<lambda>it. it = Malformed) its) +
     (length (decls its) - dropped_decls (decls its) - length (kept_keys (decls its)))"

lemma decls_simps [simp]:
  "decls [] = []" "decls (xs @ ys) = decls xs @ decls ys"
  "decls [Malformed] = []" "decls [Declares i a ad b] = [((i, a, ad), b)]"
  by (simp_all add: decls_def map_filter_def)

definition items_nonzero :: "walk_item list \<Rightarrow> bool" where
  "items_nonzero its \<longleftrightarrow> (\<forall>i a b. Declares i a 0 b \<notin> set its)"

lemma walk_items_nonzero: "items_nonzero (walk_items ctx ds)"
  by (induction ctx ds rule: walk_items.induct) (auto simp: items_nonzero_def split: option.splits)

lemma items_keys_nonzero: "items_nonzero its \<Longrightarrow> keys_nonzero (decls its)"
  unfolding items_nonzero_def keys_nonzero_def decls_def
  by (fastforce simp: map_filter_def elim: item_decl.elims split: option.splits)

lemma counted_le: "dropped_decls D + length (kept_keys D) \<le> length D"
proof (induction D rule: rev_induct)
  case (snoc d D)
  then show ?case
    by (cases d) (auto simp: dropped_snoc kept_keys_snoc)
qed (simp add: dropped_decls_def kept_keys_def)

lemma items_table:
  assumes "length (IsoEndpoint t) = 8" and "items_nonzero its"
    and u_def: "u = foldl apply_item ((table_reset t)\<lparr>ConfigValue := c\<rparr>) its"
  shows "table_is (decls its) u \<and> BadDescriptor u = of_nat (bad_count its) \<and>
     ConfigValue u = c \<and> \<not> TabValid u"
  using assms(2) unfolding u_def
proof (induction its rule: rev_induct)
  case Nil
  then show ?case
    using table_is_Nil [OF assms(1)] table_reset_eq [OF assms(1)]
    by (simp add: bad_count_def dropped_decls_def kept_keys_def)
next
  case (snoc it its)
  define v where "v = foldl apply_item ((table_reset t)\<lparr>ConfigValue := c\<rparr>) its"
  have nz: "items_nonzero its"
    using snoc.prems by (simp add: items_nonzero_def)
  have IH: "table_is (decls its) v" "BadDescriptor v = of_nat (bad_count its)" "ConfigValue v = c" "\<not> TabValid v"
    using snoc.IH [OF nz] by (simp_all add: v_def)
  show ?case
  proof (cases it)
    case Malformed
    then show ?thesis
      using IH by (simp add: v_def [symmetric] table_is_def bad_count_def)
  next
    case (Declares i a ad b)
    then have "ad \<noteq> 0"
      using snoc.prems by (auto simp: items_nonzero_def)
    note st = record_step [OF IH(1) items_keys_nonzero [OF nz] this, of i a b]
    have "bad_count (its @ [it]) = bad_count its + (if (i, a, ad) \<in> set (kept_keys (decls its)) then 1 else 0)"
      using Declares counted_le [of "decls its"] kept_keys_length [of "decls its"]
      by (auto simp: bad_count_def dropped_snoc kept_keys_snoc)
    then show ?thesis
      using st IH Declares by (simp add: v_def [symmetric])
  qed
qed

end
