(* ===== verification/Xhci_Desc_Lookup.thy ===== *)
theory Xhci_Desc_Lookup
  imports Xhci_Desc_Table
begin

text \<open>
  The questions asked of a committed table (\<open>xhci_desc.c\<close>): which alternate setting an interface
  runs, and which \<open>bInterval\<close> an endpoint has. The two passes of the lookup are characterised
  without their order, and the tracking of selections is followed along any sequence of
  completed requests.
\<close>

section \<open>The two passes\<close>

definition agree :: "ulong \<Rightarrow> xhci_desc_iso_ep list \<Rightarrow> bool" where
  "agree v eps \<longleftrightarrow> eps \<noteq> [] \<and> (\<forall>e\<in>set eps. \<not> EpUnusable e \<and> EpBInterval e = v)"

text \<open>The result of either loop over the entries it does not skip.\<close>

definition pass_result :: "xhci_desc_iso_ep list \<Rightarrow> ulong option \<Rightarrow> ulong option option" where
  "pass_result eps m =
     (if \<exists>e\<in>set eps. EpUnusable e then None
      else case m of
             None \<Rightarrow> (case eps of [] \<Rightarrow> Some None
                      | e # _ \<Rightarrow> if agree (EpBInterval e) eps then Some (Some (EpBInterval e)) else None)
           | Some v \<Rightarrow> if \<forall>e\<in>set eps. EpBInterval e = v then Some (Some v) else None)"

lemma pass_result_Nil [simp]: "pass_result [] m = Some m"
  by (cases m) (simp_all add: pass_result_def)

lemma pass_result_Cons [simp]:
  "pass_result (e # es) m =
     (if EpUnusable e then None
      else case m of
             None \<Rightarrow> pass_result es (Some (EpBInterval e))
           | Some v \<Rightarrow> if v \<noteq> EpBInterval e then None else pass_result es m)"
  by (cases m) (auto simp: pass_result_def agree_def)

lemma pass2_result:
  "interval_pass2 a eps m = pass_result (filter (\<lambda>e. EpAddress e = a) eps) m"
  by (induction a eps m rule: interval_pass2.induct) (simp_all split: option.split)

definition alt_known :: "xhci_desc_state \<Rightarrow> xhci_desc_iso_ep \<Rightarrow> bool" where
  "alt_known s e \<longleftrightarrow> snd (xhciDescSelectedAlt s (EpInterface e))"

definition in_force :: "xhci_desc_state \<Rightarrow> xhci_desc_iso_ep \<Rightarrow> bool" where
  "in_force s e \<longleftrightarrow> EpAlternate e = fst (xhciDescSelectedAlt s (EpInterface e))"

definition declared :: "xhci_desc_state \<Rightarrow> ulong \<Rightarrow> xhci_desc_iso_ep list" where
  "declared s a = filter (\<lambda>e. EpAddress e = a) (IsoEndpoint (StTable s))"

lemma pass1_result:
  "interval_pass1 s a eps m =
     (let D = filter (\<lambda>e. EpAddress e = a) eps
      in if list_all (alt_known s) D then pass_result (filter (in_force s) D) m else None)"
proof (induction eps arbitrary: m)
  case (Cons ep eps)
  obtain alt kn where k: "xhciDescSelectedAlt s (EpInterface ep) = (alt, kn)"
    by (cases "xhciDescSelectedAlt s (EpInterface ep)")
  have f: "alt_known s ep = kn" "in_force s ep \<longleftrightarrow> EpAlternate ep = alt"
    by (simp_all add: alt_known_def in_force_def k)
  show ?case
    unfolding interval_pass1.simps k prod.case Let_def Cons.IH using f
    by (cases "EpAddress ep = a"; cases kn; cases "EpAlternate ep = alt"; cases m) (simp_all add: Let_def del: filter_filter)
qed simp

lemma pass_result_Some:
  "pass_result eps None = Some (Some v) \<longleftrightarrow> agree v eps"
  "pass_result eps None = Some None \<longleftrightarrow> eps = []"
  by (cases eps; auto simp: pass_result_def agree_def split: if_splits)+

lemma interval_lookup:
  assumes "length (IsoEndpoint (StTable s)) = 8"
  shows "XhciDescIsoInterval (Some s) a True = Some v \<longleftrightarrow>
     a \<noteq> 0 \<and> TabValid (StTable s) \<and> (\<forall>e\<in>set (declared s a). alt_known s e) \<and>
     (if filter (in_force s) (declared s a) \<noteq> [] then agree v (filter (in_force s) (declared s a))
      else TabDropped (StTable s) = 0 \<and> agree v (declared s a))"
proof -
  have eps: "map (\<lambda>i. IsoEndpoint (StTable s) ! i) [0..<8] = IsoEndpoint (StTable s)"
    using assms map_nth [of "IsoEndpoint (StTable s)"] by simp
  let ?F = "filter (in_force s) (declared s a)"
  have one: "interval_pass1 s a (IsoEndpoint (StTable s)) None =
      (if \<forall>e\<in>set (declared s a). alt_known s e then pass_result ?F None else None)"
    unfolding pass1_result declared_def Let_def list_all_iff ..
  have two: "interval_pass2 a (IsoEndpoint (StTable s)) None = pass_result (declared s a) None"
    by (simp add: pass2_result declared_def)
  have sel: "(case pass_result (declared s a) None of None \<Rightarrow> None | Some None \<Rightarrow> None | Some (Some v) \<Rightarrow> Some v) = Some v
      \<longleftrightarrow> agree v (declared s a)"
    unfolding pass_result_Some(1) [symmetric] by (auto split: option.split)
  have "(case pass_result ?F None of
          None \<Rightarrow> None
        | Some None \<Rightarrow> if TabDropped (StTable s) \<noteq> 0 then None
            else (case pass_result (declared s a) None of None \<Rightarrow> None | Some None \<Rightarrow> None | Some (Some v) \<Rightarrow> Some v)
        | Some (Some v) \<Rightarrow> Some v) = Some v \<longleftrightarrow>
      (if ?F \<noteq> [] then agree v ?F else TabDropped (StTable s) = 0 \<and> agree v (declared s a))"
    (is "?l \<longleftrightarrow> _")
  proof (cases "?F = []")
    case True
    then show ?thesis
      using sel by simp
  next
    case False
    then have "pass_result ?F None \<noteq> Some None"
      by (simp add: pass_result_Some(2))
    then have "?l \<longleftrightarrow> pass_result ?F None = Some (Some v)"
      by (cases "pass_result ?F None") (auto split: option.splits)
    then show ?thesis
      using False pass_result_Some(1) [of ?F v] by simp
  qed
  then show ?thesis
    unfolding XhciDescIsoInterval_def Let_def option.case eps one two by auto
qed

section \<open>Requests\<close>

text \<open>
  The completed requests of one device, in order: the reply of a GET_DESCRIPTOR(Configuration), a
  SET_CONFIGURATION and a SET_INTERFACE. A reply is walked, and the table committed when the walk
  says so.
\<close>

datatype desc_request = Reply "uchar list" | SetConfiguration ulong | SetInterface ulong ulong

definition parse_blank :: xhci_desc_parse where
  "parse_blank = \<lparr>PaBad = False, PaStarted = False, PaTotalLength = 0, PaReceived = 0, PaLength = 0, PaPos = 0,
     PaInInterface = False, PaInterface = 0, PaAlternate = 0, PaHead = replicate 9 0,
     PaTable = \<lparr>TabValid = False, ConfigValue = 0, TabCount = 0, TabDropped = 0, BadInterval = 0,
       BadDescriptor = 0, IsoEndpoint = replicate 8 iso_ep_zero\<rparr>\<rparr>"

fun walk_reply :: "uchar list \<Rightarrow> desc_fold \<times> xhci_desc_parse option" where
  "walk_reply bs = XhciDescParseEnd (XhciDescParseFeed (XhciDescParseBegin (Some parse_blank)) (Some bs))"

fun desc_apply :: "xhci_desc_state \<Rightarrow> desc_request \<Rightarrow> xhci_desc_state" where
  "desc_apply s (Reply bs) =
     (case walk_reply bs of
        (XHCI_DESC_FOLD_COMMIT, Some p) \<Rightarrow> the (snd (XhciDescCommit (Some s) (Some (PaTable p))))
      | _ \<Rightarrow> s)"
| "desc_apply s (SetConfiguration c) = the (snd (XhciDescSelectConfig (Some s) c))"
| "desc_apply s (SetInterface i a) = the (XhciDescSelectInterface (Some s) i a)"

text \<open>What the device runs after the requests: its configuration, and the alternate of an interface.\<close>

fun run_config :: "desc_request list \<Rightarrow> ulong" where
  "run_config [] = 0"
| "run_config (SetConfiguration c # rs) = c"
| "run_config (r # rs) = run_config rs"

fun run_alt :: "desc_request list \<Rightarrow> ulong \<Rightarrow> ulong" where
  "run_alt [] i = 0"
| "run_alt (SetConfiguration c # rs) i = 0"
| "run_alt (SetInterface i' a # rs) i = (if i' = i then a else run_alt rs i)"
| "run_alt (r # rs) i = run_alt rs i"

text \<open>The lists above have the newest request first.\<close>

fun desc_run :: "xhci_desc_state \<Rightarrow> desc_request list \<Rightarrow> xhci_desc_state" where
  "desc_run s [] = the (XhciDescStateReset (Some s))"
| "desc_run s (r # rs) = desc_apply (desc_run s rs) r"

definition state_shape :: "xhci_desc_state \<Rightarrow> bool" where
  "state_shape s \<longleftrightarrow> length (IsoEndpoint (StTable s)) = 8 \<and> length (Alts s) = 4"

section \<open>Tracking the alternates\<close>

lemma alts_clear_eq:
  assumes "length (Alts s) = 4"
  shows "alts_clear s = s\<lparr>Alts := replicate 4 alt_zero\<rparr>"
proof -
  have "foldl (\<lambda>s i. s\<lparr>Alts := (Alts s)[i := z]\<rparr>) s is = s\<lparr>Alts := foldl (\<lambda>xs i. xs[i := z]) (Alts s) is\<rparr>"
    for s :: xhci_desc_state and z "is"
    by (induction "is" arbitrary: s) auto
  then show ?thesis
    using assms list_update_upto_all [of "Alts s" 4] by (simp add: alts_clear_def)
qed

text \<open>Slot \<open>i\<close> tracks interface \<open>n\<close>.\<close>

definition tracks :: "xhci_desc_state \<Rightarrow> nat \<Rightarrow> ulong \<Rightarrow> bool" where
  "tracks s i n \<longleftrightarrow> i < 4 \<and> AltUsed (Alts s ! i) \<and> AltInterface (Alts s ! i) = n"

text \<open>
  The slots agree with the alternates \<open>f\<close> the device runs: each interface is tracked at most once, at
  its alternate, and while no selection was dropped every interface that left alternate 0 is tracked.
\<close>

definition alts_ok :: "(ulong \<Rightarrow> ulong) \<Rightarrow> xhci_desc_state \<Rightarrow> bool" where
  "alts_ok f s \<longleftrightarrow> length (Alts s) = 4 \<and>
     (\<forall>i j n. tracks s i n \<and> tracks s j n \<longrightarrow> i = j) \<and>
     (\<forall>i n. tracks s i n \<longrightarrow> AltAlternate (Alts s ! i) = f n) \<and>
     (AltDropped s = 0 \<longrightarrow> (\<forall>n. f n \<noteq> 0 \<longrightarrow> (\<exists>i. tracks s i n)))"

lemma find_tracks_Some:
  "find (\<lambda>i. AltUsed (Alts s ! i) \<and> AltInterface (Alts s ! i) = n) [0..<4] = Some i \<Longrightarrow> tracks s i n"
  by (simp add: find_upt_Some tracks_def)

lemma find_tracks_None:
  "find (\<lambda>i. AltUsed (Alts s ! i) \<and> AltInterface (Alts s ! i) = n) [0..<4] = None \<Longrightarrow> \<not> tracks s i n"
  by (simp add: find_upt_None tracks_def)

lemma alts_ok_selected:
  assumes "alts_ok f s" and "snd (xhciDescSelectedAlt s n)"
  shows "fst (xhciDescSelectedAlt s n) = f n"
proof (cases "find (\<lambda>i. AltUsed (Alts s ! i) \<and> AltInterface (Alts s ! i) = n) [0..<4]")
  case None
  then have "AltDropped s = 0" "fst (xhciDescSelectedAlt s n) = 0"
    using assms(2) by (simp_all add: xhciDescSelectedAlt_def)
  moreover have "\<not> (\<exists>i. tracks s i n)"
    using find_tracks_None [OF None] by blast
  ultimately show ?thesis
    using assms(1) unfolding alts_ok_def by metis
next
  case (Some i)
  then show ?thesis
    using assms(1) find_tracks_Some [OF Some] by (simp add: xhciDescSelectedAlt_def alts_ok_def)
qed

lemma alts_ok_clear:
  assumes "length (Alts s) = 4"
  shows "alts_ok (\<lambda>n. 0) (alts_clear s)"
proof -
  have "\<not> tracks (alts_clear s) i n" for i n
    using assms by (auto simp: tracks_def alts_clear_eq alt_zero_def)
  then show ?thesis
    using assms by (simp add: alts_ok_def alts_clear_eq)
qed

lemma select_interface_shape:
  "\<exists>t. XhciDescSelectInterface (Some s) n a = Some t \<and> StTable t = StTable s \<and>
     SelectedConfig t = SelectedConfig s \<and> unat (AltDropped t) \<le> unat (AltDropped s) + 1"
proof -
  have "unat (AltDropped s + 1) \<le> unat (AltDropped s) + 1"
    by (simp add: unat_word_ariths)
  then show ?thesis
    by (simp add: XhciDescSelectInterface_def split: option.split)
qed

lemma tracks_update:
  assumes "length (Alts s) = 4" and "i < 4" and "AltUsed e" and "AltInterface e = n"
  shows "tracks (s\<lparr>Alts := (Alts s)[i := e]\<rparr>) j m \<longleftrightarrow> (if j = i then m = n else tracks s j m)"
  using assms by (auto simp: tracks_def)

lemma alts_ok_update:
  assumes ok: "alts_ok f s" and i: "i < 4" and e: "AltUsed e" "AltInterface e = n" "AltAlternate e = a"
    and sole: "\<And>j. tracks s j n \<Longrightarrow> j = i" and free: "\<And>m. tracks s i m \<Longrightarrow> m = n"
  shows "alts_ok (f(n := a)) (s\<lparr>Alts := (Alts s)[i := e]\<rparr>)"
proof -
  have l: "length (Alts s) = 4"
    using ok by (simp add: alts_ok_def)
  note tr = tracks_update [OF l i e(1,2)]
  let ?t = "s\<lparr>Alts := (Alts s)[i := e]\<rparr>"
  have "j = j'" if "tracks ?t j m" "tracks ?t j' m" for j j' m
    using that ok sole [of j] sole [of j'] unfolding tr alts_ok_def by (metis (full_types))
  moreover have "AltAlternate (Alts ?t ! j) = (f(n := a)) m" if "tracks ?t j m" for j m
    using that ok sole [of j] l i e(3) unfolding tr alts_ok_def by (cases "j = i") auto
  moreover have "\<exists>j. tracks ?t j m" if z: "AltDropped s = 0" "(f(n := a)) m \<noteq> 0" for m
  proof (cases "m = n")
    case False
    then obtain j where "tracks s j m"
      using z ok by (auto simp: alts_ok_def)
    moreover have "j \<noteq> i"
      using \<open>tracks s j m\<close> False free by blast
    ultimately show ?thesis
      unfolding tr by (intro exI [of _ j]) simp
  qed (auto simp: tr)
  ultimately show ?thesis
    using l unfolding alts_ok_def by auto
qed

lemma alts_ok_select:
  assumes ok: "alts_ok f s" and nw: "unat (AltDropped s) + 1 < 4294967296"
  shows "alts_ok (f(n := a)) (the (XhciDescSelectInterface (Some s) n a))"
proof (cases "find (\<lambda>i. AltUsed (Alts s ! i) \<and> AltInterface (Alts s ! i) = n) [0..<4]")
  case (Some i)
  have i: "tracks s i n"
    using find_tracks_Some [OF Some] .
  have "alts_ok (f(n := a)) (s\<lparr>Alts := (Alts s)[i := (Alts s ! i)\<lparr>AltAlternate := a\<rparr>]\<rparr>)"
    using i ok by (intro alts_ok_update) (auto simp: alts_ok_def tracks_def)
  then show ?thesis
    using Some by (simp add: XhciDescSelectInterface_def)
next
  case none: None
  note miss = find_tracks_None [OF none]
  show ?thesis
  proof (cases "find (\<lambda>i. \<not> AltUsed (Alts s ! i)) [0..<4]")
    case (Some i)
    then have i: "i < 4" "\<not> AltUsed (Alts s ! i)"
      by (simp_all add: find_upt_Some)
    have "alts_ok (f(n := a)) (s\<lparr>Alts := (Alts s)[i := \<lparr>AltUsed = True, AltInterface = n, AltAlternate = a\<rparr>]\<rparr>)"
      using i ok miss by (intro alts_ok_update) (auto simp: tracks_def)
    then show ?thesis
      using Some none by (simp add: XhciDescSelectInterface_def)
  next
    case None
    have nz: "AltDropped s + 1 \<noteq> 0"
      using nw by (simp add: unat_eq_iff [symmetric] unat_add_no_wrap)
    have tr: "tracks (s\<lparr>AltDropped := d\<rparr>) i m \<longleftrightarrow> tracks s i m" for d i m
      by (simp add: tracks_def)
    show ?thesis
      using ok miss nz by (auto simp: XhciDescSelectInterface_def None none alts_ok_def tr)
  qed
qed

section \<open>The state after any requests\<close>

text \<open>The table of a complete configuration.\<close>

definition config_table :: "uchar list \<Rightarrow> uchar list list \<Rightarrow> xhci_desc_iso_table" where
  "config_table c ds =
     (let its = walk_items None ds; D = decls its
      in \<lparr>TabValid = True, ConfigValue = ucast (c ! 5), TabCount = of_nat (length (kept_keys D)),
          TabDropped = of_nat (dropped_decls D),
          BadInterval = of_nat (length (filter (\<lambda>d. \<not> interval_ok (snd d)) D)),
          BadDescriptor = of_nat (bad_count its),
          IsoEndpoint = entries_of D @ replicate (8 - length (kept_keys D)) iso_ep_zero\<rparr>)"

lemma walk_exact:
  assumes p: "parse_shape p" and c: "wf_config (c # ds)" and bs: "bs = concat (c # ds) @ rest"
  shows "\<exists>q. XhciDescParseEnd (XhciDescParseFeed (XhciDescParseBegin (Some p)) (Some bs)) =
     (XHCI_DESC_FOLD_COMMIT, Some q) \<and> PaTable q = config_table c ds"
proof -
  obtain q0 where q0: "XhciDescParseBegin (Some p) = Some q0" "walk_fresh q0" "PaTable q0 = table_reset (PaTable p)"
    using parse_begin_fresh [OF p] by blast
  define q where "q = feed_loop q0 bs"
  have len: "length (IsoEndpoint (PaTable p)) = 8"
    using p by (simp add: parse_shape_def)
  have q: "walk_commits q"
      "PaTable q = foldl apply_item ((table_reset (PaTable p))\<lparr>ConfigValue := ucast (c ! 5)\<rparr>) (walk_items None ds)"
    using feed_config [OF q0(2) c, of q rest] q0(3) bs by (simp_all add: q_def)
  have "(PaTable q)\<lparr>TabValid := True\<rparr> = config_table c ds"
    using items_table [OF len walk_items_nonzero q(2)]
    by (cases "PaTable q") (simp add: table_is_def config_table_def Let_def)
  then show ?thesis
    using q q0(1) by (simp add: XhciDescParseFeed_def q_def [symmetric] XhciDescParseEnd_def walk_commits_def not_less)
qed

lemma walk_reply_commit:
  assumes "walk_reply bs = (XHCI_DESC_FOLD_COMMIT, Some q)"
  shows "\<exists>c ds rest. wf_config (c # ds) \<and> bs = concat (c # ds) @ rest \<and> PaTable q = config_table c ds"
proof -
  have p: "parse_shape parse_blank"
    by (simp add: parse_shape_def parse_blank_def)
  obtain q0 where q0: "XhciDescParseBegin (Some parse_blank) = Some q0" "walk_fresh q0"
    using parse_begin_fresh [OF p] by blast
  have "walk_commits (feed_loop q0 bs)"
    using assms q0(1) parse_end_commit [of "feed_loop q0 bs"] by (simp add: XhciDescParseFeed_def)
  then obtain cs rest where cs: "wf_config cs" "bs = concat cs @ rest"
    using fresh_commits_iff [OF q0(2)] by blast
  then obtain c ds where "cs = c # ds"
    by (cases cs) auto
  then show ?thesis
    using walk_exact [OF p, of c ds bs rest] cs assms by auto
qed

text \<open>A table that came from one of the replies and describes the configuration the device runs, if any.\<close>

definition table_from :: "desc_request list \<Rightarrow> xhci_desc_iso_table \<Rightarrow> bool" where
  "table_from rs t \<longleftrightarrow>
     (\<exists>c ds rest. Reply (concat (c # ds) @ rest) \<in> set rs \<and> wf_config (c # ds) \<and> t = config_table c ds) \<and>
     (run_config rs \<noteq> 0 \<longrightarrow> ConfigValue t = run_config rs)"

definition desc_inv :: "desc_request list \<Rightarrow> xhci_desc_state \<Rightarrow> bool" where
  "desc_inv rs s \<longleftrightarrow> state_shape s \<and> SelectedConfig s = run_config rs \<and> unat (AltDropped s) \<le> length rs \<and>
     alts_ok (run_alt rs) s \<and> (TabValid (StTable s) \<longrightarrow> table_from rs (StTable s))"

lemma table_from_mono:
  "table_from rs t \<Longrightarrow> set rs \<subseteq> set rs' \<Longrightarrow> run_config rs' \<noteq> 0 \<longrightarrow> ConfigValue t = run_config rs' \<Longrightarrow> table_from rs' t"
  unfolding table_from_def by blast

lemma desc_inv_reset:
  assumes "state_shape s"
  shows "desc_inv [] (the (XhciDescStateReset (Some s)))"
proof -
  have l: "length (IsoEndpoint (StTable s)) = 8" "length (Alts s) = 4"
    using assms by (auto simp: state_shape_def)
  have "run_alt [] = (\<lambda>n. 0)"
    by (rule ext) simp
  then show ?thesis
    using alts_ok_clear [of "s\<lparr>StTable := table_reset (StTable s), SelectedConfig := 0, AltDropped := 0\<rparr>"] l
    by (simp add: XhciDescStateReset_def desc_inv_def state_shape_def alts_clear_eq table_reset_eq)
qed

lemma length_config_table [simp]: "length (IsoEndpoint (config_table c ds)) = 8"
  by (simp add: config_table_def Let_def entries_of_def)

lemma config_table_simps [simp]: "TabValid (config_table c ds)" "ConfigValue (config_table c ds) = ucast (c ! 5)"
  by (simp_all add: config_table_def Let_def)

lemma alts_ok_table [simp]: "alts_ok f (s\<lparr>StTable := t\<rparr>) \<longleftrightarrow> alts_ok f s"
  by (simp add: alts_ok_def tracks_def)

lemma desc_inv_reply:
  assumes "desc_inv rs s"
  shows "desc_inv (Reply bs # rs) (desc_apply s (Reply bs))"
proof -
  have same: "run_alt (Reply bs # rs) = run_alt rs" "run_config (Reply bs # rs) = run_config rs"
      "length rs \<le> length (Reply bs # rs)" "set rs \<subseteq> set (Reply bs # rs)"
    by auto
  have keep: "desc_inv (Reply bs # rs) s"
    using assms same table_from_mono [OF _ same(4)] by (auto simp: desc_inv_def table_from_def [of rs])
  show ?thesis
  proof (cases "walk_reply bs")
    case (Pair st r)
    show ?thesis
    proof (cases "st = XHCI_DESC_FOLD_COMMIT \<and> r \<noteq> None")
      case True
      then obtain q where q: "walk_reply bs = (XHCI_DESC_FOLD_COMMIT, Some q)"
        using Pair by auto
      then obtain c ds rest where c: "wf_config (c # ds)" "bs = concat (c # ds) @ rest" "PaTable q = config_table c ds"
        using walk_reply_commit by blast
      show ?thesis
      proof (cases "SelectedConfig s \<noteq> 0 \<and> SelectedConfig s \<noteq> ucast (c ! 5)")
        case True
        then show ?thesis
          using keep q c(3) by (simp add: XhciDescCommit_def del: walk_reply.simps)
      next
        case False
        then have "desc_apply s (Reply bs) = s\<lparr>StTable := config_table c ds\<rparr>"
          using q c(3) by (auto simp: XhciDescCommit_def simp del: walk_reply.simps)
        moreover have "table_from (Reply bs # rs) (config_table c ds)"
          using c(1,2) False assms unfolding table_from_def desc_inv_def
          by (intro conjI exI [of _ c] exI [of _ ds] exI [of _ rest]) auto
        ultimately show ?thesis
          using keep by (simp add: desc_inv_def state_shape_def)
      qed
    next
      case False
      then have "desc_apply s (Reply bs) = s"
        using Pair by (auto simp del: walk_reply.simps split: desc_fold.splits option.splits)
      then show ?thesis
        using keep by simp
    qed
  qed
qed

lemma desc_inv_config:
  assumes "desc_inv rs s"
  shows "desc_inv (SetConfiguration c # rs) (desc_apply s (SetConfiguration c))"
proof -
  have l: "length (IsoEndpoint (StTable s)) = 8" "length (Alts s) = 4"
    using assms by (auto simp: desc_inv_def state_shape_def)
  have r: "run_alt (SetConfiguration c # rs) = (\<lambda>n. 0)"
    by (rule ext) simp
  have "table_from (SetConfiguration c # rs) (StTable s)" if "TabValid (StTable s)" "ConfigValue (StTable s) = c"
    using that assms by (rule_tac table_from_mono [of rs]) (auto simp: desc_inv_def)
  then show ?thesis
    using assms alts_ok_clear [of "s\<lparr>SelectedConfig := c, AltDropped := 0\<rparr>"]
      alts_ok_clear [of "s\<lparr>StTable := table_reset (StTable s), SelectedConfig := c, AltDropped := 0\<rparr>"] l
    unfolding desc_inv_def r
    by (simp add: XhciDescSelectConfig_def state_shape_def alts_clear_eq table_reset_eq Let_def)
qed

lemma desc_inv_interface:
  assumes inv: "desc_inv rs s" and n: "length rs + 1 < 4294967296"
  shows "desc_inv (SetInterface i a # rs) (desc_apply s (SetInterface i a))"
proof -
  obtain t where t: "XhciDescSelectInterface (Some s) i a = Some t" "StTable t = StTable s"
      "SelectedConfig t = SelectedConfig s" "unat (AltDropped t) \<le> unat (AltDropped s) + 1"
    using select_interface_shape by blast
  have "alts_ok ((run_alt rs)(i := a)) t"
    using alts_ok_select [of "run_alt rs" s i a] inv n t(1) by (simp add: desc_inv_def)
  moreover have "run_alt (SetInterface i a # rs) = (run_alt rs)(i := a)"
    by (rule ext) simp
  ultimately have "alts_ok (run_alt (SetInterface i a # rs)) t" "length (Alts t) = 4"
    by (simp_all add: alts_ok_def)
  moreover have "table_from (SetInterface i a # rs) (StTable s)" if "TabValid (StTable s)"
    using that inv by (rule_tac table_from_mono [of rs]) (auto simp: desc_inv_def table_from_def [of rs])
  ultimately show ?thesis
    using inv t by (simp add: desc_inv_def state_shape_def)
qed

lemma desc_inv_run:
  assumes "state_shape s" and "length rs < 4294967296"
  shows "desc_inv rs (desc_run s rs)"
  using assms(2)
proof (induction rs)
  case Nil
  then show ?case using desc_inv_reset [OF assms(1)] by simp
next
  case (Cons r rs)
  then have "desc_inv rs (desc_run s rs)" by simp
  then show ?case
    using Cons.prems desc_inv_reply desc_inv_config desc_inv_interface by (cases r) auto
qed

end
