(* ===== verification/Xhci_Desc_Props.thy ===== *)
theory Xhci_Desc_Props
  imports Xhci_Desc_Lookup
begin

text \<open>
  The properties of the configuration-descriptor snoop: which replies are accepted and what is
  recorded of them, what the interval lookup answers, and that along any sequence of requests the
  answer belongs to the configuration and the alternate settings the device runs.
\<close>

section \<open>Lemmas\<close>

lemma feed_chunks:
  "foldl (\<lambda>q c. XhciDescParseFeed q (Some c)) p chunks = XhciDescParseFeed p (Some (concat chunks))"
proof (cases p)
  case None
  then show ?thesis
    by (induction chunks) (simp_all add: XhciDescParseFeed_def)
next
  case (Some q)
  have "foldl (\<lambda>q c. XhciDescParseFeed q (Some c)) (Some q) chunks = Some (foldl feed_loop q chunks)"
    by (induction chunks arbitrary: q) (simp_all add: XhciDescParseFeed_def)
  then show ?thesis
    using Some by (simp add: XhciDescParseFeed_def feed_concat)
qed

text \<open>An entry of a configuration's table that some endpoint address matches.\<close>

lemma entries_declared:
  assumes "e \<in> set (IsoEndpoint (config_table c ds))" and "EpAddress e \<noteq> 0"
  shows "\<exists>k\<in>set (kept_keys (decls (walk_items None ds))). e = entry_of (decls (walk_items None ds)) k"
  using assms by (auto simp: config_table_def Let_def entries_of_def iso_ep_zero_def)

lemma decls_set: "((i, a, ad), b) \<in> set (decls its) \<longleftrightarrow> Declares i a ad b \<in> set its"
proof -
  have "item_decl it = Some ((i, a, ad), b) \<longleftrightarrow> it = Declares i a ad b" for it
    by (cases it) auto
  then show ?thesis
    by (force simp: decls_def map_filter_def image_iff)
qed

lemma usable_entry:
  assumes k: "(i, a, ad) \<in> set (kept_keys D)" and u: "\<not> EpUnusable (entry_of D (i, a, ad))"
  shows "interval_ok (EpBInterval (entry_of D (i, a, ad)))"
    and "((i, a, ad), b) \<in> set D \<longleftrightarrow> b = EpBInterval (entry_of D (i, a, ad))"
proof -
  let ?bs = "key_intervals D (i, a, ad)"
  have ne: "?bs \<noteq> []"
    using k kept_keys_sub key_intervals_ne by blast
  have us: "\<And>b. b \<in> set ?bs \<Longrightarrow> b = hd ?bs \<and> interval_ok b"
    using u by (auto simp: entry_of.simps Let_def key_usable_def)
  then have hd: "interval_ok (hd ?bs)" "hd ?bs \<in> set ?bs"
    using ne by auto
  then show "interval_ok (EpBInterval (entry_of D (i, a, ad)))"
    by (simp add: entry_of.simps Let_def)
  have "((i, a, ad), b) \<in> set D \<longleftrightarrow> b \<in> set ?bs"
    by (force simp: key_intervals_def)
  also have "\<dots> \<longleftrightarrow> b = hd ?bs"
    using us hd(2) by blast
  finally show "((i, a, ad), b) \<in> set D \<longleftrightarrow> b = EpBInterval (entry_of D (i, a, ad))"
    using hd(1) by (simp add: entry_of.simps Let_def)
qed

lemma agree_elem: "agree v eps \<Longrightarrow> e \<in> set eps \<Longrightarrow> \<not> EpUnusable e \<and> EpBInterval e = v"
  by (auto simp: agree_def)

lemma agree_ex: "agree v eps \<Longrightarrow> \<exists>e\<in>set eps. \<not> EpUnusable e \<and> EpBInterval e = v"
  by (cases eps) (auto simp: agree_def)

lemma answer_in_force:
  assumes "state_shape s" and n: "length rs < 4294967296"
    and v: "XhciDescIsoInterval (Some (desc_run s rs)) a True = Some v"
  shows "interval_ok v \<and>
     (\<exists>c ds rest. Reply (concat (c # ds) @ rest) \<in> set rs \<and> wf_config (c # ds) \<and>
        (run_config rs \<noteq> 0 \<longrightarrow> ucast (c ! 5) = run_config rs) \<and>
        (\<exists>i al. Declares i al a v \<in> set (walk_items None ds)) \<and>
        (\<forall>i al b. Declares i al a b \<in> set (walk_items None ds) \<and>
           (i, al, a) \<in> set (kept_keys (decls (walk_items None ds))) \<and> al = run_alt rs i \<longrightarrow> b = v))"
proof -
  let ?s = "desc_run s rs"
  have inv: "desc_inv rs ?s"
    using desc_inv_run [OF assms(1) n] .
  then have "length (IsoEndpoint (StTable ?s)) = 8" and alts: "alts_ok (run_alt rs) ?s"
    by (simp_all add: desc_inv_def state_shape_def)
  then have look: "a \<noteq> 0" "TabValid (StTable ?s)" "\<forall>e\<in>set (declared ?s a). alt_known ?s e"
      "if filter (in_force ?s) (declared ?s a) \<noteq> [] then agree v (filter (in_force ?s) (declared ?s a))
       else agree v (declared ?s a)"
    using v by (auto simp: interval_lookup split: if_splits)
  obtain c ds rest where c: "Reply (concat (c # ds) @ rest) \<in> set rs" "wf_config (c # ds)"
      "StTable ?s = config_table c ds" "run_config rs \<noteq> 0 \<longrightarrow> ucast (c ! 5) = run_config rs"
    using inv look(2) by (auto simp: desc_inv_def table_from_def simp del: concat.simps)
  let ?D = "decls (walk_items None ds)"
  obtain e where e: "e \<in> set (declared ?s a)" "\<not> EpUnusable e" "EpBInterval e = v"
    using look(4) agree_ex by (fastforce split: if_splits)
  then obtain i al where k: "(i, al, a) \<in> set (kept_keys ?D)" "e = entry_of ?D (i, al, a)"
    using entries_declared [of e c ds] look(1) c(3) by (fastforce simp: declared_def)
  have ok: "interval_ok v" "Declares i al a v \<in> set (walk_items None ds)"
    using usable_entry [OF k(1)] e k(2) decls_set by auto
  have all: "b = v" if b: "Declares i al a b \<in> set (walk_items None ds)" "(i, al, a) \<in> set (kept_keys ?D)"
      "al = run_alt rs i" for i al b
  proof -
    have d: "entry_of ?D (i, al, a) \<in> set (declared ?s a)"
      using b(2) c(3) by (simp add: declared_def config_table_def Let_def entries_of_def)
    moreover have "in_force ?s (entry_of ?D (i, al, a))"
      using alts_ok_selected [OF alts, of i] look(3) d b(3) by (auto simp: in_force_def alt_known_def)
    ultimately have f: "entry_of ?D (i, al, a) \<in> set (filter (in_force ?s) (declared ?s a))"
      by simp
    then have "filter (in_force ?s) (declared ?s a) \<noteq> []"
      by force
    then have "agree v (filter (in_force ?s) (declared ?s a))"
      using look(4) by simp
    then show ?thesis
      using agree_elem [OF _ f] usable_entry(2) [OF b(2)] b(1) decls_set by auto
  qed
  show ?thesis
    using ok c all by blast
qed

section \<open>Properties\<close>

text \<open>
  C19: A walk commits exactly when the bytes of the reply, however they are chunked, begin with a
  complete configuration: descriptors that fit their own lengths, the first of them a configuration
  header of at least nine bytes whose \<open>wTotalLength\<close> is the length of all of them. Bytes behind
  it do not matter.
\<close>

theorem desc_commit_iff:
  assumes "parse_shape p"
  shows "fst (XhciDescParseEnd (foldl (\<lambda>q c. XhciDescParseFeed q (Some c)) (XhciDescParseBegin (Some p)) chunks))
       = XHCI_DESC_FOLD_COMMIT \<longleftrightarrow>
     (\<exists>ds rest. wf_config ds \<and> concat chunks = concat ds @ rest)"
proof -
  obtain q0 where q0: "XhciDescParseBegin (Some p) = Some q0" "walk_fresh q0"
    using parse_begin_fresh [OF assms] by blast
  show ?thesis
    using fresh_commits_iff [OF q0(2), of "concat chunks"]
    unfolding feed_chunks q0(1) by (simp add: XhciDescParseFeed_def parse_end_commit)
qed

definition sample_config :: "uchar list list" where
  "sample_config = [[9, 2, 32, 0, 1, 3, 0, 0x80, 50], [9, 4, 0, 1, 1, 1, 2, 0, 0], [7, 5, 0x81, 1, 64, 0, 4],
     [7, 5, 2, 2, 64, 0, 0]]"

lemma sample_wf: "wf_config sample_config"
  by code_simp

lemma blank_shape: "parse_shape parse_blank"
  by (simp add: parse_shape_def parse_blank_def)

theorem desc_commit_iff_witness:
  "fst (XhciDescParseEnd (foldl (\<lambda>q c. XhciDescParseFeed q (Some c)) (XhciDescParseBegin (Some parse_blank))
      (sample_config @ [[1, 2, 3]]))) = XHCI_DESC_FOLD_COMMIT \<and>
   fst (XhciDescParseEnd (foldl (\<lambda>q c. XhciDescParseFeed q (Some c)) (XhciDescParseBegin (Some parse_blank))
      [])) \<noteq> XHCI_DESC_FOLD_COMMIT"
proof
  show "fst (XhciDescParseEnd (foldl (\<lambda>q c. XhciDescParseFeed q (Some c)) (XhciDescParseBegin (Some parse_blank))
      (sample_config @ [[1, 2, 3]]))) = XHCI_DESC_FOLD_COMMIT"
    unfolding desc_commit_iff [OF blank_shape] using sample_wf by (intro exI [of _ sample_config] exI [of _ "[1, 2, 3]"]) simp
  have "wf_config ds \<Longrightarrow> concat ds \<noteq> []" for ds
    by (cases ds) (auto simp: wf_desc_def)
  then show "fst (XhciDescParseEnd (foldl (\<lambda>q c. XhciDescParseFeed q (Some c)) (XhciDescParseBegin (Some parse_blank))
      [])) \<noteq> XHCI_DESC_FOLD_COMMIT"
    unfolding desc_commit_iff [OF blank_shape] by fastforce
qed

text \<open>
  C20: The table of a committed walk, for every chunking of the reply and whatever follows the
  configuration: the value of its header, and of the isochronous endpoint declarations under their
  interface and alternate the first eight distinct ones, each usable exactly when all declarations
  of it agree on an interval of 1 to 16. The five counters are exact modulo \<open>2 ^ 32\<close>.
\<close>

theorem desc_walk_exact:
  assumes "parse_shape p" and "wf_config (c # ds)" and "concat chunks = concat (c # ds) @ rest"
  shows "\<exists>q. XhciDescParseEnd (foldl (\<lambda>q c. XhciDescParseFeed q (Some c)) (XhciDescParseBegin (Some p)) chunks)
       = (XHCI_DESC_FOLD_COMMIT, Some q) \<and> PaTable q = config_table c ds"
  using walk_exact [OF assms] by (simp add: feed_chunks)

theorem desc_walk_exact_witness:
  "\<exists>q. XhciDescParseEnd (foldl (\<lambda>q c. XhciDescParseFeed q (Some c)) (XhciDescParseBegin (Some parse_blank))
       (sample_config @ [[1, 2, 3]])) = (XHCI_DESC_FOLD_COMMIT, Some q) \<and>
     PaTable q = config_table (hd sample_config) (List.tl sample_config) \<and>
     ConfigValue (PaTable q) = 3 \<and> TabCount (PaTable q) = 1 \<and>
     IsoEndpoint (PaTable q) ! 0 = \<lparr>EpAddress = 0x81, EpBInterval = 4, EpInterface = 0, EpAlternate = 1, EpUnusable = False\<rparr>"
proof -
  have wf: "wf_config (hd sample_config # List.tl sample_config)"
    by code_simp
  have "concat (sample_config @ [[1, 2, 3]]) = concat (hd sample_config # List.tl sample_config) @ [1, 2, 3]"
    by code_simp
  moreover have "ConfigValue (config_table (hd sample_config) (List.tl sample_config)) = 3"
      "TabCount (config_table (hd sample_config) (List.tl sample_config)) = 1"
      "IsoEndpoint (config_table (hd sample_config) (List.tl sample_config)) ! 0 =
         \<lparr>EpAddress = 0x81, EpBInterval = 4, EpInterface = 0, EpAlternate = 1, EpUnusable = False\<rparr>"
    by code_simp+
  ultimately show ?thesis
    using desc_walk_exact [OF blank_shape wf, of "sample_config @ [[1, 2, 3]]" "[1, 2, 3]"] by metis
qed

text \<open>
  The interval lookup answers \<open>v\<close> exactly when the table is valid, the alternate of every
  interface that declares the endpoint is known, and either some declaration is under the alternate in force and
  all of those are usable and say \<open>v\<close>, or none is, no declaration was dropped, and all
  declarations of the endpoint are usable and say \<open>v\<close>. In every other case it refuses.
\<close>

theorem desc_interval_exact:
  assumes "state_shape s"
  shows "XhciDescIsoInterval (Some s) a True = Some v \<longleftrightarrow>
     a \<noteq> 0 \<and> TabValid (StTable s) \<and> (\<forall>e\<in>set (declared s a). alt_known s e) \<and>
     (if filter (in_force s) (declared s a) \<noteq> [] then agree v (filter (in_force s) (declared s a))
      else TabDropped (StTable s) = 0 \<and> agree v (declared s a))"
  using assms interval_lookup [of s a v] by (simp add: state_shape_def)

definition sample_state :: xhci_desc_state where
  "sample_state = \<lparr>StTable = config_table (hd sample_config) (List.tl sample_config), SelectedConfig = 3,
     AltDropped = 0, Alts = replicate 4 alt_zero\<rparr>"

theorem desc_interval_exact_witness:
  "XhciDescIsoInterval (Some sample_state) 0x81 True = Some 4 \<and>
   XhciDescIsoInterval (Some sample_state) 2 True \<noteq> Some 0"
proof -
  have s: "state_shape sample_state"
    by (simp add: state_shape_def sample_state_def)
  have f: "filter (in_force sample_state) (declared sample_state 0x81) = []"
      "\<forall>e\<in>set (declared sample_state 0x81). alt_known sample_state e" "agree 4 (declared sample_state 0x81)"
      "TabValid (StTable sample_state)" "TabDropped (StTable sample_state) = 0" "declared sample_state 2 = []"
    by code_simp+
  show ?thesis
    using f unfolding desc_interval_exact [OF s] by (simp add: agree_def)
qed


definition sample_requests :: "desc_request list" where
  "sample_requests = [SetInterface 0 1, SetConfiguration 3, Reply (concat sample_config @ [7])]"


end
