(* ===== verification/Xhci_Ctx.thy ===== *)
theory Xhci_Ctx
  imports Xhci_Desc
begin

text \<open>
  Slot, Endpoint and Input Control Contexts (\<open>xhci_ctx.c\<close>): the encoders of the words the controller
  reads, and the translation of an endpoint's USB parameters into them. A context in memory is the
  list of its words from the base the encoder is given; a store is a list update.
\<close>

section \<open>Vocabulary and structures\<close>

abbreviation (input) XHCI_SPEED_LOW :: ulong where "XHCI_SPEED_LOW \<equiv> 1"
abbreviation (input) XHCI_SPEED_FULL :: ulong where "XHCI_SPEED_FULL \<equiv> 2"
abbreviation (input) XHCI_SPEED_HIGH :: ulong where "XHCI_SPEED_HIGH \<equiv> 3"
abbreviation (input) CTX_MAX_DCI :: ulong where "CTX_MAX_DCI \<equiv> 31"
abbreviation (input) XHCI_EP_INTERVAL_FSLS_MIN :: ulong where "XHCI_EP_INTERVAL_FSLS_MIN \<equiv> 3"
abbreviation (input) XHCI_EP_INTERVAL_FSLS_MAX :: ulong where "XHCI_EP_INTERVAL_FSLS_MAX \<equiv> 10"
abbreviation (input) XHCI_EP_INTERVAL_HS_MAX :: ulong where "XHCI_EP_INTERVAL_HS_MAX \<equiv> 15"
abbreviation (input) XHCI_EP_INTERVAL_ISOCH_HS :: ulong where "XHCI_EP_INTERVAL_ISOCH_HS \<equiv> 0"
abbreviation (input) XHCI_EP_INTERVAL_ISOCH_FS :: ulong where "XHCI_EP_INTERVAL_ISOCH_FS \<equiv> 3"
abbreviation (input) XHCI_CONTEXT_DWORDS :: nat where "XHCI_CONTEXT_DWORDS \<equiv> 8"
abbreviation (input) XHCI_ICC_DW_DROP :: nat where "XHCI_ICC_DW_DROP \<equiv> 0"
abbreviation (input) XHCI_ICC_DW_ADD :: nat where "XHCI_ICC_DW_ADD \<equiv> 1"
abbreviation (input) XHCI_ICC_DROP_RSVDZ_MASK :: ulong where "XHCI_ICC_DROP_RSVDZ_MASK \<equiv> 0x00000003"
abbreviation (input) XHCI_SLOT_ROUTE_MASK :: ulong where "XHCI_SLOT_ROUTE_MASK \<equiv> 0x000FFFFF"
abbreviation (input) XHCI_SLOT_SPEED_MASK :: ulong where "XHCI_SLOT_SPEED_MASK \<equiv> 0x00F00000"
abbreviation (input) XHCI_SLOT_MTT :: ulong where "XHCI_SLOT_MTT \<equiv> 0x02000000"
abbreviation (input) XHCI_SLOT_HUB :: ulong where "XHCI_SLOT_HUB \<equiv> 0x04000000"
abbreviation (input) XHCI_SLOT_ENTRIES_MASK :: ulong where "XHCI_SLOT_ENTRIES_MASK \<equiv> 0xF8000000"
abbreviation (input) XHCI_SLOT_MAX_EXIT_MASK :: ulong where "XHCI_SLOT_MAX_EXIT_MASK \<equiv> 0x0000FFFF"
abbreviation (input) XHCI_EP_DCS :: ulong where "XHCI_EP_DCS \<equiv> 0x00000001"
abbreviation (input) XHCI_EP_DEQUEUE_MASK :: ulong where "XHCI_EP_DEQUEUE_MASK \<equiv> 0xFFFFFFF0"
abbreviation (input) XHCI_EP_AVG_TRB_MASK :: ulong where "XHCI_EP_AVG_TRB_MASK \<equiv> 0x0000FFFF"
abbreviation (input) XHCI_EP_MAX_ESIT_LIMIT :: ulong where "XHCI_EP_MAX_ESIT_LIMIT \<equiv> 0x00FFFFFF"
abbreviation (input) XHCI_EP_TYPE_INVALID :: ulong where "XHCI_EP_TYPE_INVALID \<equiv> 0"
abbreviation (input) XHCI_EP_TYPE_ISOCH_OUT :: ulong where "XHCI_EP_TYPE_ISOCH_OUT \<equiv> 1"
abbreviation (input) XHCI_EP_TYPE_BULK_OUT :: ulong where "XHCI_EP_TYPE_BULK_OUT \<equiv> 2"
abbreviation (input) XHCI_EP_TYPE_INTERRUPT_OUT :: ulong where "XHCI_EP_TYPE_INTERRUPT_OUT \<equiv> 3"
abbreviation (input) XHCI_EP_TYPE_CONTROL :: ulong where "XHCI_EP_TYPE_CONTROL \<equiv> 4"
abbreviation (input) XHCI_EP_TYPE_ISOCH_IN :: ulong where "XHCI_EP_TYPE_ISOCH_IN \<equiv> 5"
abbreviation (input) XHCI_EP_TYPE_BULK_IN :: ulong where "XHCI_EP_TYPE_BULK_IN \<equiv> 6"
abbreviation (input) XHCI_EP_TYPE_INTERRUPT_IN :: ulong where "XHCI_EP_TYPE_INTERRUPT_IN \<equiv> 7"
abbreviation (input) XHCI_EP_CERR_DEFAULT :: ulong where "XHCI_EP_CERR_DEFAULT \<equiv> 3"
abbreviation (input) XHCI_EP_AVG_TRB_CONTROL :: ulong where "XHCI_EP_AVG_TRB_CONTROL \<equiv> 8"
abbreviation (input) XHCI_EP0_MPS_LOW :: ulong where "XHCI_EP0_MPS_LOW \<equiv> 8"
abbreviation (input) XHCI_EP0_MPS_FULL_INITIAL :: ulong where "XHCI_EP0_MPS_FULL_INITIAL \<equiv> 64"
abbreviation (input) XHCI_EP0_MPS_HIGH :: ulong where "XHCI_EP0_MPS_HIGH \<equiv> 64"
abbreviation (input) XHCI_EP0_MPS_SUPER :: ulong where "XHCI_EP0_MPS_SUPER \<equiv> 512"
abbreviation (input) USBPORT_TRANSFER_TYPE_ISOCHRONOUS :: ulong where "USBPORT_TRANSFER_TYPE_ISOCHRONOUS \<equiv> 0"
abbreviation (input) USBPORT_TRANSFER_TYPE_BULK :: ulong where "USBPORT_TRANSFER_TYPE_BULK \<equiv> 2"
abbreviation (input) USBPORT_TRANSFER_TYPE_INTERRUPT :: ulong where "USBPORT_TRANSFER_TYPE_INTERRUPT \<equiv> 3"

datatype ctx_status = XHCI_CTX_OK | XHCI_CTX_BAD_PARAM

record xhci_slot_params =
  SlRouteString :: ulong
  SlPsiv :: ulong
  SlRootHubPort :: ulong
  SlContextEntries :: ulong
  SlHub :: ulong
  SlNumberOfPorts :: ulong
  SlMultiTt :: ulong
  SlMaxExitLatency :: ulong
  SlParentSlotId :: ulong
  SlParentPortNumber :: ulong
  SlTtThinkTime :: ulong
  SlInterrupterTarget :: ulong

record xhci_ep_params =
  EpType :: ulong
  EpMaxPacketSize :: ulong
  EpMaxBurstSize :: ulong
  EpMult :: ulong
  EpInterval :: ulong
  EpErrorCount :: ulong
  EpDequeuePA :: ulong
  EpDcs :: ulong
  EpAverageTrbLength :: ulong
  EpMaxEsitPayload :: ulong

definition XHCI_EP0_MPS_IS_LEGAL :: "ulong \<Rightarrow> bool" where
  "XHCI_EP0_MPS_IS_LEGAL m \<longleftrightarrow> m = 8 \<or> m = 16 \<or> m = 32 \<or> m = 64 \<or> m = XHCI_EP0_MPS_SUPER"

section \<open>Encoders\<close>

definition xhciCtxStore :: "ulong list \<Rightarrow> nat \<Rightarrow> ulong \<Rightarrow> ulong list" where
  "xhciCtxStore context index value = context[index := value]"

definition XhciContextZero :: "ulong list option \<Rightarrow> ulong \<Rightarrow> ulong list option" where
  "XhciContextZero context dwords =
     (case context of
        None \<Rightarrow> None
      | Some c \<Rightarrow> Some (foldl (\<lambda>c i. c[i := 0]) c [0..<unat dwords]))"

text \<open>The loop every encoder clears its context with.\<close>

definition ctx_clear :: "ulong list \<Rightarrow> ulong list" where
  "ctx_clear context = foldl (\<lambda>c i. xhciCtxStore c i 0) context [0..<XHCI_CONTEXT_DWORDS]"

definition XhciBuildInputControlContext ::
    "ulong list option \<Rightarrow> ulong \<Rightarrow> ulong \<Rightarrow> ctx_status \<times> ulong list option" where
  "XhciBuildInputControlContext context addFlags dropFlags =
     (case context of
        None \<Rightarrow> (XHCI_CTX_BAD_PARAM, context)
      | Some c \<Rightarrow>
          if dropFlags AND XHCI_ICC_DROP_RSVDZ_MASK \<noteq> 0 then (XHCI_CTX_BAD_PARAM, context)
          else
            let c = ctx_clear c;
                c = xhciCtxStore c XHCI_ICC_DW_DROP dropFlags;
                c = xhciCtxStore c XHCI_ICC_DW_ADD addFlags
            in (XHCI_CTX_OK, Some c))"

text \<open>The refusals of the slot encoder, in the order of the code.\<close>

definition slot_params_refused :: "xhci_slot_params \<Rightarrow> bool" where
  "slot_params_refused p \<longleftrightarrow>
     SlRouteString p > XHCI_SLOT_ROUTE_MASK \<or>
     SlPsiv p > 0x0F \<or>
     SlRootHubPort p = 0 \<or> SlRootHubPort p > 0xFF \<or>
     SlContextEntries p = 0 \<or> SlContextEntries p > CTX_MAX_DCI \<or>
     SlMaxExitLatency p > XHCI_SLOT_MAX_EXIT_MASK \<or>
     SlNumberOfPorts p > 0xFF \<or> SlParentSlotId p > 0xFF \<or> SlParentPortNumber p > 0xFF \<or>
     SlTtThinkTime p > 0x03 \<or> SlInterrupterTarget p > 0x3FF \<or>
     SlHub p = 0 \<and> SlNumberOfPorts p \<noteq> 0 \<or>
     SlHub p \<noteq> 0 \<and> SlNumberOfPorts p = 0 \<or>
     SlHub p = 0 \<and> SlTtThinkTime p \<noteq> 0 \<or>
     (SlParentSlotId p = 0) \<noteq> (SlParentPortNumber p = 0)"

definition slot_dw0 :: "xhci_slot_params \<Rightarrow> ulong" where
  "slot_dw0 p =
     (let dw0 = SlRouteString p AND XHCI_SLOT_ROUTE_MASK;
          dw0 = dw0 OR (push_bit 20 (SlPsiv p) AND XHCI_SLOT_SPEED_MASK);
          dw0 = (if SlMultiTt p \<noteq> 0 then dw0 OR XHCI_SLOT_MTT else dw0);
          dw0 = (if SlHub p \<noteq> 0 then dw0 OR XHCI_SLOT_HUB else dw0)
      in dw0 OR (push_bit 27 (SlContextEntries p) AND XHCI_SLOT_ENTRIES_MASK))"

definition slot_dw1 :: "xhci_slot_params \<Rightarrow> ulong" where
  "slot_dw1 p =
     (SlMaxExitLatency p AND XHCI_SLOT_MAX_EXIT_MASK) OR push_bit 16 (SlRootHubPort p) OR
     push_bit 24 (SlNumberOfPorts p)"

definition slot_dw2 :: "xhci_slot_params \<Rightarrow> ulong" where
  "slot_dw2 p =
     push_bit 0 (SlParentSlotId p) OR push_bit 8 (SlParentPortNumber p) OR
     push_bit 16 (SlTtThinkTime p) OR push_bit 22 (SlInterrupterTarget p)"

definition XhciBuildSlotContext ::
    "ulong list option \<Rightarrow> xhci_slot_params option \<Rightarrow> ctx_status \<times> ulong list option" where
  "XhciBuildSlotContext context params =
     (case (context, params) of
        (Some c, Some p) \<Rightarrow>
          if slot_params_refused p then (XHCI_CTX_BAD_PARAM, context)
          else
            let c = ctx_clear c;
                c = xhciCtxStore c 0 (slot_dw0 p);
                c = xhciCtxStore c 1 (slot_dw1 p);
                c = xhciCtxStore c 2 (slot_dw2 p)
            in (XHCI_CTX_OK, Some c)
      | _ \<Rightarrow> (XHCI_CTX_BAD_PARAM, context))"

text \<open>The refusals of the endpoint encoder, in the order of the code.\<close>

definition ep_params_refused :: "xhci_ep_params \<Rightarrow> bool" where
  "ep_params_refused p \<longleftrightarrow>
     EpType p = XHCI_EP_TYPE_INVALID \<or> EpType p > 0x07 \<or>
     EpMaxPacketSize p > 0xFFFF \<or>
     EpMaxPacketSize p = 0 \<and> EpType p \<noteq> XHCI_EP_TYPE_ISOCH_IN \<and> EpType p \<noteq> XHCI_EP_TYPE_ISOCH_OUT \<or>
     EpMaxBurstSize p > 0xFF \<or> EpMult p > 0x03 \<or> EpInterval p > 0xFF \<or> EpErrorCount p > 0x03 \<or>
     EpDequeuePA p = 0 \<or> EpDequeuePA p AND 0x0F \<noteq> 0 \<or>
     EpDcs p > 1 \<or>
     EpAverageTrbLength p = 0 \<or> EpAverageTrbLength p > XHCI_EP_AVG_TRB_MASK \<or>
     EpMaxEsitPayload p > XHCI_EP_MAX_ESIT_LIMIT \<or>
     (if EpType p = XHCI_EP_TYPE_ISOCH_IN \<or> EpType p = XHCI_EP_TYPE_ISOCH_OUT
      then EpErrorCount p \<noteq> 0 else EpErrorCount p = 0)"

definition ep_dw0 :: "xhci_ep_params \<Rightarrow> ulong" where
  "ep_dw0 p = push_bit 8 (EpMult p) OR push_bit 16 (EpInterval p) OR push_bit 24 (drop_bit 16 (EpMaxEsitPayload p))"

definition ep_dw1 :: "xhci_ep_params \<Rightarrow> ulong" where
  "ep_dw1 p =
     push_bit 1 (EpErrorCount p) OR push_bit 3 (EpType p) OR push_bit 8 (EpMaxBurstSize p) OR
     push_bit 16 (EpMaxPacketSize p)"

definition ep_dw2 :: "xhci_ep_params \<Rightarrow> ulong" where
  "ep_dw2 p =
     (let dw2 = EpDequeuePA p AND XHCI_EP_DEQUEUE_MASK
      in if EpDcs p \<noteq> 0 then dw2 OR XHCI_EP_DCS else dw2)"

definition ep_dw4 :: "xhci_ep_params \<Rightarrow> ulong" where
  "ep_dw4 p = (EpAverageTrbLength p AND XHCI_EP_AVG_TRB_MASK) OR push_bit 16 (EpMaxEsitPayload p AND 0xFFFF)"

definition XhciBuildEndpointContext ::
    "ulong list option \<Rightarrow> xhci_ep_params option \<Rightarrow> ctx_status \<times> ulong list option" where
  "XhciBuildEndpointContext context params =
     (case (context, params) of
        (Some c, Some p) \<Rightarrow>
          if ep_params_refused p then (XHCI_CTX_BAD_PARAM, context)
          else
            let c = ctx_clear c;
                c = xhciCtxStore c 0 (ep_dw0 p);
                c = xhciCtxStore c 1 (ep_dw1 p);
                c = xhciCtxStore c 2 (ep_dw2 p);
                c = xhciCtxStore c 3 0;
                c = xhciCtxStore c 4 (ep_dw4 p)
            in (XHCI_CTX_OK, Some c)
      | _ \<Rightarrow> (XHCI_CTX_BAD_PARAM, context))"

definition XhciBuildEp0Params ::
    "ulong \<Rightarrow> ulong \<Rightarrow> ulong \<Rightarrow> xhci_ep_params option \<Rightarrow> ctx_status \<times> xhci_ep_params option" where
  "XhciBuildEp0Params maxPacketSize dequeuePA dcs params =
     (case params of
        None \<Rightarrow> (XHCI_CTX_BAD_PARAM, params)
      | Some p \<Rightarrow>
          if \<not> XHCI_EP0_MPS_IS_LEGAL maxPacketSize then (XHCI_CTX_BAD_PARAM, params)
          else (XHCI_CTX_OK, Some (p\<lparr>EpType := XHCI_EP_TYPE_CONTROL, EpMaxPacketSize := maxPacketSize,
                 EpMaxBurstSize := 0, EpMult := 0, EpInterval := 0, EpErrorCount := XHCI_EP_CERR_DEFAULT,
                 EpDequeuePA := dequeuePA, EpDcs := dcs, EpAverageTrbLength := XHCI_EP_AVG_TRB_CONTROL,
                 EpMaxEsitPayload := 0\<rparr>)))"

section \<open>Intervals\<close>

text \<open>
  The loop \<open>while ((period & 1) == 0)\<close>: it does not end on 0, so not returning is \<open>None\<close>. An interval
  that is written is the second component of a result.
\<close>

partial_function (option) period_loop :: "ulong \<Rightarrow> ulong \<Rightarrow> ulong option" where
  "period_loop period log2 =
     (if period AND 1 = 0 then period_loop (drop_bit 1 period) (log2 + 1) else Some log2)"

definition XhciIntervalFromPeriod :: "ulong \<Rightarrow> ulong \<Rightarrow> (ctx_status \<times> ulong option) option" where
  "XhciIntervalFromPeriod period speedClass =
     (if period = 0 \<or> period > 32 \<or> period AND (period - 1) \<noteq> 0 then Some (XHCI_CTX_BAD_PARAM, None)
      else
        case (if speedClass = XHCI_SPEED_HIGH then Some 0
              else if speedClass = XHCI_SPEED_FULL then Some 3
              else if speedClass = XHCI_SPEED_LOW then Some 3
              else None) of
          None \<Rightarrow> Some (XHCI_CTX_BAD_PARAM, None)
        | Some shift \<Rightarrow>
            (case period_loop period 0 of
               None \<Rightarrow> None
             | Some log2 \<Rightarrow> Some (XHCI_CTX_OK, Some (log2 + shift))))"

text \<open>The result: status, \<open>*out\<close> when written, \<open>*floored\<close>.\<close>

definition XhciIntervalForSpeed :: "ulong \<Rightarrow> ulong \<Rightarrow> ctx_status \<times> ulong option \<times> bool" where
  "XhciIntervalForSpeed interval deviceSpeedClass =
     (if deviceSpeedClass = XHCI_SPEED_FULL \<or> deviceSpeedClass = XHCI_SPEED_LOW then
        if interval > XHCI_EP_INTERVAL_FSLS_MAX then (XHCI_CTX_BAD_PARAM, None, False)
        else if interval < XHCI_EP_INTERVAL_FSLS_MIN
             then (XHCI_CTX_OK, Some XHCI_EP_INTERVAL_FSLS_MIN, True)
        else (XHCI_CTX_OK, Some interval, False)
      else if deviceSpeedClass = XHCI_SPEED_HIGH then
        if interval > XHCI_EP_INTERVAL_HS_MAX then (XHCI_CTX_BAD_PARAM, None, False)
        else (XHCI_CTX_OK, Some interval, False)
      else (XHCI_CTX_BAD_PARAM, None, False))"

definition XhciIsochIntervalFromBInterval :: "ulong \<Rightarrow> ulong \<Rightarrow> ctx_status \<times> ulong option" where
  "XhciIsochIntervalFromBInterval bInterval speedClass =
     (if bInterval < XHCI_DESC_BINTERVAL_MIN \<or> bInterval > XHCI_DESC_BINTERVAL_MAX
      then (XHCI_CTX_BAD_PARAM, None)
      else if speedClass = XHCI_SPEED_HIGH then (XHCI_CTX_OK, Some (bInterval - 1))
      else if speedClass = XHCI_SPEED_FULL then (XHCI_CTX_OK, Some (bInterval + 2))
      else (XHCI_CTX_BAD_PARAM, None))"

section \<open>Device context indices\<close>

definition XhciDciFromEndpointAddress :: "ulong \<Rightarrow> ulong" where
  "XhciDciFromEndpointAddress endpointAddress =
     (let number = endpointAddress AND 0x0F
      in if number = 0 then 1
         else if endpointAddress AND 0x80 \<noteq> 0 then 2 * number + 1 else 2 * number)"

definition XhciEndpointAddressFromDci :: "ulong \<Rightarrow> ulong" where
  "XhciEndpointAddressFromDci dci =
     (if dci < 2 \<or> dci > CTX_MAX_DCI then 0
      else if dci AND 1 \<noteq> 0 then ((dci - 1) div 2) OR 0x80 else dci div 2)"

section \<open>Endpoint parameters\<close>

text \<open>The stores into \<open>params\<close> before the switch.\<close>

definition ep_params_common :: "xhci_ep_params \<Rightarrow> ulong \<Rightarrow> ulong \<Rightarrow> ulong \<Rightarrow> xhci_ep_params" where
  "ep_params_common p maxPacketSize dequeuePA dcs =
     p\<lparr>EpMaxPacketSize := maxPacketSize, EpMaxBurstSize := 0, EpMult := 0, EpDequeuePA := dequeuePA,
       EpDcs := dcs, EpErrorCount := XHCI_EP_CERR_DEFAULT, EpInterval := 0, EpMaxEsitPayload := 0,
       EpAverageTrbLength := maxPacketSize\<rparr>"

text \<open>
  Each case of the switch yields the status, the parameters as far as they were written, and the flags
  \<open>*intervalFloored\<close> and \<open>*intervalDerived\<close>; \<open>None\<close> would be a conversion that does not return.
\<close>

type_synonym ep_result = "ctx_status \<times> xhci_ep_params option \<times> bool \<times> bool"

definition ep_params_interrupt ::
    "xhci_ep_params \<Rightarrow> ulong \<Rightarrow> ulong \<Rightarrow> ulong \<Rightarrow> ulong \<Rightarrow> ulong \<Rightarrow> ulong \<Rightarrow> ep_result option" where
  "ep_params_interrupt p directionIn maxPacketSize period periodSpeedClass deviceSpeedClass
       transactionsPerMicroframe =
     (let p = p\<lparr>EpType := if directionIn \<noteq> 0 then XHCI_EP_TYPE_INTERRUPT_IN else XHCI_EP_TYPE_INTERRUPT_OUT\<rparr>
      in case XhciIntervalFromPeriod period periodSpeedClass of
           None \<Rightarrow> None
         | Some (status, interval) \<Rightarrow>
             if status \<noteq> XHCI_CTX_OK then Some (status, Some p, False, False)
             else
               let (status, interval, floored) = XhciIntervalForSpeed (the interval) deviceSpeedClass
               in if status \<noteq> XHCI_CTX_OK then Some (status, Some p, False, False)
                  else
                    let p = p\<lparr>EpInterval := the interval\<rparr>
                    in if deviceSpeedClass \<noteq> XHCI_SPEED_HIGH \<and> transactionsPerMicroframe \<noteq> 1
                       then Some (XHCI_CTX_BAD_PARAM, Some p, floored, False)
                       else
                         let p = (if deviceSpeedClass = XHCI_SPEED_HIGH
                                  then p\<lparr>EpMaxBurstSize := transactionsPerMicroframe - 1\<rparr> else p)
                         in Some (XHCI_CTX_OK,
                              Some (p\<lparr>EpMaxEsitPayload := maxPacketSize * (EpMaxBurstSize p + 1)\<rparr>),
                              floored, False))"

definition ep_params_bulk :: "xhci_ep_params \<Rightarrow> ulong \<Rightarrow> ulong \<Rightarrow> ep_result" where
  "ep_params_bulk p directionIn transactionsPerMicroframe =
     (let p = p\<lparr>EpType := if directionIn \<noteq> 0 then XHCI_EP_TYPE_BULK_IN else XHCI_EP_TYPE_BULK_OUT\<rparr>
      in if transactionsPerMicroframe \<noteq> 1 then (XHCI_CTX_BAD_PARAM, Some p, False, False)
         else (XHCI_CTX_OK, Some p, False, False))"

definition ep_params_isoch ::
    "xhci_ep_params \<Rightarrow> ulong \<Rightarrow> ulong \<Rightarrow> ulong \<Rightarrow> ulong \<Rightarrow> ulong \<Rightarrow> ep_result" where
  "ep_params_isoch p directionIn maxPacketSize deviceSpeedClass transactionsPerMicroframe descBInterval =
     (let p = p\<lparr>EpType := if directionIn \<noteq> 0 then XHCI_EP_TYPE_ISOCH_IN else XHCI_EP_TYPE_ISOCH_OUT,
                EpErrorCount := 0\<rparr>;
          (ok, p) =
            (if deviceSpeedClass = XHCI_SPEED_HIGH then
               (True, p\<lparr>EpInterval := XHCI_EP_INTERVAL_ISOCH_HS, EpMaxBurstSize := transactionsPerMicroframe - 1\<rparr>)
             else if deviceSpeedClass = XHCI_SPEED_FULL then
               (transactionsPerMicroframe = 1, p\<lparr>EpInterval := XHCI_EP_INTERVAL_ISOCH_FS\<rparr>)
             else (False, p))
      in if \<not> ok then (XHCI_CTX_BAD_PARAM, Some p, False, False)
         else
           let (status, p, derived) =
                 (if descBInterval \<noteq> 0 then
                    let (status, interval) = XhciIsochIntervalFromBInterval descBInterval deviceSpeedClass
                    in if status \<noteq> XHCI_CTX_OK then (status, p, False)
                       else (XHCI_CTX_OK, p\<lparr>EpInterval := the interval\<rparr>, True)
                  else (XHCI_CTX_OK, p, False))
           in if status \<noteq> XHCI_CTX_OK then (status, Some p, False, derived)
              else (XHCI_CTX_OK,
                    Some (p\<lparr>EpMaxEsitPayload := maxPacketSize * (EpMaxBurstSize p + 1) * (EpMult p + 1),
                            EpAverageTrbLength := maxPacketSize\<rparr>), False, derived))"

definition XhciBuildEndpointParams ::
    "ulong \<Rightarrow> ulong \<Rightarrow> ulong \<Rightarrow> ulong \<Rightarrow> ulong \<Rightarrow> ulong \<Rightarrow> ulong \<Rightarrow> ulong \<Rightarrow> ulong \<Rightarrow> ulong \<Rightarrow>
     xhci_ep_params option \<Rightarrow> ep_result option" where
  "XhciBuildEndpointParams transferType directionIn maxPacketSize period periodSpeedClass deviceSpeedClass
       transactionsPerMicroframe descBInterval dequeuePA dcs params =
     (case params of
        None \<Rightarrow> Some (XHCI_CTX_BAD_PARAM, None, False, False)
      | Some p \<Rightarrow>
          if transactionsPerMicroframe = 0 \<or> transactionsPerMicroframe > 3
          then Some (XHCI_CTX_BAD_PARAM, params, False, False)
          else if maxPacketSize = 0 \<or> maxPacketSize > 0x7FF
          then Some (XHCI_CTX_BAD_PARAM, params, False, False)
          else
            let p = ep_params_common p maxPacketSize dequeuePA dcs
            in if transferType = USBPORT_TRANSFER_TYPE_INTERRUPT then
                 ep_params_interrupt p directionIn maxPacketSize period periodSpeedClass deviceSpeedClass
                   transactionsPerMicroframe
               else if transferType = USBPORT_TRANSFER_TYPE_BULK then
                 Some (ep_params_bulk p directionIn transactionsPerMicroframe)
               else if transferType = USBPORT_TRANSFER_TYPE_ISOCHRONOUS then
                 Some (ep_params_isoch p directionIn maxPacketSize deviceSpeedClass transactionsPerMicroframe
                         descBInterval)
               else Some (XHCI_CTX_BAD_PARAM, Some p, False, False))"

definition XhciInitialMps0 :: "ulong \<Rightarrow> ulong" where
  "XhciInitialMps0 speedClass =
     (if speedClass = XHCI_SPEED_SUPER then XHCI_EP0_MPS_SUPER
      else if speedClass = XHCI_SPEED_LOW then XHCI_EP0_MPS_LOW
      else if speedClass = XHCI_SPEED_FULL then XHCI_EP0_MPS_FULL_INITIAL
      else if speedClass = XHCI_SPEED_HIGH then XHCI_EP0_MPS_HIGH
      else 0)"

end
