(* ===== verification/Xhci_Ctx_Props.thy ===== *)
theory Xhci_Ctx_Props
  imports Xhci_Ctx
begin

text \<open>
  Properties of the context encoders: what the controller reads back from an encoded context, that
  every parameter set the driver derives is one the encoder accepts, and the exactness of the
  interval and index conversions.
\<close>

section \<open>Fields of a word\<close>

text \<open>The \<open>w\<close> bits of a word from bit \<open>s\<close> up, as the register tables give them.\<close>

definition ctx_field :: "ulong \<Rightarrow> nat \<Rightarrow> nat \<Rightarrow> ulong" where
  "ctx_field dw s w = take_bit w (drop_bit s dw)"

named_theorems ctx_fields \<open>decoding of the fields of an encoded context word\<close>

lemma ctx_field_or [ctx_fields]: "ctx_field (a OR b) s w = ctx_field a s w OR ctx_field b s w"
  by (simp add: ctx_field_def)

lemma bit_ctx_field: "bit (ctx_field dw s w) n \<longleftrightarrow> n < w \<and> bit dw (s + n)"
  by (simp add: ctx_field_def bit_take_bit_iff bit_drop_bit_eq)

definition fits :: "nat \<Rightarrow> ulong \<Rightarrow> bool" where
  "fits w x \<longleftrightarrow> unat x < 2 ^ w"

lemma fits_take_bit: "fits w x \<Longrightarrow> take_bit w x = x"
  by (simp add: fits_def unat_eq_iff [symmetric] unsigned_take_bit_eq take_bit_nat_eq_self)

lemma fits_bit: "fits w x \<Longrightarrow> bit x n \<Longrightarrow> n < w"
  using fits_take_bit [of w x] by (metis bit_take_bit_iff)

lemma field_push_hit: "fits w x \<Longrightarrow> s + w \<le> 32 \<Longrightarrow> ctx_field (push_bit s x) s w = x"
  by (rule bit_eqI) (auto simp: bit_ctx_field bit_push_bit_iff possible_bit_word dest: fits_bit)

lemma field_push_above: "s + w \<le> t \<Longrightarrow> ctx_field (push_bit t x) s w = 0"
  by (rule bit_eqI) (auto simp: bit_ctx_field bit_push_bit_iff)

lemma field_push_below: "fits v x \<Longrightarrow> t + v \<le> s \<Longrightarrow> ctx_field (push_bit t x) s w = 0"
  by (rule bit_eqI) (auto simp: bit_ctx_field bit_push_bit_iff dest: fits_bit)

lemma field_self: "fits w x \<Longrightarrow> ctx_field x 0 w = x"
  by (simp add: ctx_field_def fits_take_bit)

lemma field_low: "fits v x \<Longrightarrow> v \<le> s \<Longrightarrow> ctx_field x s w = 0"
  using field_push_below [of v x 0 s w] by simp

lemma fits_and_mask: "fits w x \<Longrightarrow> x AND mask w = x"
  by (simp add: fits_take_bit flip: take_bit_eq_mask)

lemma fits_shift_mask: "fits w x \<Longrightarrow> push_bit s x AND push_bit s (mask w) = push_bit s x"
  by (simp add: fits_and_mask flip: push_bit_and)

lemma not_gt_fits: "\<not> x > y \<Longrightarrow> unat y < 2 ^ w \<Longrightarrow> fits w x"
  by (simp add: fits_def word_less_nat_alt)

section \<open>Storing a context\<close>

lemma ctx_clear_eq:
  assumes "8 \<le> length c"
  shows "ctx_clear c = replicate 8 0 @ drop 8 c"
  using list_update_upto [of 8 c 0] assms by (simp add: ctx_clear_def xhciCtxStore_def)

lemma replicate_8: "replicate 8 z = [z, z, z, z, z, z, z, z]"
  by (simp add: numeral_eq_Suc)

lemma slot_stores:
  assumes "8 \<le> length c"
  shows "xhciCtxStore (xhciCtxStore (xhciCtxStore (ctx_clear c) 0 a) 1 b) 2 d =
     [a, b, d, 0, 0, 0, 0, 0] @ drop 8 c"
  by (simp add: ctx_clear_eq [OF assms] xhciCtxStore_def replicate_8 numeral_eq_Suc)

lemma ep_stores:
  assumes "8 \<le> length c"
  shows "xhciCtxStore (xhciCtxStore (xhciCtxStore (xhciCtxStore (xhciCtxStore (ctx_clear c) 0 a) 1 b) 2 d) 3 0) 4 e =
     [a, b, d, 0, e, 0, 0, 0] @ drop 8 c"
  by (simp add: ctx_clear_eq [OF assms] xhciCtxStore_def replicate_8 numeral_eq_Suc)

section \<open>The slot context\<close>

lemma slot_fits:
  assumes "\<not> slot_params_refused p"
  shows "fits 20 (SlRouteString p)" "fits 4 (SlPsiv p)" "fits 8 (SlRootHubPort p)" "fits 5 (SlContextEntries p)"
    "fits 16 (SlMaxExitLatency p)" "fits 8 (SlNumberOfPorts p)" "fits 8 (SlParentSlotId p)"
    "fits 8 (SlParentPortNumber p)" "fits 2 (SlTtThinkTime p)" "fits 10 (SlInterrupterTarget p)"
  using assms unfolding slot_params_refused_def by (simp_all add: fits_def word_less_nat_alt)

lemma slot_dw0_eq:
  assumes "\<not> slot_params_refused p"
  shows "slot_dw0 p = SlRouteString p OR push_bit 20 (SlPsiv p) OR push_bit 25 (of_bool (SlMultiTt p \<noteq> 0)) OR
     push_bit 26 (of_bool (SlHub p \<noteq> 0)) OR push_bit 27 (SlContextEntries p)"
proof -
  note f = slot_fits [OF assms]
  have "SlRouteString p AND 0xFFFFF = SlRouteString p"
    using fits_and_mask [OF f(1)] by (simp add: mask_eq_exp_minus_1)
  moreover have "push_bit 20 (SlPsiv p) AND 0xF00000 = push_bit 20 (SlPsiv p)"
    using fits_shift_mask [OF f(2), of 20] by (simp add: mask_eq_exp_minus_1 push_bit_eq_mult)
  moreover have "push_bit 27 (SlContextEntries p) AND 0xF8000000 = push_bit 27 (SlContextEntries p)"
    using fits_shift_mask [OF f(4), of 27] by (simp add: mask_eq_exp_minus_1 push_bit_eq_mult)
  ultimately show ?thesis
    by (simp add: slot_dw0_def Let_def push_bit_eq_mult or.assoc)
qed

lemma fits_of_bool [simp]: "fits 1 (of_bool b)"
  by (cases b) (simp_all add: fits_def)

lemma slot_dw0_fields:
  assumes "\<not> slot_params_refused p"
  shows "ctx_field (slot_dw0 p) 0 20 = SlRouteString p" "ctx_field (slot_dw0 p) 20 4 = SlPsiv p"
    "ctx_field (slot_dw0 p) 25 1 = of_bool (SlMultiTt p \<noteq> 0)" "ctx_field (slot_dw0 p) 26 1 = of_bool (SlHub p \<noteq> 0)"
    "ctx_field (slot_dw0 p) 27 5 = SlContextEntries p" "ctx_field (slot_dw0 p) 24 1 = 0"
  using slot_fits [OF assms] fits_of_bool unfolding slot_dw0_eq [OF assms]
  by (simp_all add: ctx_fields field_push_hit field_push_above field_self field_low
        field_push_below [of 4] field_push_below [of 1])

lemma slot_dw1_fields:
  assumes "\<not> slot_params_refused p"
  shows "ctx_field (slot_dw1 p) 0 16 = SlMaxExitLatency p" "ctx_field (slot_dw1 p) 16 8 = SlRootHubPort p"
    "ctx_field (slot_dw1 p) 24 8 = SlNumberOfPorts p"
proof -
  note f = slot_fits [OF assms]
  have "SlMaxExitLatency p AND 0xFFFF = SlMaxExitLatency p"
    using fits_and_mask [OF f(5)] by (simp add: mask_eq_exp_minus_1)
  then show "ctx_field (slot_dw1 p) 0 16 = SlMaxExitLatency p" "ctx_field (slot_dw1 p) 16 8 = SlRootHubPort p"
      "ctx_field (slot_dw1 p) 24 8 = SlNumberOfPorts p"
    using f by (simp_all add: slot_dw1_def ctx_fields field_push_hit field_push_above field_self field_low [of 16]
        field_push_below [of 8])
qed

lemma slot_dw2_fields:
  assumes "\<not> slot_params_refused p"
  shows "ctx_field (slot_dw2 p) 0 8 = SlParentSlotId p" "ctx_field (slot_dw2 p) 8 8 = SlParentPortNumber p"
    "ctx_field (slot_dw2 p) 16 2 = SlTtThinkTime p" "ctx_field (slot_dw2 p) 22 10 = SlInterrupterTarget p"
    "ctx_field (slot_dw2 p) 18 4 = 0"
  using slot_fits [OF assms]
  by (simp_all add: slot_dw2_def ctx_fields field_push_hit field_push_above field_self field_low [of 8]
        field_push_below [of 8] field_push_below [of 2])

section \<open>The endpoint context\<close>

lemma ep_fits:
  assumes "\<not> ep_params_refused p"
  shows "fits 3 (EpType p)" "fits 16 (EpMaxPacketSize p)" "fits 8 (EpMaxBurstSize p)" "fits 2 (EpMult p)"
    "fits 8 (EpInterval p)" "fits 2 (EpErrorCount p)" "fits 1 (EpDcs p)" "fits 16 (EpAverageTrbLength p)"
    "fits 24 (EpMaxEsitPayload p)"
  using assms unfolding ep_params_refused_def by (simp_all add: fits_def word_less_nat_alt)

lemma fits_drop: "fits (s + w) x \<Longrightarrow> fits w (drop_bit s x)"
  by (simp add: fits_def unsigned_drop_bit_eq drop_bit_nat_def less_mult_imp_div_less power_add mult.commute
        take_bit_nat_eq_self)

lemma fits_take: "fits w (take_bit w x)"
  by (simp add: fits_def unsigned_take_bit_eq take_bit_nat_less_exp)

lemma ep_dw0_fields:
  assumes "\<not> ep_params_refused p"
  shows "ctx_field (ep_dw0 p) 8 2 = EpMult p" "ctx_field (ep_dw0 p) 16 8 = EpInterval p"
    "ctx_field (ep_dw0 p) 24 8 = drop_bit 16 (EpMaxEsitPayload p)" "ctx_field (ep_dw0 p) 0 8 = 0"
    "ctx_field (ep_dw0 p) 10 6 = 0"
  using ep_fits [OF assms] fits_drop [of 16 8 "EpMaxEsitPayload p"]
  by (simp_all add: ep_dw0_def ctx_fields field_push_hit field_push_above field_push_below [of 8] field_push_below [of 2])

lemma ep_dw1_fields:
  assumes "\<not> ep_params_refused p"
  shows "ctx_field (ep_dw1 p) 1 2 = EpErrorCount p" "ctx_field (ep_dw1 p) 3 3 = EpType p"
    "ctx_field (ep_dw1 p) 8 8 = EpMaxBurstSize p" "ctx_field (ep_dw1 p) 16 16 = EpMaxPacketSize p"
    "ctx_field (ep_dw1 p) 0 1 = 0" "ctx_field (ep_dw1 p) 6 2 = 0"
  using ep_fits [OF assms]
  by (simp_all add: ep_dw1_def ctx_fields field_push_hit field_push_above field_push_below [of 8]
        field_push_below [of 2] field_push_below [of 3] del: One_nat_def)

lemma aligned_mask:
  assumes "(x :: ulong) AND 0x0F = 0"
  shows "x AND 0xFFFFFFF0 = x"
proof -
  have n: "(0xFFFFFFF0 :: ulong) = NOT 0x0F"
    by simp
  have "bit (x AND NOT 0x0F) k = bit x k" for k
    unfolding bit_and_iff bit_not_iff bit_mask_15 possible_bit_word
    using assms [unfolded low_nibble_clear] bit_imp_le_length [of x k] by auto
  then show ?thesis
    unfolding n by (intro bit_eqI)
qed

lemma ep_dw2_fields:
  assumes "\<not> ep_params_refused p"
  shows "ctx_field (ep_dw2 p) 0 1 = EpDcs p" "ep_dw2 p AND XHCI_EP_DEQUEUE_MASK = EpDequeuePA p"
    "ctx_field (ep_dw2 p) 1 3 = 0"
proof -
  have al: "EpDequeuePA p AND 15 = 0"
    using assms by (auto simp: ep_params_refused_def)
  have m: "EpDequeuePA p AND 0xFFFFFFF0 = EpDequeuePA p"
    using aligned_mask [OF al] .
  have d: "EpDcs p = 0 \<or> EpDcs p = 1"
    using assms by (auto simp: ep_params_refused_def not_less word_le_nat_alt unat_eq_iff [symmetric] le_Suc_eq)
  have eq: "ep_dw2 p = EpDequeuePA p OR EpDcs p"
    using m d by (auto simp: ep_dw2_def Let_def)
  have low: "\<And>n. n < 4 \<Longrightarrow> \<not> bit (EpDequeuePA p) n"
    using al by (simp add: low_nibble_clear)
  have "ctx_field (EpDequeuePA p) 0 1 = 0" "ctx_field (EpDequeuePA p) 1 3 = 0"
    using low by (auto intro!: bit_eqI simp: bit_ctx_field)
  then show "ctx_field (ep_dw2 p) 0 1 = EpDcs p" "ctx_field (ep_dw2 p) 1 3 = 0"
    using ep_fits(7) [OF assms] by (simp_all add: eq ctx_fields field_self field_low [of 1])
  have "EpDcs p AND 0xFFFFFFF0 = 0"
    using d by auto
  then show "ep_dw2 p AND XHCI_EP_DEQUEUE_MASK = EpDequeuePA p"
    using m by (simp add: eq bit.conj_disj_distrib2)
qed

lemma ep_dw4_fields:
  assumes "\<not> ep_params_refused p"
  shows "ctx_field (ep_dw4 p) 0 16 = EpAverageTrbLength p" "ctx_field (ep_dw4 p) 16 16 = take_bit 16 (EpMaxEsitPayload p)"
proof -
  note f = ep_fits [OF assms]
  have m: "(0xFFFF :: ulong) = mask 16"
    by (simp add: mask_eq_exp_minus_1)
  have "ep_dw4 p = EpAverageTrbLength p OR push_bit 16 (take_bit 16 (EpMaxEsitPayload p))"
    unfolding ep_dw4_def m fits_and_mask [OF f(8)] by (simp add: take_bit_eq_mask)
  then show "ctx_field (ep_dw4 p) 0 16 = EpAverageTrbLength p"
      "ctx_field (ep_dw4 p) 16 16 = take_bit 16 (EpMaxEsitPayload p)"
    using f by (simp_all add: ctx_fields field_push_hit field_push_above field_self field_low [of 16] fits_take)
qed

section \<open>Periods\<close>

lemma period_accepted:
  "\<not> (p = 0 \<or> p > 32 \<or> p AND (p - 1) \<noteq> 0) \<longleftrightarrow> p \<in> {1, 2, 4, 8, 16, 32}" for p :: ulong
proof (cases "p > 32")
  case True
  then show ?thesis by auto
next
  case False
  have all: "list_all (\<lambda>n. (\<not> (of_nat n = (0 :: ulong) \<or> of_nat n AND (of_nat n - 1) \<noteq> (0 :: ulong))) =
      ((of_nat n :: ulong) \<in> {1, 2, 4, 8, 16, 32})) [0..<33]"
    by code_simp
  have "unat p < 33"
    using False by (simp add: word_less_nat_alt)
  then show ?thesis
    using list_all_upt [OF all, of "unat p"] False by simp
qed

lemma period_powers: "(\<exists>k\<le>5. p = 2 ^ k) \<longleftrightarrow> p \<in> {1, 2, 4, 8, 16, 32}" for p :: ulong
proof -
  have "k \<le> 5 \<longleftrightarrow> k = 0 \<or> k = 1 \<or> k = 2 \<or> k = 3 \<or> k = 4 \<or> k = 5" for k :: nat
    by arith
  then show ?thesis
    by (simp only: conj_disj_distribR ex_disj_distrib) simp
qed

lemma period_loop_pow:
  assumes "k \<le> 5"
  shows "period_loop (2 ^ k) n = Some (n + of_nat k)"
  using assms
proof (induction k arbitrary: n)
  case 0
  then show ?case by (subst period_loop.simps) simp
next
  case (Suc k)
  have "\<not> bit ((2 :: ulong) ^ Suc k) 0"
    by (simp add: bit_exp_iff del: power_Suc)
  moreover have "drop_bit 1 ((2 :: ulong) ^ Suc k) = 2 ^ k"
    using Suc.prems by (intro bit_eqI) (auto simp: bit_drop_bit_eq bit_exp_iff possible_bit_word simp del: power_Suc)
  ultimately show ?case
    using Suc by (subst period_loop.simps) (simp del: power_Suc add: algebra_simps)
qed

definition usb2_speed :: "ulong \<Rightarrow> bool" where
  "usb2_speed sc \<longleftrightarrow> sc = XHCI_SPEED_LOW \<or> sc = XHCI_SPEED_FULL \<or> sc = XHCI_SPEED_HIGH"

lemma interval_from_period:
  assumes "k \<le> 5" and "usb2_speed sc"
  shows "XhciIntervalFromPeriod (2 ^ k) sc =
     Some (XHCI_CTX_OK, Some (of_nat k + (if sc = XHCI_SPEED_HIGH then 0 else 3)))"
proof -
  have "\<not> ((2 ^ k :: ulong) = 0 \<or> (2 ^ k :: ulong) > 32 \<or> (2 ^ k :: ulong) AND (2 ^ k - 1) \<noteq> 0)"
    unfolding period_accepted period_powers [symmetric] using assms(1) by blast
  then show ?thesis
    using assms(2) period_loop_pow [OF assms(1), of 0]
    by (auto simp: XhciIntervalFromPeriod_def usb2_speed_def)
qed

lemma interval_from_period_refused:
  assumes "\<not> (\<exists>k\<le>5. p = 2 ^ k) \<or> \<not> usb2_speed sc"
  shows "XhciIntervalFromPeriod p sc = Some (XHCI_CTX_BAD_PARAM, None)"
proof -
  have "p = 0 \<or> p > 32 \<or> p AND (p - 1) \<noteq> 0 \<or> \<not> usb2_speed sc"
    using assms period_accepted [of p] period_powers [of p] by blast
  then show ?thesis
    unfolding XhciIntervalFromPeriod_def usb2_speed_def by auto
qed

lemma interval_from_period_cases:
  obtains (refused) "XhciIntervalFromPeriod p sc = Some (XHCI_CTX_BAD_PARAM, None)"
    | (accepted) k where "k \<le> 5" "p = 2 ^ k" "usb2_speed sc"
        "XhciIntervalFromPeriod p sc = Some (XHCI_CTX_OK, Some (of_nat k + (if sc = XHCI_SPEED_HIGH then 0 else 3)))"
  using interval_from_period_refused [of p sc] interval_from_period [of _ sc] by metis

section \<open>Endpoint parameters\<close>

text \<open>The intervals Table 6-12 of the specification allows an endpoint of a type and speed.\<close>

definition interval_legal :: "ulong \<Rightarrow> ulong \<Rightarrow> ulong \<Rightarrow> bool" where
  "interval_legal type speed i \<longleftrightarrow>
     (if type = XHCI_EP_TYPE_BULK_IN \<or> type = XHCI_EP_TYPE_BULK_OUT then i = 0
      else if speed = XHCI_SPEED_HIGH then i \<le> 15
      else if type = XHCI_EP_TYPE_INTERRUPT_IN \<or> type = XHCI_EP_TYPE_INTERRUPT_OUT
      then (speed = XHCI_SPEED_FULL \<or> speed = XHCI_SPEED_LOW) \<and> 3 \<le> i \<and> i \<le> 10
      else (type = XHCI_EP_TYPE_ISOCH_IN \<or> type = XHCI_EP_TYPE_ISOCH_OUT) \<and> speed = XHCI_SPEED_FULL \<and> 3 \<le> i \<and> i \<le> 18)"

lemma interval_for_speed_ok:
  assumes "XhciIntervalForSpeed i sp = (XHCI_CTX_OK, r, fl)"
  shows "\<exists>v. r = Some v \<and> (if sp = XHCI_SPEED_HIGH then v \<le> 15
     else (sp = XHCI_SPEED_FULL \<or> sp = XHCI_SPEED_LOW) \<and> 3 \<le> v \<and> v \<le> 10)"
  using assms by (auto simp: XhciIntervalForSpeed_def not_less split: if_splits)

lemma isoch_interval_ok:
  assumes "XhciIsochIntervalFromBInterval b sp = (XHCI_CTX_OK, r)"
  shows "\<exists>v. r = Some v \<and> 1 \<le> b \<and> b \<le> 16 \<and>
     (sp = XHCI_SPEED_HIGH \<and> v = b - 1 \<and> v \<le> 15 \<or> sp = XHCI_SPEED_FULL \<and> v = b + 2 \<and> 3 \<le> v \<and> v \<le> 18)"
proof -
  have b: "1 \<le> b" "b \<le> 16"
    using assms by (auto simp: XhciIsochIntervalFromBInterval_def word_less_nat_alt word_le_nat_alt not_less split: if_splits)
  then have n: "1 \<le> unat b" "unat b \<le> 16"
    by (simp_all add: word_le_nat_alt)
  then have "unat (b - 1) = unat b - 1" "unat (b + 2) = unat b + 2"
    by (simp_all add: unat_sub_no_wrap unat_add_no_wrap)
  then have "b - 1 \<le> 15" "3 \<le> b + 2" "b + 2 \<le> 18"
    using n by (simp_all add: word_le_nat_alt)
  then show ?thesis
    using assms b by (auto simp: XhciIsochIntervalFromBInterval_def split: if_splits)
qed

text \<open>What a successful derivation yields, type by type.\<close>

lemma interrupt_params:
  assumes "ep_params_interrupt p dirIn mps period psp dsp tpm = Some (XHCI_CTX_OK, Some q, fl, dv)"
  shows "\<exists>i b. q = p\<lparr>EpType := if dirIn \<noteq> 0 then 7 else 3, EpInterval := i, EpMaxBurstSize := b,
       EpMaxEsitPayload := mps * (b + 1)\<rparr> \<and>
     (if dsp = XHCI_SPEED_HIGH then i \<le> 15 \<and> b = tpm - 1
      else (dsp = XHCI_SPEED_FULL \<or> dsp = XHCI_SPEED_LOW) \<and> 3 \<le> i \<and> i \<le> 10 \<and> tpm = 1 \<and> b = EpMaxBurstSize p)"
proof -
  obtain i where i: "XhciIntervalFromPeriod period psp = Some (XHCI_CTX_OK, Some i)"
    using assms by (cases rule: interval_from_period_cases [of period psp]) (auto simp: ep_params_interrupt_def Let_def)
  obtain st r f where s: "XhciIntervalForSpeed i dsp = (st, r, f)"
    by (cases "XhciIntervalForSpeed i dsp")
  have ok: "st = XHCI_CTX_OK"
    using assms i s by (auto simp: ep_params_interrupt_def Let_def split: if_splits)
  obtain v where v: "r = Some v" "if dsp = XHCI_SPEED_HIGH then v \<le> 15
     else (dsp = XHCI_SPEED_FULL \<or> dsp = XHCI_SPEED_LOW) \<and> 3 \<le> v \<and> v \<le> 10"
    using interval_for_speed_ok s ok by blast
  show ?thesis
    using assms i s ok v
    by (cases p) (auto simp: ep_params_interrupt_def Let_def split: if_splits)
qed

lemma isoch_params:
  assumes "ep_params_isoch p dirIn mps dsp tpm desc = (XHCI_CTX_OK, Some q, fl, dv)"
  shows "\<exists>i b. q = p\<lparr>EpType := if dirIn \<noteq> 0 then 5 else 1, EpErrorCount := 0, EpInterval := i, EpMaxBurstSize := b,
       EpMaxEsitPayload := mps * (b + 1) * (EpMult p + 1), EpAverageTrbLength := mps\<rparr> \<and>
     (dsp = XHCI_SPEED_HIGH \<and> b = tpm - 1 \<and> i \<le> 15 \<and> i = (if desc = 0 then 0 else desc - 1) \<or>
      dsp = XHCI_SPEED_FULL \<and> tpm = 1 \<and> b = EpMaxBurstSize p \<and> 3 \<le> i \<and> i \<le> 18 \<and> i = (if desc = 0 then 3 else desc + 2))"
proof -
  obtain st r where s: "XhciIsochIntervalFromBInterval desc dsp = (st, r)"
    by (cases "XhciIsochIntervalFromBInterval desc dsp")
  have sp: "dsp = XHCI_SPEED_HIGH \<or> dsp = XHCI_SPEED_FULL \<and> tpm = 1"
    using assms by (auto simp: ep_params_isoch_def Let_def split: if_splits)
  show ?thesis
  proof (cases "desc = 0")
    case True
    then show ?thesis
      using assms sp by (cases p) (auto simp: ep_params_isoch_def Let_def)
  next
    case False
    then have "st = XHCI_CTX_OK"
      using assms s sp by (auto simp: ep_params_isoch_def Let_def split: if_splits)
    then obtain v where "r = Some v" "dsp = XHCI_SPEED_HIGH \<and> v = desc - 1 \<and> v \<le> 15 \<or>
        dsp = XHCI_SPEED_FULL \<and> v = desc + 2 \<and> 3 \<le> v \<and> v \<le> 18"
      using isoch_interval_ok s by blast
    then show ?thesis
      using assms sp s False \<open>st = XHCI_CTX_OK\<close> by (cases p) (auto simp: ep_params_isoch_def Let_def)
  qed
qed

lemma burst_bounds:
  fixes tpm mps b :: ulong
  assumes "tpm \<noteq> 0" and "\<not> tpm > 3" and "mps \<noteq> 0" and "\<not> mps > 0x7FF" and "b = 0 \<or> b = tpm - 1"
  shows "\<not> b > 0xFF" and "\<not> mps * (b + 1) > 0xFFFFFF" and "unat (mps * (b + 1)) = unat mps * (unat b + 1)"
proof -
  have "unat tpm \<noteq> 0"
    using assms(1) by (simp add: unsigned_eq_0_iff)
  then have t: "unat tpm \<le> 3" "1 \<le> unat tpm" "unat mps \<le> 2047"
    using assms(2,4) by (simp_all add: word_less_nat_alt not_less)
  then have b: "unat b \<le> 2"
    using assms(5) by (auto simp: unat_sub_no_wrap)
  then have b1: "unat (b + 1) = unat b + 1"
    by (simp add: unat_add_no_wrap)
  have "unat mps * (unat b + 1) \<le> 2047 * 3"
    using t b by (intro mult_le_mono) auto
  then have "unat (mps * (b + 1)) = unat mps * (unat b + 1)" "unat mps * (unat b + 1) \<le> 6141"
    using b1 by (auto simp: unat_mult_no_wrap)
  then show "\<not> b > 0xFF" "\<not> mps * (b + 1) > 0xFFFFFF" "unat (mps * (b + 1)) = unat mps * (unat b + 1)"
    using b by (simp_all add: word_less_nat_alt)
qed

text \<open>The common premises of the three derivations, and what each establishes.\<close>

definition ep_common_ok :: "ulong \<Rightarrow> ulong \<Rightarrow> ulong \<Rightarrow> ulong \<Rightarrow> bool" where
  "ep_common_ok mps tpm dequeuePA dcs \<longleftrightarrow> tpm \<noteq> 0 \<and> \<not> tpm > 3 \<and> mps \<noteq> 0 \<and> \<not> mps > 0x7FF \<and>
     dequeuePA \<noteq> 0 \<and> dequeuePA AND 0x0F = 0 \<and> dcs \<le> 1"

definition ep_params_good :: "ulong \<Rightarrow> xhci_ep_params \<Rightarrow> bool" where
  "ep_params_good dsp r \<longleftrightarrow> \<not> ep_params_refused r \<and> interval_legal (EpType r) dsp (EpInterval r) \<and>
     unat (EpMaxEsitPayload r) =
       (if EpType r = XHCI_EP_TYPE_BULK_IN \<or> EpType r = XHCI_EP_TYPE_BULK_OUT then 0
        else unat (EpMaxPacketSize r) * (unat (EpMaxBurstSize r) + 1))"

lemma ep_common_facts:
  fixes x :: ulong
  assumes "ep_common_ok mps tpm dequeuePA dcs"
  shows "\<not> mps > 0xFFFF" "\<not> dcs > 1" "x \<le> 15 \<or> x \<le> 10 \<or> x \<le> 18 \<Longrightarrow> \<not> x > 0xFF"
  using assms by (auto simp: ep_common_ok_def word_less_nat_alt word_le_nat_alt)

lemma interrupt_good:
  assumes c: "ep_common_ok mps tpm dequeuePA dcs"
    and e: "ep_params_interrupt (ep_params_common p mps dequeuePA dcs) dirIn mps period psp dsp tpm =
      Some (XHCI_CTX_OK, Some r, fl, dv)"
  shows "ep_params_good dsp r"
proof -
  obtain i b where q: "r = (ep_params_common p mps dequeuePA dcs)\<lparr>EpType := if dirIn \<noteq> 0 then 7 else 3,
      EpInterval := i, EpMaxBurstSize := b, EpMaxEsitPayload := mps * (b + 1)\<rparr>"
    and s: "if dsp = XHCI_SPEED_HIGH then i \<le> 15 \<and> b = tpm - 1
      else (dsp = XHCI_SPEED_FULL \<or> dsp = XHCI_SPEED_LOW) \<and> 3 \<le> i \<and> i \<le> 10 \<and> tpm = 1 \<and> b = 0"
    using interrupt_params [OF e] by (auto simp: ep_params_common_def)
  have b: "b = 0 \<or> b = tpm - 1"
    using s by (auto split: if_splits)
  have "\<not> i > 0xFF"
    using s ep_common_facts(3) [OF c, of i] by (auto split: if_splits)
  then show ?thesis
    using c s burst_bounds [OF _ _ _ _ b, of mps] ep_common_facts(1,2) [OF c]
    by (auto simp: q ep_params_good_def ep_params_refused_def ep_params_common_def interval_legal_def ep_common_ok_def)
qed

lemma bulk_good:
  assumes c: "ep_common_ok mps tpm dequeuePA dcs"
    and e: "ep_params_bulk (ep_params_common p mps dequeuePA dcs) dirIn tpm = (XHCI_CTX_OK, Some r, fl, dv)"
  shows "ep_params_good dsp r"
proof -
  have r: "r = (ep_params_common p mps dequeuePA dcs)\<lparr>EpType := if dirIn \<noteq> 0 then 6 else 2\<rparr>"
    using e by (auto simp: ep_params_bulk_def Let_def split: if_splits)
  show ?thesis
    using c ep_common_facts(1,2) [OF c]
    by (auto simp: r ep_params_good_def ep_params_refused_def ep_params_common_def interval_legal_def ep_common_ok_def)
qed

lemma isoch_good:
  assumes c: "ep_common_ok mps tpm dequeuePA dcs"
    and e: "ep_params_isoch (ep_params_common p mps dequeuePA dcs) dirIn mps dsp tpm desc =
      (XHCI_CTX_OK, Some r, fl, dv)"
  shows "ep_params_good dsp r"
proof -
  obtain i b where q: "r = (ep_params_common p mps dequeuePA dcs)\<lparr>EpType := if dirIn \<noteq> 0 then 5 else 1,
      EpErrorCount := 0, EpInterval := i, EpMaxBurstSize := b, EpMaxEsitPayload := mps * (b + 1),
      EpAverageTrbLength := mps\<rparr>"
    and s: "dsp = XHCI_SPEED_HIGH \<and> b = tpm - 1 \<and> i \<le> 15 \<or>
      dsp = XHCI_SPEED_FULL \<and> b = 0 \<and> 3 \<le> i \<and> i \<le> 18"
    using isoch_params [OF e] by (auto simp: ep_params_common_def)
  have b: "b = 0 \<or> b = tpm - 1"
    using s by auto
  have "\<not> i > 0xFF"
    using s ep_common_facts(3) [OF c, of i] by auto
  then show ?thesis
    using c s burst_bounds [OF _ _ _ _ b, of mps] ep_common_facts(1,2) [OF c]
    by (auto simp: q ep_params_good_def ep_params_refused_def ep_params_common_def interval_legal_def ep_common_ok_def)
qed

lemma interrupt_returns:
  "\<exists>st r fl dv. ep_params_interrupt b dirIn mps period psp dsp tpm = Some (st, Some r, fl, dv)"
proof (cases rule: interval_from_period_cases [of period psp])
  case (accepted k)
  obtain st r f where "XhciIntervalForSpeed (of_nat k + (if psp = XHCI_SPEED_HIGH then 0 else 3)) dsp = (st, r, f)"
    by (cases "XhciIntervalForSpeed (of_nat k + (if psp = XHCI_SPEED_HIGH then 0 else 3)) dsp")
  then show ?thesis
    using accepted by (auto simp: ep_params_interrupt_def Let_def)
qed (auto simp: ep_params_interrupt_def Let_def)

lemma isoch_returns: "\<exists>st r fl dv. ep_params_isoch b dirIn mps dsp tpm desc = (st, Some r, fl, dv)"
proof -
  have "fst (snd (ep_params_isoch b dirIn mps dsp tpm desc)) \<noteq> None"
    by (simp add: ep_params_isoch_def Let_def split: prod.split)
  then show ?thesis
    by (cases "ep_params_isoch b dirIn mps dsp tpm desc") auto
qed

section \<open>Properties\<close>

text \<open>
  The slot encoder loses nothing and touches nothing else. When it accepts a parameter set, every
  field of the encoded context, at its place in the register tables, is the parameter; the reserved
  and output-only words are zero; words behind the context are unchanged. When it refuses, memory is
  unchanged.
\<close>

theorem slot_context_round_trip:
  assumes "8 \<le> length c"
  shows "case XhciBuildSlotContext (Some c) (Some p) of
      (XHCI_CTX_OK, Some d) \<Rightarrow>
        ctx_field (d ! 0) 0 20 = SlRouteString p \<and> ctx_field (d ! 0) 20 4 = SlPsiv p \<and> ctx_field (d ! 0) 24 1 = 0 \<and>
        ctx_field (d ! 0) 25 1 = of_bool (SlMultiTt p \<noteq> 0) \<and> ctx_field (d ! 0) 26 1 = of_bool (SlHub p \<noteq> 0) \<and>
        ctx_field (d ! 0) 27 5 = SlContextEntries p \<and>
        ctx_field (d ! 1) 0 16 = SlMaxExitLatency p \<and> ctx_field (d ! 1) 16 8 = SlRootHubPort p \<and>
        ctx_field (d ! 1) 24 8 = SlNumberOfPorts p \<and>
        ctx_field (d ! 2) 0 8 = SlParentSlotId p \<and> ctx_field (d ! 2) 8 8 = SlParentPortNumber p \<and>
        ctx_field (d ! 2) 16 2 = SlTtThinkTime p \<and> ctx_field (d ! 2) 18 4 = 0 \<and>
        ctx_field (d ! 2) 22 10 = SlInterrupterTarget p \<and>
        take 5 (drop 3 d) = [0, 0, 0, 0, 0] \<and> drop 8 d = drop 8 c \<and> length d = length c
    | (XHCI_CTX_OK, None) \<Rightarrow> False
    | (XHCI_CTX_BAD_PARAM, r) \<Rightarrow> r = Some c"
proof (cases "slot_params_refused p")
  case True
  then show ?thesis by (simp add: XhciBuildSlotContext_def)
next
  case False
  then have "XhciBuildSlotContext (Some c) (Some p) =
      (XHCI_CTX_OK, Some ([slot_dw0 p, slot_dw1 p, slot_dw2 p, 0, 0, 0, 0, 0] @ drop 8 c))"
    using slot_stores [OF assms] by (simp add: XhciBuildSlotContext_def Let_def)
  then show ?thesis
    using assms slot_dw0_fields [OF False] slot_dw1_fields [OF False] slot_dw2_fields [OF False] by simp
qed

definition sample_slot :: xhci_slot_params where
  "sample_slot = \<lparr>SlRouteString = 0x21, SlPsiv = 3, SlRootHubPort = 4, SlContextEntries = 5, SlHub = 1,
     SlNumberOfPorts = 7, SlMultiTt = 1, SlMaxExitLatency = 0, SlParentSlotId = 2, SlParentPortNumber = 1,
     SlTtThinkTime = 2, SlInterrupterTarget = 0\<rparr>"

theorem slot_context_round_trip_witness:
  "fst (XhciBuildSlotContext (Some (replicate 16 0xFFFFFFFF)) (Some sample_slot)) = XHCI_CTX_OK \<and>
   ctx_field (the (snd (XhciBuildSlotContext (Some (replicate 16 0xFFFFFFFF)) (Some sample_slot))) ! 1) 24 8 = 7"
proof -
  have "8 \<le> length (replicate 16 (0xFFFFFFFF :: ulong))"
    by simp
  note r = slot_context_round_trip [OF this, of sample_slot]
  have ok: "fst (XhciBuildSlotContext (Some (replicate 16 0xFFFFFFFF)) (Some sample_slot)) = XHCI_CTX_OK"
    by code_simp
  have "SlNumberOfPorts sample_slot = 7"
    by (simp add: sample_slot_def)
  then show ?thesis
    using r ok by (cases "XhciBuildSlotContext (Some (replicate 16 0xFFFFFFFF)) (Some sample_slot)")
      (auto split: option.splits)
qed

text \<open>
  C23: The endpoint encoder loses nothing and touches nothing else: the fields of an accepted parameter
  set, the 24-bit Max ESIT Payload over its two halves included, decode to the parameters; EP State,
  MaxPStreams, LSA, the high half of the dequeue pointer and the reserved words are zero; words behind
  the context are unchanged; a refusal changes nothing.
\<close>

theorem endpoint_context_round_trip:
  assumes "8 \<le> length c"
  shows "case XhciBuildEndpointContext (Some c) (Some p) of
      (XHCI_CTX_OK, Some d) \<Rightarrow>
        ctx_field (d ! 0) 0 8 = 0 \<and> ctx_field (d ! 0) 8 2 = EpMult p \<and> ctx_field (d ! 0) 10 6 = 0 \<and>
        ctx_field (d ! 0) 16 8 = EpInterval p \<and>
        push_bit 16 (ctx_field (d ! 0) 24 8) OR ctx_field (d ! 4) 16 16 = EpMaxEsitPayload p \<and>
        ctx_field (d ! 1) 0 1 = 0 \<and> ctx_field (d ! 1) 1 2 = EpErrorCount p \<and> ctx_field (d ! 1) 3 3 = EpType p \<and>
        ctx_field (d ! 1) 6 2 = 0 \<and> ctx_field (d ! 1) 8 8 = EpMaxBurstSize p \<and>
        ctx_field (d ! 1) 16 16 = EpMaxPacketSize p \<and>
        ctx_field (d ! 2) 0 1 = EpDcs p \<and> ctx_field (d ! 2) 1 3 = 0 \<and>
        d ! 2 AND XHCI_EP_DEQUEUE_MASK = EpDequeuePA p \<and> d ! 3 = 0 \<and>
        ctx_field (d ! 4) 0 16 = EpAverageTrbLength p \<and>
        take 3 (drop 5 d) = [0, 0, 0] \<and> drop 8 d = drop 8 c \<and> length d = length c
    | (XHCI_CTX_OK, None) \<Rightarrow> False
    | (XHCI_CTX_BAD_PARAM, r) \<Rightarrow> r = Some c"
proof (cases "ep_params_refused p")
  case True
  then show ?thesis by (simp add: XhciBuildEndpointContext_def)
next
  case False
  then have "XhciBuildEndpointContext (Some c) (Some p) =
      (XHCI_CTX_OK, Some ([ep_dw0 p, ep_dw1 p, ep_dw2 p, 0, ep_dw4 p, 0, 0, 0] @ drop 8 c))"
    using ep_stores [OF assms] by (simp add: XhciBuildEndpointContext_def Let_def)
  moreover have "push_bit 16 (drop_bit 16 (EpMaxEsitPayload p)) OR take_bit 16 (EpMaxEsitPayload p) = EpMaxEsitPayload p"
    by (rule bit_eqI) (auto simp: bit_or_iff bit_push_bit_iff bit_drop_bit_eq bit_take_bit_iff possible_bit_word)
  ultimately show ?thesis
    using assms ep_dw0_fields [OF False] ep_dw1_fields [OF False] ep_dw2_fields [OF False] ep_dw4_fields [OF False]
    by simp
qed

definition sample_ep :: xhci_ep_params where
  "sample_ep = \<lparr>EpType = 5, EpMaxPacketSize = 1024, EpMaxBurstSize = 2, EpMult = 0, EpInterval = 3, EpErrorCount = 0,
     EpDequeuePA = 0x12340, EpDcs = 1, EpAverageTrbLength = 1024, EpMaxEsitPayload = 0x10C00\<rparr>"

theorem endpoint_context_round_trip_witness:
  "fst (XhciBuildEndpointContext (Some (replicate 8 0xFFFFFFFF)) (Some sample_ep)) = XHCI_CTX_OK \<and>
   ctx_field (the (snd (XhciBuildEndpointContext (Some (replicate 8 0xFFFFFFFF)) (Some sample_ep))) ! 0) 16 8 = 3"
proof -
  have "8 \<le> length (replicate 8 (0xFFFFFFFF :: ulong))"
    by simp
  note r = endpoint_context_round_trip [OF this, of sample_ep]
  have ok: "fst (XhciBuildEndpointContext (Some (replicate 8 0xFFFFFFFF)) (Some sample_ep)) = XHCI_CTX_OK"
    by code_simp
  have "EpInterval sample_ep = 3"
    by (simp add: sample_ep_def)
  then show ?thesis
    using r ok by (cases "XhciBuildEndpointContext (Some (replicate 8 0xFFFFFFFF)) (Some sample_ep)")
      (auto split: option.splits)
qed

text \<open>
  The derivation of endpoint parameters always returns, and every set it derives (on an aligned,
  nonzero ring address and a cycle bit) is accepted by the endpoint encoder, with an interval that
  Table 6-12 allows the endpoint's type at the device's speed and the payload per service interval
  equal to packet size times packets, computed without overflow.
\<close>

theorem endpoint_params_accepted:
  assumes ring: "dequeuePA \<noteq> 0" "dequeuePA AND 0x0F = 0" "dcs \<le> 1"
  shows "\<exists>status r fl dv.
     XhciBuildEndpointParams ty dirIn mps period psp dsp tpm desc dequeuePA dcs (Some p) = Some (status, Some r, fl, dv) \<and>
     (status = XHCI_CTX_OK \<longrightarrow>
        fst (XhciBuildEndpointContext (Some c) (Some r)) = XHCI_CTX_OK \<and> interval_legal (EpType r) dsp (EpInterval r) \<and>
        unat (EpMaxEsitPayload r) =
          (if ty = USBPORT_TRANSFER_TYPE_BULK then 0 else unat (EpMaxPacketSize r) * (unat (EpMaxBurstSize r) + 1)))"
proof (cases "tpm = 0 \<or> tpm > 3 \<or> mps = 0 \<or> mps > 0x7FF")
  case True
  then show ?thesis by (auto simp: XhciBuildEndpointParams_def)
next
  case False
  then have c: "ep_common_ok mps tpm dequeuePA dcs"
    using ring by (simp add: ep_common_ok_def)
  let ?b = "ep_params_common p mps dequeuePA dcs"
  have ok: "fst (XhciBuildEndpointContext (Some c) (Some r)) = XHCI_CTX_OK" if "ep_params_good dsp r" for r
    using that by (simp add: XhciBuildEndpointContext_def Let_def ep_params_good_def)
  consider (int) "ty = 3" | (bulk) "ty = 2" | (iso) "ty = 0" | (other) "ty \<noteq> 3" "ty \<noteq> 2" "ty \<noteq> 0" by blast
  then show ?thesis
  proof cases
    case int
    obtain st r fl dv where e: "ep_params_interrupt ?b dirIn mps period psp dsp tpm = Some (st, Some r, fl, dv)"
      using interrupt_returns by metis
    then have "st = XHCI_CTX_OK \<Longrightarrow> ep_params_good dsp r"
      using interrupt_good [OF c] by metis
    moreover have "st = XHCI_CTX_OK \<Longrightarrow> EpType r = 7 \<or> EpType r = 3"
      using e interrupt_params [of ?b dirIn mps period psp dsp tpm r fl dv] by auto
    ultimately show ?thesis
      using False int e ok by (auto simp: XhciBuildEndpointParams_def Let_def ep_params_good_def)
  next
    case bulk
    obtain st r fl dv where e: "ep_params_bulk ?b dirIn tpm = (st, Some r, fl, dv)"
      by (cases "tpm = 1") (auto simp: ep_params_bulk_def Let_def)
    then have "st = XHCI_CTX_OK \<Longrightarrow> ep_params_good dsp r"
      using bulk_good [OF c] by metis
    moreover have "EpType r = 6 \<or> EpType r = 2"
      using e by (auto simp: ep_params_bulk_def Let_def split: if_splits)
    ultimately show ?thesis
      using False bulk e ok by (auto simp: XhciBuildEndpointParams_def Let_def ep_params_good_def)
  next
    case iso
    obtain st r fl dv where e: "ep_params_isoch ?b dirIn mps dsp tpm desc = (st, Some r, fl, dv)"
      using isoch_returns by metis
    then have "st = XHCI_CTX_OK \<Longrightarrow> ep_params_good dsp r"
      using isoch_good [OF c] by metis
    moreover have "st = XHCI_CTX_OK \<Longrightarrow> EpType r = 5 \<or> EpType r = 1"
      using e isoch_params [of ?b dirIn mps dsp tpm desc r fl dv] by auto
    ultimately show ?thesis
      using False iso e ok by (auto simp: XhciBuildEndpointParams_def Let_def ep_params_good_def)
  next
    case other
    then show ?thesis
      using False by (auto simp: XhciBuildEndpointParams_def Let_def)
  qed
qed

theorem endpoint_params_accepted_witness:
  "\<exists>r. XhciBuildEndpointParams 3 1 8 4 2 2 1 0 0x1000 1 (Some sample_ep) = Some (XHCI_CTX_OK, Some r, False, False) \<and>
     fst (XhciBuildEndpointContext (Some (replicate 8 0)) (Some r)) = XHCI_CTX_OK \<and> EpInterval r = 5 \<and>
     interval_legal (EpType r) 2 5"
proof -
  have h: "(0x1000 :: ulong) \<noteq> 0" "(0x1000 :: ulong) AND 0x0F = 0" "(1 :: ulong) \<le> 1"
    by simp_all
  have "XhciIntervalFromPeriod (2 ^ 2) 2 = Some (XHCI_CTX_OK, Some (of_nat 2 + (if (2 :: ulong) = XHCI_SPEED_HIGH then 0 else 3)))"
    by (rule interval_from_period) (simp_all add: usb2_speed_def)
  then have "XhciIntervalFromPeriod 4 2 = Some (XHCI_CTX_OK, Some 5)"
    by simp
  then have e: "\<exists>r. XhciBuildEndpointParams 3 1 8 4 2 2 1 0 0x1000 1 (Some sample_ep) =
      Some (XHCI_CTX_OK, Some r, False, False) \<and> EpInterval r = 5"
    by (simp add: XhciBuildEndpointParams_def ep_params_interrupt_def XhciIntervalForSpeed_def Let_def)
  show ?thesis
    using endpoint_params_accepted [OF h, of 3 1 8 4 2 2 1 0 sample_ep "replicate 8 0"] e by auto
qed

text \<open>
  The conversion of a period always returns. It yields the interval \<open>i\<close> exactly when the speed is one of
  USB 2.0 and the period, in microframes (a frame is eight), is \<open>2 ^ i\<close> and at most 32 of its own
  units; it refuses every other period and speed.
\<close>

theorem period_interval_exact:
  "(XhciIntervalFromPeriod p sc = Some (XHCI_CTX_OK, Some i) \<longleftrightarrow>
      usb2_speed sc \<and> unat p \<le> 32 \<and> unat p * (if sc = XHCI_SPEED_HIGH then 1 else 8) = 2 ^ unat i) \<and>
   (XhciIntervalFromPeriod p sc = Some (XHCI_CTX_BAD_PARAM, None) \<or>
    (\<exists>i. XhciIntervalFromPeriod p sc = Some (XHCI_CTX_OK, Some i)))"
proof -
  let ?s = "if sc = XHCI_SPEED_HIGH then 0 else 3 :: nat"
  have pow: "unat ((2 :: ulong) ^ k) = 2 ^ k" if "k \<le> 5" for k
    using that power_increasing [of k 5 "2 :: nat"] unat_of_nat_ulong [of "2 ^ k"] by simp
  have shift: "unat (of_nat k + (if sc = XHCI_SPEED_HIGH then 0 else 3) :: ulong) = k + ?s" if "k \<le> 5" for k
    using that unat_of_nat_ulong [of k] unat_of_nat_ulong [of "k + 3"] by simp
  have dir: "usb2_speed sc \<and> unat p \<le> 32 \<and> unat p * (if sc = XHCI_SPEED_HIGH then 1 else 8) = 2 ^ unat i"
    if "XhciIntervalFromPeriod p sc = Some (XHCI_CTX_OK, Some i)" for i
  proof (cases rule: interval_from_period_cases [of p sc])
    case (accepted k)
    then have "unat i = k + ?s"
      using that shift [OF accepted(1)] by auto
    moreover have "(2 :: nat) ^ k \<le> 32"
      using power_increasing [OF accepted(1), of "2 :: nat"] by simp
    ultimately show ?thesis
      using accepted pow [OF accepted(1)] by (simp add: power_add)
  qed (use that in simp)
  moreover have "XhciIntervalFromPeriod p sc = Some (XHCI_CTX_OK, Some i)"
    if h: "usb2_speed sc" "unat p \<le> 32" "unat p * (if sc = XHCI_SPEED_HIGH then 1 else 8) = 2 ^ unat i" for i
  proof -
    have e: "unat p * 2 ^ ?s = 2 ^ unat i"
      using h(3) by (simp split: if_splits)
    have "?s \<le> unat i"
    proof (rule ccontr)
      assume "\<not> ?s \<le> unat i"
      then have "(2 :: nat) ^ unat i < 2 ^ ?s"
        by (intro power_strict_increasing) auto
      moreover have "unat p \<noteq> 0"
        using e by (metis mult_0 power_not_zero zero_neq_numeral)
      ultimately show False
        using e by (metis mult_le_mono1 nat_mult_1 not_less One_nat_def Suc_leI neq0_conv)
    qed
    then obtain k where k: "unat i = k + ?s"
      by (metis le_add_diff_inverse2)
    then have u: "unat p = 2 ^ k"
      using e by (simp add: power_add)
    then have k5: "k \<le> 5"
      using h(2) power_le_imp_le_exp [of "2 :: nat" k 5] by simp
    then have "p = 2 ^ k"
      using u pow by (simp add: unat_eq_iff [symmetric])
    moreover have "i = of_nat k + (if sc = XHCI_SPEED_HIGH then 0 else 3)"
      using k shift [OF k5] by (simp add: unat_eq_iff [symmetric])
    ultimately show ?thesis
      using interval_from_period [OF k5 h(1)] by simp
  qed
  moreover have "XhciIntervalFromPeriod p sc = Some (XHCI_CTX_BAD_PARAM, None) \<or>
      (\<exists>i. XhciIntervalFromPeriod p sc = Some (XHCI_CTX_OK, Some i))"
    by (cases rule: interval_from_period_cases [of p sc]) auto
  ultimately show ?thesis by blast
qed

text \<open>
  Device context indices and endpoint addresses are two names of the same endpoints: every index
  from 2 to 31 survives the way to its address and back, every address with a nonzero endpoint number
  the way to its index and back, and its index is between 2 and 31.
\<close>

theorem dci_round_trip:
  "(2 \<le> dci \<and> dci \<le> 31 \<longrightarrow> XhciDciFromEndpointAddress (XhciEndpointAddressFromDci dci) = dci) \<and>
   (a AND 0x0F \<noteq> 0 \<and> a \<le> 0x8F \<and> a AND 0x70 = 0 \<longrightarrow>
      XhciEndpointAddressFromDci (XhciDciFromEndpointAddress a) = a \<and>
      2 \<le> XhciDciFromEndpointAddress a \<and> XhciDciFromEndpointAddress a \<le> 31)" (is "?D dci \<and> ?A a")
proof
  have "list_all (\<lambda>n. XhciDciFromEndpointAddress (XhciEndpointAddressFromDci (of_nat n)) = of_nat n) [2..<32]"
    by code_simp
  from list_all_upt [OF this, of "unat dci"] show "?D dci"
    by (simp add: word_le_nat_alt)
  have "list_all (\<lambda>n. (of_nat n :: ulong) AND 0x0F \<noteq> 0 \<and> (of_nat n :: ulong) AND 0x70 = 0 \<longrightarrow>
      XhciEndpointAddressFromDci (XhciDciFromEndpointAddress (of_nat n)) = of_nat n \<and>
      2 \<le> XhciDciFromEndpointAddress (of_nat n) \<and> XhciDciFromEndpointAddress (of_nat n) \<le> 31) [0..<144]"
    by code_simp
  from list_all_upt [OF this, of "unat a"] show "?A a"
    by (simp add: word_le_nat_alt)
qed

theorem dci_round_trip_witness:
  "XhciDciFromEndpointAddress (XhciEndpointAddressFromDci 5) = 5 \<and>
   XhciEndpointAddressFromDci (XhciDciFromEndpointAddress 0x81) = 0x81"
  using dci_round_trip [where dci = 5 and a = "0x81"] by simp

end
