(* ===== verification/Xhci_Xfer_Code.thy ===== *)
theory Xhci_Xfer_Code
  imports Xhci_Ring
begin

text \<open>
  What a completion code means to whoever waits for it (\<open>XhciXferCodeInfo\<close>, src/src/xhci_xfer.c,
  with its types in xhci_xfer.h): the class of the outcome, the status the bus driver reports,
  whether the length field is a residual, and whether the code condemns the slot or the controller.
  The command engine reads the last two of every Command Completion Event.
\<close>

datatype xfer_class =
  XHCI_XFER_CC_SUCCESS | XHCI_XFER_CC_SHORT | XHCI_XFER_CC_ERROR | XHCI_XFER_CC_CANCELED | XHCI_XFER_CC_INVALID

record xhci_xfer_code =
  Class :: xfer_class
  UsbdStatus :: ulong
  ResidualIsBytes :: bool
  Fatal :: bool
  SlotFatal :: bool

abbreviation (input) XHCI_USBD_STATUS_SUCCESS :: ulong where "XHCI_USBD_STATUS_SUCCESS \<equiv> 0"
abbreviation (input) XHCI_USBD_STATUS_STALL_PID :: ulong where "XHCI_USBD_STATUS_STALL_PID \<equiv> 0xC0000004"
abbreviation (input) XHCI_USBD_STATUS_DEV_NOT_RESPONDING :: ulong where
  "XHCI_USBD_STATUS_DEV_NOT_RESPONDING \<equiv> 0xC0000005"
abbreviation (input) XHCI_USBD_STATUS_DATA_OVERRUN :: ulong where "XHCI_USBD_STATUS_DATA_OVERRUN \<equiv> 0xC0000008"
abbreviation (input) XHCI_USBD_STATUS_BUFFER_OVERRUN :: ulong where "XHCI_USBD_STATUS_BUFFER_OVERRUN \<equiv> 0xC000000C"
abbreviation (input) XHCI_USBD_STATUS_INTERNAL_HC_ERROR :: ulong where
  "XHCI_USBD_STATUS_INTERNAL_HC_ERROR \<equiv> 0x80000800"
abbreviation (input) XHCI_USBD_STATUS_CANCELED :: ulong where "XHCI_USBD_STATUS_CANCELED \<equiv> 0x00010000"
abbreviation (input) XHCI_CC_VENDOR_ERROR_MAX :: ulong where "XHCI_CC_VENDOR_ERROR_MAX \<equiv> 223"

definition xhciXferCodeSet :: "xfer_class \<Rightarrow> ulong \<Rightarrow> bool \<Rightarrow> bool \<Rightarrow> xhci_xfer_code" where
  "xhciXferCodeSet class status residualIsBytes fatal =
     \<lparr>Class = class, UsbdStatus = status, ResidualIsBytes = residualIsBytes, Fatal = fatal, SlotFatal = False\<rparr>"

text \<open>The result is \<open>XHCI_XFER_OK\<close> or not, and what is left in \<open>info\<close>.\<close>

definition XhciXferCodeInfo :: "ulong \<Rightarrow> bool \<times> xhci_xfer_code" where
  "XhciXferCodeInfo code =
     (if code \<ge> XHCI_CC_VENDOR_INFO_MIN \<and> code \<le> XHCI_CC_VENDOR_INFO_MAX
      then (True, xhciXferCodeSet XHCI_XFER_CC_SUCCESS XHCI_USBD_STATUS_SUCCESS True False)
      else if code \<ge> XHCI_CC_VENDOR_ERROR_MIN \<and> code \<le> XHCI_CC_VENDOR_ERROR_MAX
      then (True, xhciXferCodeSet XHCI_XFER_CC_ERROR XHCI_USBD_STATUS_INTERNAL_HC_ERROR True True)
      else if code = XHCI_CC_SUCCESS
      then (True, xhciXferCodeSet XHCI_XFER_CC_SUCCESS XHCI_USBD_STATUS_SUCCESS True False)
      else if code = XHCI_CC_SHORT_PACKET
      then (True, xhciXferCodeSet XHCI_XFER_CC_SHORT XHCI_USBD_STATUS_SUCCESS True False)
      else if code = XHCI_CC_STALL
      then (True, xhciXferCodeSet XHCI_XFER_CC_ERROR XHCI_USBD_STATUS_STALL_PID True False)
      else if code = XHCI_CC_USB_TRANSACTION_ERROR \<or> code = XHCI_CC_NO_PING_RESPONSE \<or>
              code = XHCI_CC_SPLIT_TRANSACTION
      then (True, xhciXferCodeSet XHCI_XFER_CC_ERROR XHCI_USBD_STATUS_DEV_NOT_RESPONDING True False)
      else if code = XHCI_CC_BABBLE
      then (True, xhciXferCodeSet XHCI_XFER_CC_ERROR XHCI_USBD_STATUS_BUFFER_OVERRUN True False)
      else if code = XHCI_CC_DATA_BUFFER_ERROR
      then (True, xhciXferCodeSet XHCI_XFER_CC_ERROR XHCI_USBD_STATUS_DATA_OVERRUN True False)
      else if code = XHCI_CC_TRB_ERROR \<or> code = XHCI_CC_INVALID_STREAM_ID
      then (True, xhciXferCodeSet XHCI_XFER_CC_ERROR XHCI_USBD_STATUS_INTERNAL_HC_ERROR True False)
      else if code = XHCI_CC_INCOMPATIBLE_DEVICE
      then (True, (xhciXferCodeSet XHCI_XFER_CC_ERROR XHCI_USBD_STATUS_INTERNAL_HC_ERROR True False)
                    \<lparr>SlotFatal := True\<rparr>)
      else if code = XHCI_CC_UNDEFINED_ERROR
      then (True, xhciXferCodeSet XHCI_XFER_CC_ERROR XHCI_USBD_STATUS_INTERNAL_HC_ERROR True True)
      else if code = XHCI_CC_EVENT_LOST
      then (True, xhciXferCodeSet XHCI_XFER_CC_ERROR XHCI_USBD_STATUS_INTERNAL_HC_ERROR True True)
      else if code = XHCI_CC_STOPPED
      then (True, xhciXferCodeSet XHCI_XFER_CC_CANCELED XHCI_USBD_STATUS_CANCELED True False)
      else if code = XHCI_CC_STOPPED_LENGTH_INVALID \<or> code = XHCI_CC_STOPPED_SHORT_PACKET
      then (True, xhciXferCodeSet XHCI_XFER_CC_CANCELED XHCI_USBD_STATUS_CANCELED False False)
      else (False, xhciXferCodeSet XHCI_XFER_CC_INVALID XHCI_USBD_STATUS_INTERNAL_HC_ERROR False False))"

definition XhciXferSlotFatal :: "ulong \<Rightarrow> bool" where
  "XhciXferSlotFatal code = (case XhciXferCodeInfo code of (ok, info) \<Rightarrow> ok \<and> SlotFatal info)"

section \<open>The table and the rings agree\<close>

lemma slot_fatal_iff: "XhciXferSlotFatal code \<longleftrightarrow> code = XHCI_CC_INCOMPATIBLE_DEVICE"
  by (auto simp: XhciXferSlotFatal_def XhciXferCodeInfo_def xhciXferCodeSet_def)

text \<open>The codes that condemn the controller: 32, 33 and the vendor error range.\<close>

definition code_fatal :: "ulong \<Rightarrow> bool" where
  "code_fatal code = (case XhciXferCodeInfo code of (ok, info) \<Rightarrow> ok \<and> Fatal info)"

lemma fatal_iff:
  "code_fatal code \<longleftrightarrow>
     code = XHCI_CC_EVENT_LOST \<or> code = XHCI_CC_UNDEFINED_ERROR \<or>
     (XHCI_CC_VENDOR_ERROR_MIN \<le> code \<and> code \<le> XHCI_CC_VENDOR_ERROR_MAX)"
  by (auto simp: code_fatal_def XhciXferCodeInfo_def xhciXferCodeSet_def word_le_nat_alt)

text \<open>
  Every code a transfer ring may report has a meaning in the table, except the ones that report
  only a lost isochronous service.
\<close>

lemma endpoint_codes_known:
  assumes "XhciRingCompletionCodeValid XHCI_RING_KIND_ENDPOINT code"
  shows "fst (XhciXferCodeInfo code)"
  using assms
  by (auto simp: XhciRingCompletionCodeValid_def xhciCompletionCodeValid_def XhciXferCodeInfo_def not_le
      word_less_nat_alt word_le_nat_alt split: if_splits)

end
