(* ===== verification/Xhci_Cmd.thy ===== *)
theory Xhci_Cmd
  imports Xhci_Xfer_Code
begin

text \<open>
  The command engine (src/src/xhci_cmd.c): one command outstanding at a time on the command ring,
  its Command Completion Event, the watchdog that aborts a command that does not complete and asks
  for a controller reset when the abort does not complete either, and the health poll behind both.

  The state is the part of \<open>XHCI_EXTENSION\<close> (xhci.h) the engine reads and writes, the counters and
  the two clocks grouped into records of their own. What the engine does outside the extension is
  appended to \<open>Effects\<close> in program order: doorbells, CRCR writes, timers armed, the signal to the
  waiter, reset requests. What it reads from the controller, and the answer of the timer service,
  are arguments. A region under the controller lock is one function, so a step of the system below
  is what the lock makes atomic. The extension pointer is a valid one; the \<open>ext == NULL\<close> guards and
  the debug and log lines are the only lines left out.
\<close>

section \<open>State\<close>

datatype cmd_status =
  XHCI_CMD_OK | XHCI_CMD_BAD_PARAM | XHCI_CMD_NOT_READY | XHCI_CMD_BUSY | XHCI_CMD_RING_FULL | XHCI_CMD_BAD_TRB |
  XHCI_CMD_NO_TIMER | XHCI_CMD_FAILED

datatype cmd_state = XHCI_CMD_STATE_IDLE | XHCI_CMD_STATE_PENDING | XHCI_CMD_STATE_ABORTING

datatype cmd_phase = XHCI_CMD_PHASE_COMMAND | XHCI_CMD_PHASE_ABORT

datatype cmd_action = XHCI_CMD_ACTION_NONE | XHCI_CMD_ACTION_ARM | XHCI_CMD_ACTION_RESET

datatype arm_answer = XHCI_ARM_MADE | XHCI_ARM_OWED | XHCI_ARM_REFUSED

record xhci_command_timeout =
  Epoch :: ulong
  Generation :: ulong
  Phase :: cmd_phase
  Attempt :: ulong

datatype cmd_effect =
    Doorbell ulong ulong
  | WriteOp ulong ulong
  | ArmTimer ulong xhci_command_timeout
  | SignalCmdDone bool
  | SlotFatalMark ulong ulong
  | RetireRootHub
  | MaskInterrupts
  | RequestReset

record xhci_command_counters =
  AsyncArmsRefused :: ulong
  CommandTimerFailures :: ulong
  CommandsIssued :: ulong
  CommandsCompleted :: ulong
  CommandsAborted :: ulong
  CommandsAbandoned :: ulong
  CommandsUnmatched :: ulong
  CommandsBadCompletion :: ulong
  CommandsReservedBitsSet :: ulong
  CommandsFatal :: ulong
  CommandsTimedOut :: ulong
  CommandsAfterFailure :: ulong
  CommandRingStops :: ulong
  CommandRingDiverged :: ulong
  CommandRingStoppedOnAbandoned :: ulong
  CommandResetRequests :: ulong
  CommandAbortsNotWritten :: ulong
  CommandAbortWaits :: ulong
  CommandTimeoutArrivals :: ulong
  CommandStaleCallbacks :: ulong
  CommandAgeAborts :: ulong
  CommandAgeResets :: ulong
  HealthPolls :: ulong
  HealthPollsDead :: ulong
  FatalStatusDetected :: ulong
  HchRecoveries :: ulong
  NoOpWitnessFired :: ulong

record xhci_frame_clock =
  FrameSynced :: bool
  FrameLast :: ulong
  FrameNumber :: ulong
  FrameSamples :: ulong
  FrameSampleStale :: bool
  FrameReadFailures :: ulong
  PollClockSynced :: bool
  PollClockFrame :: ulong
  PollClockMs :: ulong
  PollClockStalls :: ulong

record hcd_cmd_done =
  CmdDoneCode :: ulong
  CmdDoneControl :: ulong
  CmdDoneLost :: bool
  CmdDonePA :: ulong

record xhci_extension =
  Signature :: ulong
  TrailingSignature :: ulong
  Flags :: ulong
  StartEpoch :: ulong
  HcInfoStatus :: ulong
  ControllerFailed :: bool
  ControllerFatal :: bool
  LastCheckStatus :: ulong
  Tolerance :: bool
  PollService :: ulong
  PollServiceGen :: ulong
  CommandRing :: xhci_ring
  CommandState :: cmd_state
  CommandTrbPA :: ulong
  CommandType :: ulong
  CommandControl :: ulong
  CommandGeneration :: ulong
  CommandNoOpRewrittenPA :: ulong
  LastCommandTrbPA :: ulong
  CommandCompletionCode :: ulong
  CommandSlotId :: ulong
  NoOpTrbPA :: ulong
  NoOpStatus :: cmd_status
  NoOpWitnessArmed :: bool
  CommandAgeStamp :: ulong
  CommandAgeEscalated :: bool
  CommandAgeGeneration :: ulong
  ArmThroughExOnly :: bool
  CommandArmOwed :: bool
  CommandArmOwedMs :: ulong
  CommandArmOwedWhat :: xhci_command_timeout
  Counters :: xhci_command_counters
  Clock :: xhci_frame_clock
  CmdDone :: hcd_cmd_done
  Effects :: "cmd_effect list"

abbreviation (input) XHCI_EXTENSION_SIGNATURE :: ulong where "XHCI_EXTENSION_SIGNATURE \<equiv> 0x58484349"
abbreviation (input) XHCI_EXTENSION_TRAILING :: ulong where "XHCI_EXTENSION_TRAILING \<equiv> 0x444E4523"
abbreviation (input) XHCI_EXT_FLAG_SUSPENDED :: ulong where "XHCI_EXT_FLAG_SUSPENDED \<equiv> 4"
abbreviation (input) XHCI_EXT_FLAG_INITIALIZED :: ulong where "XHCI_EXT_FLAG_INITIALIZED \<equiv> 8"
abbreviation (input) XHCI_EXT_FLAG_RUNNING :: ulong where "XHCI_EXT_FLAG_RUNNING \<equiv> 0x10"
abbreviation (input) XHCI_EXT_FLAG_RS_CONFIRMED :: ulong where "XHCI_EXT_FLAG_RS_CONFIRMED \<equiv> 0x100"
abbreviation (input) XHCI_EXT_FLAG_READY :: ulong where "XHCI_EXT_FLAG_READY \<equiv> 0x18"
abbreviation (input) XHCI_HC_OK :: ulong where "XHCI_HC_OK \<equiv> 0"
abbreviation (input) XHCI_DB_COMMAND :: ulong where "XHCI_DB_COMMAND \<equiv> 0"
abbreviation (input) XHCI_TRB_TYPE_COMMAND_FIRST :: ulong where "XHCI_TRB_TYPE_COMMAND_FIRST \<equiv> 9"
abbreviation (input) XHCI_TRB_TYPE_COMMAND_LAST :: ulong where "XHCI_TRB_TYPE_COMMAND_LAST \<equiv> 23"
abbreviation (input) XHCI_COMMAND_TIMEOUT_MS :: ulong where "XHCI_COMMAND_TIMEOUT_MS \<equiv> 5000"
abbreviation (input) XHCI_COMMAND_ABORT_MS :: ulong where "XHCI_COMMAND_ABORT_MS \<equiv> 5000"
abbreviation (input) XHCI_COMMAND_ABORT_WAITS :: ulong where "XHCI_COMMAND_ABORT_WAITS \<equiv> 2"
abbreviation (input) XHCI_COMMAND_AGE_MS :: ulong where "XHCI_COMMAND_AGE_MS \<equiv> 32000"
abbreviation (input) XHCI_OP_CRCR :: ulong where "XHCI_OP_CRCR \<equiv> 0x18"
abbreviation (input) XHCI_CRCR_RCS :: ulong where "XHCI_CRCR_RCS \<equiv> 1"
abbreviation (input) XHCI_CRCR_DEFINED_MASK :: ulong where "XHCI_CRCR_DEFINED_MASK \<equiv> 7"
abbreviation (input) XHCI_CRCR_PTR_MASK :: ulong where "XHCI_CRCR_PTR_MASK \<equiv> 0xFFFFFFC0"
abbreviation (input) XHCI_CRCR_CA :: ulong where "XHCI_CRCR_CA \<equiv> 4"
abbreviation (input) XHCI_CRCR_CRR :: ulong where "XHCI_CRCR_CRR \<equiv> 8"
abbreviation (input) XHCI_CRCR_RSVDP_MASK :: ulong where "XHCI_CRCR_RSVDP_MASK \<equiv> 0x30"
abbreviation (input) XHCI_USBSTS_HCH :: ulong where "XHCI_USBSTS_HCH \<equiv> 1"
abbreviation (input) XHCI_USBSTS_HSE :: ulong where "XHCI_USBSTS_HSE \<equiv> 4"
abbreviation (input) XHCI_USBSTS_HCE :: ulong where "XHCI_USBSTS_HCE \<equiv> 0x1000"
abbreviation (input) XHCI_MFINDEX_MASK :: ulong where "XHCI_MFINDEX_MASK \<equiv> 0x3FFF"
abbreviation (input) XHCI_MFINDEX_FRAME_MASK :: ulong where "XHCI_MFINDEX_FRAME_MASK \<equiv> 0x7FF"

definition XHCI_TRB_GET_COMPLETION :: "ulong \<Rightarrow> ulong" where
  "XHCI_TRB_GET_COMPLETION dw2 = drop_bit 24 dw2 AND 0xFF"

text \<open>A counter of the extension, by its update; and an effect outside it.\<close>

definition tick :: "((ulong \<Rightarrow> ulong) \<Rightarrow> xhci_command_counters \<Rightarrow> xhci_command_counters) \<Rightarrow>
    xhci_extension \<Rightarrow> xhci_extension" where
  "tick upd ext = ext\<lparr>Counters := upd (\<lambda>n. n + 1) (Counters ext)\<rparr>"

definition emit :: "cmd_effect \<Rightarrow> xhci_extension \<Rightarrow> xhci_extension" where
  "emit e ext = ext\<lparr>Effects := Effects ext @ [e]\<rparr>"

section \<open>Flags\<close>

definition XhciControllerUpdateFlags :: "xhci_extension \<Rightarrow> ulong \<Rightarrow> ulong \<Rightarrow> ulong \<times> xhci_extension" where
  "XhciControllerUpdateFlags ext clearMask setMask =
     (if Signature ext \<noteq> XHCI_EXTENSION_SIGNATURE then (0, ext)
      else
        let previous = Flags ext;
            ext = ext\<lparr>Flags := (previous AND NOT clearMask) OR setMask\<rparr>;
            ext = (if clearMask AND XHCI_EXT_FLAG_INITIALIZED \<noteq> 0
                   then ext\<lparr>PollService := 0, PollServiceGen := PollServiceGen ext + 1\<rparr> else ext)
        in (previous, ext))"

section \<open>Timers\<close>

text \<open>\<open>answer\<close> is what the timer service returns: 0 when a timer is scheduled.\<close>

definition XhciAsyncTimerArm ::
    "xhci_extension \<Rightarrow> ulong \<Rightarrow> xhci_command_timeout \<Rightarrow> ulong \<Rightarrow> arm_answer \<times> xhci_extension" where
  "XhciAsyncTimerArm ext milliseconds context answer =
     (if answer \<noteq> 0 then (XHCI_ARM_REFUSED, tick AsyncArmsRefused_update ext)
      else (XHCI_ARM_MADE, emit (ArmTimer milliseconds context) ext))"

definition xhciCommandArmCurrent :: "xhci_extension \<Rightarrow> xhci_command_timeout \<Rightarrow> bool" where
  "xhciCommandArmCurrent ext context \<longleftrightarrow>
     Epoch context = StartEpoch ext \<and> Generation context = CommandGeneration ext \<and>
     ((Phase context = XHCI_CMD_PHASE_COMMAND \<and> CommandState ext = XHCI_CMD_STATE_PENDING) \<or>
      (Phase context = XHCI_CMD_PHASE_ABORT \<and> CommandState ext = XHCI_CMD_STATE_ABORTING))"

definition xhciArmCommandTimer ::
    "xhci_extension \<Rightarrow> ulong \<Rightarrow> xhci_command_timeout \<Rightarrow> ulong \<Rightarrow> xhci_extension" where
  "xhciArmCommandTimer ext milliseconds what answer =
     (case XhciAsyncTimerArm ext milliseconds what answer of
        (made, ext) \<Rightarrow>
          if made = XHCI_ARM_MADE then ext
          else
            let ext = (if made = XHCI_ARM_REFUSED then tick CommandTimerFailures_update ext else ext)
            in if ArmThroughExOnly ext \<and> xhciCommandArmCurrent ext what
               then ext\<lparr>CommandArmOwed := True, CommandArmOwedMs := milliseconds, CommandArmOwedWhat := what\<rparr>
               else ext)"

definition XhciCommandDrainOwedArm :: "xhci_extension \<Rightarrow> ulong \<Rightarrow> xhci_extension" where
  "XhciCommandDrainOwedArm ext answer =
     (if Signature ext \<noteq> XHCI_EXTENSION_SIGNATURE then ext
      else if CommandArmOwed ext then
        let armed = CommandArmOwedWhat ext;
            milliseconds = CommandArmOwedMs ext;
            ext = ext\<lparr>CommandArmOwed := False\<rparr>
        in if xhciCommandArmCurrent ext armed then xhciArmCommandTimer ext milliseconds armed answer
           else ext
      else ext)"

definition xhciCanArmTimer :: bool where
  "xhciCanArmTimer = True"

definition XhciRequestControllerReset :: "xhci_extension \<Rightarrow> xhci_extension" where
  "XhciRequestControllerReset ext = emit RequestReset ext"

section \<open>The waiter\<close>

definition XhciSlotCommandEvent :: "xhci_extension \<Rightarrow> ulong \<Rightarrow> ulong \<Rightarrow> xhci_extension" where
  "XhciSlotCommandEvent ext completionCode control =
     emit (SignalCmdDone False)
       (ext\<lparr>CmdDone := \<lparr>CmdDoneCode = completionCode, CmdDoneControl = control, CmdDoneLost = False,
                       CmdDonePA = LastCommandTrbPA ext\<rparr>\<rparr>)"

definition XhciSlotCommandLost :: "xhci_extension \<Rightarrow> xhci_extension" where
  "XhciSlotCommandLost ext =
     emit (SignalCmdDone True) (ext\<lparr>CmdDone := (CmdDone ext)\<lparr>CmdDoneLost := True\<rparr>\<rparr>)"

definition XhciSlotCommandSlotFatal :: "xhci_extension \<Rightarrow> ulong \<Rightarrow> ulong \<Rightarrow> xhci_extension" where
  "XhciSlotCommandSlotFatal ext completionCode control =
     emit (SlotFatalMark (XHCI_TRB_GET_SLOT_ID control) completionCode) ext"

section \<open>Starting and quiescing\<close>

definition xhciCommandEndOutstanding :: "xhci_extension \<Rightarrow> xhci_extension" where
  "xhciCommandEndOutstanding ext = ext\<lparr>CommandTrbPA := 0, NoOpWitnessArmed := False\<rparr>"

definition xhciCommandWitnessSelfTest :: "xhci_extension \<Rightarrow> ulong \<Rightarrow> bool \<times> xhci_extension" where
  "xhciCommandWitnessSelfTest ext pointer =
     (if \<not> NoOpWitnessArmed ext \<or> pointer \<noteq> NoOpTrbPA ext then (False, ext)
      else (True, tick NoOpWitnessFired_update (ext\<lparr>NoOpWitnessArmed := False\<rparr>)))"

text \<open>\<open>xhciStartEpoch\<close> is the driver-wide counter; the result has its new value beside the extension.\<close>

definition XhciCommandInit :: "xhci_extension \<Rightarrow> ulong \<Rightarrow> xhci_extension \<times> ulong" where
  "XhciCommandInit ext startEpoch =
     (let ext = xhciCommandEndOutstanding (ext\<lparr>CommandState := XHCI_CMD_STATE_IDLE\<rparr>);
          ext = ext\<lparr>CommandType := 0, CommandControl := 0, CommandGeneration := 0, ControllerFailed := False\<rparr>;
          epoch = startEpoch + 1;
          epoch = (if epoch = 0 then epoch + 1 else epoch)
      in (ext\<lparr>StartEpoch := epoch\<rparr>, epoch))"

definition xhciCommandInvalidateLocked :: "xhci_extension \<Rightarrow> xhci_extension" where
  "xhciCommandInvalidateLocked ext =
     (let ext = (if CommandState ext \<noteq> XHCI_CMD_STATE_IDLE then tick CommandsAbandoned_update ext else ext);
          ext = xhciCommandEndOutstanding (ext\<lparr>CommandState := XHCI_CMD_STATE_IDLE\<rparr>);
          ext = XhciSlotCommandLost ext
      in ext\<lparr>CommandGeneration := CommandGeneration ext + 1, CommandNoOpRewrittenPA := 0\<rparr>)"

definition XhciControllerBeginQuiesce :: "xhci_extension \<Rightarrow> xhci_extension" where
  "XhciControllerBeginQuiesce ext =
     (if Signature ext \<noteq> XHCI_EXTENSION_SIGNATURE then ext
      else
        let ext = emit MaskInterrupts (emit RetireRootHub (xhciCommandInvalidateLocked ext))
        in ext\<lparr>Flags := Flags ext AND NOT (XHCI_EXT_FLAG_INITIALIZED OR XHCI_EXT_FLAG_RS_CONFIRMED),
               PollService := 0, PollServiceGen := PollServiceGen ext + 1\<rparr>)"

section \<open>The command ring control register\<close>

text \<open>
  \<open>reads n\<close> is what the controller returns to the \<open>n\<close>-th read of the register. All ones is a
  window that does not decode; three reads in a row of it leave no operand.
\<close>

definition xhciReadRmwOperand :: "(nat \<Rightarrow> ulong) \<Rightarrow> ulong option" where
  "xhciReadRmwOperand reads = find (\<lambda>v. v \<noteq> 0xFFFFFFFF) (map reads [0..<3])"

definition XhciWriteCrcr ::
    "xhci_extension \<Rightarrow> ulong \<Rightarrow> ulong \<Rightarrow> (nat \<Rightarrow> ulong) \<Rightarrow> bool \<times> xhci_extension" where
  "XhciWriteCrcr ext pointerLow definedBits reads =
     (case xhciReadRmwOperand reads of
        None \<Rightarrow> (False, ext)
      | Some operand \<Rightarrow>
          (True, emit (WriteOp (XHCI_OP_CRCR + 4) 0)
                   (emit (WriteOp XHCI_OP_CRCR
                            ((operand AND XHCI_CRCR_RSVDP_MASK) OR (pointerLow AND XHCI_CRCR_PTR_MASK) OR
                             (definedBits AND XHCI_CRCR_DEFINED_MASK))) ext)))"

definition XhciWriteCrcrAbort :: "xhci_extension \<Rightarrow> (nat \<Rightarrow> ulong) \<Rightarrow> bool \<times> xhci_extension" where
  "XhciWriteCrcrAbort ext reads =
     (case xhciReadRmwOperand reads of
        None \<Rightarrow> (False, ext)
      | Some operand \<Rightarrow>
          if operand AND XHCI_CRCR_CRR = 0 then (False, ext)
          else (True, emit (WriteOp XHCI_OP_CRCR ((operand AND XHCI_CRCR_RSVDP_MASK) OR XHCI_CRCR_CA)) ext))"

text \<open>
  Programming a fresh command ring after a reset: \<open>base\<close>, \<open>pa\<close> and \<open>trbs\<close> are the common
  buffer's command ring region and \<open>crcr\<close> the first read. No status is \<open>XHCI_INIT_NO_RMW_OPERAND\<close>.
\<close>

definition xhciProgramCommandRing ::
    "xhci_extension \<Rightarrow> xhci_trb list \<Rightarrow> ulong \<Rightarrow> ulong \<Rightarrow> ulong \<Rightarrow> (nat \<Rightarrow> ulong) \<Rightarrow>
     ring_status option \<times> xhci_extension" where
  "xhciProgramCommandRing ext base pa trbs crcr reads =
     (if crcr AND XHCI_CRCR_CRR \<noteq> 0 then (Some XHCI_RING_BAD_PARAM, ext)
      else
        let ext = ext\<lparr>CommandNoOpRewrittenPA := 0\<rparr> in
        (case XhciRingInit (Some (CommandRing ext)) base pa trbs XHCI_RING_KIND_COMMAND of
           (status, ring') \<Rightarrow>
             let ext = (case ring' of None \<Rightarrow> ext | Some r \<Rightarrow> ext\<lparr>CommandRing := r\<rparr>) in
             if status \<noteq> XHCI_RING_OK then (Some status, ext)
             else (case XhciWriteCrcr ext (BasePA (CommandRing ext))
                          (if Cycle (CommandRing ext) \<noteq> 0 then XHCI_CRCR_RCS else 0) reads of
                     (ok, ext) \<Rightarrow> (if ok then Some XHCI_RING_OK else None, ext))))"

section \<open>The clocks and the health poll\<close>

definition clock_runs :: "xhci_extension \<Rightarrow> bool" where
  "clock_runs ext \<longleftrightarrow>
     HcInfoStatus ext = XHCI_HC_OK \<and> \<not> ControllerFailed ext \<and>
     Flags ext AND XHCI_EXT_FLAG_READY = XHCI_EXT_FLAG_READY"

definition mfindex_frame :: "ulong \<Rightarrow> ulong" where
  "mfindex_frame mfindex = drop_bit 3 (mfindex AND XHCI_MFINDEX_MASK)"

definition XhciFrameSample :: "xhci_extension \<Rightarrow> ulong \<Rightarrow> xhci_extension" where
  "XhciFrameSample ext mfindex =
     (let ext = ext\<lparr>Clock := (Clock ext)\<lparr>FrameSampleStale := True\<rparr>\<rparr>; c = Clock ext in
      if \<not> FrameSynced c \<or> \<not> clock_runs ext then ext
      else if mfindex = 0xFFFFFFFF
      then ext\<lparr>Clock := c\<lparr>FrameReadFailures := FrameReadFailures c + 1\<rparr>\<rparr>
      else
        let frame = mfindex_frame mfindex in
        ext\<lparr>Clock := c\<lparr>FrameNumber := FrameNumber c + ((frame - FrameLast c) AND XHCI_MFINDEX_FRAME_MASK),
              FrameLast := frame, FrameSamples := FrameSamples c + 1, FrameSampleStale := False\<rparr>\<rparr>)"

definition XhciPollClockAdvance :: "xhci_extension \<Rightarrow> ulong \<Rightarrow> xhci_extension" where
  "XhciPollClockAdvance ext mfindex =
     (let c = Clock ext in
      if \<not> clock_runs ext \<or> mfindex = 0xFFFFFFFF
      then ext\<lparr>Clock := c\<lparr>PollClockSynced := False, PollClockStalls := PollClockStalls c + 1\<rparr>\<rparr>
      else
        let frame = mfindex_frame mfindex;
            ms = (if PollClockSynced c
                  then PollClockMs c + ((frame - PollClockFrame c) AND XHCI_MFINDEX_FRAME_MASK)
                  else PollClockMs c)
        in ext\<lparr>Clock := c\<lparr>PollClockMs := ms, PollClockFrame := frame, PollClockSynced := True\<rparr>\<rparr>)"

definition XhciTolHchRecover :: "bool \<Rightarrow> bool \<Rightarrow> bool \<Rightarrow> bool" where
  "XhciTolHchRecover tolerance hch runs \<longleftrightarrow> tolerance \<and> hch \<and> runs"

text \<open>The two halves of the poll: the status register, and the age of an outstanding command.\<close>

definition health_status :: "xhci_extension \<Rightarrow> ulong \<Rightarrow> bool \<times> xhci_extension" where
  "health_status ext usbsts =
     (if usbsts AND (XHCI_USBSTS_HCE OR XHCI_USBSTS_HSE) \<noteq> 0
      then if \<not> ControllerFatal ext
           then (True, tick FatalStatusDetected_update (ext\<lparr>ControllerFatal := True\<rparr>))
           else (False, ext)
      else if XhciTolHchRecover (Tolerance ext) (usbsts AND XHCI_USBSTS_HCH \<noteq> 0)
                (Flags ext AND (XHCI_EXT_FLAG_RS_CONFIRMED OR XHCI_EXT_FLAG_SUSPENDED) = XHCI_EXT_FLAG_RS_CONFIRMED)
      then if \<not> ControllerFatal ext
           then (True, tick HchRecoveries_update (ext\<lparr>ControllerFatal := True\<rparr>))
           else (False, ext)
      else (False, ext))"

definition begin_abort :: "xhci_extension \<Rightarrow> (nat \<Rightarrow> ulong) \<Rightarrow> xhci_extension" where
  "begin_abort ext reads =
     (case XhciWriteCrcrAbort (ext\<lparr>CommandState := XHCI_CMD_STATE_ABORTING\<rparr>) reads of
        (written, ext) \<Rightarrow> if written then ext else tick CommandAbortsNotWritten_update ext)"

definition health_age :: "xhci_extension \<Rightarrow> (nat \<Rightarrow> ulong) \<Rightarrow> bool \<times> xhci_extension" where
  "health_age ext reads =
     (let now = PollClockMs (Clock ext) in
      if CommandState ext = XHCI_CMD_STATE_IDLE
      then (False, ext\<lparr>CommandAgeStamp := now, CommandAgeEscalated := False,
                       CommandAgeGeneration := CommandGeneration ext\<rparr>)
      else
        let ext = (if CommandAgeGeneration ext \<noteq> CommandGeneration ext
                   then ext\<lparr>CommandAgeGeneration := CommandGeneration ext, CommandAgeStamp := now,
                            CommandAgeEscalated := False\<rparr>
                   else ext)
        in if now - CommandAgeStamp ext \<ge> XHCI_COMMAND_AGE_MS
           then if CommandState ext = XHCI_CMD_STATE_PENDING
                then (False, (begin_abort (tick CommandAgeAborts_update ext) reads)
                               \<lparr>CommandAgeStamp := now, CommandAgeEscalated := False\<rparr>)
                else if \<not> CommandAgeEscalated ext
                then (True, tick CommandAgeResets_update (ext\<lparr>CommandAgeEscalated := True\<rparr>))
                else (False, ext)
           else (False, ext))"

text \<open>\<open>mf1\<close> and \<open>mf2\<close> are the two reads of the microframe index.\<close>

definition XhciControllerHealthPoll ::
    "xhci_extension \<Rightarrow> ulong \<Rightarrow> ulong \<Rightarrow> ulong \<Rightarrow> (nat \<Rightarrow> ulong) \<Rightarrow> bool \<times> xhci_extension" where
  "XhciControllerHealthPoll ext mf1 mf2 usbsts reads =
     (if Signature ext \<noteq> XHCI_EXTENSION_SIGNATURE then (False, ext)
      else if HcInfoStatus ext \<noteq> XHCI_HC_OK \<or> ControllerFailed ext \<or>
              Flags ext AND XHCI_EXT_FLAG_INITIALIZED = 0
      then (False, ext)
      else
        let ext = XhciPollClockAdvance (XhciFrameSample (tick HealthPolls_update ext) mf1) mf2;
            ext = ext\<lparr>LastCheckStatus := usbsts\<rparr>
        in if usbsts = 0xFFFFFFFF then (False, tick HealthPollsDead_update ext)
           else (case health_status ext usbsts of
                   (escalate, ext) \<Rightarrow>
                     (case health_age ext reads of (old, ext) \<Rightarrow> (escalate \<or> old, ext))))"

section \<open>Submitting\<close>

text \<open>
  The region under the lock: the command goes on the ring, becomes the outstanding one and DB[0] is
  rung. The token is the watchdog the caller arms once the lock is released.
\<close>

definition submit_locked ::
    "xhci_extension \<Rightarrow> xhci_trb \<Rightarrow> bool \<Rightarrow> cmd_status \<times> xhci_extension \<times> (ulong \<times> xhci_command_timeout) option" where
  "submit_locked ext command armWitness =
     (if ControllerFailed ext then (XHCI_CMD_FAILED, ext, None)
      else if Flags ext AND XHCI_EXT_FLAG_READY \<noteq> XHCI_EXT_FLAG_READY then (XHCI_CMD_NOT_READY, ext, None)
      else if CommandState ext \<noteq> XHCI_CMD_STATE_IDLE then (XHCI_CMD_BUSY, ext, None)
      else
        (case XhciRingEnqueue (Some (CommandRing ext)) (Some command) of
           (XHCI_RING_OK, Some ring', Some issuedPA) \<Rightarrow>
             let generation = CommandGeneration ext + 1;
                 generation = (if generation = 0 then 1 else generation);
                 ext = ext\<lparr>CommandRing := ring', CommandGeneration := generation,
                           CommandState := XHCI_CMD_STATE_PENDING, CommandTrbPA := issuedPA,
                           CommandType := XHCI_TRB_GET_TYPE (Control command),
                           CommandControl := Control command\<rparr>;
                 ext = tick CommandsIssued_update ext;
                 ext = (if armWitness then ext\<lparr>NoOpTrbPA := issuedPA, NoOpWitnessArmed := True\<rparr> else ext)
             in (XHCI_CMD_OK, emit (Doorbell XHCI_DB_COMMAND 0) ext,
                 Some (issuedPA, \<lparr>Epoch = StartEpoch ext, Generation = generation,
                                 Phase = XHCI_CMD_PHASE_COMMAND, Attempt = 0\<rparr>))
         | (status, _, _) \<Rightarrow>
             (if status = XHCI_RING_FULL then XHCI_CMD_RING_FULL else XHCI_CMD_BAD_TRB, ext, None)))"

definition xhciCommandSubmitEx ::
    "xhci_extension \<Rightarrow> xhci_trb option \<Rightarrow> bool \<Rightarrow> ulong \<Rightarrow> cmd_status \<times> xhci_extension \<times> ulong option" where
  "xhciCommandSubmitEx ext command armWitness answer =
     (case command of
        None \<Rightarrow> (XHCI_CMD_BAD_PARAM, ext, None)
      | Some c \<Rightarrow>
          if Signature ext \<noteq> XHCI_EXTENSION_SIGNATURE then (XHCI_CMD_BAD_PARAM, ext, None)
          else
            let type = XHCI_TRB_GET_TYPE (Control c) in
            if type < XHCI_TRB_TYPE_COMMAND_FIRST \<or> type > XHCI_TRB_TYPE_COMMAND_LAST
            then (XHCI_CMD_BAD_TRB, ext, None)
            else if \<not> xhciCanArmTimer then (XHCI_CMD_NO_TIMER, tick CommandTimerFailures_update ext, None)
            else
              (case submit_locked ext c armWitness of
                 (_, ext, Some (issuedPA, armed)) \<Rightarrow>
                   (XHCI_CMD_OK, xhciArmCommandTimer ext XHCI_COMMAND_TIMEOUT_MS armed answer, Some issuedPA)
               | (status, ext, None) \<Rightarrow> (status, ext, None)))"

definition XhciCommandSubmit ::
    "xhci_extension \<Rightarrow> xhci_trb option \<Rightarrow> ulong \<Rightarrow> cmd_status \<times> xhci_extension \<times> ulong option" where
  "XhciCommandSubmit ext command answer = xhciCommandSubmitEx ext command False answer"

definition XhciCommandNoOpSelfTest :: "xhci_extension \<Rightarrow> ulong \<Rightarrow> cmd_status \<times> xhci_extension" where
  "XhciCommandNoOpSelfTest ext answer =
     (case xhciCommandSubmitEx (ext\<lparr>NoOpTrbPA := 0\<rparr>) (Some (XhciTrbNoOpCommand zero_trb)) True answer of
        (status, ext, _) \<Rightarrow> (status, ext\<lparr>NoOpStatus := status\<rparr>))"


section \<open>Command Completion Events\<close>

definition retire_ring :: "xhci_ring \<Rightarrow> ulong \<Rightarrow> ulong \<Rightarrow> xhci_ring option" where
  "retire_ring ring pointer code =
     (case XhciRingClassifyEvent (Some ring) pointer code of
        Inl _ \<Rightarrow> None
      | Inr completion \<Rightarrow>
          if \<not> CanRetire completion then None
          else (case XhciRingRetireTd (Some ring) (Some completion) of
                  (XHCI_RING_OK, ring') \<Rightarrow> ring'
                | _ \<Rightarrow> None))"

definition xhciRetireCommand :: "xhci_extension \<Rightarrow> ulong \<Rightarrow> ulong \<Rightarrow> xhci_extension" where
  "xhciRetireCommand ext pointer code =
     (let ring = CommandRing ext;
          ext = (case retire_ring ring pointer code of
                   Some ring' \<Rightarrow> ext\<lparr>CommandRing := ring'\<rparr>
                 | None \<Rightarrow>
                     (tick CommandsBadCompletion_update ext)
                       \<lparr>CommandRing :=
                          (case snd (XhciRingSetDequeue (Some ring) (XhciRingTrbPA ring (Enqueue ring))) of
                             None \<Rightarrow> ring | Some ring' \<Rightarrow> ring')\<rparr>)
      in if CommandNoOpRewrittenPA ext \<noteq> 0 \<and>
            (case XhciRingIndexFromPA (CommandRing ext) (CommandNoOpRewrittenPA ext) of
               Inl _ \<Rightarrow> True
             | Inr noOpIndex \<Rightarrow> \<not> XhciRingIsOutstanding (Some (CommandRing ext)) noOpIndex)
         then ext\<lparr>CommandNoOpRewrittenPA := 0\<rparr> else ext)"

text \<open>The result says whether the event named the rewritten No Op or the outstanding command.\<close>

definition xhciCommandCompleted ::
    "xhci_extension \<Rightarrow> ulong \<Rightarrow> ulong \<Rightarrow> ulong \<Rightarrow> bool \<times> xhci_extension" where
  "xhciCommandCompleted ext pointer code control =
     (if CommandNoOpRewrittenPA ext \<noteq> 0 \<and> pointer = CommandNoOpRewrittenPA ext
      then (True, xhciRetireCommand (ext\<lparr>CommandNoOpRewrittenPA := 0\<rparr>) pointer code)
      else if CommandTrbPA ext = 0 \<or> pointer \<noteq> CommandTrbPA ext
      then (False, tick CommandsUnmatched_update ext)
      else
        let ext = xhciRetireCommand ext pointer code;
            ext = snd (xhciCommandWitnessSelfTest ext pointer);
            ext = ext\<lparr>LastCommandTrbPA := pointer, CommandCompletionCode := code,
                      CommandSlotId := XHCI_TRB_GET_SLOT_ID control\<rparr>;
            ext = tick CommandsCompleted_update (xhciCommandEndOutstanding ext);
            ext = XhciSlotCommandEvent ext code control
        in (True, if CommandState ext = XHCI_CMD_STATE_PENDING
                  then ext\<lparr>CommandState := XHCI_CMD_STATE_IDLE\<rparr> else ext))"

definition xhciCommandAborted :: "xhci_extension \<Rightarrow> ulong \<Rightarrow> xhci_extension" where
  "xhciCommandAborted ext pointer =
     (let ext = tick CommandsAborted_update ext in
      if CommandTrbPA ext = 0 \<or> pointer \<noteq> CommandTrbPA ext then tick CommandsUnmatched_update ext
      else
        let ext = ext\<lparr>LastCommandTrbPA := pointer, CommandCompletionCode := XHCI_CC_COMMAND_ABORTED\<rparr>;
            ext = XhciSlotCommandLost (xhciCommandEndOutstanding ext)
        in ext\<lparr>CommandState := XHCI_CMD_STATE_ABORTING\<rparr>)"

definition ring_diverged :: "xhci_extension \<Rightarrow> cmd_action \<times> xhci_extension" where
  "ring_diverged ext =
     (XHCI_CMD_ACTION_RESET, tick CommandResetRequests_update (tick CommandRingDiverged_update ext))"

text \<open>The command still outstanding when the ring stops will never complete.\<close>

definition stop_abandons :: "xhci_extension \<Rightarrow> xhci_extension" where
  "stop_abandons ext =
     (if CommandTrbPA ext \<noteq> 0
      then XhciSlotCommandLost
             (xhciCommandEndOutstanding
               (ext\<lparr>LastCommandTrbPA := CommandTrbPA ext, CommandCompletionCode := XHCI_CC_COMMAND_RING_STOPPED\<rparr>))
      else ext)"

text \<open>A stop reported on the Link TRB is a stop at the first TRB.\<close>

definition stop_position :: "xhci_ring \<Rightarrow> ulong \<Rightarrow> ulong" where
  "stop_position ring pointer =
     (if pointer = XhciRingTrbPA ring (Trbs ring - 1) then XhciRingTrbPA ring 0 else pointer)"

definition rewrite_abandoned :: "xhci_ring \<Rightarrow> ulong \<Rightarrow> xhci_ring option" where
  "rewrite_abandoned ring pointer =
     (case XhciRingIndexFromPA ring pointer of
        Inl _ \<Rightarrow> None
      | Inr index \<Rightarrow>
          (case XhciRingNoOpAtType (Some ring) index XHCI_TRB_TYPE_NOOP_COMMAND of
             (XHCI_RING_OK, ring') \<Rightarrow> ring'
           | _ \<Rightarrow> None))"

definition stop_settles :: "xhci_extension \<Rightarrow> ulong \<Rightarrow> cmd_action \<times> xhci_extension" where
  "stop_settles ext pointer =
     (case XhciRingSetDequeue (Some (CommandRing ext)) pointer of
        (XHCI_RING_OK, Some ring') \<Rightarrow>
          (XHCI_CMD_ACTION_NONE, ext\<lparr>CommandRing := ring', CommandState := XHCI_CMD_STATE_IDLE\<rparr>)
      | _ \<Rightarrow> ring_diverged ext)"

definition xhciCommandRingStopped :: "xhci_extension \<Rightarrow> ulong \<Rightarrow> cmd_action \<times> xhci_extension" where
  "xhciCommandRingStopped ext pointer =
     (let ext = tick CommandRingStops_update ext in
      if CommandState ext \<noteq> XHCI_CMD_STATE_ABORTING then ring_diverged ext
      else
        let abandoned = CommandTrbPA ext;
            ext = stop_abandons ext;
            pointer = stop_position (CommandRing ext) pointer
        in if abandoned \<noteq> 0 \<and> CommandNoOpRewrittenPA ext \<noteq> 0 then ring_diverged ext
           else if abandoned \<noteq> 0 \<and> pointer = abandoned
           then (case rewrite_abandoned (CommandRing ext) pointer of
                   None \<Rightarrow> ring_diverged ext
                 | Some ring' \<Rightarrow>
                     stop_settles (tick CommandRingStoppedOnAbandoned_update
                       (ext\<lparr>CommandRing := ring', CommandNoOpRewrittenPA := pointer\<rparr>)) pointer)
           else stop_settles ext pointer)"

text \<open>The result asks the caller, which holds the lock, for a controller reset.\<close>

definition XhciCommandEvent :: "xhci_extension \<Rightarrow> xhci_trb option \<Rightarrow> bool \<times> xhci_extension" where
  "XhciCommandEvent ext event =
     (case event of
        None \<Rightarrow> (False, ext)
      | Some ev \<Rightarrow>
          let code = XHCI_TRB_GET_COMPLETION (Status ev) in
          if Param1 ev \<noteq> 0 then (False, tick CommandsUnmatched_update ext)
          else
            let ext = (if Param0 ev AND 0xF \<noteq> 0 then tick CommandsReservedBitsSet_update ext else ext);
                pointer = Param0 ev AND NOT 0xF;
                (action, matched, ext) =
                  (if code = XHCI_CC_COMMAND_RING_STOPPED
                   then (case xhciCommandRingStopped ext pointer of (action, ext) \<Rightarrow> (action, False, ext))
                   else if code = XHCI_CC_COMMAND_ABORTED
                   then (XHCI_CMD_ACTION_NONE, False, xhciCommandAborted ext pointer)
                   else (case xhciCommandCompleted ext pointer code (Control ev) of
                           (matched, ext) \<Rightarrow> (XHCI_CMD_ACTION_NONE, matched, ext)));
                (known, info) = XhciXferCodeInfo code;
                ext = (if known \<and> SlotFatal info \<and> matched
                       then XhciSlotCommandSlotFatal ext code (Control ev) else ext);
                (action, ext) =
                  (if known \<and> Fatal info
                   then (XHCI_CMD_ACTION_RESET,
                         tick CommandResetRequests_update (tick CommandsFatal_update ext))
                   else (action, ext))
            in (action = XHCI_CMD_ACTION_RESET, ext))"

section \<open>The watchdog\<close>

text \<open>The region under the lock; \<open>crcr\<close> is the read of the abort phase.\<close>

definition timeout_locked ::
    "xhci_extension \<Rightarrow> xhci_command_timeout \<Rightarrow> (nat \<Rightarrow> ulong) \<Rightarrow> ulong \<Rightarrow>
     cmd_action \<times> xhci_extension \<times> xhci_command_timeout" where
  "timeout_locked ext timeout reads crcr =
     (let armed = \<lparr>Epoch = 0, Generation = 0, Phase = XHCI_CMD_PHASE_ABORT, Attempt = 0\<rparr> in
      if Signature ext \<noteq> XHCI_EXTENSION_SIGNATURE \<or> TrailingSignature ext \<noteq> XHCI_EXTENSION_TRAILING \<or>
         Epoch timeout = 0 \<or> Epoch timeout \<noteq> StartEpoch ext
      then (XHCI_CMD_ACTION_NONE, ext, armed)
      else
        let ext = tick CommandTimeoutArrivals_update ext;
            armed = armed\<lparr>Epoch := StartEpoch ext, Generation := CommandGeneration ext\<rparr>
        in if ControllerFailed ext
           then (XHCI_CMD_ACTION_NONE, tick CommandsAfterFailure_update ext, armed)
           else if Generation timeout \<noteq> CommandGeneration ext \<or> Flags ext AND XHCI_EXT_FLAG_INITIALIZED = 0
           then (XHCI_CMD_ACTION_NONE, tick CommandStaleCallbacks_update ext, armed)
           else if Phase timeout = XHCI_CMD_PHASE_COMMAND \<and> CommandState ext = XHCI_CMD_STATE_PENDING
           then (XHCI_CMD_ACTION_ARM, begin_abort (tick CommandsTimedOut_update ext) reads, armed)
           else if Phase timeout = XHCI_CMD_PHASE_ABORT \<and> CommandState ext = XHCI_CMD_STATE_ABORTING
           then if crcr AND XHCI_CRCR_CRR \<noteq> 0 \<or> Attempt timeout \<ge> XHCI_COMMAND_ABORT_WAITS
                then (XHCI_CMD_ACTION_RESET, tick CommandResetRequests_update ext, armed)
                else (XHCI_CMD_ACTION_ARM, tick CommandAbortWaits_update ext,
                      armed\<lparr>Attempt := Attempt timeout + 1\<rparr>)
           else (XHCI_CMD_ACTION_NONE, tick CommandStaleCallbacks_update ext, armed))"

definition xhciCommandTimeout ::
    "xhci_extension \<Rightarrow> xhci_command_timeout option \<Rightarrow> (nat \<Rightarrow> ulong) \<Rightarrow> ulong \<Rightarrow> ulong \<Rightarrow> xhci_extension" where
  "xhciCommandTimeout ext context reads crcr answer =
     (case context of
        None \<Rightarrow> ext
      | Some timeout \<Rightarrow>
          (case timeout_locked ext timeout reads crcr of
             (XHCI_CMD_ACTION_ARM, ext, armed) \<Rightarrow> xhciArmCommandTimer ext XHCI_COMMAND_ABORT_MS armed answer
           | (XHCI_CMD_ACTION_RESET, ext, _) \<Rightarrow> XhciRequestControllerReset ext
           | (XHCI_CMD_ACTION_NONE, ext, _) \<Rightarrow> ext))"

end
