(* ===== verification/Xhci_Cmd_Ring.thy ===== *)
theory Xhci_Cmd_Ring
  imports Xhci_Cmd Xhci_Ring_Moves
begin

text \<open>
  The interface between the command engine and its ring. The engine knows a TRB by its physical
  address, so its view of the ring is the list of outstanding TRBs as pairs of address and TRB type.
  The locale states what the four ring calls of the engine do to that list; the facts the engine's
  invariant needs are proved in it once, and the interpretation discharges its laws for
  \<open>XhciRingEnqueue\<close>, \<open>XhciRingClassifyEvent\<close>, \<open>XhciRingRetireTd\<close>, \<open>XhciRingSetDequeue\<close> and
  \<open>XhciRingNoOpAtType\<close> on every reachable ring.
\<close>

definition is_command :: "xhci_trb \<Rightarrow> bool" where
  "is_command c \<longleftrightarrow>
     XHCI_TRB_TYPE_COMMAND_FIRST \<le> XHCI_TRB_GET_TYPE (Control c) \<and>
     XHCI_TRB_GET_TYPE (Control c) \<le> XHCI_TRB_TYPE_COMMAND_LAST"

section \<open>The contract\<close>

locale command_queue =
  fixes inv :: "'r \<Rightarrow> bool"
    and view :: "'r \<Rightarrow> (ulong \<times> ulong) list"
    and tail :: "'r \<Rightarrow> ulong"
    and put :: "'r \<Rightarrow> xhci_trb \<Rightarrow> ('r \<times> ulong) option"
    and retire :: "'r \<Rightarrow> ulong \<Rightarrow> ulong \<Rightarrow> 'r option"
    and cut :: "'r \<Rightarrow> ulong \<Rightarrow> 'r option"
    and rewrite :: "'r \<Rightarrow> ulong \<Rightarrow> 'r option"
  assumes put_law: "inv r \<Longrightarrow> is_command c \<Longrightarrow> put r c = Some (r', pa) \<Longrightarrow>
      inv r' \<and> pa = tail r \<and> pa \<noteq> 0 \<and> view r' = view r @ [(pa, XHCI_TRB_GET_TYPE (Control c))]"
    and addresses: "inv r \<Longrightarrow> distinct (map fst (view r)) \<and> tail r \<notin> fst ` set (view r) \<and> 0 \<notin> fst ` set (view r)"
    and retire_law: "inv r \<Longrightarrow> retire r p code = Some r' \<Longrightarrow> inv r' \<and> (\<exists>xs t. view r = xs @ (p, t) # view r')"
    and cut_law: "inv r \<Longrightarrow> cut r p = Some r' \<Longrightarrow>
      inv r' \<and> (p = tail r \<and> view r' = [] \<or> (\<exists>xs t ys. view r = xs @ view r' \<and> view r' = (p, t) # ys))"
    and cut_tail: "inv r \<Longrightarrow> \<exists>r'. cut r (tail r) = Some r'"
    and rewrite_law: "inv r \<Longrightarrow> rewrite r p = Some r' \<Longrightarrow>
      inv r' \<and> (\<exists>xs t ys. view r = xs @ (p, t) # ys \<and> view r' = xs @ (p, XHCI_TRB_TYPE_NOOP_COMMAND) # ys)"
begin

text \<open>What the engine does with a completion: retire the TRB, or drop everything outstanding.\<close>

definition settle :: "'r \<Rightarrow> ulong \<Rightarrow> ulong \<Rightarrow> 'r" where
  "settle r p code =
     (case retire r p code of Some r' \<Rightarrow> r' | None \<Rightarrow> (case cut r (tail r) of Some r' \<Rightarrow> r' | None \<Rightarrow> r))"

lemma split_at_address:
  assumes "distinct (map fst (as @ (p, t) # bs))" and "as @ (p, t) # bs = xs @ (p, u) # ys"
  shows "as = xs \<and> t = u \<and> bs = ys"
  using assms
proof (induction as arbitrary: xs)
  case Nil
  then show ?case by (cases xs) auto
next
  case (Cons a as)
  show ?case
  proof (cases xs)
    case Nil
    with Cons.prems show ?thesis by auto
  next
    case (Cons b xs')
    have "distinct (map fst (as @ (p, t) # bs))"
      using Cons.prems(1) by simp
    moreover have "a = b" "as @ (p, t) # bs = xs' @ (p, u) # ys"
      using Cons.prems(2) unfolding Cons by simp_all
    ultimately
    show ?thesis using Cons.IH [of xs'] Cons by blast
  qed
qed

lemma cut_tail_empty:
  assumes "inv r" and "cut r (tail r) = Some r'"
  shows "inv r' \<and> view r' = []"
  using cut_law [OF assms] addresses [OF assms(1)] by auto

lemma retire_at:
  assumes i: "inv r" and v: "view r = xs @ (p, t) # ys" and s: "retire r p code = Some r'"
  shows "inv r' \<and> view r' = ys"
proof -
  obtain xs' t' where w: "view r = xs' @ (p, t') # view r'" "inv r'"
    using retire_law [OF i s] by blast
  have "distinct (map fst (xs @ (p, t) # ys))"
    using addresses [OF i] unfolding v by blast
  from split_at_address [OF this] w show ?thesis unfolding v by blast
qed

lemma settle_at:
  assumes i: "inv r" and v: "view r = xs @ (p, t) # ys"
  shows "inv (settle r p code) \<and> (view (settle r p code) = ys \<or> view (settle r p code) = [])"
  using retire_at [OF i v] cut_tail_empty [OF i] cut_tail [OF i]
  by (cases "retire r p code") (auto simp: settle_def split: option.split)

lemma settle_absent:
  assumes i: "inv r" and v: "p \<notin> fst ` set (view r)"
  shows "inv (settle r p code) \<and> view (settle r p code) = []"
proof (cases "retire r p code")
  case None
  then show ?thesis
    using cut_tail_empty [OF i] cut_tail [OF i] by (auto simp: settle_def)
next
  case (Some r')
  then show ?thesis using retire_law [OF i Some] v by force
qed

lemma rewrite_only:
  assumes i: "inv r" and v: "view r = [(p, t)]" and s: "rewrite r p = Some r'"
  shows "inv r' \<and> view r' = [(p, XHCI_TRB_TYPE_NOOP_COMMAND)]"
proof -
  obtain xs u ys where "view r = xs @ (p, u) # ys" "view r' = xs @ (p, XHCI_TRB_TYPE_NOOP_COMMAND) # ys" "inv r'"
    using rewrite_law [OF i s] by blast
  then show ?thesis using v by (auto simp: Cons_eq_append_conv)
qed

lemma rewrite_absent: "inv r \<Longrightarrow> view r = [] \<Longrightarrow> rewrite r p = None"
  using rewrite_law [of r p] by (cases "rewrite r p") auto

lemma cut_single:
  assumes i: "inv r" and v: "view r = [(p, t)]" and s: "cut r q = Some r'"
  shows "inv r' \<and> (if q = p then view r' = view r else view r' = [])"
proof -
  from cut_law [OF i s] consider "q = tail r" "view r' = []"
    | xs u ys where "view r = xs @ view r'" "view r' = (q, u) # ys" by blast
  then show ?thesis
  proof cases
    case 1
    then show ?thesis using cut_law [OF i s] addresses [OF i] v by auto
  next
    case 2
    then show ?thesis using cut_law [OF i s] v by (auto simp: Cons_eq_append_conv)
  qed
qed

lemma cut_empty: "inv r \<Longrightarrow> view r = [] \<Longrightarrow> cut r q = Some r' \<Longrightarrow> inv r' \<and> view r' = []"
  using cut_law [of r q r'] by auto

end

section \<open>The ring provides it\<close>

definition ring_addresses :: "xhci_ring \<Rightarrow> ulong list" where
  "ring_addresses r = map (\<lambda>y. BasePA r + of_nat (pos r y) * 16) [0..<used r]"

definition command_view :: "xhci_ring \<Rightarrow> (ulong \<times> ulong) list" where
  "command_view r = zip (ring_addresses r) (map (\<lambda>t. XHCI_TRB_GET_TYPE (Control t)) (pending r))"

definition ring_tail :: "xhci_ring \<Rightarrow> ulong" where
  "ring_tail r = XhciRingTrbPA r (Enqueue r)"

definition command_put :: "xhci_ring \<Rightarrow> xhci_trb \<Rightarrow> (xhci_ring \<times> ulong) option" where
  "command_put r c =
     (case XhciRingEnqueue (Some r) (Some c) of
        (XHCI_RING_OK, Some r', Some pa) \<Rightarrow> Some (r', pa) | _ \<Rightarrow> None)"

definition command_cut :: "xhci_ring \<Rightarrow> ulong \<Rightarrow> xhci_ring option" where
  "command_cut r p = (case XhciRingSetDequeue (Some r) p of (XHCI_RING_OK, ring') \<Rightarrow> ring' | _ \<Rightarrow> None)"

lemma length_addresses [simp]: "length (ring_addresses r) = used r"
  by (simp add: ring_addresses_def)

lemma length_view [simp]: "length (command_view r) = used r"
  by (simp add: command_view_def)

lemma view_addresses: "map fst (command_view r) = ring_addresses r"
  by (simp add: command_view_def map_fst_zip)

lemma type_strip [simp]: "XHCI_TRB_GET_TYPE (Control (strip_cycle t)) = XHCI_TRB_GET_TYPE (Control t)"
proof -
  have "drop_bit 10 (Control t AND NOT 1) AND 0x3F = drop_bit 10 (Control t) AND (0x3F :: ulong)"
    by (rule bit_eqI)
      (simp only: bit_and_iff bit_drop_bit_eq bit_not_iff bit_mask_1 o_def, auto dest: bit_imp_le_length)
  then show ?thesis by (simp add: strip_cycle_def XHCI_TRB_GET_TYPE_def)
qed

lemma unat_pos:
  assumes "ring_geom r"
  shows "unat (of_nat (pos r y) :: ulong) = pos r y"
  using pos_less [OF assms, of y] geom_bounds(2) [OF assms] by (simp add: unat_of_nat take_bit_nat_eq_self)

lemma tail_address:
  assumes g: "ring_geom r"
  shows "ring_tail r = BasePA r + of_nat (pos r (used r)) * 16"
proof -
  have "Enqueue r = of_nat (pos r (used r))"
    using enq_eq [OF g] unat_pos [OF g, of "used r"] unat_eq_iff [of "Enqueue r" "of_nat (pos r (used r))"]
    by (simp add: pos_def enq_def)
  moreover have "\<not> Trbs r \<le> Enqueue r"
    using geom_bounds(3,5) [OF g] by (simp add: word_le_nat_alt enq_def)
  ultimately show ?thesis by (simp add: ring_tail_def XhciRingTrbPA_def)
qed

lemma address_inj:
  assumes g: "ring_geom r" and "x \<le> used r" "y \<le> used r"
    and "BasePA r + of_nat (pos r x) * 16 = BasePA r + (of_nat (pos r y) * 16 :: ulong)"
  shows "x = y"
proof -
  have "XhciRingIndexFromPA r (BasePA r + of_nat (pos r z) * 16) = Inr (of_nat (pos r z))" for z
    using index_of_pa [OF g, of "of_nat (pos r z)"] unat_pos [OF g, of z] pos_less [OF g, of z] by simp
  then have "(of_nat (pos r x) :: ulong) = of_nat (pos r y)"
    using assms(4) by (metis sum.inject(2))
  then have "off r (of_nat (pos r x)) = off r (of_nat (pos r y))" by simp
  moreover have "off r (of_nat (pos r z)) = z" if "z \<le> used r" for z
    using off_of_pos [OF g, of z "of_nat (pos r z)"] unat_pos [OF g, of z] that geom_bounds(8) [OF g] by simp
  ultimately show ?thesis using assms(2,3) by simp
qed

lemma address_nonzero:
  assumes g: "ring_geom r"
  shows "BasePA r + of_nat (pos r y) * 16 \<noteq> 0"
proof -
  have "unat (BasePA r + of_nat (pos r y) * 16) = unat (BasePA r) + 16 * pos r y"
    using unat_trb_pa [OF g, of "of_nat (pos r y)"] unat_pos [OF g, of y] pos_less [OF g, of y] by simp
  moreover have "unat (BasePA r) \<noteq> 0"
    using geom_segment(3) [OF g] unat_eq_iff [of "BasePA r" 0] by simp
  ultimately show ?thesis by (metis add_is_0 unat_0)
qed

lemma ring_addresses_law:
  assumes "ring_reachable r"
  shows "distinct (map fst (command_view r)) \<and> ring_tail r \<notin> fst ` set (command_view r) \<and>
     0 \<notin> fst ` set (command_view r)"
proof -
  have g: "ring_geom r" by (rule reachable_geom [OF assms])
  have "fst ` set (command_view r) = set (ring_addresses r)"
    using view_addresses [of r] by (metis list.set_map)
  moreover have "distinct (ring_addresses r)"
    unfolding ring_addresses_def distinct_map using address_inj [OF g] by (auto intro!: inj_onI)
  moreover have "ring_tail r \<notin> set (ring_addresses r)"
  proof
    assume "ring_tail r \<in> set (ring_addresses r)"
    then obtain y where "y < used r" "BasePA r + of_nat (pos r y) * 16 = ring_tail r"
      unfolding ring_addresses_def by auto
    then show False using address_inj [OF g, of y "used r"] tail_address [OF g] by simp
  qed
  moreover have "0 \<notin> set (ring_addresses r)"
    using address_nonzero [OF g] by (auto simp: ring_addresses_def dest: sym)
  ultimately show ?thesis by (simp add: view_addresses)
qed

lemma moved_view:
  assumes r: "ring_reachable r" and d: "unat d = pos r x" and x: "x \<le> used r"
  shows "command_view (r\<lparr>Dequeue := d\<rparr>) = drop x (command_view r)"
proof -
  let ?r = "r\<lparr>Dequeue := d\<rparr>"
  note m = move_dequeue [OF reachable_inv [OF r] d x]
  have p: "pos ?r y = pos r (x + y)" for y
    using d by (simp add: pos_def ring_view_defs mod_add_left_eq add.assoc)
  have "ring_addresses ?r = drop x (ring_addresses r)"
    using x by (intro nth_equalityI) (auto simp: ring_addresses_def m(2) p nth_upt less_diff_conv add.commute)
  then show ?thesis
    by (simp add: command_view_def m(3) drop_zip drop_map)
qed

lemma view_nth:
  assumes "x < used r"
  shows "\<exists>t. command_view r ! x = (BasePA r + of_nat (pos r x) * 16, t)"
  using assms by (simp add: command_view_def ring_addresses_def)

lemma view_split:
  assumes "x < used r"
  shows "\<exists>t. command_view r = take x (command_view r) @ (BasePA r + of_nat (pos r x) * 16, t) # drop (Suc x) (command_view r)"
  using view_nth [OF assms] id_take_nth_drop [of x "command_view r"] assms by auto

lemma ring_retire_law:
  assumes r: "ring_reachable r" and s: "retire_ring r p code = Some r'"
  shows "ring_reachable r' \<and> (\<exists>xs t. command_view r = xs @ (p, t) # command_view r')"
proof -
  have inv: "ring_inv r" and g: "ring_geom r"
    using reachable_inv [OF r] reachable_geom [OF r] by auto
  obtain c where c: "XhciRingClassifyEvent (Some r) p code = Inr c" "CanRetire c"
      "XhciRingRetireTd (Some r) (Some c) = (XHCI_RING_OK, Some r')"
    using s by (auto simp: retire_ring_def split: sum.splits if_splits prod.splits ring_status.splits)
  obtain i where i: "XhciRingIndexFromPA r p = Inr i" "TailIndex c = i"
    using c(1,2) by (auto simp: XhciRingClassifyEvent_def split: if_splits sum.splits prod.splits)
  have out: "xhciRingIsOutstanding r i" and r': "r' = r\<lparr>Dequeue := xhciRingNext r i\<rparr>"
    using retire_td_cases [OF c(3)] i(2) by auto
  have o: "off r i < used r" "unat i < slots r"
    using out outstanding_off [OF g] by auto
  have "of_nat (pos r (off r i)) = i"
    using pos_off [OF g o(2)] unat_pos [OF g, of "off r i"] unat_eq_iff [of i "of_nat (pos r (off r i))"] by simp
  then have "BasePA r + of_nat (pos r (off r i)) * 16 = p"
    using pa_of_index [OF g i(1)] by simp
  moreover have "command_view r' = drop (Suc (off r i)) (command_view r)"
    unfolding r' by (rule moved_view [OF r next_of_outstanding [OF inv out]])
  ultimately show ?thesis
    using view_split [OF o(1)] ring_reachable.step [OF r ring_step.retire [OF c(3)]] by metis
qed

lemma ring_cut_law:
  assumes r: "ring_reachable r" and s: "command_cut r p = Some r'"
  shows "ring_reachable r' \<and>
     (p = ring_tail r \<and> command_view r' = [] \<or>
      (\<exists>xs t ys. command_view r = xs @ command_view r' \<and> command_view r' = (p, t) # ys))"
proof -
  have inv: "ring_inv r" and g: "ring_geom r"
    using reachable_inv [OF r] reachable_geom [OF r] by auto
  have c: "XhciRingSetDequeue (Some r) p = (XHCI_RING_OK, Some r')"
    using s by (auto simp: command_cut_def split: prod.splits ring_status.splits)
  then obtain i x where ix: "XhciRingIndexFromPA r p = Inr i" "unat i = pos r x" "x \<le> used r"
      "r' = r\<lparr>Dequeue := i\<rparr>"
    using set_dequeue_cases [OF inv c] by auto
  have "of_nat (pos r x) = i"
    using ix(2) unat_pos [OF g, of x] unat_eq_iff [of i "of_nat (pos r x)"] by simp
  then have p: "BasePA r + of_nat (pos r x) * 16 = p"
    using pa_of_index [OF g ix(1)] by simp
  have v: "command_view r' = drop x (command_view r)"
    unfolding ix(4) by (rule moved_view [OF r ix(2,3)])
  have "ring_reachable r'" by (rule ring_reachable.step [OF r ring_step.set_dequeue [OF c]])
  moreover have "p = ring_tail r \<and> command_view r' = []" if "x = used r"
    using v p tail_address [OF g] that by simp
  moreover have "\<exists>xs t ys. command_view r = xs @ command_view r' \<and> command_view r' = (p, t) # ys" if "x \<noteq> used r"
  proof -
    have x: "x < used r" using ix(3) that by simp
    obtain t where "command_view r ! x = (p, t)" using view_nth [OF x] p by auto
    then have "command_view r' = (p, t) # drop (Suc x) (command_view r)"
      using Cons_nth_drop_Suc [of x "command_view r"] x v by simp
    moreover have "command_view r = take x (command_view r) @ command_view r'"
      using v by simp
    ultimately show ?thesis by blast
  qed
  ultimately show ?thesis by blast
qed

lemma ring_cut_tail:
  assumes "ring_reachable r"
  shows "\<exists>r'. command_cut r (ring_tail r) = Some r'"
proof -
  have g: "ring_geom r" by (rule reachable_geom [OF assms])
  note b = geom_bounds [OF g]
  have "ring_tail r = BasePA r + Enqueue r * 16"
    using b(3,5) by (simp add: ring_tail_def XhciRingTrbPA_def word_le_nat_alt enq_def)
  moreover have "\<not> Trbs r - 1 \<le> Enqueue r"
    using b(3) unat_Trbs_1 [OF g] by (simp add: word_le_nat_alt enq_def)
  ultimately show ?thesis
    using index_of_pa [OF g, of "Enqueue r"] b(3)
    by (simp add: command_cut_def XhciRingSetDequeue_def enq_def)
qed

lemma command_put_law:
  assumes r: "ring_reachable r" and c: "is_command c" and s: "command_put r c = Some (r', pa)"
  shows "ring_reachable r' \<and> pa = ring_tail r \<and> pa \<noteq> 0 \<and>
     command_view r' = command_view r @ [(pa, XHCI_TRB_GET_TYPE (Control c))]"
proof -
  have inv: "ring_inv r" and g: "ring_geom r"
    using reachable_inv [OF r] reachable_geom [OF r] by auto
  note b = geom_bounds [OF g]
  have nl: "\<not> is_link c" using c by (auto simp: is_command_def is_link_def)
  have call: "XhciRingEnqueueTd (Some r) (Some [c]) 1 = (XHCI_RING_OK, Some r', Some pa)"
    using s by (auto simp: command_put_def XhciRingEnqueue_def split: prod.splits ring_status.splits option.splits)
  then obtain p log where grp: "XhciRingEnqueueTdGroup (Some r) (Some [c]) 1 (Some [1]) 1 = (XHCI_RING_OK, Some r', p, log)"
    by (auto simp: XhciRingEnqueueTd_def split: prod.splits)
  have room: "Suc (used r) < slots r"
    using enqueue_group_ok(3) [OF grp] has_room_iff [OF g, of 1] by simp
  have pa: "pa = ring_tail r"
    using call enqueue_group_ok(6) [OF grp] grp b(3,5)
    by (auto simp: XhciRingEnqueueTd_def ring_tail_def XhciRingTrbPA_def word_le_nat_alt enq_def)
  have e: "enqueued r [c] r'"
    using enqueue_group_inv(2) [OF inv _ _ grp] nl by simp
  have k: "used r + length [c] < slots r" using room by simp
  note u = enqueued_used [OF g e k]
  have "pos r' y = pos r y" "BasePA r' = BasePA r" for y
    using u(2,3) e by (simp_all add: pos_def enqueued_def Let_def)
  then have "ring_addresses r' = ring_addresses r @ [pa]"
    using u(1) tail_address [OF g] pa by (simp add: ring_addresses_def)
  then have "command_view r' = command_view r @ [(pa, XHCI_TRB_GET_TYPE (Control c))]"
    using enqueued_pending [OF g e k] by (simp add: command_view_def)
  moreover have "ring_reachable r'"
    using ring_reachable.step [OF r ring_step.enqueue [OF grp]] nl by simp
  ultimately show ?thesis
    using pa tail_address [OF g] address_nonzero [OF g] by simp
qed

lemma noop_type:
  "XHCI_TRB_GET_TYPE (Control (noop_trb XHCI_TRB_TYPE_NOOP_COMMAND t)) = XHCI_TRB_TYPE_NOOP_COMMAND"
  by (simp add: noop_trb_def trb_get_or trb_get_put XHCI_TRB_TYPE_def XHCI_TRB_GET_TYPE_def and_1_of_bool)

lemma ring_rewrite_law:
  assumes r: "ring_reachable r" and s: "rewrite_abandoned r p = Some r'"
  shows "ring_reachable r' \<and>
     (\<exists>xs t ys. command_view r = xs @ (p, t) # ys \<and> command_view r' = xs @ (p, XHCI_TRB_TYPE_NOOP_COMMAND) # ys)"
proof -
  have inv: "ring_inv r" and g: "ring_geom r"
    using reachable_inv [OF r] reachable_geom [OF r] by auto
  obtain i where i: "XhciRingIndexFromPA r p = Inr i"
      "XhciRingNoOpAtType (Some r) i XHCI_TRB_TYPE_NOOP_COMMAND = (XHCI_RING_OK, Some r')"
    using s by (auto simp: rewrite_abandoned_def split: sum.splits prod.splits ring_status.splits)
  have out: "xhciRingIsOutstanding r i" and
    r': "r' = r\<lparr>Base := (Base r)[unat i := noop_trb XHCI_TRB_TYPE_NOOP_COMMAND (Base r ! unat i),
             slots r := (if Suc (unat i) = slots r then unchain (Base r ! slots r) else Base r ! slots r)]\<rparr>"
    using noop_cases [OF g i(2)] by auto
  note n = noop_inv [OF inv out disjI2 [OF refl] r']
  have o: "off r i < used r" "unat i < slots r"
    using out outstanding_off [OF g] by auto
  have "of_nat (pos r (off r i)) = i"
    using pos_off [OF g o(2)] unat_pos [OF g, of "off r i"] unat_eq_iff [of i "of_nat (pos r (off r i))"] by simp
  then have p: "ring_addresses r ! off r i = p"
    using pa_of_index [OF g i(1)] o(1) by (simp add: ring_addresses_def)
  have "pos r' y = pos r y" "BasePA r' = BasePA r" for y
    by (simp_all add: r' pos_def ring_view_defs)
  then have "ring_addresses r' = ring_addresses r"
    using n(2) by (simp add: ring_addresses_def)
  then have v': "command_view r' = (command_view r)[off r i := (p, XHCI_TRB_TYPE_NOOP_COMMAND)]"
    using n(3) p o(1) noop_type
    by (intro nth_equalityI) (auto simp: command_view_def nth_list_update)
  obtain t where "command_view r ! off r i = (p, t)"
    using p o(1) by (simp add: command_view_def)
  then have "command_view r = take (off r i) (command_view r) @ (p, t) # drop (Suc (off r i)) (command_view r)"
    using id_take_nth_drop [of "off r i" "command_view r"] o(1) by simp
  moreover have "command_view r' = take (off r i) (command_view r) @ (p, XHCI_TRB_TYPE_NOOP_COMMAND) # drop (Suc (off r i)) (command_view r)"
    unfolding v' using o(1) by (simp add: upd_conv_take_nth_drop)
  moreover have "ring_reachable r'" by (rule ring_reachable.step [OF r ring_step.noop [OF i(2)]])
  ultimately show ?thesis by blast
qed

interpretation cq: command_queue ring_reachable command_view ring_tail command_put retire_ring command_cut rewrite_abandoned
proof
  show "ring_reachable r' \<and> pa = ring_tail r \<and> pa \<noteq> 0 \<and>
      command_view r' = command_view r @ [(pa, XHCI_TRB_GET_TYPE (Control c))]"
    if "ring_reachable r" "is_command c" "command_put r c = Some (r', pa)" for r c r' pa
    by (rule command_put_law [OF that])
  show "distinct (map fst (command_view r)) \<and> ring_tail r \<notin> fst ` set (command_view r) \<and> 0 \<notin> fst ` set (command_view r)"
    if "ring_reachable r" for r by (rule ring_addresses_law [OF that])
  show "ring_reachable r' \<and> (\<exists>xs t. command_view r = xs @ (p, t) # command_view r')"
    if "ring_reachable r" "retire_ring r p code = Some r'" for r p code r'
    by (rule ring_retire_law [OF that])
  show "ring_reachable r' \<and> (p = ring_tail r \<and> command_view r' = [] \<or>
      (\<exists>xs t ys. command_view r = xs @ command_view r' \<and> command_view r' = (p, t) # ys))"
    if "ring_reachable r" "command_cut r p = Some r'" for r p r'
    by (rule ring_cut_law [OF that])
  show "\<exists>r'. command_cut r (ring_tail r) = Some r'" if "ring_reachable r" for r
    by (rule ring_cut_tail [OF that])
  show "ring_reachable r' \<and>
      (\<exists>xs t ys. command_view r = xs @ (p, t) # ys \<and> command_view r' = xs @ (p, XHCI_TRB_TYPE_NOOP_COMMAND) # ys)"
    if "ring_reachable r" "rewrite_abandoned r p = Some r'" for r p r'
    by (rule ring_rewrite_law [OF that])
qed

end
