(* ===== verification/Xhci_Cmd_Step.thy ===== *)
theory Xhci_Cmd_Step
  imports Xhci_Cmd_Ring
begin

text \<open>
  The command engine as a transition system. A step is one region under the controller lock, so
  every interleaving of the submitting thread, the event DPC, the watchdog, the health poll and the
  recovery path is a sequence of steps; the parameter \<open>ok\<close> says at which addresses the controller
  may report the command ring stopped. The case rules say what each operation does to the five
  fields that make up the engine's state and to its dialogue with the waiter.
\<close>

section \<open>Steps\<close>

text \<open>
  The part of the extension the invariant speaks of. A call that changes none of it is invisible to
  the invariant, whatever it counts, arms or logs.
\<close>

type_synonym engine_state = "cmd_state \<times> ulong \<times> ulong \<times> xhci_ring \<times> ulong"

definition engine :: "xhci_extension \<Rightarrow> engine_state" where
  "engine ext = (CommandState ext, CommandTrbPA ext, CommandNoOpRewrittenPA ext, CommandRing ext, Flags ext)"

definition event_pointer :: "xhci_trb \<Rightarrow> ulong" where
  "event_pointer ev = Param0 ev AND NOT 0xF"

inductive cmd_step :: "(engine_state \<Rightarrow> ulong \<Rightarrow> bool) \<Rightarrow> xhci_extension \<Rightarrow> xhci_extension \<Rightarrow> bool"
  for ok where
  submit: "is_command c \<Longrightarrow> submit_locked ext c w = (st, ext', token) \<Longrightarrow> cmd_step ok ext ext'"
| selftest: "cmd_step ok ext (ext\<lparr>NoOpTrbPA := 0\<rparr>)"
| selftest_status: "cmd_step ok ext (ext\<lparr>NoOpStatus := st\<rparr>)"
| arm: "cmd_step ok ext (xhciArmCommandTimer ext ms what answer)"
| drain: "cmd_step ok ext (XhciCommandDrainOwedArm ext answer)"
| event: "(XHCI_TRB_GET_COMPLETION (Status ev) = XHCI_CC_COMMAND_RING_STOPPED \<Longrightarrow> ok (engine ext) (event_pointer ev)) \<Longrightarrow>
    XhciCommandEvent ext (Some ev) = (reset, ext') \<Longrightarrow> cmd_step ok ext ext'"
| timeout: "timeout_locked ext t reads crcr = (action, ext', armed) \<Longrightarrow> cmd_step ok ext ext'"
| reset: "cmd_step ok ext (XhciRequestControllerReset ext)"
| health: "XhciControllerHealthPoll ext mf1 mf2 usbsts reads = (escalate, ext') \<Longrightarrow> cmd_step ok ext ext'"
| quiesce: "cmd_step ok ext (XhciControllerBeginQuiesce ext)"
| flags: "setMask AND XHCI_EXT_FLAG_INITIALIZED = 0 \<Longrightarrow>
    XhciControllerUpdateFlags ext clearMask setMask = (previous, ext') \<Longrightarrow> cmd_step ok ext ext'"
| failure: "cmd_step ok ext (ext\<lparr>ControllerFailed := failed, ControllerFatal := fatal, HcInfoStatus := hc, Tolerance := tol\<rparr>)"
| program: "CommandState ext = XHCI_CMD_STATE_IDLE \<Longrightarrow> Flags ext AND XHCI_EXT_FLAG_INITIALIZED = 0 \<Longrightarrow>
    length base = unat trbs \<Longrightarrow> xhciProgramCommandRing ext base pa trbs crcr reads = (st, ext') \<Longrightarrow> cmd_step ok ext ext'"
| initialized: "CommandState ext = XHCI_CMD_STATE_IDLE \<Longrightarrow> command_view (CommandRing ext) = [] \<Longrightarrow>
    XhciControllerUpdateFlags ext clearMask setMask = (previous, ext') \<Longrightarrow> cmd_step ok ext ext'"

text \<open>
  A controller starts with \<open>XhciCommandInit\<close> and its first command ring. After
  \<open>XhciControllerBeginQuiesce\<close> the restart programs a fresh ring (\<open>program\<close>) and only then sets the
  Initialized flag again (\<open>initialized\<close>); every other flag change leaves that flag alone or clears it.
\<close>

inductive cmd_reachable :: "(engine_state \<Rightarrow> ulong \<Rightarrow> bool) \<Rightarrow> xhci_extension \<Rightarrow> bool"
  for ok where
  start: "Effects ext = [] \<Longrightarrow> XhciCommandInit ext epoch = (ext1, epoch') \<Longrightarrow> length base = unat trbs \<Longrightarrow>
    xhciProgramCommandRing ext1 base pa trbs crcr reads = (Some XHCI_RING_OK, ext') \<Longrightarrow> cmd_reachable ok ext'"
| step: "cmd_reachable ok ext \<Longrightarrow> cmd_step ok ext ext' \<Longrightarrow> cmd_reachable ok ext'"

section \<open>What a step leaves alone\<close>

text \<open>
  The dialogue with the waiter: a doorbell asks, a signal answers. \<open>waiting\<close> accepts the effects in
  which no question is asked while one is open and no completion is signalled that was not asked
  for; its value says whether a question is open at the end. A signal of loss may come unasked: the
  quiesce path sends it whether or not a command is outstanding.
\<close>

fun waiting :: "bool \<Rightarrow> cmd_effect list \<Rightarrow> bool option" where
  "waiting w [] = Some w"
| "waiting w (Doorbell _ _ # es) = (if w then None else waiting True es)"
| "waiting w (SignalCmdDone lost # es) = (if w \<or> lost then waiting False es else None)"
| "waiting w (_ # es) = waiting w es"

definition dialogue :: "xhci_extension \<Rightarrow> bool option" where
  "dialogue ext = waiting False (Effects ext)"

lemma waiting_append: "waiting w (es @ fs) = Option.bind (waiting w es) (\<lambda>v. waiting v fs)"
  by (induction w es rule: waiting.induct) auto

lemma tick_engine [simp]:
  "engine (tick f ext) = engine ext" "dialogue (tick f ext) = dialogue ext"
  "CommandState (tick f ext) = CommandState ext" "CommandTrbPA (tick f ext) = CommandTrbPA ext"
  "CommandNoOpRewrittenPA (tick f ext) = CommandNoOpRewrittenPA ext" "CommandRing (tick f ext) = CommandRing ext"
  "Flags (tick f ext) = Flags ext" "Signature (tick f ext) = Signature ext"
  "CommandGeneration (tick f ext) = CommandGeneration ext" "StartEpoch (tick f ext) = StartEpoch ext"
  "Clock (tick f ext) = Clock ext" "Effects (tick f ext) = Effects ext"
  "ControllerFailed (tick f ext) = ControllerFailed ext" "ControllerFatal (tick f ext) = ControllerFatal ext"
  "NoOpTrbPA (tick f ext) = NoOpTrbPA ext" "NoOpWitnessArmed (tick f ext) = NoOpWitnessArmed ext"
  "LastCommandTrbPA (tick f ext) = LastCommandTrbPA ext" "ArmThroughExOnly (tick f ext) = ArmThroughExOnly ext"
  "TrailingSignature (tick f ext) = TrailingSignature ext" "Tolerance (tick f ext) = Tolerance ext"
  "CmdDone (tick f ext) = CmdDone ext" "HcInfoStatus (tick f ext) = HcInfoStatus ext"
  "CommandAgeStamp (tick f ext) = CommandAgeStamp ext" "CommandAgeEscalated (tick f ext) = CommandAgeEscalated ext"
  "CommandAgeGeneration (tick f ext) = CommandAgeGeneration ext"
  by (simp_all add: tick_def engine_def dialogue_def)

lemma emit_engine [simp]:
  "engine (emit e ext) = engine ext"
  "dialogue (emit e ext) = Option.bind (dialogue ext) (\<lambda>w. waiting w [e])"
  "CommandState (emit e ext) = CommandState ext" "CommandTrbPA (emit e ext) = CommandTrbPA ext"
  "CommandNoOpRewrittenPA (emit e ext) = CommandNoOpRewrittenPA ext" "CommandRing (emit e ext) = CommandRing ext"
  "Flags (emit e ext) = Flags ext" "Signature (emit e ext) = Signature ext"
  "CommandGeneration (emit e ext) = CommandGeneration ext" "StartEpoch (emit e ext) = StartEpoch ext"
  "Clock (emit e ext) = Clock ext" "Effects (emit e ext) = Effects ext @ [e]"
  "ControllerFailed (emit e ext) = ControllerFailed ext" "HcInfoStatus (emit e ext) = HcInfoStatus ext"
  "CommandAgeStamp (emit e ext) = CommandAgeStamp ext" "CommandAgeEscalated (emit e ext) = CommandAgeEscalated ext"
  "CommandAgeGeneration (emit e ext) = CommandAgeGeneration ext"
  by (simp_all add: emit_def engine_def dialogue_def waiting_append)

lemma bind_some [simp]: "Option.bind d (\<lambda>w. Some w) = d"
  by (cases d) auto

definition quiet :: "xhci_extension \<Rightarrow> xhci_extension \<Rightarrow> bool" where
  "quiet ext ext' \<longleftrightarrow> engine ext' = engine ext \<and> dialogue ext' = dialogue ext"

lemma quiet_refl [simp]: "quiet ext ext"
  by (simp add: quiet_def)

lemma quiet_trans: "quiet a b \<Longrightarrow> quiet b c \<Longrightarrow> quiet a c"
  by (simp add: quiet_def)

lemma quiet_arm: "quiet ext (xhciArmCommandTimer ext ms what answer)"
  by (auto simp: quiet_def xhciArmCommandTimer_def XhciAsyncTimerArm_def emit_def tick_def engine_def dialogue_def waiting_append Let_def)

lemma quiet_drain: "quiet ext (XhciCommandDrainOwedArm ext answer)"
proof -
  have "quiet ext (xhciArmCommandTimer (ext\<lparr>CommandArmOwed := False\<rparr>) ms what answer)" for ms what
    using quiet_arm [of "ext\<lparr>CommandArmOwed := False\<rparr>" ms what answer]
    by (simp add: quiet_def engine_def dialogue_def)
  then show ?thesis
    by (auto simp: XhciCommandDrainOwedArm_def Let_def quiet_def engine_def dialogue_def)
qed

lemma quiet_clock: "quiet ext (XhciFrameSample ext mf)" "quiet ext (XhciPollClockAdvance ext mf)"
  by (auto simp: quiet_def XhciFrameSample_def XhciPollClockAdvance_def engine_def dialogue_def Let_def)

lemma quiet_status: "health_status ext usbsts = (esc, ext') \<Longrightarrow> quiet ext ext'"
  by (auto simp: quiet_def health_status_def tick_def engine_def dialogue_def split: if_splits)

lemma begin_abort_effect:
  "engine (begin_abort ext reads) = (XHCI_CMD_STATE_ABORTING, CommandTrbPA ext, CommandNoOpRewrittenPA ext, CommandRing ext, Flags ext)"
  "dialogue (begin_abort ext reads) = dialogue ext"
  by (auto simp: begin_abort_def XhciWriteCrcrAbort_def emit_def tick_def engine_def dialogue_def waiting_append
      split: option.splits if_splits)

section \<open>What a step does\<close>

lemma submit_cases:
  assumes "submit_locked ext c w = (st, ext', token)"
  obtains (refused) "ext' = ext" "token = None" "st \<noteq> XHCI_CMD_OK"
  | (issued) r' pa where "command_put (CommandRing ext) c = Some (r', pa)" "CommandState ext = XHCI_CMD_STATE_IDLE"
      "Flags ext AND XHCI_EXT_FLAG_READY = XHCI_EXT_FLAG_READY" "\<not> ControllerFailed ext" "st = XHCI_CMD_OK"
      "engine ext' = (XHCI_CMD_STATE_PENDING, pa, CommandNoOpRewrittenPA ext, r', Flags ext)"
      "dialogue ext' = Option.bind (dialogue ext) (\<lambda>w. waiting w [Doorbell XHCI_DB_COMMAND 0])"
proof -
  obtain s r1 p1 where q: "XhciRingEnqueue (Some (CommandRing ext)) (Some c) = (s, r1, p1)"
    by (metis prod_cases3)
  show thesis
  proof (cases "\<exists>r' pa. s = XHCI_RING_OK \<and> r1 = Some r' \<and> p1 = Some pa")
    case True
    then obtain r' pa where "s = XHCI_RING_OK" "r1 = Some r'" "p1 = Some pa" by blast
    with q have put: "command_put (CommandRing ext) c = Some (r', pa)"
      and enq: "XhciRingEnqueue (Some (CommandRing ext)) (Some c) = (XHCI_RING_OK, Some r', Some pa)"
      by (simp_all add: command_put_def)
    show thesis
    proof (cases "\<not> ControllerFailed ext \<and> Flags ext AND XHCI_EXT_FLAG_READY = XHCI_EXT_FLAG_READY \<and>
        CommandState ext = XHCI_CMD_STATE_IDLE")
      case True
      with assms enq show thesis
        by (intro issued [OF put])
          (auto simp: submit_locked_def Let_def engine_def emit_def tick_def dialogue_def waiting_append)
    next
      case False
      with assms show thesis by (intro refused) (auto simp: submit_locked_def split: if_splits)
    qed
  next
    case False
    then have "ext' = ext \<and> token = None \<and> st \<noteq> XHCI_CMD_OK"
      using assms q by (auto simp: submit_locked_def split: if_splits ring_status.splits option.splits)
    then show thesis using refused by blast
  qed
qed

text \<open>The record of a rewritten No Op is dropped once the ring no longer holds it.\<close>

definition noop_kept :: "xhci_ring \<Rightarrow> ulong \<Rightarrow> ulong" where
  "noop_kept r rw = (if rw \<in> fst ` set (command_view r) then rw else 0)"

lemma address_outstanding:
  assumes g: "ring_geom r"
  shows "(case XhciRingIndexFromPA r p of Inl _ \<Rightarrow> True | Inr i \<Rightarrow> \<not> XhciRingIsOutstanding (Some r) i) \<longleftrightarrow>
     p \<notin> fst ` set (command_view r)"
proof -
  have m: "p \<in> fst ` set (command_view r) \<longleftrightarrow> (\<exists>y<used r. p = BasePA r + of_nat (pos r y) * 16)"
    using view_addresses [of r] by (metis (no_types, lifting) atLeastLessThan_iff imageE imageI list.set_map
        ring_addresses_def set_upt zero_le)
  have at: "XhciRingIndexFromPA r (BasePA r + of_nat (pos r y) * 16) = Inr (of_nat (pos r y))" for y
    using index_of_pa [OF g, of "of_nat (pos r y)"] unat_pos [OF g, of y] pos_less [OF g, of y] by simp
  have "xhciRingIsOutstanding r (of_nat (pos r y))" if "y < used r" for y
    using outstanding_off [OF g] off_of_pos [OF g, of y "of_nat (pos r y)"] unat_pos [OF g, of y] that
      geom_bounds(8) [OF g] pos_less [OF g, of y] by simp
  then have 1: "\<not> (case XhciRingIndexFromPA r p of Inl _ \<Rightarrow> True | Inr i \<Rightarrow> \<not> XhciRingIsOutstanding (Some r) i)"
    if "p \<in> fst ` set (command_view r)"
    using that at unfolding m by (auto simp: XhciRingIsOutstanding_def)
  have 2: "p \<in> fst ` set (command_view r)"
    if i: "XhciRingIndexFromPA r p = Inr i" "xhciRingIsOutstanding r i" for i
  proof -
    have o: "off r i < used r" "unat i < slots r"
      using i(2) outstanding_off [OF g] by auto
    have "of_nat (pos r (off r i)) = i"
      using pos_off [OF g o(2)] unat_pos [OF g, of "off r i"] unat_eq_iff [of i "of_nat (pos r (off r i))"] by simp
    then show ?thesis using pa_of_index [OF g i(1)] o(1) unfolding m by metis
  qed
  show ?thesis
  proof (cases "XhciRingIndexFromPA r p")
    case Inl
    then show ?thesis using 1 by auto
  next
    case (Inr i)
    then show ?thesis using 1 2 [OF Inr] unfolding XhciRingIsOutstanding_def by (simp, blast)
  qed
qed

lemma retire_command:
  assumes r: "ring_reachable (CommandRing ext)"
    and r'_def: "r' = cq.settle (CommandRing ext) p code"
  shows "engine (xhciRetireCommand ext p code) =
       (CommandState ext, CommandTrbPA ext, noop_kept r' (CommandNoOpRewrittenPA ext), r', Flags ext)"
    and "dialogue (xhciRetireCommand ext p code) = dialogue ext"
proof -
  let ?r = "CommandRing ext"
  have cut: "(case snd (XhciRingSetDequeue (Some ?r) (ring_tail ?r)) of None \<Rightarrow> ?r | Some x \<Rightarrow> x) =
      (case command_cut ?r (ring_tail ?r) of None \<Rightarrow> ?r | Some x \<Rightarrow> x)"
    using ring_cut_tail [OF r] by (auto simp: command_cut_def split: prod.splits ring_status.splits)
  define e1 where "e1 = (case retire_ring ?r p code of Some x \<Rightarrow> ext\<lparr>CommandRing := x\<rparr>
      | None \<Rightarrow> (tick CommandsBadCompletion_update ext)\<lparr>CommandRing :=
          (case snd (XhciRingSetDequeue (Some ?r) (XhciRingTrbPA ?r (Enqueue ?r))) of None \<Rightarrow> ?r | Some x \<Rightarrow> x)\<rparr>)"
  have ring1: "CommandRing e1 = r'"
    unfolding e1_def r'_def cq.settle_def ring_tail_def [symmetric] cut by (auto split: option.split)
  have rest: "CommandState e1 = CommandState ext" "CommandTrbPA e1 = CommandTrbPA ext" "Flags e1 = Flags ext"
      "CommandNoOpRewrittenPA e1 = CommandNoOpRewrittenPA ext" "dialogue e1 = dialogue ext"
    by (auto simp: e1_def tick_def dialogue_def split: option.split)
  have "ring_reachable r'"
    using cq.settle_absent [OF r, of p code] cq.retire_law [OF r] cq.settle_at [OF r, of _ p _ _ code]
    unfolding r'_def by (metis (no_types, lifting) imageE in_set_conv_decomp prod.collapse)
  note o = address_outstanding [OF reachable_geom [OF this]]
  have gone: "xhciRetireCommand ext p code =
      (if CommandNoOpRewrittenPA ext \<noteq> 0 \<and> CommandNoOpRewrittenPA ext \<notin> fst ` set (command_view r')
       then e1\<lparr>CommandNoOpRewrittenPA := 0\<rparr> else e1)"
    unfolding xhciRetireCommand_def Let_def e1_def [symmetric] ring1 rest o ..
  show "engine (xhciRetireCommand ext p code) =
       (CommandState ext, CommandTrbPA ext, noop_kept r' (CommandNoOpRewrittenPA ext), r', Flags ext)"
    "dialogue (xhciRetireCommand ext p code) = dialogue ext"
    unfolding gone using ring1 rest by (auto simp: engine_def noop_kept_def dialogue_def)
qed

text \<open>
  The five things an event can do to the engine. Anything else it changes is a counter, the record
  of the last command or a slot-fatal mark.
\<close>

lemma quiet_tail:
  assumes "quiet ext e"
  shows "quiet ext (snd (xhciCommandWitnessSelfTest e p))" "quiet ext (XhciSlotCommandSlotFatal e code control)"
    "quiet ext (tick f e)"
  using assms
  by (auto simp: quiet_def xhciCommandWitnessSelfTest_def XhciSlotCommandSlotFatal_def engine_def emit_def tick_def
      dialogue_def waiting_append)

definition same_engine :: "xhci_extension \<Rightarrow> engine_state \<Rightarrow> bool option \<Rightarrow> bool" where
  "same_engine ext s d \<longleftrightarrow> engine ext = s \<and> dialogue ext = d"

lemma completed_cases:
  assumes r: "ring_reachable (CommandRing ext)" and s: "xhciCommandCompleted ext p code control = (matched, ext')"
  obtains (unmatched) "same_engine ext' (engine ext) (dialogue ext)"
  | (noop) "p = CommandNoOpRewrittenPA ext" "p \<noteq> 0"
      "same_engine ext' (CommandState ext, CommandTrbPA ext, 0, cq.settle (CommandRing ext) p code, Flags ext) (dialogue ext)"
  | (answered) r' where "p = CommandTrbPA ext" "p \<noteq> 0" "r' = cq.settle (CommandRing ext) p code"
      "same_engine ext'
         (if CommandState ext = XHCI_CMD_STATE_PENDING then XHCI_CMD_STATE_IDLE else CommandState ext, 0,
          noop_kept r' (CommandNoOpRewrittenPA ext), r', Flags ext)
         (Option.bind (dialogue ext) (\<lambda>w. waiting w [SignalCmdDone False]))"
proof -
  consider (a) "CommandNoOpRewrittenPA ext \<noteq> 0 \<and> p = CommandNoOpRewrittenPA ext"
    | (b) "\<not> (CommandNoOpRewrittenPA ext \<noteq> 0 \<and> p = CommandNoOpRewrittenPA ext)"
        "CommandTrbPA ext = 0 \<or> p \<noteq> CommandTrbPA ext"
    | (c) "\<not> (CommandNoOpRewrittenPA ext \<noteq> 0 \<and> p = CommandNoOpRewrittenPA ext)"
        "\<not> (CommandTrbPA ext = 0 \<or> p \<noteq> CommandTrbPA ext)" by blast
  then show thesis
  proof cases
    case a
    then have "ext' = xhciRetireCommand (ext\<lparr>CommandNoOpRewrittenPA := 0\<rparr>) p code"
      using s by (simp add: xhciCommandCompleted_def)
    then have "same_engine ext' (CommandState ext, CommandTrbPA ext, 0, cq.settle (CommandRing ext) p code, Flags ext) (dialogue ext)"
      using retire_command [of "ext\<lparr>CommandNoOpRewrittenPA := 0\<rparr>" _ p code, OF _ refl] r
      by (simp add: same_engine_def noop_kept_def dialogue_def)
    then show ?thesis using a by (intro noop) auto
  next
    case b
    then have "ext' = tick CommandsUnmatched_update ext"
      using s unfolding xhciCommandCompleted_def by (simp split: if_splits)
    then show ?thesis using unmatched by (simp add: same_engine_def)
  next
    case c
    define e where "e = snd (xhciCommandWitnessSelfTest (xhciRetireCommand ext p code) p)"
    define r' where "r' = cq.settle (CommandRing ext) p code"
    have e: "quiet (xhciRetireCommand ext p code) e"
      unfolding e_def by (rule quiet_tail) simp
    have g: "engine e = (CommandState ext, CommandTrbPA ext, noop_kept r' (CommandNoOpRewrittenPA ext), r', Flags ext)"
        "dialogue e = dialogue ext"
      using e retire_command [OF r r'_def] by (simp_all add: quiet_def)
    have x: "ext' = (let f = XhciSlotCommandEvent (tick CommandsCompleted_update (xhciCommandEndOutstanding
          (e\<lparr>LastCommandTrbPA := p, CommandCompletionCode := code, CommandSlotId := XHCI_TRB_GET_SLOT_ID control\<rparr>))) code control
        in if CommandState f = XHCI_CMD_STATE_PENDING then f\<lparr>CommandState := XHCI_CMD_STATE_IDLE\<rparr> else f)"
      using s c unfolding xhciCommandCompleted_def e_def Let_def by (simp split: if_splits)
    have "same_engine ext'
         (if CommandState ext = XHCI_CMD_STATE_PENDING then XHCI_CMD_STATE_IDLE else CommandState ext, 0,
          noop_kept r' (CommandNoOpRewrittenPA ext), r', Flags ext)
         (Option.bind (dialogue ext) (\<lambda>w. waiting w [SignalCmdDone False]))"
      using g unfolding x Let_def same_engine_def
      by (auto simp: engine_def XhciSlotCommandEvent_def xhciCommandEndOutstanding_def emit_def tick_def
          dialogue_def waiting_append)
    then show ?thesis using c r'_def by (intro answered [of r']) auto
  qed
qed

lemma aborted_cases:
  obtains (unmatched) "same_engine (xhciCommandAborted ext p) (engine ext) (dialogue ext)"
  | (aborted) "p = CommandTrbPA ext" "p \<noteq> 0"
      "same_engine (xhciCommandAborted ext p)
         (XHCI_CMD_STATE_ABORTING, 0, CommandNoOpRewrittenPA ext, CommandRing ext, Flags ext)
         (Option.bind (dialogue ext) (\<lambda>w. waiting w [SignalCmdDone True]))"
proof (cases "CommandTrbPA ext = 0 \<or> p \<noteq> CommandTrbPA ext")
  case True
  then show ?thesis using unmatched by (auto simp: xhciCommandAborted_def Let_def same_engine_def)
next
  case False
  then show ?thesis
    by (intro aborted) (auto simp: xhciCommandAborted_def Let_def same_engine_def engine_def
        XhciSlotCommandLost_def xhciCommandEndOutstanding_def emit_def tick_def dialogue_def waiting_append)
qed

lemma settles_cases:
  assumes "stop_settles ext p = (action, ext')"
  obtains (diverged) "same_engine ext' (engine ext) (dialogue ext)" "action = XHCI_CMD_ACTION_RESET"
  | (idle) r' where "command_cut (CommandRing ext) p = Some r'" "action = XHCI_CMD_ACTION_NONE"
      "same_engine ext' (XHCI_CMD_STATE_IDLE, CommandTrbPA ext, CommandNoOpRewrittenPA ext, r', Flags ext) (dialogue ext)"
proof (cases "command_cut (CommandRing ext) p")
  case None
  then have "stop_settles ext p = ring_diverged ext"
    unfolding command_cut_def stop_settles_def by (auto split: prod.splits ring_status.splits option.splits)
  then show ?thesis using assms diverged by (simp add: ring_diverged_def same_engine_def)
next
  case (Some r')
  then have "stop_settles ext p = (XHCI_CMD_ACTION_NONE, ext\<lparr>CommandRing := r', CommandState := XHCI_CMD_STATE_IDLE\<rparr>)"
    unfolding command_cut_def stop_settles_def by (auto split: prod.splits ring_status.splits option.splits)
  then show ?thesis
    using assms by (intro idle [OF Some]) (auto simp: same_engine_def engine_def dialogue_def)
qed

lemma abandons_effect:
  "engine (stop_abandons ext) = (CommandState ext, 0, CommandNoOpRewrittenPA ext, CommandRing ext, Flags ext)"
  "dialogue (stop_abandons ext) =
     (if CommandTrbPA ext \<noteq> 0 then Option.bind (dialogue ext) (\<lambda>w. waiting w [SignalCmdDone True]) else dialogue ext)"
  "CommandRing (stop_abandons ext) = CommandRing ext"
  "CommandNoOpRewrittenPA (stop_abandons ext) = CommandNoOpRewrittenPA ext"
  by (auto simp: stop_abandons_def engine_def XhciSlotCommandLost_def xhciCommandEndOutstanding_def emit_def
      dialogue_def waiting_append)

text \<open>
  A stopped ring: the abandoned command, if there is one, is reported lost, and then the ring either
  diverges or settles at the stop position, behind a No Op where the command was when the ring
  stopped on it.
\<close>

lemma stopped_cases:
  assumes s: "xhciCommandRingStopped ext p = (action, ext')"
  defines "cur \<equiv> CommandTrbPA ext" and "rw \<equiv> CommandNoOpRewrittenPA ext" and "r \<equiv> CommandRing ext"
    and "q \<equiv> stop_position (CommandRing ext) p"
    and "d \<equiv> (if CommandTrbPA ext \<noteq> 0 then Option.bind (dialogue ext) (\<lambda>w. waiting w [SignalCmdDone True]) else dialogue ext)"
  obtains (unasked) "same_engine ext' (engine ext) (dialogue ext)" "CommandState ext \<noteq> XHCI_CMD_STATE_ABORTING"
      "action = XHCI_CMD_ACTION_RESET"
  | (diverged) "CommandState ext = XHCI_CMD_STATE_ABORTING" "action = XHCI_CMD_ACTION_RESET"
      "same_engine ext' (XHCI_CMD_STATE_ABORTING, 0, rw, r, Flags ext) d"
  | (rewritten) r' where "CommandState ext = XHCI_CMD_STATE_ABORTING" "cur \<noteq> 0" "rw = 0" "q = cur"
      "rewrite_abandoned r q = Some r'" "action = XHCI_CMD_ACTION_RESET"
      "same_engine ext' (XHCI_CMD_STATE_ABORTING, 0, q, r', Flags ext) d"
  | (rewritten_idle) r' r'' where "CommandState ext = XHCI_CMD_STATE_ABORTING" "cur \<noteq> 0" "rw = 0" "q = cur"
      "rewrite_abandoned r q = Some r'" "command_cut r' q = Some r''" "action = XHCI_CMD_ACTION_NONE"
      "same_engine ext' (XHCI_CMD_STATE_IDLE, 0, q, r'', Flags ext) d"
  | (idle) r' where "CommandState ext = XHCI_CMD_STATE_ABORTING" "cur = 0 \<or> rw = 0 \<and> q \<noteq> cur"
      "command_cut r q = Some r'" "action = XHCI_CMD_ACTION_NONE"
      "same_engine ext' (XHCI_CMD_STATE_IDLE, 0, rw, r', Flags ext) d"
proof (cases "CommandState ext = XHCI_CMD_STATE_ABORTING")
  case False
  then show ?thesis
    using s by (intro unasked) (auto simp: xhciCommandRingStopped_def Let_def ring_diverged_def same_engine_def)
next
  case st: True
  define e where "e = stop_abandons (tick CommandRingStops_update ext)"
  have e: "engine e = (XHCI_CMD_STATE_ABORTING, 0, rw, r, Flags ext)" "dialogue e = d" "CommandRing e = r"
      "CommandNoOpRewrittenPA e = rw" "CommandTrbPA e = 0" "Flags e = Flags ext" "CommandState e = XHCI_CMD_STATE_ABORTING"
    using abandons_effect [of "tick CommandRingStops_update ext"] st
    by (auto simp: e_def rw_def r_def d_def engine_def)
  have q: "stop_position r p = q"
    by (simp add: q_def r_def)
  have call: "(if cur \<noteq> 0 \<and> rw \<noteq> 0 then ring_diverged e
      else if cur \<noteq> 0 \<and> q = cur
      then (case rewrite_abandoned r q of None \<Rightarrow> ring_diverged e
            | Some r' \<Rightarrow> stop_settles (tick CommandRingStoppedOnAbandoned_update
                 (e\<lparr>CommandRing := r', CommandNoOpRewrittenPA := q\<rparr>)) q)
      else stop_settles e q) = (action, ext')"
    unfolding s [symmetric] xhciCommandRingStopped_def Let_def tick_engine st e_def [symmetric] e(3,4) q cur_def
    by simp
  have div: thesis if "ring_diverged e = (action, ext')"
    using that e st by (intro diverged) (auto simp: ring_diverged_def same_engine_def)
  show ?thesis
  proof (cases "cur \<noteq> 0 \<and> rw \<noteq> 0")
    case True
    then show ?thesis using call div by simp
  next
    case two: False
    show ?thesis
    proof (cases "cur \<noteq> 0 \<and> q = cur")
      case on: True
      then have rw0: "rw = 0" using two by simp
      show ?thesis
      proof (cases "rewrite_abandoned r q")
        case None
        then show ?thesis using call div on two by simp
      next
        case (Some r')
        define f where "f = tick CommandRingStoppedOnAbandoned_update (e\<lparr>CommandRing := r', CommandNoOpRewrittenPA := q\<rparr>)"
        have f: "engine f = (XHCI_CMD_STATE_ABORTING, 0, q, r', Flags ext)" "dialogue f = d" "CommandRing f = r'"
            "CommandTrbPA f = 0" "CommandNoOpRewrittenPA f = q" "Flags f = Flags ext"
          using e by (auto simp: f_def engine_def dialogue_def)
        have "stop_settles f q = (action, ext')"
          using call on two Some by (simp add: f_def)
        then show ?thesis
        proof (cases rule: settles_cases)
          case diverged
          then show ?thesis using f st on rw0 Some by (intro rewritten [of r']) auto
        next
          case (idle r'')
          then show ?thesis using f st on rw0 Some by (intro rewritten_idle [of r' r'']) auto
        qed
      qed
    next
      case off: False
      then have "stop_settles e q = (action, ext')" using call two by auto
      then show ?thesis
      proof (cases rule: settles_cases)
        case diverged
        then show ?thesis using e st by (intro that(2)) auto
      next
        case i: (idle r')
        then show ?thesis using e st two off by (intro idle [of r']) auto
      qed
    qed
  qed
qed

lemma event_cases:
  assumes s: "XhciCommandEvent ext (Some ev) = (reset, ext')"
  obtains (skipped) "quiet ext ext'"
  | (stopped) e0 e1 action where "XHCI_TRB_GET_COMPLETION (Status ev) = XHCI_CC_COMMAND_RING_STOPPED"
      "quiet ext e0" "xhciCommandRingStopped e0 (event_pointer ev) = (action, e1)" "quiet e1 ext'" "Param1 ev = 0"
  | (aborted) e0 where "XHCI_TRB_GET_COMPLETION (Status ev) = XHCI_CC_COMMAND_ABORTED"
      "quiet ext e0" "quiet (xhciCommandAborted e0 (event_pointer ev)) ext'"
  | (completed) e0 e1 matched where "quiet ext e0"
      "xhciCommandCompleted e0 (event_pointer ev) (XHCI_TRB_GET_COMPLETION (Status ev)) (Control ev) = (matched, e1)"
      "quiet e1 ext'"
proof (cases "Param1 ev = 0")
  case False
  then have "quiet ext ext'" using s by (auto simp: XhciCommandEvent_def Let_def quiet_def)
  then show ?thesis by (rule skipped)
next
  case lo: True
  define code where "code = XHCI_TRB_GET_COMPLETION (Status ev)"
  define p where "p = event_pointer ev"
  define e0 where "e0 = (if Param0 ev AND 0xF \<noteq> 0 then tick CommandsReservedBitsSet_update ext else ext)"
  have e0: "quiet ext e0" by (auto simp: e0_def quiet_def)
  obtain action matched e1 where m: "(if code = XHCI_CC_COMMAND_RING_STOPPED
       then (case xhciCommandRingStopped e0 p of (action, ext) \<Rightarrow> (action, False, ext))
       else if code = XHCI_CC_COMMAND_ABORTED then (XHCI_CMD_ACTION_NONE, False, xhciCommandAborted e0 p)
       else (case xhciCommandCompleted e0 p code (Control ev) of
               (matched, ext) \<Rightarrow> (XHCI_CMD_ACTION_NONE, matched, ext))) = (action, matched, e1)"
    by (metis prod_cases3)
  obtain known info where i: "XhciXferCodeInfo code = (known, info)" by fastforce
  define e2 where "e2 = (if known \<and> SlotFatal info \<and> matched then XhciSlotCommandSlotFatal e1 code (Control ev) else e1)"
  have "ext' = (if known \<and> Fatal info then tick CommandResetRequests_update (tick CommandsFatal_update e2) else e2)"
    using s lo m i unfolding XhciCommandEvent_def option.case Let_def e0_def [symmetric] code_def [symmetric]
      event_pointer_def [symmetric] p_def [symmetric] e2_def by (auto split: if_splits)
  moreover have "quiet e1 e2" by (simp add: e2_def quiet_tail(2))
  ultimately have e1: "quiet e1 ext'" by (auto simp: quiet_def)
  consider "code = XHCI_CC_COMMAND_RING_STOPPED" | "code = XHCI_CC_COMMAND_ABORTED"
    | "code \<noteq> XHCI_CC_COMMAND_RING_STOPPED" "code \<noteq> XHCI_CC_COMMAND_ABORTED" by blast
  then show ?thesis
  proof cases
    case 1
    then show ?thesis
      using m e0 e1 lo by (intro stopped [of e0 action e1]) (auto simp: code_def p_def split: prod.splits)
  next
    case 2
    then show ?thesis using m e0 e1 by (intro aborted [of e0]) (auto simp: code_def p_def)
  next
    case 3
    then show ?thesis
      using m e0 e1 by (intro completed [of e0 matched e1]) (auto simp: code_def p_def split: prod.splits)
  qed
qed

lemma timeout_cases:
  assumes "timeout_locked ext t reads crcr = (action, ext', armed)"
  obtains (passively) "quiet ext ext'"
  | (aborts) "CommandState ext = XHCI_CMD_STATE_PENDING" "dialogue ext' = dialogue ext"
      "engine ext' = (XHCI_CMD_STATE_ABORTING, CommandTrbPA ext, CommandNoOpRewrittenPA ext, CommandRing ext, Flags ext)"
  using assms by (auto simp: timeout_locked_def Let_def quiet_def begin_abort_effect split: if_splits)

lemma age_cases:
  assumes "health_age ext reads = (old, ext')"
  obtains (passively) "quiet ext ext'"
  | (aborts) "CommandState ext = XHCI_CMD_STATE_PENDING" "dialogue ext' = dialogue ext"
      "engine ext' = (XHCI_CMD_STATE_ABORTING, CommandTrbPA ext, CommandNoOpRewrittenPA ext, CommandRing ext, Flags ext)"
proof -
  show thesis
    using assms passively aborts begin_abort_effect
    by (auto simp: health_age_def Let_def quiet_def engine_def dialogue_def split: if_splits)
qed

lemma health_cases:
  assumes s: "XhciControllerHealthPoll ext mf1 mf2 usbsts reads = (escalate, ext')"
  obtains (passively) "quiet ext ext'"
  | (aborts) "CommandState ext = XHCI_CMD_STATE_PENDING" "dialogue ext' = dialogue ext"
      "engine ext' = (XHCI_CMD_STATE_ABORTING, CommandTrbPA ext, CommandNoOpRewrittenPA ext, CommandRing ext, Flags ext)"
proof -
  note goals = that
  define e where "e = (XhciPollClockAdvance (XhciFrameSample (tick HealthPolls_update ext) mf1) mf2)\<lparr>LastCheckStatus := usbsts\<rparr>"
  have "quiet ext (XhciPollClockAdvance (XhciFrameSample (tick HealthPolls_update ext) mf1) mf2)"
    using quiet_clock by (meson quiet_refl quiet_tail(3) quiet_trans)
  then have e: "quiet ext e" by (simp add: e_def quiet_def engine_def dialogue_def)
  obtain esc f where f: "health_status e usbsts = (esc, f)" by fastforce
  obtain old g where g: "health_age f reads = (old, g)" by fastforce
  have ef: "quiet ext f" using quiet_trans [OF e quiet_status [OF f]] .
  have "ext' = ext \<or> ext' = tick HealthPollsDead_update e \<or> ext' = g"
    using s f g unfolding XhciControllerHealthPoll_def Let_def e_def [symmetric] by (auto split: if_splits)
  moreover have thesis if "ext' = g"
    using g
  proof (cases rule: age_cases)
    case passively
    then show ?thesis using quiet_trans [OF ef] goals(1) that by blast
  next
    case aborts
    then show ?thesis
      using ef that by (intro goals(2)) (auto simp: quiet_def engine_def)
  qed
  ultimately show thesis using passively e by (auto simp: quiet_def)
qed

end
