(* ===== verification/Xhci_Cmd_Inv.thy ===== *)
theory Xhci_Cmd_Inv
  imports Xhci_Cmd_Step
begin

text \<open>
  The command engine refines an abstract machine over five fields, and two invariants of that
  machine: the engine's record of the outstanding command agrees with what the waiter has been
  told, for any controller; and behind at most one No Op the ring holds at most the outstanding
  command, for a controller that stops its ring where the specification says.
\<close>

section \<open>The engine as an abstract machine\<close>

text \<open>
  What the steps amount to: the machine over the engine's five fields and the state of the
  dialogue, one rule for each thing that can happen to a command. The code refines it.
\<close>

abbreviation dlg_ask :: "bool option \<Rightarrow> bool option" where
  "dlg_ask d \<equiv> Option.bind d (\<lambda>w. waiting w [Doorbell XHCI_DB_COMMAND 0])"

abbreviation dlg_answer :: "bool \<Rightarrow> bool option \<Rightarrow> bool option" where
  "dlg_answer lost d \<equiv> Option.bind d (\<lambda>w. waiting w [SignalCmdDone lost])"

abbreviation dlg_lose :: "ulong \<Rightarrow> bool option \<Rightarrow> bool option" where
  "dlg_lose cur d \<equiv> (if cur \<noteq> 0 then dlg_answer True d else d)"

inductive engine_step ::
    "(engine_state \<Rightarrow> ulong \<Rightarrow> bool) \<Rightarrow> engine_state \<times> bool option \<Rightarrow> engine_state \<times> bool option \<Rightarrow> bool"
  for ok where
  unchanged: "engine_step ok x x"
| issue: "is_command c \<Longrightarrow> fl AND XHCI_EXT_FLAG_READY = XHCI_EXT_FLAG_READY \<Longrightarrow> command_put r c = Some (r', pa) \<Longrightarrow>
    engine_step ok ((XHCI_CMD_STATE_IDLE, cur, rw, r, fl), d) ((XHCI_CMD_STATE_PENDING, pa, rw, r', fl), dlg_ask d)"
| give_up: "engine_step ok ((XHCI_CMD_STATE_PENDING, cur, rw, r, fl), d) ((XHCI_CMD_STATE_ABORTING, cur, rw, r, fl), d)"
| noop_done: "rw \<noteq> 0 \<Longrightarrow>
    engine_step ok ((s, cur, rw, r, fl), d) ((s, cur, 0, cq.settle r rw code, fl), d)"
| completed: "cur \<noteq> 0 \<Longrightarrow> r' = cq.settle r cur code \<Longrightarrow>
    engine_step ok ((s, cur, rw, r, fl), d)
      ((if s = XHCI_CMD_STATE_PENDING then XHCI_CMD_STATE_IDLE else s, 0, noop_kept r' rw, r', fl), dlg_answer False d)"
| aborted: "cur \<noteq> 0 \<Longrightarrow>
    engine_step ok ((s, cur, rw, r, fl), d) ((XHCI_CMD_STATE_ABORTING, 0, rw, r, fl), dlg_answer True d)"
| diverged: "engine_step ok ((XHCI_CMD_STATE_ABORTING, cur, rw, r, fl), d)
    ((XHCI_CMD_STATE_ABORTING, 0, rw, r, fl), dlg_lose cur d)"
| rewritten: "cur \<noteq> 0 \<Longrightarrow> rewrite_abandoned r cur = Some r' \<Longrightarrow>
    engine_step ok ((XHCI_CMD_STATE_ABORTING, cur, 0, r, fl), d) ((XHCI_CMD_STATE_ABORTING, 0, cur, r', fl), dlg_lose cur d)"
| stopped_on: "cur \<noteq> 0 \<Longrightarrow> rewrite_abandoned r cur = Some r' \<Longrightarrow> command_cut r' cur = Some r'' \<Longrightarrow>
    engine_step ok ((XHCI_CMD_STATE_ABORTING, cur, 0, r, fl), d) ((XHCI_CMD_STATE_IDLE, 0, cur, r'', fl), dlg_lose cur d)"
| stopped_at: "ok (XHCI_CMD_STATE_ABORTING, cur, rw, r, fl) p \<Longrightarrow> cur = 0 \<or> rw = 0 \<and> stop_position r p \<noteq> cur \<Longrightarrow>
    command_cut r (stop_position r p) = Some r' \<Longrightarrow>
    engine_step ok ((XHCI_CMD_STATE_ABORTING, cur, rw, r, fl), d) ((XHCI_CMD_STATE_IDLE, 0, rw, r', fl), dlg_lose cur d)"
| quiesced: "fl' AND XHCI_EXT_FLAG_INITIALIZED = 0 \<Longrightarrow>
    engine_step ok ((s, cur, rw, r, fl), d) ((XHCI_CMD_STATE_IDLE, 0, 0, r, fl'), dlg_answer True d)"
| programmed: "fl AND XHCI_EXT_FLAG_INITIALIZED = 0 \<Longrightarrow> r' = r \<or> ring_reachable r' \<and> command_view r' = [] \<Longrightarrow>
    engine_step ok ((XHCI_CMD_STATE_IDLE, cur, rw, r, fl), d) ((XHCI_CMD_STATE_IDLE, cur, 0, r', fl), d)"
| flagged: "fl' AND XHCI_EXT_FLAG_INITIALIZED \<noteq> 0 \<Longrightarrow>
      fl AND XHCI_EXT_FLAG_INITIALIZED \<noteq> 0 \<or> s = XHCI_CMD_STATE_IDLE \<and> command_view r = [] \<Longrightarrow>
    engine_step ok ((s, cur, rw, r, fl), d) ((s, cur, rw, r, fl'), d)"
| unflagged: "fl' AND XHCI_EXT_FLAG_INITIALIZED = 0 \<Longrightarrow>
    engine_step ok ((s, cur, rw, r, fl), d) ((s, cur, rw, r, fl'), d)"

definition abstract :: "xhci_extension \<Rightarrow> engine_state \<times> bool option" where
  "abstract ext = (engine ext, dialogue ext)"

lemma abstract_quiet: "quiet ext ext' \<longleftrightarrow> abstract ext' = abstract ext"
  by (auto simp: quiet_def abstract_def)

lemma abstract_same: "same_engine ext s d \<longleftrightarrow> abstract ext = (s, d)"
  by (auto simp: same_engine_def abstract_def)

lemma abstract_fields:
  "abstract ext = ((CommandState ext, CommandTrbPA ext, CommandNoOpRewrittenPA ext, CommandRing ext, Flags ext), dialogue ext)"
  by (simp add: abstract_def engine_def)

lemma fresh_ring:
  assumes "XhciRingInit ring base pa trbs kind = (XHCI_RING_OK, Some r)" and "length base = unat trbs"
  shows "ring_reachable r" "command_view r = []"
proof -
  show "ring_reachable r" by (rule ring_reachable.init [OF assms])
  have "Enqueue r = Dequeue r"
    using assms(1) by (auto simp: XhciRingInit_def Let_def split: if_splits)
  then have "used r = 0" by (simp add: used_def enq_def deq_def cyc_dist_def)
  then show "command_view r = []" by (simp add: command_view_def ring_addresses_def)
qed

lemma program_cases:
  assumes s: "xhciProgramCommandRing ext base pa trbs crcr reads = (st, ext')" and l: "length base = unat trbs"
  obtains (refused) "ext' = ext" "st \<noteq> Some XHCI_RING_OK"
  | (programmed) r' where "r' = CommandRing ext \<and> st \<noteq> Some XHCI_RING_OK \<or> ring_reachable r' \<and> command_view r' = []"
      "abstract ext' = ((CommandState ext, CommandTrbPA ext, 0, r', Flags ext), dialogue ext)"
proof (cases "crcr AND XHCI_CRCR_CRR = 0")
  case False
  then show ?thesis using s refused by (auto simp: xhciProgramCommandRing_def)
next
  case True
  obtain rs ring' where i: "XhciRingInit (Some (CommandRing ext)) base pa trbs XHCI_RING_KIND_COMMAND = (rs, ring')"
    by fastforce
  show ?thesis
  proof (cases "rs = XHCI_RING_OK")
    case False
    then have "ring' = Some (CommandRing ext)"
      using i by (auto simp: XhciRingInit_def Let_def split: if_splits)
    then have "ext' = ext\<lparr>CommandNoOpRewrittenPA := 0\<rparr>" "st = Some rs"
      using s True False i by (auto simp: xhciProgramCommandRing_def Let_def)
    then show ?thesis
      using False by (intro programmed [of "CommandRing ext"]) (auto simp: abstract_def engine_def dialogue_def)
  next
    case ok: True
    then obtain r' where r': "ring' = Some r'"
      using i by (auto simp: XhciRingInit_def Let_def split: if_splits)
    show ?thesis
      using s True i ok r' fresh_ring [OF i [unfolded ok r'] l]
      by (intro programmed [of r']) (auto simp: xhciProgramCommandRing_def Let_def XhciWriteCrcr_def abstract_def
          engine_def emit_def dialogue_def waiting_append split: option.splits)
  qed
qed

lemma initialized_bit: "(x :: ulong) AND XHCI_EXT_FLAG_INITIALIZED = 0 \<longleftrightarrow> \<not> bit x 3"
  using and_exp_eq_0_iff_not_bit [of x 3] by simp

lemma ready_initialized:
  assumes "(fl :: ulong) AND XHCI_EXT_FLAG_READY = XHCI_EXT_FLAG_READY"
  shows "fl AND XHCI_EXT_FLAG_INITIALIZED \<noteq> 0"
proof -
  have "bit (fl AND XHCI_EXT_FLAG_READY) 3" unfolding assms by simp
  then show ?thesis unfolding initialized_bit by (simp add: bit_and_iff)
qed

lemma flags_effect:
  assumes "XhciControllerUpdateFlags ext clearMask setMask = (previous, ext')"
  obtains fl' where "abstract ext' =
      ((CommandState ext, CommandTrbPA ext, CommandNoOpRewrittenPA ext, CommandRing ext, fl'), dialogue ext)"
    "fl' = Flags ext \<or> fl' = (Flags ext AND NOT clearMask) OR setMask"
  using assms that [of "Flags ext'"]
  by (auto simp: XhciControllerUpdateFlags_def Let_def abstract_def engine_def dialogue_def split: if_splits)

lemma quiesce_effect:
  "XhciControllerBeginQuiesce ext = ext \<or>
   (\<exists>fl'. fl' AND XHCI_EXT_FLAG_INITIALIZED = 0 \<and>
      abstract (XhciControllerBeginQuiesce ext) = ((XHCI_CMD_STATE_IDLE, 0, 0, CommandRing ext, fl'), dlg_answer True (dialogue ext)))"
proof -
  have "(x AND NOT (XHCI_EXT_FLAG_INITIALIZED OR XHCI_EXT_FLAG_RS_CONFIRMED)) AND XHCI_EXT_FLAG_INITIALIZED = 0" for x :: ulong
    unfolding initialized_bit by (simp add: bit_and_iff bit_not_iff bit_or_iff)
  then show ?thesis
    by (auto simp: XhciControllerBeginQuiesce_def xhciCommandInvalidateLocked_def XhciSlotCommandLost_def
        xhciCommandEndOutstanding_def Let_def abstract_def engine_def emit_def tick_def dialogue_def waiting_append)
qed

lemma quiet_step: "quiet ext ext' \<Longrightarrow> engine_step ok (abstract ext) (abstract ext')"
  by (simp add: abstract_quiet engine_step.unchanged)

lemma event_refines:
  assumes r: "ring_reachable (CommandRing ext)"
    and ok: "XHCI_TRB_GET_COMPLETION (Status ev) = XHCI_CC_COMMAND_RING_STOPPED \<Longrightarrow> ok (engine ext) (event_pointer ev)"
    and s: "XhciCommandEvent ext (Some ev) = (reset, ext')"
  shows "engine_step ok (abstract ext) (abstract ext')"
  using s
proof (cases rule: event_cases)
  case skipped
  then show ?thesis by (rule quiet_step)
next
  case (stopped e0 e1 action)
  have a: "abstract ext = abstract e0" "abstract ext' = abstract e1"
    using stopped(2,4) by (simp_all add: abstract_quiet)
  then have ok0: "ok (engine e0) (event_pointer ev)"
    using ok [OF stopped(1)] by (simp add: abstract_def)
  from stopped(3) have "engine_step ok (abstract e0) (abstract e1)"
  proof (cases rule: stopped_cases)
    case unasked
    then show ?thesis by (simp add: abstract_same engine_step.unchanged flip: abstract_def)
  next
    case diverged
    then show ?thesis by (simp add: abstract_same abstract_fields [of e0] engine_step.diverged)
  next
    case (rewritten r')
    then show ?thesis by (simp add: abstract_same abstract_fields [of e0] engine_step.rewritten [where cur = "CommandTrbPA e0", simplified])
  next
    case (rewritten_idle r' r'')
    then show ?thesis
      using engine_step.stopped_on [of "CommandTrbPA e0" "CommandRing e0" r' r'' ok "Flags e0" "dialogue e0"]
      by (simp add: abstract_same abstract_fields [of e0])
  next
    case (idle r')
    then show ?thesis
      using engine_step.stopped_at [of ok "CommandTrbPA e0" "CommandNoOpRewrittenPA e0" "CommandRing e0" "Flags e0"
          "event_pointer ev" r' "dialogue e0"] ok0
      by (simp add: abstract_same abstract_fields [of e0] engine_def)
  qed
  then show ?thesis by (simp add: a)
next
  case (aborted e0)
  have a: "abstract ext = abstract e0" "abstract ext' = abstract (xhciCommandAborted e0 (event_pointer ev))"
    using aborted(2,3) by (simp_all add: abstract_quiet)
  have "engine_step ok (abstract e0) (abstract (xhciCommandAborted e0 (event_pointer ev)))"
  proof (cases rule: aborted_cases [of e0 "event_pointer ev"])
    case unmatched
    then show ?thesis by (simp add: abstract_same engine_step.unchanged flip: abstract_def)
  next
    case aborted
    then show ?thesis
      using engine_step.aborted [of "CommandTrbPA e0" ok "CommandState e0"] by (simp add: abstract_same abstract_fields [of e0])
  qed
  then show ?thesis by (simp add: a)
next
  case (completed e0 e1 matched)
  have a: "abstract ext = abstract e0" "abstract ext' = abstract e1"
    using completed(1,3) by (simp_all add: abstract_quiet)
  have r0: "ring_reachable (CommandRing e0)"
    using a(1) r by (simp add: abstract_fields)
  from r0 completed(2) have "engine_step ok (abstract e0) (abstract e1)"
  proof (cases rule: completed_cases)
    case unmatched
    then show ?thesis by (simp add: abstract_same engine_step.unchanged flip: abstract_def)
  next
    case noop
    then show ?thesis
      by (simp add: abstract_same abstract_fields [of e0] engine_step.noop_done)
  next
    case (answered r')
    then show ?thesis
      using engine_step.completed [of "CommandTrbPA e0" r' "CommandRing e0" _ ok "CommandState e0"]
      by (simp add: abstract_same abstract_fields [of e0])
  qed
  then show ?thesis by (simp add: a)
qed

lemma cmd_step_refines:
  assumes "cmd_step ok ext ext'" and r: "ring_reachable (CommandRing ext)"
  shows "engine_step ok (abstract ext) (abstract ext')"
  using assms(1)
proof cases
  case (submit c w st token)
  from submit(2) show ?thesis
  proof (cases rule: submit_cases)
    case refused
    then show ?thesis by (simp add: engine_step.unchanged)
  next
    case (issued r' pa)
    then show ?thesis
      using engine_step.issue [OF submit(1) issued(3,1)] by (simp add: abstract_fields [of ext] abstract_def [of ext'])
  qed
next
  case selftest
  then show ?thesis by (intro quiet_step) (simp add: quiet_def engine_def dialogue_def)
next
  case (selftest_status st)
  then show ?thesis by (intro quiet_step) (simp add: quiet_def engine_def dialogue_def)
next
  case arm
  then show ?thesis using quiet_step [OF quiet_arm] by simp
next
  case drain
  then show ?thesis using quiet_step [OF quiet_drain] by simp
next
  case (event ev reset)
  then show ?thesis by (intro event_refines [OF r])
next
  case (timeout t reads crcr action armed)
  then show ?thesis
  proof (cases rule: timeout_cases)
    case passively
    then show ?thesis by (rule quiet_step)
  next
    case aborts
    then show ?thesis by (simp add: abstract_fields [of ext] abstract_def [of ext'] engine_step.give_up)
  qed
next
  case reset
  then show ?thesis by (intro quiet_step) (simp add: quiet_def XhciRequestControllerReset_def)
next
  case (health mf1 mf2 usbsts reads escalate)
  then show ?thesis
  proof (cases rule: health_cases)
    case passively
    then show ?thesis by (rule quiet_step)
  next
    case aborts
    then show ?thesis by (simp add: abstract_fields [of ext] abstract_def [of ext'] engine_step.give_up)
  qed
next
  case quiesce
  then show ?thesis
    using quiesce_effect [of ext] engine_step.quiesced [where d = "dialogue ext"]
    by (auto simp: abstract_fields [of ext] engine_step.unchanged)
next
  case (flags setMask clearMask previous)
  from flags(2) obtain fl' where fl: "abstract ext' =
      ((CommandState ext, CommandTrbPA ext, CommandNoOpRewrittenPA ext, CommandRing ext, fl'), dialogue ext)"
      "fl' = Flags ext \<or> fl' = (Flags ext AND NOT clearMask) OR setMask"
    by (rule flags_effect)
  then have "fl' AND XHCI_EXT_FLAG_INITIALIZED \<noteq> 0 \<Longrightarrow> Flags ext AND XHCI_EXT_FLAG_INITIALIZED \<noteq> 0"
    using flags(1) unfolding initialized_bit by (auto simp: bit_simps)
  then show ?thesis
    unfolding fl(1) abstract_fields [of ext]
    by (cases "fl' AND XHCI_EXT_FLAG_INITIALIZED = 0") (auto intro: engine_step.flagged engine_step.unflagged)
next
  case failure
  then show ?thesis by (intro quiet_step) (simp add: quiet_def engine_def dialogue_def)
next
  case (program base trbs pa crcr reads st)
  from program(4,3) show ?thesis
  proof (cases rule: program_cases)
    case refused
    then show ?thesis by (simp add: engine_step.unchanged)
  next
    case (programmed r')
    then show ?thesis
      using program(1,2) unfolding programmed(2) abstract_fields [of ext] by (auto intro: engine_step.programmed)
  qed
next
  case (initialized clearMask setMask previous)
  from initialized(3) obtain fl' where fl: "abstract ext' =
      ((CommandState ext, CommandTrbPA ext, CommandNoOpRewrittenPA ext, CommandRing ext, fl'), dialogue ext)"
    by (rule flags_effect)
  then show ?thesis
    unfolding fl(1) abstract_fields [of ext] using initialized(1,2)
    by (cases "fl' AND XHCI_EXT_FLAG_INITIALIZED = 0") (auto intro: engine_step.flagged engine_step.unflagged)
qed

section \<open>Invariants\<close>

text \<open>
  The record of the outstanding command and the dialogue agree, and the ring is one the ring
  operations can reach. This needs nothing of the controller.
\<close>

fun engine_ok :: "engine_state \<times> bool option \<Rightarrow> bool" where
  "engine_ok ((s, cur, rw, r, fl), d) \<longleftrightarrow>
     ring_reachable r \<and> (s = XHCI_CMD_STATE_IDLE \<longrightarrow> cur = 0) \<and> (s = XHCI_CMD_STATE_PENDING \<longrightarrow> cur \<noteq> 0) \<and>
     d = Some (cur \<noteq> 0)"

lemma settle_reachable:
  assumes "ring_reachable r"
  shows "ring_reachable (cq.settle r p code)"
proof (cases "p \<in> fst ` set (command_view r)")
  case True
  then obtain t where "(p, t) \<in> set (command_view r)" by auto
  then obtain xs ys where "command_view r = xs @ (p, t) # ys" by (meson split_list)
  then show ?thesis using cq.settle_at [OF assms] by blast
next
  case False
  then show ?thesis using cq.settle_absent [OF assms] by blast
qed

lemma engine_ok_step:
  assumes "engine_step ok x y" and "engine_ok x"
  shows "engine_ok y"
  using assms
proof (cases rule: engine_step.cases)
  case (issue c fl r r' pa cur rw d)
  then show ?thesis using assms(2) cq.put_law [of r c r' pa] by auto
next
  case (noop_done rw s cur r fl d code)
  then show ?thesis using assms(2) settle_reachable by auto
next
  case (completed cur r' r code s rw fl d)
  then show ?thesis using assms(2) settle_reachable by (cases s) auto
next
  case (rewritten cur r r' fl d)
  then show ?thesis using assms(2) cq.rewrite_law [of r cur r'] by auto
next
  case (stopped_on cur r r' r'' fl d)
  then show ?thesis using assms(2) cq.rewrite_law [of r cur r'] cq.cut_law [of r' cur r''] by auto
next
  case (stopped_at cur rw r fl p r' d)
  then show ?thesis using assms(2) cq.cut_law [of r "stop_position r p" r'] by auto
qed auto

text \<open>
  What the ring holds. Behind at most one rewritten No Op stands at most the outstanding command;
  an aborted one may still be there until the ring is reported stopped; a quiesced ring is not
  looked at until a fresh one replaces it.
\<close>

definition noops :: "ulong \<Rightarrow> (ulong \<times> ulong) list" where
  "noops rw = (if rw = 0 then [] else [(rw, XHCI_TRB_TYPE_NOOP_COMMAND)])"

fun ring_clean :: "engine_state \<Rightarrow> bool" where
  "ring_clean (s, cur, rw, r, fl) \<longleftrightarrow>
     (if cur \<noteq> 0 then rw = 0 \<and> command_view r = [] \<or> (\<exists>t. command_view r = noops rw @ [(cur, t)])
      else command_view r = noops rw \<or>
           s = XHCI_CMD_STATE_ABORTING \<and> (\<exists>x. command_view r = noops rw @ [x]) \<or>
           s = XHCI_CMD_STATE_IDLE \<and> rw = 0 \<and> fl AND XHCI_EXT_FLAG_INITIALIZED = 0)"

text \<open>
  What is asked of the controller: once the outstanding command has been reported completed or
  aborted, the ring is reported stopped behind it, at the enqueue pointer, and a No Op in front of it
  has been reported before (xHCI 4.6.1.2: the Command Ring Dequeue Pointer is past every command
  whose completion event was generated, and commands complete in order).
\<close>

fun honest_stop :: "engine_state \<Rightarrow> ulong \<Rightarrow> bool" where
  "honest_stop (s, cur, rw, r, fl) p \<longleftrightarrow> (cur = 0 \<longrightarrow> rw = 0 \<and> stop_position r p = ring_tail r)"

lemma noop_kept_noops [simp]:
  "command_view r = noops rw @ xs \<Longrightarrow> noop_kept r rw = rw" "command_view r = [] \<Longrightarrow> noop_kept r rw = 0"
  by (auto simp: noop_kept_def noops_def)

lemma clean_noop_done:
  assumes r: "ring_reachable r" and v: "ring_clean (s, cur, rw, r, fl)" and rw: "rw \<noteq> 0"
  shows "ring_clean (s, cur, 0, cq.settle r rw code, fl)"
proof -
  from v rw obtain ys where ys: "command_view r = (rw, XHCI_TRB_TYPE_NOOP_COMMAND) # ys"
      "if cur \<noteq> 0 then \<exists>t. ys = [(cur, t)] else ys = [] \<or> s = XHCI_CMD_STATE_ABORTING \<and> (\<exists>x. ys = [x])"
    by (auto simp: noops_def split: if_splits)
  have "command_view (cq.settle r rw code) = ys \<or> command_view (cq.settle r rw code) = []"
    using cq.settle_at [OF r, of "[]" rw _ ys] ys(1) by simp
  with ys(2) show ?thesis by (auto simp: noops_def)
qed

lemma clean_completed:
  assumes r: "ring_reachable r" and v: "ring_clean (s, cur, rw, r, fl)" and cur: "cur \<noteq> 0"
    and r': "r' = cq.settle r cur code"
  shows "command_view r' = [] \<and> noop_kept r' rw = 0"
proof -
  from v cur consider "command_view r = []" | t where "command_view r = noops rw @ [(cur, t)]"
    by auto
  then have "command_view r' = []"
  proof cases
    case 1
    then show ?thesis using cq.settle_absent [OF r, of cur code] r' by simp
  next
    case 2
    then show ?thesis using cq.settle_at [OF r 2] r' by auto
  qed
  then show ?thesis by (simp add: noop_kept_def)
qed

lemma clean_step:
  assumes "engine_step honest_stop x y" and ok: "engine_ok x" and v: "ring_clean (fst x)"
  shows "ring_clean (fst y)"
  using assms(1)
proof (cases rule: engine_step.cases)
  case (issue c fl r r' pa cur rw d)
  have "command_view r = noops rw"
    using issue ok v ready_initialized [of fl] by (auto split: if_splits)
  then show ?thesis using issue ok cq.put_law [of r c r' pa] by auto
next
  case (noop_done rw s cur r fl d code)
  then show ?thesis using ok v clean_noop_done [of r s cur rw fl code] by auto
next
  case (completed cur r' r code s rw fl d)
  then show ?thesis using ok v clean_completed [of r s cur rw fl r' code] by (auto simp: noops_def)
next
  case (diverged cur rw r fl d)
  then show ?thesis using v by (auto split: if_splits simp: noops_def)
next
  case (rewritten cur r r' fl d)
  then show ?thesis
    using ok v cq.rewrite_only [of r cur _ r'] cq.rewrite_absent [of r cur] by (auto simp: noops_def)
next
  case (stopped_on cur r r' r'' fl d)
  then show ?thesis
    using ok v cq.rewrite_only [of r cur _ r'] cq.rewrite_absent [of r cur] cq.cut_single [of r' cur _ cur r'']
    by (auto simp: noops_def)
next
  case (stopped_at cur rw r fl p r' d)
  then show ?thesis
    using ok v cq.cut_single [of r cur _ "stop_position r p" r'] cq.cut_empty [of r "stop_position r p" r']
      cq.cut_tail_empty [of r r']
    by (auto simp: noops_def split: if_splits)
next
  case (programmed fl r' r cur rw d)
  then show ?thesis using ok v by (auto simp: noops_def split: if_splits)
next
  case (flagged fl' fl s r cur rw d)
  then show ?thesis using ok v by (auto simp: noops_def split: if_splits)
qed (use v in \<open>auto simp: noops_def split: if_splits\<close>)

section \<open>Reachable states\<close>

lemma started:
  assumes "Effects ext = []" and i: "XhciCommandInit ext epoch = (ext1, epoch')" and l: "length base = unat trbs"
    and p: "xhciProgramCommandRing ext1 base pa trbs crcr reads = (Some XHCI_RING_OK, ext')"
  shows "engine_ok (abstract ext') \<and> ring_clean (engine ext')"
proof -
  have e1: "CommandState ext1 = XHCI_CMD_STATE_IDLE" "CommandTrbPA ext1 = 0" "dialogue ext1 = Some False"
    using i assms(1) by (auto simp: XhciCommandInit_def Let_def xhciCommandEndOutstanding_def dialogue_def)
  from p l show ?thesis
  proof (cases rule: program_cases)
    case refused
    then show ?thesis by simp
  next
    case (programmed r')
    then show ?thesis using e1 by (auto simp: abstract_def noops_def)
  qed
qed

lemma reachable_ok:
  assumes "cmd_reachable ok ext"
  shows "engine_ok (abstract ext)"
  using assms
proof induction
  case start
  then show ?case using started by blast
next
  case (step ext ext')
  then show ?case
    using engine_ok_step [OF cmd_step_refines] by (metis abstract_fields engine_ok.simps)
qed

lemma reachable_clean:
  assumes "cmd_reachable honest_stop ext"
  shows "ring_clean (engine ext)"
  using assms
proof induction
  case start
  then show ?case using started by blast
next
  case (step ext ext')
  have ok: "engine_ok (abstract ext)" by (rule reachable_ok [OF step(1)])
  then have "engine_step honest_stop (abstract ext) (abstract ext')"
    using cmd_step_refines [OF step(2)] by (simp add: abstract_fields)
  from clean_step [OF this ok] step(3) show ?case by (simp add: abstract_def)
qed

end
