(* ===== verification/Xhci_Cmd_Props.thy ===== *)
theory Xhci_Cmd_Props
  imports Xhci_Cmd_Inv
begin

text \<open>
  The properties of the command engine: the dialogue with the waiter, the refinement of the abstract
  machine, what the controller can still reach when no command is outstanding, the answers of a
  submission, the watchdog ladder, stale watchdogs, and the health poll that stands behind them.
\<close>

section \<open>A running controller\<close>

definition boot_ext :: xhci_extension where
  "boot_ext =
     \<lparr>Signature = XHCI_EXTENSION_SIGNATURE, TrailingSignature = XHCI_EXTENSION_TRAILING, Flags = 0,
      StartEpoch = 0, HcInfoStatus = XHCI_HC_OK, ControllerFailed = False, ControllerFatal = False,
      LastCheckStatus = 0, Tolerance = True, PollService = 0, PollServiceGen = 0,
      CommandRing = \<lparr>Base = [], BasePA = 0, Trbs = 0, Enqueue = 0, Dequeue = 0, Cycle = 0, Kind = 0\<rparr>,
      CommandState = XHCI_CMD_STATE_IDLE, CommandTrbPA = 0, CommandType = 0, CommandControl = 0,
      CommandGeneration = 0, CommandNoOpRewrittenPA = 0, LastCommandTrbPA = 0, CommandCompletionCode = 0,
      CommandSlotId = 0, NoOpTrbPA = 0, NoOpStatus = XHCI_CMD_OK, NoOpWitnessArmed = False,
      CommandAgeStamp = 0, CommandAgeEscalated = False, CommandAgeGeneration = 0, ArmThroughExOnly = False,
      CommandArmOwed = False, CommandArmOwedMs = 0,
      CommandArmOwedWhat = \<lparr>Epoch = 0, Generation = 0, Phase = XHCI_CMD_PHASE_COMMAND, Attempt = 0\<rparr>,
      Counters = \<lparr>AsyncArmsRefused = 0, CommandTimerFailures = 0, CommandsIssued = 0, CommandsCompleted = 0,
        CommandsAborted = 0, CommandsAbandoned = 0, CommandsUnmatched = 0, CommandsBadCompletion = 0,
        CommandsReservedBitsSet = 0, CommandsFatal = 0, CommandsTimedOut = 0, CommandsAfterFailure = 0,
        CommandRingStops = 0, CommandRingDiverged = 0, CommandRingStoppedOnAbandoned = 0,
        CommandResetRequests = 0, CommandAbortsNotWritten = 0, CommandAbortWaits = 0,
        CommandTimeoutArrivals = 0, CommandStaleCallbacks = 0, CommandAgeAborts = 0, CommandAgeResets = 0,
        HealthPolls = 0, HealthPollsDead = 0, FatalStatusDetected = 0, HchRecoveries = 0, NoOpWitnessFired = 0\<rparr>,
      Clock = \<lparr>FrameSynced = False, FrameLast = 0, FrameNumber = 0, FrameSamples = 0, FrameSampleStale = False,
        FrameReadFailures = 0, PollClockSynced = True, PollClockFrame = 0, PollClockMs = 0, PollClockStalls = 0\<rparr>,
      CmdDone = \<lparr>CmdDoneCode = 0, CmdDoneControl = 0, CmdDoneLost = False, CmdDonePA = 0\<rparr>,
      Effects = []\<rparr>"

definition programmed_ext :: xhci_extension where
  "programmed_ext =
     snd (xhciProgramCommandRing (fst (XhciCommandInit boot_ext 0)) (replicate 8 zero_trb) 0x1000 8 0 (\<lambda>_. 0))"

definition running_ext :: xhci_extension where
  "running_ext = snd (XhciControllerUpdateFlags programmed_ext 0 XHCI_EXT_FLAG_READY)"

definition enable_slot_trb :: xhci_trb where
  "enable_slot_trb = zero_trb\<lparr>Control := XHCI_TRB_TYPE XHCI_TRB_TYPE_ENABLE_SLOT\<rparr>"

definition busy_ext :: xhci_extension where
  "busy_ext = fst (snd (submit_locked running_ext enable_slot_trb False))"

lemma running_reachable: "cmd_reachable ok running_ext"
proof -
  have "cmd_reachable ok programmed_ext"
  proof (rule cmd_reachable.start)
    show "Effects boot_ext = []" by (simp add: boot_ext_def)
    show "XhciCommandInit boot_ext 0 = (fst (XhciCommandInit boot_ext 0), snd (XhciCommandInit boot_ext 0))" by simp
    show "length (replicate 8 zero_trb) = unat (8 :: ulong)" by simp
    show "xhciProgramCommandRing (fst (XhciCommandInit boot_ext 0)) (replicate 8 zero_trb) 0x1000 8 0 (\<lambda>_. 0) =
        (Some XHCI_RING_OK, programmed_ext)"
      unfolding programmed_ext_def by code_simp
  qed
  moreover have "cmd_step ok programmed_ext running_ext"
  proof (rule cmd_step.initialized)
    show "CommandState programmed_ext = XHCI_CMD_STATE_IDLE" by code_simp
    show "command_view (CommandRing programmed_ext) = []" by code_simp
    show "XhciControllerUpdateFlags programmed_ext 0 XHCI_EXT_FLAG_READY =
        (fst (XhciControllerUpdateFlags programmed_ext 0 XHCI_EXT_FLAG_READY), running_ext)"
      by (simp add: running_ext_def)
  qed
  ultimately show ?thesis by (rule cmd_reachable.step)
qed

lemma busy_step: "cmd_step ok running_ext busy_ext"
proof (rule cmd_step.submit)
  show "is_command enable_slot_trb" by code_simp
  show "submit_locked running_ext enable_slot_trb False =
      (fst (submit_locked running_ext enable_slot_trb False), busy_ext, snd (snd (submit_locked running_ext enable_slot_trb False)))"
    by (simp add: busy_ext_def)
qed

lemmas busy_ext_reachable = cmd_reachable.step [OF running_reachable busy_step]

text \<open>The command times out, the ring stops on it, and the next command is issued behind the No Op.\<close>

definition busy_token :: xhci_command_timeout where
  "busy_token = \<lparr>Epoch = 1, Generation = 1, Phase = XHCI_CMD_PHASE_COMMAND, Attempt = 0\<rparr>"

definition aborting_ext :: xhci_extension where
  "aborting_ext = fst (snd (timeout_locked busy_ext busy_token (\<lambda>_. XHCI_CRCR_CRR) 0))"

definition stop_event :: xhci_trb where
  "stop_event = \<lparr>Param0 = 0x1000, Param1 = 0, Status = 0x18000000, Control = 0\<rparr>"

definition stopped_ext :: xhci_extension where
  "stopped_ext = snd (XhciCommandEvent aborting_ext (Some stop_event))"

definition reissued_ext :: xhci_extension where
  "reissued_ext = fst (snd (submit_locked stopped_ext enable_slot_trb False))"

lemma reissued_reachable: "cmd_reachable honest_stop reissued_ext"
proof -
  have "cmd_step honest_stop busy_ext aborting_ext"
    by (rule cmd_step.timeout [of _ busy_token "\<lambda>_. XHCI_CRCR_CRR" 0 _ _
        "snd (snd (timeout_locked busy_ext busy_token (\<lambda>_. XHCI_CRCR_CRR) 0))"])
      (simp add: aborting_ext_def prod_eq_iff)
  moreover have "cmd_step honest_stop aborting_ext stopped_ext"
  proof (rule cmd_step.event)
    have "CommandTrbPA aborting_ext \<noteq> 0" by code_simp
    then show "honest_stop (engine aborting_ext) (event_pointer stop_event)" by (simp add: engine_def)
    show "XhciCommandEvent aborting_ext (Some stop_event) = (fst (XhciCommandEvent aborting_ext (Some stop_event)), stopped_ext)"
      by (simp add: stopped_ext_def)
  qed
  moreover have "cmd_step honest_stop stopped_ext reissued_ext"
  proof (rule cmd_step.submit)
    show "is_command enable_slot_trb" by code_simp
    show "submit_locked stopped_ext enable_slot_trb False =
        (fst (submit_locked stopped_ext enable_slot_trb False), reissued_ext, snd (snd (submit_locked stopped_ext enable_slot_trb False)))"
      by (simp add: reissued_ext_def)
  qed
  ultimately show ?thesis by (meson busy_ext_reachable cmd_reachable.step)
qed

section \<open>The dialogue\<close>



text \<open>
  C8: The command engine refines the abstract machine \<open>engine_step\<close>. Each region under the lock, on
  each of its branches, is one step of the machine over the state, the outstanding command, the
  rewritten No Op, the ring and the flags, with the doorbell and the signals to the waiter as its
  only outputs.
\<close>

theorem command_engine_refines:
  assumes "cmd_reachable ok ext" and "cmd_step ok ext ext'"
  shows "engine_step ok (abstract ext) (abstract ext')"
  using cmd_step_refines [OF assms(2)] reachable_ok [OF assms(1)] by (simp add: abstract_fields)

theorem command_engine_refines_witness:
  "engine_step honest_stop (abstract running_ext) (abstract busy_ext)"
  by (rule command_engine_refines [OF running_reachable busy_step])

section \<open>What the controller can reach\<close>

lemma view_member:
  assumes r: "ring_reachable r" and i: "i \<in> set (hw_view r)"
  shows "(XhciRingTrbPA r (of_nat i), XHCI_TRB_GET_TYPE (Control (Base r ! i))) \<in> set (command_view r)"
proof -
  have g: "ring_geom r" and inv: "ring_inv r"
    using reachable_geom [OF r] reachable_inv [OF r] by auto
  obtain y where y: "y < used r" "i = pos r y"
    using i unfolding hw_view_outstanding [OF inv] outstanding_def cyc_seg_def by (auto simp: pos_def)
  have "\<not> Trbs r \<le> of_nat i"
    using unat_pos [OF g, of y] pos_less [OF g, of y] geom_bounds(5) [OF g] y(2) by (simp add: word_le_nat_alt)
  then have "command_view r ! y = (XhciRingTrbPA r (of_nat i), XHCI_TRB_GET_TYPE (Control (Base r ! i)))"
    using y by (simp add: command_view_def ring_addresses_def pending_def outstanding_def cyc_seg_def pos_def XhciRingTrbPA_def)
  then show ?thesis using y(1) by (metis length_view nth_mem)
qed

text \<open>
  C7: An abandoned command never runs. As long as the controller reports its ring stopped where the
  specification says, then on an initialized controller whose engine is idle or waiting, whatever
  timed out, was aborted or was lost before, the TRBs the controller reaches from its dequeue
  pointer are No Ops and the outstanding command, in that order: one No Op at most, and nothing but
  it when no command is outstanding.
\<close>

theorem abandoned_command_never_runs:
  assumes "cmd_reachable honest_stop ext" and "Flags ext AND XHCI_EXT_FLAG_INITIALIZED \<noteq> 0"
    and st: "CommandState ext \<noteq> XHCI_CMD_STATE_ABORTING"
  shows "length (hw_view (CommandRing ext)) \<le> (if CommandTrbPA ext = 0 then 1 else 2) \<and>
     list_all (\<lambda>i. XhciRingTrbPA (CommandRing ext) (of_nat i) = CommandTrbPA ext \<or>
        XHCI_TRB_GET_TYPE (Control (Base (CommandRing ext) ! i)) = XHCI_TRB_TYPE_NOOP_COMMAND)
       (hw_view (CommandRing ext))"
proof -
  let ?r = "CommandRing ext"
  have r: "ring_reachable ?r" using reachable_ok [OF assms(1)] by (simp add: abstract_fields)
  have v: "command_view ?r = [] \<or> command_view ?r = noops (CommandNoOpRewrittenPA ext) \<or>
      CommandTrbPA ext \<noteq> 0 \<and> (\<exists>t. command_view ?r = noops (CommandNoOpRewrittenPA ext) @ [(CommandTrbPA ext, t)])"
    using reachable_clean [OF assms(1)] assms(2) st by (auto simp: engine_def split: if_splits)
  have "length (hw_view ?r) = length (command_view ?r)"
    using hw_view_outstanding [OF reachable_inv [OF r]] by (simp add: outstanding_def)
  moreover have "length (command_view ?r) \<le> (if CommandTrbPA ext = 0 then 1 else 2)"
    using v by (auto simp: noops_def simp del: length_view)
  moreover have "p = CommandTrbPA ext \<or> t = XHCI_TRB_TYPE_NOOP_COMMAND" if "(p, t) \<in> set (command_view ?r)" for p t
    using v that by (auto simp: noops_def split: if_splits)
  ultimately show ?thesis
    using view_member [OF r] by (auto simp: list_all_iff)
qed

theorem abandoned_command_never_runs_witness:
  "hw_view (CommandRing reissued_ext) = [0, 1] \<and> CommandTrbPA reissued_ext = 0x1010 \<and>
     XHCI_TRB_GET_TYPE (Control (Base (CommandRing reissued_ext) ! 0)) = XHCI_TRB_TYPE_NOOP_COMMAND"
proof -
  have a: "Flags reissued_ext AND 8 \<noteq> 0" "CommandState reissued_ext \<noteq> XHCI_CMD_STATE_ABORTING"
      "hw_view (CommandRing reissued_ext) = [0, 1]" "CommandTrbPA reissued_ext = 0x1010"
      "XhciRingTrbPA (CommandRing reissued_ext) 0 \<noteq> 0x1010"
    by code_simp+
  then show ?thesis using abandoned_command_never_runs [OF reissued_reachable a(1,2)] by simp
qed

section \<open>Submitting\<close>

text \<open>The answer the checks give, in their order.\<close>

definition submit_answer :: "xhci_extension \<Rightarrow> xhci_trb \<Rightarrow> cmd_status" where
  "submit_answer ext c =
     (if Signature ext \<noteq> XHCI_EXTENSION_SIGNATURE then XHCI_CMD_BAD_PARAM
      else if \<not> is_command c then XHCI_CMD_BAD_TRB
      else if ControllerFailed ext then XHCI_CMD_FAILED
      else if Flags ext AND XHCI_EXT_FLAG_READY \<noteq> XHCI_EXT_FLAG_READY then XHCI_CMD_NOT_READY
      else if CommandState ext \<noteq> XHCI_CMD_STATE_IDLE then XHCI_CMD_BUSY
      else if ch_of c then XHCI_CMD_BAD_TRB
      else XHCI_CMD_OK)"

text \<open>
  A submission says exactly why it is refused. On a controller whose command ring has at least
  three slots, \<open>XhciCommandSubmit\<close> answers, in the order of its checks: not an extension or no
  command, a TRB that is no command, a failed controller, one that is not ready, a command already
  outstanding, a template with its Chain flag set; and otherwise it succeeds. The ring is never full.
  A refusal leaves the extension as it was and reports no address; a success reports the address
  recorded as outstanding.
\<close>

theorem command_submit_exact:
  assumes "cmd_reachable honest_stop ext" and "4 \<le> Trbs (CommandRing ext)"
    and s: "XhciCommandSubmit ext (Some c) answer = (st, ext', pa)"
  shows "st = submit_answer ext c \<and>
     (if st = XHCI_CMD_OK then pa = Some (CommandTrbPA ext') \<and> CommandState ext' = XHCI_CMD_STATE_PENDING
      else pa = None \<and> ext' = ext)"
proof (cases "Signature ext = XHCI_EXTENSION_SIGNATURE \<and> is_command c \<and> \<not> ControllerFailed ext \<and>
    Flags ext AND XHCI_EXT_FLAG_READY = XHCI_EXT_FLAG_READY \<and> CommandState ext = XHCI_CMD_STATE_IDLE")
  case False
  then show ?thesis
    using s by (auto simp: XhciCommandSubmit_def xhciCommandSubmitEx_def submit_answer_def submit_locked_def
        is_command_def xhciCanArmTimer_def Let_def split: if_splits)
next
  case ok: True
  let ?r = "CommandRing ext"
  have r: "ring_reachable ?r" using reachable_ok [OF assms(1)] by (simp add: abstract_fields)
  have inv: "ring_inv ?r" and g: "ring_geom ?r" using reachable_inv [OF r] reachable_geom [OF r] by auto
  have "CommandTrbPA ext = 0" using reachable_ok [OF assms(1)] ok by (simp add: abstract_fields)
  then have "length (command_view ?r) \<le> 1"
    using reachable_clean [OF assms(1)] ok ready_initialized [of "Flags ext"]
    by (auto simp: engine_def noops_def simp del: length_view split: if_splits)
  then have room: "Suc (used ?r) < slots ?r"
    using assms(2) geom_bounds(5) [OF g] by (simp add: word_le_nat_alt)
  have nl: "\<not> is_link c" using ok by (auto simp: is_command_def is_link_def)
  show ?thesis
  proof (cases "ch_of c")
    case True
    then have "XhciRingEnqueue (Some ?r) (Some c) = (XHCI_RING_BAD_CHAIN, Some ?r, None)"
      using geom_bounds(7) [OF g]
      by (simp add: XhciRingEnqueue_def XhciRingEnqueueTd_def XhciRingEnqueueTdGroup_def td_chain_ok_def ch_of_def)
    then show ?thesis
      using s ok True by (auto simp: XhciCommandSubmit_def xhciCommandSubmitEx_def submit_answer_def submit_locked_def
          is_command_def xhciCanArmTimer_def Let_def split: if_splits)
  next
    case False
    then obtain r' pa' where e: "XhciRingEnqueue (Some ?r) (Some c) = (XHCI_RING_OK, Some r', Some pa')"
      using enqueue_one_effect [OF inv nl False room] by (auto simp: XhciRingEnqueue_def)
    obtain e1 tok where l: "submit_locked ext c False = (XHCI_CMD_OK, e1, Some (pa', tok))" "CommandTrbPA e1 = pa'"
        "CommandState e1 = XHCI_CMD_STATE_PENDING"
      using ok e by (auto simp: submit_locked_def Let_def)
    then have "st = XHCI_CMD_OK" "ext' = xhciArmCommandTimer e1 XHCI_COMMAND_TIMEOUT_MS tok answer" "pa = Some pa'"
      using s ok by (auto simp: XhciCommandSubmit_def xhciCommandSubmitEx_def is_command_def xhciCanArmTimer_def Let_def
          split: if_splits)
    then show ?thesis
      using ok False l quiet_arm [of e1 XHCI_COMMAND_TIMEOUT_MS tok answer]
      by (auto simp: submit_answer_def quiet_def engine_def)
  qed
qed

theorem command_submit_exact_witness:
  "submit_answer running_ext enable_slot_trb = XHCI_CMD_OK \<and>
     fst (XhciCommandSubmit running_ext (Some enable_slot_trb) 0) = submit_answer running_ext enable_slot_trb"
proof -
  have "4 \<le> Trbs (CommandRing running_ext)" "submit_answer running_ext enable_slot_trb = XHCI_CMD_OK" by code_simp+
  then show ?thesis
    using command_submit_exact [OF running_reachable, of enable_slot_trb 0] by (metis prod.collapse)
qed
end
