(* ===== verification/Xhci_Cmd_Watchdog.thy ===== *)
theory Xhci_Cmd_Watchdog
  imports Xhci_Cmd_Props
begin

text \<open>
  The command watchdog and the health poll behind it: a watchdog that is no longer current changes
  nothing, one that is current ends in a reset request after a bounded number of callbacks, and a
  command that no watchdog answers for is aborted and then escalated by the poll.
\<close>

section \<open>One callback\<close>

definition watch_live :: "xhci_extension \<Rightarrow> bool" where
  "watch_live ext \<longleftrightarrow>
     Signature ext = XHCI_EXTENSION_SIGNATURE \<and> TrailingSignature ext = XHCI_EXTENSION_TRAILING \<and> StartEpoch ext \<noteq> 0 \<and>
     \<not> ControllerFailed ext \<and> Flags ext AND XHCI_EXT_FLAG_INITIALIZED \<noteq> 0"

lemma callback_abort:
  assumes "watch_live ext" and c: "xhciCommandArmCurrent ext t" and "Phase t = XHCI_CMD_PHASE_ABORT"
  shows "xhciCommandTimeout ext (Some t) reads crcr 0 =
     (if crcr AND XHCI_CRCR_CRR \<noteq> 0 \<or> Attempt t \<ge> XHCI_COMMAND_ABORT_WAITS
      then emit RequestReset (tick CommandResetRequests_update (tick CommandTimeoutArrivals_update ext))
      else emit (ArmTimer XHCI_COMMAND_ABORT_MS (t\<lparr>Attempt := Attempt t + 1\<rparr>))
             (tick CommandAbortWaits_update (tick CommandTimeoutArrivals_update ext)))"
proof -
  have tok: "\<lparr>Epoch = StartEpoch ext, Generation = CommandGeneration ext, Phase = XHCI_CMD_PHASE_ABORT, Attempt = a\<rparr> = t\<lparr>Attempt := a\<rparr>" for a
    using c assms(3) by (cases t) (auto simp: xhciCommandArmCurrent_def)
  show ?thesis
    using assms by (auto simp: tok xhciCommandTimeout_def timeout_locked_def Let_def watch_live_def xhciCommandArmCurrent_def
        xhciArmCommandTimer_def XhciAsyncTimerArm_def XhciRequestControllerReset_def)
qed

lemma callback_command:
  assumes "watch_live ext" and c: "xhciCommandArmCurrent ext t" and "Phase t = XHCI_CMD_PHASE_COMMAND"
  shows "xhciCommandTimeout ext (Some t) reads crcr 0 =
     emit (ArmTimer XHCI_COMMAND_ABORT_MS (t\<lparr>Phase := XHCI_CMD_PHASE_ABORT, Attempt := 0\<rparr>))
       (begin_abort (tick CommandsTimedOut_update (tick CommandTimeoutArrivals_update ext)) reads)"
proof -
  have tok: "\<lparr>Epoch = StartEpoch ext, Generation = CommandGeneration ext, Phase = XHCI_CMD_PHASE_ABORT, Attempt = 0\<rparr> =
      t\<lparr>Phase := XHCI_CMD_PHASE_ABORT, Attempt := 0\<rparr>"
    using c by (cases t) (auto simp: xhciCommandArmCurrent_def)
  show ?thesis
    using assms by (auto simp: tok xhciCommandTimeout_def timeout_locked_def Let_def watch_live_def xhciCommandArmCurrent_def
        xhciArmCommandTimer_def XhciAsyncTimerArm_def)
qed

text \<open>
  A stale watchdog does nothing. A callback whose token is not the current one (another start,
  another command, or a phase the engine has left), or that arrives after the controller failed or
  was quiesced, changes counters only: no register is written, nothing is armed, no reset is asked
  for, and no waiter is told anything.
\<close>

theorem stale_watchdog_ignored:
  assumes "\<not> xhciCommandArmCurrent ext t \<or> ControllerFailed ext \<or> Flags ext AND XHCI_EXT_FLAG_INITIALIZED = 0"
  shows "\<exists>counters. xhciCommandTimeout ext (Some t) reads crcr answer = ext\<lparr>Counters := counters\<rparr>"
proof -
  define e where "e = xhciCommandTimeout ext (Some t) reads crcr answer"
  have "e = ext \<or> e = tick CommandsAfterFailure_update (tick CommandTimeoutArrivals_update ext) \<or>
      e = tick CommandStaleCallbacks_update (tick CommandTimeoutArrivals_update ext)"
    using assms unfolding e_def xhciCommandTimeout_def timeout_locked_def Let_def xhciCommandArmCurrent_def
    by (auto split: if_splits)
  then have "e = ext\<lparr>Counters := Counters e\<rparr>"
    by (elim disjE) (simp_all add: tick_def)
  then show ?thesis unfolding e_def [symmetric] by (rule exI)
qed

theorem stale_watchdog_ignored_witness:
  "\<exists>counters. xhciCommandTimeout reissued_ext (Some busy_token) (\<lambda>_. 0) 0 0 = reissued_ext\<lparr>Counters := counters\<rparr>"
proof -
  have "\<not> xhciCommandArmCurrent reissued_ext busy_token" by code_simp
  then show ?thesis using stale_watchdog_ignored by blast
qed

section \<open>The ladder\<close>

text \<open>
  The callbacks one after the other while nothing else happens: each entry of the list is what the
  controller answers to one callback's reads of CRCR, and the token of the next callback is the one
  this callback armed.
\<close>

definition newly_armed :: "xhci_extension \<Rightarrow> xhci_extension \<Rightarrow> xhci_command_timeout option" where
  "newly_armed ext ext' =
     (case drop (length (Effects ext)) (Effects ext') of
        [] \<Rightarrow> None
      | e # es \<Rightarrow> (case last (e # es) of ArmTimer _ t \<Rightarrow> Some t | _ \<Rightarrow> None))"

lemma newly_armed_last:
  "Effects ext' = Effects ext @ xs @ [ArmTimer ms t] \<Longrightarrow> newly_armed ext ext' = Some t"
  by (cases xs) (simp_all add: newly_armed_def)

fun watchdog_ladder :: "((nat \<Rightarrow> ulong) \<times> ulong) list \<Rightarrow> xhci_extension \<Rightarrow> xhci_command_timeout \<Rightarrow> xhci_extension" where
  "watchdog_ladder [] ext t = ext"
| "watchdog_ladder ((reads, crcr) # hw) ext t =
     (let ext' = xhciCommandTimeout ext (Some t) reads crcr 0 in
      case newly_armed ext ext' of
        None \<Rightarrow> ext'
      | Some t' \<Rightarrow> watchdog_ladder hw ext' t')"

definition armed_ms :: "cmd_effect list \<Rightarrow> nat" where
  "armed_ms es = sum_list (map (\<lambda>e. case e of ArmTimer ms _ \<Rightarrow> unat ms | _ \<Rightarrow> 0) es)"

lemma armed_ms_simps [simp]:
  "armed_ms [] = 0" "armed_ms (e # es) = (case e of ArmTimer ms _ \<Rightarrow> unat ms | _ \<Rightarrow> 0) + armed_ms es"
  "armed_ms (es @ fs) = armed_ms es + armed_ms fs"
  by (simp_all add: armed_ms_def)

lemma live_tick [simp]: "watch_live (tick f ext) = watch_live ext" "watch_live (emit e ext) = watch_live ext"
  by (simp_all add: watch_live_def tick_def emit_def)

lemma current_tick [simp]:
  "xhciCommandArmCurrent (tick f ext) t = xhciCommandArmCurrent ext t"
  "xhciCommandArmCurrent (emit e ext) t = xhciCommandArmCurrent ext t"
  by (simp_all add: xhciCommandArmCurrent_def)

text \<open>In the abort phase every callback waits once more, at most twice, or asks for the reset.\<close>

lemma ladder_aborting:
  assumes "watch_live ext" "xhciCommandArmCurrent ext t" "Phase t = XHCI_CMD_PHASE_ABORT"
    and "unat (Attempt t) \<le> 2" "3 \<le> unat (Attempt t) + length hw"
  shows "\<exists>es. Effects (watchdog_ladder hw ext t) = Effects ext @ es @ [RequestReset] \<and>
     armed_ms es \<le> 5000 * (2 - unat (Attempt t))"
  using assms
proof (induction hw arbitrary: ext t)
  case Nil
  then show ?case by simp
next
  case (Cons h hw)
  obtain reads crcr where h: "h = (reads, crcr)" by fastforce
  note call = callback_abort [OF Cons.prems(1-3), of reads crcr]
  show ?case
  proof (cases "crcr AND XHCI_CRCR_CRR \<noteq> 0 \<or> Attempt t \<ge> XHCI_COMMAND_ABORT_WAITS")
    case True
    then show ?thesis
      by (intro exI [of _ "[]"]) (auto simp: h call newly_armed_def Let_def)
  next
    case False
    define e where "e = tick CommandAbortWaits_update (tick CommandTimeoutArrivals_update ext)"
    define t' where "t' = t\<lparr>Attempt := Attempt t + 1\<rparr>"
    have lt: "unat (Attempt t) < 2" using False by (simp add: word_le_nat_alt)
    then have a: "unat (Attempt t') = Suc (unat (Attempt t))"
      by (simp add: t'_def unat_add_no_wrap)
    have cur: "xhciCommandArmCurrent (emit (ArmTimer XHCI_COMMAND_ABORT_MS t') e) t'"
      using Cons.prems(2) by (simp add: e_def t'_def xhciCommandArmCurrent_def)
    have "\<exists>es. Effects (watchdog_ladder hw (emit (ArmTimer XHCI_COMMAND_ABORT_MS t') e) t') =
        Effects (emit (ArmTimer XHCI_COMMAND_ABORT_MS t') e) @ es @ [RequestReset] \<and> armed_ms es \<le> 5000 * (2 - unat (Attempt t'))"
      by (rule Cons.IH) (use Cons.prems lt a cur in \<open>auto simp: e_def t'_def\<close>)
    then obtain es where es: "Effects (watchdog_ladder hw (emit (ArmTimer XHCI_COMMAND_ABORT_MS t') e) t') =
        Effects (emit (ArmTimer XHCI_COMMAND_ABORT_MS t') e) @ es @ [RequestReset]" "armed_ms es \<le> 5000 * (2 - unat (Attempt t'))"
      by blast
    have "watchdog_ladder (h # hw) ext t = watchdog_ladder hw (emit (ArmTimer XHCI_COMMAND_ABORT_MS t') e) t'"
      using False by (simp add: h call newly_armed_def Let_def e_def t'_def)
    then show ?thesis
      using es lt a by (intro exI [of _ "ArmTimer XHCI_COMMAND_ABORT_MS t' # es"]) (auto simp: e_def)
  qed
qed

lemma begin_abort_live:
  "watch_live (begin_abort ext reads) = watch_live ext"
  "StartEpoch (begin_abort ext reads) = StartEpoch ext" "CommandGeneration (begin_abort ext reads) = CommandGeneration ext"
  "CommandState (begin_abort ext reads) = XHCI_CMD_STATE_ABORTING"
  "\<exists>es. Effects (begin_abort ext reads) = Effects ext @ es \<and> armed_ms es = 0"
  by (auto simp: begin_abort_def XhciWriteCrcrAbort_def watch_live_def emit_def tick_def
      split: option.splits if_splits)

text \<open>
  C9: The watchdog of a command that never completes ends in a controller reset. Whatever CRCR reads,
  if nothing else happens to the engine then at most four callbacks after the command was armed the
  reset is requested; all the timers armed on the way, the command's own interval included, run out
  before the health poll takes the command for forgotten (\<open>XHCI_COMMAND_AGE_MS\<close>).
\<close>

theorem watchdog_escalates:
  assumes "watch_live ext" and "xhciCommandArmCurrent ext t" and "Phase t = XHCI_CMD_PHASE_COMMAND" and "4 \<le> length hw"
  shows "\<exists>es. Effects (watchdog_ladder hw ext t) = Effects ext @ es @ [RequestReset] \<and>
     unat XHCI_COMMAND_TIMEOUT_MS + armed_ms es < unat XHCI_COMMAND_AGE_MS"
proof -
  obtain reads crcr hw' where hw: "hw = (reads, crcr) # hw'" "3 \<le> length hw'"
    using assms(4) by (cases hw) auto
  define t' where "t' = t\<lparr>Phase := XHCI_CMD_PHASE_ABORT, Attempt := 0\<rparr>"
  define e where "e = begin_abort (tick CommandsTimedOut_update (tick CommandTimeoutArrivals_update ext)) reads"
  obtain xs where xs: "Effects e = Effects ext @ xs" "armed_ms xs = 0"
    using begin_abort_live(5) [of "tick CommandsTimedOut_update (tick CommandTimeoutArrivals_update ext)" reads]
    by (auto simp: e_def)
  have "watchdog_ladder hw ext t = watchdog_ladder hw' (emit (ArmTimer XHCI_COMMAND_ABORT_MS t') e) t'"
    using callback_command [OF assms(1-3), of reads crcr] xs(1)
      newly_armed_last [of "emit (ArmTimer XHCI_COMMAND_ABORT_MS t') e" ext xs XHCI_COMMAND_ABORT_MS t']
    by (simp add: hw(1) Let_def e_def t'_def)
  moreover have "\<exists>es. Effects (watchdog_ladder hw' (emit (ArmTimer XHCI_COMMAND_ABORT_MS t') e) t') =
      Effects (emit (ArmTimer XHCI_COMMAND_ABORT_MS t') e) @ es @ [RequestReset] \<and> armed_ms es \<le> 5000 * (2 - unat (Attempt t'))"
    using assms(1,2) hw(2) by (intro ladder_aborting) (auto simp: e_def t'_def begin_abort_live xhciCommandArmCurrent_def)
  ultimately obtain es where "Effects (watchdog_ladder hw ext t) = (Effects ext @ xs @ [ArmTimer XHCI_COMMAND_ABORT_MS t']) @ es @ [RequestReset]"
      "armed_ms es \<le> 10000"
    using xs(1) by (auto simp: t'_def)
  then show ?thesis
    using xs(2) by (intro exI [of _ "xs @ [ArmTimer XHCI_COMMAND_ABORT_MS t'] @ es"]) simp
qed

theorem watchdog_escalates_witness:
  "\<exists>es. Effects (watchdog_ladder (replicate 4 (\<lambda>_. 0, 0)) busy_ext busy_token) = Effects busy_ext @ es @ [RequestReset]"
proof -
  have a: "watch_live busy_ext" "xhciCommandArmCurrent busy_ext busy_token" "Phase busy_token = XHCI_CMD_PHASE_COMMAND"
    by code_simp+
  show ?thesis using watchdog_escalates [OF a, of "replicate 4 (\<lambda>_. 0, 0)"] by auto
qed

section \<open>The health poll\<close>

text \<open>
  Polls one after the other while nothing else happens: whether one of them asked for a reset, and
  how many milliseconds the poll clock advanced. Each poll brings its two reads of the microframe
  index, its read of USBSTS and its reads of CRCR.
\<close>

fun health_run :: "xhci_extension \<Rightarrow> (ulong \<times> ulong \<times> ulong \<times> (nat \<Rightarrow> ulong)) list \<Rightarrow> bool \<times> nat" where
  "health_run ext [] = (False, 0)"
| "health_run ext ((mf1, mf2, usbsts, reads) # polls) =
     (case XhciControllerHealthPoll ext mf1 mf2 usbsts reads of
        (escalate, ext') \<Rightarrow>
          (case health_run ext' polls of
             (b, ms) \<Rightarrow> (escalate \<or> b, unat (PollClockMs (Clock ext') - PollClockMs (Clock ext)) + ms)))"

definition poll_live :: "xhci_extension \<Rightarrow> bool" where
  "poll_live ext \<longleftrightarrow>
     Signature ext = XHCI_EXTENSION_SIGNATURE \<and> HcInfoStatus ext = XHCI_HC_OK \<and> \<not> ControllerFailed ext \<and>
     Flags ext AND XHCI_EXT_FLAG_READY = XHCI_EXT_FLAG_READY \<and> PollClockSynced (Clock ext)"

text \<open>What a poll hands to the age check: the same command, and a clock at most a frame counter's lap on.\<close>

definition polled :: "xhci_extension \<Rightarrow> ulong \<Rightarrow> xhci_extension \<Rightarrow> bool" where
  "polled ext adv f \<longleftrightarrow>
     poll_live f \<and> unat adv \<le> 2047 \<and> PollClockMs (Clock f) = PollClockMs (Clock ext) + adv \<and>
     CommandState f = CommandState ext \<and> CommandGeneration f = CommandGeneration ext \<and>
     CommandAgeStamp f = CommandAgeStamp ext \<and> CommandAgeEscalated f = CommandAgeEscalated ext \<and>
     CommandAgeGeneration f = CommandAgeGeneration ext"

lemma poll_split:
  assumes live: "poll_live ext" and mf: "mf2 \<noteq> 0xFFFFFFFF" and sts: "usbsts \<noteq> 0xFFFFFFFF"
    and s: "XhciControllerHealthPoll ext mf1 mf2 usbsts reads = (escalate, ext')"
  obtains adv f old where "polled ext adv f" "health_age f reads = (old, ext')" "old \<Longrightarrow> escalate"
proof -
  define e1 where "e1 = XhciFrameSample (tick HealthPolls_update ext) mf1"
  define adv where "adv = (mfindex_frame mf2 - PollClockFrame (Clock ext)) AND XHCI_MFINDEX_FRAME_MASK"
  define e2 where "e2 = (XhciPollClockAdvance e1 mf2)\<lparr>LastCheckStatus := usbsts\<rparr>"
  have "unat adv = unat (mfindex_frame mf2 - PollClockFrame (Clock ext)) mod 2 ^ 11"
    unfolding adv_def using unat_and_mask [of "mfindex_frame mf2 - PollClockFrame (Clock ext)" 11] by (simp add: mask_eq_exp_minus_1)
  then have adv: "unat adv \<le> 2047" by simp
  have e1: "poll_live e1" "PollClockMs (Clock e1) = PollClockMs (Clock ext)"
      "PollClockFrame (Clock e1) = PollClockFrame (Clock ext)" "CommandState e1 = CommandState ext"
      "CommandGeneration e1 = CommandGeneration ext" "CommandAgeStamp e1 = CommandAgeStamp ext"
      "CommandAgeEscalated e1 = CommandAgeEscalated ext" "CommandAgeGeneration e1 = CommandAgeGeneration ext"
    using live by (auto simp: e1_def XhciFrameSample_def poll_live_def Let_def clock_runs_def)
  have "polled ext adv e2"
    using e1 mf adv by (auto simp: polled_def e2_def XhciPollClockAdvance_def poll_live_def Let_def clock_runs_def adv_def)
  moreover obtain esc f where f: "health_status e2 usbsts = (esc, f)" by fastforce
  ultimately have pf: "polled ext adv f"
    by (auto simp: health_status_def polled_def poll_live_def split: if_splits)
  obtain old g where g: "health_age f reads = (old, g)" by fastforce
  have "Flags ext AND XHCI_EXT_FLAG_INITIALIZED \<noteq> 0"
    using live ready_initialized [of "Flags ext"] by (simp add: poll_live_def)
  then have "escalate = (esc \<or> old) \<and> ext' = g"
    using s live sts f g unfolding XhciControllerHealthPoll_def Let_def e1_def [symmetric] e2_def [symmetric]
    by (auto simp: poll_live_def)
  then show thesis using that [OF pf] g by simp
qed

text \<open>The age the poll has seen, and how much clock is left before it must ask for the reset.\<close>

definition seen_age :: "xhci_extension \<Rightarrow> nat" where
  "seen_age ext = unat (PollClockMs (Clock ext) - CommandAgeStamp ext)"

definition stuck :: "xhci_extension \<Rightarrow> bool" where
  "stuck ext \<longleftrightarrow>
     poll_live ext \<and> CommandState ext \<noteq> XHCI_CMD_STATE_IDLE \<and>
     (CommandAgeGeneration ext = CommandGeneration ext \<longrightarrow>
        seen_age ext < 32000 \<and> \<not> CommandAgeEscalated ext)"

definition age_left :: "xhci_extension \<Rightarrow> nat" where
  "age_left ext =
     (if CommandAgeGeneration ext \<noteq> CommandGeneration ext then 2047 + 32000 else 32000 - seen_age ext) +
     (if CommandState ext = XHCI_CMD_STATE_PENDING then 2047 + 32000 else 0)"

lemma begin_abort_poll:
  "poll_live (begin_abort ext reads) = poll_live ext" "Clock (begin_abort ext reads) = Clock ext"
  "CommandAgeGeneration (begin_abort ext reads) = CommandAgeGeneration ext"
  by (auto simp: begin_abort_def XhciWriteCrcrAbort_def poll_live_def emit_def tick_def split: option.splits if_splits)

lemma poll_live_frame [simp]:
  "poll_live (tick f ext) = poll_live ext"
  "poll_live (ext\<lparr>CommandAgeStamp := a, CommandAgeEscalated := b\<rparr>) = poll_live ext"
  by (simp_all add: poll_live_def)

lemma poll_progress:
  assumes st: "stuck ext" and p: "polled ext adv f" and h: "health_age f reads = (old, ext')"
  shows "old \<or> stuck ext' \<and> age_left ext' + unat adv \<le> age_left ext \<and> PollClockMs (Clock ext') = PollClockMs (Clock ext) + adv"
proof (cases "CommandAgeGeneration ext = CommandGeneration ext")
  case False
  then show ?thesis
    using st p h by (auto simp: health_age_def Let_def polled_def stuck_def age_left_def seen_age_def poll_live_def
        split: if_splits)
next
  case same: True
  have young: "seen_age ext < 32000" and adv: "unat adv \<le> 2047"
    using st p same by (auto simp: stuck_def polled_def)
  have "PollClockMs (Clock f) - CommandAgeStamp f = (PollClockMs (Clock ext) - CommandAgeStamp ext) + adv"
    using p by (simp add: polled_def)
  then have age: "seen_age f = seen_age ext + unat adv"
    using young adv by (simp add: seen_age_def unat_add_no_wrap)
  have old: "PollClockMs (Clock f) - CommandAgeStamp f \<ge> XHCI_COMMAND_AGE_MS \<longleftrightarrow> 32000 \<le> seen_age f"
    by (simp add: word_le_nat_alt seen_age_def)
  have f: "poll_live f" "CommandState f \<noteq> XHCI_CMD_STATE_IDLE" "CommandState f = CommandState ext" "\<not> CommandAgeEscalated f"
      "CommandAgeGeneration f = CommandGeneration f" "PollClockMs (Clock f) = PollClockMs (Clock ext) + adv"
    using st p same by (auto simp: stuck_def polled_def)
  consider (young) "seen_age f < 32000" | (give_up) "32000 \<le> seen_age f" "CommandState f = XHCI_CMD_STATE_PENDING"
    | (escalate) "32000 \<le> seen_age f" "CommandState f \<noteq> XHCI_CMD_STATE_PENDING" by linarith
  then show ?thesis
  proof cases
    case young
    then have "ext' = f"
      using h f old by (auto simp: health_age_def Let_def split: if_splits)
    then show ?thesis using young f age same by (auto simp: stuck_def age_left_def)
  next
    case give_up
    then have "ext' = (begin_abort (tick CommandAgeAborts_update f) reads)\<lparr>CommandAgeStamp := PollClockMs (Clock f), CommandAgeEscalated := False\<rparr>"
      using h f old by (auto simp: health_age_def Let_def split: if_splits)
    then show ?thesis
      using f adv same give_up(2) by (auto simp: stuck_def age_left_def seen_age_def begin_abort_poll begin_abort_live)
  next
    case escalate
    then show ?thesis using h f old by (auto simp: health_age_def Let_def split: if_splits)
  qed
qed

lemma run_escalates:
  assumes "stuck ext" and "list_all (\<lambda>(mf1, mf2, usbsts, reads). mf2 \<noteq> 0xFFFFFFFF \<and> usbsts \<noteq> 0xFFFFFFFF) polls"
    and "age_left ext \<le> snd (health_run ext polls)"
  shows "fst (health_run ext polls)"
  using assms
proof (induction polls arbitrary: ext)
  case Nil
  then show ?case by (auto simp: age_left_def stuck_def split: if_splits)
next
  case (Cons poll polls)
  obtain mf1 mf2 usbsts reads where poll: "poll = (mf1, mf2, usbsts, reads)" by (metis prod_cases4)
  obtain escalate ext' where s: "XhciControllerHealthPoll ext mf1 mf2 usbsts reads = (escalate, ext')" by fastforce
  have "poll_live ext" "mf2 \<noteq> 0xFFFFFFFF" "usbsts \<noteq> 0xFFFFFFFF"
    using Cons.prems poll by (auto simp: stuck_def)
  then obtain adv f old where p: "polled ext adv f" "health_age f reads = (old, ext')" "old \<Longrightarrow> escalate"
    using poll_split [OF _ _ _ s] by metis
  show ?case
  proof (cases old)
    case True
    then show ?thesis using p(3) s by (simp add: poll case_prod_unfold)
  next
    case False
    with poll_progress [OF Cons.prems(1) p(1,2)] have "stuck ext'" "age_left ext' + unat adv \<le> age_left ext"
        "PollClockMs (Clock ext') - PollClockMs (Clock ext) = adv" by auto
    moreover from this have "age_left ext' \<le> snd (health_run ext' polls)"
      using Cons.prems(3) s by (simp add: poll case_prod_unfold)
    ultimately have "fst (health_run ext' polls)"
      using Cons.IH [of ext'] Cons.prems(2) by simp
    then show ?thesis using s by (simp add: poll case_prod_unfold)
  qed
qed

text \<open>
  A command nobody answers for is not forgotten. While the clock of the health poll runs, a
  command that stays outstanding, whether its watchdog was lost or never armed, makes a poll ask for
  the controller reset as soon as that clock has advanced by \<open>age_left\<close>, which is never more than 68.1
  seconds: 32 seconds to the abort and 32 more to the reset, the first seen at most one lap of the
  2048-frame counter late, and one lap to notice that the command is a new one. The arithmetic is
  that of 32-bit words that wrap.
\<close>

theorem forgotten_command_escalated:
  assumes "poll_live ext" and "CommandState ext \<noteq> XHCI_CMD_STATE_IDLE"
    and "CommandAgeGeneration ext = CommandGeneration ext \<Longrightarrow>
           PollClockMs (Clock ext) - CommandAgeStamp ext < XHCI_COMMAND_AGE_MS \<and> \<not> CommandAgeEscalated ext"
    and "list_all (\<lambda>(mf1, mf2, usbsts, reads). mf2 \<noteq> 0xFFFFFFFF \<and> usbsts \<noteq> 0xFFFFFFFF) polls"
    and "age_left ext \<le> snd (health_run ext polls)"
  shows "fst (health_run ext polls) \<and> age_left ext \<le> 68094"
proof
  have "stuck ext" using assms(1-3) by (auto simp: stuck_def seen_age_def word_less_nat_alt)
  then show "fst (health_run ext polls)" by (rule run_escalates [OF _ assms(4,5)])
  show "age_left ext \<le> 68094" by (auto simp: age_left_def)
qed

text \<open>An aborted command the poll has watched for all but six milliseconds, and three polls.\<close>

definition late_ext :: xhci_extension where
  "late_ext = boot_ext\<lparr>Flags := XHCI_EXT_FLAG_READY, CommandState := XHCI_CMD_STATE_ABORTING, CommandTrbPA := 0x1000,
     CommandGeneration := 1, CommandAgeGeneration := 1, CommandAgeStamp := 0xFFFFFFFF,
     Clock := (Clock boot_ext)\<lparr>PollClockMs := 31993, PollClockFrame := 2046\<rparr>\<rparr>"

definition late_polls :: "(ulong \<times> ulong \<times> ulong \<times> (nat \<Rightarrow> ulong)) list" where
  "late_polls = [(0, 8 * 2047, 0, \<lambda>_. 0), (0, 8 * 2, 0, \<lambda>_. 0), (0, 8 * 7, 0, \<lambda>_. 0)]"

theorem forgotten_command_escalated_witness:
  "age_left late_ext = 6 \<and> fst (health_run late_ext late_polls)"
proof -
  have a: "poll_live late_ext" "CommandState late_ext \<noteq> XHCI_CMD_STATE_IDLE"
      "PollClockMs (Clock late_ext) - CommandAgeStamp late_ext < XHCI_COMMAND_AGE_MS \<and> \<not> CommandAgeEscalated late_ext"
      "list_all (\<lambda>(mf1, mf2, usbsts, reads). mf2 \<noteq> 0xFFFFFFFF \<and> usbsts \<noteq> 0xFFFFFFFF) late_polls"
      "age_left late_ext = 6" "6 \<le> snd (health_run late_ext late_polls)"
    by code_simp+
  show ?thesis
    using forgotten_command_escalated [OF a(1,2) _ a(4)] a(3,5,6) by simp
qed

end
