(* ===== verification/Xhci_Caps.thy ===== *)
theory Xhci_Caps
  imports Xhci_Port
begin

text \<open>
  Capability discovery (\<open>xhci_caps.c\<close>): the walk over the extended-capability list, the port map
  built from the supported-protocol capabilities, the decoding of port speeds, and the derivation
  of the controller's geometry from its capability registers.

  The C code reads the register window through a function pointer. Capability registers are
  read-only constants of the controller, so a reading is a function from the byte offset to the
  value, a parameter of every definition. A loop over the list is a recursion on the number of
  capabilities still allowed.
\<close>

type_synonym read32 = "ulong \<Rightarrow> ulong"

section \<open>The extended capability list\<close>

datatype caps_status =
    XHCI_CAPS_OK | XHCI_CAPS_BAD_PARAM | XHCI_CAPS_NO_LIST | XHCI_CAPS_OUT_OF_RANGE | XHCI_CAPS_LOOP
  | XHCI_CAPS_TOO_MANY_PROTOCOLS | XHCI_CAPS_BAD_PORT_RANGE | XHCI_CAPS_OVERLAPPING_PORT
  | XHCI_CAPS_NOT_FOUND

abbreviation (input) XHCI_MAX_XECP_CAPS :: nat where "XHCI_MAX_XECP_CAPS \<equiv> 256"
abbreviation (input) XHCI_XECP_ID_LEGACY :: ulong where "XHCI_XECP_ID_LEGACY \<equiv> 1"
abbreviation (input) XHCI_XECP_ID_PROTOCOL :: ulong where "XHCI_XECP_ID_PROTOCOL \<equiv> 2"
abbreviation (input) XHCI_XECP_ID_DEBUG :: ulong where "XHCI_XECP_ID_DEBUG \<equiv> 10"
abbreviation (input) XHCI_PROTOCOL_NAME_USB :: ulong where "XHCI_PROTOCOL_NAME_USB \<equiv> 0x20425355"
abbreviation (input) XHCI_MAX_PROTOCOLS :: nat where "XHCI_MAX_PROTOCOLS \<equiv> 4"
abbreviation (input) XHCI_MAX_PSI :: nat where "XHCI_MAX_PSI \<equiv> 15"
abbreviation (input) XHCI_PORT_MAP_RESERVED :: nat where "XHCI_PORT_MAP_RESERVED \<equiv> 3"
abbreviation (input) XHCI_PORT_NO_PROTOCOL :: uchar where "XHCI_PORT_NO_PROTOCOL \<equiv> 0xFF"
abbreviation (input) XHCI_PORT_NO_COMPANION :: uchar where "XHCI_PORT_NO_COMPANION \<equiv> 0"
abbreviation (input) XHCI_PORT_CLASS_USB2_ONLY :: uchar where "XHCI_PORT_CLASS_USB2_ONLY \<equiv> 1"
abbreviation (input) XHCI_PORT_CLASS_USB2_COMPANION :: uchar where "XHCI_PORT_CLASS_USB2_COMPANION \<equiv> 2"

definition XHCI_XECP_ID :: "ulong \<Rightarrow> ulong" where "XHCI_XECP_ID dw = dw AND 0xFF"
definition XHCI_XECP_NEXT :: "ulong \<Rightarrow> ulong" where "XHCI_XECP_NEXT dw = drop_bit 8 dw AND 0xFF"
definition XHCI_PROTOCOL_MINOR :: "ulong \<Rightarrow> ulong" where
  "XHCI_PROTOCOL_MINOR dw0 = drop_bit 16 dw0 AND 0xFF"
definition XHCI_PROTOCOL_MAJOR :: "ulong \<Rightarrow> ulong" where
  "XHCI_PROTOCOL_MAJOR dw0 = drop_bit 24 dw0 AND 0xFF"
definition XHCI_PROTOCOL_PORT_OFFSET :: "ulong \<Rightarrow> ulong" where
  "XHCI_PROTOCOL_PORT_OFFSET dw2 = dw2 AND 0xFF"
definition XHCI_PROTOCOL_PORT_COUNT :: "ulong \<Rightarrow> ulong" where
  "XHCI_PROTOCOL_PORT_COUNT dw2 = drop_bit 8 dw2 AND 0xFF"
definition XHCI_PROTOCOL_PSIC :: "ulong \<Rightarrow> ulong" where
  "XHCI_PROTOCOL_PSIC dw2 = drop_bit 28 dw2 AND 0xF"
definition XHCI_PROTOCOL_SLOT_TYPE :: "ulong \<Rightarrow> ulong" where
  "XHCI_PROTOCOL_SLOT_TYPE dw3 = dw3 AND 0x1F"

text \<open>A step reads one header: the capability's first dword and the next offset, or why it stopped.\<close>

definition xhciCapStep :: "read32 \<Rightarrow> ulong \<Rightarrow> ulong \<Rightarrow> caps_status + ulong \<times> ulong" where
  "xhciCapStep read mappedBytes offset =
     (if offset > mappedBytes \<or> mappedBytes - offset < 4 then Inl XHCI_CAPS_OUT_OF_RANGE
      else
        let header = read offset in
        if header = 0xFFFFFFFF then Inl XHCI_CAPS_OUT_OF_RANGE
        else
          let next = XHCI_XECP_NEXT header
          in Inr (header, if next = 0 then 0 else offset + next * 4))"

primrec find_cap_loop ::
    "nat \<Rightarrow> read32 \<Rightarrow> ulong \<Rightarrow> ulong \<Rightarrow> ulong \<Rightarrow> ulong \<Rightarrow> ulong \<Rightarrow> caps_status \<times> ulong" where
  "find_cap_loop 0 read mappedBytes capabilityId requiredBytes byteOffset offset =
     (XHCI_CAPS_LOOP, byteOffset)"
| "find_cap_loop (Suc left) read mappedBytes capabilityId requiredBytes byteOffset offset =
     (case xhciCapStep read mappedBytes offset of
        Inl status \<Rightarrow> (status, byteOffset)
      | Inr (dw0, next) \<Rightarrow>
          if XHCI_XECP_ID dw0 = capabilityId then
            if mappedBytes - offset < requiredBytes then (XHCI_CAPS_OUT_OF_RANGE, byteOffset)
            else (XHCI_CAPS_OK, offset)
          else if next = 0 then (XHCI_CAPS_NOT_FOUND, byteOffset)
          else find_cap_loop left read mappedBytes capabilityId requiredBytes byteOffset next)"

definition XhciFindExtendedCap ::
    "read32 option \<Rightarrow> ulong \<Rightarrow> ulong \<Rightarrow> ulong \<Rightarrow> ulong \<Rightarrow> ulong option \<Rightarrow> caps_status \<times> ulong option" where
  "XhciFindExtendedCap read xecpDwords mappedBytes capabilityId requiredBytes byteOffset =
     (case (read, byteOffset) of
        (Some rd, Some b) \<Rightarrow>
          if requiredBytes < 4 then (XHCI_CAPS_BAD_PARAM, byteOffset)
          else if xecpDwords = 0 then (XHCI_CAPS_NO_LIST, byteOffset)
          else
            (case find_cap_loop XHCI_MAX_XECP_CAPS rd mappedBytes capabilityId requiredBytes b
                    (xecpDwords * 4) of
               (status, b) \<Rightarrow> (status, Some b))
      | _ \<Rightarrow> (XHCI_CAPS_BAD_PARAM, byteOffset))"

section \<open>The port map\<close>

definition blank_protocol :: xhci_protocol where
  "blank_protocol =
     \<lparr>Major = 0, Minor = 0, PortOffset = 0, GroupPortCount = 0, SlotType = 0, PsiCount = 0,
      Psi = replicate XHCI_MAX_PSI 0\<rparr>"

definition xhciResetPortMap :: "ulong \<Rightarrow> xhci_port_map" where
  "xhciResetPortMap maxPorts =
     \<lparr>MapPortCount = maxPorts, ProtocolCount = 0, ManagedPortCount = 0, LegacySupportOffset = 0,
      DebugCapabilityOffset = 0, Protocols = replicate XHCI_MAX_PROTOCOLS blank_protocol,
      PortClasses = replicate 255 XHCI_PORT_CLASS_NONE,
      PortProtocol = replicate 255 XHCI_PORT_NO_PROTOCOL,
      Companion = replicate 255 XHCI_PORT_NO_COMPANION,
      Reserved = replicate XHCI_PORT_MAP_RESERVED 0\<rparr>"

definition claim_port :: "ulong \<Rightarrow> xhci_port_map \<Rightarrow> nat \<Rightarrow> xhci_port_map" where
  "claim_port major m i =
     m\<lparr>PortProtocol := (PortProtocol m)[i - 1 := ucast (ProtocolCount m)],
       PortClasses := (PortClasses m)[i - 1 := (if major = 2 then XHCI_PORT_CLASS_USB2_ONLY
                                                else XHCI_PORT_CLASS_USB3_ORPHAN)]\<rparr>"

text \<open>The group the capability at \<open>offset\<close> describes, its PSI table read into the entry of the map.\<close>

definition record_group :: "read32 \<Rightarrow> ulong \<Rightarrow> ulong \<Rightarrow> xhci_protocol \<Rightarrow> xhci_protocol" where
  "record_group read offset dw0 proto =
     (let dw2 = read (offset + 8);
          dw3 = read (offset + 12);
          psic = XHCI_PROTOCOL_PSIC dw2
      in proto\<lparr>Major := XHCI_PROTOCOL_MAJOR dw0, Minor := XHCI_PROTOCOL_MINOR dw0,
               PortOffset := XHCI_PROTOCOL_PORT_OFFSET dw2,
               GroupPortCount := XHCI_PROTOCOL_PORT_COUNT dw2,
               SlotType := XHCI_PROTOCOL_SLOT_TYPE dw3, PsiCount := psic,
               Psi := foldl (\<lambda>psi i. psi[i := read (offset + 16 + of_nat i * 4)])
                        (Psi proto) [0..<unat psic]\<rparr>)"

definition xhciRecordProtocol ::
    "read32 \<Rightarrow> ulong \<Rightarrow> ulong \<Rightarrow> ulong \<Rightarrow> xhci_port_map \<Rightarrow> caps_status \<times> xhci_port_map" where
  "xhciRecordProtocol read mappedBytes offset dw0 m =
     (if offset > mappedBytes \<or> mappedBytes - offset < 16 then (XHCI_CAPS_OUT_OF_RANGE, m)
      else if read (offset + 4) \<noteq> XHCI_PROTOCOL_NAME_USB then (XHCI_CAPS_OK, m)
      else
        let major = XHCI_PROTOCOL_MAJOR dw0 in
        if major \<noteq> 2 \<and> major \<noteq> 3 then (XHCI_CAPS_OK, m)
        else
          let dw2 = read (offset + 8);
              portOffset = XHCI_PROTOCOL_PORT_OFFSET dw2;
              portCount = XHCI_PROTOCOL_PORT_COUNT dw2;
              psic = XHCI_PROTOCOL_PSIC dw2
          in
          if portCount = 0 then (XHCI_CAPS_OK, m)
          else if portOffset = 0 then (XHCI_CAPS_BAD_PORT_RANGE, m)
          else
            let last = portOffset + portCount - 1 in
            if last > MapPortCount m \<or> last < portOffset then (XHCI_CAPS_BAD_PORT_RANGE, m)
            else if list_ex (\<lambda>i. PortProtocol m ! (i - 1) \<noteq> XHCI_PORT_NO_PROTOCOL)
                      [unat portOffset..<Suc (unat last)] then (XHCI_CAPS_OVERLAPPING_PORT, m)
            else if unat (ProtocolCount m) \<ge> XHCI_MAX_PROTOCOLS then (XHCI_CAPS_TOO_MANY_PROTOCOLS, m)
            else if mappedBytes - offset < 16 + psic * 4 then (XHCI_CAPS_OUT_OF_RANGE, m)
            else
              let n = unat (ProtocolCount m);
                  m = m\<lparr>Protocols := (Protocols m)[n := record_group read offset dw0 (Protocols m ! n)]\<rparr>;
                  m = foldl (claim_port major) m [unat portOffset..<Suc (unat last)]
              in (XHCI_CAPS_OK, m\<lparr>ProtocolCount := ProtocolCount m + 1\<rparr>))"

text \<open>
  Pairing: each SuperSpeed group takes the first USB 2 group that is at least as large, its ports
  against the last ports of that group. \<open>pair_search\<close> is the inner loop with its \<open>continue\<close>s and
  its \<open>break\<close>.
\<close>

definition pair_port :: "nat \<Rightarrow> nat \<Rightarrow> xhci_port_map \<Rightarrow> nat \<Rightarrow> xhci_port_map" where
  "pair_port i j m k =
     (let ss = PortOffset (Protocols m ! i) + of_nat k;
          hs = PortOffset (Protocols m ! j) + GroupPortCount (Protocols m ! j) -
               GroupPortCount (Protocols m ! i) + of_nat k
      in if Companion m ! unat (hs - 1) \<noteq> XHCI_PORT_NO_COMPANION then m
         else m\<lparr>Companion := (Companion m)[unat (ss - 1) := ucast hs, unat (hs - 1) := ucast ss],
                PortClasses := (PortClasses m)[unat (ss - 1) := XHCI_PORT_CLASS_USB3_COMPANION,
                                               unat (hs - 1) := XHCI_PORT_CLASS_USB2_COMPANION]\<rparr>)"

primrec pair_search :: "nat \<Rightarrow> xhci_port_map \<Rightarrow> nat list \<Rightarrow> xhci_port_map" where
  "pair_search i m [] = m"
| "pair_search i m (j # js) =
     (if Major (Protocols m ! j) \<noteq> 2 then pair_search i m js
      else if GroupPortCount (Protocols m ! j) < GroupPortCount (Protocols m ! i) then pair_search i m js
      else foldl (pair_port i j) m [0..<unat (GroupPortCount (Protocols m ! i))])"

definition xhciPairCompanions :: "xhci_port_map \<Rightarrow> xhci_port_map" where
  "xhciPairCompanions m =
     foldl (\<lambda>m i. if Major (Protocols m ! i) \<noteq> 3 then m
                 else pair_search i m [0..<unat (ProtocolCount m)])
       m [0..<unat (ProtocolCount m)]"

definition parse_capability ::
    "read32 \<Rightarrow> ulong \<Rightarrow> ulong \<Rightarrow> ulong \<Rightarrow> xhci_port_map \<Rightarrow> caps_status \<times> xhci_port_map" where
  "parse_capability read mappedBytes offset dw0 m =
     (if XHCI_XECP_ID dw0 = XHCI_XECP_ID_LEGACY then
        (XHCI_CAPS_OK, if LegacySupportOffset m = 0 then m\<lparr>LegacySupportOffset := offset\<rparr> else m)
      else if XHCI_XECP_ID dw0 = XHCI_XECP_ID_PROTOCOL then
        xhciRecordProtocol read mappedBytes offset dw0 m
      else if XHCI_XECP_ID dw0 = XHCI_XECP_ID_DEBUG then
        (XHCI_CAPS_OK, if DebugCapabilityOffset m = 0 then m\<lparr>DebugCapabilityOffset := offset\<rparr> else m)
      else (XHCI_CAPS_OK, m))"

primrec parse_loop ::
    "nat \<Rightarrow> read32 \<Rightarrow> ulong \<Rightarrow> ulong \<Rightarrow> xhci_port_map \<Rightarrow> caps_status \<times> xhci_port_map" where
  "parse_loop 0 read mappedBytes offset m = (XHCI_CAPS_LOOP, m)"
| "parse_loop (Suc left) read mappedBytes offset m =
     (case xhciCapStep read mappedBytes offset of
        Inl status \<Rightarrow> (status, m)
      | Inr (dw0, next) \<Rightarrow>
          (case parse_capability read mappedBytes offset dw0 m of
             (status, m) \<Rightarrow>
               if status \<noteq> XHCI_CAPS_OK then (status, m)
               else if next = 0 then (XHCI_CAPS_OK, m)
               else parse_loop left read mappedBytes next m))"

definition count_managed :: "xhci_port_map \<Rightarrow> xhci_port_map" where
  "count_managed m =
     foldl (\<lambda>m i. if PortClasses m ! i \<noteq> XHCI_PORT_CLASS_NONE
                 then m\<lparr>ManagedPortCount := ManagedPortCount m + 1\<rparr> else m)
       m [0..<unat (MapPortCount m)]"

definition XhciParseExtendedCaps ::
    "read32 option \<Rightarrow> ulong \<Rightarrow> ulong \<Rightarrow> ulong \<Rightarrow> xhci_port_map option
     \<Rightarrow> caps_status \<times> xhci_port_map option" where
  "XhciParseExtendedCaps read xecpDwords mappedBytes maxPorts pm =
     (case (read, pm) of
        (Some rd, Some _) \<Rightarrow>
          if maxPorts = 0 \<or> maxPorts > XHCI_MAX_ROOT_PORTS then (XHCI_CAPS_BAD_PARAM, pm)
          else
            let m = xhciResetPortMap maxPorts in
            if xecpDwords = 0 then (XHCI_CAPS_NO_LIST, Some m)
            else
              (case parse_loop XHCI_MAX_XECP_CAPS rd mappedBytes (xecpDwords * 4) m of
                 (status, m) \<Rightarrow>
                   if status \<noteq> XHCI_CAPS_OK then (status, Some m)
                   else (XHCI_CAPS_OK, Some (count_managed (xhciPairCompanions m))))
      | _ \<Rightarrow> (XHCI_CAPS_BAD_PARAM, pm))"

definition protocol_equal :: "xhci_protocol \<Rightarrow> xhci_protocol \<Rightarrow> bool" where
  "protocol_equal a b \<longleftrightarrow>
     Major a = Major b \<and> Minor a = Minor b \<and> PortOffset a = PortOffset b \<and>
     GroupPortCount a = GroupPortCount b \<and> SlotType a = SlotType b \<and> PsiCount a = PsiCount b \<and>
     list_all (\<lambda>j. Psi a ! j = Psi b ! j) [0..<XHCI_MAX_PSI]"

definition XhciPortMapEqual :: "xhci_port_map option \<Rightarrow> xhci_port_map option \<Rightarrow> bool" where
  "XhciPortMapEqual a b =
     (case (a, b) of
        (Some a, Some b) \<Rightarrow>
          MapPortCount a = MapPortCount b \<and> ProtocolCount a = ProtocolCount b \<and>
          ManagedPortCount a = ManagedPortCount b \<and> LegacySupportOffset a = LegacySupportOffset b \<and>
          DebugCapabilityOffset a = DebugCapabilityOffset b \<and>
          list_all (\<lambda>i. protocol_equal (Protocols a ! i) (Protocols b ! i)) [0..<XHCI_MAX_PROTOCOLS] \<and>
          list_all (\<lambda>i. PortClasses a ! i = PortClasses b ! i \<and>
                       PortProtocol a ! i = PortProtocol b ! i \<and>
                       Companion a ! i = Companion b ! i) [0..<255] \<and>
          list_all (\<lambda>i. Reserved a ! i = Reserved b ! i) [0..<XHCI_PORT_MAP_RESERVED]
      | _ \<Rightarrow> False)"

end
