(* ===== verification/Xhci_Caps_Groups.thy ===== *)
theory Xhci_Caps_Groups
  imports Xhci_Caps_Walk
begin

text \<open>
  What a successful parse has recorded before the pairing: the groups of the chain in chain order,
  and every port owned by the group whose range holds it. \<open>cap_chain\<close> is the chain itself, as
  the list of the capabilities' offsets and headers.
\<close>

section \<open>The chain\<close>

primrec cap_chain :: "nat \<Rightarrow> read32 \<Rightarrow> ulong \<Rightarrow> ulong \<Rightarrow> (ulong \<times> ulong) list option" where
  "cap_chain 0 read mappedBytes offset = None"
| "cap_chain (Suc left) read mappedBytes offset =
     (case xhciCapStep read mappedBytes offset of
        Inl status \<Rightarrow> None
      | Inr (dw0, next) \<Rightarrow>
          if next = 0 then Some [(offset, dw0)]
          else map_option ((#) (offset, dw0)) (cap_chain left read mappedBytes next))"

text \<open>A capability that describes ports the driver manages, and the group it describes.\<close>

definition usb_group :: "read32 \<Rightarrow> ulong \<times> ulong \<Rightarrow> bool" where
  "usb_group read cap \<longleftrightarrow>
     XHCI_XECP_ID (snd cap) = XHCI_XECP_ID_PROTOCOL \<and> read (fst cap + 4) = XHCI_PROTOCOL_NAME_USB \<and>
     XHCI_PROTOCOL_MAJOR (snd cap) \<in> {2, 3} \<and> XHCI_PROTOCOL_PORT_COUNT (read (fst cap + 8)) \<noteq> 0"

definition group_of :: "read32 \<Rightarrow> ulong \<times> ulong \<Rightarrow> xhci_protocol" where
  "group_of read cap = record_group read (fst cap) (snd cap) blank_protocol"

definition group_ports :: "xhci_protocol \<Rightarrow> nat set" where
  "group_ports g = {unat (PortOffset g)..<unat (PortOffset g) + unat (GroupPortCount g)}"

section \<open>The state of the map during the parse\<close>

definition owner :: "xhci_port_map \<Rightarrow> nat \<Rightarrow> uchar" where
  "owner m p = PortProtocol m ! (p - 1)"

definition groups :: "xhci_port_map \<Rightarrow> xhci_protocol list" where
  "groups m = take (unat (ProtocolCount m)) (Protocols m)"

definition group_ok :: "nat \<Rightarrow> xhci_protocol \<Rightarrow> bool" where
  "group_ok maxPorts g \<longleftrightarrow>
     (Major g = 2 \<or> Major g = 3) \<and> 0 < unat (PortOffset g) \<and> 0 < unat (GroupPortCount g) \<and>
     unat (PortOffset g) + unat (GroupPortCount g) \<le> maxPorts + 1 \<and>
     unat (PsiCount g) \<le> 15 \<and> length (Psi g) = 15"

definition map_shape :: "xhci_port_map \<Rightarrow> bool" where
  "map_shape m \<longleftrightarrow>
     length (Protocols m) = 4 \<and> length (PortClasses m) = 255 \<and> length (PortProtocol m) = 255 \<and>
     length (Companion m) = 255 \<and> length (Reserved m) = 3 \<and> 0 < unat (MapPortCount m) \<and>
     unat (MapPortCount m) \<le> 255 \<and> unat (ProtocolCount m) \<le> 4"

text \<open>Every port is owned by the one group whose range holds it, or by none.\<close>

definition claims_ok :: "xhci_port_map \<Rightarrow> bool" where
  "claims_ok m \<longleftrightarrow>
     map_shape m \<and> (\<forall>g\<in>set (groups m). group_ok (unat (MapPortCount m)) g) \<and>
     (\<forall>p\<in>{1..255}. owner m p \<noteq> 0xFF \<longrightarrow> unat (owner m p) < length (groups m)) \<and>
     (\<forall>p\<in>{1..255}. \<forall>g<length (groups m).
        p \<in> group_ports (groups m ! g) \<longleftrightarrow> unat (owner m p) = g)"

text \<open>The class of a port by its group's revision and whether it has a companion.\<close>

definition class_ok :: "xhci_port_map \<Rightarrow> nat \<Rightarrow> bool" where
  "class_ok m p \<longleftrightarrow>
     PortClasses m ! (p - 1) =
       (if owner m p = 0xFF then XHCI_PORT_CLASS_NONE
        else if Major (groups m ! unat (owner m p)) = 2 then
          (if Companion m ! (p - 1) = 0 then XHCI_PORT_CLASS_USB2_ONLY else XHCI_PORT_CLASS_USB2_COMPANION)
        else
          (if Companion m ! (p - 1) = 0 then XHCI_PORT_CLASS_USB3_ORPHAN else XHCI_PORT_CLASS_USB3_COMPANION))"

definition parse_state :: "xhci_port_map \<Rightarrow> bool" where
  "parse_state m \<longleftrightarrow>
     claims_ok m \<and> (\<forall>p\<in>{1..255}. class_ok m p) \<and> Companion m = replicate 255 0 \<and>
     drop (unat (ProtocolCount m)) (Protocols m) = replicate (4 - unat (ProtocolCount m)) blank_protocol"

lemma length_groups [simp]: "map_shape m \<Longrightarrow> length (groups m) = unat (ProtocolCount m)"
  by (simp add: groups_def map_shape_def)

lemma claims_shape: "claims_ok m \<Longrightarrow> map_shape m"
  by (simp add: claims_ok_def)

lemma parse_claims: "parse_state m \<Longrightarrow> claims_ok m"
  by (simp add: parse_state_def)

lemma reset_state:
  assumes "0 < unat maxPorts" and "unat maxPorts \<le> 255"
  shows "parse_state (xhciResetPortMap maxPorts)"
  using assms
  by (auto simp: parse_state_def claims_ok_def map_shape_def groups_def owner_def class_ok_def xhciResetPortMap_def)

section \<open>Recording one group\<close>

lemma psi_loop_length [simp]: "length (foldl (\<lambda>psi i. psi[i := f i]) xs is) = length xs"
  by (induction "is" arbitrary: xs) simp_all

lemma record_group_sel [simp]:
  "Major (record_group r off dw0 g) = XHCI_PROTOCOL_MAJOR dw0"
  "PortOffset (record_group r off dw0 g) = XHCI_PROTOCOL_PORT_OFFSET (r (off + 8))"
  "GroupPortCount (record_group r off dw0 g) = XHCI_PROTOCOL_PORT_COUNT (r (off + 8))"
  "PsiCount (record_group r off dw0 g) = XHCI_PROTOCOL_PSIC (r (off + 8))"
  "length (Psi (record_group r off dw0 g)) = length (Psi g)"
  by (simp_all add: record_group_def Let_def)

text \<open>The claiming loop, with its effect written position by position.\<close>

definition claimed :: "ulong \<Rightarrow> nat \<Rightarrow> nat \<Rightarrow> xhci_port_map \<Rightarrow> xhci_port_map" where
  "claimed major a b m =
     m\<lparr>PortProtocol := map (\<lambda>q. if a \<le> Suc q \<and> Suc q < b then ucast (ProtocolCount m) else PortProtocol m ! q)
                         [0..<length (PortProtocol m)],
       PortClasses := map (\<lambda>q. if a \<le> Suc q \<and> Suc q < b
                               then (if major = 2 then XHCI_PORT_CLASS_USB2_ONLY else XHCI_PORT_CLASS_USB3_ORPHAN)
                               else PortClasses m ! q)
                         [0..<length (PortClasses m)]\<rparr>"

lemma claim_extend:
  assumes "0 < a" and "a \<le> b"
  shows "(map (\<lambda>q. if a \<le> Suc q \<and> Suc q < b then v else xs ! q) [0..<length xs])[b - Suc 0 := v] =
         map (\<lambda>q. if a \<le> Suc q \<and> q < b then v else xs ! q) [0..<length xs]"
proof (rule nth_equalityI)
  fix i assume "i < length ((map (\<lambda>q. if a \<le> Suc q \<and> Suc q < b then v else xs ! q) [0..<length xs])[b - Suc 0 := v])"
  then have i: "i < length xs" by simp
  then show "(map (\<lambda>q. if a \<le> Suc q \<and> Suc q < b then v else xs ! q) [0..<length xs])[b - Suc 0 := v] ! i =
      map (\<lambda>q. if a \<le> Suc q \<and> q < b then v else xs ! q) [0..<length xs] ! i"
    using assms by (cases "i = b - Suc 0") (auto simp: nth_list_update)
qed simp

lemma claimed_none: "claimed major a a m = m"
proof -
  have no: "(a \<le> Suc q \<and> Suc q < a) = False" for q by auto
  show ?thesis unfolding claimed_def no by (simp add: map_nth)
qed

lemma claim_loop: "0 < a \<Longrightarrow> a \<le> b \<Longrightarrow> foldl (claim_port major) m [a..<b] = claimed major a b m"
proof (induction b)
  case (Suc b)
  show ?case
  proof (cases "a \<le> b")
    case True
    then have "foldl (claim_port major) m [a..<Suc b] = claim_port major (claimed major a b m) b"
      using Suc by simp
    also have "\<dots> = claimed major a (Suc b) m"
      by (simp add: claim_port_def claimed_def claim_extend [OF Suc.prems(1) True])
    finally show ?thesis .
  next
    case False
    then have "a = Suc b" using Suc.prems by simp
    then show ?thesis by (simp add: claimed_none)
  qed
qed (simp add: claimed_none)

lemma claimed_at:
  assumes "map_shape m" and "p \<in> {1..255}"
  shows "owner (claimed major a b m) p = (if a \<le> p \<and> p < b then ucast (ProtocolCount m) else owner m p)"
    "PortClasses (claimed major a b m) ! (p - 1) =
       (if a \<le> p \<and> p < b then (if major = 2 then XHCI_PORT_CLASS_USB2_ONLY else XHCI_PORT_CLASS_USB3_ORPHAN)
        else PortClasses m ! (p - 1))"
  using assms by (auto simp: claimed_def owner_def map_shape_def)

lemma claimed_frame [simp]:
  "MapPortCount (claimed major a b m) = MapPortCount m"
  "ProtocolCount (claimed major a b m) = ProtocolCount m"
  "ManagedPortCount (claimed major a b m) = ManagedPortCount m"
  "LegacySupportOffset (claimed major a b m) = LegacySupportOffset m"
  "DebugCapabilityOffset (claimed major a b m) = DebugCapabilityOffset m"
  "Protocols (claimed major a b m) = Protocols m" "Companion (claimed major a b m) = Companion m"
  "Reserved (claimed major a b m) = Reserved m"
  "length (PortClasses (claimed major a b m)) = length (PortClasses m)"
  "length (PortProtocol (claimed major a b m)) = length (PortProtocol m)"
  by (simp_all add: claimed_def)

text \<open>The map after a group \<open>g\<close> has been added to it.\<close>

definition with_group :: "xhci_protocol \<Rightarrow> xhci_port_map \<Rightarrow> xhci_port_map" where
  "with_group g m =
     (claimed (Major g) (unat (PortOffset g)) (unat (PortOffset g) + unat (GroupPortCount g))
        (m\<lparr>Protocols := (Protocols m)[unat (ProtocolCount m) := g]\<rparr>))\<lparr>ProtocolCount := ProtocolCount m + 1\<rparr>"

lemma with_group_sel [simp]:
  "MapPortCount (with_group g m) = MapPortCount m"
  "ManagedPortCount (with_group g m) = ManagedPortCount m"
  "LegacySupportOffset (with_group g m) = LegacySupportOffset m"
  "DebugCapabilityOffset (with_group g m) = DebugCapabilityOffset m"
  "ProtocolCount (with_group g m) = ProtocolCount m + 1"
  "Protocols (with_group g m) = (Protocols m)[unat (ProtocolCount m) := g]"
  "Companion (with_group g m) = Companion m" "Reserved (with_group g m) = Reserved m"
  "length (PortClasses (with_group g m)) = length (PortClasses m)"
  "length (PortProtocol (with_group g m)) = length (PortProtocol m)"
  by (simp_all add: with_group_def)

lemma with_group_at:
  assumes "map_shape m" and "p \<in> {1..255}"
  shows "owner (with_group g m) p = (if p \<in> group_ports g then ucast (ProtocolCount m) else owner m p)"
    "PortClasses (with_group g m) ! (p - 1) =
       (if p \<in> group_ports g then (if Major g = 2 then XHCI_PORT_CLASS_USB2_ONLY else XHCI_PORT_CLASS_USB3_ORPHAN)
        else PortClasses m ! (p - 1))"
proof -
  let ?m = "m\<lparr>Protocols := (Protocols m)[unat (ProtocolCount m) := g]\<rparr>"
  have s: "map_shape ?m" using assms(1) by (simp add: map_shape_def)
  note at = claimed_at [OF s assms(2), of "Major g" "unat (PortOffset g)"
      "unat (PortOffset g) + unat (GroupPortCount g)"]
  show "owner (with_group g m) p = (if p \<in> group_ports g then ucast (ProtocolCount m) else owner m p)"
    using at(1) by (simp add: with_group_def group_ports_def owner_def)
  show "PortClasses (with_group g m) ! (p - 1) =
       (if p \<in> group_ports g then (if Major g = 2 then XHCI_PORT_CLASS_USB2_ONLY else XHCI_PORT_CLASS_USB3_ORPHAN)
        else PortClasses m ! (p - 1))"
    using at(2) by (simp add: with_group_def group_ports_def)
qed

lemma count_next:
  assumes "unat (ProtocolCount m) < 4"
  shows "unat (ProtocolCount m + 1) = Suc (unat (ProtocolCount m))"
  using assms unat_add_no_wrap [of "ProtocolCount m" 1] by simp

lemma groups_with_group:
  assumes "map_shape m" and "unat (ProtocolCount m) < 4"
  shows "groups (with_group g m) = groups m @ [g]"
  using assms count_next [OF assms(2)] by (simp add: groups_def map_shape_def take_Suc_conv_app_nth)

lemma owner_word:
  assumes "unat (ProtocolCount m) < 4"
  shows "unat (ucast (ProtocolCount m) :: uchar) = unat (ProtocolCount m)"
    "(ucast (ProtocolCount m) :: uchar) \<noteq> 0xFF"
proof -
  show eq: "unat (ucast (ProtocolCount m) :: uchar) = unat (ProtocolCount m)"
    using assms by (simp add: unsigned_ucast_eq take_bit_nat_eq_self)
  show "(ucast (ProtocolCount m) :: uchar) \<noteq> 0xFF"
  proof
    assume "(ucast (ProtocolCount m) :: uchar) = 0xFF"
    then have "unat (ucast (ProtocolCount m) :: uchar) = 255" by simp
    then show False using eq assms by simp
  qed
qed

lemma with_group_state:
  assumes s: "parse_state m" and n: "unat (ProtocolCount m) < 4"
    and g: "group_ok (unat (MapPortCount m)) g"
    and free: "\<And>p. p \<in> group_ports g \<Longrightarrow> owner m p = 0xFF"
  shows "parse_state (with_group g m)"
proof -
  have c: "claims_ok m" and sh: "map_shape m" using s parse_claims claims_shape by blast+
  let ?n = "unat (ProtocolCount m)"
  have ln: "length (groups m) = ?n" using sh by simp
  have gr: "groups (with_group g m) = groups m @ [g]" by (rule groups_with_group [OF sh n])
  note at = with_group_at [OF sh] and ow = owner_word [OF n]
  have shape: "map_shape (with_group g m)"
    using sh n count_next [OF n] by (simp add: map_shape_def)
  have inside: "\<And>p. p \<in> group_ports g \<Longrightarrow> p \<in> {1..255}"
    using g sh by (auto simp: group_ports_def group_ok_def map_shape_def)
  have old: "unat (owner m p) < ?n" if "p \<in> {1..255}" "owner m p \<noteq> 0xFF" for p
    using c that ln by (simp add: claims_ok_def)
  have not_n: "unat (owner m p) \<noteq> ?n" if "p \<in> {1..255}" for p
    using old [OF that] n by (cases "owner m p = 0xFF") auto
  have claims: "claims_ok (with_group g m)"
    unfolding claims_ok_def
  proof (intro conjI ballI allI impI)
    fix h assume "h \<in> set (groups (with_group g m))"
    then show "group_ok (unat (MapPortCount (with_group g m))) h" using c g gr by (auto simp: claims_ok_def)
  next
    fix p :: nat assume p: "p \<in> {1..255}" and "owner (with_group g m) p \<noteq> 0xFF"
    then show "unat (owner (with_group g m) p) < length (groups (with_group g m))"
      using at(1) [OF p, of g] gr ow ln old [OF p] by (auto split: if_splits)
  next
    fix p h :: nat assume p: "p \<in> {1..255}" and h: "h < length (groups (with_group g m))"
    have prev: "p \<in> group_ports (groups m ! h) \<longleftrightarrow> unat (owner m p) = h" if "h < ?n"
      using c p that ln by (simp add: claims_ok_def)
    show "p \<in> group_ports (groups (with_group g m) ! h) \<longleftrightarrow> unat (owner (with_group g m) p) = h"
    proof (cases "h < ?n")
      case True
      then have "groups (with_group g m) ! h = groups m ! h" using gr ln by (simp add: nth_append)
      then show ?thesis using prev [OF True] at(1) [OF p, of g] free [of p] ow True n by auto
    next
      case False
      then have "h = ?n" using h gr ln by simp
      then have "groups (with_group g m) ! h = g" using gr ln by (simp add: nth_append)
      then show ?thesis using \<open>h = ?n\<close> at(1) [OF p, of g] ow not_n [OF p] by simp
    qed
  qed (rule shape)
  have cls: "class_ok (with_group g m) p" if p: "p \<in> {1..255}" for p
  proof -
    have "Companion m = replicate 255 0" using s by (simp add: parse_state_def)
    then have comp: "Companion m ! (p - 1) = 0" using p by auto
    have old_class: "class_ok m p" using s p by (simp add: parse_state_def)
    have nth: "groups (with_group g m) ! unat (owner m p) = groups m ! unat (owner m p)" if "owner m p \<noteq> 0xFF"
      using gr old [OF p that] ln by (simp add: nth_append)
    have nthn: "groups (with_group g m) ! ?n = g" using gr ln by (simp add: nth_append)
    show ?thesis
      using old_class at [OF p, of g] nth nthn ow comp unfolding class_ok_def by (auto split: if_splits)
  qed
  have blank: "drop ?n (Protocols m) = replicate (4 - ?n) blank_protocol" using s by (simp add: parse_state_def)
  have "drop (Suc ?n) (Protocols m) = replicate (4 - Suc ?n) blank_protocol"
    using arg_cong [OF blank, of "drop 1"] n by simp
  then have "drop (unat (ProtocolCount (with_group g m))) (Protocols (with_group g m)) =
      replicate (4 - unat (ProtocolCount (with_group g m))) blank_protocol"
    using count_next [OF n] by (simp add: drop_update_cancel)
  then show ?thesis using claims cls s unfolding parse_state_def by simp
qed

section \<open>Recording the chain\<close>

lemma claim_fold_count [simp]: "ProtocolCount (foldl (claim_port major) m is) = ProtocolCount m"
  by (induction "is" arbitrary: m) (simp_all add: claim_port_def)

lemma last_port:
  assumes "0 < unat (c :: ulong)" and "unat (o' :: ulong) + unat c < 4294967296"
  shows "unat (o' + c - 1) = unat o' + unat c - 1"
proof -
  have "unat (o' + c) = unat o' + unat c" using assms(2) by (rule unat_add_no_wrap)
  then show ?thesis using assms unat_sub_no_wrap [of 1 "o' + c"] by simp
qed

lemma record_exact:
  assumes s: "parse_state m" and r: "xhciRecordProtocol r b off dw0 m = (XHCI_CAPS_OK, m')"
    and ident: "XHCI_XECP_ID dw0 = XHCI_XECP_ID_PROTOCOL"
  shows "(if usb_group r (off, dw0) then m' = with_group (group_of r (off, dw0)) m \<and> parse_state m' \<and>
            unat (ProtocolCount m) < 4
          else m' = m)"
proof (cases "usb_group r (off, dw0)")
  case False
  then show ?thesis using r ident by (auto simp: xhciRecordProtocol_def usb_group_def Let_def split: if_splits)
next
  case True
  define po where "po = XHCI_PROTOCOL_PORT_OFFSET (r (off + 8))"
  define pc where "pc = XHCI_PROTOCOL_PORT_COUNT (r (off + 8))"
  let ?g = "group_of r (off, dw0)" and ?n = "unat (ProtocolCount m)"
  note bytes = port_byte_le [of "r (off + 8)", folded po_def pc_def]
  have u: "XHCI_PROTOCOL_MAJOR dw0 = 2 \<or> XHCI_PROTOCOL_MAJOR dw0 = 3" "pc \<noteq> 0"
    "r (off + 4) = XHCI_PROTOCOL_NAME_USB"
    using True by (auto simp: usb_group_def pc_def)
  have npc: "0 < unat pc" using u(2) by (simp add: unat_gt_0)
  have last: "unat (po + pc - 1) = unat po + unat pc - 1"
    using bytes npc by (intro last_port) auto
  have guards: "po \<noteq> 0" "\<not> po + pc - 1 > MapPortCount m"
    "\<not> list_ex (\<lambda>i. PortProtocol m ! (i - 1) \<noteq> XHCI_PORT_NO_PROTOCOL) [unat po..<Suc (unat (po + pc - 1))]"
    "\<not> 4 \<le> ?n"
    and m': "m' = (foldl (claim_port (XHCI_PROTOCOL_MAJOR dw0))
               (m\<lparr>Protocols := (Protocols m)[?n := record_group r off dw0 (Protocols m ! ?n)]\<rparr>)
               [unat po..<Suc (unat (po + pc - 1))])\<lparr>ProtocolCount := ProtocolCount m + 1\<rparr>"
    using r u by (auto simp: xhciRecordProtocol_def Let_def po_def pc_def claim_loop
        split: if_splits simp del: upt_Suc)
  have npo: "0 < unat po" using guards(1) by (simp add: unat_gt_0)
  have sh: "map_shape m" using s parse_claims claims_shape by blast
  have "drop ?n (Protocols m) = replicate (4 - ?n) blank_protocol" using s by (simp add: parse_state_def)
  then have "drop ?n (Protocols m) ! 0 = blank_protocol" using guards(4) by simp
  then have g: "record_group r off dw0 (Protocols m ! ?n) = ?g"
    using sh guards(4) by (simp add: map_shape_def group_of_def)
  have gsel: "Major ?g = XHCI_PROTOCOL_MAJOR dw0" "PortOffset ?g = po" "GroupPortCount ?g = pc"
    "PsiCount ?g = XHCI_PROTOCOL_PSIC (r (off + 8))" "length (Psi ?g) = 15"
    by (simp_all add: group_of_def po_def pc_def blank_protocol_def)
  have rng: "Suc (unat (po + pc - 1)) = unat po + unat pc" using last npc by simp
  have m'_eq: "m' = with_group ?g m"
    unfolding m' rng with_group_def gsel g using claim_loop npo by simp
  have "unat po + unat pc \<le> unat (MapPortCount m) + 1"
    using guards(2) last npc by (simp add: word_le_nat_alt not_less)
  then have ok: "group_ok (unat (MapPortCount m)) ?g"
    using u npo npc psic_le by (simp add: group_ok_def gsel)
  have free: "owner m p = 0xFF" if "p \<in> group_ports ?g" for p
    using guards(3) that unfolding rng by (auto simp: list_ex_iff group_ports_def gsel owner_def)
  have "parse_state (with_group ?g m)"
    by (rule with_group_state [OF s _ ok free]) (use guards(4) in simp_all)
  then show ?thesis using True m'_eq guards(4) by simp
qed

text \<open>The first capability of the chain with an identifier, the offset 0 standing for none.\<close>

definition first_of :: "ulong \<Rightarrow> (ulong \<times> ulong) list \<Rightarrow> ulong" where
  "first_of ident caps =
     (case filter (\<lambda>(off, dw0). off \<noteq> 0 \<and> XHCI_XECP_ID dw0 = ident) caps of [] \<Rightarrow> 0 | cap # _ \<Rightarrow> fst cap)"

definition keep_first :: "ulong \<Rightarrow> ulong \<Rightarrow> ulong" where
  "keep_first old new = (if old = 0 then new else old)"

lemma first_of_simps [simp]:
  "first_of ident [] = 0"
  "first_of ident ((off, dw0) # caps) =
     (if XHCI_XECP_ID dw0 = ident then keep_first off (first_of ident caps) else first_of ident caps)"
  by (auto simp: first_of_def keep_first_def)

lemma keep_first_simps [simp]:
  "keep_first 0 x = x" "keep_first x 0 = x" "keep_first (keep_first x y) z = keep_first x (keep_first y z)"
  by (auto simp: keep_first_def)

lemma capability_exact:
  assumes s: "parse_state m" and c: "parse_capability r b off dw0 m = (XHCI_CAPS_OK, m')"
  shows "parse_state m' \<and> MapPortCount m' = MapPortCount m \<and> ManagedPortCount m' = ManagedPortCount m \<and>
    Reserved m' = Reserved m \<and>
    groups m' = groups m @ map (group_of r) (filter (usb_group r) [(off, dw0)]) \<and>
    LegacySupportOffset m' = keep_first (LegacySupportOffset m) (first_of XHCI_XECP_ID_LEGACY [(off, dw0)]) \<and>
    DebugCapabilityOffset m' = keep_first (DebugCapabilityOffset m) (first_of XHCI_XECP_ID_DEBUG [(off, dw0)])"
proof (cases "XHCI_XECP_ID dw0 = XHCI_XECP_ID_PROTOCOL")
  case True
  then have r: "xhciRecordProtocol r b off dw0 m = (XHCI_CAPS_OK, m')" using c by (simp add: parse_capability_def)
  have sh: "map_shape m" using s parse_claims claims_shape by blast
  show ?thesis
    using record_exact [OF s r True] groups_with_group [OF sh] s True by (auto split: if_splits)
next
  case False
  then have no: "\<not> usb_group r (off, dw0)" by (simp add: usb_group_def)
  have "parse_state (m\<lparr>LegacySupportOffset := x\<rparr>) \<longleftrightarrow> parse_state m"
    "parse_state (m\<lparr>DebugCapabilityOffset := x\<rparr>) \<longleftrightarrow> parse_state m" for x
    by (simp_all add: parse_state_def claims_ok_def map_shape_def groups_def owner_def class_ok_def)
  then show ?thesis
    using s c no False
    by (auto simp: parse_capability_def groups_def keep_first_def split: if_splits)
qed

lemma parse_loop_exact:
  assumes "parse_state m" and "parse_loop n r b off m = (XHCI_CAPS_OK, m')"
  shows "\<exists>caps. cap_chain n r b off = Some caps \<and> parse_state m' \<and> MapPortCount m' = MapPortCount m \<and>
    ManagedPortCount m' = ManagedPortCount m \<and> Reserved m' = Reserved m \<and>
    groups m' = groups m @ map (group_of r) (filter (usb_group r) caps) \<and>
    LegacySupportOffset m' = keep_first (LegacySupportOffset m) (first_of XHCI_XECP_ID_LEGACY caps) \<and>
    DebugCapabilityOffset m' = keep_first (DebugCapabilityOffset m) (first_of XHCI_XECP_ID_DEBUG caps)"
  using assms
proof (induction n arbitrary: off m)
  case (Suc n)
  obtain dw0 nxt where step: "xhciCapStep r b off = Inr (dw0, nxt)"
    using Suc.prems by (cases "xhciCapStep r b off") (auto simp: xhciCapStep_def Let_def split: if_splits)
  obtain st m1 where cap: "parse_capability r b off dw0 m = (st, m1)" by fastforce
  have st: "st = XHCI_CAPS_OK" using Suc.prems step cap by (auto split: if_splits)
  note one = capability_exact [OF Suc.prems(1) cap [unfolded st]]
  show ?case
  proof (cases "nxt = 0")
    case True
    then have "m' = m1" using Suc.prems step cap st by simp
    then show ?thesis using one True step by simp
  next
    case False
    then have "parse_loop n r b nxt m1 = (XHCI_CAPS_OK, m')" using Suc.prems step cap st by simp
    from Suc.IH [OF _ this] one obtain caps where "cap_chain n r b nxt = Some caps" "parse_state m'"
      "MapPortCount m' = MapPortCount m1" "ManagedPortCount m' = ManagedPortCount m1" "Reserved m' = Reserved m1"
      "groups m' = groups m1 @ map (group_of r) (filter (usb_group r) caps)"
      "LegacySupportOffset m' = keep_first (LegacySupportOffset m1) (first_of XHCI_XECP_ID_LEGACY caps)"
      "DebugCapabilityOffset m' = keep_first (DebugCapabilityOffset m1) (first_of XHCI_XECP_ID_DEBUG caps)"
      by blast
    then show ?thesis using one False step by (auto split: if_splits)
  qed
qed simp

end
