(* ===== verification/Xhci_Caps_Pair.thy ===== *)
theory Xhci_Caps_Pair
  imports Xhci_Caps_Groups
begin

text \<open>
  The pairing of SuperSpeed ports with their USB 2 halves: the loops of \<open>xhciPairCompanions\<close> are a
  greedy matching over the list of candidate pairs, so the companion of every port is known
  exactly, the relation is symmetric and it joins the two revisions.
\<close>

section \<open>Greedy matching\<close>

text \<open>Pairs \<open>(s, h)\<close> are taken in order; a pair is skipped when its \<open>h\<close> is already matched.\<close>

definition greedy_step :: "(nat \<Rightarrow> nat) \<Rightarrow> nat \<times> nat \<Rightarrow> nat \<Rightarrow> nat" where
  "greedy_step f pair = (if f (snd pair) \<noteq> 0 then f else f(fst pair := snd pair, snd pair := fst pair))"

definition partner_of :: "(nat \<times> nat) list \<Rightarrow> nat \<Rightarrow> nat" where
  "partner_of ps p =
     (case find (\<lambda>pair. snd pair = p) ps of
        Some pair \<Rightarrow> fst pair
      | None \<Rightarrow>
          (case find (\<lambda>pair. fst pair = p) ps of
             Some pair \<Rightarrow> if find (\<lambda>q. snd q = snd pair) ps = Some pair then snd pair else 0
           | None \<Rightarrow> 0))"

definition bipartite :: "(nat \<times> nat) list \<Rightarrow> bool" where
  "bipartite ps \<longleftrightarrow> distinct (map fst ps) \<and> fst ` set ps \<inter> snd ` set ps = {} \<and> 0 \<notin> fst ` set ps"

lemma find_append:
  "find P (xs @ ys) = (case find P xs of None \<Rightarrow> find P ys | Some x \<Rightarrow> Some x)"
  by (induction xs) simp_all

lemma find_pred: "find P xs = Some x \<Longrightarrow> P x \<and> x \<in> set xs"
  by (auto simp: find_Some_iff)

lemma find_none: "find P xs = None \<longleftrightarrow> (\<forall>x\<in>set xs. \<not> P x)"
  by (auto simp: find_None_iff)

lemma find_key: "distinct (map fst ps) \<Longrightarrow> (a, b) \<in> set ps \<Longrightarrow> find (\<lambda>q. fst q = a) ps = Some (a, b)"
  by (induction ps) (auto simp: image_iff split: if_splits)

lemma partner_older:
  assumes "p \<noteq> s" and "p \<noteq> h \<or> find (\<lambda>pair. snd pair = p) ps \<noteq> None"
  shows "partner_of (ps @ [(s, h)]) p = partner_of ps p"
proof (cases "find (\<lambda>pair. snd pair = p) ps")
  case None
  then have ph: "p \<noteq> h" using assms(2) by simp
  show ?thesis
  proof (cases "find (\<lambda>pair. fst pair = p) ps")
    case (Some pair)
    then have "pair \<in> set ps" using find_pred [OF Some] by simp
    then have "find (\<lambda>q. snd q = snd pair) ps \<noteq> None" by (auto simp: find_none)
    then show ?thesis using None Some ph assms(1) by (auto simp: partner_of_def find_append)
  qed (use None ph assms(1) in \<open>simp add: partner_of_def find_append\<close>)
qed (simp add: partner_of_def find_append)

lemma greedy_partner: "bipartite ps \<Longrightarrow> foldl greedy_step (\<lambda>_. 0) ps = partner_of ps"
proof (induction ps rule: rev_induct)
  case Nil
  then show ?case by (simp add: partner_of_def fun_eq_iff)
next
  case (snoc pair ps)
  obtain s h where sh: "pair = (s, h)" by fastforce
  have b: "bipartite ps" and fresh: "s \<notin> fst ` set ps" "s \<notin> snd ` set ps" "h \<notin> fst ` set ps" "s \<noteq> h" "0 < s"
    using snoc.prems sh by (auto simp: bipartite_def)
  have IH: "foldl greedy_step (\<lambda>_. 0) ps = partner_of ps" by (rule snoc.IH [OF b])
  have h_fst: "find (\<lambda>pair. fst pair = h) ps = None" using fresh(3) by (auto simp: find_none)
  have nz: "fst q \<noteq> 0" if "q \<in> set ps" for q using b that by (force simp: bipartite_def)
  have s_none: "find (\<lambda>pair. fst pair = s) ps = None" "find (\<lambda>pair. snd pair = s) ps = None"
    using fresh by (auto simp: find_none)
  have "greedy_step (partner_of ps) (s, h) p = partner_of (ps @ [(s, h)]) p" for p
  proof (cases "find (\<lambda>pair. snd pair = h) ps")
    case None
    then have free: "partner_of ps h = 0" using h_fst by (simp add: partner_of_def)
    consider "p = s" | "p \<noteq> s" "p = h" | "p \<noteq> s" "p \<noteq> h" by blast
    then show ?thesis
    proof cases
      case 1
      then show ?thesis using free None s_none fresh by (simp add: greedy_step_def partner_of_def find_append)
    next
      case 2
      then show ?thesis using free None by (simp add: greedy_step_def partner_of_def find_append)
    next
      case 3
      then show ?thesis using free partner_older [of p s h ps] by (simp add: greedy_step_def)
    qed
  next
    case (Some q)
    then have q: "q \<in> set ps" "partner_of ps h \<noteq> 0" using nz find_pred [OF Some] by (auto simp: partner_of_def)
    show ?thesis
    proof (cases "p = s")
      case True
      have "q \<noteq> (s, h)" using q(1) fresh(1) by force
      then show ?thesis
        using True Some q(2) s_none fresh by (simp add: greedy_step_def partner_of_def find_append)
    next
      case False
      then show ?thesis using Some q(2) partner_older [of p s h ps] by (cases "p = h") (simp_all add: greedy_step_def)
    qed
  qed
  then have "greedy_step (partner_of ps) (s, h) = partner_of (ps @ [(s, h)])" by (rule ext)
  then show ?case using IH sh by simp
qed

lemma partner_pair:
  assumes b: "bipartite ps" and "p \<noteq> 0" and v: "partner_of ps p = q" and "q \<noteq> 0"
  shows "partner_of ps q = p \<and> ((p, q) \<in> set ps \<or> (q, p) \<in> set ps)"
proof (cases "find (\<lambda>pair. snd pair = p) ps")
  case (Some pair)
  have "pair = (q, p)"
    using v find_pred [OF Some] unfolding partner_of_def Some by (cases pair) simp
  then have mem: "(q, p) \<in> set ps" and f: "find (\<lambda>pair. snd pair = p) ps = Some (q, p)"
    using find_pred [OF Some] Some by simp_all
  have "q \<notin> snd ` set ps" using b mem unfolding bipartite_def by force
  then have "find (\<lambda>pair. snd pair = q) ps = None" by (auto simp: find_none)
  moreover have "find (\<lambda>pair. fst pair = q) ps = Some (q, p)"
    using b mem by (intro find_key) (simp_all add: bipartite_def)
  ultimately show ?thesis using f mem by (simp add: partner_of_def)
next
  case None
  obtain pair where f: "find (\<lambda>pair. fst pair = p) ps = Some pair"
    using assms(3,4) None by (cases "find (\<lambda>pair. fst pair = p) ps") (simp_all add: partner_of_def)
  have h: "find (\<lambda>q. snd q = snd pair) ps = Some pair \<and> q = snd pair"
    using assms(3,4) unfolding partner_of_def None f by (simp split: if_splits)
  then have pair: "pair = (p, q)" using find_pred [OF f] by (cases pair) simp
  then show ?thesis using h find_pred [OF f] by (simp add: partner_of_def)
qed

section \<open>The loops as a matching\<close>

text \<open>The candidate pairs, in the order the loops meet them.\<close>

definition group_pairs :: "xhci_protocol list \<Rightarrow> nat \<Rightarrow> (nat \<times> nat) list" where
  "group_pairs gs i =
     (if Major (gs ! i) \<noteq> 3 then []
      else
        (case find (\<lambda>j. Major (gs ! j) = 2 \<and> GroupPortCount (gs ! i) \<le> GroupPortCount (gs ! j)) [0..<length gs] of
           None \<Rightarrow> []
         | Some j \<Rightarrow>
             map (\<lambda>k. (unat (PortOffset (gs ! i)) + k,
                       unat (PortOffset (gs ! j)) + unat (GroupPortCount (gs ! j)) -
                       unat (GroupPortCount (gs ! i)) + k))
               [0..<unat (GroupPortCount (gs ! i))]))"

definition candidates :: "xhci_protocol list \<Rightarrow> (nat \<times> nat) list" where
  "candidates gs = concat (map (group_pairs gs) [0..<length gs])"

definition pair_ports :: "xhci_port_map \<Rightarrow> nat \<times> nat \<Rightarrow> xhci_port_map" where
  "pair_ports m pair =
     (case pair of (ss, hs) \<Rightarrow>
        if Companion m ! (hs - 1) \<noteq> 0 then m
        else m\<lparr>Companion := (Companion m)[ss - 1 := of_nat hs, hs - 1 := of_nat ss],
               PortClasses := (PortClasses m)[ss - 1 := XHCI_PORT_CLASS_USB3_COMPANION,
                                              hs - 1 := XHCI_PORT_CLASS_USB2_COMPANION]\<rparr>)"

lemma pair_ports_frame [simp]:
  "MapPortCount (pair_ports m q) = MapPortCount m" "ProtocolCount (pair_ports m q) = ProtocolCount m"
  "ManagedPortCount (pair_ports m q) = ManagedPortCount m"
  "LegacySupportOffset (pair_ports m q) = LegacySupportOffset m"
  "DebugCapabilityOffset (pair_ports m q) = DebugCapabilityOffset m"
  "Protocols (pair_ports m q) = Protocols m" "PortProtocol (pair_ports m q) = PortProtocol m"
  "Reserved (pair_ports m q) = Reserved m" "length (PortClasses (pair_ports m q)) = length (PortClasses m)"
  "length (Companion (pair_ports m q)) = length (Companion m)"
  by (simp_all add: pair_ports_def split: prod.split)

lemma pair_fold_frame [simp]:
  "MapPortCount (foldl pair_ports m ps) = MapPortCount m" "ProtocolCount (foldl pair_ports m ps) = ProtocolCount m"
  "ManagedPortCount (foldl pair_ports m ps) = ManagedPortCount m"
  "LegacySupportOffset (foldl pair_ports m ps) = LegacySupportOffset m"
  "DebugCapabilityOffset (foldl pair_ports m ps) = DebugCapabilityOffset m"
  "Protocols (foldl pair_ports m ps) = Protocols m" "PortProtocol (foldl pair_ports m ps) = PortProtocol m"
  "Reserved (foldl pair_ports m ps) = Reserved m"
  "length (PortClasses (foldl pair_ports m ps)) = length (PortClasses m)"
  "length (Companion (foldl pair_ports m ps)) = length (Companion m)"
  by (induction ps arbitrary: m) simp_all

lemma groups_pair_fold [simp]: "groups (foldl pair_ports m ps) = groups m"
  by (simp add: groups_def)

lemma owner_pair_fold [simp]: "owner (foldl pair_ports m ps) p = owner m p"
  by (simp add: owner_def)

lemma claims_pair_fold [simp]: "claims_ok (foldl pair_ports m ps) = claims_ok m"
  by (simp add: claims_ok_def map_shape_def)

lemma pair_search_find:
  "pair_search i m js =
     (case find (\<lambda>j. Major (Protocols m ! j) = 2 \<and>
                    GroupPortCount (Protocols m ! i) \<le> GroupPortCount (Protocols m ! j)) js of
        None \<Rightarrow> m
      | Some j \<Rightarrow> foldl (pair_port i j) m [0..<unat (GroupPortCount (Protocols m ! i))])"
  by (induction js) auto

lemma group_nth: "map_shape m \<Longrightarrow> i < unat (ProtocolCount m) \<Longrightarrow> Protocols m ! i = groups m ! i"
  by (simp add: groups_def)

lemma group_ok_nth: "claims_ok m \<Longrightarrow> i < length (groups m) \<Longrightarrow> group_ok (unat (MapPortCount m)) (groups m ! i)"
  by (simp add: claims_ok_def)

lemma group_bounds:
  assumes "claims_ok m" and "i < length (groups m)"
  shows "0 < unat (PortOffset (groups m ! i))" "0 < unat (GroupPortCount (groups m ! i))"
    "unat (PortOffset (groups m ! i)) + unat (GroupPortCount (groups m ! i)) \<le> 256"
  using group_ok_nth [OF assms] claims_shape [OF assms(1)] by (auto simp: group_ok_def map_shape_def)

lemma ucast_of_port: "n < 256 \<Longrightarrow> unat (w :: ulong) = n \<Longrightarrow> (ucast w :: uchar) = of_nat n"
  by (hypsubst) (rule of_nat_unat [symmetric])

lemma pair_port_nat:
  assumes c: "claims_ok m" and i: "i < length (groups m)" and j: "j < length (groups m)"
    and le: "unat (GroupPortCount (groups m ! i)) \<le> unat (GroupPortCount (groups m ! j))"
    and k: "k < unat (GroupPortCount (groups m ! i))"
  shows "pair_port i j m k =
    pair_ports m (unat (PortOffset (groups m ! i)) + k,
      unat (PortOffset (groups m ! j)) + unat (GroupPortCount (groups m ! j)) -
      unat (GroupPortCount (groups m ! i)) + k)"
proof -
  have sh: "map_shape m" using c by (rule claims_shape)
  have nth: "Protocols m ! i = groups m ! i" "Protocols m ! j = groups m ! j"
    using sh i j group_nth by simp_all
  let ?oi = "PortOffset (groups m ! i)" and ?ci = "GroupPortCount (groups m ! i)"
  let ?oj = "PortOffset (groups m ! j)" and ?cj = "GroupPortCount (groups m ! j)"
  note bi = group_bounds [OF c i] and bj = group_bounds [OF c j]
  have uk: "unat (of_nat k :: ulong) = k" using bi k by (intro unat_of_nat_ulong) linarith
  have ss: "unat (?oi + of_nat k) = unat ?oi + k" using bi k uk by (simp add: unat_add_no_wrap)
  have oc: "unat (?oj + ?cj) = unat ?oj + unat ?cj" using bj by (simp add: unat_add_no_wrap)
  then have sub: "unat (?oj + ?cj - ?ci) = unat ?oj + unat ?cj - unat ?ci" using le by (simp add: unat_sub_no_wrap)
  have hs: "unat (?oj + ?cj - ?ci + of_nat k) = unat ?oj + unat ?cj - unat ?ci + k"
    using sub bj k uk le by (subst unat_add_no_wrap) auto
  have ss1: "unat (?oi + of_nat k - 1) = unat ?oi + k - 1"
    using ss bi unat_sub_no_wrap [of 1 "?oi + of_nat k"] by simp
  have hs1: "unat (?oj + ?cj - ?ci + of_nat k - 1) = unat ?oj + unat ?cj - unat ?ci + k - 1"
    using hs bj le unat_sub_no_wrap [of 1 "?oj + ?cj - ?ci + of_nat k"] by simp
  have "(ucast (?oi + of_nat k) :: uchar) = of_nat (unat ?oi + k)"
    by (rule ucast_of_port [OF _ ss]) (use bi k in linarith)
  moreover have "(ucast (?oj + ?cj - ?ci + of_nat k) :: uchar) = of_nat (unat ?oj + unat ?cj - unat ?ci + k)"
    by (rule ucast_of_port [OF _ hs]) (use bj k le in linarith)
  ultimately show ?thesis unfolding pair_port_def pair_ports_def Let_def nth ss1 hs1 prod.case by simp
qed

lemma group_loop:
  assumes "claims_ok m" and "i < length (groups m)" and "j < length (groups m)"
    and "unat (GroupPortCount (groups m ! i)) \<le> unat (GroupPortCount (groups m ! j))"
    and "n \<le> unat (GroupPortCount (groups m ! i))"
  shows "foldl (pair_port i j) m [0..<n] =
    foldl pair_ports m
      (map (\<lambda>k. (unat (PortOffset (groups m ! i)) + k,
                 unat (PortOffset (groups m ! j)) + unat (GroupPortCount (groups m ! j)) -
                 unat (GroupPortCount (groups m ! i)) + k)) [0..<n])"
  using assms(5)
proof (induction n)
  case (Suc n)
  then show ?case using assms(1-4) pair_port_nat [of "foldl pair_ports m _" i j n] by simp
qed simp

lemma pair_one_group:
  assumes c: "claims_ok m" and i: "i < length (groups m)"
  shows "(if Major (Protocols m ! i) \<noteq> 3 then m else pair_search i m [0..<unat (ProtocolCount m)]) =
    foldl pair_ports m (group_pairs (groups m) i)"
proof -
  have sh: "map_shape m" using c by (rule claims_shape)
  have ln: "length (groups m) = unat (ProtocolCount m)" using sh by simp
  have nth: "Protocols m ! g = groups m ! g" if "g < unat (ProtocolCount m)" for g by (rule group_nth [OF sh that])
  let ?P = "\<lambda>j. Major (groups m ! j) = 2 \<and> GroupPortCount (groups m ! i) \<le> GroupPortCount (groups m ! j)"
  have f: "find (\<lambda>j. Major (Protocols m ! j) = 2 \<and> GroupPortCount (Protocols m ! i) \<le> GroupPortCount (Protocols m ! j))
      [0..<unat (ProtocolCount m)] = find ?P [0..<unat (ProtocolCount m)]"
    using nth i ln by (intro find_cong) auto
  show ?thesis
  proof (cases "find ?P [0..<unat (ProtocolCount m)]")
    case None
    then show ?thesis using f i ln nth by (simp add: pair_search_find group_pairs_def)
  next
    case (Some j)
    then have j: "j < length (groups m)" "unat (GroupPortCount (groups m ! i)) \<le> unat (GroupPortCount (groups m ! j))"
      using find_pred [OF Some] ln by (simp_all add: word_le_nat_alt)
    show ?thesis
      using f i ln nth Some group_loop [OF c i j, of "unat (GroupPortCount (groups m ! i))"]
      by (simp add: pair_search_find group_pairs_def)
  qed
qed

lemma pairing_loop:
  assumes "claims_ok m" and "n \<le> length (groups m)"
  shows "foldl (\<lambda>m i. if Major (Protocols m ! i) \<noteq> 3 then m else pair_search i m [0..<unat (ProtocolCount m)]) m [0..<n] =
    foldl pair_ports m (concat (map (group_pairs (groups m)) [0..<n]))"
  using assms(2)
proof (induction n)
  case (Suc n)
  then show ?case using assms(1) pair_one_group [of "foldl pair_ports m _" n] by simp
qed simp

lemma pairing_exact: "claims_ok m \<Longrightarrow> xhciPairCompanions m = foldl pair_ports m (candidates (groups m))"
  using pairing_loop [of m "length (groups m)"] claims_shape [of m]
  by (simp add: xhciPairCompanions_def candidates_def)

end
