(* ===== verification/Xhci_Caps_Companion.thy ===== *)
theory Xhci_Caps_Companion
  imports Xhci_Caps_Pair
begin

text \<open>
  The port map after the pairing, port by port: the companion of every port is its partner in the
  greedy matching over the candidate pairs, and its class follows from the revision of the group
  that holds it and from whether it has a companion.
\<close>

section \<open>The candidate pairs\<close>

text \<open>The revision of the group that holds a port.\<close>

definition revision :: "xhci_protocol list \<Rightarrow> nat \<Rightarrow> ulong option" where
  "revision gs p = map_option Major (find (\<lambda>g. p \<in> group_ports g) gs)"

lemma port_in_group:
  assumes c: "claims_ok m" and g: "g < length (groups m)" and p: "p \<in> group_ports (groups m ! g)"
  shows "p \<in> {1..255}" "p \<le> unat (MapPortCount m)" "unat (owner m p) = g" "owner m p \<noteq> 0xFF"
proof -
  note ok = group_ok_nth [OF c g] and sh = claims_shape [OF c]
  show "p \<le> unat (MapPortCount m)" using ok p by (auto simp: group_ok_def group_ports_def)
  show rng: "p \<in> {1..255}" using ok p sh by (auto simp: group_ok_def group_ports_def map_shape_def)
  show u: "unat (owner m p) = g" using c rng g p by (simp add: claims_ok_def)
  have "g < 4" using g sh by (simp add: map_shape_def)
  then show "owner m p \<noteq> 0xFF" using u by auto
qed

lemma owner_group:
  assumes "claims_ok m" and "p \<in> {1..255}" and "owner m p \<noteq> 0xFF"
  shows "unat (owner m p) < length (groups m)" "p \<in> group_ports (groups m ! unat (owner m p))"
proof -
  show u: "unat (owner m p) < length (groups m)"
    using assms unfolding claims_ok_def by blast
  show "p \<in> group_ports (groups m ! unat (owner m p))"
    using assms u unfolding claims_ok_def by blast
qed

lemma groups_disjoint:
  assumes "claims_ok m" and "g < length (groups m)" and "h < length (groups m)" and "g \<noteq> h"
  shows "group_ports (groups m ! g) \<inter> group_ports (groups m ! h) = {}"
  using assms port_in_group(3) [of m g] port_in_group(3) [of m h] by auto

lemma revision_owner:
  assumes c: "claims_ok m" and p: "p \<in> {1..255}"
  shows "revision (groups m) p =
    (if owner m p = 0xFF then None else Some (Major (groups m ! unat (owner m p))))"
proof (cases "owner m p = 0xFF")
  case True
  have "p \<notin> group_ports g" if "g \<in> set (groups m)" for g
    using that port_in_group(4) [OF c] True by (metis in_set_conv_nth)
  then have "find (\<lambda>g. p \<in> group_ports g) (groups m) = None" by (simp add: find_none)
  then show ?thesis using True by (simp add: revision_def)
next
  case False
  note o = owner_group [OF c p False]
  have "find (\<lambda>g. p \<in> group_ports g) (groups m) = Some (groups m ! unat (owner m p))"
    unfolding find_Some_iff
  proof (intro exI [of _ "unat (owner m p)"] conjI allI impI)
    fix j assume j: "j < unat (owner m p)"
    then show "p \<notin> group_ports (groups m ! j)" using port_in_group(3) [OF c, of j p] o by auto
  qed (use o in auto)
  then show ?thesis using False by (simp add: revision_def)
qed

lemma distinct_concat_upt:
  assumes "\<And>i. i < n \<Longrightarrow> distinct (f i)"
    and "\<And>i j. i < n \<Longrightarrow> j < n \<Longrightarrow> i \<noteq> j \<Longrightarrow> set (f i) \<inter> set (f j) = {}"
  shows "distinct (concat (map f [0..<n]))"
  using assms
proof (induction n)
  case (Suc n)
  have "set (f n) \<inter> set (f i) = {}" if "i < n" for i using Suc.prems(2) [of n i] that by simp
  then have "set (concat (map f [0..<n])) \<inter> set (f n) = {}" by (fastforce simp: disjoint_iff)
  moreover have "distinct (concat (map f [0..<n]))" using Suc by simp
  ultimately show ?case using Suc.prems(1) [of n] by simp
qed simp

lemma group_pairs_members:
  assumes c: "claims_ok m" and i: "i < length (groups m)" and q: "(ss, hs) \<in> set (group_pairs (groups m) i)"
  shows "Major (groups m ! i) = 3 \<and> ss \<in> group_ports (groups m ! i) \<and>
    (\<exists>j < length (groups m). Major (groups m ! j) = 2 \<and> hs \<in> group_ports (groups m ! j))"
proof -
  let ?P = "\<lambda>j. Major (groups m ! j) = 2 \<and> GroupPortCount (groups m ! i) \<le> GroupPortCount (groups m ! j)"
  have "Major (groups m ! i) = 3" using q by (auto simp: group_pairs_def split: if_splits)
  moreover obtain j where f: "find ?P [0..<length (groups m)] = Some j"
    using q by (cases "find ?P [0..<length (groups m)]") (simp_all add: group_pairs_def split: if_splits)
  have j: "j < length (groups m)" "Major (groups m ! j) = 2"
    "unat (GroupPortCount (groups m ! i)) \<le> unat (GroupPortCount (groups m ! j))"
    using find_pred [OF f] by (simp_all add: word_le_nat_alt)
  obtain k where "k < unat (GroupPortCount (groups m ! i))" "ss = unat (PortOffset (groups m ! i)) + k"
    "hs = unat (PortOffset (groups m ! j)) + unat (GroupPortCount (groups m ! j)) -
          unat (GroupPortCount (groups m ! i)) + k"
    using q f by (auto simp: group_pairs_def split: if_splits)
  then have "ss \<in> group_ports (groups m ! i)" "hs \<in> group_ports (groups m ! j)"
    using j by (auto simp: group_ports_def)
  ultimately show ?thesis using j by blast
qed

lemma candidate_ports:
  assumes c: "claims_ok m" and q: "(ss, hs) \<in> set (candidates (groups m))"
  shows "ss \<in> {1..255}" "hs \<in> {1..255}" "owner m ss \<noteq> 0xFF" "owner m hs \<noteq> 0xFF"
    "Major (groups m ! unat (owner m ss)) = 3" "Major (groups m ! unat (owner m hs)) = 2" "ss \<noteq> hs"
proof -
  obtain i where i: "i < length (groups m)" "(ss, hs) \<in> set (group_pairs (groups m) i)"
    using q by (auto simp: candidates_def)
  from group_pairs_members [OF c this] obtain j where j: "Major (groups m ! i) = 3"
    "ss \<in> group_ports (groups m ! i)" "j < length (groups m)" "Major (groups m ! j) = 2"
    "hs \<in> group_ports (groups m ! j)" by blast
  note a = port_in_group [OF c i(1) j(2)] and b = port_in_group [OF c j(3) j(5)]
  show "ss \<in> {1..255}" "hs \<in> {1..255}" "owner m ss \<noteq> 0xFF" "owner m hs \<noteq> 0xFF"
    "Major (groups m ! unat (owner m ss)) = 3" "Major (groups m ! unat (owner m hs)) = 2"
    using a b j by simp_all
  then show "ss \<noteq> hs" by auto
qed

lemma candidates_bipartite:
  assumes c: "claims_ok m"
  shows "bipartite (candidates (groups m))"
proof -
  let ?gs = "groups m"
  have mem: "s \<in> group_ports (?gs ! i)" if "i < length ?gs" "s \<in> set (map fst (group_pairs ?gs i))" for i s
    using that group_pairs_members [OF c that(1)] by auto
  have "distinct (concat (map (\<lambda>i. map fst (group_pairs ?gs i)) [0..<length ?gs]))"
  proof (rule distinct_concat_upt)
    fix i assume "i < length ?gs"
    show "distinct (map fst (group_pairs ?gs i))"
      by (auto simp: group_pairs_def distinct_map inj_on_def split: option.split)
  next
    fix i j assume "i < length ?gs" "j < length ?gs" "i \<noteq> j"
    then show "set (map fst (group_pairs ?gs i)) \<inter> set (map fst (group_pairs ?gs j)) = {}"
      using groups_disjoint [OF c, of i j] mem by blast
  qed
  then have d: "distinct (map fst (candidates ?gs))" by (simp add: candidates_def map_concat comp_def)
  have "fst ` set (candidates ?gs) \<inter> snd ` set (candidates ?gs) = {}"
  proof (rule ccontr)
    assume "fst ` set (candidates ?gs) \<inter> snd ` set (candidates ?gs) \<noteq> {}"
    then obtain x h s where "(x, h) \<in> set (candidates ?gs)" "(s, x) \<in> set (candidates ?gs)" by auto
    then show False using candidate_ports(5) [OF c, of x h] candidate_ports(6) [OF c, of s x] by simp
  qed
  moreover have "0 \<notin> fst ` set (candidates ?gs)"
    using candidate_ports(1) [OF c] by fastforce
  ultimately show ?thesis using d by (simp add: bipartite_def)
qed

section \<open>Companions and classes after the pairing\<close>

definition companion :: "xhci_port_map \<Rightarrow> nat \<Rightarrow> nat" where
  "companion m p = (if p \<in> {1..255} then unat (Companion m ! (p - 1)) else 0)"

lemma companion_zero: "p \<in> {1..255} \<Longrightarrow> companion m p = 0 \<longleftrightarrow> Companion m ! (p - 1) = 0"
  by (simp add: companion_def unat_eq_0)

lemma unat_port: "p \<in> {1..255} \<Longrightarrow> unat (of_nat p :: uchar) = p"
  by (simp add: unsigned_of_nat take_bit_nat_eq_self)

lemma update_two:
  assumes "length xs = 255" and "s \<in> {1..255}" and "h \<in> {1..255}" and "p \<in> {1..255}"
  shows "xs[s - 1 := x, h - 1 := y] ! (p - 1) = (if p = h then y else if p = s then x else xs ! (p - 1))"
proof -
  obtain s' h' p' where eq: "s = Suc s'" "h = Suc h'" "p = Suc p'"
    using assms by (metis atLeastAtMost_iff not0_implies_Suc not_one_le_zero)
  then have "s' < 255" "h' < 255" "p' < 255" using assms by auto
  then show ?thesis unfolding eq using assms(1) by (simp add: nth_list_update)
qed

lemma pair_ports_comp:
  assumes len: "length (Companion m) = 255" and s: "ss \<in> {1..255}" and h: "hs \<in> {1..255}" and ne: "ss \<noteq> hs"
  shows "companion (pair_ports m (ss, hs)) = greedy_step (companion m) (ss, hs)"
proof (cases "companion m hs = 0")
  case True
  then have free: "Companion m ! (hs - 1) = 0" using h by (simp add: companion_def unat_eq_0)
  have "companion (pair_ports m (ss, hs)) p = (if p = hs then ss else if p = ss then hs else companion m p)" for p
  proof (cases "p \<in> {1..255}")
    case p: True
    have "Companion (pair_ports m (ss, hs)) ! (p - 1) =
        (if p = hs then of_nat ss else if p = ss then of_nat hs else Companion m ! (p - 1))"
      using free update_two [OF len s h p] by (simp add: pair_ports_def)
    then show ?thesis using p unat_port [OF s] unat_port [OF h] unfolding companion_def by simp
  next
    case p: False
    then have "p \<noteq> hs" "p \<noteq> ss" using s h by auto
    then show ?thesis unfolding companion_def if_not_P [OF p] by simp
  qed
  moreover have "greedy_step (companion m) (ss, hs) p = (if p = hs then ss else if p = ss then hs else companion m p)" for p
    using True ne by (simp add: greedy_step_def)
  ultimately have "companion (pair_ports m (ss, hs)) p = greedy_step (companion m) (ss, hs) p" for p
    by (rule trans [OF _ sym])
  then show ?thesis by (rule ext)
next
  case False
  then have "Companion m ! (hs - 1) \<noteq> 0" using companion_zero [OF h, of m] by simp
  then show ?thesis using False by (simp add: greedy_step_def pair_ports_def)
qed

lemma pair_fold_comp:
  assumes "length (Companion m) = 255"
    and "\<And>q. q \<in> set ps \<Longrightarrow> fst q \<in> {1..255} \<and> snd q \<in> {1..255} \<and> fst q \<noteq> snd q"
  shows "companion (foldl pair_ports m ps) = foldl greedy_step (companion m) ps"
  using assms(2)
proof (induction ps rule: rev_induct)
  case (snoc q ps)
  have q: "fst q \<in> {1..255}" "snd q \<in> {1..255}" "fst q \<noteq> snd q" using snoc.prems [of q] by simp_all
  have "companion (foldl pair_ports m ps) = foldl greedy_step (companion m) ps"
    by (rule snoc.IH) (rule snoc.prems, simp)
  then show ?case using pair_ports_comp [OF _ q, of "foldl pair_ports m ps"] assms(1) by simp
qed simp

text \<open>What a port map says of a port whose group has revision \<open>major\<close> and whose companion is \<open>c\<close>.\<close>

definition class_for :: "ulong option \<Rightarrow> nat \<Rightarrow> uchar" where
  "class_for revn c =
     (case revn of
        None \<Rightarrow> XHCI_PORT_CLASS_NONE
      | Some major \<Rightarrow>
          if major = 2 then (if c = 0 then XHCI_PORT_CLASS_USB2_ONLY else XHCI_PORT_CLASS_USB2_COMPANION)
          else (if c = 0 then XHCI_PORT_CLASS_USB3_ORPHAN else XHCI_PORT_CLASS_USB3_COMPANION))"

lemma class_ok_for:
  assumes "claims_ok m" and "p \<in> {1..255}"
  shows "class_ok m p \<longleftrightarrow> PortClasses m ! (p - 1) = class_for (revision (groups m) p) (companion m p)"
  using assms by (simp add: class_ok_def class_for_def revision_owner companion_def unat_eq_0)

lemma pair_ports_class:
  assumes c: "claims_ok m" and ok: "\<forall>p\<in>{1..255}. class_ok m p"
    and q: "ss \<in> {1..255}" "hs \<in> {1..255}" "owner m ss \<noteq> 0xFF" "owner m hs \<noteq> 0xFF"
      "Major (groups m ! unat (owner m ss)) = 3" "Major (groups m ! unat (owner m hs)) = 2" "ss \<noteq> hs"
    and p: "p \<in> {1..255}"
  shows "class_ok (pair_ports m (ss, hs)) p"
proof -
  have sh: "map_shape m" using c by (rule claims_shape)
  then have len: "length (Companion m) = 255" "length (PortClasses m) = 255" by (simp_all add: map_shape_def)
  let ?m = "pair_ports m (ss, hs)"
  have same: "claims_ok ?m" "groups ?m = groups m"
    using claims_pair_fold [of m "[(ss, hs)]"] groups_pair_fold [of m "[(ss, hs)]"] c by simp_all
  have cp: "companion ?m p = greedy_step (companion m) (ss, hs) p" using pair_ports_comp [OF len(1) q(1,2,7)] by simp
  have old: "PortClasses m ! (p - 1) = class_for (revision (groups m) p) (companion m p)"
    using ok p class_ok_for [OF c p] by blast
  have rv: "revision (groups m) ss = Some 3" "revision (groups m) hs = Some 2"
    using revision_owner [OF c] q by simp_all
  have "PortClasses ?m ! (p - 1) = class_for (revision (groups m) p) (companion ?m p)"
  proof (cases "companion m hs = 0")
    case True
    then have free: "Companion m ! (hs - 1) = 0" using q by (simp add: companion_def unat_eq_0)
    have "PortClasses ?m ! (p - 1) = (if p = hs then 2 else if p = ss then 3 else PortClasses m ! (p - 1))"
      using free update_two [OF len(2) q(1) q(2) p] by (simp add: pair_ports_def)
    moreover have "companion ?m p = (if p = hs then ss else if p = ss then hs else companion m p)"
      using cp True q(7) by (simp add: greedy_step_def)
    moreover have "0 < ss" "0 < hs" using q by simp_all
    ultimately show ?thesis using old rv by (simp add: class_for_def)
  next
    case False
    then have "Companion m ! (hs - 1) \<noteq> 0" using companion_zero [OF q(2), of m] by simp
    then show ?thesis using False cp old by (simp add: pair_ports_def greedy_step_def)
  qed
  then show ?thesis using class_ok_for [OF same(1) p] same(2) by simp
qed

lemma pair_fold_class:
  assumes c: "claims_ok m" and ok: "\<forall>p\<in>{1..255}. class_ok m p"
    and q: "set ps \<subseteq> set (candidates (groups m))"
  shows "\<forall>p\<in>{1..255}. class_ok (foldl pair_ports m ps) p"
  using q
proof (induction ps rule: rev_induct)
  case (snoc pair ps)
  obtain ss hs where pair: "pair = (ss, hs)" by fastforce
  let ?m = "foldl pair_ports m ps"
  have mem: "(ss, hs) \<in> set (candidates (groups ?m))" using snoc.prems pair by simp
  have c': "claims_ok ?m" and ok': "\<forall>p\<in>{1..255}. class_ok ?m p" using c snoc by simp_all
  show ?case using pair_ports_class [OF c' ok' candidate_ports [OF c' mem]] pair by simp
qed (use ok in simp)

lemma pairing_result:
  assumes s: "parse_state m"
  shows "claims_ok (xhciPairCompanions m)" "groups (xhciPairCompanions m) = groups m"
    "companion (xhciPairCompanions m) = partner_of (candidates (groups m))"
    "\<forall>p\<in>{1..255}. class_ok (xhciPairCompanions m) p"
    "MapPortCount (xhciPairCompanions m) = MapPortCount m"
    "ManagedPortCount (xhciPairCompanions m) = ManagedPortCount m"
    "LegacySupportOffset (xhciPairCompanions m) = LegacySupportOffset m"
    "DebugCapabilityOffset (xhciPairCompanions m) = DebugCapabilityOffset m"
proof -
  have c: "claims_ok m" using s by (rule parse_claims)
  note eq = pairing_exact [OF c]
  show "claims_ok (xhciPairCompanions m)" "groups (xhciPairCompanions m) = groups m"
    "MapPortCount (xhciPairCompanions m) = MapPortCount m"
    "ManagedPortCount (xhciPairCompanions m) = ManagedPortCount m"
    "LegacySupportOffset (xhciPairCompanions m) = LegacySupportOffset m"
    "DebugCapabilityOffset (xhciPairCompanions m) = DebugCapabilityOffset m"
    using c by (simp_all add: eq)
  show "\<forall>p\<in>{1..255}. class_ok (xhciPairCompanions m) p"
    unfolding eq using s by (intro pair_fold_class [OF c]) (simp_all add: parse_state_def)
  have len: "length (Companion m) = 255" using claims_shape [OF c] by (simp add: map_shape_def)
  have "companion m p = 0" for p
  proof (cases "p \<in> {1..255}")
    case True
    then have "p - 1 < 255" by auto
    moreover have "Companion m = replicate 255 0" using s by (simp add: parse_state_def)
    ultimately have "Companion m ! (p - 1) = 0" by simp
    then show ?thesis using companion_zero [OF True, of m] by simp
  qed (simp only: companion_def if_False)
  then have zero: "companion m = (\<lambda>_. 0)" by (rule ext)
  have "companion (foldl pair_ports m (candidates (groups m))) = foldl greedy_step (companion m) (candidates (groups m))"
  proof (rule pair_fold_comp [OF len])
    fix q assume "q \<in> set (candidates (groups m))"
    then have "(fst q, snd q) \<in> set (candidates (groups m))" by simp
    then show "fst q \<in> {1..255} \<and> snd q \<in> {1..255} \<and> fst q \<noteq> snd q" using candidate_ports [OF c] by blast
  qed
  also have "\<dots> = partner_of (candidates (groups m))"
    unfolding zero by (rule greedy_partner [OF candidates_bipartite [OF c]])
  finally show "companion (xhciPairCompanions m) = partner_of (candidates (groups m))" unfolding eq .
qed

section \<open>The final count\<close>

lemma count_managed_loop:
  "foldl (\<lambda>m i. if PortClasses m ! i \<noteq> XHCI_PORT_CLASS_NONE
               then m\<lparr>ManagedPortCount := ManagedPortCount m + 1\<rparr> else m) m is =
   m\<lparr>ManagedPortCount := ManagedPortCount m + of_nat (length (filter (\<lambda>i. PortClasses m ! i \<noteq> 0) is))\<rparr>"
  by (induction "is" arbitrary: m) (simp_all add: add_ac)

lemma count_managed_exact:
  "count_managed m =
   m\<lparr>ManagedPortCount := ManagedPortCount m +
      of_nat (length (filter (\<lambda>i. PortClasses m ! i \<noteq> 0) [0..<unat (MapPortCount m)]))\<rparr>"
  unfolding count_managed_def by (rule count_managed_loop)

text \<open>All the facts of a successful parse.\<close>

lemma parse_result:
  assumes "XhciParseExtendedCaps (Some r) xecp b maxPorts (Some m0) = (XHCI_CAPS_OK, Some m)"
  shows "\<exists>caps. cap_chain 256 r b (xecp * 4) = Some caps \<and>
    groups m = map (group_of r) (filter (usb_group r) caps) \<and>
    claims_ok m \<and> MapPortCount m = maxPorts \<and>
    companion m = partner_of (candidates (groups m)) \<and>
    (\<forall>p\<in>{1..255}. PortClasses m ! (p - 1) = class_for (revision (groups m) p) (companion m p)) \<and>
    LegacySupportOffset m = first_of XHCI_XECP_ID_LEGACY caps \<and>
    DebugCapabilityOffset m = first_of XHCI_XECP_ID_DEBUG caps \<and>
    ManagedPortCount m = of_nat (length (filter (\<lambda>i. PortClasses m ! i \<noteq> 0) [0..<unat maxPorts]))"
proof -
  have mp: "0 < unat maxPorts" "unat maxPorts \<le> 255" and x: "xecp \<noteq> 0"
    using assms by (auto simp: XhciParseExtendedCaps_def Let_def word_less_nat_alt unat_gt_0 split: if_splits)
  let ?m0 = "xhciResetPortMap maxPorts"
  obtain st m1 where loop: "parse_loop 256 r b (xecp * 4) ?m0 = (st, m1)" by fastforce
  then have st: "st = XHCI_CAPS_OK" and m: "m = count_managed (xhciPairCompanions m1)"
    using assms mp x by (auto simp: XhciParseExtendedCaps_def Let_def split: if_splits)
  have s0: "parse_state ?m0" by (rule reset_state [OF mp])
  have init: "groups ?m0 = []" "MapPortCount ?m0 = maxPorts" "ManagedPortCount ?m0 = 0"
    "LegacySupportOffset ?m0 = 0" "DebugCapabilityOffset ?m0 = 0"
    by (simp_all add: groups_def xhciResetPortMap_def)
  obtain caps where p: "cap_chain 256 r b (xecp * 4) = Some caps" "parse_state m1" "MapPortCount m1 = maxPorts"
    "ManagedPortCount m1 = 0" "groups m1 = map (group_of r) (filter (usb_group r) caps)"
    "LegacySupportOffset m1 = first_of XHCI_XECP_ID_LEGACY caps"
    "DebugCapabilityOffset m1 = first_of XHCI_XECP_ID_DEBUG caps"
    using parse_loop_exact [OF s0 loop [unfolded st]] init by auto
  let ?m2 = "xhciPairCompanions m1"
  note res = pairing_result [OF p(2)]
  have same: "claims_ok m = claims_ok ?m2" "groups m = groups ?m2" "companion m = companion ?m2"
    "PortClasses m = PortClasses ?m2" "MapPortCount m = MapPortCount ?m2"
    "LegacySupportOffset m = LegacySupportOffset ?m2" "DebugCapabilityOffset m = DebugCapabilityOffset ?m2"
    unfolding m count_managed_exact
    by (simp_all add: claims_ok_def map_shape_def groups_def owner_def companion_def fun_eq_iff)
  have "PortClasses m ! (q - 1) = class_for (revision (groups m) q) (companion m q)" if "q \<in> {1..255}" for q
    using class_ok_for [OF res(1) that] res(4) that unfolding same by blast
  moreover have "ManagedPortCount m = of_nat (length (filter (\<lambda>i. PortClasses m ! i \<noteq> 0) [0..<unat maxPorts]))"
    unfolding m count_managed_exact using res p by simp
  ultimately show ?thesis using p res same by auto
qed

end
