(* ===== verification/Xhci_Caps_Props.thy ===== *)
theory Xhci_Caps_Props
  imports Xhci_Caps_Companion Xhci_Port_Props
begin

text \<open>
  Properties of capability discovery: the bounds of its reads, what a successful parse makes of
  the chain, and the hub ports that come of it.
\<close>

section \<open>Bounds\<close>

text \<open>
  C12: the walks over the extended capabilities read dwords inside the mapped window only, for any
  contents of it: two windows that agree there give the same result, whatever lies outside. And a
  capability that is found lies in the window with all the bytes its user asked for.
\<close>

theorem capability_reads_in_window:
  assumes "same_window mappedBytes r1 r2"
  shows "XhciParseExtendedCaps (Some r1) xecpDwords mappedBytes maxPorts pm =
      XhciParseExtendedCaps (Some r2) xecpDwords mappedBytes maxPorts pm \<and>
    XhciFindExtendedCap (Some r1) xecpDwords mappedBytes ident need out =
      XhciFindExtendedCap (Some r2) xecpDwords mappedBytes ident need out \<and>
    (\<forall>found. XhciFindExtendedCap (Some r1) xecpDwords mappedBytes ident need out = (XHCI_CAPS_OK, Some found) \<longrightarrow>
       unat found + unat need \<le> unat mappedBytes \<and> XHCI_XECP_ID (r1 found) = ident)"
proof (intro conjI allI impI)
  show "XhciParseExtendedCaps (Some r1) xecpDwords mappedBytes maxPorts pm =
      XhciParseExtendedCaps (Some r2) xecpDwords mappedBytes maxPorts pm"
    unfolding XhciParseExtendedCaps_def by (simp add: parse_loop_same [OF assms] Let_def split: option.split)
  show "XhciFindExtendedCap (Some r1) xecpDwords mappedBytes ident need out =
      XhciFindExtendedCap (Some r2) xecpDwords mappedBytes ident need out"
    unfolding XhciFindExtendedCap_def by (simp add: find_loop_same [OF assms] split: option.split)
next
  fix found
  assume f: "XhciFindExtendedCap (Some r1) xecpDwords mappedBytes ident need out = (XHCI_CAPS_OK, Some found)"
  then obtain b where loop: "find_cap_loop 256 r1 mappedBytes ident need b (xecpDwords * 4) = (XHCI_CAPS_OK, found)"
    by (auto simp: XhciFindExtendedCap_def split: option.splits if_splits prod.splits)
  show "unat found + unat need \<le> unat mappedBytes" "XHCI_XECP_ID (r1 found) = ident"
    using find_loop_room [OF loop] by simp_all
qed

text \<open>
  A window of one hundred bytes: USB legacy support at 0x20, a USB 3 group of two ports at 0x30
  (ports 1 and 2), a USB 2 group of three ports at 0x40 (ports 3 to 5).
\<close>

definition sample_window :: "ulong \<Rightarrow> read32" where
  "sample_window outside off =
     (if off = 0x20 then 0x00000401 else if off = 0x24 then 0
      else if off = 0x30 then 0x03000402 else if off = 0x34 then 0x20425355
      else if off = 0x38 then 0x00000201 else if off = 0x3C then 0
      else if off = 0x40 then 0x02000002 else if off = 0x44 then 0x20425355
      else if off = 0x48 then 0x00000303 else if off = 0x4C then 0
      else if off < 100 then 0 else outside)"

lemma sample_same: "same_window 100 (sample_window x) (sample_window y)"
  by (auto simp: same_window_def sample_window_def word_less_nat_alt)

theorem capability_reads_in_window_witness:
  "XhciParseExtendedCaps (Some (sample_window 0)) 8 100 5 (Some (xhciResetPortMap 1)) =
      XhciParseExtendedCaps (Some (sample_window 0xFFFFFFFF)) 8 100 5 (Some (xhciResetPortMap 1)) \<and>
   unat (0x40 :: ulong) + unat (16 :: ulong) \<le> unat (100 :: ulong) \<and>
   fst (XhciParseExtendedCaps (Some (sample_window 0)) 8 100 5 (Some (xhciResetPortMap 1))) = XHCI_CAPS_OK"
proof -
  have "fst (XhciParseExtendedCaps (Some (sample_window 0)) 8 100 5 (Some (xhciResetPortMap 1))) = XHCI_CAPS_OK"
    by code_simp
  then show ?thesis
    using capability_reads_in_window [OF sample_same [of 0 "0xFFFFFFFF"], of 8 5 "Some (xhciResetPortMap 1)"] by simp
qed

section \<open>The port map\<close>

lemma class_of_port:
  assumes c: "claims_ok m"
    and cls: "\<forall>p\<in>{1..255}. PortClasses m ! (p - 1) = class_for (revision (groups m) p) (companion m p)"
  shows "XhciPortClass m p =
    (if unat p \<in> {1..unat (MapPortCount m)} then class_for (revision (groups m) (unat p)) (companion m (unat p))
     else XHCI_PORT_CLASS_NONE)"
proof -
  have mp: "unat (MapPortCount m) \<le> 255" using claims_shape [OF c] by (simp add: map_shape_def)
  have zero: "p = 0 \<longleftrightarrow> unat p = 0" by (simp add: unat_eq_0)
  show ?thesis
  proof (cases "unat p \<in> {1..unat (MapPortCount m)}")
    case True
    then have "unat (p - 1) = unat p - 1" using unat_sub_no_wrap [of 1 p] by simp
    moreover have "PortClasses m ! (unat p - 1) = class_for (revision (groups m) (unat p)) (companion m (unat p))"
      using cls True mp by auto
    moreover have "p \<noteq> 0" "\<not> p > MapPortCount m" "\<not> p > 255"
      using True mp zero by (auto simp: word_less_nat_alt)
    ultimately show ?thesis using True by (simp add: XhciPortClass_def)
  next
    case False
    then have "p = 0 \<or> p > MapPortCount m" using zero by (auto simp: word_less_nat_alt)
    then show ?thesis using False by (auto simp: XhciPortClass_def)
  qed
qed

text \<open>
  C11: a successful parse has walked the whole chain and its port map says exactly what the chain
  says: the recorded groups are the USB groups of the chain, in chain order; each port's class and
  companion follow from the group that holds it and from the greedy matching of SuperSpeed ports
  with the last ports of the first USB 2 group large enough; the legacy and debug offsets are the
  first of their kind.
\<close>

theorem port_map_exact:
  assumes "XhciParseExtendedCaps (Some read) xecpDwords mappedBytes maxPorts (Some pm0) = (XHCI_CAPS_OK, Some m)"
  shows "\<exists>caps. cap_chain 256 read mappedBytes (xecpDwords * 4) = Some caps \<and>
    groups m = map (group_of read) (filter (usb_group read) caps) \<and>
    LegacySupportOffset m = first_of XHCI_XECP_ID_LEGACY caps \<and>
    DebugCapabilityOffset m = first_of XHCI_XECP_ID_DEBUG caps \<and>
    (\<forall>p\<in>{1..unat maxPorts}.
       companion m p = partner_of (candidates (groups m)) p \<and>
       XhciPortClass m (of_nat p) = class_for (revision (groups m) p) (companion m p))"
proof -
  obtain caps where c: "cap_chain 256 read mappedBytes (xecpDwords * 4) = Some caps"
    "groups m = map (group_of read) (filter (usb_group read) caps)" "claims_ok m" "MapPortCount m = maxPorts"
    "companion m = partner_of (candidates (groups m))"
    "\<forall>p\<in>{1..255}. PortClasses m ! (p - 1) = class_for (revision (groups m) p) (companion m p)"
    "LegacySupportOffset m = first_of XHCI_XECP_ID_LEGACY caps"
    "DebugCapabilityOffset m = first_of XHCI_XECP_ID_DEBUG caps"
    using parse_result [OF assms] by auto
  have mp: "unat maxPorts \<le> 255" using claims_shape [OF c(3)] c(4) by (simp add: map_shape_def)
  have cls: "XhciPortClass m (of_nat p) = class_for (revision (groups m) p) (companion m p)"
    if p: "p \<in> {1..unat maxPorts}" for p
  proof -
    have "unat (of_nat p :: ulong) = p" using p mp by (intro unat_of_nat_ulong) auto
    then show ?thesis using class_of_port [OF c(3) c(6), of "of_nat p"] p c(4) by simp
  qed
  show ?thesis by (rule exI [of _ caps]) (use c cls in simp)
qed

definition sample_parsed :: xhci_port_map where
  "sample_parsed =
     the (snd (XhciParseExtendedCaps (Some (sample_window 0)) 8 100 5 (Some (xhciResetPortMap 1))))"

lemma sample_parse:
  "XhciParseExtendedCaps (Some (sample_window 0)) 8 100 5 (Some (xhciResetPortMap 1)) = (XHCI_CAPS_OK, Some sample_parsed)"
proof -
  have "fst (XhciParseExtendedCaps (Some (sample_window 0)) 8 100 5 (Some (xhciResetPortMap 1))) = XHCI_CAPS_OK"
    by code_simp
  moreover have "snd (XhciParseExtendedCaps (Some (sample_window 0)) 8 100 5 (Some (xhciResetPortMap 1))) \<noteq> None"
    by code_simp
  ultimately show ?thesis unfolding sample_parsed_def by (cases "XhciParseExtendedCaps (Some (sample_window 0)) 8 100 5 (Some (xhciResetPortMap 1))") auto
qed

theorem port_map_exact_witness:
  "XhciPortClass sample_parsed 1 = XHCI_PORT_CLASS_USB3_COMPANION \<and> companion sample_parsed 1 = 4 \<and>
   XhciPortClass sample_parsed 3 = XHCI_PORT_CLASS_USB2_ONLY \<and>
   (\<exists>caps. cap_chain 256 (sample_window 0) 100 (8 * 4) = Some caps \<and>
      groups sample_parsed = map (group_of (sample_window 0)) (filter (usb_group (sample_window 0)) caps))"
proof -
  have "XhciPortClass sample_parsed 1 = XHCI_PORT_CLASS_USB3_COMPANION \<and> companion sample_parsed 1 = 4 \<and>
    XhciPortClass sample_parsed 3 = XHCI_PORT_CLASS_USB2_ONLY" by code_simp
  then show ?thesis using port_map_exact [OF sample_parse] by blast
qed

lemma revision_member: "claims_ok m \<Longrightarrow> revision (groups m) p \<noteq> None \<longleftrightarrow> p \<in> (\<Union>g\<in>set (groups m). group_ports g)"
  by (auto simp: revision_def find_none)

lemma class_for_none: "class_for revn c = 0 \<longleftrightarrow> revn = None"
  by (simp add: class_for_def split: option.split)

lemma group_ports_sum:
  assumes c: "claims_ok m"
  shows "card (\<Union>g\<in>set (groups m). group_ports g) = (\<Sum>g\<leftarrow>groups m. unat (GroupPortCount g))"
proof -
  let ?gs = "groups m"
  have "(\<Union>g\<in>set ?gs. group_ports g) = (\<Union>i\<in>{..<length ?gs}. group_ports (?gs ! i))"
    by (auto simp: set_conv_nth)
  also have "card \<dots> = (\<Sum>i<length ?gs. card (group_ports (?gs ! i)))"
  proof (rule card_UN_disjoint)
    show "\<forall>i\<in>{..<length ?gs}. finite (group_ports (?gs ! i))" by (simp add: group_ports_def)
    show "\<forall>i\<in>{..<length ?gs}. \<forall>j\<in>{..<length ?gs}. i \<noteq> j \<longrightarrow> group_ports (?gs ! i) \<inter> group_ports (?gs ! j) = {}"
      using groups_disjoint [OF c] by blast
  qed simp
  also have "\<dots> = (\<Sum>g\<leftarrow>?gs. unat (GroupPortCount g))"
    by (simp add: group_ports_def sum_list_sum_nth atLeast0LessThan)
  finally show ?thesis .
qed

lemma managed_sum:
  assumes c: "claims_ok m" and mp: "MapPortCount m = maxPorts"
    and cls: "\<forall>p\<in>{1..255}. PortClasses m ! (p - 1) = class_for (revision (groups m) p) (companion m p)"
  shows "length (filter (\<lambda>i. PortClasses m ! i \<noteq> 0) [0..<unat maxPorts]) =
    (\<Sum>g\<leftarrow>groups m. unat (GroupPortCount g))"
proof -
  let ?U = "\<Union>g\<in>set (groups m). group_ports g"
  have sh: "map_shape m" using c by (rule claims_shape)
  have inside: "?U \<subseteq> {1..unat maxPorts}"
  proof
    fix p assume "p \<in> ?U"
    then obtain g where "g < length (groups m)" "p \<in> group_ports (groups m ! g)" by (auto simp: in_set_conv_nth)
    then show "p \<in> {1..unat maxPorts}" using port_in_group [OF c, of g p] mp by simp
  qed
  have iff: "PortClasses m ! i \<noteq> 0 \<longleftrightarrow> Suc i \<in> ?U" if "i < unat maxPorts" for i
  proof -
    have "Suc i \<in> {1..255}" using that sh mp by (simp add: map_shape_def)
    then have "PortClasses m ! (Suc i - 1) = class_for (revision (groups m) (Suc i)) (companion m (Suc i))"
      using cls by blast
    then show ?thesis using revision_member [OF c, of "Suc i"] class_for_none by simp
  qed
  have "length (filter (\<lambda>i. PortClasses m ! i \<noteq> 0) [0..<unat maxPorts]) =
      card (set (filter (\<lambda>i. PortClasses m ! i \<noteq> 0) [0..<unat maxPorts]))"
    by (rule distinct_card [symmetric]) simp
  also have "\<dots> = card (Suc ` {i. i < unat maxPorts \<and> Suc i \<in> ?U})"
  proof -
    have "set (filter (\<lambda>i. PortClasses m ! i \<noteq> 0) [0..<unat maxPorts]) = {i. i < unat maxPorts \<and> Suc i \<in> ?U}"
      using iff by auto
    then show ?thesis by (simp only: card_image [OF inj_Suc])
  qed
  also have "Suc ` {i. i < unat maxPorts \<and> Suc i \<in> ?U} = ?U"
  proof
    show "?U \<subseteq> Suc ` {i. i < unat maxPorts \<and> Suc i \<in> ?U}"
    proof
      fix p assume p: "p \<in> ?U"
      then have "1 \<le> p \<and> p \<le> unat maxPorts" using inside by auto
      then have "p = Suc (p - 1)" "p - 1 < unat maxPorts" by auto
      then show "p \<in> Suc ` {i. i < unat maxPorts \<and> Suc i \<in> ?U}" using p by (intro image_eqI) auto
    qed
  qed blast
  finally show ?thesis using group_ports_sum [OF c] by simp
qed

text \<open>
  The port map of a successful parse is sound: at most four groups, pairwise disjoint, inside
  the controller's ports; the companion relation is symmetric and joins a USB 2 with a USB 3 port;
  the number of managed ports is the number of ports the groups hold.
\<close>

theorem port_map_sound:
  assumes "XhciParseExtendedCaps (Some read) xecpDwords mappedBytes maxPorts (Some pm0) = (XHCI_CAPS_OK, Some m)"
  shows "length (groups m) \<le> 4 \<and>
    (\<forall>i<length (groups m). group_ports (groups m ! i) \<noteq> {} \<and> group_ports (groups m ! i) \<subseteq> {1..unat maxPorts} \<and>
       (\<forall>j<length (groups m). i \<noteq> j \<longrightarrow> group_ports (groups m ! i) \<inter> group_ports (groups m ! j) = {})) \<and>
    (\<forall>p q. companion m p = q \<and> q \<noteq> 0 \<longrightarrow> companion m q = p \<and>
       {revision (groups m) p, revision (groups m) q} = {Some 2, Some 3}) \<and>
    unat (ManagedPortCount m) = (\<Sum>g\<leftarrow>groups m. unat (GroupPortCount g))"
proof -
  note r = parse_result [OF assms]
  have c: "claims_ok m" and mp: "MapPortCount m = maxPorts" and comp: "companion m = partner_of (candidates (groups m))"
    and cls: "\<forall>p\<in>{1..255}. PortClasses m ! (p - 1) = class_for (revision (groups m) p) (companion m p)"
    and mc: "ManagedPortCount m = of_nat (length (filter (\<lambda>i. PortClasses m ! i \<noteq> 0) [0..<unat maxPorts]))"
    using r by auto
  have sh: "map_shape m" using c by (rule claims_shape)
  then have four: "length (groups m) \<le> 4" and mp255: "unat maxPorts \<le> 255" using mp by (simp_all add: map_shape_def)
  have nonempty: "group_ports (groups m ! i) \<noteq> {}" if "i < length (groups m)" for i
    using group_bounds [OF c that] by (simp add: group_ports_def)
  have inside: "group_ports (groups m ! i) \<subseteq> {1..unat maxPorts}" if "i < length (groups m)" for i
    using port_in_group [OF c that] mp by auto
  have pair: "companion m q = p \<and> {revision (groups m) p, revision (groups m) q} = {Some 2, Some 3}"
    if q: "companion m p = q" "q \<noteq> 0" for p q
  proof -
    have p0: "p \<noteq> 0" using q unfolding companion_def by (auto split: if_splits)
    have "partner_of (candidates (groups m)) p = q" using q comp by simp
    from partner_pair [OF candidates_bipartite [OF c] p0 this q(2)]
    have symm: "companion m q = p" and mem: "(p, q) \<in> set (candidates (groups m)) \<or> (q, p) \<in> set (candidates (groups m))"
      using comp by auto
    have rv: "revision (groups m) s = Some 3 \<and> revision (groups m) h = Some 2"
      if "(s, h) \<in> set (candidates (groups m))" for s h
      using candidate_ports [OF c that] revision_owner [OF c, of s] revision_owner [OF c, of h] by simp
    from mem have "{revision (groups m) p, revision (groups m) q} = {Some 2, Some 3}"
      using rv [of p q] rv [of q p] by auto
    then show ?thesis using symm by simp
  qed
  have small: "length (filter (\<lambda>i. PortClasses m ! i \<noteq> 0) [0..<unat maxPorts]) < 4294967296"
    using length_filter_le [of "\<lambda>i. PortClasses m ! i \<noteq> 0" "[0..<unat maxPorts]"] mp255 by simp
  have count: "unat (ManagedPortCount m) = (\<Sum>g\<leftarrow>groups m. unat (GroupPortCount g))"
    unfolding mc unat_of_nat_ulong [OF small] by (rule managed_sum [OF c mp cls])
  show ?thesis using four nonempty inside groups_disjoint [OF c] pair count by blast
qed

theorem port_map_sound_witness:
  "unat (ManagedPortCount sample_parsed) = 5 \<and> companion sample_parsed 1 = 4 \<and> companion sample_parsed 4 = 1"
proof -
  have g: "(\<Sum>g\<leftarrow>groups sample_parsed. unat (GroupPortCount g)) = 5" by code_simp
  have c: "companion sample_parsed 1 = 4" by code_simp
  have p: "unat (ManagedPortCount sample_parsed) = (\<Sum>g\<leftarrow>groups sample_parsed. unat (GroupPortCount g))"
    "\<forall>p q. companion sample_parsed p = q \<and> q \<noteq> 0 \<longrightarrow> companion sample_parsed q = p"
    using port_map_sound [OF sample_parse] by blast+
  have "companion sample_parsed 4 = 1" using p(2) c by (metis zero_neq_numeral)
  then show ?thesis using p(1) g c by simp
qed

lemma hub_port_nonzero:
  assumes b: "XhciRootHubBuild (Some m) (Some rh0) = (st, Some rh)"
    and l: "length (HubToPort rh0) = 255" "length (PortToHub rh0) = 255"
  shows "XhciRootHubHubPortOf (Some rh) p \<noteq> 0 \<longleftrightarrow> usb2_port m (unat p)"
proof -
  define K where "K = min (unat (MapPortCount m)) 255"
  note r = build_result [OF b l, folded K_def]
  have in_K: "0 < unat p \<and> unat p \<le> K" if "usb2_port m (unat p)"
  proof (rule ccontr)
    assume "\<not> (0 < unat p \<and> unat p \<le> K)"
    then have "unat (MapPortCount m) < unat p \<or> 255 < unat p \<or> unat p = 0" by (auto simp: K_def)
    from unmanaged_beyond [OF this unat_lt_2p32] that show False by simp
  qed
  show ?thesis
  proof (cases "st = XHCI_RH_OK")
    case True
    have "unat (XhciRootHubHubPortOf (Some rh) p) = (if usb2_port m (unat p) then length (usb2_ports m (unat p)) else 0)"
      by (rule map_lookups(2) [OF b [unfolded True] l])
    then show ?thesis
      using usb2_ports_nth(1) [of m "unat p" K] in_K unat_eq_iff [of "XhciRootHubHubPortOf (Some rh) p" 0]
      by (auto split: if_splits)
  next
    case False
    then have "usb2_ports m K = []" using r(2) by (auto split: if_splits)
    then have "unat p \<notin> set (usb2_ports m K)" by simp
    then have "\<not> usb2_port m (unat p)" using in_K by (auto simp: usb2_ports_set)
    then show ?thesis using False r(1) by (simp add: XhciRootHubHubPortOf_def)
  qed
qed

lemma revision_two:
  assumes c: "claims_ok m"
  shows "revision (groups m) p = Some 2 \<longleftrightarrow> (\<exists>g\<in>set (groups m). Major g = 2 \<and> p \<in> group_ports g)"
proof
  assume "revision (groups m) p = Some 2"
  then show "\<exists>g\<in>set (groups m). Major g = 2 \<and> p \<in> group_ports g"
    unfolding revision_def by (auto dest!: find_pred)
next
  assume "\<exists>g\<in>set (groups m). Major g = 2 \<and> p \<in> group_ports g"
  then obtain i where i: "i < length (groups m)" "Major (groups m ! i) = 2" "p \<in> group_ports (groups m ! i)"
    by (auto simp: in_set_conv_nth)
  then show "revision (groups m) p = Some 2"
    using port_in_group [OF c i(1) i(3)] revision_owner [OF c, of p] by simp
qed

lemma usb2_revision:
  assumes c: "claims_ok m"
    and cls: "\<forall>p\<in>{1..255}. PortClasses m ! (p - 1) = class_for (revision (groups m) p) (companion m p)"
  shows "usb2_port m (unat (p :: ulong)) \<longleftrightarrow> revision (groups m) (unat p) = Some 2"
proof (cases "unat p \<in> {1..unat (MapPortCount m)}")
  case True
  have major: "Major g = 2 \<or> Major g = 3" if "g \<in> set (groups m)" for g
    using c that by (auto simp: claims_ok_def group_ok_def)
  then have "x = 2 \<or> x = 3" if "revision (groups m) (unat p) = Some x" for x
    using that unfolding revision_def by (auto dest!: find_pred)
  then show ?thesis
    using class_of_port [OF c cls, of p] True
    by (cases "revision (groups m) (unat p)")
      (auto simp: usb2_port_def XhciPortIsManaged_def XhciPortIsUsb3_def class_for_def)
next
  case False
  then have "unat p \<notin> group_ports g" if "g \<in> set (groups m)" for g
    using that port_in_group [OF c] by (auto simp: in_set_conv_nth)
  then have "revision (groups m) (unat p) \<noteq> Some 2" using revision_two [OF c] by blast
  moreover have "XhciPortClass m p = XHCI_PORT_CLASS_NONE"
    using class_of_port [OF c cls, of p] unfolding if_not_P [OF False] .
  ultimately show ?thesis by (simp add: usb2_port_def XhciPortIsManaged_def)
qed

text \<open>
  The hub ports the driver shows are the ports of the chain's USB 2 capabilities: whatever
  capability list the controller has, once it parses, the root hub built from its port map has a
  hub port for a controller port exactly when a USB 2 supported-protocol capability names it.
\<close>

theorem hub_ports_from_chain:
  assumes parse: "XhciParseExtendedCaps (Some read) xecpDwords mappedBytes maxPorts (Some pm0) = (XHCI_CAPS_OK, Some m)"
    and build: "XhciRootHubBuild (Some m) (Some rh0) = (st, Some rh)"
    and len: "length (HubToPort rh0) = 255" "length (PortToHub rh0) = 255"
  shows "\<exists>caps. cap_chain 256 read mappedBytes (xecpDwords * 4) = Some caps \<and>
    (\<forall>p :: ulong. XhciRootHubHubPortOf (Some rh) p \<noteq> 0 \<longleftrightarrow>
       (\<exists>cap\<in>set caps. usb_group read cap \<and> XHCI_PROTOCOL_MAJOR (snd cap) = 2 \<and>
          unat p \<in> group_ports (group_of read cap)))"
proof -
  obtain caps where r: "cap_chain 256 read mappedBytes (xecpDwords * 4) = Some caps"
    "groups m = map (group_of read) (filter (usb_group read) caps)" "claims_ok m"
    "\<forall>p\<in>{1..255}. PortClasses m ! (p - 1) = class_for (revision (groups m) p) (companion m p)"
    using parse_result [OF parse] by auto
  have "XhciRootHubHubPortOf (Some rh) p \<noteq> 0 \<longleftrightarrow>
      (\<exists>cap\<in>set caps. usb_group read cap \<and> XHCI_PROTOCOL_MAJOR (snd cap) = 2 \<and>
         unat p \<in> group_ports (group_of read cap))" for p
  proof -
    have "XhciRootHubHubPortOf (Some rh) p \<noteq> 0 \<longleftrightarrow> usb2_port m (unat p)" by (rule hub_port_nonzero [OF build len])
    also have "\<dots> \<longleftrightarrow> revision (groups m) (unat p) = Some 2" by (rule usb2_revision [OF r(3,4)])
    also have "\<dots> \<longleftrightarrow> (\<exists>g\<in>set (groups m). Major g = 2 \<and> unat p \<in> group_ports g)"
      by (rule revision_two [OF r(3)])
    also have "\<dots> \<longleftrightarrow> (\<exists>cap\<in>set caps. usb_group read cap \<and> XHCI_PROTOCOL_MAJOR (snd cap) = 2 \<and>
         unat p \<in> group_ports (group_of read cap))"
    proof -
      have mem: "g \<in> set (groups m) \<longleftrightarrow> (\<exists>cap. cap \<in> set caps \<and> usb_group read cap \<and> g = group_of read cap)" for g
        unfolding r(2) by (simp only: set_map set_filter image_iff mem_Collect_eq Bex_def conj_assoc)
      have major: "Major (group_of read cap) = XHCI_PROTOCOL_MAJOR (snd cap)" for cap by (simp add: group_of_def)
      show ?thesis unfolding Bex_def mem major [symmetric] by blast
    qed
    finally show ?thesis .
  qed
  then show ?thesis using r(1) by blast
qed

theorem hub_ports_from_chain_witness:
  "\<exists>rh. XhciRootHubBuild (Some sample_parsed) (Some blank_root_hub) = (XHCI_RH_OK, Some rh) \<and>
     XhciRootHubHubPortOf (Some rh) 3 \<noteq> 0 \<and> XhciRootHubHubPortOf (Some rh) 1 = 0"
proof -
  obtain st rh where b: "XhciRootHubBuild (Some sample_parsed) (Some blank_root_hub) = (st, Some rh)"
    using build_some by blast
  have l: "length (HubToPort blank_root_hub) = 255" "length (PortToHub blank_root_hub) = 255"
    by (simp_all add: blank_root_hub_def)
  let ?r = "sample_window 0"
  obtain caps where c: "cap_chain 256 ?r 100 (8 * 4) = Some caps"
    "\<forall>p :: ulong. XhciRootHubHubPortOf (Some rh) p \<noteq> 0 \<longleftrightarrow>
       (\<exists>cap\<in>set caps. usb_group ?r cap \<and> XHCI_PROTOCOL_MAJOR (snd cap) = 2 \<and> unat p \<in> group_ports (group_of ?r cap))"
    using hub_ports_from_chain [OF sample_parse b l] by blast
  have "cap_chain 256 ?r 100 (8 * 4) = Some [(0x20, 0x00000401), (0x30, 0x03000402), (0x40, 0x02000002)]"
    by code_simp
  then have caps: "caps = [(0x20, 0x00000401), (0x30, 0x03000402), (0x40, 0x02000002)]" using c(1) by simp
  let ?P = "\<lambda>p cap. usb_group ?r cap \<and> XHCI_PROTOCOL_MAJOR (snd cap) = 2 \<and> p \<in> group_ports (group_of ?r cap)"
  have iff: "XhciRootHubHubPortOf (Some rh) p \<noteq> 0 \<longleftrightarrow> list_ex (?P (unat p)) caps" for p
    using c(2) unfolding list_ex_iff by blast
  have "list_ex (?P (unat (3 :: ulong))) caps" "\<not> list_ex (?P (unat (1 :: ulong))) caps"
    unfolding caps by code_simp+
  then have three: "XhciRootHubHubPortOf (Some rh) 3 \<noteq> 0" and one: "XhciRootHubHubPortOf (Some rh) 1 = 0"
    using iff [of 3] iff [of 1] by blast+
  have "st = XHCI_RH_OK" using three build_result(1) [OF b l] by (auto simp: XhciRootHubHubPortOf_def split: if_splits)
  then show ?thesis using b three one by blast
qed

end
