(* ===== verification/Xhci_Speed.thy ===== *)
theory Xhci_Speed
  imports Xhci_Caps
begin

text \<open>
  Port speeds (\<open>xhci_caps.c\<close>): what a Protocol Speed ID (PSIV) means on a port, by the PSI table
  of the port's group or by the default IDs, and which PSIV stands for a speed class.
\<close>

abbreviation (input) XHCI_RATE_GEN1_KBPS :: ulong where "XHCI_RATE_GEN1_KBPS \<equiv> 5000000"
abbreviation (input) XHCI_PSI_LP_SSP :: ulong where "XHCI_PSI_LP_SSP \<equiv> 1"
abbreviation (input) XHCI_PSIV_FS :: ulong where "XHCI_PSIV_FS \<equiv> 1"
abbreviation (input) XHCI_PSIV_LS :: ulong where "XHCI_PSIV_LS \<equiv> 2"
abbreviation (input) XHCI_PSIV_HS :: ulong where "XHCI_PSIV_HS \<equiv> 3"
abbreviation (input) XHCI_PSIV_SS :: ulong where "XHCI_PSIV_SS \<equiv> 4"
abbreviation (input) XHCI_PSIV_SSP_GEN2X1 :: ulong where "XHCI_PSIV_SSP_GEN2X1 \<equiv> 5"
abbreviation (input) XHCI_PSIV_SSP_GEN1X2 :: ulong where "XHCI_PSIV_SSP_GEN1X2 \<equiv> 6"
abbreviation (input) XHCI_PSIV_SSP_GEN2X2 :: ulong where "XHCI_PSIV_SSP_GEN2X2 \<equiv> 7"
abbreviation (input) SPEED_UNKNOWN :: ulong where "SPEED_UNKNOWN \<equiv> 0"
abbreviation (input) XHCI_SPEED_LOW :: ulong where "XHCI_SPEED_LOW \<equiv> 1"
abbreviation (input) XHCI_SPEED_FULL :: ulong where "XHCI_SPEED_FULL \<equiv> 2"
abbreviation (input) XHCI_SPEED_HIGH :: ulong where "XHCI_SPEED_HIGH \<equiv> 3"
abbreviation (input) XHCI_SPEED_SUPER :: ulong where "XHCI_SPEED_SUPER \<equiv> 4"

datatype port_top = XHCI_PORT_TOP_NONE | XHCI_PORT_TOP_USB2 | XHCI_PORT_TOP_SS | XHCI_PORT_TOP_SSP

datatype psi_source =
    XHCI_PSI_SOURCE_NONE | XHCI_PSI_SOURCE_LISTED | XHCI_PSI_SOURCE_DEFAULT
  | XHCI_PSI_SOURCE_FALLBACK | XHCI_PSI_SOURCE_HUB_FALLBACK

datatype hub_speed =
    XHCI_HUB_SPEED_TABLE | XHCI_HUB_SPEED_FALLBACK | XHCI_HUB_SPEED_DISABLED
  | XHCI_HUB_SPEED_CONFLICT | XHCI_HUB_SPEED_NO_MAPPING

definition XHCI_PSI_PSIV :: "ulong \<Rightarrow> ulong" where "XHCI_PSI_PSIV dw = dw AND 0xF"
definition XHCI_PSI_PSIE :: "ulong \<Rightarrow> ulong" where "XHCI_PSI_PSIE dw = drop_bit 4 dw AND 0x3"
definition XHCI_PSI_PSIM :: "ulong \<Rightarrow> ulong" where "XHCI_PSI_PSIM dw = drop_bit 16 dw AND 0xFFFF"
definition XHCI_PSI_LP :: "ulong \<Rightarrow> ulong" where "XHCI_PSI_LP dw = drop_bit 14 dw AND 0x3"

definition xhciPsiKilobits :: "ulong \<Rightarrow> ulong" where
  "xhciPsiKilobits psi =
     (let psim = XHCI_PSI_PSIM psi; psie = XHCI_PSI_PSIE psi in
      if psie = 0 then psim div 1000
      else if psie = 1 then psim
      else if psie = 2 then psim * 1000
      else if psim > 4294 then 0
      else psim * 1000000)"

definition xhciSpeedClassFromKilobits :: "ulong \<Rightarrow> ulong" where
  "xhciSpeedClassFromKilobits kbps =
     (if kbps = 1500 then XHCI_SPEED_LOW
      else if kbps = 12000 then XHCI_SPEED_FULL
      else if kbps = 480000 then XHCI_SPEED_HIGH
      else if kbps \<ge> 5000000 then XHCI_SPEED_SUPER
      else SPEED_UNKNOWN)"

definition xhciDefaultKilobits :: "ulong \<Rightarrow> ulong \<Rightarrow> ulong" where
  "xhciDefaultKilobits psiv major =
     (if psiv = XHCI_PSIV_FS then 12000
      else if psiv = XHCI_PSIV_LS then 1500
      else if psiv = XHCI_PSIV_HS then 480000
      else if psiv = XHCI_PSIV_SS then XHCI_RATE_GEN1_KBPS
      else if psiv = XHCI_PSIV_SSP_GEN2X1 \<or> psiv = XHCI_PSIV_SSP_GEN1X2 then
        (if major = 3 then 10000000 else 0)
      else if psiv = XHCI_PSIV_SSP_GEN2X2 then (if major = 3 then 20000000 else 0)
      else 0)"

text \<open>The loops over a PSI table stop at the first entry that answers.\<close>

definition XhciPortTop :: "xhci_port_map option \<Rightarrow> ulong \<Rightarrow> port_top" where
  "XhciPortTop pm port =
     (case pm of
        None \<Rightarrow> XHCI_PORT_TOP_NONE
      | Some m \<Rightarrow>
          if port = 0 \<or> port > MapPortCount m \<or> port > XHCI_MAX_ROOT_PORTS \<or>
             unat (PortProtocol m ! unat (port - 1)) \<ge> XHCI_MAX_PROTOCOLS \<or>
             ucast (PortProtocol m ! unat (port - 1)) \<ge> ProtocolCount m then XHCI_PORT_TOP_NONE
          else
            let proto = Protocols m ! unat (PortProtocol m ! unat (port - 1)) in
            if Major proto = 2 then XHCI_PORT_TOP_USB2
            else if Major proto \<noteq> 3 then XHCI_PORT_TOP_NONE
            else if list_ex (\<lambda>psi. XHCI_PSI_LP psi = XHCI_PSI_LP_SSP \<or>
                                   xhciPsiKilobits psi > XHCI_RATE_GEN1_KBPS)
                      (take (min (unat (PsiCount proto)) XHCI_MAX_PSI) (Psi proto))
            then XHCI_PORT_TOP_SSP
            else XHCI_PORT_TOP_SS)"

definition XhciPortSlotType :: "xhci_port_map \<Rightarrow> ulong \<Rightarrow> ulong option \<Rightarrow> caps_status \<times> ulong option" where
  "XhciPortSlotType m port slotType =
     (case slotType of
        None \<Rightarrow> (XHCI_CAPS_BAD_PARAM, slotType)
      | Some _ \<Rightarrow>
          if port = 0 \<or> port > MapPortCount m \<or> port > XHCI_MAX_ROOT_PORTS then
            (XHCI_CAPS_NOT_FOUND, slotType)
          else if PortProtocol m ! unat (port - 1) = XHCI_PORT_NO_PROTOCOL then
            (XHCI_CAPS_NOT_FOUND, slotType)
          else
            (XHCI_CAPS_OK,
             Some (SlotType (Protocols m ! unat (PortProtocol m ! unat (port - 1))))))"

text \<open>Where the meaning of a PSIV comes from, the rate in kbit/s and the SuperSpeedPlus bit.\<close>

definition xhciProtocolRateFor :: "xhci_protocol \<Rightarrow> ulong \<Rightarrow> bool \<Rightarrow> psi_source \<times> ulong \<times> ulong" where
  "xhciProtocolRateFor proto psiv hubFallback =
     (case find (\<lambda>i. XHCI_PSI_PSIV (Psi proto ! i) = psiv) [0..<unat (PsiCount proto)] of
        Some i \<Rightarrow>
          (XHCI_PSI_SOURCE_LISTED, xhciPsiKilobits (Psi proto ! i),
           if Major proto = 3 \<and> XHCI_PSI_LP (Psi proto ! i) = XHCI_PSI_LP_SSP then 1 else 0)
      | None \<Rightarrow>
          if PsiCount proto = 0 then
            (let kbps = xhciDefaultKilobits psiv (Major proto)
             in (if kbps \<noteq> 0 then XHCI_PSI_SOURCE_DEFAULT else XHCI_PSI_SOURCE_NONE, kbps, 0))
          else if Major proto = 3 \<and> psiv \<ge> XHCI_PSIV_SS \<and> psiv \<le> XHCI_PSIV_SSP_GEN2X2 then
            (XHCI_PSI_SOURCE_FALLBACK, xhciDefaultKilobits psiv (Major proto), 0)
          else if hubFallback \<and> Major proto = 2 \<and> (psiv = XHCI_PSIV_FS \<or> psiv = XHCI_PSIV_LS) then
            (XHCI_PSI_SOURCE_HUB_FALLBACK, xhciDefaultKilobits psiv (Major proto), 0)
          else (XHCI_PSI_SOURCE_NONE, 0, 0))"

definition xhciProtocolRate :: "xhci_protocol \<Rightarrow> ulong \<Rightarrow> psi_source \<times> ulong \<times> ulong" where
  "xhciProtocolRate proto psiv = xhciProtocolRateFor proto psiv False"

definition xhciPortProtocol :: "xhci_port_map option \<Rightarrow> ulong \<Rightarrow> xhci_protocol option" where
  "xhciPortProtocol pm port =
     (case pm of
        None \<Rightarrow> None
      | Some m \<Rightarrow>
          if port = 0 \<or> port > MapPortCount m \<or> port > XHCI_MAX_ROOT_PORTS \<or>
             PortProtocol m ! unat (port - 1) = XHCI_PORT_NO_PROTOCOL then None
          else Some (Protocols m ! unat (PortProtocol m ! unat (port - 1))))"

definition XhciPortSpeedSource :: "xhci_port_map option \<Rightarrow> ulong \<Rightarrow> ulong \<Rightarrow> psi_source" where
  "XhciPortSpeedSource pm port psiv =
     (case xhciPortProtocol pm port of
        None \<Rightarrow> XHCI_PSI_SOURCE_NONE
      | Some proto \<Rightarrow> fst (xhciProtocolRate proto psiv))"

definition XhciPortSpeedClassFor ::
    "xhci_port_map option \<Rightarrow> ulong \<Rightarrow> ulong \<Rightarrow> bool \<Rightarrow> ulong option \<Rightarrow> caps_status \<times> ulong option" where
  "XhciPortSpeedClassFor pm port psiv hubFallback speedClass =
     (case speedClass of
        None \<Rightarrow> (XHCI_CAPS_BAD_PARAM, speedClass)
      | Some _ \<Rightarrow>
          (case xhciPortProtocol pm port of
             None \<Rightarrow> (XHCI_CAPS_NOT_FOUND, speedClass)
           | Some proto \<Rightarrow>
               (case xhciProtocolRateFor proto psiv hubFallback of
                  (_, kbps, _) \<Rightarrow> (XHCI_CAPS_OK, Some (xhciSpeedClassFromKilobits kbps)))))"

definition XhciPortSpeedClass ::
    "xhci_port_map option \<Rightarrow> ulong \<Rightarrow> ulong \<Rightarrow> ulong option \<Rightarrow> caps_status \<times> ulong option" where
  "XhciPortSpeedClass pm port psiv speedClass = XhciPortSpeedClassFor pm port psiv False speedClass"

definition xhciDefaultPsiv :: "ulong \<Rightarrow> ulong" where
  "xhciDefaultPsiv speedClass =
     (if speedClass = XHCI_SPEED_FULL then XHCI_PSIV_FS
      else if speedClass = XHCI_SPEED_LOW then XHCI_PSIV_LS
      else if speedClass = XHCI_SPEED_HIGH then XHCI_PSIV_HS
      else if speedClass = XHCI_SPEED_SUPER then XHCI_PSIV_SS
      else 0)"

text \<open>The entry test of the loop in \<open>XhciPortPsivForSpeed\<close>, its \<open>continue\<close> as the first conjunct.\<close>

definition psi_entry_serves :: "ulong \<Rightarrow> ulong \<Rightarrow> bool" where
  "psi_entry_serves speedClass psi \<longleftrightarrow>
     \<not> (speedClass = XHCI_SPEED_SUPER \<and> xhciPsiKilobits psi \<noteq> XHCI_RATE_GEN1_KBPS) \<and>
     xhciSpeedClassFromKilobits (xhciPsiKilobits psi) = speedClass"

definition XhciPortPsivForSpeed ::
    "xhci_port_map option \<Rightarrow> ulong \<Rightarrow> ulong \<Rightarrow> ulong option \<Rightarrow> caps_status \<times> ulong option" where
  "XhciPortPsivForSpeed pm port speedClass psiv =
     (case psiv of
        None \<Rightarrow> (XHCI_CAPS_BAD_PARAM, psiv)
      | Some _ \<Rightarrow>
          let value = xhciDefaultPsiv speedClass in
          if value = 0 then (XHCI_CAPS_NOT_FOUND, psiv)
          else
            (case xhciPortProtocol pm port of
               None \<Rightarrow> (XHCI_CAPS_NOT_FOUND, psiv)
             | Some proto \<Rightarrow>
                 if PsiCount proto = 0 then (XHCI_CAPS_OK, Some value)
                 else
                   (case find (\<lambda>i. psi_entry_serves speedClass (Psi proto ! i)) [0..<unat (PsiCount proto)] of
                      Some i \<Rightarrow> (XHCI_CAPS_OK, Some (XHCI_PSI_PSIV (Psi proto ! i)))
                    | None \<Rightarrow>
                        if speedClass = XHCI_SPEED_SUPER \<and>
                           fst (xhciProtocolRate proto XHCI_PSIV_SS) = XHCI_PSI_SOURCE_FALLBACK
                        then (XHCI_CAPS_OK, Some XHCI_PSIV_SS)
                        else (XHCI_CAPS_NOT_FOUND, psiv))))"

definition XhciPortPsivForHubChild ::
    "xhci_port_map option \<Rightarrow> ulong \<Rightarrow> ulong \<Rightarrow> bool \<Rightarrow> ulong option \<Rightarrow> hub_speed option
     \<Rightarrow> caps_status \<times> ulong option \<times> hub_speed option" where
  "XhciPortPsivForHubChild pm port speedClass allowFallback psiv outcome =
     (if psiv = None \<or> outcome = None then (XHCI_CAPS_BAD_PARAM, psiv, outcome)
      else
        (case XhciPortPsivForSpeed pm port speedClass psiv of
           (status, psiv) \<Rightarrow>
             if status = XHCI_CAPS_OK then (XHCI_CAPS_OK, psiv, Some XHCI_HUB_SPEED_TABLE)
             else if status \<noteq> XHCI_CAPS_NOT_FOUND \<or>
                     (speedClass \<noteq> XHCI_SPEED_FULL \<and> speedClass \<noteq> XHCI_SPEED_LOW) then
               (status, psiv, Some XHCI_HUB_SPEED_NO_MAPPING)
             else
               (case xhciPortProtocol pm port of
                  None \<Rightarrow> (XHCI_CAPS_NOT_FOUND, psiv, Some XHCI_HUB_SPEED_NO_MAPPING)
                | Some proto \<Rightarrow>
                    if Major proto \<noteq> 2 \<or> PsiCount proto = 0 then
                      (XHCI_CAPS_NOT_FOUND, psiv, Some XHCI_HUB_SPEED_NO_MAPPING)
                    else
                      let value = xhciDefaultPsiv speedClass in
                      if list_ex (\<lambda>i. XHCI_PSI_PSIV (Psi proto ! i) = value) [0..<unat (PsiCount proto)]
                      then (XHCI_CAPS_NOT_FOUND, psiv, Some XHCI_HUB_SPEED_CONFLICT)
                      else if \<not> allowFallback then
                        (XHCI_CAPS_NOT_FOUND, psiv, Some XHCI_HUB_SPEED_DISABLED)
                      else (XHCI_CAPS_OK, Some value, Some XHCI_HUB_SPEED_FALLBACK))))"

definition XhciHubSpeedNotePlace :: "ulong \<Rightarrow> ulong \<Rightarrow> ulong \<Rightarrow> ulong \<Rightarrow> ulong \<Rightarrow> ulong" where
  "XhciHubSpeedNotePlace rootPort parentSlot hubPort speedClass outcome =
     push_bit 24 (rootPort AND 0xFF) OR push_bit 16 (parentSlot AND 0xFF) OR
     push_bit 8 (hubPort AND 0xFF) OR push_bit 4 (speedClass AND 0xF) OR (outcome AND 0xF)"

definition XhciHubSpeedNoteRoute :: "ulong \<Rightarrow> ulong \<Rightarrow> ulong" where
  "XhciHubSpeedNoteRoute psiv route = push_bit 28 (psiv AND 0xF) OR (route AND 0xFFFFF)"

definition XhciPciFirmwareOffset :: "ulong \<Rightarrow> ulong" where
  "XhciPciFirmwareOffset pciVendorDevice = (if pciVendorDevice = 0x34831106 then 0x50 else 0)"

definition XhciPortRateFor ::
    "xhci_port_map option \<Rightarrow> ulong \<Rightarrow> ulong \<Rightarrow> bool \<Rightarrow> ulong option \<Rightarrow> ulong option
     \<Rightarrow> caps_status \<times> ulong option \<times> ulong option" where
  "XhciPortRateFor pm port psiv hubFallback kbps sspPlus =
     (if kbps = None \<or> sspPlus = None then (XHCI_CAPS_BAD_PARAM, kbps, sspPlus)
      else
        (case xhciPortProtocol pm port of
           None \<Rightarrow> (XHCI_CAPS_NOT_FOUND, Some 0, Some 0)
         | Some proto \<Rightarrow>
             (case xhciProtocolRateFor proto psiv hubFallback of
                (_, rate, lp) \<Rightarrow>
                  if rate = 0 then (XHCI_CAPS_NOT_FOUND, Some 0, Some 0)
                  else (XHCI_CAPS_OK, Some rate,
                        Some (if lp \<noteq> 0 \<or> rate > XHCI_RATE_GEN1_KBPS then 1 else 0)))))"

definition XhciPortRate ::
    "xhci_port_map option \<Rightarrow> ulong \<Rightarrow> ulong \<Rightarrow> ulong option \<Rightarrow> ulong option
     \<Rightarrow> caps_status \<times> ulong option \<times> ulong option" where
  "XhciPortRate pm port psiv kbps sspPlus = XhciPortRateFor pm port psiv False kbps sspPlus"

end
