(* ===== verification/Xhci_Speed_Props.thy ===== *)
theory Xhci_Speed_Props
  imports Xhci_Speed
begin

text \<open>
  The two directions of the speed decoding agree: an ID chosen for a speed class is an ID the
  port's protocol group reads back as that class.
\<close>

definition psi_table :: "xhci_protocol \<Rightarrow> ulong list" where
  "psi_table proto = take (unat (PsiCount proto)) (Psi proto)"

text \<open>A group's PSI table names each ID once, as the specification demands, and fits its array.\<close>

definition table_ok :: "xhci_protocol \<Rightarrow> bool" where
  "table_ok proto \<longleftrightarrow> unat (PsiCount proto) \<le> length (Psi proto) \<and> distinct (map XHCI_PSI_PSIV (psi_table proto))"

lemma find_id:
  assumes t: "table_ok proto" and i: "i < unat (PsiCount proto)"
  shows "find (\<lambda>k. XHCI_PSI_PSIV (Psi proto ! k) = XHCI_PSI_PSIV (Psi proto ! i)) [0..<unat (PsiCount proto)] = Some i"
proof -
  have nth: "map XHCI_PSI_PSIV (psi_table proto) ! k = XHCI_PSI_PSIV (Psi proto ! k)" if "k < unat (PsiCount proto)" for k
    using t that by (simp add: psi_table_def table_ok_def)
  have len: "length (map XHCI_PSI_PSIV (psi_table proto)) = unat (PsiCount proto)"
    using t by (simp add: psi_table_def table_ok_def)
  have "XHCI_PSI_PSIV (Psi proto ! k) \<noteq> XHCI_PSI_PSIV (Psi proto ! i)" if "k < i" for k
    using t i that nth [of k] nth [of i] nth_eq_iff_index_eq [of "map XHCI_PSI_PSIV (psi_table proto)" k i] len
    by (simp add: table_ok_def)
  then show ?thesis using i by (auto simp: find_upt_Some)
qed

lemma rate_of_entry:
  assumes "table_ok proto" and "i < unat (PsiCount proto)"
  shows "fst (snd (xhciProtocolRateFor proto (XHCI_PSI_PSIV (Psi proto ! i)) fb)) = xhciPsiKilobits (Psi proto ! i)"
  by (simp add: xhciProtocolRateFor_def find_id [OF assms])

lemma default_round_trip:
  "xhciDefaultPsiv cls \<noteq> 0 \<Longrightarrow> xhciSpeedClassFromKilobits (xhciDefaultKilobits (xhciDefaultPsiv cls) major) = cls"
  by (auto simp: xhciDefaultPsiv_def xhciDefaultKilobits_def xhciSpeedClassFromKilobits_def split: if_splits)

lemma find_upt_0: "find P [0..<0] = None" by simp

lemma rate_default:
  assumes "PsiCount proto = 0"
  shows "fst (snd (xhciProtocolRateFor proto psiv fb)) = xhciDefaultKilobits psiv (Major proto)"
  using assms by (simp add: xhciProtocolRateFor_def Let_def)

lemma rate_fallback:
  assumes "fst (xhciProtocolRateFor proto psiv False) = XHCI_PSI_SOURCE_FALLBACK"
  shows "fst (snd (xhciProtocolRateFor proto psiv fb)) = xhciDefaultKilobits psiv (Major proto)"
  using assms by (auto simp: xhciProtocolRateFor_def Let_def split: option.splits if_splits)

lemma speed_class_for:
  assumes "xhciPortProtocol pm port = Some proto"
  shows "XhciPortSpeedClassFor pm port psiv fb (Some out) =
    (XHCI_CAPS_OK, Some (xhciSpeedClassFromKilobits (fst (snd (xhciProtocolRateFor proto psiv fb)))))"
  using assms by (simp add: XhciPortSpeedClassFor_def split: prod.split)

lemma psiv_for_speed:
  assumes p: "xhciPortProtocol pm port = Some proto" and t: "table_ok proto"
    and ok: "XhciPortPsivForSpeed pm port cls (Some out) = (XHCI_CAPS_OK, Some psiv)"
  shows "xhciSpeedClassFromKilobits (fst (snd (xhciProtocolRateFor proto psiv fb))) = cls"
proof (cases "PsiCount proto = 0")
  case True
  then have "psiv = xhciDefaultPsiv cls" "xhciDefaultPsiv cls \<noteq> 0"
    using ok p by (auto simp: XhciPortPsivForSpeed_def Let_def split: if_splits)
  then show ?thesis using rate_default [OF True] default_round_trip [of cls] by simp
next
  case False
  let ?f = "find (\<lambda>i. psi_entry_serves cls (Psi proto ! i)) [0..<unat (PsiCount proto)]"
  show ?thesis
  proof (cases ?f)
    case (Some i)
    then have i: "i < unat (PsiCount proto)" "psi_entry_serves cls (Psi proto ! i)"
      by (auto simp: find_upt_Some)
    have "psiv = XHCI_PSI_PSIV (Psi proto ! i)"
      using ok p False Some by (auto simp: XhciPortPsivForSpeed_def Let_def split: if_splits)
    then show ?thesis using rate_of_entry [OF t i(1)] i(2) by (simp add: psi_entry_serves_def)
  next
    case None
    then have "psiv = XHCI_PSIV_SS" "cls = XHCI_SPEED_SUPER"
      "fst (xhciProtocolRateFor proto XHCI_PSIV_SS False) = XHCI_PSI_SOURCE_FALLBACK"
      using ok p False by (auto simp: XhciPortPsivForSpeed_def xhciProtocolRate_def Let_def split: if_splits)
    then show ?thesis using rate_fallback [of proto 4 fb]
      by (simp add: xhciDefaultKilobits_def xhciSpeedClassFromKilobits_def)
  qed
qed

text \<open>
  An ID the driver writes into a slot context for a device behind a hub is an ID the port's
  protocol group reads back as the device's speed, whether it came from the group's PSI table, from
  the default IDs or from the fallback; and when the table lookup finds no ID for a Low, Full or
  High Speed device, no ID at all means that speed on the port.
\<close>

theorem speed_id_round_trip:
  assumes p: "xhciPortProtocol pm port = Some proto" and t: "table_ok proto"
  shows "(\<forall>psiv outcome. XhciPortPsivForHubChild pm port cls allow (Some v0) (Some o0) = (XHCI_CAPS_OK, Some psiv, outcome) \<longrightarrow>
       XhciPortSpeedClassFor pm port psiv True (Some c0) = (XHCI_CAPS_OK, Some cls)) \<and>
    (cls \<in> {XHCI_SPEED_LOW, XHCI_SPEED_FULL, XHCI_SPEED_HIGH} \<and>
     fst (XhciPortPsivForSpeed pm port cls (Some v0)) = XHCI_CAPS_NOT_FOUND \<longrightarrow>
       (\<forall>psiv. XhciPortSpeedClass pm port psiv (Some c0) \<noteq> (XHCI_CAPS_OK, Some cls)))"
proof (intro conjI allI impI)
  fix psiv outcome
  assume h: "XhciPortPsivForHubChild pm port cls allow (Some v0) (Some o0) = (XHCI_CAPS_OK, Some psiv, outcome)"
  obtain st v where s: "XhciPortPsivForSpeed pm port cls (Some v0) = (st, v)" by fastforce
  have "xhciSpeedClassFromKilobits (fst (snd (xhciProtocolRateFor proto psiv True))) = cls"
  proof (cases "st = XHCI_CAPS_OK")
    case True
    then have "v = Some psiv" using h s by (simp add: XhciPortPsivForHubChild_def)
    then show ?thesis using psiv_for_speed [OF p t] s True by simp
  next
    case False
    have c: "cls = XHCI_SPEED_FULL \<or> cls = XHCI_SPEED_LOW" "Major proto = 2" "PsiCount proto \<noteq> 0"
      "psiv = xhciDefaultPsiv cls"
      "\<not> list_ex (\<lambda>i. XHCI_PSI_PSIV (Psi proto ! i) = xhciDefaultPsiv cls) [0..<unat (PsiCount proto)]"
      using h s False p by (auto simp: XhciPortPsivForHubChild_def Let_def split: if_splits)
    then have "find (\<lambda>i. XHCI_PSI_PSIV (Psi proto ! i) = psiv) [0..<unat (PsiCount proto)] = None"
      by (auto simp: find_upt_None list_ex_iff)
    then show ?thesis
      using c by (auto simp: xhciProtocolRateFor_def xhciDefaultPsiv_def xhciDefaultKilobits_def xhciSpeedClassFromKilobits_def)
  qed
  then show "XhciPortSpeedClassFor pm port psiv True (Some c0) = (XHCI_CAPS_OK, Some cls)"
    using speed_class_for [OF p] by simp
next
  fix psiv
  assume h: "cls \<in> {XHCI_SPEED_LOW, XHCI_SPEED_FULL, XHCI_SPEED_HIGH} \<and>
    fst (XhciPortPsivForSpeed pm port cls (Some v0)) = XHCI_CAPS_NOT_FOUND"
  then have nz: "PsiCount proto \<noteq> 0" and none: "find (\<lambda>i. psi_entry_serves cls (Psi proto ! i)) [0..<unat (PsiCount proto)] = None"
    using p by (auto simp: XhciPortPsivForSpeed_def xhciDefaultPsiv_def Let_def split: if_splits option.splits)
  have "xhciSpeedClassFromKilobits (fst (snd (xhciProtocolRateFor proto psiv False))) \<noteq> cls"
  proof (cases "find (\<lambda>i. XHCI_PSI_PSIV (Psi proto ! i) = psiv) [0..<unat (PsiCount proto)]")
    case (Some i)
    then have "\<not> psi_entry_serves cls (Psi proto ! i)" using none by (auto simp: find_upt_None find_upt_Some)
    then show ?thesis using Some h by (auto simp: xhciProtocolRateFor_def psi_entry_serves_def)
  next
    case None
    then show ?thesis
      using h nz by (auto simp: xhciProtocolRateFor_def xhciDefaultKilobits_def xhciSpeedClassFromKilobits_def
          word_le_nat_alt split: if_splits)
  qed
  then show "XhciPortSpeedClass pm port psiv (Some c0) \<noteq> (XHCI_CAPS_OK, Some cls)"
    using speed_class_for [OF p] by (simp add: XhciPortSpeedClass_def)
qed

text \<open>A USB 2 group whose table lists High Speed as 1 and Full Speed as 3, and nothing for Low Speed.\<close>

definition sample_group :: xhci_protocol where
  "sample_group =
     \<lparr>Major = 2, Minor = 0, PortOffset = 1, GroupPortCount = 2, SlotType = 0, PsiCount = 2,
      Psi = [0x01E00021, 0x000C0023] @ replicate 13 0\<rparr>"

definition sample_speed_map :: xhci_port_map where
  "sample_speed_map =
     (xhciResetPortMap 2)\<lparr>ProtocolCount := 1, Protocols := sample_group # replicate 3 blank_protocol,
        PortProtocol := [0, 0] @ replicate 253 0xFF\<rparr>"

theorem speed_id_round_trip_witness:
  "XhciPortPsivForHubChild (Some sample_speed_map) 2 XHCI_SPEED_LOW True (Some 0) (Some XHCI_HUB_SPEED_TABLE) =
     (XHCI_CAPS_OK, Some 2, Some XHCI_HUB_SPEED_FALLBACK) \<and>
   XhciPortSpeedClassFor (Some sample_speed_map) 2 2 True (Some 0) = (XHCI_CAPS_OK, Some XHCI_SPEED_LOW)"
proof -
  have p: "xhciPortProtocol (Some sample_speed_map) 2 = Some sample_group" by code_simp
  have t: "table_ok sample_group" by code_simp
  have h: "XhciPortPsivForHubChild (Some sample_speed_map) 2 XHCI_SPEED_LOW True (Some 0) (Some XHCI_HUB_SPEED_TABLE) =
     (XHCI_CAPS_OK, Some 2, Some XHCI_HUB_SPEED_FALLBACK)" by code_simp
  then show ?thesis using speed_id_round_trip [OF p t, of XHCI_SPEED_LOW True 0 XHCI_HUB_SPEED_TABLE 0] by blast
qed

end
