(* ===== verification/Xhci_Geometry.thy ===== *)
theory Xhci_Geometry
  imports Xhci_Prelude
begin

text \<open>
  The controller's geometry (\<open>xhci_caps.c\<close>): where its register blocks lie in the mapped window
  and what it offers, derived from its capability registers, or why it is refused.
\<close>

abbreviation (input) XHCI_CAP_REGISTERS_BYTES :: ulong where "XHCI_CAP_REGISTERS_BYTES \<equiv> 0x1C"
abbreviation (input) XHCI_CAP_HCCPARAMS2_BYTES :: ulong where "XHCI_CAP_HCCPARAMS2_BYTES \<equiv> 0x20"
abbreviation (input) XHCI_OP_REGISTERS_BYTES :: ulong where "XHCI_OP_REGISTERS_BYTES \<equiv> 0x3C"
abbreviation (input) XHCI_OP_PORTSC_BASE :: ulong where "XHCI_OP_PORTSC_BASE \<equiv> 0x400"
abbreviation (input) XHCI_OP_PORT_STRIDE :: ulong where "XHCI_OP_PORT_STRIDE \<equiv> 0x10"
abbreviation (input) XHCI_RT_REGISTERS_BYTES :: ulong where "XHCI_RT_REGISTERS_BYTES \<equiv> 0x40"
abbreviation (input) XHCI_DB_STRIDE :: ulong where "XHCI_DB_STRIDE \<equiv> 4"
abbreviation (input) XHCI_HCIVERSION_0_96 :: ulong where "XHCI_HCIVERSION_0_96 \<equiv> 0x0096"
abbreviation (input) XHCI_HCIVERSION_1_0 :: ulong where "XHCI_HCIVERSION_1_0 \<equiv> 0x0100"
abbreviation (input) XHCI_TD_SIZE_FORM_PACKETS :: ulong where "XHCI_TD_SIZE_FORM_PACKETS \<equiv> 1"
abbreviation (input) XHCI_TD_SIZE_FORM_KIB :: ulong where "XHCI_TD_SIZE_FORM_KIB \<equiv> 2"
abbreviation (input) XHCI_VERSION_POLICY_OVERRIDE :: ulong where "XHCI_VERSION_POLICY_OVERRIDE \<equiv> 0x00100000"
abbreviation (input) XHCI_VERSION_POLICY_READ :: ulong where "XHCI_VERSION_POLICY_READ \<equiv> 0x00200000"

datatype hc_status =
    XHCI_HC_OK | XHCI_HC_BAD_PARAM | XHCI_HC_NOT_DECODING | XHCI_HC_BAD_CAPLENGTH
  | XHCI_HC_BAD_VERSION | XHCI_HC_BAD_RTSOFF | XHCI_HC_BAD_DBOFF | XHCI_HC_NO_PORTS
  | XHCI_HC_NO_SLOTS | XHCI_HC_NO_INTERRUPTERS | XHCI_HC_WINDOW_TOO_SMALL | XHCI_HC_BAD_XECP

record xhci_hc_info =
  CapLength :: ulong
  HciVersion :: ulong
  OperationalOffset :: ulong
  PortscOffset :: ulong
  RuntimeOffset :: ulong
  DoorbellOffset :: ulong
  MaxPorts :: ulong
  MaxSlots :: ulong
  MaxIntrs :: ulong
  HcScratchpadCount :: ulong
  IstFrames :: ulong
  HcContextSize :: ulong
  Ac64 :: ulong
  Ppc :: ulong
  Cfc :: ulong
  XecpDwords :: ulong
  Fsc :: ulong
  Lec :: ulong

definition XHCI_CAPLENGTH_OF :: "ulong \<Rightarrow> ulong" where "XHCI_CAPLENGTH_OF dw0 = dw0 AND 0xFF"
definition XHCI_HCIVERSION_OF :: "ulong \<Rightarrow> ulong" where
  "XHCI_HCIVERSION_OF dw0 = drop_bit 16 dw0 AND 0xFFFF"
definition XHCI_HCSPARAMS1_MAXSLOTS :: "ulong \<Rightarrow> ulong" where "XHCI_HCSPARAMS1_MAXSLOTS v = v AND 0xFF"
definition XHCI_HCSPARAMS1_MAXINTRS :: "ulong \<Rightarrow> ulong" where
  "XHCI_HCSPARAMS1_MAXINTRS v = drop_bit 8 v AND 0x7FF"
definition XHCI_HCSPARAMS1_MAXPORTS :: "ulong \<Rightarrow> ulong" where
  "XHCI_HCSPARAMS1_MAXPORTS v = drop_bit 24 v AND 0xFF"
definition XHCI_HCSPARAMS2_IST :: "ulong \<Rightarrow> ulong" where "XHCI_HCSPARAMS2_IST v = v AND 0xF"
definition XHCI_HCSPARAMS2_MAXSCRATCHPAD :: "ulong \<Rightarrow> ulong" where
  "XHCI_HCSPARAMS2_MAXSCRATCHPAD v = push_bit 5 (drop_bit 21 v AND 0x1F) OR (drop_bit 27 v AND 0x1F)"
definition XHCI_HCCPARAMS1_AC64 :: "ulong \<Rightarrow> ulong" where "XHCI_HCCPARAMS1_AC64 v = v AND 1"
definition XHCI_HCCPARAMS1_PPC :: "ulong \<Rightarrow> ulong" where "XHCI_HCCPARAMS1_PPC v = drop_bit 3 v AND 1"
definition XHCI_HCCPARAMS1_CFC :: "ulong \<Rightarrow> ulong" where "XHCI_HCCPARAMS1_CFC v = drop_bit 11 v AND 1"
definition XHCI_HCCPARAMS1_XECP :: "ulong \<Rightarrow> ulong" where
  "XHCI_HCCPARAMS1_XECP v = drop_bit 16 v AND 0xFFFF"
definition XHCI_CONTEXT_SIZE_FROM_CSZ :: "ulong \<Rightarrow> ulong" where
  "XHCI_CONTEXT_SIZE_FROM_CSZ hcc = (if drop_bit 2 hcc AND 1 \<noteq> 0 then 64 else 32)"
definition XHCI_HCCPARAMS2_FSC :: "ulong \<Rightarrow> ulong" where "XHCI_HCCPARAMS2_FSC v = drop_bit 2 v AND 1"
definition XHCI_HCCPARAMS2_LEC :: "ulong \<Rightarrow> ulong" where "XHCI_HCCPARAMS2_LEC v = drop_bit 4 v AND 1"

definition xhciWindowHolds :: "ulong \<Rightarrow> ulong \<Rightarrow> ulong \<Rightarrow> bool" where
  "xhciWindowHolds mappedBytes offset need =
     (if mappedBytes < need then False else offset \<le> mappedBytes - need)"

definition XhciVersionFloor :: "ulong \<Rightarrow> ulong \<Rightarrow> ulong" where
  "XhciVersionFloor found value =
     (if found \<noteq> 0 \<and> value = 0 then XHCI_HCIVERSION_1_0 else XHCI_HCIVERSION_0_96)"

definition XhciEffectiveCapDword0 :: "ulong \<Rightarrow> ulong \<Rightarrow> ulong" where
  "XhciEffectiveCapDword0 raw override =
     (if raw = 0xFFFFFFFF \<or> override = 0 \<or> override \<ge> 0xFFFF then raw
      else (raw AND 0x0000FFFF) OR push_bit 16 override)"

definition XhciTdSizeFormOf :: "ulong \<Rightarrow> ulong" where
  "XhciTdSizeFormOf hciVersion =
     (if hciVersion < XHCI_HCIVERSION_1_0 then XHCI_TD_SIZE_FORM_KIB else XHCI_TD_SIZE_FORM_PACKETS)"

definition XhciVersionPairWord :: "ulong \<Rightarrow> ulong \<Rightarrow> ulong" where
  "XhciVersionPairWord registerVersion effectiveVersion =
     (registerVersion AND 0xFFFF) OR push_bit 16 (effectiveVersion AND 0xFFFF)"

definition XhciVersionPolicyWord :: "ulong \<Rightarrow> ulong \<Rightarrow> ulong \<Rightarrow> ulong \<Rightarrow> ulong" where
  "XhciVersionPolicyWord floor form overrideApplied versionsRead =
     (floor AND 0xFFFF) OR push_bit 16 (form AND 0xF) OR
     (if overrideApplied \<noteq> 0 then XHCI_VERSION_POLICY_OVERRIDE else 0) OR
     (if versionsRead \<noteq> 0 then XHCI_VERSION_POLICY_READ else 0)"

text \<open>The length and the version of an acceptable first dword, or why it is refused.\<close>

definition XhciCheckCapDword0 :: "ulong \<Rightarrow> ulong \<Rightarrow> ulong \<Rightarrow> hc_status + ulong \<times> ulong" where
  "XhciCheckCapDword0 capDword0 mappedBytes floor =
     (if mappedBytes < XHCI_CAP_REGISTERS_BYTES then Inl XHCI_HC_WINDOW_TOO_SMALL
      else if capDword0 = 0xFFFFFFFF then Inl XHCI_HC_NOT_DECODING
      else
        let length = XHCI_CAPLENGTH_OF capDword0;
            version = XHCI_HCIVERSION_OF capDword0
        in
        if length < XHCI_CAP_REGISTERS_BYTES \<or> length = 0xFF then Inl XHCI_HC_BAD_CAPLENGTH
        else
          let lowest = (if floor = XHCI_HCIVERSION_0_96 then XHCI_HCIVERSION_0_96
                        else XHCI_HCIVERSION_1_0)
          in if version = 0xFFFF \<or> version < lowest then Inl XHCI_HC_BAD_VERSION
             else Inr (length, version))"

definition ist_frames :: "ulong \<Rightarrow> ulong" where
  "ist_frames hcsparams2 =
     (let ist = XHCI_HCSPARAMS2_IST hcsparams2
      in if ist AND 0x8 \<noteq> 0 then ist AND 0x7 else ((ist AND 0x7) + 7) div 8)"

text \<open>
  A structure is written only when the derivation succeeds: the result carries it, or the status
  of the first check that failed.
\<close>

definition XhciDeriveHcInfo ::
    "ulong \<Rightarrow> ulong \<Rightarrow> ulong \<Rightarrow> ulong \<Rightarrow> ulong \<Rightarrow> ulong \<Rightarrow> ulong \<Rightarrow> ulong \<Rightarrow> ulong
     \<Rightarrow> xhci_hc_info option \<Rightarrow> hc_status \<times> xhci_hc_info option" where
  "XhciDeriveHcInfo capDword0 hcsparams1 hcsparams2 hccparams1 hccparams2 dboff rtsoff
       mappedBytes floor info =
     (if info = None then (XHCI_HC_BAD_PARAM, info)
      else
        (case XhciCheckCapDword0 capDword0 mappedBytes floor of
           Inl status \<Rightarrow> (status, info)
         | Inr (capLength, hciVersion) \<Rightarrow>
             if hcsparams1 = 0xFFFFFFFF \<or> hcsparams2 = 0xFFFFFFFF \<or> hccparams1 = 0xFFFFFFFF then
               (XHCI_HC_NOT_DECODING, info)
             else
               let maxPorts = XHCI_HCSPARAMS1_MAXPORTS hcsparams1;
                   maxSlots = XHCI_HCSPARAMS1_MAXSLOTS hcsparams1;
                   maxIntrs = XHCI_HCSPARAMS1_MAXINTRS hcsparams1;
                   xecpDwords = XHCI_HCCPARAMS1_XECP hccparams1
               in
               if xecpDwords \<noteq> 0 \<and>
                  xecpDwords * 4 < (if capLength \<ge> XHCI_CAP_HCCPARAMS2_BYTES
                                    then XHCI_CAP_HCCPARAMS2_BYTES else XHCI_CAP_REGISTERS_BYTES) then
                 (XHCI_HC_BAD_XECP, info)
               else
                 let hcc2 = hciVersion \<ge> XHCI_HCIVERSION_1_0 \<and> capLength \<ge> XHCI_CAP_HCCPARAMS2_BYTES \<and>
                            mappedBytes \<ge> XHCI_CAP_HCCPARAMS2_BYTES \<and> hccparams2 \<noteq> 0xFFFFFFFF;
                     fsc = (if hcc2 then XHCI_HCCPARAMS2_FSC hccparams2 else 0);
                     lec = (if hcc2 then XHCI_HCCPARAMS2_LEC hccparams2 else 0)
                 in
                 if maxPorts = 0 then (XHCI_HC_NO_PORTS, info)
                 else if maxSlots = 0 then (XHCI_HC_NO_SLOTS, info)
                 else if maxIntrs = 0 then (XHCI_HC_NO_INTERRUPTERS, info)
                 else
                   let operational = capLength;
                       portsc = operational + XHCI_OP_PORTSC_BASE;
                       available = mappedBytes - operational
                   in
                   if \<not> xhciWindowHolds mappedBytes operational XHCI_OP_REGISTERS_BYTES then
                     (XHCI_HC_WINDOW_TOO_SMALL, info)
                   else if available < XHCI_OP_PORTSC_BASE then (XHCI_HC_WINDOW_TOO_SMALL, info)
                   else if (available - XHCI_OP_PORTSC_BASE) div XHCI_OP_PORT_STRIDE < maxPorts then
                     (XHCI_HC_WINDOW_TOO_SMALL, info)
                   else if rtsoff = 0xFFFFFFFF \<or> dboff = 0xFFFFFFFF then (XHCI_HC_NOT_DECODING, info)
                   else
                     let runtime = rtsoff AND NOT 0x1F;
                         doorbell = dboff AND NOT 0x3
                     in
                     if runtime < XHCI_CAP_REGISTERS_BYTES \<or>
                        \<not> xhciWindowHolds mappedBytes runtime XHCI_RT_REGISTERS_BYTES then
                       (XHCI_HC_BAD_RTSOFF, info)
                     else if doorbell < XHCI_CAP_REGISTERS_BYTES \<or>
                             \<not> xhciWindowHolds mappedBytes doorbell ((maxSlots + 1) * XHCI_DB_STRIDE) then
                       (XHCI_HC_BAD_DBOFF, info)
                     else
                       (XHCI_HC_OK,
                        Some \<lparr>CapLength = capLength, HciVersion = hciVersion,
                              OperationalOffset = operational, PortscOffset = portsc,
                              RuntimeOffset = runtime, DoorbellOffset = doorbell,
                              MaxPorts = maxPorts, MaxSlots = maxSlots, MaxIntrs = maxIntrs,
                              HcScratchpadCount = XHCI_HCSPARAMS2_MAXSCRATCHPAD hcsparams2,
                              IstFrames = ist_frames hcsparams2,
                              HcContextSize = XHCI_CONTEXT_SIZE_FROM_CSZ hccparams1,
                              Ac64 = XHCI_HCCPARAMS1_AC64 hccparams1,
                              Ppc = XHCI_HCCPARAMS1_PPC hccparams1,
                              Cfc = XHCI_HCCPARAMS1_CFC hccparams1, XecpDwords = xecpDwords,
                              Fsc = fsc, Lec = lec\<rparr>)))"

definition XhciHcInfoEqual :: "xhci_hc_info option \<Rightarrow> xhci_hc_info option \<Rightarrow> bool" where
  "XhciHcInfoEqual a b = (case (a, b) of (Some a, Some b) \<Rightarrow> a = b | _ \<Rightarrow> False)"

end
