(* ===== verification/Xhci_Geometry_Props.thy ===== *)
theory Xhci_Geometry_Props
  imports Xhci_Geometry
begin

text \<open>
  An accepted controller has all the registers the driver touches inside the mapped window.
\<close>

lemma and_le_nat: "unat ((v :: ulong) AND k) \<le> unat k"
  using word_and_le1 [of v k] by (simp add: word_le_nat_alt)

lemma window_holds_nat:
  "xhciWindowHolds mapped offset need \<longleftrightarrow> unat offset + unat need \<le> unat mapped"
proof (cases "mapped < need")
  case False
  then have "unat (mapped - need) = unat mapped - unat need"
    using unat_sub_no_wrap [of need mapped] by (simp add: word_less_nat_alt)
  then show ?thesis using False by (auto simp: xhciWindowHolds_def word_le_nat_alt word_less_nat_alt)
qed (auto simp: xhciWindowHolds_def word_less_nat_alt)

lemma port_room:
  assumes "\<not> available < 0x400" and "\<not> (available - 0x400) div 0x10 < ports"
  shows "0x400 + 16 * unat ports \<le> unat (available :: ulong)"
proof -
  have sub: "unat (available - 0x400) = unat available - 0x400"
    using assms(1) unat_sub_no_wrap [of "0x400" available] by (simp add: word_less_nat_alt)
  have "unat ports \<le> unat ((available - 0x400) div 0x10)" using assms(2) by (simp add: word_less_nat_alt)
  also have "\<dots> = (unat available - 0x400) div 16" by (simp add: unat_div sub)
  finally have "16 * unat ports \<le> unat available - 0x400" by linarith
  then show ?thesis using assms(1) by (simp add: word_less_nat_alt)
qed

lemma doorbell_bytes: "unat slots \<le> 255 \<Longrightarrow> unat ((slots + 1) * 4 :: ulong) = (unat slots + 1) * 4"
  using unat_add_no_wrap [of slots 1] unat_mult_no_wrap [of "slots + 1" 4] by simp

lemma low_bits_clear: "unat ((w :: ulong) AND NOT 0x1F) mod 32 = 0" "unat ((w :: ulong) AND NOT 0x3) mod 4 = 0"
proof -
  have "(w AND NOT 0x1F) AND mask 5 = 0" by (simp add: mask_eq_exp_minus_1 and.assoc)
  then have "unat ((w AND NOT 0x1F) AND mask 5) = 0" by (simp only: unat_0)
  then show "unat (w AND NOT 0x1F) mod 32 = 0" unfolding unat_and_mask by simp
  have "(w AND NOT 0x3) AND mask 2 = 0" by (simp add: mask_eq_exp_minus_1 and.assoc)
  then have "unat ((w AND NOT 0x3) AND mask 2) = 0" by (simp only: unat_0)
  then show "unat (w AND NOT 0x3) mod 4 = 0" unfolding unat_and_mask by simp
qed

lemma check_ok:
  assumes "XhciCheckCapDword0 d mapped floor = Inr (len, ver)"
  shows "len = XHCI_CAPLENGTH_OF d" "0x1C \<le> unat len" "unat len < 255"
    "unat ver < 0xFFFF" "(if floor = XHCI_HCIVERSION_0_96 then 0x96 else 0x100) \<le> unat ver"
proof -
  have le: "unat (XHCI_CAPLENGTH_OF d) \<le> 255" "unat (XHCI_HCIVERSION_OF d) \<le> 0xFFFF"
    unfolding XHCI_CAPLENGTH_OF_def XHCI_HCIVERSION_OF_def
    using and_le_nat [of d 255] and_le_nat [of "drop_bit 16 d" "0xFFFF"] by simp_all
  have ne: "unat (x :: ulong) \<noteq> unat y \<longleftrightarrow> x \<noteq> y" for x y by (simp add: unat_eq_iff)
  have v: "len = XHCI_CAPLENGTH_OF d" "ver = XHCI_HCIVERSION_OF d" "\<not> len < 0x1C" "len \<noteq> 0xFF" "ver \<noteq> 0xFFFF"
    "\<not> ver < (if floor = XHCI_HCIVERSION_0_96 then XHCI_HCIVERSION_0_96 else XHCI_HCIVERSION_1_0)"
    using assms by (auto simp: XhciCheckCapDword0_def Let_def split: if_splits)
  show "len = XHCI_CAPLENGTH_OF d" "0x1C \<le> unat len" using v by (simp_all add: word_less_nat_alt)
  show "unat len < 255" using le v(1,4) ne [of len "0xFF"] by simp
  show "unat ver < 0xFFFF" using le v(2,5) ne [of ver "0xFFFF"] by simp
  show "(if floor = XHCI_HCIVERSION_0_96 then 0x96 else 0x100) \<le> unat ver"
    using v(6) by (auto simp: word_less_nat_alt split: if_splits)
qed

text \<open>
  C13: when the derivation accepts a controller, every register the driver will touch lies inside
  the mapped window, with no address that wraps: the operational block, the PORTSC register of
  every port, interrupter 0 with its runtime registers, and the doorbell of every slot; no block
  overlaps the first seven capability registers, the alignments hold, and the counts are nonzero
  and within their fields.
\<close>

theorem register_blocks_in_window:
  assumes "XhciDeriveHcInfo capDword0 hcsparams1 hcsparams2 hccparams1 hccparams2 dboff rtsoff
      mappedBytes floor info0 = (XHCI_HC_OK, Some info)"
  shows "0x1C \<le> unat (OperationalOffset info) \<and> unat (OperationalOffset info) + 0x3C \<le> unat mappedBytes \<and>
    (\<forall>port\<in>{1..unat (MaxPorts info)}.
       unat (PortscOffset info) + (port - 1) * 16 + 16 \<le> unat mappedBytes) \<and>
    0x1C \<le> unat (RuntimeOffset info) \<and> unat (RuntimeOffset info) mod 32 = 0 \<and>
    unat (RuntimeOffset info) + 0x40 \<le> unat mappedBytes \<and>
    0x1C \<le> unat (DoorbellOffset info) \<and> unat (DoorbellOffset info) mod 4 = 0 \<and>
    (\<forall>slot\<le>unat (MaxSlots info). unat (DoorbellOffset info) + slot * 4 + 4 \<le> unat mappedBytes) \<and>
    unat (PortscOffset info) = unat (OperationalOffset info) + 0x400 \<and>
    MaxPorts info \<noteq> 0 \<and> unat (MaxPorts info) \<le> 255 \<and> MaxSlots info \<noteq> 0 \<and> unat (MaxSlots info) \<le> 255 \<and>
    MaxIntrs info \<noteq> 0 \<and> HcContextSize info \<in> {32, 64}"
proof -
  obtain len ver where chk: "XhciCheckCapDword0 capDword0 mappedBytes floor = Inr (len, ver)"
    using assms by (cases "XhciCheckCapDword0 capDword0 mappedBytes floor")
      (auto simp: XhciDeriveHcInfo_def XhciCheckCapDword0_def Let_def split: if_splits)
  note c = check_ok [OF chk]
  let ?ports = "XHCI_HCSPARAMS1_MAXPORTS hcsparams1" and ?slots = "XHCI_HCSPARAMS1_MAXSLOTS hcsparams1"
  let ?rt = "rtsoff AND NOT 0x1F" and ?db = "dboff AND NOT 0x3"
  note d = assms [unfolded XhciDeriveHcInfo_def chk sum.case prod.case Let_def]
  have g: "?ports \<noteq> 0" "?slots \<noteq> 0" "XHCI_HCSPARAMS1_MAXINTRS hcsparams1 \<noteq> 0"
    "xhciWindowHolds mappedBytes len 0x3C" "\<not> mappedBytes - len < 0x400"
    "\<not> (mappedBytes - len - 0x400) div 0x10 < ?ports"
    "\<not> ?rt < 0x1C" "xhciWindowHolds mappedBytes ?rt 0x40" "\<not> ?db < 0x1C"
    "xhciWindowHolds mappedBytes ?db ((?slots + 1) * 4)"
    and f: "OperationalOffset info = len" "PortscOffset info = len + 0x400" "RuntimeOffset info = ?rt"
      "DoorbellOffset info = ?db" "MaxPorts info = ?ports" "MaxSlots info = ?slots"
      "MaxIntrs info = XHCI_HCSPARAMS1_MAXINTRS hcsparams1"
      "HcContextSize info = XHCI_CONTEXT_SIZE_FROM_CSZ hccparams1"
    using d by (simp_all split: if_splits) auto
  have le: "unat ?ports \<le> 255" "unat ?slots \<le> 255"
    unfolding XHCI_HCSPARAMS1_MAXPORTS_def XHCI_HCSPARAMS1_MAXSLOTS_def
    using and_le_nat [of "drop_bit 24 hcsparams1" 255] and_le_nat [of hcsparams1 255] by simp_all
  have op: "unat len + 0x3C \<le> unat mappedBytes" using g(4) unfolding window_holds_nat by simp
  have avail: "unat (mappedBytes - len) = unat mappedBytes - unat len" using op by (intro unat_sub_no_wrap) simp
  have psc: "unat (len + 0x400) = unat len + 0x400" using c(3) by (simp add: unat_add_no_wrap)
  have ports: "unat len + 0x400 + 16 * unat ?ports \<le> unat mappedBytes"
    using port_room [OF g(5,6)] avail op by simp
  have rt: "unat ?rt + 0x40 \<le> unat mappedBytes" using g(8) unfolding window_holds_nat by simp
  have db: "unat ?db + (unat ?slots + 1) * 4 \<le> unat mappedBytes"
    using g(10) unfolding window_holds_nat doorbell_bytes [OF le(2)] .
  have port: "unat len + 0x400 + (p - 1) * 16 + 16 \<le> unat mappedBytes" if "p \<in> {1..unat ?ports}" for p
  proof -
    have "(p - 1) * 16 + 16 \<le> 16 * unat ?ports" using that by auto
    then show ?thesis using ports by linarith
  qed
  have slot: "unat ?db + s * 4 + 4 \<le> unat mappedBytes" if "s \<le> unat ?slots" for s
  proof -
    have "s * 4 + 4 \<le> (unat ?slots + 1) * 4" using that by simp
    then show ?thesis using db by linarith
  qed
  have low: "0x1C \<le> unat ?rt" "0x1C \<le> unat ?db" using g(7,9) by (simp_all add: word_less_nat_alt)
  have cs: "HcContextSize info \<in> {32, 64}" unfolding f XHCI_CONTEXT_SIZE_FROM_CSZ_def by simp
  show ?thesis
    unfolding f psc using c(2) op port slot low low_bits_clear rt le g(1-3) cs [unfolded f] by blast
qed

definition sample_info0 :: xhci_hc_info where
  "sample_info0 =
     \<lparr>CapLength = 0, HciVersion = 0, OperationalOffset = 0, PortscOffset = 0, RuntimeOffset = 0,
      DoorbellOffset = 0, MaxPorts = 0, MaxSlots = 0, MaxIntrs = 0, HcScratchpadCount = 0,
      IstFrames = 0, HcContextSize = 0, Ac64 = 0, Ppc = 0, Cfc = 0, XecpDwords = 0, Fsc = 0, Lec = 0\<rparr>"

text \<open>The registers of an emulated controller with eight ports and 64 slots in a 16 KiB window.\<close>

theorem register_blocks_in_window_witness:
  "\<exists>info. XhciDeriveHcInfo 0x01000040 0x08001040 0x0000000F 0x00080001 0 0x2000 0x1000 0x4000 0x100
      (Some sample_info0) = (XHCI_HC_OK, Some info) \<and>
    MaxPorts info = 8 \<and> unat (PortscOffset info) + 7 * 16 + 16 \<le> unat (0x4000 :: ulong)"
proof -
  let ?r = "XhciDeriveHcInfo 0x01000040 0x08001040 0x0000000F 0x00080001 0 0x2000 0x1000 0x4000 0x100
      (Some sample_info0)"
  have "fst ?r = XHCI_HC_OK \<and> map_option MaxPorts (snd ?r) = Some 8" by code_simp
  then obtain info where r: "?r = (XHCI_HC_OK, Some info)" and p: "MaxPorts info = 8" by (cases ?r) auto
  have "\<forall>port\<in>{1..unat (MaxPorts info)}. unat (PortscOffset info) + (port - 1) * 16 + 16 \<le> unat (0x4000 :: ulong)"
    using register_blocks_in_window [OF r] by blast
  from bspec [OF this, of 8] have "unat (PortscOffset info) + 7 * 16 + 16 \<le> unat (0x4000 :: ulong)" using p by simp
  then show ?thesis using r p by blast
qed

end
