(* ===== verification/Xhci_Topo.thy ===== *)
theory Xhci_Topo
  imports Xhci_Desc
begin

text \<open>
  The hub topology graph (\<open>xhci_topo.c\<close>, \<open>xhci_topo.h\<close>): a table of sixteen hub nodes, each with
  its parent, its tier and its route string, built from attach calls and from the hub-class
  traffic the driver watches.

  A pointer into the table is an index; \<open>NULL\<close> is \<open>None\<close>. The 0/1 fields \<open>Pending\<close>, \<open>TooDeep\<close>,
  \<open>Armed\<close>, \<open>Disconnected\<close>, \<open>Hub\<close> and \<open>MultiTt\<close> are \<open>bool\<close>. The counters are 32-bit words and wrap.
\<close>

section \<open>Structures\<close>

abbreviation (input) XHCI_TOPO_NODES :: nat where "XHCI_TOPO_NODES \<equiv> 16"
abbreviation (input) XHCI_TOPO_MAX_TIER :: ulong where "XHCI_TOPO_MAX_TIER \<equiv> 5"
abbreviation (input) XHCI_TOPO_ROUTE_MAX_PORT :: ulong where "XHCI_TOPO_ROUTE_MAX_PORT \<equiv> 15"
abbreviation (input) XHCI_TOPO_CONNECT_PORTS :: ulong where "XHCI_TOPO_CONNECT_PORTS \<equiv> 31"
abbreviation (input) XHCI_TOPO_F_USED :: ulong where "XHCI_TOPO_F_USED \<equiv> 0x00000001"
abbreviation (input) XHCI_TOPO_F_HUB :: ulong where "XHCI_TOPO_F_HUB \<equiv> 0x00000002"
abbreviation (input) XHCI_TOPO_F_DESCRIPTOR :: ulong where "XHCI_TOPO_F_DESCRIPTOR \<equiv> 0x00000004"
abbreviation (input) XHCI_TOPO_F_DESC_TYPE_OK :: ulong where "XHCI_TOPO_F_DESC_TYPE_OK \<equiv> 0x00000008"
abbreviation (input) XHCI_TOPO_F_MTT :: ulong where "XHCI_TOPO_F_MTT \<equiv> 0x00000010"
abbreviation (input) XHCI_TOPO_F_ALT_SEEN :: ulong where "XHCI_TOPO_F_ALT_SEEN \<equiv> 0x00000020"
abbreviation (input) XHCI_TOPO_F_TOO_DEEP :: ulong where "XHCI_TOPO_F_TOO_DEEP \<equiv> 0x00000040"
abbreviation (input) XHCI_TOPO_RT_HUB_DESC :: uchar where "XHCI_TOPO_RT_HUB_DESC \<equiv> 0xA0"
abbreviation (input) XHCI_TOPO_RT_PORT_OUT :: uchar where "XHCI_TOPO_RT_PORT_OUT \<equiv> 0x23"
abbreviation (input) XHCI_TOPO_RT_PORT_IN :: uchar where "XHCI_TOPO_RT_PORT_IN \<equiv> 0xA3"
abbreviation (input) XHCI_TOPO_RT_SET_INTERFACE :: uchar where "XHCI_TOPO_RT_SET_INTERFACE \<equiv> 0x01"
abbreviation (input) XHCI_TOPO_REQ_GET_STATUS :: uchar where "XHCI_TOPO_REQ_GET_STATUS \<equiv> 0x00"
abbreviation (input) XHCI_TOPO_REQ_CLEAR_FEATURE :: uchar where "XHCI_TOPO_REQ_CLEAR_FEATURE \<equiv> 0x01"
abbreviation (input) XHCI_TOPO_REQ_SET_FEATURE :: uchar where "XHCI_TOPO_REQ_SET_FEATURE \<equiv> 0x03"
abbreviation (input) XHCI_TOPO_REQ_GET_DESCRIPTOR :: uchar where "XHCI_TOPO_REQ_GET_DESCRIPTOR \<equiv> 0x06"
abbreviation (input) XHCI_TOPO_SEL_PORT_RESET :: ulong where "XHCI_TOPO_SEL_PORT_RESET \<equiv> 4"
abbreviation (input) XHCI_TOPO_SEL_PORT_POWER :: ulong where "XHCI_TOPO_SEL_PORT_POWER \<equiv> 8"
abbreviation (input) XHCI_TOPO_DESC_TYPE_HUB :: ulong where "XHCI_TOPO_DESC_TYPE_HUB \<equiv> 0x29"
abbreviation (input) XHCI_TOPO_HUBD_MIN :: ulong where "XHCI_TOPO_HUBD_MIN \<equiv> 5"
abbreviation (input) XHCI_TOPO_PORTSTAT_MIN :: ulong where "XHCI_TOPO_PORTSTAT_MIN \<equiv> 2"
abbreviation (input) SPEED_UNKNOWN :: ulong where "SPEED_UNKNOWN \<equiv> 0"
abbreviation (input) SPEED_HIGH :: ulong where "SPEED_HIGH \<equiv> 3"
abbreviation (input) HUB_PORT_CONNECTION :: ulong where "HUB_PORT_CONNECTION \<equiv> 0x0001"
abbreviation (input) HUB_PORT_ENABLE :: ulong where "HUB_PORT_ENABLE \<equiv> 0x0002"

datatype topo_reply = XHCI_TOPO_REPLY_NONE | XHCI_TOPO_REPLY_HUB_DESC | XHCI_TOPO_REPLY_PORT_STATUS

record xhci_topo_node =
  NodeFlags :: ulong
  NodeAddress :: ulong
  NodeSpeed :: ulong
  NodeTier :: ulong
  NodeRoute :: ulong
  NodeRootPort :: ulong
  NodeGeneration :: ulong
  ParentAddress :: ulong
  ParentPort :: ulong
  NodePortCount :: ulong
  Characteristics :: ulong
  DescriptorType :: ulong
  Connected :: ulong
  NodeDisconnects :: ulong

record xhci_topo_child =
  ChHubAddress :: ulong
  ChHubPort :: ulong
  ChRootPort :: ulong
  ChTier :: ulong
  ChRoute :: ulong
  TooDeep :: bool

record xhci_topo_tt =
  TtHubAddress :: ulong
  TtHubPort :: ulong
  TtMulti :: bool

record xhci_topo_gone =
  Disconnected :: bool
  GoneHubAddress :: ulong
  GoneHubPort :: ulong

record xhci_topo_hubmark =
  MarkHub :: bool
  NumberOfPorts :: ulong
  MarkMultiTt :: bool
  TtThinkTime :: ulong

record xhci_topo_snoop =
  SnReply :: topo_reply
  SnHub :: ulong
  SnPort :: ulong
  SnArmed :: bool

record xhci_topology =
  TopoCount :: ulong
  TopoDropped :: ulong
  Pending :: bool
  PendingHub :: ulong
  PendingPort :: ulong
  Promotions :: ulong
  Resets :: ulong
  ResetsUnknownHub :: ulong
  ResetsOverwritten :: ulong
  Claims :: ulong
  ClaimsUnarmed :: ulong
  ClaimsUnusable :: ulong
  ClaimsTooDeep :: ulong
  PendingDropped :: ulong
  ResetsSuppressed :: ulong
  Migrations :: ulong
  MigrationsStale :: ulong
  PowerSweeps :: ulong
  Descriptors :: ulong
  DescriptorsBad :: ulong
  DescriptorsNoPorts :: ulong
  PortStatuses :: ulong
  PortStatusesWide :: ulong
  TopoDisconnects :: ulong
  Reconnects :: ulong
  AltSettings :: ulong
  AltForgotten :: ulong
  Prunes :: ulong
  MaxTier :: ulong
  Node :: "xhci_topo_node list"

section \<open>The table\<close>

abbreviation node_used :: "xhci_topo_node \<Rightarrow> bool" where
  "node_used n \<equiv> NodeFlags n AND XHCI_TOPO_F_USED \<noteq> 0"

definition node_update :: "nat \<Rightarrow> (xhci_topo_node \<Rightarrow> xhci_topo_node) \<Rightarrow> xhci_topology \<Rightarrow> xhci_topology" where
  "node_update i f topo = topo\<lparr>Node := (Node topo)[i := f (Node topo ! i)]\<rparr>"

definition xhciTopoNodeFor :: "xhci_topology \<Rightarrow> ulong \<Rightarrow> nat option" where
  "xhciTopoNodeFor topo address =
     (if address = 0 then None
      else find (\<lambda>i. node_used (Node topo ! i) \<and> NodeAddress (Node topo ! i) = address) [0..<XHCI_TOPO_NODES])"

definition xhciTopoNodeClear :: "xhci_topo_node \<Rightarrow> xhci_topo_node" where
  "xhciTopoNodeClear node =
     \<lparr>NodeFlags = 0, NodeAddress = 0, NodeSpeed = SPEED_UNKNOWN, NodeTier = 0, NodeRoute = 0,
      NodeRootPort = 0, NodeGeneration = 0, ParentAddress = 0, ParentPort = 0, NodePortCount = 0,
      Characteristics = 0, DescriptorType = 0, Connected = 0, NodeDisconnects = 0\<rparr>"

definition XhciTopoReset :: "xhci_topology option \<Rightarrow> xhci_topology option" where
  "XhciTopoReset topo =
     map_option (\<lambda>t.
       \<lparr>TopoCount = 0, TopoDropped = 0, Pending = False, PendingHub = 0, PendingPort = 0, Promotions = 0,
        Resets = 0, ResetsUnknownHub = 0, ResetsOverwritten = 0, Claims = 0, ClaimsUnarmed = 0,
        ClaimsUnusable = 0, ClaimsTooDeep = 0, PendingDropped = 0, ResetsSuppressed = 0, Migrations = 0,
        MigrationsStale = 0, PowerSweeps = 0, Descriptors = 0, DescriptorsBad = 0, DescriptorsNoPorts = 0,
        PortStatuses = 0, PortStatusesWide = 0, TopoDisconnects = 0, Reconnects = 0, AltSettings = 0,
        AltForgotten = 0, Prunes = 0, MaxTier = 0, Node = map xhciTopoNodeClear (Node t)\<rparr>) topo"

definition xhciTopoNodeAdd :: "xhci_topology \<Rightarrow> ulong \<Rightarrow> nat option \<times> xhci_topology" where
  "xhciTopoNodeAdd topo address =
     (if address = 0 then (None, topo)
      else
        (case xhciTopoNodeFor topo address of
           Some i \<Rightarrow> (Some i, topo)
         | None \<Rightarrow>
             (case find (\<lambda>i. \<not> node_used (Node topo ! i)) [0..<XHCI_TOPO_NODES] of
                Some i \<Rightarrow>
                  (Some i,
                   (node_update i (\<lambda>n. (xhciTopoNodeClear n)\<lparr>NodeFlags := XHCI_TOPO_F_USED, NodeAddress := address\<rparr>)
                      topo)\<lparr>TopoCount := TopoCount topo + 1\<rparr>)
              | None \<Rightarrow> (None, topo\<lparr>TopoDropped := TopoDropped topo + 1\<rparr>))))"

definition xhciTopoNodeRemove :: "xhci_topology \<Rightarrow> nat \<Rightarrow> xhci_topology" where
  "xhciTopoNodeRemove topo i =
     (let address = NodeAddress (Node topo ! i);
          topo = node_update i xhciTopoNodeClear topo;
          topo = (if TopoCount topo \<noteq> 0 then topo\<lparr>TopoCount := TopoCount topo - 1\<rparr> else topo);
          topo = topo\<lparr>Prunes := Prunes topo + 1\<rparr>
      in if Pending topo \<and> PendingHub topo = address
         then topo\<lparr>Pending := False, PendingHub := 0, PendingPort := 0\<rparr> else topo)"

definition XhciTopoFind :: "xhci_topology option \<Rightarrow> ulong \<Rightarrow> nat option" where
  "XhciTopoFind topo address = (case topo of None \<Rightarrow> None | Some t \<Rightarrow> xhciTopoNodeFor t address)"

text \<open>The position of a child, \<open>None\<close> when the answer is 0.\<close>

definition XhciTopoChildOf :: "xhci_topology option \<Rightarrow> ulong \<Rightarrow> ulong \<Rightarrow> xhci_topo_child option" where
  "XhciTopoChildOf topo hubAddress hubPort =
     (case topo of
        None \<Rightarrow> None
      | Some t \<Rightarrow>
          if hubPort = 0 then None
          else
            (case XhciTopoFind topo hubAddress of
               None \<Rightarrow> None
             | Some i \<Rightarrow>
                 let node = Node t ! i in
                 if NodeRootPort node = 0 then None
                 else
                   let tier = NodeTier node + 1;
                       port = (if hubPort > XHCI_TOPO_ROUTE_MAX_PORT then XHCI_TOPO_ROUTE_MAX_PORT else hubPort)
                   in
                   if tier > XHCI_TOPO_MAX_TIER then
                     Some \<lparr>ChHubAddress = hubAddress, ChHubPort = hubPort, ChRootPort = NodeRootPort node,
                           ChTier = tier, ChRoute = NodeRoute node, TooDeep = True\<rparr>
                   else
                     Some \<lparr>ChHubAddress = hubAddress, ChHubPort = hubPort, ChRootPort = NodeRootPort node,
                           ChTier = tier, ChRoute = NodeRoute node OR push_bit (unat (4 * NodeTier node)) port,
                           TooDeep = False\<rparr>))"

definition XhciTopoThinkTime :: "xhci_topo_node option \<Rightarrow> ulong" where
  "XhciTopoThinkTime node =
     (case node of
        None \<Rightarrow> 0
      | Some n \<Rightarrow>
          if NodeFlags n AND XHCI_TOPO_F_DESCRIPTOR = 0 then 0 else drop_bit 5 (Characteristics n) AND 0x3)"

definition XhciTopoHubMark ::
    "xhci_topo_node option \<Rightarrow> ulong \<Rightarrow> xhci_topo_hubmark option \<Rightarrow> bool \<times> xhci_topo_hubmark option" where
  "XhciTopoHubMark node speedClass out =
     (case out of
        None \<Rightarrow> (False, out)
      | Some _ \<Rightarrow>
          let zero = \<lparr>MarkHub = False, NumberOfPorts = 0, MarkMultiTt = False, TtThinkTime = 0\<rparr> in
          (case node of
             None \<Rightarrow> (False, Some zero)
           | Some n \<Rightarrow>
               if NodeFlags n AND XHCI_TOPO_F_HUB = 0 then (False, Some zero)
               else if NodeFlags n AND XHCI_TOPO_F_DESCRIPTOR = 0 then (False, Some zero)
               else if NodePortCount n = 0 \<or> NodePortCount n > 0xFF then (False, Some zero)
               else
                 let m = zero\<lparr>MarkHub := True, NumberOfPorts := NodePortCount n\<rparr>;
                     m = (if speedClass = SPEED_HIGH
                          then m\<lparr>TtThinkTime := XhciTopoThinkTime (Some n),
                                 MarkMultiTt := (NodeFlags n AND XHCI_TOPO_F_MTT \<noteq> 0)\<rparr>
                          else m)
                 in (True, Some m)))"

text \<open>The walk to the transaction translator, with the number of steps left.\<close>

primrec tt_loop :: "nat \<Rightarrow> xhci_topology \<Rightarrow> nat option \<Rightarrow> ulong \<Rightarrow> xhci_topo_tt option" where
  "tt_loop 0 topo node port = None"
| "tt_loop (Suc left) topo node port =
     (case node of
        None \<Rightarrow> None
      | Some i \<Rightarrow>
          let n = Node topo ! i in
          if NodeSpeed n = SPEED_HIGH then
            Some \<lparr>TtHubAddress = NodeAddress n, TtHubPort = port, TtMulti = (NodeFlags n AND XHCI_TOPO_F_MTT \<noteq> 0)\<rparr>
          else if ParentAddress n = 0 then None
          else tt_loop left topo (xhciTopoNodeFor topo (ParentAddress n)) (ParentPort n))"

definition XhciTopoTtFor ::
    "xhci_topology option \<Rightarrow> ulong \<Rightarrow> ulong \<Rightarrow> xhci_topo_tt option \<Rightarrow> bool \<times> xhci_topo_tt option" where
  "XhciTopoTtFor topo hubAddress hubPort out =
     (case out of
        None \<Rightarrow> (False, out)
      | Some _ \<Rightarrow>
          let zero = \<lparr>TtHubAddress = 0, TtHubPort = 0, TtMulti = False\<rparr> in
          (case topo of
             None \<Rightarrow> (False, Some zero)
           | Some t \<Rightarrow>
               if hubAddress = 0 \<or> hubPort = 0 then (False, Some zero)
               else
                 (case tt_loop XHCI_TOPO_NODES t (XhciTopoFind topo hubAddress) hubPort of
                    Some tt \<Rightarrow> (True, Some tt)
                  | None \<Rightarrow> (False, Some zero))))"

section \<open>Attaching and pruning\<close>

definition xhciTopoNotePosition :: "xhci_topology \<Rightarrow> nat \<Rightarrow> xhci_topology" where
  "xhciTopoNotePosition topo i =
     (let tier = NodeTier (Node topo ! i);
          topo = (if tier > MaxTier topo then topo\<lparr>MaxTier := tier\<rparr> else topo)
      in if tier > XHCI_TOPO_MAX_TIER
         then node_update i (\<lambda>n. n\<lparr>NodeFlags := NodeFlags n OR XHCI_TOPO_F_TOO_DEEP\<rparr>) topo
         else node_update i (\<lambda>n. n\<lparr>NodeFlags := NodeFlags n AND NOT XHCI_TOPO_F_TOO_DEEP\<rparr>) topo)"

definition XhciTopoAttachRoot ::
    "xhci_topology option \<Rightarrow> ulong \<Rightarrow> ulong \<Rightarrow> ulong \<Rightarrow> ulong \<Rightarrow> bool \<times> xhci_topology option" where
  "XhciTopoAttachRoot topo address rootPort generation speed =
     (case topo of
        None \<Rightarrow> (False, topo)
      | Some t \<Rightarrow>
          if address = 0 \<or> rootPort = 0 then (False, topo)
          else
            (case xhciTopoNodeAdd t address of
               (None, t) \<Rightarrow> (False, Some t)
             | (Some i, t) \<Rightarrow>
                 let t = node_update i (\<lambda>n. n\<lparr>NodeTier := 0, NodeRoute := 0, NodeRootPort := rootPort,
                           NodeGeneration := generation, ParentAddress := 0, ParentPort := rootPort,
                           NodeSpeed := speed\<rparr>) t
                 in (True, Some (xhciTopoNotePosition t i))))"

definition XhciTopoAttachChild ::
    "xhci_topology option \<Rightarrow> ulong \<Rightarrow> xhci_topo_child option \<Rightarrow> ulong \<Rightarrow> bool \<times> xhci_topology option" where
  "XhciTopoAttachChild topo address position speed =
     (case (topo, position) of
        (Some t, Some at) \<Rightarrow>
          if address = 0 \<or> TooDeep at then (False, topo)
          else if ChHubAddress at = address then (False, topo)
          else
            (case XhciTopoFind topo (ChHubAddress at) of
               None \<Rightarrow> (False, topo)
             | Some p \<Rightarrow>
                 (case xhciTopoNodeAdd t address of
                    (None, t) \<Rightarrow> (False, Some t)
                  | (Some i, t) \<Rightarrow>
                      let t = node_update i (\<lambda>n. n\<lparr>NodeTier := ChTier at, NodeRoute := ChRoute at,
                                NodeRootPort := ChRootPort at, NodeGeneration := NodeGeneration (Node t ! p),
                                ParentAddress := ChHubAddress at, ParentPort := ChHubPort at,
                                NodeSpeed := speed\<rparr>) t
                      in (True, Some (xhciTopoNotePosition t i))))
      | _ \<Rightarrow> (False, topo))"

definition sweep_step :: "xhci_topology \<times> nat \<Rightarrow> nat \<Rightarrow> xhci_topology \<times> nat" where
  "sweep_step s i =
     (case s of (topo, removed) \<Rightarrow>
        if \<not> node_used (Node topo ! i) then s
        else if ParentAddress (Node topo ! i) = 0 then s
        else if xhciTopoNodeFor topo (ParentAddress (Node topo ! i)) \<noteq> None then s
        else (xhciTopoNodeRemove topo i, removed + 1))"

primrec sweep_loop :: "nat \<Rightarrow> xhci_topology \<Rightarrow> xhci_topology" where
  "sweep_loop 0 topo = topo"
| "sweep_loop (Suc left) topo =
     (case foldl sweep_step (topo, 0) [0..<XHCI_TOPO_NODES] of
        (topo, removed) \<Rightarrow> if removed = 0 then topo else sweep_loop left topo)"

definition xhciTopoSweepOrphans :: "xhci_topology \<Rightarrow> xhci_topology" where
  "xhciTopoSweepOrphans topo = sweep_loop XHCI_TOPO_NODES topo"

definition xhciTopoPruneFrom :: "xhci_topology \<Rightarrow> ulong \<Rightarrow> xhci_topology" where
  "xhciTopoPruneFrom topo address =
     (case xhciTopoNodeFor topo address of
        None \<Rightarrow> topo
      | Some i \<Rightarrow> xhciTopoSweepOrphans (xhciTopoNodeRemove topo i))"

definition xhciTopoPruneChildAt :: "xhci_topology \<Rightarrow> ulong \<Rightarrow> ulong \<Rightarrow> xhci_topology" where
  "xhciTopoPruneChildAt topo hubAddress hubPort =
     (case find (\<lambda>i. node_used (Node topo ! i) \<and> \<not> (ParentAddress (Node topo ! i) \<noteq> hubAddress \<or>
                       ParentPort (Node topo ! i) \<noteq> hubPort)) [0..<XHCI_TOPO_NODES] of
        None \<Rightarrow> topo
      | Some i \<Rightarrow> xhciTopoPruneFrom topo (NodeAddress (Node topo ! i)))"

definition XhciTopoDetach :: "xhci_topology option \<Rightarrow> ulong \<Rightarrow> xhci_topology option" where
  "XhciTopoDetach topo address =
     (case topo of
        None \<Rightarrow> topo
      | Some t \<Rightarrow> if address = 0 then topo else Some (xhciTopoPruneFrom t address))"

definition XhciTopoMigrate :: "xhci_topology option \<Rightarrow> ulong \<Rightarrow> ulong \<Rightarrow> xhci_topology option" where
  "XhciTopoMigrate topo oldAddress newAddress =
     (case topo of
        None \<Rightarrow> topo
      | Some t \<Rightarrow>
          if newAddress = 0 \<or> oldAddress = newAddress then topo
          else
            let t = (if xhciTopoNodeFor t newAddress \<noteq> None
                     then xhciTopoPruneFrom (t\<lparr>MigrationsStale := MigrationsStale t + 1\<rparr>) newAddress else t) in
            (case xhciTopoNodeFor t oldAddress of
               None \<Rightarrow> Some t
             | Some i \<Rightarrow>
                 let t = node_update i (\<lambda>n. n\<lparr>NodeAddress := newAddress\<rparr>) t;
                     t = t\<lparr>Migrations := Migrations t + 1\<rparr>;
                     t = (if Pending t \<and> PendingHub t = oldAddress then t\<lparr>PendingHub := newAddress\<rparr> else t)
                 in Some (xhciTopoSweepOrphans t)))"

section \<open>The claim\<close>

definition drop_claim :: "xhci_topology \<Rightarrow> xhci_topology" where
  "drop_claim topo = topo\<lparr>Pending := False, PendingHub := 0, PendingPort := 0\<rparr>"

definition XhciTopoClaimChild ::
    "xhci_topology option \<Rightarrow> xhci_topo_child option \<Rightarrow> bool \<times> xhci_topology option \<times> xhci_topo_child option" where
  "XhciTopoClaimChild topo out =
     (case (topo, out) of
        (Some t, Some _) \<Rightarrow>
          if \<not> Pending t then (False, Some (t\<lparr>ClaimsUnarmed := ClaimsUnarmed t + 1\<rparr>), out)
          else
            let hub = PendingHub t;
                port = PendingPort t;
                t = drop_claim t
            in
            (case XhciTopoChildOf (Some t) hub port of
               None \<Rightarrow> (False, Some (t\<lparr>ClaimsUnusable := ClaimsUnusable t + 1\<rparr>), out)
             | Some child \<Rightarrow>
                 let t = t\<lparr>Claims := Claims t + 1\<rparr>;
                     t = (if TooDeep child then t\<lparr>ClaimsTooDeep := ClaimsTooDeep t + 1\<rparr> else t)
                 in (True, Some t, Some child))
      | _ \<Rightarrow> (False, topo, out))"

definition XhciTopoDropPending :: "xhci_topology option \<Rightarrow> xhci_topology option" where
  "XhciTopoDropPending topo =
     (case topo of
        None \<Rightarrow> topo
      | Some t \<Rightarrow>
          if \<not> Pending t then topo
          else let t = drop_claim t in Some (t\<lparr>PendingDropped := PendingDropped t + 1\<rparr>))"

definition XhciTopoSuppressClaim :: "xhci_topology option \<Rightarrow> xhci_topology option" where
  "XhciTopoSuppressClaim topo =
     (case topo of
        None \<Rightarrow> topo
      | Some t \<Rightarrow>
          if \<not> Pending t then topo
          else let t = drop_claim t in Some (t\<lparr>ResetsSuppressed := ResetsSuppressed t + 1\<rparr>))"

section \<open>What the traffic says\<close>

definition xhciTopoPromote :: "xhci_topology \<Rightarrow> ulong \<Rightarrow> nat option \<times> xhci_topology" where
  "xhciTopoPromote topo address =
     (case xhciTopoNodeAdd topo address of
        (None, topo) \<Rightarrow> (None, topo)
      | (Some i, topo) \<Rightarrow>
          (Some i,
           if NodeFlags (Node topo ! i) AND XHCI_TOPO_F_HUB = 0
           then (node_update i (\<lambda>n. n\<lparr>NodeFlags := NodeFlags n OR XHCI_TOPO_F_HUB\<rparr>) topo)
                  \<lparr>Promotions := Promotions topo + 1\<rparr>
           else topo))"

definition xhciTopoObservePortRequest ::
    "xhci_topology \<Rightarrow> ulong \<Rightarrow> xhci_setup_packet \<Rightarrow> xhci_topo_snoop option
     \<Rightarrow> xhci_topology \<times> xhci_topo_snoop option" where
  "xhciTopoObservePortRequest topo address setup snoop =
     (case xhciTopoPromote topo address of (node, topo) \<Rightarrow>
        let port = ucast (wIndex setup) AND 0xFF;
            selector = ucast (wValue setup) :: ulong
        in
        if bRequest setup \<noteq> XHCI_TOPO_REQ_SET_FEATURE \<and> bRequest setup \<noteq> XHCI_TOPO_REQ_CLEAR_FEATURE
        then (topo, snoop)
        else
          let topo = (case node of
                        None \<Rightarrow> topo
                      | Some i \<Rightarrow>
                          if port \<noteq> 0 \<and> port > NodePortCount (Node topo ! i) \<and>
                             NodeFlags (Node topo ! i) AND XHCI_TOPO_F_DESCRIPTOR = 0
                          then node_update i (\<lambda>n. n\<lparr>NodePortCount := port\<rparr>) topo else topo)
          in
          if bRequest setup \<noteq> XHCI_TOPO_REQ_SET_FEATURE then (topo, snoop)
          else if selector = XHCI_TOPO_SEL_PORT_POWER then
            (topo\<lparr>PowerSweeps := PowerSweeps topo + 1\<rparr>, snoop)
          else if selector \<noteq> XHCI_TOPO_SEL_PORT_RESET then (topo, snoop)
          else
            let topo = topo\<lparr>Resets := Resets topo + 1\<rparr> in
            if node = None \<or> port = 0 then (topo\<lparr>ResetsUnknownHub := ResetsUnknownHub topo + 1\<rparr>, snoop)
            else
              let topo = (if Pending topo then topo\<lparr>ResetsOverwritten := ResetsOverwritten topo + 1\<rparr> else topo);
                  topo = topo\<lparr>Pending := True, PendingHub := address, PendingPort := port\<rparr>
              in (topo, map_option (\<lambda>s. s\<lparr>SnArmed := True, SnPort := port\<rparr>) snoop))"

definition XhciTopoObserveSetup ::
    "xhci_topology option \<Rightarrow> ulong \<Rightarrow> xhci_setup_packet option \<Rightarrow> xhci_topo_snoop option
     \<Rightarrow> xhci_topology option \<times> xhci_topo_snoop option" where
  "XhciTopoObserveSetup topo address setup snoop =
     (let snoop = map_option (\<lambda>_. \<lparr>SnReply = XHCI_TOPO_REPLY_NONE, SnHub = address, SnPort = 0, SnArmed = False\<rparr>) snoop in
      (case (topo, setup) of
         (Some t, Some s) \<Rightarrow>
           if address = 0 then (topo, snoop)
           else if bmRequestType s = XHCI_TOPO_RT_HUB_DESC then
             if bRequest s \<noteq> XHCI_TOPO_REQ_GET_DESCRIPTOR then (topo, snoop)
             else
               (case xhciTopoPromote t address of
                  (None, t) \<Rightarrow> (Some t, snoop)
                | (Some _, t) \<Rightarrow> (Some t, map_option (\<lambda>s. s\<lparr>SnReply := XHCI_TOPO_REPLY_HUB_DESC\<rparr>) snoop))
           else if bmRequestType s = XHCI_TOPO_RT_PORT_OUT then
             (case xhciTopoObservePortRequest t address s snoop of (t, snoop) \<Rightarrow> (Some t, snoop))
           else if bmRequestType s = XHCI_TOPO_RT_PORT_IN then
             if bRequest s \<noteq> XHCI_TOPO_REQ_GET_STATUS \<or> wIndex s = 0 then (topo, snoop)
             else
               (case xhciTopoPromote t address of
                  (None, t) \<Rightarrow> (Some t, snoop)
                | (Some _, t) \<Rightarrow>
                    (Some t, map_option (\<lambda>n. n\<lparr>SnReply := XHCI_TOPO_REPLY_PORT_STATUS,
                                              SnPort := ucast (wIndex s)\<rparr>) snoop))
           else (topo, snoop)
       | _ \<Rightarrow> (topo, snoop)))"

definition XhciTopoForgetAlternate :: "xhci_topology option \<Rightarrow> ulong \<Rightarrow> xhci_topology option" where
  "XhciTopoForgetAlternate topo address =
     (case topo of
        None \<Rightarrow> topo
      | Some t \<Rightarrow>
          if address = 0 then topo
          else
            (case xhciTopoNodeFor t address of
               None \<Rightarrow> topo
             | Some i \<Rightarrow>
                 let t = (if NodeFlags (Node t ! i) AND (XHCI_TOPO_F_MTT OR XHCI_TOPO_F_ALT_SEEN) \<noteq> 0
                          then t\<lparr>AltForgotten := AltForgotten t + 1\<rparr> else t)
                 in Some (node_update i (\<lambda>n. n\<lparr>NodeFlags :=
                            NodeFlags n AND NOT (XHCI_TOPO_F_MTT OR XHCI_TOPO_F_ALT_SEEN)\<rparr>) t)))"

definition XhciTopoApplySetInterface :: "xhci_topology option \<Rightarrow> ulong \<Rightarrow> ulong \<Rightarrow> xhci_topology option" where
  "XhciTopoApplySetInterface topo address alternate =
     (case topo of
        None \<Rightarrow> topo
      | Some t \<Rightarrow>
          if address = 0 then topo
          else
            (case xhciTopoNodeFor t address of
               None \<Rightarrow> topo
             | Some i \<Rightarrow>
                 if NodeFlags (Node t ! i) AND XHCI_TOPO_F_HUB = 0 \<and> NodeRootPort (Node t ! i) = 0 then topo
                 else
                   let t = t\<lparr>AltSettings := AltSettings t + 1\<rparr>;
                       t = node_update i (\<lambda>n. n\<lparr>NodeFlags := NodeFlags n OR XHCI_TOPO_F_ALT_SEEN\<rparr>) t
                   in Some (if alternate \<noteq> 0
                            then node_update i (\<lambda>n. n\<lparr>NodeFlags := NodeFlags n OR XHCI_TOPO_F_MTT\<rparr>) t
                            else node_update i (\<lambda>n. n\<lparr>NodeFlags := NodeFlags n AND NOT XHCI_TOPO_F_MTT\<rparr>) t)))"

definition xhciTopoFoldHubDescriptor ::
    "xhci_topology \<Rightarrow> nat \<Rightarrow> uchar list \<Rightarrow> ulong \<Rightarrow> bool \<times> xhci_topology" where
  "xhciTopoFoldHubDescriptor topo i data len =
     (let topo = topo\<lparr>Descriptors := Descriptors topo + 1\<rparr> in
      if len < XHCI_TOPO_HUBD_MIN then (False, topo\<lparr>DescriptorsBad := DescriptorsBad topo + 1\<rparr>)
      else
        let declared = ucast (data ! 0) :: ulong in
        if declared < XHCI_TOPO_HUBD_MIN \<or> declared > len then
          (False, topo\<lparr>DescriptorsBad := DescriptorsBad topo + 1\<rparr>)
        else
          let topo = node_update i (\<lambda>n.
                let n = n\<lparr>DescriptorType := ucast (data ! 1)\<rparr>;
                    n = (if DescriptorType n = XHCI_TOPO_DESC_TYPE_HUB
                         then n\<lparr>NodeFlags := NodeFlags n OR XHCI_TOPO_F_DESC_TYPE_OK\<rparr>
                         else n\<lparr>NodeFlags := NodeFlags n AND NOT XHCI_TOPO_F_DESC_TYPE_OK\<rparr>)
                in n\<lparr>NodePortCount := ucast (data ! 2),
                     Characteristics := ucast (data ! 3) OR push_bit 8 (ucast (data ! 4)),
                     NodeFlags := NodeFlags n OR XHCI_TOPO_F_DESCRIPTOR\<rparr>) topo
          in (True, if NodePortCount (Node topo ! i) = 0
                    then topo\<lparr>DescriptorsNoPorts := DescriptorsNoPorts topo + 1\<rparr> else topo))"

text \<open>A departure: the counters, the report and the pruning of what hung there.\<close>

definition port_gone ::
    "xhci_topology \<Rightarrow> nat \<Rightarrow> ulong \<Rightarrow> bool \<Rightarrow> xhci_topo_gone option
     \<Rightarrow> bool \<times> xhci_topology \<times> xhci_topo_gone option" where
  "port_gone topo i port reconnect gone =
     (let topo = node_update i (\<lambda>n. n\<lparr>NodeDisconnects := NodeDisconnects n + 1\<rparr>) topo;
          topo = topo\<lparr>TopoDisconnects := TopoDisconnects topo + 1\<rparr>;
          topo = (if reconnect then topo\<lparr>Reconnects := Reconnects topo + 1\<rparr> else topo);
          hubAddress = NodeAddress (Node topo ! i)
      in (True, xhciTopoPruneChildAt topo hubAddress port,
          map_option (\<lambda>_. \<lparr>Disconnected = True, GoneHubAddress = hubAddress, GoneHubPort = port\<rparr>) gone))"

definition xhciTopoFoldPortStatus ::
    "xhci_topology \<Rightarrow> nat \<Rightarrow> ulong \<Rightarrow> uchar list \<Rightarrow> ulong \<Rightarrow> xhci_topo_gone option
     \<Rightarrow> bool \<times> xhci_topology \<times> xhci_topo_gone option" where
  "xhciTopoFoldPortStatus topo i port data len gone =
     (let topo = topo\<lparr>PortStatuses := PortStatuses topo + 1\<rparr> in
      if len < XHCI_TOPO_PORTSTAT_MIN \<or> port = 0 then (False, topo, gone)
      else if port > XHCI_TOPO_CONNECT_PORTS then
        (False, topo\<lparr>PortStatusesWide := PortStatusesWide topo + 1\<rparr>, gone)
      else
        let status = ucast (data ! 0) OR push_bit 8 (ucast (data ! 1)) :: ulong;
            change = (if len \<ge> 4 then ucast (data ! 2) OR push_bit 8 (ucast (data ! 3)) else 0) :: ulong;
            connected = status AND HUB_PORT_CONNECTION \<noteq> 0;
            m = push_bit (unat (port - 1)) 1 :: ulong
        in
        if connected then
          if Connected (Node topo ! i) AND m \<noteq> 0 \<and> change AND HUB_PORT_CONNECTION = 0 \<and>
             change AND HUB_PORT_ENABLE \<noteq> 0 \<and> status AND HUB_PORT_ENABLE = 0 then
            port_gone topo i port False gone
          else if Connected (Node topo ! i) AND m \<noteq> 0 \<and> change AND HUB_PORT_CONNECTION \<noteq> 0 then
            port_gone topo i port True gone
          else (True, node_update i (\<lambda>n. n\<lparr>Connected := Connected n OR m\<rparr>) topo, gone)
        else if Connected (Node topo ! i) AND m = 0 then (False, topo, gone)
        else
          port_gone (node_update i (\<lambda>n. n\<lparr>Connected := Connected n AND NOT m\<rparr>) topo) i port False gone)"

definition XhciTopoObserveReply ::
    "xhci_topology option \<Rightarrow> xhci_topo_snoop option \<Rightarrow> uchar list option \<Rightarrow> ulong \<Rightarrow> xhci_topo_gone option
     \<Rightarrow> bool \<times> xhci_topology option \<times> xhci_topo_gone option" where
  "XhciTopoObserveReply topo snoop data len gone =
     (let gone = map_option (\<lambda>_. \<lparr>Disconnected = False, GoneHubAddress = 0, GoneHubPort = 0\<rparr>) gone in
      (case (topo, snoop, data) of
         (Some t, Some s, Some d) \<Rightarrow>
           if SnReply s = XHCI_TOPO_REPLY_NONE then (False, topo, gone)
           else
             (case xhciTopoNodeFor t (SnHub s) of
                None \<Rightarrow> (False, topo, gone)
              | Some i \<Rightarrow>
                  (case SnReply s of
                     XHCI_TOPO_REPLY_HUB_DESC \<Rightarrow>
                       (case xhciTopoFoldHubDescriptor t i d len of (ok, t) \<Rightarrow> (ok, Some t, gone))
                   | XHCI_TOPO_REPLY_PORT_STATUS \<Rightarrow>
                       (case xhciTopoFoldPortStatus t i (SnPort s) d len gone of
                          (ok, t, gone) \<Rightarrow> (ok, Some t, gone))
                   | XHCI_TOPO_REPLY_NONE \<Rightarrow> (False, topo, gone)))
       | _ \<Rightarrow> (False, topo, gone)))"

end
