(* ===== verification/Xhci_Topo_Table.thy ===== *)
theory Xhci_Topo_Table
  imports Xhci_Topo
begin

text \<open>
  The table of hub nodes as a finite map from addresses to nodes: the table's own invariant, and
  what adding, updating, removing and renaming a node do to the map.
\<close>

section \<open>The map a table stands for\<close>

definition hub_at :: "xhci_topology \<Rightarrow> ulong \<Rightarrow> xhci_topo_node option" where
  "hub_at t a = map_option (\<lambda>i. Node t ! i) (xhciTopoNodeFor t a)"

definition used_slots :: "xhci_topology \<Rightarrow> nat set" where
  "used_slots t = {i. i < 16 \<and> node_used (Node t ! i)}"

text \<open>Addresses are unique and nonzero, the count is exact, an armed claim names a hub of the table.\<close>

definition hubs_ok :: "xhci_topology \<Rightarrow> bool" where
  "hubs_ok t \<longleftrightarrow>
     length (Node t) = 16 \<and> inj_on (\<lambda>i. NodeAddress (Node t ! i)) (used_slots t) \<and>
     (\<forall>i\<in>used_slots t. NodeAddress (Node t ! i) \<noteq> 0) \<and> unat (TopoCount t) = card (used_slots t) \<and>
     (Pending t \<longrightarrow> hub_at t (PendingHub t) \<noteq> None)"

lemma finite_slots [simp]: "finite (used_slots t)"
  by (simp add: used_slots_def)

lemma slots_le: "card (used_slots t) \<le> 16"
proof -
  have "used_slots t \<subseteq> {..<16}" by (auto simp: used_slots_def)
  then show ?thesis using card_mono [of "{..<16}" "used_slots t"] by simp
qed

lemma slot_lt: "i \<in> used_slots t \<Longrightarrow> i < 16"
  by (simp add: used_slots_def)

text \<open>The entries of a table without its claim and its count.\<close>

definition entries_ok :: "xhci_topology \<Rightarrow> bool" where
  "entries_ok t \<longleftrightarrow>
     length (Node t) = 16 \<and> inj_on (\<lambda>i. NodeAddress (Node t ! i)) (used_slots t) \<and>
     (\<forall>i\<in>used_slots t. NodeAddress (Node t ! i) \<noteq> 0)"

lemma hubs_ok_alt:
  "hubs_ok t \<longleftrightarrow> entries_ok t \<and> unat (TopoCount t) = card (used_slots t) \<and>
     (Pending t \<longrightarrow> hub_at t (PendingHub t) \<noteq> None)"
  by (auto simp: hubs_ok_def entries_ok_def)

lemma table_entries: "hubs_ok t \<Longrightarrow> entries_ok t"
  by (simp add: hubs_ok_alt)

lemma slot_unique:
  assumes "entries_ok t" and "i \<in> used_slots t" and "j \<in> used_slots t"
    and "NodeAddress (Node t ! i) = NodeAddress (Node t ! j)"
  shows "i = j"
  using assms unfolding entries_ok_def inj_on_def by blast

lemma node_for_entries:
  assumes ok: "entries_ok t"
  shows "xhciTopoNodeFor t a = Some i \<longleftrightarrow> i \<in> used_slots t \<and> NodeAddress (Node t ! i) = a"
proof
  assume "xhciTopoNodeFor t a = Some i"
  then show "i \<in> used_slots t \<and> NodeAddress (Node t ! i) = a"
    by (auto simp: xhciTopoNodeFor_def find_upt_Some used_slots_def split: if_splits)
next
  assume r: "i \<in> used_slots t \<and> NodeAddress (Node t ! i) = a"
  then have "a \<noteq> 0" using ok by (auto simp: entries_ok_def)
  moreover have "\<not> (node_used (Node t ! j) \<and> NodeAddress (Node t ! j) = a)" if "j < i" for j
  proof
    assume "node_used (Node t ! j) \<and> NodeAddress (Node t ! j) = a"
    moreover from this have "j \<in> used_slots t" using that r by (auto simp: used_slots_def)
    ultimately show False using slot_unique [OF ok, of i j] r that by simp
  qed
  ultimately show "xhciTopoNodeFor t a = Some i"
    using r by (simp add: xhciTopoNodeFor_def find_upt_Some used_slots_def)
qed

lemma hub_at_entries:
  assumes ok: "entries_ok t"
  shows "hub_at t a = Some n \<longleftrightarrow> (\<exists>i\<in>used_slots t. NodeAddress (Node t ! i) = a \<and> n = Node t ! i)"
proof
  assume "hub_at t a = Some n"
  then obtain i where "xhciTopoNodeFor t a = Some i" "n = Node t ! i" by (auto simp: hub_at_def)
  then show "\<exists>i\<in>used_slots t. NodeAddress (Node t ! i) = a \<and> n = Node t ! i" using node_for_entries [OF ok] by blast
next
  assume "\<exists>i\<in>used_slots t. NodeAddress (Node t ! i) = a \<and> n = Node t ! i"
  then obtain i where "xhciTopoNodeFor t a = Some i" "n = Node t ! i" using node_for_entries [OF ok] by blast
  then show "hub_at t a = Some n" by (simp add: hub_at_def)
qed

lemmas node_for_some = node_for_entries [OF table_entries]
lemmas hub_at_some = hub_at_entries [OF table_entries]

lemma hub_at_none: "hub_at t a = None \<longleftrightarrow> xhciTopoNodeFor t a = None"
  by (simp add: hub_at_def)

lemma hub_at_zero [simp]: "hub_at t 0 = None"
  by (simp add: hub_at_def xhciTopoNodeFor_def)

lemma hub_at_address: "hubs_ok t \<Longrightarrow> hub_at t a = Some n \<Longrightarrow> NodeAddress n = a \<and> node_used n"
  by (auto simp: hub_at_some used_slots_def)

lemma hub_at_slot: "hubs_ok t \<Longrightarrow> i \<in> used_slots t \<Longrightarrow> hub_at t (NodeAddress (Node t ! i)) = Some (Node t ! i)"
  by (auto simp: hub_at_some)

lemma node_for_hub: "xhciTopoNodeFor t a = Some i \<Longrightarrow> hub_at t a = Some (Node t ! i)"
  by (simp add: hub_at_def)

lemma dom_hub_at: "hubs_ok t \<Longrightarrow> dom (hub_at t) = (\<lambda>i. NodeAddress (Node t ! i)) ` used_slots t"
  by (auto simp: dom_def hub_at_some)

lemma card_hubs: "hubs_ok t \<Longrightarrow> card (dom (hub_at t)) = card (used_slots t)"
  unfolding dom_hub_at by (rule card_image) (simp add: hubs_ok_def)

text \<open>Fields the map does not depend on.\<close>

lemma same_nodes:
  assumes "Node t' = Node t"
  shows "hub_at t' = hub_at t" "used_slots t' = used_slots t" "xhciTopoNodeFor t' = xhciTopoNodeFor t"
proof -
  show n: "xhciTopoNodeFor t' = xhciTopoNodeFor t" by (intro ext) (simp add: xhciTopoNodeFor_def assms)
  show "hub_at t' = hub_at t" by (intro ext) (simp add: hub_at_def assms n)
  show "used_slots t' = used_slots t" by (simp add: used_slots_def assms)
qed

lemma table_frame:
  assumes "hubs_ok t" and "Node t' = Node t" and "TopoCount t' = TopoCount t"
    and "Pending t' \<Longrightarrow> Pending t \<and> PendingHub t' = PendingHub t \<or> hub_at t (PendingHub t') \<noteq> None"
  shows "hubs_ok t'"
  using assms(1,3,4) unfolding hubs_ok_def same_nodes [OF assms(2)] assms(2) by auto

section \<open>The operations on the map\<close>

lemma map_eq_some: "(\<And>a n. f a = Some n \<longleftrightarrow> g a = Some n) \<Longrightarrow> f = g"
  by (rule ext) (metis not_None_eq)

text \<open>Replacing the node in slot \<open>i\<close> by a used node with a new or the same address.\<close>

lemma slot_write:
  assumes ok: "entries_ok t" and i: "i < 16" and u: "node_used n" and nz: "NodeAddress n \<noteq> 0"
    and fresh: "\<And>j. j \<in> used_slots t \<Longrightarrow> j \<noteq> i \<Longrightarrow> NodeAddress (Node t ! j) \<noteq> NodeAddress n"
  shows "entries_ok (t\<lparr>Node := (Node t)[i := n]\<rparr>)" "used_slots (t\<lparr>Node := (Node t)[i := n]\<rparr>) = insert i (used_slots t)"
    "hub_at (t\<lparr>Node := (Node t)[i := n]\<rparr>) =
       (if i \<in> used_slots t then (hub_at t)(NodeAddress (Node t ! i) := None) else hub_at t)(NodeAddress n \<mapsto> n)"
proof -
  let ?t = "t\<lparr>Node := (Node t)[i := n]\<rparr>"
  have len: "length (Node t) = 16" using ok by (simp add: entries_ok_def)
  have nth: "Node ?t ! j = (if j = i then n else Node t ! j)" if "j < 16" for j using that len by simp
  show slots: "used_slots ?t = insert i (used_slots t)"
    using i u nth by (auto simp: used_slots_def split: if_splits)
  have nth': "Node ?t ! j = (if j = i then n else Node t ! j)" if "j \<in> used_slots ?t" for j
    using that nth by (simp add: used_slots_def)
  have inj: "inj_on (\<lambda>j. NodeAddress (Node t ! j)) (used_slots t)" using ok by (simp add: entries_ok_def)
  have "inj_on (\<lambda>j. NodeAddress (Node ?t ! j)) (used_slots ?t)"
  proof (rule inj_onI)
    fix j k assume m: "j \<in> used_slots ?t" "k \<in> used_slots ?t"
      and eq: "NodeAddress (Node ?t ! j) = NodeAddress (Node ?t ! k)"
    show "j = k"
    proof (cases "j = i \<or> k = i")
      case True
      then show ?thesis using m eq nth' fresh [of j] fresh [of k] slots by (auto split: if_splits)
    next
      case False
      then show ?thesis using m eq nth' slots inj by (auto simp: inj_on_def)
    qed
  qed
  then show e: "entries_ok ?t"
    using ok len slots nth' nz by (auto simp: entries_ok_def)
  show "hub_at ?t = (if i \<in> used_slots t then (hub_at t)(NodeAddress (Node t ! i) := None) else hub_at t)(NodeAddress n \<mapsto> n)"
  proof (rule map_eq_some)
    fix a m
    have "hub_at ?t a = Some m \<longleftrightarrow> NodeAddress n = a \<and> m = n \<or>
        (\<exists>j\<in>used_slots t. j \<noteq> i \<and> NodeAddress (Node t ! j) = a \<and> m = Node t ! j)"
      unfolding hub_at_entries [OF e] slots using i nth' slots by (auto split: if_splits)
    also have "\<dots> \<longleftrightarrow> ((if i \<in> used_slots t then (hub_at t)(NodeAddress (Node t ! i) := None) else hub_at t)
        (NodeAddress n \<mapsto> n)) a = Some m"
    proof (cases "NodeAddress n = a")
      case True
      then show ?thesis using fresh by auto
    next
      case False
      have "(\<exists>j\<in>used_slots t. j \<noteq> i \<and> NodeAddress (Node t ! j) = a \<and> m = Node t ! j) \<longleftrightarrow>
          hub_at t a = Some m \<and> (i \<in> used_slots t \<longrightarrow> NodeAddress (Node t ! i) \<noteq> a)"
        unfolding hub_at_entries [OF ok] using slot_unique [OF ok] by (metis (mono_tags, lifting))
      then show ?thesis using False by auto
    qed
    finally show "hub_at ?t a = Some m \<longleftrightarrow> ((if i \<in> used_slots t then (hub_at t)(NodeAddress (Node t ! i) := None)
        else hub_at t)(NodeAddress n \<mapsto> n)) a = Some m" .
  qed
qed

text \<open>An update that keeps the address.\<close>

lemma update_at:
  assumes ok: "hubs_ok t" and i: "xhciTopoNodeFor t a = Some i"
    and keep: "NodeAddress (f (Node t ! i)) = a" "node_used (f (Node t ! i))"
  shows "hubs_ok (node_update i f t)" "hub_at (node_update i f t) = (hub_at t)(a \<mapsto> f (Node t ! i))"
    "xhciTopoNodeFor (node_update i f t) a = Some i" "Node (node_update i f t) ! i = f (Node t ! i)"
    "dom (hub_at (node_update i f t)) = dom (hub_at t)"
proof -
  have e: "entries_ok t" using ok by (simp add: hubs_ok_alt)
  have s: "i \<in> used_slots t" "NodeAddress (Node t ! i) = a" "a \<noteq> 0"
    using i node_for_some [OF ok] e by (auto simp: entries_ok_def)
  have fresh: "NodeAddress (Node t ! j) \<noteq> NodeAddress (f (Node t ! i))" if "j \<in> used_slots t" "j \<noteq> i" for j
    using e that s keep unfolding entries_ok_def inj_on_def by auto
  have nz: "NodeAddress (f (Node t ! i)) \<noteq> 0" using keep s by simp
  note w = slot_write [OF e slot_lt [OF s(1)] keep(2) nz fresh]
  have slots: "used_slots (node_update i f t) = used_slots t" using w(2) s(1) by (simp add: node_update_def insert_absorb)
  show h: "hub_at (node_update i f t) = (hub_at t)(a \<mapsto> f (Node t ! i))"
    using w(3) s keep by (simp add: node_update_def)
  show "dom (hub_at (node_update i f t)) = dom (hub_at t)" unfolding h using node_for_hub [OF i] by auto
  show tbl: "hubs_ok (node_update i f t)"
    unfolding hubs_ok_alt slots h using ok w(1) by (auto simp: hubs_ok_alt node_update_def)
  show nth: "Node (node_update i f t) ! i = f (Node t ! i)"
    using slot_lt [OF s(1)] e by (simp add: node_update_def entries_ok_def)
  show "xhciTopoNodeFor (node_update i f t) a = Some i"
    unfolding node_for_some [OF tbl] slots nth using s keep by simp
qed

lemma remove_at:
  assumes ok: "hubs_ok t" and i: "i \<in> used_slots t"
  shows "hubs_ok (xhciTopoNodeRemove t i)"
    "hub_at (xhciTopoNodeRemove t i) = (hub_at t)(NodeAddress (Node t ! i) := None)"
    "card (dom (hub_at (xhciTopoNodeRemove t i))) + 1 = card (dom (hub_at t))"
proof -
  let ?a = "NodeAddress (Node t ! i)" and ?t = "node_update i xhciTopoNodeClear t"
  have e: "entries_ok t" and len: "length (Node t) = 16" using ok by (simp_all add: hubs_ok_alt entries_ok_def)
  have nth: "Node ?t ! j = (if j = i then xhciTopoNodeClear (Node t ! i) else Node t ! j)" if "j < 16" for j
    using that len by (simp add: node_update_def)
  have slots: "used_slots ?t = used_slots t - {i}"
    using nth by (auto simp: used_slots_def xhciTopoNodeClear_def split: if_splits)
  have nth': "Node ?t ! j = Node t ! j" if "j \<in> used_slots t - {i}" for j
    using that nth slot_lt by auto
  have e': "entries_ok ?t"
    using e nth' unfolding entries_ok_def slots by (auto simp: inj_on_def node_update_def)
  have h: "hub_at ?t = (hub_at t)(?a := None)"
  proof (rule map_eq_some)
    fix a n
    have "hub_at ?t a = Some n \<longleftrightarrow> (\<exists>j\<in>used_slots t - {i}. NodeAddress (Node t ! j) = a \<and> n = Node t ! j)"
      unfolding hub_at_entries [OF e'] slots using nth' by (metis (no_types, lifting))
    also have "\<dots> \<longleftrightarrow> a \<noteq> ?a \<and> hub_at t a = Some n"
      unfolding hub_at_entries [OF e] using slot_unique [OF e] i by blast
    also have "\<dots> \<longleftrightarrow> ((hub_at t)(?a := None)) a = Some n" by auto
    finally show "hub_at ?t a = Some n \<longleftrightarrow> ((hub_at t)(?a := None)) a = Some n" .
  qed
  have cnt: "unat (TopoCount t) = card (used_slots t)" using ok by (simp add: hubs_ok_alt)
  then have pos: "0 < unat (TopoCount t)" using i by (auto simp: card_gt_0_iff)
  let ?r = "xhciTopoNodeRemove t i"
  have node: "Node ?r = Node ?t" and count: "TopoCount ?r = TopoCount t - 1"
    using pos by (auto simp: xhciTopoNodeRemove_def Let_def node_update_def)
  note same = same_nodes [OF node]
  show hr: "hub_at ?r = (hub_at t)(?a := None)" unfolding same h ..
  have "unat (TopoCount t - 1) = card (used_slots t) - 1" using cnt pos by (simp add: unat_sub_no_wrap)
  then have c: "unat (TopoCount ?r) = card (used_slots ?r)" unfolding count same slots using i by simp
  have p: "Pending ?r \<Longrightarrow> Pending t \<and> PendingHub t \<noteq> ?a \<and> PendingHub ?r = PendingHub t"
    by (auto simp: xhciTopoNodeRemove_def Let_def node_update_def split: if_splits)
  have er: "entries_ok ?r" using e' unfolding entries_ok_def same node .
  show tr: "hubs_ok ?r"
    unfolding hubs_ok_alt using er c p ok unfolding hr hubs_ok_alt by auto
  have "used_slots ?r = used_slots t - {i}" unfolding same slots ..
  then show "card (dom (hub_at ?r)) + 1 = card (dom (hub_at t))"
    unfolding card_hubs [OF tr] card_hubs [OF ok] using i card_Suc_Diff1 [of "used_slots t" i] by simp
qed

end
