(* ===== verification/Xhci_Topo_Prune.thy ===== *)
theory Xhci_Topo_Prune
  imports Xhci_Topo_Table
begin

text \<open>
  Adding, and the orphan sweep: its passes end within their bound and leave exactly the greatest
  set of hubs each of which has its parent in the set.
\<close>

section \<open>Adding\<close>

definition blank_node :: "ulong \<Rightarrow> xhci_topo_node" where
  "blank_node address =
     \<lparr>NodeFlags = XHCI_TOPO_F_USED, NodeAddress = address, NodeSpeed = SPEED_UNKNOWN, NodeTier = 0,
      NodeRoute = 0, NodeRootPort = 0, NodeGeneration = 0, ParentAddress = 0, ParentPort = 0,
      NodePortCount = 0, Characteristics = 0, DescriptorType = 0, Connected = 0, NodeDisconnects = 0\<rparr>"

lemma add_at:
  assumes ok: "hubs_ok t" and add: "xhciTopoNodeAdd t a = (r, t')"
  shows "hubs_ok t'"
    "hub_at t' = (if r \<noteq> None \<and> hub_at t a = None then (hub_at t)(a \<mapsto> blank_node a) else hub_at t)"
    "r = xhciTopoNodeFor t' a"
    "r = None \<longleftrightarrow> a = 0 \<or> hub_at t a = None \<and> card (dom (hub_at t)) = 16"
proof -
  have goal: "hubs_ok t' \<and>
      hub_at t' = (if r \<noteq> None \<and> hub_at t a = None then (hub_at t)(a \<mapsto> blank_node a) else hub_at t) \<and>
      r = xhciTopoNodeFor t' a \<and> (r = None \<longleftrightarrow> a = 0 \<or> hub_at t a = None \<and> card (dom (hub_at t)) = 16)"
  proof (cases "a = 0 \<or> xhciTopoNodeFor t a \<noteq> None")
    case True
    then have "r = xhciTopoNodeFor t a" "t' = t"
      using add by (auto simp: xhciTopoNodeAdd_def xhciTopoNodeFor_def split: if_splits option.splits)
    then show ?thesis using ok True by (auto simp: hub_at_none xhciTopoNodeFor_def split: if_splits)
  next
    case False
    then have a: "a \<noteq> 0" and new: "xhciTopoNodeFor t a = None" by auto
    have e: "entries_ok t" using ok by (rule table_entries)
    have cnt: "unat (TopoCount t) = card (used_slots t)" using ok by (simp add: hubs_ok_alt)
    show ?thesis
    proof (cases "find (\<lambda>i. \<not> node_used (Node t ! i)) [0..<16]")
      case None
      then have r: "r = None" and t': "t' = t\<lparr>TopoDropped := TopoDropped t + 1\<rparr>"
        using add a new by (auto simp: xhciTopoNodeAdd_def)
      have "used_slots t = {..<16}" using None by (auto simp: used_slots_def find_upt_None)
      then have "card (dom (hub_at t)) = 16" using card_hubs [OF ok] by simp
      moreover have "hubs_ok t'" using ok unfolding t' by (rule table_frame) auto
      moreover have "hub_at t' = hub_at t" "xhciTopoNodeFor t' = xhciTopoNodeFor t" using same_nodes [of t' t] t' by simp_all
      ultimately show ?thesis using r new by (simp add: hub_at_none)
    next
      case (Some i)
      then have i: "i < 16" "i \<notin> used_slots t" by (auto simp: find_upt_Some used_slots_def)
      let ?n = "(xhciTopoNodeClear (Node t ! i))\<lparr>NodeFlags := XHCI_TOPO_F_USED, NodeAddress := a\<rparr>"
      have n: "?n = blank_node a" by (simp add: xhciTopoNodeClear_def blank_node_def)
      let ?t = "t\<lparr>Node := (Node t)[i := ?n]\<rparr>"
      have r: "r = Some i" and t': "t' = ?t\<lparr>TopoCount := TopoCount t + 1\<rparr>"
        using add a new Some by (simp_all add: xhciTopoNodeAdd_def node_update_def)
      have fresh: "NodeAddress (Node t ! j) \<noteq> NodeAddress ?n" if "j \<in> used_slots t" for j
        using new that node_for_entries [OF e, of a j] by auto
      have u: "node_used ?n" and nz: "NodeAddress ?n \<noteq> 0" using a by simp_all
      note w = slot_write [OF e i(1) u nz fresh]
      have w1: "entries_ok ?t" "used_slots ?t = insert i (used_slots t)" "hub_at ?t = (hub_at t)(a \<mapsto> blank_node a)"
        using w i(2) unfolding n by (simp_all add: blank_node_def)
      have same: "hub_at t' = hub_at ?t" "used_slots t' = used_slots ?t" "xhciTopoNodeFor t' = xhciTopoNodeFor ?t"
        by (rule same_nodes; simp add: t')+
      have few: "card (used_slots t) < 16"
        using i psubset_card_mono [of "{..<16}" "used_slots t"] by (fastforce simp: used_slots_def)
      have "TopoCount t' = TopoCount t + 1" by (simp add: t')
      then have cnt': "unat (TopoCount t') = card (used_slots t')"
        unfolding same w1(2) using few i(2) cnt unat_add_no_wrap [of "TopoCount t" 1] by simp
      have "entries_ok t'" using w1(1) unfolding entries_ok_def same by (simp add: t')
      moreover have "hub_at t' (PendingHub t') \<noteq> None" if "Pending t'"
        using that ok unfolding same w1(3) by (auto simp: t' hubs_ok_alt)
      ultimately have tbl: "hubs_ok t'" using cnt' by (simp add: hubs_ok_alt)
      have "xhciTopoNodeFor t' a = Some i"
      proof -
        have "i \<in> used_slots t'" unfolding same w1(2) by simp
        moreover have "NodeAddress (Node t' ! i) = a" using i(1) e by (simp add: t' entries_ok_def)
        ultimately show ?thesis using node_for_some [OF tbl] by blast
      qed
      moreover have "card (dom (hub_at t)) \<noteq> 16" using few card_hubs [OF ok] by simp
      moreover have "hub_at t' = (hub_at t)(a \<mapsto> blank_node a)" using same w1 by simp
      ultimately show ?thesis using tbl r new a by (simp add: hub_at_none)
    qed
  qed
  show "hubs_ok t'"
    "hub_at t' = (if r \<noteq> None \<and> hub_at t a = None then (hub_at t)(a \<mapsto> blank_node a) else hub_at t)"
    "r = xhciTopoNodeFor t' a" "r = None \<longleftrightarrow> a = 0 \<or> hub_at t a = None \<and> card (dom (hub_at t)) = 16"
    using goal by blast+
qed

section \<open>The sweep\<close>

text \<open>A set of hubs is closed when each has no parent or has it in the set.\<close>

definition closed_in :: "(ulong \<rightharpoonup> xhci_topo_node) \<Rightarrow> ulong set \<Rightarrow> bool" where
  "closed_in g S \<longleftrightarrow> S \<subseteq> dom g \<and> (\<forall>a\<in>S. ParentAddress (the (g a)) = 0 \<or> ParentAddress (the (g a)) \<in> S)"

definition closed :: "xhci_topology \<Rightarrow> bool" where
  "closed t \<longleftrightarrow> closed_in (hub_at t) (dom (hub_at t))"

lemma closedI:
  assumes "hubs_ok t"
    and "\<And>i. i < 16 \<Longrightarrow> node_used (Node t ! i) \<Longrightarrow> ParentAddress (Node t ! i) \<noteq> 0 \<Longrightarrow>
      xhciTopoNodeFor t (ParentAddress (Node t ! i)) \<noteq> None"
  shows "closed t"
  unfolding closed_def closed_in_def
proof (intro conjI ballI)
  fix a assume "a \<in> dom (hub_at t)"
  then obtain i where i: "i \<in> used_slots t" "hub_at t a = Some (Node t ! i)"
    using hub_at_some [OF assms(1)] by (auto simp: dom_def)
  have "hub_at t (ParentAddress (Node t ! i)) \<noteq> None" if "ParentAddress (Node t ! i) \<noteq> 0"
    using assms(2) [of i] i(1) that unfolding hub_at_none used_slots_def by blast
  then show "ParentAddress (the (hub_at t a)) = 0 \<or> ParentAddress (the (hub_at t a)) \<in> dom (hub_at t)"
    unfolding i(2) domIff option.sel by blast
qed simp

lemma closedD: "closed t \<Longrightarrow> hub_at t a = Some n \<Longrightarrow> ParentAddress n = 0 \<or> hub_at t (ParentAddress n) \<noteq> None"
  unfolding closed_def closed_in_def by force

text \<open>
  \<open>shrunk t t'\<close>: hubs have been taken out and nothing else has changed in the map, and no closed
  set of hubs has lost a member.
\<close>

definition shrunk :: "xhci_topology \<Rightarrow> xhci_topology \<Rightarrow> bool" where
  "shrunk t t' \<longleftrightarrow>
     hubs_ok t' \<and> hub_at t' \<subseteq>\<^sub>m hub_at t \<and> (\<forall>S. closed_in (hub_at t) S \<longrightarrow> S \<subseteq> dom (hub_at t'))"

lemma shrunk_refl: "hubs_ok t \<Longrightarrow> shrunk t t"
  by (simp add: shrunk_def closed_in_def)

lemma closed_in_sub:
  assumes "g' \<subseteq>\<^sub>m g" and "S \<subseteq> dom g'" and "closed_in g S"
  shows "closed_in g' S"
proof -
  have eq: "g' a = g a" if "a \<in> S" for a
    using that assms(1,2) by (auto simp: map_le_def)
  show ?thesis using assms eq unfolding closed_in_def by auto
qed

lemma shrunk_trans:
  assumes ab: "shrunk a b" and bc: "shrunk b c"
  shows "shrunk a c"
  unfolding shrunk_def
proof (intro conjI allI impI)
  show "hubs_ok c" using bc by (simp add: shrunk_def)
  show "hub_at c \<subseteq>\<^sub>m hub_at a" using ab bc map_le_trans unfolding shrunk_def by blast
  fix S assume S: "closed_in (hub_at a) S"
  have "hub_at b \<subseteq>\<^sub>m hub_at a" "S \<subseteq> dom (hub_at b)" using ab S by (simp_all add: shrunk_def)
  then have "closed_in (hub_at b) S" using closed_in_sub S by blast
  then show "S \<subseteq> dom (hub_at c)" using bc by (simp add: shrunk_def)
qed

lemma sweep_one:
  assumes ok: "hubs_ok t" and i: "i < 16" and s: "sweep_step (t, r) i = (t', r')"
  shows "shrunk t t' \<and> card (dom (hub_at t')) + r' = card (dom (hub_at t)) + r \<and> r \<le> r' \<and>
    (r' = r \<longrightarrow> t' = t \<and> (node_used (Node t ! i) \<longrightarrow> ParentAddress (Node t ! i) \<noteq> 0 \<longrightarrow>
       xhciTopoNodeFor t (ParentAddress (Node t ! i)) \<noteq> None))"
proof (cases "node_used (Node t ! i) \<and> ParentAddress (Node t ! i) \<noteq> 0 \<and>
    xhciTopoNodeFor t (ParentAddress (Node t ! i)) = None")
  case False
  then have "t' = t" "r' = r" using s by (auto simp: sweep_step_def split: if_splits)
  then show ?thesis using False shrunk_refl [OF ok] by auto
next
  case True
  let ?a = "NodeAddress (Node t ! i)"
  have slot: "i \<in> used_slots t" using i True by (simp add: used_slots_def)
  have t': "t' = xhciTopoNodeRemove t i" "r' = r + 1" using s True by (auto simp: sweep_step_def)
  note rem = remove_at [OF ok slot, folded t'(1)]
  have orphan: "hub_at t ?a = Some (Node t ! i)" by (rule hub_at_slot [OF ok slot])
  have gone: "ParentAddress (Node t ! i) \<notin> dom (hub_at t)" using True hub_at_none [of t "ParentAddress (Node t ! i)"] by (simp add: domIff)
  have "hub_at t' \<subseteq>\<^sub>m hub_at t" unfolding rem(2) by (auto simp: map_le_def)
  moreover have "S \<subseteq> dom (hub_at t')" if "closed_in (hub_at t) S" for S
  proof -
    have "?a \<notin> S" using that orphan gone True unfolding closed_in_def by force
    then show ?thesis using that unfolding rem(2) closed_in_def by auto
  qed
  ultimately show ?thesis using rem t' unfolding shrunk_def by simp
qed

lemma sweep_pass:
  assumes ok: "hubs_ok t" and k: "k \<le> 16" and f: "foldl sweep_step (t, 0) [0..<k] = (t', r')"
  shows "shrunk t t' \<and> card (dom (hub_at t')) + r' = card (dom (hub_at t)) \<and>
    (r' = 0 \<longrightarrow> t' = t \<and> (\<forall>i<k. node_used (Node t ! i) \<longrightarrow> ParentAddress (Node t ! i) \<noteq> 0 \<longrightarrow>
       xhciTopoNodeFor t (ParentAddress (Node t ! i)) \<noteq> None))"
  using k f
proof (induction k arbitrary: t' r')
  case 0
  then show ?case using shrunk_refl [OF ok] by simp
next
  case (Suc k)
  obtain t1 r1 where p: "foldl sweep_step (t, 0) [0..<k] = (t1, r1)" by fastforce
  then have s: "sweep_step (t1, r1) k = (t', r')" using Suc.prems by simp
  have IH: "shrunk t t1 \<and> card (dom (hub_at t1)) + r1 = card (dom (hub_at t)) \<and>
    (r1 = 0 \<longrightarrow> t1 = t \<and> (\<forall>i<k. node_used (Node t ! i) \<longrightarrow> ParentAddress (Node t ! i) \<noteq> 0 \<longrightarrow>
       xhciTopoNodeFor t (ParentAddress (Node t ! i)) \<noteq> None))"
    using Suc.IH [OF _ p] Suc.prems by simp
  then have ok1: "hubs_ok t1" by (simp add: shrunk_def)
  have "k < 16" using Suc.prems by simp
  note one = sweep_one [OF ok1 this s]
  show ?case
  proof (intro conjI impI)
    show "shrunk t t'" using IH one shrunk_trans by blast
    show "card (dom (hub_at t')) + r' = card (dom (hub_at t))" using IH one by simp
  next
    assume "r' = 0"
    then have z: "r1 = 0" "r' = r1" using one by auto
    then show "t' = t" using IH one by simp
    fix i
    have "t1 = t" using IH z by simp
    then have all: "node_used (Node t ! i) \<longrightarrow> ParentAddress (Node t ! i) \<noteq> 0 \<longrightarrow>
        xhciTopoNodeFor t (ParentAddress (Node t ! i)) \<noteq> None" if "i < Suc k" for i
      using that IH one z less_Suc_eq by blast
    show "\<forall>i<Suc k. node_used (Node t ! i) \<longrightarrow> ParentAddress (Node t ! i) \<noteq> 0 \<longrightarrow>
        xhciTopoNodeFor t (ParentAddress (Node t ! i)) \<noteq> None" using all by blast
  qed
qed

lemma sweep_loop_closes:
  "hubs_ok t \<Longrightarrow> card (dom (hub_at t)) \<le> n \<Longrightarrow> shrunk t (sweep_loop n t) \<and> closed (sweep_loop n t)"
proof (induction n arbitrary: t)
  case 0
  have "finite (dom (hub_at t))" using 0 by (simp add: dom_hub_at)
  then have "dom (hub_at t) = {}" using 0 by simp
  then show ?case using 0 shrunk_refl by (simp add: closed_def closed_in_def)
next
  case (Suc n)
  obtain t' r' where p: "foldl sweep_step (t, 0) [0..<16] = (t', r')" by fastforce
  note pass = sweep_pass [OF Suc.prems(1) _ p]
  show ?case
  proof (cases "r' = 0")
    case True
    then have "t' = t" "closed t" using pass closedI [OF Suc.prems(1)] by auto
    then show ?thesis using p True shrunk_refl [OF Suc.prems(1)] by simp
  next
    case False
    then have "hubs_ok t'" "card (dom (hub_at t')) \<le> n" using pass Suc.prems by (auto simp: shrunk_def)
    then have "shrunk t' (sweep_loop n t') \<and> closed (sweep_loop n t')" by (rule Suc.IH)
    then show ?thesis using p False pass shrunk_trans by auto
  qed
qed

text \<open>The sweep leaves exactly the greatest closed set: sixteen passes are always enough.\<close>

lemma sweep_exact:
  assumes "hubs_ok t"
  shows "hubs_ok (xhciTopoSweepOrphans t)" "closed (xhciTopoSweepOrphans t)"
    "hub_at (xhciTopoSweepOrphans t) \<subseteq>\<^sub>m hub_at t"
    "closed_in (hub_at t) S \<Longrightarrow> S \<subseteq> dom (hub_at (xhciTopoSweepOrphans t))"
proof -
  have "card (dom (hub_at t)) \<le> 16" using card_hubs [OF assms] slots_le by simp
  note s = sweep_loop_closes [OF assms this]
  show "hubs_ok (xhciTopoSweepOrphans t)" "closed (xhciTopoSweepOrphans t)"
    "hub_at (xhciTopoSweepOrphans t) \<subseteq>\<^sub>m hub_at t"
    "closed_in (hub_at t) S \<Longrightarrow> S \<subseteq> dom (hub_at (xhciTopoSweepOrphans t))"
    using s by (simp_all add: xhciTopoSweepOrphans_def shrunk_def)
qed

section \<open>Pruning a subtree\<close>

definition parent_of :: "xhci_topology \<Rightarrow> (ulong \<times> ulong) set" where
  "parent_of t = {(b, p). \<exists>n. hub_at t b = Some n \<and> ParentAddress n = p}"

text \<open>\<open>b\<close> is \<open>a\<close> or hangs, however deep, below it.\<close>

definition below :: "xhci_topology \<Rightarrow> ulong \<Rightarrow> ulong \<Rightarrow> bool" where
  "below t b a \<longleftrightarrow> (b, a) \<in> (parent_of t)\<^sup>*"

lemma below_refl [simp]: "below t a a"
  by (simp add: below_def)

lemma below_step: "hub_at t b = Some n \<Longrightarrow> below t (ParentAddress n) a \<Longrightarrow> below t b a"
  unfolding below_def by (rule converse_rtrancl_into_rtrancl) (auto simp: parent_of_def)

lemma prune_exact:
  assumes ok: "hubs_ok t" and cl: "closed t"
  shows "hubs_ok (xhciTopoPruneFrom t a)" "closed (xhciTopoPruneFrom t a)"
    "hub_at (xhciTopoPruneFrom t a) b = (if hub_at t a \<noteq> None \<and> below t b a then None else hub_at t b)"
proof -
  have all: "hubs_ok (xhciTopoPruneFrom t a) \<and> closed (xhciTopoPruneFrom t a) \<and>
    hub_at (xhciTopoPruneFrom t a) b = (if hub_at t a \<noteq> None \<and> below t b a then None else hub_at t b)"
  proof (cases "xhciTopoNodeFor t a")
    case None
    then show ?thesis using assms by (simp add: xhciTopoPruneFrom_def hub_at_none)
  next
    case (Some i)
    have slot: "i \<in> used_slots t" and addr: "NodeAddress (Node t ! i) = a" using Some node_for_some [OF ok] by auto
    define u where "u = xhciTopoNodeRemove t i"
    note rem = remove_at [OF ok slot, folded u_def, unfolded addr]
    have p: "xhciTopoPruneFrom t a = xhciTopoSweepOrphans u" using Some by (simp add: xhciTopoPruneFrom_def u_def)
    note sw = sweep_exact [OF rem(1)]
    let ?r = "xhciTopoSweepOrphans u"
    have in_t: "hub_at t a \<noteq> None" using node_for_hub [OF Some] by simp
    have sub: "hub_at t c = Some n \<and> c \<noteq> a" if "hub_at ?r c = Some n" for c n
    proof -
      have "hub_at ?r c = ((hub_at t)(a := None)) c" using sw(3) that unfolding rem(2) map_le_def by blast
      then show ?thesis using that by (cases "c = a") simp_all
    qed
    let ?S = "{c \<in> dom (hub_at t). \<not> below t c a}"
    have "closed_in (hub_at u) ?S"
      unfolding closed_in_def rem(2)
    proof (intro conjI subsetI ballI)
      fix c assume "c \<in> ?S"
      then show "c \<in> dom ((hub_at t)(a := None))" by auto
    next
      fix c assume c: "c \<in> ?S"
      then obtain n where n: "hub_at t c = Some n" by auto
      have "c \<noteq> a" using c below_refl [of t a] by auto
      have "ParentAddress n = 0 \<or> ParentAddress n \<in> ?S"
        using closedD [OF cl n] below_step [OF n] c by auto
      then show "ParentAddress (the (((hub_at t)(a := None)) c)) = 0 \<or> ParentAddress (the (((hub_at t)(a := None)) c)) \<in> ?S"
        using n \<open>c \<noteq> a\<close> by simp
    qed
    then have kept: "c \<in> dom (hub_at ?r)" if "hub_at t c \<noteq> None" "\<not> below t c a" for c
      using sw(4) that by blast
    have gone: "hub_at ?r c = None" if "below t c a" for c
      using that unfolding below_def
    proof (induction rule: converse_rtrancl_induct)
      case base
      then show ?case using sub [of a] by (cases "hub_at ?r a") auto
    next
      case (step c p)
      show ?case
      proof (rule ccontr)
        assume "hub_at ?r c \<noteq> None"
        then obtain n where n: "hub_at ?r c = Some n" by blast
        then have "ParentAddress n = p" using sub [OF n] step.hyps(1) by (auto simp: parent_of_def)
        then have "p = 0" using closedD [OF sw(2) n] step.IH by auto
        moreover have "p \<noteq> 0"
        proof
          assume "p = 0"
          then have "(0, a) \<in> (parent_of t)\<^sup>*" using step.hyps(2) by simp
          then have "a = 0" by (rule converse_rtranclE) (auto simp: parent_of_def)
          then show False using in_t by simp
        qed
        ultimately show False by simp
      qed
    qed
    have "hub_at ?r b = (if below t b a then None else hub_at t b)"
    proof (cases "below t b a")
      case False
      then show ?thesis using kept [of b] sub [of b] by (cases "hub_at t b"; cases "hub_at ?r b") auto
    qed (simp add: gone)
    then show ?thesis using sw p in_t by simp
  qed
  then show "hubs_ok (xhciTopoPruneFrom t a)" "closed (xhciTopoPruneFrom t a)"
    "hub_at (xhciTopoPruneFrom t a) b = (if hub_at t a \<noteq> None \<and> below t b a then None else hub_at t b)"
    by blast+
qed

end
