(* ===== verification/Xhci_Topo_Steps.thy ===== *)
theory Xhci_Topo_Steps
  imports Xhci_Topo_Prune
begin

text \<open>
  The graphs the driver can reach, by any sequence of the file's operations in which a hub is
  attached only while it has no position yet, and the invariant of their positions: every hub
  below another continues its parent's route by one tier.
\<close>

section \<open>Reachable graphs\<close>

definition placed :: "xhci_topology \<Rightarrow> ulong \<Rightarrow> bool" where
  "placed t a \<longleftrightarrow> (\<exists>n. hub_at t a = Some n \<and> NodeRootPort n \<noteq> 0)"

inductive topo_reachable :: "xhci_topology \<Rightarrow> bool" where
  start: "length (Node t) = 16 \<Longrightarrow> XhciTopoReset (Some t) = Some t' \<Longrightarrow> topo_reachable t'"
| attach_root: "topo_reachable t \<Longrightarrow> \<not> placed t a \<Longrightarrow>
    XhciTopoAttachRoot (Some t) a rootPort gen speed = (ok, Some t') \<Longrightarrow> topo_reachable t'"
| attach_child: "topo_reachable t \<Longrightarrow> \<not> placed t a \<Longrightarrow>
    XhciTopoAttachChild (Some t) a (XhciTopoChildOf (Some t) hub port) speed = (ok, Some t') \<Longrightarrow> topo_reachable t'"
| detach: "topo_reachable t \<Longrightarrow> XhciTopoDetach (Some t) a = Some t' \<Longrightarrow> topo_reachable t'"
| migrate: "topo_reachable t \<Longrightarrow> XhciTopoMigrate (Some t) old new = Some t' \<Longrightarrow> topo_reachable t'"
| claim: "topo_reachable t \<Longrightarrow> XhciTopoClaimChild (Some t) out = (ok, Some t', out') \<Longrightarrow> topo_reachable t'"
| drop: "topo_reachable t \<Longrightarrow> XhciTopoDropPending (Some t) = Some t' \<Longrightarrow> topo_reachable t'"
| suppress: "topo_reachable t \<Longrightarrow> XhciTopoSuppressClaim (Some t) = Some t' \<Longrightarrow> topo_reachable t'"
| observe_setup: "topo_reachable t \<Longrightarrow> XhciTopoObserveSetup (Some t) a s sn = (Some t', sn') \<Longrightarrow> topo_reachable t'"
| observe_reply: "topo_reachable t \<Longrightarrow> XhciTopoObserveReply (Some t) sn d len gone = (ok, Some t', gone') \<Longrightarrow> topo_reachable t'"
| set_interface: "topo_reachable t \<Longrightarrow> XhciTopoApplySetInterface (Some t) a alternate = Some t' \<Longrightarrow> topo_reachable t'"
| forget: "topo_reachable t \<Longrightarrow> XhciTopoForgetAlternate (Some t) a = Some t' \<Longrightarrow> topo_reachable t'"

section \<open>Positions\<close>

definition clamp :: "ulong \<Rightarrow> ulong" where
  "clamp port = (if port > XHCI_TOPO_ROUTE_MAX_PORT then XHCI_TOPO_ROUTE_MAX_PORT else port)"

text \<open>A node sits right: at the top with an empty route, or one tier below its parent.\<close>

definition sits :: "(ulong \<rightharpoonup> xhci_topo_node) \<Rightarrow> xhci_topo_node \<Rightarrow> bool" where
  "sits g n \<longleftrightarrow>
     (if ParentAddress n = 0 then NodeTier n = 0 \<and> NodeRoute n = 0
      else \<exists>m. g (ParentAddress n) = Some m \<and> NodeRootPort m \<noteq> 0 \<and> NodeRootPort n = NodeRootPort m \<and>
             unat (NodeTier m) \<le> 4 \<and> NodeTier n = NodeTier m + 1 \<and> ParentPort n \<noteq> 0 \<and>
             NodeRoute n = NodeRoute m OR push_bit (unat (4 * NodeTier m)) (clamp (ParentPort n)))"

definition positioned :: "xhci_topology \<Rightarrow> bool" where
  "positioned t \<longleftrightarrow> (\<forall>a n. hub_at t a = Some n \<longrightarrow> sits (hub_at t) n)"

lemma positionedD: "positioned t \<Longrightarrow> hub_at t a = Some n \<Longrightarrow> sits (hub_at t) n"
  by (simp add: positioned_def)

lemma positioned_closed: "positioned t \<Longrightarrow> closed t"
  unfolding closed_def closed_in_def positioned_def sits_def by (force split: if_splits)

definition graph_ok :: "xhci_topology \<Rightarrow> bool" where
  "graph_ok t \<longleftrightarrow> hubs_ok t \<and> positioned t"

text \<open>The part of a node the position depends on.\<close>

definition place :: "xhci_topo_node \<Rightarrow> ulong \<times> ulong \<times> ulong \<times> ulong \<times> ulong" where
  "place n = (NodeTier n, NodeRoute n, NodeRootPort n, ParentAddress n, ParentPort n)"

lemma sits_place:
  assumes "place n' = place n" and "sits g n"
    and "\<And>m. g (ParentAddress n) = Some m \<Longrightarrow> \<exists>m'. g' (ParentAddress n) = Some m' \<and> place m' = place m"
  shows "sits g' n'"
  using assms unfolding sits_def place_def by (auto split: if_splits)

text \<open>\<open>grown t t'\<close>: every hub keeps its place; a new one has no parent, tier and route.\<close>

definition grown :: "xhci_topology \<Rightarrow> xhci_topology \<Rightarrow> bool" where
  "grown t t' \<longleftrightarrow>
     hubs_ok t' \<and>
     (\<forall>a n. hub_at t a = Some n \<longrightarrow> (\<exists>n'. hub_at t' a = Some n' \<and> place n' = place n)) \<and>
     (\<forall>a n'. hub_at t' a = Some n' \<longrightarrow>
        (\<exists>n. hub_at t a = Some n \<and> place n' = place n) \<or>
        ParentAddress n' = 0 \<and> NodeTier n' = 0 \<and> NodeRoute n' = 0)"

lemma grown_refl: "hubs_ok t \<Longrightarrow> grown t t"
  by (simp add: grown_def)

lemma grown_table: "grown t t' \<Longrightarrow> hubs_ok t'"
  by (simp add: grown_def)

lemma grown_trans:
  assumes tu: "grown t u" and uv: "grown u v"
  shows "grown t v"
  unfolding grown_def
proof (intro conjI allI impI)
  show "hubs_ok v" using uv by (rule grown_table)
  fix a n assume "hub_at t a = Some n"
  then obtain m where m: "hub_at u a = Some m" "place m = place n" using tu unfolding grown_def by blast
  then obtain k where "hub_at v a = Some k" "place k = place m" using uv unfolding grown_def by blast
  then show "\<exists>n'. hub_at v a = Some n' \<and> place n' = place n" using m(2) by auto
next
  fix a n' assume "hub_at v a = Some n'"
  then consider m where "hub_at u a = Some m" "place n' = place m"
    | "ParentAddress n' = 0" "NodeTier n' = 0" "NodeRoute n' = 0"
    using uv unfolding grown_def by blast
  then show "(\<exists>n. hub_at t a = Some n \<and> place n' = place n) \<or>
      ParentAddress n' = 0 \<and> NodeTier n' = 0 \<and> NodeRoute n' = 0"
  proof cases
    case 1
    then consider n where "hub_at t a = Some n" "place m = place n"
      | "ParentAddress m = 0" "NodeTier m = 0" "NodeRoute m = 0"
      using tu unfolding grown_def by blast
    then show ?thesis using 1(2) by cases (auto simp: place_def)
  qed blast
qed

lemma grown_ok:
  assumes "graph_ok t" and "grown t t'"
  shows "graph_ok t'"
  unfolding graph_ok_def positioned_def
proof (intro conjI allI impI)
  show "hubs_ok t'" using assms(2) by (rule grown_table)
  fix a n' assume n': "hub_at t' a = Some n'"
  show "sits (hub_at t') n'"
  proof (cases "\<exists>n. hub_at t a = Some n \<and> place n' = place n")
    case True
    then obtain n where n: "hub_at t a = Some n" "place n' = place n" by blast
    then show ?thesis
      using sits_place [OF n(2) positionedD [OF _ n(1)], of "hub_at t'"] assms unfolding graph_ok_def grown_def by blast
  next
    case False
    then have "ParentAddress n' = 0 \<and> NodeTier n' = 0 \<and> NodeRoute n' = 0"
      using assms(2) n' unfolding grown_def by blast
    then show ?thesis by (simp add: sits_def)
  qed
qed

lemma grown_frame:
  assumes "hubs_ok t" and "Node t' = Node t" and "TopoCount t' = TopoCount t"
    and "Pending t' \<Longrightarrow> Pending t \<and> PendingHub t' = PendingHub t \<or> hub_at t (PendingHub t') \<noteq> None"
  shows "grown t t'"
  using table_frame [OF assms] same_nodes [OF assms(2)] unfolding grown_def by simp

lemma grown_update:
  assumes ok: "hubs_ok t" and i: "xhciTopoNodeFor t a = Some i"
    and keep: "\<And>n. NodeAddress (f n) = NodeAddress n" "\<And>n. node_used n \<longrightarrow> node_used (f n)" "\<And>n. place (f n) = place n"
  shows "grown t (node_update i f t)" "xhciTopoNodeFor (node_update i f t) a = Some i"
proof -
  have h: "hub_at t a = Some (Node t ! i)" by (rule node_for_hub [OF i])
  note u = update_at [OF ok i, of f] keep hub_at_address [OF ok h]
  show "xhciTopoNodeFor (node_update i f t) a = Some i" using u by simp
  have "hub_at (node_update i f t) = (hub_at t)(a \<mapsto> f (Node t ! i))" "hubs_ok (node_update i f t)" using u by simp_all
  then show "grown t (node_update i f t)"
    unfolding grown_def using h keep(3) by auto
qed

lemma grown_add:
  assumes ok: "hubs_ok t" and add: "xhciTopoNodeAdd t a = (r, t')"
  shows "grown t t'" "r \<noteq> None \<Longrightarrow> xhciTopoNodeFor t' a = r"
proof -
  note r = add_at [OF ok add]
  show "grown t t'"
    unfolding grown_def using r(1,2) by (auto simp: blank_node_def)
  show "r \<noteq> None \<Longrightarrow> xhciTopoNodeFor t' a = r" using r(3) by simp
qed

text \<open>Taking hubs out.\<close>

lemma shrink_ok:
  assumes "graph_ok t" and "hubs_ok t'" and sub: "hub_at t' \<subseteq>\<^sub>m hub_at t" and cl: "closed t'"
  shows "graph_ok t'"
  unfolding graph_ok_def positioned_def
proof (intro conjI allI impI)
  fix a n assume n: "hub_at t' a = Some n"
  have old: "hub_at t b = Some m" if "hub_at t' b = Some m" for b m
    using sub that unfolding map_le_def by (metis domI)
  have s: "sits (hub_at t) n" using assms(1) old [OF n] by (auto simp: graph_ok_def positioned_def)
  have "hub_at t' (ParentAddress n) = Some m" if "hub_at t (ParentAddress n) = Some m" "ParentAddress n \<noteq> 0" for m
    using closedD [OF cl n] that old by (cases "hub_at t' (ParentAddress n)") auto
  then show "sits (hub_at t') n" using s unfolding sits_def by auto
qed (rule assms(2))

lemma prune_ok:
  assumes "graph_ok t"
  shows "graph_ok (xhciTopoPruneFrom t a)"
proof (rule shrink_ok [OF assms])
  have ok: "hubs_ok t" "closed t" using assms positioned_closed by (auto simp: graph_ok_def)
  note p = prune_exact [OF ok, of a]
  show "hubs_ok (xhciTopoPruneFrom t a)" "closed (xhciTopoPruneFrom t a)" using p by blast+
  show "hub_at (xhciTopoPruneFrom t a) \<subseteq>\<^sub>m hub_at t"
    unfolding map_le_def using p(3) by (auto simp: dom_def split: if_splits)
qed

lemma prune_child_ok: "graph_ok t \<Longrightarrow> graph_ok (xhciTopoPruneChildAt t hub port)"
  by (auto simp: xhciTopoPruneChildAt_def prune_ok split: option.split)

section \<open>Every operation keeps the graph\<close>

lemma promote_grown:
  assumes ok: "hubs_ok t" and p: "xhciTopoPromote t a = (r, t')"
  shows "grown t t'" "r \<noteq> None \<Longrightarrow> xhciTopoNodeFor t' a = r"
proof -
  obtain s u where add: "xhciTopoNodeAdd t a = (s, u)" by fastforce
  note g = grown_add [OF ok add]
  have okU: "hubs_ok u" using g(1) by (rule grown_table)
  have "grown t t' \<and> (r \<noteq> None \<longrightarrow> xhciTopoNodeFor t' a = r)"
  proof (cases s)
    case None
    then show ?thesis using p add g by (simp add: xhciTopoPromote_def)
  next
    case (Some i)
    then have i: "xhciTopoNodeFor u a = Some i" using g(2) by simp
    let ?f = "\<lambda>n :: xhci_topo_node. n\<lparr>NodeFlags := NodeFlags n OR XHCI_TOPO_F_HUB\<rparr>"
    have keep: "NodeAddress (?f n) = NodeAddress n" "node_used n \<longrightarrow> node_used (?f n)" "place (?f n) = place n" for n
      by (simp_all add: place_def bit_or_iff)
    note up = grown_update [where f = ?f, OF okU i keep]
    have fr: "grown (node_update i ?f u) ((node_update i ?f u)\<lparr>Promotions := Promotions u + 1\<rparr>)"
      using up(1) by (intro grown_frame) (auto dest: grown_table)
    have "xhciTopoNodeFor ((node_update i ?f u)\<lparr>Promotions := Promotions u + 1\<rparr>) a = Some i"
      using up(2) same_nodes(3) [of "(node_update i ?f u)\<lparr>Promotions := Promotions u + 1\<rparr>" "node_update i ?f u"] by simp
    then show ?thesis
      using p add Some i g(1) grown_trans [OF g(1) grown_trans [OF up(1) fr]]
      by (auto simp: xhciTopoPromote_def split: if_splits)
  qed
  then show "grown t t'" "r \<noteq> None \<Longrightarrow> xhciTopoNodeFor t' a = r" by blast+
qed

lemma port_request_grown:
  assumes ok: "hubs_ok t" and a: "a \<noteq> 0" and p: "xhciTopoObservePortRequest t a s sn = (t', sn')"
  shows "grown t t'"
proof -
  obtain r u where pr: "xhciTopoPromote t a = (r, u)" by fastforce
  note g = promote_grown [OF ok pr]
  let ?port = "ucast (wIndex s) AND 0xFF :: ulong"
  let ?f = "\<lambda>n :: xhci_topo_node. n\<lparr>NodePortCount := ?port\<rparr>"
  define v where "v = (case r of None \<Rightarrow> u
     | Some i \<Rightarrow> if ?port \<noteq> 0 \<and> ?port > NodePortCount (Node u ! i) \<and> NodeFlags (Node u ! i) AND XHCI_TOPO_F_DESCRIPTOR = 0
                then node_update i ?f u else u)"
  have uv: "grown u v \<and> (r \<noteq> None \<longrightarrow> xhciTopoNodeFor v a = r)"
  proof (cases r)
    case None
    then show ?thesis using g(1) grown_refl grown_table by (auto simp: v_def)
  next
    case (Some i)
    then have i: "xhciTopoNodeFor u a = Some i" using g(2) by simp
    have keep: "NodeAddress (?f n) = NodeAddress n" "node_used n \<longrightarrow> node_used (?f n)" "place (?f n) = place n" for n
      by (simp_all add: place_def)
    show ?thesis
      using grown_update [where f = ?f, OF grown_table [OF g(1)] i keep] grown_refl [OF grown_table [OF g(1)]] i Some
      by (simp add: v_def)
  qed
  have okV: "hubs_ok v" using uv grown_table by blast
  have fin: "grown v t'" if "Node t' = Node v" "TopoCount t' = TopoCount v"
      "Pending t' = Pending v \<and> PendingHub t' = PendingHub v \<or> r \<noteq> None \<and> PendingHub t' = a"
    using that okV uv by (intro grown_frame) (auto simp: hub_at_none)
  consider "t' = u" | "Node t' = Node v" "TopoCount t' = TopoCount v"
      "Pending t' = Pending v \<and> PendingHub t' = PendingHub v \<or> r \<noteq> None \<and> PendingHub t' = a"
    using p by (auto simp: xhciTopoObservePortRequest_def pr v_def [symmetric] Let_def split: if_splits)
  then show ?thesis
  proof cases
    case 1
    then show ?thesis using g(1) by simp
  next
    case 2
    then show ?thesis using fin g(1) uv grown_trans by blast
  qed
qed

lemma observe_setup_grown:
  assumes ok: "hubs_ok t" and s: "XhciTopoObserveSetup (Some t) a st sn = (Some t', sn')"
  shows "grown t t'"
proof -
  have same: "grown t t" by (rule grown_refl [OF ok])
  obtain r u where pr: "xhciTopoPromote t a = (r, u)" by fastforce
  have u: "grown t u" by (rule promote_grown(1) [OF ok pr])
  consider "t' = t" | "t' = u" | x y where "a \<noteq> 0" "xhciTopoObservePortRequest t a x y = (t', sn')"
    using s by (auto simp: XhciTopoObserveSetup_def pr Let_def split: if_splits option.splits prod.splits)
  then show ?thesis using same u port_request_grown [OF ok] by cases auto
qed

lemma used_or: "bit (x :: ulong) 0 \<Longrightarrow> bit (x OR y) 0"
  by (simp add: bit_or_iff)

lemma used_and_not: "bit (x :: ulong) 0 \<Longrightarrow> \<not> bit y 0 \<Longrightarrow> bit (x AND NOT y) 0"
  by (simp add: bit_and_iff bit_not_iff)

lemma flag_update:
  assumes "hubs_ok t" and "xhciTopoNodeFor t a = Some i"
  shows "grown t (node_update i (\<lambda>n. n\<lparr>NodeFlags := NodeFlags n OR y\<rparr>) t)"
    "xhciTopoNodeFor (node_update i (\<lambda>n. n\<lparr>NodeFlags := NodeFlags n OR y\<rparr>) t) a = Some i"
    "\<not> bit y 0 \<Longrightarrow> grown t (node_update i (\<lambda>n. n\<lparr>NodeFlags := NodeFlags n AND NOT y\<rparr>) t)"
    "\<not> bit y 0 \<Longrightarrow> xhciTopoNodeFor (node_update i (\<lambda>n. n\<lparr>NodeFlags := NodeFlags n AND NOT y\<rparr>) t) a = Some i"
  by (rule grown_update [OF assms]; simp add: place_def used_or used_and_not)+

lemma even_flags: "\<not> bit (16 :: ulong) 0" "\<not> bit (48 :: ulong) 0" "\<not> bit (8 :: ulong) 0" "\<not> bit (64 :: ulong) 0"
  by (simp_all add: bit_0)

lemma used_fold: "bit (x :: ulong) 0 \<Longrightarrow> bit (x OR 8 OR 4) 0" "bit (x :: ulong) 0 \<Longrightarrow> bit (x AND - 9 OR 4) 0"
proof -
  have "(- 9 :: ulong) = NOT 8" by simp
  then show "bit (x :: ulong) 0 \<Longrightarrow> bit (x AND - 9 OR 4) 0" by (simp only: used_or used_and_not even_flags(3) not_False_eq_True)
qed (simp add: used_or)

lemma set_interface_grown:
  assumes ok: "hubs_ok t" and s: "XhciTopoApplySetInterface (Some t) a alternate = Some t'"
  shows "grown t t'"
proof -
  consider "t' = t" | i where "xhciTopoNodeFor t a = Some i"
    "t' = (let u = node_update i (\<lambda>n. n\<lparr>NodeFlags := NodeFlags n OR XHCI_TOPO_F_ALT_SEEN\<rparr>)
                    (t\<lparr>AltSettings := AltSettings t + 1\<rparr>)
           in if alternate \<noteq> 0 then node_update i (\<lambda>n. n\<lparr>NodeFlags := NodeFlags n OR XHCI_TOPO_F_MTT\<rparr>) u
              else node_update i (\<lambda>n. n\<lparr>NodeFlags := NodeFlags n AND NOT XHCI_TOPO_F_MTT\<rparr>) u)"
    using s by (auto simp: XhciTopoApplySetInterface_def Let_def split: if_splits option.splits)
  then show ?thesis
  proof cases
    case 2
    let ?t = "t\<lparr>AltSettings := AltSettings t + 1\<rparr>"
    have t: "grown t ?t" using ok by (intro grown_frame) auto
    have i: "xhciTopoNodeFor ?t a = Some i" using 2(1) same_nodes(3) [of ?t t] by simp
    note u = flag_update [OF grown_table [OF t] i, where y = XHCI_TOPO_F_ALT_SEEN]
    note v = flag_update [OF grown_table [OF u(1)] u(2), where y = XHCI_TOPO_F_MTT]
    note tu = grown_trans [OF t u(1)]
    show ?thesis
    proof (cases "alternate \<noteq> 0")
      case True
      then show ?thesis using 2(2) grown_trans [OF tu v(1)] by (simp only: Let_def if_True simp_thms)
    next
      case False
      then show ?thesis using 2(2) grown_trans [OF tu v(3) [OF even_flags(1)]] by (simp only: Let_def if_False simp_thms)
    qed
  qed (use grown_refl [OF ok] in simp)
qed

lemma forget_grown:
  assumes ok: "hubs_ok t" and s: "XhciTopoForgetAlternate (Some t) a = Some t'"
  shows "grown t t'"
proof -
  let ?f = "node_update"
  consider "t' = t" | i u where "xhciTopoNodeFor t a = Some i" "u = t \<or> u = t\<lparr>AltForgotten := AltForgotten t + 1\<rparr>"
    "t' = node_update i (\<lambda>n. n\<lparr>NodeFlags := NodeFlags n AND NOT (XHCI_TOPO_F_MTT OR XHCI_TOPO_F_ALT_SEEN)\<rparr>) u"
    using s by (auto simp: XhciTopoForgetAlternate_def Let_def split: if_splits option.splits)
  then show ?thesis
  proof cases
    case 2
    have t: "grown t u" using 2(2) ok by (intro grown_frame) auto
    have i: "xhciTopoNodeFor u a = Some i" using 2(1,2) same_nodes(3) [of u t] by auto
    have m: "\<not> bit (XHCI_TOPO_F_MTT OR XHCI_TOPO_F_ALT_SEEN) 0" by (simp add: bit_or_iff bit_0)
    show ?thesis unfolding 2(3) by (rule grown_trans [OF t flag_update(3) [OF grown_table [OF t] i m]])
  qed (use grown_refl [OF ok] in simp)
qed

lemma hub_descriptor_grown:
  assumes ok: "hubs_ok t" and i: "xhciTopoNodeFor t a = Some i"
    and f: "xhciTopoFoldHubDescriptor t i d len = (r, t')"
  shows "grown t t'"
proof -
  let ?t = "t\<lparr>Descriptors := Descriptors t + 1\<rparr>"
  let ?f = "\<lambda>n :: xhci_topo_node. let n = n\<lparr>DescriptorType := ucast (d ! 1)\<rparr>;
                    n = (if DescriptorType n = XHCI_TOPO_DESC_TYPE_HUB
                         then n\<lparr>NodeFlags := NodeFlags n OR XHCI_TOPO_F_DESC_TYPE_OK\<rparr>
                         else n\<lparr>NodeFlags := NodeFlags n AND NOT XHCI_TOPO_F_DESC_TYPE_OK\<rparr>)
                in n\<lparr>NodePortCount := ucast (d ! 2),
                     Characteristics := ucast (d ! 3) OR push_bit 8 (ucast (d ! 4)),
                     NodeFlags := NodeFlags n OR XHCI_TOPO_F_DESCRIPTOR\<rparr>"
  have t: "grown t ?t" using ok by (intro grown_frame) auto
  have i': "xhciTopoNodeFor ?t a = Some i" using i same_nodes(3) [of ?t t] by simp
  have keep: "NodeAddress (?f n) = NodeAddress n" "node_used n \<longrightarrow> node_used (?f n)" "place (?f n) = place n" for n
    by (simp_all add: place_def Let_def used_or used_fold(2))
  note u = grown_update [where f = ?f, OF grown_table [OF t] i' keep]
  consider "Node t' = Node ?t" "TopoCount t' = TopoCount ?t" "Pending t' = Pending ?t" "PendingHub t' = PendingHub ?t"
    | "Node t' = Node (node_update i ?f ?t)" "TopoCount t' = TopoCount (node_update i ?f ?t)"
      "Pending t' = Pending (node_update i ?f ?t)" "PendingHub t' = PendingHub (node_update i ?f ?t)"
    using f unfolding xhciTopoFoldHubDescriptor_def Let_def by (auto split: if_splits)
  then show ?thesis
  proof cases
    case 1
    then have "grown ?t t'" using grown_table [OF t] by (intro grown_frame) auto
    then show ?thesis by (rule grown_trans [OF t])
  next
    case 2
    then have "grown (node_update i ?f ?t) t'" using grown_table [OF u(1)] by (intro grown_frame) auto
    then show ?thesis by (rule grown_trans [OF grown_trans [OF t u(1)]])
  qed
qed

lemma port_gone_ok:
  assumes g: "graph_ok t" and i: "xhciTopoNodeFor t a = Some i" and p: "port_gone t i port rc gone = (r, t', gone')"
  shows "graph_ok t'"
proof -
  have ok: "hubs_ok t" using g by (simp add: graph_ok_def)
  let ?f = "\<lambda>n :: xhci_topo_node. n\<lparr>NodeDisconnects := NodeDisconnects n + 1\<rparr>"
  have keep: "NodeAddress (?f n) = NodeAddress n" "node_used n \<longrightarrow> node_used (?f n)" "place (?f n) = place n" for n
    by (simp_all add: place_def)
  note u = grown_update [where f = ?f, OF ok i keep]
  obtain v h where v: "t' = xhciTopoPruneChildAt v h port" "Node v = Node (node_update i ?f t)"
    "TopoCount v = TopoCount (node_update i ?f t)" "Pending v = Pending (node_update i ?f t)"
    "PendingHub v = PendingHub (node_update i ?f t)"
    using p by (auto simp: port_gone_def Let_def)
  have "grown (node_update i ?f t) v" using v grown_table [OF u(1)] by (intro grown_frame) auto
  then have "graph_ok v" using grown_ok [OF g] grown_trans [OF u(1)] by blast
  then show ?thesis unfolding v(1) by (rule prune_child_ok)
qed

lemma port_gone_graph:
  assumes "graph_ok t" and "xhciTopoNodeFor t a = Some i"
  shows "graph_ok (fst (snd (port_gone t i port rc gone)))"
proof -
  obtain r t' g' where p: "port_gone t i port rc gone = (r, t', g')" by (cases "port_gone t i port rc gone") auto
  then show ?thesis using port_gone_ok [OF assms p] by simp
qed

lemma graph_if:
  "(c \<Longrightarrow> graph_ok (fst (snd x))) \<Longrightarrow> (\<not> c \<Longrightarrow> graph_ok (fst (snd y))) \<Longrightarrow> graph_ok (fst (snd (if c then x else y)))"
  by simp

lemma port_status_ok:
  assumes g: "graph_ok t" and i: "xhciTopoNodeFor t a = Some i"
    and p: "xhciTopoFoldPortStatus t i port d len gone = (r, t', gone')"
  shows "graph_ok t'"
proof -
  have ok: "hubs_ok t" using g by (simp add: graph_ok_def)
  let ?t = "t\<lparr>PortStatuses := PortStatuses t + 1\<rparr>"
  let ?m = "push_bit (unat (port - 1)) 1 :: ulong"
  let ?on = "\<lambda>n :: xhci_topo_node. n\<lparr>Connected := Connected n OR ?m\<rparr>" and ?off = "\<lambda>n :: xhci_topo_node. n\<lparr>Connected := Connected n AND NOT ?m\<rparr>"
  have t: "grown t ?t" using ok by (intro grown_frame) auto
  have i': "xhciTopoNodeFor ?t a = Some i" using i same_nodes(3) [of ?t t] by simp
  have keep: "NodeAddress (?on n) = NodeAddress n" "node_used n \<longrightarrow> node_used (?on n)" "place (?on n) = place n"
    "NodeAddress (?off n) = NodeAddress n" "node_used n \<longrightarrow> node_used (?off n)" "place (?off n) = place n" for n
    by (simp_all add: place_def)
  note on = grown_update [where f = ?on, OF grown_table [OF t] i' keep(1-3)]
  note off = grown_update [where f = ?off, OF grown_table [OF t] i' keep(4-6)]
  note g1 = grown_ok [OF g t] and g2 = grown_ok [OF g grown_trans [OF t off(1)]]
  have g3: "graph_ok (node_update i ?on ?t)" by (rule grown_ok [OF g grown_trans [OF t on(1)]])
  have wide: "graph_ok (?t\<lparr>PortStatusesWide := PortStatusesWide ?t + 1\<rparr>)"
    by (rule grown_ok [OF g1 grown_frame]) (use g1 in \<open>auto simp: graph_ok_def\<close>)
  note gone_ok = port_gone_graph [OF g1 i'] port_gone_graph [OF g2 off(2)]
  have "graph_ok (fst (snd (xhciTopoFoldPortStatus t i port d len gone)))"
    unfolding xhciTopoFoldPortStatus_def Let_def
    by (intro graph_if gone_ok) (simp_all only: fst_conv snd_conv g1 g3 wide)
  then show ?thesis unfolding p by simp
qed

lemma observe_reply_ok:
  assumes g: "graph_ok t" and r: "XhciTopoObserveReply (Some t) sn d len gone = (ok, Some t', gone')"
  shows "graph_ok t'"
proof -
  have tok: "hubs_ok t" using g by (simp add: graph_ok_def)
  consider "t' = t"
    | s i x where "xhciTopoNodeFor t s = Some i" "xhciTopoFoldHubDescriptor t i x len = (ok, t')"
    | s i port x y where "xhciTopoNodeFor t s = Some i" "xhciTopoFoldPortStatus t i port x len y = (ok, t', gone')"
    using r by (auto simp: XhciTopoObserveReply_def Let_def split: if_splits option.splits topo_reply.splits prod.splits)
  then show ?thesis
  proof cases
    case 2
    then show ?thesis using grown_ok [OF g hub_descriptor_grown [OF tok]] by blast
  next
    case 3
    then show ?thesis using port_status_ok [OF g] by blast
  qed (use g in simp)
qed

end
