(* ===== verification/Xhci_Topo_Reach.thy ===== *)
theory Xhci_Topo_Reach
  imports Xhci_Topo_Steps
begin

text \<open>
  Attaching, migrating and claiming keep the graph, so every reachable graph has a sound table and
  sound positions.
\<close>

section \<open>Attaching\<close>

lemma tier_bound:
  assumes "graph_ok t" and "hub_at t a = Some n"
  shows "unat (NodeTier n) \<le> 5"
proof -
  have "sits (hub_at t) n" using assms by (auto simp: graph_ok_def positioned_def)
  then show ?thesis
  proof (cases "ParentAddress n = 0")
    case False
    then obtain m :: xhci_topo_node where "unat (NodeTier m) \<le> 4" "NodeTier n = NodeTier m + 1"
      using \<open>sits (hub_at t) n\<close> unfolding sits_def by (simp only: if_False) blast
    then show ?thesis using unat_add_no_wrap [of "NodeTier m" 1] by simp
  qed (simp add: sits_def)
qed

lemma unplaced_childless:
  assumes "graph_ok t" and "\<not> placed t a" and "hub_at t b = Some n" and "a \<noteq> 0"
  shows "ParentAddress n \<noteq> a"
proof
  assume p: "ParentAddress n = a"
  have "sits (hub_at t) n" using assms(1,3) by (auto simp: graph_ok_def positioned_def)
  then show False using p assms(2,4) by (auto simp: sits_def placed_def)
qed

lemma attach_at:
  assumes g: "graph_ok t" and a: "a \<noteq> 0" and np: "\<not> placed t a" and i: "xhciTopoNodeFor t a = Some i"
    and keep: "NodeAddress (f (Node t ! i)) = a" "node_used (f (Node t ! i))"
    and s: "sits (hub_at t) (f (Node t ! i))" and self: "ParentAddress (f (Node t ! i)) \<noteq> a"
  shows "graph_ok (node_update i f t)" "xhciTopoNodeFor (node_update i f t) a = Some i"
proof -
  have ok: "hubs_ok t" using g by (simp add: graph_ok_def)
  note u = update_at [where f = f, OF ok i keep]
  show "xhciTopoNodeFor (node_update i f t) a = Some i" by (rule u(3))
  have keeps: "sits (hub_at (node_update i f t)) n" if "sits (hub_at t) n" "ParentAddress n \<noteq> a" for n
    using that unfolding u(2) sits_def by simp
  show "graph_ok (node_update i f t)"
    unfolding graph_ok_def positioned_def
  proof (intro conjI allI impI)
    fix b n assume n: "hub_at (node_update i f t) b = Some n"
    show "sits (hub_at (node_update i f t)) n"
    proof (cases "b = a")
      case True
      then have "n = f (Node t ! i)" using n u(2) by simp
      then show ?thesis using keeps s self by simp
    next
      case False
      then have "hub_at t b = Some n" using n u(2) by simp
      then show ?thesis
        using keeps unplaced_childless [OF g np _ a] g by (auto simp: graph_ok_def positioned_def)
    qed
  qed (rule u(1))
qed

lemma note_position_grown:
  assumes ok: "hubs_ok t" and i: "xhciTopoNodeFor t a = Some i"
  shows "grown t (xhciTopoNotePosition t i)"
proof -
  let ?u = "if NodeTier (Node t ! i) > MaxTier t then t\<lparr>MaxTier := NodeTier (Node t ! i)\<rparr> else t"
  have n: "Node ?u = Node t" by simp
  have p: "TopoCount ?u = TopoCount t" "Pending ?u = Pending t" "PendingHub ?u = PendingHub t" by simp_all
  have u: "grown t ?u" by (rule grown_frame [OF ok n p(1)]) (simp add: p)
  have iu: "xhciTopoNodeFor ?u a = Some i" using same_nodes(3) [OF n] i by simp
  note f = flag_update [OF grown_table [OF u] iu, where y = XHCI_TOPO_F_TOO_DEEP]
  have "grown ?u (node_update i (\<lambda>n. n\<lparr>NodeFlags := NodeFlags n OR XHCI_TOPO_F_TOO_DEEP\<rparr>) ?u)"
    "grown ?u (node_update i (\<lambda>n. n\<lparr>NodeFlags := NodeFlags n AND NOT XHCI_TOPO_F_TOO_DEEP\<rparr>) ?u)"
    using f(1) f(3) [OF even_flags(4)] by blast+
  then have "grown ?u (xhciTopoNotePosition t i)"
    unfolding xhciTopoNotePosition_def Let_def by (cases "NodeTier (Node t ! i) > 5") (simp_all only: if_True if_False)
  then show ?thesis by (rule grown_trans [OF u])
qed

lemma add_unplaced:
  assumes ok: "hubs_ok t" and add: "xhciTopoNodeAdd t a = (r, u)" and np: "\<not> placed t a"
  shows "\<not> placed u a"
  using np unfolding placed_def add_at(2) [OF ok add] by (auto simp: blank_node_def split: if_splits)

lemma attach_root_ok:
  assumes g: "graph_ok t" and np: "\<not> placed t a"
    and r: "XhciTopoAttachRoot (Some t) a rootPort gen speed = (ok, Some t')"
  shows "graph_ok t'"
proof (cases "a = 0 \<or> rootPort = 0")
  case True
  then show ?thesis using r g by (auto simp: XhciTopoAttachRoot_def)
next
  case False
  obtain s u where add: "xhciTopoNodeAdd t a = (s, u)" by fastforce
  have tok: "hubs_ok t" using g by (simp add: graph_ok_def)
  have gu: "graph_ok u" by (rule grown_ok [OF g grown_add(1) [OF tok add]])
  show ?thesis
  proof (cases s)
    case None
    then show ?thesis using r False add gu by (simp add: XhciTopoAttachRoot_def)
  next
    case (Some i)
    then have i: "xhciTopoNodeFor u a = Some i" using grown_add(2) [OF tok add] by simp
    have n: "NodeAddress (Node u ! i) = a" "node_used (Node u ! i)"
      using hub_at_address [OF _ node_for_hub [OF i]] gu by (simp_all add: graph_ok_def)
    let ?f = "\<lambda>n :: xhci_topo_node. n\<lparr>NodeTier := 0, NodeRoute := 0, NodeRootPort := rootPort,
                 NodeGeneration := gen, ParentAddress := 0, ParentPort := rootPort, NodeSpeed := speed\<rparr>"
    have a: "a \<noteq> 0" using False by simp
    have at: "graph_ok (node_update i ?f u)" "xhciTopoNodeFor (node_update i ?f u) a = Some i"
      by (rule attach_at [OF gu a add_unplaced [OF tok add np] i]; simp add: n [simplified] a sits_def)+
    have "t' = xhciTopoNotePosition (node_update i ?f u) i"
      using r False add Some by (simp add: XhciTopoAttachRoot_def Let_def)
    then show ?thesis
      using grown_ok [OF at(1) note_position_grown [OF _ at(2)]] at(1) by (simp add: graph_ok_def)
  qed
qed

lemma child_of_some:
  assumes "XhciTopoChildOf (Some t) hub port = Some c"
  shows "hub \<noteq> 0" "port \<noteq> 0" "\<exists>m. hub_at t hub = Some m \<and> NodeRootPort m \<noteq> 0 \<and> ChHubAddress c = hub \<and>
    ChHubPort c = port \<and> ChRootPort c = NodeRootPort m \<and> ChTier c = NodeTier m + 1 \<and>
    (TooDeep c \<longleftrightarrow> NodeTier m + 1 > XHCI_TOPO_MAX_TIER) \<and>
    (\<not> TooDeep c \<longrightarrow> ChRoute c = NodeRoute m OR push_bit (unat (4 * NodeTier m)) (clamp port))"
proof -
  obtain i where i: "xhciTopoNodeFor t hub = Some i"
    using assms by (auto simp: XhciTopoChildOf_def XhciTopoFind_def split: if_splits option.splits)
  then show "hub \<noteq> 0" by (auto simp: xhciTopoNodeFor_def)
  show "port \<noteq> 0" using assms by (auto simp: XhciTopoChildOf_def)
  have rp: "NodeRootPort (Node t ! i) \<noteq> 0"
    using assms i \<open>port \<noteq> 0\<close> by (auto simp: XhciTopoChildOf_def XhciTopoFind_def Let_def split: if_splits)
  have "hub_at t hub = Some (Node t ! i)" by (rule node_for_hub [OF i])
  moreover have "ChHubAddress c = hub \<and> ChHubPort c = port \<and> ChRootPort c = NodeRootPort (Node t ! i) \<and>
      ChTier c = NodeTier (Node t ! i) + 1 \<and> (TooDeep c \<longleftrightarrow> NodeTier (Node t ! i) + 1 > XHCI_TOPO_MAX_TIER) \<and>
      (\<not> TooDeep c \<longrightarrow>
        ChRoute c = NodeRoute (Node t ! i) OR push_bit (unat (4 * NodeTier (Node t ! i))) (clamp port))"
    using assms i \<open>port \<noteq> 0\<close> rp
    by (auto simp: XhciTopoChildOf_def XhciTopoFind_def Let_def clamp_def split: if_splits)
  ultimately show "\<exists>m. hub_at t hub = Some m \<and> NodeRootPort m \<noteq> 0 \<and> ChHubAddress c = hub \<and>
    ChHubPort c = port \<and> ChRootPort c = NodeRootPort m \<and> ChTier c = NodeTier m + 1 \<and>
    (TooDeep c \<longleftrightarrow> NodeTier m + 1 > XHCI_TOPO_MAX_TIER) \<and>
    (\<not> TooDeep c \<longrightarrow> ChRoute c = NodeRoute m OR push_bit (unat (4 * NodeTier m)) (clamp port))"
    using rp by blast
qed

lemma attach_child_ok:
  assumes g: "graph_ok t" and np: "\<not> placed t a"
    and r: "XhciTopoAttachChild (Some t) a (XhciTopoChildOf (Some t) hub port) speed = (ok, Some t')"
  shows "graph_ok t'"
proof (cases "XhciTopoChildOf (Some t) hub port")
  case None
  then show ?thesis using r g by (simp add: XhciTopoAttachChild_def)
next
  case (Some c)
  from child_of_some [OF Some] obtain m where m: "hub_at t hub = Some m" "NodeRootPort m \<noteq> 0"
    "ChHubAddress c = hub" "ChHubPort c = port" "ChRootPort c = NodeRootPort m" "ChTier c = NodeTier m + 1"
    "TooDeep c \<longleftrightarrow> NodeTier m + 1 > XHCI_TOPO_MAX_TIER"
    "\<not> TooDeep c \<Longrightarrow> ChRoute c = NodeRoute m OR push_bit (unat (4 * NodeTier m)) (clamp port)"
    and h: "hub \<noteq> 0" "port \<noteq> 0" by blast
  have tok: "hubs_ok t" using g by (simp add: graph_ok_def)
  obtain p where p: "xhciTopoNodeFor t hub = Some p" using m(1) by (auto simp: hub_at_def)
  show ?thesis
  proof (cases "a = 0 \<or> TooDeep c \<or> hub = a")
    case True
    then show ?thesis using r Some g m(3) by (auto simp: XhciTopoAttachChild_def split: if_splits)
  next
    case False
    obtain s u where add: "xhciTopoNodeAdd t a = (s, u)" by fastforce
    have gu: "graph_ok u" by (rule grown_ok [OF g grown_add(1) [OF tok add]])
    show ?thesis
    proof (cases s)
      case None
      then show ?thesis
        using r Some False add gu m(3) p by (simp add: XhciTopoAttachChild_def XhciTopoFind_def)
    next
      case (Some i)
      then have i: "xhciTopoNodeFor u a = Some i" using grown_add(2) [OF tok add] by simp
      have n: "NodeAddress (Node u ! i) = a" "node_used (Node u ! i)"
        using hub_at_address [OF _ node_for_hub [OF i]] gu by (simp_all add: graph_ok_def)
      have mu: "hub_at u hub = Some m" using add_at(2) [OF tok add] m(1) False by auto
      have a: "a \<noteq> 0" "a \<noteq> hub" using False by auto
      have "\<not> NodeTier m + 1 > 5" using False m(7) by simp
      moreover have "unat (NodeTier m + 1) = unat (NodeTier m) + 1"
        using tier_bound [OF g m(1)] unat_add_no_wrap [of "NodeTier m" 1] by simp
      ultimately have tier: "unat (NodeTier m) \<le> 4" by (simp add: word_less_nat_alt)
      let ?f = "\<lambda>n :: xhci_topo_node. n\<lparr>NodeTier := ChTier c, NodeRoute := ChRoute c,
           NodeRootPort := ChRootPort c, NodeGeneration := NodeGeneration (Node u ! p),
           ParentAddress := ChHubAddress c, ParentPort := ChHubPort c, NodeSpeed := speed\<rparr>"
      have s: "sits (hub_at u) (?f (Node u ! i))"
        using h m False mu tier by (simp add: sits_def)
      have at: "graph_ok (node_update i ?f u)" "xhciTopoNodeFor (node_update i ?f u) a = Some i"
        by (rule attach_at [where f = ?f, OF gu a(1) add_unplaced [OF tok add np] i _ _ s]; use n [simplified] a m(3) in simp)+
      have "t' = xhciTopoNotePosition (node_update i ?f u) i"
        using r False add Some \<open>XhciTopoChildOf (Some t) hub port = Some c\<close> m(3) p
        by (simp add: XhciTopoAttachChild_def XhciTopoFind_def Let_def)
      then show ?thesis
        using grown_ok [OF at(1) note_position_grown [OF _ at(2)]] at(1) by (simp add: graph_ok_def)
    qed
  qed
qed

section \<open>Migrating\<close>

lemma rename_at:
  assumes ok: "hubs_ok t" and i: "xhciTopoNodeFor t old = Some i" and new: "new \<noteq> 0" "hub_at t new = None"
    and u: "Node u = Node (node_update i (\<lambda>n. n\<lparr>NodeAddress := new\<rparr>) t)" "TopoCount u = TopoCount t"
      "Pending u = Pending t" "PendingHub u = (if Pending t \<and> PendingHub t = old then new else PendingHub t)"
  shows "hubs_ok u" "hub_at u = (hub_at t)(old := None, new \<mapsto> (Node t ! i)\<lparr>NodeAddress := new\<rparr>)"
proof -
  have e: "entries_ok t" using ok by (rule table_entries)
  have s: "i \<in> used_slots t" "NodeAddress (Node t ! i) = old" using i node_for_some [OF ok] by simp_all
  let ?n = "(Node t ! i)\<lparr>NodeAddress := new\<rparr>"
  have n: "node_used ?n" "NodeAddress ?n \<noteq> 0" using s new by (simp_all add: used_slots_def)
  have fresh: "NodeAddress (Node t ! j) \<noteq> NodeAddress ?n" if "j \<in> used_slots t" for j
  proof
    assume "NodeAddress (Node t ! j) = NodeAddress ?n"
    then have "hub_at t new = Some (Node t ! j)" using hub_at_slot [OF ok that] by simp
    then show False using new by simp
  qed
  note w = slot_write [OF e slot_lt [OF s(1)] n fresh]
  let ?w = "t\<lparr>Node := (Node t)[i := ?n]\<rparr>"
  have same: "hub_at u = hub_at ?w" "used_slots u = used_slots ?w"
    by (rule same_nodes; simp add: u node_update_def)+
  show h: "hub_at u = (hub_at t)(old := None, new \<mapsto> ?n)" using w(3) s same by simp
  have slots: "used_slots u = used_slots t" using w(2) s same by (simp add: insert_absorb)
  have "entries_ok u" using w(1) unfolding entries_ok_def same u(1) by (simp add: node_update_def)
  moreover have "hub_at u (PendingHub u) \<noteq> None" if "Pending u"
    using that ok unfolding h u by (auto simp: hubs_ok_alt)
  ultimately show "hubs_ok u" using ok unfolding hubs_ok_alt slots u(2) by simp
qed

lemma migrate_ok:
  assumes g: "graph_ok t" and m: "XhciTopoMigrate (Some t) old new = Some t'"
  shows "graph_ok t'"
proof (cases "new = 0 \<or> old = new")
  case True
  then show ?thesis using g m by (auto simp: XhciTopoMigrate_def)
next
  case False
  have tok: "hubs_ok t" using g by (simp add: graph_ok_def)
  define p where "p = (if xhciTopoNodeFor t new \<noteq> None
      then xhciTopoPruneFrom (t\<lparr>MigrationsStale := MigrationsStale t + 1\<rparr>) new else t)"
  let ?t = "t\<lparr>MigrationsStale := MigrationsStale t + 1\<rparr>"
  have gt: "graph_ok ?t" by (rule grown_ok [OF g grown_frame]) (use tok in auto)
  have gp: "graph_ok p" using g prune_ok [OF gt] by (simp add: p_def)
  have free: "hub_at p new = None"
  proof (cases "xhciTopoNodeFor t new = None")
    case True
    then show ?thesis by (simp add: p_def hub_at_none)
  next
    case some: False
    have "hubs_ok ?t" "closed ?t" using gt positioned_closed by (auto simp: graph_ok_def)
    note pr = prune_exact(3) [OF this, of new new]
    have "hub_at ?t new \<noteq> None" using some same_nodes(1) [of ?t t] by (simp add: hub_at_none)
    then show ?thesis using pr some by (simp add: p_def)
  qed
  have eq: "XhciTopoMigrate (Some t) old new =
      (case xhciTopoNodeFor p old of
         None \<Rightarrow> Some p
       | Some i \<Rightarrow>
           let t = node_update i (\<lambda>n. n\<lparr>NodeAddress := new\<rparr>) p;
               t = t\<lparr>Migrations := Migrations t + 1\<rparr>;
               t = (if Pending t \<and> PendingHub t = old then t\<lparr>PendingHub := new\<rparr> else t)
           in Some (xhciTopoSweepOrphans t))"
    unfolding XhciTopoMigrate_def p_def Let_def using False by simp
  show ?thesis
  proof (cases "xhciTopoNodeFor p old")
    case None
    then show ?thesis using m gp unfolding eq by simp
  next
    case (Some i)
    have pok: "hubs_ok p" and pcl: "closed p" using gp positioned_closed by (auto simp: graph_ok_def)
    obtain u where t': "t' = xhciTopoSweepOrphans u"
      and u: "Node u = Node (node_update i (\<lambda>n. n\<lparr>NodeAddress := new\<rparr>) p)" "TopoCount u = TopoCount p"
        "Pending u = Pending p" "PendingHub u = (if Pending p \<and> PendingHub p = old then new else PendingHub p)"
      using m Some unfolding eq by (auto simp: Let_def node_update_def split: if_splits)
    have nz: "new \<noteq> 0" using False by simp
    note rn = rename_at [OF pok Some nz free u]
    note sw = sweep_exact [OF rn(1), folded t']
    have old_none: "hub_at t' old = None"
    proof -
      have "hub_at u old = None" using rn(2) False by simp
      then show ?thesis using sw(3) by (metis domIff map_le_def)
    qed
    have at_p: "hub_at p b = Some n" if "hub_at t' b = Some n" "b \<noteq> new" for b n
    proof -
      have "hub_at u b = Some n" using sw(3) that(1) by (metis domI map_le_def)
      moreover have "b \<noteq> old" using that old_none by auto
      ultimately show ?thesis using rn(2) that(2) by simp
    qed
    have old_hub: "hub_at p old = Some (Node p ! i)" by (rule node_for_hub [OF Some])
    have new_n: "n = (Node p ! i)\<lparr>NodeAddress := new\<rparr>" if "hub_at t' new = Some n" for n
    proof -
      have "hub_at u new = Some n" using sw(3) that by (metis domI map_le_def)
      then show ?thesis using rn(2) by simp
    qed
    have moved: "sits (hub_at t') n" if n: "hub_at t' b = Some n" and s: "sits (hub_at p) n"
        and ne: "ParentAddress n \<noteq> new" for b n
    proof (cases "ParentAddress n = 0")
      case False
      then obtain k where "hub_at t' (ParentAddress n) = Some k" using closedD [OF sw(2) n] by blast
      moreover from this have "hub_at p (ParentAddress n) = Some k" using at_p ne by blast
      ultimately show ?thesis using s False by (simp add: sits_def)
    qed (use s in \<open>simp add: sits_def\<close>)
    show ?thesis
      unfolding graph_ok_def positioned_def
    proof (intro conjI allI impI)
      show "hubs_ok t'" by (rule sw(1))
      fix b n assume n: "hub_at t' b = Some n"
      have orphan: "ParentAddress k \<noteq> new" if "hub_at p c = Some k" for c k
        using closedD [OF pcl that] free nz by auto
      show "sits (hub_at t') n"
      proof (cases "b = new")
        case True
        then have eq: "n = (Node p ! i)\<lparr>NodeAddress := new\<rparr>" using new_n n by simp
        have "sits (hub_at p) (Node p ! i)" using gp old_hub by (auto simp: graph_ok_def positioned_def)
        then have "sits (hub_at p) n" unfolding eq sits_def by simp
        moreover have "ParentAddress n \<noteq> new" using orphan [OF old_hub] by (simp add: eq)
        ultimately show ?thesis by (rule moved [OF n])
      next
        case False
        have "hub_at p b = Some n" by (rule at_p [OF n False])
        then show ?thesis using moved [OF n] orphan gp by (auto simp: graph_ok_def positioned_def)
      qed
    qed
  qed
qed

section \<open>Every reachable graph\<close>

lemma claim_frame:
  assumes g: "graph_ok t" and "Node t' = Node t" and "TopoCount t' = TopoCount t"
    and "Pending t' \<Longrightarrow> Pending t \<and> PendingHub t' = PendingHub t"
  shows "graph_ok t'"
  by (rule grown_ok [OF g grown_frame]) (use assms in \<open>auto simp: graph_ok_def\<close>)

lemma reset_ok:
  assumes "length (Node t) = 16" and "XhciTopoReset (Some t) = Some t'"
  shows "graph_ok t'"
proof -
  have n: "Node t' = map xhciTopoNodeClear (Node t)" "TopoCount t' = 0" "\<not> Pending t'"
    using assms(2) by (auto simp: XhciTopoReset_def)
  have none: "\<not> node_used (Node t' ! i)" if "i < 16" for i
    using that assms(1) by (simp add: n xhciTopoNodeClear_def)
  then have s: "used_slots t' = {}" by (auto simp: used_slots_def)
  have "xhciTopoNodeFor t' a = None" for a
    using none by (auto simp: xhciTopoNodeFor_def find_upt_None)
  then have h: "hub_at t' a = None" for a by (simp add: hub_at_none)
  show ?thesis unfolding graph_ok_def positioned_def hubs_ok_def s using h assms(1) n by simp
qed

theorem reachable_graph: "topo_reachable t \<Longrightarrow> graph_ok t"
proof (induction rule: topo_reachable.induct)
  case (start t t')
  then show ?case by (rule reset_ok)
next
  case (attach_root t a rootPort gen speed ok t')
  then show ?case using attach_root_ok by blast
next
  case (attach_child t a hub port speed ok t')
  then show ?case using attach_child_ok by blast
next
  case (detach t a t')
  then show ?case using prune_ok by (auto simp: XhciTopoDetach_def split: if_splits)
next
  case (migrate t old new t')
  then show ?case using migrate_ok by blast
next
  case (claim t out ok t' out')
  then have "Node t' = Node t \<and> TopoCount t' = TopoCount t \<and> (Pending t' \<longrightarrow> Pending t \<and> PendingHub t' = PendingHub t)"
    by (auto simp: XhciTopoClaimChild_def drop_claim_def Let_def split: option.splits if_splits)
  then show ?case using claim_frame [OF claim.IH] by blast
next
  case (drop t t')
  then show ?case using claim_frame [OF drop.IH, of t']
    by (auto simp: XhciTopoDropPending_def drop_claim_def Let_def split: if_splits)
next
  case (suppress t t')
  then show ?case using claim_frame [OF suppress.IH, of t']
    by (auto simp: XhciTopoSuppressClaim_def drop_claim_def Let_def split: if_splits)
next
  case (observe_setup t a s sn t' sn')
  have "hubs_ok t" using observe_setup.IH by (simp add: graph_ok_def)
  then show ?case by (rule grown_ok [OF observe_setup.IH observe_setup_grown [OF _ observe_setup.hyps(2)]])
next
  case (observe_reply t sn d len gone ok t' gone')
  then show ?case using observe_reply_ok by blast
next
  case (set_interface t a alternate t')
  have "hubs_ok t" using set_interface.IH by (simp add: graph_ok_def)
  then show ?case by (rule grown_ok [OF set_interface.IH set_interface_grown [OF _ set_interface.hyps(2)]])
next
  case (forget t a t')
  have "hubs_ok t" using forget.IH by (simp add: graph_ok_def)
  then show ?case by (rule grown_ok [OF forget.IH forget_grown [OF _ forget.hyps(2)]])
qed

end
