(* ===== verification/Xhci_Topo_Props.thy ===== *)
theory Xhci_Topo_Props
  imports Xhci_Topo_Reach
begin

text \<open>
  Properties of the topology graph: its table is consistent in every reachable state, removing a
  hub removes exactly its subtree, route strings are the path from the root port, and the
  transaction translator is the nearest high-speed ancestor.
\<close>

section \<open>Paths\<close>

text \<open>The ports a path from the root port down to a hub leaves the hubs above it by.\<close>

inductive hub_path :: "xhci_topology \<Rightarrow> ulong \<Rightarrow> ulong list \<Rightarrow> bool" for t where
  top: "hub_at t a = Some n \<Longrightarrow> ParentAddress n = 0 \<Longrightarrow> hub_path t a []"
| down: "hub_at t a = Some n \<Longrightarrow> ParentAddress n \<noteq> 0 \<Longrightarrow> hub_path t (ParentAddress n) ports \<Longrightarrow>
    hub_path t a (ports @ [ParentPort n])"

text \<open>A route string as a number: five base-16 digits, the port of the first tier lowest, 15 for more.\<close>

primrec route_value :: "ulong list \<Rightarrow> nat" where
  "route_value [] = 0"
| "route_value (p # ps) = min 15 (unat p) + 16 * route_value ps"

lemma route_value_snoc: "route_value (ps @ [p]) = route_value ps + min 15 (unat p) * 16 ^ length ps"
  by (induction ps) (simp_all add: algebra_simps)

lemma route_value_lt: "route_value ps < 16 ^ length ps"
proof (induction ps)
  case (Cons p ps)
  have "min 15 (unat p) + 16 * route_value ps < 16 + 16 * route_value ps" by simp
  also have "\<dots> \<le> 16 * 16 ^ length ps" using Cons by simp
  finally show ?case by simp
qed simp

lemma clamp_nat: "unat (clamp p) = min 15 (unat p)"
  by (auto simp: clamp_def word_less_nat_alt)

lemma or_above:
  fixes x c :: ulong
  assumes x: "unat x < 2 ^ n" and c: "unat c * 2 ^ n < 4294967296"
  shows "unat (x OR push_bit n c) = unat x + unat c * 2 ^ n"
proof -
  have low: "\<not> bit x j" if "n \<le> j" for j
  proof -
    have "(2 :: nat) ^ n \<le> 2 ^ j" using that by (intro power_increasing) auto
    with x have "unat x < 2 ^ j" by (rule less_le_trans)
    then have "\<not> bit (unat x) j" by (simp add: bit_iff_odd)
    then show ?thesis by (auto simp: bit_unsigned_iff)
  qed
  have "x + push_bit n c = x OR push_bit n c"
    by (rule disjunctive_add) (auto simp: bit_push_bit_iff low)
  moreover have p: "unat (push_bit n c) = unat c * 2 ^ n"
    unfolding unsigned_push_bit_eq using c by (simp add: push_bit_eq_mult [of n "unat c"] take_bit_nat_eq_self)
  moreover have "unat x + unat c * 2 ^ n < 4294967296"
  proof -
    have "unat (x OR push_bit n c) < 4294967296" by simp
    show ?thesis
    proof (cases "unat c = 0")
      case False
      have "n < 32"
      proof (rule ccontr)
        assume "\<not> n < 32"
        then have "(2 :: nat) ^ 32 \<le> 2 ^ n" by (intro power_increasing) auto
        then show False using c False mult_le_mono [of 1 "unat c" "2 ^ 32" "2 ^ n"] by simp
      qed
      then have "4294967296 = 2 ^ (32 - n) * (2 :: nat) ^ n" by (simp flip: power_add)
      moreover have "unat c + 1 \<le> 2 ^ (32 - n)"
        using c \<open>4294967296 = 2 ^ (32 - n) * (2 :: nat) ^ n\<close> by simp
      ultimately have "(unat c + 1) * 2 ^ n \<le> 4294967296"
        using mult_le_mono1 [of "unat c + 1" "2 ^ (32 - n)" "2 ^ n"] by linarith
      then show ?thesis using x by simp
    qed (use unat_lt_2p32 in simp)
  qed
  ultimately show ?thesis using unat_add_no_wrap [of x "push_bit n c"] by simp
qed

text \<open>One more digit.\<close>

lemma route_step:
  fixes r tier port :: ulong
  assumes len: "length ports = unat tier" and r: "unat r = route_value ports" and le: "unat tier \<le> 4"
  shows "unat (r OR push_bit (unat (4 * tier)) (clamp port)) = route_value (ports @ [port])"
proof -
  have sh: "unat (4 * tier) = 4 * unat tier" using le unat_mult_no_wrap [of 4 tier] by simp
  have pow: "(2 :: nat) ^ (4 * unat tier) = 16 ^ length ports" by (simp add: len power_mult)
  have "unat r < 2 ^ (4 * unat tier)" using route_value_lt [of ports] by (simp add: r pow)
  moreover have "unat (clamp port) * 2 ^ (4 * unat tier) < 4294967296"
  proof -
    have "(2 :: nat) ^ (4 * unat tier) \<le> 2 ^ 16" using le by (intro power_increasing) auto
    then have "unat (clamp port) * 2 ^ (4 * unat tier) \<le> 15 * 2 ^ 16"
      by (intro mult_le_mono) (simp_all add: clamp_nat)
    then show ?thesis by simp
  qed
  ultimately have "unat (r OR push_bit (4 * unat tier) (clamp port)) = unat r + unat (clamp port) * 2 ^ (4 * unat tier)"
    by (rule or_above)
  then show ?thesis by (simp add: sh pow r clamp_nat route_value_snoc)
qed

lemma path_unique: "hub_path t a ps \<Longrightarrow> hub_path t a qs \<Longrightarrow> ps = qs"
proof (induction arbitrary: qs rule: hub_path.induct)
  case (top a n)
  from top.prems show ?case by (cases rule: hub_path.cases) (use top.hyps in auto)
next
  case (down a n ports)
  from down.prems show ?case
  proof (cases rule: hub_path.cases)
    case (down m ports')
    then show ?thesis using \<open>hub_at t a = Some n\<close> down.IH by auto
  qed (use down.hyps in auto)
qed

text \<open>Every hub has a path as long as its tier, and its route is the path's number.\<close>

lemma path_exists:
  assumes g: "graph_ok t"
  shows "hub_at t a = Some n \<Longrightarrow>
    \<exists>ports. hub_path t a ports \<and> length ports = unat (NodeTier n) \<and> unat (NodeRoute n) = route_value ports"
proof (induction "unat (NodeTier n)" arbitrary: a n)
  case 0
  have "sits (hub_at t) n" using g 0 by (auto simp: graph_ok_def positioned_def)
  moreover have "ParentAddress n = 0"
  proof (rule ccontr)
    assume "ParentAddress n \<noteq> 0"
    then obtain m :: xhci_topo_node where "unat (NodeTier m) \<le> 4" "NodeTier n = NodeTier m + 1"
      using \<open>sits (hub_at t) n\<close> by (auto simp: sits_def)
    then show False using 0 unat_add_no_wrap [of "NodeTier m" 1] by simp
  qed
  ultimately show ?case using 0 hub_path.top [OF \<open>hub_at t a = Some n\<close>] by (intro exI [of _ "[]"]) (simp add: sits_def)
next
  case (Suc k)
  have s: "sits (hub_at t) n" using g Suc.prems by (auto simp: graph_ok_def positioned_def)
  have p: "ParentAddress n \<noteq> 0" using s Suc.hyps(2) by (auto simp: sits_def)
  then obtain m :: xhci_topo_node where m: "hub_at t (ParentAddress n) = Some m" "unat (NodeTier m) \<le> 4"
    "NodeTier n = NodeTier m + 1"
    "NodeRoute n = NodeRoute m OR push_bit (unat (4 * NodeTier m)) (clamp (ParentPort n))"
    using s by (auto simp: sits_def)
  have tier: "unat (NodeTier n) = unat (NodeTier m) + 1" using m(2,3) unat_add_no_wrap [of "NodeTier m" 1] by simp
  then obtain ports where ports: "hub_path t (ParentAddress n) ports" "length ports = unat (NodeTier m)"
    "unat (NodeRoute m) = route_value ports"
    using Suc.hyps(1) [OF _ m(1)] Suc.hyps(2) by auto
  show ?case
  proof (intro exI conjI)
    show "hub_path t a (ports @ [ParentPort n])" by (rule hub_path.down [OF Suc.prems p ports(1)])
    show "length (ports @ [ParentPort n]) = unat (NodeTier n)" using ports tier by simp
    show "unat (NodeRoute n) = route_value (ports @ [ParentPort n])"
      using route_step [OF ports(2,3) m(2)] m(4) by simp
  qed
qed

section \<open>The way up\<close>

text \<open>The hubs from \<open>a\<close> up to the root port, each with the port that leads down towards the child.\<close>

inductive upward :: "xhci_topology \<Rightarrow> ulong \<Rightarrow> ulong \<Rightarrow> (xhci_topo_node \<times> ulong) list \<Rightarrow> bool" for t where
  last: "hub_at t a = Some n \<Longrightarrow> ParentAddress n = 0 \<Longrightarrow> upward t a port [(n, port)]"
| up: "hub_at t a = Some n \<Longrightarrow> ParentAddress n \<noteq> 0 \<Longrightarrow> upward t (ParentAddress n) (ParentPort n) chain \<Longrightarrow>
    upward t a port ((n, port) # chain)"

definition tt_of :: "xhci_topo_node \<times> ulong \<Rightarrow> xhci_topo_tt" where
  "tt_of h = \<lparr>TtHubAddress = NodeAddress (fst h), TtHubPort = snd h,
              TtMulti = (NodeFlags (fst h) AND XHCI_TOPO_F_MTT \<noteq> 0)\<rparr>"

lemma upward_tier:
  assumes g: "graph_ok t"
  shows "upward t a port chain \<Longrightarrow> hub_at t a = Some n \<Longrightarrow> length chain \<le> unat (NodeTier n) + 1"
proof (induction arbitrary: n rule: upward.induct)
  case (up a m chain port)
  have n: "n = m" using up by simp
  have "sits (hub_at t) n" using g up.prems by (auto simp: graph_ok_def positioned_def)
  then obtain k :: xhci_topo_node where k: "hub_at t (ParentAddress n) = Some k" "unat (NodeTier k) \<le> 4"
    "NodeTier n = NodeTier k + 1"
    using up.hyps(2) n by (auto simp: sits_def)
  then show ?case using up.IH [of k] n unat_add_no_wrap [of "NodeTier k" 1] by simp
qed simp

lemma tt_loop_chain:
  assumes "upward t a port chain" and "length chain \<le> left"
  shows "tt_loop left t (xhciTopoNodeFor t a) port = map_option tt_of (find (\<lambda>h. NodeSpeed (fst h) = SPEED_HIGH) chain)"
  using assms
proof (induction arbitrary: left rule: upward.induct)
  case (last a n port)
  then obtain i l where "xhciTopoNodeFor t a = Some i" "Node t ! i = n" "left = Suc l"
    by (cases left) (auto simp: hub_at_def)
  then show ?case using last by (simp add: tt_of_def Let_def)
next
  case (up a n chain port)
  then obtain i l where "xhciTopoNodeFor t a = Some i" "Node t ! i = n" "left = Suc l"
    by (cases left) (auto simp: hub_at_def)
  then show ?case using up by (simp add: tt_of_def Let_def)
qed

lemma upward_exists:
  assumes g: "graph_ok t"
  shows "hub_at t a = Some n \<Longrightarrow> \<exists>chain. upward t a port chain"
proof (induction "unat (NodeTier n)" arbitrary: a n port rule: less_induct)
  case less
  have s: "sits (hub_at t) n" using g less.prems by (auto simp: graph_ok_def positioned_def)
  show ?case
  proof (cases "ParentAddress n = 0")
    case True
    then show ?thesis using upward.last less.prems by blast
  next
    case False
    then obtain m :: xhci_topo_node where m: "hub_at t (ParentAddress n) = Some m" "unat (NodeTier m) \<le> 4"
      "NodeTier n = NodeTier m + 1"
      using s by (auto simp: sits_def)
    have "unat (NodeTier m) < unat (NodeTier n)" using m unat_add_no_wrap [of "NodeTier m" 1] by simp
    then obtain chain where "upward t (ParentAddress n) (ParentPort n) chain" using less.hyps m(1) by blast
    then show ?thesis using upward.up [OF less.prems False] by blast
  qed
qed

section \<open>A small graph\<close>

text \<open>
  A high-speed hub at address 1 on root port 3, a hub at address 2 behind its port 4, a hub at
  address 3 behind port 20 of that one, and a hub at address 9 on root port 5.
\<close>

definition empty_graph :: xhci_topology where
  "empty_graph =
     \<lparr>TopoCount = 0, TopoDropped = 0, Pending = False, PendingHub = 0, PendingPort = 0, Promotions = 0,
      Resets = 0, ResetsUnknownHub = 0, ResetsOverwritten = 0, Claims = 0, ClaimsUnarmed = 0,
      ClaimsUnusable = 0, ClaimsTooDeep = 0, PendingDropped = 0, ResetsSuppressed = 0, Migrations = 0,
      MigrationsStale = 0, PowerSweeps = 0, Descriptors = 0, DescriptorsBad = 0, DescriptorsNoPorts = 0,
      PortStatuses = 0, PortStatusesWide = 0, TopoDisconnects = 0, Reconnects = 0, AltSettings = 0,
      AltForgotten = 0, Prunes = 0, MaxTier = 0, Node = replicate 16 (xhciTopoNodeClear (blank_node 0))\<rparr>"

definition with_root :: "ulong \<Rightarrow> ulong \<Rightarrow> ulong \<Rightarrow> xhci_topology \<Rightarrow> xhci_topology" where
  "with_root a port speed t = the (snd (XhciTopoAttachRoot (Some t) a port 7 speed))"

definition with_child :: "ulong \<Rightarrow> ulong \<Rightarrow> ulong \<Rightarrow> ulong \<Rightarrow> xhci_topology \<Rightarrow> xhci_topology" where
  "with_child a hub port speed t = the (snd (XhciTopoAttachChild (Some t) a (XhciTopoChildOf (Some t) hub port) speed))"

definition small_graph :: xhci_topology where
  "small_graph = with_root 9 5 1 (with_child 3 2 20 1 (with_child 2 1 4 1 (with_root 1 3 3 empty_graph)))"

lemma placed_code [code]: "placed t a \<longleftrightarrow> (case hub_at t a of None \<Rightarrow> False | Some n \<Rightarrow> NodeRootPort n \<noteq> 0)"
  by (auto simp: placed_def split: option.splits)

lemma with_root_reachable:
  assumes "topo_reachable t" and "\<not> placed t a" 
  shows "topo_reachable (with_root a port speed t)"
proof -
  have "\<exists>ok t'. XhciTopoAttachRoot (Some t) a port 7 speed = (ok, Some t')"
    by (auto simp: XhciTopoAttachRoot_def Let_def split: prod.split option.split)
  then show ?thesis using topo_reachable.attach_root [OF assms] by (auto simp: with_root_def)
qed

lemma with_child_reachable:
  assumes "topo_reachable t" and "\<not> placed t a"
  shows "topo_reachable (with_child a hub port speed t)"
proof -
  have "\<exists>ok t'. XhciTopoAttachChild (Some t) a (XhciTopoChildOf (Some t) hub port) speed = (ok, Some t')"
    by (auto simp: XhciTopoAttachChild_def Let_def split: prod.split option.split)
  then show ?thesis using topo_reachable.attach_child [OF assms] by (auto simp: with_child_def)
qed

lemma empty_reachable: "topo_reachable empty_graph"
  by (rule topo_reachable.start [of empty_graph]) (simp_all add: empty_graph_def XhciTopoReset_def xhciTopoNodeClear_def)

lemma small_reachable: "topo_reachable small_graph"
  unfolding small_graph_def
  by (intro with_root_reachable with_child_reachable empty_reachable; code_simp)

lemma small_hubs:
  "hub_at small_graph 1 \<noteq> None" "ParentAddress (the (hub_at small_graph 1)) = 0"
  "hub_at small_graph 2 \<noteq> None" "ParentAddress (the (hub_at small_graph 2)) = 1"
  "hub_at small_graph 3 \<noteq> None" "ParentAddress (the (hub_at small_graph 3)) = 2"
  "NodeRootPort (the (hub_at small_graph 3)) = 3" "hub_at small_graph 9 \<noteq> None"
  by code_simp+

section \<open>Properties\<close>

text \<open>
  C14: In every reachable graph the table is consistent. No two nodes in use share an address and
  none has address 0; \<open>Count\<close> is the number of nodes in use; an armed claim names a hub of the
  graph; every hub sits at tier 5 or less, and one that is not on a root port has its parent in the
  graph, one tier up and behind the same root port.
\<close>

theorem topology_consistent:
  assumes "topo_reachable t"
  shows "inj_on (\<lambda>i. NodeAddress (Node t ! i)) {i. i < 16 \<and> node_used (Node t ! i)} \<and>
    (\<forall>i<16. node_used (Node t ! i) \<longrightarrow> NodeAddress (Node t ! i) \<noteq> 0) \<and>
    unat (TopoCount t) = card {i. i < 16 \<and> node_used (Node t ! i)} \<and>
    (Pending t \<longrightarrow> XhciTopoFind (Some t) (PendingHub t) \<noteq> None) \<and>
    (\<forall>a n. hub_at t a = Some n \<longrightarrow>
       unat (NodeTier n) \<le> 5 \<and>
       (if ParentAddress n = 0 then NodeTier n = 0
        else \<exists>m. hub_at t (ParentAddress n) = Some m \<and> NodeRootPort n = NodeRootPort m \<and>
               NodeTier n = NodeTier m + 1))"
proof -
  have g: "graph_ok t" using assms by (rule reachable_graph)
  then have ok: "hubs_ok t" and pos: "positioned t" by (simp_all add: graph_ok_def)
  have "unat (NodeTier n) \<le> 5 \<and> (if ParentAddress n = 0 then NodeTier n = 0
        else \<exists>m. hub_at t (ParentAddress n) = Some m \<and> NodeRootPort n = NodeRootPort m \<and>
               NodeTier n = NodeTier m + 1)" if "hub_at t a = Some n" for a and n :: xhci_topo_node
    using tier_bound [OF g that] positionedD [OF pos that] by (auto simp: sits_def)
  then show ?thesis using ok
    by (simp add: hubs_ok_def used_slots_def hub_at_none XhciTopoFind_def)
qed

theorem topology_consistent_witness:
  "TopoCount small_graph = 4 \<and> card {i. i < 16 \<and> node_used (Node small_graph ! i)} = 4"
proof -
  have "TopoCount small_graph = 4" by code_simp
  then show ?thesis using topology_consistent [OF small_reachable] by simp
qed

text \<open>
  C15: Detaching a hub of a reachable graph removes that hub and every hub below it, at any depth,
  and nothing else: all other hubs stay as they were, the count is exact, and a claim that is still
  armed names a hub that is still there.
\<close>

theorem detach_exact:
  assumes "topo_reachable t" and "a \<noteq> 0" and "XhciTopoDetach (Some t) a = Some t'"
  shows "(\<forall>b. hub_at t' b = (if hub_at t a \<noteq> None \<and> below t b a then None else hub_at t b)) \<and>
    unat (TopoCount t') = card (dom (hub_at t')) \<and>
    (Pending t' \<longrightarrow> hub_at t' (PendingHub t') \<noteq> None)"
proof -
  have g: "graph_ok t" using assms(1) by (rule reachable_graph)
  then have ok: "hubs_ok t" and cl: "closed t" by (simp_all add: graph_ok_def positioned_closed)
  have t': "t' = xhciTopoPruneFrom t a" using assms(2,3) by (simp add: XhciTopoDetach_def)
  note p = prune_exact [OF ok cl, of a, folded t']
  have "unat (TopoCount t') = card (dom (hub_at t'))" using card_hubs [OF p(1)] p(1) by (simp add: hubs_ok_def)
  moreover have "Pending t' \<longrightarrow> hub_at t' (PendingHub t') \<noteq> None" using p(1) by (simp add: hubs_ok_def)
  ultimately show ?thesis using p(3) by blast
qed

theorem detach_exact_witness:
  "\<exists>t'. XhciTopoDetach (Some small_graph) 1 = Some t' \<and> hub_at t' 3 = None"
proof -
  have "below small_graph 3 1"
    using small_hubs(3-6) below_refl [of small_graph 1] below_step [of small_graph] by fastforce
  moreover obtain t' where "XhciTopoDetach (Some small_graph) 1 = Some t'" by (simp add: XhciTopoDetach_def)
  ultimately show ?thesis using detach_exact [OF small_reachable, of 1 t'] small_hubs(1) by auto
qed

text \<open>
  C16: The position of a device behind port \<open>port\<close> of a placed hub is computed from the one path of
  ports that leads to the hub: its tier is one more than the path's length, it is too deep exactly
  when the hub is already at tier 5, and otherwise its route string, read as a number, has the ports
  of the path as its base-16 digits from the lowest up, \<open>port\<close> last, 15 standing for every larger port,
  and fits the slot context's twenty bits.
\<close>

theorem route_strings_exact:
  assumes "topo_reachable t" and "hub_at t hub = Some n" and "NodeRootPort n \<noteq> 0" and "port \<noteq> 0"
  shows "\<exists>!ports. hub_path t hub ports \<and>
    (\<exists>c. XhciTopoChildOf (Some t) hub port = Some c \<and> ChRootPort c = NodeRootPort n \<and>
       unat (ChTier c) = length ports + 1 \<and> (TooDeep c \<longleftrightarrow> length ports = 5) \<and> length ports \<le> 5 \<and>
       (\<not> TooDeep c \<longrightarrow> unat (ChRoute c) = route_value (ports @ [port]) \<and> unat (ChRoute c) < 2 ^ 20))"
proof -
  have g: "graph_ok t" using assms(1) by (rule reachable_graph)
  obtain ports where ports: "hub_path t hub ports" "length ports = unat (NodeTier n)"
    "unat (NodeRoute n) = route_value ports"
    using path_exists [OF g assms(2)] by blast
  have tier: "unat (NodeTier n) \<le> 5" by (rule tier_bound [OF g assms(2)])
  have tier1: "unat (NodeTier n + 1) = unat (NodeTier n) + 1" using tier unat_add_no_wrap [of "NodeTier n" 1] by simp
  have "hub \<noteq> 0" using assms(2) by auto
  have "XhciTopoChildOf (Some t) hub port \<noteq> None"
    using assms(2,3,4) by (auto simp: XhciTopoChildOf_def XhciTopoFind_def hub_at_def Let_def)
  then obtain c where c: "XhciTopoChildOf (Some t) hub port = Some c" by blast
  note cs = child_of_some(3) [OF c]
  have deep: "TooDeep c \<longleftrightarrow> length ports = 5"
    using cs assms(2) ports(2) tier tier1 by (auto simp: word_less_nat_alt)
  have route: "unat (ChRoute c) = route_value (ports @ [port]) \<and> unat (ChRoute c) < 2 ^ 20" if "\<not> TooDeep c"
  proof -
    have le: "unat (NodeTier n) \<le> 4" using that deep ports(2) tier by auto
    have r: "unat (ChRoute c) = route_value (ports @ [port])"
      using cs that assms(2) route_step [OF ports(2,3) le] by auto
    have "route_value (ports @ [port]) < 16 ^ length (ports @ [port])" by (rule route_value_lt)
    also have "\<dots> \<le> 16 ^ 5" using le ports(2) by (intro power_increasing) auto
    finally show ?thesis using r by simp
  qed
  show ?thesis
    using ports(1,2) path_unique c cs assms(2) deep route tier tier1
    by (intro ex1I [of _ ports]) auto
qed

theorem route_strings_exact_witness:
  "\<exists>c. XhciTopoChildOf (Some small_graph) 3 2 = Some c \<and> ChRootPort c = 3 \<and> unat (ChRoute c) < 2 ^ 20"
proof -
  obtain n where n: "hub_at small_graph 3 = Some n" using small_hubs(5) by blast
  then have "NodeRootPort n = 3" using small_hubs(7) by simp
  moreover have "\<not> TooDeep (the (XhciTopoChildOf (Some small_graph) 3 2))" by code_simp
  ultimately show ?thesis using route_strings_exact [OF small_reachable n, of 2] by auto
qed

text \<open>
  C17: The transaction translator of a device is found: on the way up from its hub to the root port,
  which always exists and is at most six hubs long, it is the first hub running at high speed, with the
  port of that hub the way leaves it by and its multiple-TT flag, and there is none exactly when no
  hub on the way runs at high speed. The sixteen steps the code allows are always enough.
\<close>

theorem tt_nearest:
  assumes "topo_reachable t" and "hub_at t hub \<noteq> None" and "port \<noteq> 0"
  shows "\<exists>chain. upward t hub port chain \<and> length chain \<le> 6 \<and>
    XhciTopoTtFor (Some t) hub port (Some out) =
      (case find (\<lambda>h. NodeSpeed (fst h) = SPEED_HIGH) chain of
         Some h \<Rightarrow> (True, Some (tt_of h))
       | None \<Rightarrow> (False, Some \<lparr>TtHubAddress = 0, TtHubPort = 0, TtMulti = False\<rparr>))"
proof -
  have g: "graph_ok t" using assms(1) by (rule reachable_graph)
  obtain n where n: "hub_at t hub = Some n" using assms(2) by blast
  obtain chain where c: "upward t hub port chain" using upward_exists [OF g n] by blast
  have len: "length chain \<le> 6" using upward_tier [OF g c n] tier_bound [OF g n] by simp
  have "hub \<noteq> 0" using n by auto
  then have "XhciTopoTtFor (Some t) hub port (Some out) =
      (case find (\<lambda>h. NodeSpeed (fst h) = SPEED_HIGH) chain of
         Some h \<Rightarrow> (True, Some (tt_of h))
       | None \<Rightarrow> (False, Some \<lparr>TtHubAddress = 0, TtHubPort = 0, TtMulti = False\<rparr>))"
    using assms(3) tt_loop_chain [OF c, of 16] len
    by (simp add: XhciTopoTtFor_def XhciTopoFind_def Let_def split: option.split)
  then show ?thesis using c len by blast
qed

theorem tt_nearest_witness:
  "\<exists>chain. upward small_graph 3 6 chain \<and> length chain \<le> 6"
  using tt_nearest [OF small_reachable small_hubs(5), of 6] by auto

end
