(* ===== verification/Xhci_Own.thy ===== *)
theory Xhci_Own
  imports Xhci_Prelude
begin

text \<open>
  Who holds an endpoint's ring across a change of interface setting (\<open>xhci_own.c\<close>,
  \<open>xhci_own.h\<close>): the steps of a select, and the check that an interface has one setting.

  The phases and events are datatypes, an event outside the listed ones being like an event the
  phase does not wait for; the actions stay the bit sets of the code. \<open>Single\<close>, \<open>Streams\<close> and
  \<open>Rollback\<close> are \<open>bool\<close>.
\<close>

section \<open>Constants and state\<close>

datatype own_event =
    XHCI_OWN_EV_CMD_NOT_ISSUED | XHCI_OWN_EV_CMD_SUCCESS | XHCI_OWN_EV_CMD_REFUSED | XHCI_OWN_EV_CMD_UNKNOWN
  | XHCI_OWN_EV_SETIF_DONE | XHCI_OWN_EV_SETIF_STALLED | XHCI_OWN_EV_SETIF_FAILED
  | XHCI_OWN_EV_CLEARS_DONE | XHCI_OWN_EV_CLEARS_FAILED

datatype own_phase =
    XHCI_OWN_PH_END | XHCI_OWN_PH_CONFIGURE | XHCI_OWN_PH_SETIF | XHCI_OWN_PH_CLEARS
  | XHCI_OWN_PH_ROLLBACK | XHCI_OWN_PH_RECLEARS

datatype own_answer =
    XHCI_OWN_ANS_PENDING | XHCI_OWN_ANS_SUCCESS | XHCI_OWN_ANS_COMMAND | XHCI_OWN_ANS_STALL | XHCI_OWN_ANS_FAILED

abbreviation (input) XHCI_OWN_A_FREE_NEW :: ulong where "XHCI_OWN_A_FREE_NEW \<equiv> 0x0001"
abbreviation (input) XHCI_OWN_A_FREE_OLD :: ulong where "XHCI_OWN_A_FREE_OLD \<equiv> 0x0002"
abbreviation (input) XHCI_OWN_A_FREE_OLD_STREAMS :: ulong where "XHCI_OWN_A_FREE_OLD_STREAMS \<equiv> 0x0004"
abbreviation (input) XHCI_OWN_A_RETAIN_NEW :: ulong where "XHCI_OWN_A_RETAIN_NEW \<equiv> 0x0008"
abbreviation (input) XHCI_OWN_A_RETAIN_OLD :: ulong where "XHCI_OWN_A_RETAIN_OLD \<equiv> 0x0010"
abbreviation (input) XHCI_OWN_A_PIN_NEW :: ulong where "XHCI_OWN_A_PIN_NEW \<equiv> 0x0020"
abbreviation (input) XHCI_OWN_A_PIN_OLD :: ulong where "XHCI_OWN_A_PIN_OLD \<equiv> 0x0040"
abbreviation (input) XHCI_OWN_A_PUBLISH_NEW :: ulong where "XHCI_OWN_A_PUBLISH_NEW \<equiv> 0x0080"
abbreviation (input) XHCI_OWN_A_REATTACH_OLD :: ulong where "XHCI_OWN_A_REATTACH_OLD \<equiv> 0x0100"
abbreviation (input) XHCI_OWN_A_STALE_CLEARED :: ulong where "XHCI_OWN_A_STALE_CLEARED \<equiv> 0x0200"
abbreviation (input) XHCI_OWN_A_SET_INTERFACE :: ulong where "XHCI_OWN_A_SET_INTERFACE \<equiv> 0x0400"
abbreviation (input) XHCI_OWN_A_CLEAR_NEW :: ulong where "XHCI_OWN_A_CLEAR_NEW \<equiv> 0x0800"
abbreviation (input) XHCI_OWN_A_ROLLBACK :: ulong where "XHCI_OWN_A_ROLLBACK \<equiv> 0x1000"
abbreviation (input) XHCI_OWN_A_CLEAR_OLD :: ulong where "XHCI_OWN_A_CLEAR_OLD \<equiv> 0x2000"
abbreviation (input) XHCI_OWN_NOT_ISSUED_CODE :: ulong where "XHCI_OWN_NOT_ISSUED_CODE \<equiv> 0xFFFFFFFF"
abbreviation (input) XHCI_OWN_CC_SUCCESS :: ulong where "XHCI_OWN_CC_SUCCESS \<equiv> 1"

record xhci_own_select =
  Phase :: own_phase
  Single :: bool
  Streams :: bool
  Rollback :: bool

section \<open>The steps\<close>

definition XhciOwnSelectBegin :: "bool \<Rightarrow> bool \<Rightarrow> bool \<Rightarrow> xhci_own_select" where
  "XhciOwnSelectBegin rollback single streams =
     \<lparr>Phase = XHCI_OWN_PH_CONFIGURE, Single = single, Streams = streams, Rollback = rollback\<rparr>"

definition XhciOwnCommandEvent :: "ulong \<Rightarrow> own_event" where
  "XhciOwnCommandEvent code =
     (if code = XHCI_OWN_NOT_ISSUED_CODE then XHCI_OWN_EV_CMD_NOT_ISSUED
      else if code = 0 then XHCI_OWN_EV_CMD_UNKNOWN
      else if code = XHCI_OWN_CC_SUCCESS then XHCI_OWN_EV_CMD_SUCCESS
      else XHCI_OWN_EV_CMD_REFUSED)"

text \<open>The results are the actions, the record and the answer.\<close>

definition xhciOwnEnd :: "xhci_own_select \<Rightarrow> own_answer \<Rightarrow> ulong \<Rightarrow> ulong \<times> xhci_own_select \<times> own_answer" where
  "xhciOwnEnd s ans actions = (actions, s\<lparr>Phase := XHCI_OWN_PH_END\<rparr>, ans)"

definition xhciOwnStalled :: "xhci_own_select \<Rightarrow> own_answer \<Rightarrow> ulong \<times> xhci_own_select \<times> own_answer" where
  "xhciOwnStalled s answer =
     (if Rollback s \<and> \<not> Streams s then (XHCI_OWN_A_ROLLBACK, s\<lparr>Phase := XHCI_OWN_PH_ROLLBACK\<rparr>, answer)
      else xhciOwnEnd s XHCI_OWN_ANS_STALL (XHCI_OWN_A_RETAIN_NEW OR XHCI_OWN_A_FREE_OLD))"

text \<open>What every branch that breaks out of the switch falls to.\<close>

definition own_unknown :: "xhci_own_select \<Rightarrow> ulong \<times> xhci_own_select \<times> own_answer" where
  "own_unknown s =
     xhciOwnEnd s
       (if Phase s = XHCI_OWN_PH_ROLLBACK \<or> Phase s = XHCI_OWN_PH_RECLEARS \<or>
           Phase s = XHCI_OWN_PH_CLEARS \<or> Phase s = XHCI_OWN_PH_SETIF
        then XHCI_OWN_ANS_STALL else XHCI_OWN_ANS_COMMAND)
       (XHCI_OWN_A_PIN_NEW OR XHCI_OWN_A_PIN_OLD)"

definition XhciOwnSelectStep :: "xhci_own_select \<Rightarrow> own_event \<Rightarrow> ulong \<times> xhci_own_select \<times> own_answer" where
  "XhciOwnSelectStep s event =
     (let answer = XHCI_OWN_ANS_PENDING in
      case Phase s of
        XHCI_OWN_PH_CONFIGURE \<Rightarrow>
          (case event of
             XHCI_OWN_EV_CMD_NOT_ISSUED \<Rightarrow>
               xhciOwnEnd s XHCI_OWN_ANS_COMMAND (XHCI_OWN_A_FREE_NEW OR XHCI_OWN_A_REATTACH_OLD)
           | XHCI_OWN_EV_CMD_REFUSED \<Rightarrow>
               xhciOwnEnd s XHCI_OWN_ANS_COMMAND (XHCI_OWN_A_FREE_NEW OR XHCI_OWN_A_REATTACH_OLD)
           | XHCI_OWN_EV_CMD_SUCCESS \<Rightarrow>
               (XHCI_OWN_A_STALE_CLEARED OR XHCI_OWN_A_FREE_OLD_STREAMS OR XHCI_OWN_A_SET_INTERFACE,
                s\<lparr>Phase := XHCI_OWN_PH_SETIF\<rparr>, answer)
           | _ \<Rightarrow> own_unknown s)
      | XHCI_OWN_PH_SETIF \<Rightarrow>
          (case event of
             XHCI_OWN_EV_SETIF_DONE \<Rightarrow>
               xhciOwnEnd s XHCI_OWN_ANS_SUCCESS (XHCI_OWN_A_FREE_OLD OR XHCI_OWN_A_PUBLISH_NEW)
           | XHCI_OWN_EV_SETIF_STALLED \<Rightarrow>
               if Rollback s \<and> Single s
               then (XHCI_OWN_A_CLEAR_NEW, s\<lparr>Phase := XHCI_OWN_PH_CLEARS\<rparr>, answer)
               else xhciOwnStalled s answer
           | XHCI_OWN_EV_SETIF_FAILED \<Rightarrow>
               xhciOwnEnd s XHCI_OWN_ANS_FAILED (XHCI_OWN_A_RETAIN_NEW OR XHCI_OWN_A_FREE_OLD)
           | _ \<Rightarrow> own_unknown s)
      | XHCI_OWN_PH_CLEARS \<Rightarrow>
          (case event of
             XHCI_OWN_EV_CLEARS_DONE \<Rightarrow>
               xhciOwnEnd s XHCI_OWN_ANS_SUCCESS (XHCI_OWN_A_FREE_OLD OR XHCI_OWN_A_PUBLISH_NEW)
           | XHCI_OWN_EV_CLEARS_FAILED \<Rightarrow> xhciOwnStalled s answer
           | _ \<Rightarrow> own_unknown s)
      | XHCI_OWN_PH_ROLLBACK \<Rightarrow>
          (case event of
             XHCI_OWN_EV_CMD_NOT_ISSUED \<Rightarrow>
               xhciOwnEnd s XHCI_OWN_ANS_STALL (XHCI_OWN_A_RETAIN_NEW OR XHCI_OWN_A_FREE_OLD)
           | XHCI_OWN_EV_CMD_REFUSED \<Rightarrow>
               xhciOwnEnd s XHCI_OWN_ANS_STALL (XHCI_OWN_A_RETAIN_NEW OR XHCI_OWN_A_FREE_OLD)
           | XHCI_OWN_EV_CMD_SUCCESS \<Rightarrow>
               (XHCI_OWN_A_FREE_NEW OR XHCI_OWN_A_CLEAR_OLD, s\<lparr>Phase := XHCI_OWN_PH_RECLEARS\<rparr>, answer)
           | _ \<Rightarrow> own_unknown s)
      | XHCI_OWN_PH_RECLEARS \<Rightarrow>
          (case event of
             XHCI_OWN_EV_CLEARS_DONE \<Rightarrow> xhciOwnEnd s XHCI_OWN_ANS_STALL XHCI_OWN_A_REATTACH_OLD
           | XHCI_OWN_EV_CLEARS_FAILED \<Rightarrow> xhciOwnEnd s XHCI_OWN_ANS_STALL XHCI_OWN_A_RETAIN_OLD
           | _ \<Rightarrow> own_unknown s)
      | XHCI_OWN_PH_END \<Rightarrow> own_unknown s)"

definition XhciOwnDropStep :: "own_event \<Rightarrow> ulong" where
  "XhciOwnDropStep event =
     (case event of
        XHCI_OWN_EV_CMD_SUCCESS \<Rightarrow> XHCI_OWN_A_STALE_CLEARED OR XHCI_OWN_A_FREE_OLD_STREAMS OR XHCI_OWN_A_FREE_OLD
      | XHCI_OWN_EV_CMD_NOT_ISSUED \<Rightarrow> XHCI_OWN_A_RETAIN_OLD
      | XHCI_OWN_EV_CMD_REFUSED \<Rightarrow> XHCI_OWN_A_RETAIN_OLD
      | _ \<Rightarrow> XHCI_OWN_A_PIN_OLD)"

section \<open>One alternate setting\<close>

text \<open>A step of the walk stays inside the descriptors and moves forward.\<close>

lemma walk_step:
  fixes at len totalLen :: ulong
  assumes "at < totalLen" and "\<not> len < 2" and "\<not> totalLen - at < len"
  shows "unat (at + len) = unat at + unat len" "unat at + unat len \<le> unat totalLen" "0 < unat len"
proof -
  have "unat (totalLen - at) = unat totalLen - unat at" using assms(1) by (intro unat_sub_no_wrap) (simp add: word_less_nat_alt)
  then have le: "unat len \<le> unat totalLen - unat at" using assms(3) by (simp add: word_less_nat_alt)
  then show b: "unat at + unat len \<le> unat totalLen" using assms(1) by (simp add: word_less_nat_alt)
  moreover have "unat totalLen < 4294967296" by simp
  ultimately have "unat at + unat len < 4294967296" by linarith
  then show "unat (at + len) = unat at + unat len" by (intro unat_add_no_wrap) simp
  show "0 < unat len" using assms(2) by (simp add: word_less_nat_alt)
qed

lemma walk_measure:
  fixes at len totalLen :: ulong
  assumes "at < totalLen" and "\<not> len < 2" and "\<not> totalLen - at < len"
  shows "unat totalLen - unat (at + len) < unat totalLen - unat at"
  using walk_step [OF assms] assms(1) by (simp add: word_less_nat_alt)

text \<open>The walk over the descriptors; \<open>None\<close> for a walk that cannot finish, the count otherwise.\<close>

function own_walk :: "uchar list \<Rightarrow> ulong \<Rightarrow> ulong \<Rightarrow> ulong \<Rightarrow> ulong \<Rightarrow> ulong option" where
  "own_walk config totalLen number at seen =
     (if at < totalLen then
        if totalLen - at < 2 then None
        else
          let len = ucast (config ! unat at) in
          if len < 2 \<or> len > totalLen - at then None
          else if config ! unat (at + 1) = 4 then
            if len < 9 then None
            else own_walk config totalLen number (at + len)
                   (if ucast (config ! unat (at + 2)) = number then seen + 1 else seen)
          else own_walk config totalLen number (at + len) seen
      else Some seen)"
  by pat_completeness auto

termination
  by (relation "measure (\<lambda>(config, totalLen, number, at, seen). unat totalLen - unat at)")
    (auto intro!: walk_measure)

declare own_walk.simps [simp del]

definition XhciOwnSingleSetting :: "uchar list option \<Rightarrow> ulong \<Rightarrow> ulong \<Rightarrow> bool" where
  "XhciOwnSingleSetting config len number =
     (case config of
        None \<Rightarrow> False
      | Some c \<Rightarrow>
          if len < 9 \<or> c ! 0 < 9 \<or> c ! 1 \<noteq> 2 then False
          else
            let totalLen = ucast (c ! 2) OR push_bit 8 (ucast (c ! 3)) :: ulong in
            if totalLen > len then False
            else
              (case own_walk c totalLen number (ucast (c ! 0)) 0 of
                 None \<Rightarrow> False
               | Some seen \<Rightarrow> seen = 1))"

end
