(* ===== verification/Xhci_Own_Props.thy ===== *)
theory Xhci_Own_Props
  imports Xhci_Own
begin

text \<open>
  Properties of the ownership decisions: an allocation the controller may still name is never freed,
  a select ends within five steps with each allocation disposed of exactly once, and the
  single-setting check accepts exactly the well-formed configurations with one setting.
\<close>

section \<open>What the controller's contexts may name\<close>

text \<open>
  Whether the endpoint contexts may name the old and the new allocations: a command that was not
  issued or was refused leaves them unchanged, a success replaces one by the other, and anything else
  leaves both possible.
\<close>

definition names_after :: "own_phase \<Rightarrow> own_event \<Rightarrow> bool \<times> bool \<Rightarrow> bool \<times> bool" where
  "names_after ph e w =
     (case ph of
        XHCI_OWN_PH_CONFIGURE \<Rightarrow>
          (case e of
             XHCI_OWN_EV_CMD_NOT_ISSUED \<Rightarrow> w | XHCI_OWN_EV_CMD_REFUSED \<Rightarrow> w
           | XHCI_OWN_EV_CMD_SUCCESS \<Rightarrow> (False, True) | _ \<Rightarrow> (True, True))
      | XHCI_OWN_PH_ROLLBACK \<Rightarrow>
          (case e of
             XHCI_OWN_EV_CMD_NOT_ISSUED \<Rightarrow> w | XHCI_OWN_EV_CMD_REFUSED \<Rightarrow> w
           | XHCI_OWN_EV_CMD_SUCCESS \<Rightarrow> (True, False) | _ \<Rightarrow> (True, True))
      | _ \<Rightarrow> w)"

text \<open>A run: for each event the actions, what may be named when they are taken, and the answer.\<close>

primrec own_run :: "xhci_own_select \<Rightarrow> bool \<times> bool \<Rightarrow> own_event list
    \<Rightarrow> (ulong \<times> (bool \<times> bool) \<times> own_answer) list \<times> xhci_own_select" where
  "own_run s w [] = ([], s)"
| "own_run s w (e # es) =
     (case XhciOwnSelectStep s e of (a, s', ans) \<Rightarrow>
        let w' = names_after (Phase s) e w in
        case own_run s' w' es of (r, z) \<Rightarrow> ((a, w', ans) # r, z))"

definition acts :: "ulong \<Rightarrow> ulong \<Rightarrow> bool" where
  "acts a b \<longleftrightarrow> a AND b \<noteq> 0"

definition step_safe :: "ulong \<times> (bool \<times> bool) \<times> own_answer \<Rightarrow> bool" where
  "step_safe x \<longleftrightarrow>
     (case x of (a, (old, new), ans) \<Rightarrow>
        (acts a XHCI_OWN_A_FREE_NEW \<longrightarrow> \<not> new) \<and>
        (acts a XHCI_OWN_A_FREE_OLD \<longrightarrow> \<not> old) \<and>
        (acts a XHCI_OWN_A_FREE_OLD_STREAMS \<longrightarrow> \<not> old) \<and>
        (acts a XHCI_OWN_A_PUBLISH_NEW \<longrightarrow> new \<and> \<not> old \<and> ans = XHCI_OWN_ANS_SUCCESS) \<and>
        (acts a XHCI_OWN_A_REATTACH_OLD \<longrightarrow> old \<and> \<not> new) \<and>
        (ans = XHCI_OWN_ANS_SUCCESS \<longrightarrow> acts a XHCI_OWN_A_PUBLISH_NEW))"

text \<open>What may be named in each phase.\<close>

definition phase_names :: "own_phase \<Rightarrow> bool \<times> bool \<Rightarrow> bool" where
  "phase_names ph w \<longleftrightarrow>
     (case ph of
        XHCI_OWN_PH_CONFIGURE \<Rightarrow> w = (True, False)
      | XHCI_OWN_PH_RECLEARS \<Rightarrow> w = (True, False)
      | XHCI_OWN_PH_END \<Rightarrow> True
      | _ \<Rightarrow> w = (False, True))"

lemmas own_step = XhciOwnSelectStep_def own_unknown_def xhciOwnEnd_def xhciOwnStalled_def Let_def

lemma step_names:
  assumes "phase_names (Phase s) w" and "XhciOwnSelectStep s e = (a, s', ans)"
  shows "phase_names (Phase s') (names_after (Phase s) e w) \<and> step_safe (a, names_after (Phase s) e w, ans)"
  using assms
  by (cases "Phase s"; cases e)
    (auto simp: own_step phase_names_def names_after_def step_safe_def acts_def split: if_splits)

lemma run_safe: "phase_names (Phase s) w \<Longrightarrow> \<forall>x\<in>set (fst (own_run s w es)). step_safe x"
proof (induction es arbitrary: s w)
  case (Cons e es)
  obtain a s' ans where st: "XhciOwnSelectStep s e = (a, s', ans)" by (cases "XhciOwnSelectStep s e") auto
  show ?case using step_names [OF Cons.prems st] Cons.IH [of s' "names_after (Phase s) e w"] st
    by (auto simp: Let_def split: prod.splits)
qed simp

section \<open>How a select ends\<close>

definition expected :: "own_phase \<Rightarrow> own_event \<Rightarrow> bool" where
  "expected ph e =
     (case ph of
        XHCI_OWN_PH_END \<Rightarrow> False
      | XHCI_OWN_PH_SETIF \<Rightarrow> e \<in> {XHCI_OWN_EV_SETIF_DONE, XHCI_OWN_EV_SETIF_STALLED, XHCI_OWN_EV_SETIF_FAILED}
      | XHCI_OWN_PH_CLEARS \<Rightarrow> e \<in> {XHCI_OWN_EV_CLEARS_DONE, XHCI_OWN_EV_CLEARS_FAILED}
      | XHCI_OWN_PH_RECLEARS \<Rightarrow> e \<in> {XHCI_OWN_EV_CLEARS_DONE, XHCI_OWN_EV_CLEARS_FAILED}
      | _ \<Rightarrow> e \<in> {XHCI_OWN_EV_CMD_NOT_ISSUED, XHCI_OWN_EV_CMD_SUCCESS, XHCI_OWN_EV_CMD_REFUSED,
                  XHCI_OWN_EV_CMD_UNKNOWN})"

primrec own_fits :: "xhci_own_select \<Rightarrow> own_event list \<Rightarrow> bool" where
  "own_fits s [] = True"
| "own_fits s (e # es) \<longleftrightarrow> expected (Phase s) e \<and> own_fits (fst (snd (XhciOwnSelectStep s e))) es"

definition new_disposals :: "ulong \<Rightarrow> nat" where
  "new_disposals a = length (List.filter (acts a)
     [XHCI_OWN_A_FREE_NEW, XHCI_OWN_A_RETAIN_NEW, XHCI_OWN_A_PIN_NEW, XHCI_OWN_A_PUBLISH_NEW])"

definition old_disposals :: "ulong \<Rightarrow> nat" where
  "old_disposals a = length (List.filter (acts a)
     [XHCI_OWN_A_FREE_OLD, XHCI_OWN_A_RETAIN_OLD, XHCI_OWN_A_PIN_OLD, XHCI_OWN_A_REATTACH_OLD])"

definition new_held :: "own_phase \<Rightarrow> nat" where
  "new_held ph = (if ph = XHCI_OWN_PH_RECLEARS \<or> ph = XHCI_OWN_PH_END then 0 else 1)"

definition old_held :: "own_phase \<Rightarrow> nat" where
  "old_held ph = (if ph = XHCI_OWN_PH_END then 0 else 1)"

definition steps_left :: "own_phase \<Rightarrow> nat" where
  "steps_left ph =
     (case ph of XHCI_OWN_PH_CONFIGURE \<Rightarrow> 5 | XHCI_OWN_PH_SETIF \<Rightarrow> 4 | XHCI_OWN_PH_CLEARS \<Rightarrow> 3
      | XHCI_OWN_PH_ROLLBACK \<Rightarrow> 2 | XHCI_OWN_PH_RECLEARS \<Rightarrow> 1 | XHCI_OWN_PH_END \<Rightarrow> 0)"

lemma step_disposes:
  assumes "expected (Phase s) e" and "XhciOwnSelectStep s e = (a, s', ans)"
  shows "new_disposals a + new_held (Phase s') = new_held (Phase s) \<and>
    old_disposals a + old_held (Phase s') = old_held (Phase s) \<and>
    steps_left (Phase s') < steps_left (Phase s) \<and>
    (ans = XHCI_OWN_ANS_PENDING \<longleftrightarrow> Phase s' \<noteq> XHCI_OWN_PH_END)"
  using assms
  by (cases "Phase s"; cases e)
    (auto simp: own_step expected_def new_disposals_def old_disposals_def new_held_def old_held_def
      steps_left_def acts_def split: if_splits)

lemma run_disposes:
  "own_fits s es \<Longrightarrow> own_run s w es = (r, z) \<Longrightarrow>
    sum_list (map (\<lambda>x. new_disposals (fst x)) r) + new_held (Phase z) = new_held (Phase s) \<and>
    sum_list (map (\<lambda>x. old_disposals (fst x)) r) + old_held (Phase z) = old_held (Phase s) \<and>
    length es + steps_left (Phase z) \<le> steps_left (Phase s) \<and>
    (r \<noteq> [] \<longrightarrow> (snd (snd (last r)) = XHCI_OWN_ANS_PENDING \<longleftrightarrow> Phase z \<noteq> XHCI_OWN_PH_END))"
proof (induction es arbitrary: s w r z)
  case (Cons e es)
  obtain a s' ans where st: "XhciOwnSelectStep s e = (a, s', ans)" by (cases "XhciOwnSelectStep s e") auto
  obtain r' where r': "own_run s' (names_after (Phase s) e w) es = (r', z)" "r = (a, names_after (Phase s) e w, ans) # r'"
    using Cons.prems(2) st by (auto simp: Let_def split: prod.splits)
  have fits: "expected (Phase s) e" "own_fits s' es" using Cons.prems(1) st by simp_all
  note d = step_disposes [OF fits(1) st] and ih = Cons.IH [OF fits(2) r'(1)]
  have sums: "sum_list (map (\<lambda>x. new_disposals (fst x)) r) = new_disposals a + sum_list (map (\<lambda>x. new_disposals (fst x)) r')"
    "sum_list (map (\<lambda>x. old_disposals (fst x)) r) = old_disposals a + sum_list (map (\<lambda>x. old_disposals (fst x)) r')"
    by (simp_all add: r'(2))
  have "snd (snd (last r)) = XHCI_OWN_ANS_PENDING \<longleftrightarrow> Phase z \<noteq> XHCI_OWN_PH_END"
  proof (cases es)
    case Nil
    then show ?thesis using r' d by simp
  next
    case (Cons e' es')
    then have "r' \<noteq> []" using r'(1) by (auto simp: Let_def split: prod.splits)
    then show ?thesis using r'(2) ih by simp
  qed
  moreover have "length (e # es) + steps_left (Phase z) \<le> steps_left (Phase s)" using d ih by simp
  ultimately show ?case using sums d ih by simp
qed auto

section \<open>The walk over the descriptors\<close>

definition desc_bytes :: "uchar list \<Rightarrow> bool" where
  "desc_bytes d \<longleftrightarrow> 2 \<le> length d \<and> unat (d ! 0) = length d \<and> (d ! 1 = 4 \<longrightarrow> 9 \<le> length d)"

definition settings_of :: "ulong \<Rightarrow> uchar list list \<Rightarrow> nat" where
  "settings_of number ds = length (List.filter (\<lambda>d. d ! 1 = 4 \<and> ucast (d ! 2) = number) ds)"

lemma descs_cons:
  assumes "rest \<noteq> []"
  shows "(\<exists>ds. list_all desc_bytes ds \<and> concat ds = rest \<and> P ds) \<longleftrightarrow>
    (let n = unat (rest ! 0) in
     2 \<le> n \<and> n \<le> length rest \<and> (rest ! 1 = 4 \<longrightarrow> 9 \<le> n) \<and>
     (\<exists>ds. list_all desc_bytes ds \<and> concat ds = drop n rest \<and> P (take n rest # ds)))"
    (is "?L \<longleftrightarrow> ?R")
proof
  assume ?L
  then obtain ds where ds: "list_all desc_bytes ds" "concat ds = rest" "P ds" by blast
  then obtain d ds' where d: "ds = d # ds'" using assms by (cases ds) auto
  have len: "length d = unat (d ! 0)" "2 \<le> length d" "d ! 1 = 4 \<longrightarrow> 9 \<le> length d"
    using ds(1) d by (simp_all add: desc_bytes_def)
  have rest: "rest = d @ concat ds'" using ds(2) d by simp
  have "d \<noteq> []" using len(2) by auto
  then have nth: "rest ! 0 = d ! 0" "rest ! 1 = d ! 1" using len(2) by (simp_all add: rest nth_append)
  have cut: "take (unat (d ! 0)) rest = d" "drop (unat (d ! 0)) rest = concat ds'"
    by (simp_all add: rest len(1) [symmetric])
  show ?R using ds d len nth cut rest by (auto simp: Let_def)
next
  assume ?R
  then obtain ds where ds: "2 \<le> unat (rest ! 0)" "unat (rest ! 0) \<le> length rest" "rest ! 1 = 4 \<longrightarrow> 9 \<le> unat (rest ! 0)"
    "list_all desc_bytes ds" "concat ds = drop (unat (rest ! 0)) rest" "P (take (unat (rest ! 0)) rest # ds)"
    by (auto simp: Let_def)
  then have "desc_bytes (take (unat (rest ! 0)) rest)" by (auto simp: desc_bytes_def)
  then show ?L using ds by (intro exI [of _ "take (unat (rest ! 0)) rest # ds"]) auto
qed

lemma no_descs: "(\<exists>ds. list_all desc_bytes ds \<and> concat ds = [] \<and> P ds) \<longleftrightarrow> P []"
proof
  assume "\<exists>ds. list_all desc_bytes ds \<and> concat ds = [] \<and> P ds"
  then obtain ds where ds: "list_all desc_bytes ds" "concat ds = []" "P ds" by blast
  then have "ds = []" by (cases ds) (auto simp: desc_bytes_def)
  then show "P []" using ds(3) by simp
qed (intro exI [of _ "[]"], simp)

lemma own_walk_exact:
  assumes "unat totalLen \<le> length c" and "unat at \<le> unat totalLen"
  shows "own_walk c totalLen number at seen = Some k \<longleftrightarrow>
    (\<exists>ds. list_all desc_bytes ds \<and> concat ds = drop (unat at) (take (unat totalLen) c) \<and>
       k = seen + of_nat (settings_of number ds))"
  using assms
proof (induction c totalLen number at seen rule: own_walk.induct)
  case (1 c totalLen number at seen)
  let ?rest = "drop (unat at) (take (unat totalLen) c)"
  have len: "length ?rest = unat totalLen - unat at" using "1.prems" by simp
  show ?case
  proof (cases "at < totalLen")
    case False
    then have e: "?rest = []" by (simp add: word_less_nat_alt)
    have w: "own_walk c totalLen number at seen = Some seen" using False by (subst own_walk.simps) simp
    show ?thesis unfolding w e no_descs by (auto simp: settings_of_def)
  next
    case True
    then have lt: "unat at < unat totalLen" by (simp add: word_less_nat_alt)
    have ne: "?rest \<noteq> []" using len lt by auto
    have gap: "unat (totalLen - at) = unat totalLen - unat at" using lt by (intro unat_sub_no_wrap) simp
    have r0: "?rest ! 0 = c ! unat at" using lt "1.prems"(1) by simp
    define l :: ulong where "l = ucast (c ! unat at)"
    have ul: "unat l = unat (c ! unat at)" by (simp add: l_def unat_ucast_byte)
    show ?thesis
    proof (cases "2 \<le> unat l \<and> unat l \<le> unat totalLen - unat at")
      case False
      then have "own_walk c totalLen number at seen = None"
        using True gap by (subst own_walk.simps) (auto simp: word_less_nat_alt Let_def l_def)
      moreover have "\<not> (\<exists>ds. list_all desc_bytes ds \<and> concat ds = ?rest \<and> k = seen + of_nat (settings_of number ds))"
        using False unfolding descs_cons [OF ne] Let_def r0 len ul by blast
      ultimately show ?thesis by simp
    next
      case fit: True
      then have two: "2 \<le> unat totalLen - unat at" by linarith
      have at1: "unat (at + 1) = unat at + 1" "unat (at + 2) = unat at + 2"
      proof -
        have "unat at + 2 < 4294967296" using two lt unat_lt_2p32 [of totalLen] by linarith
        then show "unat (at + 1) = unat at + 1" "unat (at + 2) = unat at + 2" by (simp_all add: unat_add_no_wrap)
      qed
      have atl: "unat (at + l) = unat at + unat l" "unat (at + l) \<le> unat totalLen"
        using walk_step [of at totalLen l] True fit gap by (auto simp: word_less_nat_alt)
      have r1: "?rest ! 1 = c ! unat (at + 1)" using two "1.prems"(1) at1 by simp
      have nxt: "drop (unat l) ?rest = drop (unat (at + l)) (take (unat totalLen) c)" by (simp add: atl(1) add.commute)
      have step: "own_walk c totalLen number at seen =
          (if c ! unat (at + 1) = 4 then
             if l < 9 then None
             else own_walk c totalLen number (at + l) (if ucast (c ! unat (at + 2)) = number then seen + 1 else seen)
           else own_walk c totalLen number (at + l) seen)"
        using True fit gap by (subst own_walk.simps) (auto simp: word_less_nat_alt Let_def l_def)
      have cond: "\<not> totalLen - at < 2" "\<not> (l < 2 \<or> totalLen - at < l)" using fit gap two by (auto simp: word_less_nat_alt)
      have head1: "take (unat l) ?rest ! 1 = c ! unat (at + 1)" using fit r1 by simp
      show ?thesis
      proof (cases "c ! unat (at + 1) = 4")
        case False
        have ih: "own_walk c totalLen number (at + l) seen = Some k \<longleftrightarrow>
          (\<exists>ds. list_all desc_bytes ds \<and> concat ds = drop (unat (at + l)) (take (unat totalLen) c) \<and>
            k = seen + of_nat (settings_of number ds))"
          using "1.IH"(2) [OF True cond(1) l_def cond(2) False "1.prems"(1)] atl by simp
        show ?thesis
          unfolding descs_cons [OF ne] Let_def r0 ul [symmetric] r1 len nxt step
          using False fit ih head1 by (simp add: settings_of_def)
      next
        case four: True
        show ?thesis
        proof (cases "9 \<le> unat l")
          case False
          then have "l < 9" by (simp add: word_less_nat_alt)
          then show ?thesis
            unfolding descs_cons [OF ne] Let_def r0 ul [symmetric] r1 len nxt step
            using four False by simp
        next
          case nine: True
          then have n9: "\<not> l < 9" by (simp add: word_less_nat_alt)
          have head2: "take (unat l) ?rest ! 2 = c ! unat (at + 2)"
            using nine fit at1 "1.prems"(1) by simp
          let ?s = "if ucast (c ! unat (at + 2)) = number then seen + 1 else seen"
          have ih: "own_walk c totalLen number (at + l) ?s = Some k \<longleftrightarrow>
            (\<exists>ds. list_all desc_bytes ds \<and> concat ds = drop (unat (at + l)) (take (unat totalLen) c) \<and>
              k = ?s + of_nat (settings_of number ds))"
            using "1.IH"(1) [OF True cond(1) l_def cond(2) four n9 "1.prems"(1)] atl by simp
          have count: "settings_of number (take (unat l) ?rest # ds) =
              (if ucast (c ! unat (at + 2)) = number then 1 else 0) + settings_of number ds" for ds
            using four head1 head2 by (simp add: settings_of_def)
          show ?thesis
            unfolding descs_cons [OF ne] Let_def r0 ul [symmetric] r1 len nxt step count
            using four nine fit n9 ih by (simp add: algebra_simps)
        qed
      qed
    qed
  qed
qed

lemma settings_le: "list_all desc_bytes ds \<Longrightarrow> settings_of number ds \<le> length (concat ds)"
  by (induction ds) (auto simp: settings_of_def desc_bytes_def)

section \<open>Properties\<close>



text \<open>
  C30: A select ends, and disposes of everything once. Fed the outcomes its phases wait for, it takes
  at most five of them; the answer is pending exactly until it has ended; and when it has ended the new
  allocations have been freed, retained, pinned or published exactly once, and the old ones freed,
  retained, pinned or put back exactly once.
\<close>

theorem select_disposes_once:
  assumes "own_fits (XhciOwnSelectBegin rollback single streams) evs" and "evs \<noteq> []"
    and "own_run (XhciOwnSelectBegin rollback single streams) (True, False) evs = (r, s')"
  shows "length evs \<le> 5 \<and>
    (snd (snd (last r)) = XHCI_OWN_ANS_PENDING \<longleftrightarrow> Phase s' \<noteq> XHCI_OWN_PH_END) \<and>
    (length evs = 5 \<longrightarrow> Phase s' = XHCI_OWN_PH_END) \<and>
    (Phase s' = XHCI_OWN_PH_END \<longrightarrow>
       (\<Sum>x\<leftarrow>r. new_disposals (fst x)) = 1 \<and> (\<Sum>x\<leftarrow>r. old_disposals (fst x)) = 1)"
proof -
  let ?s = "XhciOwnSelectBegin rollback single streams"
  have s: "Phase ?s = XHCI_OWN_PH_CONFIGURE" by (simp add: XhciOwnSelectBegin_def)
  have "r \<noteq> []" using assms(2,3) by (cases evs) (auto simp: Let_def split: prod.splits)
  then have "length evs + steps_left (Phase s') \<le> 5"
    "snd (snd (last r)) = XHCI_OWN_ANS_PENDING \<longleftrightarrow> Phase s' \<noteq> XHCI_OWN_PH_END"
    "(\<Sum>x\<leftarrow>r. new_disposals (fst x)) + new_held (Phase s') = 1"
    "(\<Sum>x\<leftarrow>r. old_disposals (fst x)) + old_held (Phase s') = 1"
    using run_disposes [OF assms(1,3)] by (simp_all add: s steps_left_def new_held_def old_held_def)
  then show ?thesis
    by (cases "Phase s'") (auto simp: steps_left_def new_held_def old_held_def)
qed

theorem select_disposes_once_witness:
  "\<exists>r s'. own_run (XhciOwnSelectBegin True True False) (True, False)
      [XHCI_OWN_EV_CMD_SUCCESS, XHCI_OWN_EV_SETIF_STALLED, XHCI_OWN_EV_CLEARS_FAILED,
       XHCI_OWN_EV_CMD_SUCCESS, XHCI_OWN_EV_CLEARS_DONE] = (r, s') \<and>
     Phase s' = XHCI_OWN_PH_END \<and> (\<Sum>x\<leftarrow>r. new_disposals (fst x)) = 1 \<and> (\<Sum>x\<leftarrow>r. old_disposals (fst x)) = 1"
proof -
  let ?evs = "[XHCI_OWN_EV_CMD_SUCCESS, XHCI_OWN_EV_SETIF_STALLED, XHCI_OWN_EV_CLEARS_FAILED,
       XHCI_OWN_EV_CMD_SUCCESS, XHCI_OWN_EV_CLEARS_DONE]"
  obtain r s' where run: "own_run (XhciOwnSelectBegin True True False) (True, False) ?evs = (r, s')" by fastforce
  moreover have "own_fits (XhciOwnSelectBegin True True False) ?evs" by code_simp
  ultimately show ?thesis using select_disposes_once [of True True False ?evs r s'] by auto
qed

text \<open>
  The single-setting check answers yes exactly for a configuration whose descriptors, from the end
  of the first to \<open>wTotalLength\<close>, are cut cleanly by their length bytes, every interface descriptor at
  least nine bytes long, with exactly one interface descriptor of the given number. The walk terminates
  for every input.
\<close>

theorem single_setting_exact:
  fixes c :: "uchar list" and len number :: ulong
  assumes buf: "unat len \<le> length c"
  shows "XhciOwnSingleSetting (Some c) len number \<longleftrightarrow>
    (let T = unat (c ! 2) + 256 * unat (c ! 3) in
     9 \<le> unat len \<and> 9 \<le> unat (c ! 0) \<and> c ! 1 = 2 \<and> T \<le> unat len \<and>
     (\<exists>ds. list_all desc_bytes ds \<and> concat ds = drop (unat (c ! 0)) (take T c) \<and> settings_of number ds = 1))"
proof -
  let ?w = "ucast (c ! 2) OR push_bit 8 (ucast (c ! 3)) :: ulong" and ?at = "ucast (c ! 0) :: ulong"
  define T where "T = unat (c ! 2) + 256 * unat (c ! 3)"
  have uT: "unat ?w = T" by (simp only: unat_total T_def)
  have uat: "unat ?at = unat (c ! 0)" by (rule unat_ucast_byte)
  have small: "T < 65536" using unat_byte_less [of "c ! 2"] unat_byte_less [of "c ! 3"] by (simp add: T_def)
  have walk: "own_walk c ?w number ?at 0 = Some 1 \<longleftrightarrow>
    (\<exists>ds. list_all desc_bytes ds \<and> concat ds = drop (unat (c ! 0)) (take T c) \<and> settings_of number ds = 1)"
    if T: "T \<le> unat len"
  proof (cases "unat (c ! 0) \<le> T")
    case True
    have one: "(1 :: ulong) = of_nat (settings_of number ds) \<longleftrightarrow> settings_of number ds = 1"
      if "list_all desc_bytes ds" "concat ds = drop (unat (c ! 0)) (take T c)" for ds
    proof -
      have "settings_of number ds \<le> T" using settings_le [OF that(1), of number] that(2) by simp
      then have "unat (of_nat (settings_of number ds) :: ulong) = settings_of number ds"
        using small by (intro unat_of_nat_ulong) simp
      then show ?thesis by (metis of_nat_1 unsigned_1)
    qed
    have "own_walk c ?w number ?at 0 = Some 1 \<longleftrightarrow>
      (\<exists>ds. list_all desc_bytes ds \<and> concat ds = drop (unat (c ! 0)) (take T c) \<and> 1 = 0 + (of_nat (settings_of number ds) :: ulong))"
      using own_walk_exact [of ?w c ?at number 0 1] T buf True by (simp add: uT uat)
    then show ?thesis using one by auto
  next
    case False
    then have "\<not> ?at < ?w" by (simp add: word_less_nat_alt uT uat)
    then have "own_walk c ?w number ?at 0 = Some 0" by (subst own_walk.simps) simp
    moreover have "drop (unat (c ! 0)) (take T c) = []" using False by simp
    ultimately show ?thesis by (simp only: no_descs) (simp add: settings_of_def)
  qed
  have "XhciOwnSingleSetting (Some c) len number \<longleftrightarrow>
    9 \<le> unat len \<and> 9 \<le> unat (c ! 0) \<and> c ! 1 = 2 \<and> T \<le> unat len \<and> own_walk c ?w number ?at 0 = Some 1"
    by (auto simp: XhciOwnSingleSetting_def Let_def word_less_nat_alt word_le_nat_alt uT split: option.split)
  then show ?thesis unfolding Let_def T_def [symmetric] using walk by blast
qed

theorem single_setting_exact_witness:
  "XhciOwnSingleSetting (Some [9, 2, 18, 0, 1, 1, 0, 0x80, 50, 9, 4, 0, 0, 0, 8, 6, 80, 0]) 18 0 \<and>
   (\<exists>ds. list_all desc_bytes ds \<and> concat ds = [9, 4, 0, 0, 0, 8, 6, 80, 0] \<and> settings_of 0 ds = 1)"
proof -
  let ?c = "[9, 2, 18, 0, 1, 1, 0, 0x80, 50, 9, 4, 0, 0, 0, 8, 6, 80, 0] :: uchar list"
  have yes: "XhciOwnSingleSetting (Some ?c) 18 0" by code_simp
  have "?c ! 0 = 9 \<and> unat (?c ! 2) + 256 * unat (?c ! 3) = 18" by simp
  then show ?thesis using yes single_setting_exact [of 18 ?c 0] by (simp add: Let_def)
qed

end
