(* ===== verification/Xhci_Enum.thy ===== *)
theory Xhci_Enum
  imports Xhci_Port
begin

text \<open>
  The enumeration state machine (\<open>xhci_enum.c\<close>, \<open>xhci_enum.h\<close>), one per port: a transition function
  over the port's record and an event, the answers of the settle and of the keeps across a resume and
  a link failure, the note budget and the note layouts.

  States, events, actions and failure causes are datatypes; the 0/1 fields \<open>Ok\<close>, \<open>PdoExists\<close>,
  \<open>BosMissing\<close>, \<open>Usb2Bos\<close>, \<open>Usb2BosTried\<close>, \<open>Usb2BosSkip\<close>, \<open>Saturated\<close> and \<open>FailedLooked\<close> are \<open>bool\<close>,
  and so are arguments and results the code only tests.
\<close>

section \<open>Constants and records\<close>

datatype enum_state =
    XHCI_ENUM_EMPTY | XHCI_ENUM_DEBOUNCE | XHCI_ENUM_RESET | XHCI_ENUM_ENABLE_SLOT | XHCI_ENUM_ADDRESS
  | XHCI_ENUM_DESC8 | XHCI_ENUM_EVALUATE | XHCI_ENUM_DESC18 | XHCI_ENUM_CONFIG9 | XHCI_ENUM_CONFIG_FULL
  | XHCI_ENUM_PRESENT | XHCI_ENUM_BOUND | XHCI_ENUM_GONE | XHCI_ENUM_FAILED | XHCI_ENUM_BOS5 | XHCI_ENUM_BOS_FULL

datatype enum_event_kind =
    XHCI_ENUM_EV_CONNECT | XHCI_ENUM_EV_DISCONNECT | XHCI_ENUM_EV_DEBOUNCED | XHCI_ENUM_EV_RESET_DONE
  | XHCI_ENUM_EV_COMMAND_DONE | XHCI_ENUM_EV_TRANSFER_DONE | XHCI_ENUM_EV_PDO_CREATED | XHCI_ENUM_EV_PDO_STARTED
  | XHCI_ENUM_EV_PDO_REMOVED | XHCI_ENUM_EV_ABANDONED | XHCI_ENUM_EV_RETRY_INTERNAL

datatype enum_action_kind =
    XHCI_ENUM_ACT_NONE | XHCI_ENUM_ACT_DEBOUNCE | XHCI_ENUM_ACT_RESET | XHCI_ENUM_ACT_ENABLE_SLOT
  | XHCI_ENUM_ACT_ADDRESS | XHCI_ENUM_ACT_GET_DEVICE | XHCI_ENUM_ACT_EVALUATE | XHCI_ENUM_ACT_GET_CONFIG
  | XHCI_ENUM_ACT_CREATE_PDO | XHCI_ENUM_ACT_DISABLE_SLOT | XHCI_ENUM_ACT_REPORT_GONE | XHCI_ENUM_ACT_GET_BOS

datatype enum_fail =
    XHCI_ENUM_FAIL_NONE | XHCI_ENUM_FAIL_RESET | XHCI_ENUM_FAIL_NO_SLOT | XHCI_ENUM_FAIL_ADDRESS
  | XHCI_ENUM_FAIL_DESCRIPTOR | XHCI_ENUM_FAIL_CONFIG | XHCI_ENUM_FAIL_PDO | XHCI_ENUM_FAIL_SPEED

abbreviation (input) XHCI_ENUM_SPEED_FULL :: ulong where "XHCI_ENUM_SPEED_FULL \<equiv> 1"
abbreviation (input) XHCI_ENUM_SPEED_LOW :: ulong where "XHCI_ENUM_SPEED_LOW \<equiv> 2"
abbreviation (input) XHCI_ENUM_SPEED_HIGH :: ulong where "XHCI_ENUM_SPEED_HIGH \<equiv> 3"
abbreviation (input) XHCI_ENUM_SPEED_SUPER :: ulong where "XHCI_ENUM_SPEED_SUPER \<equiv> 4"
abbreviation (input) XHCI_ENUM_DEVICE_DESC_BYTES :: ulong where "XHCI_ENUM_DEVICE_DESC_BYTES \<equiv> 18"
abbreviation (input) XHCI_ENUM_CONFIG_HEAD_BYTES :: ulong where "XHCI_ENUM_CONFIG_HEAD_BYTES \<equiv> 9"
abbreviation (input) XHCI_ENUM_BOS_HEAD_BYTES :: ulong where "XHCI_ENUM_BOS_HEAD_BYTES \<equiv> 5"
abbreviation (input) XHCI_ENUM_USB2_BOS_BCD :: ulong where "XHCI_ENUM_USB2_BOS_BCD \<equiv> 0x0210"
abbreviation (input) XHCI_ENUM_RETRIES :: ulong where "XHCI_ENUM_RETRIES \<equiv> 1"
abbreviation (input) XHCI_ENUM_BOS_MEMO_SLOTS :: ulong where "XHCI_ENUM_BOS_MEMO_SLOTS \<equiv> 16"
abbreviation (input) XHCI_ENUM_NOTE_BUDGET :: ulong where "XHCI_ENUM_NOTE_BUDGET \<equiv> 8"
abbreviation (input) XHCI_ENUM_SETTLE_DEFAULT_MS :: ulong where "XHCI_ENUM_SETTLE_DEFAULT_MS \<equiv> 5000"
abbreviation (input) XHCI_ENUM_SETTLE_MAX_MS :: ulong where "XHCI_ENUM_SETTLE_MAX_MS \<equiv> 30000"
abbreviation (input) XHCI_ENUM_SETTLE_PORT_MS :: ulong where "XHCI_ENUM_SETTLE_PORT_MS \<equiv> 2000"
abbreviation (input) XHCI_LINK_KEEP_MAX :: ulong where "XHCI_LINK_KEEP_MAX \<equiv> 3"
abbreviation (input) XHCI_LINK_KEEP_WINDOW :: ulong where "XHCI_LINK_KEEP_WINDOW \<equiv> 600"

record xhci_enum_port =
  EnState :: enum_state
  EnSpeed :: ulong
  EnSlotId :: ulong
  EnMps0 :: ulong
  ConfigLength :: ulong
  Retries :: ulong
  FailCause :: enum_fail
  PdoExists :: bool
  BosLength :: ulong
  BosMissing :: bool
  Usb2Bos :: bool
  Usb2BosTried :: bool
  Usb2BosSkip :: bool

record xhci_enum_event =
  EnKind :: enum_event_kind
  EnOk :: bool
  EnEvSpeed :: ulong
  EnEvSlotId :: ulong
  EnBytes :: ulong
  EnValue :: ulong

record xhci_enum_action =
  ActKind :: enum_action_kind
  ActLength :: ulong
  ActMps0 :: ulong

record xhci_enum_bos_memo =
  MemoCount :: ulong
  Saturated :: bool
  VidPid :: "ulong list"

section \<open>Packet sizes and the BOS\<close>

definition XhciEnumInitialMps0 :: "ulong \<Rightarrow> ulong" where
  "XhciEnumInitialMps0 speed =
     (if speed = XHCI_ENUM_SPEED_LOW then 8
      else if speed = XHCI_ENUM_SPEED_FULL then 64
      else if speed = XHCI_ENUM_SPEED_HIGH then 64
      else if speed = XHCI_ENUM_SPEED_SUPER then 512
      else 0)"

definition XhciEnumReset :: "xhci_enum_port \<Rightarrow> xhci_enum_port" where
  "XhciEnumReset port =
     port\<lparr>EnState := XHCI_ENUM_EMPTY, EnSpeed := 0, EnSlotId := 0, EnMps0 := 0, ConfigLength := 0,
          Retries := 0, FailCause := XHCI_ENUM_FAIL_NONE, PdoExists := False, BosLength := 0,
          BosMissing := False, Usb2Bos := False, Usb2BosTried := False, Usb2BosSkip := False\<rparr>"

definition XhciEnumBosMemoHas :: "xhci_enum_bos_memo option \<Rightarrow> ulong \<Rightarrow> bool" where
  "XhciEnumBosMemoHas memo vidPid =
     (case memo of
        None \<Rightarrow> False
      | Some m \<Rightarrow>
          if Saturated m then True
          else find (\<lambda>i. VidPid m ! i = vidPid)
                 [0..<min (unat (MemoCount m)) (unat XHCI_ENUM_BOS_MEMO_SLOTS)] \<noteq> None)"

definition XhciEnumBosMemoAdd :: "xhci_enum_bos_memo option \<Rightarrow> ulong \<Rightarrow> xhci_enum_bos_memo option" where
  "XhciEnumBosMemoAdd memo vidPid =
     (case memo of
        None \<Rightarrow> memo
      | Some m \<Rightarrow>
          if XhciEnumBosMemoHas memo vidPid then memo
          else if MemoCount m \<ge> XHCI_ENUM_BOS_MEMO_SLOTS then Some (m\<lparr>Saturated := True\<rparr>)
          else Some (m\<lparr>MemoCount := MemoCount m + 1, VidPid := (VidPid m)[unat (MemoCount m) := vidPid]\<rparr>))"

definition XhciEnumBosHaltMemo :: "xhci_enum_port option \<Rightarrow> bool" where
  "XhciEnumBosHaltMemo port =
     (case port of
        None \<Rightarrow> False
      | Some p \<Rightarrow>
          if \<not> Usb2BosTried p then False
          else
            (case EnState p of
               XHCI_ENUM_BOS5 \<Rightarrow> True
             | XHCI_ENUM_BOS_FULL \<Rightarrow> True
             | XHCI_ENUM_CONFIG9 \<Rightarrow> True
             | XHCI_ENUM_CONFIG_FULL \<Rightarrow> True
             | XHCI_ENUM_FAILED \<Rightarrow> True
             | _ \<Rightarrow> False))"

definition XhciEnumWantsBos :: "ulong \<Rightarrow> ulong \<Rightarrow> bool \<Rightarrow> bool \<Rightarrow> bool" where
  "XhciEnumWantsBos speed bcdUsb on skip =
     (if speed = XHCI_ENUM_SPEED_SUPER then True
      else if speed \<noteq> XHCI_ENUM_SPEED_HIGH \<and> speed \<noteq> XHCI_ENUM_SPEED_FULL then False
      else bcdUsb \<ge> XHCI_ENUM_USB2_BOS_BCD \<and> on \<and> \<not> skip)"

definition xhciEnumMps0Of :: "ulong \<Rightarrow> ulong \<Rightarrow> ulong" where
  "xhciEnumMps0Of speed v =
     (if speed = XHCI_ENUM_SPEED_SUPER then (if v = 9 then 512 else 0) else v)"

definition xhciEnumMps0Valid :: "ulong \<Rightarrow> ulong \<Rightarrow> bool" where
  "xhciEnumMps0Valid speed mps =
     (if speed = XHCI_ENUM_SPEED_SUPER then mps = 512
      else if speed = XHCI_ENUM_SPEED_LOW then mps = 8
      else if speed = XHCI_ENUM_SPEED_HIGH then mps = 64
      else mps = 8 \<or> mps = 16 \<or> mps = 32 \<or> mps = 64)"

section \<open>The machine\<close>

definition xhciEnumAct :: "enum_action_kind \<Rightarrow> ulong \<Rightarrow> ulong \<Rightarrow> xhci_enum_action" where
  "xhciEnumAct kind len mps0 = \<lparr>ActKind = kind, ActLength = len, ActMps0 = mps0\<rparr>"

definition xhciEnumFail :: "xhci_enum_port \<Rightarrow> enum_fail \<Rightarrow> xhci_enum_action \<Rightarrow> xhci_enum_port \<times> xhci_enum_action" where
  "xhciEnumFail port cause action =
     (let port = (if Usb2BosTried port then port\<lparr>Usb2BosSkip := True\<rparr> else port);
          port = port\<lparr>FailCause := cause, EnState := XHCI_ENUM_FAILED\<rparr>
      in if EnSlotId port \<noteq> 0
         then (port\<lparr>EnSlotId := 0\<rparr>, xhciEnumAct XHCI_ENUM_ACT_DISABLE_SLOT 0 0)
         else (port, action))"

definition xhciEnumGone :: "xhci_enum_port \<Rightarrow> xhci_enum_action \<Rightarrow> xhci_enum_port \<times> xhci_enum_action" where
  "xhciEnumGone port action =
     (if PdoExists port
      then (port\<lparr>EnSlotId := 0, EnState := XHCI_ENUM_GONE\<rparr>, xhciEnumAct XHCI_ENUM_ACT_REPORT_GONE 0 0)
      else
        let (port, action) =
              (if EnSlotId port \<noteq> 0
               then (port\<lparr>EnSlotId := 0\<rparr>, xhciEnumAct XHCI_ENUM_ACT_DISABLE_SLOT 0 0)
               else (port, action))
        in (port\<lparr>EnState := XHCI_ENUM_EMPTY, Retries := 0, EnSpeed := 0, EnMps0 := 0\<rparr>, action))"

text \<open>The machine at rest without a device: a connect, or a retry of a failed attempt.\<close>

definition enum_idle :: "xhci_enum_port \<Rightarrow> xhci_enum_event \<Rightarrow> xhci_enum_action \<Rightarrow> xhci_enum_port \<times> xhci_enum_action" where
  "enum_idle port event none =
     (if EnKind event = XHCI_ENUM_EV_CONNECT then
        (port\<lparr>Retries := 0, FailCause := XHCI_ENUM_FAIL_NONE, BosLength := 0, BosMissing := False,
              Usb2BosTried := False, Usb2BosSkip := False, EnState := XHCI_ENUM_DEBOUNCE\<rparr>,
         xhciEnumAct XHCI_ENUM_ACT_DEBOUNCE 0 0)
      else if EnKind event = XHCI_ENUM_EV_RETRY_INTERNAL \<and> EnState port = XHCI_ENUM_FAILED \<and>
              Retries port < EnValue event then
        (port\<lparr>Retries := Retries port + 1, BosLength := 0, BosMissing := False, Usb2BosTried := False,
              EnState := XHCI_ENUM_RESET\<rparr>,
         xhciEnumAct XHCI_ENUM_ACT_RESET 0 0)
      else (port, none))"

text \<open>The switch over the states, reached by every event that is not a departure.\<close>

definition enum_switch :: "xhci_enum_port \<Rightarrow> xhci_enum_event \<Rightarrow> xhci_enum_action \<Rightarrow> xhci_enum_port \<times> xhci_enum_action" where
  "enum_switch port event none =
     (let ok = EnOk event;
          kind = EnKind event
      in case EnState port of
             XHCI_ENUM_EMPTY \<Rightarrow> enum_idle port event none
           | XHCI_ENUM_FAILED \<Rightarrow> enum_idle port event none
           | XHCI_ENUM_DEBOUNCE \<Rightarrow>
               if kind = XHCI_ENUM_EV_DEBOUNCED then
                 (if ok then (port\<lparr>EnState := XHCI_ENUM_RESET\<rparr>, xhciEnumAct XHCI_ENUM_ACT_RESET 0 0)
                  else (port\<lparr>EnState := XHCI_ENUM_EMPTY\<rparr>, none))
               else (port, none)
           | XHCI_ENUM_RESET \<Rightarrow>
               if kind = XHCI_ENUM_EV_RESET_DONE then
                 (if \<not> ok then xhciEnumFail port XHCI_ENUM_FAIL_RESET none
                  else if XhciEnumInitialMps0 (EnEvSpeed event) = 0 then xhciEnumFail port XHCI_ENUM_FAIL_SPEED none
                  else (port\<lparr>EnSpeed := EnEvSpeed event, EnMps0 := XhciEnumInitialMps0 (EnEvSpeed event),
                             EnState := XHCI_ENUM_ENABLE_SLOT\<rparr>,
                        xhciEnumAct XHCI_ENUM_ACT_ENABLE_SLOT 0 0))
               else (port, none)
           | XHCI_ENUM_ENABLE_SLOT \<Rightarrow>
               if kind = XHCI_ENUM_EV_COMMAND_DONE then
                 (if \<not> ok \<or> EnEvSlotId event = 0 then xhciEnumFail port XHCI_ENUM_FAIL_NO_SLOT none
                  else (port\<lparr>EnSlotId := EnEvSlotId event, EnState := XHCI_ENUM_ADDRESS\<rparr>,
                        xhciEnumAct XHCI_ENUM_ACT_ADDRESS 0 (EnMps0 port)))
               else (port, none)
           | XHCI_ENUM_ADDRESS \<Rightarrow>
               if kind = XHCI_ENUM_EV_COMMAND_DONE then
                 (if \<not> ok then xhciEnumFail port XHCI_ENUM_FAIL_ADDRESS none
                  else (port\<lparr>EnState := XHCI_ENUM_DESC8\<rparr>, xhciEnumAct XHCI_ENUM_ACT_GET_DEVICE 8 0))
               else (port, none)
           | XHCI_ENUM_DESC8 \<Rightarrow>
               if kind = XHCI_ENUM_EV_TRANSFER_DONE then
                 (let mps = xhciEnumMps0Of (EnSpeed port) (EnValue event) in
                  if \<not> ok \<or> EnBytes event < 8 \<or> \<not> xhciEnumMps0Valid (EnSpeed port) mps
                  then xhciEnumFail port XHCI_ENUM_FAIL_DESCRIPTOR none
                  else if mps \<noteq> EnMps0 port
                  then (port\<lparr>EnMps0 := mps, EnState := XHCI_ENUM_EVALUATE\<rparr>,
                        xhciEnumAct XHCI_ENUM_ACT_EVALUATE 0 mps)
                  else (port\<lparr>EnState := XHCI_ENUM_DESC18\<rparr>,
                        xhciEnumAct XHCI_ENUM_ACT_GET_DEVICE XHCI_ENUM_DEVICE_DESC_BYTES 0))
               else (port, none)
           | XHCI_ENUM_EVALUATE \<Rightarrow>
               if kind = XHCI_ENUM_EV_COMMAND_DONE then
                 (if \<not> ok then xhciEnumFail port XHCI_ENUM_FAIL_ADDRESS none
                  else (port\<lparr>EnState := XHCI_ENUM_DESC18\<rparr>,
                        xhciEnumAct XHCI_ENUM_ACT_GET_DEVICE XHCI_ENUM_DEVICE_DESC_BYTES 0))
               else (port, none)
           | XHCI_ENUM_DESC18 \<Rightarrow>
               if kind = XHCI_ENUM_EV_TRANSFER_DONE then
                 (if \<not> ok \<or> EnBytes event \<noteq> XHCI_ENUM_DEVICE_DESC_BYTES
                  then xhciEnumFail port XHCI_ENUM_FAIL_DESCRIPTOR none
                  else if XhciEnumWantsBos (EnSpeed port) (EnValue event) (Usb2Bos port) (Usb2BosSkip port)
                  then (port\<lparr>Usb2BosTried := (EnSpeed port \<noteq> XHCI_ENUM_SPEED_SUPER), EnState := XHCI_ENUM_BOS5\<rparr>,
                        xhciEnumAct XHCI_ENUM_ACT_GET_BOS XHCI_ENUM_BOS_HEAD_BYTES 0)
                  else (port\<lparr>EnState := XHCI_ENUM_CONFIG9\<rparr>,
                        xhciEnumAct XHCI_ENUM_ACT_GET_CONFIG XHCI_ENUM_CONFIG_HEAD_BYTES 0))
               else (port, none)
           | XHCI_ENUM_BOS5 \<Rightarrow>
               if kind = XHCI_ENUM_EV_TRANSFER_DONE then
                 (if ok \<and> EnBytes event \<ge> XHCI_ENUM_BOS_HEAD_BYTES \<and> EnValue event \<ge> XHCI_ENUM_BOS_HEAD_BYTES
                  then (port\<lparr>BosLength := EnValue event, EnState := XHCI_ENUM_BOS_FULL\<rparr>,
                        xhciEnumAct XHCI_ENUM_ACT_GET_BOS (EnValue event) 0)
                  else (port\<lparr>BosMissing := True, EnState := XHCI_ENUM_CONFIG9\<rparr>,
                        xhciEnumAct XHCI_ENUM_ACT_GET_CONFIG XHCI_ENUM_CONFIG_HEAD_BYTES 0))
               else (port, none)
           | XHCI_ENUM_BOS_FULL \<Rightarrow>
               if kind = XHCI_ENUM_EV_TRANSFER_DONE then
                 (let port = (if \<not> ok \<or> EnBytes event \<noteq> BosLength port then port\<lparr>BosMissing := True\<rparr> else port)
                  in (port\<lparr>EnState := XHCI_ENUM_CONFIG9\<rparr>,
                      xhciEnumAct XHCI_ENUM_ACT_GET_CONFIG XHCI_ENUM_CONFIG_HEAD_BYTES 0))
               else (port, none)
           | XHCI_ENUM_CONFIG9 \<Rightarrow>
               if kind = XHCI_ENUM_EV_TRANSFER_DONE then
                 (if \<not> ok \<or> EnBytes event < XHCI_ENUM_CONFIG_HEAD_BYTES \<or> EnValue event < XHCI_ENUM_CONFIG_HEAD_BYTES
                  then xhciEnumFail port XHCI_ENUM_FAIL_CONFIG none
                  else (port\<lparr>ConfigLength := EnValue event, EnState := XHCI_ENUM_CONFIG_FULL\<rparr>,
                        xhciEnumAct XHCI_ENUM_ACT_GET_CONFIG (EnValue event) 0))
               else (port, none)
           | XHCI_ENUM_CONFIG_FULL \<Rightarrow>
               if kind = XHCI_ENUM_EV_TRANSFER_DONE then
                 (if \<not> ok \<or> EnBytes event \<noteq> ConfigLength port then xhciEnumFail port XHCI_ENUM_FAIL_CONFIG none
                  else (port\<lparr>EnState := XHCI_ENUM_PRESENT\<rparr>, xhciEnumAct XHCI_ENUM_ACT_CREATE_PDO 0 0))
               else (port, none)
           | XHCI_ENUM_PRESENT \<Rightarrow>
               if kind = XHCI_ENUM_EV_PDO_CREATED then
                 (if \<not> ok then xhciEnumFail port XHCI_ENUM_FAIL_PDO none
                  else (port\<lparr>PdoExists := True\<rparr>, none))
               else if kind = XHCI_ENUM_EV_PDO_STARTED \<and> PdoExists port
               then (port\<lparr>EnState := XHCI_ENUM_BOUND\<rparr>, none)
               else (port, none)
           | XHCI_ENUM_GONE \<Rightarrow>
               if kind = XHCI_ENUM_EV_PDO_REMOVED
               then (port\<lparr>PdoExists := False, EnState := XHCI_ENUM_EMPTY, Retries := 0, EnSpeed := 0, EnMps0 := 0,
                          BosLength := 0, BosMissing := False\<rparr>, none)
               else (port, none)
           | XHCI_ENUM_BOUND \<Rightarrow> (port, none))"

definition XhciEnumStep ::
    "xhci_enum_port option \<Rightarrow> xhci_enum_event option \<Rightarrow> enum_state \<times> xhci_enum_port option \<times> xhci_enum_action" where
  "XhciEnumStep port event =
     (let none = xhciEnumAct XHCI_ENUM_ACT_NONE 0 0 in
      (case (port, event) of
         (Some p, Some e) \<Rightarrow>
           let (p, action) =
                 (if EnKind e = XHCI_ENUM_EV_DISCONNECT \<or> EnKind e = XHCI_ENUM_EV_ABANDONED then
                    (if EnState p = XHCI_ENUM_EMPTY \<or> EnState p = XHCI_ENUM_GONE then (p, none)
                     else
                       let p = (if EnKind e = XHCI_ENUM_EV_ABANDONED
                                then p\<lparr>FailCause := XHCI_ENUM_FAIL_NONE, BosLength := 0, BosMissing := False\<rparr> else p)
                       in xhciEnumGone p none)
                  else enum_switch p e none)
           in (EnState p, Some p, action)
       | _ \<Rightarrow> (XHCI_ENUM_EMPTY, port, none)))"

definition XhciEnumRetryUpTo ::
    "xhci_enum_port option \<Rightarrow> ulong \<Rightarrow> enum_state \<times> xhci_enum_port option \<times> xhci_enum_action" where
  "XhciEnumRetryUpTo port retries =
     XhciEnumStep port
       (Some \<lparr>EnKind = XHCI_ENUM_EV_RETRY_INTERNAL, EnOk = True, EnEvSpeed = 0, EnEvSlotId = 0, EnBytes = 0,
              EnValue = retries\<rparr>)"

definition XhciEnumRetry :: "xhci_enum_port option \<Rightarrow> enum_state \<times> xhci_enum_port option \<times> xhci_enum_action" where
  "XhciEnumRetry port = XhciEnumRetryUpTo port XHCI_ENUM_RETRIES"

section \<open>The settle\<close>

definition XhciEnumAtRest :: "enum_state \<Rightarrow> bool" where
  "XhciEnumAtRest state =
     (case state of
        XHCI_ENUM_EMPTY \<Rightarrow> True
      | XHCI_ENUM_PRESENT \<Rightarrow> True
      | XHCI_ENUM_BOUND \<Rightarrow> True
      | XHCI_ENUM_GONE \<Rightarrow> True
      | XHCI_ENUM_FAILED \<Rightarrow> True
      | _ \<Rightarrow> False)"

definition XhciEnumSettleCap :: "bool \<Rightarrow> ulong \<Rightarrow> ulong" where
  "XhciEnumSettleCap found v =
     (if \<not> found then XHCI_ENUM_SETTLE_DEFAULT_MS
      else if v > XHCI_ENUM_SETTLE_MAX_MS then XHCI_ENUM_SETTLE_MAX_MS else v)"

definition XhciEnumSettlePortCap :: "bool \<Rightarrow> ulong \<Rightarrow> ulong \<Rightarrow> ulong" where
  "XhciEnumSettlePortCap found v totalMs =
     (let v = (if \<not> found then XHCI_ENUM_SETTLE_PORT_MS else v) in
      if v > totalMs then totalMs else v)"

definition XhciEnumElapsedMs :: "ulong \<Rightarrow> ulong \<Rightarrow> ulong" where
  "XhciEnumElapsedMs startLow nowLow = (nowLow - startLow) div 10000"

definition XhciEnumHoldInFlight :: "bool \<Rightarrow> ulong \<Rightarrow> ulong \<Rightarrow> bool \<Rightarrow> bool" where
  "XhciEnumHoldInFlight pending kind companion connectSeen =
     (if pending then True else kind \<noteq> 0 \<and> companion \<noteq> 0 \<and> \<not> connectSeen)"

definition XhciEnumSettleQuiet :: "bool \<Rightarrow> bool \<Rightarrow> bool \<Rightarrow> bool \<Rightarrow> bool" where
  "XhciEnumSettleQuiet enumerated rootPending hubPending inFlight \<longleftrightarrow>
     enumerated \<and> \<not> rootPending \<and> \<not> hubPending \<and> \<not> inFlight"

definition XhciEnumSettleReached :: "ulong \<Rightarrow> ulong \<Rightarrow> bool" where
  "XhciEnumSettleReached reached target \<longleftrightarrow> reached - target < 0x80000000"

definition XhciEnumLetGo :: "bool \<Rightarrow> bool \<Rightarrow> bool \<Rightarrow> bool" where
  "XhciEnumLetGo listed reported removeReceived \<longleftrightarrow> listed \<and> reported \<and> removeReceived"

section \<open>Keeping a device\<close>

datatype rkeep =
    XHCI_RKEEP_KEEP | XHCI_RKEEP_WHY_OFF | XHCI_RKEEP_WHY_FAULTED | XHCI_RKEEP_WHY_NOT_ROOT | XHCI_RKEEP_WHY_HUB
  | XHCI_RKEEP_WHY_NOT_STARTED | XHCI_RKEEP_WHY_SUSPENDED | XHCI_RKEEP_WHY_ISOCH | XHCI_RKEEP_WHY_BULK_ONLY
  | XHCI_RKEEP_WHY_NO_SERIAL | XHCI_RKEEP_WHY_BUSY | XHCI_RKEEP_WHY_NOT_QUIET | XHCI_RKEEP_WHY_OTHER_CFG

datatype lkeep =
    XHCI_LKEEP_KEEP | XHCI_LKEEP_WHY_OFF | XHCI_LKEEP_WHY_FAULTED | XHCI_LKEEP_WHY_HUB | XHCI_LKEEP_WHY_NOT_STARTED
  | XHCI_LKEEP_WHY_SUSPENDED | XHCI_LKEEP_WHY_ISOCH | XHCI_LKEEP_WHY_NOT_UAS | XHCI_LKEEP_WHY_NO_SERIAL
  | XHCI_LKEEP_WHY_BUDGET | XHCI_LKEEP_WHY_OTHER_CFG

abbreviation (input) XHCI_RKEEP_F_ROOT :: ulong where "XHCI_RKEEP_F_ROOT \<equiv> 0x0001"
abbreviation (input) XHCI_RKEEP_F_HUB :: ulong where "XHCI_RKEEP_F_HUB \<equiv> 0x0002"
abbreviation (input) XHCI_RKEEP_F_STARTED :: ulong where "XHCI_RKEEP_F_STARTED \<equiv> 0x0004"
abbreviation (input) XHCI_RKEEP_F_SUSPENDED :: ulong where "XHCI_RKEEP_F_SUSPENDED \<equiv> 0x0008"
abbreviation (input) XHCI_RKEEP_F_ISOCH :: ulong where "XHCI_RKEEP_F_ISOCH \<equiv> 0x0010"
abbreviation (input) XHCI_RKEEP_F_STORAGE :: ulong where "XHCI_RKEEP_F_STORAGE \<equiv> 0x0020"
abbreviation (input) XHCI_RKEEP_F_UAS :: ulong where "XHCI_RKEEP_F_UAS \<equiv> 0x0040"
abbreviation (input) XHCI_RKEEP_F_SERIAL :: ulong where "XHCI_RKEEP_F_SERIAL \<equiv> 0x0080"
abbreviation (input) XHCI_RKEEP_F_BUSY :: ulong where "XHCI_RKEEP_F_BUSY \<equiv> 0x0100"
abbreviation (input) XHCI_RKEEP_F_FAULTED :: ulong where "XHCI_RKEEP_F_FAULTED \<equiv> 0x0200"
abbreviation (input) XHCI_RKEEP_F_QUIET :: ulong where "XHCI_RKEEP_F_QUIET \<equiv> 0x0400"
abbreviation (input) XHCI_RKEEP_F_OTHER_CFG :: ulong where "XHCI_RKEEP_F_OTHER_CFG \<equiv> 0x0800"
abbreviation (input) XHCI_RKEEP_F_ONE_IFACE :: ulong where "XHCI_RKEEP_F_ONE_IFACE \<equiv> 0x1000"

definition XhciEnumResumeKeep :: "bool \<Rightarrow> ulong \<Rightarrow> rkeep" where
  "XhciEnumResumeKeep on flags =
     (if \<not> on then XHCI_RKEEP_WHY_OFF
      else if flags AND XHCI_RKEEP_F_FAULTED \<noteq> 0 then XHCI_RKEEP_WHY_FAULTED
      else if flags AND XHCI_RKEEP_F_ROOT = 0 then XHCI_RKEEP_WHY_NOT_ROOT
      else if flags AND XHCI_RKEEP_F_HUB \<noteq> 0 then XHCI_RKEEP_WHY_HUB
      else if flags AND XHCI_RKEEP_F_STARTED = 0 then XHCI_RKEEP_WHY_NOT_STARTED
      else if flags AND XHCI_RKEEP_F_OTHER_CFG \<noteq> 0 then XHCI_RKEEP_WHY_OTHER_CFG
      else if flags AND XHCI_RKEEP_F_SUSPENDED \<noteq> 0 then XHCI_RKEEP_WHY_SUSPENDED
      else if flags AND XHCI_RKEEP_F_ISOCH \<noteq> 0 then XHCI_RKEEP_WHY_ISOCH
      else if flags AND XHCI_RKEEP_F_STORAGE \<noteq> 0 then
        (if flags AND XHCI_RKEEP_F_UAS = 0 then XHCI_RKEEP_WHY_BULK_ONLY
         else if flags AND XHCI_RKEEP_F_SERIAL = 0 then XHCI_RKEEP_WHY_NO_SERIAL
         else if flags AND XHCI_RKEEP_F_QUIET = 0 then XHCI_RKEEP_WHY_NOT_QUIET
         else if flags AND XHCI_RKEEP_F_BUSY \<noteq> 0 then XHCI_RKEEP_WHY_BUSY
         else XHCI_RKEEP_KEEP)
      else XHCI_RKEEP_KEEP)"

definition XhciEnumLinkKeep :: "bool \<Rightarrow> ulong \<Rightarrow> ulong \<Rightarrow> lkeep" where
  "XhciEnumLinkKeep on flags recent =
     (if \<not> on then XHCI_LKEEP_WHY_OFF
      else if flags AND XHCI_RKEEP_F_FAULTED \<noteq> 0 then XHCI_LKEEP_WHY_FAULTED
      else if flags AND XHCI_RKEEP_F_HUB \<noteq> 0 then XHCI_LKEEP_WHY_HUB
      else if flags AND XHCI_RKEEP_F_OTHER_CFG \<noteq> 0 then XHCI_LKEEP_WHY_OTHER_CFG
      else if flags AND XHCI_RKEEP_F_STARTED = 0 then XHCI_LKEEP_WHY_NOT_STARTED
      else if flags AND XHCI_RKEEP_F_SUSPENDED \<noteq> 0 then XHCI_LKEEP_WHY_SUSPENDED
      else if flags AND XHCI_RKEEP_F_ISOCH \<noteq> 0 then XHCI_LKEEP_WHY_ISOCH
      else if flags AND XHCI_RKEEP_F_ONE_IFACE = 0 \<or> flags AND XHCI_RKEEP_F_STORAGE = 0 \<or>
              flags AND XHCI_RKEEP_F_UAS = 0 then XHCI_LKEEP_WHY_NOT_UAS
      else if flags AND XHCI_RKEEP_F_SERIAL = 0 then XHCI_LKEEP_WHY_NO_SERIAL
      else if recent \<ge> XHCI_LINK_KEEP_MAX then XHCI_LKEEP_WHY_BUDGET
      else XHCI_LKEEP_KEEP)"

definition XhciEnumLinkKeepRecent :: "ulong \<Rightarrow> ulong \<Rightarrow> ulong \<Rightarrow> ulong" where
  "XhciEnumLinkKeepRecent count first now =
     (if count = 0 \<or> now - first \<ge> XHCI_LINK_KEEP_WINDOW then 0 else count)"

definition XhciEnumQuietMark :: "ulong \<Rightarrow> ulong" where
  "XhciEnumQuietMark markGen = markGen + 1"

definition XhciEnumQuietValid :: "ulong \<Rightarrow> ulong \<Rightarrow> bool" where
  "XhciEnumQuietValid mark markGen \<longleftrightarrow> mark \<noteq> 0 \<and> mark = markGen + 1"

definition XhciEnumAnswerCarries :: "ulong \<Rightarrow> ulong \<Rightarrow> bool \<Rightarrow> bool" where
  "XhciEnumAnswerCarries parentSerial answering letGo \<longleftrightarrow> parentSerial = answering \<and> \<not> letGo"

section \<open>Notes\<close>

datatype note_answer = XHCI_ENUM_NOTE_NO | XHCI_ENUM_NOTE_YES | XHCI_ENUM_NOTE_QUIET

record xhci_enum_notes =
  NotesUsed :: ulong
  NotesOpen :: ulong
  Suppressed :: ulong
  FailedLooked :: bool

definition XhciEnumNotesInit :: "xhci_enum_notes \<Rightarrow> xhci_enum_notes" where
  "XhciEnumNotesInit notes = notes\<lparr>NotesUsed := 0, NotesOpen := 0, Suppressed := 0, FailedLooked := False\<rparr>"

definition XhciEnumNoteCharge :: "xhci_enum_notes \<Rightarrow> note_answer \<times> xhci_enum_notes" where
  "XhciEnumNoteCharge notes =
     (if NotesUsed notes < XHCI_ENUM_NOTE_BUDGET
      then (XHCI_ENUM_NOTE_YES, notes\<lparr>NotesUsed := NotesUsed notes + 1\<rparr>)
      else
        let notes = notes\<lparr>Suppressed := Suppressed notes + 1\<rparr> in
        if NotesUsed notes = XHCI_ENUM_NOTE_BUDGET
        then (XHCI_ENUM_NOTE_QUIET, notes\<lparr>NotesUsed := NotesUsed notes + 1\<rparr>)
        else (XHCI_ENUM_NOTE_NO, notes))"

definition XhciEnumNoteRefill :: "xhci_enum_notes \<Rightarrow> xhci_enum_notes" where
  "XhciEnumNoteRefill notes = notes\<lparr>NotesUsed := 0\<rparr>"

definition XhciEnumNoteWantLook :: "xhci_enum_notes \<Rightarrow> enum_state \<Rightarrow> ulong \<Rightarrow> bool \<Rightarrow> bool \<times> xhci_enum_notes" where
  "XhciEnumNoteWantLook notes state feed linkActed =
     (if feed \<noteq> 0 \<or> linkActed then (True, notes\<lparr>FailedLooked := False\<rparr>)
      else if state = XHCI_ENUM_FAILED \<and> \<not> FailedLooked notes then (True, notes\<lparr>FailedLooked := True\<rparr>)
      else (False, notes))"

definition XhciEnumNoteBegin :: "xhci_enum_notes \<Rightarrow> note_answer \<times> xhci_enum_notes" where
  "XhciEnumNoteBegin notes =
     (if NotesOpen notes \<noteq> 0 then (XHCI_ENUM_NOTE_NO, notes)
      else
        let (charged, notes) = XhciEnumNoteCharge notes in
        (charged, notes\<lparr>NotesOpen := (if charged = XHCI_ENUM_NOTE_YES then 1 else 2)\<rparr>))"

definition XhciEnumNoteOn :: "xhci_enum_notes \<Rightarrow> bool" where
  "XhciEnumNoteOn notes \<longleftrightarrow> NotesOpen notes = 1"

definition XhciEnumNoteFinish :: "xhci_enum_notes \<Rightarrow> xhci_enum_notes" where
  "XhciEnumNoteFinish notes = notes\<lparr>NotesOpen := 0\<rparr>"

definition XhciEnumNoteLook :: "ulong \<Rightarrow> ulong \<Rightarrow> ulong \<Rightarrow> ulong \<Rightarrow> ulong \<Rightarrow> ulong" where
  "XhciEnumNoteLook port state linkAction feed portsc =
     push_bit 24 (port AND 0xFF) OR push_bit 20 (state AND 0xF) OR push_bit 16 (linkAction AND 0xF) OR
     push_bit 14 (feed AND 0x3) OR push_bit 7 (drop_bit 17 (portsc AND XHCI_PORTSC_CHANGE_MASK)) OR
     push_bit 3 (XHCI_PORTSC_GET_PLS portsc) OR (if portsc AND XHCI_PORTSC_PR \<noteq> 0 then 0x4 else 0) OR
     (portsc AND (XHCI_PORTSC_PED OR XHCI_PORTSC_CCS))"

definition XhciEnumNoteReset :: "ulong \<Rightarrow> bool \<Rightarrow> ulong \<Rightarrow> ulong \<Rightarrow> ulong" where
  "XhciEnumNoteReset port ok attempt portsc =
     push_bit 24 (port AND 0xFF) OR (if ok then 0x00800000 else 0) OR push_bit 16 (attempt AND 0x7F) OR
     (portsc AND 0xFFFF)"

definition XhciEnumNoteResetWait :: "ulong \<Rightarrow> bool \<Rightarrow> ulong \<Rightarrow> ulong" where
  "XhciEnumNoteResetWait port ended ms =
     push_bit 24 (port AND 0xFF) OR (if ended then 0 else 0x00800000) OR (if ms > 0xFFFF then 0xFFFF else ms)"

definition XhciEnumNoteSpeed :: "ulong \<Rightarrow> ulong \<Rightarrow> ulong \<Rightarrow> ulong \<Rightarrow> ulong" where
  "XhciEnumNoteSpeed port psiv speedClass source =
     push_bit 24 (port AND 0xFF) OR push_bit 16 (psiv AND 0xFF) OR push_bit 8 (speedClass AND 0xFF) OR (source AND 0xFF)"

definition XhciEnumNoteRate :: "ulong \<Rightarrow> ulong \<Rightarrow> bool \<Rightarrow> ulong" where
  "XhciEnumNoteRate port kbps plusFlag =
     (let units = kbps div 100;
          units = (if units > 0x007FFFFF then 0x007FFFFF else units)
      in push_bit 24 (port AND 0xFF) OR (if plusFlag then 0x00800000 else 0) OR units)"

definition XhciEnumNoteSlot :: "ulong \<Rightarrow> ulong \<Rightarrow> ulong \<Rightarrow> ulong \<Rightarrow> ulong" where
  "XhciEnumNoteSlot port code attempt slotId =
     push_bit 24 (port AND 0xFF) OR push_bit 16 (code AND 0xFF) OR push_bit 8 (attempt AND 0xFF) OR (slotId AND 0xFF)"

definition XhciEnumNoteFail :: "ulong \<Rightarrow> ulong \<Rightarrow> ulong \<Rightarrow> bool \<Rightarrow> ulong" where
  "XhciEnumNoteFail port cause attempt final =
     push_bit 24 (port AND 0xFF) OR push_bit 16 (cause AND 0xFF) OR push_bit 8 (attempt AND 0xFF) OR
     (if final then 1 else 0)"

definition XhciEnumNoteEnd :: "ulong \<Rightarrow> ulong \<Rightarrow> ulong \<Rightarrow> ulong \<Rightarrow> ulong" where
  "XhciEnumNoteEnd port state cause retries =
     push_bit 24 (port AND 0xFF) OR push_bit 16 (state AND 0xFF) OR push_bit 8 (cause AND 0xFF) OR (retries AND 0xFF)"

definition XhciEnumNoteQuiet :: "ulong \<Rightarrow> ulong" where
  "XhciEnumNoteQuiet port = push_bit 24 (port AND 0xFF) OR (XHCI_ENUM_NOTE_BUDGET AND 0xFF)"

datatype busy_step = XHCI_ENUM_BUSY_WAIT | XHCI_ENUM_BUSY_SUBMIT | XHCI_ENUM_BUSY_STOP

definition XhciEnumBusyStep :: "bool \<Rightarrow> bool \<Rightarrow> bool \<Rightarrow> bool \<Rightarrow> busy_step" where
  "XhciEnumBusyStep halted genChanged expired idle =
     (if halted \<or> genChanged \<or> expired then XHCI_ENUM_BUSY_STOP
      else if idle then XHCI_ENUM_BUSY_SUBMIT else XHCI_ENUM_BUSY_WAIT)"

definition XhciEnumNoteBusy :: "ulong \<Rightarrow> ulong \<Rightarrow> ulong \<Rightarrow> ulong" where
  "XhciEnumNoteBusy type answer looks =
     (let looks = (if looks > 0xFFFF then 0xFFFF else looks) in
      push_bit 24 (type AND 0xFF) OR push_bit 16 (answer AND 0xFF) OR looks)"

end
