(* ===== verification/Xhci_Link.thy ===== *)
theory Xhci_Link
  imports Xhci_Enum
begin

text \<open>
  The SuperSpeed link of a root port (\<open>xhci_link.c\<close>, \<open>xhci_link.h\<close>): what PORTSC says of the link, the
  one write each want asks for, the bounded warm resets, the events a port change feeds to the
  enumeration machine, and the hold of a port whose device runs on its USB 2.0 companion.

  Link states, wants, actions and the hold's kinds and answers are datatypes, the 0/1 fields and the
  arguments and results that are only tested are \<open>bool\<close>. An action pointer is a result, so its \<open>NULL\<close>
  case, which only discards it, is not represented.
\<close>

section \<open>Constants and records\<close>

abbreviation (input) XHCI_PORTSC_CAS :: ulong where "XHCI_PORTSC_CAS \<equiv> 0x01000000"
abbreviation (input) XHCI_PLS_U1 :: ulong where "XHCI_PLS_U1 \<equiv> 1"
abbreviation (input) XHCI_PLS_U2 :: ulong where "XHCI_PLS_U2 \<equiv> 2"
abbreviation (input) XHCI_PLS_DISABLED :: ulong where "XHCI_PLS_DISABLED \<equiv> 4"
abbreviation (input) XHCI_PLS_INACTIVE :: ulong where "XHCI_PLS_INACTIVE \<equiv> 6"
abbreviation (input) XHCI_PLS_POLLING :: ulong where "XHCI_PLS_POLLING \<equiv> 7"
abbreviation (input) XHCI_PLS_RECOVERY :: ulong where "XHCI_PLS_RECOVERY \<equiv> 8"
abbreviation (input) XHCI_PLS_HOT_RESET :: ulong where "XHCI_PLS_HOT_RESET \<equiv> 9"
abbreviation (input) XHCI_PLS_COMPLIANCE :: ulong where "XHCI_PLS_COMPLIANCE \<equiv> 10"
abbreviation (input) XHCI_LINK_MAX_WARM_RESETS :: ulong where "XHCI_LINK_MAX_WARM_RESETS \<equiv> 3"
abbreviation (input) XHCI_LINK_FEED_DISCONNECT :: ulong where "XHCI_LINK_FEED_DISCONNECT \<equiv> 0x1"
abbreviation (input) XHCI_LINK_FEED_CONNECT :: ulong where "XHCI_LINK_FEED_CONNECT \<equiv> 0x2"
abbreviation (input) XHCI_LINK_SERIAL_CHARS :: ulong where "XHCI_LINK_SERIAL_CHARS \<equiv> 64"

datatype link_state =
    XHCI_LINK_POWERED_OFF | XHCI_LINK_DISCONNECTED | XHCI_LINK_POLLING | XHCI_LINK_ENABLED | XHCI_LINK_SUSPENDED
  | XHCI_LINK_RESETTING | XHCI_LINK_ERROR | XHCI_LINK_COMPLIANCE | XHCI_LINK_DISABLED | XHCI_LINK_NOT_ENABLED
  | XHCI_LINK_UNKNOWN

datatype link_want =
    XHCI_LINK_WANT_SERVICE | XHCI_LINK_WANT_RESET | XHCI_LINK_WANT_RESUME | XHCI_LINK_WANT_SUSPEND
  | XHCI_LINK_WANT_HOLD | XHCI_LINK_WANT_RELEASE

datatype link_act =
    XHCI_LINK_ACT_NONE | XHCI_LINK_ACT_WAIT | XHCI_LINK_ACT_READY | XHCI_LINK_ACT_HOT_RESET | XHCI_LINK_ACT_WARM_RESET
  | XHCI_LINK_ACT_SET_U0 | XHCI_LINK_ACT_SET_U3 | XHCI_LINK_ACT_DISABLE | XHCI_LINK_ACT_RX_DETECT | XHCI_LINK_ACT_GIVE_UP

datatype hold_kind = XHCI_HOLD_NONE | XHCI_HOLD_PAIRED | XHCI_HOLD_UNIDENTIFIED | XHCI_HOLD_ORPHAN

datatype hold_answer = XHCI_HOLD_KEEP | XHCI_HOLD_RELEASE

record xhci_link_port =
  WarmResets :: ulong
  GaveUp :: bool
  LastState :: link_state
  LastReset :: link_act
  StuckCheck :: bool

record xhci_link_action =
  LinkKind :: link_act
  Converted :: bool

record xhci_link_identity =
  IdValid :: bool
  IdVendor :: ulong
  IdProduct :: ulong
  SerialLength :: ulong
  Serial :: "16 word list"

record xhci_link_hold =
  HoldKind :: hold_kind
  HoldPort :: ulong
  HoldCompanion :: ulong
  ConnectSeen :: bool
  MatchSeen :: bool
  OthersSeen :: ulong
  Held :: xhci_link_identity

section \<open>The link\<close>

definition XhciLinkInit :: "xhci_link_port option \<Rightarrow> xhci_link_port option" where
  "XhciLinkInit link =
     map_option (\<lambda>l. l\<lparr>WarmResets := 0, GaveUp := False, LastState := XHCI_LINK_UNKNOWN,
                       LastReset := XHCI_LINK_ACT_NONE, StuckCheck := False\<rparr>) link"

definition XhciLinkStuckPolling :: "ulong \<Rightarrow> bool" where
  "XhciLinkStuckPolling portsc =
     (if portsc = 0xFFFFFFFF \<or> portsc AND XHCI_PORTSC_PP = 0 \<or> portsc AND XHCI_PORTSC_PR \<noteq> 0 \<or>
         portsc AND (XHCI_PORTSC_CCS OR XHCI_PORTSC_CAS) \<noteq> 0
      then False
      else XHCI_PORTSC_GET_PLS portsc = XHCI_PLS_POLLING)"

definition XhciLinkClassify :: "ulong \<Rightarrow> link_state" where
  "XhciLinkClassify portsc =
     (if portsc = 0xFFFFFFFF then XHCI_LINK_UNKNOWN
      else if portsc AND XHCI_PORTSC_PP = 0 then XHCI_LINK_POWERED_OFF
      else if portsc AND XHCI_PORTSC_PR \<noteq> 0 then XHCI_LINK_RESETTING
      else
        let connected = (portsc AND XHCI_PORTSC_CCS \<noteq> 0);
            enabled = (portsc AND XHCI_PORTSC_PED \<noteq> 0);
            pls = XHCI_PORTSC_GET_PLS portsc
        in
        if pls = XHCI_PLS_HOT_RESET then XHCI_LINK_RESETTING
        else if pls = XHCI_PLS_INACTIVE then XHCI_LINK_ERROR
        else if pls = XHCI_PLS_COMPLIANCE then XHCI_LINK_COMPLIANCE
        else if pls = XHCI_PLS_DISABLED then XHCI_LINK_DISABLED
        else if pls = XHCI_PLS_POLLING then XHCI_LINK_POLLING
        else if pls = XHCI_PLS_RX_DETECT then (if connected then XHCI_LINK_UNKNOWN else XHCI_LINK_DISCONNECTED)
        else if pls = XHCI_PLS_U3 then
          (if connected \<and> enabled then XHCI_LINK_SUSPENDED
           else if connected then XHCI_LINK_NOT_ENABLED else XHCI_LINK_UNKNOWN)
        else if pls = XHCI_PLS_U0 \<or> pls = XHCI_PLS_U1 \<or> pls = XHCI_PLS_U2 \<or> pls = XHCI_PLS_RECOVERY then
          (if connected \<and> enabled then XHCI_LINK_ENABLED
           else if connected then XHCI_LINK_NOT_ENABLED else XHCI_LINK_UNKNOWN)
        else XHCI_LINK_UNKNOWN)"

definition xhciLinkAct :: "link_act \<Rightarrow> bool \<Rightarrow> xhci_link_action" where
  "xhciLinkAct kind converted = \<lparr>LinkKind = kind, Converted = converted\<rparr>"

definition xhciLinkWarm :: "xhci_link_port \<Rightarrow> bool \<Rightarrow> xhci_link_port \<times> xhci_link_action" where
  "xhciLinkWarm link converted =
     (if GaveUp link then (link, xhciLinkAct XHCI_LINK_ACT_NONE False)
      else if WarmResets link \<ge> XHCI_LINK_MAX_WARM_RESETS then
        (link\<lparr>GaveUp := True\<rparr>, xhciLinkAct XHCI_LINK_ACT_GIVE_UP False)
      else
        (link\<lparr>WarmResets := WarmResets link + 1, LastReset := XHCI_LINK_ACT_WARM_RESET\<rparr>,
         xhciLinkAct XHCI_LINK_ACT_WARM_RESET converted))"

text \<open>The switch of a decision, on a link whose record has been brought up to date.\<close>

definition link_switch :: "xhci_link_port \<Rightarrow> ulong \<Rightarrow> link_want \<Rightarrow> link_state \<Rightarrow> xhci_link_port \<times> xhci_link_action" where
  "link_switch link portsc want state =
     (let none = xhciLinkAct XHCI_LINK_ACT_NONE False;
          u0 = (XHCI_PORTSC_GET_PLS portsc = XHCI_PLS_U0)
      in
      case want of
        XHCI_LINK_WANT_SERVICE \<Rightarrow>
          (case state of
             XHCI_LINK_ERROR \<Rightarrow> xhciLinkWarm link False
           | XHCI_LINK_COMPLIANCE \<Rightarrow> xhciLinkWarm link False
           | XHCI_LINK_ENABLED \<Rightarrow> (link, xhciLinkAct XHCI_LINK_ACT_READY False)
           | XHCI_LINK_POLLING \<Rightarrow> (link, xhciLinkAct XHCI_LINK_ACT_WAIT False)
           | XHCI_LINK_RESETTING \<Rightarrow> (link, xhciLinkAct XHCI_LINK_ACT_WAIT False)
           | XHCI_LINK_DISCONNECTED \<Rightarrow>
               if portsc AND XHCI_PORTSC_CAS \<noteq> 0 then xhciLinkWarm link False else (link, none)
           | _ \<Rightarrow> (link, none))
      | XHCI_LINK_WANT_RESET \<Rightarrow>
          (case state of
             XHCI_LINK_ENABLED \<Rightarrow>
               if u0 then (link\<lparr>LastReset := XHCI_LINK_ACT_HOT_RESET\<rparr>, xhciLinkAct XHCI_LINK_ACT_HOT_RESET False)
               else xhciLinkWarm link True
           | XHCI_LINK_SUSPENDED \<Rightarrow> xhciLinkWarm link True
           | XHCI_LINK_NOT_ENABLED \<Rightarrow> xhciLinkWarm link True
           | XHCI_LINK_ERROR \<Rightarrow> xhciLinkWarm link True
           | XHCI_LINK_COMPLIANCE \<Rightarrow> xhciLinkWarm link True
           | _ \<Rightarrow> (link, none))
      | XHCI_LINK_WANT_RESUME \<Rightarrow>
          if state = XHCI_LINK_SUSPENDED then (link, xhciLinkAct XHCI_LINK_ACT_SET_U0 False)
          else if portsc \<noteq> 0xFFFFFFFF \<and> portsc AND XHCI_PORTSC_PP \<noteq> 0 \<and> portsc AND XHCI_PORTSC_PR = 0 \<and>
                  portsc AND XHCI_PORTSC_CCS \<noteq> 0 \<and> portsc AND XHCI_PORTSC_PED \<noteq> 0 \<and>
                  XHCI_PORTSC_GET_PLS portsc = XHCI_PLS_RESUME
          then (link, xhciLinkAct XHCI_LINK_ACT_SET_U0 False)
          else (link, none)
      | XHCI_LINK_WANT_SUSPEND \<Rightarrow>
          if state = XHCI_LINK_ENABLED \<and> u0 then (link, xhciLinkAct XHCI_LINK_ACT_SET_U3 False) else (link, none)
      | XHCI_LINK_WANT_HOLD \<Rightarrow>
          if state = XHCI_LINK_ENABLED \<or> state = XHCI_LINK_SUSPENDED
          then (link, xhciLinkAct XHCI_LINK_ACT_DISABLE False) else (link, none)
      | XHCI_LINK_WANT_RELEASE \<Rightarrow>
          if state = XHCI_LINK_DISABLED then (link, xhciLinkAct XHCI_LINK_ACT_RX_DETECT False) else (link, none))"

definition XhciLinkDecide ::
    "xhci_link_port option \<Rightarrow> ulong \<Rightarrow> link_want \<Rightarrow> xhci_link_port option \<times> xhci_link_action" where
  "XhciLinkDecide link portsc want =
     (case link of
        None \<Rightarrow> (None, xhciLinkAct XHCI_LINK_ACT_NONE False)
      | Some l \<Rightarrow>
          let state = XhciLinkClassify portsc;
              l = l\<lparr>LastState := state\<rparr>;
              l = (if state = XHCI_LINK_ENABLED \<or> state = XHCI_LINK_DISCONNECTED \<or> state = XHCI_LINK_POWERED_OFF
                   then l\<lparr>WarmResets := 0, GaveUp := False\<rparr> else l);
              (l, action) = link_switch l portsc want state
          in (Some l, action))"

definition XhciLinkRefund :: "xhci_link_port option \<Rightarrow> xhci_link_port option" where
  "XhciLinkRefund link =
     (case link of
        None \<Rightarrow> None
      | Some l \<Rightarrow> Some (if WarmResets l \<noteq> 0 then l\<lparr>WarmResets := WarmResets l - 1\<rparr> else l))"

text \<open>Whether the reset has finished, and the warm flag where it is wanted.\<close>

definition XhciLinkResetDone :: "ulong \<Rightarrow> bool option \<Rightarrow> bool \<times> bool option" where
  "XhciLinkResetDone portsc warmSeen =
     (let warmSeen = map_option (\<lambda>_. False) warmSeen in
      if portsc = 0xFFFFFFFF then (False, warmSeen)
      else
        (portsc AND XHCI_PORTSC_PRC \<noteq> 0 \<and> portsc AND XHCI_PORTSC_CCS \<noteq> 0 \<and> portsc AND XHCI_PORTSC_PED \<noteq> 0 \<and>
         XHCI_PORTSC_GET_PLS portsc = XHCI_PLS_U0,
         map_option (\<lambda>_. portsc AND XHCI_PORTSC_WRC \<noteq> 0) warmSeen))"

text \<open>A machine that holds something is fed the disconnect.\<close>

definition feed_departed :: "enum_state \<Rightarrow> ulong" where
  "feed_departed enumState =
     (if enumState \<noteq> XHCI_ENUM_EMPTY \<and> enumState \<noteq> XHCI_ENUM_GONE then XHCI_LINK_FEED_DISCONNECT else 0)"

text \<open>The connect rule of a USB 2.0 port, and of a USB3 port whose link is usable.\<close>

definition feed_connect :: "ulong \<Rightarrow> enum_state \<Rightarrow> ulong" where
  "feed_connect portsc enumState =
     (let feed = 0 :: ulong in
      if portsc AND XHCI_PORTSC_CSC \<noteq> 0 then
        let feed = (if enumState \<noteq> XHCI_ENUM_EMPTY \<and> enumState \<noteq> XHCI_ENUM_FAILED \<and> enumState \<noteq> XHCI_ENUM_GONE
                    then feed OR XHCI_LINK_FEED_DISCONNECT else feed)
        in if portsc AND XHCI_PORTSC_CCS \<noteq> 0 then feed OR XHCI_LINK_FEED_CONNECT else feed
      else if portsc AND XHCI_PORTSC_CCS = 0 then feed OR XHCI_LINK_FEED_DISCONNECT
      else if enumState = XHCI_ENUM_EMPTY then feed OR XHCI_LINK_FEED_CONNECT
      else feed)"

definition XhciLinkPortFeed ::
    "xhci_link_port option \<Rightarrow> bool \<Rightarrow> ulong \<Rightarrow> enum_state
     \<Rightarrow> ulong \<times> xhci_link_port option \<times> xhci_link_action" where
  "XhciLinkPortFeed link usb3 portsc enumState =
     (let none = xhciLinkAct XHCI_LINK_ACT_NONE False;
          armed = (case link of None \<Rightarrow> False | Some l \<Rightarrow> StuckCheck l);
          link = (if armed then map_option (\<lambda>l. l\<lparr>StuckCheck := False\<rparr>) link else link)
      in
      case link of
        None \<Rightarrow> (feed_connect portsc enumState, link, none)
      | Some l \<Rightarrow>
          if armed \<and> usb3 \<and> XhciLinkStuckPolling portsc then
            let (l, action) = xhciLinkWarm (l\<lparr>LastState := XhciLinkClassify portsc\<rparr>) False
            in (feed_departed enumState, Some l, action)
          else if usb3 then
            let state = XhciLinkClassify portsc;
                (link, action) = XhciLinkDecide link portsc XHCI_LINK_WANT_SERVICE
            in
            if state = XHCI_LINK_ERROR \<or> state = XHCI_LINK_COMPLIANCE \<or>
               (state = XHCI_LINK_DISCONNECTED \<and> portsc AND XHCI_PORTSC_CAS \<noteq> 0)
            then (feed_departed enumState, link, action)
            else (feed_connect portsc enumState, link, none)
          else (feed_connect portsc enumState, link, none))"

section \<open>The hold\<close>

definition XhciLinkSameDevice :: "xhci_link_identity option \<Rightarrow> xhci_link_identity option \<Rightarrow> bool" where
  "XhciLinkSameDevice a b =
     (case (a, b) of
        (Some x, Some y) \<Rightarrow>
          if \<not> IdValid x \<or> \<not> IdValid y then False
          else if IdVendor x \<noteq> IdVendor y \<or> IdProduct x \<noteq> IdProduct y then False
          else if SerialLength x = 0 \<or> SerialLength x \<noteq> SerialLength y \<or> SerialLength x > XHCI_LINK_SERIAL_CHARS then False
          else find (\<lambda>i. Serial x ! i \<noteq> Serial y ! i) [0..<unat (SerialLength x)] = None
      | _ \<Rightarrow> False)"

definition XhciHoldBegin ::
    "xhci_link_hold option \<Rightarrow> ulong \<Rightarrow> ulong \<Rightarrow> xhci_link_identity option \<Rightarrow> hold_kind \<times> xhci_link_hold option" where
  "XhciHoldBegin hold port companion identity =
     (case hold of
        None \<Rightarrow> (XHCI_HOLD_NONE, None)
      | Some h \<Rightarrow>
          let held =
                (case identity of
                   Some d \<Rightarrow> \<lparr>IdValid = IdValid d, IdVendor = IdVendor d, IdProduct = IdProduct d,
                              SerialLength = SerialLength d,
                              Serial = map (\<lambda>i. Serial d ! i) [0..<unat XHCI_LINK_SERIAL_CHARS]\<rparr>
                 | None \<Rightarrow> \<lparr>IdValid = False, IdVendor = 0, IdProduct = 0, SerialLength = 0,
                            Serial = replicate (unat XHCI_LINK_SERIAL_CHARS) 0\<rparr>);
              kind =
                (if companion = 0 then XHCI_HOLD_ORPHAN
                 else if \<not> IdValid held \<or> SerialLength held = 0 \<or> SerialLength held > XHCI_LINK_SERIAL_CHARS
                 then XHCI_HOLD_UNIDENTIFIED
                 else XHCI_HOLD_PAIRED)
          in (kind, Some (h\<lparr>HoldPort := port, HoldCompanion := companion, ConnectSeen := False, MatchSeen := False,
                            OthersSeen := 0, Held := held, HoldKind := kind\<rparr>)))"

definition XhciHoldCompanionConnect :: "xhci_link_hold option \<Rightarrow> xhci_link_hold option" where
  "XhciHoldCompanionConnect hold =
     (case hold of
        None \<Rightarrow> None
      | Some h \<Rightarrow> Some (if HoldKind h = XHCI_HOLD_NONE then h else h\<lparr>ConnectSeen := True, MatchSeen := False\<rparr>))"

definition XhciHoldCompanionIdentity ::
    "xhci_link_hold option \<Rightarrow> xhci_link_identity option \<Rightarrow> xhci_link_hold option" where
  "XhciHoldCompanionIdentity hold identity =
     (case hold of
        None \<Rightarrow> None
      | Some h \<Rightarrow>
          Some (if HoldKind h = XHCI_HOLD_NONE \<or> \<not> ConnectSeen h then h
                else if HoldKind h = XHCI_HOLD_PAIRED \<and> XhciLinkSameDevice (Some (Held h)) identity
                then h\<lparr>MatchSeen := True\<rparr>
                else h\<lparr>OthersSeen := OthersSeen h + 1\<rparr>))"

definition XhciHoldCompanionDisconnect :: "xhci_link_hold option \<Rightarrow> hold_answer \<times> xhci_link_hold option" where
  "XhciHoldCompanionDisconnect hold =
     (case hold of
        None \<Rightarrow> (XHCI_HOLD_KEEP, None)
      | Some h \<Rightarrow>
          if HoldKind h = XHCI_HOLD_NONE then (XHCI_HOLD_KEEP, hold)
          else if HoldKind h = XHCI_HOLD_PAIRED \<and> ConnectSeen h \<and> MatchSeen h then
            (XHCI_HOLD_RELEASE, Some (h\<lparr>HoldKind := XHCI_HOLD_NONE, ConnectSeen := False, MatchSeen := False\<rparr>))
          else (XHCI_HOLD_KEEP, Some (h\<lparr>ConnectSeen := False, MatchSeen := False\<rparr>)))"

definition XhciHoldCompanionPortsc :: "xhci_link_hold option \<Rightarrow> ulong \<Rightarrow> hold_answer \<times> xhci_link_hold option" where
  "XhciHoldCompanionPortsc hold portsc =
     (case hold of
        None \<Rightarrow> (XHCI_HOLD_KEEP, None)
      | Some h \<Rightarrow>
          if HoldKind h = XHCI_HOLD_NONE \<or> portsc = 0xFFFFFFFF then (XHCI_HOLD_KEEP, hold)
          else
            let (answer, hold) =
                  (if portsc AND XHCI_PORTSC_CSC \<noteq> 0 \<or> portsc AND XHCI_PORTSC_CCS = 0
                   then XhciHoldCompanionDisconnect hold else (XHCI_HOLD_KEEP, hold));
                hold =
                  (if answer = XHCI_HOLD_KEEP \<and> portsc AND XHCI_PORTSC_CSC \<noteq> 0 \<and> portsc AND XHCI_PORTSC_CCS \<noteq> 0
                   then XhciHoldCompanionConnect hold else hold)
            in (answer, hold))"

end
