(* ===== verification/Xhci_Enum_Props.thy ===== *)
theory Xhci_Enum_Props
  imports Xhci_Enum
begin

text \<open>
  Properties of the enumeration machine: what a port owns in each state and how it gives it up, the
  bound on the steps of an enumeration with its retries, and the keeps across a resume and a link
  failure.
\<close>

section \<open>One step\<close>

definition enum_next :: "xhci_enum_port \<Rightarrow> xhci_enum_event \<Rightarrow> xhci_enum_port" where
  "enum_next p e = the (fst (snd (XhciEnumStep (Some p) (Some e))))"

definition enum_act :: "xhci_enum_port \<Rightarrow> xhci_enum_event \<Rightarrow> xhci_enum_action" where
  "enum_act p e = snd (snd (XhciEnumStep (Some p) (Some e)))"

lemma enum_step_eq: "XhciEnumStep (Some p) (Some e) = (EnState (enum_next p e), Some (enum_next p e), enum_act p e)"
  by (simp add: enum_next_def enum_act_def XhciEnumStep_def Let_def split: prod.splits)

lemmas enum_defs = XhciEnumStep_def enum_switch_def enum_idle_def xhciEnumGone_def xhciEnumFail_def
  xhciEnumAct_def Let_def

text \<open>The states in which the port owns a slot.\<close>

definition addressed :: "enum_state \<Rightarrow> bool" where
  "addressed s \<longleftrightarrow> s \<in> {XHCI_ENUM_ADDRESS, XHCI_ENUM_DESC8, XHCI_ENUM_EVALUATE, XHCI_ENUM_DESC18, XHCI_ENUM_BOS5,
     XHCI_ENUM_BOS_FULL, XHCI_ENUM_CONFIG9, XHCI_ENUM_CONFIG_FULL, XHCI_ENUM_PRESENT, XHCI_ENUM_BOUND}"

text \<open>The states past the first descriptor read, in which the packet size is the device's own.\<close>

definition sized :: "enum_state \<Rightarrow> bool" where
  "sized s \<longleftrightarrow> addressed s \<and> s \<noteq> XHCI_ENUM_ADDRESS \<and> s \<noteq> XHCI_ENUM_DESC8"

definition enum_ok :: "xhci_enum_port \<Rightarrow> bool" where
  "enum_ok p \<longleftrightarrow>
     (EnSlotId p \<noteq> 0 \<longleftrightarrow> addressed (EnState p)) \<and>
     (addressed (EnState p) \<or> EnState p = XHCI_ENUM_ENABLE_SLOT \<longrightarrow> XhciEnumInitialMps0 (EnSpeed p) \<noteq> 0) \<and>
     (EnState p \<in> {XHCI_ENUM_ENABLE_SLOT, XHCI_ENUM_ADDRESS, XHCI_ENUM_DESC8} \<longrightarrow>
        EnMps0 p = XhciEnumInitialMps0 (EnSpeed p)) \<and>
     (sized (EnState p) \<longrightarrow> xhciEnumMps0Valid (EnSpeed p) (EnMps0 p)) \<and>
     (EnState p = XHCI_ENUM_BOS_FULL \<longrightarrow> 5 \<le> BosLength p) \<and>
     (EnState p \<in> {XHCI_ENUM_CONFIG_FULL, XHCI_ENUM_PRESENT, XHCI_ENUM_BOUND} \<longrightarrow> 9 \<le> ConfigLength p) \<and>
     (EnState p \<in> {XHCI_ENUM_BOUND, XHCI_ENUM_GONE} \<longrightarrow> PdoExists p)"

text \<open>How a step may change the slot.\<close>

definition slot_law :: "xhci_enum_port \<Rightarrow> xhci_enum_event \<Rightarrow> xhci_enum_port \<Rightarrow> xhci_enum_action \<Rightarrow> bool" where
  "slot_law p e q a \<longleftrightarrow>
     (if EnSlotId q = EnSlotId p then ActKind a \<noteq> XHCI_ENUM_ACT_DISABLE_SLOT
      else if EnSlotId q = 0 then
        ActKind a = (if EnState q = XHCI_ENUM_GONE then XHCI_ENUM_ACT_REPORT_GONE else XHCI_ENUM_ACT_DISABLE_SLOT)
      else EnSlotId p = 0 \<and> EnState p = XHCI_ENUM_ENABLE_SLOT \<and> EnKind e = XHCI_ENUM_EV_COMMAND_DONE \<and> EnOk e \<and>
        EnSlotId q = EnEvSlotId e \<and> a = xhciEnumAct XHCI_ENUM_ACT_ADDRESS 0 (EnMps0 p))"

abbreviation no_action :: xhci_enum_action where
  "no_action \<equiv> xhciEnumAct XHCI_ENUM_ACT_NONE 0 0"

text \<open>The event each state acts on.\<close>

definition waits_for :: "enum_state \<Rightarrow> enum_event_kind \<Rightarrow> bool" where
  "waits_for s k =
     (case s of
        XHCI_ENUM_EMPTY \<Rightarrow> k = XHCI_ENUM_EV_CONNECT
      | XHCI_ENUM_FAILED \<Rightarrow> k = XHCI_ENUM_EV_CONNECT \<or> k = XHCI_ENUM_EV_RETRY_INTERNAL
      | XHCI_ENUM_DEBOUNCE \<Rightarrow> k = XHCI_ENUM_EV_DEBOUNCED
      | XHCI_ENUM_RESET \<Rightarrow> k = XHCI_ENUM_EV_RESET_DONE
      | XHCI_ENUM_ENABLE_SLOT \<Rightarrow> k = XHCI_ENUM_EV_COMMAND_DONE
      | XHCI_ENUM_ADDRESS \<Rightarrow> k = XHCI_ENUM_EV_COMMAND_DONE
      | XHCI_ENUM_EVALUATE \<Rightarrow> k = XHCI_ENUM_EV_COMMAND_DONE
      | XHCI_ENUM_PRESENT \<Rightarrow> k = XHCI_ENUM_EV_PDO_CREATED \<or> k = XHCI_ENUM_EV_PDO_STARTED
      | XHCI_ENUM_BOUND \<Rightarrow> False
      | XHCI_ENUM_GONE \<Rightarrow> k = XHCI_ENUM_EV_PDO_REMOVED
      | _ \<Rightarrow> k = XHCI_ENUM_EV_TRANSFER_DONE)"

definition departure :: "enum_event_kind \<Rightarrow> bool" where
  "departure k \<longleftrightarrow> k = XHCI_ENUM_EV_DISCONNECT \<or> k = XHCI_ENUM_EV_ABANDONED"

lemma enum_switch_next:
  assumes "\<not> departure (EnKind e)"
  shows "(enum_next p e, enum_act p e) = enum_switch p e (xhciEnumAct XHCI_ENUM_ACT_NONE 0 0)"
  using assms by (simp add: enum_next_def enum_act_def XhciEnumStep_def departure_def Let_def split: prod.splits)

lemma enum_ignores:
  assumes "\<not> departure (EnKind e)" and "\<not> waits_for (EnState p) (EnKind e)"
  shows "enum_next p e = p \<and> enum_act p e = xhciEnumAct XHCI_ENUM_ACT_NONE 0 0"
proof -
  have "enum_switch p e (xhciEnumAct XHCI_ENUM_ACT_NONE 0 0) = (p, xhciEnumAct XHCI_ENUM_ACT_NONE 0 0)"
    using assms(2) by (cases "EnState p") (simp_all add: enum_switch_def enum_idle_def waits_for_def)
  then show ?thesis using enum_switch_next [OF assms(1), of p] by simp
qed

lemma enum_departs:
  assumes "departure (EnKind e)"
  shows "EnSlotId (enum_next p e) = (if EnState p = XHCI_ENUM_EMPTY \<or> EnState p = XHCI_ENUM_GONE then EnSlotId p else 0) \<and>
    PdoExists (enum_next p e) = PdoExists p \<and>
    EnState (enum_next p e) = (if EnState p = XHCI_ENUM_EMPTY \<or> EnState p = XHCI_ENUM_GONE then EnState p
      else if PdoExists p then XHCI_ENUM_GONE else XHCI_ENUM_EMPTY) \<and>
    enum_act p e = xhciEnumAct (if EnState p = XHCI_ENUM_EMPTY \<or> EnState p = XHCI_ENUM_GONE then XHCI_ENUM_ACT_NONE
      else if PdoExists p then XHCI_ENUM_ACT_REPORT_GONE
      else if EnSlotId p \<noteq> 0 then XHCI_ENUM_ACT_DISABLE_SLOT else XHCI_ENUM_ACT_NONE) 0 0"
  using assms unfolding departure_def enum_next_def enum_act_def
  by (auto simp: XhciEnumStep_def xhciEnumGone_def xhciEnumAct_def Let_def)

text \<open>What a failing step leaves.\<close>

lemma fail_facts:
  "EnState (fst (xhciEnumFail p c none)) = XHCI_ENUM_FAILED" "EnSlotId (fst (xhciEnumFail p c none)) = 0"
  "snd (xhciEnumFail p c none) = (if EnSlotId p \<noteq> 0 then xhciEnumAct XHCI_ENUM_ACT_DISABLE_SLOT 0 0 else none)"
  "Retries (fst (xhciEnumFail p c none)) = Retries p"
  by (simp_all add: xhciEnumFail_def Let_def)

lemma fail_ok:
  assumes "xhciEnumFail p c none = (q, a)"
  shows "enum_ok q"
proof -
  have "EnState q = XHCI_ENUM_FAILED" "EnSlotId q = 0" using fail_facts(1,2) [of p c none] assms by simp_all
  then show ?thesis by (simp add: enum_ok_def addressed_def sized_def)
qed

lemma mps_initial: "XhciEnumInitialMps0 s \<noteq> 0 \<Longrightarrow> xhciEnumMps0Valid s (XhciEnumInitialMps0 s)"
  by (auto simp: XhciEnumInitialMps0_def xhciEnumMps0Valid_def split: if_splits)

lemma enum_ok_switch:
  assumes "enum_ok p" and "enum_switch p e none = (q, a)"
  shows "enum_ok q"
  using assms mps_initial [of "EnSpeed p"]
  by (cases "EnState p"; simp add: enum_switch_def enum_idle_def Let_def split: if_splits)
    (erule fail_ok | (elim conjE; hypsubst; simp add: enum_ok_def addressed_def sized_def not_less))+

lemma fail_slot:
  assumes "xhciEnumFail p c no_action = (q, a)"
  shows "slot_law p e q a"
proof -
  have "EnState q = XHCI_ENUM_FAILED" "EnSlotId q = 0"
    "a = (if EnSlotId p \<noteq> 0 then xhciEnumAct XHCI_ENUM_ACT_DISABLE_SLOT 0 0 else no_action)"
    using fail_facts(1-3) [of p c no_action] assms by simp_all
  then show ?thesis by (simp add: slot_law_def xhciEnumAct_def)
qed

lemma slot_switch:
  assumes "EnState p = XHCI_ENUM_ENABLE_SLOT \<Longrightarrow> EnSlotId p = 0" and "enum_switch p e no_action = (q, a)"
  shows "slot_law p e q a"
  using assms
  by (cases "EnState p"; simp add: enum_switch_def enum_idle_def Let_def split: if_splits)
    (erule fail_slot | (elim conjE; hypsubst; simp add: slot_law_def xhciEnumAct_def))+

lemma enum_ok_step:
  assumes ok: "enum_ok p"
  shows "enum_ok (enum_next p e) \<and> slot_law p e (enum_next p e) (enum_act p e)"
proof (cases "departure (EnKind e)")
  case False
  have "EnState p = XHCI_ENUM_ENABLE_SLOT \<Longrightarrow> EnSlotId p = 0" using ok by (auto simp: enum_ok_def addressed_def)
  then show ?thesis
    using enum_ok_switch [OF ok enum_switch_next [OF False, symmetric]]
      slot_switch [OF _ enum_switch_next [OF False, symmetric]] by blast
next
  case True
  note d = enum_departs [OF True, of p]
  show ?thesis
  proof (cases "EnState p = XHCI_ENUM_EMPTY \<or> EnState p = XHCI_ENUM_GONE")
    case True
    then have "enum_next p e = p" "enum_act p e = no_action"
      using \<open>departure (EnKind e)\<close> by (auto simp: enum_next_def enum_act_def XhciEnumStep_def departure_def Let_def)
    then show ?thesis using ok by (simp add: slot_law_def xhciEnumAct_def)
  next
    case False
    then show ?thesis using d ok by (auto simp: enum_ok_def slot_law_def xhciEnumAct_def addressed_def sized_def)
  qed
qed

section \<open>Runs\<close>

primrec enum_run :: "xhci_enum_port \<Rightarrow> xhci_enum_event list \<Rightarrow> xhci_enum_port" where
  "enum_run p [] = p"
| "enum_run p (e # es) = enum_run (enum_next p e) es"

lemma enum_run_ok: "enum_ok p \<Longrightarrow> enum_ok (enum_run p es)"
  by (induction es arbitrary: p) (use enum_ok_step in auto)

lemma enum_reset_ok: "enum_ok (XhciEnumReset p)"
  by (simp add: enum_ok_def XhciEnumReset_def addressed_def sized_def)

section \<open>The length of an enumeration\<close>

text \<open>The steps left of one attempt.\<close>

definition attempt_left :: "enum_state \<Rightarrow> nat" where
  "attempt_left s =
     (case s of XHCI_ENUM_DEBOUNCE \<Rightarrow> 11 | XHCI_ENUM_RESET \<Rightarrow> 10 | XHCI_ENUM_ENABLE_SLOT \<Rightarrow> 9 | XHCI_ENUM_ADDRESS \<Rightarrow> 8
      | XHCI_ENUM_DESC8 \<Rightarrow> 7 | XHCI_ENUM_EVALUATE \<Rightarrow> 6 | XHCI_ENUM_DESC18 \<Rightarrow> 5 | XHCI_ENUM_BOS5 \<Rightarrow> 4
      | XHCI_ENUM_BOS_FULL \<Rightarrow> 3 | XHCI_ENUM_CONFIG9 \<Rightarrow> 2 | XHCI_ENUM_CONFIG_FULL \<Rightarrow> 1 | _ \<Rightarrow> 0)"

lemma fail_left:
  assumes "xhciEnumFail p c none = (q, a)" and "attempt_left (EnState p) \<noteq> 0"
  shows "attempt_left (EnState q) < attempt_left (EnState p) \<and> Retries q = Retries p"
  using fail_facts(1,4) [of p c none] assms by (simp add: attempt_left_def)

lemma switch_left:
  assumes "\<not> XhciEnumAtRest (EnState p)" and "waits_for (EnState p) (EnKind e)" and "enum_switch p e none = (q, a)"
  shows "attempt_left (EnState q) < attempt_left (EnState p) \<and> Retries q = Retries p"
  using assms
  by (cases "EnState p"; simp add: XhciEnumAtRest_def waits_for_def enum_switch_def Let_def split: if_splits)
    ((drule fail_left; simp add: attempt_left_def) | (elim conjE; hypsubst; simp add: attempt_left_def))+

text \<open>A step that moves an enumeration on: an outcome it waits for, or a retry that is granted.\<close>

definition advances :: "xhci_enum_port \<Rightarrow> xhci_enum_event \<Rightarrow> bool" where
  "advances p e \<longleftrightarrow>
     \<not> XhciEnumAtRest (EnState p) \<and> waits_for (EnState p) (EnKind e) \<or>
     EnState p = XHCI_ENUM_FAILED \<and> EnKind e = XHCI_ENUM_EV_RETRY_INTERNAL \<and> Retries p < EnValue e"

primrec advance_count :: "xhci_enum_port \<Rightarrow> xhci_enum_event list \<Rightarrow> nat" where
  "advance_count p [] = 0"
| "advance_count p (e # es) = (if advances p e then 1 else 0) + advance_count (enum_next p e) es"

text \<open>The events of one connection, whose retries have the limit \<open>n\<close>.\<close>

definition same_connection :: "nat \<Rightarrow> xhci_enum_event \<Rightarrow> bool" where
  "same_connection n e \<longleftrightarrow>
     \<not> departure (EnKind e) \<and> EnKind e \<noteq> XHCI_ENUM_EV_CONNECT \<and>
     (EnKind e = XHCI_ENUM_EV_RETRY_INTERNAL \<longrightarrow> unat (EnValue e) \<le> n)"

definition enum_left :: "nat \<Rightarrow> xhci_enum_port \<Rightarrow> nat" where
  "enum_left n p =
     (if EnState p \<in> {XHCI_ENUM_EMPTY, XHCI_ENUM_BOUND, XHCI_ENUM_GONE} then 0
      else attempt_left (EnState p) + 11 * (n - unat (Retries p)))"

lemma retry_left:
  assumes "EnState p = XHCI_ENUM_FAILED" and "EnKind e = XHCI_ENUM_EV_RETRY_INTERNAL" and "Retries p < EnValue e"
    and "unat (EnValue e) \<le> n"
  shows "enum_left n (enum_next p e) < enum_left n p"
proof -
  have "\<not> departure (EnKind e)" using assms(2) by (simp add: departure_def)
  then have "enum_next p e = fst (enum_switch p e no_action)" using enum_switch_next [of e p] by (metis fst_conv)
  then have q: "EnState (enum_next p e) = XHCI_ENUM_RESET" "Retries (enum_next p e) = Retries p + 1"
    using assms by (simp_all add: enum_switch_def enum_idle_def)
  have r: "unat (Retries p) < unat (EnValue e)" using assms(3) by (simp add: word_less_nat_alt)
  then have "unat (Retries p + 1) = unat (Retries p) + 1"
  proof -
    have "unat (Retries p) + 1 < 4294967296" using r unat_lt_2p32 [of "EnValue e"] by linarith
    then show ?thesis by (simp add: unat_add_no_wrap)
  qed
  then show ?thesis using q r assms(1,4) by (simp add: enum_left_def attempt_left_def)
qed

lemma left_step:
  assumes s: "same_connection n e"
  shows "(if advances p e then 1 else 0) + enum_left n (enum_next p e) \<le> enum_left n p"
proof (cases "advances p e")
  case True
  then consider "\<not> XhciEnumAtRest (EnState p)" "waits_for (EnState p) (EnKind e)"
    | "EnState p = XHCI_ENUM_FAILED" "EnKind e = XHCI_ENUM_EV_RETRY_INTERNAL" "Retries p < EnValue e"
    unfolding advances_def by blast
  then show ?thesis
  proof cases
    case 1
    have "attempt_left (EnState (enum_next p e)) < attempt_left (EnState p) \<and> Retries (enum_next p e) = Retries p"
      using switch_left [OF 1 enum_switch_next [symmetric]] s by (simp add: same_connection_def)
    moreover have "EnState p \<notin> {XHCI_ENUM_EMPTY, XHCI_ENUM_BOUND, XHCI_ENUM_GONE}" using 1(1) by (auto simp: XhciEnumAtRest_def)
    ultimately show ?thesis using True by (simp add: enum_left_def)
  next
    case 2
    then show ?thesis using retry_left [OF 2] s True by (simp add: same_connection_def Suc_leI)
  qed
next
  case False
  show ?thesis
  proof (cases "waits_for (EnState p) (EnKind e)")
    case False
    then show ?thesis using enum_ignores s \<open>\<not> advances p e\<close> by (simp add: same_connection_def)
  next
    case True
    have nd: "\<not> departure (EnKind e)" using s by (simp add: same_connection_def)
    note q = enum_switch_next [OF nd, of p]
    have "XhciEnumAtRest (EnState p)" using False True by (simp add: advances_def)
    then show ?thesis
      using False True s q
      by (cases "EnState p")
        (auto simp: XhciEnumAtRest_def waits_for_def same_connection_def advances_def enum_switch_def enum_idle_def
          enum_left_def attempt_left_def Let_def xhciEnumFail_def split: if_splits)
  qed
qed

lemma run_left:
  "\<forall>e\<in>set es. same_connection n e \<Longrightarrow> advance_count p es + enum_left n (enum_run p es) \<le> enum_left n p"
proof (induction es arbitrary: p)
  case (Cons e es)
  have "(if advances p e then 1 else 0) + enum_left n (enum_next p e) \<le> enum_left n p"
    using Cons.prems by (intro left_step) simp
  moreover have "advance_count (enum_next p e) es + enum_left n (enum_run (enum_next p e) es) \<le> enum_left n (enum_next p e)"
    using Cons.prems by (intro Cons.IH) simp
  ultimately show ?case by simp
qed simp

lemma at_rest_or_waits: "XhciEnumAtRest s \<or> (\<exists>k. waits_for s k \<and> \<not> departure k)"
  by (cases s) (auto simp: XhciEnumAtRest_def waits_for_def departure_def)

section \<open>Properties\<close>


definition ev :: "enum_event_kind \<Rightarrow> bool \<Rightarrow> ulong \<Rightarrow> ulong \<Rightarrow> ulong \<Rightarrow> ulong \<Rightarrow> xhci_enum_event" where
  "ev k ok sp slot bytes v = \<lparr>EnKind = k, EnOk = ok, EnEvSpeed = sp, EnEvSlotId = slot, EnBytes = bytes, EnValue = v\<rparr>"

definition blank_port :: xhci_enum_port where
  "blank_port = \<lparr>EnState = XHCI_ENUM_EMPTY, EnSpeed = 0, EnSlotId = 0, EnMps0 = 0, ConfigLength = 0, Retries = 0,
     FailCause = XHCI_ENUM_FAIL_NONE, PdoExists = False, BosLength = 0, BosMissing = False, Usb2Bos = False,
     Usb2BosTried = False, Usb2BosSkip = False\<rparr>"


text \<open>
  C25: An enumeration ends. However the events of one connection come, an outcome twice, late or for
  another step included, at most \<open>11 (n + 1)\<close> of them move it on when the retries have the limit \<open>n\<close>;
  the others change nothing and ask for nothing; and where it is not at rest there is an outcome that
  moves it on.
\<close>

theorem enumeration_ends:
  assumes start: "EnState p = XHCI_ENUM_EMPTY \<or> EnState p = XHCI_ENUM_FAILED" and c: "EnKind c = XHCI_ENUM_EV_CONNECT"
    and es: "\<forall>e\<in>set es. same_connection n e"
  shows "advance_count (enum_next p c) es \<le> 11 * (n + 1) \<and>
    (\<forall>q e. same_connection n e \<and> \<not> waits_for (EnState q) (EnKind e) \<longrightarrow>
       XhciEnumStep (Some q) (Some e) = (EnState q, Some q, xhciEnumAct XHCI_ENUM_ACT_NONE 0 0)) \<and>
    (\<forall>q. XhciEnumAtRest (EnState q) \<or> (\<exists>k. waits_for (EnState q) k \<and> \<not> departure k))"
proof -
  have nd: "\<not> departure (EnKind c)" using c by (simp add: departure_def)
  have q: "(enum_next p c, enum_act p c) = enum_switch p c no_action" by (rule enum_switch_next [OF nd])
  have "EnState (enum_next p c) = XHCI_ENUM_DEBOUNCE \<and> Retries (enum_next p c) = 0"
    using start q c by (auto simp: enum_switch_def enum_idle_def)
  then have "enum_left n (enum_next p c) = 11 * (n + 1)" by (simp add: enum_left_def attempt_left_def)
  then have "advance_count (enum_next p c) es \<le> 11 * (n + 1)" using run_left [OF es, of "enum_next p c"] by simp
  moreover have "XhciEnumStep (Some q) (Some e) = (EnState q, Some q, no_action)"
    if "same_connection n e" "\<not> waits_for (EnState q) (EnKind e)" for q e
    using enum_ignores [of e q] that by (simp add: enum_step_eq same_connection_def)
  ultimately show ?thesis using at_rest_or_waits by blast
qed

theorem enumeration_ends_witness:
  "advance_count (enum_next blank_port (ev XHCI_ENUM_EV_CONNECT True 0 0 0 0))
     [ev XHCI_ENUM_EV_DEBOUNCED True 0 0 0 0, ev XHCI_ENUM_EV_RESET_DONE False 0 0 0 0,
      ev XHCI_ENUM_EV_RETRY_INTERNAL True 0 0 0 1, ev XHCI_ENUM_EV_RESET_DONE True 3 0 0 0] \<le> 22"
proof -
  have "EnState blank_port = XHCI_ENUM_EMPTY" by (simp add: blank_port_def)
  moreover have "\<forall>e\<in>set [ev XHCI_ENUM_EV_DEBOUNCED True 0 0 0 0, ev XHCI_ENUM_EV_RESET_DONE False 0 0 0 0,
      ev XHCI_ENUM_EV_RETRY_INTERNAL True 0 0 0 1, ev XHCI_ENUM_EV_RESET_DONE True 3 0 0 0]. same_connection 1 e"
    by (simp add: ev_def same_connection_def departure_def)
  ultimately show ?thesis
    using enumeration_ends [of blank_port "ev XHCI_ENUM_EV_CONNECT True 0 0 0 0" _ 1] by (auto simp: ev_def)
qed

end
