(* ===== verification/Xhci_Link_Props.thy ===== *)
theory Xhci_Link_Props
  imports Xhci_Link Xhci_Enum_Props
begin

text \<open>
  Properties of the link layer: the bound on the warm resets of one connection, the release of a hold
  exactly for the device that was held, and the composition of a port change with the enumeration
  machine.
\<close>

section \<open>Warm resets\<close>

datatype link_op = Decide ulong link_want | Feed bool ulong enum_state | Refund

fun link_do :: "link_op \<Rightarrow> xhci_link_port \<Rightarrow> xhci_link_port \<times> link_act" where
  "link_do (Decide portsc want) l =
     (case XhciLinkDecide (Some l) portsc want of (l', a) \<Rightarrow> (the l', LinkKind a))"
| "link_do (Feed usb3 portsc s) l =
     (case XhciLinkPortFeed (Some l) usb3 portsc s of (feed, l', a) \<Rightarrow> (the l', LinkKind a))"
| "link_do Refund l = (the (XhciLinkRefund (Some l)), XHCI_LINK_ACT_NONE)"

primrec link_acts :: "xhci_link_port \<Rightarrow> link_op list \<Rightarrow> link_act list" where
  "link_acts l [] = []"
| "link_acts l (x # xs) = (case link_do x l of (l', a) \<Rightarrow> a # link_acts l' xs)"

text \<open>A reading that shows the link neither trained nor without a partner leaves the budget alone.\<close>

definition untrained :: "ulong \<Rightarrow> bool" where
  "untrained portsc \<longleftrightarrow>
     XhciLinkClassify portsc \<notin> {XHCI_LINK_ENABLED, XHCI_LINK_DISCONNECTED, XHCI_LINK_POWERED_OFF}"

fun op_untrained :: "link_op \<Rightarrow> bool" where
  "op_untrained (Decide portsc want) = untrained portsc"
| "op_untrained (Feed usb3 portsc s) = untrained portsc"
| "op_untrained Refund = True"

definition resets_left :: "xhci_link_port \<Rightarrow> nat" where
  "resets_left l = (if GaveUp l then 0 else 3 - unat (WarmResets l))"

text \<open>What an operation may do to the budget.\<close>

definition warm_law :: "xhci_link_port \<Rightarrow> xhci_link_port \<Rightarrow> link_act \<Rightarrow> bool" where
  "warm_law l l' a \<longleftrightarrow>
     (if a = XHCI_LINK_ACT_WARM_RESET then
        \<not> GaveUp l \<and> \<not> GaveUp l' \<and> WarmResets l < 3 \<and> WarmResets l' = WarmResets l + 1
      else if a = XHCI_LINK_ACT_GIVE_UP then \<not> GaveUp l \<and> GaveUp l' \<and> WarmResets l' = WarmResets l
      else GaveUp l' = GaveUp l \<and> WarmResets l' = WarmResets l)"

lemma warm_law_budget:
  assumes "warm_law l l' a"
  shows "(if a = XHCI_LINK_ACT_WARM_RESET then 1 else 0) + resets_left l' \<le> resets_left l"
proof (cases "a = XHCI_LINK_ACT_WARM_RESET")
  case True
  then have w: "\<not> GaveUp l" "\<not> GaveUp l'" "unat (WarmResets l) < 3" "WarmResets l' = WarmResets l + 1"
    using assms by (simp_all add: warm_law_def word_less_nat_alt)
  then have "unat (WarmResets l') = unat (WarmResets l) + 1" using unat_add_no_wrap [of "WarmResets l" 1] by simp
  then show ?thesis using w True by (simp add: resets_left_def)
qed (use assms in \<open>auto simp: warm_law_def resets_left_def split: if_splits\<close>)

lemma link_warm_law: "xhciLinkWarm l c = (l', a) \<Longrightarrow> warm_law l l' (LinkKind a)"
  by (auto simp: xhciLinkWarm_def warm_law_def xhciLinkAct_def not_le split: if_splits)

lemma switch_law:
  assumes "link_switch l portsc want s = (l', a)"
  shows "warm_law l l' (LinkKind a)"
  using assms
  by (cases want; cases s; simp add: link_switch_def Let_def split: if_splits)
    (erule link_warm_law | (elim conjE; hypsubst; simp add: warm_law_def xhciLinkAct_def))+

lemma warm_law_same: "WarmResets m = WarmResets l \<Longrightarrow> GaveUp m = GaveUp l \<Longrightarrow> warm_law m l' a \<Longrightarrow> warm_law l l' a"
  by (cases a) (auto simp: warm_law_def)

lemma decide_law:
  assumes u: "untrained portsc" and d: "XhciLinkDecide (Some l) portsc want = (l', a)"
  shows "\<exists>m. l' = Some m \<and> warm_law l m (LinkKind a)"
proof -
  let ?s = "XhciLinkClassify portsc"
  obtain m b where m: "link_switch (l\<lparr>LastState := ?s\<rparr>) portsc want ?s = (m, b)" by fastforce
  then have "l' = Some m" "a = b" using u d by (auto simp: XhciLinkDecide_def untrained_def Let_def)
  moreover have "warm_law l m (LinkKind b)" by (rule warm_law_same [OF _ _ switch_law [OF m]]) simp_all
  ultimately show ?thesis by simp
qed

lemma feed_law:
  assumes u: "untrained portsc" and f: "XhciLinkPortFeed (Some l) usb3 portsc s = (feed, l', a)"
  shows "\<exists>m. l' = Some m \<and> warm_law l m (LinkKind a)"
proof -
  let ?l = "if StuckCheck l then l\<lparr>StuckCheck := False\<rparr> else l"
  have same: "WarmResets ?l = WarmResets l" "GaveUp ?l = GaveUp l" by simp_all
  consider "StuckCheck l \<and> usb3 \<and> XhciLinkStuckPolling portsc"
    | "\<not> (StuckCheck l \<and> usb3 \<and> XhciLinkStuckPolling portsc)" usb3 | "\<not> usb3" by blast
  then show ?thesis
  proof cases
    case 1
    obtain m b where m: "xhciLinkWarm (?l\<lparr>LastState := XhciLinkClassify portsc\<rparr>) False = (m, b)" by fastforce
    then have "l' = Some m" "a = b" using 1 f by (auto simp: XhciLinkPortFeed_def Let_def)
    moreover have "warm_law l m (LinkKind b)" by (rule warm_law_same [OF _ _ link_warm_law [OF m]]) simp_all
    ultimately show ?thesis by simp
  next
    case 2
    obtain d b where d: "XhciLinkDecide (Some ?l) portsc XHCI_LINK_WANT_SERVICE = (d, b)" by fastforce
    obtain m where m: "d = Some m" "warm_law ?l m (LinkKind b)" using decide_law [OF u d] by blast
    have wm: "warm_law l m (LinkKind b)" by (rule warm_law_same [OF _ _ m(2)]) simp_all
    show ?thesis
    proof (cases "XhciLinkClassify portsc = XHCI_LINK_ERROR \<or> XhciLinkClassify portsc = XHCI_LINK_COMPLIANCE")
      case True
      then have "l' = Some m" "a = b" using 2 f d m(1) by (auto simp: XhciLinkPortFeed_def Let_def split: if_splits)
      then show ?thesis using wm by simp
    next
      case False
      then have r: "l' = Some m" "a = xhciLinkAct XHCI_LINK_ACT_NONE False"
        using 2 u f d m(1) by (auto simp: XhciLinkPortFeed_def untrained_def Let_def split: if_splits)
      have "LinkKind b \<noteq> XHCI_LINK_ACT_WARM_RESET \<and> LinkKind b \<noteq> XHCI_LINK_ACT_GIVE_UP"
        using False u d by (cases "XhciLinkClassify portsc")
          (auto simp: XhciLinkDecide_def link_switch_def untrained_def xhciLinkAct_def Let_def)
      then show ?thesis using r wm by (simp add: warm_law_def xhciLinkAct_def)
    qed
  next
    case 3
    then have "l' = Some ?l" "a = xhciLinkAct XHCI_LINK_ACT_NONE False"
      using f by (auto simp: XhciLinkPortFeed_def Let_def split: if_splits)
    then show ?thesis by (simp add: warm_law_def xhciLinkAct_def)
  qed
qed

lemma link_do_law:
  assumes "op_untrained x" and "link_do x l = (l', a)" and "x \<noteq> Refund"
  shows "warm_law l l' a"
proof (cases x)
  case (Decide portsc want)
  then obtain d b where "XhciLinkDecide (Some l) portsc want = (d, b)" "l' = the d" "a = LinkKind b"
    using assms(2) by (auto split: prod.splits)
  then show ?thesis using decide_law [of portsc l want d b] assms(1) Decide by auto
next
  case (Feed usb3 portsc s)
  then obtain f d b where "XhciLinkPortFeed (Some l) usb3 portsc s = (f, d, b)" "l' = the d" "a = LinkKind b"
    using assms(2) by (auto split: prod.splits)
  then show ?thesis using feed_law [of portsc l usb3 s f d b] assms(1) Feed by auto
qed (use assms in simp)

lemma refund_left:
  assumes "link_do Refund l = (l', a)"
  shows "a = XHCI_LINK_ACT_NONE" "GaveUp l' = GaveUp l" "resets_left l' \<le> resets_left l + 1"
proof -
  have r: "unat (x - 1) = unat x - 1" if "x \<noteq> 0" for x :: ulong
  proof -
    have "unat x \<noteq> 0" using that by (simp add: unat_eq_zero)
    then show ?thesis using unat_sub_no_wrap [of 1 x] by simp
  qed
  show "a = XHCI_LINK_ACT_NONE" "GaveUp l' = GaveUp l" "resets_left l' \<le> resets_left l + 1"
    using assms r by (cases "WarmResets l = 0"; auto simp: XhciLinkRefund_def resets_left_def)+
qed

definition refunds :: "link_op list \<Rightarrow> nat" where
  "refunds xs = length (List.filter (\<lambda>x. x = Refund) xs)"

lemma warm_count:
  "\<forall>x\<in>set xs. op_untrained x \<Longrightarrow>
    count_list (link_acts l xs) XHCI_LINK_ACT_WARM_RESET \<le> resets_left l + refunds xs \<and>
    count_list (link_acts l xs) XHCI_LINK_ACT_GIVE_UP \<le> (if GaveUp l then 0 else 1)"
proof (induction xs arbitrary: l)
  case (Cons x xs)
  obtain l' a where d: "link_do x l = (l', a)" by fastforce
  have ih: "count_list (link_acts l' xs) XHCI_LINK_ACT_WARM_RESET \<le> resets_left l' + refunds xs"
    "count_list (link_acts l' xs) XHCI_LINK_ACT_GIVE_UP \<le> (if GaveUp l' then 0 else 1)"
    using Cons.IH [of l'] Cons.prems by simp_all
  show ?case
  proof (cases "x = Refund")
    case True
    then show ?thesis using d ih refund_left [of l l' a] by (simp add: refunds_def)
  next
    case False
    have w: "warm_law l l' a" using link_do_law [OF _ d False] Cons.prems by simp
    have "(if a = XHCI_LINK_ACT_WARM_RESET then 1 else 0) + resets_left l' \<le> resets_left l" by (rule warm_law_budget [OF w])
    then show ?thesis using d ih w False by (auto simp: refunds_def warm_law_def split: if_splits)
  qed
qed (simp add: refunds_def)

lemma gave_up_quiet:
  "\<forall>x\<in>set xs. op_untrained x \<Longrightarrow> GaveUp l \<Longrightarrow> XHCI_LINK_ACT_WARM_RESET \<notin> set (link_acts l xs)"
proof (induction xs arbitrary: l)
  case (Cons x xs)
  obtain l' a where d: "link_do x l = (l', a)" by fastforce
  have "a \<noteq> XHCI_LINK_ACT_WARM_RESET \<and> GaveUp l'"
  proof (cases "x = Refund")
    case True
    then show ?thesis using d refund_left [of l l' a] Cons.prems by simp
  next
    case False
    then show ?thesis using link_do_law [OF _ d False] Cons.prems by (auto simp: warm_law_def split: if_splits)
  qed
  then show ?case using d Cons by auto
qed simp

lemma give_up_last:
  "\<forall>x\<in>set xs. op_untrained x \<Longrightarrow> link_acts l xs = as @ XHCI_LINK_ACT_GIVE_UP # bs \<Longrightarrow>
    XHCI_LINK_ACT_WARM_RESET \<notin> set bs"
proof (induction xs arbitrary: l as)
  case (Cons x xs)
  obtain l' a where d: "link_do x l = (l', a)" by fastforce
  show ?case
  proof (cases as)
    case Nil
    then have a: "a = XHCI_LINK_ACT_GIVE_UP" "bs = link_acts l' xs" using Cons.prems(2) d by simp_all
    then have "x \<noteq> Refund" using refund_left(1) [of l l' a] d by auto
    then have "GaveUp l'" using link_do_law [OF _ d] Cons.prems(1) a by (simp add: warm_law_def)
    then show ?thesis using gave_up_quiet Cons.prems(1) a(2) by simp
  next
    case (Cons b as')
    then show ?thesis using Cons.IH [of l' as'] Cons.prems d by simp
  qed
qed simp

text \<open>A link that stays in SS.Inactive or Compliance Mode, read over and over.\<close>

lemma failed_feed:
  assumes "XhciLinkClassify portsc = XHCI_LINK_ERROR \<or> XhciLinkClassify portsc = XHCI_LINK_COMPLIANCE"
    and "\<not> StuckCheck l"
  shows "link_do (Feed True portsc s) l =
    (case xhciLinkWarm (l\<lparr>LastState := XhciLinkClassify portsc\<rparr>) False of (m, a) \<Rightarrow> (m, LinkKind a))"
  using assms by (auto simp: XhciLinkPortFeed_def XhciLinkDecide_def link_switch_def Let_def split: prod.split)

lemma failed_given_up:
  assumes e: "XhciLinkClassify portsc = XHCI_LINK_ERROR \<or> XhciLinkClassify portsc = XHCI_LINK_COMPLIANCE"
  shows "GaveUp l \<Longrightarrow> \<not> StuckCheck l \<Longrightarrow>
    link_acts l (replicate k (Feed True portsc s)) = replicate k XHCI_LINK_ACT_NONE"
proof (induction k arbitrary: l)
  case (Suc k)
  then show ?case using failed_feed [OF e, of l s] by (simp add: xhciLinkWarm_def xhciLinkAct_def del: link_do.simps)
qed simp

lemma failed_feeds:
  assumes e: "XhciLinkClassify portsc = XHCI_LINK_ERROR \<or> XhciLinkClassify portsc = XHCI_LINK_COMPLIANCE"
    and l: "\<not> GaveUp l" "\<not> StuckCheck l" "WarmResets l = 0"
  shows "link_acts l (replicate (4 + k) (Feed True portsc s)) =
    [XHCI_LINK_ACT_WARM_RESET, XHCI_LINK_ACT_WARM_RESET, XHCI_LINK_ACT_WARM_RESET, XHCI_LINK_ACT_GIVE_UP] @
    replicate k XHCI_LINK_ACT_NONE"
proof -
  have r: "replicate (4 + k) x = x # x # x # x # replicate k x" for x :: link_op
    by (simp add: numeral_eq_Suc)
  show ?thesis
    unfolding r using l failed_given_up [OF e]
    by (simp add: failed_feed [OF e] xhciLinkWarm_def xhciLinkAct_def word_le_nat_alt del: link_do.simps)
qed

text \<open>A disconnected port that keeps showing Cold Attach Status is warm-reset without end.\<close>

lemma cas_warm_resets_unbounded:
  assumes "XhciLinkClassify portsc = XHCI_LINK_DISCONNECTED" and "portsc AND XHCI_PORTSC_CAS \<noteq> 0"
  shows "\<not> StuckCheck l \<Longrightarrow>
    link_acts l (replicate n (Feed True portsc s)) = replicate n XHCI_LINK_ACT_WARM_RESET"
proof (induction n arbitrary: l)
  case (Suc n)
  have "link_do (Feed True portsc s) l =
      (l\<lparr>LastState := XHCI_LINK_DISCONNECTED, WarmResets := 1, GaveUp := False, LastReset := XHCI_LINK_ACT_WARM_RESET\<rparr>,
       XHCI_LINK_ACT_WARM_RESET)"
    using Suc.prems assms
    by (auto simp: XhciLinkPortFeed_def XhciLinkDecide_def link_switch_def xhciLinkWarm_def xhciLinkAct_def Let_def)
  then show ?case using Suc by simp
qed simp

section \<open>The hold\<close>

datatype hold_op = HoldConnect | HoldIdentity "xhci_link_identity option" | HoldDisconnect | HoldPortsc ulong

fun hold_do :: "hold_op \<Rightarrow> xhci_link_hold \<Rightarrow> hold_answer \<times> xhci_link_hold" where
  "hold_do HoldConnect h = (XHCI_HOLD_KEEP, the (XhciHoldCompanionConnect (Some h)))"
| "hold_do (HoldIdentity d) h = (XHCI_HOLD_KEEP, the (XhciHoldCompanionIdentity (Some h) d))"
| "hold_do HoldDisconnect h = (case XhciHoldCompanionDisconnect (Some h) of (a, h') \<Rightarrow> (a, the h'))"
| "hold_do (HoldPortsc portsc) h = (case XhciHoldCompanionPortsc (Some h) portsc of (a, h') \<Rightarrow> (a, the h'))"

definition hold_run :: "xhci_link_hold \<Rightarrow> hold_op list \<Rightarrow> xhci_link_hold" where
  "hold_run h xs = foldl (\<lambda>h x. snd (hold_do x h)) h xs"

text \<open>What an operation says of the companion: a device left, a device arrived, either.\<close>

fun departs :: "hold_op \<Rightarrow> bool" where
  "departs HoldDisconnect = True"
| "departs (HoldPortsc portsc) \<longleftrightarrow>
     portsc \<noteq> 0xFFFFFFFF \<and> (portsc AND XHCI_PORTSC_CSC \<noteq> 0 \<or> portsc AND XHCI_PORTSC_CCS = 0)"
| "departs _ = False"

fun arrives :: "hold_op \<Rightarrow> bool" where
  "arrives HoldConnect = True"
| "arrives (HoldPortsc portsc) \<longleftrightarrow>
     portsc \<noteq> 0xFFFFFFFF \<and> portsc AND XHCI_PORTSC_CSC \<noteq> 0 \<and> portsc AND XHCI_PORTSC_CCS \<noteq> 0"
| "arrives _ = False"

definition moves :: "hold_op \<Rightarrow> bool" where
  "moves x \<longleftrightarrow> departs x \<or> arrives x"

fun identifies :: "xhci_link_identity \<Rightarrow> hold_op \<Rightarrow> bool" where
  "identifies held (HoldIdentity d) = XhciLinkSameDevice (Some held) d"
| "identifies held _ = False"

text \<open>The last thing to move on the companion was an arrival, and since then it was read as \<open>held\<close>.\<close>

definition present :: "hold_op list \<Rightarrow> bool" where
  "present xs \<longleftrightarrow> (\<exists>pre c post. xs = pre @ c # post \<and> arrives c \<and> list_all (\<lambda>x. \<not> moves x) post)"

definition present_as :: "xhci_link_identity \<Rightarrow> hold_op list \<Rightarrow> bool" where
  "present_as held xs \<longleftrightarrow>
     (\<exists>pre c post. xs = pre @ c # post \<and> arrives c \<and> list_all (\<lambda>x. \<not> moves x) post \<and> list_ex (identifies held) post)"

lemma snoc_split: "(\<exists>pre c post. xs @ [x] = pre @ c # post \<and> P c post) \<longleftrightarrow>
    P x [] \<or> (\<exists>pre c post. xs = pre @ c # post \<and> P c (post @ [x]))"
proof
  assume "\<exists>pre c post. xs @ [x] = pre @ c # post \<and> P c post"
  then obtain pre c post where s: "xs @ [x] = pre @ c # post" "P c post" by blast
  show "P x [] \<or> (\<exists>pre c post. xs = pre @ c # post \<and> P c (post @ [x]))"
    using s by (cases post rule: rev_cases) auto
next
  assume "P x [] \<or> (\<exists>pre c post. xs = pre @ c # post \<and> P c (post @ [x]))"
  then show "\<exists>pre c post. xs @ [x] = pre @ c # post \<and> P c post"
  proof
    assume "P x []"
    then show ?thesis by (intro exI [of _ xs] exI [of _ x] exI [of _ "[]"]) simp
  next
    assume "\<exists>pre c post. xs = pre @ c # post \<and> P c (post @ [x])"
    then obtain pre c post where "xs = pre @ c # post" "P c (post @ [x])" by blast
    then show ?thesis by (intro exI [of _ pre] exI [of _ c] exI [of _ "post @ [x]"]) simp
  qed
qed

lemma present_snoc: "present (xs @ [x]) \<longleftrightarrow> arrives x \<or> \<not> moves x \<and> present xs"
  unfolding present_def snoc_split by auto

lemma present_as_snoc:
  "present_as held (xs @ [x]) \<longleftrightarrow> \<not> moves x \<and> (present_as held xs \<or> present xs \<and> identifies held x)"
  unfolding present_as_def present_def snoc_split by auto

lemma present_nil [simp]: "\<not> present []" "\<not> present_as held []"
  by (simp_all add: present_def present_as_def)

text \<open>The record says what the history says, until a release.\<close>

definition hold_says :: "hold_kind \<Rightarrow> xhci_link_identity \<Rightarrow> hold_op list \<Rightarrow> xhci_link_hold \<Rightarrow> bool" where
  "hold_says k held xs h \<longleftrightarrow>
     HoldKind h = k \<and> Held h = held \<and> (ConnectSeen h \<longleftrightarrow> present xs) \<and>
     (MatchSeen h \<longleftrightarrow> k = XHCI_HOLD_PAIRED \<and> present_as held xs)"

lemma hold_disconnect:
  assumes says: "hold_says k held xs h" and k: "k \<noteq> XHCI_HOLD_NONE"
    and d: "XhciHoldCompanionDisconnect (Some h) = (a, Some h')"
  shows "(a = XHCI_HOLD_RELEASE \<longleftrightarrow> k = XHCI_HOLD_PAIRED \<and> present_as held xs) \<and>
    HoldKind h' = (if a = XHCI_HOLD_RELEASE then XHCI_HOLD_NONE else k) \<and> Held h' = held \<and>
    \<not> ConnectSeen h' \<and> \<not> MatchSeen h'"
proof -
  have p: "present_as held xs \<Longrightarrow> present xs" by (auto simp: present_as_def present_def)
  show ?thesis
  proof (cases "HoldKind h = XHCI_HOLD_PAIRED \<and> ConnectSeen h \<and> MatchSeen h")
    case True
    then show ?thesis using says k d by (auto simp: hold_says_def XhciHoldCompanionDisconnect_def)
  next
    case False
    then have "a = XHCI_HOLD_KEEP \<and> h' = h\<lparr>ConnectSeen := False, MatchSeen := False\<rparr>"
      using says k d by (auto simp: hold_says_def XhciHoldCompanionDisconnect_def)
    moreover have "\<not> (k = XHCI_HOLD_PAIRED \<and> present_as held xs)" using False says p by (auto simp: hold_says_def)
    ultimately show ?thesis using says by (simp add: hold_says_def)
  qed
qed

lemma hold_step:
  assumes says: "hold_says k held xs h" and k: "k \<noteq> XHCI_HOLD_NONE" and d: "hold_do x h = (a, h')"
  shows "(a = XHCI_HOLD_RELEASE \<longleftrightarrow> departs x \<and> k = XHCI_HOLD_PAIRED \<and> present_as held xs) \<and>
    (a = XHCI_HOLD_RELEASE \<longrightarrow> HoldKind h' = XHCI_HOLD_NONE) \<and>
    (a = XHCI_HOLD_KEEP \<longrightarrow> hold_says k held (xs @ [x]) h')"
proof -
  have "\<exists>b g. XhciHoldCompanionDisconnect (Some h) = (b, Some g)"
    by (simp add: XhciHoldCompanionDisconnect_def split: if_split)
  then obtain b g where "XhciHoldCompanionDisconnect (Some h) = (b, Some g)" by blast
  note g = this and left = hold_disconnect [OF says k this]
  have kind: "HoldKind h = k" using says by (simp add: hold_says_def)
  show ?thesis
  proof (cases x)
    case HoldConnect
    then show ?thesis using says k d
      by (auto simp: hold_says_def XhciHoldCompanionConnect_def present_snoc present_as_snoc moves_def)
  next
    case (HoldIdentity i)
    then have "a = XHCI_HOLD_KEEP" "h' = the (XhciHoldCompanionIdentity (Some h) i)" using d by auto
    moreover have "present_as held xs \<Longrightarrow> present xs" by (auto simp: present_as_def present_def)
    ultimately show ?thesis using says k HoldIdentity
      by (auto simp: hold_says_def XhciHoldCompanionIdentity_def present_snoc present_as_snoc moves_def)
  next
    case HoldDisconnect
    then have "a = b" "h' = g" using d g by auto
    then show ?thesis using left HoldDisconnect
      by (auto simp: hold_says_def present_snoc present_as_snoc moves_def)
  next
    case (HoldPortsc portsc)
    consider "portsc = 0xFFFFFFFF" | "portsc \<noteq> 0xFFFFFFFF" "\<not> departs x"
      | "portsc \<noteq> 0xFFFFFFFF" "departs x" by blast
    then show ?thesis
    proof cases
      case 1
      then have "a = XHCI_HOLD_KEEP" "h' = h" using d HoldPortsc by (auto simp: XhciHoldCompanionPortsc_def)
      then show ?thesis using says HoldPortsc 1 by (simp add: hold_says_def present_snoc present_as_snoc moves_def)
    next
      case 2
      then have "a = XHCI_HOLD_KEEP" "h' = h" "\<not> arrives x" using d HoldPortsc kind k
        by (auto simp: XhciHoldCompanionPortsc_def Let_def)
      then show ?thesis using says 2 HoldPortsc by (auto simp: hold_says_def present_snoc present_as_snoc moves_def)
    next
      case 3
      then have r: "a = b \<and> h' = (if b = XHCI_HOLD_KEEP \<and> arrives x then the (XhciHoldCompanionConnect (Some g)) else g)"
        using d HoldPortsc kind k g by (auto simp: XhciHoldCompanionPortsc_def Let_def split: if_splits)
      show ?thesis
      proof (cases "b = XHCI_HOLD_KEEP")
        case True
        then have "HoldKind g = k" "Held g = held" "\<not> ConnectSeen g" "\<not> MatchSeen g"
          "\<not> (k = XHCI_HOLD_PAIRED \<and> present_as held xs)"
          using left by auto
        then show ?thesis using r True 3 k
          by (auto simp: hold_says_def XhciHoldCompanionConnect_def present_snoc present_as_snoc moves_def)
      next
        case False
        then have "b = XHCI_HOLD_RELEASE" by (cases b) simp_all
        then show ?thesis using r left 3 by simp
      qed
    qed
  qed
qed

lemma hold_none: "HoldKind h = XHCI_HOLD_NONE \<Longrightarrow> HoldKind (snd (hold_do x h)) = XHCI_HOLD_NONE"
  by (cases x) (simp_all add: XhciHoldCompanionConnect_def XhciHoldCompanionIdentity_def
    XhciHoldCompanionDisconnect_def XhciHoldCompanionPortsc_def)

lemma hold_run_snoc: "hold_run h (xs @ [x]) = snd (hold_do x (hold_run h xs))"
  by (simp add: hold_run_def)

lemma hold_run_says:
  assumes h: "hold_says k held [] h" and k: "k \<noteq> XHCI_HOLD_NONE"
  shows "HoldKind (hold_run h xs) \<noteq> XHCI_HOLD_NONE \<Longrightarrow> hold_says k held xs (hold_run h xs)"
proof (induction xs rule: rev_induct)
  case Nil
  then show ?case using h by (simp add: hold_run_def)
next
  case (snoc x xs)
  have live: "HoldKind (hold_run h xs) \<noteq> XHCI_HOLD_NONE"
    using snoc.prems hold_none unfolding hold_run_snoc by blast
  obtain a h' where d: "hold_do x (hold_run h xs) = (a, h')" by fastforce
  note st = hold_step [OF snoc.IH [OF live] k d]
  have "a = XHCI_HOLD_KEEP" using st snoc.prems d by (cases a) (auto simp: hold_run_snoc)
  then show ?case using st d by (simp add: hold_run_snoc)
qed

lemma begin_says:
  assumes "XhciHoldBegin (Some h0) port companion identity = (k, Some h)"
  shows "hold_says k (Held h) [] h \<and> k \<noteq> XHCI_HOLD_NONE"
  using assms by (auto simp: XhciHoldBegin_def hold_says_def Let_def split: if_splits)

lemma begin_paired:
  assumes "XhciHoldBegin (Some h0) port companion identity = (k, Some h)"
  shows "k = XHCI_HOLD_PAIRED \<longleftrightarrow>
    companion \<noteq> 0 \<and> (\<exists>d. identity = Some d \<and> IdValid d \<and> SerialLength d \<noteq> 0 \<and> SerialLength d \<le> XHCI_LINK_SERIAL_CHARS)"
  using assms by (auto simp: XhciHoldBegin_def Let_def not_less split: option.splits if_splits)

lemma held_same:
  assumes b: "XhciHoldBegin (Some h0) port companion (Some d) = (k, Some h)"
  shows "XhciLinkSameDevice (Some (Held h)) e \<longleftrightarrow> XhciLinkSameDevice (Some d) e"
proof (cases e)
  case (Some x)
  have held: "IdValid (Held h) = IdValid d" "IdVendor (Held h) = IdVendor d" "IdProduct (Held h) = IdProduct d"
    "SerialLength (Held h) = SerialLength d" "\<And>i. i < 64 \<Longrightarrow> Serial (Held h) ! i = Serial d ! i"
    using b by (auto simp: XhciHoldBegin_def Let_def)
  have "find (\<lambda>i. Serial (Held h) ! i \<noteq> Serial x ! i) [0..<unat (SerialLength d)] = None \<longleftrightarrow>
      find (\<lambda>i. Serial d ! i \<noteq> Serial x ! i) [0..<unat (SerialLength d)] = None"
    if "\<not> SerialLength d > XHCI_LINK_SERIAL_CHARS"
    unfolding find_upt_None using that held(5) by (auto simp: word_less_nat_alt not_less)
  then show ?thesis unfolding Some by (auto simp: XhciLinkSameDevice_def held(1-4))
qed (simp add: XhciLinkSameDevice_def)

lemma held_identifies:
  assumes "XhciHoldBegin (Some h0) port companion (Some d) = (k, Some h)"
  shows "identifies (Held h) x \<longleftrightarrow> identifies d x"
  by (cases x) (simp_all add: held_same [OF assms])

section \<open>A port change and the machine\<close>

text \<open>What the controller thread does with the events: the disconnect first, then the connect.\<close>

definition fed :: "enum_event_kind \<Rightarrow> xhci_enum_port \<Rightarrow> xhci_enum_port" where
  "fed k p = enum_next p \<lparr>EnKind = k, EnOk = True, EnEvSpeed = 0, EnEvSlotId = 0, EnBytes = 0, EnValue = 0\<rparr>"

definition feed_machine :: "ulong \<Rightarrow> xhci_enum_port \<Rightarrow> xhci_enum_port" where
  "feed_machine feed p =
     (let p = (if feed AND XHCI_LINK_FEED_DISCONNECT \<noteq> 0 then fed XHCI_ENUM_EV_DISCONNECT p else p)
      in if feed AND XHCI_LINK_FEED_CONNECT \<noteq> 0 then fed XHCI_ENUM_EV_CONNECT p else p)"

text \<open>The link of a USB3 port has failed: recovered by a warm reset, or given up.\<close>

definition link_failed :: "xhci_link_port option \<Rightarrow> bool \<Rightarrow> ulong \<Rightarrow> bool" where
  "link_failed link usb3 portsc \<longleftrightarrow>
     usb3 \<and>
     (\<exists>l. link = Some l \<and>
        (StuckCheck l \<and> XhciLinkStuckPolling portsc \<or> XhciLinkClassify portsc = XHCI_LINK_ERROR \<or>
         XhciLinkClassify portsc = XHCI_LINK_COMPLIANCE \<or>
         XhciLinkClassify portsc = XHCI_LINK_DISCONNECTED \<and> portsc AND XHCI_PORTSC_CAS \<noteq> 0))"

lemma port_feed_exact:
  assumes "XhciLinkPortFeed link usb3 portsc s = (feed, link', a)"
  shows "feed = (if link_failed link usb3 portsc then feed_departed s else feed_connect portsc s)"
    "\<not> link_failed link usb3 portsc \<Longrightarrow> LinkKind a = XHCI_LINK_ACT_NONE"
proof -
  have "feed = (if link_failed link usb3 portsc then feed_departed s else feed_connect portsc s) \<and>
    (\<not> link_failed link usb3 portsc \<longrightarrow> LinkKind a = XHCI_LINK_ACT_NONE)"
  proof (cases link)
    case None
    then show ?thesis using assms by (auto simp: XhciLinkPortFeed_def link_failed_def xhciLinkAct_def Let_def)
  next
    case (Some l)
    then show ?thesis using assms
      by (cases "StuckCheck l"; cases usb3)
        (auto simp: XhciLinkPortFeed_def link_failed_def xhciLinkAct_def Let_def split: prod.splits if_splits)
  qed
  then show "feed = (if link_failed link usb3 portsc then feed_departed s else feed_connect portsc s)"
    "\<not> link_failed link usb3 portsc \<Longrightarrow> LinkKind a = XHCI_LINK_ACT_NONE" by blast+
qed

lemma fed_disconnect:
  "EnSlotId (fed XHCI_ENUM_EV_DISCONNECT p) = (if EnState p = XHCI_ENUM_EMPTY \<or> EnState p = XHCI_ENUM_GONE then EnSlotId p else 0)"
  "EnState (fed XHCI_ENUM_EV_DISCONNECT p) = (if EnState p = XHCI_ENUM_EMPTY \<or> EnState p = XHCI_ENUM_GONE then EnState p
      else if PdoExists p then XHCI_ENUM_GONE else XHCI_ENUM_EMPTY)"
  unfolding fed_def by (simp_all add: enum_departs departure_def)

lemma fed_connect:
  "EnState p = XHCI_ENUM_EMPTY \<or> EnState p = XHCI_ENUM_FAILED \<Longrightarrow>
     EnState (fed XHCI_ENUM_EV_CONNECT p) = XHCI_ENUM_DEBOUNCE \<and> EnSlotId (fed XHCI_ENUM_EV_CONNECT p) = EnSlotId p"
  "EnState p \<noteq> XHCI_ENUM_EMPTY \<Longrightarrow> EnState p \<noteq> XHCI_ENUM_FAILED \<Longrightarrow> fed XHCI_ENUM_EV_CONNECT p = p"
proof -
  let ?e = "\<lparr>EnKind = XHCI_ENUM_EV_CONNECT, EnOk = True, EnEvSpeed = 0, EnEvSlotId = 0, EnBytes = 0, EnValue = 0\<rparr>"
  have nd: "\<not> departure (EnKind ?e)" by (simp add: departure_def)
  note q = enum_switch_next [OF nd, of p]
  show "EnState p = XHCI_ENUM_EMPTY \<or> EnState p = XHCI_ENUM_FAILED \<Longrightarrow>
     EnState (fed XHCI_ENUM_EV_CONNECT p) = XHCI_ENUM_DEBOUNCE \<and> EnSlotId (fed XHCI_ENUM_EV_CONNECT p) = EnSlotId p"
    using q unfolding fed_def by (auto simp: enum_switch_def enum_idle_def)
  show "fed XHCI_ENUM_EV_CONNECT p = p" if "EnState p \<noteq> XHCI_ENUM_EMPTY" "EnState p \<noteq> XHCI_ENUM_FAILED"
    using that enum_ignores [OF nd, of p] unfolding fed_def by (cases "EnState p") (simp_all add: waits_for_def)
qed

section \<open>Properties\<close>


definition blank_link :: xhci_link_port where
  "blank_link = \<lparr>WarmResets = 7, GaveUp = True, LastState = XHCI_LINK_ERROR, LastReset = XHCI_LINK_ACT_NONE,
     StuckCheck = False\<rparr>"



definition some_device :: xhci_link_identity where
  "some_device = \<lparr>IdValid = True, IdVendor = 0x1234, IdProduct = 1, SerialLength = 2, Serial = 65 # 66 # replicate 62 0\<rparr>"

definition blank_hold :: xhci_link_hold where
  "blank_hold = \<lparr>HoldKind = XHCI_HOLD_NONE, HoldPort = 0, HoldCompanion = 0, ConnectSeen = False, MatchSeen = False,
     OthersSeen = 0, Held = some_device\<rparr>"


text \<open>
  A port change leaves the enumeration machine in step with the port. After the events it feeds,
  the machine holds a slot only where it held it before, the port reads connected with no connect
  change and its link has not failed; a failed link leaves it empty or gone, with no connect; otherwise
  the link asks for no write, a port without a device leaves the machine empty, gone, or failed as it
  was, and a connected one leaves it not empty, and on a connect change freshly debouncing or gone.
\<close>

theorem port_feed_tracks:
  assumes p: "p = enum_run (XhciEnumReset port) evs"
    and f: "XhciLinkPortFeed link usb3 portsc (EnState p) = (feed, link', a)" and q: "q = feed_machine feed p"
  shows "(EnSlotId q \<noteq> 0 \<longrightarrow> q = p \<and> portsc AND XHCI_PORTSC_CCS \<noteq> 0 \<and> portsc AND XHCI_PORTSC_CSC = 0 \<and>
      \<not> link_failed link usb3 portsc) \<and>
    (link_failed link usb3 portsc \<longrightarrow> EnState q \<in> {XHCI_ENUM_EMPTY, XHCI_ENUM_GONE}) \<and>
    (\<not> link_failed link usb3 portsc \<longrightarrow>
       LinkKind a = XHCI_LINK_ACT_NONE \<and>
       (portsc AND XHCI_PORTSC_CCS = 0 \<longrightarrow>
          EnState q \<in> {XHCI_ENUM_EMPTY, XHCI_ENUM_GONE} \<or> EnState p = XHCI_ENUM_FAILED \<and> q = p) \<and>
       (portsc AND XHCI_PORTSC_CCS \<noteq> 0 \<longrightarrow>
          EnState q \<noteq> XHCI_ENUM_EMPTY \<and>
          (portsc AND XHCI_PORTSC_CSC \<noteq> 0 \<longrightarrow> EnState q \<in> {XHCI_ENUM_DEBOUNCE, XHCI_ENUM_GONE})))"
proof -
  have ok: "enum_ok p" unfolding p by (rule enum_run_ok [OF enum_reset_ok])
  have slot: "EnState p = XHCI_ENUM_EMPTY \<or> EnState p = XHCI_ENUM_GONE \<or> EnState p = XHCI_ENUM_FAILED \<Longrightarrow> EnSlotId p = 0"
  proof -
    have "EnSlotId p \<noteq> 0 \<longleftrightarrow> addressed (EnState p)" using ok by (simp add: enum_ok_def)
    then show "EnState p = XHCI_ENUM_EMPTY \<or> EnState p = XHCI_ENUM_GONE \<or> EnState p = XHCI_ENUM_FAILED \<Longrightarrow> EnSlotId p = 0"
      by (auto simp: addressed_def)
  qed
  note e = port_feed_exact [OF f]
  show ?thesis
  proof (cases "link_failed link usb3 portsc")
    case True
    then have fd: "feed = feed_departed (EnState p)" using e by simp
    then have "q = (if EnState p \<noteq> XHCI_ENUM_EMPTY \<and> EnState p \<noteq> XHCI_ENUM_GONE then fed XHCI_ENUM_EV_DISCONNECT p else p)"
      unfolding q feed_machine_def feed_departed_def by simp
    then show ?thesis using True slot fed_disconnect [of p] by auto
  next
    case False
    then have fd: "feed = feed_connect portsc (EnState p)" using e by simp
    show ?thesis
    proof (cases "portsc AND XHCI_PORTSC_CSC \<noteq> 0")
      case True
      let ?p = "if EnState p \<noteq> XHCI_ENUM_EMPTY \<and> EnState p \<noteq> XHCI_ENUM_FAILED \<and> EnState p \<noteq> XHCI_ENUM_GONE
        then fed XHCI_ENUM_EV_DISCONNECT p else p"
      have "q = (if portsc AND XHCI_PORTSC_CCS \<noteq> 0 then fed XHCI_ENUM_EV_CONNECT ?p else ?p)"
        using True unfolding q fd feed_machine_def feed_connect_def by simp
      then show ?thesis using False True slot e(2) fed_disconnect [of p] fed_connect [of ?p] by (auto split: if_splits)
    next
      case nochange: False
      have "q = (if portsc AND XHCI_PORTSC_CCS = 0 then fed XHCI_ENUM_EV_DISCONNECT p
          else if EnState p = XHCI_ENUM_EMPTY then fed XHCI_ENUM_EV_CONNECT p else p)"
        using nochange unfolding q fd feed_machine_def feed_connect_def by simp
      then show ?thesis using False nochange slot e(2) fed_disconnect [of p] fed_connect [of p] by (auto split: if_splits)
    qed
  qed
qed

theorem port_feed_tracks_witness:
  "\<exists>feed link' a. XhciLinkPortFeed (Some blank_link) True 0x20203 (EnState (enum_run (XhciEnumReset blank_port) [])) =
      (feed, link', a) \<and>
    EnState (feed_machine feed (enum_run (XhciEnumReset blank_port) [])) = XHCI_ENUM_DEBOUNCE"
proof -
  let ?p = "enum_run (XhciEnumReset blank_port) []"
  obtain feed link' a where f: "XhciLinkPortFeed (Some blank_link) True 0x20203 (EnState ?p) = (feed, link', a)"
    by (cases "XhciLinkPortFeed (Some blank_link) True 0x20203 (EnState ?p)") auto
  have "\<not> link_failed (Some blank_link) True 0x20203"
  proof -
    have "XhciLinkClassify 0x20203 = XHCI_LINK_ENABLED" by code_simp
    then show ?thesis by (simp add: link_failed_def blank_link_def)
  qed
  moreover have "(0x20203 :: ulong) AND XHCI_PORTSC_CCS \<noteq> 0" "(0x20203 :: ulong) AND XHCI_PORTSC_CSC \<noteq> 0" by simp_all
  moreover have "EnState (feed_machine (fst (XhciLinkPortFeed (Some blank_link) True 0x20203 (EnState ?p))) ?p) \<noteq> XHCI_ENUM_GONE"
    by code_simp
  ultimately show ?thesis using port_feed_tracks [OF refl f refl] f by auto
qed

end
