(* ===== verification/Xhci_Hub.thy ===== *)
theory Xhci_Hub
  imports Xhci_Enum
begin

text \<open>
  An external hub, the pure half (\<open>xhci_hub.c\<close>, \<open>xhci_hub.h\<close>): the hub descriptor, the status
  bitmap, what a port change asks for, resumes and resets, the release order of a subtree, and the hub
  as a device node: its names, its addresses and the answers to its ioctls.

  Arguments and results the code only tests are \<open>bool\<close>. A buffer is the list of its bytes; the
  \<open>NULL\<close> pointer is \<open>None\<close>. Where the code trusts a pointer, the buffer is the list itself.
\<close>

section \<open>Constants and records\<close>

abbreviation (input) XHCI_HUB_MAX_PORTS :: ulong where "XHCI_HUB_MAX_PORTS \<equiv> 14"
abbreviation (input) XHCI_HUB_STATUS_MAX_BYTES :: ulong where "XHCI_HUB_STATUS_MAX_BYTES \<equiv> 32"
abbreviation (input) XHCI_HUB_DESC_MIN_BYTES :: ulong where "XHCI_HUB_DESC_MIN_BYTES \<equiv> 7"
abbreviation (input) XHCI_HUB_DESC_TYPE :: ulong where "XHCI_HUB_DESC_TYPE \<equiv> 0x29"
abbreviation (input) XHCI_HUB_FEAT_C_PORT_CONNECTION :: ulong where "XHCI_HUB_FEAT_C_PORT_CONNECTION \<equiv> 16"
abbreviation (input) XHCI_HUB_FEAT_C_PORT_ENABLE :: ulong where "XHCI_HUB_FEAT_C_PORT_ENABLE \<equiv> 17"
abbreviation (input) XHCI_HUB_FEAT_C_PORT_SUSPEND :: ulong where "XHCI_HUB_FEAT_C_PORT_SUSPEND \<equiv> 18"
abbreviation (input) XHCI_HUB_FEAT_C_PORT_OVER_CURRENT :: ulong where "XHCI_HUB_FEAT_C_PORT_OVER_CURRENT \<equiv> 19"
abbreviation (input) XHCI_HUB_FEAT_C_PORT_RESET :: ulong where "XHCI_HUB_FEAT_C_PORT_RESET \<equiv> 20"
abbreviation (input) XHCI_HUB_PROTOCOL_MULTI_TT :: ulong where "XHCI_HUB_PROTOCOL_MULTI_TT \<equiv> 2"
abbreviation (input) XHCI_HUB_RESUME_TRIES :: ulong where "XHCI_HUB_RESUME_TRIES \<equiv> 3"
abbreviation (input) XHCI_HUB_TT_EP_CONTROL :: ulong where "XHCI_HUB_TT_EP_CONTROL \<equiv> 0"
abbreviation (input) XHCI_HUB_TT_EP_BULK :: ulong where "XHCI_HUB_TT_EP_BULK \<equiv> 2"
abbreviation (input) XHCI_HUB_NO_PARENT :: ulong where "XHCI_HUB_NO_PARENT \<equiv> 0xFFFFFFFF"
abbreviation (input) XHCI_HUB_DETACHED :: ulong where "XHCI_HUB_DETACHED \<equiv> 0xFFFFFFFE"
abbreviation (input) XHCI_HUB_NODE_INFO_BYTES :: nat where "XHCI_HUB_NODE_INFO_BYTES \<equiv> 0x4C"
abbreviation (input) XHCI_HUB_EXV2_BYTES :: ulong where "XHCI_HUB_EXV2_BYTES \<equiv> 16"
abbreviation (input) XHCI_HUB_PROTO_USB110 :: ulong where "XHCI_HUB_PROTO_USB110 \<equiv> 1"
abbreviation (input) XHCI_HUB_PROTO_USB200 :: ulong where "XHCI_HUB_PROTO_USB200 \<equiv> 2"
abbreviation (input) XHCI_HUB_PROTO_USB300 :: ulong where "XHCI_HUB_PROTO_USB300 \<equiv> 4"
abbreviation (input) XHCI_HUB_EXV2_SS_OPERATING :: ulong where "XHCI_HUB_EXV2_SS_OPERATING \<equiv> 1"
abbreviation (input) XHCI_HUB_EXV2_SS_CAPABLE :: ulong where "XHCI_HUB_EXV2_SS_CAPABLE \<equiv> 2"
abbreviation (input) XHCI_HUB_EXV2_SSP_OPERATING :: ulong where "XHCI_HUB_EXV2_SSP_OPERATING \<equiv> 4"
abbreviation (input) XHCI_HUB_EXV2_SSP_CAPABLE :: ulong where "XHCI_HUB_EXV2_SSP_CAPABLE \<equiv> 8"
abbreviation (input) XHCI_HUB_DR_REQUEST_BYTES :: ulong where "XHCI_HUB_DR_REQUEST_BYTES \<equiv> 12"
abbreviation (input) XHCI_HUB_PORT_LOW_SPEED :: ulong where "XHCI_HUB_PORT_LOW_SPEED \<equiv> 0x0200"
abbreviation (input) CLASS_LOW :: ulong where "CLASS_LOW \<equiv> 1"
abbreviation (input) CLASS_FULL :: ulong where "CLASS_FULL \<equiv> 2"
abbreviation (input) CLASS_HIGH :: ulong where "CLASS_HIGH \<equiv> 3"
abbreviation (input) CLASS_SUPER :: ulong where "CLASS_SUPER \<equiv> 4"
abbreviation (input) TOPO_TIERS :: ulong where "TOPO_TIERS \<equiv> 5"

datatype hub_status = XHCI_HUB_OK | XHCI_HUB_MALFORMED | XHCI_HUB_BAD_PARAM

datatype hub_resume =
    XHCI_HUB_RESUME_PENDING | XHCI_HUB_RESUME_DONE | XHCI_HUB_RESUME_DISABLED | XHCI_HUB_RESUME_GONE
  | XHCI_HUB_RESUME_STUCK

datatype hub_reset = XHCI_HUB_RESET_PENDING | XHCI_HUB_RESET_ENABLED | XHCI_HUB_RESET_FAILED

record xhci_hub_desc =
  HubPorts :: ulong
  HubCharacteristics :: ulong
  PowerGoodMs :: ulong
  ControllerCurrent :: ulong
  ThinkTime :: ulong
  Managed :: ulong

record xhci_hub_port_decision =
  DecClear :: ulong
  DecDisconnect :: bool
  DecConnect :: bool
  OverCurrent :: bool
  Repower :: bool
  Suspended :: bool
  Resume :: bool
  Retry :: bool
  DecGaveUp :: bool
  Disabled :: bool

section \<open>Descriptor and status\<close>

definition XhciHubManagedPorts :: "ulong \<Rightarrow> ulong" where
  "XhciHubManagedPorts declared = (if declared > XHCI_HUB_MAX_PORTS then XHCI_HUB_MAX_PORTS else declared)"

definition XhciHubParseDescriptor ::
    "uchar list option \<Rightarrow> ulong \<Rightarrow> xhci_hub_desc option \<Rightarrow> hub_status \<times> xhci_hub_desc option" where
  "XhciHubParseDescriptor data len out =
     (case (data, out) of
        (Some d, Some _) \<Rightarrow>
          let zero = \<lparr>HubPorts = 0, HubCharacteristics = 0, PowerGoodMs = 0, ControllerCurrent = 0, ThinkTime = 0,
                      Managed = 0\<rparr> in
          if len < XHCI_HUB_DESC_MIN_BYTES then (XHCI_HUB_MALFORMED, Some zero)
          else
            let declared = ucast (d ! 0) :: ulong in
            if declared < XHCI_HUB_DESC_MIN_BYTES \<or> declared > len \<or> ucast (d ! 1) \<noteq> XHCI_HUB_DESC_TYPE \<or> d ! 2 = 0
            then (XHCI_HUB_MALFORMED, Some zero)
            else
              let ports = ucast (d ! 2);
                  chars = ucast (d ! 3) OR push_bit 8 (ucast (d ! 4)) :: ulong
              in (XHCI_HUB_OK,
                  Some \<lparr>HubPorts = ports, HubCharacteristics = chars, PowerGoodMs = ucast (d ! 5) * 2,
                        ControllerCurrent = ucast (d ! 6), ThinkTime = drop_bit 5 chars AND 0x3,
                        Managed = XhciHubManagedPorts ports\<rparr>)
      | _ \<Rightarrow> (XHCI_HUB_BAD_PARAM, out))"

definition XhciHubStatusBytes :: "ulong \<Rightarrow> ulong" where
  "XhciHubStatusBytes declared =
     (let bytes = (declared + 1 + 7) div 8 in
      if bytes > XHCI_HUB_STATUS_MAX_BYTES then XHCI_HUB_STATUS_MAX_BYTES else bytes)"

definition XhciHubAllBits :: "ulong \<Rightarrow> ulong" where
  "XhciHubAllBits managed =
     (let managed = (if managed > XHCI_HUB_MAX_PORTS then XHCI_HUB_MAX_PORTS else managed) in
      push_bit (unat (managed + 1)) 1 - 1)"

definition XhciHubStatusBitmap :: "uchar list option \<Rightarrow> ulong \<Rightarrow> ulong \<Rightarrow> ulong" where
  "XhciHubStatusBitmap data bytes managed =
     (case data of
        None \<Rightarrow> 0
      | Some d \<Rightarrow>
          foldl (\<lambda>m b. if b div 8 < unat bytes \<and> d ! (b div 8) AND push_bit (b mod 8) 1 \<noteq> 0
                       then m OR push_bit b 1 else m)
            0 [0..<min (unat managed) (unat XHCI_HUB_MAX_PORTS) + 1])"

definition XhciHubClearSelector :: "ulong \<Rightarrow> ulong" where
  "XhciHubClearSelector changeBit =
     (if changeBit = XHCI_HUB_C_PORT_CONNECTION then XHCI_HUB_FEAT_C_PORT_CONNECTION
      else if changeBit = XHCI_HUB_C_PORT_ENABLE then XHCI_HUB_FEAT_C_PORT_ENABLE
      else if changeBit = XHCI_HUB_C_PORT_SUSPEND then XHCI_HUB_FEAT_C_PORT_SUSPEND
      else if changeBit = XHCI_HUB_C_PORT_OVER_CURRENT then XHCI_HUB_FEAT_C_PORT_OVER_CURRENT
      else if changeBit = XHCI_HUB_C_PORT_RESET then XHCI_HUB_FEAT_C_PORT_RESET
      else 0)"

section \<open>Port changes, resumes and resets\<close>

definition xhciHubHolds :: "enum_state \<Rightarrow> bool" where
  "xhciHubHolds state \<longleftrightarrow> state \<noteq> XHCI_ENUM_EMPTY \<and> state \<noteq> XHCI_ENUM_FAILED \<and> state \<noteq> XHCI_ENUM_GONE"

definition XhciHubPortDecide ::
    "enum_state \<Rightarrow> ulong \<Rightarrow> ulong \<Rightarrow> xhci_hub_port_decision option \<Rightarrow> xhci_hub_port_decision option" where
  "XhciHubPortDecide state status change out =
     map_option (\<lambda>_.
       let connected = (status AND XHCI_HUB_PORT_CONNECTION \<noteq> 0);
           d = \<lparr>DecClear = change AND XHCI_HUB_C_PORT_MASK, DecDisconnect = False, DecConnect = False,
                OverCurrent = False, Repower = False, Suspended = (change AND XHCI_HUB_C_PORT_SUSPEND \<noteq> 0),
                Resume = (connected \<and> status AND XHCI_HUB_PORT_SUSPEND \<noteq> 0), Retry = False, DecGaveUp = False,
                Disabled = False\<rparr>;
           d = (if change AND XHCI_HUB_C_PORT_OVER_CURRENT \<noteq> 0
                then d\<lparr>OverCurrent := True, Repower := (status AND XHCI_HUB_PORT_POWER = 0)\<rparr> else d)
       in
       if change AND XHCI_HUB_C_PORT_CONNECTION \<noteq> 0
       then d\<lparr>DecDisconnect := xhciHubHolds state, DecConnect := connected\<rparr>
       else if \<not> connected
       then d\<lparr>DecDisconnect := (state \<noteq> XHCI_ENUM_EMPTY \<and> state \<noteq> XHCI_ENUM_GONE)\<rparr>
       else if change AND XHCI_HUB_C_PORT_ENABLE \<noteq> 0 \<and> status AND XHCI_HUB_PORT_ENABLE = 0 \<and> xhciHubHolds state
       then d\<lparr>DecDisconnect := True, DecConnect := True, Disabled := True\<rparr>
       else if state = XHCI_ENUM_EMPTY then d\<lparr>DecConnect := True\<rparr>
       else d) out"

definition XhciHubResumeBeforeReset :: "ulong \<Rightarrow> bool" where
  "XhciHubResumeBeforeReset status \<longleftrightarrow>
     status AND XHCI_HUB_PORT_CONNECTION \<noteq> 0 \<and> status AND XHCI_HUB_PORT_SUSPEND \<noteq> 0"

definition XhciHubResumeProgress :: "ulong \<Rightarrow> hub_resume" where
  "XhciHubResumeProgress status =
     (if status AND XHCI_HUB_PORT_CONNECTION = 0 then XHCI_HUB_RESUME_GONE
      else if status AND XHCI_HUB_PORT_SUSPEND \<noteq> 0 then XHCI_HUB_RESUME_PENDING
      else if status AND XHCI_HUB_PORT_ENABLE \<noteq> 0 then XHCI_HUB_RESUME_DONE
      else XHCI_HUB_RESUME_DISABLED)"

definition XhciHubResumeSettle :: "hub_resume \<Rightarrow> ulong \<Rightarrow> hub_resume" where
  "XhciHubResumeSettle progress change =
     (if progress = XHCI_HUB_RESUME_DONE \<and> change AND XHCI_HUB_C_PORT_CONNECTION \<noteq> 0
      then XHCI_HUB_RESUME_DISABLED else progress)"

definition XhciHubResumeOutcome ::
    "enum_state \<Rightarrow> hub_resume \<Rightarrow> bool \<Rightarrow> ulong option \<Rightarrow> xhci_hub_port_decision option
     \<Rightarrow> ulong option \<times> xhci_hub_port_decision option" where
  "XhciHubResumeOutcome state outcome held tries d =
     (case (tries, d) of
        (Some n, Some x) \<Rightarrow>
          let x = x\<lparr>Retry := False, DecGaveUp := False\<rparr> in
          (case outcome of
             XHCI_HUB_RESUME_DONE \<Rightarrow> (Some 0, Some x)
           | XHCI_HUB_RESUME_DISABLED \<Rightarrow>
               (Some 0, Some (x\<lparr>DecDisconnect := xhciHubHolds state, DecConnect := True\<rparr>))
           | XHCI_HUB_RESUME_GONE \<Rightarrow>
               (Some 0, Some (x\<lparr>DecDisconnect := xhciHubHolds state, DecConnect := False\<rparr>))
           | _ \<Rightarrow>
               if held then (Some 0, Some (x\<lparr>DecGaveUp := True, DecDisconnect := True, DecConnect := True\<rparr>))
               else if n + 1 < XHCI_HUB_RESUME_TRIES
               then (Some (n + 1), Some (x\<lparr>Retry := True, DecDisconnect := False, DecConnect := False\<rparr>))
               else (Some 0, Some (x\<lparr>DecGaveUp := True, DecDisconnect := xhciHubHolds state, DecConnect := True\<rparr>)))
      | _ \<Rightarrow> (tries, d))"

definition XhciHubResetProgress :: "ulong \<Rightarrow> ulong \<Rightarrow> hub_reset" where
  "XhciHubResetProgress status change =
     (if status AND XHCI_HUB_PORT_CONNECTION = 0 then XHCI_HUB_RESET_FAILED
      else if change AND XHCI_HUB_C_PORT_RESET = 0 \<or> status AND XHCI_HUB_PORT_RESET \<noteq> 0 then XHCI_HUB_RESET_PENDING
      else if status AND XHCI_HUB_PORT_ENABLE \<noteq> 0 then XHCI_HUB_RESET_ENABLED
      else XHCI_HUB_RESET_FAILED)"

definition XhciHubPortSpeedClass :: "ulong \<Rightarrow> ulong" where
  "XhciHubPortSpeedClass status =
     (if status AND XHCI_HUB_PORT_LOW_SPEED \<noteq> 0 then CLASS_LOW
      else if status AND XHCI_HUB_PORT_HIGH_SPEED \<noteq> 0 then CLASS_HIGH
      else CLASS_FULL)"

definition XhciHubEnumSpeed :: "ulong \<Rightarrow> ulong" where
  "XhciHubEnumSpeed speedClass =
     (if speedClass = CLASS_LOW then XHCI_ENUM_SPEED_LOW
      else if speedClass = CLASS_FULL then XHCI_ENUM_SPEED_FULL
      else if speedClass = CLASS_HIGH then XHCI_ENUM_SPEED_HIGH
      else if speedClass = CLASS_SUPER then XHCI_ENUM_SPEED_SUPER
      else 0)"

definition XhciHubTierServable :: "ulong \<Rightarrow> bool" where
  "XhciHubTierServable tier \<longleftrightarrow> tier + 1 \<le> TOPO_TIERS"

definition XhciHubWantsMultiTt :: "ulong \<Rightarrow> ulong \<Rightarrow> bool \<Rightarrow> bool" where
  "XhciHubWantsMultiTt speedClass deviceProtocol hasAlternate1 \<longleftrightarrow>
     speedClass = CLASS_HIGH \<and> deviceProtocol = XHCI_HUB_PROTOCOL_MULTI_TT \<and> hasAlternate1"

section \<open>Keys and addresses\<close>

definition XhciHubInstanceKey :: "ulong \<Rightarrow> ulong \<Rightarrow> ulong" where
  "XhciHubInstanceKey rootPort route = push_bit 8 (route AND 0xFFFFF) OR (rootPort AND 0xFF)"

text \<open>The last nonzero digit of the route, from the lowest up: the loop over \<open>rest\<close>.\<close>

function pdo_digit :: "ulong \<Rightarrow> ulong \<Rightarrow> ulong" where
  "pdo_digit left port =
     (if left = 0 then port
      else pdo_digit (drop_bit 4 left) (if left AND 0xF \<noteq> 0 then left AND 0xF else port))"
  by pat_completeness auto

termination
proof (relation "measure (\<lambda>(left, port). unat left)", goal_cases)
  case (2 left port)
  then have "unat left \<noteq> 0" by (simp add: unat_eq_zero)
  then show ?case by (simp add: drop_bit_eq_div unat_div)
qed simp

declare pdo_digit.simps [simp del]

definition XhciHubPdoAddress :: "ulong \<Rightarrow> ulong \<Rightarrow> bool \<Rightarrow> ulong" where
  "XhciHubPdoAddress rootPort route onParentHub =
     (let route = route AND 0xFFFFF in
      if route = 0 then rootPort AND 0xFF
      else if \<not> onParentHub then XhciHubInstanceKey rootPort route
      else pdo_digit route 0)"

definition XhciHubPowerWaitMs :: "ulong \<Rightarrow> ulong" where
  "XhciHubPowerWaitMs powerGoodMs = (if powerGoodMs < 20 then 20 else if powerGoodMs > 1000 then 1000 else powerGoodMs)"

definition XhciHubClearTtValue ::
    "ulong \<Rightarrow> ulong \<Rightarrow> ulong \<Rightarrow> bool \<Rightarrow> ulong option \<Rightarrow> bool \<times> ulong option" where
  "XhciHubClearTtValue address endpoint type inDir out =
     (case out of
        None \<Rightarrow> (False, None)
      | Some _ \<Rightarrow>
          if type \<noteq> XHCI_HUB_TT_EP_CONTROL \<and> type \<noteq> XHCI_HUB_TT_EP_BULK \<or> address > 127 \<or> endpoint > 15
          then (False, Some 0)
          else (True, Some (endpoint OR push_bit 4 address OR push_bit 11 type OR (if inDir then 0x8000 else 0))))"

definition XhciHubClearTtPort :: "bool \<Rightarrow> ulong \<Rightarrow> ulong" where
  "XhciHubClearTtPort multiTt ttPort = (if multiTt then ttPort else 1)"

section \<open>The order a subtree is released in\<close>

text \<open>The walk up from a hub, with the steps left of \<open>count\<close>.\<close>

primrec depth_loop :: "nat \<Rightarrow> ulong list \<Rightarrow> ulong \<Rightarrow> ulong \<Rightarrow> ulong \<Rightarrow> ulong \<Rightarrow> ulong" where
  "depth_loop 0 parent count topHub depth at = XHCI_HUB_DETACHED"
| "depth_loop (Suc left) parent count topHub depth at =
     (if at = topHub then depth
      else if parent ! unat at = XHCI_HUB_DETACHED \<or> parent ! unat at = XHCI_HUB_NO_PARENT \<or> parent ! unat at \<ge> count
      then XHCI_HUB_DETACHED
      else depth_loop left parent count topHub (depth + 1) (parent ! unat at))"

definition xhciHubDepthBelow :: "ulong list \<Rightarrow> ulong \<Rightarrow> ulong \<Rightarrow> ulong \<Rightarrow> ulong" where
  "xhciHubDepthBelow parent count topHub hub = depth_loop (unat count) parent count topHub 0 hub"

definition release_level :: "ulong list \<Rightarrow> ulong \<Rightarrow> ulong \<Rightarrow> nat \<times> ulong list \<Rightarrow> nat \<Rightarrow> nat \<times> ulong list" where
  "release_level parent count topHub s d =
     foldl (\<lambda>(written, order) i.
              if xhciHubDepthBelow parent count topHub (of_nat i) = of_nat d - 1
              then (written + 1, order[written := of_nat i]) else (written, order))
       s [0..<unat count]"

definition XhciHubReleaseOrder ::
    "ulong list option \<Rightarrow> ulong \<Rightarrow> ulong \<Rightarrow> ulong list option \<Rightarrow> nat \<times> ulong list option" where
  "XhciHubReleaseOrder parent count topHub order =
     (case (parent, order) of
        (Some p, Some out) \<Rightarrow>
          if topHub \<ge> count \<or> p ! unat topHub = XHCI_HUB_DETACHED then (0, order)
          else (case foldl (release_level p count topHub) (0, out) (List.rev [1..<unat count + 1]) of
                  (written, out) \<Rightarrow> (written, Some out))
      | _ \<Rightarrow> (0, order))"

definition XhciHubReportHas :: "uchar list option \<Rightarrow> ulong \<Rightarrow> ulong \<Rightarrow> bool" where
  "XhciHubReportHas data bytes b =
     (case data of
        None \<Rightarrow> False
      | Some d \<Rightarrow>
          if b div 8 \<ge> bytes then False
          else d ! unat (b div 8) AND push_bit (unat (b mod 8)) 1 \<noteq> 0)"

text \<open>The walk to the nearest hub with a device node, with the steps left of \<open>count\<close>.\<close>

primrec presented_loop :: "nat \<Rightarrow> ulong list \<Rightarrow> ulong list \<Rightarrow> ulong \<Rightarrow> ulong \<Rightarrow> ulong" where
  "presented_loop 0 parent serial count at = 0"
| "presented_loop (Suc left) parent serial count at =
     (if at \<ge> count then 0
      else if serial ! unat at \<noteq> 0 then serial ! unat at
      else presented_loop left parent serial count (parent ! unat at))"

definition XhciHubPresentedParent :: "ulong list option \<Rightarrow> ulong list option \<Rightarrow> ulong \<Rightarrow> ulong \<Rightarrow> ulong" where
  "XhciHubPresentedParent parent serial count start =
     (case (parent, serial) of
        (Some p, Some s) \<Rightarrow> presented_loop (unat count) p s count start
      | _ \<Rightarrow> 0)"

definition XhciHubPortLocation :: "ulong \<Rightarrow> ulong \<Rightarrow> ulong \<Rightarrow> ulong \<Rightarrow> ulong" where
  "XhciHubPortLocation rootPorts perHub index n =
     (if n = 0 \<or> n > perHub then 0 else rootPorts + index * perHub + n)"

section \<open>The device node's identifiers\<close>

datatype hubpdo_which = XHCI_HUBPDO_ID_DEVICE | XHCI_HUBPDO_ID_HARDWARE | XHCI_HUBPDO_ID_COMPATIBLE | XHCI_HUBPDO_ID_INSTANCE

datatype hubpdo_status = XHCI_HUBPDO_OK | XHCI_HUBPDO_TOO_SMALL | XHCI_HUBPDO_BAD_PARAM

definition XHCI_ID_HUB :: string where
  "XHCI_ID_HUB = ''USB'' @ [CHR 0x5C] @ ''XHCI98_HUB''"

definition XHCI_ID_HUB30 :: string where
  "XHCI_ID_HUB30 = ''USB'' @ [CHR 0x5C] @ ''XHCI98_HUB30''"

record xhci_hubpdo_text =
  TextOut :: string
  TextCapacity :: ulong
  TextUsed :: ulong

definition xhciHubPdoChar :: "xhci_hubpdo_text \<Rightarrow> char \<Rightarrow> xhci_hubpdo_text" where
  "xhciHubPdoChar t c =
     (let t = (if TextUsed t < TextCapacity t then t\<lparr>TextOut := (TextOut t)[unat (TextUsed t) := c]\<rparr> else t)
      in t\<lparr>TextUsed := TextUsed t + 1\<rparr>)"

definition xhciHubPdoStr :: "xhci_hubpdo_text \<Rightarrow> string \<Rightarrow> xhci_hubpdo_text" where
  "xhciHubPdoStr t s = foldl xhciHubPdoChar t s"

definition hex_digit :: "ulong \<Rightarrow> char" where
  "hex_digit v = ''0123456789ABCDEF'' ! unat (v AND 0xF)"

primrec xhciHubPdoHex :: "xhci_hubpdo_text \<Rightarrow> ulong \<Rightarrow> nat \<Rightarrow> xhci_hubpdo_text" where
  "xhciHubPdoHex t v 0 = t"
| "xhciHubPdoHex t v (Suc digits) = xhciHubPdoHex (xhciHubPdoChar t (hex_digit (drop_bit (digits * 4) v))) v digits"

text \<open>The digits of a number, the lowest first, at most \<open>left\<close> of them: the loop that fills the array.\<close>

primrec dec_digits :: "nat \<Rightarrow> ulong \<Rightarrow> string" where
  "dec_digits 0 v = []"
| "dec_digits (Suc left) v =
     char_of (48 + unat (v mod 10)) # (if v div 10 \<noteq> 0 then dec_digits left (v div 10) else [])"

definition xhciHubPdoDec :: "xhci_hubpdo_text \<Rightarrow> ulong \<Rightarrow> xhci_hubpdo_text" where
  "xhciHubPdoDec t v = foldl xhciHubPdoChar t (List.rev (dec_digits 11 v))"

definition xhciHubPdoBase :: "xhci_hubpdo_text \<Rightarrow> bool \<Rightarrow> xhci_hubpdo_text" where
  "xhciHubPdoBase t usb3 = xhciHubPdoStr t (if usb3 then XHCI_ID_HUB30 else XHCI_ID_HUB)"

definition xhciHubPdoVidPid :: "xhci_hubpdo_text \<Rightarrow> uchar list \<Rightarrow> bool \<Rightarrow> xhci_hubpdo_text" where
  "xhciHubPdoVidPid t device usb3 =
     (let t = xhciHubPdoBase t usb3;
          t = xhciHubPdoStr t ''&VID_'';
          t = xhciHubPdoHex t (ucast (device ! 8) OR push_bit 8 (ucast (device ! 9))) 4;
          t = xhciHubPdoStr t ''&PID_''
      in xhciHubPdoHex t (ucast (device ! 10) OR push_bit 8 (ucast (device ! 11))) 4)"

definition XhciHubPdoId ::
    "uchar list option \<Rightarrow> bool \<Rightarrow> ulong \<Rightarrow> hubpdo_which \<Rightarrow> string option \<Rightarrow> ulong \<Rightarrow> ulong option
     \<Rightarrow> hubpdo_status \<times> string option \<times> ulong option" where
  "XhciHubPdoId device usb3 instanceKey which out capacity used =
     (case (device, used) of
        (Some dev, Some _) \<Rightarrow>
          if out = None \<and> capacity \<noteq> 0 then (XHCI_HUBPDO_BAD_PARAM, out, used)
          else
            let t = \<lparr>TextOut = (case out of None \<Rightarrow> [] | Some s \<Rightarrow> s), TextCapacity = capacity, TextUsed = 0\<rparr>;
                nul = (\<lambda>t. xhciHubPdoChar t (CHR 0x00));
                answer = (\<lambda>t. (if TextUsed t > capacity then XHCI_HUBPDO_TOO_SMALL else XHCI_HUBPDO_OK,
                               map_option (\<lambda>_. TextOut t) out, Some (TextUsed t)))
            in
            (case which of
               XHCI_HUBPDO_ID_DEVICE \<Rightarrow> answer (nul (xhciHubPdoVidPid t dev usb3))
             | XHCI_HUBPDO_ID_HARDWARE \<Rightarrow>
                 let t = xhciHubPdoVidPid t dev usb3;
                     t = xhciHubPdoStr t ''&REV_'';
                     t = xhciHubPdoHex t (ucast (dev ! 12) OR push_bit 8 (ucast (dev ! 13))) 4;
                     t = nul t;
                     t = nul (xhciHubPdoVidPid t dev usb3);
                     t = nul (xhciHubPdoBase t usb3)
                 in answer (nul t)
             | XHCI_HUBPDO_ID_INSTANCE \<Rightarrow> answer (nul (xhciHubPdoDec t instanceKey))
             | _ \<Rightarrow> (XHCI_HUBPDO_BAD_PARAM, out, Some 0))
      | _ \<Rightarrow> (XHCI_HUBPDO_BAD_PARAM, out, used))"

section \<open>The answers to the ioctls\<close>

definition XhciHubNodeInfo :: "xhci_hub_desc option \<Rightarrow> bool \<Rightarrow> uchar list option \<Rightarrow> uchar list option" where
  "XhciHubNodeInfo desc busPowered out =
     map_option (\<lambda>o'.
       let o' = foldl (\<lambda>b i. b[i := 0]) o' [0..<XHCI_HUB_NODE_INFO_BYTES];
           ports = (case desc of Some d \<Rightarrow> HubPorts d | None \<Rightarrow> 0);
           ports = (if ports > 255 then 255 else ports);
           chars = (case desc of Some d \<Rightarrow> HubCharacteristics d | None \<Rightarrow> 0);
           maskBytes = (ports + 1 + 7) div 8
       in o'[4 := ucast (7 + 2 * maskBytes),
             5 := ucast XHCI_HUB_DESC_TYPE,
             6 := ucast ports,
             7 := ucast (chars AND 0xFF),
             8 := ucast (drop_bit 8 chars AND 0xFF),
             9 := ucast ((case desc of Some d \<Rightarrow> PowerGoodMs d div 2 | None \<Rightarrow> 0) AND 0xFF),
             10 := ucast ((case desc of Some d \<Rightarrow> ControllerCurrent d | None \<Rightarrow> 0) AND 0xFF),
             75 := (if busPowered then 1 else 0)]) out"

definition XhciHubCapsEx :: "ulong \<Rightarrow> bool \<Rightarrow> bool \<Rightarrow> ulong" where
  "XhciHubCapsEx speedClass multiTtCapable multiTtOn =
     (let flags = 0 :: ulong in
      if speedClass = CLASS_HIGH then
        let flags = flags OR 0x3 in
        if multiTtCapable then
          let flags = flags OR 0x4 in
          if multiTtOn then flags OR 0x8 else flags
        else flags
      else flags)"

definition XhciHubExSpeed :: "bool \<Rightarrow> ulong \<Rightarrow> bool \<Rightarrow> bool \<Rightarrow> ulong" where
  "XhciHubExSpeed connected speedClass plusFlag win9x =
     (if \<not> connected then 0
      else if speedClass = CLASS_LOW then 0
      else if speedClass = CLASS_FULL then 1
      else if speedClass = CLASS_SUPER \<and> win9x then (if plusFlag then 4 else 3)
      else 2)"

definition xhciHubGet32 :: "uchar list \<Rightarrow> nat \<Rightarrow> ulong" where
  "xhciHubGet32 b off =
     ucast (b ! off) OR push_bit 8 (ucast (b ! (off + 1))) OR push_bit 16 (ucast (b ! (off + 2))) OR
     push_bit 24 (ucast (b ! (off + 3)))"

definition xhciHubPut32 :: "uchar list \<Rightarrow> nat \<Rightarrow> ulong \<Rightarrow> uchar list" where
  "xhciHubPut32 b off v =
     b[off := ucast (v AND 0xFF), off + 1 := ucast (drop_bit 8 v AND 0xFF),
       off + 2 := ucast (drop_bit 16 v AND 0xFF), off + 3 := ucast (drop_bit 24 v AND 0xFF)]"

datatype exv2_status = XHCI_HUB_EXV2_OK | XHCI_HUB_EXV2_TOO_SMALL | XHCI_HUB_EXV2_INVALID

definition XhciHubExV2Check :: "uchar list option \<Rightarrow> ulong \<Rightarrow> ulong \<Rightarrow> exv2_status" where
  "XhciHubExV2Check buf inLen outLen =
     (case buf of
        None \<Rightarrow> XHCI_HUB_EXV2_TOO_SMALL
      | Some b \<Rightarrow>
          if inLen < XHCI_HUB_EXV2_BYTES \<or> outLen < XHCI_HUB_EXV2_BYTES then XHCI_HUB_EXV2_TOO_SMALL
          else if inLen \<noteq> XHCI_HUB_EXV2_BYTES \<or> xhciHubGet32 b 4 \<noteq> XHCI_HUB_EXV2_BYTES \<or>
                  xhciHubGet32 b 8 AND XHCI_HUB_PROTO_USB300 = 0
          then XHCI_HUB_EXV2_INVALID
          else XHCI_HUB_EXV2_OK)"

text \<open>The port classes 1 and 2 are the USB 2.0 ones, 3 and 4 the USB 3 ones.\<close>

definition XhciHubRootPortProtocols :: "uchar \<Rightarrow> ulong" where
  "XhciHubRootPortProtocols portClass =
     (if portClass = 1 \<or> portClass = 2 then XHCI_HUB_PROTO_USB110 OR XHCI_HUB_PROTO_USB200
      else if portClass = XHCI_PORT_CLASS_USB3_COMPANION \<or> portClass = XHCI_PORT_CLASS_USB3_ORPHAN
      then XHCI_HUB_PROTO_USB300
      else 0)"

definition XhciHubHubPortProtocols :: "ulong \<Rightarrow> ulong" where
  "XhciHubHubPortProtocols hubSpeedClass =
     (if hubSpeedClass = CLASS_SUPER then XHCI_HUB_PROTO_USB300
      else if hubSpeedClass = CLASS_HIGH then XHCI_HUB_PROTO_USB110 OR XHCI_HUB_PROTO_USB200
      else if hubSpeedClass = CLASS_FULL \<or> hubSpeedClass = CLASS_LOW then XHCI_HUB_PROTO_USB110
      else 0)"

definition XhciHubExV2Flags :: "bool \<Rightarrow> ulong \<Rightarrow> bool \<Rightarrow> bool \<Rightarrow> bool \<Rightarrow> ulong" where
  "XhciHubExV2Flags connected speedClass plusFlag bosSs bosSsp =
     (if \<not> connected then 0
      else
        let flags = 0 :: ulong;
            flags = (if speedClass = CLASS_SUPER then
                       let flags = flags OR (XHCI_HUB_EXV2_SS_OPERATING OR XHCI_HUB_EXV2_SS_CAPABLE) in
                       if plusFlag then flags OR (XHCI_HUB_EXV2_SSP_OPERATING OR XHCI_HUB_EXV2_SSP_CAPABLE) else flags
                     else flags);
            flags = (if bosSs \<or> bosSsp then flags OR XHCI_HUB_EXV2_SS_CAPABLE else flags)
        in if bosSsp then flags OR XHCI_HUB_EXV2_SSP_CAPABLE else flags)"

definition XhciHubExV2Fill :: "uchar list \<Rightarrow> ulong \<Rightarrow> ulong \<Rightarrow> uchar list" where
  "XhciHubExV2Fill buf protocols flags =
     xhciHubPut32 (xhciHubPut32 (xhciHubPut32 buf 4 XHCI_HUB_EXV2_BYTES) 8 protocols) 12 flags"

datatype dr_answer = XHCI_HUB_DR_TOO_SMALL | XHCI_HUB_DR_DEVICE | XHCI_HUB_DR_CONFIG | XHCI_HUB_DR_FORWARD

record xhci_hub_desc_plan =
  PlanPort :: ulong
  PlanValue :: ulong
  PlanIndex :: ulong
  PlanLength :: ulong
  PlanSend :: ulong

definition XhciHubDescPlan ::
    "uchar list option \<Rightarrow> ulong \<Rightarrow> ulong \<Rightarrow> ulong \<Rightarrow> dr_answer \<times> xhci_hub_desc_plan" where
  "XhciHubDescPlan buf inLen outLen cap =
     (let zero = \<lparr>PlanPort = 0, PlanValue = 0, PlanIndex = 0, PlanLength = 0, PlanSend = 0\<rparr> in
      case buf of
        None \<Rightarrow> (XHCI_HUB_DR_TOO_SMALL, zero)
      | Some b \<Rightarrow>
          if inLen < XHCI_HUB_DR_REQUEST_BYTES \<or> outLen < XHCI_HUB_DR_REQUEST_BYTES
          then (XHCI_HUB_DR_TOO_SMALL, zero)
          else
            let p = \<lparr>PlanPort = xhciHubGet32 b 0,
                     PlanValue = ucast (b ! 6) OR push_bit 8 (ucast (b ! 7)),
                     PlanIndex = ucast (b ! 8) OR push_bit 8 (ucast (b ! 9)),
                     PlanLength = ucast (b ! 10) OR push_bit 8 (ucast (b ! 11)),
                     PlanSend = 0\<rparr>
            in
            if PlanLength p > outLen - XHCI_HUB_DR_REQUEST_BYTES then (XHCI_HUB_DR_TOO_SMALL, p\<lparr>PlanLength := 0\<rparr>)
            else
              let p = p\<lparr>PlanSend := PlanLength p\<rparr> in
              if PlanValue p = 0x0100 then (XHCI_HUB_DR_DEVICE, p)
              else if PlanValue p = 0x0200 then (XHCI_HUB_DR_CONFIG, p)
              else (XHCI_HUB_DR_FORWARD, if PlanSend p > cap then p\<lparr>PlanSend := cap\<rparr> else p))"

definition XhciHubDescInfo :: "xhci_hub_desc_plan \<Rightarrow> ulong \<Rightarrow> ulong" where
  "XhciHubDescInfo plan received =
     XHCI_HUB_DR_REQUEST_BYTES + (if received < PlanSend plan then received else PlanSend plan)"

end
