(* ===== verification/Xhci_Hub_Order.thy ===== *)
theory Xhci_Hub_Order
  imports Xhci_Hub
begin

text \<open>
  The release order of a hub's subtree: every hub that hangs below the given one, each once, each
  before the hub it hangs on.
\<close>

section \<open>Hanging below a hub\<close>

text \<open>Hub \<open>i\<close> is \<open>k\<close> steps below \<open>t\<close> in the table of parents.\<close>

inductive hangs :: "ulong list \<Rightarrow> nat \<Rightarrow> nat \<Rightarrow> nat \<Rightarrow> nat \<Rightarrow> bool" for p n t where
  here: "hangs p n t t 0"
| down: "i \<noteq> t \<Longrightarrow> unat (p ! i) < n \<Longrightarrow> p ! i \<noteq> XHCI_HUB_DETACHED \<Longrightarrow> p ! i \<noteq> XHCI_HUB_NO_PARENT \<Longrightarrow>
    hangs p n t (unat (p ! i)) k \<Longrightarrow> hangs p n t i (Suc k)"

inductive_cases hangs_SucE: "hangs p n t i (Suc k)"

inductive_simps hangs_0 [simp]: "hangs p n t i 0"

lemma hangs_unique: "hangs p n t i k \<Longrightarrow> hangs p n t i l \<Longrightarrow> k = l"
proof (induction arbitrary: l rule: hangs.induct)
  case here
  then show ?case by (cases rule: hangs.cases) auto
next
  case (down i k)
  from down.prems down.IH down.hyps(1) show ?case by (cases rule: hangs.cases) auto
qed

lemma hangs_levels: "hangs p n t i k \<Longrightarrow> i < n \<Longrightarrow> j \<le> k \<Longrightarrow> \<exists>x<n. hangs p n t x j"
proof (induction rule: hangs.induct)
  case here
  then show ?case using hangs.here by auto
next
  case (down i k)
  show ?case
  proof (cases "j = Suc k")
    case True
    then show ?thesis using hangs.down [OF down.hyps(1-4) down.hyps(5)] down.prems(1) by blast
  next
    case False
    then show ?thesis using down by simp
  qed
qed

lemma hangs_short:
  assumes "hangs p n t i k" and "i < n"
  shows "k < n"
proof -
  obtain f where f: "\<And>j. j \<le> k \<Longrightarrow> f j < n \<and> hangs p n t (f j) j"
    using hangs_levels [OF assms] by metis
  have "inj_on f {..k}"
  proof (rule inj_onI)
    fix a b assume "a \<in> {..k}" "b \<in> {..k}" "f a = f b"
    then show "a = b" using f hangs_unique by (metis atMost_iff)
  qed
  moreover have "f ` {..k} \<subseteq> {..<n}" using f by auto
  ultimately have "card {..k} \<le> card {..<n}" using card_inj_on_le by blast
  then show ?thesis by simp
qed

section \<open>The depth\<close>

lemma depth_loop_step:
  assumes "at \<noteq> topHub"
  shows "depth_loop (Suc left) p count topHub depth at =
    (if p ! unat at = XHCI_HUB_DETACHED \<or> p ! unat at = XHCI_HUB_NO_PARENT \<or> p ! unat at \<ge> count
     then XHCI_HUB_DETACHED else depth_loop left p count topHub (depth + 1) (p ! unat at))"
  using assms by simp

lemma depth_loop_found:
  "hangs p (unat count) (unat topHub) (unat at) k \<Longrightarrow> k < left \<Longrightarrow>
    depth_loop left p count topHub depth at = depth + of_nat k"
proof (induction left arbitrary: depth at k)
  case (Suc left)
  show ?case
  proof (cases k)
    case 0
    then show ?thesis using Suc.prems by (simp add: unat_eq_iff)
  next
    case k: (Suc l)
    then have "hangs p (unat count) (unat topHub) (unat at) (Suc l)" using Suc.prems by simp
    then obtain h: "unat at \<noteq> unat topHub" "unat (p ! unat at) < unat count" "p ! unat at \<noteq> XHCI_HUB_DETACHED"
      "p ! unat at \<noteq> XHCI_HUB_NO_PARENT" "hangs p (unat count) (unat topHub) (unat (p ! unat at)) l"
      by (rule hangs_SucE)
    have "depth_loop (Suc left) p count topHub depth at = depth_loop left p count topHub (depth + 1) (p ! unat at)"
      using h(1-4) by (subst depth_loop_step) (auto simp: word_le_nat_alt)
    also have "\<dots> = depth + 1 + of_nat l" using Suc.IH [OF h(5)] Suc.prems(2) k by simp
    finally show ?thesis using k by simp
  qed
qed simp

lemma depth_loop_lost:
  "(\<And>k. k < left \<Longrightarrow> \<not> hangs p (unat count) (unat topHub) (unat at) k) \<Longrightarrow>
    depth_loop left p count topHub depth at = XHCI_HUB_DETACHED"
proof (induction left arbitrary: depth at)
  case (Suc left)
  have ne: "unat at \<noteq> unat topHub" using Suc.prems [of 0] by simp
  then have ne': "at \<noteq> topHub" by auto
  show ?case
  proof (cases "p ! unat at = XHCI_HUB_DETACHED \<or> p ! unat at = XHCI_HUB_NO_PARENT \<or> p ! unat at \<ge> count")
    case True
    then show ?thesis using ne' by (subst depth_loop_step) auto
  next
    case False
    then have "\<not> hangs p (unat count) (unat topHub) (unat (p ! unat at)) k" if "k < left" for k
      using Suc.prems [of "Suc k"] that ne hangs.down [of "unat at" "unat topHub" p "unat count" k]
      by (auto simp: word_le_nat_alt)
    then show ?thesis using Suc.IH False ne' by (subst depth_loop_step) auto
  qed
qed simp

text \<open>The comparison the order makes.\<close>

lemma depth_is:
  assumes c: "count \<le> XHCI_HUB_DETACHED" and i: "i < unat count" and d: "d < unat count"
  shows "xhciHubDepthBelow p count topHub (of_nat i) = of_nat (Suc d) - 1 \<longleftrightarrow>
    hangs p (unat count) (unat topHub) i d"
proof -
  let ?H = "hangs p (unat count) (unat topHub)"
  have cn: "unat count \<le> 4294967294" using c by (simp add: word_le_nat_alt)
  have small: "unat (of_nat k :: ulong) = k" if "k < unat count" for k
    using that unat_lt_2p32 [of count] by (intro unat_of_nat_ulong) linarith
  have suc: "of_nat (Suc d) - 1 = (of_nat d :: ulong)" by simp
  show ?thesis
  proof (cases "\<exists>k. ?H i k")
    case True
    then obtain k where k: "?H i k" by blast
    have lt: "k < unat count" by (rule hangs_short [OF k i])
    have "xhciHubDepthBelow p count topHub (of_nat i) = of_nat k"
      unfolding xhciHubDepthBelow_def
      using depth_loop_found [of p count topHub "of_nat i" k "unat count" 0] k lt small [OF i] by simp
    then have "xhciHubDepthBelow p count topHub (of_nat i) = of_nat (Suc d) - 1 \<longleftrightarrow> k = d"
      unfolding suc using small [OF lt] small [OF d] by metis
    then show ?thesis using k hangs_unique by blast
  next
    case False
    then have "xhciHubDepthBelow p count topHub (of_nat i) = XHCI_HUB_DETACHED"
      unfolding xhciHubDepthBelow_def using small [OF i] by (intro depth_loop_lost) simp
    moreover have "XHCI_HUB_DETACHED \<noteq> (of_nat d :: ulong)"
    proof
      assume "XHCI_HUB_DETACHED = (of_nat d :: ulong)"
      then have "unat (4294967294 :: ulong) = d" using small [OF d] by metis
      then show False using d cn by simp
    qed
    ultimately show ?thesis unfolding suc using False by metis
  qed
qed

section \<open>The order\<close>

text \<open>A loop that writes the indices with a property to the next free places.\<close>

lemma write_filter:
  assumes "w + length (List.filter P xs) \<le> length o'"
  shows "foldl (\<lambda>(w, o') i. if P i then (w + 1, o'[w := f i]) else (w, o')) (w, o') xs =
    (w + length (List.filter P xs), take w o' @ map f (List.filter P xs) @ drop (w + length (List.filter P xs)) o')"
  using assms
proof (induction xs arbitrary: w o')
  case (Cons x xs)
  show ?case
  proof (cases "P x")
    case True
    then have w: "w < length o'" using Cons.prems by simp
    have "take (Suc w) (o'[w := f x]) = take w o' @ [f x]" using w by (simp add: take_Suc_conv_app_nth)
    moreover have "drop (Suc (w + k)) (o'[w := f x]) = drop (Suc (w + k)) o'" for k by simp
    ultimately show ?thesis using True Cons.IH [of "Suc w" "o'[w := f x]"] Cons.prems by simp
  next
    case False
    then show ?thesis using Cons by simp
  qed
qed simp

definition level :: "ulong list \<Rightarrow> nat \<Rightarrow> nat \<Rightarrow> nat \<Rightarrow> nat list" where
  "level p n t d = List.filter (\<lambda>i. hangs p n t i d) [0..<n]"

definition levels :: "ulong list \<Rightarrow> nat \<Rightarrow> nat \<Rightarrow> nat \<Rightarrow> nat list" where
  "levels p n t k = concat (map (level p n t) (List.rev [n - k..<n]))"

lemma set_level: "set (level p n t d) = {i. i < n \<and> hangs p n t i d}"
  by (auto simp: level_def)

lemma distinct_levels: "distinct (concat (map (level p n t) ds))" if "distinct ds" for ds
  using that
proof (induction ds)
  case (Cons d ds)
  have "set (level p n t d) \<inter> set (concat (map (level p n t) ds)) = {}"
  proof (intro equals0I)
    fix i assume "i \<in> set (level p n t d) \<inter> set (concat (map (level p n t) ds))"
    then obtain e where "hangs p n t i d" "e \<in> set ds" "hangs p n t i e" by (auto simp: set_level)
    then show False using hangs_unique Cons.prems by fastforce
  qed
  moreover have "distinct (level p n t d)" by (simp add: level_def)
  ultimately show ?case using Cons by simp
qed simp

lemma levels_Suc:
  assumes "k < n"
  shows "levels p n t (Suc k) = levels p n t k @ level p n t (n - Suc k)"
proof -
  have "[n - Suc k..<n] = (n - Suc k) # [n - k..<n]" using assms by (simp add: upt_conv_Cons Suc_diff_Suc)
  then show ?thesis by (simp add: levels_def)
qed

lemma distinct_all: "distinct (levels p n t k)"
  unfolding levels_def by (rule distinct_levels) simp

lemma levels_length: "length (levels p n t k) \<le> n"
proof -
  have "set (levels p n t k) \<subseteq> {..<n}" by (auto simp: levels_def set_level)
  then have "card (set (levels p n t k)) \<le> n" using card_mono [of "{..<n}"] by fastforce
  then show ?thesis using distinct_card [OF distinct_all] by metis
qed

text \<open>The order is an array write of the levels, the deepest first.\<close>

lemma release_loop:
  assumes c: "count \<le> XHCI_HUB_DETACHED" and len: "unat count \<le> length out"
  shows "k \<le> unat count \<Longrightarrow>
    foldl (release_level p count topHub) (0, out) (take k (List.rev [1..<unat count + 1])) =
      (let l = levels p (unat count) (unat topHub) k in (length l, map of_nat l @ drop (length l) out))"
proof (induction k)
  case 0
  then show ?case by (simp add: levels_def)
next
  case (Suc k)
  let ?n = "unat count" and ?t = "unat topHub"
  let ?l = "levels p ?n ?t k" and ?d = "?n - Suc k"
  have lt: "k < ?n" using Suc.prems by simp
  have nth: "List.rev [1..<?n + 1] ! k = Suc ?d" using lt by (simp add: rev_nth del: upt_Suc)
  have take: "take (Suc k) (List.rev [1..<?n + 1]) = take k (List.rev [1..<?n + 1]) @ [Suc ?d]"
    using lt nth by (simp add: take_Suc_conv_app_nth del: upt_Suc)
  let ?o = "map of_nat ?l @ drop (length ?l) out"
  have fl: "List.filter (\<lambda>i. xhciHubDepthBelow p count topHub (of_nat i) = of_nat (Suc ?d) - 1) [0..<?n] = level p ?n ?t ?d"
    unfolding level_def using depth_is [OF c, of _ ?d p topHub] lt by (intro filter_cong refl) simp
  have total: "length ?l + length (level p ?n ?t ?d) \<le> ?n"
    using levels_length [of p ?n ?t "Suc k"] levels_Suc [OF lt] by simp
  have olen: "length ?o = length out" using levels_length [of p ?n ?t k] len by simp
  have "release_level p count topHub (length ?l, ?o) (Suc ?d) =
      (length ?l + length (level p ?n ?t ?d),
       take (length ?l) ?o @ map of_nat (level p ?n ?t ?d) @ drop (length ?l + length (level p ?n ?t ?d)) ?o)"
    unfolding release_level_def
    by (subst write_filter) (use total len olen in \<open>simp_all add: fl del: of_nat_Suc\<close>)
  then show ?case
    using Suc take levels_Suc [OF lt, of p ?t] by (simp add: Let_def add.commute)
qed

lemma levels_set: "set (levels p n t n) = {i. i < n \<and> (\<exists>k. hangs p n t i k)}"
  using hangs_short by (fastforce simp: levels_def set_level)

lemma levels_parent_later:
  assumes i: "i \<in> set (levels p n t n)" and ne: "i \<noteq> t"
  shows "unat (p ! i) < n \<and> (\<exists>xs ys. levels p n t n = xs @ i # ys \<and> unat (p ! i) \<in> set ys)"
proof -
  obtain k where k: "i < n" "hangs p n t i k" using i levels_set by blast
  then obtain l where l: "k = Suc l" using ne by (cases k) auto
  then have par: "unat (p ! i) < n" "hangs p n t (unat (p ! i)) l" using k(2) by (auto elim: hangs_SucE)
  have kn: "Suc l < n" using hangs_short k l by blast
  have "[0..<n] = [0..<Suc l] @ Suc l # [Suc (Suc l)..<n]"
    using kn upt_add_eq_append [of 0 "Suc l" "n - Suc l"] upt_conv_Cons [OF kn] by simp
  then have "levels p n t n = concat (map (level p n t) (List.rev [Suc (Suc l)..<n])) @ level p n t (Suc l) @
      concat (map (level p n t) (List.rev [0..<Suc l]))"
    by (simp add: levels_def)
  moreover have "i \<in> set (level p n t (Suc l))" using k l by (simp add: set_level)
  then obtain as bs where "level p n t (Suc l) = as @ i # bs" by (meson split_list)
  moreover have "unat (p ! i) \<in> set (concat (map (level p n t) (List.rev [0..<Suc l])))"
    using par by (auto simp: set_level)
  ultimately have "levels p n t n = (concat (map (level p n t) (List.rev [Suc (Suc l)..<n])) @ as) @ i #
      (bs @ concat (map (level p n t) (List.rev [0..<Suc l])))"
      "unat (p ! i) \<in> set (bs @ concat (map (level p n t) (List.rev [0..<Suc l])))" by simp_all
  then show ?thesis using par(1) by blast
qed

lemma levels_last:
  assumes "t < n"
  shows "\<exists>xs. levels p n t n = xs @ [t]"
proof -
  have "[0..<n] = 0 # [1..<n]" using assms by (simp add: upt_conv_Cons)
  moreover have "level p n t 0 = [t]"
  proof -
    have "List.filter (\<lambda>i. i = t) [0..<n] = [t]"
    proof -
      have "[0..<n] = [0..<t] @ t # [Suc t..<n]"
        using assms upt_add_eq_append [of 0 t "n - t"] upt_conv_Cons [of t n] by simp
      then show ?thesis by (simp add: filter_empty_conv)
    qed
    then show ?thesis by (simp add: level_def)
  qed
  ultimately show ?thesis by (simp add: levels_def)
qed

text \<open>
  C28: A subtree is released bottom up, once. For a table of parents of any shape, loops and detached
  hubs included, the order written has exactly the hubs from which the walk up the table reaches the
  given hub, each once, every other one before the hub it hangs on and the given hub last; the rest of
  the array is untouched.
\<close>

theorem release_order_exact:
  assumes "count \<le> XHCI_HUB_DETACHED" and "unat count \<le> length out"
    and "topHub < count" and "p ! unat topHub \<noteq> XHCI_HUB_DETACHED"
    and "XhciHubReleaseOrder (Some p) count topHub (Some out) = (n, Some out')"
  shows "\<exists>l. take n out' = map of_nat l \<and> drop n out' = drop n out \<and> length out' = length out \<and> distinct l \<and>
    set l = {i. i < unat count \<and> (\<exists>k. hangs p (unat count) (unat topHub) i k)} \<and>
    (\<exists>xs. l = xs @ [unat topHub]) \<and>
    (\<forall>i\<in>set l. i \<noteq> unat topHub \<longrightarrow> (\<exists>xs ys. l = xs @ i # ys \<and> unat (p ! i) \<in> set ys))"
proof -
  let ?n = "unat count" and ?t = "unat topHub"
  let ?l = "levels p ?n ?t ?n"
  have t: "?t < ?n" using assms(3) by (simp add: word_less_nat_alt)
  define ws where "ws = List.rev [1..<?n + 1]"
  have "foldl (release_level p count topHub) (0, out) ws = (length ?l, map of_nat ?l @ drop (length ?l) out)"
    using release_loop [OF assms(1,2), of ?n p topHub] by (simp add: ws_def Let_def del: upt_Suc)
  moreover have "XhciHubReleaseOrder (Some p) count topHub (Some out) =
      (case foldl (release_level p count topHub) (0, out) ws of (written, out) \<Rightarrow> (written, Some out))"
    using assms(3,4) by (simp add: XhciHubReleaseOrder_def ws_def not_le del: upt_Suc One_nat_def)
  ultimately have r: "n = length ?l" "out' = map of_nat ?l @ drop (length ?l) out"
    using assms(5) by simp_all
  show ?thesis
  proof (rule exI [of _ ?l], intro conjI)
    show "take n out' = map of_nat ?l" "drop n out' = drop n out" by (simp_all add: r)
    show "length out' = length out" using levels_length [of p ?n ?t ?n] assms(2) by (simp add: r(2))
    show "distinct ?l" by (rule distinct_all)
    show "set ?l = {i. i < ?n \<and> (\<exists>k. hangs p ?n ?t i k)}" by (rule levels_set)
    show "\<exists>xs. ?l = xs @ [?t]" by (rule levels_last [OF t])
    show "\<forall>i\<in>set ?l. i \<noteq> ?t \<longrightarrow> (\<exists>xs ys. ?l = xs @ i # ys \<and> unat (p ! i) \<in> set ys)"
      using levels_parent_later by blast
  qed
qed

theorem release_order_exact_witness:
  "\<exists>l. take 3 (the (snd (XhciHubReleaseOrder (Some [XHCI_HUB_NO_PARENT, 0, 1, XHCI_HUB_DETACHED]) 4 0 (Some [9, 9, 9, 9])))) =
      map of_nat l \<and> distinct l \<and> (\<exists>xs. l = xs @ [0])"
proof -
  let ?p = "[XHCI_HUB_NO_PARENT, 0, 1, XHCI_HUB_DETACHED]" and ?out = "[9, 9, 9, 9] :: ulong list"
  have "\<exists>n out'. XhciHubReleaseOrder (Some ?p) 4 0 (Some ?out) = (n, Some out')"
    by (simp add: XhciHubReleaseOrder_def split: prod.split)
  then obtain n out' where r: "XhciHubReleaseOrder (Some ?p) 4 0 (Some ?out) = (n, Some out')" by blast
  have "fst (XhciHubReleaseOrder (Some ?p) 4 0 (Some ?out)) = 3" by code_simp
  then have n: "n = 3" using r by simp
  obtain l where "take n out' = map of_nat l" "distinct l" "\<exists>xs. l = xs @ [unat (0 :: ulong)]"
    using release_order_exact [OF _ _ _ _ r] by auto
  then show ?thesis unfolding r n by auto
qed

end
