(* ===== verification/Xhci_Stream.thy ===== *)
theory Xhci_Stream
  imports Xhci_Ring
begin

unbundle bit_operations_syntax

text \<open>
  Bulk streams, \<^verbatim>\<open>src/src/xhci_stream.c\<close> with \<^verbatim>\<open>src/src/xhci_stream.h\<close>: how many streams an
  endpoint gets, the layout of its context array and rings in one buffer, the contexts, the command
  and doorbell words, and the stream a TRB address belongs to. Output pointers are result components;
  the pointers the code tests for \<open>NULL\<close> beside them are options.
\<close>

datatype stream_status =
    XHCI_STREAM_OK
  | XHCI_STREAM_BAD_PARAM
  | XHCI_STREAM_HC_NONE
  | XHCI_STREAM_EP_NONE
  | XHCI_STREAM_MALFORMED

abbreviation (input) XHCI_STREAM_MAX_ENTRIES :: ulong where "XHCI_STREAM_MAX_ENTRIES \<equiv> 32"
abbreviation (input) XHCI_STREAM_MIN_ENTRIES :: ulong where "XHCI_STREAM_MIN_ENTRIES \<equiv> 4"
abbreviation (input) XHCI_STREAM_CONTEXT_BYTES :: ulong where "XHCI_STREAM_CONTEXT_BYTES \<equiv> 16"
abbreviation (input) XHCI_STREAM_PAGE_BYTES :: ulong where "XHCI_STREAM_PAGE_BYTES \<equiv> 4096"
abbreviation (input) XHCI_STREAM_DT_SS_COMPANION :: ulong where "XHCI_STREAM_DT_SS_COMPANION \<equiv> 0x30"
abbreviation (input) XHCI_STREAM_COMPANION_BYTES :: ulong where "XHCI_STREAM_COMPANION_BYTES \<equiv> 6"
abbreviation (input) XHCI_STREAM_MAX_STREAMS_EXP :: ulong where "XHCI_STREAM_MAX_STREAMS_EXP \<equiv> 16"
abbreviation (input) XHCI_STREAM_EP_MAXPSTREAMS_MASK :: ulong where "XHCI_STREAM_EP_MAXPSTREAMS_MASK \<equiv> 0x7C00"
abbreviation (input) XHCI_STREAM_EP_LSA :: ulong where "XHCI_STREAM_EP_LSA \<equiv> 0x8000"
abbreviation (input) XHCI_STREAM_BIG_RING_TRBS :: ulong where "XHCI_STREAM_BIG_RING_TRBS \<equiv> 1024"
abbreviation (input) XHCI_STREAM_BIG_ALIGN :: ulong where "XHCI_STREAM_BIG_ALIGN \<equiv> 16384"

record xhci_stream_plan =
  Entries :: ulong
  Streams :: ulong
  MaxPStreams :: ulong

record xhci_stream_layout =
  ArrayBytes :: ulong
  RingBase :: ulong
  RingBytes :: ulong
  TotalBytes :: ulong

section \<open>How many streams\<close>

definition xhciStreamIsPow2 :: "ulong \<Rightarrow> bool" where
  "xhciStreamIsPow2 v \<longleftrightarrow> v \<noteq> 0 \<and> v AND (v - 1) = 0"

text \<open>The loop of \<open>xhciStreamLog2\<close> over the value and the count.\<close>

function log2_loop :: "ulong \<Rightarrow> ulong \<Rightarrow> ulong" where
  "log2_loop v n = (if v > 1 then log2_loop (drop_bit 1 v) (n + 1) else n)"
  by pat_completeness auto

termination
proof (relation "measure (\<lambda>(v, n). unat v)", goal_cases)
  case (2 v n)
  then have "1 < unat v" by (simp add: word_less_nat_alt)
  then show ?case by (simp add: drop_bit_eq_div unat_div)
qed simp

declare log2_loop.simps [simp del]

definition xhciStreamLog2 :: "ulong \<Rightarrow> ulong" where
  "xhciStreamLog2 v = log2_loop v 0"

definition XHCI_HCCPARAMS1_MAXPSA :: "ulong \<Rightarrow> ulong" where
  "XHCI_HCCPARAMS1_MAXPSA v = drop_bit 12 v AND 0xF"

definition XhciStreamHcEntries :: "ulong \<Rightarrow> ulong" where
  "XhciStreamHcEntries hccparams1 =
     (if hccparams1 = 0xFFFFFFFF then 0
      else
        let psa = XHCI_HCCPARAMS1_MAXPSA hccparams1 in
        if psa = 0 then 0 else push_bit (unat (psa + 1)) 1)"

text \<open>The status and \<open>*exponent\<close> when it is written; \<open>config\<close> has at least \<open>bytes\<close> bytes.\<close>

definition XhciStreamCompanionExponent :: "uchar list option \<Rightarrow> ulong \<Rightarrow> ulong \<Rightarrow> stream_status \<times> ulong option" where
  "XhciStreamCompanionExponent config bytes endpointOffset =
     (case config of
        None \<Rightarrow> (XHCI_STREAM_BAD_PARAM, None)
      | Some c \<Rightarrow>
          if bytes < 4 then (XHCI_STREAM_BAD_PARAM, None)
          else
            let declared = ucast (c ! 2) OR push_bit 8 (ucast (c ! 3));
                limit = (if declared > bytes then bytes else declared)
            in
            if endpointOffset \<ge> limit \<or> limit - endpointOffset < 2 \<or>
               ucast (c ! unat endpointOffset) < (2 :: ulong) \<or>
               ucast (c ! unat endpointOffset) > limit - endpointOffset
            then (XHCI_STREAM_BAD_PARAM, Some 0)
            else
              let at = endpointOffset + ucast (c ! unat endpointOffset) in
              if limit - at < 2 \<or> ucast (c ! unat (at + 1)) \<noteq> XHCI_STREAM_DT_SS_COMPANION
              then (XHCI_STREAM_EP_NONE, Some 0)
              else if ucast (c ! unat at) < XHCI_STREAM_COMPANION_BYTES \<or> ucast (c ! unat at) > limit - at
              then (XHCI_STREAM_MALFORMED, Some 0)
              else
                let ex = ucast (c ! unat (at + 3)) AND 0x1F in
                if ex > XHCI_STREAM_MAX_STREAMS_EXP then (XHCI_STREAM_MALFORMED, Some 0)
                else (if ex = 0 then XHCI_STREAM_EP_NONE else XHCI_STREAM_OK, Some ex))"

text \<open>
  The loop that doubles the entry count. It would not end for a count above \<open>2^31\<close>, so it is a
  partial function; that it returns is part of what is proved of the plan.
\<close>

partial_function (option) entries_loop :: "ulong \<Rightarrow> ulong \<Rightarrow> ulong option" where
  "entries_loop want entries =
     (if entries < want + 1 then entries_loop want (push_bit 1 entries) else Some entries)"

definition XhciStreamPlan ::
    "ulong \<Rightarrow> ulong \<Rightarrow> ulong \<Rightarrow> ulong \<Rightarrow> xhci_stream_plan option \<Rightarrow> (stream_status \<times> xhci_stream_plan option) option" where
  "XhciStreamPlan requested ex hcEntries capEntries plan =
     (case plan of
        None \<Rightarrow> Some (XHCI_STREAM_BAD_PARAM, plan)
      | Some p \<Rightarrow>
          if requested = 0 \<or> \<not> xhciStreamIsPow2 capEntries \<or> capEntries < XHCI_STREAM_MIN_ENTRIES
          then Some (XHCI_STREAM_BAD_PARAM, plan)
          else if hcEntries < XHCI_STREAM_MIN_ENTRIES then Some (XHCI_STREAM_HC_NONE, plan)
          else if ex = 0 then Some (XHCI_STREAM_EP_NONE, plan)
          else if ex > XHCI_STREAM_MAX_STREAMS_EXP then Some (XHCI_STREAM_MALFORMED, plan)
          else
            let limit = (if hcEntries < capEntries then hcEntries else capEntries);
                want = requested;
                want = (if want > push_bit (unat ex) 1 then push_bit (unat ex) 1 else want);
                want = (if want > limit - 1 then limit - 1 else want)
            in
            (case entries_loop want XHCI_STREAM_MIN_ENTRIES of
               None \<Rightarrow> None
             | Some entries \<Rightarrow>
                 Some (XHCI_STREAM_OK,
                   Some (p\<lparr>Entries := entries, Streams := want, MaxPStreams := xhciStreamLog2 entries - 1\<rparr>))))"

section \<open>The layout of the buffer\<close>

definition XhciStreamLayoutPad ::
    "ulong \<Rightarrow> ulong \<Rightarrow> ulong \<Rightarrow> bool \<Rightarrow> xhci_stream_layout option \<Rightarrow> stream_status \<times> xhci_stream_layout option" where
  "XhciStreamLayoutPad entries streams ringTrbs pad layout =
     (case layout of
        None \<Rightarrow> (XHCI_STREAM_BAD_PARAM, layout)
      | Some l \<Rightarrow>
          if \<not> xhciStreamIsPow2 entries \<or> entries < XHCI_STREAM_MIN_ENTRIES \<or> entries > XHCI_STREAM_MAX_ENTRIES \<or>
             streams = 0 \<or> streams \<ge> entries \<or> \<not> xhciStreamIsPow2 ringTrbs \<or> ringTrbs < 4 \<or>
             ringTrbs > XHCI_STREAM_PAGE_BYTES div XHCI_TRB_BYTES
          then (XHCI_STREAM_BAD_PARAM, layout)
          else
            let ringBytes = ringTrbs * XHCI_TRB_BYTES;
                arrayBytes = entries * XHCI_STREAM_CONTEXT_BYTES;
                base = arrayBytes;
                base = (if base mod ringBytes \<noteq> 0 then base + (ringBytes - base mod ringBytes) else base);
                sum = base + (streams + (if pad then 1 else 0)) * ringBytes;
                sum = (if sum mod XHCI_STREAM_PAGE_BYTES \<noteq> 0
                       then sum + (XHCI_STREAM_PAGE_BYTES - sum mod XHCI_STREAM_PAGE_BYTES) else sum)
            in (XHCI_STREAM_OK,
                Some (l\<lparr>ArrayBytes := arrayBytes, RingBase := base, RingBytes := ringBytes, TotalBytes := sum\<rparr>)))"

definition XhciStreamLayout ::
    "ulong \<Rightarrow> ulong \<Rightarrow> ulong \<Rightarrow> xhci_stream_layout option \<Rightarrow> stream_status \<times> xhci_stream_layout option" where
  "XhciStreamLayout entries streams ringTrbs layout = XhciStreamLayoutPad entries streams ringTrbs False layout"

definition XhciStreamRingOffset :: "xhci_stream_layout \<Rightarrow> ulong \<Rightarrow> ulong" where
  "XhciStreamRingOffset layout streamId = RingBase layout + (streamId - 1) * RingBytes layout"

text \<open>The status and \<open>*bytes\<close> when it is written.\<close>

definition XhciStreamBigBytesPad :: "ulong \<Rightarrow> ulong \<Rightarrow> bool \<Rightarrow> stream_status \<times> ulong option" where
  "XhciStreamBigBytesPad entries streams pad =
     (if \<not> xhciStreamIsPow2 entries \<or> entries < XHCI_STREAM_MIN_ENTRIES \<or> entries > XHCI_STREAM_MAX_ENTRIES \<or>
         streams = 0 \<or> streams \<ge> entries
      then (XHCI_STREAM_BAD_PARAM, None)
      else (XHCI_STREAM_OK,
            Some (XHCI_STREAM_BIG_ALIGN +
                  (streams + (if pad then 1 else 0)) * XHCI_STREAM_BIG_RING_TRBS * XHCI_TRB_BYTES)))"

definition XhciStreamBigBytes :: "ulong \<Rightarrow> ulong \<Rightarrow> stream_status \<times> ulong option" where
  "XhciStreamBigBytes entries streams = XhciStreamBigBytesPad entries streams False"

definition XhciStreamLayoutPlacedPad ::
    "ulong \<Rightarrow> ulong \<Rightarrow> ulong \<Rightarrow> ulong \<Rightarrow> bool \<Rightarrow> xhci_stream_layout option \<Rightarrow> stream_status \<times> xhci_stream_layout option" where
  "XhciStreamLayoutPlacedPad entries streams paLow paHigh pad layout =
     (case layout of
        None \<Rightarrow> (XHCI_STREAM_BAD_PARAM, layout)
      | Some l \<Rightarrow>
          (case XhciStreamBigBytesPad entries streams pad of
             (XHCI_STREAM_OK, Some bytes) \<Rightarrow>
               if paHigh \<noteq> 0 \<or> paLow mod XHCI_STREAM_PAGE_BYTES \<noteq> 0 \<or> paLow > 0xFFFFFFFF - (bytes - 1)
               then (XHCI_STREAM_BAD_PARAM, layout)
               else
                 let arrayBytes = entries * XHCI_STREAM_CONTEXT_BYTES;
                     ringBytes = XHCI_STREAM_BIG_RING_TRBS * XHCI_TRB_BYTES;
                     first = (paLow + arrayBytes + XHCI_STREAM_BIG_ALIGN - 1) AND NOT (XHCI_STREAM_BIG_ALIGN - 1);
                     l = l\<lparr>ArrayBytes := arrayBytes, RingBytes := ringBytes, RingBase := first - paLow, TotalBytes := bytes\<rparr>
                 in
                 if RingBase l > XHCI_STREAM_BIG_ALIGN \<or> RingBase l + streams * RingBytes l > bytes
                 then (XHCI_STREAM_BAD_PARAM, Some l)
                 else (XHCI_STREAM_OK, Some l)
           | _ \<Rightarrow> (XHCI_STREAM_BAD_PARAM, layout)))"

definition XhciStreamLayoutPlaced ::
    "ulong \<Rightarrow> ulong \<Rightarrow> ulong \<Rightarrow> ulong \<Rightarrow> xhci_stream_layout option \<Rightarrow> stream_status \<times> xhci_stream_layout option" where
  "XhciStreamLayoutPlaced entries streams paLow paHigh layout =
     XhciStreamLayoutPlacedPad entries streams paLow paHigh False layout"

section \<open>Contexts and commands\<close>

definition XhciStreamContextBuild :: "ulong list option \<Rightarrow> ulong \<Rightarrow> ulong \<Rightarrow> ulong \<Rightarrow> stream_status \<times> ulong list option" where
  "XhciStreamContextBuild ctx ringPA dcs sct =
     (case ctx of
        None \<Rightarrow> (XHCI_STREAM_BAD_PARAM, ctx)
      | Some c \<Rightarrow>
          if ringPA AND 0x0F \<noteq> 0 \<or> dcs > 1 \<or> sct > 7 \<or> ringPA = 0 \<and> (sct \<noteq> 0 \<or> dcs \<noteq> 0)
          then (XHCI_STREAM_BAD_PARAM, ctx)
          else (XHCI_STREAM_OK, Some (c[0 := ringPA OR push_bit 1 sct OR dcs, 1 := 0, 2 := 0, 3 := 0])))"

definition XhciStreamEndpointContext :: "ulong list option \<Rightarrow> ulong \<Rightarrow> ulong \<Rightarrow> stream_status \<times> ulong list option" where
  "XhciStreamEndpointContext ctx maxPStreams arrayPA =
     (case ctx of
        None \<Rightarrow> (XHCI_STREAM_BAD_PARAM, ctx)
      | Some c \<Rightarrow>
          if maxPStreams < 1 \<or> maxPStreams > 15 \<or> arrayPA = 0 \<or> arrayPA AND 0x0F \<noteq> 0
          then (XHCI_STREAM_BAD_PARAM, ctx)
          else
            let dw0 = c ! 0;
                dw0 = dw0 AND NOT (XHCI_STREAM_EP_MAXPSTREAMS_MASK OR XHCI_STREAM_EP_LSA);
                dw0 = dw0 OR (push_bit 10 maxPStreams OR XHCI_STREAM_EP_LSA)
            in (XHCI_STREAM_OK, Some (c[0 := dw0, 2 := arrayPA, 3 := 0])))"

definition XhciStreamSetDequeueTrb ::
    "xhci_trb option \<Rightarrow> ulong \<Rightarrow> ulong \<Rightarrow> ulong \<Rightarrow> ulong \<Rightarrow> ulong \<Rightarrow> ulong \<Rightarrow> stream_status \<times> xhci_trb option" where
  "XhciStreamSetDequeueTrb trb slotId dci streamId dequeuePA dcs sct =
     (case trb of
        None \<Rightarrow> (XHCI_STREAM_BAD_PARAM, trb)
      | Some t \<Rightarrow>
          if slotId = 0 \<or> slotId > 0xFF \<or> dci < 1 \<or> dci > 31 \<or> streamId = 0 \<or> streamId > 0xFFFF \<or>
             dequeuePA = 0 \<or> dequeuePA AND 0x0F \<noteq> 0 \<or> dcs > 1 \<or> sct < 1 \<or> sct > 7
          then (XHCI_STREAM_BAD_PARAM, trb)
          else (XHCI_STREAM_OK,
                Some (t\<lparr>Param0 := dequeuePA OR push_bit 1 sct OR dcs, Param1 := 0, Status := push_bit 16 streamId,
                        Control := XHCI_TRB_TYPE XHCI_TRB_TYPE_SET_TR_DEQUEUE OR XHCI_TRB_EP_ID dci OR
                                   XHCI_TRB_SLOT_ID slotId\<rparr>)))"

definition XhciStreamDoorbell :: "ulong \<Rightarrow> ulong \<Rightarrow> ulong" where
  "XhciStreamDoorbell dci streamId = (dci AND 0xFF) OR push_bit 16 (streamId AND 0xFFFF)"

section \<open>The stream of an address\<close>

text \<open>The body of the loop over the stream IDs: the ring at \<open>i\<close> holds the address.\<close>

definition stream_holds :: "xhci_ring option list \<Rightarrow> ulong \<Rightarrow> nat \<Rightarrow> bool" where
  "stream_holds rings trbPA i =
     (case rings ! i of
        None \<Rightarrow> False
      | Some ring \<Rightarrow> Trbs ring \<noteq> 0 \<and> trbPA \<ge> BasePA ring \<and> trbPA - BasePA ring < Trbs ring * XHCI_TRB_BYTES)"

text \<open>\<open>rings\<close> has at least \<open>count\<close> entries.\<close>

definition XhciStreamFind :: "xhci_ring option list option \<Rightarrow> ulong \<Rightarrow> ulong \<Rightarrow> ulong" where
  "XhciStreamFind rings count trbPA =
     (case rings of
        None \<Rightarrow> 0
      | Some rs \<Rightarrow>
          if trbPA AND 0x0F \<noteq> 0 \<or> trbPA = 0 then 0
          else (case find (stream_holds rs trbPA) [1..<unat count] of None \<Rightarrow> 0 | Some i \<Rightarrow> of_nat i))"

end
