(* ===== verification/Xhci_Stream_Props.thy ===== *)
theory Xhci_Stream_Props
  imports Xhci_Stream
begin

text \<open>
  What the stream arithmetic promises: a plan is always reached and fits the controller, the caller's
  cap and the endpoint; a layout keeps its array and rings apart, inside the buffer and inside pages;
  the address of any TRB of the rings finds its stream and no other address does.
\<close>

section \<open>Powers of two\<close>

lemma pow2_nat:
  assumes "0 < n" and "n AND (n - 1) = (0 :: nat)"
  shows "\<exists>k. n = 2 ^ k"
  using assms
proof (induction n rule: less_induct)
  case (less n)
  show ?case
  proof (cases "even n")
    case True
    then obtain m where m: "n = 2 * m" by blast
    then have "0 < m" using less.prems(1) by simp
    then have "n - 1 = 2 * (m - 1) + 1" using m by simp
    then have "n AND (n - 1) = 2 * (m AND (m - 1))" using m by (subst and_rec) simp
    then obtain k where "m = 2 ^ k" using less.IH [of m] less.prems \<open>0 < m\<close> m by auto
    then show ?thesis using m by (intro exI [of _ "Suc k"]) simp
  next
    case False
    then obtain m where m: "n = 2 * m + 1" using oddE by blast
    then have "n AND (n - 1) = 2 * (m AND m)" by (subst and_rec) simp
    then show ?thesis using less.prems m by (intro exI [of _ 0]) simp
  qed
qed

lemma pow2_word:
  assumes "xhciStreamIsPow2 v"
  shows "\<exists>k<32. unat v = 2 ^ k"
proof -
  have v: "v \<noteq> 0" "v AND (v - 1) = 0" using assms by (simp_all add: xhciStreamIsPow2_def)
  have "1 \<le> unat v" using v(1) by (simp add: unat_gt_0 Suc_le_eq)
  then have "unat (v - 1) = unat v - 1" by (subst unat_sub_no_wrap) simp_all
  then have "unat v AND (unat v - 1) = 0" using v(2) by (metis unsigned_and_eq unsigned_0)
  then obtain k where k: "unat v = 2 ^ k" using pow2_nat [of "unat v"] \<open>1 \<le> unat v\<close> by auto
  have "(2 :: nat) ^ k < 2 ^ 32" using unat_lt_2p32 [of v] k by simp
  then show ?thesis using k by (auto simp only: power_strict_increasing_iff one_less_numeral_iff semiring_norm)
qed

lemma pow2_is:
  assumes "k < 32"
  shows "xhciStreamIsPow2 (2 ^ k)"
proof -
  have "(2 :: ulong) ^ k - 1 = mask k" by (simp add: mask_eq_exp_minus_1)
  moreover have "(2 :: ulong) ^ k AND mask k = 0" by (rule bit_word_eqI) (simp add: bit_and_iff bit_mask_iff bit_exp_iff)
  moreover have "(2 :: ulong) ^ k \<noteq> 0" using assms by simp
  ultimately show ?thesis unfolding xhciStreamIsPow2_def by simp
qed

lemma unat_pow2:
  assumes "k < 32"
  shows "unat (2 ^ k :: ulong) = 2 ^ k"
proof -
  have "(2 :: nat) ^ k < 2 ^ 32" using assms by (intro power_strict_increasing) simp_all
  then have "unat (of_nat (2 ^ k) :: ulong) = 2 ^ k" by (intro unat_of_nat_ulong) simp
  then show ?thesis by simp
qed

lemma unat_plus_1: "unat (w :: ulong) < 4294967295 \<Longrightarrow> unat (w + 1) = unat w + 1"
  using unat_add_no_wrap [of w 1] by simp

section \<open>The plan\<close>

lemma entries_loop_returns:
  assumes "k \<le> 31" and "unat want < 2 ^ 31" 
  shows "\<exists>m. k \<le> m \<and> m \<le> 31 \<and> entries_loop want (2 ^ k) = Some (2 ^ m) \<and> unat want < 2 ^ m \<and>
    (k < m \<longrightarrow> 2 ^ (m - 1) \<le> unat want)"
  using assms(1)
proof (induction "31 - k" arbitrary: k)
  case 0
  then have k: "k = 31" by simp
  have "unat (want + 1) = unat want + 1" by (rule unat_plus_1) (use assms(2) in simp)
  then have "\<not> (2 ^ 31 :: ulong) < want + 1" using assms(2) by (simp add: word_less_nat_alt)
  then have "entries_loop want (2 ^ 31) = Some (2 ^ 31)" by (subst entries_loop.simps) simp
  then show ?case using assms(2) unfolding k by (intro exI [of _ 31]) simp
next
  case (Suc d)
  have "unat (want + 1) = unat want + 1" by (rule unat_plus_1) (use assms(2) in simp)
  moreover have "unat (2 ^ k :: ulong) = 2 ^ k" using Suc.prems by (intro unat_pow2) simp
  ultimately have c: "(2 ^ k :: ulong) < want + 1 \<longleftrightarrow> 2 ^ k \<le> unat want" by (simp add: word_less_nat_alt less_Suc_eq_le)
  show ?case
  proof (cases "2 ^ k \<le> unat want")
    case True
    have d: "push_bit 1 (2 ^ k :: ulong) = 2 ^ Suc k" by (simp add: push_bit_eq_mult)
    have "entries_loop want (2 ^ k) = entries_loop want (2 ^ Suc k)"
      using True c by (subst entries_loop.simps) (simp only: d if_True)
    moreover have "d = 31 - Suc k" "Suc k \<le> 31" using Suc.hyps(2) by simp_all
    from Suc.hyps(1) [OF this] obtain m where "Suc k \<le> m" "m \<le> 31" "entries_loop want (2 ^ Suc k) = Some (2 ^ m)" "unat want < 2 ^ m"
      "Suc k < m \<longrightarrow> 2 ^ (m - 1) \<le> unat want"
      by blast
    ultimately show ?thesis using True by (intro exI [of _ m]) (auto simp: le_Suc_eq dest: le_neq_implies_less)
  next
    case False
    then show ?thesis using c Suc.prems by (intro exI [of _ k], subst entries_loop.simps) simp
  qed
qed

lemma log2_pow: "m < 32 \<Longrightarrow> log2_loop (2 ^ m) n = n + of_nat m"
proof (induction m arbitrary: n)
  case 0
  then show ?case by (subst log2_loop.simps) simp
next
  case (Suc m)
  have "drop_bit 1 (2 ^ Suc m :: ulong) = 2 ^ m"
  proof -
    have "unat (drop_bit 1 (2 ^ Suc m :: ulong)) = 2 ^ Suc m div 2"
      using Suc.prems by (simp only: drop_bit_eq_div unat_div unat_pow2 power_one_right) simp
    then have "unat (drop_bit 1 (2 ^ Suc m :: ulong)) = unat (2 ^ m :: ulong)" using Suc.prems unat_pow2 [of m] by simp
    then show ?thesis by (simp only: unat_eq_iff)
  qed
  moreover have "1 < (2 ^ Suc m :: ulong)"
  proof -
    have "(1 :: nat) < 2 ^ Suc m" by (rule one_less_power) simp_all
    then show ?thesis using unat_pow2 [OF Suc.prems] by (simp only: word_less_nat_alt unsigned_1)
  qed
  ultimately show ?case using Suc by (subst log2_loop.simps) (simp add: add.assoc)
qed

lemma hc_entries:
  "XhciStreamHcEntries h = 0 \<or> (\<exists>k. 2 \<le> k \<and> k \<le> 16 \<and> XhciStreamHcEntries h = 2 ^ k)"
proof -
  let ?p = "XHCI_HCCPARAMS1_MAXPSA h"
  have le: "unat ?p \<le> 15"
    proof -
    have "XHCI_HCCPARAMS1_MAXPSA h = drop_bit 12 h AND mask 4" by (simp add: XHCI_HCCPARAMS1_MAXPSA_def mask_eq_exp_minus_1)
    then show ?thesis by (simp only: unat_and_mask) simp
  qed
  then have "unat (?p + 1) = unat ?p + 1" by (intro unat_plus_1) simp
  moreover have "?p \<noteq> 0 \<Longrightarrow> 1 \<le> unat ?p" by (simp add: unat_gt_0 Suc_le_eq)
  ultimately show ?thesis using le
    by (auto simp: XhciStreamHcEntries_def Let_def push_bit_eq_mult intro!: exI [of _ "Suc (unat ?p)"])
qed


text \<open>The number of streams a plan settles on.\<close>

lemma plan_ok:
  assumes r: "requested \<noteq> 0" and cap: "xhciStreamIsPow2 cap" "XHCI_STREAM_MIN_ENTRIES \<le> cap"
    and hc: "2 \<le> k" "k \<le> 16" and ex: "ex \<noteq> 0" "ex \<le> XHCI_STREAM_MAX_STREAMS_EXP"
  shows "\<exists>m w. XhciStreamPlan requested ex (2 ^ k) cap (Some p) =
      Some (XHCI_STREAM_OK, Some (p\<lparr>Entries := 2 ^ m, Streams := w, MaxPStreams := of_nat (m - 1)\<rparr>)) \<and>
    2 \<le> m \<and> m \<le> k \<and> 2 ^ m \<le> unat cap \<and> 1 \<le> unat w \<and> unat w < 2 ^ m \<and> (m = 2 \<or> 2 ^ (m - 1) \<le> unat w) \<and>
    unat w = min (unat requested) (min (2 ^ unat ex) (min (2 ^ k) (unat cap) - 1))"
proof -
  obtain c where c: "c < 32" "unat cap = 2 ^ c" using pow2_word [OF cap(1)] by blast
  have c2: "2 \<le> c"
  proof (rule ccontr)
    assume "\<not> 2 \<le> c"
    then have "(2 :: nat) ^ c \<le> 2 ^ 1" by (intro power_increasing) simp_all
    then show False using cap(2) c(2) by (simp add: word_le_nat_alt)
  qed
  define j where "j = min k c"
  have j: "2 \<le> j" "j \<le> 16" "j \<le> k" "j \<le> c" using hc c2 by (simp_all add: j_def)
  have hcn: "unat (2 ^ k :: ulong) = 2 ^ k" using hc by (intro unat_pow2) simp
  define limit where "limit = (if (2 ^ k :: ulong) < cap then 2 ^ k else cap)"
  have lim: "unat limit = 2 ^ j"
    using hcn c(2) power_strict_increasing_iff [of "2 :: nat" k c] by (auto simp: limit_def j_def word_less_nat_alt min_def)
  have mn: "min (2 ^ k) (unat cap) = (2 :: nat) ^ j" using c(2) by (simp add: j_def min_def)
  have four: "(4 :: nat) \<le> 2 ^ j" using power_increasing [of 2 j "2 :: nat"] j by simp
  have lim1: "unat (limit - 1) = 2 ^ j - 1"
    using lim four by (subst unat_sub_no_wrap) simp_all
  have exn: "unat ex \<le> 16" using ex(2) by (simp add: word_le_nat_alt)
  have pex: "unat (push_bit (unat ex) 1 :: ulong) = 2 ^ unat ex" using exn unat_pow2 [of "unat ex"] by (simp add: push_bit_eq_mult)
  define w1 where "w1 = (if requested > push_bit (unat ex) 1 then push_bit (unat ex) 1 else requested)"
  define w where "w = (if w1 > limit - 1 then limit - 1 else w1)"
  have w1: "unat w1 = min (unat requested) (2 ^ unat ex)" using pex by (simp add: w1_def word_less_nat_alt min_def)
  have w: "unat w = min (unat requested) (min (2 ^ unat ex) (2 ^ j - 1))"
    using lim1 w1 by (simp add: w_def word_less_nat_alt min_def)
  have pos: "1 \<le> unat w" using w r four by (simp add: unat_gt_0 Suc_le_eq)
  have wj: "unat w < 2 ^ j" using w four by simp
  moreover have "(2 :: nat) ^ j \<le> 2 ^ 16" using j by (intro power_increasing) simp_all
  ultimately have "unat w < 2 ^ 31" by simp
  then obtain m where m: "2 \<le> m" "m \<le> 31" "entries_loop w (2 ^ 2) = Some (2 ^ m)" "unat w < 2 ^ m"
    "2 < m \<longrightarrow> 2 ^ (m - 1) \<le> unat w"
    using entries_loop_returns [of 2 w] by auto
  have mj: "m \<le> j"
  proof (cases "2 < m")
    case True
    then have "(2 :: nat) ^ (m - 1) < 2 ^ j" using m(5) wj by (blast intro: le_less_trans)
    then have "m - 1 < j" by (rule power_less_imp_less_exp [rotated]) simp
    then show ?thesis by simp
  next
    case False
    then show ?thesis using j by simp
  qed
  have "xhciStreamLog2 (2 ^ m) - 1 = of_nat (m - 1)"
    using log2_pow [of m 0] m(1,2) by (simp add: xhciStreamLog2_def of_nat_diff)
  moreover have "XhciStreamPlan requested ex (2 ^ k) cap (Some p) =
      Some (XHCI_STREAM_OK, Some (p\<lparr>Entries := 2 ^ m, Streams := w, MaxPStreams := xhciStreamLog2 (2 ^ m) - 1\<rparr>))"
  proof -
    have c2: "\<not> (2 ^ k :: ulong) < XHCI_STREAM_MIN_ENTRIES"
    proof -
      have "(2 :: nat) ^ j \<le> 2 ^ k" using j(3) by (rule power_increasing) simp
      then have "4 \<le> unat (2 ^ k :: ulong)" using hcn four by linarith
      then show ?thesis by (simp only: word_less_nat_alt not_less) simp
    qed
    have el: "entries_loop w 4 = Some (2 ^ m)" using m(3) by simp
    have c1: "\<not> (requested = 0 \<or> \<not> xhciStreamIsPow2 cap \<or> cap < XHCI_STREAM_MIN_ENTRIES)" using r cap by (simp add: not_less)
    have c3: "\<not> ex > XHCI_STREAM_MAX_STREAMS_EXP" using ex by (simp add: not_less)
    show ?thesis
      unfolding XhciStreamPlan_def option.case Let_def limit_def [symmetric] w1_def [symmetric] w_def [symmetric]
      by (simp only: c1 c2 c3 ex(1) el if_False option.case)
  qed
  moreover have "2 ^ m \<le> unat cap" using mj j c(2) by simp
  ultimately show ?thesis using m mj j pos w mn by (intro exI [of _ m] exI [of _ w]) auto
qed


section \<open>The layout\<close>

lemma round_up_pow2: "(2 :: nat) ^ x + (if 2 ^ x mod 2 ^ y \<noteq> (0 :: nat) then 2 ^ y - 2 ^ x mod 2 ^ y else 0) = max (2 ^ x) (2 ^ y)"
proof (cases "y \<le> x")
  case True
  then have "(2 :: nat) ^ y dvd 2 ^ x" and "(2 :: nat) ^ y \<le> 2 ^ x" by (simp_all add: le_imp_power_dvd)
  then show ?thesis by (simp add: max_def mod_0_imp_dvd)
next
  case False
  then have "(2 :: nat) ^ x < 2 ^ y" by simp
  then show ?thesis by (simp add: max_def)
qed

lemma round_up_page:
  fixes n p :: nat
  assumes "0 < p"
  defines "m \<equiv> n + (if n mod p \<noteq> 0 then p - n mod p else 0)"
  shows "n \<le> m" "m < n + p" "p dvd m"
proof -
  show "n \<le> m" "m < n + p" using assms(1) by (simp_all add: m_def)
  have "n + (p - n mod p) = p * Suc (n div p)"
    using mod_less_divisor [OF assms(1), of n] mult_div_mod_eq [of p n] unfolding mult_Suc_right by linarith
  then show "p dvd m" by (auto simp: m_def)
qed

text \<open>A layout on natural numbers.\<close>

lemma layout_nat:
  assumes "XhciStreamLayoutPad entries streams ringTrbs pad (Some l0) = (XHCI_STREAM_OK, Some l)"
  obtains k t where "2 \<le> k" "k \<le> 5" "2 \<le> t" "t \<le> 8" "unat ringTrbs = 2 ^ t"
    "unat (ArrayBytes l) = 2 ^ (k + 4)" "unat (RingBytes l) = 2 ^ (t + 4)"
    "unat (RingBase l) = max (2 ^ (k + 4)) (2 ^ (t + 4))"
    "unat (RingBase l) + (unat streams + of_bool pad) * 2 ^ (t + 4) \<le> unat (TotalBytes l)"
    "4096 dvd unat (TotalBytes l)"
    "1 \<le> unat streams" "unat streams < 2 ^ k"
proof -
  let ?a = "entries * XHCI_STREAM_CONTEXT_BYTES" and ?r = "ringTrbs * XHCI_TRB_BYTES"
  define b where "b = (if ?a mod ?r \<noteq> 0 then ?a + (?r - ?a mod ?r) else ?a)"
  define u where "u = b + (streams + (if pad then 1 else 0)) * ?r"
  define z where "z = (if u mod XHCI_STREAM_PAGE_BYTES \<noteq> 0 then u + (XHCI_STREAM_PAGE_BYTES - u mod XHCI_STREAM_PAGE_BYTES) else u)"
  let ?bad = "\<not> xhciStreamIsPow2 entries \<or> entries < XHCI_STREAM_MIN_ENTRIES \<or> entries > XHCI_STREAM_MAX_ENTRIES \<or>
             streams = 0 \<or> streams \<ge> entries \<or> \<not> xhciStreamIsPow2 ringTrbs \<or> ringTrbs < 4 \<or>
             ringTrbs > XHCI_STREAM_PAGE_BYTES div XHCI_TRB_BYTES"
  have "(if ?bad then (XHCI_STREAM_BAD_PARAM, Some l0)
      else (XHCI_STREAM_OK, Some (l0\<lparr>ArrayBytes := ?a, RingBase := b, RingBytes := ?r, TotalBytes := z\<rparr>))) = (XHCI_STREAM_OK, Some l)"
    using assms unfolding XhciStreamLayoutPad_def Let_def option.case b_def [symmetric] u_def [symmetric] z_def [symmetric] .
  then have ok: "\<not> ?bad" and l: "l = l0\<lparr>ArrayBytes := ?a, RingBase := b, RingBytes := ?r, TotalBytes := z\<rparr>"
    by (simp_all only: stream_status.distinct prod.inject option.inject split: if_splits) simp_all
  obtain k where k: "k < 32" "unat entries = 2 ^ k" using pow2_word ok by blast
  obtain t where t: "t < 32" "unat ringTrbs = 2 ^ t" using pow2_word ok by blast
  have eb: "4 \<le> unat entries" "unat entries \<le> 32" "1 \<le> unat streams" "unat streams < unat entries"
    using ok by (simp_all add: word_less_nat_alt word_le_nat_alt unat_gt_0 Suc_le_eq not_less not_le)
  have tb: "4 \<le> unat ringTrbs" "unat ringTrbs \<le> 256"
    using ok by (simp_all add: word_less_nat_alt not_less unat_div)
  have k': "2 \<le> k" "k \<le> 5"
    using eb(1,2) k(2) power_le_imp_le_exp [of "2 :: nat" 2 k] power_le_imp_le_exp [of "2 :: nat" k 5] by simp_all
  have t': "2 \<le> t" "t \<le> 8"
    using tb t(2) power_le_imp_le_exp [of "2 :: nat" 2 t] power_le_imp_le_exp [of "2 :: nat" t 8] by simp_all
  have a: "unat ?a = 2 ^ (k + 4)" using eb(2) k(2) by (subst unat_mult_no_wrap) (simp_all add: power_add)
  have r: "unat ?r = 2 ^ (t + 4)" using tb(2) t(2) by (subst unat_mult_no_wrap) (simp_all add: power_add)
  have small: "(2 :: nat) ^ (k + 4) \<le> 512" "(2 :: nat) ^ (t + 4) \<le> 4096"
    using power_increasing [of "k + 4" 9 "2 :: nat"] power_increasing [of "t + 4" 12 "2 :: nat"] k' t' by simp_all
  have b: "unat b = max (2 ^ (k + 4)) (2 ^ (t + 4))"
  proof -
    have m: "unat (?a mod ?r) = 2 ^ (k + 4) mod 2 ^ (t + 4)" by (simp only: unat_mod a r)
    then have d: "unat (?r - ?a mod ?r) = 2 ^ (t + 4) - 2 ^ (k + 4) mod 2 ^ (t + 4)"
      using r mod_less_divisor [of "2 ^ (t + 4) :: nat"] by (subst unat_sub_no_wrap) (simp_all add: less_imp_le)
    have "unat (?a + (?r - ?a mod ?r)) = 2 ^ (k + 4) + (2 ^ (t + 4) - 2 ^ (k + 4) mod 2 ^ (t + 4))"
      using a d small by (subst unat_add_no_wrap) simp_all
    moreover have "?a mod ?r = 0 \<longleftrightarrow> (2 :: nat) ^ (k + 4) mod 2 ^ (t + 4) = 0" using m by (metis unat_eq_iff unsigned_0)
    ultimately show ?thesis unfolding round_up_pow2 [symmetric] b_def using a by auto
  qed
  have u: "unat u = unat b + (unat streams + of_bool pad) * 2 ^ (t + 4)"
  proof -
    have c: "unat (streams + (if pad then 1 else 0)) = unat streams + of_bool pad"
      using eb by (subst unat_add_no_wrap) simp_all
    have le: "(unat streams + of_bool pad) * 2 ^ (t + 4) \<le> 32 * 4096"
      using eb small by (intro mult_le_mono) simp_all
    have "unat ((streams + (if pad then 1 else 0)) * ?r) = (unat streams + of_bool pad) * 2 ^ (t + 4)"
      using c r le by (subst unat_mult_no_wrap) simp_all
    then show ?thesis using le b small unfolding u_def by (subst unat_add_no_wrap) simp_all
  qed
  have us: "unat u \<le> 200000"
  proof -
    have "(unat streams + of_bool pad) * 2 ^ (t + 4) \<le> 32 * 4096" using eb small by (intro mult_le_mono) simp_all
    then show ?thesis using u b small by simp
  qed
  have z: "unat z = unat u + (if unat u mod 4096 \<noteq> 0 then 4096 - unat u mod 4096 else 0)"
  proof -
    have m: "unat (u mod XHCI_STREAM_PAGE_BYTES) = unat u mod 4096" by (simp add: unat_mod)
    then have "unat (XHCI_STREAM_PAGE_BYTES - u mod XHCI_STREAM_PAGE_BYTES) = 4096 - unat u mod 4096"
      by (subst unat_sub_no_wrap) (simp_all add: less_imp_le)
    then have "unat (u + (XHCI_STREAM_PAGE_BYTES - u mod XHCI_STREAM_PAGE_BYTES)) = unat u + (4096 - unat u mod 4096)"
      using us by (subst unat_add_no_wrap) simp_all
    moreover have "u mod XHCI_STREAM_PAGE_BYTES = 0 \<longleftrightarrow> unat u mod 4096 = 0" using m by (metis unat_eq_iff unsigned_0)
    ultimately show ?thesis by (simp add: z_def)
  qed
  have "unat u \<le> unat z" "4096 dvd unat z" using round_up_page [of 4096 "unat u"] unfolding z by simp_all
  then show ?thesis
    using that [OF k' t' t(2), of] a r b u eb(3,4) k(2) by (simp add: l)
qed


section \<open>Finding a ring by address\<close>

lemma find_the_one:
  assumes "i \<in> set xs" and "P i" and "\<And>j. j \<in> set xs \<Longrightarrow> P j \<Longrightarrow> j = i"
  shows "find P xs = Some i"
proof (cases "find P xs")
  case None
  then show ?thesis using assms(1,2) by (simp add: find_None_iff)
next
  case (Some j)
  then have "j \<in> set xs \<and> P j" by (auto simp: find_Some_iff)
  then show ?thesis using Some assms(3) by simp
qed

lemma align_nat: "pa AND 0x0F = 0 \<longleftrightarrow> 16 dvd unat (pa :: ulong)"
proof -
  have "unat (pa AND 0x0F) = unat pa mod 16"
    using unat_and_mask [of pa 4] by (simp add: mask_eq_exp_minus_1)
  then show ?thesis by (metis dvd_eq_mod_eq_0 unat_eq_iff unsigned_0)
qed

lemma ring_offset_nat:
  assumes "1 \<le> i" and "unat b + n * r < 4294967296" and "i \<le> n" and "unat (RingBytes l) = r" and "RingBase l = b"
    and "n < 4294967296"
  shows "unat (XhciStreamRingOffset l (of_nat i)) = unat b + (i - 1) * r"
proof -
  have i: "unat (of_nat i - 1 :: ulong) = i - 1"
  proof -
    have "of_nat i - 1 = (of_nat (i - 1) :: ulong)" using assms(1) by (simp add: of_nat_diff)
    then show ?thesis using assms(3,6) unat_of_nat_ulong [of "i - 1"] by simp
  qed
  have "(i - 1) * r \<le> n * r" using assms(3) by (intro mult_le_mono1) simp
  then have le: "unat b + (i - 1) * r < 4294967296" using assms(2) by linarith
  then have "unat ((of_nat i - 1) * RingBytes l) = (i - 1) * r"
    using i assms(4) by (subst unat_mult_no_wrap) simp_all
  then show ?thesis unfolding XhciStreamRingOffset_def using le assms(5) by (subst unat_add_no_wrap) simp_all
qed

text \<open>
  C39: Every stream finds its own transfers. In an accepted layout the context array ends before the
  rings, the rings follow each other inside the buffer, which is whole pages, and each ring lies in one
  page. For rings placed by the layout in a page-aligned buffer the search by TRB address answers
  stream \<open>i\<close> exactly for the addresses of the TRBs of ring \<open>i\<close>, and no stream for any other address.
\<close>

theorem stream_rings_located:
  assumes layout: "XhciStreamLayoutPad entries streams ringTrbs pad (Some l0) = (XHCI_STREAM_OK, Some l)"
    and room: "unat base + unat (TotalBytes l) \<le> 4294967296" and page: "4096 dvd unat base" and "base \<noteq> 0"
    and rings: "\<And>j. 1 \<le> j \<Longrightarrow> j \<le> unat streams \<Longrightarrow>
      \<exists>r. rs ! j = Some r \<and> BasePA r = base + XhciStreamRingOffset l (of_nat j) \<and> Trbs r = ringTrbs"
    and i: "1 \<le> i" "i \<le> unat streams"
  shows "(XhciStreamFind (Some rs) (streams + 1) pa = of_nat i \<longleftrightarrow>
      (\<exists>k<unat ringTrbs. unat pa = unat base + unat (RingBase l) + (i - 1) * unat (RingBytes l) + 16 * k)) \<and>
    unat (XhciStreamFind (Some rs) (streams + 1) pa) \<le> unat streams \<and>
    unat (ArrayBytes l) \<le> unat (RingBase l) \<and>
    unat (RingBase l) + unat streams * unat (RingBytes l) \<le> unat (TotalBytes l) \<and> 4096 dvd unat (TotalBytes l) \<and>
    unat (RingBytes l) = 16 * unat ringTrbs \<and>
    (let s = unat base + unat (RingBase l) + (i - 1) * unat (RingBytes l)
     in s div 4096 = (s + unat (RingBytes l) - 1) div 4096)"
proof -
  obtain k t where n: "2 \<le> k" "k \<le> 5" "2 \<le> t" "t \<le> 8" "unat ringTrbs = 2 ^ t"
    "unat (ArrayBytes l) = 2 ^ (k + 4)" "unat (RingBytes l) = 2 ^ (t + 4)"
    "unat (RingBase l) = max (2 ^ (k + 4)) (2 ^ (t + 4))"
    "unat (RingBase l) + (unat streams + of_bool pad) * 2 ^ (t + 4) \<le> unat (TotalBytes l)"
    "4096 dvd unat (TotalBytes l)" "1 \<le> unat streams" "unat streams < 2 ^ k"
    using layout_nat [OF layout] .
  define r where "r = (2 :: nat) ^ (t + 4)"
  define S where "S = unat streams"
  define B where "B = unat base + unat (RingBase l)"
  have rt: "r = 16 * unat ringTrbs" using n(5) by (simp add: r_def power_add)
  have total: "unat (RingBase l) + S * r \<le> unat (TotalBytes l)" using n(9) by (simp add: r_def S_def algebra_simps)
  have fits: "B + S * r \<le> 4294967296" using total room by (simp add: B_def)
  have Ssmall: "S < 64"
    using n(2,12) power_increasing [of k 5 "2 :: nat"] by (simp add: S_def)
  have off: "unat (base + XhciStreamRingOffset l (of_nat j)) = B + (j - 1) * r" if "1 \<le> j" "j \<le> S" for j
  proof -
    have "0 < unat base" using \<open>base \<noteq> 0\<close> by (simp add: unat_gt_0)
    then have lt: "unat (RingBase l) + S * r < 4294967296" using fits by (simp add: B_def)
    have o: "unat (XhciStreamRingOffset l (of_nat j)) = unat (RingBase l) + (j - 1) * r"
      by (rule ring_offset_nat [where n = S and r = r]) (use that n(7) Ssmall lt in \<open>simp_all add: r_def\<close>)
    have "(j - 1) * r + r = j * r" using that by (simp add: algebra_simps diff_mult_distrib) 
    moreover have "j * r \<le> S * r" using that by simp
    moreover have "0 < r" by (simp add: r_def)
    ultimately have "B + (j - 1) * r < 4294967296" using fits by linarith
    then show ?thesis using o by (subst unat_add_no_wrap) (simp_all add: B_def)
  qed
  have holds: "stream_holds rs pa j \<longleftrightarrow> B + (j - 1) * r \<le> unat pa \<and> unat pa < B + (j - 1) * r + r"
    if j: "1 \<le> j" "j \<le> S" for j pa
  proof -
    obtain q where q: "rs ! j = Some q" "BasePA q = base + XhciStreamRingOffset l (of_nat j)" "Trbs q = ringTrbs"
      using rings j by (auto simp: S_def)
    have len: "unat (ringTrbs * 16) = r" using rt n(4,5) power_increasing [of t 8 "2 :: nat"] by (subst unat_mult_no_wrap) simp_all
    have ne: "ringTrbs \<noteq> 0" using n(5) by auto
    have s: "unat (BasePA q) = B + (j - 1) * r" using off [OF j] q(2) by simp
    show ?thesis
    proof (cases "BasePA q \<le> pa")
      case True
      then have "unat (pa - BasePA q) = unat pa - unat (BasePA q)" by (intro unat_sub_no_wrap) (simp add: word_le_nat_alt)
      then show ?thesis using True s len ne q(1,3)
        by (simp add: stream_holds_def word_le_nat_alt word_less_nat_alt) linarith
    next
      case False
      then show ?thesis using s q(1) by (simp add: stream_holds_def word_le_nat_alt)
    qed
  qed
  have r0: "0 < r" by (simp add: r_def)
  have count: "unat (streams + 1) = S + 1"
    using unat_add_no_wrap [of streams 1] Ssmall by (simp add: S_def)
  have dvds: "16 dvd B" "r dvd B" "r dvd 4096" "16 dvd r"
  proof -
    have "(2 :: nat) ^ (t + 4) dvd 2 ^ 12" using n(4) by (intro le_imp_power_dvd) simp
    then show r4: "r dvd 4096" by (simp add: r_def)
    have "(2 :: nat) ^ 4 dvd 2 ^ (t + 4)" by (intro le_imp_power_dvd) simp
    then show r16: "16 dvd r" by (simp add: r_def)
    have "r dvd unat (RingBase l)"
      unfolding n(8) r_def by (cases "k \<le> t") (simp_all add: max_def le_imp_power_dvd)
    then show "r dvd B" using dvd_trans [OF r4 page] by (simp add: B_def)
    then show "16 dvd B" using r16 dvd_trans by blast
  qed
  let ?f = "find (stream_holds rs pa) [1..<S + 1]"
  have unique: "j = (unat pa - B) div r + 1" if "1 \<le> j" "j \<le> S" "stream_holds rs pa j" for j
  proof -
    have "B + (j - 1) * r \<le> unat pa" "unat pa < B + (j - 1) * r + r" using holds that by simp_all
    then have "(unat pa - B) div r = j - 1" by (intro div_nat_eqI) (simp_all add: algebra_simps)
    then show ?thesis using that by simp
  qed
  have found: "?f = Some i \<longleftrightarrow> stream_holds rs pa i"
  proof
    assume "?f = Some i"
    then show "stream_holds rs pa i" by (auto simp: find_Some_iff simp del: upt_Suc)
  next
    assume h: "stream_holds rs pa i"
    show "?f = Some i"
    proof (rule find_the_one)
      show "i \<in> set [1..<S + 1]" using i by (simp add: S_def del: upt_Suc)
      show "stream_holds rs pa i" by (rule h)
    next
      fix j assume "j \<in> set [1..<S + 1]" and hj: "stream_holds rs pa j"
      then have "1 \<le> j" "j \<le> S" by (simp_all del: upt_Suc)
      then show "j = i" using unique [OF _ _ hj] unique [OF i(1) _ h] i(2) by (simp add: S_def)
    qed
  qed
  have f_range: "?f = None \<or> (\<exists>j. ?f = Some j \<and> 1 \<le> j \<and> j \<le> S)"
    by (cases ?f) (auto simp: find_Some_iff simp del: upt_Suc)
  have small: "unat (of_nat j :: ulong) = j" if "j \<le> S" for j using that Ssmall by (intro unat_of_nat_ulong) simp
  have iS: "i \<le> S" using i(2) by (simp add: S_def)
  let ?s = "B + (i - 1) * r"
  have s16: "16 dvd ?s" using dvds by simp
  have "0 < unat base" using \<open>base \<noteq> 0\<close> by (simp add: unat_gt_0)
  then have spos: "0 < ?s" by (simp add: B_def)
  have trbs: "(\<exists>k<unat ringTrbs. unat pa = ?s + 16 * k) \<longleftrightarrow> 16 dvd unat pa \<and> ?s \<le> unat pa \<and> unat pa < ?s + r"
  proof
    assume h: "16 dvd unat pa \<and> ?s \<le> unat pa \<and> unat pa < ?s + r"
    then have "16 dvd unat pa - ?s" using s16 by (intro dvd_diff_nat) simp_all
    then obtain k where "unat pa - ?s = 16 * k" by (elim dvdE)
    then show "\<exists>k<unat ringTrbs. unat pa = ?s + 16 * k" using rt h by (intro exI [of _ k]) linarith
  next
    assume "\<exists>k<unat ringTrbs. unat pa = ?s + 16 * k"
    then show "16 dvd unat pa \<and> ?s \<le> unat pa \<and> unat pa < ?s + r" using s16 rt by auto
  qed
  have answer: "XhciStreamFind (Some rs) (streams + 1) pa =
      (if 16 dvd unat pa \<and> pa \<noteq> 0 then (case ?f of None \<Rightarrow> 0 | Some j \<Rightarrow> of_nat j) else 0)"
    using align_nat [of pa] unfolding XhciStreamFind_def option.case count by simp
  have "XhciStreamFind (Some rs) (streams + 1) pa = of_nat i \<longleftrightarrow> (\<exists>k<unat ringTrbs. unat pa = ?s + 16 * k)"
  proof (cases "16 dvd unat pa \<and> pa \<noteq> 0")
    case True
    have "(case ?f of None \<Rightarrow> 0 | Some j \<Rightarrow> of_nat j) = (of_nat i :: ulong) \<longleftrightarrow> ?f = Some i"
      using f_range small iS i(1) by (metis not_one_le_zero option.simps(4,5) unsigned_0)
    then show ?thesis unfolding answer trbs using True found holds [OF i(1) iS, of pa] by simp
  next
    case False
    then have "\<not> (16 dvd unat pa \<and> ?s \<le> unat pa)" using spos by auto
    moreover have "(0 :: ulong) \<noteq> of_nat i" using small [OF iS] i(1) by (metis not_one_le_zero unsigned_0)
    ultimately show ?thesis unfolding answer trbs using False by (simp only: if_False) blast
  qed
  moreover have "unat (XhciStreamFind (Some rs) (streams + 1) pa) \<le> S"
    unfolding answer using f_range small by auto
  moreover have "?s div 4096 = (?s + r - 1) div 4096"
  proof -
    obtain c where c: "4096 = r * c" using dvds(3) by (elim dvdE)
    have "r dvd ?s" using dvds(2) by simp
    then obtain q where q: "?s = r * q" by (elim dvdE)
    have "(r * q + r - 1) div r = q" using r0 by (intro div_nat_eqI) (simp_all add: algebra_simps)
    then show ?thesis using r0 unfolding c q by (simp add: div_mult2_eq)
  qed
  moreover have "unat (ArrayBytes l) \<le> unat (RingBase l)" using n(6,8) by simp
  ultimately show ?thesis
    using total n(10) rt n(7) unfolding Let_def B_def [symmetric] S_def [symmetric] r_def [symmetric] by simp
qed



theorem stream_rings_located_witness:
  "\<exists>l. XhciStreamLayout 8 5 64 (Some \<lparr>ArrayBytes = 0, RingBase = 0, RingBytes = 0, TotalBytes = 0\<rparr>) =
      (XHCI_STREAM_OK, Some l) \<and>
    (let ring = \<lambda>j. Some \<lparr>Base = [], BasePA = 0x10000 + XhciStreamRingOffset l (of_nat j), Trbs = 64,
                 Enqueue = 0, Dequeue = 0, Cycle = 1, Kind = 1\<rparr>
     in XhciStreamFind (Some (None # map ring [1..<6])) 6 0x10C30 = 3)"
proof -
  let ?blank = "\<lparr>ArrayBytes = 0, RingBase = 0, RingBytes = 0, TotalBytes = 0\<rparr> :: xhci_stream_layout"
  let ?l = "\<lparr>ArrayBytes = 128, RingBase = 1024, RingBytes = 1024, TotalBytes = 8192\<rparr> :: xhci_stream_layout"
  let ?ring = "\<lambda>j. Some \<lparr>Base = [], BasePA = 0x10000 + XhciStreamRingOffset ?l (of_nat j), Trbs = 64,
                 Enqueue = 0, Dequeue = 0, Cycle = 1, Kind = 1\<rparr> :: xhci_ring option"
  let ?rs = "None # map ?ring [1..<6]"
  have lay: "XhciStreamLayoutPad 8 5 64 False (Some ?blank) = (XHCI_STREAM_OK, Some ?l)" by code_simp
  have rings: "\<exists>r. ?rs ! j = Some r \<and> BasePA r = 0x10000 + XhciStreamRingOffset ?l (of_nat j) \<and> Trbs r = 64"
    if "1 \<le> j" "j \<le> unat (5 :: ulong)" for j
    using that by (auto simp: nth_Cons' simp del: upt_Suc upt_rec_numeral)
  have "\<exists>k<unat (64 :: ulong). unat (0x10C30 :: ulong) =
      unat (0x10000 :: ulong) + unat (RingBase ?l) + (3 - 1) * unat (RingBytes ?l) + 16 * k"
    by (intro exI [of _ 3]) simp
  then have "XhciStreamFind (Some ?rs) (5 + 1) 0x10C30 = of_nat 3"
    using stream_rings_located [OF lay _ _ _ rings, of 3 "0x10C30"] by simp
  then have "XhciStreamFind (Some ?rs) 6 0x10C30 = 3" by simp
  moreover have "XhciStreamLayout 8 5 64 (Some ?blank) = (XHCI_STREAM_OK, Some ?l)" by code_simp
  ultimately show ?thesis unfolding Let_def by blast
qed

section \<open>The plan fits\<close>

text \<open>
  C40: A stream plan is always reached, and it fits. Planning returns for every input; it succeeds
  exactly for a request of at least one stream, a power of two of at least four as the cap, a
  controller with streams and an endpoint exponent of 1 to 16, and otherwise leaves the plan alone. The
  streams are the request cut to the endpoint, the controller and the cap; the entries are the least
  power of two from four that is larger, within controller and cap; the exponent programmed is the one
  of the entries; and both the buffer layout and the endpoint context accept the plan.
\<close>

theorem stream_plan_fits:
  "\<exists>st p'. XhciStreamPlan requested ex (XhciStreamHcEntries h) cap (Some p) = Some (st, Some p') \<and>
    (st = XHCI_STREAM_OK \<longleftrightarrow> requested \<noteq> 0 \<and> xhciStreamIsPow2 cap \<and> XHCI_STREAM_MIN_ENTRIES \<le> cap \<and>
       XhciStreamHcEntries h \<noteq> 0 \<and> ex \<noteq> 0 \<and> ex \<le> XHCI_STREAM_MAX_STREAMS_EXP) \<and>
    (st \<noteq> XHCI_STREAM_OK \<longrightarrow> p' = p) \<and>
    (st = XHCI_STREAM_OK \<longrightarrow>
       unat (Streams p') = min (unat requested) (min (2 ^ unat ex) (min (unat (XhciStreamHcEntries h)) (unat cap) - 1)) \<and>
       1 \<le> unat (Streams p') \<and> unat (Streams p') < unat (Entries p') \<and>
       unat (Entries p') = 2 ^ (unat (MaxPStreams p') + 1) \<and>
       unat (Entries p') \<le> min (unat (XhciStreamHcEntries h)) (unat cap) \<and>
       (unat (Entries p') = 4 \<or> unat (Entries p') \<le> 2 * unat (Streams p')) \<and>
       (cap \<le> XHCI_STREAM_MAX_ENTRIES \<and> xhciStreamIsPow2 t \<and> 4 \<le> t \<and> t \<le> 256 \<longrightarrow>
          fst (XhciStreamLayout (Entries p') (Streams p') t (Some l)) = XHCI_STREAM_OK) \<and>
       (arrayPA \<noteq> 0 \<and> arrayPA AND 0x0F = 0 \<longrightarrow>
          fst (XhciStreamEndpointContext (Some c) (MaxPStreams p') arrayPA) = XHCI_STREAM_OK))"
proof (cases "requested \<noteq> 0 \<and> xhciStreamIsPow2 cap \<and> XHCI_STREAM_MIN_ENTRIES \<le> cap \<and> XhciStreamHcEntries h \<noteq> 0 \<and>
    ex \<noteq> 0 \<and> ex \<le> XHCI_STREAM_MAX_STREAMS_EXP")
  case True
  obtain k where k: "2 \<le> k" "k \<le> 16" "XhciStreamHcEntries h = 2 ^ k" using hc_entries [of h] True by blast
  obtain m w where m: "XhciStreamPlan requested ex (2 ^ k) cap (Some p) =
      Some (XHCI_STREAM_OK, Some (p\<lparr>Entries := 2 ^ m, Streams := w, MaxPStreams := of_nat (m - 1)\<rparr>))"
    "2 \<le> m" "m \<le> k" "2 ^ m \<le> unat cap" "1 \<le> unat w" "unat w < 2 ^ m" "m = 2 \<or> 2 ^ (m - 1) \<le> unat w"
    "unat w = min (unat requested) (min (2 ^ unat ex) (min (2 ^ k) (unat cap) - 1))"
    using plan_ok [of requested cap k ex p] True k(1,2) by blast
  have e: "unat (2 ^ m :: ulong) = 2 ^ m" and hk: "unat (2 ^ k :: ulong) = 2 ^ k"
    using m(3) k(2) by (auto intro!: unat_pow2)
  have mp: "unat (of_nat (m - 1) :: ulong) = m - 1" using m(3) k(2) by (intro unat_of_nat_ulong) simp
  have two: "(2 :: nat) ^ m = 2 * 2 ^ (m - 1)" using m(2) by (cases m) simp_all
  have four: "(4 :: nat) \<le> 2 ^ m" using power_increasing [OF m(2), of "2 :: nat"] by simp
  have lay: "fst (XhciStreamLayout (2 ^ m) w t (Some l)) = XHCI_STREAM_OK"
    if t: "cap \<le> XHCI_STREAM_MAX_ENTRIES" "xhciStreamIsPow2 t" "4 \<le> t" "t \<le> 256"
  proof -
    have "unat cap \<le> 32" using t(1) by (simp add: word_le_nat_alt)
    then have "\<not> (2 ^ m :: ulong) < 4" "\<not> (32 :: ulong) < 2 ^ m" "\<not> 2 ^ m \<le> w" "w \<noteq> 0" "\<not> t < 4" "\<not> 256 < t"
      using e four m(4-6) t(3,4) by (auto simp: word_less_nat_alt word_le_nat_alt not_less not_le)
    then show ?thesis
      using pow2_is [of m] m(3) k(2) t(2) by (simp add: XhciStreamLayout_def XhciStreamLayoutPad_def Let_def)
  qed
  have "\<not> (of_nat (m - 1) :: ulong) < 1" "\<not> 15 < (of_nat (m - 1) :: ulong)"
    using mp m(2,3) k(2) by (simp_all add: word_less_nat_alt)
  then have ctx: "arrayPA \<noteq> 0 \<and> arrayPA AND 0x0F = 0 \<longrightarrow>
      fst (XhciStreamEndpointContext (Some c) (of_nat (m - 1)) arrayPA) = XHCI_STREAM_OK"
    unfolding XhciStreamEndpointContext_def option.case Let_def by auto
  have lay: "cap \<le> XHCI_STREAM_MAX_ENTRIES \<and> xhciStreamIsPow2 t \<and> 4 \<le> t \<and> t \<le> 256 \<longrightarrow>
      fst (XhciStreamLayout (2 ^ m) w t (Some l)) = XHCI_STREAM_OK" using lay by blast
  let ?q = "p\<lparr>Entries := 2 ^ m, Streams := w, MaxPStreams := of_nat (m - 1)\<rparr>"
  have q: "Streams ?q = w" "Entries ?q = 2 ^ m" "MaxPStreams ?q = of_nat (m - 1)" by simp_all
  have "(2 :: nat) ^ m \<le> 2 ^ k" using m(3) by simp
  then have le: "unat (2 ^ m :: ulong) \<le> min (unat (2 ^ k :: ulong)) (unat cap)" using m(4) by (simp only: e hk min.bounded_iff)
  have ent: "unat (2 ^ m :: ulong) = 2 ^ (unat (of_nat (m - 1) :: ulong) + 1)" using two by (simp only: e mp power_add power_one_right mult.commute)
  have half: "unat (2 ^ m :: ulong) = 4 \<or> unat (2 ^ m :: ulong) \<le> 2 * unat w" using m(7) two by (auto simp: e)
  have w: "unat w = min (unat requested) (min (2 ^ unat ex) (min (unat (2 ^ k :: ulong)) (unat cap) - 1))"
    using m(8) by (simp only: hk)
  have lt: "unat w < unat (2 ^ m :: ulong)" using m(6) by (simp only: e)
  show ?thesis
    unfolding k(3)
    by (rule exI [of _ XHCI_STREAM_OK], rule exI [of _ ?q], unfold q)
      (use True k(3) m(1,5) le ent half w lt lay ctx in \<open>simp only: simp_thms\<close>)
next
  case False
  have hc: "XhciStreamHcEntries h < XHCI_STREAM_MIN_ENTRIES \<longleftrightarrow> XhciStreamHcEntries h = 0"
  proof -
    have "\<not> (2 ^ k :: ulong) < 4" if "2 \<le> k" "k \<le> 16" for k
      using power_increasing [OF that(1), of "2 :: nat"] unat_pow2 [of k] that(2) by (simp add: word_less_nat_alt)
    then show ?thesis using hc_entries [of h] by auto
  qed
  have "\<exists>st. st \<noteq> XHCI_STREAM_OK \<and> XhciStreamPlan requested ex (XhciStreamHcEntries h) cap (Some p) = Some (st, Some p)"
  proof (cases "requested = 0 \<or> \<not> xhciStreamIsPow2 cap \<or> cap < XHCI_STREAM_MIN_ENTRIES")
    case True
    show ?thesis
      by (intro exI [of _ XHCI_STREAM_BAD_PARAM] conjI, simp)
        (simp only: XhciStreamPlan_def option.case True if_True)
  next
    case ok: False
    show ?thesis
    proof (cases "XhciStreamHcEntries h = 0")
      case True
      then have "XhciStreamHcEntries h < XHCI_STREAM_MIN_ENTRIES" by simp
      then show ?thesis
        by (intro exI [of _ XHCI_STREAM_HC_NONE] conjI, simp)
          (simp only: XhciStreamPlan_def option.case ok if_True if_False simp_thms)
    next
      case nz: False
      show ?thesis
      proof (cases "ex = 0")
        case True
        show ?thesis
          by (intro exI [of _ XHCI_STREAM_EP_NONE] conjI, simp)
            (simp only: XhciStreamPlan_def option.case ok hc nz True if_True if_False simp_thms)
      next
        case ez: False
        have "requested \<noteq> 0 \<and> xhciStreamIsPow2 cap \<and> XHCI_STREAM_MIN_ENTRIES \<le> cap" using ok by (simp add: not_less)
        then have "\<not> ex \<le> XHCI_STREAM_MAX_STREAMS_EXP" using False ez nz by blast
        then have big: "ex > XHCI_STREAM_MAX_STREAMS_EXP" by (rule not_le [THEN iffD1])
        show ?thesis
          by (intro exI [of _ XHCI_STREAM_MALFORMED] conjI, simp)
            (simp only: XhciStreamPlan_def option.case ok hc nz ez big if_True if_False simp_thms)
      qed
    qed
  qed
  then obtain st where st: "st \<noteq> XHCI_STREAM_OK"
    "XhciStreamPlan requested ex (XhciStreamHcEntries h) cap (Some p) = Some (st, Some p)" by blast
  show ?thesis
    by (rule exI [of _ st], rule exI [of _ p]) (use st False in \<open>simp only: simp_thms\<close>)
qed

theorem stream_plan_fits_witness:
  "\<exists>p'. XhciStreamPlan 31 4 (XhciStreamHcEntries 0x0000F000) 32 (Some \<lparr>Entries = 0, Streams = 0, MaxPStreams = 0\<rparr>) =
      Some (XHCI_STREAM_OK, Some p') \<and> unat (Streams p') = 16 \<and>
    fst (XhciStreamLayout (Entries p') (Streams p') 64
      (Some \<lparr>ArrayBytes = 0, RingBase = 0, RingBytes = 0, TotalBytes = 0\<rparr>)) = XHCI_STREAM_OK"
proof -
  have h: "XhciStreamHcEntries 0x0000F000 = 0x10000" by code_simp
  have "xhciStreamIsPow2 32" "xhciStreamIsPow2 64" by code_simp+
  then show ?thesis
    using stream_plan_fits [of 31 4 "0x0000F000" 32 "\<lparr>Entries = 0, Streams = 0, MaxPStreams = 0\<rparr>" 64
        "\<lparr>ArrayBytes = 0, RingBase = 0, RingBytes = 0, TotalBytes = 0\<rparr>" 0 "[]"] h by auto
qed

end
