(* ===== verification/Xhci_Walk.thy ===== *)
theory Xhci_Walk
  imports Xhci_Prelude
begin

text \<open>
  The walk the descriptor parsers share: from one descriptor to the next by its length byte, up to a
  total, with a step at each and no step past the end. Each parser is this walk with its own step; the
  lemmas here are its termination, its invariants and the cut of the bytes it makes.
\<close>

section \<open>The walk\<close>

text \<open>A step stays inside the bytes and moves forward.\<close>

lemma descriptor_step:
  fixes at len limit :: ulong
  assumes "at < limit" and "len \<noteq> 0" and "\<not> limit - at < len"
  shows "unat (at + len) = unat at + unat len" "unat at + unat len \<le> unat limit" "0 < unat len"
proof -
  have "unat (limit - at) = unat limit - unat at" using assms(1) by (intro unat_sub_no_wrap) (simp add: word_less_nat_alt)
  then have le: "unat len \<le> unat limit - unat at" using assms(3) by (simp add: word_less_nat_alt)
  then show b: "unat at + unat len \<le> unat limit" using assms(1) by (simp add: word_less_nat_alt)
  moreover have "unat limit < 4294967296" by simp
  ultimately have "unat at + unat len < 4294967296" by linarith
  then show "unat (at + len) = unat at + unat len" by (intro unat_add_no_wrap) simp
  show "0 < unat len" using assms(2) by (simp add: unat_gt_0)
qed

lemma descriptor_measure:
  fixes at len limit :: ulong
  assumes "at < limit" and "len \<noteq> 0" and "\<not> limit - at < len"
  shows "unat limit - unat (at + len) < unat limit - unat at"
  using descriptor_step [OF assms] assms(1) by (simp add: word_less_nat_alt)

text \<open>
  \<open>least\<close> is the number of bytes a descriptor has at least, 2 or 3 (the length of 0 it excludes is
  named for the termination only). \<open>step\<close> gets the offset, the length and the state, and may refuse.
\<close>

function descriptor_walk ::
    "ulong \<Rightarrow> (ulong \<Rightarrow> ulong \<Rightarrow> 's \<Rightarrow> 's option) \<Rightarrow> uchar list \<Rightarrow> ulong \<Rightarrow> ulong \<Rightarrow> 's \<Rightarrow> 's option" where
  "descriptor_walk least step data limit offset s =
     (if offset < limit then
        if limit - offset < least then None
        else
          let len = ucast (data ! unat offset) in
          if len < least \<or> len = 0 \<or> len > limit - offset then None
          else (case step offset len s of
                  None \<Rightarrow> None
                | Some s' \<Rightarrow> descriptor_walk least step data limit (offset + len) s')
      else Some s)"
  by pat_completeness auto

termination
  by (relation "measure (\<lambda>(least, step, data, limit, offset, s). unat limit - unat offset)")
    (auto intro!: descriptor_measure)

declare descriptor_walk.simps [simp del]

lemma descriptor_walk_done: "\<not> offset < limit \<Longrightarrow> descriptor_walk least step data limit offset s = Some s"
  by (subst descriptor_walk.simps) simp

text \<open>A walk that ends is over exactly at the limit, and what every step keeps holds there.\<close>

lemma descriptor_walk_keeps:
  assumes "descriptor_walk least step data limit offset s = Some s'" and "I offset s" and "offset \<le> limit"
    and step: "\<And>at len t t'. at < limit \<Longrightarrow> len = ucast (data ! unat at) \<Longrightarrow> \<not> len < least \<Longrightarrow> len \<noteq> 0 \<Longrightarrow>
      unat at + unat len \<le> unat limit \<Longrightarrow> unat (at + len) = unat at + unat len \<Longrightarrow>
      I at t \<Longrightarrow> step at len t = Some t' \<Longrightarrow> I (at + len) t'"
  shows "I limit s'"
  using assms(1-3)
proof (induction "unat limit - unat offset" arbitrary: offset s rule: less_induct)
  case less
  show ?case
  proof (cases "offset < limit")
    case True
    let ?len = "ucast (data ! unat offset) :: ulong"
    obtain t where t: "\<not> ?len < least" "?len \<noteq> 0" "\<not> limit - offset < ?len" "step offset ?len s = Some t"
      "descriptor_walk least step data limit (offset + ?len) t = Some s'"
      using less.prems(1) True
      by (subst (asm) descriptor_walk.simps) (auto simp: Let_def split: if_splits option.splits)
    note on = descriptor_step [OF True t(2,3)]
    have "I (offset + ?len) t" using step [OF True refl t(1,2)] on(1,2) less.prems(2) t(4) by simp
    moreover have "offset + ?len \<le> limit" using on by (simp add: word_le_nat_alt)
    ultimately show ?thesis using less.hyps [OF _ t(5)] descriptor_measure [OF True t(2,3)] by blast
  next
    case False
    then have "offset = limit" using less.prems(3) by simp
    then show ?thesis using less.prems(1,2) False by (subst (asm) descriptor_walk.simps) simp
  qed
qed

text \<open>The bytes a walk accepts are cut cleanly into descriptors by their own length bytes.\<close>

definition cut_at :: "nat \<Rightarrow> uchar list \<Rightarrow> bool" where
  "cut_at least d \<longleftrightarrow> d \<noteq> [] \<and> unat (d ! 0) = length d \<and> least \<le> length d"

lemma descriptor_walk_cuts:
  assumes "descriptor_walk least step data limit offset s = Some s'" and "offset \<le> limit" and "unat limit \<le> length data"
  shows "\<exists>ds. list_all (cut_at (unat least)) ds \<and> concat ds = drop (unat offset) (take (unat limit) data)"
  using assms(1,2)
proof (induction "unat limit - unat offset" arbitrary: offset s rule: less_induct)
  case less
  show ?case
  proof (cases "offset < limit")
    case True
    let ?len = "ucast (data ! unat offset) :: ulong"
    obtain t where t: "\<not> ?len < least" "?len \<noteq> 0" "\<not> limit - offset < ?len" "step offset ?len s = Some t"
      "descriptor_walk least step data limit (offset + ?len) t = Some s'"
      using less.prems(1) True
      by (subst (asm) descriptor_walk.simps) (auto simp: Let_def split: if_splits option.splits)
    note on = descriptor_step [OF True t(2,3)]
    have "offset + ?len \<le> limit" using on by (simp add: word_le_nat_alt)
    then obtain ds where ds: "list_all (cut_at (unat least)) ds"
      "concat ds = drop (unat (offset + ?len)) (take (unat limit) data)"
      using less.hyps [OF _ t(5)] descriptor_measure [OF True t(2,3)] by blast
    let ?xs = "drop (unat offset) (take (unat limit) data)" and ?n = "unat (data ! unat offset)"
    have n: "unat ?len = ?n" by (rule unat_ucast_byte)
    have d: "drop ?n ?xs = drop (unat (offset + ?len)) (take (unat limit) data)" using on(1) n by (simp add: add.commute)
    have "length (take ?n ?xs) = ?n" using on(2) n assms(3) by simp
    moreover have "?xs ! 0 = data ! unat offset" using True assms(3) by (simp add: word_less_nat_alt)
    ultimately have "cut_at (unat least) (take ?n ?xs)"
      using t(1) on(3) n by (simp add: cut_at_def word_less_nat_alt not_less)
    moreover have "concat (take ?n ?xs # ds) = ?xs" using ds(2) d by (metis append_take_drop_id concat.simps(2))
    ultimately show ?thesis using ds(1) by (intro exI [of _ "take ?n ?xs # ds"]) simp
  next
    case False
    then have "unat limit \<le> unat offset" by (simp add: word_less_nat_alt not_less)
    then show ?thesis by (intro exI [of _ "[]"]) simp
  qed
qed

end
