(* ===== verification/Xhci_Pipe_Desc.thy ===== *)
theory Xhci_Pipe_Desc
  imports Xhci_Walk
begin

unbundle bit_operations_syntax

text \<open>
  The descriptor half of \<^verbatim>\<open>src/src/xhci_pipe.c\<close>: finding an interface setting in a configuration,
  the parameters of an endpoint at every speed, the caller's and the recorded intervals, the raised
  polling rates, the isochronous ring sizes and the BOS descriptor. Buffers are byte lists with the
  length the code is given beside them; outputs are result components, \<open>None\<close> when not written.
\<close>

datatype pipe_status =
    XHCI_PIPE_OK
  | XHCI_PIPE_BAD_PARAM
  | XHCI_PIPE_MALFORMED
  | XHCI_PIPE_NOT_FOUND
  | XHCI_PIPE_UNSUPPORTED
  | XHCI_PIPE_REFUSED
  | XHCI_PIPE_ESIT_REFUSED

abbreviation (input) XHCI_PIPE_SPEED_FULL :: ulong where "XHCI_PIPE_SPEED_FULL \<equiv> 1"
abbreviation (input) XHCI_PIPE_SPEED_LOW :: ulong where "XHCI_PIPE_SPEED_LOW \<equiv> 2"
abbreviation (input) XHCI_PIPE_SPEED_HIGH :: ulong where "XHCI_PIPE_SPEED_HIGH \<equiv> 3"
abbreviation (input) XHCI_PIPE_SPEED_SUPER :: ulong where "XHCI_PIPE_SPEED_SUPER \<equiv> 4"
abbreviation (input) XHCI_PIPE_SPEED_SUPER_PLUS :: ulong where "XHCI_PIPE_SPEED_SUPER_PLUS \<equiv> 5"
abbreviation (input) XHCI_PIPE_DT_CONFIGURATION :: ulong where "XHCI_PIPE_DT_CONFIGURATION \<equiv> 2"
abbreviation (input) XHCI_PIPE_DT_INTERFACE :: ulong where "XHCI_PIPE_DT_INTERFACE \<equiv> 4"
abbreviation (input) XHCI_PIPE_DT_ENDPOINT :: ulong where "XHCI_PIPE_DT_ENDPOINT \<equiv> 5"
abbreviation (input) XHCI_PIPE_CONFIG_BYTES :: ulong where "XHCI_PIPE_CONFIG_BYTES \<equiv> 9"
abbreviation (input) XHCI_PIPE_INTERFACE_BYTES :: ulong where "XHCI_PIPE_INTERFACE_BYTES \<equiv> 9"
abbreviation (input) XHCI_PIPE_ENDPOINT_BYTES :: ulong where "XHCI_PIPE_ENDPOINT_BYTES \<equiv> 7"
abbreviation (input) XHCI_PIPE_DT_BOS :: ulong where "XHCI_PIPE_DT_BOS \<equiv> 0x0F"
abbreviation (input) XHCI_PIPE_DT_DEVICE_CAP :: ulong where "XHCI_PIPE_DT_DEVICE_CAP \<equiv> 0x10"
abbreviation (input) XHCI_PIPE_DT_SS_COMPANION :: ulong where "XHCI_PIPE_DT_SS_COMPANION \<equiv> 0x30"
abbreviation (input) XHCI_PIPE_DT_SSP_ISO_COMPANION :: ulong where "XHCI_PIPE_DT_SSP_ISO_COMPANION \<equiv> 0x31"
abbreviation (input) XHCI_PIPE_BOS_BYTES :: ulong where "XHCI_PIPE_BOS_BYTES \<equiv> 5"
abbreviation (input) XHCI_PIPE_SS_COMPANION_BYTES :: ulong where "XHCI_PIPE_SS_COMPANION_BYTES \<equiv> 6"
abbreviation (input) XHCI_PIPE_SSP_ISO_COMPANION_BYTES :: ulong where "XHCI_PIPE_SSP_ISO_COMPANION_BYTES \<equiv> 8"
abbreviation (input) XHCI_PIPE_XFER_CONTROL :: ulong where "XHCI_PIPE_XFER_CONTROL \<equiv> 0"
abbreviation (input) XHCI_PIPE_XFER_ISOCH :: ulong where "XHCI_PIPE_XFER_ISOCH \<equiv> 1"
abbreviation (input) XHCI_PIPE_XFER_BULK :: ulong where "XHCI_PIPE_XFER_BULK \<equiv> 2"
abbreviation (input) XHCI_PIPE_XFER_INTERRUPT :: ulong where "XHCI_PIPE_XFER_INTERRUPT \<equiv> 3"
abbreviation (input) XHCI_PIPE_EPT_ISOCH_OUT :: ulong where "XHCI_PIPE_EPT_ISOCH_OUT \<equiv> 1"
abbreviation (input) XHCI_PIPE_EPT_BULK_OUT :: ulong where "XHCI_PIPE_EPT_BULK_OUT \<equiv> 2"
abbreviation (input) XHCI_PIPE_EPT_INTERRUPT_OUT :: ulong where "XHCI_PIPE_EPT_INTERRUPT_OUT \<equiv> 3"
abbreviation (input) XHCI_PIPE_EPT_ISOCH_IN :: ulong where "XHCI_PIPE_EPT_ISOCH_IN \<equiv> 5"
abbreviation (input) XHCI_PIPE_EPT_BULK_IN :: ulong where "XHCI_PIPE_EPT_BULK_IN \<equiv> 6"
abbreviation (input) XHCI_PIPE_EPT_INTERRUPT_IN :: ulong where "XHCI_PIPE_EPT_INTERRUPT_IN \<equiv> 7"
abbreviation (input) XHCI_PIPE_MAX_DCI :: ulong where "XHCI_PIPE_MAX_DCI \<equiv> 31"
abbreviation (input) XHCI_PIPE_MAX_ENDPOINTS :: ulong where "XHCI_PIPE_MAX_ENDPOINTS \<equiv> 30"
abbreviation (input) XHCI_PIPE_PAGE_SIZE :: ulong where "XHCI_PIPE_PAGE_SIZE \<equiv> 4096"
abbreviation (input) XHCI_PIPE_AVG_TRB_INTERRUPT :: ulong where "XHCI_PIPE_AVG_TRB_INTERRUPT \<equiv> 1024"
abbreviation (input) XHCI_PIPE_AVG_TRB_BULK :: ulong where "XHCI_PIPE_AVG_TRB_BULK \<equiv> 3072"
abbreviation (input) XHCI_PIPE_AVG_TRB_ISOCH :: ulong where "XHCI_PIPE_AVG_TRB_ISOCH \<equiv> 3072"
abbreviation (input) XHCI_PIPE_CERR :: ulong where "XHCI_PIPE_CERR \<equiv> 3"
abbreviation (input) XHCI_PIPE_MAX_PACKET :: ulong where "XHCI_PIPE_MAX_PACKET \<equiv> 1024"
abbreviation (input) XHCI_PIPE_MAX_ESIT_LEC :: ulong where "XHCI_PIPE_MAX_ESIT_LEC \<equiv> 0x00FFFFFF"
abbreviation (input) XHCI_PIPE_ISO_MAX_PAYLOAD :: ulong where "XHCI_PIPE_ISO_MAX_PAYLOAD \<equiv> XHCI_PIPE_PAGE_SIZE"
abbreviation (input) XHCI_PIPE_ISO_MAX_BURSTS :: ulong where "XHCI_PIPE_ISO_MAX_BURSTS \<equiv> 4"

section \<open>Bytes and addresses\<close>

definition XhciPipeDci :: "ulong \<Rightarrow> ulong" where
  "XhciPipeDci endpointAddress =
     (let number = endpointAddress AND 0x0F in
      if number = 0 then 0 else number * 2 + (if endpointAddress AND 0x80 \<noteq> 0 then 1 else 0))"

definition xhciPipeWord :: "uchar list \<Rightarrow> nat \<Rightarrow> ulong" where
  "xhciPipeWord p i = ucast (p ! i) OR push_bit 8 (ucast (p ! (i + 1)))"

definition xhciPipeDword :: "uchar list \<Rightarrow> nat \<Rightarrow> ulong" where
  "xhciPipeDword p i =
     ucast (p ! i) OR push_bit 8 (ucast (p ! (i + 1))) OR push_bit 16 (ucast (p ! (i + 2))) OR
     push_bit 24 (ucast (p ! (i + 3)))"

definition XHCI_PIPE_DCI_BIT :: "ulong \<Rightarrow> ulong" where
  "XHCI_PIPE_DCI_BIT dci = push_bit (unat (dci AND 0x1F)) 1"

section \<open>An interface setting\<close>

record xhci_pipe_iface =
  PiOffset :: ulong
  PiNumber :: ulong
  PiAlternate :: ulong
  PiClass :: ulong
  PiSubClass :: ulong
  PiProtocol :: ulong
  PiEndpointCount :: ulong
  PiEndpointOffset :: "ulong list"
  PiSurplus :: ulong

text \<open>
  The locals of the walk. \<open>PiEndpointOffset\<close> holds the entries of the array that are written, so a
  write at \<open>EndpointCount\<close> is an append.
\<close>

record iface_locals =
  LoFound :: xhci_pipe_iface
  LoDeclared :: ulong
  LoSeen :: ulong
  LoInTarget :: bool
  LoMatched :: bool

definition iface_start :: iface_locals where
  "iface_start = \<lparr>LoFound = \<lparr>PiOffset = 0, PiNumber = 0, PiAlternate = 0, PiClass = 0, PiSubClass = 0, PiProtocol = 0,
     PiEndpointCount = 0, PiEndpointOffset = [], PiSurplus = 0\<rparr>,
     LoDeclared = 0, LoSeen = 0, LoInTarget = False, LoMatched = False\<rparr>"

definition iface_step :: "uchar list \<Rightarrow> ulong \<Rightarrow> ulong \<Rightarrow> ulong \<Rightarrow> ulong \<Rightarrow> iface_locals \<Rightarrow> iface_locals option" where
  "iface_step config interfaceNumber alternate offset bLength w =
     (let bType = ucast (config ! unat (offset + 1)) in
      if bType = XHCI_PIPE_DT_INTERFACE then
        if bLength < XHCI_PIPE_INTERFACE_BYTES then None
        else
          let w = w\<lparr>LoInTarget := False\<rparr> in
          if \<not> LoMatched w \<and> ucast (config ! unat (offset + 2)) = interfaceNumber \<and>
             ucast (config ! unat (offset + 3)) = alternate
          then
            let declared = ucast (config ! unat (offset + 4)) in
            if declared > XHCI_PIPE_MAX_ENDPOINTS then None
            else
              Some (w\<lparr>LoMatched := True, LoInTarget := True, LoDeclared := declared,
                LoFound := (LoFound w)\<lparr>PiOffset := offset, PiNumber := interfaceNumber, PiAlternate := alternate,
                  PiClass := ucast (config ! unat (offset + 5)), PiSubClass := ucast (config ! unat (offset + 6)),
                  PiProtocol := ucast (config ! unat (offset + 7))\<rparr>\<rparr>)
          else Some w
      else if bType = XHCI_PIPE_DT_ENDPOINT then
        if bLength < XHCI_PIPE_ENDPOINT_BYTES then None
        else
          let found = LoFound w in
          if LoInTarget w \<and> PiEndpointCount found \<ge> LoDeclared w
          then Some (w\<lparr>LoFound := found\<lparr>PiSurplus := PiSurplus found + 1\<rparr>\<rparr>)
          else if LoInTarget w then
            let dci = XhciPipeDci (ucast (config ! unat (offset + 2))) in
            if dci = 0 \<or> LoSeen w AND XHCI_PIPE_DCI_BIT dci \<noteq> 0 then None
            else
              Some (w\<lparr>LoSeen := LoSeen w OR XHCI_PIPE_DCI_BIT dci,
                LoFound := found\<lparr>PiEndpointOffset := PiEndpointOffset found @ [offset],
                  PiEndpointCount := PiEndpointCount found + 1\<rparr>\<rparr>)
          else Some w
      else Some w)"

text \<open>The header of a configuration of \<open>bytes\<close> bytes, its \<open>wTotalLength\<close> when it is sound.\<close>

definition pipe_config_total :: "uchar list \<Rightarrow> ulong \<Rightarrow> ulong option" where
  "pipe_config_total config bytes =
     (if bytes < XHCI_PIPE_CONFIG_BYTES \<or> ucast (config ! 0) < XHCI_PIPE_CONFIG_BYTES \<or>
         ucast (config ! 1) \<noteq> XHCI_PIPE_DT_CONFIGURATION then None
      else
        let limit = xhciPipeWord config 2 in
        if limit < XHCI_PIPE_CONFIG_BYTES \<or> limit > bytes \<or> ucast (config ! 0) > limit then None else Some limit)"

definition XhciPipeFindInterface ::
    "uchar list option \<Rightarrow> ulong \<Rightarrow> ulong \<Rightarrow> ulong \<Rightarrow> pipe_status \<times> xhci_pipe_iface option" where
  "XhciPipeFindInterface config bytes interfaceNumber alternate =
     (case config of
        None \<Rightarrow> (XHCI_PIPE_BAD_PARAM, None)
      | Some c \<Rightarrow>
          (case pipe_config_total c bytes of
             None \<Rightarrow> (XHCI_PIPE_MALFORMED, None)
           | Some limit \<Rightarrow>
               (case descriptor_walk 2 (iface_step c interfaceNumber alternate) c limit (ucast (c ! 0)) iface_start of
                  None \<Rightarrow> (XHCI_PIPE_MALFORMED, None)
                | Some w \<Rightarrow>
                    if \<not> LoMatched w then (XHCI_PIPE_NOT_FOUND, None)
                    else if PiEndpointCount (LoFound w) \<noteq> LoDeclared w then (XHCI_PIPE_MALFORMED, None)
                    else (XHCI_PIPE_OK, Some (LoFound w)))))"

section \<open>The parameters of an endpoint\<close>

record xhci_pipe_ep =
  PeAddress :: ulong
  PeDci :: ulong
  PeTransferType :: ulong
  PeDirectionIn :: bool
  PeEpType :: ulong
  PeMaxPacketSize :: ulong
  PeMaxBurstSize :: ulong
  PeMult :: ulong
  PeInterval :: ulong
  PeErrorCount :: ulong
  PeAverageTrbLength :: ulong
  PeMaxEsitPayload :: ulong
  PeBInterval :: ulong
  PeIntervalClamped :: bool
  PeCompanionMissing :: bool
  PeMaxStreams :: ulong
  PeSspIso :: bool
  PeFastPoll :: bool
  PeSpecInterval :: ulong
  PeFallbackInterval :: ulong
  PeCapped :: bool

function pipe_log2_loop :: "ulong \<Rightarrow> ulong \<Rightarrow> ulong" where
  "pipe_log2_loop v n = (if v > 1 then pipe_log2_loop (drop_bit 1 v) (n + 1) else n)"
  by pat_completeness auto

termination
proof (relation "measure (\<lambda>(v, n). unat v)", goal_cases)
  case (2 v n)
  then have "1 < unat v" by (simp add: word_less_nat_alt)
  then show ?case by (simp add: drop_bit_eq_div unat_div)
qed simp

declare pipe_log2_loop.simps [simp del]

definition xhciPipeLog2 :: "ulong \<Rightarrow> ulong" where
  "xhciPipeLog2 v = pipe_log2_loop v 0"

text \<open>The exponent, and whether \<open>*clamped\<close> is set.\<close>

definition xhciPipeExponent :: "ulong \<Rightarrow> ulong \<times> bool" where
  "xhciPipeExponent bInterval =
     (if bInterval < 1 then (1, True) else if bInterval > 16 then (16, True) else (bInterval, False))"

definition xhciPipeMpsLegal :: "ulong \<Rightarrow> ulong \<Rightarrow> ulong \<Rightarrow> ulong \<Rightarrow> bool" where
  "xhciPipeMpsLegal speed type mps transactions =
     (if speed = XHCI_PIPE_SPEED_HIGH then
        if type = XHCI_PIPE_XFER_BULK then mps = 512
        else if transactions = 1 then mps \<ge> 513
        else if transactions = 2 then mps \<ge> 683
        else True
      else if speed = XHCI_PIPE_SPEED_LOW then mps \<le> 8
      else if type = XHCI_PIPE_XFER_BULK then mps = 8 \<or> mps = 16 \<or> mps = 32 \<or> mps = 64
      else if type = XHCI_PIPE_XFER_INTERRUPT then mps \<le> 64
      else mps \<le> 1023)"

text \<open>The interval of a USB 2.0 endpoint, and whether it was clamped.\<close>

definition usb2_interval :: "ulong \<Rightarrow> ulong \<Rightarrow> bool \<Rightarrow> ulong \<Rightarrow> ulong \<times> bool" where
  "usb2_interval speed type periodic bInterval =
     (if speed = XHCI_PIPE_SPEED_HIGH \<and> periodic then
        (case xhciPipeExponent bInterval of (b, clamped) \<Rightarrow> (b - 1, clamped))
      else if type = XHCI_PIPE_XFER_ISOCH then
        (case xhciPipeExponent bInterval of (b, clamped) \<Rightarrow> (b + 2, clamped))
      else if type = XHCI_PIPE_XFER_INTERRUPT then
        (if bInterval < 1 then (xhciPipeLog2 (1 * 8), True) else (xhciPipeLog2 (bInterval * 8), False))
      else (0, False))"

text \<open>The endpoint type of a transfer type and direction, the switch both parameter functions have.\<close>

definition endpoint_type :: "ulong \<Rightarrow> bool \<Rightarrow> ulong" where
  "endpoint_type type directionIn =
     (if type = XHCI_PIPE_XFER_ISOCH then (if directionIn then XHCI_PIPE_EPT_ISOCH_IN else XHCI_PIPE_EPT_ISOCH_OUT)
      else if type = XHCI_PIPE_XFER_BULK then (if directionIn then XHCI_PIPE_EPT_BULK_IN else XHCI_PIPE_EPT_BULK_OUT)
      else (if directionIn then XHCI_PIPE_EPT_INTERRUPT_IN else XHCI_PIPE_EPT_INTERRUPT_OUT))"

definition XhciPipeEndpointParams :: "uchar list option \<Rightarrow> ulong \<Rightarrow> pipe_status \<times> xhci_pipe_ep option" where
  "XhciPipeEndpointParams endpoint speed =
     (case endpoint of
        None \<Rightarrow> (XHCI_PIPE_BAD_PARAM, None)
      | Some d \<Rightarrow>
          if ucast (d ! 0) < XHCI_PIPE_ENDPOINT_BYTES \<or> ucast (d ! 1) \<noteq> XHCI_PIPE_DT_ENDPOINT
          then (XHCI_PIPE_MALFORMED, None)
          else
            let address = ucast (d ! 2);
                type = ucast (d ! 3) AND 0x03;
                directionIn = (address AND 0x80 \<noteq> 0);
                bInterval = ucast (d ! 6);
                wMaxPacketSize = xhciPipeWord d 4;
                dci = XhciPipeDci address
            in
            if dci = 0 then (XHCI_PIPE_MALFORMED, None)
            else if speed \<noteq> XHCI_PIPE_SPEED_FULL \<and> speed \<noteq> XHCI_PIPE_SPEED_LOW \<and> speed \<noteq> XHCI_PIPE_SPEED_HIGH
            then (XHCI_PIPE_UNSUPPORTED, None)
            else if type = XHCI_PIPE_XFER_CONTROL then (XHCI_PIPE_UNSUPPORTED, None)
            else if speed = XHCI_PIPE_SPEED_LOW \<and> type \<noteq> XHCI_PIPE_XFER_INTERRUPT then (XHCI_PIPE_UNSUPPORTED, None)
            else
              let mps = wMaxPacketSize AND 0x07FF in
              if mps > XHCI_PIPE_MAX_PACKET \<or> mps = 0 \<and> type \<noteq> XHCI_PIPE_XFER_ISOCH then (XHCI_PIPE_MALFORMED, None)
              else
                let periodic = (type = XHCI_PIPE_XFER_INTERRUPT \<or> type = XHCI_PIPE_XFER_ISOCH);
                    transactions = drop_bit 11 wMaxPacketSize AND 0x03
                in
                if speed = XHCI_PIPE_SPEED_HIGH \<and> periodic \<and> transactions = 3 then (XHCI_PIPE_MALFORMED, None)
                else
                  let burst = (if speed = XHCI_PIPE_SPEED_HIGH \<and> periodic then transactions else 0) in
                  if \<not> xhciPipeMpsLegal speed type mps burst then (XHCI_PIPE_MALFORMED, None)
                  else
                    (case usb2_interval speed type periodic bInterval of
                       (interval, clamped) \<Rightarrow>
                         (XHCI_PIPE_OK,
                          Some \<lparr>PeAddress = address, PeDci = dci, PeTransferType = type, PeDirectionIn = directionIn,
                            PeEpType = endpoint_type type directionIn, PeMaxPacketSize = mps, PeMaxBurstSize = burst,
                            PeMult = 0, PeInterval = interval,
                            PeErrorCount = (if type = XHCI_PIPE_XFER_ISOCH then 0 else XHCI_PIPE_CERR),
                            PeAverageTrbLength =
                              (if type = XHCI_PIPE_XFER_INTERRUPT then XHCI_PIPE_AVG_TRB_INTERRUPT
                               else if type = XHCI_PIPE_XFER_ISOCH then XHCI_PIPE_AVG_TRB_ISOCH
                               else XHCI_PIPE_AVG_TRB_BULK),
                            PeMaxEsitPayload = (if periodic then mps * (burst + 1) else 0),
                            PeBInterval = bInterval, PeIntervalClamped = clamped, PeCompanionMissing = False,
                            PeMaxStreams = 0, PeSspIso = False, PeFastPoll = False, PeSpecInterval = interval,
                            PeFallbackInterval = interval, PeCapped = False\<rparr>)))"

section \<open>SuperSpeed endpoints\<close>

definition xhciPipeTotal :: "uchar list \<Rightarrow> ulong \<Rightarrow> ulong" where
  "xhciPipeTotal config bytes =
     (if bytes < 4 then bytes
      else let declared = xhciPipeWord config 2 in if declared \<ge> 4 \<and> declared \<le> bytes then declared else bytes)"

text \<open>
  The SuperSpeed companion behind the endpoint: burst, attributes, bytes per interval and whether it is
  missing; \<open>None\<close> for a malformed one.
\<close>

definition ss_companion :: "uchar list \<Rightarrow> ulong \<Rightarrow> ulong \<Rightarrow> (ulong \<times> ulong \<times> ulong \<times> bool) option" where
  "ss_companion config limit at =
     (if at < limit \<and> limit - at \<ge> XHCI_PIPE_SS_COMPANION_BYTES \<and>
         ucast (config ! unat (at + 1)) = XHCI_PIPE_DT_SS_COMPANION
      then
        if ucast (config ! unat at) < XHCI_PIPE_SS_COMPANION_BYTES \<or> ucast (config ! unat at) > limit - at
        then None
        else Some (ucast (config ! unat (at + 2)), ucast (config ! unat (at + 3)), xhciPipeWord config (unat (at + 4)), False)
      else Some (0, 0, 0, True))"

text \<open>The isochronous case of the switch: multiplier, payload and the flag of the second companion.\<close>

definition ss_isoch ::
    "uchar list \<Rightarrow> ulong \<Rightarrow> ulong \<Rightarrow> ulong \<Rightarrow> bool \<Rightarrow> ulong \<Rightarrow> ulong \<Rightarrow> ulong \<Rightarrow> ulong \<Rightarrow> pipe_status \<times> ulong \<times> ulong \<times> bool" where
  "ss_isoch config limit at speed lec mps burst attributes perInterval =
     (let perBurst = mps * (burst + 1);
          sspFollows = (attributes AND 0x80 \<noteq> 0 \<and> speed = XHCI_PIPE_SPEED_SUPER_PLUS)
      in
      if mps = 0 then
        (if sspFollows \<or> perInterval \<noteq> 0 then (XHCI_PIPE_MALFORMED, 0, 0, False) else (XHCI_PIPE_OK, 0, 0, False))
      else if sspFollows then
        let at = at + ucast (config ! unat at) in
        if at \<ge> limit \<or> limit - at < XHCI_PIPE_SSP_ISO_COMPANION_BYTES \<or>
           ucast (config ! unat (at + 1)) \<noteq> XHCI_PIPE_DT_SSP_ISO_COMPANION \<or>
           ucast (config ! unat at) < XHCI_PIPE_SSP_ISO_COMPANION_BYTES \<or> ucast (config ! unat at) > limit - at
        then (XHCI_PIPE_MALFORMED, 0, 0, False)
        else
          let perInterval = xhciPipeDword config (unat (at + 4)) in
          if lec then
            (if perInterval > XHCI_PIPE_MAX_ESIT_LEC then (XHCI_PIPE_ESIT_REFUSED, 0, 0, True)
             else (XHCI_PIPE_OK, 0, perInterval, True))
          else
            let bursts = (perInterval + perBurst - 1) div perBurst in
            if bursts > 3 then (XHCI_PIPE_ESIT_REFUSED, 0, 0, True)
            else (XHCI_PIPE_OK, if bursts \<noteq> 0 then bursts - 1 else 0, perInterval, True)
      else
        let mult = attributes AND 0x03 in
        if mult = 3 then (XHCI_PIPE_MALFORMED, 0, 0, False)
        else
          let largest = perBurst * (mult + 1) in
          if perInterval > largest then (XHCI_PIPE_MALFORMED, 0, 0, False)
          else (XHCI_PIPE_OK, if lec then 0 else mult, if perInterval \<noteq> 0 then perInterval else largest, False))"

text \<open>What one isochronous packet can carry.\<close>

definition iso_carries :: "ulong \<Rightarrow> ulong \<Rightarrow> ulong \<Rightarrow> bool" where
  "iso_carries payload mps burst \<longleftrightarrow>
     payload \<le> XHCI_PIPE_ISO_MAX_PAYLOAD \<and>
     (let packets = (payload + mps - 1) div mps in (packets + burst) div (burst + 1) \<le> XHCI_PIPE_ISO_MAX_BURSTS)"

definition xhciPipeSuperSpeed ::
    "uchar list \<Rightarrow> ulong \<Rightarrow> ulong \<Rightarrow> ulong \<Rightarrow> bool \<Rightarrow> pipe_status \<times> xhci_pipe_ep option" where
  "xhciPipeSuperSpeed config limit offset speed lec =
     (let d = drop (unat offset) config;
          address = ucast (d ! 2);
          type = ucast (d ! 3) AND 0x03;
          directionIn = (address AND 0x80 \<noteq> 0);
          bInterval = ucast (d ! 6);
          dci = XhciPipeDci address
      in
      if dci = 0 then (XHCI_PIPE_MALFORMED, None)
      else if type = XHCI_PIPE_XFER_CONTROL then (XHCI_PIPE_UNSUPPORTED, None)
      else
        let mps = xhciPipeWord d 4 AND 0x07FF in
        if mps > XHCI_PIPE_MAX_PACKET \<or> mps = 0 \<and> type \<noteq> XHCI_PIPE_XFER_ISOCH then (XHCI_PIPE_MALFORMED, None)
        else
          let at = offset + ucast (d ! 0) in
          (case ss_companion config limit at of
             None \<Rightarrow> (XHCI_PIPE_MALFORMED, None)
           | Some (burst, attributes, perInterval, missing) \<Rightarrow>
               if burst > 15 then (XHCI_PIPE_MALFORMED, None)
               else if (if type = XHCI_PIPE_XFER_BULK then mps \<noteq> 1024 else burst \<noteq> 0 \<and> mps \<noteq> 1024)
               then (XHCI_PIPE_MALFORMED, None)
               else
                 let ep = (\<lambda>mult payload interval clamped streams cerr average ssp.
                       \<lparr>PeAddress = address, PeDci = dci, PeTransferType = type, PeDirectionIn = directionIn,
                        PeEpType = endpoint_type type directionIn, PeMaxPacketSize = mps, PeMaxBurstSize = burst,
                        PeMult = mult, PeInterval = interval, PeErrorCount = cerr, PeAverageTrbLength = average,
                        PeMaxEsitPayload = payload, PeBInterval = bInterval, PeIntervalClamped = clamped,
                        PeCompanionMissing = missing, PeMaxStreams = streams, PeSspIso = ssp, PeFastPoll = False,
                        PeSpecInterval = interval, PeFallbackInterval = interval, PeCapped = False\<rparr>);
                     (b, clamped) = xhciPipeExponent bInterval
                 in
                 if type = XHCI_PIPE_XFER_BULK then
                   (XHCI_PIPE_OK, Some (ep 0 0 0 False (attributes AND 0x1F) XHCI_PIPE_CERR XHCI_PIPE_AVG_TRB_BULK False))
                 else if type = XHCI_PIPE_XFER_INTERRUPT then
                   let largest = mps * (burst + 1) in
                   if perInterval > largest then (XHCI_PIPE_MALFORMED, None)
                   else (XHCI_PIPE_OK,
                         Some (ep 0 (if perInterval \<noteq> 0 then perInterval else largest) (b - 1) clamped 0
                                 XHCI_PIPE_CERR XHCI_PIPE_AVG_TRB_INTERRUPT False))
                 else
                   (case ss_isoch config limit at speed lec mps burst attributes perInterval of
                      (st, mult, payload, ssp) \<Rightarrow>
                        if st \<noteq> XHCI_PIPE_OK then (st, None)
                        else if mps \<noteq> 0 \<and> \<not> iso_carries payload mps burst then (XHCI_PIPE_ESIT_REFUSED, None)
                        else (XHCI_PIPE_OK,
                              Some (ep mult payload (b - 1) clamped 0 0 XHCI_PIPE_AVG_TRB_ISOCH ssp)))))"

definition XhciPipeEndpointParamsAt ::
    "uchar list option \<Rightarrow> ulong \<Rightarrow> ulong \<Rightarrow> ulong \<Rightarrow> bool \<Rightarrow> pipe_status \<times> xhci_pipe_ep option" where
  "XhciPipeEndpointParamsAt config bytes offset speed lec =
     (case config of
        None \<Rightarrow> (XHCI_PIPE_BAD_PARAM, None)
      | Some c \<Rightarrow>
          let limit = xhciPipeTotal c bytes in
          if offset \<ge> limit \<or> limit - offset < XHCI_PIPE_ENDPOINT_BYTES then (XHCI_PIPE_BAD_PARAM, None)
          else if speed \<noteq> XHCI_PIPE_SPEED_SUPER \<and> speed \<noteq> XHCI_PIPE_SPEED_SUPER_PLUS
          then XhciPipeEndpointParams (Some (drop (unat offset) c)) speed
          else if ucast (c ! unat offset) < XHCI_PIPE_ENDPOINT_BYTES \<or> ucast (c ! unat offset) > limit - offset \<or>
                  ucast (c ! unat (offset + 1)) \<noteq> XHCI_PIPE_DT_ENDPOINT
          then (XHCI_PIPE_MALFORMED, None)
          else xhciPipeSuperSpeed c limit offset speed lec)"

section \<open>Intervals from elsewhere\<close>

text \<open>The first six bytes of an endpoint descriptor agree.\<close>

definition same_endpoint :: "uchar list \<Rightarrow> ulong \<Rightarrow> uchar list \<Rightarrow> ulong \<Rightarrow> bool" where
  "same_endpoint caller at config offset \<longleftrightarrow>
     list_all (\<lambda>i. caller ! unat (at + of_nat i) = config ! unat (offset + of_nat i)) [0..<6]"

definition XhciPipeCallerInterval ::
    "uchar list option \<Rightarrow> ulong \<Rightarrow> ulong \<Rightarrow> uchar list option \<Rightarrow> ulong \<Rightarrow> ulong \<Rightarrow> ulong \<Rightarrow> pipe_status \<times> ulong option" where
  "XhciPipeCallerInterval config bytes offset caller callerLength interfaceNumber alternate =
     (case (config, caller) of
        (Some c, Some a) \<Rightarrow>
          let limit = xhciPipeTotal c bytes in
          if offset \<ge> limit \<or> limit - offset < XHCI_PIPE_ENDPOINT_BYTES then (XHCI_PIPE_BAD_PARAM, None)
          else
            (case XhciPipeFindInterface caller callerLength interfaceNumber alternate of
               (XHCI_PIPE_OK, Some iface) \<Rightarrow>
                 (case find (\<lambda>at. same_endpoint a at c offset) (PiEndpointOffset iface) of
                    None \<Rightarrow> (XHCI_PIPE_NOT_FOUND, None)
                  | Some at \<Rightarrow> (XHCI_PIPE_OK, Some (ucast (a ! unat (at + 6)))))
             | (st, _) \<Rightarrow> (if st = XHCI_PIPE_NOT_FOUND then XHCI_PIPE_NOT_FOUND else XHCI_PIPE_MALFORMED, None))
      | _ \<Rightarrow> (XHCI_PIPE_BAD_PARAM, None))"

definition XhciPipeRebaseInterval :: "xhci_pipe_ep option \<Rightarrow> ulong \<Rightarrow> ulong \<Rightarrow> pipe_status \<times> xhci_pipe_ep option" where
  "XhciPipeRebaseInterval ep speed bInterval =
     (case ep of
        None \<Rightarrow> (XHCI_PIPE_BAD_PARAM, ep)
      | Some e \<Rightarrow>
          if PeFastPoll e \<or> PeCapped e \<or>
             speed \<noteq> XHCI_PIPE_SPEED_FULL \<and> speed \<noteq> XHCI_PIPE_SPEED_LOW \<and> speed \<noteq> XHCI_PIPE_SPEED_HIGH \<and>
             speed \<noteq> XHCI_PIPE_SPEED_SUPER \<and> speed \<noteq> XHCI_PIPE_SPEED_SUPER_PLUS
          then (XHCI_PIPE_BAD_PARAM, ep)
          else
            let (interval, clamped) =
                  (if PeTransferType e = XHCI_PIPE_XFER_BULK \<or> PeTransferType e = XHCI_PIPE_XFER_CONTROL then (0, False)
                   else if speed = XHCI_PIPE_SPEED_FULL \<or> speed = XHCI_PIPE_SPEED_LOW then
                     (if PeTransferType e = XHCI_PIPE_XFER_ISOCH then
                        (case xhciPipeExponent bInterval of (b, clamped) \<Rightarrow> (b + 2, clamped))
                      else if bInterval < 1 then (xhciPipeLog2 (1 * 8), True)
                      else (xhciPipeLog2 (bInterval * 8), False))
                   else (case xhciPipeExponent bInterval of (b, clamped) \<Rightarrow> (b - 1, clamped)))
            in (XHCI_PIPE_OK,
                Some (e\<lparr>PeBInterval := bInterval, PeIntervalClamped := clamped, PeInterval := interval,
                        PeSpecInterval := interval, PeFallbackInterval := interval\<rparr>)))"

datatype pipe_source = XHCI_PIPE_FROM_DEVICE | XHCI_PIPE_FROM_CALLER | XHCI_PIPE_FROM_RECORD

text \<open>The status, the parameters when written, and \<open>*source\<close>.\<close>

definition XhciPipeFunctionEndpointFrom ::
    "uchar list option \<Rightarrow> ulong \<Rightarrow> ulong \<Rightarrow> uchar list option \<Rightarrow> uchar list option \<Rightarrow> ulong \<Rightarrow> ulong \<Rightarrow> ulong \<Rightarrow> ulong \<Rightarrow> bool \<Rightarrow>
     pipe_status \<times> xhci_pipe_ep option \<times> pipe_source" where
  "XhciPipeFunctionEndpointFrom config bytes offset caller record recordLength interfaceNumber alternate speed lec =
     (case config of
        None \<Rightarrow> (XHCI_PIPE_BAD_PARAM, None, XHCI_PIPE_FROM_DEVICE)
      | Some c \<Rightarrow>
          let limit = xhciPipeTotal c bytes in
          if offset \<ge> limit \<or> limit - offset < XHCI_PIPE_ENDPOINT_BYTES then (XHCI_PIPE_BAD_PARAM, None, XHCI_PIPE_FROM_DEVICE)
          else
            let super = (speed = XHCI_PIPE_SPEED_SUPER \<or> speed = XHCI_PIPE_SPEED_SUPER_PLUS);
                own = ucast (c ! unat (offset + 6));
                callerLength = (case caller of None \<Rightarrow> 0 | Some a \<Rightarrow>
                    let declared = xhciPipeWord a 2 in if declared > bytes then bytes else declared);
                fromCaller = (case caller of None \<Rightarrow> None | Some a \<Rightarrow>
                    (case XhciPipeCallerInterval config bytes offset caller callerLength interfaceNumber alternate of
                       (XHCI_PIPE_OK, Some b) \<Rightarrow> if b \<noteq> own then Some b else None | _ \<Rightarrow> None));
                fromRecord = (case record of None \<Rightarrow> None | Some r \<Rightarrow>
                    (case XhciPipeCallerInterval config bytes offset record recordLength interfaceNumber alternate of
                       (XHCI_PIPE_OK, Some b) \<Rightarrow> if b \<noteq> own then Some b else None | _ \<Rightarrow> None));
                chosen = (case fromCaller of
                    Some b \<Rightarrow> Some (b, XHCI_PIPE_FROM_CALLER)
                  | None \<Rightarrow> (case fromRecord of Some b \<Rightarrow> Some (b, XHCI_PIPE_FROM_RECORD) | None \<Rightarrow> None))
            in
            (case chosen of
               None \<Rightarrow>
                 (case XhciPipeEndpointParamsAt config bytes offset speed lec of
                    (st, ep) \<Rightarrow> (st, ep, XHCI_PIPE_FROM_DEVICE))
             | Some (b, source) \<Rightarrow>
                 if \<not> super then
                   (case XhciPipeEndpointParams (Some ((take 7 (drop (unat offset) c))[6 := ucast b])) speed of
                      (st, ep) \<Rightarrow> (st, ep, source))
                 else
                   (case XhciPipeEndpointParamsAt config bytes offset speed lec of
                      (st, ep) \<Rightarrow>
                        if st \<noteq> XHCI_PIPE_OK then (st, ep, source)
                        else (case XhciPipeRebaseInterval ep speed b of (st, ep) \<Rightarrow> (st, ep, source)))))"

definition XhciPipeFunctionEndpoint ::
    "uchar list option \<Rightarrow> ulong \<Rightarrow> ulong \<Rightarrow> uchar list option \<Rightarrow> ulong \<Rightarrow> ulong \<Rightarrow> ulong \<Rightarrow> bool \<Rightarrow> pipe_status \<times> xhci_pipe_ep option" where
  "XhciPipeFunctionEndpoint config bytes offset caller interfaceNumber alternate speed lec =
     (case XhciPipeFunctionEndpointFrom config bytes offset caller None 0 interfaceNumber alternate speed lec of
        (st, ep, _) \<Rightarrow> (st, ep))"

definition XhciPipeRecordCheck :: "uchar list option \<Rightarrow> ulong \<Rightarrow> ulong \<Rightarrow> pipe_status" where
  "XhciPipeRecordCheck record bytes configValue =
     (case record of
        None \<Rightarrow> XHCI_PIPE_BAD_PARAM
      | Some r \<Rightarrow>
          if bytes < XHCI_PIPE_CONFIG_BYTES \<or> ucast (r ! 0) < XHCI_PIPE_CONFIG_BYTES \<or>
             ucast (r ! 1) \<noteq> XHCI_PIPE_DT_CONFIGURATION then XHCI_PIPE_MALFORMED
          else
            let declared = xhciPipeWord r 2 in
            if declared < XHCI_PIPE_CONFIG_BYTES \<or> declared > bytes \<or> ucast (r ! 5) \<noteq> configValue
            then XHCI_PIPE_MALFORMED
            else
              (case XhciPipeFindInterface record declared 0xFFFFFFFF 0 of
                 (st, _) \<Rightarrow>
                   if st = XHCI_PIPE_MALFORMED \<or> st = XHCI_PIPE_BAD_PARAM then XHCI_PIPE_MALFORMED else XHCI_PIPE_OK))"

end
