(* ===== verification/Xhci_Pipe_Desc_Props.thy ===== *)
theory Xhci_Pipe_Desc_Props
  imports Xhci_Pipe_Desc
begin

unbundle bit_operations_syntax

text \<open>
  What the parsers of \<^theory_text>\<open>Xhci_Pipe_Desc\<close> promise: an interface setting that is found names whole
  endpoint descriptors inside the configuration, one per endpoint, and the parameters made from a
  descriptor are inside the ranges of the endpoint context.
\<close>

section \<open>Device context indices as sets\<close>

lemma dci_bit: "dci < 32 \<Longrightarrow> XHCI_PIPE_DCI_BIT (of_nat dci) = 2 ^ dci"
proof -
  assume d: "dci < 32"
  have "unat (of_nat dci AND (0x1F :: ulong)) = dci mod 32"
    using unat_and_mask [of "of_nat dci" 5] d unat_of_nat_ulong [of dci] by (simp add: mask_eq_exp_minus_1)
  then show ?thesis using d by (simp add: XHCI_PIPE_DCI_BIT_def push_bit_eq_mult)
qed

lemma and_dci_bit: "dci < 32 \<Longrightarrow> w AND XHCI_PIPE_DCI_BIT (of_nat dci) \<noteq> 0 \<longleftrightarrow> bit (w :: ulong) dci"
  unfolding dci_bit by (auto simp: ulong_eq_iff bit_and_iff bit_exp_iff)

definition dcis :: "ulong \<Rightarrow> nat set" where
  "dcis m = {d. bit m d}"

lemma dcis_simps [simp]: "dcis (a OR b) = dcis a \<union> dcis b" "dcis (a AND b) = dcis a \<inter> dcis b" "dcis 0 = {}"
  by (auto simp: dcis_def bit_or_iff bit_and_iff)

lemma dcis_empty: "m = 0 \<longleftrightarrow> dcis m = {}"
  by (auto simp: dcis_def ulong_eq_iff)

lemma dcis_lt: "d \<in> dcis m \<Longrightarrow> d < 32"
  using bit_imp_le_length [of m d] by (simp add: dcis_def)

lemma dci_bounds: "unat (XhciPipeDci a) \<le> 31" "XhciPipeDci a \<noteq> 0 \<Longrightarrow> 2 \<le> unat (XhciPipeDci a)"
proof -
  define n where "n = a AND 0x0F"
  have "n = a AND mask 4" by (simp add: n_def mask_eq_exp_minus_1)
  then have n: "unat n < 16" by (simp add: unat_and_mask)
  define d where "d = (if a AND 0x80 \<noteq> 0 then 1 else 0 :: ulong)"
  have d: "unat d \<le> 1" by (simp add: d_def)
  have two: "unat (n * 2) = unat n * 2" using n by (intro trans [OF unat_mult_no_wrap]) simp_all
  have v: "unat (n * 2 + d) = unat n * 2 + unat d" using n d two by (subst unat_add_no_wrap) simp_all
  have e: "XhciPipeDci a = (if n = 0 then 0 else n * 2 + d)" by (simp only: XhciPipeDci_def Let_def n_def d_def)
  show "unat (XhciPipeDci a) \<le> 31" unfolding e using v n d by simp
  assume "XhciPipeDci a \<noteq> 0"
  then have "n \<noteq> 0" unfolding e by (auto split: if_split_asm)
  moreover from this have "0 < unat n" by (simp add: unat_gt_0)
  ultimately show "2 \<le> unat (XhciPipeDci a)" unfolding e using v by simp
qed

lemma dcis_bit_word:
  assumes "unat d < 32"
  shows "dcis (m OR XHCI_PIPE_DCI_BIT d) = insert (unat d) (dcis m)" "m AND XHCI_PIPE_DCI_BIT d \<noteq> 0 \<longleftrightarrow> unat d \<in> dcis m"
proof -
  have b: "XHCI_PIPE_DCI_BIT d = 2 ^ unat d" using dci_bit [OF assms] by simp
  then have "dcis (XHCI_PIPE_DCI_BIT d) = {unat d}" using assms by (auto simp: dcis_def bit_exp_iff)
  then show "dcis (m OR XHCI_PIPE_DCI_BIT d) = insert (unat d) (dcis m)" by simp
  show "m AND XHCI_PIPE_DCI_BIT d \<noteq> 0 \<longleftrightarrow> unat d \<in> dcis m"
    using and_dci_bit [OF assms, of m] by (simp add: dcis_def)
qed

section \<open>The interface setting found\<close>

text \<open>The index of the endpoint whose descriptor is at an offset; a whole descriptor of a type.\<close>

definition dci_at :: "uchar list \<Rightarrow> ulong \<Rightarrow> nat" where
  "dci_at config at = unat (XhciPipeDci (ucast (config ! (unat at + 2))))"

definition whole_at :: "uchar list \<Rightarrow> nat \<Rightarrow> uchar \<Rightarrow> nat \<Rightarrow> ulong \<Rightarrow> bool" where
  "whole_at config least type limit at \<longleftrightarrow>
     config ! (unat at + 1) = type \<and> least \<le> unat (config ! unat at) \<and> unat at + unat (config ! unat at) \<le> limit"

text \<open>What holds of the setting found so far, before the offset \<open>limit\<close>.\<close>

definition iface_sound :: "uchar list \<Rightarrow> ulong \<Rightarrow> ulong \<Rightarrow> nat \<Rightarrow> xhci_pipe_iface \<Rightarrow> bool" where
  "iface_sound config interfaceNumber alternate limit f \<longleftrightarrow>
     whole_at config 9 4 limit (PiOffset f) \<and>
     ucast (config ! (unat (PiOffset f) + 2)) = interfaceNumber \<and>
     ucast (config ! (unat (PiOffset f) + 3)) = alternate \<and>
     length (PiEndpointOffset f) = unat (PiEndpointCount f) \<and>
     list_all (whole_at config 7 5 limit) (PiEndpointOffset f) \<and>
     sorted_wrt (\<lambda>a b. unat a + 7 \<le> unat b) (PiOffset f # PiEndpointOffset f) \<and>
     distinct (map (dci_at config) (PiEndpointOffset f)) \<and>
     list_all (\<lambda>at. dci_at config at \<in> {2..31}) (PiEndpointOffset f)"

definition iface_walk_ok :: "uchar list \<Rightarrow> ulong \<Rightarrow> ulong \<Rightarrow> ulong \<Rightarrow> iface_locals \<Rightarrow> bool" where
  "iface_walk_ok config interfaceNumber alternate at w \<longleftrightarrow>
     (if LoMatched w
      then iface_sound config interfaceNumber alternate (unat at) (LoFound w) \<and>
        LoDeclared w = ucast (config ! (unat (PiOffset (LoFound w)) + 4)) \<and> LoDeclared w \<le> 30 \<and>
        PiEndpointCount (LoFound w) \<le> LoDeclared w \<and>
        dcis (LoSeen w) = dci_at config ` set (PiEndpointOffset (LoFound w))
      else w = iface_start)"

lemma iface_walk_start: "iface_walk_ok config n a at iface_start"
  by (simp add: iface_walk_ok_def iface_start_def)

lemma whole_at_mono: "whole_at config least type m at \<Longrightarrow> m \<le> m' \<Longrightarrow> whole_at config least type m' at"
  by (simp add: whole_at_def)

lemma iface_sound_mono: "iface_sound config n a m f \<Longrightarrow> m \<le> m' \<Longrightarrow> iface_sound config n a m' f"
  unfolding iface_sound_def by (auto simp: list_all_iff intro: whole_at_mono)

lemma byte_offset:
  assumes "unat (at :: ulong) + unat (len :: ulong) \<le> unat (limit :: ulong)" and "k < unat len"
  shows "unat (at + of_nat k) = unat at + k"
proof -
  have l: "unat limit < 4294967296" by simp
  have "unat (of_nat k :: ulong) = k" using assms l by (intro unat_of_nat_ulong) linarith
  moreover from this have "unat at + unat (of_nat k :: ulong) < 4294967296" using assms l by linarith
  ultimately show ?thesis using unat_add_no_wrap [of at "of_nat k"] by simp
qed

lemma byte_inj: "(ucast (b :: uchar) :: ulong) = ucast (c :: uchar) \<longleftrightarrow> b = c"
  using unat_ucast_byte [of b] unat_ucast_byte [of c] by (auto simp: word_unat_eq_iff)

lemma iface_walk_step:
  assumes "iface_walk_ok config n a at w" and "iface_step config n a at len w = Some w'"
    and len: "len = ucast (config ! unat at)" and "2 \<le> unat len" and in_limit: "unat at + unat len \<le> unat (limit :: ulong)"
    and next_at: "unat (at + len) = unat at + unat len"
  shows "iface_walk_ok config n a (at + len) w'"
proof -
  let ?type = "ucast (config ! unat (at + 1)) :: ulong"
  have one: "unat (at + 1) = unat at + 1" using byte_offset [OF in_limit, of 1] assms(4) by simp
  have le: "unat at \<le> unat (at + len)" using next_at by simp
  have size: "unat (config ! unat at) = unat len" unfolding len by (simp add: unat_ucast_byte)
  have keep: "iface_walk_ok config n a (at + len) w" if "iface_walk_ok config n a at w" for w
    using that iface_sound_mono [OF _ le] unfolding iface_walk_ok_def by (auto split: if_splits)
  have off: "iface_walk_ok config n a (at + len) (w\<lparr>LoInTarget := False\<rparr>)"
    using keep [OF assms(1)] by (auto simp: iface_walk_ok_def iface_start_def)
  consider (iface) "?type = 4" | (ep) "?type = 5" | (other) "?type \<noteq> 4" "?type \<noteq> 5" by blast
  then show ?thesis
  proof cases
    case iface
    then have nine: "\<not> len < 9" using assms(2) by (simp add: iface_step_def Let_def split: if_split_asm)
    then have nine: "9 \<le> unat len" by (simp add: word_less_nat_alt)
    show ?thesis
    proof (cases "\<not> LoMatched w \<and> ucast (config ! unat (at + 2)) = n \<and> ucast (config ! unat (at + 3)) = a")
      case False
      then have "w' = w\<lparr>LoInTarget := False\<rparr>"
        using assms(2) iface by (auto simp: iface_step_def Let_def split: if_split_asm)
      then show ?thesis using off by simp
    next
      case True
      let ?d = "ucast (config ! unat (at + 4)) :: ulong"
      have w: "w = iface_start" using assms(1) True by (simp add: iface_walk_ok_def)
      have d: "?d \<le> 30" using assms(2) iface True by (simp add: iface_step_def Let_def not_less split: if_split_asm)
      have w': "w' = w\<lparr>LoMatched := True, LoInTarget := True, LoDeclared := ?d,
            LoFound := (LoFound w)\<lparr>PiOffset := at, PiNumber := n, PiAlternate := a,
              PiClass := ucast (config ! unat (at + 5)), PiSubClass := ucast (config ! unat (at + 6)),
              PiProtocol := ucast (config ! unat (at + 7))\<rparr>\<rparr>"
        using assms(2) iface True by (simp add: iface_step_def Let_def split: if_split_asm)
      have o: "unat (at + 2) = unat at + 2" "unat (at + 3) = unat at + 3" "unat (at + 4) = unat at + 4"
        using byte_offset [OF in_limit, of 2] byte_offset [OF in_limit, of 3] byte_offset [OF in_limit, of 4] nine by simp_all
      have "config ! (unat at + 1) = 4" using iface one byte_inj [of "config ! (unat at + 1)" 4] by simp
      then have "whole_at config 9 4 (unat (at + len)) at"
        using nine size next_at by (simp add: whole_at_def)
      then show ?thesis using d True unfolding w' w iface_walk_ok_def iface_sound_def by (simp add: iface_start_def o)
    qed
  next
    case ep
    then have "\<not> len < 7" using assms(2) by (simp add: iface_step_def Let_def split: if_split_asm)
    then have seven: "7 \<le> unat len" by (simp add: word_less_nat_alt)
    show ?thesis
    proof (cases "LoInTarget w \<and> \<not> PiEndpointCount (LoFound w) \<ge> LoDeclared w")
      case False
      then consider "w' = w" | "w' = w\<lparr>LoFound := (LoFound w)\<lparr>PiSurplus := PiSurplus (LoFound w) + 1\<rparr>\<rparr>" "LoInTarget w"
        using assms(2) ep by (auto simp: iface_step_def Let_def split: if_split_asm)
      then show ?thesis
      proof cases
        case 1
        then show ?thesis using keep [OF assms(1)] by simp
      next
        case 2
        then have "LoMatched w" using assms(1) by (auto simp: iface_walk_ok_def iface_start_def split: if_splits)
        then show ?thesis using keep [OF assms(1)] 2 by (auto simp: iface_walk_ok_def iface_sound_def)
      qed
    next
      case True
      let ?f = "LoFound w"
      let ?dci = "XhciPipeDci (ucast (config ! unat (at + 2)))"
      have m: "LoMatched w" using assms(1) True by (auto simp: iface_walk_ok_def iface_start_def split: if_splits)
      have t: "\<not> (?dci = 0 \<or> LoSeen w AND XHCI_PIPE_DCI_BIT ?dci \<noteq> 0)"
        and w': "w' = w\<lparr>LoSeen := LoSeen w OR XHCI_PIPE_DCI_BIT ?dci,
            LoFound := ?f\<lparr>PiEndpointOffset := PiEndpointOffset ?f @ [at], PiEndpointCount := PiEndpointCount ?f + 1\<rparr>\<rparr>"
        using assms(2) ep True by (auto simp: iface_step_def Let_def split: if_split_asm)
      have two: "unat (at + 2) = unat at + 2" using byte_offset [OF in_limit, of 2] seven by simp
      have lt: "unat ?dci < 32" using dci_bounds(1) [of "ucast (config ! unat (at + 2))"] by simp
      have dci: "dci_at config at = unat ?dci" by (simp add: dci_at_def two)
      have old: "iface_sound config n a (unat at) ?f" "LoDeclared w \<le> 30" "dcis (LoSeen w) = dci_at config ` set (PiEndpointOffset ?f)"
        "LoDeclared w = ucast (config ! (unat (PiOffset ?f) + 4))"
        using assms(1) m unfolding iface_walk_ok_def by auto
      have count: "unat (PiEndpointCount ?f) < unat (LoDeclared w)" "unat (LoDeclared w) \<le> 30"
        using True old(2) by (simp_all add: word_less_nat_alt word_le_nat_alt not_le)
      then have c1: "unat (PiEndpointCount ?f + 1) = unat (PiEndpointCount ?f) + 1"
        by (intro trans [OF unat_add_no_wrap]) simp_all
      have "config ! (unat at + 1) = 5" using ep one byte_inj [of "config ! (unat at + 1)" 5] by simp
      then have here: "whole_at config 7 5 (unat (at + len)) at"
        using seven size next_at by (simp add: whole_at_def)
      have fresh: "dci_at config at \<notin> dci_at config ` set (PiEndpointOffset ?f)"
        using t dcis_bit_word(2) [OF lt, of "LoSeen w"] old(3) dci by simp
      have range: "dci_at config at \<in> {2..31}"
        using t dci_bounds(2) [of "ucast (config ! unat (at + 2))"] lt dci by simp
      have before: "unat b + 7 \<le> unat at" if "b \<in> set (PiEndpointOffset ?f)" for b
        using that old(1) by (auto simp: iface_sound_def list_all_iff whole_at_def)
      have first: "unat (PiOffset ?f) + 7 \<le> unat at" using old(1) by (auto simp: iface_sound_def whole_at_def)
      have "iface_sound config n a (unat (at + len)) (LoFound w')"
        using iface_sound_mono [OF old(1) le] here fresh range before first c1
        unfolding w' iface_sound_def by (auto simp: sorted_wrt_append)
      moreover have "dcis (LoSeen w') = dci_at config ` set (PiEndpointOffset (LoFound w'))"
        unfolding w' using dcis_bit_word(1) [OF lt, of "LoSeen w"] old(3) dci by simp
      moreover have "PiEndpointCount (LoFound w') \<le> LoDeclared w'"
        using count c1 by (simp add: w' word_le_nat_alt)
      ultimately show ?thesis using m old by (simp add: iface_walk_ok_def w')
    qed
  next
    case other
    then have "w' = w" using assms(2) by (simp add: iface_step_def Let_def)
    then show ?thesis using keep [OF assms(1)] by simp
  qed
qed



end
