(* ===== verification/Xhci_Pipe_Ep_Props.thy ===== *)
theory Xhci_Pipe_Ep_Props
  imports Xhci_Pipe_Desc_Props
begin

unbundle bit_operations_syntax

text \<open>
  The parameters made from an endpoint descriptor at every speed: they are inside the ranges of the
  endpoint context, and the polling interval is the one the descriptor asks for.
\<close>

section \<open>The logarithm\<close>

lemma pipe_log2_bounds:
  "0 < unat v \<Longrightarrow> unat v < 2 ^ m \<Longrightarrow> unat n + m < 4294967296 \<Longrightarrow>
    \<exists>k<m. unat (pipe_log2_loop v n) = unat n + k \<and> 2 ^ k \<le> unat v \<and> unat v < 2 ^ (k + 1)"
proof (induction m arbitrary: v n)
  case 0
  then show ?case by simp
next
  case (Suc m)
  show ?case
  proof (cases "1 < v")
    case True
    then have v: "1 < unat v" by (simp add: word_less_nat_alt)
    have d: "unat (drop_bit 1 v) = unat v div 2" by (simp add: drop_bit_eq_div unat_div)
    have n: "unat (n + 1) = unat n + 1" using Suc.prems(3) by (intro trans [OF unat_add_no_wrap]) simp_all
    have half: "unat v div 2 < 2 ^ m" using Suc.prems(2) by (intro less_mult_imp_div_less) simp
    obtain k where k: "k < m" "unat (pipe_log2_loop (drop_bit 1 v) (n + 1)) = unat (n + 1) + k"
      "2 ^ k \<le> unat v div 2" "unat v div 2 < 2 ^ (k + 1)"
      using Suc.IH [of "drop_bit 1 v" "n + 1"] Suc.prems(3) half v n unfolding d by auto
    then have "2 ^ (k + 1) \<le> unat v" "unat v < 2 ^ (k + 1 + 1)" by simp_all
    moreover have "pipe_log2_loop v n = pipe_log2_loop (drop_bit 1 v) (n + 1)"
      using True by (subst pipe_log2_loop.simps) simp
    ultimately show ?thesis using k(1,2) n by (intro exI [of _ "k + 1"]) simp
  next
    case False
    then have v: "unat v = 1" using Suc.prems(1) by (simp add: word_less_nat_alt)
    have "pipe_log2_loop v n = n" using False by (subst pipe_log2_loop.simps) simp
    then show ?thesis using v by (intro exI [of _ 0]) simp
  qed
qed

text \<open>The interval of a full- or low-speed interrupt endpoint: the period in microframes, rounded down.\<close>

lemma log2_interval:
  assumes "b = ucast (d :: uchar)" and "0 < unat b"
  shows "unat (xhciPipeLog2 (b * 8)) \<le> 10 \<and> 2 ^ unat (xhciPipeLog2 (b * 8)) \<le> unat b * 8 \<and>
    unat b * 8 < 2 * 2 ^ unat (xhciPipeLog2 (b * 8))"
proof -
  have "unat b < 256" unfolding assms(1) unat_ucast_byte by (rule unat_byte_less)
  moreover from this have "unat (b * 8) = unat b * 8" by (intro trans [OF unat_mult_no_wrap]) simp_all
  ultimately show ?thesis
    using pipe_log2_bounds [of "b * 8" 11 0] assms(2) by (auto simp: xhciPipeLog2_def)
qed

section \<open>Ranges\<close>

definition endpoint_in_range :: "xhci_pipe_ep \<Rightarrow> bool" where
  "endpoint_in_range e \<longleftrightarrow>
     unat (PeDci e) \<in> {2..31} \<and> PeTransferType e \<in> set [1, 2, 3] \<and>
     PeEpType e = (if PeDirectionIn e then PeTransferType e + 4 else PeTransferType e) \<and>
     PeMaxPacketSize e \<le> 1024 \<and> (PeMaxPacketSize e = 0 \<longrightarrow> PeTransferType e = 1) \<and>
     PeMaxBurstSize e \<le> 15 \<and> PeMult e \<le> 2 \<and> PeMaxEsitPayload e \<le> 16384 \<and>
     PeMaxStreams e \<le> 31 \<and> PeErrorCount e = (if PeTransferType e = 1 then 0 else 3)"

text \<open>The interval of an endpoint, from the byte of its descriptor.\<close>

definition interval_of :: "ulong \<Rightarrow> ulong \<Rightarrow> nat \<Rightarrow> nat \<Rightarrow> bool" where
  "interval_of speed type b i \<longleftrightarrow>
     (if type = 2 then i = 0
      else if speed = 1 \<or> speed = 2 then
        (if type = 1 then i = min 16 (max 1 b) + 2 else 2 ^ i \<le> 8 * max 1 b \<and> 8 * max 1 b < 2 * 2 ^ i)
      else i + 1 = min 16 (max 1 b))"

lemma exponent_value: "unat (fst (xhciPipeExponent b)) = min 16 (max 1 (unat b))"
  by (auto simp: xhciPipeExponent_def word_less_nat_alt)

lemma exponent_interval:
  "xhciPipeExponent b = (x, clamped) \<Longrightarrow> unat (x - 1) + 1 = min 16 (max 1 (unat b)) \<and> unat (x + 2) = min 16 (max 1 (unat b)) + 2"
proof -
  assume "xhciPipeExponent b = (x, clamped)"
  then have x: "unat x = min 16 (max 1 (unat b))" using exponent_value [of b] by simp
  then have "unat (x - 1) = unat x - 1" by (intro trans [OF unat_sub_no_wrap]) simp_all
  moreover have "unat (x + 2) = unat x + 2" using x by (intro trans [OF unat_add_no_wrap]) simp_all
  ultimately show ?thesis using x by simp
qed

lemma transfer_type: "(w :: ulong) AND 3 = 0 \<or> w AND 3 = 1 \<or> w AND 3 = 2 \<or> w AND 3 = 3"
proof -
  have "w AND 3 = w AND mask 2" by (simp add: mask_eq_exp_minus_1)
  then have "unat (w AND 3) < 4" by (simp add: unat_and_mask)
  then have "unat (w AND 3) = 0 \<or> unat (w AND 3) = 1 \<or> unat (w AND 3) = 2 \<or> unat (w AND 3) = 3" by linarith
  then show ?thesis by (simp add: word_unat_eq_iff)
qed

lemma usb2_interval_of:
  assumes "usb2_interval speed type (type = 3 \<or> type = 1) b = (i, clamped)" and "b = ucast (d :: uchar)"
    and "speed \<in> set [1, 2, 3]" and "type \<in> set [1, 2, 3]"
  shows "interval_of speed type (unat b) (unat i)"
proof -
  have one: "unat b = 0 \<longleftrightarrow> b < 1" by (simp add: word_less_nat_alt)
  have "2 ^ unat (xhciPipeLog2 8) \<le> (8 :: nat) \<and> (8 :: nat) < 2 * 2 ^ unat (xhciPipeLog2 8)"
    using log2_interval [of 1 1] by simp
  then show ?thesis
    using assms log2_interval [of b d] one
    unfolding usb2_interval_def interval_of_def
    by (auto dest: exponent_interval split: if_split_asm prod.split_asm)
qed

lemma payload_product:
  assumes "mps \<le> (1024 :: ulong)" and "burst \<le> 15"
  shows "unat (mps * (burst + 1)) = unat mps * (unat burst + 1)" "mps * (burst + 1) \<le> 16384"
proof -
  have m: "unat mps \<le> 1024" and b: "unat burst \<le> 15" using assms by (simp_all add: word_le_nat_alt)
  have b1: "unat (burst + 1) = unat burst + 1" using b by (intro trans [OF unat_add_no_wrap]) simp_all
  have le: "unat mps * (unat burst + 1) \<le> 1024 * 16" using m b by (intro mult_le_mono) simp_all
  then show p: "unat (mps * (burst + 1)) = unat mps * (unat burst + 1)"
    using b1 by (intro trans [OF unat_mult_no_wrap]) simp_all
  show "mps * (burst + 1) \<le> 16384" unfolding word_le_nat_alt p using le by simp
qed

lemma usb2_params:
  assumes "XhciPipeEndpointParams (Some d) speed = (XHCI_PIPE_OK, Some e)"
  shows "endpoint_in_range e \<and> interval_of speed (PeTransferType e) (unat (d ! 6)) (unat (PeInterval e)) \<and>
    PeDci e = XhciPipeDci (ucast (d ! 2)) \<and> PeTransferType e = ucast (d ! 3) AND 3 \<and>
    (PeDirectionIn e \<longleftrightarrow> ucast (d ! 2) AND (0x80 :: ulong) \<noteq> 0)"
proof -
  let ?a = "ucast (d ! 2) :: ulong" and ?type = "ucast (d ! 3) AND 3 :: ulong" and ?mps = "xhciPipeWord d 4 AND 0x07FF"
  define burst where "burst = (if speed = 3 \<and> (?type = 3 \<or> ?type = 1) then drop_bit 11 (xhciPipeWord d 4) AND 3 else 0)"
  obtain i clamped where i: "usb2_interval speed ?type (?type = 3 \<or> ?type = 1) (ucast (d ! 6)) = (i, clamped)" by fastforce
  have c: "XhciPipeDci ?a \<noteq> 0" "speed \<in> set [1, 2, 3]" "?type \<noteq> 0" "\<not> (?mps > 1024 \<or> ?mps = 0 \<and> ?type \<noteq> 1)"
    and b3: "burst \<noteq> 3"
    and e: "PeDci e = XhciPipeDci ?a" "PeTransferType e = ?type" "PeDirectionIn e \<longleftrightarrow> ?a AND 0x80 \<noteq> 0"
      "PeEpType e = endpoint_type ?type (?a AND 0x80 \<noteq> 0)" "PeMaxPacketSize e = ?mps" "PeMaxBurstSize e = burst"
      "PeMult e = 0" "PeInterval e = i" "PeErrorCount e = (if ?type = 1 then 0 else 3)"
      "PeMaxEsitPayload e = (if ?type = 3 \<or> ?type = 1 then ?mps * (burst + 1) else 0)" "PeMaxStreams e = 0"
    using assms i unfolding XhciPipeEndpointParams_def Let_def option.case burst_def
    by (auto split: if_split_asm)
  have type: "?type \<in> set [1, 2, 3]" using c(3) transfer_type [of "ucast (d ! 3)"] by auto
  have mps: "?mps \<le> 1024" using c(4) by (simp only: not_less de_Morgan_disj)
  have "burst \<le> 2"
    using b3 transfer_type [of "drop_bit 11 (xhciPipeWord d 4)"] by (auto simp: burst_def split: if_split_asm)
  then have burst: "burst \<le> 15" by (simp add: word_le_nat_alt)
  have "endpoint_in_range e"
    using type mps burst c(1,4) dci_bounds [of ?a] payload_product(2) [OF mps burst]
    unfolding endpoint_in_range_def e endpoint_type_def by (auto split: if_splits)
  moreover have "interval_of speed ?type (unat (d ! 6)) (unat i)"
    using usb2_interval_of [OF i refl c(2) type] by (simp only: unat_ucast_byte)
  ultimately show ?thesis using e by simp
qed

text \<open>The SuperSpeed companion and the second companion of an isochronous endpoint stay in range.\<close>

lemma ss_isoch_range:
  assumes "ss_isoch config limit at speed lec mps burst attributes perInterval = (XHCI_PIPE_OK, mult, payload, ssp)"
  shows "mult \<le> 2" "mps = 0 \<Longrightarrow> payload = 0"
proof -
  have "bursts \<noteq> 0 \<Longrightarrow> \<not> 3 < bursts \<Longrightarrow> bursts - 1 \<le> 2" for bursts :: ulong
  proof -
    assume "bursts \<noteq> 0" "\<not> 3 < bursts"
    then have "0 < unat bursts" "unat bursts \<le> 3" by (simp_all add: unat_gt_0 word_less_nat_alt)
    then show "bursts - 1 \<le> 2" by (subst word_le_nat_alt, subst unat_sub_no_wrap) simp_all
  qed
  then show "mult \<le> 2"
    using assms transfer_type [of attributes] unfolding ss_isoch_def Let_def by (auto split: if_split_asm)
  show "mps = 0 \<Longrightarrow> payload = 0"
    using assms unfolding ss_isoch_def Let_def by (auto split: if_split_asm)
qed

lemma super_params:
  assumes "xhciPipeSuperSpeed config limit offset speed lec = (XHCI_PIPE_OK, Some e)" and "speed \<noteq> 1" and "speed \<noteq> 2"
  shows "endpoint_in_range e \<and>
    interval_of speed (PeTransferType e) (unat (drop (unat offset) config ! 6)) (unat (PeInterval e)) \<and>
    PeDci e = XhciPipeDci (ucast (drop (unat offset) config ! 2)) \<and> PeTransferType e = ucast (drop (unat offset) config ! 3) AND 3 \<and>
    (PeDirectionIn e \<longleftrightarrow> ucast (drop (unat offset) config ! 2) AND (0x80 :: ulong) \<noteq> 0)"
proof -
  let ?d = "drop (unat offset) config"
  let ?a = "ucast (?d ! 2) :: ulong" and ?type = "ucast (?d ! 3) AND 3 :: ulong" and ?mps = "xhciPipeWord ?d 4 AND 0x07FF"
  obtain b clamped where x: "xhciPipeExponent (ucast (?d ! 6)) = (b, clamped)" by fastforce
  note int = exponent_interval [OF x, unfolded unat_ucast_byte]
  obtain burst attributes per missing where
    comp: "ss_companion config limit (offset + ucast (?d ! 0)) = Some (burst, attributes, per, missing)"
    using assms(1) unfolding xhciPipeSuperSpeed_def Let_def by (auto split: if_split_asm option.split_asm)
  have c: "XhciPipeDci ?a \<noteq> 0" "?type \<noteq> 0" "\<not> (?mps > 1024 \<or> ?mps = 0 \<and> ?type \<noteq> 1)" "\<not> burst > 15"
    and e: "PeDci e = XhciPipeDci ?a" "PeTransferType e = ?type" "PeDirectionIn e \<longleftrightarrow> ?a AND 0x80 \<noteq> 0"
      "PeEpType e = endpoint_type ?type (?a AND 0x80 \<noteq> 0)" "PeMaxPacketSize e = ?mps" "PeMaxBurstSize e = burst"
      "PeErrorCount e = (if ?type = 1 then 0 else 3)" "PeInterval e = (if ?type = 2 then 0 else b - 1)"
      "PeMaxStreams e = (if ?type = 2 then attributes AND 0x1F else 0)"
    using assms(1) unfolding xhciPipeSuperSpeed_def Let_def comp option.case prod.case x
    using transfer_type [of "ucast (?d ! 3)"]
    by (auto split: if_split_asm prod.split_asm)
  have m: "PeMult e \<le> 2 \<and> PeMaxEsitPayload e \<le> 16384"
  proof -
    consider (bulk) "PeMult e = 0" "PeMaxEsitPayload e = 0"
      | (interrupt) "PeMult e = 0" "\<not> per > ?mps * (burst + 1)"
          "PeMaxEsitPayload e = (if per \<noteq> 0 then per else ?mps * (burst + 1))"
      | (isoch) ssp where
          "ss_isoch config limit (offset + ucast (?d ! 0)) speed lec ?mps burst attributes per =
             (XHCI_PIPE_OK, PeMult e, PeMaxEsitPayload e, ssp)" "?mps \<noteq> 0 \<Longrightarrow> iso_carries (PeMaxEsitPayload e) ?mps burst"
      using assms(1) unfolding xhciPipeSuperSpeed_def Let_def comp option.case prod.case x
      by (auto split: if_split_asm prod.split_asm)
    then show ?thesis
    proof cases
      case interrupt
      have "?mps * (burst + 1) \<le> 16384" using payload_product(2) [of ?mps burst] c(3,4) by (simp only: not_less de_Morgan_disj)
      then show ?thesis using interrupt by (auto split: if_splits)
    next
      case isoch
      have "PeMaxEsitPayload e \<le> 4096"
        using ss_isoch_range(2) [OF isoch(1)] isoch(2) by (cases "?mps = 0") (auto simp: iso_carries_def)
      then show ?thesis using ss_isoch_range(1) [OF isoch(1)] by (auto intro: order_trans)
    qed simp
  qed
  have "endpoint_in_range e"
    using c m dci_bounds [of ?a] transfer_type [of "ucast (?d ! 3)"] word_and_le1 [of attributes "0x1F"]
    unfolding endpoint_in_range_def e endpoint_type_def by (auto split: if_splits)
  moreover have "interval_of speed ?type (unat (?d ! 6)) (unat (PeInterval e))"
    using int assms(2,3) by (simp add: interval_of_def e)
  ultimately show ?thesis using e by simp
qed



end
