(* ===== verification/Xhci_Pipe_Bos.thy ===== *)
theory Xhci_Pipe_Bos
  imports Xhci_Pipe_Desc
begin

unbundle bit_operations_syntax

text \<open>
  The rest of the descriptor half of \<^verbatim>\<open>src/src/xhci_pipe.c\<close>: the plan of a composite parent's
  interfaces, the tally of a recorded configuration, the raised polling rates, the isochronous ring
  sizes, and the BOS descriptor.
\<close>

section \<open>A composite parent's interfaces\<close>

text \<open>
  The walk of \<open>XhciPipeParentPlan\<close> trusts the lengths the first \<open>XhciPipeFindInterface\<close> has checked: on
  a length of 0 it would not end, so it is a partial function. The result is the status and the two
  arrays as they are filled.
\<close>

partial_function (option) parent_loop ::
    "uchar list \<Rightarrow> ulong \<Rightarrow> ulong \<Rightarrow> ulong \<Rightarrow> ulong \<Rightarrow> (uchar \<times> ulong) list \<Rightarrow> (pipe_status \<times> (uchar \<times> ulong) list) option" where
  "parent_loop c bytes limit offset seen found =
     (if offset < limit then
        if ucast (c ! unat (offset + 1)) = XHCI_PIPE_DT_INTERFACE \<and> c ! unat (offset + 3) = 0 then
          if c ! unat (offset + 2) \<ge> 32 then Some (XHCI_PIPE_MALFORMED, found)
          else if seen AND push_bit (unat (c ! unat (offset + 2))) 1 = 0 then
            (case XhciPipeFindInterface (Some c) bytes (ucast (c ! unat (offset + 2))) 0 of
               (XHCI_PIPE_OK, Some iface) \<Rightarrow>
                 parent_loop c bytes limit (offset + ucast (c ! unat offset))
                   (seen OR push_bit (unat (c ! unat (offset + 2))) 1)
                   (found @ [(c ! unat (offset + 2), PiEndpointCount iface)])
             | _ \<Rightarrow> Some (XHCI_PIPE_MALFORMED, found))
          else parent_loop c bytes limit (offset + ucast (c ! unat offset)) seen found
        else parent_loop c bytes limit (offset + ucast (c ! unat offset)) seen found
      else Some (if found = [] then XHCI_PIPE_NOT_FOUND else XHCI_PIPE_OK, found))"

text \<open>The status, \<open>*count\<close> when written, and the entries of \<open>numbers\<close> and \<open>pipes\<close> written, paired.\<close>

definition XhciPipeParentPlan ::
    "uchar list option \<Rightarrow> ulong \<Rightarrow> (pipe_status \<times> ulong option \<times> (uchar \<times> ulong) list) option" where
  "XhciPipeParentPlan config bytes =
     (case config of
        None \<Rightarrow> Some (XHCI_PIPE_BAD_PARAM, None, [])
      | Some c \<Rightarrow>
          if fst (XhciPipeFindInterface config bytes 0xFFFFFFFF 0) \<noteq> XHCI_PIPE_NOT_FOUND
          then Some (XHCI_PIPE_MALFORMED, Some 0, [])
          else
            (case parent_loop c bytes (xhciPipeWord c 2) (ucast (c ! 0)) 0 [] of
               None \<Rightarrow> None
             | Some (st, found) \<Rightarrow>
                 Some (st, Some (if st = XHCI_PIPE_OK then of_nat (length found) else 0), found)))"

text \<open>The status with \<open>*rewrites\<close> and \<open>*mismatches\<close>, counted on.\<close>

definition tally_endpoint ::
    "uchar list option \<Rightarrow> ulong \<Rightarrow> uchar list option \<Rightarrow> ulong \<Rightarrow> ulong \<Rightarrow> ulong \<Rightarrow> ulong \<times> ulong \<Rightarrow> ulong \<Rightarrow> ulong \<times> ulong" where
  "tally_endpoint config bytes record recordLength interfaceNumber alternate counts offset =
     (case counts of (rewrites, mismatches) \<Rightarrow>
        (case XhciPipeCallerInterval config bytes offset record recordLength interfaceNumber alternate of
           (XHCI_PIPE_OK, Some b) \<Rightarrow>
             (if b \<noteq> ucast (the config ! unat (offset + 6)) then rewrites + 1 else rewrites, mismatches)
         | _ \<Rightarrow> (rewrites, mismatches + 1)))"

definition XhciPipeRecordTally ::
    "uchar list option \<Rightarrow> ulong \<Rightarrow> uchar list option \<Rightarrow> ulong \<Rightarrow> ulong \<Rightarrow> ulong \<Rightarrow> ulong \<times> ulong \<Rightarrow> pipe_status \<times> ulong \<times> ulong" where
  "XhciPipeRecordTally config bytes record recordLength interfaceNumber alternate counts =
     (if config = None \<or> record = None then (XHCI_PIPE_BAD_PARAM, counts)
      else
        (case XhciPipeFindInterface config bytes interfaceNumber alternate of
           (XHCI_PIPE_OK, Some iface) \<Rightarrow>
             (XHCI_PIPE_OK,
              foldl (tally_endpoint config bytes record recordLength interfaceNumber alternate) counts (PiEndpointOffset iface))
         | (st, _) \<Rightarrow> (st, counts)))"

section \<open>Raised polling rates\<close>

abbreviation (input) XHCI_PIPE_FAST_OFF :: ulong where "XHCI_PIPE_FAST_OFF \<equiv> 0"
abbreviation (input) XHCI_PIPE_FAST_1K :: ulong where "XHCI_PIPE_FAST_1K \<equiv> 1"
abbreviation (input) XHCI_PIPE_FAST_2K4K :: ulong where "XHCI_PIPE_FAST_2K4K \<equiv> 2"
abbreviation (input) XHCI_PIPE_FAST_4K8K :: ulong where "XHCI_PIPE_FAST_4K8K \<equiv> 3"
abbreviation (input) XHCI_PIPE_FAST_CODES :: ulong where "XHCI_PIPE_FAST_CODES \<equiv> 4"
abbreviation (input) XHCI_PIPE_FAST_CODE_LOW :: ulong where "XHCI_PIPE_FAST_CODE_LOW \<equiv> 128"
abbreviation (input) XHCI_PIPE_FAST_CODE_HIGH :: ulong where "XHCI_PIPE_FAST_CODE_HIGH \<equiv> 143"
abbreviation (input) XHCI_PIPE_FAST_CODE_FALLBACK :: ulong where "XHCI_PIPE_FAST_CODE_FALLBACK \<equiv> 3"

definition XhciPipeFastMode :: "ulong \<Rightarrow> ulong" where
  "XhciPipeFastMode v =
     (if v = XHCI_PIPE_FAST_1K \<or> v = XHCI_PIPE_FAST_2K4K \<or> v = XHCI_PIPE_FAST_4K8K \<or> v = XHCI_PIPE_FAST_CODES
      then v else XHCI_PIPE_FAST_OFF)"

definition xhciPipeFastCodes :: "ulong \<Rightarrow> xhci_pipe_ep \<Rightarrow> bool \<times> xhci_pipe_ep" where
  "xhciPipeFastCodes speed ep =
     (if PeTransferType ep \<noteq> XHCI_PIPE_XFER_INTERRUPT \<or> PeBInterval ep < XHCI_PIPE_FAST_CODE_LOW \<or>
         PeBInterval ep > XHCI_PIPE_FAST_CODE_HIGH then (False, ep)
      else if speed \<noteq> XHCI_PIPE_SPEED_LOW \<and> speed \<noteq> XHCI_PIPE_SPEED_FULL \<and> speed \<noteq> XHCI_PIPE_SPEED_HIGH \<and>
              speed \<noteq> XHCI_PIPE_SPEED_SUPER \<and> speed \<noteq> XHCI_PIPE_SPEED_SUPER_PLUS then (False, ep)
      else
        let interval = PeBInterval ep - XHCI_PIPE_FAST_CODE_LOW in
        if interval = PeInterval ep then (False, ep)
        else (True, ep\<lparr>PeInterval := interval, PeFallbackInterval := XHCI_PIPE_FAST_CODE_FALLBACK, PeFastPoll := True\<rparr>))"

definition XhciPipeFastPoll :: "ulong \<Rightarrow> ulong \<Rightarrow> ulong \<Rightarrow> xhci_pipe_ep option \<Rightarrow> bool \<times> xhci_pipe_ep option" where
  "XhciPipeFastPoll mode speed route ep =
     (case ep of
        None \<Rightarrow> (False, ep)
      | Some e \<Rightarrow>
          if PeFastPoll e then (False, ep)
          else if mode = XHCI_PIPE_FAST_CODES then (case xhciPipeFastCodes speed e of (r, e) \<Rightarrow> (r, Some e))
          else if mode \<noteq> XHCI_PIPE_FAST_2K4K \<and> mode \<noteq> XHCI_PIPE_FAST_4K8K \<or>
                  speed \<noteq> XHCI_PIPE_SPEED_LOW \<and> speed \<noteq> XHCI_PIPE_SPEED_FULL \<or>
                  route \<noteq> 0 \<or> PeTransferType e \<noteq> XHCI_PIPE_XFER_INTERRUPT then (False, ep)
          else
            let fast = (if PeInterval e = 8 then Some (if mode = XHCI_PIPE_FAST_2K4K then 2 else 1)
                        else if PeInterval e = 7 then Some (if mode = XHCI_PIPE_FAST_2K4K then 1 else 0)
                        else None)
            in (case fast of
                  None \<Rightarrow> (False, ep)
                | Some f \<Rightarrow>
                    (True, Some (e\<lparr>PeSpecInterval := PeInterval e, PeFallbackInterval := PeInterval e,
                                   PeInterval := f, PeFastPoll := True\<rparr>))))"

definition XhciPipeFastRevert :: "xhci_pipe_ep option \<Rightarrow> bool \<times> xhci_pipe_ep option" where
  "XhciPipeFastRevert ep =
     (case ep of
        None \<Rightarrow> (False, ep)
      | Some e \<Rightarrow>
          if \<not> PeFastPoll e then (False, ep)
          else (True, Some (e\<lparr>PeInterval := PeFallbackInterval e, PeFastPoll := False\<rparr>)))"

definition XhciPipeFastRetry :: "ulong \<Rightarrow> bool" where
  "XhciPipeFastRetry completionCode \<longleftrightarrow> completionCode = 17 \<or> completionCode = 8 \<or> completionCode = 35"

section \<open>Isochronous ring pages\<close>

abbreviation (input) XHCI_ISO_EVENT_RESERVE :: ulong where "XHCI_ISO_EVENT_RESERVE \<equiv> 64"
abbreviation (input) XHCI_ISO_PAGE_MIN_GRANT :: ulong where "XHCI_ISO_PAGE_MIN_GRANT \<equiv> 16"
abbreviation (input) XHCI_ISO_EVENTS_OVER_TRBS :: ulong where "XHCI_ISO_EVENTS_OVER_TRBS \<equiv> 5"
abbreviation (input) XHCI_ISO_PAGE_MAX_RING_TRBS :: ulong where "XHCI_ISO_PAGE_MAX_RING_TRBS \<equiv> 256"
abbreviation (input) XHCI_XFER_MAX_ISO_PAGE_TRBS :: ulong where "XHCI_XFER_MAX_ISO_PAGE_TRBS \<equiv> 254"

definition XhciPipeZeroBandwidth :: "xhci_pipe_ep option \<Rightarrow> bool" where
  "XhciPipeZeroBandwidth ep =
     (case ep of None \<Rightarrow> False | Some e \<Rightarrow> PeTransferType e = XHCI_PIPE_XFER_ISOCH \<and> PeMaxPacketSize e = 0)"

definition XhciPipeIsoPageWanted :: "xhci_pipe_ep option \<Rightarrow> bool \<Rightarrow> bool" where
  "XhciPipeIsoPageWanted ep force =
     (case ep of
        None \<Rightarrow> False
      | Some e \<Rightarrow>
          if PeTransferType e \<noteq> XHCI_PIPE_XFER_ISOCH \<or> XhciPipeZeroBandwidth ep then False
          else force \<or> PeInterval e \<le> 2)"

definition XhciPipeIsoGrant :: "ulong \<Rightarrow> ulong \<Rightarrow> ulong \<Rightarrow> ulong \<Rightarrow> ulong" where
  "XhciPipeIsoGrant eventRingTrbs counted borrow poolCapacity =
     (if poolCapacity \<ge> XHCI_XFER_MAX_ISO_PAGE_TRBS then 0
      else
        let counted = (if borrow \<ge> counted then 0 else counted - borrow);
            kept = XHCI_ISO_EVENT_RESERVE + 2 * (poolCapacity + XHCI_ISO_EVENTS_OVER_TRBS)
        in
        if counted \<ge> 0xFFFFFFFF - kept \<or> eventRingTrbs \<le> kept + counted then 0
        else
          let avail = eventRingTrbs - kept - counted;
              room = XHCI_XFER_MAX_ISO_PAGE_TRBS - poolCapacity;
              avail = (if avail > room then room else avail)
          in if avail \<ge> XHCI_ISO_PAGE_MIN_GRANT then avail else 0)"

definition XhciPipeIsoRingTrbs :: "ulong \<Rightarrow> ulong \<Rightarrow> ulong" where
  "XhciPipeIsoRingTrbs granted poolCapacity =
     (if granted = 0 \<or> poolCapacity \<ge> XHCI_XFER_MAX_ISO_PAGE_TRBS \<or> granted > XHCI_XFER_MAX_ISO_PAGE_TRBS - poolCapacity
      then 0 else poolCapacity + granted + 2)"

definition XhciPipeIsoPageBytes :: "ulong \<Rightarrow> bool \<Rightarrow> ulong \<Rightarrow> ulong" where
  "XhciPipeIsoPageBytes ringTrbs pad pageSize =
     (if ringTrbs < 3 \<or> ringTrbs > XHCI_ISO_PAGE_MAX_RING_TRBS \<or> pageSize = 0 \<or> pageSize AND (pageSize - 1) \<noteq> 0 then 0
      else (ringTrbs * 16 * (if pad then 2 else 1) + pageSize - 1) AND NOT (pageSize - 1))"

section \<open>The BOS descriptor\<close>

abbreviation (input) XHCI_PIPE_CAP_USB2_EXTENSION :: ulong where "XHCI_PIPE_CAP_USB2_EXTENSION \<equiv> 2"
abbreviation (input) XHCI_PIPE_CAP_SUPERSPEED :: ulong where "XHCI_PIPE_CAP_SUPERSPEED \<equiv> 3"
abbreviation (input) XHCI_PIPE_CAP_SUPERSPEED_PLUS :: ulong where "XHCI_PIPE_CAP_SUPERSPEED_PLUS \<equiv> 0x0A"
abbreviation (input) XHCI_PIPE_BOS_SUBLINKS :: ulong where "XHCI_PIPE_BOS_SUBLINKS \<equiv> 8"

record xhci_pipe_bos =
  BosCapabilities :: ulong
  BosUsb2Attributes :: ulong
  BosHasSuperSpeed :: bool
  BosSsAttributes :: ulong
  BosSsSpeeds :: ulong
  BosSsFunctionality :: ulong
  BosSsU1ExitLatency :: ulong
  BosSsU2ExitLatency :: ulong
  BosHasSuperSpeedPlus :: bool
  BosSspAttributes :: ulong
  BosSspFunctionality :: ulong
  BosSspSublinks :: ulong
  BosSspSublink :: "ulong list"

definition bos_blank :: xhci_pipe_bos where
  "bos_blank = \<lparr>BosCapabilities = 0, BosUsb2Attributes = 0, BosHasSuperSpeed = False, BosSsAttributes = 0, BosSsSpeeds = 0,
     BosSsFunctionality = 0, BosSsU1ExitLatency = 0, BosSsU2ExitLatency = 0, BosHasSuperSpeedPlus = False,
     BosSspAttributes = 0, BosSspFunctionality = 0, BosSspSublinks = 0, BosSspSublink = replicate 8 0\<rparr>"

definition bos_step :: "uchar list \<Rightarrow> ulong \<Rightarrow> ulong \<Rightarrow> xhci_pipe_bos \<Rightarrow> xhci_pipe_bos option" where
  "bos_step data offset bLength bos =
     (if ucast (data ! unat (offset + 1)) = XHCI_PIPE_DT_DEVICE_CAP then
        let bos = bos\<lparr>BosCapabilities := BosCapabilities bos + 1\<rparr>;
            at = unat offset;
            cap = ucast (data ! unat (offset + 2))
        in
        if cap = XHCI_PIPE_CAP_USB2_EXTENSION then
          Some (if bLength \<ge> 7 then bos\<lparr>BosUsb2Attributes := xhciPipeDword data (at + 3)\<rparr> else bos)
        else if cap = XHCI_PIPE_CAP_SUPERSPEED then
          if bLength < 10 then None
          else Some (bos\<lparr>BosHasSuperSpeed := True, BosSsAttributes := ucast (data ! (at + 3)),
                 BosSsSpeeds := xhciPipeWord data (at + 4), BosSsFunctionality := ucast (data ! (at + 6)),
                 BosSsU1ExitLatency := ucast (data ! (at + 7)), BosSsU2ExitLatency := xhciPipeWord data (at + 8)\<rparr>)
        else if cap = XHCI_PIPE_CAP_SUPERSPEED_PLUS then
          if bLength < 12 then None
          else
            let attributes = xhciPipeDword data (at + 4);
                declared = (attributes AND 0x1F) + 1
            in
            if bLength < 12 + declared * 4 then None
            else
              let sublinks = (if declared < XHCI_PIPE_BOS_SUBLINKS then declared else XHCI_PIPE_BOS_SUBLINKS) in
              Some (bos\<lparr>BosSspAttributes := attributes, BosHasSuperSpeedPlus := True,
                 BosSspFunctionality := xhciPipeWord data (at + 8), BosSspSublinks := sublinks,
                 BosSspSublink := map (\<lambda>i. xhciPipeDword data (at + 12 + i * 4)) [0..<unat sublinks] @
                   drop (unat sublinks) (BosSspSublink bos)\<rparr>)
        else Some bos
      else Some bos)"

definition XhciPipeParseBos :: "uchar list option \<Rightarrow> ulong \<Rightarrow> pipe_status \<times> xhci_pipe_bos option" where
  "XhciPipeParseBos data bytes =
     (case data of
        None \<Rightarrow> (XHCI_PIPE_BAD_PARAM, None)
      | Some d \<Rightarrow>
          if bytes < XHCI_PIPE_BOS_BYTES \<or> ucast (d ! 0) < XHCI_PIPE_BOS_BYTES \<or> ucast (d ! 1) \<noteq> XHCI_PIPE_DT_BOS
          then (XHCI_PIPE_MALFORMED, None)
          else
            let limit = xhciPipeWord d 2 in
            if limit < XHCI_PIPE_BOS_BYTES \<or> limit > bytes \<or> ucast (d ! 0) > limit then (XHCI_PIPE_MALFORMED, None)
            else
              (case descriptor_walk 3 (bos_step d) d limit (ucast (d ! 0)) bos_blank of
                 None \<Rightarrow> (XHCI_PIPE_MALFORMED, None)
               | Some bos \<Rightarrow> (XHCI_PIPE_OK, Some bos)))"

end
