(* ===== verification/Xhci_Pipe_Bos_Props.thy ===== *)
theory Xhci_Pipe_Bos_Props
  imports Xhci_Pipe_Bos Xhci_Pipe_Desc_Props
begin

unbundle bit_operations_syntax

text \<open>
  The plan of a composite parent: the walk that trusts the lengths ends, because the check before it
  has walked the same descriptors, and the plan it makes names each interface once.
\<close>

section \<open>The parent plan\<close>

definition seen_bits :: "ulong \<Rightarrow> uchar set \<Rightarrow> bool" where
  "seen_bits seen ns \<longleftrightarrow> (\<forall>n. unat n < 32 \<longrightarrow> (bit seen (unat n) \<longleftrightarrow> n \<in> ns))"

lemma seen_bit: "n < (32 :: uchar) \<Longrightarrow> seen AND push_bit (unat n) (1 :: ulong) = 0 \<longleftrightarrow> \<not> bit seen (unat n)"
  by (auto simp: ulong_eq_iff bit_and_iff word_less_nat_alt bit_mask_pow)

lemma seen_bits_insert:
  assumes "seen_bits seen ns" and "n < (32 :: uchar)"
  shows "seen_bits (seen OR push_bit (unat n) 1) (insert n ns)"
  using assms unfolding seen_bits_def
  by (auto simp: bit_or_iff word_less_nat_alt word_unat_eq_iff bit_mask_pow)

text \<open>An entry of the plan: an interface below 32 that is found, with its number of endpoints.\<close>

definition plan_entry :: "uchar list \<Rightarrow> ulong \<Rightarrow> uchar \<times> ulong \<Rightarrow> bool" where
  "plan_entry c bytes = (\<lambda>(n, count). n < 32 \<and>
     (\<exists>f. XhciPipeFindInterface (Some c) bytes (ucast n) 0 = (XHCI_PIPE_OK, Some f) \<and> PiEndpointCount f = count))"

definition plan_ok :: "uchar list \<Rightarrow> ulong \<Rightarrow> ulong \<Rightarrow> (uchar \<times> ulong) list \<Rightarrow> bool" where
  "plan_ok c bytes seen found \<longleftrightarrow>
     seen_bits seen (fst ` set found) \<and> distinct (map fst found) \<and> list_all (plan_entry c bytes) found"

lemma plan_ok_start: "plan_ok c bytes 0 []"
  by (simp add: plan_ok_def seen_bits_def)

lemma plan_ok_add:
  assumes "plan_ok c bytes seen found" and "n < 32" and "seen AND push_bit (unat n) 1 = 0"
    and "XhciPipeFindInterface (Some c) bytes (ucast n) 0 = (XHCI_PIPE_OK, Some f)"
  shows "plan_ok c bytes (seen OR push_bit (unat n) 1) (found @ [(n, PiEndpointCount f)])"
proof -
  have "n \<notin> fst ` set found"
    using assms seen_bit [OF assms(2), of seen] by (auto simp: plan_ok_def seen_bits_def word_less_nat_alt)
  then show ?thesis
    using assms seen_bits_insert [OF _ assms(2), of seen "fst ` set found"]
    by (auto simp: plan_ok_def plan_entry_def image_Un insert_commute Un_commute)
qed

text \<open>Where a checked walk has been, the walk of the plan goes on and ends.\<close>

lemma parent_loop_returns:
  assumes "descriptor_walk 2 step c limit offset s = Some s'" and "plan_ok c bytes seen found"
  shows "\<exists>st found' seen'. parent_loop c bytes limit offset seen found = Some (st, found') \<and>
    plan_ok c bytes seen' found' \<and> st \<in> {XHCI_PIPE_OK, XHCI_PIPE_NOT_FOUND, XHCI_PIPE_MALFORMED} \<and>
    (st = XHCI_PIPE_OK \<longrightarrow> found' \<noteq> [])"
  using assms
proof (induction "unat limit - unat offset" arbitrary: offset s seen found rule: less_induct)
  case less
  show ?case
  proof (cases "offset < limit")
    case True
    let ?len = "ucast (c ! unat offset) :: ulong"
    obtain t where t: "?len \<noteq> 0" "\<not> limit - offset < ?len" "descriptor_walk 2 step c limit (offset + ?len) t = Some s'"
      using less.prems(1) True
      by (subst (asm) descriptor_walk.simps) (auto simp: Let_def split: if_splits option.splits)
    have on: "\<exists>st found' seen'. parent_loop c bytes limit (offset + ?len) seen found = Some (st, found') \<and>
      plan_ok c bytes seen' found' \<and> st \<in> {XHCI_PIPE_OK, XHCI_PIPE_NOT_FOUND, XHCI_PIPE_MALFORMED} \<and>
      (st = XHCI_PIPE_OK \<longrightarrow> found' \<noteq> [])" if "plan_ok c bytes seen found" for seen found
      using less.hyps [OF descriptor_measure [OF True t(1,2)] t(3) that] .
    let ?n = "c ! unat (offset + 2)"
    show ?thesis
    proof (cases "(ucast (c ! unat (offset + 1)) :: ulong) = 4 \<and> c ! unat (offset + 3) = 0 \<and> \<not> ?n \<ge> 32 \<and>
        seen AND push_bit (unat ?n) 1 = 0")
      case new: True
      show ?thesis
      proof (cases "XhciPipeFindInterface (Some c) bytes (ucast ?n) 0")
        case (Pair st f)
        show ?thesis
        proof (cases "st = XHCI_PIPE_OK \<and> f \<noteq> None")
          case True
          then obtain i where i: "XhciPipeFindInterface (Some c) bytes (ucast ?n) 0 = (XHCI_PIPE_OK, Some i)" using Pair by auto
          then have "plan_ok c bytes (seen OR push_bit (unat ?n) 1) (found @ [(?n, PiEndpointCount i)])"
            using plan_ok_add [OF less.prems(2) _ _ i] new by (simp only: not_le simp_thms)
          from on [OF this] show ?thesis
            using new i \<open>offset < limit\<close> by (subst parent_loop.simps) simp
        next
          case False
          then have "parent_loop c bytes limit offset seen found = Some (XHCI_PIPE_MALFORMED, found)"
            using new Pair \<open>offset < limit\<close>
            by (subst parent_loop.simps) (auto split: pipe_status.split option.split)
          then show ?thesis using less.prems(2) by auto
        qed
      qed
    next
      case False
      then have "parent_loop c bytes limit offset seen found = Some (XHCI_PIPE_MALFORMED, found) \<or>
          parent_loop c bytes limit offset seen found = parent_loop c bytes limit (offset + ?len) seen found"
        using True by (subst (1 2) parent_loop.simps) auto
      then show ?thesis using less.prems(2) on [OF less.prems(2)] by auto
    qed
  next
    case False
    then have "parent_loop c bytes limit offset seen found =
        Some (if found = [] then XHCI_PIPE_NOT_FOUND else XHCI_PIPE_OK, found)"
      by (subst parent_loop.simps) simp
    then show ?thesis using less.prems(2) by auto
  qed
qed



end
