(* ===== verification/Xhci_Pipe_Xfer.thy ===== *)
theory Xhci_Pipe_Xfer
  imports Xhci_Pipe_Desc
begin

unbundle bit_operations_syntax

text \<open>
  The transfer half of \<^verbatim>\<open>src/src/xhci_pipe.c\<close>: the Configure Endpoint plan, the SETUP packets of
  the control requests, the split of a buffer into page pieces, isochronous packets, the status tables,
  the steps of a pipe reset, and the 64-bit sequence stamps.
\<close>

section \<open>The Configure Endpoint plan\<close>

record xhci_pipe_plan =
  AddFlags :: ulong
  DropFlags :: ulong
  ContextEntries :: ulong
  Enabled :: ulong

abbreviation (input) XHCI_PIPE_ENDPOINT_MASK :: ulong where "XHCI_PIPE_ENDPOINT_MASK \<equiv> 0xFFFFFFFC"

definition XhciPipeConfigurePlan ::
    "ulong \<Rightarrow> ulong \<Rightarrow> ulong \<Rightarrow> xhci_pipe_plan option \<Rightarrow> pipe_status \<times> xhci_pipe_plan option" where
  "XhciPipeConfigurePlan keepMask oldMask newMask plan =
     (case plan of
        None \<Rightarrow> (XHCI_PIPE_BAD_PARAM, plan)
      | Some p \<Rightarrow>
          if (keepMask OR oldMask OR newMask) AND NOT XHCI_PIPE_ENDPOINT_MASK \<noteq> 0 then (XHCI_PIPE_BAD_PARAM, plan)
          else if keepMask AND (oldMask OR newMask) \<noteq> 0 then (XHCI_PIPE_BAD_PARAM, plan)
          else
            let enabled = keepMask OR newMask in
            (XHCI_PIPE_OK,
             Some (p\<lparr>Enabled := enabled, DropFlags := oldMask, AddFlags := XHCI_PIPE_DCI_BIT 0 OR newMask,
               ContextEntries :=
                 (case find (\<lambda>dci. enabled AND XHCI_PIPE_DCI_BIT (of_nat dci) \<noteq> 0) (List.rev [2..<32]) of
                    None \<Rightarrow> 1 | Some dci \<Rightarrow> of_nat dci)\<rparr>)))"

section \<open>SETUP packets\<close>

record xhci_pipe_control =
  PcFunction :: ulong
  PcLength :: ulong
  PcDirectionIn :: bool
  PcReservedBits :: ulong
  PcRequest :: ulong
  PcValue :: ulong
  PcIndex :: ulong
  PcDescriptorType :: ulong
  PcDescriptorIndex :: ulong
  PcLanguageId :: ulong
  PcFeatureSelector :: ulong

datatype pipe_trt = XHCI_PIPE_TRT_NO_DATA | XHCI_PIPE_TRT_OUT_DATA | XHCI_PIPE_TRT_IN_DATA

abbreviation (input) XHCI_PIPE_RT_IN :: ulong where "XHCI_PIPE_RT_IN \<equiv> 0x80"
abbreviation (input) XHCI_PIPE_RT_CLASS :: ulong where "XHCI_PIPE_RT_CLASS \<equiv> 0x20"
abbreviation (input) XHCI_PIPE_RT_VENDOR :: ulong where "XHCI_PIPE_RT_VENDOR \<equiv> 0x40"
abbreviation (input) XHCI_PIPE_RT_TYPE_MASK :: ulong where "XHCI_PIPE_RT_TYPE_MASK \<equiv> 0x60"
abbreviation (input) XHCI_PIPE_RCPT_DEVICE :: ulong where "XHCI_PIPE_RCPT_DEVICE \<equiv> 0"
abbreviation (input) XHCI_PIPE_RCPT_INTERFACE :: ulong where "XHCI_PIPE_RCPT_INTERFACE \<equiv> 1"
abbreviation (input) XHCI_PIPE_RCPT_ENDPOINT :: ulong where "XHCI_PIPE_RCPT_ENDPOINT \<equiv> 2"
abbreviation (input) XHCI_PIPE_RCPT_OTHER :: ulong where "XHCI_PIPE_RCPT_OTHER \<equiv> 3"
abbreviation (input) XHCI_PIPE_REQ_GET_STATUS :: ulong where "XHCI_PIPE_REQ_GET_STATUS \<equiv> 0"
abbreviation (input) XHCI_PIPE_REQ_CLEAR_FEATURE :: ulong where "XHCI_PIPE_REQ_CLEAR_FEATURE \<equiv> 1"
abbreviation (input) XHCI_PIPE_REQ_SET_FEATURE :: ulong where "XHCI_PIPE_REQ_SET_FEATURE \<equiv> 3"
abbreviation (input) XHCI_PIPE_REQ_SET_ADDRESS :: ulong where "XHCI_PIPE_REQ_SET_ADDRESS \<equiv> 5"
abbreviation (input) XHCI_PIPE_REQ_GET_DESCRIPTOR :: ulong where "XHCI_PIPE_REQ_GET_DESCRIPTOR \<equiv> 6"
abbreviation (input) XHCI_PIPE_REQ_SET_DESCRIPTOR :: ulong where "XHCI_PIPE_REQ_SET_DESCRIPTOR \<equiv> 7"
abbreviation (input) XHCI_PIPE_REQ_GET_CONFIGURATION :: ulong where "XHCI_PIPE_REQ_GET_CONFIGURATION \<equiv> 8"
abbreviation (input) XHCI_PIPE_REQ_SET_CONFIGURATION :: ulong where "XHCI_PIPE_REQ_SET_CONFIGURATION \<equiv> 9"
abbreviation (input) XHCI_PIPE_REQ_GET_INTERFACE :: ulong where "XHCI_PIPE_REQ_GET_INTERFACE \<equiv> 10"
abbreviation (input) XHCI_PIPE_REQ_SET_INTERFACE :: ulong where "XHCI_PIPE_REQ_SET_INTERFACE \<equiv> 11"

abbreviation (input) URB_GET_DESC_DEVICE :: ulong where "URB_GET_DESC_DEVICE \<equiv> 0x0B"
abbreviation (input) URB_SET_DESC_DEVICE :: ulong where "URB_SET_DESC_DEVICE \<equiv> 0x0C"
abbreviation (input) URB_SET_FEATURE_DEVICE :: ulong where "URB_SET_FEATURE_DEVICE \<equiv> 0x0D"
abbreviation (input) URB_SET_FEATURE_INTERFACE :: ulong where "URB_SET_FEATURE_INTERFACE \<equiv> 0x0E"
abbreviation (input) URB_SET_FEATURE_ENDPOINT :: ulong where "URB_SET_FEATURE_ENDPOINT \<equiv> 0x0F"
abbreviation (input) URB_CLEAR_FEATURE_DEVICE :: ulong where "URB_CLEAR_FEATURE_DEVICE \<equiv> 0x10"
abbreviation (input) URB_CLEAR_FEATURE_INTERFACE :: ulong where "URB_CLEAR_FEATURE_INTERFACE \<equiv> 0x11"
abbreviation (input) URB_CLEAR_FEATURE_ENDPOINT :: ulong where "URB_CLEAR_FEATURE_ENDPOINT \<equiv> 0x12"
abbreviation (input) URB_GET_STATUS_DEVICE :: ulong where "URB_GET_STATUS_DEVICE \<equiv> 0x13"
abbreviation (input) URB_GET_STATUS_INTERFACE :: ulong where "URB_GET_STATUS_INTERFACE \<equiv> 0x14"
abbreviation (input) URB_GET_STATUS_ENDPOINT :: ulong where "URB_GET_STATUS_ENDPOINT \<equiv> 0x15"
abbreviation (input) URB_VENDOR_DEVICE :: ulong where "URB_VENDOR_DEVICE \<equiv> 0x17"
abbreviation (input) URB_VENDOR_INTERFACE :: ulong where "URB_VENDOR_INTERFACE \<equiv> 0x18"
abbreviation (input) URB_VENDOR_ENDPOINT :: ulong where "URB_VENDOR_ENDPOINT \<equiv> 0x19"
abbreviation (input) URB_CLASS_DEVICE :: ulong where "URB_CLASS_DEVICE \<equiv> 0x1A"
abbreviation (input) URB_CLASS_INTERFACE :: ulong where "URB_CLASS_INTERFACE \<equiv> 0x1B"
abbreviation (input) URB_CLASS_ENDPOINT :: ulong where "URB_CLASS_ENDPOINT \<equiv> 0x1C"
abbreviation (input) URB_RESET_PIPE :: ulong where "URB_RESET_PIPE \<equiv> 0x1E"
abbreviation (input) URB_CLASS_OTHER :: ulong where "URB_CLASS_OTHER \<equiv> 0x1F"
abbreviation (input) URB_VENDOR_OTHER :: ulong where "URB_VENDOR_OTHER \<equiv> 0x20"
abbreviation (input) URB_GET_STATUS_OTHER :: ulong where "URB_GET_STATUS_OTHER \<equiv> 0x21"
abbreviation (input) URB_CLEAR_FEATURE_OTHER :: ulong where "URB_CLEAR_FEATURE_OTHER \<equiv> 0x22"
abbreviation (input) URB_SET_FEATURE_OTHER :: ulong where "URB_SET_FEATURE_OTHER \<equiv> 0x23"
abbreviation (input) URB_GET_DESC_ENDPOINT :: ulong where "URB_GET_DESC_ENDPOINT \<equiv> 0x24"
abbreviation (input) URB_SET_DESC_ENDPOINT :: ulong where "URB_SET_DESC_ENDPOINT \<equiv> 0x25"
abbreviation (input) URB_GET_CONFIGURATION :: ulong where "URB_GET_CONFIGURATION \<equiv> 0x26"
abbreviation (input) URB_GET_INTERFACE :: ulong where "URB_GET_INTERFACE \<equiv> 0x27"
abbreviation (input) URB_GET_DESC_INTERFACE :: ulong where "URB_GET_DESC_INTERFACE \<equiv> 0x28"
abbreviation (input) URB_SET_DESC_INTERFACE :: ulong where "URB_SET_DESC_INTERFACE \<equiv> 0x29"
abbreviation (input) URB_SYNC_RESET_PIPE :: ulong where "URB_SYNC_RESET_PIPE \<equiv> 0x30"
abbreviation (input) URB_SYNC_CLEAR_STALL :: ulong where "URB_SYNC_CLEAR_STALL \<equiv> 0x31"

definition xhciPipeSetup :: "uchar list \<Rightarrow> ulong \<Rightarrow> ulong \<Rightarrow> ulong \<Rightarrow> ulong \<Rightarrow> ulong \<Rightarrow> uchar list" where
  "xhciPipeSetup packet requestType request v index wLength =
     packet[0 := ucast requestType, 1 := ucast request,
            2 := ucast (v AND 0xFF), 3 := ucast (drop_bit 8 v AND 0xFF),
            4 := ucast (index AND 0xFF), 5 := ucast (drop_bit 8 index AND 0xFF),
            6 := ucast (wLength AND 0xFF), 7 := ucast (drop_bit 8 wLength AND 0xFF)]"

definition xhciPipeTrt :: "ulong \<Rightarrow> ulong \<Rightarrow> pipe_trt" where
  "xhciPipeTrt requestType wLength =
     (if wLength = 0 then XHCI_PIPE_TRT_NO_DATA
      else if requestType AND XHCI_PIPE_RT_IN \<noteq> 0 then XHCI_PIPE_TRT_IN_DATA else XHCI_PIPE_TRT_OUT_DATA)"

text \<open>The cases of the switch: request type, request, value, index and length, or the refusal.\<close>

definition setup_descriptor :: "xhci_pipe_control \<Rightarrow> pipe_status + ulong \<times> ulong \<times> ulong \<times> ulong \<times> ulong" where
  "setup_descriptor c =
     (if PcDescriptorType c > 0xFF \<or> PcDescriptorIndex c > 0xFF \<or> PcLanguageId c > 0xFFFF then Inl XHCI_PIPE_BAD_PARAM
      else
        let f = PcFunction c;
            recipient = (if f = URB_GET_DESC_DEVICE \<or> f = URB_SET_DESC_DEVICE then XHCI_PIPE_RCPT_DEVICE
                         else if f = URB_GET_DESC_INTERFACE \<or> f = URB_SET_DESC_INTERFACE then XHCI_PIPE_RCPT_INTERFACE
                         else XHCI_PIPE_RCPT_ENDPOINT);
            (rt, request) = (if f = URB_GET_DESC_DEVICE \<or> f = URB_GET_DESC_INTERFACE \<or> f = URB_GET_DESC_ENDPOINT
                             then (XHCI_PIPE_RT_IN OR recipient, XHCI_PIPE_REQ_GET_DESCRIPTOR)
                             else (recipient, XHCI_PIPE_REQ_SET_DESCRIPTOR))
        in Inr (rt, request, push_bit 8 (PcDescriptorType c) OR PcDescriptorIndex c, PcLanguageId c, PcLength c))"

definition setup_feature :: "xhci_pipe_control \<Rightarrow> pipe_status + ulong \<times> ulong \<times> ulong \<times> ulong \<times> ulong" where
  "setup_feature c =
     (if PcFeatureSelector c > 0xFFFF \<or> PcIndex c > 0xFFFF then Inl XHCI_PIPE_BAD_PARAM
      else
        let f = PcFunction c;
            recipient = (if f = URB_SET_FEATURE_DEVICE \<or> f = URB_CLEAR_FEATURE_DEVICE then XHCI_PIPE_RCPT_DEVICE
                         else if f = URB_SET_FEATURE_INTERFACE \<or> f = URB_CLEAR_FEATURE_INTERFACE then XHCI_PIPE_RCPT_INTERFACE
                         else if f = URB_SET_FEATURE_ENDPOINT \<or> f = URB_CLEAR_FEATURE_ENDPOINT then XHCI_PIPE_RCPT_ENDPOINT
                         else XHCI_PIPE_RCPT_OTHER);
            request = (if f = URB_SET_FEATURE_DEVICE \<or> f = URB_SET_FEATURE_INTERFACE \<or> f = URB_SET_FEATURE_ENDPOINT \<or>
                          f = URB_SET_FEATURE_OTHER
                       then XHCI_PIPE_REQ_SET_FEATURE else XHCI_PIPE_REQ_CLEAR_FEATURE)
        in Inr (recipient, request, PcFeatureSelector c, PcIndex c, 0))"

definition setup_status :: "xhci_pipe_control \<Rightarrow> pipe_status + ulong \<times> ulong \<times> ulong \<times> ulong \<times> ulong" where
  "setup_status c =
     (if PcIndex c > 0xFFFF \<or> PcLength c < 2 then Inl XHCI_PIPE_BAD_PARAM
      else
        let f = PcFunction c;
            recipient = (if f = URB_GET_STATUS_DEVICE then XHCI_PIPE_RCPT_DEVICE
                         else if f = URB_GET_STATUS_INTERFACE then XHCI_PIPE_RCPT_INTERFACE
                         else if f = URB_GET_STATUS_ENDPOINT then XHCI_PIPE_RCPT_ENDPOINT
                         else XHCI_PIPE_RCPT_OTHER)
        in Inr (XHCI_PIPE_RT_IN OR recipient, XHCI_PIPE_REQ_GET_STATUS, 0, PcIndex c, 2))"

definition setup_typed :: "xhci_pipe_control \<Rightarrow> pipe_status + ulong \<times> ulong \<times> ulong \<times> ulong \<times> ulong" where
  "setup_typed c =
     (if PcRequest c > 0xFF \<or> PcValue c > 0xFFFF \<or> PcIndex c > 0xFFFF then Inl XHCI_PIPE_BAD_PARAM
      else
        let f = PcFunction c;
            recipient = (if f = URB_VENDOR_DEVICE \<or> f = URB_CLASS_DEVICE then XHCI_PIPE_RCPT_DEVICE
                         else if f = URB_VENDOR_INTERFACE \<or> f = URB_CLASS_INTERFACE then XHCI_PIPE_RCPT_INTERFACE
                         else if f = URB_VENDOR_ENDPOINT \<or> f = URB_CLASS_ENDPOINT then XHCI_PIPE_RCPT_ENDPOINT
                         else XHCI_PIPE_RCPT_OTHER);
            type = (if f = URB_VENDOR_DEVICE \<or> f = URB_VENDOR_INTERFACE \<or> f = URB_VENDOR_ENDPOINT \<or> f = URB_VENDOR_OTHER
                    then XHCI_PIPE_RT_VENDOR else XHCI_PIPE_RT_CLASS)
        in Inr ((if PcDirectionIn c then XHCI_PIPE_RT_IN else 0) OR type OR recipient, PcRequest c, PcValue c, PcIndex c,
                PcLength c))"

definition setup_request :: "xhci_pipe_control \<Rightarrow> pipe_status + ulong \<times> ulong \<times> ulong \<times> ulong \<times> ulong" where
  "setup_request c =
     (let f = PcFunction c in
      if f \<in> set [URB_GET_DESC_DEVICE, URB_GET_DESC_INTERFACE, URB_GET_DESC_ENDPOINT,
                  URB_SET_DESC_DEVICE, URB_SET_DESC_INTERFACE, URB_SET_DESC_ENDPOINT] then setup_descriptor c
      else if f \<in> set [URB_SET_FEATURE_DEVICE, URB_SET_FEATURE_INTERFACE, URB_SET_FEATURE_ENDPOINT, URB_SET_FEATURE_OTHER,
                       URB_CLEAR_FEATURE_DEVICE, URB_CLEAR_FEATURE_INTERFACE, URB_CLEAR_FEATURE_ENDPOINT,
                       URB_CLEAR_FEATURE_OTHER] then setup_feature c
      else if f \<in> set [URB_GET_STATUS_DEVICE, URB_GET_STATUS_INTERFACE, URB_GET_STATUS_ENDPOINT, URB_GET_STATUS_OTHER]
      then setup_status c
      else if f = URB_GET_CONFIGURATION then
        (if PcLength c < 1 then Inl XHCI_PIPE_BAD_PARAM
         else Inr (XHCI_PIPE_RT_IN OR XHCI_PIPE_RCPT_DEVICE, XHCI_PIPE_REQ_GET_CONFIGURATION, 0, 0, 1))
      else if f = URB_GET_INTERFACE then
        (if PcIndex c > 0xFFFF \<or> PcLength c < 1 then Inl XHCI_PIPE_BAD_PARAM
         else Inr (XHCI_PIPE_RT_IN OR XHCI_PIPE_RCPT_INTERFACE, XHCI_PIPE_REQ_GET_INTERFACE, 0, PcIndex c, 1))
      else if f \<in> set [URB_VENDOR_DEVICE, URB_VENDOR_INTERFACE, URB_VENDOR_ENDPOINT, URB_VENDOR_OTHER,
                       URB_CLASS_DEVICE, URB_CLASS_INTERFACE, URB_CLASS_ENDPOINT, URB_CLASS_OTHER] then setup_typed c
      else Inl XHCI_PIPE_UNSUPPORTED)"

text \<open>The status, the eight bytes of \<open>setup\<close> and \<open>*trt\<close> when written.\<close>

definition XhciPipeBuildSetup ::
    "xhci_pipe_control option \<Rightarrow> uchar list option \<Rightarrow> pipe_status \<times> uchar list option \<times> pipe_trt option" where
  "XhciPipeBuildSetup control packet =
     (case (control, packet) of
        (Some c, Some p) \<Rightarrow>
          if PcLength c > 0xFFFF then (XHCI_PIPE_BAD_PARAM, packet, None)
          else
            (case setup_request c of
               Inl st \<Rightarrow> (st, packet, None)
             | Inr (rt, request, v, index, wLength) \<Rightarrow>
                 (XHCI_PIPE_OK, Some (xhciPipeSetup p rt request v index wLength), Some (xhciPipeTrt rt wLength)))
      | _ \<Rightarrow> (XHCI_PIPE_BAD_PARAM, packet, None))"

definition XhciPipeCheckRawSetup :: "uchar list option \<Rightarrow> pipe_status \<times> pipe_trt option" where
  "XhciPipeCheckRawSetup packet =
     (case packet of
        None \<Rightarrow> (XHCI_PIPE_BAD_PARAM, None)
      | Some p \<Rightarrow>
          let rt = ucast (p ! 0) in
          if rt AND XHCI_PIPE_RT_TYPE_MASK = 0 \<and>
             (ucast (p ! 1) = XHCI_PIPE_REQ_SET_ADDRESS \<or> ucast (p ! 1) = XHCI_PIPE_REQ_SET_CONFIGURATION \<or>
              ucast (p ! 1) = XHCI_PIPE_REQ_SET_INTERFACE)
          then (XHCI_PIPE_REFUSED, None)
          else (XHCI_PIPE_OK, Some (xhciPipeTrt rt (xhciPipeWord p 6))))"

section \<open>Splitting a buffer\<close>

record xhci_pipe_element =
  ElPage :: ulong
  ElOffset :: ulong
  ElLength :: ulong

abbreviation (input) XHCI_PIPE_PAGE_MASK :: ulong where "XHCI_PIPE_PAGE_MASK \<equiv> 0xFFF"
abbreviation (input) XHCI_PIPE_CHUNK_ELEMENTS :: ulong where "XHCI_PIPE_CHUNK_ELEMENTS \<equiv> 32"
abbreviation (input) XHCI_PIPE_TD_MAX_BYTES :: ulong where "XHCI_PIPE_TD_MAX_BYTES \<equiv> 0x20000"

text \<open>
  The loop over the pieces, with the elements written so far. It moves on only while the offset is
  below a page, so it is a partial function; that it returns is part of what is proved of the split.
\<close>

partial_function (option) split_loop ::
    "ulong \<Rightarrow> ulong \<Rightarrow> ulong \<Rightarrow> xhci_pipe_element list \<Rightarrow> xhci_pipe_element list option" where
  "split_loop n offset remaining elements =
     (if remaining \<noteq> 0 then
        let piece = XHCI_PIPE_PAGE_SIZE - offset;
            piece = (if piece > remaining then remaining else piece)
        in split_loop (n + 1) 0 (remaining - piece) (elements @ [\<lparr>ElPage = n, ElOffset = offset, ElLength = piece\<rparr>])
      else Some elements)"

definition split_chunk :: "ulong \<Rightarrow> ulong \<Rightarrow> ulong \<Rightarrow> ulong \<Rightarrow> ulong" where
  "split_chunk pageOffset bytes maxPacketSize pages =
     (let cap = pages * XHCI_PIPE_PAGE_SIZE - pageOffset;
          cap = (if cap > XHCI_PIPE_TD_MAX_BYTES then XHCI_PIPE_TD_MAX_BYTES else cap);
          chunk = (if bytes < cap then bytes else cap)
      in if chunk < bytes then chunk - chunk mod maxPacketSize else chunk)"

text \<open>The status, the elements written, and \<open>*chunkBytes\<close>; \<open>*count\<close> is the number of elements.\<close>

definition XhciPipeSplit ::
    "ulong \<Rightarrow> ulong \<Rightarrow> ulong \<Rightarrow> ulong \<Rightarrow> ulong \<Rightarrow> (pipe_status \<times> xhci_pipe_element list \<times> ulong) option" where
  "XhciPipeSplit pageOffset bytes maxPacketSize mapRegisters maxElements =
     (if pageOffset \<ge> XHCI_PIPE_PAGE_SIZE \<or> maxPacketSize = 0 then Some (XHCI_PIPE_BAD_PARAM, [], 0)
      else if bytes = 0 then Some (XHCI_PIPE_OK, [], 0)
      else
        let pages = mapRegisters;
            pages = (if pages > maxElements then maxElements else pages);
            pages = (if pages > XHCI_PIPE_CHUNK_ELEMENTS then XHCI_PIPE_CHUNK_ELEMENTS else pages)
        in
        if pages = 0 then Some (XHCI_PIPE_BAD_PARAM, [], 0)
        else
          let chunk = split_chunk pageOffset bytes maxPacketSize pages in
          if chunk < bytes \<and> chunk = 0 then Some (XHCI_PIPE_BAD_PARAM, [], 0)
          else (case split_loop 0 pageOffset chunk [] of
                  None \<Rightarrow> None
                | Some elements \<Rightarrow> Some (XHCI_PIPE_OK, elements, chunk)))"

section \<open>Isochronous packets\<close>

record xhci_pipe_iso_packet =
  IpOffset :: ulong
  IpLength :: ulong
  IpStatus :: ulong

definition XhciPipeIsoLength :: "xhci_pipe_iso_packet list \<Rightarrow> ulong \<Rightarrow> ulong \<Rightarrow> ulong \<Rightarrow> ulong" where
  "XhciPipeIsoLength packets count bufferLength i =
     ((if i + 1 < count then IpOffset (packets ! unat (i + 1)) else bufferLength) - IpOffset (packets ! unat i))"

text \<open>The body of the loop of \<open>XhciPipeIsoCheck\<close>: packet \<open>i\<close> is in order.\<close>

definition iso_packet_ok :: "xhci_pipe_iso_packet list \<Rightarrow> ulong \<Rightarrow> ulong \<Rightarrow> ulong \<Rightarrow> nat \<Rightarrow> bool" where
  "iso_packet_ok packets count bufferLength maxPacket i \<longleftrightarrow>
     \<not> (IpOffset (packets ! i) > bufferLength \<or>
        of_nat i + 1 < count \<and> IpOffset (packets ! (i + 1)) < IpOffset (packets ! i)) \<and>
     \<not> (maxPacket \<noteq> 0 \<and> XhciPipeIsoLength packets count bufferLength (of_nat i) > maxPacket)"

definition XhciPipeIsoCheck :: "xhci_pipe_iso_packet list option \<Rightarrow> ulong \<Rightarrow> ulong \<Rightarrow> ulong \<Rightarrow> ulong \<Rightarrow> pipe_status" where
  "XhciPipeIsoCheck packets count bufferLength maxCount maxPacket =
     (case packets of
        None \<Rightarrow> XHCI_PIPE_BAD_PARAM
      | Some ps \<Rightarrow>
          if count = 0 \<or> count > maxCount \<or> bufferLength = 0 then XHCI_PIPE_BAD_PARAM
          else if list_all (iso_packet_ok ps count bufferLength maxPacket) [0..<unat count] then XHCI_PIPE_OK
          else XHCI_PIPE_BAD_PARAM)"

text \<open>The number of fragments and the two lengths when written.\<close>

definition XhciPipeIsoFragments :: "ulong \<Rightarrow> ulong \<Rightarrow> ulong \<Rightarrow> ulong \<times> (ulong \<times> ulong) option" where
  "XhciPipeIsoFragments pageOffset offset bytes =
     (if pageOffset \<ge> XHCI_PIPE_PAGE_SIZE \<or> bytes > XHCI_PIPE_PAGE_SIZE then (0, None)
      else
        let room = XHCI_PIPE_PAGE_SIZE - ((pageOffset + offset) AND XHCI_PIPE_PAGE_MASK) in
        if bytes \<le> room then (1, Some (bytes, 0)) else (2, Some (room, bytes - room)))"

definition XhciPipeIsoFrameOf :: "ulong \<Rightarrow> ulong \<Rightarrow> ulong" where
  "XhciPipeIsoFrameOf i interval = drop_bit 3 (push_bit (unat interval) i)"

definition XhciPipeIsoFrames :: "ulong \<Rightarrow> ulong \<Rightarrow> ulong" where
  "XhciPipeIsoFrames packets interval = drop_bit 3 (push_bit (unat interval) packets + 7)"

definition XhciPipeIsoStartOk :: "ulong \<Rightarrow> ulong \<Rightarrow> ulong \<Rightarrow> pipe_status" where
  "XhciPipeIsoStartOk startFrame now ahead =
     (if startFrame - now \<le> ahead \<or> now - startFrame \<le> 1024 then XHCI_PIPE_OK else XHCI_PIPE_REFUSED)"

section \<open>Statuses\<close>

definition XhciPipeNtStatus :: "ulong \<Rightarrow> ulong" where
  "XhciPipeNtStatus usbd =
     (if usbd = 0 then 0
      else if usbd = 0x40000000 then 0x00000103
      else if usbd = 0x00010000 then 0xC0000120
      else if usbd = 0x80000200 \<or> usbd = 0x80000300 \<or> usbd = 0x80000600 \<or> usbd = 0xC0000A00 then 0xC000000D
      else if usbd = 0x80000100 \<or> usbd = 0x80000700 then 0xC000009A
      else if usbd = 0x80000400 then 0x80000011
      else if usbd = 0xC0007000 then 0xC000009D
      else if usbd AND 0x80000000 \<noteq> 0 then 0xC0000001
      else 0)"

definition XhciPipeConfigureUsbdStatus :: "ulong \<Rightarrow> ulong" where
  "XhciPipeConfigureUsbdStatus completionCode =
     (if completionCode = 1 then 0
      else if completionCode = 7 \<or> completionCode = 8 \<or> completionCode = 35 then 0x80000700
      else 0x80000800)"

section \<open>Resetting a pipe\<close>

abbreviation (input) XHCI_PIPE_RESET_HOST :: ulong where "XHCI_PIPE_RESET_HOST \<equiv> 1"
abbreviation (input) XHCI_PIPE_RESET_DEVICE :: ulong where "XHCI_PIPE_RESET_DEVICE \<equiv> 2"
abbreviation (input) XHCI_PIPE_STEP_DEVICE_FIRST :: ulong where "XHCI_PIPE_STEP_DEVICE_FIRST \<equiv> 1"
abbreviation (input) XHCI_PIPE_STEP_RESET_EP :: ulong where "XHCI_PIPE_STEP_RESET_EP \<equiv> 2"
abbreviation (input) XHCI_PIPE_STEP_RECYCLE :: ulong where "XHCI_PIPE_STEP_RECYCLE \<equiv> 4"
abbreviation (input) XHCI_PIPE_STEP_CLEAR_TT :: ulong where "XHCI_PIPE_STEP_CLEAR_TT \<equiv> 8"
abbreviation (input) XHCI_PIPE_STEP_DEVICE :: ulong where "XHCI_PIPE_STEP_DEVICE \<equiv> 0x10"
abbreviation (input) XHCI_PIPE_STEP_SET_DEQUEUE :: ulong where "XHCI_PIPE_STEP_SET_DEQUEUE \<equiv> 0x20"
abbreviation (input) XHCI_EP_STATE_HALTED :: ulong where "XHCI_EP_STATE_HALTED \<equiv> 2"
abbreviation (input) XHCI_EP_STATE_STOPPED :: ulong where "XHCI_EP_STATE_STOPPED \<equiv> 3"

definition XhciPipeResetParts :: "ulong \<Rightarrow> ulong" where
  "XhciPipeResetParts f =
     (if f = URB_RESET_PIPE then XHCI_PIPE_RESET_HOST OR XHCI_PIPE_RESET_DEVICE
      else if f = URB_SYNC_RESET_PIPE then XHCI_PIPE_RESET_HOST
      else if f = URB_SYNC_CLEAR_STALL then XHCI_PIPE_RESET_DEVICE
      else 0)"

definition XhciPipeResetSteps :: "ulong \<Rightarrow> ulong \<Rightarrow> bool \<Rightarrow> ulong \<Rightarrow> ulong" where
  "XhciPipeResetSteps parts state owed type =
     (let tt = (if type = XHCI_PIPE_XFER_CONTROL \<or> type = XHCI_PIPE_XFER_BULK then XHCI_PIPE_STEP_CLEAR_TT else 0);
          device = (if type = XHCI_PIPE_XFER_BULK \<or> type = XHCI_PIPE_XFER_INTERRUPT then XHCI_PIPE_STEP_DEVICE else 0)
      in
      if parts AND XHCI_PIPE_RESET_DEVICE = 0 then 0
      else if owed \<and> state = XHCI_EP_STATE_STOPPED then tt OR device OR XHCI_PIPE_STEP_SET_DEQUEUE
      else if parts AND XHCI_PIPE_RESET_HOST = 0 then
        (if type \<noteq> XHCI_PIPE_XFER_ISOCH then XHCI_PIPE_STEP_DEVICE_FIRST else 0)
      else if state = XHCI_EP_STATE_HALTED
      then XHCI_PIPE_STEP_RESET_EP OR tt OR device OR XHCI_PIPE_STEP_SET_DEQUEUE
      else (if type \<noteq> XHCI_PIPE_XFER_ISOCH then XHCI_PIPE_STEP_DEVICE_FIRST else 0) OR XHCI_PIPE_STEP_RECYCLE)"

datatype pipe_clear = XHCI_PIPE_CLEAR_GO | XHCI_PIPE_CLEAR_RESUME | XHCI_PIPE_CLEAR_OWED | XHCI_PIPE_CLEAR_HELD

definition XhciPipeClearVerdict :: "ulong \<Rightarrow> bool \<Rightarrow> bool \<Rightarrow> pipe_clear" where
  "XhciPipeClearVerdict step taken stuck =
     (if taken then XHCI_PIPE_CLEAR_GO
      else if stuck then XHCI_PIPE_CLEAR_HELD
      else if step = XHCI_PIPE_STEP_DEVICE then XHCI_PIPE_CLEAR_OWED else XHCI_PIPE_CLEAR_RESUME)"

section \<open>The bus interface\<close>

definition XhciPipeUsbdiSize :: "ulong \<Rightarrow> ulong \<Rightarrow> ulong" where
  "XhciPipeUsbdiSize version pointerBytes =
     (if pointerBytes \<noteq> 4 \<and> pointerBytes \<noteq> 8 then 0
      else if version = 0 then pointerBytes + 7 * pointerBytes
      else if version = 1 then pointerBytes + 8 * pointerBytes
      else if version = 2 then pointerBytes + 9 * pointerBytes
      else if version = 3 then pointerBytes + 11 * pointerBytes
      else 0)"

definition xhciPipePut32 :: "uchar list \<Rightarrow> nat \<Rightarrow> ulong \<Rightarrow> uchar list" where
  "xhciPipePut32 p i v =
     p[i := ucast (v AND 0xFF), i + 1 := ucast (drop_bit 8 v AND 0xFF),
       i + 2 := ucast (drop_bit 16 v AND 0xFF), i + 3 := ucast (drop_bit 24 v AND 0xFF)]"

datatype businfo_status =
    BUSINFO_OK | BUSINFO_UNSUPPORTED | BUSINFO_BAD_PARAM | BUSINFO_TOO_SMALL

text \<open>The status, the buffer, \<open>*length\<close> and \<open>*actual\<close> when written.\<close>

definition XhciPipeBusInformation ::
    "ulong \<Rightarrow> ulong \<Rightarrow> ulong \<Rightarrow> uchar list option \<Rightarrow> ulong option \<Rightarrow>
     businfo_status \<times> uchar list option \<times> ulong option \<times> ulong option" where
  "XhciPipeBusInformation level totalBandwidth consumedBandwidth buffer len =
     (if level \<noteq> 0 \<and> level \<noteq> 1 then (BUSINFO_UNSUPPORTED, buffer, len, None)
      else
        let need = (if level = 0 then 8 else 16) in
        (case len of
           None \<Rightarrow> (BUSINFO_BAD_PARAM, buffer, len, Some need)
         | Some l \<Rightarrow>
             if l < need then (BUSINFO_TOO_SMALL, buffer, len, Some need)
             else (case buffer of
                     None \<Rightarrow> (BUSINFO_BAD_PARAM, buffer, len, Some need)
                   | Some b \<Rightarrow>
                       (BUSINFO_OK,
                        Some (xhciPipePut32 (xhciPipePut32 (foldl (\<lambda>b i. b[i := 0]) b [0..<unat need]) 0 totalBandwidth)
                                4 consumedBandwidth),
                        Some need, Some need))))"

definition XhciPipeTopologyAddress ::
    "ulong \<Rightarrow> ulong \<Rightarrow> ulong \<Rightarrow> ulong \<Rightarrow> uchar list option \<Rightarrow> pipe_status \<times> uchar list option" where
  "XhciPipeTopologyAddress pciBus pciAddress rootPort route out =
     (case out of
        None \<Rightarrow> (XHCI_PIPE_BAD_PARAM, out)
      | Some b \<Rightarrow>
          if rootPort = 0 \<or> rootPort > 255 then (XHCI_PIPE_BAD_PARAM, out)
          else
            let b = foldl (\<lambda>b i. b[i := 0]) b [0..<32];
                b = xhciPipePut32 b 0 pciBus;
                b = xhciPipePut32 b 4 (drop_bit 16 pciAddress AND 0xFFFF);
                b = xhciPipePut32 b 8 (pciAddress AND 0xFFFF);
                b = b[16 := ucast (rootPort AND 0xFF)]
            in (XHCI_PIPE_OK, Some (foldl (\<lambda>b i. b[18 + 2 * i := ucast (drop_bit (4 * i) route AND 0xF)]) b [0..<5])))"

definition XhciPipeSpeedFromClass :: "ulong \<Rightarrow> ulong" where
  "XhciPipeSpeedFromClass speedClass =
     (if speedClass = 1 then XHCI_PIPE_SPEED_LOW
      else if speedClass = 2 then XHCI_PIPE_SPEED_FULL
      else if speedClass = 3 then XHCI_PIPE_SPEED_HIGH else 0)"

section \<open>Sequence stamps\<close>

record xhci_seq64 =
  SeqLo :: ulong
  SeqHi :: ulong

definition XhciSeqNext :: "xhci_seq64 \<Rightarrow> xhci_seq64" where
  "XhciSeqNext s =
     (let s = s\<lparr>SeqLo := SeqLo s + 1\<rparr> in
      if SeqLo s = 0 then s\<lparr>SeqHi := SeqHi s + 1, SeqLo := 1\<rparr> else s)"

definition XhciSeqFromStamp :: "xhci_seq64 \<Rightarrow> ulong \<Rightarrow> xhci_seq64" where
  "XhciSeqFromStamp current stamp =
     (let age = SeqLo current - stamp in
      \<lparr>SeqLo = stamp, SeqHi = SeqHi current - (if age > SeqLo current then 1 else 0)\<rparr>)"

definition XhciSeqLessEq :: "xhci_seq64 \<Rightarrow> xhci_seq64 \<Rightarrow> bool" where
  "XhciSeqLessEq a b \<longleftrightarrow> SeqHi a < SeqHi b \<or> SeqHi a = SeqHi b \<and> SeqLo a \<le> SeqLo b"

definition XhciSeqIsNone :: "xhci_seq64 \<Rightarrow> bool" where
  "XhciSeqIsNone a \<longleftrightarrow> SeqLo a = 0 \<and> SeqHi a = 0"

definition XhciSeqCovers :: "xhci_seq64 \<Rightarrow> ulong \<Rightarrow> xhci_seq64 \<Rightarrow> bool" where
  "XhciSeqCovers horizon stamp current =
     (if XhciSeqIsNone horizon \<or> stamp = 0 then False
      else XhciSeqLessEq (XhciSeqFromStamp current stamp) horizon)"

definition XhciSeqLatest :: "xhci_seq64 \<Rightarrow> xhci_seq64 \<Rightarrow> xhci_seq64" where
  "XhciSeqLatest into other =
     (if XhciSeqIsNone other then into
      else if XhciSeqIsNone into \<or> XhciSeqLessEq into other then other else into)"

end
