(* ===== verification/Xhci_Pipe_Iso_Props.thy ===== *)
theory Xhci_Pipe_Iso_Props
  imports Xhci_Pipe_Xfer
begin

unbundle bit_operations_syntax

text \<open>
  The packets of a checked isochronous transfer tile its buffer, and the fragments of a packet stay
  inside their pages.
\<close>

section \<open>Packets\<close>

definition iso_at :: "xhci_pipe_iso_packet list \<Rightarrow> nat \<Rightarrow> nat" where
  "iso_at ps i = unat (IpOffset (ps ! i))"

text \<open>The bytes of the buffer packet \<open>i\<close> carries.\<close>

definition iso_span :: "xhci_pipe_iso_packet list \<Rightarrow> ulong \<Rightarrow> ulong \<Rightarrow> nat \<Rightarrow> nat list" where
  "iso_span ps count bufferLength i =
     [iso_at ps i..<iso_at ps i + unat (XhciPipeIsoLength ps count bufferLength (of_nat i))]"

lemma iso_length:
  assumes "list_all (iso_packet_ok ps count bufferLength maxPacket) [0..<unat count]" and "i < unat count"
  shows "iso_at ps i \<le> unat bufferLength"
    and "iso_at ps i + unat (XhciPipeIsoLength ps count bufferLength (of_nat i)) =
      (if i + 1 < unat count then iso_at ps (i + 1) else unat bufferLength)"
    and "maxPacket \<noteq> 0 \<Longrightarrow> XhciPipeIsoLength ps count bufferLength (of_nat i) \<le> maxPacket"
proof -
  have ok: "iso_packet_ok ps count bufferLength maxPacket i" using assms by (simp add: list_all_iff)
  have c: "unat count < 4294967296" by simp
  then have i: "unat (of_nat i :: ulong) = i" using assms(2) by (intro unat_of_nat_ulong) linarith
  have i1: "unat (of_nat i + 1 :: ulong) = i + 1"
  proof -
    have "unat (of_nat i :: ulong) + unat (1 :: ulong) < 4294967296" using i assms(2) c unfolding unat_1 by linarith
    from unat_add_no_wrap [OF this] show ?thesis using i by simp
  qed
  have last: "(of_nat i :: ulong) + 1 < count \<longleftrightarrow> i + 1 < unat count" by (simp only: word_less_nat_alt i1)
  show b: "iso_at ps i \<le> unat bufferLength"
    using ok unfolding iso_packet_ok_def iso_at_def by (simp add: word_le_nat_alt not_less)
  have n: "iso_at ps i \<le> iso_at ps (i + 1)" if "i + 1 < unat count"
    using ok that unfolding iso_packet_ok_def iso_at_def last by (simp add: word_le_nat_alt not_less)
  show "iso_at ps i + unat (XhciPipeIsoLength ps count bufferLength (of_nat i)) =
      (if i + 1 < unat count then iso_at ps (i + 1) else unat bufferLength)"
    using b n unfolding XhciPipeIsoLength_def last i i1 iso_at_def
    by (cases "i + 1 < unat count") (simp_all add: unat_sub_no_wrap)
  show "maxPacket \<noteq> 0 \<Longrightarrow> XhciPipeIsoLength ps count bufferLength (of_nat i) \<le> maxPacket"
    using ok unfolding iso_packet_ok_def by (simp add: not_less)
qed

lemma iso_prefix:
  assumes "list_all (iso_packet_ok ps count bufferLength maxPacket) [0..<unat count]"
  shows "n < unat count \<Longrightarrow>
    iso_at ps 0 \<le> iso_at ps n \<and> concat (map (iso_span ps count bufferLength) [0..<n]) = [iso_at ps 0..<iso_at ps n]"
proof (induction n)
  case (Suc n)
  then have n: "n < unat count" "n + 1 < unat count" by simp_all
  note l = iso_length(2) [OF assms n(1)]
  have e: "iso_at ps n + unat (XhciPipeIsoLength ps count bufferLength (of_nat n)) = iso_at ps (Suc n)"
    using l n(2) by simp
  then have le: "iso_at ps n \<le> iso_at ps (Suc n)" by linarith
  have "[iso_at ps 0..<iso_at ps n] @ [iso_at ps n..<iso_at ps (Suc n)] = [iso_at ps 0..<iso_at ps (Suc n)]"
    using Suc.IH n(1) le upt_add_eq_append [of "iso_at ps 0" "iso_at ps n" "iso_at ps (Suc n) - iso_at ps n"] by simp
  then show ?case using Suc.IH n(1) le e by (simp add: iso_span_def)
qed simp

section \<open>Fragments\<close>

text \<open>The pieces of a page a fragment covers: the page after an offset, then the start of the next.\<close>

definition fragment_ok :: "ulong \<Rightarrow> ulong \<Rightarrow> ulong \<times> (ulong \<times> ulong) option \<Rightarrow> bool" where
  "fragment_ok at len = (\<lambda>(n, pieces). case pieces of
       None \<Rightarrow> False
     | Some (a, b) \<Rightarrow> unat a + unat b = unat len \<and> unat at mod 4096 + unat a \<le> 4096 \<and> unat b < 4096 \<and>
         n = (if b = 0 then 1 else 2) \<and> (b \<noteq> 0 \<longrightarrow> unat at mod 4096 + unat a = 4096))"

lemma fragments_ok:
  assumes "pageOffset < 4096" and "len \<le> 4096"
  shows "fragment_ok (pageOffset + offset) len (XhciPipeIsoFragments pageOffset offset len)"
proof -
  define room where "room = 4096 - ((pageOffset + offset) AND 0xFFF)"
  have "(0xFFF :: ulong) = mask 12" by (simp add: mask_eq_exp_minus_1)
  then have m: "unat ((pageOffset + offset) AND 0xFFF) = unat (pageOffset + offset) mod 4096"
    using unat_and_mask [of "pageOffset + offset" 12] by simp
  have room: "unat room = 4096 - unat (pageOffset + offset) mod 4096"
    unfolding room_def using m by (subst unat_sub_no_wrap) simp_all
  have lt: "unat (pageOffset + offset) mod 4096 < 4096" by simp
  have len: "unat len \<le> 4096" using assms(2) by (simp add: word_le_nat_alt)
  have f: "XhciPipeIsoFragments pageOffset offset len = (if len \<le> room then (1, Some (len, 0)) else (2, Some (room, len - room)))"
    using assms by (simp add: XhciPipeIsoFragments_def room_def Let_def not_less [symmetric])
  show ?thesis
  proof (cases "len \<le> room")
    case True
    then have "unat len \<le> unat room" by (simp add: word_le_nat_alt)
    then show ?thesis unfolding f using True room lt by (simp add: fragment_ok_def)
  next
    case False
    then have r: "unat room < unat len" by (simp add: word_less_nat_alt not_le)
    have d: "unat (len - room) = unat len - unat room" using r by (intro unat_sub_no_wrap) simp
    then have "len - room \<noteq> 0" using r by auto
    then show ?thesis unfolding f using False r d room lt len by (simp add: fragment_ok_def)
  qed
qed

text \<open>
  C37: The packets of an isochronous transfer that passes its check tile the buffer: from the first
  packet's offset to the end of the buffer every byte is in exactly one packet, in order, and no packet
  is longer than the endpoint takes. When a packet is no longer than a page, its fragments hold all of
  it: one, or two of which the first ends exactly at the end of its page, so two TRBs are enough.
\<close>

theorem iso_packets_tile:
  assumes "XhciPipeIsoCheck (Some ps) count bufferLength maxCount maxPacket = XHCI_PIPE_OK"
    and "maxPacket \<noteq> 0" and "maxPacket \<le> 4096" and "pageOffset < 4096"
  shows "concat (map (iso_span ps count bufferLength) [0..<unat count]) = [iso_at ps 0..<unat bufferLength] \<and>
    list_all (\<lambda>i. unat (XhciPipeIsoLength ps count bufferLength (of_nat i)) \<le> unat maxPacket \<and>
        fragment_ok (pageOffset + IpOffset (ps ! i)) (XhciPipeIsoLength ps count bufferLength (of_nat i))
          (XhciPipeIsoFragments pageOffset (IpOffset (ps ! i)) (XhciPipeIsoLength ps count bufferLength (of_nat i))))
      [0..<unat count]"
proof -
  have all: "list_all (iso_packet_ok ps count bufferLength maxPacket) [0..<unat count]" and c: "count \<noteq> 0"
    using assms(1) by (auto simp: XhciPipeIsoCheck_def split: if_splits)
  obtain n where n: "unat count = Suc n" using c by (metis not0_implies_Suc unat_eq_0)
  note pre = iso_prefix [OF all, of n] and last = iso_length(2) [OF all, of n] and le = iso_length(1) [OF all, of n]
  have e: "iso_at ps n + unat (XhciPipeIsoLength ps count bufferLength (of_nat n)) = unat bufferLength" using last n by simp
  have "[iso_at ps 0..<iso_at ps n] @ [iso_at ps n..<unat bufferLength] = [iso_at ps 0..<unat bufferLength]"
    using pre le n upt_add_eq_append [of "iso_at ps 0" "iso_at ps n" "unat bufferLength - iso_at ps n"] by simp
  then have "concat (map (iso_span ps count bufferLength) [0..<unat count]) = [iso_at ps 0..<unat bufferLength]"
    using pre n e by (simp add: iso_span_def)
  moreover have "XhciPipeIsoLength ps count bufferLength (of_nat i) \<le> maxPacket" if "i < unat count" for i
    by (rule iso_length(3) [OF all that assms(2)])
  ultimately show ?thesis
    using assms(3) fragments_ok [OF assms(4)] order_trans by (fastforce simp: list_all_iff word_le_nat_alt [symmetric])
qed

theorem iso_packets_tile_witness:
  "concat (map (iso_span [\<lparr>IpOffset = 0, IpLength = 0, IpStatus = 0\<rparr>, \<lparr>IpOffset = 3, IpLength = 0, IpStatus = 0\<rparr>] 2 5) [0..<2]) =
     [0..<5] \<and>
   fragment_ok (0xFFF + 3) 2 (XhciPipeIsoFragments 0xFFF 3 2)"
proof -
  let ?ps = "[\<lparr>IpOffset = 0, IpLength = 0, IpStatus = 0\<rparr>, \<lparr>IpOffset = 3, IpLength = 0, IpStatus = 0\<rparr>]"
  have c: "XhciPipeIsoCheck (Some ?ps) 2 5 8 192 = XHCI_PIPE_OK" by code_simp
  have l: "XhciPipeIsoLength ?ps 2 5 1 = 2" by code_simp
  have u: "[0..<unat (2 :: ulong)] = [0, 1]" by (simp add: upt_rec)
  show ?thesis
    using iso_packets_tile [OF c, of "0xFFF"] l unfolding u by (simp add: upt_rec iso_at_def)
qed

end
