(* ===== verification/Xhci_Pipe_Xfer_Props.thy ===== *)
theory Xhci_Pipe_Xfer_Props
  imports Xhci_Pipe_Xfer Xhci_Pipe_Desc_Props
begin

unbundle bit_operations_syntax

text \<open>
  Sequence stamps come back whole, a buffer is split into page pieces that cover it, a Configure
  Endpoint plan moves the controller to the wanted endpoints, and SETUP packets carry their request.
\<close>

section \<open>Sequence stamps\<close>

text \<open>\<open>m\<close> submissions after \<open>s\<close>.\<close>

primrec seq_after :: "nat \<Rightarrow> xhci_seq64 \<Rightarrow> xhci_seq64" where
  "seq_after 0 s = s"
| "seq_after (Suc m) s = XhciSeqNext (seq_after m s)"

definition seq_value :: "xhci_seq64 \<Rightarrow> nat" where
  "seq_value s = unat (SeqHi s) * 4294967296 + unat (SeqLo s)"

lemma less_eq_value: "XhciSeqLessEq a b \<longleftrightarrow> seq_value a \<le> seq_value b"
proof -
  have "unat (SeqLo a) < 4294967296" "unat (SeqLo b) < 4294967296" by simp_all
  then show ?thesis
    unfolding XhciSeqLessEq_def seq_value_def word_less_nat_alt word_le_nat_alt unat_eq_iff [symmetric] by linarith
qed

text \<open>A lap has \<open>2^32 - 1\<close> values: either the low word has not passed 0, or it has once.\<close>

lemma seq_after_lap:
  assumes "SeqLo s \<noteq> 0" and "m < 4294967295"
  shows "SeqLo (seq_after m s) \<noteq> 0 \<and>
    (SeqHi (seq_after m s) = SeqHi s \<and> unat (SeqLo (seq_after m s)) = unat (SeqLo s) + m \<or>
     SeqHi (seq_after m s) = SeqHi s + 1 \<and> unat (SeqLo (seq_after m s)) + 4294967295 = unat (SeqLo s) + m)"
  using assms(2)
proof (induction m)
  case 0
  then show ?case using assms(1) by simp
next
  case (Suc m)
  let ?t = "seq_after m s"
  have pos: "0 < unat (SeqLo s)" using assms(1) by (simp add: unat_gt_0)
  have IH: "SeqLo ?t \<noteq> 0" "SeqHi ?t = SeqHi s \<and> unat (SeqLo ?t) = unat (SeqLo s) + m \<or>
      SeqHi ?t = SeqHi s + 1 \<and> unat (SeqLo ?t) + 4294967295 = unat (SeqLo s) + m"
    using Suc by simp_all
  show ?case
  proof (cases "unat (SeqLo ?t) = 4294967295")
    case True
    then have "SeqLo ?t + 1 = 0" by (simp add: word_unat_eq_iff unat_word_ariths)
    then show ?thesis using IH True Suc.prems unat_lt_2p32 [of "SeqLo s"] by (auto simp: XhciSeqNext_def Let_def)
  next
    case False
    then have lt: "unat (SeqLo ?t) < 4294967295" using unat_lt_2p32 [of "SeqLo ?t"] by linarith
    have n: "unat (SeqLo ?t + 1) = unat (SeqLo ?t) + 1" using unat_add_no_wrap [of "SeqLo ?t" 1] lt by simp
    then have "SeqLo ?t + 1 \<noteq> 0" by (metis unsigned_0 add_is_0 zero_neq_one)
    then show ?thesis using IH n by (auto simp: XhciSeqNext_def Let_def)
  qed
qed

lemma from_stamp_hi:
  assumes "stamp \<noteq> 0"
  shows "SeqLo c - stamp > SeqLo c \<longleftrightarrow> SeqLo c < stamp"
proof (cases "SeqLo c < stamp")
  case True
  have "unat (SeqLo c - stamp) = unat (SeqLo c) + 4294967296 - unat stamp"
    using True by (simp add: unat_sub_if' word_less_nat_alt)
  moreover have "unat stamp < 4294967296" by simp
  ultimately show ?thesis using True unfolding word_less_nat_alt by linarith
next
  case False
  then have "unat (SeqLo c - stamp) = unat (SeqLo c) - unat stamp" by (intro unat_sub_no_wrap) (simp add: word_less_nat_alt)
  then show ?thesis using False assms by (simp add: word_less_nat_alt)
qed

text \<open>
  C38: A request's full stamp comes back from the 32 bits it carries. While fewer than
  \<open>2^32 - 1\<close> submissions have followed it, the stamp rebuilt from the current count is the one the
  request was given, so an abort horizon covers exactly the requests submitted up to it.
\<close>

theorem stamp_reconstructed:
  assumes "SeqLo s \<noteq> 0" and "m < 4294967295"
  shows "XhciSeqFromStamp (seq_after m s) (SeqLo s) = s \<and> \<not> XhciSeqIsNone (seq_after m s) \<and>
    (XhciSeqCovers horizon (SeqLo s) (seq_after m s) \<longleftrightarrow>
      \<not> XhciSeqIsNone horizon \<and>
      seq_value s \<le> seq_value horizon)"
proof -
  let ?t = "seq_after m s"
  note lap = seq_after_lap [OF assms]
  have "SeqLo ?t < SeqLo s \<longleftrightarrow> SeqHi ?t \<noteq> SeqHi s"
    using lap assms by (auto simp: word_less_nat_alt)
  then have rebuilt: "XhciSeqFromStamp ?t (SeqLo s) = s"
    using lap from_stamp_hi [OF assms(1), of ?t] by (auto simp: XhciSeqFromStamp_def Let_def)
  moreover have "\<not> XhciSeqIsNone ?t" using lap by (auto simp: XhciSeqIsNone_def)
  ultimately show ?thesis using assms(1) by (simp add: XhciSeqCovers_def less_eq_value)
qed

theorem stamp_reconstructed_witness:
  "XhciSeqFromStamp (seq_after 3 \<lparr>SeqLo = 0xFFFFFFFE, SeqHi = 4\<rparr>) 0xFFFFFFFE = \<lparr>SeqLo = 0xFFFFFFFE, SeqHi = 4\<rparr> \<and>
   \<not> XhciSeqCovers \<lparr>SeqLo = 0xFFFFFFFD, SeqHi = 4\<rparr> 0xFFFFFFFE (seq_after 3 \<lparr>SeqLo = 0xFFFFFFFE, SeqHi = 4\<rparr>)"
  using stamp_reconstructed [of "\<lparr>SeqLo = 0xFFFFFFFE, SeqHi = 4\<rparr>" 3 "\<lparr>SeqLo = 0xFFFFFFFD, SeqHi = 4\<rparr>"]
  by (simp add: seq_value_def)

section \<open>The Configure Endpoint plan\<close>

lemma endpoint_mask: "dcis (m AND NOT XHCI_PIPE_ENDPOINT_MASK) = dcis m \<inter> {0, 1}"
proof -
  have "bit (NOT (0xFFFFFFFC :: ulong)) n \<longleftrightarrow> n = 0 \<or> n = 1" for n
  proof -
    have "NOT (0xFFFFFFFC :: ulong) = mask 2" by (simp add: mask_eq_exp_minus_1)
    then show ?thesis by (simp only: bit_mask_iff) auto
  qed
  then show ?thesis by (auto simp: dcis_def bit_and_iff)
qed

lemma find_rev_upt:
  "find P (List.rev [a..<b]) = (if \<exists>i\<in>{a..<b}. P i then Some (Max {i \<in> {a..<b}. P i}) else None)"
proof (induction b)
  case (Suc b)
  show ?case
  proof (cases "a \<le> b")
    case True
    then have f: "find P (List.rev [a..<Suc b]) = (if P b then Some b else find P (List.rev [a..<b]))" by simp
    show ?thesis
    proof (cases "P b")
      case True
      have "Max {i \<in> {a..<Suc b}. P i} = b" using True \<open>a \<le> b\<close> by (intro Max_eqI) auto
      then show ?thesis using True \<open>a \<le> b\<close> by auto
    next
      case False
      have "{i \<in> {a..<Suc b}. P i} = {i \<in> {a..<b}. P i}" using False by (auto simp: less_Suc_eq)
      moreover have "(\<exists>i\<in>{a..<Suc b}. P i) \<longleftrightarrow> (\<exists>i\<in>{a..<b}. P i)" using False by (auto simp: less_Suc_eq)
      ultimately show ?thesis using f False Suc by simp
    qed
  qed simp
qed simp

text \<open>
  C34: A Configure Endpoint plan takes the controller from the old endpoints to the new ones. It is made
  exactly when the three masks name endpoint contexts and nothing kept is dropped or added, and is left
  alone otherwise; dropping and then adding what it says turns the kept and old endpoints into the kept
  and new ones; the slot context is always added, the default endpoint never; and the entries are
  the highest endpoint left, or 1.
\<close>

theorem configure_plan_exact:
  "\<exists>st p'. XhciPipeConfigurePlan keepMask oldMask newMask (Some p) = (st, Some p') \<and>
    (st = XHCI_PIPE_OK \<longleftrightarrow> dcis keepMask \<union> dcis oldMask \<union> dcis newMask \<subseteq> {2..31} \<and>
       dcis keepMask \<inter> (dcis oldMask \<union> dcis newMask) = {}) \<and>
    (st \<noteq> XHCI_PIPE_OK \<longrightarrow> st = XHCI_PIPE_BAD_PARAM \<and> p' = p) \<and>
    (st = XHCI_PIPE_OK \<longrightarrow>
       dcis (Enabled p') = dcis keepMask \<union> dcis oldMask - dcis (DropFlags p') \<union> (dcis (AddFlags p') - {0}) \<and>
       dcis (Enabled p') = dcis keepMask \<union> dcis newMask \<and>
       dcis (DropFlags p') = dcis oldMask \<and> dcis (AddFlags p') = insert 0 (dcis newMask) \<and>
       unat (ContextEntries p') = (if dcis (Enabled p') = {} then 1 else Max (dcis (Enabled p'))))"
proof -
  let ?all = "(keepMask OR oldMask OR newMask) AND NOT XHCI_PIPE_ENDPOINT_MASK"
  have legal: "?all = 0 \<longleftrightarrow> dcis keepMask \<union> dcis oldMask \<union> dcis newMask \<subseteq> {2..31}"
  proof -
    have "?all = 0 \<longleftrightarrow> (dcis keepMask \<union> dcis oldMask \<union> dcis newMask) \<inter> {0, 1} = {}"
      unfolding dcis_empty endpoint_mask dcis_simps(1) Un_assoc ..
    also have "\<dots> \<longleftrightarrow> dcis keepMask \<union> dcis oldMask \<union> dcis newMask \<subseteq> {2..31}"
    proof -
      have "d = 0 \<or> d = 1 \<or> d \<in> {2..31}" if "d < 32" for d :: nat using that by auto
      then show ?thesis using dcis_lt by fastforce
    qed
    finally show ?thesis .
  qed
  have apart: "keepMask AND (oldMask OR newMask) = 0 \<longleftrightarrow> dcis keepMask \<inter> (dcis oldMask \<union> dcis newMask) = {}"
    by (simp only: dcis_empty dcis_simps)
  show ?thesis
  proof (cases "?all = 0 \<and> keepMask AND (oldMask OR newMask) = 0")
    case False
    then have "XhciPipeConfigurePlan keepMask oldMask newMask (Some p) = (XHCI_PIPE_BAD_PARAM, Some p)"
      unfolding XhciPipeConfigurePlan_def option.case by (simp only: if_True if_False split: if_split) blast
    then show ?thesis using False legal apart by blast
  next
    case True
    let ?e = "keepMask OR newMask"
    define entries where "entries = (case find (\<lambda>dci. ?e AND XHCI_PIPE_DCI_BIT (of_nat dci) \<noteq> 0) (List.rev [2..<32]) of
        None \<Rightarrow> (1 :: ulong) | Some dci \<Rightarrow> of_nat dci)"
    define q where "q = p\<lparr>Enabled := ?e, DropFlags := oldMask, AddFlags := XHCI_PIPE_DCI_BIT 0 OR newMask, ContextEntries := entries\<rparr>"
    have r: "XhciPipeConfigurePlan keepMask oldMask newMask (Some p) = (XHCI_PIPE_OK, Some q)"
      unfolding XhciPipeConfigurePlan_def option.case Let_def entries_def [symmetric] q_def [symmetric]
      by (simp only: True if_False simp_thms)
    have e: "dcis ?e = dcis keepMask \<union> dcis newMask" by simp
    then have sub: "dcis ?e \<subseteq> {2..31}" using True legal by auto
    have zero: "dcis (XHCI_PIPE_DCI_BIT 0) = {0}"
      using dci_bit [of 0] by (auto simp: dcis_def bit_1_iff)
    have t: "unat entries = (if dcis ?e = {} then 1 else Max (dcis ?e))"
    proof -
      have f: "find (\<lambda>dci. ?e AND XHCI_PIPE_DCI_BIT (of_nat dci) \<noteq> 0) (List.rev [2..<32]) =
          (if dcis ?e = {} then None else Some (Max (dcis ?e)))"
      proof -
        have ev: "{i \<in> {2..<32}. ?e AND XHCI_PIPE_DCI_BIT (of_nat i) \<noteq> 0} = dcis ?e"
        proof (intro set_eqI iffI)
          fix i assume "i \<in> {i \<in> {2..<32}. ?e AND XHCI_PIPE_DCI_BIT (of_nat i) \<noteq> 0}"
          then show "i \<in> dcis ?e" using and_dci_bit [of i ?e] by (simp add: dcis_def)
        next
          fix i assume i: "i \<in> dcis ?e"
          then have "i \<in> {2..<32}" using sub by auto
          then show "i \<in> {i \<in> {2..<32}. ?e AND XHCI_PIPE_DCI_BIT (of_nat i) \<noteq> 0}"
            using i and_dci_bit [of i ?e] by (simp add: dcis_def)
        qed
        then have "(\<exists>i\<in>{2..<32}. ?e AND XHCI_PIPE_DCI_BIT (of_nat i) \<noteq> 0) \<longleftrightarrow> dcis ?e \<noteq> {}" by blast
        then show ?thesis unfolding find_rev_upt ev by simp
      qed
      show ?thesis
      proof (cases "dcis ?e = {}")
        case True
        then show ?thesis unfolding entries_def f by simp
      next
        case False
        have "finite (dcis ?e)" using sub finite_subset by blast
        then have "Max (dcis ?e) \<in> {2..31}" using Max_in False sub by blast
        then have "unat (of_nat (Max (dcis ?e)) :: ulong) = Max (dcis ?e)" by (intro unat_of_nat_ulong) simp
        then show ?thesis unfolding entries_def f if_not_P [OF False] option.case .
      qed
    qed
    have drop: "dcis keepMask \<union> dcis newMask = dcis keepMask \<union> dcis oldMask - dcis oldMask \<union> (insert 0 (dcis newMask) - {0})"
      using True legal apart by auto
    have qs: "Enabled q = ?e" "DropFlags q = oldMask" "AddFlags q = XHCI_PIPE_DCI_BIT 0 OR newMask" "ContextEntries q = entries"
      by (simp_all add: q_def)
    have add: "dcis (XHCI_PIPE_DCI_BIT 0 OR newMask) = insert 0 (dcis newMask)" using zero by simp
    show ?thesis
      by (rule exI [of _ XHCI_PIPE_OK], rule exI [of _ q], unfold qs e add)
        (use r True legal apart t drop in \<open>simp only: simp_thms e\<close>)
  qed
qed

theorem configure_plan_exact_witness:
  "\<exists>p'. XhciPipeConfigurePlan 0x8 0x30 0x1010 (Some \<lparr>AddFlags = 0, DropFlags = 0, ContextEntries = 0, Enabled = 0\<rparr>) =
     (XHCI_PIPE_OK, Some p') \<and> dcis (Enabled p') = dcis 0x8 \<union> dcis 0x1010"
proof -
  let ?p = "\<lparr>AddFlags = 0, DropFlags = 0, ContextEntries = 0, Enabled = 0\<rparr> :: xhci_pipe_plan"
  have "fst (XhciPipeConfigurePlan 0x8 0x30 0x1010 (Some ?p)) = XHCI_PIPE_OK" by code_simp
  then show ?thesis using configure_plan_exact [of "0x8" "0x30" "0x1010" ?p] by auto
qed

section \<open>SETUP packets\<close>

lemma small_bits: "unat (w :: ulong) < 2 ^ k \<longleftrightarrow> (\<forall>n\<ge>k. \<not> bit w n)"
proof -
  have "unat w < 2 ^ k \<longleftrightarrow> take_bit k w = w"
    by (simp only: unat_eq_iff [symmetric] unsigned_take_bit_eq take_bit_nat_eq_self_iff)
  also have "\<dots> \<longleftrightarrow> (\<forall>n\<ge>k. \<not> bit w n)"
    unfolding ulong_eq_iff bit_take_bit_iff by (rule iff_allI) (simp add: not_le [symmetric], blast)
  finally show ?thesis .
qed

lemma byte_mask: "(w :: ulong) \<le> 0xFF \<longleftrightarrow> (\<forall>n\<ge>8. \<not> bit w n)"
  unfolding small_bits [symmetric] by (simp add: word_le_nat_alt less_Suc_eq_le [symmetric])

lemma half_mask: "(w :: ulong) \<le> 0xFFFF \<longleftrightarrow> (\<forall>n\<ge>16. \<not> bit w n)"
  unfolding small_bits [symmetric] by (simp add: word_le_nat_alt less_Suc_eq_le [symmetric])

lemma bit_255: "bit (0xFF :: ulong) n \<longleftrightarrow> n < 8"
proof -
  have "(0xFF :: ulong) = mask 8" by (simp add: mask_eq_exp_minus_1)
  then show ?thesis by (simp only: bit_mask_iff) auto
qed

lemma byte_back: "(w :: ulong) \<le> 0xFF \<Longrightarrow> ucast (ucast w :: uchar) = w"
  unfolding byte_mask ulong_eq_iff bit_ucast_iff by (auto simp: not_le [symmetric] dest: bit_imp_le_length)

lemma word_back:
  assumes "(w :: ulong) \<le> 0xFFFF"
  shows "ucast (ucast (w AND 0xFF) :: uchar) OR push_bit 8 (ucast (ucast (drop_bit 8 w AND 0xFF) :: uchar)) = w"
proof -
  have m: "(0xFF :: ulong) = mask 8" by (simp add: mask_eq_exp_minus_1)
  have lo: "unat (ucast (w AND 0xFF) :: uchar) = unat w mod 256"
    unfolding m by (simp add: unsigned_ucast_eq unsigned_take_bit_eq unat_and_mask take_bit_eq_mod)
  have hi: "unat (ucast (drop_bit 8 w AND 0xFF) :: uchar) = unat w div 256 mod 256"
    unfolding m by (simp add: unsigned_ucast_eq unsigned_take_bit_eq unat_and_mask take_bit_eq_mod drop_bit_eq_div unat_div)
  have "unat w \<le> 65535" using assms by (simp add: word_le_nat_alt)
  then have "unat w mod 256 + 256 * (unat w div 256 mod 256) = unat w" by simp
  then show ?thesis unfolding unat_eq_iff [symmetric] unat_total lo hi .
qed

lemma descriptor_word: "(a :: ulong) \<le> 0xFF \<Longrightarrow> b \<le> 0xFF \<Longrightarrow> push_bit 8 a OR b \<le> 0xFFFF"
  unfolding half_mask byte_mask by (auto simp: bit_or_iff bit_push_bit_iff)

text \<open>The fields a built request can have.\<close>

definition setup_in_range :: "xhci_pipe_control \<Rightarrow> ulong \<times> ulong \<times> ulong \<times> ulong \<times> ulong \<Rightarrow> bool" where
  "setup_in_range c = (\<lambda>(rt, request, v, index, n).
     rt \<le> 0xFF \<and> request \<le> 0xFF \<and> v \<le> 0xFFFF \<and> index \<le> 0xFFFF \<and> n \<le> PcLength c \<and>
     (rt AND XHCI_PIPE_RT_TYPE_MASK = 0 \<longrightarrow> request \<noteq> XHCI_PIPE_REQ_SET_ADDRESS \<and>
        request \<noteq> XHCI_PIPE_REQ_SET_CONFIGURATION \<and> request \<noteq> XHCI_PIPE_REQ_SET_INTERFACE))"

lemma setup_descriptor_range: "setup_descriptor c = Inr r \<Longrightarrow> setup_in_range c r"
  unfolding setup_descriptor_def Let_def
  by (auto simp: setup_in_range_def not_less intro!: descriptor_word split: if_splits)

lemma setup_feature_range: "setup_feature c = Inr r \<Longrightarrow> setup_in_range c r"
  unfolding setup_feature_def Let_def by (auto simp: setup_in_range_def not_less split: if_splits)

lemma setup_status_range: "setup_status c = Inr r \<Longrightarrow> setup_in_range c r"
  unfolding setup_status_def Let_def by (auto simp: setup_in_range_def not_less split: if_splits)

lemma setup_typed_range: "setup_typed c = Inr r \<Longrightarrow> setup_in_range c r"
  unfolding setup_typed_def Let_def by (auto simp: setup_in_range_def not_less split: if_splits)

lemma setup_request_refused: "setup_request c = Inl st \<Longrightarrow> st \<noteq> XHCI_PIPE_OK"
  unfolding setup_request_def setup_descriptor_def setup_feature_def setup_status_def setup_typed_def Let_def split_def
  by (simp split: if_split_asm)

lemma setup_request_range: "setup_request c = Inr r \<Longrightarrow> setup_in_range c r"
proof -
  assume r: "setup_request c = Inr r"
  consider "setup_descriptor c = Inr r" | "setup_feature c = Inr r" | "setup_status c = Inr r" | "setup_typed c = Inr r"
    | "r = (0x80, 8, 0, 0, 1)" "\<not> PcLength c < 1"
    | "r = (0x81, 10, 0, PcIndex c, 1)" "\<not> PcIndex c > 0xFFFF" "\<not> PcLength c < 1"
    using r unfolding setup_request_def Let_def by (simp split: if_split_asm)
  then show ?thesis
  proof cases
    case 5
    have "1 \<le> PcLength c" using 5(2) by (simp only: not_less)
    then show ?thesis unfolding 5(1) setup_in_range_def by simp
  next
    case 6
    have "1 \<le> PcLength c" "PcIndex c \<le> 0xFFFF" using 6(2,3) by (simp_all only: not_less)
    then show ?thesis unfolding 6(1) setup_in_range_def by simp
  qed (fact setup_descriptor_range setup_feature_range setup_status_range setup_typed_range)+
qed




section \<open>Splitting a buffer\<close>

text \<open>The offsets of the mapped pages a piece names, and a piece that stays inside its page.\<close>

definition piece_span :: "xhci_pipe_element \<Rightarrow> nat list" where
  "piece_span e = (let at = 4096 * unat (ElPage e) + unat (ElOffset e) in [at..<at + unat (ElLength e)])"

definition piece_ok :: "xhci_pipe_element \<Rightarrow> bool" where
  "piece_ok e \<longleftrightarrow> ElLength e \<noteq> 0 \<and> unat (ElOffset e) + unat (ElLength e) \<le> 4096"

lemma split_loop_returns:
  assumes "unat offset < 4096" and "remaining \<noteq> 0 \<Longrightarrow> 4096 * unat n + unat offset + unat remaining \<le> 262144"
  shows "\<exists>new. split_loop n offset remaining els = Some (els @ new) \<and>
    concat (map piece_span new) =
      [4096 * unat n + unat offset..<4096 * unat n + unat offset + unat remaining] \<and>
    list_all piece_ok new \<and>
    length new = (if remaining = 0 then 0 else (unat offset + unat remaining + 4095) div 4096)"
  using assms
proof (induction "unat remaining" arbitrary: n offset remaining els rule: less_induct)
  case less
  show ?case
  proof (cases "remaining = 0")
    case True
    then show ?thesis by (intro exI [of _ "[]"]) (simp add: split_loop.simps)
  next
    case False
    define piece where "piece = (if 4096 - offset > remaining then remaining else 4096 - offset)"
    have page: "unat (4096 - offset) = 4096 - unat offset"
      using less.prems(1) by (subst unat_sub_no_wrap) simp_all
    have p: "unat piece = min (4096 - unat offset) (unat remaining)"
      unfolding piece_def by (simp add: word_less_nat_alt page)
    have pos: "0 < unat remaining" using False by (simp add: unat_gt_0)
    then have ppos: "0 < unat piece" using p less.prems(1) by simp
    have rem: "unat (remaining - piece) = unat remaining - unat piece" using p by (intro unat_sub_no_wrap) simp
    have bound: "4096 * unat n + unat offset + unat remaining \<le> 262144" using less.prems(2) False by blast
    then have n1: "unat (n + 1) = unat n + 1" by (intro trans [OF unat_add_no_wrap]) simp_all
    let ?e = "\<lparr>ElPage = n, ElOffset = offset, ElLength = piece\<rparr>"
    have go: "split_loop n offset remaining els = split_loop (n + 1) 0 (remaining - piece) (els @ [?e])"
      using False by (subst split_loop.simps) (simp add: piece_def Let_def)
    have "unat (remaining - piece) < unat remaining" using rem ppos pos by simp
    moreover have "unat (0 :: ulong) < 4096" by simp
    moreover have full: "unat piece = 4096 - unat offset" if "remaining - piece \<noteq> 0"
      using that rem p by (auto simp: word_unat_eq_iff min_def split: if_splits)
    moreover have "4096 * unat (n + 1) + unat (0 :: ulong) + unat (remaining - piece) \<le> 262144"
      if "remaining - piece \<noteq> 0"
      using full [OF that] bound n1 rem less.prems(1) p by simp
    ultimately obtain new where new: "split_loop (n + 1) 0 (remaining - piece) (els @ [?e]) = Some ((els @ [?e]) @ new)"
      "concat (map piece_span new) = [4096 * unat (n + 1)..<4096 * unat (n + 1) + unat (remaining - piece)]"
      "list_all piece_ok new"
      "length new = (if remaining - piece = 0 then 0 else (unat (remaining - piece) + 4095) div 4096)"
      using less.hyps [of "remaining - piece" 0 "n + 1" "els @ [?e]"] by auto
    have "concat (map piece_span (?e # new)) =
        [4096 * unat n + unat offset..<4096 * unat n + unat offset + unat remaining] \<and>
        length (?e # new) = (unat offset + unat remaining + 4095) div 4096"
    proof (cases "remaining - piece = 0")
      case True
      then have "unat piece = unat remaining" by simp
      moreover have "unat offset + unat remaining \<le> 4096" using calculation p less.prems(1) by simp
      moreover have "(unat offset + unat remaining + 4095) div 4096 = 1" using calculation(2) pos by (intro div_nat_eqI) simp_all
      ultimately show ?thesis using True new(2,4) by (simp add: piece_span_def Let_def)
    next
      case False
      have f: "unat piece = 4096 - unat offset" by (rule full [OF False])
      let ?r = "unat (remaining - piece)"
      have r: "unat offset + unat remaining = 4096 + ?r" using rem f p less.prems(1) by simp
      have "[4096 * unat n + unat offset..<4096 * unat n + 4096] @ [4096 * unat n + 4096..<4096 * unat n + 4096 + ?r] =
          [4096 * unat n + unat offset..<4096 * unat n + 4096 + ?r]"
        using less.prems(1) by (subst upt_add_eq_append [symmetric]) simp_all
      moreover have "piece_span ?e = [4096 * unat n + unat offset..<4096 * unat n + 4096]"
        using f less.prems(1) by (simp add: piece_span_def Let_def)
      moreover have "concat (map piece_span new) = [4096 * unat n + 4096..<4096 * unat n + 4096 + ?r]"
        unfolding new(2) n1 by (simp add: add.commute add.left_commute)
      moreover have "(unat offset + unat remaining + 4095) div 4096 = 1 + (?r + 4095) div 4096" unfolding r by simp
      moreover have tot: "4096 * unat n + unat offset + unat remaining = 4096 * unat n + 4096 + ?r" using r by simp
      ultimately show ?thesis unfolding tot using False new(4) by simp
    qed
    moreover have "piece_ok ?e" using ppos p less.prems(1) by (auto simp: piece_ok_def)
    ultimately show ?thesis using go new(1,3) False by (intro exI [of _ "?e # new"]) simp
  qed
qed

text \<open>The bytes one chunk can take: what the map registers and elements reach, at most a TD.\<close>

definition split_room :: "ulong \<Rightarrow> ulong \<Rightarrow> ulong \<Rightarrow> nat" where
  "split_room pageOffset mapRegisters maxElements =
     4096 * Min {unat mapRegisters, unat maxElements, 32} - unat pageOffset"

lemma split_chunk_value:
  assumes "unat pageOffset < 4096" and "maxPacketSize \<noteq> 0"
    and "unat pages = Min {unat mapRegisters, unat maxElements, 32}" and "pages \<noteq> 0"
  shows "unat (split_chunk pageOffset bytes maxPacketSize pages) =
      (let room = split_room pageOffset mapRegisters maxElements in
       if unat bytes \<le> room then unat bytes else room - room mod unat maxPacketSize)"
    and "unat (split_chunk pageOffset bytes maxPacketSize pages) + unat pageOffset \<le> 4096 * unat pages"
    and "split_chunk pageOffset bytes maxPacketSize pages \<le> bytes"
proof -
  have few: "unat pages \<le> 32" using assms(3) by simp
  define cap where "cap = pages * 4096 - pageOffset"
  have pos: "0 < unat pages" using assms(4) by (simp add: unat_gt_0)
  have times: "unat (pages * 4096) = unat pages * 4096" using few by (intro trans [OF unat_mult_no_wrap]) simp_all
  have cap: "unat cap = 4096 * unat pages - unat pageOffset"
    unfolding cap_def using times pos assms(1) by (subst unat_sub_no_wrap) simp_all
  have room: "unat cap = split_room pageOffset mapRegisters maxElements"
    unfolding cap split_room_def assms(3) ..
  have td: "\<not> cap > 0x20000" using cap few by (simp add: word_less_nat_alt)
  define chunk where "chunk = (if bytes < cap then bytes else cap)"
  have sp: "split_chunk pageOffset bytes maxPacketSize pages =
      (if chunk < bytes then chunk - chunk mod maxPacketSize else chunk)"
    unfolding split_chunk_def Let_def cap_def [symmetric] if_not_P [OF td] chunk_def [symmetric] ..
  have cut: "unat (cap - cap mod maxPacketSize) = unat cap - unat cap mod unat maxPacketSize"
    by (subst unat_sub_no_wrap) (simp_all add: unat_mod)
  have sv: "unat (split_chunk pageOffset bytes maxPacketSize pages) =
      (if unat bytes \<le> unat cap then unat bytes else unat cap - unat cap mod unat maxPacketSize)"
  proof (cases "unat bytes \<le> unat cap")
    case True
    then have "chunk = bytes" by (auto simp: chunk_def word_less_nat_alt not_less unat_eq_iff)
    then show ?thesis unfolding sp using True by simp
  next
    case False
    then have "chunk = cap" "cap < bytes" by (simp_all add: chunk_def word_less_nat_alt)
    then show ?thesis unfolding sp using False cut by simp
  qed
  then show "unat (split_chunk pageOffset bytes maxPacketSize pages) =
      (let room = split_room pageOffset mapRegisters maxElements in
       if unat bytes \<le> room then unat bytes else room - room mod unat maxPacketSize)"
    unfolding room Let_def .
  have "unat (split_chunk pageOffset bytes maxPacketSize pages) \<le> unat cap" unfolding sv by simp
  then show "unat (split_chunk pageOffset bytes maxPacketSize pages) + unat pageOffset \<le> 4096 * unat pages"
    using cap pos assms(1) by linarith
  show "split_chunk pageOffset bytes maxPacketSize pages \<le> bytes" unfolding word_le_nat_alt sv by (split if_split) linarith
qed

text \<open>A split that is not refused outright, and its pages.\<close>

lemma split_some:
  assumes "unat pageOffset < 4096" and "maxPacketSize \<noteq> 0" and "bytes \<noteq> 0" and "pages \<noteq> 0"
    and pages: "unat pages = Min {unat mapRegisters, unat maxElements, 32}"
    and split: "XhciPipeSplit pageOffset bytes maxPacketSize mapRegisters maxElements =
      (let chunk = split_chunk pageOffset bytes maxPacketSize pages in
       if chunk < bytes \<and> chunk = 0 then Some (XHCI_PIPE_BAD_PARAM, [], 0)
       else case split_loop 0 pageOffset chunk [] of None \<Rightarrow> None | Some elements \<Rightarrow> Some (XHCI_PIPE_OK, elements, chunk))"
    and room_def: "room = split_room pageOffset mapRegisters maxElements"
  shows "if unat bytes \<le> room \<or> unat maxPacketSize \<le> room
    then \<exists>els chunk. XhciPipeSplit pageOffset bytes maxPacketSize mapRegisters maxElements = Some (XHCI_PIPE_OK, els, chunk) \<and>
      unat chunk = (if unat bytes \<le> room then unat bytes else room - room mod unat maxPacketSize) \<and> chunk \<noteq> 0 \<and>
      concat (map piece_span els) = [unat pageOffset..<unat pageOffset + unat chunk] \<and>
      list_all piece_ok els \<and> length els \<le> unat pages
    else XhciPipeSplit pageOffset bytes maxPacketSize mapRegisters maxElements = Some (XHCI_PIPE_BAD_PARAM, [], 0)"
proof -
  define chunk where "chunk = split_chunk pageOffset bytes maxPacketSize pages"
  note amount = split_chunk_value [OF assms(1,2) pages assms(4), of bytes, folded chunk_def room_def, unfolded Let_def]
  have few: "unat pages \<le> 32" using pages by simp
  have bpos: "0 < unat bytes" "0 < unat maxPacketSize" using assms(2,3) by (simp_all add: unat_gt_0)
  have cz: "chunk = 0 \<longleftrightarrow> \<not> (unat bytes \<le> room \<or> unat maxPacketSize \<le> room)"
  proof -
    have "chunk = 0 \<longleftrightarrow> unat chunk = 0" by (simp add: unat_eq_0)
    also have "\<dots> \<longleftrightarrow> \<not> unat bytes \<le> room \<and> room \<le> room mod unat maxPacketSize" unfolding amount(1) using bpos by simp
    also have "room \<le> room mod unat maxPacketSize \<longleftrightarrow> room < unat maxPacketSize"
      using mod_less_divisor [OF bpos(2), of room] by auto
    finally show ?thesis by (simp add: not_le)
  qed
  have lt: "chunk < bytes \<and> chunk = 0 \<longleftrightarrow> chunk = 0" using assms(3) by (auto simp: word_gt_0)
  show ?thesis
  proof (cases "chunk = 0")
    case True
    then show ?thesis unfolding split Let_def chunk_def [symmetric] lt using cz by simp
  next
    case False
    obtain els where els: "split_loop 0 pageOffset chunk [] = Some els"
      "concat (map piece_span els) = [unat pageOffset..<unat pageOffset + unat chunk]" "list_all piece_ok els"
      "length els = (unat pageOffset + unat chunk + 4095) div 4096"
      using split_loop_returns [OF assms(1), of chunk 0 "[]"] amount(2) few False by auto
    have "length els < unat pages + 1" unfolding els(4) using amount(2) by (intro less_mult_imp_div_less) simp
    then show ?thesis unfolding split Let_def chunk_def [symmetric] lt using False cz els amount(1) by simp
  qed
qed

text \<open>
  C36: Splitting a buffer always returns, and what it gives is ready for a TD. A buffer is refused only for
  an offset outside a page, a zero packet size, no map registers or elements, or no room for a packet;
  else the chunk is all of it, or the whole packets there is room for, never nothing; the pieces are
  consecutive, not empty, none crosses a page, there are at most as many as map registers, elements and
  32, and they hold exactly the bytes of the chunk in order.
\<close>

theorem split_covers:
  "\<exists>st els chunk. XhciPipeSplit pageOffset bytes maxPacketSize mapRegisters maxElements = Some (st, els, chunk) \<and>
    (let room = split_room pageOffset mapRegisters maxElements;
         pages = Min {unat mapRegisters, unat maxElements, 32} in
     (st = XHCI_PIPE_OK \<longleftrightarrow> unat pageOffset < 4096 \<and> maxPacketSize \<noteq> 0 \<and>
        (bytes = 0 \<or> 0 < pages \<and> (unat bytes \<le> room \<or> unat maxPacketSize \<le> room))) \<and>
     (if st = XHCI_PIPE_OK
      then unat chunk = (if unat bytes \<le> room then unat bytes else room - room mod unat maxPacketSize) \<and>
           (chunk = 0 \<longleftrightarrow> bytes = 0) \<and>
           concat (map piece_span els) = [unat pageOffset..<unat pageOffset + unat chunk] \<and>
           list_all piece_ok els \<and> length els \<le> pages
      else st = XHCI_PIPE_BAD_PARAM \<and> els = [] \<and> chunk = 0))"
proof -
  define pages where "pages = (if (if mapRegisters > maxElements then maxElements else mapRegisters) > 32 then 32
    else if mapRegisters > maxElements then maxElements else mapRegisters)"
  have pages: "unat pages = Min {unat mapRegisters, unat maxElements, 32}"
    by (auto simp: pages_def word_less_nat_alt min_def)
  define room where "room = split_room pageOffset mapRegisters maxElements"
  note split = XhciPipeSplit_def [of pageOffset bytes maxPacketSize mapRegisters maxElements, unfolded Let_def, folded pages_def]
  have off: "pageOffset \<ge> 4096 \<longleftrightarrow> \<not> unat pageOffset < 4096" by (simp add: word_le_nat_alt not_less)
  have zero: "pages = 0 \<longleftrightarrow> \<not> 0 < unat pages" by (simp add: unat_gt_0)
  show ?thesis
  proof (cases "unat pageOffset < 4096 \<and> maxPacketSize \<noteq> 0 \<and> bytes \<noteq> 0 \<and> pages \<noteq> 0")
    case False
    have "XhciPipeSplit pageOffset bytes maxPacketSize mapRegisters maxElements =
        Some (if unat pageOffset < 4096 \<and> maxPacketSize \<noteq> 0 \<and> bytes = 0 then XHCI_PIPE_OK else XHCI_PIPE_BAD_PARAM, [], 0)"
      using False unfolding split off
      by (cases "unat pageOffset < 4096"; cases "maxPacketSize = 0"; cases "bytes = 0"; cases "pages = 0") simp_all
    then show ?thesis using False zero
      unfolding Let_def pages [symmetric] room_def [symmetric] by (cases "bytes = 0") auto
  next
    case True
    then have eq: "XhciPipeSplit pageOffset bytes maxPacketSize mapRegisters maxElements =
      (let chunk = split_chunk pageOffset bytes maxPacketSize pages in
       if chunk < bytes \<and> chunk = 0 then Some (XHCI_PIPE_BAD_PARAM, [], 0)
       else case split_loop 0 pageOffset chunk [] of None \<Rightarrow> None | Some elements \<Rightarrow> Some (XHCI_PIPE_OK, elements, chunk))"
      unfolding split off Let_def by simp
    note some = split_some [OF _ _ _ _ pages eq room_def]
    show ?thesis
    proof (cases "unat bytes \<le> room \<or> unat maxPacketSize \<le> room")
      case fits: True
      then obtain els chunk where "XhciPipeSplit pageOffset bytes maxPacketSize mapRegisters maxElements = Some (XHCI_PIPE_OK, els, chunk)"
        "unat chunk = (if unat bytes \<le> room then unat bytes else room - room mod unat maxPacketSize)" "chunk \<noteq> 0"
        "concat (map piece_span els) = [unat pageOffset..<unat pageOffset + unat chunk]"
        "list_all piece_ok els" "length els \<le> unat pages"
        using some True by auto
      then show ?thesis unfolding Let_def pages [symmetric] room_def [symmetric] using True zero fits by simp
    next
      case tight: False
      then show ?thesis unfolding Let_def pages [symmetric] room_def [symmetric] using some True zero tight by simp
    qed
  qed
qed

theorem split_covers_witness:
  "\<exists>els. XhciPipeSplit 0xE00 0x3000 0x400 2 8 = Some (XHCI_PIPE_OK, els, 0x1000) \<and>
     concat (map piece_span els) = [3584..<7680] \<and> length els \<le> 2"
proof -
  have room: "split_room 0xE00 2 8 = 4608" by (simp add: split_room_def)
  have "\<exists>els chunk. XhciPipeSplit 0xE00 0x3000 0x400 2 8 = Some (XHCI_PIPE_OK, els, chunk) \<and>
      unat chunk = 4096 \<and> concat (map piece_span els) = [3584..<3584 + unat chunk] \<and> length els \<le> 2"
    using split_covers [of "0xE00" "0x3000" "0x400" 2 8] unfolding room Let_def by simp blast
  then obtain els chunk where s: "XhciPipeSplit 0xE00 0x3000 0x400 2 8 = Some (XHCI_PIPE_OK, els, chunk)"
    and c: "unat chunk = 4096" and e: "concat (map piece_span els) = [3584..<3584 + unat chunk]" "length els \<le> 2"
    by blast
  have "chunk = 0x1000" using c by (simp add: word_unat_eq_iff)
  moreover have "3584 + unat chunk = 7680" using c by simp
  ultimately show ?thesis using s e by (intro exI [of _ els]) (simp only: simp_thms)
qed

end
