(* ===== verification/Spec2Isabelle.thy ===== *)
theory Spec2Isabelle
  imports Xhci_Event_Ring Xhci_Layout Xhci_Pool Xhci_Port_Props Xhci_Desc_Props Xhci_Ctx_Props Xhci_Cmd_Watchdog
    Xhci_Caps_Props Xhci_Speed_Props Xhci_Geometry_Props Xhci_Topo_Props
    Xhci_Own_Props Xhci_Link_Props Xhci_Hub_Order Xhci_Stream_Props
    Xhci_Pipe_Ep_Props Xhci_Pipe_Bos_Props Xhci_Pipe_Iso_Props Xhci_Pipe_Xfer_Props
begin

text \<open>
  A verification of the controller-independent core of an xHCI host controller driver for
  Windows 98.
\<close>

section \<open>Properties that span components\<close>



end
